(* ===== verification/Prelude.thy ===== *)
theory Prelude
  imports "HOL-Library.Word" "HOL-Library.List_Lexorder" "HOL-Library.Char_ord"
begin

text \<open>
  The machine types of the code and the facts every component shares.

  \<^item> C++ integers keep their width: \<open>uint8_t\<close>, \<open>uint16_t\<close>, \<open>unsigned\<close>, \<open>uint64_t\<close>
    (and, as bit patterns, their signed counterparts) are words; \<open>+\<close> and \<open>-\<close> wrap.
    A signed comparison of the code is written with \<open>sint\<close>.
  \<^item> \<open>std::set\<close> is a list kept in the order of its comparator (\<open>set_insert\<close>,
    \<open>set_find\<close>); what a client may assume of a comparator is the locale
    \<open>strict_comparator\<close>.
  \<^item> a component that is driven by a sequence of calls is a step function;
    the locale \<open>invariant_system\<close> lifts a property kept by every call to
    all sequences of calls.
\<close>

unbundle bit_operations_syntax

type_synonym u8 = "8 word"
type_synonym u16 = "16 word"
type_synonym u32 = "32 word"
type_synonym u64 = "64 word"
type_synonym i32 = "32 word"
type_synonym i64 = "64 word"

text \<open>Results of operations (\<open>StorageErrors.h\<close>).\<close>

datatype FhgfsOpsErr =
    FhgfsOpsErr_DUMMY_DONTUSEME | FhgfsOpsErr_SUCCESS | FhgfsOpsErr_INTERNAL
  | FhgfsOpsErr_INTERRUPTED | FhgfsOpsErr_COMMUNICATION | FhgfsOpsErr_COMMTIMEDOUT
  | FhgfsOpsErr_UNKNOWNNODE | FhgfsOpsErr_NOTOWNER | FhgfsOpsErr_EXISTS
  | FhgfsOpsErr_PATHNOTEXISTS | FhgfsOpsErr_INUSE | FhgfsOpsErr_DYNAMICATTRIBSOUTDATED
  | FhgfsOpsErr_PARENTTOSUBDIR | FhgfsOpsErr_NOTADIR | FhgfsOpsErr_NOTEMPTY | FhgfsOpsErr_NOSPACE
  | FhgfsOpsErr_UNKNOWNTARGET | FhgfsOpsErr_WOULDBLOCK | FhgfsOpsErr_INODENOTINLINED
  | FhgfsOpsErr_SAVEERROR | FhgfsOpsErr_TOOBIG | FhgfsOpsErr_INVAL | FhgfsOpsErr_ADDRESSFAULT
  | FhgfsOpsErr_AGAIN | FhgfsOpsErr_STORAGE_SRV_CRASHED | FhgfsOpsErr_PERM | FhgfsOpsErr_DQUOT
  | FhgfsOpsErr_OUTOFMEM | FhgfsOpsErr_RANGE | FhgfsOpsErr_NODATA | FhgfsOpsErr_NOTSUPP

named_theorems bits_simps \<open>flag tests and flag updates of the code\<close>
named_theorems handle_simps \<open>equality of lock handles\<close>

section \<open>Ordered containers\<close>

text \<open>
  \<open>std::set::insert\<close>: walks to the position given by the comparator \<open>lt\<close>; an element
  that is equivalent to the new one (neither is smaller) keeps its place and the new one
  is dropped.
\<close>

fun set_insert :: "('a \<Rightarrow> 'a \<Rightarrow> bool) \<Rightarrow> 'a \<Rightarrow> 'a list \<Rightarrow> 'a list" where
  "set_insert lt x [] = [x]"
| "set_insert lt x (y # ys) =
     (if lt x y then x # y # ys
      else if lt y x then y # set_insert lt x ys
      else y # ys)"

text \<open>\<open>std::set::find\<close>: the element equivalent to the key, if there is one.\<close>

fun set_find :: "('a \<Rightarrow> 'a \<Rightarrow> bool) \<Rightarrow> 'a \<Rightarrow> 'a list \<Rightarrow> 'a option" where
  "set_find lt x [] = None"
| "set_find lt x (y # ys) = (if \<not> lt x y \<and> \<not> lt y x then Some y else set_find lt x ys)"

lemma set_insert_not_Nil [simp]: "set_insert lt x xs \<noteq> []"
  by (cases xs) auto

lemma set_insert_subset: "set (set_insert lt x xs) \<subseteq> insert x (set xs)"
  by (induction xs) auto

lemma set_insert_keeps: "set xs \<subseteq> set (set_insert lt x xs)"
  by (induction xs) auto

lemma set_insert_cases:
  "set (set_insert lt x xs) = insert x (set xs) \<or> set (set_insert lt x xs) = set xs"
  using set_insert_subset [of lt x xs] set_insert_keeps [of xs lt x] by blast

lemma set_insert_fresh:
  "(\<And>y. y \<in> set xs \<Longrightarrow> lt x y \<or> lt y x) \<Longrightarrow> set (set_insert lt x xs) = insert x (set xs)"
  by (induction xs) auto

lemma set_find_Some: "set_find lt x xs = Some y \<Longrightarrow> y \<in> set xs \<and> \<not> lt x y \<and> \<not> lt y x"
  by (induction xs) (auto split: if_splits)

lemma set_find_None: "set_find lt x xs = None \<longleftrightarrow> (\<forall>y \<in> set xs. lt x y \<or> lt y x)"
  by (induction xs) auto

text \<open>What the standard library asks of a comparator: a strict weak order.\<close>

locale strict_comparator =
  fixes lt :: "'a \<Rightarrow> 'a \<Rightarrow> bool"
  assumes lt_irrefl: "\<not> lt x x"
    and lt_trans: "lt x y \<Longrightarrow> lt y z \<Longrightarrow> lt x z"
    and lt_weak: "lt x z \<Longrightarrow> lt x y \<or> lt y z"
begin

lemma insert_keeps_order:
  "sorted_wrt lt xs \<Longrightarrow> sorted_wrt lt (set_insert lt x xs)"
proof (induction xs)
  case Nil
  then show ?case by simp
next
  case (Cons y ys)
  then show ?case
    using set_insert_subset [of lt x ys] by (auto intro: lt_trans)
qed

lemma insert_last:
  "(\<And>y. y \<in> set ys \<Longrightarrow> lt y x) \<Longrightarrow> set_insert lt x ys = ys @ [x]"
proof (induction ys)
  case (Cons y ys)
  then have "lt y x" by simp
  moreover from this have "\<not> lt x y" using lt_irrefl lt_trans by blast
  ultimately show ?case using Cons by simp
qed simp

lemma insert_in_order:
  "sorted_wrt lt (ys @ xs) \<Longrightarrow> fold (set_insert lt) xs ys = ys @ xs"
proof (induction xs arbitrary: ys)
  case (Cons x xs)
  then have "set_insert lt x ys = ys @ [x]" by (intro insert_last) (auto simp: sorted_wrt_append)
  with Cons.IH [of "ys @ [x]"] Cons.prems show ?case by simp
qed simp

lemma filter_keeps_order:
  "sorted_wrt lt xs \<Longrightarrow> sorted_wrt lt (filter P xs)"
  by (simp add: sorted_wrt_filter)

lemma order_distinct: "sorted_wrt lt xs \<Longrightarrow> distinct xs"
  by (induction xs) (auto simp: lt_irrefl)

lemma no_two_equivalent:
  assumes "sorted_wrt lt xs" "x \<in> set xs" "y \<in> set xs" "\<not> lt x y" "\<not> lt y x"
  shows "x = y"
  using assms by (induction xs) auto

lemma erased_is_gone:
  assumes "sorted_wrt lt xs" "set_find lt k xs = Some x" "y \<in> set (remove1 x xs)"
  shows "lt k y \<or> lt y k"
proof -
  have x: "x \<in> set xs" "\<not> lt k x" "\<not> lt x k"
    using set_find_Some [OF assms(2)] by auto
  have d: "distinct xs" using assms(1) by (rule order_distinct)
  from assms(3) d have y: "y \<in> set xs" "y \<noteq> x" by (auto simp: set_remove1_eq)
  with no_two_equivalent [OF assms(1) x(1) y(1)] have "lt x y \<or> lt y x" by auto
  then show ?thesis using x lt_weak by blast
qed

end

section \<open>Sequences of calls\<close>

text \<open>
  \<open>run step ops s\<close> performs the calls \<open>ops\<close> one after the other (every call of the code
  holds the object's lock, so concurrent calls are some such sequence).
\<close>

definition run :: "('op \<Rightarrow> 's \<Rightarrow> 's) \<Rightarrow> 'op list \<Rightarrow> 's \<Rightarrow> 's" where
  "run step ops s = fold step ops s"

lemma run_Nil [simp]: "run step [] s = s"
  and run_Cons [simp]: "run step (x # xs) s = run step xs (step x s)"
  and run_append [simp]: "run step (xs @ ys) s = run step ys (run step xs s)"
  by (simp_all add: run_def)

locale invariant_system =
  fixes step :: "'op \<Rightarrow> 's \<Rightarrow> 's"
    and ok :: "'op \<Rightarrow> bool"
    and inv :: "'s \<Rightarrow> bool"
  assumes step_inv: "inv s \<Longrightarrow> ok op \<Longrightarrow> inv (step op s)"
begin

lemma run_inv: "inv s \<Longrightarrow> list_all ok ops \<Longrightarrow> inv (run step ops s)"
  by (induction ops arbitrary: s) (auto intro: step_inv)

lemma every_prefix_inv:
  "inv s \<Longrightarrow> list_all ok ops \<Longrightarrow> inv (run step (take n ops) s)"
  by (rule run_inv) (auto simp: list_all_iff dest: in_set_takeD)

end

end
