(* ===== verification/EntryLocks.thy ===== *)
theory EntryLocks
  imports Prelude
begin

text \<open>
  Whole-file locks of a metadata inode: \<open>flock\<close> locks and append locks
  (\<open>EntryLockDetails\<close>, \<open>EntryLockQueuesContainer\<close> in \<open>Locking.h\<close> and the \<open>flockEntry...\<close>
  methods of \<open>FileInode.cpp\<close>). A queue container holds the exclusive lock, the set of
  shared locks, the two FIFO queues of waiting requests and the set of the acknowledgment
  IDs that are waiting. Every method takes the container and returns the new one; the
  requests that \<open>LockingNotifier::notifyWaitersEntryLock\<close> is told about are returned as
  a list.
\<close>

section \<open>Lock requests\<close>

definition ENTRYLOCKTYPE_UNLOCK :: i32 where "ENTRYLOCKTYPE_UNLOCK = 1"
definition ENTRYLOCKTYPE_EXCLUSIVE :: i32 where "ENTRYLOCKTYPE_EXCLUSIVE = 2"
definition ENTRYLOCKTYPE_SHARED :: i32 where "ENTRYLOCKTYPE_SHARED = 4"
definition ENTRYLOCKTYPE_NOWAIT :: i32 where "ENTRYLOCKTYPE_NOWAIT = 8"
definition ENTRYLOCKTYPE_CANCEL :: i32 where "ENTRYLOCKTYPE_CANCEL = 16"
definition ENTRYLOCKTYPE_LOCKOPS_REMOVE :: i32 where
  "ENTRYLOCKTYPE_LOCKOPS_REMOVE = ENTRYLOCKTYPE_UNLOCK OR ENTRYLOCKTYPE_CANCEL"

lemmas lock_flag_defs =
  ENTRYLOCKTYPE_UNLOCK_def ENTRYLOCKTYPE_EXCLUSIVE_def ENTRYLOCKTYPE_SHARED_def
  ENTRYLOCKTYPE_NOWAIT_def ENTRYLOCKTYPE_CANCEL_def ENTRYLOCKTYPE_LOCKOPS_REMOVE_def

text \<open>A flag test of the code: the bitwise AND is not zero.\<close>

definition has_flag :: "i32 \<Rightarrow> i32 \<Rightarrow> bool" where
  "has_flag flags f \<longleftrightarrow> flags AND f \<noteq> 0"

record EntryLockDetails =
  el_clientID :: string
  el_clientFD :: i64
  el_ownerPID :: i32
  el_lockAckID :: string
  el_lockTypeFlags :: i32

definition el_unset :: "EntryLockDetails \<Rightarrow> EntryLockDetails" where
  "el_unset l = l\<lparr>el_clientID := []\<rparr>"

definition el_isSet :: "EntryLockDetails \<Rightarrow> bool" where
  "el_isSet l \<longleftrightarrow> el_clientID l \<noteq> []"

definition el_allowsWaiting :: "EntryLockDetails \<Rightarrow> bool" where
  "el_allowsWaiting l \<longleftrightarrow> \<not> has_flag (el_lockTypeFlags l) ENTRYLOCKTYPE_NOWAIT"

definition el_isUnlock :: "EntryLockDetails \<Rightarrow> bool" where
  "el_isUnlock l \<longleftrightarrow> has_flag (el_lockTypeFlags l) ENTRYLOCKTYPE_UNLOCK"

definition el_isExclusive :: "EntryLockDetails \<Rightarrow> bool" where
  "el_isExclusive l \<longleftrightarrow> has_flag (el_lockTypeFlags l) ENTRYLOCKTYPE_EXCLUSIVE"

definition el_isShared :: "EntryLockDetails \<Rightarrow> bool" where
  "el_isShared l \<longleftrightarrow> has_flag (el_lockTypeFlags l) ENTRYLOCKTYPE_SHARED"

definition el_isCancel :: "EntryLockDetails \<Rightarrow> bool" where
  "el_isCancel l \<longleftrightarrow> has_flag (el_lockTypeFlags l) ENTRYLOCKTYPE_CANCEL"

definition setUnlockFlags :: "i32 \<Rightarrow> i32" where
  "setUnlockFlags flags =
     (flags OR ENTRYLOCKTYPE_UNLOCK) AND
       NOT (ENTRYLOCKTYPE_EXCLUSIVE OR ENTRYLOCKTYPE_SHARED OR ENTRYLOCKTYPE_CANCEL)"

definition el_setUnlock :: "EntryLockDetails \<Rightarrow> EntryLockDetails" where
  "el_setUnlock l = l\<lparr>el_lockTypeFlags := setUnlockFlags (el_lockTypeFlags l)\<rparr>"

definition el_equalsHandle :: "EntryLockDetails \<Rightarrow> EntryLockDetails \<Rightarrow> bool" where
  "el_equalsHandle l m \<longleftrightarrow>
     el_clientFD l = el_clientFD m \<and> el_clientID l = el_clientID m"

text \<open>\<open>EntryLockDetails::MapComparator\<close>: by client FD (signed), then client ID.\<close>

definition el_less :: "EntryLockDetails \<Rightarrow> EntryLockDetails \<Rightarrow> bool" where
  "el_less a b \<longleftrightarrow>
     sint (el_clientFD a) < sint (el_clientFD b) \<or>
     (el_clientFD a = el_clientFD b \<and> el_clientID a < el_clientID b)"

section \<open>The lock queues\<close>

record EntryLockQueues =
  exclLock :: EntryLockDetails
  sharedLocks :: "EntryLockDetails list"
  waitersExclLock :: "EntryLockDetails list"
  waitersSharedLock :: "EntryLockDetails list"
  waitersLockIDs :: "string set"

text \<open>
  \<open>flockEntryCheckConflicts\<close>: \<open>Some c\<close> is the return value true with \<open>*outConflictor = c\<close>.
\<close>

definition flockEntryCheckConflicts ::
    "EntryLockDetails \<Rightarrow> EntryLockQueues \<Rightarrow> EntryLockDetails option" where
  "flockEntryCheckConflicts l q =
     (if el_isSet (exclLock q) \<and> \<not> el_equalsHandle (exclLock q) l then Some (exclLock q)
      else if el_isExclusive l then find (\<lambda>s. \<not> el_equalsHandle s l) (sharedLocks q)
      else (case waitersExclLock q of [] \<Rightarrow> None | w # ws \<Rightarrow> Some w))"

definition flockEntryIsGranted :: "EntryLockDetails \<Rightarrow> EntryLockQueues \<Rightarrow> bool" where
  "flockEntryIsGranted l q =
     (if el_isExclusive l then el_equalsHandle (exclLock q) l
      else if el_isShared l then set_find el_less l (sharedLocks q) \<noteq> None
      else False)"

definition flockEntryUnlock ::
    "EntryLockDetails \<Rightarrow> EntryLockQueues \<Rightarrow> bool \<times> EntryLockQueues" where
  "flockEntryUnlock l q =
     (if el_equalsHandle (exclLock q) l
      then (True, q\<lparr>exclLock := el_unset (exclLock q)\<rparr>)
      else (case set_find el_less l (sharedLocks q) of
              Some s \<Rightarrow> (True, q\<lparr>sharedLocks := remove1 s (sharedLocks q)\<rparr>)
            | None \<Rightarrow> (False, q)))"

definition flockEntryShared :: "EntryLockDetails \<Rightarrow> EntryLockQueues \<Rightarrow> EntryLockQueues" where
  "flockEntryShared l q = q\<lparr>sharedLocks := set_insert el_less l (sharedLocks q)\<rparr>"

definition flockEntryExclusive :: "EntryLockDetails \<Rightarrow> EntryLockQueues \<Rightarrow> EntryLockQueues" where
  "flockEntryExclusive l q = q\<lparr>exclLock := l\<rparr>"

text \<open>The loop that grants every waiting reader; the list is the notify list.\<close>

fun grantSharedWaiters ::
    "EntryLockDetails list \<Rightarrow> EntryLockQueues \<Rightarrow> EntryLockQueues \<times> EntryLockDetails list" where
  "grantSharedWaiters [] q = (q\<lparr>waitersSharedLock := []\<rparr>, [])"
| "grantSharedWaiters (w # ws) q =
     (let q1 = flockEntryShared w q;
          q2 = q1\<lparr>waitersLockIDs := waitersLockIDs q1 - {el_lockAckID w},
                  waitersSharedLock := ws\<rparr>;
          (q3, notified) = grantSharedWaiters ws q2
      in (q3, w # notified))"

definition flockEntryTryNextWaiters ::
    "EntryLockQueues \<Rightarrow> EntryLockQueues \<times> EntryLockDetails list" where
  "flockEntryTryNextWaiters q =
     (if el_isSet (exclLock q) then (q, [])
      else if waitersSharedLock q \<noteq> [] \<and> waitersExclLock q = []
      then grantSharedWaiters (waitersSharedLock q) q
      else (case waitersExclLock q of
              [] \<Rightarrow> (q, [])
            | w # ws \<Rightarrow>
                ((flockEntryExclusive w q)
                   \<lparr>waitersLockIDs := waitersLockIDs q - {el_lockAckID w},
                    waitersExclLock := ws\<rparr>, [w])))"

text \<open>
  A loop over a waiter queue that erases the matching elements together with their
  acknowledgment IDs; the flag says whether anything was erased.
\<close>

fun cancelWaiters ::
    "('w \<Rightarrow> bool) \<Rightarrow> ('w \<Rightarrow> string) \<Rightarrow> 'w list \<Rightarrow> string set \<Rightarrow> 'w list \<times> string set \<times> bool" where
  "cancelWaiters P ack [] ids = ([], ids, False)"
| "cancelWaiters P ack (w # ws) ids =
     (if P w
      then let (ws', ids', _) = cancelWaiters P ack ws (ids - {ack w}) in (ws', ids', True)
      else let (ws', ids', r) = cancelWaiters P ack ws ids in (w # ws', ids', r))"

text \<open>
  The common body of \<open>flockEntryCancelByHandle\<close> and \<open>flockEntryGenericCancelByClientID\<close>:
  they differ in the test \<open>P\<close> only.
\<close>

definition cancelEntriesWhere ::
    "(EntryLockDetails \<Rightarrow> bool) \<Rightarrow> EntryLockQueues \<Rightarrow> EntryLockQueues \<times> bool" where
  "cancelEntriesWhere P q =
     (let dropExcl = (el_isSet (exclLock q) \<and> P (exclLock q));
          dropShared = list_ex P (sharedLocks q);
          (we, ids1, dropWE) = cancelWaiters P el_lockAckID (waitersExclLock q) (waitersLockIDs q);
          (ws, ids2, dropWS) = cancelWaiters P el_lockAckID (waitersSharedLock q) ids1
      in (q\<lparr>exclLock := (if dropExcl then el_unset (exclLock q) else exclLock q),
            sharedLocks := filter (\<lambda>s. \<not> P s) (sharedLocks q),
            waitersExclLock := we,
            waitersSharedLock := ws,
            waitersLockIDs := ids2\<rparr>,
          dropExcl \<or> dropShared \<or> dropWE \<or> dropWS))"

definition flockEntryCancelByHandle ::
    "EntryLockDetails \<Rightarrow> EntryLockQueues \<Rightarrow> EntryLockQueues \<times> bool" where
  "flockEntryCancelByHandle l q = cancelEntriesWhere (\<lambda>m. el_equalsHandle l m) q"

definition flockEntryGenericCancelByClientID ::
    "string \<Rightarrow> EntryLockQueues \<Rightarrow> EntryLockQueues \<times> EntryLockDetails list" where
  "flockEntryGenericCancelByClientID cid q =
     (let (q1, tryNextWaiters) = cancelEntriesWhere (\<lambda>m. el_clientID m = cid) q
      in if tryNextWaiters then flockEntryTryNextWaiters q1 else (q1, []))"

definition flockEntryGenericCancelAllWaiters :: "EntryLockQueues \<Rightarrow> EntryLockQueues" where
  "flockEntryGenericCancelAllWaiters q =
     q\<lparr>waitersLockIDs := {}, waitersExclLock := [], waitersSharedLock := []\<rparr>"

text \<open>
  \<open>flockEntryUnlocked\<close>: the return value, the queues and the requests that the notifier
  is told about.
\<close>

definition flockEntryLockRequest ::
    "EntryLockDetails \<Rightarrow> EntryLockQueues \<Rightarrow> bool \<times> bool \<times> EntryLockQueues" where
  "flockEntryLockRequest l q =
     (let hasConflicts = (flockEntryCheckConflicts l q \<noteq> None);
          (tryNext, q1) =
            (if \<not> hasConflicts \<or> el_allowsWaiting l then flockEntryUnlock l q else (False, q))
      in if el_isShared l
         then (if \<not> hasConflicts then (True, tryNext, flockEntryShared l q1)
               else if el_allowsWaiting l
               then (False, tryNext,
                     q1\<lparr>waitersSharedLock := waitersSharedLock q1 @ [l],
                        waitersLockIDs := insert (el_lockAckID l) (waitersLockIDs q1)\<rparr>)
               else (False, tryNext, q1))
         else (if \<not> hasConflicts then (True, tryNext, flockEntryExclusive l q1)
               else if el_allowsWaiting l
               then (False, tryNext,
                     q1\<lparr>waitersExclLock := waitersExclLock q1 @ [l],
                        waitersLockIDs := insert (el_lockAckID l) (waitersLockIDs q1)\<rparr>)
               else (False, tryNext, q1)))"

definition flockEntryUnlocked ::
    "EntryLockDetails \<Rightarrow> EntryLockQueues \<Rightarrow>
       bool \<times> EntryLockQueues \<times> EntryLockDetails list" where
  "flockEntryUnlocked l q =
     (if el_isCancel l
      then let (q1, tryNext) = flockEntryCancelByHandle l q
           in if tryNext then (True, flockEntryTryNextWaiters q1) else (True, q1, [])
      else if el_isUnlock l
      then let (tryNext, q1) = flockEntryUnlock l q
           in if tryNext then (True, flockEntryTryNextWaiters q1) else (True, q1, [])
      else if el_lockAckID l \<in> waitersLockIDs q then (False, q, [])
      else if flockEntryIsGranted l q then (True, q, [])
      else let (granted, tryNext, q1) = flockEntryLockRequest l q
           in if tryNext then (granted, flockEntryTryNextWaiters q1) else (granted, q1, []))"


section \<open>The methods of the inode\<close>

text \<open>
  The container of the append locks is built on the stack of each call
  (\<open>AppendLockQueuesContainer\<close>): its shared set and its queue of shared waiters are
  dummies that start empty and are dropped when the call returns.
\<close>

record AppendLocks =
  exclAppendLock :: EntryLockDetails
  waitersExclAppendLock :: "EntryLockDetails list"
  waitersLockIDsAppendLock :: "string set"

definition AppendLockQueuesContainer :: "AppendLocks \<Rightarrow> EntryLockQueues" where
  "AppendLockQueuesContainer a =
     \<lparr>exclLock = exclAppendLock a, sharedLocks = [],
      waitersExclLock = waitersExclAppendLock a, waitersSharedLock = [],
      waitersLockIDs = waitersLockIDsAppendLock a\<rparr>"

definition appendLocks_of :: "EntryLockQueues \<Rightarrow> AppendLocks" where
  "appendLocks_of q =
     \<lparr>exclAppendLock = exclLock q, waitersExclAppendLock = waitersExclLock q,
      waitersLockIDsAppendLock = waitersLockIDs q\<rparr>"

definition flockAppend ::
    "EntryLockDetails \<Rightarrow> AppendLocks \<Rightarrow> bool \<times> AppendLocks \<times> EntryLockDetails list" where
  "flockAppend l a =
     (case flockEntryUnlocked l (AppendLockQueuesContainer a) of
        (granted, q, notified) \<Rightarrow> (granted, appendLocks_of q, notified))"

definition flockEntry ::
    "EntryLockDetails \<Rightarrow> EntryLockQueues \<Rightarrow>
       bool \<times> EntryLockQueues \<times> EntryLockDetails list" where
  "flockEntry l q = flockEntryUnlocked l q"

definition flockAppendCancelAllWaiters :: "AppendLocks \<Rightarrow> AppendLocks" where
  "flockAppendCancelAllWaiters a =
     appendLocks_of (flockEntryGenericCancelAllWaiters (AppendLockQueuesContainer a))"

definition flockEntryCancelAllWaiters :: "EntryLockQueues \<Rightarrow> EntryLockQueues" where
  "flockEntryCancelAllWaiters q = flockEntryGenericCancelAllWaiters q"

text \<open>
  Both client-cancel methods call the generic routine that clears the queues; they do not
  look at the client ID.
\<close>

definition flockAppendCancelByClientID :: "string \<Rightarrow> AppendLocks \<Rightarrow> AppendLocks" where
  "flockAppendCancelByClientID cid a =
     appendLocks_of (flockEntryGenericCancelAllWaiters (AppendLockQueuesContainer a))"

definition flockEntryCancelByClientID :: "string \<Rightarrow> EntryLockQueues \<Rightarrow> EntryLockQueues" where
  "flockEntryCancelByClientID cid q = flockEntryGenericCancelAllWaiters q"

section \<open>Handles and the comparator\<close>

lemma has_flag_bit [bits_simps]:
  "has_flag f ENTRYLOCKTYPE_UNLOCK = bit f 0"
  "has_flag f ENTRYLOCKTYPE_EXCLUSIVE = bit f 1"
  "has_flag f ENTRYLOCKTYPE_SHARED = bit f 2"
  "has_flag f ENTRYLOCKTYPE_NOWAIT = bit f 3"
  "has_flag f ENTRYLOCKTYPE_CANCEL = bit f 4"
  using and_exp_eq_0_iff_not_bit [of f 0] and_exp_eq_0_iff_not_bit [of f 1]
    and_exp_eq_0_iff_not_bit [of f 2] and_exp_eq_0_iff_not_bit [of f 3]
    and_exp_eq_0_iff_not_bit [of f 4]
  by (simp_all add: has_flag_def lock_flag_defs)

lemma bit_setUnlockFlags:
  "bit (setUnlockFlags f) 0" "\<not> bit (setUnlockFlags f) 1" "\<not> bit (setUnlockFlags f) 2"
  "bit (setUnlockFlags f) 3 = bit f 3" "\<not> bit (setUnlockFlags f) 4"
  by (simp_all add: setUnlockFlags_def lock_flag_defs bit_simps)

lemma el_setUnlock_flags [bits_simps]:
  "el_isUnlock (el_setUnlock l)" "\<not> el_isExclusive (el_setUnlock l)"
  "\<not> el_isShared (el_setUnlock l)" "\<not> el_isCancel (el_setUnlock l)"
  "el_allowsWaiting (el_setUnlock l) = el_allowsWaiting l"
  by (simp_all add: el_isUnlock_def el_isExclusive_def el_isShared_def el_isCancel_def
      el_allowsWaiting_def el_setUnlock_def has_flag_bit bit_setUnlockFlags [simplified])

lemma el_unset_not_set [simp]: "\<not> el_isSet (el_unset l)"
  by (simp add: el_unset_def el_isSet_def)

lemma el_equalsHandle_refl [handle_simps, simp]: "el_equalsHandle l l"
  and el_equalsHandle_sym: "el_equalsHandle l m = el_equalsHandle m l"
  and el_equalsHandle_trans:
    "el_equalsHandle l m \<Longrightarrow> el_equalsHandle m k \<Longrightarrow> el_equalsHandle l k"
  by (auto simp: el_equalsHandle_def)

lemma unset_equals_no_set_handle:
  "el_isSet l \<Longrightarrow> \<not> el_isSet e \<Longrightarrow> \<not> el_equalsHandle e l"
  by (auto simp: el_equalsHandle_def el_isSet_def)

lemma el_equiv_iff: "\<not> el_less a b \<and> \<not> el_less b a \<longleftrightarrow> el_equalsHandle a b"
proof -
  have fd: "el_clientFD a = el_clientFD b \<longleftrightarrow> sint (el_clientFD a) = sint (el_clientFD b)"
    by (auto intro: signed_word_eqI)
  show ?thesis
    using less_linear [of "el_clientID a" "el_clientID b"]
      less_asym' [of "el_clientID a" "el_clientID b"]
    unfolding el_less_def el_equalsHandle_def by (metis fd less_linear less_irrefl)
qed

interpretation el_order: strict_comparator el_less
proof
  fix x y z
  show "\<not> el_less x x" by (simp add: el_less_def)
  show "el_less x y \<Longrightarrow> el_less y z \<Longrightarrow> el_less x z"
    by (auto simp: el_less_def)
  have eq: "el_clientFD a = el_clientFD b \<longleftrightarrow> sint (el_clientFD a) = sint (el_clientFD b)"
    for a b :: EntryLockDetails by (auto intro: signed_word_eqI)
  show "el_less x y \<or> el_less y z" if "el_less x z"
  proof (cases "sint (el_clientFD x) < sint (el_clientFD y) \<or>
                sint (el_clientFD y) < sint (el_clientFD z)")
    case True
    then show ?thesis by (auto simp: el_less_def)
  next
    case False
    with that have "sint (el_clientFD x) = sint (el_clientFD y)"
      "sint (el_clientFD y) = sint (el_clientFD z)" "el_clientID x < el_clientID z"
      by (auto simp: el_less_def)
    then show ?thesis
      using le_less_trans [of "el_clientID y" "el_clientID x" "el_clientID z"]
      unfolding el_less_def eq by (cases "el_clientID x < el_clientID y") auto
  qed
qed

lemma el_related_iff: "el_less a b \<or> el_less b a \<longleftrightarrow> \<not> el_equalsHandle a b"
  by (simp flip: el_equiv_iff)

lemma shared_find_None:
  "set_find el_less l xs = None \<longleftrightarrow> (\<forall>s \<in> set xs. \<not> el_equalsHandle l s)"
  by (simp add: set_find_None el_related_iff)

lemma shared_find_Some:
  "set_find el_less l xs = Some s \<Longrightarrow> s \<in> set xs \<and> el_equalsHandle l s"
  using set_find_Some el_equiv_iff by fast

section \<open>Waiter queues and their acknowledgment IDs\<close>

lemma cancelWaiters_spec:
  "cancelWaiters P ack ws ids =
     (filter (\<lambda>w. \<not> P w) ws, ids - ack ` {w \<in> set ws. P w}, list_ex P ws)"
  by (induction ws arbitrary: ids) auto

text \<open>
  The duplicate filter of the code relies on the ID set being exactly the IDs of the queued
  requests, with no ID queued twice.
\<close>

definition ids_ok :: "('w \<Rightarrow> string) \<Rightarrow> 'w list \<Rightarrow> 'w list \<Rightarrow> string set \<Rightarrow> bool" where
  "ids_ok ack we ws ids \<longleftrightarrow> distinct (map ack (we @ ws)) \<and> ids = ack ` set (we @ ws)"

lemma ids_ok_empty [simp]: "ids_ok ack [] [] {}"
  by (simp add: ids_ok_def)

lemma ids_ok_enqueue_excl:
  "ids_ok ack we ws ids \<Longrightarrow> ack l \<notin> ids \<Longrightarrow> ids_ok ack (we @ [l]) ws (insert (ack l) ids)"
  by (auto simp: ids_ok_def)

lemma ids_ok_enqueue_shared:
  "ids_ok ack we ws ids \<Longrightarrow> ack l \<notin> ids \<Longrightarrow> ids_ok ack we (ws @ [l]) (insert (ack l) ids)"
  by (auto simp: ids_ok_def)

lemma ids_ok_pop_excl: "ids_ok ack (w # we) ws ids \<Longrightarrow> ids_ok ack we ws (ids - {ack w})"
  by (simp add: ids_ok_def image_Un Diff_insert_absorb)

lemma ids_ok_pop_shared: "ids_ok ack we (w # ws) ids \<Longrightarrow> ids_ok ack we ws (ids - {ack w})"
  by (simp add: ids_ok_def image_Un Diff_insert_absorb)

lemma distinct_filter_image:
  "distinct (map f xs) \<Longrightarrow> f ` set xs - f ` {x \<in> set xs. P x} = f ` {x \<in> set xs. \<not> P x}"
  by (auto simp: distinct_map inj_on_def)

lemma ids_ok_filter:
  assumes "ids_ok ack we ws ids"
  shows "ids_ok ack (filter (\<lambda>w. \<not> P w) we) (filter (\<lambda>w. \<not> P w) ws)
           (ids - ack ` {w \<in> set we. P w} - ack ` {w \<in> set ws. P w})"
proof -
  have d: "distinct (map ack (we @ ws))" and i: "ids = ack ` set (we @ ws)"
    using assms by (auto simp: ids_ok_def)
  have "ids - ack ` {w \<in> set we. P w} - ack ` {w \<in> set ws. P w}
      = ack ` set (we @ ws) - ack ` {w \<in> set (we @ ws). P w}"
    by (auto simp: i)
  also have "\<dots> = ack ` set (filter (\<lambda>w. \<not> P w) (we @ ws))"
    using distinct_filter_image [OF d, of P] by (simp only: set_filter)
  finally show ?thesis
    using d distinct_map_filter [OF d, of "\<lambda>w. \<not> P w"] by (simp add: ids_ok_def)
qed

section \<open>The invariant of the queues\<close>

text \<open>
  Nobody waits in vain: without an exclusive lock, readers wait only behind a waiting
  writer, and a writer waits only behind a shared lock.
\<close>

definition no_stuck :: "EntryLockQueues \<Rightarrow> bool" where
  "no_stuck q \<longleftrightarrow>
     el_isSet (exclLock q) \<or>
     ((waitersExclLock q = [] \<longrightarrow> waitersSharedLock q = []) \<and>
      (sharedLocks q = [] \<longrightarrow> waitersExclLock q = []))"

definition all_set :: "EntryLockQueues \<Rightarrow> bool" where
  "all_set q \<longleftrightarrow>
     (\<forall>l \<in> set (sharedLocks q) \<union> set (waitersExclLock q) \<union> set (waitersSharedLock q). el_isSet l)"

text \<open>
  A handle that holds a shared lock neither holds the exclusive lock nor waits for it: a
  request that upgrades its lock gives up the shared lock first.
\<close>

definition handle_once :: "EntryLockQueues \<Rightarrow> bool" where
  "handle_once q \<longleftrightarrow>
     (\<forall>s \<in> set (sharedLocks q).
        (el_isSet (exclLock q) \<longrightarrow> \<not> el_equalsHandle (exclLock q) s) \<and>
        (\<forall>w \<in> set (waitersExclLock q). \<not> el_equalsHandle w s))"

text \<open>What holds in the middle of a method, before the waiters are tried again.\<close>

definition entry_wf :: "EntryLockQueues \<Rightarrow> bool" where
  "entry_wf q \<longleftrightarrow>
     sorted_wrt el_less (sharedLocks q) \<and> all_set q \<and> handle_once q \<and>
     ids_ok el_lockAckID (waitersExclLock q) (waitersSharedLock q) (waitersLockIDs q)"

definition entry_inv :: "EntryLockQueues \<Rightarrow> bool" where
  "entry_inv q \<longleftrightarrow> entry_wf q \<and> no_stuck q"

definition no_locks :: "EntryLockDetails \<Rightarrow> EntryLockQueues" where
  "no_locks l =
     \<lparr>exclLock = el_unset l, sharedLocks = [], waitersExclLock = [], waitersSharedLock = [],
      waitersLockIDs = {}\<rparr>"

lemma no_locks_simps [simp]:
  "exclLock (no_locks l) = el_unset l" "sharedLocks (no_locks l) = []"
  "waitersExclLock (no_locks l) = []" "waitersSharedLock (no_locks l) = []"
  "waitersLockIDs (no_locks l) = {}"
  by (simp_all add: no_locks_def)

lemma no_locks_inv: "entry_inv (no_locks l)"
  by (simp add: entry_inv_def entry_wf_def no_stuck_def all_set_def handle_once_def no_locks_def)

lemma set_insert_shared_wf:
  "sorted_wrt el_less xs \<Longrightarrow> sorted_wrt el_less (set_insert el_less l xs)"
  by (rule el_order.insert_keeps_order)

lemma set_insert_isSet:
  "\<forall>s \<in> set xs. el_isSet s \<Longrightarrow> el_isSet l \<Longrightarrow> \<forall>s \<in> set (set_insert el_less l xs). el_isSet s"
  using set_insert_subset [of el_less l xs] by blast

lemma grantSharedWaiters_result:
  "grantSharedWaiters ws q =
     (if ws = [] then q\<lparr>waitersSharedLock := []\<rparr>
      else q\<lparr>sharedLocks := fold (set_insert el_less) ws (sharedLocks q),
             waitersLockIDs := waitersLockIDs q - el_lockAckID ` set ws,
             waitersSharedLock := []\<rparr>, ws)"
  by (induction ws arbitrary: q)
    (auto simp: Let_def flockEntryShared_def simp flip: Diff_insert2 split: prod.splits)

lemma fold_insert_sorted:
  "sorted_wrt el_less xs \<Longrightarrow> sorted_wrt el_less (fold (set_insert el_less) ws xs)"
  by (induction ws arbitrary: xs) (auto intro: set_insert_shared_wf)

lemma fold_insert_subset: "set (fold (set_insert lt) ws xs) \<subseteq> set ws \<union> set xs"
proof (induction ws arbitrary: xs)
  case (Cons w ws)
  then show ?case using set_insert_subset [of lt w xs] by fastforce
qed simp

lemma fold_insert_keeps: "set xs \<subseteq> set (fold (set_insert lt) ws xs)"
proof (induction ws arbitrary: xs)
  case (Cons w ws)
  then show ?case using set_insert_keeps [of xs lt w] by fastforce
qed simp

text \<open>\<open>flockEntryTryNextWaiters\<close> repairs \<open>no_stuck\<close> and keeps the rest.\<close>

lemma tryNext_wf:
  assumes wf: "entry_wf q"
  shows "entry_wf (fst (flockEntryTryNextWaiters q))"
proof (cases "waitersExclLock q")
  case Nil
  have sub: "set (fold (set_insert el_less) (waitersSharedLock q) (sharedLocks q))
      \<subseteq> set (waitersSharedLock q) \<union> set (sharedLocks q)"
    by (rule fold_insert_subset)
  from wf Nil sub show ?thesis
    by (auto simp: flockEntryTryNextWaiters_def grantSharedWaiters_result entry_wf_def
        all_set_def handle_once_def ids_ok_def fold_insert_sorted)
next
  case (Cons w ws)
  then have "ids_ok el_lockAckID ws (waitersSharedLock q) (waitersLockIDs q - {el_lockAckID w})"
    using wf by (auto simp: entry_wf_def intro: ids_ok_pop_excl)
  with wf Cons show ?thesis
    by (auto simp: flockEntryTryNextWaiters_def entry_wf_def all_set_def handle_once_def
        flockEntryExclusive_def)
qed

lemma tryNext_no_stuck:
  "entry_wf q \<Longrightarrow> no_stuck (fst (flockEntryTryNextWaiters q))"
  by (auto simp: flockEntryTryNextWaiters_def grantSharedWaiters_result entry_wf_def no_stuck_def
      all_set_def flockEntryExclusive_def split: list.splits)

lemma tryNext_shared_kept:
  "set (sharedLocks q) \<subseteq> set (sharedLocks (fst (flockEntryTryNextWaiters q)))"
  using fold_insert_keeps [of "sharedLocks q" el_less "waitersSharedLock q"]
  by (auto simp: flockEntryTryNextWaiters_def grantSharedWaiters_result flockEntryExclusive_def
      split: list.splits)

lemma tryNext_excl_kept:
  "el_isSet (exclLock q) \<Longrightarrow> fst (flockEntryTryNextWaiters q) = q"
  by (simp add: flockEntryTryNextWaiters_def)

lemma tryNext_nothing_new:
  assumes "P (exclLock q)"
    "\<forall>m \<in> set (sharedLocks q) \<union> set (waitersExclLock q) \<union> set (waitersSharedLock q). P m"
  shows "P (exclLock (fst (flockEntryTryNextWaiters q)))"
    "\<forall>m \<in> set (sharedLocks (fst (flockEntryTryNextWaiters q))) \<union>
       set (waitersExclLock (fst (flockEntryTryNextWaiters q))) \<union>
       set (waitersSharedLock (fst (flockEntryTryNextWaiters q))). P m"
  using assms fold_insert_subset [of el_less "waitersSharedLock q" "sharedLocks q"]
  by (auto simp: flockEntryTryNextWaiters_def grantSharedWaiters_result flockEntryExclusive_def
      split: list.splits)

lemma tryNext_inv: "entry_wf q \<Longrightarrow> entry_inv (fst (flockEntryTryNextWaiters q))"
  by (simp add: entry_inv_def tryNext_wf tryNext_no_stuck)

subsection \<open>Every operation keeps the invariant\<close>

lemma unlock_cases:
  obtains (none) "flockEntryUnlock l q = (False, q)"
      "\<not> el_equalsHandle (exclLock q) l" "\<forall>s \<in> set (sharedLocks q). \<not> el_equalsHandle l s"
  | (excl) "flockEntryUnlock l q = (True, q\<lparr>exclLock := el_unset (exclLock q)\<rparr>)"
      "el_equalsHandle (exclLock q) l"
  | (shared) s where "flockEntryUnlock l q = (True, q\<lparr>sharedLocks := remove1 s (sharedLocks q)\<rparr>)"
      "\<not> el_equalsHandle (exclLock q) l" "set_find el_less l (sharedLocks q) = Some s"
      "s \<in> set (sharedLocks q)" "el_equalsHandle l s"
proof (cases "el_equalsHandle (exclLock q) l")
  case True
  then show thesis by (intro excl) (simp_all add: flockEntryUnlock_def)
next
  case False
  show thesis
  proof (cases "set_find el_less l (sharedLocks q)")
    case None
    with False show thesis by (intro none) (auto simp: flockEntryUnlock_def simp flip: shared_find_None)
  next
    case (Some s)
    with False shared_find_Some [OF Some] show thesis
      by (intro shared [of s]) (auto simp: flockEntryUnlock_def)
  qed
qed

lemma remove1_keeps_order: "sorted_wrt lt xs \<Longrightarrow> sorted_wrt lt (remove1 x xs)"
  by (induction xs) (auto dest: notin_set_remove1)

lemma unlock_wf: "entry_wf q \<Longrightarrow> entry_wf (snd (flockEntryUnlock l q))"
  by (rule unlock_cases [of l q])
    (auto simp: entry_wf_def all_set_def handle_once_def remove1_keeps_order dest: subsetD [OF set_remove1_subset])

lemma unlock_queues [simp]:
  "waitersExclLock (snd (flockEntryUnlock l q)) = waitersExclLock q"
  "waitersSharedLock (snd (flockEntryUnlock l q)) = waitersSharedLock q"
  "waitersLockIDs (snd (flockEntryUnlock l q)) = waitersLockIDs q"
  by (simp_all add: flockEntryUnlock_def split: option.splits)

lemma unlock_nothing: "\<not> fst (flockEntryUnlock l q) \<Longrightarrow> snd (flockEntryUnlock l q) = q"
  by (simp add: flockEntryUnlock_def split: option.splits if_splits)

lemma unlock_inv:
  "entry_inv q \<Longrightarrow> \<not> fst (flockEntryUnlock l q) \<Longrightarrow> entry_inv (snd (flockEntryUnlock l q))"
  by (simp add: unlock_nothing)

lemma cancel_result:
  "cancelEntriesWhere P q =
     (q\<lparr>exclLock := (if el_isSet (exclLock q) \<and> P (exclLock q)
                     then el_unset (exclLock q) else exclLock q),
        sharedLocks := filter (\<lambda>s. \<not> P s) (sharedLocks q),
        waitersExclLock := filter (\<lambda>s. \<not> P s) (waitersExclLock q),
        waitersSharedLock := filter (\<lambda>s. \<not> P s) (waitersSharedLock q),
        waitersLockIDs := waitersLockIDs q - el_lockAckID ` {w \<in> set (waitersExclLock q). P w}
                            - el_lockAckID ` {w \<in> set (waitersSharedLock q). P w}\<rparr>,
      (el_isSet (exclLock q) \<and> P (exclLock q)) \<or> list_ex P (sharedLocks q) \<or>
      list_ex P (waitersExclLock q) \<or> list_ex P (waitersSharedLock q))"
  by (simp add: cancelEntriesWhere_def cancelWaiters_spec Let_def)

lemma cancel_wf: "entry_wf q \<Longrightarrow> entry_wf (fst (cancelEntriesWhere P q))"
  by (auto simp: cancel_result entry_wf_def all_set_def handle_once_def intro: ids_ok_filter
      el_order.filter_keeps_order)

lemma cancel_nothing:
  assumes "\<not> snd (cancelEntriesWhere P q)"
  shows "fst (cancelEntriesWhere P q) = q"
proof -
  have keep: "filter (\<lambda>s. \<not> P s) xs = xs" "{w \<in> set xs. P w} = {}" if "\<not> list_ex P xs" for xs
    using that by (auto simp: list_ex_iff filter_id_conv)
  have excl: "\<not> (el_isSet (exclLock q) \<and> P (exclLock q))"
    using assms by (simp add: cancel_result)
  from assms show ?thesis by (simp add: cancel_result keep if_not_P [OF excl])
qed

lemma conflict_None_iff:
  "flockEntryCheckConflicts l q = None \<longleftrightarrow>
     \<not> (el_isSet (exclLock q) \<and> \<not> el_equalsHandle (exclLock q) l) \<and>
     (if el_isExclusive l then \<forall>s \<in> set (sharedLocks q). el_equalsHandle s l
      else waitersExclLock q = [])"
  by (auto simp: flockEntryCheckConflicts_def find_None_iff split: list.splits)

text \<open>The clients send requests with exactly one of the two lock types.\<close>

definition el_lockTypeOk :: "EntryLockDetails \<Rightarrow> bool" where
  "el_lockTypeOk l \<longleftrightarrow> el_isExclusive l \<noteq> el_isShared l"

lemma unlock_releases:
  assumes "entry_wf q" "el_isSet l"
  shows "\<forall>s \<in> set (sharedLocks (snd (flockEntryUnlock l q))). \<not> el_equalsHandle l s"
    "\<not> el_equalsHandle (exclLock (snd (flockEntryUnlock l q))) l"
proof -
  have un: "\<not> el_equalsHandle (el_unset (exclLock q)) l"
    using assms(2) by (auto simp: el_equalsHandle_def el_unset_def el_isSet_def)
  have own: "el_isSet (exclLock q)" if "el_equalsHandle (exclLock q) l"
    using that assms(2) by (auto simp: el_equalsHandle_def el_isSet_def)
  show "\<forall>s \<in> set (sharedLocks (snd (flockEntryUnlock l q))). \<not> el_equalsHandle l s"
  proof (cases rule: unlock_cases [of l q])
    case excl
    then show ?thesis using assms(1) own [OF excl(2)]
      by (auto simp: entry_wf_def handle_once_def dest: el_equalsHandle_trans)
  next
    case (shared s)
    then show ?thesis
      using assms(1) el_order.erased_is_gone [of "sharedLocks q" l s]
      by (auto simp: entry_wf_def el_related_iff)
  qed auto
  show "\<not> el_equalsHandle (exclLock (snd (flockEntryUnlock l q))) l"
    by (rule unlock_cases [of l q]) (auto simp: un)
qed

lemma wf_shared_granted:
  "entry_wf q \<Longrightarrow> el_isSet l \<Longrightarrow> \<not> el_isSet (exclLock q) \<Longrightarrow> waitersExclLock q = [] \<Longrightarrow>
     entry_wf (flockEntryShared l q)"
  using set_insert_isSet [of "sharedLocks q" l]
  by (auto simp: entry_wf_def all_set_def handle_once_def flockEntryShared_def
      set_insert_shared_wf)

lemma wf_excl_granted:
  "entry_wf q \<Longrightarrow> \<forall>s \<in> set (sharedLocks q). \<not> el_equalsHandle l s \<Longrightarrow>
     entry_wf (flockEntryExclusive l q)"
  by (auto simp: entry_wf_def all_set_def handle_once_def flockEntryExclusive_def)

lemma wf_shared_waits:
  "entry_wf q \<Longrightarrow> el_isSet l \<Longrightarrow> el_lockAckID l \<notin> waitersLockIDs q \<Longrightarrow>
     entry_wf (q\<lparr>waitersSharedLock := waitersSharedLock q @ [l],
                 waitersLockIDs := insert (el_lockAckID l) (waitersLockIDs q)\<rparr>)"
  by (auto simp: entry_wf_def all_set_def handle_once_def intro: ids_ok_enqueue_shared)

lemma wf_excl_waits:
  "entry_wf q \<Longrightarrow> el_isSet l \<Longrightarrow> el_lockAckID l \<notin> waitersLockIDs q \<Longrightarrow>
     \<forall>s \<in> set (sharedLocks q). \<not> el_equalsHandle l s \<Longrightarrow>
     entry_wf (q\<lparr>waitersExclLock := waitersExclLock q @ [l],
                 waitersLockIDs := insert (el_lockAckID l) (waitersLockIDs q)\<rparr>)"
  by (auto simp: entry_wf_def all_set_def handle_once_def intro: ids_ok_enqueue_excl)

lemma conflict_free_excl_gone:
  assumes "flockEntryCheckConflicts l q = None" "entry_wf q" "el_isSet l"
  shows "\<not> el_isSet (exclLock (snd (flockEntryUnlock l q)))"
  by (rule unlock_cases [of l q]) (use assms in \<open>auto simp: conflict_None_iff\<close>)

lemma lockRequest_wf:
  assumes wf: "entry_wf q" and l: "el_isSet l" and ack: "el_lockAckID l \<notin> waitersLockIDs q"
    and x: "el_lockTypeOk l"
  shows "entry_wf (snd (snd (flockEntryLockRequest l q)))"
proof -
  obtain t q1 where e: "flockEntryUnlock l q = (t, q1)" by fastforce
  have q1: "entry_wf q1" "waitersExclLock q1 = waitersExclLock q"
    "waitersSharedLock q1 = waitersSharedLock q" "waitersLockIDs q1 = waitersLockIDs q"
    "\<forall>s \<in> set (sharedLocks q1). \<not> el_equalsHandle l s"
    using unlock_wf [OF wf, of l] unlock_queues [of l q] unlock_releases [OF wf l]
    by (simp_all add: e)
  have free: "\<not> el_isSet (exclLock q1)" "el_isShared l \<Longrightarrow> waitersExclLock q = []"
    if "flockEntryCheckConflicts l q = None"
    using conflict_free_excl_gone [OF that wf l] that x
    by (auto simp: e conflict_None_iff el_lockTypeOk_def)
  show ?thesis
    using wf l ack q1 free wf_shared_waits [of q1 l] wf_excl_waits [of q1 l]
    by (auto simp: flockEntryLockRequest_def Let_def e wf_shared_granted wf_excl_granted)
qed

lemma lockRequest_quiet:
  assumes "\<not> fst (snd (flockEntryLockRequest l q))"
  shows "(flockEntryCheckConflicts l q = None \<or> el_allowsWaiting l) \<longrightarrow>
           flockEntryUnlock l q = (False, q) \<and> \<not> el_equalsHandle (exclLock q) l"
proof
  assume n: "flockEntryCheckConflicts l q = None \<or> el_allowsWaiting l"
  have f: "\<not> fst (flockEntryUnlock l q)"
    using n assms by (auto simp: flockEntryLockRequest_def Let_def split: prod.splits if_splits)
  show "flockEntryUnlock l q = (False, q) \<and> \<not> el_equalsHandle (exclLock q) l"
    using f unlock_nothing [OF f] by (cases rule: unlock_cases [of l q]) auto
qed

lemma lockRequest_no_stuck:
  assumes inv: "no_stuck q" and l: "el_isSet l" and x: "el_lockTypeOk l"
    and quiet: "\<not> fst (snd (flockEntryLockRequest l q))"
  shows "no_stuck (snd (snd (flockEntryLockRequest l q)))"
proof (cases "flockEntryCheckConflicts l q")
  case None
  with lockRequest_quiet [OF quiet]
  have u: "flockEntryUnlock l q = (False, q)" "\<not> el_isSet (exclLock q)"
    by (auto simp: conflict_None_iff)
  with None inv l x show ?thesis
    by (cases "el_isShared l")
      (auto simp: flockEntryLockRequest_def Let_def flockEntryShared_def flockEntryExclusive_def
        no_stuck_def el_lockTypeOk_def conflict_None_iff)
next
  case (Some c)
  then have c: "flockEntryCheckConflicts l q \<noteq> None" by simp
  then have w: "el_isSet (exclLock q) \<or> (el_isExclusive l \<and> sharedLocks q \<noteq> [])
      \<or> (\<not> el_isExclusive l \<and> waitersExclLock q \<noteq> [])"
    by (auto simp: conflict_None_iff split: if_splits)
  show ?thesis
  proof (cases "el_allowsWaiting l")
    case True
    with lockRequest_quiet [OF quiet] have u: "flockEntryUnlock l q = (False, q)" by simp
    with True Some w inv x show ?thesis
      by (cases "el_isShared l")
        (auto simp: flockEntryLockRequest_def Let_def no_stuck_def el_lockTypeOk_def)
  next
    case False
    with Some inv show ?thesis by (simp add: flockEntryLockRequest_def Let_def)
  qed
qed

lemma unlocked_inv:
  assumes inv: "entry_inv q" and l: "el_isSet l"
    and x: "\<not> el_isCancel l \<and> \<not> el_isUnlock l \<longrightarrow> el_lockTypeOk l"
  shows "entry_inv (fst (snd (flockEntryUnlocked l q)))"
proof -
  have wf: "entry_wf q" using inv by (simp add: entry_inv_def)
  consider (cancel) "el_isCancel l" | (unlock) "\<not> el_isCancel l" "el_isUnlock l"
    | (known) "\<not> el_isCancel l" "\<not> el_isUnlock l"
        "el_lockAckID l \<in> waitersLockIDs q \<or> flockEntryIsGranted l q"
    | (req) "\<not> el_isCancel l" "\<not> el_isUnlock l" "el_lockAckID l \<notin> waitersLockIDs q"
        "\<not> flockEntryIsGranted l q"
    by blast
  then show ?thesis
  proof cases
    case cancel
    then show ?thesis
      using inv tryNext_inv [OF cancel_wf [OF wf, of "el_equalsHandle l"]]
        cancel_nothing [of "el_equalsHandle l" q]
      by (auto simp: flockEntryUnlocked_def flockEntryCancelByHandle_def split: prod.splits)
  next
    case unlock
    then show ?thesis
      using inv tryNext_inv [OF unlock_wf [OF wf, of l]] unlock_nothing [of l q]
      by (auto simp: flockEntryUnlocked_def split: prod.splits)
  next
    case known
    then show ?thesis using inv by (auto simp: flockEntryUnlocked_def)
  next
    case req
    with x have x': "el_lockTypeOk l" by blast
    note wf' = lockRequest_wf [OF wf l req(3) x']
    show ?thesis
      using inv req tryNext_inv [OF wf'] wf' lockRequest_no_stuck [of q l] l x'
      by (auto simp: flockEntryUnlocked_def entry_inv_def split: prod.splits)
  qed
qed

lemma generic_cancel_client_inv:
  "entry_inv q \<Longrightarrow> entry_inv (fst (flockEntryGenericCancelByClientID cid q))"
  using tryNext_inv [OF cancel_wf, of q "\<lambda>m. el_clientID m = cid"]
    cancel_nothing [of "\<lambda>m. el_clientID m = cid" q]
  by (auto simp: flockEntryGenericCancelByClientID_def entry_inv_def split: prod.splits)

lemma cancel_all_waiters_inv:
  "entry_inv q \<Longrightarrow> entry_inv (flockEntryGenericCancelAllWaiters q)"
  by (auto simp: entry_inv_def entry_wf_def all_set_def handle_once_def no_stuck_def
      flockEntryGenericCancelAllWaiters_def)

section \<open>The flock queues as a system\<close>

datatype EntryOp =
    EntryRequest EntryLockDetails
  | EntryCancelAllWaiters
  | EntryCancelByClientID string
  | EntryGenericCancelByClientID string

fun entry_step :: "EntryOp \<Rightarrow> EntryLockQueues \<Rightarrow> EntryLockQueues" where
  "entry_step (EntryRequest l) q = fst (snd (flockEntry l q))"
| "entry_step EntryCancelAllWaiters q = flockEntryCancelAllWaiters q"
| "entry_step (EntryCancelByClientID cid) q = flockEntryCancelByClientID cid q"
| "entry_step (EntryGenericCancelByClientID cid) q = fst (flockEntryGenericCancelByClientID cid q)"

fun entry_op_ok :: "EntryOp \<Rightarrow> bool" where
  "entry_op_ok (EntryRequest l) =
     (el_isSet l \<and> (\<not> el_isCancel l \<and> \<not> el_isUnlock l \<longrightarrow> el_lockTypeOk l))"
| "entry_op_ok op = True"

interpretation entry_sys: invariant_system entry_step entry_op_ok entry_inv
proof
  fix q op
  assume "entry_inv q" "entry_op_ok op"
  then show "entry_inv (entry_step op q)"
    by (cases op) (auto simp: flockEntry_def flockEntryCancelAllWaiters_def
        flockEntryCancelByClientID_def unlocked_inv generic_cancel_client_inv
        cancel_all_waiters_inv)
qed

section \<open>Properties of flock locks\<close>

text \<open>What the lock is for: the exclusive holder shares the file with nobody else.\<close>

definition mutex :: "EntryLockQueues \<Rightarrow> bool" where
  "mutex q \<longleftrightarrow>
     (el_isSet (exclLock q) \<longrightarrow> (\<forall>s \<in> set (sharedLocks q). el_equalsHandle s (exclLock q)))"

text \<open>
  What a new request may assume of the other handles: nobody else holds the exclusive lock,
  a writer finds no other reader and a reader finds no waiting writer.
\<close>

definition entry_compatible :: "EntryLockDetails \<Rightarrow> EntryLockQueues \<Rightarrow> bool" where
  "entry_compatible l q \<longleftrightarrow>
     (el_isSet (exclLock q) \<longrightarrow> el_equalsHandle (exclLock q) l) \<and>
     (if el_isExclusive l then list_all (\<lambda>s. el_equalsHandle s l) (sharedLocks q)
      else waitersExclLock q = [])"

lemma compatible_iff: "entry_compatible l q \<longleftrightarrow> flockEntryCheckConflicts l q = None"
  by (auto simp: entry_compatible_def conflict_None_iff list_all_iff)

lemma tryNext_mutex:
  assumes "mutex q" "flockEntryTryNextWaiters q = (q', notified)"
  shows "mutex q' \<or> exclLock q' \<in> set notified"
  using assms
  by (auto simp: flockEntryTryNextWaiters_def grantSharedWaiters_result flockEntryExclusive_def
      mutex_def split: if_splits list.splits)

lemma mutex_fewer:
  "mutex q \<Longrightarrow> exclLock q' = exclLock q \<or> \<not> el_isSet (exclLock q') \<Longrightarrow>
     set (sharedLocks q') \<subseteq> set (sharedLocks q) \<Longrightarrow> mutex q'"
  by (auto simp: mutex_def)

lemma unlock_fewer:
  "exclLock (snd (flockEntryUnlock l q)) = exclLock q \<or>
     \<not> el_isSet (exclLock (snd (flockEntryUnlock l q)))"
  "set (sharedLocks (snd (flockEntryUnlock l q))) \<subseteq> set (sharedLocks q)"
  by (rule unlock_cases [of l q], auto dest: subsetD [OF set_remove1_subset])
    (rule unlock_cases [of l q], auto dest: subsetD [OF set_remove1_subset])

lemma unlock_mutex: "mutex q \<Longrightarrow> mutex (snd (flockEntryUnlock l q))"
  by (rule mutex_fewer [OF _ unlock_fewer])

lemma cancel_mutex: "mutex q \<Longrightarrow> mutex (fst (cancelEntriesWhere P q))"
  by (rule mutex_fewer) (auto simp: cancel_result)

lemma lockRequest_mutex:
  assumes m: "mutex q" and wf: "entry_wf q" and l: "el_isSet l" and x: "el_lockTypeOk l"
  shows "mutex (snd (snd (flockEntryLockRequest l q)))"
proof -
  obtain t q1 where e: "flockEntryUnlock l q = (t, q1)" by fastforce
  have q1: "mutex q1" "set (sharedLocks q1) \<subseteq> set (sharedLocks q)"
    using unlock_mutex [OF m, of l] unlock_fewer [of l q] by (simp_all add: e)
  have free: "\<not> el_isSet (exclLock q1)" if "flockEntryCheckConflicts l q = None"
    using conflict_free_excl_gone [OF that wf l] by (simp add: e)
  show ?thesis
    using m q1 free x
    by (auto simp: flockEntryLockRequest_def Let_def e mutex_def flockEntryShared_def
        flockEntryExclusive_def conflict_None_iff el_lockTypeOk_def split: if_splits)
qed

text \<open>
  C1: In every state that calls of the inode's flock methods can reach from the unlocked
  file, the queues are well formed: the shared locks are ordered by the comparator, each
  handle holds at most one lock, the acknowledgment IDs in the duplicate filter are exactly
  those of the queued requests, and nobody waits in vain (without an exclusive lock, readers
  wait only behind a writer and writers wait only behind a shared lock).
\<close>

theorem entry_queues_well_formed:
  "list_all entry_op_ok ops \<Longrightarrow> entry_inv (run entry_step ops (no_locks l))"
  by (rule entry_sys.run_inv [OF no_locks_inv])

definition demo_lock :: "string \<Rightarrow> i64 \<Rightarrow> string \<Rightarrow> i32 \<Rightarrow> EntryLockDetails" where
  "demo_lock cid fd ack flags =
     \<lparr>el_clientID = cid, el_clientFD = fd, el_ownerPID = 1, el_lockAckID = ack,
      el_lockTypeFlags = flags\<rparr>"

definition demo_ops :: "EntryOp list" where
  "demo_ops =
     [EntryRequest (demo_lock ''a'' 1 ''k1'' ENTRYLOCKTYPE_SHARED),
      EntryRequest (demo_lock ''b'' 2 ''k2'' ENTRYLOCKTYPE_SHARED),
      EntryRequest (demo_lock ''c'' 3 ''k3'' ENTRYLOCKTYPE_EXCLUSIVE),
      EntryRequest (demo_lock ''a'' 1 ''k4'' ENTRYLOCKTYPE_UNLOCK)]"

lemmas entry_eval =
  demo_lock_def demo_ops_def lock_flag_defs el_isSet_def el_isCancel_def
  el_isUnlock_def el_isExclusive_def el_isShared_def el_allowsWaiting_def el_lockTypeOk_def
  has_flag_def el_unset_def el_equalsHandle_def el_less_def flockEntry_def flockEntryUnlocked_def
  flockEntryLockRequest_def flockEntryCheckConflicts_def flockEntryIsGranted_def
  flockEntryUnlock_def flockEntryShared_def flockEntryExclusive_def flockEntryTryNextWaiters_def

theorem entry_queues_well_formed_witness:
  "entry_inv (run entry_step demo_ops (no_locks (demo_lock ''z'' 0 ''k0'' 0)))"
  by (rule entry_queues_well_formed) (simp add: entry_eval)

text \<open>
  C2: A request (lock, unlock or cancel) keeps mutual exclusion between the exclusive holder
  and the other handles, unless the call promotes a queued writer: the only way to an
  exclusive holder beside other readers is the grant of a waiter.
\<close>

theorem entry_mutual_exclusion:
  assumes "entry_inv q" "mutex q" "entry_op_ok (EntryRequest l)"
    and "flockEntry l q = (granted, q', notified)"
  shows "mutex q' \<or> exclLock q' \<in> set notified"
proof -
  have wf: "entry_wf q" and l: "el_isSet l" using assms by (auto simp: entry_inv_def)
  note c = cancel_mutex [OF assms(2), of "el_equalsHandle l"]
  note u = unlock_mutex [OF assms(2), of l]
  note r = lockRequest_mutex [OF assms(2) wf l]
  show ?thesis
    using assms(2-4) c u r
    by (auto simp: flockEntry_def flockEntryUnlocked_def flockEntryCancelByHandle_def
        split: if_splits prod.splits dest: tryNext_mutex)
qed

theorem entry_mutual_exclusion_witness:
  "mutex (fst (snd (flockEntry (demo_lock ''a'' 1 ''k1'' ENTRYLOCKTYPE_EXCLUSIVE)
     (no_locks (demo_lock ''z'' 0 ''k0'' 0)))))"
  using entry_mutual_exclusion
    [of "no_locks (demo_lock ''z'' 0 ''k0'' 0)" "demo_lock ''a'' 1 ''k1'' ENTRYLOCKTYPE_EXCLUSIVE"
        True "(no_locks (demo_lock ''z'' 0 ''k0'' 0))
                \<lparr>exclLock := demo_lock ''a'' 1 ''k1'' ENTRYLOCKTYPE_EXCLUSIVE\<rparr>" "[]"]
  by (simp add: no_locks_inv entry_eval mutex_def)

text \<open>
  C3: The outcome of a new lock request (neither pending nor already granted): it is granted
  at once exactly if no other handle holds a conflicting lock (and, for a reader, no writer
  waits); then it is held afterwards; a request that may not wait leaves the queues as they
  were; a request that waits is queued (or was granted by the retry that followed the release
  of its own old lock).
\<close>

theorem entry_request_outcome:
  assumes inv: "entry_inv q" and l: "el_isSet l" "el_lockTypeOk l"
    and req: "\<not> el_isCancel l" "\<not> el_isUnlock l"
    and new: "el_lockAckID l \<notin> waitersLockIDs q" "\<not> flockEntryIsGranted l q"
    and call: "flockEntry l q = (granted, q', notified)"
  shows "(granted \<longleftrightarrow> entry_compatible l q) \<and>
    (granted \<longrightarrow> (if el_isExclusive l then exclLock q' = l else l \<in> set (sharedLocks q'))) \<and>
    (\<not> granted \<and> \<not> el_allowsWaiting l \<longrightarrow> q' = q \<and> notified = []) \<and>
    (\<not> granted \<and> el_allowsWaiting l \<longrightarrow>
       l \<in> set notified \<union> set (waitersExclLock q') \<union> set (waitersSharedLock q'))"
proof -
  have wf: "entry_wf q" using inv by (simp add: entry_inv_def)
  obtain t q1 where e: "flockEntryUnlock l q = (t, q1)" by fastforce
  have wq: "waitersExclLock q1 = waitersExclLock q" using unlock_queues [of l q] by (simp add: e)
  have gone: "\<forall>s \<in> set (sharedLocks q1). \<not> el_equalsHandle l s"
    using unlock_releases [OF wf l(1)] by (simp add: e)
  then have ins: "l \<in> set (set_insert el_less l (sharedLocks q1))"
    using set_insert_fresh [of "sharedLocks q1" el_less l] by (auto simp: el_related_iff)
  have free: "\<not> el_isSet (exclLock q1)" if "entry_compatible l q"
    using conflict_free_excl_gone [OF _ wf l(1)] that by (simp add: e compatible_iff)
  have sh: "\<exists>q3. flockEntryTryNextWaiters (flockEntryShared l q1) = (q3, waitersSharedLock q1)
              \<and> l \<in> set (sharedLocks q3)"
    if "entry_compatible l q" "el_isShared l"
  proof -
    have "waitersExclLock q1 = []"
      using that l(2) by (auto simp: entry_compatible_def el_lockTypeOk_def wq)
    with free [OF that(1)] ins fold_insert_keeps
      [of "set_insert el_less l (sharedLocks q1)" el_less "waitersSharedLock q1"]
    show ?thesis
      by (auto simp: flockEntryTryNextWaiters_def flockEntryShared_def grantSharedWaiters_result)
  qed
  have keep: "w \<in> set n \<union> set (waitersExclLock q3) \<union> set (waitersSharedLock q3)"
    if "flockEntryTryNextWaiters q2 = (q3, n)"
      "w \<in> set (waitersExclLock q2) \<union> set (waitersSharedLock q2)" for w q2 q3 n
    using that by (auto simp: flockEntryTryNextWaiters_def grantSharedWaiters_result
        flockEntryExclusive_def split: if_splits list.splits)
  show ?thesis
  proof (cases "entry_compatible l q")
    case True
    with call req new l ins sh [OF True] show ?thesis
      by (auto simp: flockEntry_def flockEntryUnlocked_def flockEntryLockRequest_def Let_def e
          compatible_iff flockEntryShared_def flockEntryExclusive_def el_lockTypeOk_def
          flockEntryTryNextWaiters_def split: if_splits)
  next
    case False
    with call req new l show ?thesis
      by (auto simp: flockEntry_def flockEntryUnlocked_def flockEntryLockRequest_def Let_def e
          compatible_iff split: if_splits dest!: keep)
  qed
qed

theorem entry_request_outcome_witness:
  "fst (flockEntry (demo_lock ''a'' 1 ''k1'' ENTRYLOCKTYPE_SHARED)
     (no_locks (demo_lock ''z'' 0 ''k0'' 0))) \<longleftrightarrow>
   entry_compatible (demo_lock ''a'' 1 ''k1'' ENTRYLOCKTYPE_SHARED)
     (no_locks (demo_lock ''z'' 0 ''k0'' 0))"
  using entry_request_outcome
    [of "no_locks (demo_lock ''z'' 0 ''k0'' 0)" "demo_lock ''a'' 1 ''k1'' ENTRYLOCKTYPE_SHARED"
        True "(no_locks (demo_lock ''z'' 0 ''k0'' 0))
                \<lparr>sharedLocks := [demo_lock ''a'' 1 ''k1'' ENTRYLOCKTYPE_SHARED]\<rparr>" "[]"]
  by (simp add: no_locks_inv entry_eval)

text \<open>
  C4: A cancel request (sent when a client closes the file) succeeds and removes every
  granted and every pending lock of its handle, with the acknowledgment IDs of the pending
  ones; the granted locks of the other handles stay.
\<close>

theorem entry_cancel_releases:
  assumes inv: "entry_inv q" and l: "el_isSet l" "el_isCancel l"
    and call: "flockEntry l q = (granted, q', notified)"
  shows "granted \<and> \<not> el_equalsHandle l (exclLock q') \<and>
    (\<forall>m \<in> set (sharedLocks q') \<union> set (waitersExclLock q') \<union> set (waitersSharedLock q').
       \<not> el_equalsHandle l m) \<and>
    waitersLockIDs q' = el_lockAckID ` (set (waitersExclLock q') \<union> set (waitersSharedLock q')) \<and>
    (\<forall>s \<in> set (sharedLocks q). \<not> el_equalsHandle l s \<longrightarrow> s \<in> set (sharedLocks q')) \<and>
    (el_isSet (exclLock q) \<and> \<not> el_equalsHandle l (exclLock q) \<longrightarrow> exclLock q' = exclLock q)"
proof -
  let ?q1 = "fst (cancelEntriesWhere (el_equalsHandle l) q)"
  have "entry_inv q'"
    using unlocked_inv [OF inv l(1)] l(2) call by (simp add: flockEntry_def)
  then have ids: "waitersLockIDs q' =
      el_lockAckID ` (set (waitersExclLock q') \<union> set (waitersSharedLock q'))"
    by (simp add: entry_inv_def entry_wf_def ids_ok_def)
  have q': "q' = ?q1 \<or> q' = fst (flockEntryTryNextWaiters ?q1)" and granted
    using call l(2)
    by (auto simp: flockEntry_def flockEntryUnlocked_def flockEntryCancelByHandle_def
        split: prod.splits if_splits)
  have no: "\<not> el_equalsHandle l e" if "\<not> el_isSet e" for e
    using that l(1) by (auto simp: el_equalsHandle_def el_isSet_def)
  have gone: "\<not> el_equalsHandle l (exclLock ?q1)"
    "\<forall>m \<in> set (sharedLocks ?q1) \<union> set (waitersExclLock ?q1) \<union> set (waitersSharedLock ?q1).
       \<not> el_equalsHandle l m"
    using no [of "el_unset (exclLock q)"] no [of "exclLock q"] by (auto simp: cancel_result)
  have stay: "set (sharedLocks ?q1) \<subseteq> set (sharedLocks q2) \<and>
      (el_isSet (exclLock ?q1) \<longrightarrow> exclLock q2 = exclLock ?q1) \<and>
      \<not> el_equalsHandle l (exclLock q2) \<and>
      (\<forall>m \<in> set (sharedLocks q2) \<union> set (waitersExclLock q2) \<union> set (waitersSharedLock q2).
         \<not> el_equalsHandle l m)"
    if "q2 = ?q1 \<or> q2 = fst (flockEntryTryNextWaiters ?q1)" for q2
    using that
  proof
    assume "q2 = ?q1"
    with gone show ?thesis by simp
  next
    assume q2: "q2 = fst (flockEntryTryNextWaiters ?q1)"
    show ?thesis
      unfolding q2 using tryNext_shared_kept [of ?q1] tryNext_excl_kept [of ?q1]
        tryNext_nothing_new [of "\<lambda>m. \<not> el_equalsHandle l m", OF gone] by simp
  qed
  show ?thesis
    using stay [OF q'] ids \<open>granted\<close> by (auto simp: cancel_result)
qed

theorem entry_cancel_releases_witness:
  "\<not> el_equalsHandle (demo_lock ''a'' 1 ''k5'' ENTRYLOCKTYPE_CANCEL)
     (exclLock (no_locks (demo_lock ''z'' 0 ''k0'' 0)))"
  using entry_cancel_releases
    [of "no_locks (demo_lock ''z'' 0 ''k0'' 0)" "demo_lock ''a'' 1 ''k5'' ENTRYLOCKTYPE_CANCEL"
        True "no_locks (demo_lock ''z'' 0 ''k0'' 0)" "[]"]
  by (simp add: no_locks_inv entry_eval flockEntryCancelByHandle_def cancel_result)

text \<open>
  C5: Mutual exclusion is lost whenever one of several readers unlocks while a writer waits:
  \<open>flockEntryTryNextWaiters\<close> does not look at the shared locks and grants the exclusive lock to the
  first waiting writer, although the other readers still hold their shared locks.
\<close>

theorem entry_writer_granted_beside_readers:
  assumes inv: "entry_inv q" and mutex: "mutex q" and l: "el_isSet l" "el_isUnlock l" "\<not> el_isCancel l"
    and holders: "r \<in> set (sharedLocks q)" "el_equalsHandle r l"
      "s \<in> set (sharedLocks q)" "\<not> el_equalsHandle s l"
    and waiting: "waitersExclLock q = w # ws"
    and call: "flockEntry l q = (granted, q', notified)"
  shows "exclLock q' = w \<and> s \<in> set (sharedLocks q') \<and> \<not> mutex q'"
proof -
  from inv have once: "handle_once q" and "el_isSet w"
    by (auto simp: entry_inv_def entry_wf_def all_set_def waiting)
  have free: "\<not> el_isSet (exclLock q)"
    using mutex once holders(3) el_equalsHandle_sym by (auto simp: mutex_def handle_once_def)
  obtain r' where r': "set_find el_less l (sharedLocks q) = Some r'"
    using holders(1,2) shared_find_None [of l "sharedLocks q"] el_equalsHandle_sym
    by (cases "set_find el_less l (sharedLocks q)") auto
  with shared_find_Some have "el_equalsHandle l r'" by blast
  with holders(4) have "s \<noteq> r'" using el_equalsHandle_sym by blast
  with holders(3) have stays: "s \<in> set (remove1 r' (sharedLocks q))" by simp
  have q': "exclLock q' = w" "sharedLocks q' = remove1 r' (sharedLocks q)"
    using call l free waiting r' unset_equals_no_set_handle [OF l(1) free]
    by (auto simp: flockEntry_def flockEntryUnlocked_def flockEntryUnlock_def
        flockEntryTryNextWaiters_def flockEntryExclusive_def)
  moreover have "\<not> el_equalsHandle s w"
    using once holders(3) waiting el_equalsHandle_sym by (auto simp: handle_once_def)
  ultimately show ?thesis
    using stays \<open>el_isSet w\<close> by (auto simp: mutex_def)
qed

theorem entry_writer_granted_beside_readers_witness:
  "\<not> mutex (run entry_step demo_ops (no_locks (demo_lock ''z'' 0 ''k0'' 0)))"
proof -
  let ?q = "run entry_step (take 3 demo_ops) (no_locks (demo_lock ''z'' 0 ''k0'' 0))"
  let ?l = "demo_lock ''a'' 1 ''k4'' ENTRYLOCKTYPE_UNLOCK"
  have inv: "entry_inv ?q"
    by (rule entry_sys.run_inv [OF no_locks_inv]) (simp add: entry_eval)
  obtain granted q' notified where call: "flockEntry ?l ?q = (granted, q', notified)"
    by (metis prod.collapse)
  have "\<not> mutex q'"
    by (rule entry_writer_granted_beside_readers
        [OF inv _ _ _ _ _ _ _ _ _ call, of "demo_lock ''a'' 1 ''k1'' ENTRYLOCKTYPE_SHARED"
          "demo_lock ''b'' 2 ''k2'' ENTRYLOCKTYPE_SHARED"
          "demo_lock ''c'' 3 ''k3'' ENTRYLOCKTYPE_EXCLUSIVE" "[]", THEN conjunct2, THEN conjunct2])
      (simp_all add: entry_eval mutex_def)
  then show ?thesis using call by (simp add: demo_ops_def)
qed
text \<open>
  The two client-cancel methods of the inode drop the waiters of every client and release
  no lock, whereas the generic routine (which nobody calls) releases the client's locks.
\<close>

lemma cancel_by_client_keeps_locks:
  "exclLock (flockEntryCancelByClientID cid q) = exclLock q"
  "sharedLocks (flockEntryCancelByClientID cid q) = sharedLocks q"
  "waitersExclLock (flockEntryCancelByClientID cid q) = []"
  "waitersSharedLock (flockEntryCancelByClientID cid q) = []"
  "exclAppendLock (flockAppendCancelByClientID cid a) = exclAppendLock a"
  by (simp_all add: flockEntryCancelByClientID_def flockEntryGenericCancelAllWaiters_def
      flockAppendCancelByClientID_def appendLocks_of_def AppendLockQueuesContainer_def)

lemma generic_cancel_by_client_releases:
  assumes "el_isSet (exclLock q)" "el_clientID (exclLock q) = cid"
  shows "el_clientID (exclLock (fst (flockEntryGenericCancelByClientID cid q))) \<noteq> cid"
proof -
  let ?q1 = "fst (cancelEntriesWhere (\<lambda>m. el_clientID m = cid) q)"
  have "cid \<noteq> []" using assms by (simp add: el_isSet_def)
  then have gone: "el_clientID (exclLock ?q1) \<noteq> cid"
    "\<forall>m \<in> set (sharedLocks ?q1) \<union> set (waitersExclLock ?q1) \<union> set (waitersSharedLock ?q1).
       el_clientID m \<noteq> cid"
    using assms by (auto simp: cancel_result el_unset_def)
  moreover have "fst (flockEntryGenericCancelByClientID cid q) = ?q1 \<or>
      fst (flockEntryGenericCancelByClientID cid q) = fst (flockEntryTryNextWaiters ?q1)"
    by (simp add: flockEntryGenericCancelByClientID_def split: prod.split)
  ultimately show ?thesis
    using tryNext_nothing_new(1) [of "\<lambda>m. el_clientID m \<noteq> cid", OF gone] by metis
qed

section \<open>Append locks\<close>

lemma tryNext_no_readers:
  "sharedLocks q = [] \<Longrightarrow> waitersSharedLock q = [] \<Longrightarrow>
     sharedLocks (fst (flockEntryTryNextWaiters q)) = [] \<and>
     waitersSharedLock (fst (flockEntryTryNextWaiters q)) = []"
  by (auto simp: flockEntryTryNextWaiters_def flockEntryExclusive_def split: list.splits)

lemma unlock_no_readers:
  "sharedLocks q = [] \<Longrightarrow> sharedLocks (snd (flockEntryUnlock l q)) = []"
  by (simp add: flockEntryUnlock_def)

lemma lockRequest_no_readers:
  assumes "sharedLocks q = []" "waitersSharedLock q = []" "\<not> el_isShared l"
  shows "sharedLocks (snd (snd (flockEntryLockRequest l q))) = [] \<and>
    waitersSharedLock (snd (snd (flockEntryLockRequest l q))) = []"
proof -
  obtain t q1 where e: "flockEntryUnlock l q = (t, q1)" by fastforce
  with assms unlock_no_readers [of q l] unlock_queues(2) [of l q]
  show ?thesis by (auto simp: flockEntryLockRequest_def Let_def flockEntryExclusive_def)
qed

lemma unlocked_state:
  "fst (snd (flockEntryUnlocked l q)) =
     (let retry = \<lambda>t q1. if t then fst (flockEntryTryNextWaiters q1) else q1
      in if el_isCancel l
         then retry (snd (cancelEntriesWhere (el_equalsHandle l) q))
                    (fst (cancelEntriesWhere (el_equalsHandle l) q))
         else if el_isUnlock l
         then retry (fst (flockEntryUnlock l q)) (snd (flockEntryUnlock l q))
         else if el_lockAckID l \<in> waitersLockIDs q \<or> flockEntryIsGranted l q then q
         else retry (fst (snd (flockEntryLockRequest l q))) (snd (snd (flockEntryLockRequest l q))))"
  by (simp add: flockEntryUnlocked_def flockEntryCancelByHandle_def Let_def split: prod.split)

lemma unlocked_no_readers:
  assumes "sharedLocks q = []" "waitersSharedLock q = []"
    and "\<not> el_isCancel l \<and> \<not> el_isUnlock l \<longrightarrow> \<not> el_isShared l"
  shows "sharedLocks (fst (snd (flockEntryUnlocked l q))) = [] \<and>
    waitersSharedLock (fst (snd (flockEntryUnlocked l q))) = []"
proof -
  have c: "sharedLocks (fst (cancelEntriesWhere P q)) = []"
    "waitersSharedLock (fst (cancelEntriesWhere P q)) = []" for P
    using assms by (simp_all add: cancel_result)
  have u: "sharedLocks (snd (flockEntryUnlock l q)) = []"
    "waitersSharedLock (snd (flockEntryUnlock l q)) = []"
    using assms by (simp_all add: unlock_no_readers)
  note r = lockRequest_no_readers [OF assms(1,2), of l]
  note t = tryNext_no_readers [of "snd (snd (flockEntryLockRequest l q))"]
  show ?thesis
    unfolding unlocked_state Let_def
    using assms r t by (simp add: c u tryNext_no_readers [OF c] tryNext_no_readers [OF u])
qed

datatype AppendOp =
    AppendRequest EntryLockDetails
  | AppendCancelAllWaiters
  | AppendCancelByClientID string

fun append_step :: "AppendOp \<Rightarrow> AppendLocks \<Rightarrow> AppendLocks" where
  "append_step (AppendRequest l) a = fst (snd (flockAppend l a))"
| "append_step AppendCancelAllWaiters a = flockAppendCancelAllWaiters a"
| "append_step (AppendCancelByClientID cid) a = flockAppendCancelByClientID cid a"

text \<open>Append locks are exclusive only.\<close>

fun append_op_ok :: "AppendOp \<Rightarrow> bool" where
  "append_op_ok (AppendRequest l) =
     (el_isSet l \<and>
      (\<not> el_isCancel l \<and> \<not> el_isUnlock l \<longrightarrow> el_isExclusive l \<and> \<not> el_isShared l))"
| "append_op_ok op = True"

definition append_inv :: "AppendLocks \<Rightarrow> bool" where
  "append_inv a \<longleftrightarrow> entry_inv (AppendLockQueuesContainer a)"

lemma append_container_round:
  "sharedLocks q = [] \<Longrightarrow> waitersSharedLock q = [] \<Longrightarrow>
     AppendLockQueuesContainer (appendLocks_of q) = q"
  by (simp add: AppendLockQueuesContainer_def appendLocks_of_def)

interpretation append_sys: invariant_system append_step append_op_ok append_inv
proof
  fix a op
  assume inv: "append_inv a" and ok: "append_op_ok op"
  have all: "append_inv (appendLocks_of (flockEntryGenericCancelAllWaiters
      (AppendLockQueuesContainer a)))"
    using cancel_all_waiters_inv [of "AppendLockQueuesContainer a"] inv
    by (simp add: append_inv_def append_container_round flockEntryGenericCancelAllWaiters_def
        AppendLockQueuesContainer_def appendLocks_of_def)
  show "append_inv (append_step op a)"
  proof (cases op)
    case (AppendRequest l)
    let ?q = "AppendLockQueuesContainer a"
    have e: "sharedLocks ?q = []" "waitersSharedLock ?q = []"
      by (simp_all add: AppendLockQueuesContainer_def)
    have "entry_inv (fst (snd (flockEntryUnlocked l ?q)))"
      using inv ok AppendRequest
      by (intro unlocked_inv) (auto simp: append_inv_def el_lockTypeOk_def)
    with unlocked_no_readers [OF e, of l] ok AppendRequest show ?thesis
      by (auto simp: append_inv_def flockAppend_def append_container_round split: prod.splits)
  qed (simp_all add: all flockAppendCancelAllWaiters_def flockAppendCancelByClientID_def)
qed

lemma append_request_with_holder:
  "append_inv a \<Longrightarrow> waitersExclAppendLock a \<noteq> [] \<Longrightarrow> el_isSet (exclAppendLock a)"
  by (auto simp: append_inv_def entry_inv_def no_stuck_def AppendLockQueuesContainer_def)

text \<open>
  After any sequence of append lock requests (exclusive ones, unlocks and cancels) from
  the unlocked file, a queued request waits behind a holder, and the duplicate filter holds
  exactly the acknowledgment IDs of the queued requests.
\<close>

theorem append_waits_behind_holder:
  assumes "list_all append_op_ok ops"
    and "a = run append_step ops (appendLocks_of (no_locks l))"
  shows "(waitersExclAppendLock a \<noteq> [] \<longrightarrow> el_isSet (exclAppendLock a)) \<and>
    waitersLockIDsAppendLock a = el_lockAckID ` set (waitersExclAppendLock a) \<and>
    distinct (map el_lockAckID (waitersExclAppendLock a))"
proof -
  have "append_inv (appendLocks_of (no_locks l))"
    by (simp add: append_inv_def append_container_round no_locks_inv)
  then have inv: "append_inv a" unfolding assms(2) by (rule append_sys.run_inv [OF _ assms(1)])
  then have "ids_ok el_lockAckID (waitersExclAppendLock a) [] (waitersLockIDsAppendLock a)"
    by (simp add: append_inv_def entry_inv_def entry_wf_def AppendLockQueuesContainer_def)
  with append_request_with_holder [OF inv] show ?thesis by (auto simp: ids_ok_def)
qed

theorem append_waits_behind_holder_witness:
  "waitersLockIDsAppendLock
     (run append_step [AppendRequest (demo_lock ''a'' 1 ''k1'' ENTRYLOCKTYPE_EXCLUSIVE),
                       AppendRequest (demo_lock ''b'' 2 ''k2'' ENTRYLOCKTYPE_EXCLUSIVE)]
       (appendLocks_of (no_locks (demo_lock ''z'' 0 ''k0'' 0)))) = {''k2''}"
  using append_waits_behind_holder
    [of "[AppendRequest (demo_lock ''a'' 1 ''k1'' ENTRYLOCKTYPE_EXCLUSIVE),
          AppendRequest (demo_lock ''b'' 2 ''k2'' ENTRYLOCKTYPE_EXCLUSIVE)]" _
        "demo_lock ''z'' 0 ''k0'' 0", OF _ refl]
  by (simp add: entry_eval flockAppend_def appendLocks_of_def AppendLockQueuesContainer_def)

end
