(* ===== verification/RangeLocks.thy ===== *)
theory RangeLocks
  imports EntryLocks
begin

text \<open>
  Byte-range locks of a metadata inode: \<open>RangeLockDetails\<close> of \<open>Locking.h\<close> and the
  \<open>flockRange...\<close> methods of \<open>FileInode.cpp\<close>. The inode keeps the set of exclusive ranges
  (ordered by start), the set of shared ranges (ordered by handle, then start), two FIFO
  queues of waiting requests and the set of the acknowledgment IDs that are waiting.

  A loop of the code that walks over a set and erases or re-inserts elements under way is a
  recursion over the elements the set had when the loop began, with the set as a separate
  argument. The code takes the successor of an element before it erases it, and the remainder
  of a trimmed lock no longer overlaps the unlocked range (lemma \<open>trim_no_overlap\<close>), so that
  the code skips it should it meet it again.
\<close>

section \<open>Lock requests\<close>

datatype RangeOverlapType =
    RangeOverlapType_NONE
  | RangeOverlapType_EQUALS
  | RangeOverlapType_CONTAINS
  | RangeOverlapType_ISCONTAINED
  | RangeOverlapType_STARTOVERLAP
  | RangeOverlapType_ENDOVERLAP

record RangeLockDetails =
  rl_clientID :: string
  rl_ownerPID :: i32
  rl_lockAckID :: string
  rl_lockTypeFlags :: i32
  rl_start :: u64
  rl_end :: u64

definition rl_allowsWaiting :: "RangeLockDetails \<Rightarrow> bool" where
  "rl_allowsWaiting l \<longleftrightarrow> \<not> has_flag (rl_lockTypeFlags l) ENTRYLOCKTYPE_NOWAIT"

definition rl_isUnlock :: "RangeLockDetails \<Rightarrow> bool" where
  "rl_isUnlock l \<longleftrightarrow> has_flag (rl_lockTypeFlags l) ENTRYLOCKTYPE_UNLOCK"

definition rl_isExclusive :: "RangeLockDetails \<Rightarrow> bool" where
  "rl_isExclusive l \<longleftrightarrow> has_flag (rl_lockTypeFlags l) ENTRYLOCKTYPE_EXCLUSIVE"

definition rl_isShared :: "RangeLockDetails \<Rightarrow> bool" where
  "rl_isShared l \<longleftrightarrow> has_flag (rl_lockTypeFlags l) ENTRYLOCKTYPE_SHARED"

definition rl_isCancel :: "RangeLockDetails \<Rightarrow> bool" where
  "rl_isCancel l \<longleftrightarrow> has_flag (rl_lockTypeFlags l) ENTRYLOCKTYPE_CANCEL"

definition rl_setUnlock :: "RangeLockDetails \<Rightarrow> RangeLockDetails" where
  "rl_setUnlock l = l\<lparr>rl_lockTypeFlags := setUnlockFlags (rl_lockTypeFlags l)\<rparr>"

definition rl_equalsHandle :: "RangeLockDetails \<Rightarrow> RangeLockDetails \<Rightarrow> bool" where
  "rl_equalsHandle l m \<longleftrightarrow>
     rl_ownerPID l = rl_ownerPID m \<and> rl_clientID l = rl_clientID m"

definition rl_isMergeable :: "RangeLockDetails \<Rightarrow> RangeLockDetails \<Rightarrow> bool" where
  "rl_isMergeable l m \<longleftrightarrow> \<not> (rl_end m + 1 < rl_start l \<or> rl_start m > rl_end l + 1)"

definition rl_overlaps :: "RangeLockDetails \<Rightarrow> RangeLockDetails \<Rightarrow> bool" where
  "rl_overlaps l m \<longleftrightarrow> \<not> (rl_end m < rl_start l \<or> rl_start m > rl_end l)"

definition rl_overlapsEx :: "RangeLockDetails \<Rightarrow> RangeLockDetails \<Rightarrow> RangeOverlapType" where
  "rl_overlapsEx l m =
     (if rl_end m < rl_start l \<or> rl_start m > rl_end l then RangeOverlapType_NONE
      else if rl_start m = rl_start l \<and> rl_end m = rl_end l then RangeOverlapType_EQUALS
      else if rl_start l \<le> rl_start m \<and> rl_end l \<ge> rl_end m then RangeOverlapType_CONTAINS
      else if rl_start l \<ge> rl_start m \<and> rl_end l \<le> rl_end m then RangeOverlapType_ISCONTAINED
      else if rl_start l < rl_start m then RangeOverlapType_STARTOVERLAP
      else RangeOverlapType_ENDOVERLAP)"

definition rl_trim :: "RangeLockDetails \<Rightarrow> RangeLockDetails \<Rightarrow> RangeLockDetails" where
  "rl_trim l trimmer =
     (if rl_end trimmer < rl_end l then l\<lparr>rl_start := rl_end trimmer + 1\<rparr>
      else l\<lparr>rl_end := rl_start trimmer - 1\<rparr>)"

text \<open>\<open>split\<close>: the left remainder and \<open>outEndRegion\<close>.\<close>

definition rl_split ::
    "RangeLockDetails \<Rightarrow> RangeLockDetails \<Rightarrow> RangeLockDetails \<times> RangeLockDetails" where
  "rl_split l splitter =
     (l\<lparr>rl_end := rl_start splitter - 1\<rparr>, l\<lparr>rl_start := rl_end splitter + 1\<rparr>)"

definition rl_merge :: "RangeLockDetails \<Rightarrow> RangeLockDetails \<Rightarrow> RangeLockDetails" where
  "rl_merge l m = l\<lparr>rl_start := min (rl_start l) (rl_start m), rl_end := max (rl_end l) (rl_end m)\<rparr>"

text \<open>\<open>MapComparatorShared\<close> and \<open>MapComparatorExcl\<close>.\<close>

definition rl_lessShared :: "RangeLockDetails \<Rightarrow> RangeLockDetails \<Rightarrow> bool" where
  "rl_lessShared a b \<longleftrightarrow>
     sint (rl_ownerPID a) < sint (rl_ownerPID b) \<or>
     (rl_ownerPID a = rl_ownerPID b \<and>
       (rl_clientID a < rl_clientID b \<or>
        (rl_clientID a = rl_clientID b \<and> rl_start a < rl_start b)))"

definition rl_lessExcl :: "RangeLockDetails \<Rightarrow> RangeLockDetails \<Rightarrow> bool" where
  "rl_lessExcl a b \<longleftrightarrow> rl_start a < rl_start b"

section \<open>The lock sets and queues of an inode\<close>

record RangeLocks =
  exclRangeFLocks :: "RangeLockDetails list"
  sharedRangeFLocks :: "RangeLockDetails list"
  waitersExclRangeFLock :: "RangeLockDetails list"
  waitersSharedRangeFLock :: "RangeLockDetails list"
  waitersLockIDsRangeFLock :: "string set"

text \<open>
  \<open>flockRangeCheckConflictsEx\<close>: the loop over the exclusive locks stops at the first lock
  that starts behind the request; the loop over the waiting writers counts
  \<open>maxExclWaitersCheckNum\<close> down (a negative number never reaches 0). \<open>Some c\<close> is the return
  value true with \<open>*outConflictor = c\<close>.
\<close>

definition conflictsWith :: "RangeLockDetails \<Rightarrow> RangeLockDetails \<Rightarrow> bool" where
  "conflictsWith l x \<longleftrightarrow> rl_overlaps l x \<and> \<not> rl_equalsHandle l x"

fun exclConflict :: "RangeLockDetails \<Rightarrow> RangeLockDetails list \<Rightarrow> RangeLockDetails option" where
  "exclConflict l [] = None"
| "exclConflict l (x # xs) =
     (if \<not> rl_start x \<le> rl_end l then None
      else if conflictsWith l x then Some x
      else exclConflict l xs)"

fun waiterConflict ::
    "RangeLockDetails \<Rightarrow> int \<Rightarrow> RangeLockDetails list \<Rightarrow> RangeLockDetails option" where
  "waiterConflict l n [] = None"
| "waiterConflict l n (x # xs) =
     (if n = 0 then None
      else if conflictsWith l x then Some x
      else waiterConflict l (n - 1) xs)"

definition flockRangeCheckConflictsEx ::
    "RangeLockDetails \<Rightarrow> int \<Rightarrow> RangeLocks \<Rightarrow> RangeLockDetails option" where
  "flockRangeCheckConflictsEx l maxExclWaitersCheckNum s =
     (case exclConflict l (exclRangeFLocks s) of
        Some c \<Rightarrow> Some c
      | None \<Rightarrow>
          (case (if rl_isExclusive l then find (conflictsWith l) (sharedRangeFLocks s) else None) of
             Some c \<Rightarrow> Some c
           | None \<Rightarrow> waiterConflict l maxExclWaitersCheckNum (waitersExclRangeFLock s)))"

definition flockRangeCheckConflicts ::
    "RangeLockDetails \<Rightarrow> RangeLocks \<Rightarrow> RangeLockDetails option" where
  "flockRangeCheckConflicts l s = flockRangeCheckConflictsEx l (-1) s"

definition flockRangeGetConflictor ::
    "RangeLockDetails \<Rightarrow> RangeLocks \<Rightarrow> RangeLockDetails option" where
  "flockRangeGetConflictor l s = flockRangeCheckConflicts l s"

text \<open>
  The loops of \<open>flockRangeShared\<close> and \<open>flockRangeExclusive\<close>: both merge the locks of the
  same handle into the request and erase them. They differ in the comparator of the set and
  in the loop guard \<open>go\<close>.
\<close>

fun mergeLoop ::
    "(RangeLockDetails \<Rightarrow> RangeLockDetails \<Rightarrow> bool) \<Rightarrow> RangeLockDetails \<Rightarrow>
     RangeLockDetails list \<Rightarrow> RangeLockDetails list \<Rightarrow> RangeLockDetails \<times> RangeLockDetails list"
where
  "mergeLoop go l [] locks = (l, locks)"
| "mergeLoop go l (x # xs) locks =
     (if \<not> go l x then (l, locks)
      else if rl_equalsHandle l x \<and> rl_isMergeable l x
      then mergeLoop go (rl_merge l x) xs (remove1 x locks)
      else mergeLoop go l xs locks)"

definition flockRangeShared ::
    "RangeLockDetails \<Rightarrow> RangeLocks \<Rightarrow> RangeLockDetails \<times> RangeLocks" where
  "flockRangeShared l s =
     (let (l', locks) = mergeLoop (\<lambda>_ _. True) l (sharedRangeFLocks s) (sharedRangeFLocks s)
      in (l', s\<lparr>sharedRangeFLocks := set_insert rl_lessShared l' locks\<rparr>))"

definition flockRangeExclusive ::
    "RangeLockDetails \<Rightarrow> RangeLocks \<Rightarrow> RangeLockDetails \<times> RangeLocks" where
  "flockRangeExclusive l s =
     (let (l', locks) = mergeLoop (\<lambda>l x. rl_start x \<le> rl_end l + 1) l
                          (exclRangeFLocks s) (exclRangeFLocks s)
      in (l', s\<lparr>exclRangeFLocks := set_insert rl_lessExcl l' locks\<rparr>))"

text \<open>The loops of \<open>flockRangeIsGranted\<close>.\<close>

fun grantedLoop ::
    "(RangeLockDetails \<Rightarrow> bool) \<Rightarrow> RangeLockDetails \<Rightarrow> RangeLockDetails list \<Rightarrow> bool" where
  "grantedLoop go l [] = False"
| "grantedLoop go l (x # xs) =
     (if \<not> go x then False
      else if \<not> rl_equalsHandle l x then grantedLoop go l xs
      else (case rl_overlapsEx l x of
              RangeOverlapType_EQUALS \<Rightarrow> True
            | RangeOverlapType_ISCONTAINED \<Rightarrow> True
            | RangeOverlapType_CONTAINS \<Rightarrow> False
            | RangeOverlapType_STARTOVERLAP \<Rightarrow> False
            | RangeOverlapType_ENDOVERLAP \<Rightarrow> False
            | RangeOverlapType_NONE \<Rightarrow> grantedLoop go l xs))"

definition flockRangeIsGranted :: "RangeLockDetails \<Rightarrow> RangeLocks \<Rightarrow> bool" where
  "flockRangeIsGranted l s =
     (if rl_isExclusive l
      then grantedLoop (\<lambda>x. rl_start x \<le> rl_end l) l (exclRangeFLocks s)
      else if rl_isShared l then grantedLoop (\<lambda>_. True) l (sharedRangeFLocks s)
      else False)"

text \<open>
  The loops of \<open>flockRangeUnlock\<close>: the result is the set, whether a lock was removed and
  whether the method returned from within the loop.
\<close>

fun unlockLoop ::
    "(RangeLockDetails \<Rightarrow> RangeLockDetails \<Rightarrow> bool) \<Rightarrow> (RangeLockDetails \<Rightarrow> bool) \<Rightarrow>
     RangeLockDetails \<Rightarrow> RangeLockDetails list \<Rightarrow> RangeLockDetails list \<Rightarrow> bool \<Rightarrow>
     RangeLockDetails list \<times> bool \<times> bool" where
  "unlockLoop lt go l [] locks removed = (locks, removed, False)"
| "unlockLoop lt go l (x # xs) locks removed =
     (if \<not> go x then (locks, removed, False)
      else if \<not> rl_equalsHandle l x then unlockLoop lt go l xs locks removed
      else (case rl_overlapsEx l x of
              RangeOverlapType_EQUALS \<Rightarrow> (remove1 x locks, True, True)
            | RangeOverlapType_ISCONTAINED \<Rightarrow>
                (if rl_start l = rl_start x \<or> rl_end l = rl_end x
                 then (set_insert lt (rl_trim x l) (remove1 x locks), True, True)
                 else let (left, right) = rl_split x l
                      in (set_insert lt right (set_insert lt left (remove1 x locks)), True, True))
            | RangeOverlapType_CONTAINS \<Rightarrow> unlockLoop lt go l xs (remove1 x locks) True
            | RangeOverlapType_STARTOVERLAP \<Rightarrow>
                unlockLoop lt go l xs (set_insert lt (rl_trim x l) (remove1 x locks)) True
            | RangeOverlapType_ENDOVERLAP \<Rightarrow>
                unlockLoop lt go l xs (set_insert lt (rl_trim x l) (remove1 x locks)) True
            | RangeOverlapType_NONE \<Rightarrow> unlockLoop lt go l xs locks removed))"

definition flockRangeUnlock :: "RangeLockDetails \<Rightarrow> RangeLocks \<Rightarrow> bool \<times> RangeLocks" where
  "flockRangeUnlock l s =
     (let (excl, removed, returned) =
            unlockLoop rl_lessExcl (\<lambda>x. rl_start x \<le> rl_end l) l
              (exclRangeFLocks s) (exclRangeFLocks s) False;
          s1 = s\<lparr>exclRangeFLocks := excl\<rparr>
      in if returned then (True, s1)
         else let (shared, removed', returned') =
                    unlockLoop rl_lessShared (\<lambda>_. True) l
                      (sharedRangeFLocks s1) (sharedRangeFLocks s1) removed
              in (removed', s1\<lparr>sharedRangeFLocks := shared\<rparr>))"

text \<open>
  The two loops of \<open>flockRangeTryNextWaiters\<close>: \<open>kept\<close> are the waiters in front of the
  iterator, \<open>n\<close> is \<open>numWaitersBefore\<close>. A granted request is put on the notify list with the
  range it has after merging.
\<close>

fun grantExclWaiters ::
    "RangeLockDetails list \<Rightarrow> RangeLockDetails list \<Rightarrow> int \<Rightarrow> RangeLocks \<Rightarrow>
     RangeLocks \<times> RangeLockDetails list" where
  "grantExclWaiters kept [] n s = (s, [])"
| "grantExclWaiters kept (w # ws) n s =
     (if flockRangeCheckConflictsEx w n s \<noteq> None
      then grantExclWaiters (kept @ [w]) ws (n + 1) s
      else let (w', s1) = flockRangeExclusive w s;
               s2 = s1\<lparr>waitersLockIDsRangeFLock := waitersLockIDsRangeFLock s1 - {rl_lockAckID w'},
                       waitersExclRangeFLock := kept @ ws\<rparr>;
               (s3, notified) = grantExclWaiters kept ws n s2
           in (s3, w' # notified))"

fun grantSharedRangeWaiters ::
    "RangeLockDetails list \<Rightarrow> RangeLockDetails list \<Rightarrow> RangeLocks \<Rightarrow>
     RangeLocks \<times> RangeLockDetails list" where
  "grantSharedRangeWaiters kept [] s = (s, [])"
| "grantSharedRangeWaiters kept (w # ws) s =
     (if flockRangeCheckConflicts w s \<noteq> None
      then grantSharedRangeWaiters (kept @ [w]) ws s
      else let (w', s1) = flockRangeShared w s;
               s2 = s1\<lparr>waitersLockIDsRangeFLock := waitersLockIDsRangeFLock s1 - {rl_lockAckID w'},
                       waitersSharedRangeFLock := kept @ ws\<rparr>;
               (s3, notified) = grantSharedRangeWaiters kept ws s2
           in (s3, w' # notified))"

definition flockRangeTryNextWaiters :: "RangeLocks \<Rightarrow> RangeLocks \<times> RangeLockDetails list" where
  "flockRangeTryNextWaiters s =
     (let (s1, n1) = grantExclWaiters [] (waitersExclRangeFLock s) 0 s;
          (s2, n2) = grantSharedRangeWaiters [] (waitersSharedRangeFLock s1) s1
      in (s2, n1 @ n2))"

text \<open>
  \<open>flockRangeCancelByHandle\<close> and the body of \<open>flockRangeCancelByClientID\<close> differ in the test
  \<open>P\<close> only.
\<close>

definition cancelRangesWhere ::
    "(RangeLockDetails \<Rightarrow> bool) \<Rightarrow> RangeLocks \<Rightarrow> RangeLocks \<times> bool" where
  "cancelRangesWhere P s =
     (let dropExcl = list_ex P (exclRangeFLocks s);
          dropShared = list_ex P (sharedRangeFLocks s);
          (we, ids1, dropWE) =
            cancelWaiters P rl_lockAckID (waitersExclRangeFLock s) (waitersLockIDsRangeFLock s);
          (ws, ids2, dropWS) = cancelWaiters P rl_lockAckID (waitersSharedRangeFLock s) ids1
      in (s\<lparr>exclRangeFLocks := filter (\<lambda>x. \<not> P x) (exclRangeFLocks s),
            sharedRangeFLocks := filter (\<lambda>x. \<not> P x) (sharedRangeFLocks s),
            waitersExclRangeFLock := we,
            waitersSharedRangeFLock := ws,
            waitersLockIDsRangeFLock := ids2\<rparr>,
          dropExcl \<or> dropShared \<or> dropWE \<or> dropWS))"

definition flockRangeCancelByHandle :: "RangeLockDetails \<Rightarrow> RangeLocks \<Rightarrow> RangeLocks \<times> bool" where
  "flockRangeCancelByHandle l s = cancelRangesWhere (\<lambda>m. rl_equalsHandle l m) s"

definition flockRangeCancelByClientID ::
    "string \<Rightarrow> RangeLocks \<Rightarrow> RangeLocks \<times> RangeLockDetails list" where
  "flockRangeCancelByClientID cid s =
     (let (s1, tryNextWaiters) = cancelRangesWhere (\<lambda>m. rl_clientID m = cid) s
      in if tryNextWaiters then flockRangeTryNextWaiters s1 else (s1, []))"

definition flockRangeCancelAllWaiters :: "RangeLocks \<Rightarrow> RangeLocks" where
  "flockRangeCancelAllWaiters s =
     s\<lparr>waitersLockIDsRangeFLock := {}, waitersExclRangeFLock := [],
       waitersSharedRangeFLock := []\<rparr>"

text \<open>\<open>flockRangeUnlocked\<close>: the return value, the new state, the notified waiters.\<close>

definition flockRangeLockRequest ::
    "RangeLockDetails \<Rightarrow> RangeLocks \<Rightarrow> bool \<times> bool \<times> RangeLocks" where
  "flockRangeLockRequest l s =
     (let hasConflicts = (flockRangeCheckConflicts l s \<noteq> None);
          (tryNext, s1) =
            (if \<not> hasConflicts \<or> rl_allowsWaiting l then flockRangeUnlock l s else (False, s))
      in if rl_isShared l
         then (if \<not> hasConflicts then (True, tryNext, snd (flockRangeShared l s1))
               else if rl_allowsWaiting l
               then (False, tryNext,
                     s1\<lparr>waitersSharedRangeFLock := waitersSharedRangeFLock s1 @ [l],
                        waitersLockIDsRangeFLock :=
                          insert (rl_lockAckID l) (waitersLockIDsRangeFLock s1)\<rparr>)
               else (False, tryNext, s1))
         else (if \<not> hasConflicts then (True, tryNext, snd (flockRangeExclusive l s1))
               else if rl_allowsWaiting l
               then (False, tryNext,
                     s1\<lparr>waitersExclRangeFLock := waitersExclRangeFLock s1 @ [l],
                        waitersLockIDsRangeFLock :=
                          insert (rl_lockAckID l) (waitersLockIDsRangeFLock s1)\<rparr>)
               else (False, tryNext, s1)))"

definition flockRangeUnlocked ::
    "RangeLockDetails \<Rightarrow> RangeLocks \<Rightarrow> bool \<times> RangeLocks \<times> RangeLockDetails list" where
  "flockRangeUnlocked l s =
     (if rl_isCancel l
      then let (s1, tryNext) = flockRangeCancelByHandle l s
           in if tryNext then (True, flockRangeTryNextWaiters s1) else (True, s1, [])
      else if rl_isUnlock l
      then let (tryNext, s1) = flockRangeUnlock l s
           in if tryNext then (True, flockRangeTryNextWaiters s1) else (True, s1, [])
      else if rl_lockAckID l \<in> waitersLockIDsRangeFLock s then (False, s, [])
      else if flockRangeIsGranted l s then (True, s, [])
      else let (granted, tryNext, s1) = flockRangeLockRequest l s
           in if tryNext then (granted, flockRangeTryNextWaiters s1) else (granted, s1, []))"

definition flockRange ::
    "RangeLockDetails \<Rightarrow> RangeLocks \<Rightarrow> bool \<times> RangeLocks \<times> RangeLockDetails list" where
  "flockRange l s = flockRangeUnlocked l s"

end
