(* ===== verification/RangeBytes.thy ===== *)
theory RangeBytes
  imports RangeLocks
begin

text \<open>
  What the range arithmetic of \<open>RangeLockDetails\<close> does to the set of locked bytes, and what
  one pass of the loops over a lock set does to the bytes that each handle owns.
\<close>

section \<open>Ranges as sets of bytes\<close>

definition rl_handle :: "RangeLockDetails \<Rightarrow> i32 \<times> string" where
  "rl_handle l = (rl_ownerPID l, rl_clientID l)"

definition bytes :: "RangeLockDetails \<Rightarrow> int set" where
  "bytes l = {uint (rl_start l)..uint (rl_end l)}"

definition rl_wf :: "RangeLockDetails \<Rightarrow> bool" where
  "rl_wf l \<longleftrightarrow> rl_start l \<le> rl_end l"

text \<open>A range whose end can be incremented without wrap-around.\<close>

definition rl_bounded :: "RangeLockDetails \<Rightarrow> bool" where
  "rl_bounded l \<longleftrightarrow> rl_wf l \<and> rl_end l \<noteq> - 1"

lemma equalsHandle_iff [handle_simps]: "rl_equalsHandle l m \<longleftrightarrow> rl_handle l = rl_handle m"
  by (auto simp: rl_equalsHandle_def rl_handle_def)

lemma uint_max_word_64: "uint (- 1 :: u64) = 18446744073709551615"
  by (simp add: unsigned_minus_1_eq_mask mask_eq_exp_minus_1)

lemma uint_inc: "(a :: u64) \<noteq> - 1 \<Longrightarrow> uint (a + 1) = uint a + 1"
proof -
  assume "a \<noteq> - 1"
  then have "uint a \<noteq> 18446744073709551615"
    using uint_max_word_64 by (metis word_uint_eq_iff)
  with uint_lt2p [of a] show ?thesis by (simp add: uint_plus_if')
qed

lemma uint_inc_less: "(a :: u64) < b \<Longrightarrow> uint (a + 1) = uint a + 1"
  by (rule uint_inc) auto

lemma uint_dec_greater: "(b :: u64) < a \<Longrightarrow> uint (a - 1) = uint a - 1"
proof -
  assume "b < a"
  then have "uint b < uint a" by (simp add: word_less_def)
  moreover have "0 \<le> uint b" by simp
  ultimately have "1 \<le> uint a" by linarith
  then show ?thesis by (simp add: uint_sub_if')
qed

lemma wf_uint: "rl_wf l \<longleftrightarrow> uint (rl_start l) \<le> uint (rl_end l)"
  by (simp add: rl_wf_def word_le_def)

lemma overlaps_uint:
  "rl_overlaps l m \<longleftrightarrow>
     uint (rl_start m) \<le> uint (rl_end l) \<and> uint (rl_start l) \<le> uint (rl_end m)"
  by (auto simp: rl_overlaps_def word_le_def word_less_def)

lemma overlaps_bytes:
  "rl_wf l \<Longrightarrow> rl_wf m \<Longrightarrow> rl_overlaps l m \<longleftrightarrow> bytes l \<inter> bytes m \<noteq> {}"
  by (auto simp: overlaps_uint bytes_def wf_uint)

lemma bytes_not_empty: "rl_wf l \<Longrightarrow> bytes l \<noteq> {}"
  by (simp add: bytes_def wf_uint)

lemma mergeable_uint:
  "rl_end l \<noteq> - 1 \<Longrightarrow> rl_end m \<noteq> - 1 \<Longrightarrow>
     rl_isMergeable l m \<longleftrightarrow>
       uint (rl_start m) \<le> uint (rl_end l) + 1 \<and> uint (rl_start l) \<le> uint (rl_end m) + 1"
  by (auto simp: rl_isMergeable_def word_less_def uint_inc)

lemma uint_min: "uint (min (a :: u64) b) = min (uint a) (uint b)"
  and uint_max: "uint (max (a :: u64) b) = max (uint a) (uint b)"
  by (auto simp: min_def max_def word_le_def)

lemma handle_merge [simp]: "rl_handle (rl_merge l m) = rl_handle l"
  and handle_trim [simp]: "rl_handle (rl_trim l m) = rl_handle l"
  by (simp_all add: rl_handle_def rl_merge_def rl_trim_def)

lemma merge_uint [simp]:
  "uint (rl_start (rl_merge l m)) = min (uint (rl_start l)) (uint (rl_start m))"
  "uint (rl_end (rl_merge l m)) = max (uint (rl_end l)) (uint (rl_end m))"
  by (simp_all add: rl_merge_def uint_min uint_max)

lemma merge_wf [simp]: "rl_wf l \<Longrightarrow> rl_wf (rl_merge l m)"
  by (simp add: wf_uint min_def max_def)

lemma merge_bounded: "rl_bounded l \<Longrightarrow> rl_bounded m \<Longrightarrow> rl_bounded (rl_merge l m)"
  by (simp add: rl_bounded_def) (simp add: rl_merge_def max_def)

text \<open>Mergeable ranges leave no gap, with or without wrap-around.\<close>

lemma merge_bytes:
  assumes "rl_wf l" "rl_wf m" "rl_isMergeable l m"
  shows "bytes (rl_merge l m) = bytes l \<union> bytes m"
proof -
  have "uint (rl_start m) \<le> uint (rl_end l) + 1"
    using assms(3) uint_inc [of "rl_end l"] uint_lt2p [of "rl_start m"]
    by (cases "rl_end l = - 1") (auto simp: rl_isMergeable_def word_less_def uint_max_word_64)
  moreover have "uint (rl_start l) \<le> uint (rl_end m) + 1"
    using assms(3) uint_inc [of "rl_end m"] uint_lt2p [of "rl_start l"]
    by (cases "rl_end m = - 1") (auto simp: rl_isMergeable_def word_less_def uint_max_word_64)
  ultimately show ?thesis using assms(1,2) by (auto simp: bytes_def wf_uint)
qed

section \<open>Overlap cases\<close>

lemma overlapsEx_cases [consumes 2, case_names none equals contains contained starts ends]:
  assumes "rl_wf l" "rl_wf m"
  obtains (none) "rl_overlapsEx l m = RangeOverlapType_NONE" "bytes l \<inter> bytes m = {}"
  | (equals) "rl_overlapsEx l m = RangeOverlapType_EQUALS" "bytes l = bytes m"
  | (contains) "rl_overlapsEx l m = RangeOverlapType_CONTAINS" "bytes m \<subset> bytes l"
  | (contained) "rl_overlapsEx l m = RangeOverlapType_ISCONTAINED" "bytes l \<subset> bytes m"
  | (starts) "rl_overlapsEx l m = RangeOverlapType_STARTOVERLAP"
      "rl_start l < rl_start m" "rl_start m \<le> rl_end l" "rl_end l < rl_end m"
  | (ends) "rl_overlapsEx l m = RangeOverlapType_ENDOVERLAP"
      "rl_start m < rl_start l" "rl_start l \<le> rl_end m" "rl_end m < rl_end l"
proof -
  let ?s = "uint (rl_start l)" and ?e = "uint (rl_end l)"
  let ?s' = "uint (rl_start m)" and ?e' = "uint (rl_end m)"
  have w: "?s \<le> ?e" "?s' \<le> ?e'" using assms by (simp_all add: wf_uint)
  have eq: "rl_start m = rl_start l \<longleftrightarrow> ?s' = ?s" "rl_end m = rl_end l \<longleftrightarrow> ?e' = ?e"
    by (auto simp: word_uint_eq_iff)
  note d = rl_overlapsEx_def word_le_def word_less_def eq
  consider "?e' < ?s \<or> ?e < ?s'" | "?s' = ?s" "?e' = ?e"
    | "?s \<le> ?s'" "?e' \<le> ?e" "\<not> (?s' = ?s \<and> ?e' = ?e)"
    | "?s' \<le> ?s" "?e \<le> ?e'" "\<not> (?s' = ?s \<and> ?e' = ?e)"
    | "?s < ?s'" "?s' \<le> ?e" "?e < ?e'" | "?s' < ?s" "?s \<le> ?e'" "?e' < ?e"
    by linarith
  then show thesis
  proof cases
    case 1 then show thesis by (intro none) (auto simp: d bytes_def)
  next
    case 2 with w show thesis by (intro equals) (auto simp: d bytes_def)
  next
    case 3 with w show thesis by (intro contains) (auto simp: d bytes_def)
  next
    case 4 with w show thesis by (intro contained) (auto simp: d bytes_def)
  next
    case 5 with w show thesis by (intro starts) (auto simp: d)
  next
    case 6 with w show thesis by (intro ends) (auto simp: d)
  qed
qed

lemma overlapsEx_none:
  "rl_wf l \<Longrightarrow> rl_wf m \<Longrightarrow>
     rl_overlapsEx l m = RangeOverlapType_NONE \<longleftrightarrow> bytes l \<inter> bytes m = {}"
  using overlaps_bytes [of l m] by (auto simp: rl_overlapsEx_def rl_overlaps_def)

text \<open>A trimmed lock keeps exactly the bytes outside the trimmer.\<close>

lemma trim_one_side:
  assumes "rl_wf l" "rl_wf m"
    and "(rl_start l \<le> rl_start m \<and> rl_start m \<le> rl_end l \<and> rl_end l < rl_end m) \<or>
         (rl_start m < rl_start l \<and> rl_start l \<le> rl_end m \<and> rl_end m \<le> rl_end l)"
  shows "rl_wf (rl_trim m l)" "bytes (rl_trim m l) = bytes m - bytes l"
proof -
  from assms(3) show "rl_wf (rl_trim m l)"
    using uint_inc_less [of "rl_end l" "rl_end m"] uint_dec_greater [of "rl_start m" "rl_start l"]
    by (auto simp: wf_uint rl_trim_def word_le_def word_less_def)
  from assms show "bytes (rl_trim m l) = bytes m - bytes l"
    using uint_inc_less [of "rl_end l" "rl_end m"] uint_dec_greater [of "rl_start m" "rl_start l"]
    by (auto simp: wf_uint rl_trim_def word_le_def word_less_def bytes_def)
qed

lemma trim_no_overlap:
  assumes "rl_wf l" "rl_wf m"
    and "rl_overlapsEx l m \<in> {RangeOverlapType_STARTOVERLAP, RangeOverlapType_ENDOVERLAP}"
  shows "rl_wf (rl_trim m l)" "bytes (rl_trim m l) = bytes m - bytes l"
    "rl_overlapsEx l (rl_trim m l) = RangeOverlapType_NONE"
proof -
  have c: "(rl_start l \<le> rl_start m \<and> rl_start m \<le> rl_end l \<and> rl_end l < rl_end m) \<or>
         (rl_start m < rl_start l \<and> rl_start l \<le> rl_end m \<and> rl_end m \<le> rl_end l)"
    by (rule overlapsEx_cases [OF assms(1,2)]) (use assms(3) in auto)
  note t = trim_one_side [OF assms(1,2) c]
  show "rl_wf (rl_trim m l)" "bytes (rl_trim m l) = bytes m - bytes l" by (fact t)+
  show "rl_overlapsEx l (rl_trim m l) = RangeOverlapType_NONE"
    using t(2) by (simp add: overlapsEx_none [OF assms(1) t(1)] Diff_disjoint)
qed

text \<open>A lock split by a range strictly inside it leaves two locks with a gap.\<close>

lemma split_bytes:
  assumes "rl_wf l" "rl_start m < rl_start l" "rl_end l < rl_end m"
  shows "rl_wf (fst (rl_split m l))" "rl_wf (snd (rl_split m l))"
    "bytes (fst (rl_split m l)) \<union> bytes (snd (rl_split m l)) = bytes m - bytes l"
    "uint (rl_end (fst (rl_split m l))) + 1 < uint (rl_start (snd (rl_split m l)))"
    "rl_handle (fst (rl_split m l)) = rl_handle m" "rl_handle (snd (rl_split m l)) = rl_handle m"
    "rl_end (snd (rl_split m l)) = rl_end m" "rl_start (fst (rl_split m l)) = rl_start m"
  using assms uint_inc_less [of "rl_end l" "rl_end m"]
    uint_dec_greater [of "rl_start m" "rl_start l"]
  by (auto simp: rl_split_def wf_uint bytes_def rl_handle_def word_less_def word_le_def)

section \<open>Lock sets\<close>

text \<open>
  The order facts about the two comparators: locks that are equivalent start at the same
  byte and are \<open>related\<close>; related locks never overlap within a set. For shared locks, only
  those of the same handle are related; for exclusive locks all are.
\<close>

definition far :: "RangeLockDetails \<Rightarrow> RangeLockDetails \<Rightarrow> bool" where
  "far x y \<longleftrightarrow>
     uint (rl_end x) + 1 < uint (rl_start y) \<or> uint (rl_end y) + 1 < uint (rl_start x)"

definition lock_set ::
    "(RangeLockDetails \<Rightarrow> RangeLockDetails \<Rightarrow> bool) \<Rightarrow> (RangeLockDetails \<Rightarrow> RangeLockDetails \<Rightarrow> bool) \<Rightarrow>
     RangeLockDetails list \<Rightarrow> bool" where
  "lock_set lt rel xs \<longleftrightarrow>
     sorted_wrt lt xs \<and> (\<forall>x \<in> set xs. rl_bounded x) \<and>
     (\<forall>x \<in> set xs. \<forall>y \<in> set xs. x \<noteq> y \<longrightarrow>
        (rl_handle x = rl_handle y \<longrightarrow> far x y) \<and> (rel x y \<longrightarrow> bytes x \<inter> bytes y = {}))"

definition owned :: "RangeLockDetails list \<Rightarrow> i32 \<times> string \<Rightarrow> int set" where
  "owned xs h = {b. \<exists>x \<in> set xs. rl_handle x = h \<and> b \<in> bytes x}"

lemma far_sym: "far x y \<Longrightarrow> far y x"
  by (auto simp: far_def)

lemma far_disjoint: "far x y \<Longrightarrow> bytes x \<inter> bytes y = {}"
  by (auto simp: far_def bytes_def)

lemma far_smaller: "far x y \<Longrightarrow> rl_wf z \<Longrightarrow> bytes z \<subseteq> bytes x \<Longrightarrow> far z y"
  by (auto simp: far_def bytes_def wf_uint)

lemma far_mergeable:
  "rl_bounded x \<Longrightarrow> rl_bounded y \<Longrightarrow> far x y \<longleftrightarrow> \<not> rl_isMergeable x y"
  by (auto simp: far_def rl_bounded_def mergeable_uint)

lemma far_merge:
  "far l y \<Longrightarrow> far x y \<Longrightarrow> rl_bounded l \<Longrightarrow> rl_bounded x \<Longrightarrow> rl_bounded y \<Longrightarrow>
     rl_isMergeable l x \<Longrightarrow> far (rl_merge l x) y"
  by (auto simp: far_def rl_bounded_def mergeable_uint wf_uint)

lemma bounded_wf: "rl_bounded x \<Longrightarrow> rl_wf x"
  by (simp add: rl_bounded_def)

lemma trim_bounded:
  "rl_bounded x \<Longrightarrow> rl_wf (rl_trim x l) \<Longrightarrow> bytes (rl_trim x l) \<subseteq> bytes x \<Longrightarrow>
     rl_bounded (rl_trim x l)"
  using uint_max_word_64 uint_lt2p [of "rl_end x"] word_uint_eq_iff [of "rl_end x" "-1"]
  by (auto simp: rl_bounded_def bytes_def wf_uint)

lemma owned_iff: "b \<in> owned xs h \<longleftrightarrow> (\<exists>x \<in> set xs. rl_handle x = h \<and> b \<in> bytes x)"
  by (simp add: owned_def)

locale range_set = strict_comparator lt
  for lt :: "RangeLockDetails \<Rightarrow> RangeLockDetails \<Rightarrow> bool" +
  fixes rel :: "RangeLockDetails \<Rightarrow> RangeLockDetails \<Rightarrow> bool"
  assumes equiv: "\<not> lt x y \<Longrightarrow> \<not> lt y x \<Longrightarrow> rel x y \<and> rl_start x = rl_start y"
    and rel_handle: "rl_handle x = rl_handle y \<Longrightarrow> rel x y"
    and rel_sym: "rel x y \<Longrightarrow> rel y x"
    and rel_cong: "rel x y \<Longrightarrow> rl_handle x' = rl_handle x \<Longrightarrow> rl_handle y' = rl_handle y \<Longrightarrow> rel x' y'"
begin

lemma set_distinct: "lock_set lt rel xs \<Longrightarrow> distinct xs"
  by (simp add: lock_set_def order_distinct)

lemma erase_set: "lock_set lt rel xs \<Longrightarrow> set (remove1 x xs) = set xs - {x}"
  using set_distinct by simp

lemma erase_lock_set: "lock_set lt rel xs \<Longrightarrow> lock_set lt rel (remove1 x xs)"
  by (auto simp: lock_set_def remove1_keeps_order dest: subsetD [OF set_remove1_subset])

lemma erase_owned:
  assumes "lock_set lt rel xs" "x \<in> set xs"
  shows "owned (remove1 x xs) h = owned xs h - (if rl_handle x = h then bytes x else {})"
proof -
  have "bytes x \<inter> bytes y = {}" if "y \<in> set xs" "y \<noteq> x" "rl_handle y = rl_handle x" for y
    using assms that by (intro far_disjoint) (auto simp: lock_set_def)
  then show ?thesis
    using assms(2) by (auto simp: owned_def erase_set [OF assms(1)])
qed

lemma insert_effective:
  assumes xs: "lock_set lt rel xs" and x: "rl_bounded x"
    and far: "\<And>y. y \<in> set xs \<Longrightarrow> rl_handle x = rl_handle y \<Longrightarrow> far x y"
    and dis: "\<And>y. y \<in> set xs \<Longrightarrow> rel x y \<Longrightarrow> bytes x \<inter> bytes y = {}"
  shows "lock_set lt rel (set_insert lt x xs)" "set (set_insert lt x xs) = insert x (set xs)"
    "owned (set_insert lt x xs) h = owned xs h \<union> (if rl_handle x = h then bytes x else {})"
proof -
  have "lt x y \<or> lt y x" if "y \<in> set xs" for y
  proof (rule ccontr)
    assume "\<not> (lt x y \<or> lt y x)"
    with equiv [of x y] have e: "rel x y" "rl_start x = rl_start y" by auto
    have "uint (rl_start x) \<in> bytes x \<inter> bytes y"
      using x xs that e by (auto simp: bytes_def lock_set_def rl_bounded_def wf_uint)
    with dis [OF that e(1)] show False by auto
  qed
  then show s: "set (set_insert lt x xs) = insert x (set xs)" by (rule set_insert_fresh)
  have "rel y x \<Longrightarrow> bytes y \<inter> bytes x = {}" if "y \<in> set xs" for y
    using dis [OF that] rel_sym by blast
  with xs x far dis s show "lock_set lt rel (set_insert lt x xs)"
    using far_sym by (auto simp: lock_set_def insert_keeps_order)
  show "owned (set_insert lt x xs) h = owned xs h \<union> (if rl_handle x = h then bytes x else {})"
    by (auto simp: owned_def s)
qed

lemma shrink_apart:
  assumes "lock_set lt rel xs" "x \<in> set xs" "y \<in> set xs" "y \<noteq> x"
    and "rl_handle z = rl_handle x" "rl_wf z" "bytes z \<subseteq> bytes x"
  shows "rl_handle z = rl_handle y \<Longrightarrow> far z y" "rel z y \<Longrightarrow> bytes z \<inter> bytes y = {}"
proof -
  have xy: "rl_handle x = rl_handle y \<longrightarrow> far x y" "rel x y \<longrightarrow> bytes x \<inter> bytes y = {}"
    using assms(1-4) by (auto simp: lock_set_def)
  show "far z y" if "rl_handle z = rl_handle y"
    using that xy(1) assms(5-7) far_smaller by auto
  show "bytes z \<inter> bytes y = {}" if "rel z y"
    using xy(2) rel_cong [OF that, of x y] assms(5,7) by auto
qed

text \<open>An element is replaced by a smaller one of the same handle.\<close>

lemma replace_smaller:
  assumes xs: "lock_set lt rel xs" "x \<in> set xs"
    and z: "rl_handle z = rl_handle x" "rl_bounded z" "bytes z \<subseteq> bytes x"
  shows "lock_set lt rel (set_insert lt z (remove1 x xs))"
    "set (set_insert lt z (remove1 x xs)) = insert z (set xs - {x})"
    "owned (set_insert lt z (remove1 x xs)) h =
       (if rl_handle x = h then owned xs h - bytes x \<union> bytes z else owned xs h)"
proof -
  have far: "far z y" if "y \<in> set (remove1 x xs)" "rl_handle z = rl_handle y" for y
    using that shrink_apart [OF xs, of y z] z by (auto simp: erase_set [OF xs(1)] rl_bounded_def)
  have dis: "bytes z \<inter> bytes y = {}" if "y \<in> set (remove1 x xs)" "rel z y" for y
    using that shrink_apart [OF xs, of y z] z by (auto simp: erase_set [OF xs(1)] rl_bounded_def)
  note e = erase_lock_set [OF xs(1), of x]
  note i = insert_effective [OF e z(2) far dis]
  show "lock_set lt rel (set_insert lt z (remove1 x xs))" by (rule i(1))
  show "set (set_insert lt z (remove1 x xs)) = insert z (set xs - {x})"
    using i(2) by (simp add: erase_set [OF xs(1)])
  show "owned (set_insert lt z (remove1 x xs)) h =
       (if rl_handle x = h then owned xs h - bytes x \<union> bytes z else owned xs h)"
    using i(3) [of h] z(1) by (auto simp: erase_owned [OF xs])
qed

text \<open>The two branches of the unlock loop that shorten a lock.\<close>

lemma unlock_partial:
  assumes ls: "lock_set lt rel locks" "x \<in> set locks" and h: "rl_handle x = rl_handle l"
    and l: "rl_bounded l"
    and t: "rl_overlapsEx l x \<in> {RangeOverlapType_STARTOVERLAP, RangeOverlapType_ENDOVERLAP}"
  shows "lock_set lt rel (set_insert lt (rl_trim x l) (remove1 x locks))"
    "set (set_insert lt (rl_trim x l) (remove1 x locks)) = insert (rl_trim x l) (set locks - {x})"
    "\<forall>h. owned (set_insert lt (rl_trim x l) (remove1 x locks)) h =
       owned locks h - (if h = rl_handle l then bytes x \<inter> bytes l else {})"
    "bytes (rl_trim x l) \<inter> bytes l = {}"
proof -
  have x: "rl_bounded x" using ls by (auto simp: lock_set_def)
  note trim = trim_no_overlap [OF bounded_wf [OF l] bounded_wf [OF x] t]
  have b: "rl_bounded (rl_trim x l)" using trim by (intro trim_bounded [OF x]) auto
  note r = replace_smaller [OF ls handle_trim b]
  have sub: "bytes (rl_trim x l) \<subseteq> bytes x" using trim(2) by auto
  show "lock_set lt rel (set_insert lt (rl_trim x l) (remove1 x locks))" by (rule r(1) [OF sub])
  show "set (set_insert lt (rl_trim x l) (remove1 x locks)) = insert (rl_trim x l) (set locks - {x})"
    by (rule r(2) [OF sub])
  show "bytes (rl_trim x l) \<inter> bytes l = {}" using trim(2) by auto
  have "bytes x \<subseteq> owned locks (rl_handle l)" using ls h by (auto simp: owned_def)
  then show "\<forall>h. owned (set_insert lt (rl_trim x l) (remove1 x locks)) h =
       owned locks h - (if h = rl_handle l then bytes x \<inter> bytes l else {})"
    using r(3) [OF sub] trim(2) h by (auto simp del: split_paired_All)
qed

lemma unlock_inside:
  assumes ls: "lock_set lt rel locks" "x \<in> set locks" and h: "rl_handle x = rl_handle l"
    and l: "rl_bounded l" and inside: "bytes l \<subset> bytes x"
  shows "rl_start l = rl_start x \<or> rl_end l = rl_end x \<Longrightarrow>
      lock_set lt rel (set_insert lt (rl_trim x l) (remove1 x locks)) \<and>
      (\<forall>h. owned (set_insert lt (rl_trim x l) (remove1 x locks)) h =
         owned locks h - (if h = rl_handle l then bytes l else {}))"
    and "\<not> (rl_start l = rl_start x \<or> rl_end l = rl_end x) \<Longrightarrow>
      rl_split x l = (left, right) \<Longrightarrow>
      lock_set lt rel (set_insert lt right (set_insert lt left (remove1 x locks))) \<and>
      (\<forall>h. owned (set_insert lt right (set_insert lt left (remove1 x locks))) h =
         owned locks h - (if h = rl_handle l then bytes l else {}))"
proof -
  have x: "rl_bounded x" "rl_wf x" "rl_wf l" using ls l by (auto simp: lock_set_def rl_bounded_def)
  have own_x: "bytes x \<subseteq> owned locks (rl_handle l)" using ls h by (auto simp: owned_def)
  have in_u: "uint (rl_start x) \<le> uint (rl_start l)" "uint (rl_end l) \<le> uint (rl_end x)"
    "uint (rl_start l) \<le> uint (rl_end l)"
    using inside x by (auto simp: bytes_def wf_uint)
  show "lock_set lt rel (set_insert lt (rl_trim x l) (remove1 x locks)) \<and>
      (\<forall>h. owned (set_insert lt (rl_trim x l) (remove1 x locks)) h =
         owned locks h - (if h = rl_handle l then bytes l else {}))"
    if e: "rl_start l = rl_start x \<or> rl_end l = rl_end x"
  proof -
    have "\<not> (rl_start l = rl_start x \<and> rl_end l = rl_end x)" using inside by (auto simp: bytes_def)
    with e in_u have c: "(rl_start l \<le> rl_start x \<and> rl_start x \<le> rl_end l \<and> rl_end l < rl_end x) \<or>
         (rl_start x < rl_start l \<and> rl_start l \<le> rl_end x \<and> rl_end x \<le> rl_end l)"
      by (auto simp: word_le_def word_less_def word_uint_eq_iff)
    note trim = trim_one_side [OF x(3,2) c]
    have sub: "bytes (rl_trim x l) \<subseteq> bytes x" using trim(2) by auto
    have b: "rl_bounded (rl_trim x l)" using trim by (intro trim_bounded [OF x(1)]) auto
    note r = replace_smaller [OF ls handle_trim b sub]
    from r(1) r(3) trim(2) h own_x inside show ?thesis by (auto simp del: split_paired_All)
  qed
  show "lock_set lt rel (set_insert lt right (set_insert lt left (remove1 x locks))) \<and>
      (\<forall>h. owned (set_insert lt right (set_insert lt left (remove1 x locks))) h =
         owned locks h - (if h = rl_handle l then bytes l else {}))"
    if e: "\<not> (rl_start l = rl_start x \<or> rl_end l = rl_end x)" and s: "rl_split x l = (left, right)"
  proof -
    have c: "rl_start x < rl_start l" "rl_end l < rl_end x"
      using e in_u by (auto simp: word_less_def word_uint_eq_iff)
    note sp = split_bytes [OF x(3) c, unfolded s fst_conv snd_conv]
    have lb: "rl_bounded left" "rl_bounded right"
      using sp x(1) in_u inside uint_max_word_64 uint_lt2p [of "rl_end x"]
      by (auto simp: rl_bounded_def wf_uint word_less_def)
    have sub: "bytes left \<subseteq> bytes x" "bytes right \<subseteq> bytes x" using sp(3) by auto
    note r = replace_smaller [OF ls sp(5) lb(1) sub(1)]
    have far_lr: "far right left" using sp(4) by (simp add: far_def)
    have far: "far right y"
      if "y \<in> set (set_insert lt left (remove1 x locks))" "rl_handle right = rl_handle y" for y
      using that far_lr shrink_apart(1) [OF ls, of y right] sp(6) bounded_wf [OF lb(2)] sub(2)
      by (auto simp: r(2))
    have dis: "bytes right \<inter> bytes y = {}"
      if "y \<in> set (set_insert lt left (remove1 x locks))" "rel right y" for y
      using that far_disjoint [OF far_lr] shrink_apart(2) [OF ls, of y right] sp(6)
        bounded_wf [OF lb(2)] sub(2)
      by (auto simp: r(2))
    note i = insert_effective [OF r(1) lb(2) far dis]
    from i(1) i(3) r(3) sp(3,6) h own_x inside show ?thesis by (auto simp del: split_paired_All)
  qed
qed

text \<open>
  One pass of an unlock loop over the elements \<open>todo\<close> that are left: the set stays ordered
  and separated, and exactly the unlocked bytes of the handle are gone.
\<close>

lemma unlockLoop_bytes:
  assumes "lock_set lt rel locks" "set todo \<subseteq> set locks" "distinct todo" "rl_bounded l"
    and "\<And>x. x \<in> set locks \<Longrightarrow> rl_handle x = rl_handle l \<Longrightarrow> bytes x \<inter> bytes l \<noteq> {} \<Longrightarrow> x \<in> set todo"
    and "\<And>x. \<not> go x \<Longrightarrow> rl_wf x \<Longrightarrow> bytes x \<inter> bytes l = {}"
    and "sorted_wrt (\<lambda>x y. go y \<longrightarrow> go x) todo"
    and "unlockLoop lt go l todo locks removed = (locks', removed', returned)"
  shows "lock_set lt rel locks' \<and>
    (\<forall>h. owned locks' h = owned locks h - (if h = rl_handle l then bytes l else {})) \<and>
    (removed' \<longleftrightarrow> removed \<or> owned locks (rl_handle l) \<inter> bytes l \<noteq> {}) \<and>
    (returned \<longrightarrow> bytes l \<subseteq> owned locks (rl_handle l)) \<and>
    (\<not> removed' \<longrightarrow> locks' = locks)"
  using assms
proof (induction todo arbitrary: locks removed)
  case Nil
  then have "owned locks (rl_handle l) \<inter> bytes l = {}" by (force simp: owned_def)
  with Nil show ?case by auto
next
  case (Cons x xs)
  note ls = Cons.prems(1)
  have x: "x \<in> set locks" "rl_bounded x" "rl_wf x" "rl_wf l"
    using Cons.prems(1,2,4) by (auto simp: lock_set_def rl_bounded_def)
  have gone: "owned locks (rl_handle l) \<inter> bytes l = {}"
    if "\<And>y. y \<in> set (x # xs) \<Longrightarrow> bytes y \<inter> bytes l = {}"
    using that Cons.prems(5) by (force simp: owned_def)
  show ?case
  proof (cases "go x")
    case False
    have "bytes y \<inter> bytes l = {}" if "y \<in> set (x # xs)" for y
      using that Cons.prems(1,2,6,7) False by (auto simp: lock_set_def rl_bounded_def)
    then have "owned locks (rl_handle l) \<inter> bytes l = {}" by (rule gone)
    with Cons.prems(1,8) False show ?thesis by auto
  next
    case True
    have rest: "distinct xs" "sorted_wrt (\<lambda>x y. go y \<longrightarrow> go x) xs" "x \<notin> set xs"
      using Cons.prems(3,7) by auto
    show ?thesis
    proof (cases "rl_handle x = rl_handle l")
      case False
      show ?thesis
        using Cons.prems(8) True False
        by (intro Cons.IH [OF ls _ rest(1) Cons.prems(4) _ Cons.prems(6) rest(2)])
          (use Cons.prems(2,5) False in \<open>auto simp: equalsHandle_iff\<close>)
    next
      case own: True
      then have own': "rl_equalsHandle l x" by (simp add: equalsHandle_iff)
      have own_x: "bytes x \<subseteq> owned locks (rl_handle l)" using x own by (auto simp: owned_def)
      have apart: "bytes y \<inter> bytes x = {}"
        if "y \<in> set locks" "y \<noteq> x" "rl_handle y = rl_handle l" for y
        using that ls x own far_disjoint [of y x] by (auto simp: lock_set_def)
      \<comment> \<open>the rest of the loop after \<open>x\<close> was replaced by what lies outside of \<open>l\<close>\<close>
      have go_on: ?thesis
        if "lock_set lt rel L" "\<forall>h. owned L h = owned locks h - (if h = rl_handle l then bytes x \<inter> bytes l else {})"
          "set xs \<subseteq> set L" "\<forall>y \<in> set L. y \<in> set locks - {x} \<or> bytes y \<inter> bytes l = {}"
          "unlockLoop lt go l xs L True = (locks', removed', returned)"
          "bytes x \<inter> bytes l \<noteq> {}" for L
      proof -
        have "lock_set lt rel locks' \<and>
          (\<forall>h. owned locks' h = owned L h - (if h = rl_handle l then bytes l else {})) \<and>
          (removed' \<longleftrightarrow> True \<or> owned L (rl_handle l) \<inter> bytes l \<noteq> {}) \<and>
          (returned \<longrightarrow> bytes l \<subseteq> owned L (rl_handle l)) \<and> (\<not> removed' \<longrightarrow> locks' = L)"
          by (rule Cons.IH [OF that(1,3) rest(1) Cons.prems(4) _ Cons.prems(6) rest(2) that(5)])
            (use that(4) Cons.prems(5) in auto)
        moreover have "owned L h = owned locks h - (if h = rl_handle l then bytes x \<inter> bytes l else {})"
          for h using that(2) by blast
        ultimately show ?thesis using that(6) own_x by (auto simp del: split_paired_All)
      qed
      show ?thesis
      using x(4,3)
      proof (cases rule: overlapsEx_cases)
        case none
        show ?thesis
          using Cons.prems(8) True own' none
          by (intro Cons.IH [OF ls _ rest(1) Cons.prems(4) _ Cons.prems(6) rest(2)])
            (use Cons.prems(2,5) none in auto)
      next
        case equals
        have o: "owned (remove1 x locks) h = owned locks h - (if h = rl_handle l then bytes l else {})" for h
          using erase_owned [OF ls x(1), of h] own equals(2) by auto
        have "(locks', removed', returned) = (remove1 x locks, True, True)"
          using Cons.prems(8) True own' equals by simp
        with o erase_lock_set [OF ls] own_x equals(2) bytes_not_empty [OF x(4)] show ?thesis by auto
      next
        case contains
        show ?thesis
        proof (rule go_on)
          show "unlockLoop lt go l xs (remove1 x locks) True = (locks', removed', returned)"
            using Cons.prems(8) True own' contains by simp
          show "\<forall>h. owned (remove1 x locks) h =
              owned locks h - (if h = rl_handle l then bytes x \<inter> bytes l else {})"
            using erase_owned [OF ls x(1)] own contains(2) by (auto simp: Int_absorb2)
        qed (use Cons.prems(2) rest contains(2) bytes_not_empty [OF x(3)] erase_lock_set [OF ls]
              in \<open>auto simp: erase_set [OF ls]\<close>)
      next
        case contained
        have "bytes l \<subseteq> owned locks (rl_handle l)" using contained(2) own_x by blast
        moreover have "owned locks (rl_handle l) \<inter> bytes l \<noteq> {}"
          using calculation bytes_not_empty [OF x(4)] by blast
        moreover have "lock_set lt rel locks' \<and> removed' \<and> (\<forall>h. owned locks' h =
            owned locks h - (if h = rl_handle l then bytes l else {}))"
          using Cons.prems(8) True own' contained unlock_inside [OF ls x(1) own Cons.prems(4)]
          by (auto simp del: split_paired_All simp: Let_def split: prod.splits if_splits)
        ultimately show ?thesis by simp
      next
        case starts
        then have t: "rl_overlapsEx l x \<in> {RangeOverlapType_STARTOVERLAP, RangeOverlapType_ENDOVERLAP}"
          by simp
        have "bytes x \<inter> bytes l \<noteq> {}"
          using starts overlaps_bytes [OF x(4,3)]
          by (auto simp: overlaps_uint word_le_def word_less_def)
        then show ?thesis
          using Cons.prems(8) True own' starts(1) unlock_partial [OF ls x(1) own Cons.prems(4) t]
            Cons.prems(2) rest
          by (intro go_on [of "set_insert lt (rl_trim x l) (remove1 x locks)"]) auto
      next
        case ends
        then have t: "rl_overlapsEx l x \<in> {RangeOverlapType_STARTOVERLAP, RangeOverlapType_ENDOVERLAP}"
          by simp
        have "bytes x \<inter> bytes l \<noteq> {}"
          using ends overlaps_bytes [OF x(4,3)]
          by (auto simp: overlaps_uint word_le_def word_less_def)
        then show ?thesis
          using Cons.prems(8) True own' ends(1) unlock_partial [OF ls x(1) own Cons.prems(4) t]
            Cons.prems(2) rest
          by (intro go_on [of "set_insert lt (rl_trim x l) (remove1 x locks)"]) auto
      qed
    qed
  qed
qed

text \<open>
  A merge loop and the insertion after it: the bytes of the request are added to those of
  its handle, and the set stays ordered and separated.
\<close>

lemma mergeLoop_bytes:
  assumes "lock_set lt rel locks" "set todo \<subseteq> set locks" "distinct todo" "rl_bounded l"
    and "\<And>x. x \<in> set locks \<Longrightarrow> rl_handle x = rl_handle l \<Longrightarrow> \<not> far l x \<Longrightarrow> x \<in> set todo"
    and "\<And>x. x \<in> set locks \<Longrightarrow> rl_handle x \<noteq> rl_handle l \<Longrightarrow> rel l x \<Longrightarrow> bytes l \<inter> bytes x = {}"
    and "\<And>m x. \<not> go m x \<Longrightarrow> rl_bounded m \<Longrightarrow> rl_bounded x \<Longrightarrow> far m x"
    and "\<And>m. sorted_wrt (\<lambda>x y. go m y \<longrightarrow> go m x) todo"
    and "mergeLoop go l todo locks = (l', locks')"
  shows "lock_set lt rel (set_insert lt l' locks') \<and>
    (\<forall>h. owned (set_insert lt l' locks') h =
       owned locks h \<union> (if h = rl_handle l then bytes l else {})) \<and>
    rl_bounded l' \<and> rl_handle l' = rl_handle l \<and> bytes l \<subseteq> bytes l' \<and> l' \<in> set (set_insert lt l' locks')"
  using assms
proof (induction todo arbitrary: l locks)
  case (Nil l locks)
  have far: "far l y" if "y \<in> set locks" "rl_handle l = rl_handle y" for y
    using that Nil.prems(5) by fastforce
  have dis: "bytes l \<inter> bytes y = {}" if "y \<in> set locks" "rel l y" for y
    using that Nil.prems(6) far far_disjoint by (cases "rl_handle l = rl_handle y") auto
  note i = insert_effective [OF Nil.prems(1,4) far dis]
  from i Nil.prems(4,9) show ?case by (auto simp del: split_paired_All)
next
  case (Cons x xs l locks)
  note ls = Cons.prems(1) and l = Cons.prems(4)
  have x: "x \<in> set locks" "rl_bounded x" using Cons.prems(1,2) by (auto simp: lock_set_def)
  show ?case
  proof (cases "go l x")
    case False
    have stop: "far l y" if y: "y \<in> set (x # xs)" for y
    proof -
      have "\<not> go l y" using y False Cons.prems(8) [of l] by auto
      moreover have "rl_bounded y" using y Cons.prems(1,2) by (auto simp: lock_set_def)
      ultimately show ?thesis using Cons.prems(7) l by blast
    qed
    have far: "far l y" if "y \<in> set locks" "rl_handle l = rl_handle y" for y
      using that Cons.prems(5) [of y] stop by fastforce
    have dis: "bytes l \<inter> bytes y = {}" if "y \<in> set locks" "rel l y" for y
      using that Cons.prems(6) far far_disjoint by (cases "rl_handle l = rl_handle y") auto
    note i = insert_effective [OF ls l far dis]
    from i Cons.prems(9) False l show ?thesis by (auto simp del: split_paired_All)
  next
    case True
    have rest: "distinct xs" "sorted_wrt (\<lambda>x y. go m y \<longrightarrow> go m x) xs" "x \<notin> set xs" for m
      using Cons.prems(3) Cons.prems(8) [of m] by auto
    show ?thesis
    proof (cases "rl_equalsHandle l x \<and> rl_isMergeable l x")
      case False
      then have "far l x" if "rl_handle x = rl_handle l"
        using that l x by (auto simp: far_mergeable equalsHandle_iff)
      then show ?thesis
        using True False Cons.prems(2,5,9)
        by (intro Cons.IH [OF ls _ rest(1) l _ Cons.prems(6,7) rest(2)]) auto
    next
      case merge: True
      let ?l = "rl_merge l x" and ?L = "remove1 x locks"
      have h: "rl_handle x = rl_handle l" using merge by (simp add: equalsHandle_iff)
      have apart: "far x y" if "y \<in> set locks" "y \<noteq> x" "rl_handle y = rl_handle l" for y
        using that ls x(1) h by (auto simp: lock_set_def)
      have b: "bytes ?l = bytes l \<union> bytes x"
        using merge l x by (intro merge_bytes) (auto simp: rl_bounded_def)
      have a': "y \<in> set xs" if "y \<in> set ?L" "rl_handle y = rl_handle ?l" "\<not> far ?l y" for y
      proof -
        have y: "y \<in> set locks" "y \<noteq> x" "rl_handle y = rl_handle l" "rl_bounded y"
          using that ls by (auto simp: erase_set lock_set_def)
        have "\<not> far l y"
          using far_merge [OF _ apart [OF y(1-3)] l x(2) y(4)] merge that(3) by blast
        with Cons.prems(5) [OF y(1,3)] y(2) show ?thesis by auto
      qed
      have b': "bytes ?l \<inter> bytes y = {}" if "y \<in> set ?L" "rl_handle y \<noteq> rl_handle ?l" "rel ?l y" for y
      proof -
        have y: "y \<in> set locks" "y \<noteq> x" "rl_handle y \<noteq> rl_handle l"
          using that ls by (auto simp: erase_set)
        have "rel l y" "rel x y" using rel_cong [OF that(3)] h by auto
        then have "bytes l \<inter> bytes y = {}" "bytes x \<inter> bytes y = {}"
          using Cons.prems(6) y x(1) ls by (auto simp: lock_set_def)
        then show ?thesis by (auto simp: b)
      qed
      have eq: "mergeLoop go ?l xs ?L = (l', locks')" using Cons.prems(9) True merge by simp
      have sub: "set xs \<subseteq> set ?L" using Cons.prems(2) rest(3) ls by (auto simp: erase_set)
      note ih = Cons.IH [OF erase_lock_set [OF ls, of x] sub rest(1) merge_bounded [OF l x(2)]
          a' b' Cons.prems(7) rest(2) eq]
      have "owned ?L k \<union> (if k = rl_handle ?l then bytes ?l else {}) =
          owned locks k \<union> (if k = rl_handle l then bytes l else {})" for k
        using erase_owned [OF ls x(1), of k] x(1) h b by (auto simp: owned_def)
      with ih b show ?thesis by (auto simp del: split_paired_All)
    qed
  qed
qed

text \<open>The check for a lock that is held already.\<close>

lemma next_to_own_not_owned:
  assumes "lock_set lt rel locks" "x \<in> set locks"
    and "b = uint (rl_start x) - 1 \<or> b = uint (rl_end x) + 1"
  shows "b \<notin> owned locks (rl_handle x)"
proof
  assume "b \<in> owned locks (rl_handle x)"
  then obtain y where y: "y \<in> set locks" "rl_handle y = rl_handle x" "b \<in> bytes y"
    by (auto simp: owned_def)
  then have "x \<noteq> y" using assms(3) by (auto simp: bytes_def)
  then have "far x y" using assms(1,2) y(1,2) by (auto simp: lock_set_def)
  moreover have "rl_wf x" "rl_wf y" using assms(1,2) y(1) by (auto simp: lock_set_def rl_bounded_def)
  ultimately show False using y(3) assms(3) by (auto simp: far_def bytes_def wf_uint)
qed

lemma grantedLoop_bytes:
  assumes "lock_set lt rel locks" "set todo \<subseteq> set locks" "rl_bounded l"
    and "\<And>x. x \<in> set locks \<Longrightarrow> rl_handle x = rl_handle l \<Longrightarrow> bytes x \<inter> bytes l \<noteq> {} \<Longrightarrow> x \<in> set todo"
    and "\<And>x. \<not> go x \<Longrightarrow> rl_wf x \<Longrightarrow> bytes x \<inter> bytes l = {}"
    and "sorted_wrt (\<lambda>x y. go y \<longrightarrow> go x) todo"
  shows "grantedLoop go l todo \<longleftrightarrow> bytes l \<subseteq> owned locks (rl_handle l)"
  using assms
proof (induction todo)
  case Nil
  then have "owned locks (rl_handle l) \<inter> bytes l = {}" by (force simp: owned_def)
  with bytes_not_empty [OF bounded_wf [OF Nil.prems(3)]] show ?case by auto
next
  case (Cons x xs)
  note ls = Cons.prems(1)
  have x: "x \<in> set locks" "rl_wf x" "rl_wf l"
    using Cons.prems(1-3) by (auto simp: lock_set_def rl_bounded_def)
  have skip: ?case if "go x" "rl_handle x = rl_handle l \<longrightarrow> bytes x \<inter> bytes l = {}"
    "grantedLoop go l (x # xs) = grantedLoop go l xs"
    using that(3) Cons.IH [OF ls _ Cons.prems(3) _ Cons.prems(5)] Cons.prems(2,4,6) that(2)
    by auto
  show ?case
  proof (cases "go x")
    case False
    have none: "bytes y \<inter> bytes l = {}" if "y \<in> set (x # xs)" for y
      using that Cons.prems(1,2,5,6) False by (auto simp: lock_set_def rl_bounded_def)
    then have "owned locks (rl_handle l) \<inter> bytes l = {}"
      using Cons.prems(4) by (force simp: owned_def)
    with bytes_not_empty [OF x(3)] False show ?thesis by auto
  next
    case go: True
    show ?thesis
    proof (cases "rl_handle x = rl_handle l")
      case False
      with go show ?thesis by (intro skip) (auto simp: equalsHandle_iff)
    next
      case own: True
      then have own': "rl_equalsHandle l x" by (simp add: equalsHandle_iff)
      have own_x: "bytes x \<subseteq> owned locks (rl_handle l)" using x own by (auto simp: owned_def)
      note gap = next_to_own_not_owned [OF ls x(1), unfolded own]
      show ?thesis using x(3,2)
      proof (cases rule: overlapsEx_cases)
        case none
        with go own' show ?thesis by (intro skip) auto
      next
        case equals
        with go own' own_x show ?thesis by auto
      next
        case contained
        with go own' own_x show ?thesis by auto
      next
        case contains
        then have "uint (rl_start x) - 1 \<in> bytes l \<or> uint (rl_end x) + 1 \<in> bytes l"
          using x by (auto simp: bytes_def wf_uint psubset_eq)
        with go own' contains gap show ?thesis by auto
      next
        case starts
        then have "uint (rl_start x) - 1 \<in> bytes l"
          using x by (auto simp: bytes_def wf_uint word_less_def word_le_def)
        with go own' starts gap show ?thesis by auto
      next
        case ends
        then have "uint (rl_end x) + 1 \<in> bytes l"
          using x by (auto simp: bytes_def wf_uint word_less_def word_le_def)
        with go own' ends gap show ?thesis by auto
      qed
    qed
  qed
qed

end

section \<open>The two lock sets\<close>

definition sameHandle :: "RangeLockDetails \<Rightarrow> RangeLockDetails \<Rightarrow> bool" where
  "sameHandle x y \<longleftrightarrow> rl_handle x = rl_handle y"

definition anyLock :: "RangeLockDetails \<Rightarrow> RangeLockDetails \<Rightarrow> bool" where
  "anyLock x y \<longleftrightarrow> True"

interpretation excl_set: range_set rl_lessExcl anyLock
  by unfold_locales (auto simp: rl_lessExcl_def anyLock_def)

interpretation shared_set: range_set rl_lessShared sameHandle
proof
  fix x y z :: RangeLockDetails
  have pid: "rl_ownerPID a = rl_ownerPID b \<longleftrightarrow> sint (rl_ownerPID a) = sint (rl_ownerPID b)"
    for a b :: RangeLockDetails by (auto intro: signed_word_eqI)
  show "\<not> rl_lessShared x x" by (simp add: rl_lessShared_def)
  show "rl_lessShared x y \<Longrightarrow> rl_lessShared y z \<Longrightarrow> rl_lessShared x z"
    by (auto simp: rl_lessShared_def)
  show "rl_lessShared x y \<or> rl_lessShared y z" if xz: "rl_lessShared x z"
  proof (cases "rl_ownerPID x = rl_ownerPID y \<and> rl_ownerPID y = rl_ownerPID z \<and>
                rl_clientID x = rl_clientID y \<and> rl_clientID y = rl_clientID z")
    case True
    with xz show ?thesis by (auto simp: rl_lessShared_def)
  next
    case False
    then show ?thesis
      using xz less_linear [of "sint (rl_ownerPID x)" "sint (rl_ownerPID y)"]
        less_linear [of "sint (rl_ownerPID y)" "sint (rl_ownerPID z)"]
        less_linear [of "rl_clientID x" "rl_clientID y"]
        less_linear [of "rl_clientID y" "rl_clientID z"]
      unfolding rl_lessShared_def pid by (elim disjE conjE) auto
  qed
  show "\<not> rl_lessShared x y \<Longrightarrow> \<not> rl_lessShared y x \<Longrightarrow>
      sameHandle x y \<and> rl_start x = rl_start y"
    unfolding rl_lessShared_def sameHandle_def rl_handle_def pid
    by (metis linorder_neqE prod.inject pid)
qed (auto simp: sameHandle_def)

end
