(* ===== verification/RangeLocking.thy ===== *)
theory RangeLocking
  imports RangeBytes
begin

text \<open>
  The invariant of the byte-range locks of an inode, that every operation keeps it, and what
  the operations do to the bytes each process owns. Ranges are assumed not to end at the
  largest 64-bit value, where \<open>end + 1\<close> wraps around (\<open>rl_bounded\<close>); the last section shows
  what happens there.
\<close>

declare split_paired_All [simp del] split_paired_Ex [simp del]

section \<open>Conflicts as a relation on bytes\<close>

text \<open>
  A request is blocked by the bytes that other handles own exclusively, that they share (for
  an exclusive request) and that they wait for to lock exclusively.
\<close>

definition blocked ::
    "RangeLockDetails \<Rightarrow> (i32 \<times> string \<Rightarrow> int set) \<Rightarrow> (i32 \<times> string \<Rightarrow> int set) \<Rightarrow>
     (i32 \<times> string \<Rightarrow> int set) \<Rightarrow> bool" where
  "blocked l E S W \<longleftrightarrow>
     (\<exists>h. h \<noteq> rl_handle l \<and>
        bytes l \<inter> (E h \<union> (if rl_isExclusive l then S h else {}) \<union> W h) \<noteq> {})"

lemma blocked_iff:
  "blocked l E S W \<longleftrightarrow>
     (\<exists>h. h \<noteq> rl_handle l \<and> bytes l \<inter> E h \<noteq> {}) \<or>
     (rl_isExclusive l \<and> (\<exists>h. h \<noteq> rl_handle l \<and> bytes l \<inter> S h \<noteq> {})) \<or>
     (\<exists>h. h \<noteq> rl_handle l \<and> bytes l \<inter> W h \<noteq> {})"
  unfolding blocked_def by (cases "rl_isExclusive l") (simp_all only: if_True if_False, blast+)

lemma blocked_mono:
  assumes "blocked l E S W" "\<And>h. E h \<subseteq> E' h" "\<And>h. S h \<subseteq> S' h" "\<And>h. W h \<subseteq> W' h"
  shows "blocked l E' S' W'"
proof -
  obtain h b where h: "h \<noteq> rl_handle l" "b \<in> bytes l"
    "b \<in> E h \<or> (rl_isExclusive l \<and> b \<in> S h) \<or> b \<in> W h"
    using assms(1) unfolding blocked_def by (auto split: if_splits)
  then have "b \<in> E' h \<or> (rl_isExclusive l \<and> b \<in> S' h) \<or> b \<in> W' h"
    using assms(2-4) by blast
  with h(1,2) show ?thesis unfolding blocked_def by (intro exI [of _ h]) auto
qed

lemma conflictsWith_iff:
  "rl_wf l \<Longrightarrow> rl_wf x \<Longrightarrow>
     conflictsWith l x \<longleftrightarrow> rl_handle x \<noteq> rl_handle l \<and> bytes l \<inter> bytes x \<noteq> {}"
  by (auto simp: conflictsWith_def overlaps_bytes equalsHandle_iff)

lemma some_conflict_iff:
  assumes "rl_wf l" "\<forall>x \<in> set xs. rl_wf x"
  shows "(\<exists>x \<in> set xs. conflictsWith l x) \<longleftrightarrow>
    (\<exists>h. h \<noteq> rl_handle l \<and> bytes l \<inter> owned xs h \<noteq> {})"
proof
  assume "\<exists>x \<in> set xs. conflictsWith l x"
  then obtain x where x: "x \<in> set xs" "rl_handle x \<noteq> rl_handle l" "bytes l \<inter> bytes x \<noteq> {}"
    using assms by (auto simp: conflictsWith_iff)
  then have "bytes l \<inter> owned xs (rl_handle x) \<noteq> {}" by (auto simp: owned_def)
  with x(2) show "\<exists>h. h \<noteq> rl_handle l \<and> bytes l \<inter> owned xs h \<noteq> {}" by blast
next
  assume "\<exists>h. h \<noteq> rl_handle l \<and> bytes l \<inter> owned xs h \<noteq> {}"
  then obtain h where "h \<noteq> rl_handle l" "bytes l \<inter> owned xs h \<noteq> {}" by blast
  then obtain x b where "x \<in> set xs" "rl_handle x \<noteq> rl_handle l" "b \<in> bytes l" "b \<in> bytes x"
    unfolding owned_def by blast
  with assms show "\<exists>x \<in> set xs. conflictsWith l x" by (auto simp: conflictsWith_iff)
qed

lemma exclConflict_None:
  assumes "sorted_wrt rl_lessExcl xs" "rl_wf l"
  shows "exclConflict l xs = None \<longleftrightarrow> \<not> (\<exists>x \<in> set xs. conflictsWith l x)"
  using assms
proof (induction xs)
  case (Cons x xs)
  show ?case
  proof (cases "rl_start x \<le> rl_end l")
    case True
    with Cons show ?thesis by auto
  next
    case False
    then have "\<not> conflictsWith l y" if "y \<in> set (x # xs)" for y
      using Cons.prems that by (auto simp: rl_lessExcl_def conflictsWith_def rl_overlaps_def)
    with False show ?thesis by auto
  qed
qed simp

lemma waiterConflict_None:
  "waiterConflict l n xs = None \<longleftrightarrow>
     \<not> (\<exists>x \<in> set (if n < 0 then xs else take (nat n) xs). conflictsWith l x)"
proof (induction xs arbitrary: n)
  case (Cons x xs)
  consider "n < 0" | "n = 0" | "n > 0" by linarith
  then show ?case
  proof cases
    case 3
    then have "nat n = Suc (nat (n - 1))" by simp
    with 3 show ?thesis by (simp add: Cons.IH)
  qed (simp_all add: Cons.IH)
qed simp

section \<open>The invariant\<close>

definition range_wf :: "RangeLocks \<Rightarrow> bool" where
  "range_wf s \<longleftrightarrow>
     lock_set rl_lessExcl anyLock (exclRangeFLocks s) \<and>
     lock_set rl_lessShared sameHandle (sharedRangeFLocks s) \<and>
     (\<forall>h k. h \<noteq> k \<longrightarrow> owned (exclRangeFLocks s) h \<inter> owned (sharedRangeFLocks s) k = {}) \<and>
     (\<forall>w \<in> set (waitersExclRangeFLock s) \<union> set (waitersSharedRangeFLock s). rl_bounded w) \<and>
     (\<forall>w \<in> set (waitersExclRangeFLock s). rl_isExclusive w) \<and>
     ids_ok rl_lockAckID (waitersExclRangeFLock s) (waitersSharedRangeFLock s)
       (waitersLockIDsRangeFLock s)"

abbreviation exclBytes :: "RangeLocks \<Rightarrow> i32 \<times> string \<Rightarrow> int set" where
  "exclBytes s \<equiv> owned (exclRangeFLocks s)"

abbreviation sharedBytes :: "RangeLocks \<Rightarrow> i32 \<times> string \<Rightarrow> int set" where
  "sharedBytes s \<equiv> owned (sharedRangeFLocks s)"

lemma checkEx_iff:
  assumes "range_wf s" "rl_bounded l"
  shows "flockRangeCheckConflictsEx l n s \<noteq> None \<longleftrightarrow>
    blocked l (exclBytes s) (sharedBytes s)
      (owned (if n < 0 then waitersExclRangeFLock s else take (nat n) (waitersExclRangeFLock s)))"
proof -
  let ?W = "if n < 0 then waitersExclRangeFLock s else take (nat n) (waitersExclRangeFLock s)"
  have l: "rl_wf l" using assms(2) by (rule bounded_wf)
  have wf: "\<forall>x \<in> set (exclRangeFLocks s). rl_wf x" "\<forall>x \<in> set (sharedRangeFLocks s). rl_wf x"
    "\<forall>x \<in> set ?W. rl_wf x" "sorted_wrt rl_lessExcl (exclRangeFLocks s)"
    using assms(1) by (auto simp: range_wf_def lock_set_def rl_bounded_def dest: in_set_takeD)
  have "flockRangeCheckConflictsEx l n s \<noteq> None \<longleftrightarrow>
      exclConflict l (exclRangeFLocks s) \<noteq> None \<or>
      (rl_isExclusive l \<and> find (conflictsWith l) (sharedRangeFLocks s) \<noteq> None) \<or>
      waiterConflict l n (waitersExclRangeFLock s) \<noteq> None"
    by (simp add: flockRangeCheckConflictsEx_def split: option.split)
  also have "\<dots> \<longleftrightarrow>
      (\<exists>x \<in> set (exclRangeFLocks s). conflictsWith l x) \<or>
      (rl_isExclusive l \<and> (\<exists>x \<in> set (sharedRangeFLocks s). conflictsWith l x)) \<or>
      (\<exists>x \<in> set ?W. conflictsWith l x)"
    unfolding exclConflict_None [OF wf(4) l] waiterConflict_None find_None_iff by blast
  also have "\<dots> \<longleftrightarrow> blocked l (exclBytes s) (sharedBytes s) (owned ?W)"
    unfolding some_conflict_iff [OF l wf(1)] some_conflict_iff [OF l wf(2)]
      some_conflict_iff [OF l wf(3)] blocked_iff by (rule refl)
  finally show ?thesis .
qed

lemma check_iff:
  "range_wf s \<Longrightarrow> rl_bounded l \<Longrightarrow>
     flockRangeCheckConflicts l s \<noteq> None \<longleftrightarrow>
       blocked l (exclBytes s) (sharedBytes s) (owned (waitersExclRangeFLock s))"
  using checkEx_iff [of s l "-1"] by (simp add: flockRangeCheckConflicts_def)

section \<open>Unlocking\<close>

lemma behind_no_overlap: "\<not> rl_start x \<le> rl_end l \<Longrightarrow> rl_wf x \<Longrightarrow> bytes x \<inter> bytes l = {}"
  by (auto simp: bytes_def word_le_def)

lemma excl_guard_sorted:
  "sorted_wrt rl_lessExcl xs \<Longrightarrow>
     sorted_wrt (\<lambda>x y. rl_start y \<le> e \<longrightarrow> rl_start x \<le> e) xs"
  by (erule sorted_wrt_mono_rel [rotated]) (auto simp: rl_lessExcl_def)

text \<open>
  The loop returns early exactly if one lock of the process covers the unlocked range. Since the
  locks of one process are apart from each other, that is the case exactly if the process holds all
  the bytes of the range.
\<close>

lemma unlockLoop_returned:
  assumes "unlockLoop lt go l xs locks removed = (locks', removed', returned)"
    and "rl_wf l" "list_all rl_wf xs" "\<And>x. \<not> go x \<Longrightarrow> rl_wf x \<Longrightarrow> bytes x \<inter> bytes l = {}"
    and "sorted_wrt (\<lambda>x y. go y \<longrightarrow> go x) xs"
  shows "returned \<longleftrightarrow> (\<exists>x \<in> set xs. rl_handle x = rl_handle l \<and> bytes l \<subseteq> bytes x)"
  using assms(1,3,5)
proof (induction xs arbitrary: locks removed)
  case (Cons x xs)
  have l: "bytes l \<noteq> {}" by (rule bytes_not_empty [OF assms(2)])
  have wf: "rl_wf l" "rl_wf x" using assms(2) Cons.prems(2) by auto
  show ?case
  proof (cases "go x \<and> rl_handle x = rl_handle l")
    case False
    show ?thesis
    proof (cases "go x")
      case True
      with False Cons show ?thesis by (auto simp: equalsHandle_iff)
    next
      case stop: False
      have "bytes y \<inter> bytes l = {}" if "y \<in> set (x # xs)" for y
        using that stop Cons.prems(2,3) assms(4) by (auto simp: list_all_iff)
      with stop l Cons.prems(1) show ?thesis by fastforce
    qed
  next
    case True
    from wf show ?thesis
      by (cases rule: overlapsEx_cases)
        (use True l Cons in \<open>auto simp: equalsHandle_iff bytes_def word_le_def word_less_def
          split: if_splits prod.splits\<close>)
  qed
qed simp

lemma covered_by_one:
  assumes "lock_set lt rel xs" "rl_wf l" "bytes l \<subseteq> owned xs h"
  shows "\<exists>x \<in> set xs. rl_handle x = h \<and> bytes l \<subseteq> bytes x"
proof -
  have far: "x = y \<or> far x y" if "x \<in> set xs" "y \<in> set xs" "rl_handle x = rl_handle y" for x y
    using assms(1) that by (auto simp: lock_set_def)
  have "uint (rl_start l) \<in> bytes l" using assms(2) by (simp add: bytes_def wf_uint)
  from subsetD [OF assms(3) this] obtain x
    where x: "x \<in> set xs" "rl_handle x = h" "uint (rl_start l) \<in> bytes x"
    by (auto simp: owned_iff)
  have "uint (rl_end l) \<le> uint (rl_end x)"
  proof (rule ccontr)
    assume "\<not> uint (rl_end l) \<le> uint (rl_end x)"
    with x(3) have "uint (rl_end x) + 1 \<in> bytes l" by (auto simp: bytes_def)
    from subsetD [OF assms(3) this] obtain y
      where y: "y \<in> set xs" "rl_handle y = h" "uint (rl_end x) + 1 \<in> bytes y"
      by (auto simp: owned_iff)
    with far [of x y] x show False by (auto simp: far_def bytes_def)
  qed
  with x show ?thesis by (auto simp: bytes_def)
qed
lemma rangeUnlock_bytes:
  assumes wf: "range_wf s" and l: "rl_bounded l" and u: "flockRangeUnlock l s = (r, s')"
  shows "lock_set rl_lessExcl anyLock (exclRangeFLocks s')"
    "lock_set rl_lessShared sameHandle (sharedRangeFLocks s')"
    "exclBytes s' h = exclBytes s h - (if h = rl_handle l then bytes l else {})"
    "sharedBytes s' h \<subseteq> sharedBytes s h"
    "sharedBytes s' h = sharedBytes s h -
       (if h = rl_handle l \<and> \<not> bytes l \<subseteq> exclBytes s (rl_handle l) then bytes l else {})"
    "waitersExclRangeFLock s' = waitersExclRangeFLock s"
    "waitersSharedRangeFLock s' = waitersSharedRangeFLock s"
    "waitersLockIDsRangeFLock s' = waitersLockIDsRangeFLock s"
    "\<not> r \<Longrightarrow> s' = s"
    "r \<longleftrightarrow> (exclBytes s (rl_handle l) \<union> sharedBytes s (rl_handle l)) \<inter> bytes l \<noteq> {}"
proof -
  have E: "lock_set rl_lessExcl anyLock (exclRangeFLocks s)"
    and S: "lock_set rl_lessShared sameHandle (sharedRangeFLocks s)"
    using wf by (simp_all add: range_wf_def)
  obtain E' rem ret where e: "unlockLoop rl_lessExcl (\<lambda>x. rl_start x \<le> rl_end l) l
      (exclRangeFLocks s) (exclRangeFLocks s) False = (E', rem, ret)"
    by (metis prod_cases3)
  obtain S' rem' ret' where h: "unlockLoop rl_lessShared (\<lambda>_. True) l
      (sharedRangeFLocks s) (sharedRangeFLocks s) rem = (S', rem', ret')"
    by (metis prod_cases3)
  have "sorted_wrt rl_lessExcl (exclRangeFLocks s)" using E by (simp add: lock_set_def)
  note e' = excl_set.unlockLoop_bytes [OF E subset_refl excl_set.set_distinct [OF E] l _
      behind_no_overlap excl_guard_sorted [OF this] e]
  have t: "sorted_wrt (\<lambda>x y. True \<longrightarrow> True) xs" for xs :: "RangeLockDetails list"
    by (induction xs) auto
  note h' = shared_set.unlockLoop_bytes [OF S subset_refl shared_set.set_distinct [OF S] l _ _ t h]
  have s': "s' = (if ret then s\<lparr>exclRangeFLocks := E'\<rparr>
                  else s\<lparr>exclRangeFLocks := E', sharedRangeFLocks := S'\<rparr>)"
    "r = (ret \<or> rem')"
    using u by (auto simp: flockRangeUnlock_def Let_def e h split: if_splits)
  show "lock_set rl_lessExcl anyLock (exclRangeFLocks s')"
    "lock_set rl_lessShared sameHandle (sharedRangeFLocks s')"
    "waitersExclRangeFLock s' = waitersExclRangeFLock s"
    "waitersSharedRangeFLock s' = waitersSharedRangeFLock s"
    "waitersLockIDsRangeFLock s' = waitersLockIDsRangeFLock s"
    using e' h' S by (auto simp: s'(1))
  show "exclBytes s' h = exclBytes s h - (if h = rl_handle l then bytes l else {})"
    using e' by (auto simp: s'(1))
  have o: "owned S' h = sharedBytes s h - (if h = rl_handle l then bytes l else {})"
    using h' by auto
  then show "sharedBytes s' h \<subseteq> sharedBytes s h" by (auto simp: s'(1))
  have ret: "ret \<longleftrightarrow> bytes l \<subseteq> exclBytes s (rl_handle l)"
  proof -
    have wf': "list_all rl_wf (exclRangeFLocks s)" "rl_wf l"
      using E l by (auto simp: lock_set_def rl_bounded_def list_all_iff)
    note r = unlockLoop_returned [OF e wf'(2,1) behind_no_overlap excl_guard_sorted [OF \<open>sorted_wrt rl_lessExcl _\<close>]]
    show ?thesis
    proof
      assume ret
      with r obtain x where "x \<in> set (exclRangeFLocks s)" "rl_handle x = rl_handle l"
          "bytes l \<subseteq> bytes x" by blast
      then show "bytes l \<subseteq> exclBytes s (rl_handle l)" unfolding owned_def by blast
    next
      assume "bytes l \<subseteq> exclBytes s (rl_handle l)"
      with covered_by_one [OF E wf'(2)] r show ret by blast
    qed
  qed
  show "sharedBytes s' h = sharedBytes s h -
      (if h = rl_handle l \<and> \<not> bytes l \<subseteq> exclBytes s (rl_handle l) then bytes l else {})"
  proof (cases ret)
    case True
    with ret show ?thesis by (simp add: s'(1))
  next
    case False
    with ret o show ?thesis by (simp add: s'(1))
  qed
  show "s' = s" if "\<not> r"
    using that s' e' h' by auto
  show "r \<longleftrightarrow> (exclBytes s (rl_handle l) \<union> sharedBytes s (rl_handle l)) \<inter> bytes l \<noteq> {}"
  proof (cases ret)
    case True
    then have "bytes l \<subseteq> exclBytes s (rl_handle l)" using e' by auto
    with True s'(2) bytes_not_empty [OF bounded_wf [OF l]] show ?thesis by auto
  next
    case False
    then have "r \<longleftrightarrow> rem'" using s'(2) by simp
    moreover have "rem' \<longleftrightarrow> rem \<or> sharedBytes s (rl_handle l) \<inter> bytes l \<noteq> {}" using h' by blast
    moreover have "rem \<longleftrightarrow> exclBytes s (rl_handle l) \<inter> bytes l \<noteq> {}" using e' by blast
    ultimately show ?thesis by blast
  qed
qed

lemma rangeUnlock_wf:
  assumes wf: "range_wf s" and l: "rl_bounded l" and u: "flockRangeUnlock l s = (r, s')"
  shows "range_wf s'"
proof -
  note b = rangeUnlock_bytes [OF assms]
  have "exclBytes s' h \<inter> sharedBytes s' k = {}" if "h \<noteq> k" for h k
  proof -
    have "exclBytes s h \<inter> sharedBytes s k = {}" using wf that unfolding range_wf_def by blast
    with b(3) [of h] b(4) [of k] show ?thesis by auto
  qed
  with wf b(1,2,6-8) show ?thesis by (simp add: range_wf_def)
qed

section \<open>Granting\<close>

lemma mergeLoop_ack:
  "rl_lockAckID (fst (mergeLoop go l todo locks)) = rl_lockAckID l"
  by (induction go l todo locks rule: mergeLoop.induct) (auto simp: rl_merge_def)

lemma not_blockedD:
  assumes "\<not> blocked w E S W" "h \<noteq> rl_handle w"
  shows "bytes w \<inter> E h = {}" "rl_isExclusive w \<Longrightarrow> bytes w \<inter> S h = {}"
  using assms unfolding blocked_iff by blast+

lemma owned_superset: "x \<in> set xs \<Longrightarrow> bytes x \<subseteq> owned xs (rl_handle x)"
  by (auto simp: owned_def)

lemma far_behind:
  "\<not> rl_start x \<le> rl_end m + 1 \<Longrightarrow> rl_bounded m \<Longrightarrow> rl_bounded x \<Longrightarrow> far m x"
  by (auto simp: far_def word_le_def rl_bounded_def uint_inc)

lemma flockRangeExclusive_bytes:
  assumes wf: "range_wf s" and w: "rl_bounded w" "rl_isExclusive w"
    and free: "\<not> blocked w (exclBytes s) (sharedBytes s) W"
    and g: "flockRangeExclusive w s = (w', s')"
  shows "lock_set rl_lessExcl anyLock (exclRangeFLocks s')"
    "exclBytes s' h = exclBytes s h \<union> (if h = rl_handle w then bytes w else {})"
    "s' = s\<lparr>exclRangeFLocks := exclRangeFLocks s'\<rparr>"
    "h \<noteq> k \<Longrightarrow> exclBytes s' h \<inter> sharedBytes s' k = {}"
    "rl_lockAckID w' = rl_lockAckID w"
proof -
  let ?go = "\<lambda>l x. rl_start x \<le> rl_end l + (1 :: u64)"
  have E: "lock_set rl_lessExcl anyLock (exclRangeFLocks s)" using wf by (simp add: range_wf_def)
  obtain locks where m: "mergeLoop ?go w (exclRangeFLocks s) (exclRangeFLocks s) = (w', locks)"
    and s': "s' = s\<lparr>exclRangeFLocks := set_insert rl_lessExcl w' locks\<rparr>"
    using g by (auto simp: flockRangeExclusive_def split: prod.splits)
  have "sorted_wrt rl_lessExcl (exclRangeFLocks s)" using E by (simp add: lock_set_def)
  note sorted = excl_guard_sorted [OF this]
  have dis: "bytes w \<inter> bytes x = {}"
    if "x \<in> set (exclRangeFLocks s)" "rl_handle x \<noteq> rl_handle w" for x
    using not_blockedD(1) [OF free that(2)] owned_superset [OF that(1)] by blast
  note b = excl_set.mergeLoop_bytes [OF E subset_refl excl_set.set_distinct [OF E] w(1) _ dis
      far_behind sorted m]
  show "lock_set rl_lessExcl anyLock (exclRangeFLocks s')" using b by (simp add: s')
  show own: "exclBytes s' h = exclBytes s h \<union> (if h = rl_handle w then bytes w else {})" for h
    using b by (simp add: s')
  show "s' = s\<lparr>exclRangeFLocks := exclRangeFLocks s'\<rparr>" by (simp add: s')
  show "exclBytes s' h \<inter> sharedBytes s' k = {}" if "h \<noteq> k"
  proof -
    have "exclBytes s h \<inter> sharedBytes s k = {}" using wf that unfolding range_wf_def by blast
    moreover have "bytes w \<inter> sharedBytes s k = {}" if "h = rl_handle w"
      using not_blockedD(2) [OF free] w(2) that \<open>h \<noteq> k\<close> by metis
    moreover have "sharedBytes s' k = sharedBytes s k" by (simp add: s')
    ultimately show ?thesis using own [of h] by auto
  qed
  show "rl_lockAckID w' = rl_lockAckID w"
    using mergeLoop_ack [of ?go w "exclRangeFLocks s" "exclRangeFLocks s"] by (simp add: m)
qed

lemma flockRangeShared_bytes:
  assumes wf: "range_wf s" and w: "rl_bounded w"
    and free: "\<not> blocked w (exclBytes s) (sharedBytes s) W"
    and g: "flockRangeShared w s = (w', s')"
  shows "lock_set rl_lessShared sameHandle (sharedRangeFLocks s')"
    "sharedBytes s' h = sharedBytes s h \<union> (if h = rl_handle w then bytes w else {})"
    "s' = s\<lparr>sharedRangeFLocks := sharedRangeFLocks s'\<rparr>"
    "h \<noteq> k \<Longrightarrow> exclBytes s' h \<inter> sharedBytes s' k = {}"
    "rl_lockAckID w' = rl_lockAckID w"
proof -
  let ?go = "\<lambda>(_ :: RangeLockDetails) (_ :: RangeLockDetails). True"
  have S: "lock_set rl_lessShared sameHandle (sharedRangeFLocks s)"
    using wf by (simp add: range_wf_def)
  obtain locks where m: "mergeLoop ?go w (sharedRangeFLocks s) (sharedRangeFLocks s) = (w', locks)"
    and s': "s' = s\<lparr>sharedRangeFLocks := set_insert rl_lessShared w' locks\<rparr>"
    using g by (auto simp: flockRangeShared_def split: prod.splits)
  have t: "sorted_wrt (\<lambda>x y. True \<longrightarrow> True) xs" for xs :: "RangeLockDetails list"
    by (induction xs) auto
  note b = shared_set.mergeLoop_bytes [OF S subset_refl shared_set.set_distinct [OF S] w _ _ _ t m]
  have b': "lock_set rl_lessShared sameHandle (set_insert rl_lessShared w' locks)"
    "owned (set_insert rl_lessShared w' locks) h =
       sharedBytes s h \<union> (if h = rl_handle w then bytes w else {})" for h
    using b by (auto simp: sameHandle_def)
  show "lock_set rl_lessShared sameHandle (sharedRangeFLocks s')" using b' by (simp add: s')
  show own: "sharedBytes s' h = sharedBytes s h \<union> (if h = rl_handle w then bytes w else {})" for h
    using b' by (simp add: s')
  show "s' = s\<lparr>sharedRangeFLocks := sharedRangeFLocks s'\<rparr>" by (simp add: s')
  show "exclBytes s' h \<inter> sharedBytes s' k = {}" if "h \<noteq> k"
  proof -
    have "exclBytes s h \<inter> sharedBytes s k = {}" using wf that unfolding range_wf_def by blast
    moreover have "exclBytes s h \<inter> bytes w = {}" if "k = rl_handle w"
      using not_blockedD(1) [OF free, of h] that \<open>h \<noteq> k\<close> by blast
    moreover have "exclBytes s' h = exclBytes s h" by (simp add: s')
    ultimately show ?thesis using own [of k] by auto
  qed
  show "rl_lockAckID w' = rl_lockAckID w"
    using mergeLoop_ack [of ?go w "sharedRangeFLocks s" "sharedRangeFLocks s"] by (simp add: m)
qed

section \<open>Trying the waiters again\<close>

definition excl_waiters_blocked ::
    "RangeLocks \<Rightarrow> RangeLockDetails list \<Rightarrow> bool" where
  "excl_waiters_blocked s ws \<longleftrightarrow>
     (\<forall>i < length ws. blocked (ws ! i) (exclBytes s) (sharedBytes s) (owned (take i ws)))"

definition shared_waiters_blocked ::
    "RangeLocks \<Rightarrow> RangeLockDetails list \<Rightarrow> bool" where
  "shared_waiters_blocked s ws \<longleftrightarrow>
     (\<forall>w \<in> set ws. blocked w (exclBytes s) (sharedBytes s) (owned (waitersExclRangeFLock s)))"

text \<open>Nobody waits in vain: every queued request is blocked by others.\<close>

definition range_no_stuck :: "RangeLocks \<Rightarrow> bool" where
  "range_no_stuck s \<longleftrightarrow>
     excl_waiters_blocked s (waitersExclRangeFLock s) \<and>
     shared_waiters_blocked s (waitersSharedRangeFLock s)"

definition range_inv :: "RangeLocks \<Rightarrow> bool" where
  "range_inv s \<longleftrightarrow> range_wf s \<and> range_no_stuck s"

lemma ids_ok_remove_excl:
  "ids_ok ack (kept @ w # ws) zs ids \<Longrightarrow> ids_ok ack (kept @ ws) zs (ids - {ack w})"
  by (auto simp: ids_ok_def image_iff)

lemma ids_ok_remove_shared:
  "ids_ok ack zs (kept @ w # ws) ids \<Longrightarrow> ids_ok ack zs (kept @ ws) (ids - {ack w})"
  by (auto simp: ids_ok_def image_iff)

lemma excl_waiters_blocked_mono:
  assumes "excl_waiters_blocked s ws" "\<And>h. exclBytes s h \<subseteq> exclBytes s' h"
    "\<And>h. sharedBytes s h \<subseteq> sharedBytes s' h"
  shows "excl_waiters_blocked s' ws"
  using assms(1) blocked_mono [OF _ assms(2,3) subset_refl]
  by (simp add: excl_waiters_blocked_def)

lemma excl_waiters_blocked_snoc:
  "excl_waiters_blocked s (ws @ [w]) \<longleftrightarrow>
     excl_waiters_blocked s ws \<and> blocked w (exclBytes s) (sharedBytes s) (owned ws)"
  by (auto simp: excl_waiters_blocked_def nth_append less_Suc_eq_le le_less)

lemma shared_waiters_blocked_mono:
  assumes "shared_waiters_blocked s ws" "\<And>h. exclBytes s h \<subseteq> exclBytes s' h"
    "\<And>h. sharedBytes s h \<subseteq> sharedBytes s' h"
    "\<And>h. owned (waitersExclRangeFLock s) h \<subseteq> owned (waitersExclRangeFLock s') h"
  shows "shared_waiters_blocked s' ws"
  using assms(1) blocked_mono [OF _ assms(2-4)] by (simp add: shared_waiters_blocked_def)

lemma owned_Cons: "owned (x # xs) h = (if rl_handle x = h then bytes x else {}) \<union> owned xs h"
  by (auto simp: owned_def)

lemma owned_Nil [simp]: "owned [] h = {}"
  by (simp add: owned_def)

lemma grantExclWaiters_spec:
  assumes "range_wf s" "waitersExclRangeFLock s = kept @ todo" "n = int (length kept)"
    and "excl_waiters_blocked s kept" "grantExclWaiters kept todo n s = (s', notified)"
  shows "range_wf s' \<and> excl_waiters_blocked s' (waitersExclRangeFLock s') \<and>
    waitersSharedRangeFLock s' = waitersSharedRangeFLock s \<and>
    sharedRangeFLocks s' = sharedRangeFLocks s \<and> (\<forall>h. exclBytes s h \<subseteq> exclBytes s' h) \<and>
    (\<forall>h. exclBytes s' h \<subseteq> exclBytes s h \<union> owned todo h) \<and>
    set (waitersExclRangeFLock s') \<subseteq> set kept \<union> set todo"
  using assms
proof (induction todo arbitrary: kept n s notified)
  case (Cons w ws)
  have w: "rl_bounded w" "rl_isExclusive w" using Cons.prems(1,2) by (auto simp: range_wf_def)
  have c: "flockRangeCheckConflictsEx w n s \<noteq> None \<longleftrightarrow>
      blocked w (exclBytes s) (sharedBytes s) (owned kept)"
    using checkEx_iff [OF Cons.prems(1) w(1), of n] Cons.prems(2,3) by simp
  show ?case
  proof (cases "flockRangeCheckConflictsEx w n s")
    case (Some x)
    then have "excl_waiters_blocked s (kept @ [w])"
      using c Cons.prems(4) by (simp add: excl_waiters_blocked_snoc)
    with Some Cons.IH [OF Cons.prems(1), of "kept @ [w]" "n + 1"] Cons.prems(2,3,5) owned_Cons
    show ?thesis by fastforce
  next
    case None
    obtain w' s1 where g: "flockRangeExclusive w s = (w', s1)" by fastforce
    let ?s2 = "s1\<lparr>waitersLockIDsRangeFLock := waitersLockIDsRangeFLock s1 - {rl_lockAckID w'},
                  waitersExclRangeFLock := kept @ ws\<rparr>"
    obtain notified' where rec: "grantExclWaiters kept ws n ?s2 = (s', notified')"
      using Cons.prems(5) None by (auto simp: g Let_def split: prod.splits)
    have free: "\<not> blocked w (exclBytes s) (sharedBytes s) (owned kept)" using c None by simp
    note b = flockRangeExclusive_bytes [OF Cons.prems(1) w free g]
    have same: "sharedRangeFLocks s1 = sharedRangeFLocks s"
      "waitersSharedRangeFLock s1 = waitersSharedRangeFLock s"
      "waitersLockIDsRangeFLock s1 = waitersLockIDsRangeFLock s"
      by (subst b(3), simp)+
    have "ids_ok rl_lockAckID (kept @ ws) (waitersSharedRangeFLock s)
        (waitersLockIDsRangeFLock s - {rl_lockAckID w})"
      using Cons.prems(1,2) by (intro ids_ok_remove_excl) (simp add: range_wf_def)
    with Cons.prems(1,2) b(1,4,5) same have wf2: "range_wf ?s2"
      by (simp add: range_wf_def)
    have grow: "exclBytes s h \<subseteq> exclBytes ?s2 h" for h using b(2) [of h] by auto
    have "excl_waiters_blocked ?s2 kept"
      by (rule excl_waiters_blocked_mono [OF Cons.prems(4) grow]) (simp add: same)
    with Cons.IH [OF wf2 _ Cons.prems(3) _ rec] same
    have ih: "range_wf s' \<and> excl_waiters_blocked s' (waitersExclRangeFLock s') \<and>
      waitersSharedRangeFLock s' = waitersSharedRangeFLock s \<and>
      sharedRangeFLocks s' = sharedRangeFLocks s"
      "\<forall>h. exclBytes ?s2 h \<subseteq> exclBytes s' h"
      "\<forall>h. exclBytes s' h \<subseteq> exclBytes ?s2 h \<union> owned ws h"
      "set (waitersExclRangeFLock s') \<subseteq> set kept \<union> set ws" by auto
    have "exclBytes ?s2 h \<union> owned ws h = exclBytes s h \<union> owned (w # ws) h" for h
      using b(2) [of h] by (auto simp: owned_Cons)
    with ih grow show ?thesis by fastforce
  qed
qed simp

lemma grantSharedRangeWaiters_spec:
  assumes "range_wf s" "waitersSharedRangeFLock s = kept @ todo"
    and "shared_waiters_blocked s kept" "grantSharedRangeWaiters kept todo s = (s', notified)"
  shows "range_wf s' \<and> shared_waiters_blocked s' (waitersSharedRangeFLock s') \<and>
    waitersExclRangeFLock s' = waitersExclRangeFLock s \<and>
    exclRangeFLocks s' = exclRangeFLocks s \<and> (\<forall>h. sharedBytes s h \<subseteq> sharedBytes s' h) \<and>
    (\<forall>h. sharedBytes s' h \<subseteq> sharedBytes s h \<union> owned todo h) \<and>
    set (waitersSharedRangeFLock s') \<subseteq> set kept \<union> set todo"
  using assms
proof (induction todo arbitrary: kept s notified)
  case (Cons w ws)
  have w: "rl_bounded w" using Cons.prems(1,2) by (auto simp: range_wf_def)
  have c: "flockRangeCheckConflicts w s \<noteq> None \<longleftrightarrow>
      blocked w (exclBytes s) (sharedBytes s) (owned (waitersExclRangeFLock s))"
    by (rule check_iff [OF Cons.prems(1) w])
  show ?case
  proof (cases "flockRangeCheckConflicts w s")
    case (Some x)
    then have "shared_waiters_blocked s (kept @ [w])"
      using c Cons.prems(3) by (simp add: shared_waiters_blocked_def)
    with Some Cons.IH [OF Cons.prems(1), of "kept @ [w]"] Cons.prems(2,4) owned_Cons
    show ?thesis by fastforce
  next
    case None
    obtain w' s1 where g: "flockRangeShared w s = (w', s1)" by fastforce
    let ?s2 = "s1\<lparr>waitersLockIDsRangeFLock := waitersLockIDsRangeFLock s1 - {rl_lockAckID w'},
                  waitersSharedRangeFLock := kept @ ws\<rparr>"
    obtain notified' where rec: "grantSharedRangeWaiters kept ws ?s2 = (s', notified')"
      using Cons.prems(4) None by (auto simp: g Let_def split: prod.splits)
    have free: "\<not> blocked w (exclBytes s) (sharedBytes s) (owned (waitersExclRangeFLock s))"
      using c None by simp
    note b = flockRangeShared_bytes [OF Cons.prems(1) w free g]
    have same: "exclRangeFLocks s1 = exclRangeFLocks s"
      "waitersExclRangeFLock s1 = waitersExclRangeFLock s"
      "waitersLockIDsRangeFLock s1 = waitersLockIDsRangeFLock s"
      by (subst b(3), simp)+
    have "ids_ok rl_lockAckID (waitersExclRangeFLock s) (kept @ ws)
        (waitersLockIDsRangeFLock s - {rl_lockAckID w})"
      using Cons.prems(1,2) by (intro ids_ok_remove_shared) (simp add: range_wf_def)
    moreover have "exclBytes s h \<inter> sharedBytes s1 k = {}" if "h \<noteq> k" for h k
      using b(4) [OF that] by (simp add: same)
    ultimately have wf2: "range_wf ?s2"
      using Cons.prems(1,2) b(1,5) same by (simp add: range_wf_def)
    have grow: "sharedBytes s h \<subseteq> sharedBytes ?s2 h" for h using b(2) [of h] by auto
    have "shared_waiters_blocked ?s2 kept"
      by (rule shared_waiters_blocked_mono [OF Cons.prems(3) _ grow]) (simp_all add: same)
    with Cons.IH [OF wf2 _ _ rec] same
    have ih: "range_wf s' \<and> shared_waiters_blocked s' (waitersSharedRangeFLock s') \<and>
      waitersExclRangeFLock s' = waitersExclRangeFLock s \<and>
      exclRangeFLocks s' = exclRangeFLocks s"
      "\<forall>h. sharedBytes ?s2 h \<subseteq> sharedBytes s' h"
      "\<forall>h. sharedBytes s' h \<subseteq> sharedBytes ?s2 h \<union> owned ws h"
      "set (waitersSharedRangeFLock s') \<subseteq> set kept \<union> set ws" by auto
    have "sharedBytes ?s2 h \<union> owned ws h = sharedBytes s h \<union> owned (w # ws) h" for h
      using b(2) [of h] by (auto simp: owned_Cons)
    with ih grow show ?thesis by fastforce
  qed
qed simp

lemma tryNextRange_spec:
  assumes "range_wf s"
  shows "range_inv (fst (flockRangeTryNextWaiters s))"
    "exclBytes s h \<subseteq> exclBytes (fst (flockRangeTryNextWaiters s)) h"
    "sharedBytes s h \<subseteq> sharedBytes (fst (flockRangeTryNextWaiters s)) h"
    "exclBytes (fst (flockRangeTryNextWaiters s)) h \<subseteq>
       exclBytes s h \<union> owned (waitersExclRangeFLock s) h"
    "sharedBytes (fst (flockRangeTryNextWaiters s)) h \<subseteq>
       sharedBytes s h \<union> owned (waitersSharedRangeFLock s) h"
    "set (waitersExclRangeFLock (fst (flockRangeTryNextWaiters s))) \<subseteq> set (waitersExclRangeFLock s)"
    "set (waitersSharedRangeFLock (fst (flockRangeTryNextWaiters s)))
       \<subseteq> set (waitersSharedRangeFLock s)"
proof -
  obtain s1 n1 where e1: "grantExclWaiters [] (waitersExclRangeFLock s) 0 s = (s1, n1)"
    by fastforce
  obtain s2 n2 where e2: "grantSharedRangeWaiters [] (waitersSharedRangeFLock s1) s1 = (s2, n2)"
    by fastforce
  have r: "fst (flockRangeTryNextWaiters s) = s2"
    by (simp add: flockRangeTryNextWaiters_def e1 e2)
  have a: "range_wf s1 \<and> excl_waiters_blocked s1 (waitersExclRangeFLock s1) \<and>
    waitersSharedRangeFLock s1 = waitersSharedRangeFLock s \<and>
    sharedRangeFLocks s1 = sharedRangeFLocks s \<and> (\<forall>h. exclBytes s h \<subseteq> exclBytes s1 h) \<and>
    (\<forall>h. exclBytes s1 h \<subseteq> exclBytes s h \<union> owned (waitersExclRangeFLock s) h) \<and>
    set (waitersExclRangeFLock s1) \<subseteq> set [] \<union> set (waitersExclRangeFLock s)"
    by (rule grantExclWaiters_spec [OF assms _ _ _ e1]) (simp_all add: excl_waiters_blocked_def)
  have b: "range_wf s2 \<and> shared_waiters_blocked s2 (waitersSharedRangeFLock s2) \<and>
    waitersExclRangeFLock s2 = waitersExclRangeFLock s1 \<and>
    exclRangeFLocks s2 = exclRangeFLocks s1 \<and> (\<forall>h. sharedBytes s1 h \<subseteq> sharedBytes s2 h) \<and>
    (\<forall>h. sharedBytes s2 h \<subseteq> sharedBytes s1 h \<union> owned (waitersSharedRangeFLock s1) h) \<and>
    set (waitersSharedRangeFLock s2) \<subseteq> set [] \<union> set (waitersSharedRangeFLock s1)"
    by (rule grantSharedRangeWaiters_spec [OF _ _ _ e2])
      (simp_all add: a shared_waiters_blocked_def)
  have "excl_waiters_blocked s2 (waitersExclRangeFLock s2)"
    using excl_waiters_blocked_mono [of s1 "waitersExclRangeFLock s1" s2] a b by simp
  with a b show "range_inv (fst (flockRangeTryNextWaiters s))"
    by (simp add: r range_inv_def range_no_stuck_def)
  show "exclBytes s h \<subseteq> exclBytes (fst (flockRangeTryNextWaiters s)) h"
    "sharedBytes s h \<subseteq> sharedBytes (fst (flockRangeTryNextWaiters s)) h"
    "exclBytes (fst (flockRangeTryNextWaiters s)) h \<subseteq>
       exclBytes s h \<union> owned (waitersExclRangeFLock s) h"
    "sharedBytes (fst (flockRangeTryNextWaiters s)) h \<subseteq>
       sharedBytes s h \<union> owned (waitersSharedRangeFLock s) h"
    "set (waitersExclRangeFLock (fst (flockRangeTryNextWaiters s))) \<subseteq> set (waitersExclRangeFLock s)"
    "set (waitersSharedRangeFLock (fst (flockRangeTryNextWaiters s)))
       \<subseteq> set (waitersSharedRangeFLock s)"
    using a b by (simp_all add: r)
qed

section \<open>Every operation keeps the invariant\<close>

lemma cancel_ranges_result:
  "cancelRangesWhere P s =
     (s\<lparr>exclRangeFLocks := filter (\<lambda>x. \<not> P x) (exclRangeFLocks s),
        sharedRangeFLocks := filter (\<lambda>x. \<not> P x) (sharedRangeFLocks s),
        waitersExclRangeFLock := filter (\<lambda>x. \<not> P x) (waitersExclRangeFLock s),
        waitersSharedRangeFLock := filter (\<lambda>x. \<not> P x) (waitersSharedRangeFLock s),
        waitersLockIDsRangeFLock := waitersLockIDsRangeFLock s
          - rl_lockAckID ` {w \<in> set (waitersExclRangeFLock s). P w}
          - rl_lockAckID ` {w \<in> set (waitersSharedRangeFLock s). P w}\<rparr>,
      list_ex P (exclRangeFLocks s) \<or> list_ex P (sharedRangeFLocks s) \<or>
      list_ex P (waitersExclRangeFLock s) \<or> list_ex P (waitersSharedRangeFLock s))"
  by (simp add: cancelRangesWhere_def cancelWaiters_spec Let_def)

lemma lock_set_filter: "lock_set lt rel xs \<Longrightarrow> lock_set lt rel (filter P xs)"
  by (auto simp: lock_set_def sorted_wrt_filter)

lemma owned_filter: "owned (filter P xs) h \<subseteq> owned xs h"
  by (auto simp: owned_def)

lemma cancel_ranges_wf:
  assumes wf: "range_wf s"
  shows "range_wf (fst (cancelRangesWhere P s))"
proof -
  have "owned (filter (\<lambda>x. \<not> P x) (exclRangeFLocks s)) h \<inter>
      owned (filter (\<lambda>x. \<not> P x) (sharedRangeFLocks s)) k = {}" if "h \<noteq> k" for h k
  proof -
    have "exclBytes s h \<inter> sharedBytes s k = {}" using wf that unfolding range_wf_def by blast
    then show ?thesis using owned_filter by blast
  qed
  with wf show ?thesis
    by (auto simp: cancel_ranges_result range_wf_def lock_set_filter ids_ok_filter)
qed

lemma cancel_ranges_nothing:
  assumes "\<not> snd (cancelRangesWhere P s)"
  shows "fst (cancelRangesWhere P s) = s"
proof -
  have keep: "filter (\<lambda>s. \<not> P s) xs = xs" "{w \<in> set xs. P w} = {}" if "\<not> list_ex P xs" for xs
    using that by (auto simp: list_ex_iff filter_id_conv)
  from assms show ?thesis by (simp add: cancel_ranges_result keep)
qed

definition rl_lockTypeOk :: "RangeLockDetails \<Rightarrow> bool" where
  "rl_lockTypeOk l \<longleftrightarrow> rl_isExclusive l \<noteq> rl_isShared l"

lemma range_wf_waits:
  assumes "range_wf s" "rl_bounded l" "rl_lockAckID l \<notin> waitersLockIDsRangeFLock s"
  shows "range_wf (s\<lparr>waitersSharedRangeFLock := waitersSharedRangeFLock s @ [l],
      waitersLockIDsRangeFLock := insert (rl_lockAckID l) (waitersLockIDsRangeFLock s)\<rparr>)"
    "rl_isExclusive l \<Longrightarrow>
      range_wf (s\<lparr>waitersExclRangeFLock := waitersExclRangeFLock s @ [l],
      waitersLockIDsRangeFLock := insert (rl_lockAckID l) (waitersLockIDsRangeFLock s)\<rparr>)"
  using assms by (auto simp: range_wf_def intro: ids_ok_enqueue_shared ids_ok_enqueue_excl)

lemma granted_wf:
  assumes wf: "range_wf s" and l: "rl_bounded l"
    and free: "\<not> blocked l (exclBytes s) (sharedBytes s) W"
  shows "range_wf (snd (flockRangeShared l s))"
    "rl_isExclusive l \<Longrightarrow> range_wf (snd (flockRangeExclusive l s))"
proof -
  obtain l' s' where g: "flockRangeShared l s = (l', s')" by fastforce
  note b = flockRangeShared_bytes [OF wf l free g]
  have same: "exclRangeFLocks s' = exclRangeFLocks s"
    "waitersExclRangeFLock s' = waitersExclRangeFLock s"
    "waitersSharedRangeFLock s' = waitersSharedRangeFLock s"
    "waitersLockIDsRangeFLock s' = waitersLockIDsRangeFLock s"
    by (subst b(3), simp)+
  from b(4) have "exclBytes s h \<inter> sharedBytes s' k = {}" if "h \<noteq> k" for h k
    using that by (simp add: same)
  with wf b(1) same show "range_wf (snd (flockRangeShared l s))" by (simp add: g range_wf_def)
next
  assume x: "rl_isExclusive l"
  obtain l' s' where g: "flockRangeExclusive l s = (l', s')" by fastforce
  note b = flockRangeExclusive_bytes [OF wf l x free g]
  have same: "sharedRangeFLocks s' = sharedRangeFLocks s"
    "waitersExclRangeFLock s' = waitersExclRangeFLock s"
    "waitersSharedRangeFLock s' = waitersSharedRangeFLock s"
    "waitersLockIDsRangeFLock s' = waitersLockIDsRangeFLock s"
    by (subst b(3), simp)+
  from b(4) have "exclBytes s' h \<inter> sharedBytes s k = {}" if "h \<noteq> k" for h k
    using that by (simp add: same)
  with wf b(1) same show "range_wf (snd (flockRangeExclusive l s))" by (simp add: g range_wf_def)
qed

lemma rangeLockRequest_wf:
  assumes wf: "range_wf s" and l: "rl_bounded l" and x: "rl_lockTypeOk l"
    and ack: "rl_lockAckID l \<notin> waitersLockIDsRangeFLock s"
  shows "range_wf (snd (snd (flockRangeLockRequest l s)))"
proof -
  obtain t s1 where u: "flockRangeUnlock l s = (t, s1)" by fastforce
  note wf1 = rangeUnlock_wf [OF wf l u] and b = rangeUnlock_bytes [OF wf l u]
  have free: "\<not> blocked l (exclBytes s1) (sharedBytes s1) (owned (waitersExclRangeFLock s))"
    if "flockRangeCheckConflicts l s = None"
    using that check_iff [OF wf l] b(3,4)
      blocked_mono [of l "exclBytes s1" "sharedBytes s1" "owned (waitersExclRangeFLock s)"
        "exclBytes s" "sharedBytes s" "owned (waitersExclRangeFLock s)"] by auto
  show ?thesis
    using wf x granted_wf [OF wf1 l free] range_wf_waits [OF wf1 l] ack b(6-8)
    by (auto simp: flockRangeLockRequest_def Let_def u rl_lockTypeOk_def)
qed

lemma rangeLockRequest_no_stuck:
  assumes inv: "range_inv s" and l: "rl_bounded l" and x: "rl_lockTypeOk l"
    and quiet: "\<not> fst (snd (flockRangeLockRequest l s))"
  shows "range_no_stuck (snd (snd (flockRangeLockRequest l s)))"
proof -
  have wf: "range_wf s" and ns: "range_no_stuck s" using inv by (simp_all add: range_inv_def)
  obtain t s1 where u: "flockRangeUnlock l s = (t, s1)" by fastforce
  have s1: "s1 = s \<and> \<not> t" if "flockRangeCheckConflicts l s = None \<or> rl_allowsWaiting l"
  proof -
    have "\<not> t" using that quiet by (auto simp: flockRangeLockRequest_def Let_def u split: if_splits)
    with rangeUnlock_bytes(9) [OF wf l u] show ?thesis by simp
  qed
  have c: "flockRangeCheckConflicts l s \<noteq> None \<longleftrightarrow>
      blocked l (exclBytes s) (sharedBytes s) (owned (waitersExclRangeFLock s))"
    by (rule check_iff [OF wf l])
  show ?thesis
  proof (cases "flockRangeCheckConflicts l s")
    case None
    then have free: "\<not> blocked l (exclBytes s) (sharedBytes s) (owned (waitersExclRangeFLock s))"
      using c by simp
    obtain l1 s2 where gs: "flockRangeShared l s = (l1, s2)" by fastforce
    obtain l2 s3 where ge: "flockRangeExclusive l s = (l2, s3)" by fastforce
    note bs = flockRangeShared_bytes [OF wf l free gs]
    have "exclRangeFLocks s2 = exclRangeFLocks s" "waitersExclRangeFLock s2 = waitersExclRangeFLock s"
      "waitersSharedRangeFLock s2 = waitersSharedRangeFLock s"
      by (subst bs(3), simp)+
    then have "range_no_stuck s2"
      using ns bs(2) by (auto simp: range_no_stuck_def
          intro: excl_waiters_blocked_mono [of s] shared_waiters_blocked_mono [of s])
    moreover have "range_no_stuck s3" if "rl_isExclusive l"
    proof -
      note be = flockRangeExclusive_bytes [OF wf l that free ge]
      have "sharedRangeFLocks s3 = sharedRangeFLocks s"
        "waitersExclRangeFLock s3 = waitersExclRangeFLock s"
        "waitersSharedRangeFLock s3 = waitersSharedRangeFLock s"
        by (subst be(3), simp)+
      then show ?thesis
        using ns be(2) by (auto simp: range_no_stuck_def
            intro: excl_waiters_blocked_mono [of s] shared_waiters_blocked_mono [of s])
    qed
    ultimately show ?thesis
      using None x s1 by (auto simp: flockRangeLockRequest_def Let_def u gs ge rl_lockTypeOk_def)
  next
    case (Some y)
    with c have bl: "blocked l (exclBytes s) (sharedBytes s) (owned (waitersExclRangeFLock s))"
      by simp
    have "range_no_stuck (s\<lparr>waitersSharedRangeFLock := waitersSharedRangeFLock s @ [l],
        waitersLockIDsRangeFLock := ids\<rparr>)" for ids
      using ns bl by (auto simp: range_no_stuck_def excl_waiters_blocked_def
          shared_waiters_blocked_def)
    moreover have "range_no_stuck (s\<lparr>waitersExclRangeFLock := waitersExclRangeFLock s @ [l],
        waitersLockIDsRangeFLock := ids\<rparr>)" (is "range_no_stuck ?s") for ids
    proof -
      have "excl_waiters_blocked ?s (waitersExclRangeFLock s @ [l])"
        unfolding excl_waiters_blocked_snoc
        using ns bl by (auto simp: range_no_stuck_def excl_waiters_blocked_def)
      moreover have "shared_waiters_blocked ?s (waitersSharedRangeFLock s)"
        by (rule shared_waiters_blocked_mono [of s])
          (use ns in \<open>auto simp: range_no_stuck_def owned_def\<close>)
      ultimately show ?thesis by (simp add: range_no_stuck_def)
    qed
    ultimately show ?thesis
      using Some s1 ns by (auto simp: flockRangeLockRequest_def Let_def u)
  qed
qed

lemma rangeUnlocked_state:
  "fst (snd (flockRangeUnlocked l s)) =
     (let retry = \<lambda>t s1. if t then fst (flockRangeTryNextWaiters s1) else s1
      in if rl_isCancel l
         then retry (snd (cancelRangesWhere (rl_equalsHandle l) s))
                    (fst (cancelRangesWhere (rl_equalsHandle l) s))
         else if rl_isUnlock l
         then retry (fst (flockRangeUnlock l s)) (snd (flockRangeUnlock l s))
         else if rl_lockAckID l \<in> waitersLockIDsRangeFLock s \<or> flockRangeIsGranted l s then s
         else retry (fst (snd (flockRangeLockRequest l s))) (snd (snd (flockRangeLockRequest l s))))"
  by (simp add: flockRangeUnlocked_def flockRangeCancelByHandle_def Let_def split: prod.split)

lemma range_retry_inv:
  "range_wf s1 \<Longrightarrow> (\<not> t \<Longrightarrow> range_no_stuck s1) \<Longrightarrow>
     range_inv (if t then fst (flockRangeTryNextWaiters s1) else s1)"
  using tryNextRange_spec(1) [of s1] by (simp add: range_inv_def)

lemma rangeUnlocked_inv:
  assumes inv: "range_inv s" and l: "rl_bounded l"
    and x: "\<not> rl_isCancel l \<and> \<not> rl_isUnlock l \<longrightarrow> rl_lockTypeOk l"
  shows "range_inv (fst (snd (flockRangeUnlocked l s)))"
proof -
  have wf: "range_wf s" and ns: "range_no_stuck s" using inv by (simp_all add: range_inv_def)
  obtain t s1 where u: "flockRangeUnlock l s = (t, s1)" by fastforce
  have cancel: "range_inv (if t then fst (flockRangeTryNextWaiters s1) else s1)"
    if "t = snd (cancelRangesWhere (rl_equalsHandle l) s)"
      "s1 = fst (cancelRangesWhere (rl_equalsHandle l) s)" for t s1
    by (rule range_retry_inv)
      (use that cancel_ranges_wf [OF wf] cancel_ranges_nothing [of "rl_equalsHandle l" s] ns in auto)
  have unlock: "range_inv (if t then fst (flockRangeTryNextWaiters s1) else s1)"
    using rangeUnlock_wf [OF wf l u] rangeUnlock_bytes(9) [OF wf l u] ns
    by (intro range_retry_inv) auto
  have request: "range_inv (if t then fst (flockRangeTryNextWaiters s1) else s1)"
    if "rl_lockTypeOk l" "rl_lockAckID l \<notin> waitersLockIDsRangeFLock s"
      "t = fst (snd (flockRangeLockRequest l s))" "s1 = snd (snd (flockRangeLockRequest l s))" for t s1
    by (rule range_retry_inv)
      (use that rangeLockRequest_wf [OF wf l] rangeLockRequest_no_stuck [OF inv l] in auto)
  show ?thesis
  proof (cases "rl_isCancel l \<or> rl_isUnlock l")
    case True
    with cancel [OF refl refl] unlock show ?thesis
      unfolding rangeUnlocked_state Let_def
      by (cases "rl_isCancel l") (simp_all add: u split: if_splits)
  next
    case False
    with x inv request [OF _ _ refl refl] show ?thesis
      unfolding rangeUnlocked_state Let_def
      by (cases "rl_lockAckID l \<in> waitersLockIDsRangeFLock s \<or> flockRangeIsGranted l s") simp_all
  qed
qed

section \<open>The range locks as a system\<close>

datatype RangeOp =
    RangeRequest RangeLockDetails
  | RangeCancelAllWaiters
  | RangeCancelByClientID string

fun range_step :: "RangeOp \<Rightarrow> RangeLocks \<Rightarrow> RangeLocks" where
  "range_step (RangeRequest l) s = fst (snd (flockRange l s))"
| "range_step RangeCancelAllWaiters s = flockRangeCancelAllWaiters s"
| "range_step (RangeCancelByClientID cid) s = fst (flockRangeCancelByClientID cid s)"

fun range_op_ok :: "RangeOp \<Rightarrow> bool" where
  "range_op_ok (RangeRequest l) =
     (rl_bounded l \<and> (\<not> rl_isCancel l \<and> \<not> rl_isUnlock l \<longrightarrow> rl_lockTypeOk l))"
| "range_op_ok op = True"

definition no_range_locks :: RangeLocks where
  "no_range_locks =
     \<lparr>exclRangeFLocks = [], sharedRangeFLocks = [], waitersExclRangeFLock = [],
      waitersSharedRangeFLock = [], waitersLockIDsRangeFLock = {}\<rparr>"

lemma no_range_locks_inv: "range_inv no_range_locks"
  by (simp add: range_inv_def range_wf_def range_no_stuck_def excl_waiters_blocked_def
      shared_waiters_blocked_def no_range_locks_def lock_set_def owned_def)

interpretation range_sys: invariant_system range_step range_op_ok range_inv
proof
  fix s op
  assume inv: "range_inv s" and ok: "range_op_ok op"
  then have wf: "range_wf s" by (simp add: range_inv_def)
  show "range_inv (range_step op s)"
  proof (cases op)
    case (RangeRequest l)
    with inv ok show ?thesis by (simp add: flockRange_def rangeUnlocked_inv)
  next
    case RangeCancelAllWaiters
    with inv show ?thesis
      by (simp add: flockRangeCancelAllWaiters_def range_inv_def range_wf_def range_no_stuck_def
          excl_waiters_blocked_def shared_waiters_blocked_def)
  next
    case (RangeCancelByClientID cid)
    have "fst (flockRangeCancelByClientID cid s) =
        (if snd (cancelRangesWhere (\<lambda>m. rl_clientID m = cid) s)
         then fst (flockRangeTryNextWaiters (fst (cancelRangesWhere (\<lambda>m. rl_clientID m = cid) s)))
         else fst (cancelRangesWhere (\<lambda>m. rl_clientID m = cid) s))"
      by (simp add: flockRangeCancelByClientID_def split: prod.split)
    moreover have "range_inv \<dots>"
      by (rule range_retry_inv [OF cancel_ranges_wf [OF wf]])
        (use inv cancel_ranges_nothing [of "\<lambda>m. rl_clientID m = cid" s] in
          \<open>simp add: range_inv_def\<close>)
    ultimately show ?thesis using RangeCancelByClientID by simp
  qed
qed

section \<open>Properties of range locks\<close>

definition demo_range :: "string \<Rightarrow> string \<Rightarrow> i32 \<Rightarrow> u64 \<Rightarrow> u64 \<Rightarrow> RangeLockDetails" where
  "demo_range cid ack flags s e =
     \<lparr>rl_clientID = cid, rl_ownerPID = 1, rl_lockAckID = ack, rl_lockTypeFlags = flags,
      rl_start = s, rl_end = e\<rparr>"

lemmas range_eval =
  demo_range_def rl_bounded_def rl_wf_def rl_isCancel_def rl_isUnlock_def rl_lockTypeOk_def
  rl_isExclusive_def rl_isShared_def rl_allowsWaiting_def has_flag_def lock_flag_defs
  flockRange_def flockRangeUnlocked_def flockRangeLockRequest_def flockRangeCheckConflicts_def
  flockRangeCheckConflictsEx_def conflictsWith_def rl_overlaps_def rl_equalsHandle_def
  flockRangeIsGranted_def rl_overlapsEx_def flockRangeUnlock_def flockRangeExclusive_def
  flockRangeShared_def flockRangeTryNextWaiters_def rl_lessExcl_def rl_lessShared_def
  rl_isMergeable_def rl_merge_def rl_trim_def rl_split_def no_range_locks_def

text \<open>
  C7: In every state that requests can reach from the unlocked file, no byte that one process
  has locked exclusively is locked, exclusively or shared, by another process.
\<close>

theorem range_mutual_exclusion:
  assumes "list_all range_op_ok ops" "s = run range_step ops no_range_locks" "h \<noteq> k"
  shows "exclBytes s h \<inter> (exclBytes s k \<union> sharedBytes s k) = {}"
proof -
  have wf: "range_wf s"
    using range_sys.run_inv [OF no_range_locks_inv assms(1)] by (simp add: assms(2) range_inv_def)
  have "exclBytes s h \<inter> exclBytes s k = {}"
  proof (rule ccontr)
    assume "exclBytes s h \<inter> exclBytes s k \<noteq> {}"
    then obtain x y b where "x \<in> set (exclRangeFLocks s)" "y \<in> set (exclRangeFLocks s)"
      "rl_handle x = h" "rl_handle y = k" "b \<in> bytes x" "b \<in> bytes y"
      by (auto simp: owned_def)
    moreover have "bytes x \<inter> bytes y = {}"
      if "x \<in> set (exclRangeFLocks s)" "y \<in> set (exclRangeFLocks s)" "x \<noteq> y" for x y
    proof -
      have "lock_set rl_lessExcl anyLock (exclRangeFLocks s)" using wf by (simp add: range_wf_def)
      with that show ?thesis by (simp add: lock_set_def anyLock_def)
    qed
    ultimately show False using assms(3) by blast
  qed
  moreover have "exclBytes s h \<inter> sharedBytes s k = {}"
    using wf assms(3) unfolding range_wf_def by blast
  ultimately show ?thesis by blast
qed

theorem range_mutual_exclusion_witness:
  "exclBytes (run range_step
      [RangeRequest (demo_range ''a'' ''k1'' ENTRYLOCKTYPE_EXCLUSIVE 0 9),
       RangeRequest (demo_range ''b'' ''k2'' ENTRYLOCKTYPE_SHARED 5 20)] no_range_locks) (1, ''a'') \<inter>
   (exclBytes (run range_step
      [RangeRequest (demo_range ''a'' ''k1'' ENTRYLOCKTYPE_EXCLUSIVE 0 9),
       RangeRequest (demo_range ''b'' ''k2'' ENTRYLOCKTYPE_SHARED 5 20)] no_range_locks) (1, ''b'') \<union>
    sharedBytes (run range_step
      [RangeRequest (demo_range ''a'' ''k1'' ENTRYLOCKTYPE_EXCLUSIVE 0 9),
       RangeRequest (demo_range ''b'' ''k2'' ENTRYLOCKTYPE_SHARED 5 20)] no_range_locks) (1, ''b'')) = {}"
  by (rule range_mutual_exclusion [OF _ refl]) (simp_all add: range_eval)

text \<open>
  C8: In every reachable state, every queued request has a reason to wait: a queued writer
  conflicts with a granted lock or with a writer in front of it in the queue, a queued reader
  with a granted exclusive lock or a queued writer. No wake-up is lost.
\<close>

theorem range_no_lost_wakeup:
  assumes "list_all range_op_ok ops" "s = run range_step ops no_range_locks"
  shows "(\<forall>i < length (waitersExclRangeFLock s).
            flockRangeCheckConflictsEx (waitersExclRangeFLock s ! i) (int i) s \<noteq> None) \<and>
    (\<forall>w \<in> set (waitersSharedRangeFLock s). flockRangeGetConflictor w s \<noteq> None)"
proof -
  have inv: "range_inv s"
    using range_sys.run_inv [OF no_range_locks_inv assms(1)] by (simp add: assms(2))
  then have wf: "range_wf s" by (simp add: range_inv_def)
  have b: "rl_bounded w"
    if "w \<in> set (waitersExclRangeFLock s) \<union> set (waitersSharedRangeFLock s)" for w
    using wf that unfolding range_wf_def by blast
  have "flockRangeCheckConflictsEx (waitersExclRangeFLock s ! i) (int i) s \<noteq> None"
    if "i < length (waitersExclRangeFLock s)" for i
    using inv that checkEx_iff [OF wf b, of "waitersExclRangeFLock s ! i" "int i"]
    by (simp add: range_inv_def range_no_stuck_def excl_waiters_blocked_def)
  moreover have "flockRangeGetConflictor w s \<noteq> None" if "w \<in> set (waitersSharedRangeFLock s)" for w
    using inv that check_iff [OF wf b, of w]
    by (simp add: range_inv_def range_no_stuck_def shared_waiters_blocked_def
        flockRangeGetConflictor_def)
  ultimately show ?thesis by blast
qed

theorem range_no_lost_wakeup_witness:
  "flockRangeGetConflictor (demo_range ''b'' ''k2'' ENTRYLOCKTYPE_SHARED 5 20)
     (run range_step
       [RangeRequest (demo_range ''a'' ''k1'' ENTRYLOCKTYPE_EXCLUSIVE 0 9),
        RangeRequest (demo_range ''b'' ''k2'' ENTRYLOCKTYPE_SHARED 5 20)] no_range_locks) \<noteq> None"
  using range_no_lost_wakeup
    [of "[RangeRequest (demo_range ''a'' ''k1'' ENTRYLOCKTYPE_EXCLUSIVE 0 9),
          RangeRequest (demo_range ''b'' ''k2'' ENTRYLOCKTYPE_SHARED 5 20)]", OF _ refl]
  by (simp add: range_eval)

lemma rangeIsGranted_iff:
  assumes wf: "range_wf s" and l: "rl_bounded l" and x: "rl_lockTypeOk l"
  shows "flockRangeIsGranted l s \<longleftrightarrow>
    bytes l \<subseteq> (if rl_isExclusive l then exclBytes s else sharedBytes s) (rl_handle l)"
proof -
  have E: "lock_set rl_lessExcl anyLock (exclRangeFLocks s)"
    and S: "lock_set rl_lessShared sameHandle (sharedRangeFLocks s)"
    using wf by (simp_all add: range_wf_def)
  have "sorted_wrt rl_lessExcl (exclRangeFLocks s)" using E by (simp add: lock_set_def)
  note e = excl_set.grantedLoop_bytes [OF E subset_refl l _ behind_no_overlap excl_guard_sorted [OF this]]
  have t: "sorted_wrt (\<lambda>x y. True \<longrightarrow> True) xs" for xs :: "RangeLockDetails list"
    by (induction xs) auto
  note h = shared_set.grantedLoop_bytes [OF S subset_refl l _ _ t]
  show ?thesis using x e h by (auto simp: flockRangeIsGranted_def rl_lockTypeOk_def)
qed

text \<open>
  C9: What unlocking removes. The unlocked bytes of the calling process are gone from its
  exclusive locks; they are gone from its shared locks too, except when the process holds the whole
  range exclusively: then its shared locks stay as they are (the method returns from the loop over
  the exclusive locks). Every other byte and every other process keeps its locks, and the
  method reports whether the process held a byte of the range.
\<close>

theorem range_unlock_exact:
  assumes "range_inv s" "rl_bounded l" and "flockRangeUnlock l s = (removed, s')"
  shows "exclBytes s' h = exclBytes s h - (if h = rl_handle l then bytes l else {}) \<and>
    sharedBytes s' h = sharedBytes s h -
      (if h = rl_handle l \<and> \<not> bytes l \<subseteq> exclBytes s (rl_handle l) then bytes l else {}) \<and>
    (removed \<longleftrightarrow> (exclBytes s (rl_handle l) \<union> sharedBytes s (rl_handle l)) \<inter> bytes l \<noteq> {})"
proof -
  have wf: "range_wf s" using assms(1) by (simp add: range_inv_def)
  note b = rangeUnlock_bytes [OF wf assms(2,3)]
  show ?thesis using b(3) [of h] b(5) [of h] b(10) by blast
qed

lemma demo_range_inv:
  "range_inv (snd (flockRangeExclusive (demo_range ''a'' ''k1'' ENTRYLOCKTYPE_EXCLUSIVE 0 9)
     no_range_locks))"
proof -
  have "range_wf (snd (flockRangeExclusive (demo_range ''a'' ''k1'' ENTRYLOCKTYPE_EXCLUSIVE 0 9)
     no_range_locks))"
    using no_range_locks_inv
    by (intro granted_wf(2)) (auto simp: range_inv_def blocked_iff owned_def range_eval)
  then show ?thesis
    by (simp add: range_inv_def range_no_stuck_def excl_waiters_blocked_def
        shared_waiters_blocked_def range_eval)
qed

theorem range_unlock_exact_witness:
  "exclBytes (snd (flockRangeUnlock (demo_range ''a'' ''k2'' ENTRYLOCKTYPE_UNLOCK 3 4)
     (snd (flockRangeExclusive (demo_range ''a'' ''k1'' ENTRYLOCKTYPE_EXCLUSIVE 0 9)
        no_range_locks)))) (1, ''a'') = {0..9} - {3..4}"
proof -
  let ?s = "snd (flockRangeExclusive (demo_range ''a'' ''k1'' ENTRYLOCKTYPE_EXCLUSIVE 0 9)
     no_range_locks)"
  let ?l = "demo_range ''a'' ''k2'' ENTRYLOCKTYPE_UNLOCK 3 4"
  have s: "exclBytes ?s (1, ''a'') = {0..9}" "sharedBytes ?s (1, ''a'') = {}"
    by (auto simp: range_eval owned_def rl_handle_def bytes_def)
  have l: "rl_handle ?l = (1, ''a'')" "bytes ?l = {3..4}" "rl_bounded ?l"
    by (auto simp: rl_handle_def bytes_def range_eval)
  show ?thesis
    using range_unlock_exact [OF demo_range_inv l(3), of "fst (flockRangeUnlock ?l ?s)"
        "snd (flockRangeUnlock ?l ?s)" "(1, ''a'')"] s l
    by simp
qed

text \<open>
  C10: The outcome of a new lock request: it is granted exactly if the process owns all its
  bytes in that mode already or no other process owns or (as a writer) waits for a conflicting
  byte; a granted request owns all its bytes afterwards; a request that may not wait changes
  nothing when it is refused.
\<close>

theorem range_request_outcome:
  assumes inv: "range_inv s" and l: "rl_bounded l" "rl_lockTypeOk l"
    and req: "\<not> rl_isCancel l" "\<not> rl_isUnlock l" "rl_lockAckID l \<notin> waitersLockIDsRangeFLock s"
    and call: "flockRange l s = (granted, s', notified)"
  shows "(granted \<longleftrightarrow>
      bytes l \<subseteq> (if rl_isExclusive l then exclBytes s else sharedBytes s) (rl_handle l) \<or>
      \<not> blocked l (exclBytes s) (sharedBytes s) (owned (waitersExclRangeFLock s))) \<and>
    (granted \<longrightarrow>
      bytes l \<subseteq> (if rl_isExclusive l then exclBytes s' else sharedBytes s') (rl_handle l)) \<and>
    (\<not> granted \<and> \<not> rl_allowsWaiting l \<longrightarrow> s' = s \<and> notified = [])"
proof -
  have wf: "range_wf s" using inv by (simp add: range_inv_def)
  note g = rangeIsGranted_iff [OF wf l]
  show ?thesis
  proof (cases "flockRangeIsGranted l s")
    case True
    with call req g show ?thesis by (auto simp: flockRange_def flockRangeUnlocked_def)
  next
    case new: False
    note c = check_iff [OF wf l(1)]
    obtain t s1 where u: "flockRangeUnlock l s = (t, s1)" by fastforce
    note wf1 = rangeUnlock_wf [OF wf l(1) u] and b = rangeUnlock_bytes [OF wf l(1) u]
    show ?thesis
    proof (cases "flockRangeCheckConflicts l s")
      case (Some x)
      have blk: "blocked l (exclBytes s) (sharedBytes s) (owned (waitersExclRangeFLock s))"
        using c Some by simp
      have r: "\<not> granted" "\<not> rl_allowsWaiting l \<longrightarrow> s' = s \<and> notified = []"
        using call new req Some
        by (auto simp: flockRange_def flockRangeUnlocked_def flockRangeLockRequest_def Let_def
            split: if_splits prod.splits)
      from blk r g new show ?thesis by simp
    next
      case None
      have free0: "\<not> blocked l (exclBytes s) (sharedBytes s) (owned (waitersExclRangeFLock s))"
        using None c by simp
      then have free: "\<not> blocked l (exclBytes s1) (sharedBytes s1) (owned (waitersExclRangeFLock s))"
        using b(3,4) blocked_mono [of l "exclBytes s1" "sharedBytes s1"
          "owned (waitersExclRangeFLock s)" "exclBytes s" "sharedBytes s"] by auto
      obtain l1 s2 where gs: "flockRangeShared l s1 = (l1, s2)" by fastforce
      obtain l2 s3 where ge: "flockRangeExclusive l s1 = (l2, s3)" by fastforce
      have sh: "bytes l \<subseteq> sharedBytes s2 (rl_handle l)" "range_wf s2"
        using flockRangeShared_bytes(2) [OF wf1 l(1) free gs, of "rl_handle l"]
          granted_wf(1) [OF wf1 l(1) free] by (auto simp: gs)
      have ex: "bytes l \<subseteq> exclBytes s3 (rl_handle l)" "range_wf s3" if "rl_isExclusive l"
        using flockRangeExclusive_bytes(2) [OF wf1 l(1) that free ge, of "rl_handle l"]
          granted_wf(2) [OF wf1 l(1) free that] by (auto simp: ge)
      have res: "granted" "s' = (if t then fst (flockRangeTryNextWaiters
           (if rl_isShared l then s2 else s3)) else (if rl_isShared l then s2 else s3))"
        using call new req None
        by (auto simp: flockRange_def flockRangeUnlocked_def flockRangeLockRequest_def Let_def
            u gs ge split: if_splits)
      have "bytes l \<subseteq> (if rl_isExclusive l then exclBytes s' else sharedBytes s') (rl_handle l)"
        using sh ex l(2) res(2) tryNextRange_spec(2) [of s3 "rl_handle l"]
          tryNextRange_spec(3) [of s2 "rl_handle l"]
        by (cases "rl_isShared l") (auto simp: rl_lockTypeOk_def)
      with free0 res show ?thesis by simp
    qed
  qed
qed

theorem range_request_outcome_witness:
  "{3..4} \<subseteq> exclBytes (fst (snd (flockRange (demo_range ''b'' ''k1'' ENTRYLOCKTYPE_EXCLUSIVE 3 4)
     no_range_locks))) (1, ''b'')"
proof -
  let ?l = "demo_range ''b'' ''k1'' ENTRYLOCKTYPE_EXCLUSIVE 3 4"
  have l: "rl_handle ?l = (1, ''b'')" "bytes ?l = {3..4}" "rl_isExclusive ?l"
    by (auto simp: rl_handle_def bytes_def range_eval)
  show ?thesis
    using range_request_outcome [OF no_range_locks_inv, of ?l "fst (flockRange ?l no_range_locks)"
        "fst (snd (flockRange ?l no_range_locks))" "snd (snd (flockRange ?l no_range_locks))"] l
    by (simp add: range_eval)
qed

text \<open>
  C11: A cancel request (sent when a client closes the file) succeeds and leaves the process
  with no byte locked in either mode and with no queued request; the bytes of the other
  processes stay locked.
\<close>

theorem range_cancel_releases:
  assumes inv: "range_inv s" and l: "rl_isCancel l"
    and call: "flockRange l s = (granted, s', notified)"
  shows "granted \<and> exclBytes s' (rl_handle l) = {} \<and> sharedBytes s' (rl_handle l) = {} \<and>
    (\<forall>w \<in> set (waitersExclRangeFLock s') \<union> set (waitersSharedRangeFLock s').
       rl_handle w \<noteq> rl_handle l) \<and>
    (\<forall>h. h \<noteq> rl_handle l \<longrightarrow>
       exclBytes s h \<subseteq> exclBytes s' h \<and> sharedBytes s h \<subseteq> sharedBytes s' h)"
proof -
  let ?P = "rl_equalsHandle l"
  let ?s1 = "fst (cancelRangesWhere ?P s)"
  have wf: "range_wf ?s1" using inv by (simp add: range_inv_def cancel_ranges_wf)
  have s': "s' = ?s1 \<or> s' = fst (flockRangeTryNextWaiters ?s1)" and granted
    using call l
    by (auto simp: flockRange_def flockRangeUnlocked_def flockRangeCancelByHandle_def
        split: prod.splits if_splits)
  have own: "exclBytes ?s1 (rl_handle l) = {}" "sharedBytes ?s1 (rl_handle l) = {}"
    "owned (waitersExclRangeFLock ?s1) (rl_handle l) = {}"
    "owned (waitersSharedRangeFLock ?s1) (rl_handle l) = {}"
    by (auto simp: cancel_ranges_result owned_def equalsHandle_iff)
  have q: "rl_handle w \<noteq> rl_handle l"
    if "w \<in> set (waitersExclRangeFLock ?s1) \<union> set (waitersSharedRangeFLock ?s1)" for w
    using that by (auto simp: cancel_ranges_result equalsHandle_iff)
  have keep: "exclBytes s h \<subseteq> exclBytes ?s1 h" "sharedBytes s h \<subseteq> sharedBytes ?s1 h"
    if "h \<noteq> rl_handle l" for h
    using that by (auto simp: cancel_ranges_result owned_def equalsHandle_iff)
  note t = tryNextRange_spec(2-7) [OF wf]
  from s' show ?thesis
  proof
    assume "s' = ?s1"
    with own q keep \<open>granted\<close> show ?thesis by blast
  next
    assume e: "s' = fst (flockRangeTryNextWaiters ?s1)"
    have "exclBytes s' (rl_handle l) = {}" "sharedBytes s' (rl_handle l) = {}"
      using own t(3,4) [of "rl_handle l"] by (auto simp: e)
    moreover have "exclBytes s h \<subseteq> exclBytes s' h \<and> sharedBytes s h \<subseteq> sharedBytes s' h"
      if "h \<noteq> rl_handle l" for h
      using keep [OF that] t(1,2) [of h] unfolding e by blast
    moreover have "\<forall>w \<in> set (waitersExclRangeFLock s') \<union> set (waitersSharedRangeFLock s').
        rl_handle w \<noteq> rl_handle l"
      using q t(5,6) unfolding e by blast
    ultimately show ?thesis using \<open>granted\<close> by blast
  qed
qed

theorem range_cancel_releases_witness:
  "exclBytes (fst (snd (flockRange (demo_range ''a'' ''k2'' ENTRYLOCKTYPE_CANCEL 0 0)
     (snd (flockRangeExclusive (demo_range ''a'' ''k1'' ENTRYLOCKTYPE_EXCLUSIVE 0 9)
       no_range_locks))))) (1, ''a'') = {}"
proof -
  let ?l = "demo_range ''a'' ''k2'' ENTRYLOCKTYPE_CANCEL 0 0"
  let ?s = "snd (flockRangeExclusive (demo_range ''a'' ''k1'' ENTRYLOCKTYPE_EXCLUSIVE 0 9)
     no_range_locks)"
  have "rl_isCancel ?l" "rl_handle ?l = (1, ''a'')" by (simp_all add: range_eval rl_handle_def)
  then show ?thesis
    using range_cancel_releases [OF demo_range_inv, of ?l "fst (flockRange ?l ?s)"
        "fst (snd (flockRange ?l ?s))" "snd (snd (flockRange ?l ?s))"] by simp
qed

text \<open>
  An unlock can leave locks behind. Process a waits to lock bytes 0-10 exclusively (b
  shares byte 5); meanwhile a is granted a shared lock on 0-3, since a process does not
  conflict with its own queued request. After b has unlocked, a holds 0-10 exclusively and
  0-3 shared; when a then unlocks 0-10, \<open>flockRangeUnlock\<close> returns from the loop over the
  exclusive locks, a still holds its shared lock, and a writer of another process is refused.
\<close>

theorem range_unlock_leaves_shared_lock:
  "(let s = run range_step
       [RangeRequest (demo_range ''b'' ''k1'' ENTRYLOCKTYPE_SHARED 5 5),
        RangeRequest (demo_range ''a'' ''k2'' ENTRYLOCKTYPE_EXCLUSIVE 0 10),
        RangeRequest (demo_range ''a'' ''k3'' ENTRYLOCKTYPE_SHARED 0 3),
        RangeRequest (demo_range ''b'' ''k4'' ENTRYLOCKTYPE_UNLOCK 5 5),
        RangeRequest (demo_range ''a'' ''k5'' ENTRYLOCKTYPE_UNLOCK 0 10)] no_range_locks
    in exclRangeFLocks s = [] \<and>
       sharedRangeFLocks s = [demo_range ''a'' ''k3'' ENTRYLOCKTYPE_SHARED 0 3] \<and>
       \<not> fst (flockRange (demo_range ''c'' ''k6'' (ENTRYLOCKTYPE_EXCLUSIVE OR ENTRYLOCKTYPE_NOWAIT) 0 0) s))"
  by (simp add: range_eval Let_def)

end
