(* ===== verification/Serial.thy ===== *)
theory Serial
  imports Prelude
begin

text \<open>
  The wire format (\<open>Serialization.h\<close>, \<open>SerializeStr.cpp\<close>, \<open>SerializeUInt16.cpp\<close> of
  fhgfs_common): integers are little endian, strings carry their length and a terminating
  zero, lists a total length and an element count.

  A \<open>serialize...\<close> method is a function to the bytes it writes. A \<open>deserialize...\<close> method
  gets the memory from its buffer pointer on and the buffer length it is told, which may be
  larger than that memory (\<open>LockingTk\<close> passes the largest value); a read past the end of the
  memory is the outcome \<open>ReadBeyondBuffer\<close>, the return value false is \<open>DecodeFail\<close>. On
  success it returns the value and \<open>outLen\<close>. The state of the padding after an aligned
  string is that of a debug build (zeros); the reader ignores it.

  The locale \<open>codec\<close> is the contract between writer, reader and length method; every format
  of the development is an instance.
\<close>

datatype decode_error = DecodeFail | ReadBeyondBuffer

type_synonym 'a decoder = "u8 list \<Rightarrow> nat \<Rightarrow> decode_error + 'a \<times> nat"

text \<open>The fields of a structure are read one after the other at \<open>&buf[bufPos]\<close>.\<close>

definition dbind :: "'a decoder \<Rightarrow> ('a \<Rightarrow> 'b decoder) \<Rightarrow> 'b decoder" where
  "dbind d f buf bufLen =
     (case d buf bufLen of
        Inl e \<Rightarrow> Inl e
      | Inr (x, k) \<Rightarrow>
          (case f x (drop k buf) (bufLen - k) of
             Inl e \<Rightarrow> Inl e
           | Inr (y, m) \<Rightarrow> Inr (y, k + m)))"

definition dreturn :: "'a \<Rightarrow> 'a decoder" where
  "dreturn x buf bufLen = Inr (x, 0)"

section \<open>Integers\<close>

fun le_encode :: "nat \<Rightarrow> 'a::len word \<Rightarrow> u8 list" where
  "le_encode 0 w = []"
| "le_encode (Suc n) w = ucast w # le_encode n (drop_bit 8 w)"

fun le_decode :: "u8 list \<Rightarrow> 'a::len word" where
  "le_decode [] = 0"
| "le_decode (b # bs) = ucast b OR push_bit 8 (le_decode bs)"

definition read_le :: "nat \<Rightarrow> ('a::len word) decoder" where
  "read_le n buf bufLen =
     (if bufLen < n then Inl DecodeFail
      else if length buf < n then Inl ReadBeyondBuffer
      else Inr (le_decode (take n buf), n))"

definition serializeUInt :: "u32 \<Rightarrow> u8 list" where "serializeUInt v = le_encode 4 v"
definition deserializeUInt :: "u32 decoder" where "deserializeUInt = read_le 4"
definition serialLenUInt :: u32 where "serialLenUInt = 4"

definition serializeUInt64 :: "u64 \<Rightarrow> u8 list" where "serializeUInt64 v = le_encode 8 v"
definition deserializeUInt64 :: "u64 decoder" where "deserializeUInt64 = read_le 8"
definition serialLenUInt64 :: u32 where "serialLenUInt64 = 8"

definition serializeUInt16 :: "u16 \<Rightarrow> u8 list" where "serializeUInt16 v = le_encode 2 v"
definition deserializeUInt16 :: "u16 decoder" where "deserializeUInt16 = read_le 2"
definition serialLenUInt16 :: u32 where "serialLenUInt16 = 2"

definition serializeInt :: "i32 \<Rightarrow> u8 list" where "serializeInt v = serializeUInt v"
definition deserializeInt :: "i32 decoder" where "deserializeInt = deserializeUInt"
definition serialLenInt :: u32 where "serialLenInt = serialLenUInt"

definition serializeInt64 :: "i64 \<Rightarrow> u8 list" where "serializeInt64 v = serializeUInt64 v"
definition deserializeInt64 :: "i64 decoder" where "deserializeInt64 = deserializeUInt64"
definition serialLenInt64 :: u32 where "serialLenInt64 = serialLenUInt64"

definition serializeChar :: "u8 \<Rightarrow> u8 list" where "serializeChar v = [v]"

definition deserializeChar :: "u8 decoder" where
  "deserializeChar buf bufLen =
     (if bufLen < 1 then Inl DecodeFail
      else case buf of [] \<Rightarrow> Inl ReadBeyondBuffer | c # _ \<Rightarrow> Inr (c, 1))"

definition serialLenChar :: u32 where "serialLenChar = 1"

definition serializeUInt8 :: "u8 \<Rightarrow> u8 list" where "serializeUInt8 v = serializeChar v"
definition deserializeUInt8 :: "u8 decoder" where "deserializeUInt8 = deserializeChar"
definition serialLenUInt8 :: u32 where "serialLenUInt8 = serialLenChar"

definition serializeUShort :: "u16 \<Rightarrow> u8 list" where "serializeUShort v = serializeUInt16 v"
definition deserializeUShort :: "u16 decoder" where "deserializeUShort = deserializeUInt16"
definition serialLenUShort :: u32 where "serialLenUShort = serialLenUInt16"

definition serializeBool :: "bool \<Rightarrow> u8 list" where
  "serializeBool v = serializeChar (if v then 1 else 0)"

definition deserializeBool :: "bool decoder" where
  "deserializeBool = dbind deserializeChar (\<lambda>c. dreturn (c \<noteq> 0))"

definition serialLenBool :: u32 where "serialLenBool = serialLenChar"

section \<open>Strings\<close>

definition byte_of_char :: "char \<Rightarrow> u8" where
  "byte_of_char c = word_of_nat (of_char c)"

definition char_of_byte :: "u8 \<Rightarrow> char" where
  "char_of_byte b = char_of (unat b)"

definition serialLenStr :: "u32 \<Rightarrow> u32" where
  "serialLenStr strLen = serialLenUInt + strLen + 1"

definition serialLenStrAlign4 :: "u32 \<Rightarrow> u32" where
  "serialLenStrAlign4 strLen =
     (let rawLen = serialLenUInt + strLen + 1;
          remainder = rawLen mod 4
      in if remainder \<noteq> 0 then rawLen + 4 - remainder else rawLen)"

definition serializeStr :: "string \<Rightarrow> u8 list" where
  "serializeStr s =
     (let strLen = (word_of_nat (length s) :: u32)
      in serializeUInt strLen @ map byte_of_char (take (unat strLen) s) @ [0])"

definition serializeStrAlign4 :: "string \<Rightarrow> u8 list" where
  "serializeStrAlign4 s =
     (let strLen = (word_of_nat (length s) :: u32);
          raw = serializeUInt strLen @ map byte_of_char (take (unat strLen) s) @ [0];
          zeroLen = serialLenStrAlign4 strLen - word_of_nat (length raw)
      in raw @ replicate (unat zeroLen) 0)"

text \<open>
  The common part of the two string readers; \<open>lenOf\<close> is \<open>serialLenStr\<close> or
  \<open>serialLenStrAlign4\<close>. The terminating zero is looked up at the position that the length
  field gives, after the (32-bit) serial length was compared with the buffer length.
\<close>

definition deserializeStrWith :: "(u32 \<Rightarrow> u32) \<Rightarrow> string decoder" where
  "deserializeStrWith lenOf buf bufLen =
     (if bufLen < unat (lenOf 0) then Inl DecodeFail
      else case deserializeUInt buf bufLen of
        Inl e \<Rightarrow> Inl e
      | Inr (strLen, pos) \<Rightarrow>
          (let outLen = lenOf strLen; str = drop pos buf
           in if bufLen < unat outLen then Inl DecodeFail
              else if length str \<le> unat strLen then Inl ReadBeyondBuffer
              else if str ! unat strLen \<noteq> 0 then Inl DecodeFail
              else Inr (map char_of_byte (take (unat strLen) str), unat outLen)))"

definition deserializeStr :: "string decoder" where
  "deserializeStr = deserializeStrWith serialLenStr"

definition deserializeStrAlign4 :: "string decoder" where
  "deserializeStrAlign4 = deserializeStrWith serialLenStrAlign4"

section \<open>The contract\<close>

locale codec =
  fixes ser :: "'a \<Rightarrow> u8 list" and deser :: "'a decoder" and len :: "'a \<Rightarrow> u32"
    and ok :: "'a \<Rightarrow> bool"
  assumes ser_len: "ok x \<Longrightarrow> length (ser x) = unat (len x)"
    and round_trip: "ok x \<Longrightarrow> unat (len x) \<le> n \<Longrightarrow> deser (ser x @ rest) n = Inr (x, unat (len x))"
    and too_short: "ok x \<Longrightarrow> n < unat (len x) \<Longrightarrow> deser (ser x @ rest) n = Inl DecodeFail"
begin

lemma then_read:
  "ok x \<Longrightarrow> unat (len x) \<le> n \<Longrightarrow>
     dbind deser f (ser x @ rest) n =
       (case f x rest (n - unat (len x)) of Inl e \<Rightarrow> Inl e | Inr (y, m) \<Rightarrow> Inr (y, unat (len x) + m))"
  by (simp add: dbind_def round_trip ser_len)

lemma bind_short:
  assumes "ok x" "\<forall>m < k. f x rest m = Inl DecodeFail"
  shows "\<forall>n < unat (len x) + k. dbind deser f (ser x @ rest) n = Inl DecodeFail"
proof (intro allI impI)
  fix n
  assume n: "n < unat (len x) + k"
  show "dbind deser f (ser x @ rest) n = Inl DecodeFail"
  proof (cases "n < unat (len x)")
    case True
    with assms(1) show ?thesis by (simp add: dbind_def too_short)
  next
    case False
    with n have "n - unat (len x) < k" by linarith
    with assms False show ?thesis by (simp add: dbind_def round_trip ser_len)
  qed
qed

lemma then_read_short:
  "ok x \<Longrightarrow> n < unat (len x) \<Longrightarrow> dbind deser f (ser x @ rest) n = Inl DecodeFail"
  by (simp add: dbind_def too_short)

end

text \<open>
  A structure is a codec when its reader reads the fields that its writer writes, in the same
  order: \<open>reads d x bs m\<close> is the contract for one value, and the rules below follow the
  structure of the reader.
\<close>

definition reads :: "'a decoder \<Rightarrow> 'a \<Rightarrow> u8 list \<Rightarrow> nat \<Rightarrow> bool" where
  "reads d x bs m \<longleftrightarrow> length bs = m \<and>
     (\<forall>rest n. d (bs @ rest) n = (if n < m then Inl DecodeFail else Inr (x, m)))"

lemma codecI: "(\<And>x. ok x \<Longrightarrow> reads d x (s x) (unat (l x))) \<Longrightarrow> codec s d l ok"
  by unfold_locales (simp_all add: reads_def)

lemma reads_return: "reads (dreturn x) x [] 0"
  by (simp add: reads_def dreturn_def)

lemma reads_len: "reads d x bs m \<Longrightarrow> m = k \<Longrightarrow> reads d x bs k"
  by simp

lemma reads_bind:
  assumes d: "reads d a bs m" and f: "reads (f a) x cs k"
  shows "reads (dbind d f) x (bs @ cs) (m + k)"
  using assms by (auto simp: reads_def dbind_def)

lemma reads_last: "reads d a bs m \<Longrightarrow> g a = x \<Longrightarrow> reads (dbind d (\<lambda>a. dreturn (g a))) x bs m"
  by (auto simp: reads_def dbind_def dreturn_def)

context codec
begin

lemma reads: "ok x \<Longrightarrow> reads deser x (ser x) (unat (len x))"
  by (simp add: reads_def ser_len round_trip too_short)

end

lemma le_encode_length [simp]: "length (le_encode n w) = n"
  by (induction n arbitrary: w) auto

lemma le_decode_encode: "le_decode (le_encode n w) = take_bit (8 * n) w"
proof (induction n arbitrary: w)
  case (Suc n)
  show ?case
    by (rule bit_word_eqI) (auto simp: Suc bit_simps not_le)
qed simp

lemma read_le_round:
  fixes w :: "'a::len word"
  assumes "LENGTH('a) = 8 * n" "n \<le> k"
  shows "read_le n (le_encode n w @ rest) k = Inr (w, n)"
  using assms by (simp add: read_le_def le_decode_encode take_bit_word_eq_self)

interpretation uint: codec serializeUInt deserializeUInt "\<lambda>_. serialLenUInt" "\<lambda>_. True"
  by unfold_locales (simp_all add: serializeUInt_def deserializeUInt_def serialLenUInt_def
      read_le_round, simp add: read_le_def)

interpretation uint64: codec serializeUInt64 deserializeUInt64 "\<lambda>_. serialLenUInt64" "\<lambda>_. True"
  by unfold_locales (simp_all add: serializeUInt64_def deserializeUInt64_def serialLenUInt64_def
      read_le_round, simp add: read_le_def)

interpretation uint16: codec serializeUInt16 deserializeUInt16 "\<lambda>_. serialLenUInt16" "\<lambda>_. True"
  by unfold_locales (simp_all add: serializeUInt16_def deserializeUInt16_def serialLenUInt16_def
      read_le_round, simp add: read_le_def)

interpretation int: codec serializeInt deserializeInt "\<lambda>_. serialLenInt" "\<lambda>_. True"
  by unfold_locales (simp_all add: serializeInt_def deserializeInt_def serialLenInt_def
      uint.ser_len uint.round_trip uint.too_short)

interpretation int64: codec serializeInt64 deserializeInt64 "\<lambda>_. serialLenInt64" "\<lambda>_. True"
  by unfold_locales (simp_all add: serializeInt64_def deserializeInt64_def serialLenInt64_def
      uint64.ser_len uint64.round_trip uint64.too_short)

interpretation char: codec serializeChar deserializeChar "\<lambda>_. serialLenChar" "\<lambda>_. True"
  by unfold_locales (simp_all add: serializeChar_def deserializeChar_def serialLenChar_def)

interpretation uint8: codec serializeUInt8 deserializeUInt8 "\<lambda>_. serialLenUInt8" "\<lambda>_. True"
  by unfold_locales (simp_all add: serializeUInt8_def deserializeUInt8_def serialLenUInt8_def
      char.ser_len char.round_trip char.too_short)

interpretation ushort: codec serializeUShort deserializeUShort "\<lambda>_. serialLenUShort" "\<lambda>_. True"
  by unfold_locales (simp_all add: serializeUShort_def deserializeUShort_def serialLenUShort_def
      uint16.ser_len uint16.round_trip uint16.too_short)

interpretation bool: codec serializeBool deserializeBool "\<lambda>_. serialLenBool" "\<lambda>_. True"
  by unfold_locales (simp_all add: serializeBool_def deserializeBool_def serialLenBool_def
      char.ser_len char.then_read char.then_read_short dreturn_def)

section \<open>Strings keep the contract\<close>

text \<open>Strings whose serial length fits the 32-bit length arithmetic.\<close>

definition str_ok :: "string \<Rightarrow> bool" where
  "str_ok s \<longleftrightarrow> length s < 4294967284"

lemma char_byte [simp]: "char_of_byte (byte_of_char c) = c"
proof -
  have "(of_char c :: nat) < 256" by (rule nat_of_char_less_256)
  then show ?thesis by (simp add: char_of_byte_def byte_of_char_def unat_of_nat)
qed

lemma unat_strlen: "str_ok s \<Longrightarrow> unat (word_of_nat (length s) :: u32) = length s"
  by (simp add: str_ok_def unat_of_nat)

lemma serialLenStr_unat: "str_ok s \<Longrightarrow> unat (serialLenStr (word_of_nat (length s))) = length s + 5"
  by (simp add: serialLenStr_def serialLenUInt_def str_ok_def unat_word_ariths unat_of_nat)

text \<open>The aligned length is the raw length rounded up to a multiple of four.\<close>

definition align4 :: "nat \<Rightarrow> nat" where
  "align4 n = (n + 3) div 4 * 4"

lemma align4_le: "n \<le> align4 n" and align4_less: "align4 n < n + 4"
  using div_mult_mod_eq [of "n + 3" 4] mod_less_divisor [of 4 "n + 3"]
  unfolding align4_def by linarith+

lemma align4_multiple: "align4 (q * 4) = q * 4"
  by (simp add: align4_def)

lemma align4_up: "0 < r \<Longrightarrow> r < 4 \<Longrightarrow> align4 (q * 4 + r) = q * 4 + 4"
proof -
  assume "0 < r" "r < 4"
  then have "r = 1 \<or> r = 2 \<or> r = 3" by linarith
  then have "(q * 4 + r + 3) div 4 = q + 1" by (elim disjE) simp_all
  then show ?thesis by (simp add: align4_def)
qed

lemma serialLenStrAlign4_unat:
  assumes "n < 4294967284"
  shows "unat (serialLenStrAlign4 (word_of_nat n)) = align4 (n + 5)"
proof -
  define raw :: u32 where "raw = 4 + word_of_nat n + 1"
  have raw: "unat raw = n + 5"
    using assms by (simp add: raw_def unat_word_ariths unat_of_nat)
  have r: "unat (raw mod 4) = (n + 5) mod 4" by (simp add: unat_mod raw)
  have e: "serialLenStrAlign4 (word_of_nat n) =
      (if raw mod 4 \<noteq> 0 then raw + 4 - raw mod 4 else raw)"
    unfolding serialLenStrAlign4_def serialLenUInt_def raw_def Let_def by (rule refl)
  show ?thesis
  proof (cases "raw mod 4 = 0")
    case True
    then have "(n + 5) mod 4 = 0" using r by simp
    then have "align4 (n + 5) = n + 5"
      using align4_multiple [of "(n + 5) div 4"] div_mult_mod_eq [of "n + 5" 4] by simp
    with True raw show ?thesis unfolding e by (simp only: simp_thms if_False)
  next
    case False
    then have nz: "(n + 5) mod 4 \<noteq> 0" using r by (metis unat_0 word_unat_eq_iff)
    have "unat (raw + 4 - raw mod 4) = unat (raw + 4) - unat (raw mod 4)"
      using raw r assms by (intro unat_sub) (simp add: word_le_nat_alt unat_word_ariths)
    also have "\<dots> = n + 9 - (n + 5) mod 4" using raw r assms by (simp add: unat_word_ariths)
    also have "\<dots> = align4 (n + 5)"
    proof -
      have "0 < (n + 5) mod 4" "(n + 5) mod 4 < 4" using nz by simp_all
      moreover from this have "align4 (n + 5) = (n + 5) div 4 * 4 + 4"
        using align4_up [of "(n + 5) mod 4" "(n + 5) div 4"] by (simp only: div_mult_mod_eq)
      moreover have "(n + 5) div 4 * 4 + (n + 5) mod 4 = n + 5" by (rule div_mult_mod_eq)
      ultimately show ?thesis by linarith
    qed
    finally show ?thesis using False unfolding e by (simp only: simp_thms if_True)
  qed
qed

lemma deserializeStrWith_round:
  assumes s: "str_ok s" and m: "unat (lenOf (word_of_nat (length s))) = m" "unat (lenOf 0) \<le> m"
    and n: "m \<le> n" and raw: "length s + 5 \<le> m"
  shows "deserializeStrWith lenOf
      (serializeUInt (word_of_nat (length s)) @ map byte_of_char s @ [0] @ rest) n = Inr (s, m)"
proof -
  have r: "deserializeUInt (serializeUInt (word_of_nat (length s)) @ map byte_of_char s @ [0] @ rest) n
      = Inr (word_of_nat (length s), 4)"
    using uint.round_trip [of n "word_of_nat (length s)"] raw n by (simp add: serialLenUInt_def)
  have l: "length (serializeUInt (word_of_nat (length s))) = 4"
    by (simp add: uint.ser_len serialLenUInt_def)
  show ?thesis
    using s m n r l unat_strlen [OF s]
    by (simp add: deserializeStrWith_def Let_def comp_def nth_append)
qed

lemma deserializeStrWith_short:
  assumes s: "str_ok s" and m: "n < unat (lenOf (word_of_nat (length s)))" "5 \<le> unat (lenOf 0)"
  shows "deserializeStrWith lenOf
      (serializeUInt (word_of_nat (length s)) @ map byte_of_char s @ [0] @ rest) n = Inl DecodeFail"
proof (cases "n < unat (lenOf 0)")
  case False
  then have r: "deserializeUInt (serializeUInt (word_of_nat (length s)) @ map byte_of_char s @ [0] @ rest) n
      = Inr (word_of_nat (length s), 4)"
    using uint.round_trip [of n "word_of_nat (length s)"] m by (simp add: serialLenUInt_def)
  with False m show ?thesis by (simp add: deserializeStrWith_def Let_def)
qed (simp add: deserializeStrWith_def)

interpretation str: codec serializeStr deserializeStr "\<lambda>s. serialLenStr (word_of_nat (length s))" str_ok
proof
  fix s rest n
  assume s: "str_ok s"
  have e: "serializeStr s = serializeUInt (word_of_nat (length s)) @ map byte_of_char s @ [0]"
    by (simp add: serializeStr_def unat_strlen [OF s])
  note len = serialLenStr_unat [OF s]
  show "length (serializeStr s) = unat (serialLenStr (word_of_nat (length s)))"
    by (simp add: e len uint.ser_len serialLenUInt_def)
  show "deserializeStr (serializeStr s @ rest) n =
      Inr (s, unat (serialLenStr (word_of_nat (length s))))"
    if "unat (serialLenStr (word_of_nat (length s))) \<le> n"
    using deserializeStrWith_round [where lenOf = serialLenStr, OF s refl _ that] len
      serialLenStr_unat [of "[]"]
    by (simp add: e deserializeStr_def str_ok_def)
  show "deserializeStr (serializeStr s @ rest) n = Inl DecodeFail"
    if "n < unat (serialLenStr (word_of_nat (length s)))"
    using deserializeStrWith_short [where lenOf = serialLenStr, OF s that] serialLenStr_unat [of "[]"]
    by (simp add: e deserializeStr_def str_ok_def)
qed

interpretation str4: codec serializeStrAlign4 deserializeStrAlign4
  "\<lambda>s. serialLenStrAlign4 (word_of_nat (length s))" str_ok
proof
  fix s rest n
  assume s: "str_ok s"
  let ?raw = "serializeUInt (word_of_nat (length s)) @ map byte_of_char s @ [0]"
  let ?pad = "unat (serialLenStrAlign4 (word_of_nat (length s)) - word_of_nat (length ?raw))"
  have e: "serializeStrAlign4 s = ?raw @ replicate ?pad 0"
    by (simp add: serializeStrAlign4_def Let_def unat_strlen [OF s])
  have len: "unat (serialLenStrAlign4 (word_of_nat (length s))) = align4 (length s + 5)"
    using s by (intro serialLenStrAlign4_unat) (simp add: str_ok_def)
  have rl: "length ?raw = length s + 5" by (simp add: uint.ser_len serialLenUInt_def)
  have "unat (word_of_nat (length s + 5) :: u32) = length s + 5"
    using s by (subst unat_of_nat) (simp add: str_ok_def)
  then have "?pad = align4 (length s + 5) - (length s + 5)"
    using align4_le [of "length s + 5"] len unfolding rl
    by (subst unat_sub) (simp_all add: word_le_nat_alt)
  then show "length (serializeStrAlign4 s) = unat (serialLenStrAlign4 (word_of_nat (length s)))"
    using align4_le [of "length s + 5"] rl by (simp add: e len)
  have l0: "unat (serialLenStrAlign4 0) = 8"
    using serialLenStrAlign4_unat [of 0] by (simp add: align4_def)
  have "8 \<le> align4 (length s + 5)" by (simp add: align4_def)
  then show "deserializeStrAlign4 (serializeStrAlign4 s @ rest) n =
      Inr (s, unat (serialLenStrAlign4 (word_of_nat (length s))))"
    if "unat (serialLenStrAlign4 (word_of_nat (length s))) \<le> n"
    using deserializeStrWith_round [where lenOf = serialLenStrAlign4, OF s refl _ that] l0 len
      align4_le [of "length s + 5"]
    by (simp add: e deserializeStrAlign4_def)
  show "deserializeStrAlign4 (serializeStrAlign4 s @ rest) n = Inl DecodeFail"
    if "n < unat (serialLenStrAlign4 (word_of_nat (length s)))"
    using deserializeStrWith_short [where lenOf = serialLenStrAlign4, OF s that] l0 by (simp add: e deserializeStrAlign4_def)
qed

section \<open>Sequences of elements\<close>

text \<open>The loop that reads \<open>elemNum\<close> elements one after the other.\<close>

fun deserElems :: "'a decoder \<Rightarrow> nat \<Rightarrow> 'a list decoder" where
  "deserElems d 0 buf bufLen = Inr ([], 0)"
| "deserElems d (Suc k) buf bufLen =
     dbind d (\<lambda>x. dbind (deserElems d k) (\<lambda>xs. dreturn (x # xs))) buf bufLen"

text \<open>
  A sequence is written as its total length, its element count and its elements; the length
  of the elements is added up in 32 bits.
\<close>

definition serialLenSeq :: "('a \<Rightarrow> u32) \<Rightarrow> 'a list \<Rightarrow> u32" where
  "serialLenSeq len xs = fold (\<lambda>x acc. acc + len x) xs (serialLenUInt + serialLenUInt)"

definition serializeSeq :: "('a \<Rightarrow> u8 list) \<Rightarrow> ('a \<Rightarrow> u32) \<Rightarrow> 'a list \<Rightarrow> u8 list" where
  "serializeSeq ser len xs =
     serializeUInt (serialLenSeq len xs) @ serializeUInt (word_of_nat (length xs)) @
     concat (map ser xs)"

text \<open>
  The preprocessing of the two header fields, which ends with the check \<open>bad outLen elemNum\<close>
  of the format; the elements start at position 8.
\<close>

definition seqPreprocess :: "(nat \<Rightarrow> u32 \<Rightarrow> u32 \<Rightarrow> bool) \<Rightarrow> (u32 \<times> u32) decoder" where
  "seqPreprocess bad buf bufLen =
     dbind deserializeUInt (\<lambda>outLen. dbind deserializeUInt (\<lambda>elemNum buf' bufLen'.
       if bad bufLen outLen elemNum then Inl DecodeFail else Inr ((outLen, elemNum), 0)))
       buf bufLen"

text \<open>
  \<open>LockingTk\<close>: the total length must fit the buffer and cover the header; the elements are
  then read with the largest \<open>size_t\<close> as buffer length. The position moves on by the total
  length, however many bytes the elements took.
\<close>

definition badTotalLen :: "nat \<Rightarrow> u32 \<Rightarrow> u32 \<Rightarrow> bool" where
  "badTotalLen bufLen outLen elemNum \<longleftrightarrow>
     bufLen < unat outLen \<or> outLen < serialLenUInt + serialLenUInt"

definition size_max :: nat where
  "size_max = 18446744073709551615"

definition deserializeSeq :: "'a decoder \<Rightarrow> 'a list decoder" where
  "deserializeSeq d buf bufLen =
     (case seqPreprocess badTotalLen buf bufLen of
        Inl e \<Rightarrow> Inl e
      | Inr ((outLen, elemNum), start) \<Rightarrow>
          (case deserElems d (unat elemNum) (drop start buf) size_max of
             Inl e \<Rightarrow> Inl e
           | Inr (xs, _) \<Rightarrow> Inr (xs, unat outLen)))"

text \<open>
  Lists of elements of a fixed size: the total length must be exactly that of the element
  count (the product is taken in 32 bits, the difference in 64). \<open>elemsBufLen\<close> is the buffer
  length that the reader of the elements is told.
\<close>

definition badExactLen :: "u32 \<Rightarrow> nat \<Rightarrow> u32 \<Rightarrow> u32 \<Rightarrow> bool" where
  "badExactLen elemLen bufLen outLen elemNum \<longleftrightarrow>
     bufLen < unat outLen \<or> (ucast outLen :: u64) - 8 \<noteq> ucast (elemNum * elemLen)"

definition serialLenFixed :: "u32 \<Rightarrow> nat \<Rightarrow> u32" where
  "serialLenFixed elemLen n = serialLenUInt + serialLenUInt + word_of_nat n * elemLen"

definition serializeFixed :: "('a \<Rightarrow> u8 list) \<Rightarrow> u32 \<Rightarrow> 'a list \<Rightarrow> u8 list" where
  "serializeFixed ser elemLen xs =
     serializeUInt (serialLenFixed elemLen (length xs)) @
     serializeUInt (word_of_nat (length xs)) @ concat (map ser xs)"

lemma fold_add_const: "fold (\<lambda>_ acc. acc + L) xs a = a + word_of_nat (length xs) * (L :: u32)"
  by (induction xs arbitrary: a) (simp_all add: algebra_simps)

lemma serialLenFixed_seq: "(\<lambda>xs. serialLenFixed L (length xs)) = serialLenSeq (\<lambda>_. L)"
  by (rule ext) (simp add: serialLenFixed_def serialLenSeq_def fold_add_const)

lemma serializeFixed_seq: "serializeFixed ser L = serializeSeq ser (\<lambda>_. L)"
  by (rule ext) (simp add: serializeFixed_def serializeSeq_def fun_cong [OF serialLenFixed_seq])

definition deserializeFixedWith ::
    "'a decoder \<Rightarrow> u32 \<Rightarrow> (u32 \<Rightarrow> nat) \<Rightarrow> 'a list decoder" where
  "deserializeFixedWith d elemLen elemsBufLen buf bufLen =
     (case seqPreprocess (badExactLen elemLen) buf bufLen of
        Inl e \<Rightarrow> Inl e
      | Inr ((outLen, elemNum), start) \<Rightarrow>
          (case deserElems d (unat elemNum) (drop start buf) (elemsBufLen outLen) of
             Inl e \<Rightarrow> Inl e
           | Inr (xs, _) \<Rightarrow> Inr (xs, unat outLen)))"

definition seq_ok :: "('a \<Rightarrow> bool) \<Rightarrow> ('a \<Rightarrow> u32) \<Rightarrow> 'a list \<Rightarrow> bool" where
  "seq_ok ok len xs \<longleftrightarrow>
     list_all ok xs \<and> 8 + sum_list (map (\<lambda>x. unat (len x)) xs) < 4294967296 \<and>
     length xs < 4294967296"

lemma word_of_unat: "word_of_nat (unat w) = w"
  by simp

lemma ucast_by_nat: "ucast w = word_of_nat (unat w)"
  by simp

lemma fold_add_unat:
  "unat acc + sum_list (map (\<lambda>x. unat (len x)) xs) < 4294967296 \<Longrightarrow>
     unat (fold (\<lambda>x acc. acc + len x) xs (acc :: u32)) =
       unat acc + sum_list (map (\<lambda>x. unat (len x)) xs)"
proof (induction xs arbitrary: acc)
  case (Cons x xs)
  then have "unat (acc + len x) = unat acc + unat (len x)" by (simp add: unat_word_ariths)
  with Cons.IH [of "acc + len x"] Cons.prems show ?case by (simp add: add.assoc)
qed simp

lemma serialLenSeq_unat:
  "seq_ok ok len xs \<Longrightarrow> unat (serialLenSeq len xs) = 8 + sum_list (map (\<lambda>x. unat (len x)) xs)"
  using fold_add_unat [of 8 len xs]
  by (simp add: serialLenSeq_def seq_ok_def serialLenUInt_def)

lemma seq_header:
  "seqPreprocess bad (serializeSeq ser len' xs @ rest) n =
     (if n < 8 then Inl DecodeFail
      else if bad n (serialLenSeq len' xs) (word_of_nat (length xs)) then Inl DecodeFail
      else Inr ((serialLenSeq len' xs, word_of_nat (length xs)), 8))"
proof -
  note r = uint.then_read [OF TrueI, unfolded serialLenUInt_def, simplified]
  note f = uint.then_read_short [OF TrueI, unfolded serialLenUInt_def, simplified]
  consider "n < 4" | "4 \<le> n" "n < 8" | "8 \<le> n" by linarith
  then show ?thesis
    by cases (simp_all add: seqPreprocess_def serializeSeq_def r f)
qed

context codec
begin

lemma elems_round:
  "list_all ok xs \<Longrightarrow> sum_list (map (\<lambda>x. unat (len x)) xs) \<le> n \<Longrightarrow>
     deserElems deser (length xs) (concat (map ser xs) @ rest) n =
       Inr (xs, sum_list (map (\<lambda>x. unat (len x)) xs))"
proof (induction xs arbitrary: n)
  case (Cons x xs)
  then have x: "ok x" "unat (len x) \<le> n" by simp_all
  note r = then_read [OF x, of _ "concat (map ser xs) @ rest"]
  from Cons show ?case
    by (simp add: r [simplified]) (simp add: dbind_def dreturn_def)
qed simp

lemma elems_length: "list_all ok xs \<Longrightarrow> length (concat (map ser xs)) = sum_list (map (\<lambda>x. unat (len x)) xs)"
  by (induction xs) (simp_all add: ser_len)

lemma seq_codec:
  "codec (serializeSeq ser len) (deserializeSeq deser) (serialLenSeq len) (seq_ok ok len)"
proof
  fix xs rest n
  assume ok: "seq_ok ok len xs"
  let ?sum = "sum_list (map (\<lambda>x. unat (len x)) xs)"
  note total = serialLenSeq_unat [OF ok]
  have bounds: "list_all ok xs" "8 + ?sum < 4294967296" "length xs < 4294967296"
    using ok by (simp_all add: seq_ok_def)
  have cnt: "unat (word_of_nat (length xs) :: u32) = length xs"
    using bounds(3) by (simp add: unat_of_nat)
  show "length (serializeSeq ser len xs) = unat (serialLenSeq len xs)"
    by (simp add: serializeSeq_def uint.ser_len serialLenUInt_def elems_length bounds total)
  show "deserializeSeq deser (serializeSeq ser len xs @ rest) n = Inr (xs, unat (serialLenSeq len xs))"
    if "unat (serialLenSeq len xs) \<le> n"
  proof -
    have good: "\<not> badTotalLen n (serialLenSeq len xs) (word_of_nat (length xs))"
      using that total by (simp add: badTotalLen_def serialLenUInt_def word_less_nat_alt)
    have "deserElems deser (length xs) (concat (map ser xs) @ rest) size_max = Inr (xs, ?sum)"
      using bounds by (intro elems_round) (simp_all add: size_max_def)
    moreover have "drop 8 (serializeSeq ser len xs @ rest) = concat (map ser xs) @ rest"
      by (simp add: serializeSeq_def uint.ser_len serialLenUInt_def)
    ultimately show ?thesis
      using that total good by (simp add: deserializeSeq_def seq_header cnt)
  qed
  show "deserializeSeq deser (serializeSeq ser len xs @ rest) n = Inl DecodeFail"
    if "n < unat (serialLenSeq len xs)"
    using that by (simp add: deserializeSeq_def seq_header badTotalLen_def)
qed

lemma fixed_codec:
  assumes L: "\<And>x. len x = L" "L \<noteq> 0"
    and enough: "\<And>n. n < 4294967288 \<Longrightarrow> n \<le> elemsBufLen (word_of_nat (8 + n))"
  shows "codec (serializeFixed ser L) (deserializeFixedWith deser L elemsBufLen)
    (\<lambda>xs. serialLenFixed L (length xs)) (seq_ok ok (\<lambda>_. L))"
  unfolding serializeFixed_seq serialLenFixed_seq
proof
  fix xs rest n
  assume ok: "seq_ok ok (\<lambda>_. L) xs"
  have sum: "sum_list (map (\<lambda>x. unat L) xs) = length xs * unat L" by (simp add: sum_list_triv)
  note total = serialLenSeq_unat [OF ok, unfolded sum]
  have bounds: "list_all ok xs" "8 + length xs * unat L < 4294967296" "length xs < 4294967296"
    using ok by (simp_all add: seq_ok_def sum_list_triv)
  have cnt: "unat (word_of_nat (length xs) :: u32) = length xs"
    using bounds(3) by (simp add: unat_of_nat)
  show "length (serializeSeq ser (\<lambda>_. L) xs) = unat (serialLenSeq (\<lambda>_. L) xs)"
    by (simp add: serializeSeq_def uint.ser_len serialLenUInt_def elems_length bounds total L
        sum_list_triv)
  have e: "serialLenSeq (\<lambda>_. L) xs = word_of_nat (8 + length xs * unat L)"
    using total word_of_unat [of "serialLenSeq (\<lambda>_. L) xs"] by metis
  have "unat (word_of_nat (length xs) * L) = length xs * unat L"
    using bounds by (simp add: unat_word_ariths cnt)
  then have "(ucast (word_of_nat (length xs) * L) :: u64) = word_of_nat (length xs * unat L)"
    by (metis ucast_by_nat)
  moreover have "(ucast (serialLenSeq (\<lambda>_. L) xs) :: u64) = word_of_nat (8 + length xs * unat L)"
    using total by (metis ucast_by_nat)
  ultimately have good: "\<not> badExactLen L n (serialLenSeq (\<lambda>_. L) xs) (word_of_nat (length xs))"
    if "unat (serialLenSeq (\<lambda>_. L) xs) \<le> n" for n
    using that by (simp add: badExactLen_def)
  show "deserializeFixedWith deser L elemsBufLen (serializeSeq ser (\<lambda>_. L) xs @ rest) n =
      Inr (xs, unat (serialLenSeq (\<lambda>_. L) xs))"
    if "unat (serialLenSeq (\<lambda>_. L) xs) \<le> n"
  proof -
    have "deserElems deser (length xs) (concat (map ser xs) @ rest)
        (elemsBufLen (serialLenSeq (\<lambda>_. L) xs)) = Inr (xs, length xs * unat L)"
      using bounds enough [of "length xs * unat L"] elems_round [of xs _ rest]
      by (simp add: L e sum_list_triv)
    moreover have "drop 8 (serializeSeq ser (\<lambda>_. L) xs @ rest) = concat (map ser xs) @ rest"
      by (simp add: serializeSeq_def uint.ser_len serialLenUInt_def)
    ultimately show ?thesis
      using that total good [OF that] by (simp add: deserializeFixedWith_def seq_header cnt)
  qed
  show "deserializeFixedWith deser L elemsBufLen (serializeSeq ser (\<lambda>_. L) xs @ rest) n =
      Inl DecodeFail" if "n < unat (serialLenSeq (\<lambda>_. L) xs)"
    using that by (simp add: deserializeFixedWith_def seq_header badExactLen_def)
qed

end

section \<open>Integer lists\<close>

definition elemsLen :: "u32 \<Rightarrow> nat" where
  "elemsLen listBufLen = unat (listBufLen - serialLenUInt - serialLenUInt)"

definition serializeUInt8List :: "u8 list \<Rightarrow> u8 list" where
  "serializeUInt8List = serializeFixed serializeUInt8 serialLenUInt8"

definition deserializeUInt8List :: "u8 list decoder" where
  "deserializeUInt8List = deserializeFixedWith deserializeUInt8 serialLenUInt8 elemsLen"

definition serialLenUInt8List :: "u8 list \<Rightarrow> u32" where
  "serialLenUInt8List = (\<lambda>list. serialLenFixed serialLenUInt8 (length list))"

definition serializeUShortVector :: "u16 list \<Rightarrow> u8 list" where
  "serializeUShortVector = serializeFixed serializeUShort serialLenUShort"

definition deserializeUShortVector :: "u16 list decoder" where
  "deserializeUShortVector = deserializeFixedWith deserializeUShort serialLenUShort elemsLen"

definition serialLenUShortVector :: "u16 list \<Rightarrow> u32" where
  "serialLenUShortVector = (\<lambda>list. serialLenFixed serialLenUShort (length list))"

definition serializeUInt16List :: "u16 list \<Rightarrow> u8 list" where
  "serializeUInt16List = serializeFixed serializeUShort serialLenUShort"

definition deserializeUInt16List :: "u16 list decoder" where
  "deserializeUInt16List = deserializeFixedWith deserializeUShort serialLenUShort elemsLen"

definition serialLenUInt16List :: "u16 list \<Rightarrow> u32" where
  "serialLenUInt16List = (\<lambda>list. serialLenFixed serialLenUShort (length list))"

definition serializeUInt16Vector :: "u16 list \<Rightarrow> u8 list" where
  "serializeUInt16Vector = serializeFixed serializeUShort serialLenUShort"

definition deserializeUInt16Vector :: "u16 list decoder" where
  "deserializeUInt16Vector = deserializeFixedWith deserializeUShort serialLenUShort elemsLen"

definition serialLenUInt16Vector :: "u16 list \<Rightarrow> u32" where
  "serialLenUInt16Vector = (\<lambda>list. serialLenFixed serialLenUShort (length list))"

definition serializeIntList :: "i32 list \<Rightarrow> u8 list" where
  "serializeIntList = serializeFixed serializeInt serialLenInt"

definition deserializeIntList :: "i32 list decoder" where
  "deserializeIntList = deserializeFixedWith deserializeInt serialLenInt elemsLen"

definition serialLenIntList :: "i32 list \<Rightarrow> u32" where
  "serialLenIntList = (\<lambda>list. serialLenFixed serialLenInt (length list))"

definition serializeIntVector :: "i32 list \<Rightarrow> u8 list" where
  "serializeIntVector = serializeFixed serializeInt serialLenInt"

definition deserializeIntVector :: "i32 list decoder" where
  "deserializeIntVector = deserializeFixedWith deserializeInt serialLenInt elemsLen"

definition serialLenIntVector :: "i32 list \<Rightarrow> u32" where
  "serialLenIntVector = (\<lambda>list. serialLenFixed serialLenInt (length list))"

definition serializeUIntList :: "u32 list \<Rightarrow> u8 list" where
  "serializeUIntList = serializeFixed serializeUInt serialLenUInt"

definition deserializeUIntList :: "u32 list decoder" where
  "deserializeUIntList = deserializeFixedWith deserializeUInt serialLenUInt elemsLen"

definition serialLenUIntList :: "u32 list \<Rightarrow> u32" where
  "serialLenUIntList = (\<lambda>list. serialLenFixed serialLenUInt (length list))"

definition serializeUIntVector :: "u32 list \<Rightarrow> u8 list" where
  "serializeUIntVector = serializeFixed serializeUInt serialLenUInt"

definition deserializeUIntVector :: "u32 list decoder" where
  "deserializeUIntVector = deserializeFixedWith deserializeUInt serialLenUInt elemsLen"

definition serialLenUIntVector :: "u32 list \<Rightarrow> u32" where
  "serialLenUIntVector = (\<lambda>list. serialLenFixed serialLenUInt (length list))"

definition serializeInt64List :: "i64 list \<Rightarrow> u8 list" where
  "serializeInt64List = serializeFixed serializeInt64 serialLenInt64"

definition deserializeInt64List :: "i64 list decoder" where
  "deserializeInt64List = deserializeFixedWith deserializeInt64 serialLenInt64 elemsLen"

definition serialLenInt64List :: "i64 list \<Rightarrow> u32" where
  "serialLenInt64List = (\<lambda>list. serialLenFixed serialLenInt64 (length list))"

definition serializeInt64Vector :: "i64 list \<Rightarrow> u8 list" where
  "serializeInt64Vector = serializeFixed serializeInt64 serialLenInt64"

definition deserializeInt64Vector :: "i64 list decoder" where
  "deserializeInt64Vector = deserializeFixedWith deserializeInt64 serialLenInt64 elemsLen"

definition serialLenInt64Vector :: "i64 list \<Rightarrow> u32" where
  "serialLenInt64Vector = (\<lambda>list. serialLenFixed serialLenInt64 (length list))"

definition serializeUInt64List :: "u64 list \<Rightarrow> u8 list" where
  "serializeUInt64List = serializeFixed serializeUInt64 serialLenUInt64"

definition deserializeUInt64List :: "u64 list decoder" where
  "deserializeUInt64List = deserializeFixedWith deserializeUInt64 serialLenUInt64 elemsLen"

definition serialLenUInt64List :: "u64 list \<Rightarrow> u32" where
  "serialLenUInt64List = (\<lambda>list. serialLenFixed serialLenUInt64 (length list))"

definition serializeUInt64Vector :: "u64 list \<Rightarrow> u8 list" where
  "serializeUInt64Vector = serializeFixed serializeUInt64 serialLenUInt64"

definition deserializeUInt64Vector :: "u64 list decoder" where
  "deserializeUInt64Vector = deserializeFixedWith deserializeUInt64 serialLenUInt64 elemsLen"

definition serialLenUInt64Vector :: "u64 list \<Rightarrow> u32" where
  "serialLenUInt64Vector = (\<lambda>list. serialLenFixed serialLenUInt64 (length list))"

definition serializeBoolList :: "bool list \<Rightarrow> u8 list" where
  "serializeBoolList = serializeFixed serializeBool serialLenBool"

definition deserializeBoolList :: "bool list decoder" where
  "deserializeBoolList = deserializeFixedWith deserializeBool serialLenBool elemsLen"

definition serialLenBoolList :: "bool list \<Rightarrow> u32" where
  "serialLenBoolList = (\<lambda>list. serialLenFixed serialLenBool (length list))"

text \<open>
  The elements of a character vector are copied at once; the length of the copied range is
  checked again, in 32 bits.
\<close>

definition serializeCharVector :: "u8 list \<Rightarrow> u8 list" where
  "serializeCharVector = serializeFixed serializeChar serialLenChar"

definition deserializeCharVector :: "u8 list decoder" where
  "deserializeCharVector buf bufLen =
     (case seqPreprocess (badExactLen serialLenChar) buf bufLen of
        Inl e \<Rightarrow> Inl e
      | Inr ((vecBufLen, elemNum), start) \<Rightarrow>
          if vecBufLen - serialLenUInt - serialLenUInt \<noteq> serialLenChar * elemNum
          then Inl DecodeFail
          else if length (drop start buf) < unat elemNum then Inl ReadBeyondBuffer
          else Inr (take (unat elemNum) (drop start buf), unat vecBufLen))"

definition serialLenCharVector :: "u8 list \<Rightarrow> u32" where
  "serialLenCharVector vec = serialLenFixed serialLenChar (length vec)"

lemma elemsLen_header: "n < 4294967288 \<Longrightarrow> n \<le> elemsLen (8 + word_of_nat n)"
  by (simp add: elemsLen_def serialLenUInt_def unat_of_nat)

lemmas int_list_lens =
  serialLenUInt_def serialLenUInt64_def serialLenUInt16_def serialLenInt_def serialLenInt64_def
  serialLenChar_def serialLenUInt8_def serialLenUShort_def serialLenBool_def

interpretation uint8s: codec serializeUInt8List deserializeUInt8List serialLenUInt8List
  "seq_ok (\<lambda>_. True) (\<lambda>_. serialLenUInt8)"
  unfolding serializeUInt8List_def deserializeUInt8List_def serialLenUInt8List_def
  by (rule uint8.fixed_codec) (simp_all add: int_list_lens elemsLen_header)

interpretation ushorts: codec serializeUShortVector deserializeUShortVector serialLenUShortVector
  "seq_ok (\<lambda>_. True) (\<lambda>_. serialLenUShort)"
  unfolding serializeUShortVector_def deserializeUShortVector_def serialLenUShortVector_def
  by (rule ushort.fixed_codec) (simp_all add: int_list_lens elemsLen_header)

interpretation uint16s: codec serializeUInt16List deserializeUInt16List serialLenUInt16List
  "seq_ok (\<lambda>_. True) (\<lambda>_. serialLenUShort)"
  unfolding serializeUInt16List_def deserializeUInt16List_def serialLenUInt16List_def
  by (rule ushort.fixed_codec) (simp_all add: int_list_lens elemsLen_header)

interpretation uint16vec: codec serializeUInt16Vector deserializeUInt16Vector serialLenUInt16Vector
  "seq_ok (\<lambda>_. True) (\<lambda>_. serialLenUShort)"
  unfolding serializeUInt16Vector_def deserializeUInt16Vector_def serialLenUInt16Vector_def
  by (rule ushort.fixed_codec) (simp_all add: int_list_lens elemsLen_header)

interpretation ints: codec serializeIntList deserializeIntList serialLenIntList
  "seq_ok (\<lambda>_. True) (\<lambda>_. serialLenInt)"
  unfolding serializeIntList_def deserializeIntList_def serialLenIntList_def
  by (rule int.fixed_codec) (simp_all add: int_list_lens elemsLen_header)

interpretation intvec: codec serializeIntVector deserializeIntVector serialLenIntVector
  "seq_ok (\<lambda>_. True) (\<lambda>_. serialLenInt)"
  unfolding serializeIntVector_def deserializeIntVector_def serialLenIntVector_def
  by (rule int.fixed_codec) (simp_all add: int_list_lens elemsLen_header)

interpretation uints: codec serializeUIntList deserializeUIntList serialLenUIntList
  "seq_ok (\<lambda>_. True) (\<lambda>_. serialLenUInt)"
  unfolding serializeUIntList_def deserializeUIntList_def serialLenUIntList_def
  by (rule uint.fixed_codec) (simp_all add: int_list_lens elemsLen_header)

interpretation uintvec: codec serializeUIntVector deserializeUIntVector serialLenUIntVector
  "seq_ok (\<lambda>_. True) (\<lambda>_. serialLenUInt)"
  unfolding serializeUIntVector_def deserializeUIntVector_def serialLenUIntVector_def
  by (rule uint.fixed_codec) (simp_all add: int_list_lens elemsLen_header)

interpretation int64s: codec serializeInt64List deserializeInt64List serialLenInt64List
  "seq_ok (\<lambda>_. True) (\<lambda>_. serialLenInt64)"
  unfolding serializeInt64List_def deserializeInt64List_def serialLenInt64List_def
  by (rule int64.fixed_codec) (simp_all add: int_list_lens elemsLen_header)

interpretation int64vec: codec serializeInt64Vector deserializeInt64Vector serialLenInt64Vector
  "seq_ok (\<lambda>_. True) (\<lambda>_. serialLenInt64)"
  unfolding serializeInt64Vector_def deserializeInt64Vector_def serialLenInt64Vector_def
  by (rule int64.fixed_codec) (simp_all add: int_list_lens elemsLen_header)

interpretation uint64s: codec serializeUInt64List deserializeUInt64List serialLenUInt64List
  "seq_ok (\<lambda>_. True) (\<lambda>_. serialLenUInt64)"
  unfolding serializeUInt64List_def deserializeUInt64List_def serialLenUInt64List_def
  by (rule uint64.fixed_codec) (simp_all add: int_list_lens elemsLen_header)

interpretation uint64vec: codec serializeUInt64Vector deserializeUInt64Vector serialLenUInt64Vector
  "seq_ok (\<lambda>_. True) (\<lambda>_. serialLenUInt64)"
  unfolding serializeUInt64Vector_def deserializeUInt64Vector_def serialLenUInt64Vector_def
  by (rule uint64.fixed_codec) (simp_all add: int_list_lens elemsLen_header)

interpretation bools: codec serializeBoolList deserializeBoolList serialLenBoolList
  "seq_ok (\<lambda>_. True) (\<lambda>_. serialLenBool)"
  unfolding serializeBoolList_def deserializeBoolList_def serialLenBoolList_def
  by (rule bool.fixed_codec) (simp_all add: int_list_lens elemsLen_header)

section \<open>String lists and sets\<close>

text \<open>
  The elements of a string list are written as zero-terminated strings. The reader takes each
  element with \<open>std::string(currentPos)\<close>, stops at \<open>listEndPos\<close> and accepts only if it has
  read all elements and has reached the end.
\<close>

definition cstr :: "string \<Rightarrow> u8 list" where
  "cstr s = map byte_of_char s @ [0]"

definition cstr_len :: "string \<Rightarrow> u32" where
  "cstr_len s = word_of_nat (length s) + 1"

definition serializeStringList :: "string list \<Rightarrow> u8 list" where
  "serializeStringList = serializeSeq cstr cstr_len"

definition serialLenStringList :: "string list \<Rightarrow> u32" where
  "serialLenStringList = serialLenSeq cstr_len"

definition serializeStringVec :: "string list \<Rightarrow> u8 list" where
  "serializeStringVec = serializeSeq cstr cstr_len"

definition serialLenStringVec :: "string list \<Rightarrow> u32" where
  "serialLenStringVec = serialLenSeq cstr_len"

definition serializeStringSet :: "string list \<Rightarrow> u8 list" where
  "serializeStringSet = serializeSeq cstr cstr_len"

definition serialLenStringSet :: "string list \<Rightarrow> u32" where
  "serialLenStringSet = serialLenSeq cstr_len"

fun read_cstr :: "u8 list \<Rightarrow> string option" where
  "read_cstr [] = None"
| "read_cstr (b # bs) = (if b = 0 then Some [] else map_option (Cons (char_of_byte b)) (read_cstr bs))"

fun stringElems :: "nat \<Rightarrow> nat \<Rightarrow> u8 list \<Rightarrow> decode_error + string list" where
  "stringElems 0 len buf = (if len = 0 then Inr [] else Inl DecodeFail)"
| "stringElems (Suc k) len buf =
     (if len = 0 then Inl DecodeFail
      else case read_cstr buf of
        None \<Rightarrow> Inl ReadBeyondBuffer
      | Some s \<Rightarrow>
          (case stringElems k (len - (length s + 1)) (drop (length s + 1) buf) of
             Inl e \<Rightarrow> Inl e
           | Inr ss \<Rightarrow> Inr (s # ss)))"

text \<open>
  The last byte of the list must be a terminating zero; the vector version does not check the
  minimum length first and looks at the byte before the buffer when the length field is 0.
\<close>

definition badStringList :: "bool \<Rightarrow> u8 list \<Rightarrow> nat \<Rightarrow> u32 \<Rightarrow> u32 \<Rightarrow> decode_error option" where
  "badStringList checkMin buf bufLen outLen elemNum =
     (if bufLen < unat outLen \<or> (checkMin \<and> outLen < serialLenUInt + serialLenUInt)
      then Some DecodeFail
      else if elemNum = 0 then None
      else if outLen = 0 \<or> length buf < unat outLen then Some ReadBeyondBuffer
      else if buf ! (unat outLen - 1) \<noteq> 0 then Some DecodeFail
      else None)"

definition deserializeStringsWith :: "bool \<Rightarrow> string list decoder" where
  "deserializeStringsWith checkMin buf bufLen =
     (case seqPreprocess (\<lambda>_ _ _. False) buf bufLen of
        Inl e \<Rightarrow> Inl e
      | Inr ((outLen, elemNum), start) \<Rightarrow>
          (case badStringList checkMin buf bufLen outLen elemNum of
             Some e \<Rightarrow> Inl e
           | None \<Rightarrow>
               (case stringElems (unat elemNum) (elemsLen outLen) (drop start buf) of
                  Inl e \<Rightarrow> Inl e
                | Inr ss \<Rightarrow> Inr (ss, unat outLen))))"

definition deserializeStringList :: "string list decoder" where
  "deserializeStringList = deserializeStringsWith True"

definition deserializeStringVec :: "string list decoder" where
  "deserializeStringVec = deserializeStringsWith False"

definition deserializeStringSet :: "string list decoder" where
  "deserializeStringSet buf bufLen =
     (case deserializeStringsWith True buf bufLen of
        Inl e \<Rightarrow> Inl e
      | Inr (ss, n) \<Rightarrow> Inr (fold (set_insert (<)) ss [], n))"

lemma byte_not_zero: "byte_of_char c = 0 \<longleftrightarrow> c = CHR 0x00"
proof
  have z: "char_of_byte 0 = CHR 0x00" by (simp add: char_of_byte_def char_of_def)
  assume "byte_of_char c = 0"
  with char_byte [of c] z show "c = CHR 0x00" by metis
qed (simp add: byte_of_char_def)

definition cstr_ok :: "string \<Rightarrow> bool" where
  "cstr_ok s \<longleftrightarrow> CHR 0x00 \<notin> set s \<and> length s < 4294967295"

lemma cstr_length: "length (cstr s) = length s + 1"
  by (simp add: cstr_def)

lemma cstr_len_unat: "cstr_ok s \<Longrightarrow> unat (cstr_len s) = length s + 1"
  by (simp add: cstr_ok_def cstr_len_def unat_word_ariths unat_of_nat)

lemma read_cstr_round: "CHR 0x00 \<notin> set s \<Longrightarrow> read_cstr (cstr s @ rest) = Some s"
  by (induction s) (auto simp: cstr_def byte_not_zero)

lemma stringElems_round:
  "list_all cstr_ok ss \<Longrightarrow>
     stringElems (length ss) (sum_list (map (\<lambda>s. unat (cstr_len s)) ss))
       (concat (map cstr ss) @ rest) = Inr ss"
proof (induction ss)
  case (Cons s ss)
  then have s: "cstr_ok s" and r: "read_cstr (cstr s @ concat (map cstr ss) @ rest) = Some s"
    by (auto simp: cstr_ok_def intro: read_cstr_round)
  have d: "drop (Suc (length s)) (cstr s @ concat (map cstr ss) @ rest) = concat (map cstr ss) @ rest"
    using cstr_length [of s] by simp
  from Cons r d cstr_len_unat [OF s] show ?case by simp
qed simp

lemma last_is_zero:
  "ss \<noteq> [] \<Longrightarrow> xs = concat (map cstr ss) \<Longrightarrow> xs \<noteq> [] \<and> xs ! (length xs - 1) = 0"
proof (induction ss arbitrary: xs rule: rev_induct)
  case (snoc s ss)
  then have "xs = (concat (map cstr ss) @ map byte_of_char s) @ [0]"
    by (simp add: cstr_def [of s])
  then show ?case by (metis append_is_Nil_conv diff_Suc_1 length_append_singleton not_Cons_self2 nth_append_length)
qed simp

interpretation strings: codec serializeStringList deserializeStringList serialLenStringList
  "seq_ok cstr_ok cstr_len"
proof
  fix ss rest n
  assume ok: "seq_ok cstr_ok cstr_len ss"
  let ?sum = "sum_list (map (\<lambda>s. unat (cstr_len s)) ss)"
  note total = serialLenSeq_unat [OF ok]
  have bounds: "list_all cstr_ok ss" "8 + ?sum < 4294967296" "length ss < 4294967296"
    using ok by (simp_all add: seq_ok_def)
  have cnt: "unat (word_of_nat (length ss) :: u32) = length ss"
    using bounds(3) by (simp add: unat_of_nat)
  have el: "length (concat (map cstr ss)) = ?sum"
    using bounds(1) by (induction ss) (simp_all add: cstr_length cstr_len_unat)
  show len: "length (serializeStringList ss) = unat (serialLenStringList ss)"
    by (simp add: serializeStringList_def serialLenStringList_def serializeSeq_def uint.ser_len
        serialLenUInt_def el total)
  have body: "drop 8 (serializeStringList ss @ rest) = concat (map cstr ss) @ rest"
    by (simp add: serializeStringList_def serializeSeq_def uint.ser_len serialLenUInt_def)
  have nz: "ss = []" if "(word_of_nat (length ss) :: u32) = 0"
    using that cnt by (metis length_0_conv unat_0)
  have lst: "(serializeStringList ss @ rest) ! (8 + ?sum - 1) = 0" if "ss \<noteq> []"
  proof -
    let ?H = "serializeUInt (serialLenSeq cstr_len ss) @ serializeUInt (word_of_nat (length ss))"
    let ?B = "concat (map cstr ss)"
    have b: "?B \<noteq> []" "?B ! (?sum - 1) = 0"
      using last_is_zero [OF that refl] by (simp_all add: el)
    have h: "length ?H = 8" by (simp add: uint.ser_len serialLenUInt_def)
    have pos: "0 < ?sum" using b(1) el by (metis length_greater_0_conv)
    have "(serializeStringList ss @ rest) ! (8 + ?sum - 1) = (?H @ ?B @ rest) ! (length ?H + (?sum - 1))"
      using pos h by (simp add: serializeStringList_def serializeSeq_def)
    also have "\<dots> = (?B @ rest) ! (?sum - 1)" by (simp only: nth_append_length_plus)
    also have "\<dots> = ?B ! (?sum - 1)" using pos el by (simp only: nth_append) simp
    finally show ?thesis using b(2) by simp
  qed
  have elems: "elemsLen (serialLenSeq cstr_len ss) = ?sum"
    using total by (simp add: elemsLen_def serialLenUInt_def unat_sub word_le_nat_alt)
  have hdr: "seqPreprocess (\<lambda>_ _ _. False) (serializeStringList ss @ rest) n =
      (if n < 8 then Inl DecodeFail
       else Inr ((serialLenSeq cstr_len ss, word_of_nat (length ss)), 8))"
    using seq_header [of "\<lambda>_ _ _. False" cstr cstr_len ss rest n]
    by (simp add: serializeStringList_def)
  show "deserializeStringList (serializeStringList ss @ rest) n = Inr (ss, unat (serialLenStringList ss))"
    if "unat (serialLenStringList ss) \<le> n"
  proof -
    have "badStringList True (serializeStringList ss @ rest) n (serialLenSeq cstr_len ss)
        (word_of_nat (length ss)) = None"
    proof (cases "ss = []")
      case True
      with that total show ?thesis
        by (simp add: badStringList_def serialLenStringList_def serialLenUInt_def word_less_nat_alt)
    next
      case False
      have "serialLenSeq cstr_len ss \<noteq> 0" using total by auto
      with False that total lst len nz show ?thesis
        by (auto simp: badStringList_def serialLenStringList_def serialLenUInt_def
            word_less_nat_alt)
    qed
    with that total show ?thesis
      using stringElems_round [OF bounds(1)]
      by (simp add: deserializeStringList_def deserializeStringsWith_def hdr body [simplified] cnt elems
          serialLenStringList_def)
  qed
  show "deserializeStringList (serializeStringList ss @ rest) n = Inl DecodeFail"
    if "n < unat (serialLenStringList ss)"
    using that by (simp add: deserializeStringList_def deserializeStringsWith_def hdr
        badStringList_def serialLenStringList_def)
qed

section \<open>Readers that stay inside the buffer\<close>

text \<open>
  The second contract of a reader: when the memory is as long as the buffer length says, it
  never reads past the end and consumes at most the buffer. It fails for readers that trust a
  length field (see \<open>deserializeStrAlign4_bounds\<close>).
\<close>

definition inside :: "nat \<Rightarrow> decode_error + 'a \<times> nat \<Rightarrow> bool" where
  "inside n r \<longleftrightarrow> (case r of Inl e \<Rightarrow> e = DecodeFail | Inr (x, m) \<Rightarrow> m \<le> n)"

lemma inside_simps [simp]:
  "inside n (Inl e) \<longleftrightarrow> e = DecodeFail" "inside n (Inr (x, m)) \<longleftrightarrow> m \<le> n"
  by (simp_all add: inside_def)

lemma insideE:
  assumes "inside n r"
  obtains (failed) "r = Inl DecodeFail" | (returned) x m where "r = Inr (x, m)" "m \<le> n"
  using assms by (cases r) (auto simp: inside_def)

locale safe_reader =
  fixes d :: "'a decoder"
  assumes safe: "n \<le> length buf \<Longrightarrow> inside n (d buf n)"
begin

lemma bind_safe:
  assumes f: "\<And>x. safe_reader (f x)"
  shows "safe_reader (dbind d f)"
proof
  fix n and buf :: "u8 list"
  assume n: "n \<le> length buf"
  from safe [OF n] show "inside n (dbind d f buf n)"
  proof (cases rule: insideE)
    case (returned x m)
    have "inside (n - m) (f x (drop m buf) (n - m))"
      using safe_reader.safe [OF f] n by simp
    then show ?thesis by (cases rule: insideE) (use returned in \<open>auto simp: dbind_def\<close>)
  qed (simp add: dbind_def)
qed

lemma elems_safe: "safe_reader (deserElems d k)"
proof (induction k)
  case (Suc k)
  have "safe_reader (dbind (deserElems d k) (\<lambda>xs. dreturn (x # xs)))" for x
    by (rule safe_reader.bind_safe [OF Suc]) (unfold_locales, simp add: dreturn_def)
  from bind_safe [OF this] show ?case by (simp add: safe_reader_def)
qed (unfold_locales, simp)

end

lemma read_le_safe: "safe_reader (read_le k)"
  by unfold_locales (simp add: read_le_def)

interpretation uint_safe: safe_reader deserializeUInt
  unfolding deserializeUInt_def by (rule read_le_safe)

lemma seqPreprocess_cases:
  assumes "n \<le> length buf"
  obtains "seqPreprocess bad buf n = Inl DecodeFail"
  | outLen elemNum where "seqPreprocess bad buf n = Inr ((outLen, elemNum), 8)" "8 \<le> n"
      "\<not> bad n outLen elemNum"
  using assms by (fastforce simp: seqPreprocess_def dbind_def deserializeUInt_def read_le_def
      split: if_splits)

lemma header_plus_body:
  fixes total p :: u32
  assumes "(ucast total :: u64) - 8 = ucast p"
  shows "unat total = unat p + 8"
proof -
  have "(ucast total :: u64) = ucast p + 8" using assms by (simp add: diff_eq_eq)
  then have "unat (ucast total :: u64) = unat (ucast p + 8 :: u64)" by simp
  moreover have "unat p < 4294967296" "unat total < 4294967296"
    using unsigned_less [of p, where ?'a = nat] unsigned_less [of total, where ?'a = nat] by simp_all
  ultimately show ?thesis by (simp add: unat_word_ariths unsigned_ucast_eq take_bit_nat_def)
qed

locale fixed_reader = safe_reader d for d :: "'a decoder" +
  fixes L :: u32
  assumes takes: "n \<le> length buf \<Longrightarrow> d buf n = Inr (x, m) \<Longrightarrow> m = unat L"
begin

lemma elems_take:
  "n \<le> length buf \<Longrightarrow> deserElems d k buf n = Inr (xs, m) \<Longrightarrow>
     length xs = k \<and> m = k * unat L \<and> m \<le> n"
proof (induction k arbitrary: buf n xs m)
  case (Suc k)
  from safe [OF Suc.prems(1)] Suc.prems(2) obtain x j where
    x: "d buf n = Inr (x, j)" "j \<le> n"
    by (cases rule: insideE) (auto simp: dbind_def)
  from takes [OF Suc.prems(1) x(1)] have j: "j = unat L" .
  from x Suc.prems(2) obtain ys i where
    ys: "deserElems d k (drop j buf) (n - j) = Inr (ys, i)" "xs = x # ys" "m = j + i"
    by (auto simp: dbind_def dreturn_def split: sum.splits)
  have "n - j \<le> length (drop j buf)" using Suc.prems(1) by simp
  from Suc.IH [OF this ys(1)] x(2) ys(2,3) j show ?case by auto
qed simp

text \<open>
  A list of fixed-size elements is accepted only with the exact total length, and no length
  field, wrapped around or not, leads the reader out of the buffer.
\<close>

lemma fixed_safe:
  assumes n: "n \<le> length buf"
    and r: "deserializeFixedWith d L elemsLen buf n = r"
  shows "r = Inl DecodeFail \<or> (\<exists>xs. r = Inr (xs, 8 + length xs * unat L) \<and>
     8 + length xs * unat L \<le> n)"
proof (rule seqPreprocess_cases [OF n, of "badExactLen L"])
  fix outLen elemNum
  assume pre: "seqPreprocess (badExactLen L) buf n = Inr ((outLen, elemNum), 8)" "8 \<le> n"
    and "\<not> badExactLen L n outLen elemNum"
  then have fits: "unat outLen \<le> n" and exact: "(ucast outLen :: u64) - 8 = ucast (elemNum * L)"
    by (simp_all add: badExactLen_def)
  have total: "unat outLen = unat (elemNum * L) + 8"
    using exact by (rule header_plus_body)
  then have room: "elemsLen outLen = unat outLen - 8" "8 \<le> unat outLen"
    by (simp_all add: elemsLen_def serialLenUInt_def unat_sub word_le_nat_alt)
  have mem: "elemsLen outLen \<le> length (drop 8 buf)"
    using n fits room by simp
  have "inside (elemsLen outLen) (deserElems d (unat elemNum) (drop 8 buf) (elemsLen outLen))"
    using safe_reader.safe [OF elems_safe mem] .
  then show ?thesis
  proof (cases rule: insideE)
    case failed
    with pre r show ?thesis by (simp add: deserializeFixedWith_def)
  next
    case (returned xs m)
    from elems_take [OF mem returned(1)] have
      "length xs = unat elemNum" "m = length xs * unat L" "m \<le> elemsLen outLen" by simp_all
    moreover have "unat (elemNum * L) \<le> unat elemNum * unat L"
      by (simp add: unat_word_ariths)
    ultimately have "unat outLen = 8 + length xs * unat L" "length xs = unat elemNum"
      using total room by simp_all
    then show ?thesis
      using pre r fits returned by (auto simp: deserializeFixedWith_def)
  qed
qed (use r in \<open>simp add: deserializeFixedWith_def\<close>)

end

lemma read_le_fixed: "L = unat l \<Longrightarrow> fixed_reader (read_le L) l"
  using read_le_safe [of L]
  by (auto simp: fixed_reader_def fixed_reader_axioms_def read_le_def)

interpretation uint_fixed: fixed_reader deserializeUInt serialLenUInt
  unfolding deserializeUInt_def by (rule read_le_fixed) (simp add: int_list_lens)

interpretation uint16_fixed: fixed_reader deserializeUInt16 serialLenUInt16
  unfolding deserializeUInt16_def by (rule read_le_fixed) (simp add: int_list_lens)

interpretation uint64_fixed: fixed_reader deserializeUInt64 serialLenUInt64
  unfolding deserializeUInt64_def by (rule read_le_fixed) (simp add: int_list_lens)

interpretation char_fixed: fixed_reader deserializeChar serialLenChar
  by unfold_locales (auto simp: deserializeChar_def serialLenChar_def split: list.splits if_splits)

interpretation bool_fixed: fixed_reader deserializeBool serialLenBool
  by unfold_locales (auto simp: deserializeBool_def dbind_def dreturn_def deserializeChar_def
      int_list_lens split: list.splits if_splits)

interpretation uint8_fixed: fixed_reader deserializeUInt8 serialLenUInt8
  using char_fixed.fixed_reader_axioms by (simp add: deserializeUInt8_def int_list_lens)

interpretation ushort_fixed: fixed_reader deserializeUShort serialLenUShort
  using uint16_fixed.fixed_reader_axioms by (simp add: deserializeUShort_def int_list_lens)

interpretation int_fixed: fixed_reader deserializeInt serialLenInt
  using uint_fixed.fixed_reader_axioms by (simp add: deserializeInt_def int_list_lens)

interpretation int64_fixed: fixed_reader deserializeInt64 serialLenInt64
  using uint64_fixed.fixed_reader_axioms by (simp add: deserializeInt64_def int_list_lens)

text \<open>The bulk copy of a character vector reads what an element loop would read.\<close>

lemma char_elems:
  "k \<le> n \<Longrightarrow> deserElems deserializeChar k buf n =
     (if length buf < k then Inl ReadBeyondBuffer else Inr (take k buf, k))"
proof (induction k arbitrary: n buf)
  case (Suc k)
  then show ?case
    by (cases buf) (auto simp: dbind_def deserializeChar_def dreturn_def)
qed simp

lemma char_vector_loop:
  "deserializeCharVector = deserializeFixedWith deserializeChar serialLenChar elemsLen"
proof (intro ext)
  fix buf n
  have same: "vecBufLen - serialLenUInt - serialLenUInt = serialLenChar * elemNum \<and>
      elemsLen vecBufLen = unat elemNum" if "\<not> badExactLen serialLenChar n vecBufLen elemNum"
    for vecBufLen elemNum
  proof -
    have "unat vecBufLen = unat elemNum + 8"
      using that by (intro header_plus_body) (simp add: badExactLen_def serialLenChar_def)
    then show ?thesis
      by (simp add: elemsLen_def int_list_lens word_unat_eq_iff unat_sub word_le_nat_alt)
  qed
  have pre: "\<not> badExactLen serialLenChar n l c"
    if "seqPreprocess (badExactLen serialLenChar) buf n = Inr ((l, c), k)" for l c k
    using that by (auto simp: seqPreprocess_def dbind_def deserializeUInt_def read_le_def
        split: if_splits)
  show "deserializeCharVector buf n =
      deserializeFixedWith deserializeChar serialLenChar elemsLen buf n"
    using same [OF pre]
    by (cases "seqPreprocess (badExactLen serialLenChar) buf n")
      (auto simp: deserializeCharVector_def deserializeFixedWith_def char_elems split: prod.split)
qed

interpretation charvec: codec serializeCharVector deserializeCharVector serialLenCharVector
  "seq_ok (\<lambda>_. True) (\<lambda>_. serialLenChar)"
  unfolding serializeCharVector_def char_vector_loop serialLenCharVector_def
  by (rule char.fixed_codec) (simp_all add: int_list_lens elemsLen_header)

section \<open>String lists stay inside the buffer\<close>

lemma read_cstr_stops:
  "j < length buf \<Longrightarrow> buf ! j = 0 \<Longrightarrow> \<exists>s. read_cstr buf = Some s \<and> length s \<le> j"
proof (induction buf arbitrary: j)
  case (Cons b bs)
  show ?case
  proof (cases j)
    case 0
    with Cons.prems show ?thesis by simp
  next
    case (Suc i)
    with Cons.IH [of i] Cons.prems show ?thesis by auto
  qed
qed simp

lemma stringElems_inside:
  "len \<le> length buf \<Longrightarrow> len = 0 \<or> buf ! (len - 1) = 0 \<Longrightarrow>
     stringElems k len buf \<noteq> Inl ReadBeyondBuffer"
proof (induction k arbitrary: len buf)
  case (Suc k)
  show ?case
  proof (cases "len = 0")
    case False
    with Suc.prems have "len - 1 < length buf" "buf ! (len - 1) = 0" by simp_all
    from read_cstr_stops [OF this] obtain s where
      s: "read_cstr buf = Some s" "length s \<le> len - 1" by blast
    let ?d = "length s + 1"
    have "len - ?d = 0 \<or> drop ?d buf ! (len - ?d - 1) = 0"
    proof (cases "len - ?d = 0")
      case False
      then have "?d + (len - ?d - 1) = len - 1" by linarith
      moreover have "drop ?d buf ! (len - ?d - 1) = buf ! (?d + (len - ?d - 1))"
        using Suc.prems(1) False by (intro nth_drop) linarith
      ultimately show ?thesis using Suc.prems(2) \<open>len \<noteq> 0\<close> by metis
    qed simp
    moreover have "len - ?d \<le> length (drop ?d buf)" using Suc.prems(1) by simp
    ultimately have "stringElems k (len - ?d) (drop ?d buf) \<noteq> Inl ReadBeyondBuffer"
      by (intro Suc.IH)
    with s False show ?thesis by (auto split: sum.split)
  qed simp
qed simp

lemma seqPreprocess_fields:
  "8 \<le> n \<Longrightarrow> n \<le> length buf \<Longrightarrow> seqPreprocess (\<lambda>_ _ _. False) buf n =
     Inr ((le_decode (take 4 buf), le_decode (take 4 (drop 4 buf))), 8)"
  by (simp add: seqPreprocess_def dbind_def deserializeUInt_def read_le_def not_less le_diff_conv2)

lemma stringVec_as_list:
  assumes "n \<le> length buf" "8 \<le> unat (le_decode (take 4 buf) :: u32)"
  shows "deserializeStringsWith False buf n = deserializeStringsWith True buf n"
proof (cases "8 \<le> n")
  case True
  with assms show ?thesis
    by (simp add: deserializeStringsWith_def seqPreprocess_fields badStringList_def
        serialLenUInt_def word_less_nat_alt)
next
  case False
  then have "seqPreprocess (\<lambda>_ _ _. False) buf n = Inl DecodeFail"
    by (rule_tac seqPreprocess_cases [OF assms(1)]) auto
  then show ?thesis by (simp add: deserializeStringsWith_def)
qed

lemma stringVec_accepts:
  "deserializeStringsWith True buf n = Inr r \<Longrightarrow> deserializeStringsWith False buf n = Inr r"
  by (auto simp: deserializeStringsWith_def badStringList_def split: sum.splits if_splits
      option.splits)

interpretation string_order: strict_comparator "(<) :: string \<Rightarrow> string \<Rightarrow> bool"
  by unfold_locales auto

lemma stringList_inside:
  assumes n: "n \<le> length buf"
  shows "inside n (deserializeStringsWith True buf n)"
proof (rule seqPreprocess_cases [OF n, of "\<lambda>_ _ _. False"])
  fix l c
  assume pre: "seqPreprocess (\<lambda>_ _ _. False) buf n = Inr ((l, c), 8)" "8 \<le> n"
  show ?thesis
  proof (cases "badStringList True buf n l c")
    case None
    then have l: "unat l \<le> n" "8 \<le> unat l" and z: "c \<noteq> 0 \<Longrightarrow> buf ! (unat l - 1) = 0"
      by (auto simp: badStringList_def word_less_nat_alt serialLenUInt_def split: if_splits)
    have len: "elemsLen l = unat l - 8"
      using l(2) by (simp add: elemsLen_def serialLenUInt_def unat_sub word_le_nat_alt)
    have "stringElems (unat c) (elemsLen l) (drop 8 buf) \<noteq> Inl ReadBeyondBuffer"
    proof (cases "c = 0")
      case False
      have "drop 8 buf ! (unat l - 8 - 1) = 0" if "unat l \<noteq> 8"
      proof -
        have "8 + (unat l - 8 - 1) = unat l - 1" using that l(2) by linarith
        then show ?thesis using z [OF False] n l by (metis nth_drop order_trans)
      qed
      with n l show ?thesis by (intro stringElems_inside) (auto simp: len simp del: nth_drop)
    qed simp
    then show ?thesis
      using pre None l(1) by (auto simp: deserializeStringsWith_def split: sum.split decode_error.split)
        (metis decode_error.exhaust)
  next
    case (Some e)
    with n pre show ?thesis
      by (auto simp: deserializeStringsWith_def badStringList_def word_less_nat_alt
          serialLenUInt_def split: if_splits)
  qed
qed (simp add: deserializeStringsWith_def)

section \<open>Properties\<close>

lemma serialLenStrAlign4_small:
  assumes "unat v < 4294967288"
  shows "unat v + 5 \<le> unat (serialLenStrAlign4 v)"
proof (cases "unat v < 4294967284")
  case True
  then show ?thesis
    using serialLenStrAlign4_unat [OF True] align4_le [of "unat v + 5"] by simp
next
  case False
  with assms have "v \<in> {4294967284, 4294967285, 4294967286, 4294967287}"
    by (auto simp: word_unat_eq_iff)
  then show ?thesis by (auto simp: serialLenStrAlign4_def serialLenUInt_def)
qed

lemma serialLenStrAlign4_wraps:
  assumes "4294967288 \<le> unat v"
  shows "unat (serialLenStrAlign4 v) \<le> 4"
proof -
  have "unat v < 4294967296" using unsigned_less [of v, where ?'a = nat] by simp
  with assms have "v \<in> {4294967288, 4294967289, 4294967290, 4294967291, 4294967292, 4294967293,
      4294967294, 4294967295}"
    by (auto simp: word_unat_eq_iff)
  then show ?thesis by (auto simp: serialLenStrAlign4_def serialLenUInt_def)
qed

text \<open>
  Reading an aligned string from a complete buffer never reads past its end, except
  when the length field is one of the eight largest 32-bit values: then the serial length
  wraps around to at most 4, passes the length check, and the terminating zero is looked up
  almost 4 GiB behind the buffer.
\<close>

theorem deserializeStrAlign4_bounds:
  assumes "8 \<le> length buf" "length buf < 4294967288"
  shows "deserializeStrAlign4 buf (length buf) = Inl ReadBeyondBuffer \<longleftrightarrow>
    4294967288 \<le> unat (le_decode (take 4 buf) :: u32)"
proof -
  define v :: u32 where "v = le_decode (take 4 buf)"
  have l0: "unat (serialLenStrAlign4 0) = 8"
    using serialLenStrAlign4_unat [of 0] by (simp add: align4_def)
  have "deserializeUInt buf (length buf) = Inr (v, 4)"
    using assms by (simp add: deserializeUInt_def read_le_def v_def)
  then show ?thesis
    using assms l0 serialLenStrAlign4_small [of v] serialLenStrAlign4_wraps [of v]
    by (cases "unat v < 4294967288")
      (auto simp: deserializeStrAlign4_def deserializeStrWith_def Let_def simp flip: v_def)
qed

theorem deserializeStrAlign4_bounds_witness:
  "deserializeStrAlign4 [255, 255, 255, 255, 0, 0, 0, 0] (length [255, 255, 255, 255, 0, 0, 0, 0 :: u8])
     = Inl ReadBeyondBuffer"
  by (rule deserializeStrAlign4_bounds [THEN iffD2]) simp_all

definition exact_list :: "nat \<Rightarrow> u32 \<Rightarrow> decode_error + 'a list \<times> nat \<Rightarrow> bool" where
  "exact_list n L r \<longleftrightarrow> r = Inl DecodeFail \<or>
     (\<exists>xs. r = Inr (xs, 8 + length xs * unat L) \<and> 8 + length xs * unat L \<le> n)"

text \<open>
  Reading an integer list from a complete buffer, whatever its bytes are, never leaves
  the buffer. It is accepted only with the exact total length for its element count (the
  32-bit product of the check cannot be fooled by wrapping around), and it then returns just
  that many elements.
\<close>

theorem integer_lists_stay_inside:
  assumes "n \<le> length buf"
  shows "exact_list n 1 (deserializeUInt8List buf n) \<and>
    exact_list n 2 (deserializeUShortVector buf n) \<and>
    exact_list n 2 (deserializeUInt16List buf n) \<and>
    exact_list n 2 (deserializeUInt16Vector buf n) \<and>
    exact_list n 4 (deserializeIntList buf n) \<and>
    exact_list n 4 (deserializeIntVector buf n) \<and>
    exact_list n 4 (deserializeUIntList buf n) \<and>
    exact_list n 4 (deserializeUIntVector buf n) \<and>
    exact_list n 8 (deserializeInt64List buf n) \<and>
    exact_list n 8 (deserializeInt64Vector buf n) \<and>
    exact_list n 8 (deserializeUInt64List buf n) \<and>
    exact_list n 8 (deserializeUInt64Vector buf n) \<and>
    exact_list n 1 (deserializeBoolList buf n) \<and>
    exact_list n 1 (deserializeCharVector buf n)"
  using uint8_fixed.fixed_safe [OF assms refl]
    ushort_fixed.fixed_safe [OF assms refl]
    int_fixed.fixed_safe [OF assms refl]
    uint_fixed.fixed_safe [OF assms refl]
    int64_fixed.fixed_safe [OF assms refl]
    uint64_fixed.fixed_safe [OF assms refl]
    bool_fixed.fixed_safe [OF assms refl]
    char_fixed.fixed_safe [OF assms refl]
  by (simp add: exact_list_def int_list_lens char_vector_loop
    deserializeUInt8List_def
    deserializeUShortVector_def
    deserializeUInt16List_def
    deserializeUInt16Vector_def
    deserializeIntList_def
    deserializeIntVector_def
    deserializeUIntList_def
    deserializeUIntVector_def
    deserializeInt64List_def
    deserializeInt64Vector_def
    deserializeUInt64List_def
    deserializeUInt64Vector_def
    deserializeBoolList_def)

theorem integer_lists_stay_inside_witness:
  "exact_list 3 1 (deserializeUInt8List [0, 0, 0] 3) \<and>
   exact_list 16 8 (deserializeUInt64List (serializeUInt64List [5]) 16)"
  using integer_lists_stay_inside [of 3 "[0, 0, 0]"]
    integer_lists_stay_inside [of 16 "serializeUInt64List [5]"] uint64s.ser_len [of "[5]"]
  by (simp add: seq_ok_def serialLenUInt64List_def serialLenFixed_def int_list_lens)

text \<open>
  Reading a string list or set from a complete buffer never leaves the buffer and
  consumes at most the buffer, whatever its bytes are. The vector variant lacks the check of
  the minimum length: with a length field below 8 it looks for the end of the first string
  behind the buffer.
\<close>

theorem string_lists_stay_inside:
  assumes "n \<le> length buf"
  shows "inside n (deserializeStringList buf n) \<and> inside n (deserializeStringSet buf n) \<and>
    (deserializeStringVec buf n = Inl ReadBeyondBuffer \<longrightarrow> unat (le_decode (take 4 buf) :: u32) < 8) \<and>
    deserializeStringVec [4, 0, 0, 0, 1, 0, 0, 0] 8 = Inl ReadBeyondBuffer"
proof -
  have l: "inside n (deserializeStringList buf n)"
    using stringList_inside [OF assms] by (simp add: deserializeStringList_def)
  moreover from l have "inside n (deserializeStringSet buf n)"
    by (cases rule: insideE) (auto simp: deserializeStringSet_def deserializeStringList_def)
  moreover have "unat (le_decode (take 4 buf) :: u32) < 8"
    if "deserializeStringVec buf n = Inl ReadBeyondBuffer"
  proof (rule ccontr)
    assume "\<not> ?thesis"
    with that assms have "deserializeStringList buf n = Inl ReadBeyondBuffer"
      by (simp add: deserializeStringVec_def deserializeStringList_def stringVec_as_list)
    with l show False by simp
  qed
  moreover have "deserializeStringVec [4, 0, 0, 0, 1, 0, 0, 0] 8 = Inl ReadBeyondBuffer"
    by (simp add: deserializeStringVec_def deserializeStringsWith_def seqPreprocess_fields
        badStringList_def elemsLen_def serialLenUInt_def)
  ultimately show ?thesis by blast
qed

theorem string_lists_stay_inside_witness:
  "inside 3 (deserializeStringList [1, 2, 3] 3)"
  using string_lists_stay_inside [of 3 "[1, 2, 3]"] by simp

text \<open>
  String lists, vectors and sets written by one node are read back exactly by another,
  and the reader consumes exactly the bytes written; a set comes back in its order.
\<close>

theorem string_lists_round_trip:
  assumes ok: "seq_ok cstr_ok cstr_len ss" and n: "length (serializeStringList ss) \<le> n"
  shows "deserializeStringList (serializeStringList ss @ rest) n =
      Inr (ss, length (serializeStringList ss)) \<and>
    deserializeStringVec (serializeStringVec ss @ rest) n =
      Inr (ss, length (serializeStringVec ss)) \<and>
    (sorted_wrt (<) ss \<longrightarrow> deserializeStringSet (serializeStringSet ss @ rest) n =
      Inr (ss, length (serializeStringSet ss)))"
proof -
  note len = strings.ser_len [OF ok]
  have same: "serializeStringVec ss = serializeStringList ss" "serializeStringSet ss = serializeStringList ss"
    by (simp_all add: serializeStringVec_def serializeStringSet_def serializeStringList_def)
  have l: "deserializeStringsWith True (serializeStringList ss @ rest) n =
      Inr (ss, length (serializeStringList ss))"
    using strings.round_trip [OF ok] n by (simp add: len deserializeStringList_def)
  moreover have "fold (set_insert (<)) ss [] = ss" if "sorted_wrt (<) ss"
    using string_order.insert_in_order [of "[]" ss] that by simp
  ultimately show ?thesis
    using stringVec_accepts [OF l]
    by (simp add: same deserializeStringList_def deserializeStringVec_def deserializeStringSet_def)
qed

theorem string_lists_round_trip_witness:
  "deserializeStringSet (serializeStringSet [''ab'', ''b''] @ [9]) 20 =
     Inr ([''ab'', ''b''], length (serializeStringSet [''ab'', ''b'']))"
proof -
  have "seq_ok cstr_ok cstr_len [''ab'', ''b'']"
    by (simp add: seq_ok_def cstr_ok_def cstr_len_def)
  from string_lists_round_trip [OF this, of 20 "[9]"] show ?thesis
    by (simp add: serializeStringList_def serializeSeq_def uint.ser_len serialLenUInt_def cstr_def)
qed

end
