(* ===== verification/LockSerial.thy ===== *)
theory LockSerial
  imports RangeLocking Serial
begin

text \<open>
  Serialization of the lock state of an inode (\<open>Locking.cpp\<close>, \<open>LockingTk.cpp\<close> and the
  \<open>...LockState\<close> methods of \<open>FileInode.cpp\<close>): the metadata server stores the granted locks of
  its sessions with them. Sets are written in iteration order and rebuilt by insertion.
\<close>

section \<open>Lock details\<close>

definition el_serialize :: "EntryLockDetails \<Rightarrow> u8 list" where
  "el_serialize l =
     serializeStrAlign4 (el_clientID l) @ serializeInt64 (el_clientFD l) @
     serializeInt (el_ownerPID l) @ serializeStrAlign4 (el_lockAckID l) @
     serializeInt (el_lockTypeFlags l)"

definition el_deserialize :: "EntryLockDetails decoder" where
  "el_deserialize =
     dbind deserializeStrAlign4 (\<lambda>clientID.
     dbind deserializeInt64 (\<lambda>clientFD.
     dbind deserializeInt (\<lambda>ownerPID.
     dbind deserializeStrAlign4 (\<lambda>lockAckID.
     dbind deserializeInt (\<lambda>lockTypeFlags.
     dreturn \<lparr>el_clientID = clientID, el_clientFD = clientFD, el_ownerPID = ownerPID,
              el_lockAckID = lockAckID, el_lockTypeFlags = lockTypeFlags\<rparr>)))))"

definition el_serialLen :: "EntryLockDetails \<Rightarrow> u32" where
  "el_serialLen l =
     serialLenStrAlign4 (word_of_nat (length (el_clientID l))) + serialLenInt64 + serialLenInt +
     serialLenStrAlign4 (word_of_nat (length (el_lockAckID l))) + serialLenInt"

definition rl_serialize :: "RangeLockDetails \<Rightarrow> u8 list" where
  "rl_serialize l =
     serializeStrAlign4 (rl_clientID l) @ serializeInt (rl_ownerPID l) @
     serializeStrAlign4 (rl_lockAckID l) @ serializeInt (rl_lockTypeFlags l) @
     serializeUInt64 (rl_start l) @ serializeUInt64 (rl_end l)"

definition rl_deserialize :: "RangeLockDetails decoder" where
  "rl_deserialize =
     dbind deserializeStrAlign4 (\<lambda>clientID.
     dbind deserializeInt (\<lambda>ownerPID.
     dbind deserializeStrAlign4 (\<lambda>lockAckID.
     dbind deserializeInt (\<lambda>lockTypeFlags.
     dbind deserializeUInt64 (\<lambda>start.
     dbind deserializeUInt64 (\<lambda>end.
     dreturn \<lparr>rl_clientID = clientID, rl_ownerPID = ownerPID, rl_lockAckID = lockAckID,
              rl_lockTypeFlags = lockTypeFlags, rl_start = start, rl_end = end\<rparr>))))))"

definition rl_serialLen :: "RangeLockDetails \<Rightarrow> u32" where
  "rl_serialLen l =
     serialLenStrAlign4 (word_of_nat (length (rl_clientID l))) + serialLenInt +
     serialLenStrAlign4 (word_of_nat (length (rl_lockAckID l))) + serialLenInt +
     serialLenUInt64 + serialLenUInt64"

definition entryLockDetailsEquals :: "EntryLockDetails \<Rightarrow> EntryLockDetails \<Rightarrow> bool" where
  "entryLockDetailsEquals a b \<longleftrightarrow>
     el_clientID a = el_clientID b \<and> el_clientFD a = el_clientFD b \<and>
     el_ownerPID a = el_ownerPID b \<and> el_lockAckID a = el_lockAckID b \<and>
     el_lockTypeFlags a = el_lockTypeFlags b"

definition rangeLockDetailsEquals :: "RangeLockDetails \<Rightarrow> RangeLockDetails \<Rightarrow> bool" where
  "rangeLockDetailsEquals a b \<longleftrightarrow>
     rl_clientID a = rl_clientID b \<and> rl_ownerPID a = rl_ownerPID b \<and>
     rl_lockAckID a = rl_lockAckID b \<and> rl_lockTypeFlags a = rl_lockTypeFlags b \<and>
     rl_start a = rl_start b \<and> rl_end a = rl_end b"

section \<open>Lists and sets of locks\<close>

definition serializeEntryLockDetailsList :: "EntryLockDetails list \<Rightarrow> u8 list" where
  "serializeEntryLockDetailsList = serializeSeq el_serialize el_serialLen"

definition deserializeEntryLockDetailsList :: "EntryLockDetails list decoder" where
  "deserializeEntryLockDetailsList = deserializeSeq el_deserialize"

definition serialLenEntryLockDetailsList :: "EntryLockDetails list \<Rightarrow> u32" where
  "serialLenEntryLockDetailsList = serialLenSeq el_serialLen"

definition serializeEntryLockDetailsSet :: "EntryLockDetails list \<Rightarrow> u8 list" where
  "serializeEntryLockDetailsSet = serializeSeq el_serialize el_serialLen"

text \<open>The elements are inserted into the given set one by one.\<close>

definition deserializeSetWith ::
    "('a \<Rightarrow> 'a \<Rightarrow> bool) \<Rightarrow> 'a decoder \<Rightarrow> 'a list \<Rightarrow> 'a list decoder" where
  "deserializeSetWith lt d old buf bufLen =
     (case deserializeSeq d buf bufLen of
        Inl e \<Rightarrow> Inl e
      | Inr (xs, n) \<Rightarrow> Inr (fold (set_insert lt) xs old, n))"

definition deserializeEntryLockDetailsSet ::
    "EntryLockDetails list \<Rightarrow> EntryLockDetails list decoder" where
  "deserializeEntryLockDetailsSet = deserializeSetWith el_less el_deserialize"

definition serialLenEntryLockDetailsSet :: "EntryLockDetails list \<Rightarrow> u32" where
  "serialLenEntryLockDetailsSet = serialLenSeq el_serialLen"

definition serializeRangeLockDetailsList :: "RangeLockDetails list \<Rightarrow> u8 list" where
  "serializeRangeLockDetailsList = serializeSeq rl_serialize rl_serialLen"

definition deserializeRangeLockDetailsList :: "RangeLockDetails list decoder" where
  "deserializeRangeLockDetailsList = deserializeSeq rl_deserialize"

definition serialLenRangeLockDetailsList :: "RangeLockDetails list \<Rightarrow> u32" where
  "serialLenRangeLockDetailsList = serialLenSeq rl_serialLen"

definition serializeRangeLockExclSet :: "RangeLockDetails list \<Rightarrow> u8 list" where
  "serializeRangeLockExclSet = serializeSeq rl_serialize rl_serialLen"

definition deserializeRangeLockExclSet ::
    "RangeLockDetails list \<Rightarrow> RangeLockDetails list decoder" where
  "deserializeRangeLockExclSet = deserializeSetWith rl_lessExcl rl_deserialize"

definition serialLenRangeLockExclSet :: "RangeLockDetails list \<Rightarrow> u32" where
  "serialLenRangeLockExclSet = serialLenSeq rl_serialLen"

definition serializeRangeLockSharedSet :: "RangeLockDetails list \<Rightarrow> u8 list" where
  "serializeRangeLockSharedSet = serializeSeq rl_serialize rl_serialLen"

definition deserializeRangeLockSharedSet ::
    "RangeLockDetails list \<Rightarrow> RangeLockDetails list decoder" where
  "deserializeRangeLockSharedSet = deserializeSetWith rl_lessShared rl_deserialize"

definition serialLenRangeLockSharedSet :: "RangeLockDetails list \<Rightarrow> u32" where
  "serialLenRangeLockSharedSet = serialLenSeq rl_serialLen"

text \<open>The comparison of lists and sets walks over both in parallel.\<close>

definition listEqualsWith :: "('a \<Rightarrow> 'a \<Rightarrow> bool) \<Rightarrow> 'a list \<Rightarrow> 'a list \<Rightarrow> bool" where
  "listEqualsWith eq xs ys \<longleftrightarrow> length xs = length ys \<and> list_all2 eq xs ys"

definition entryLockDetailsListEquals :: "EntryLockDetails list \<Rightarrow> EntryLockDetails list \<Rightarrow> bool" where
  "entryLockDetailsListEquals = listEqualsWith entryLockDetailsEquals"

definition rangeLockDetailsListEquals :: "RangeLockDetails list \<Rightarrow> RangeLockDetails list \<Rightarrow> bool" where
  "rangeLockDetailsListEquals = listEqualsWith rangeLockDetailsEquals"

section \<open>The lock state of an inode\<close>

text \<open>All locks of an inode: append, flock and range locks.\<close>

record InodeLocks =
  appendLocks :: AppendLocks
  entryLocks :: EntryLockQueues
  rangeLocks :: RangeLocks

definition serializeLockState :: "InodeLocks \<Rightarrow> u8 list" where
  "serializeLockState f =
     el_serialize (exclAppendLock (appendLocks f)) @
     el_serialize (exclLock (entryLocks f)) @
     serializeEntryLockDetailsSet (sharedLocks (entryLocks f)) @
     serializeRangeLockExclSet (exclRangeFLocks (rangeLocks f)) @
     serializeRangeLockSharedSet (sharedRangeFLocks (rangeLocks f))"

definition deserializeLockState :: "InodeLocks \<Rightarrow> InodeLocks decoder" where
  "deserializeLockState f =
     dbind el_deserialize (\<lambda>exclAppend.
     dbind el_deserialize (\<lambda>exclF.
     dbind (deserializeEntryLockDetailsSet (sharedLocks (entryLocks f))) (\<lambda>sharedF.
     dbind (deserializeRangeLockExclSet (exclRangeFLocks (rangeLocks f))) (\<lambda>exclRange.
     dbind (deserializeRangeLockSharedSet (sharedRangeFLocks (rangeLocks f))) (\<lambda>sharedRange.
     dreturn (f\<lparr>appendLocks := (appendLocks f)\<lparr>exclAppendLock := exclAppend\<rparr>,
                entryLocks := (entryLocks f)\<lparr>exclLock := exclF, sharedLocks := sharedF\<rparr>,
                rangeLocks := (rangeLocks f)\<lparr>exclRangeFLocks := exclRange,
                                            sharedRangeFLocks := sharedRange\<rparr>\<rparr>))))))"

definition serialLenLockState :: "InodeLocks \<Rightarrow> u32" where
  "serialLenLockState f =
     el_serialLen (exclAppendLock (appendLocks f)) +
     el_serialLen (exclLock (entryLocks f)) +
     serialLenEntryLockDetailsSet (sharedLocks (entryLocks f)) +
     serialLenRangeLockExclSet (exclRangeFLocks (rangeLocks f)) +
     serialLenRangeLockSharedSet (sharedRangeFLocks (rangeLocks f))"

section \<open>The codecs\<close>

text \<open>IDs of realistic size: together far below the 32-bit length arithmetic.\<close>

definition id_ok :: "string \<Rightarrow> bool" where
  "id_ok s \<longleftrightarrow> length s < 1000000"

definition el_ok :: "EntryLockDetails \<Rightarrow> bool" where
  "el_ok l \<longleftrightarrow> id_ok (el_clientID l) \<and> id_ok (el_lockAckID l)"

definition rl_ok :: "RangeLockDetails \<Rightarrow> bool" where
  "rl_ok l \<longleftrightarrow> id_ok (rl_clientID l) \<and> id_ok (rl_lockAckID l)"

lemma id_str_ok: "id_ok s \<Longrightarrow> str_ok s"
  by (simp add: id_ok_def str_ok_def)

lemma id_len: "id_ok s \<Longrightarrow> unat (serialLenStrAlign4 (word_of_nat (length s))) \<le> 1000008"
  using serialLenStrAlign4_unat [of "length s"] align4_less [of "length s + 5"]
  by (simp add: id_ok_def)

lemmas int_lens = serialLenInt_def serialLenInt64_def serialLenUInt_def serialLenUInt64_def

lemma el_serialLen_unat:
  "el_ok l \<Longrightarrow> unat (el_serialLen l) =
     unat (serialLenStrAlign4 (word_of_nat (length (el_clientID l)))) + 16 +
     unat (serialLenStrAlign4 (word_of_nat (length (el_lockAckID l))))"
  using id_len [of "el_clientID l"] id_len [of "el_lockAckID l"]
  by (simp add: el_ok_def el_serialLen_def int_lens unat_word_ariths)

lemma rl_serialLen_unat:
  "rl_ok l \<Longrightarrow> unat (rl_serialLen l) =
     unat (serialLenStrAlign4 (word_of_nat (length (rl_clientID l)))) + 24 +
     unat (serialLenStrAlign4 (word_of_nat (length (rl_lockAckID l))))"
  using id_len [of "rl_clientID l"] id_len [of "rl_lockAckID l"]
  by (simp add: rl_ok_def rl_serialLen_def int_lens unat_word_ariths)

interpretation el: codec el_serialize el_deserialize el_serialLen el_ok
proof (rule codecI)
  fix l
  assume ok: "el_ok l"
  then have ids: "str_ok (el_clientID l)" "str_ok (el_lockAckID l)"
    by (simp_all add: el_ok_def id_str_ok)
  show "reads el_deserialize l (el_serialize l) (unat (el_serialLen l))"
    unfolding el_serialize_def el_deserialize_def
    by (rule reads_len, (rule reads_bind reads_last str4.reads int64.reads int.reads ids TrueI)+)
      (simp_all add: el_serialLen_unat [OF ok] int_lens)
qed

interpretation rl: codec rl_serialize rl_deserialize rl_serialLen rl_ok
proof (rule codecI)
  fix l
  assume ok: "rl_ok l"
  then have ids: "str_ok (rl_clientID l)" "str_ok (rl_lockAckID l)"
    by (simp_all add: rl_ok_def id_str_ok)
  show "reads rl_deserialize l (rl_serialize l) (unat (rl_serialLen l))"
    unfolding rl_serialize_def rl_deserialize_def
    by (rule reads_len, (rule reads_bind reads_last str4.reads uint64.reads int.reads ids TrueI)+)
      (simp_all add: rl_serialLen_unat [OF ok] int_lens)
qed

lemma set_codec:
  assumes seq: "codec (serializeSeq ser len) (deserializeSeq d) (serialLenSeq len) ok"
    and order: "strict_comparator lt"
  shows "codec (serializeSeq ser len) (deserializeSetWith lt d []) (serialLenSeq len)
    (\<lambda>xs. ok xs \<and> sorted_wrt lt xs)"
proof
  fix xs rest n
  assume xs: "ok xs \<and> sorted_wrt lt xs"
  have "fold (set_insert lt) xs [] = xs"
    using strict_comparator.insert_in_order [OF order, of "[]" xs] xs by simp
  then show "unat (serialLenSeq len xs) \<le> n \<Longrightarrow>
      deserializeSetWith lt d [] (serializeSeq ser len xs @ rest) n =
        Inr (xs, unat (serialLenSeq len xs))"
    using codec.round_trip [OF seq] xs by (simp add: deserializeSetWith_def)
  show "length (serializeSeq ser len xs) = unat (serialLenSeq len xs)"
    using codec.ser_len [OF seq] xs by simp
  show "n < unat (serialLenSeq len xs) \<Longrightarrow>
      deserializeSetWith lt d [] (serializeSeq ser len xs @ rest) n = Inl DecodeFail"
    using codec.too_short [OF seq] xs by (simp add: deserializeSetWith_def)
qed

interpretation entryLockList: codec serializeEntryLockDetailsList deserializeEntryLockDetailsList
  serialLenEntryLockDetailsList "seq_ok el_ok el_serialLen"
  unfolding serializeEntryLockDetailsList_def deserializeEntryLockDetailsList_def
    serialLenEntryLockDetailsList_def by (rule el.seq_codec)

interpretation rangeLockList: codec serializeRangeLockDetailsList deserializeRangeLockDetailsList
  serialLenRangeLockDetailsList "seq_ok rl_ok rl_serialLen"
  unfolding serializeRangeLockDetailsList_def deserializeRangeLockDetailsList_def
    serialLenRangeLockDetailsList_def by (rule rl.seq_codec)

interpretation entryLockSet: codec serializeEntryLockDetailsSet "deserializeEntryLockDetailsSet []"
  serialLenEntryLockDetailsSet "\<lambda>xs. seq_ok el_ok el_serialLen xs \<and> sorted_wrt el_less xs"
  unfolding serializeEntryLockDetailsSet_def deserializeEntryLockDetailsSet_def
    serialLenEntryLockDetailsSet_def
  by (rule set_codec [OF el.seq_codec el_order.strict_comparator_axioms])

interpretation rangeExclSet: codec serializeRangeLockExclSet "deserializeRangeLockExclSet []"
  serialLenRangeLockExclSet "\<lambda>xs. seq_ok rl_ok rl_serialLen xs \<and> sorted_wrt rl_lessExcl xs"
  unfolding serializeRangeLockExclSet_def deserializeRangeLockExclSet_def
    serialLenRangeLockExclSet_def
  by (rule set_codec [OF rl.seq_codec excl_set.strict_comparator_axioms])

interpretation rangeSharedSet: codec serializeRangeLockSharedSet "deserializeRangeLockSharedSet []"
  serialLenRangeLockSharedSet "\<lambda>xs. seq_ok rl_ok rl_serialLen xs \<and> sorted_wrt rl_lessShared xs"
  unfolding serializeRangeLockSharedSet_def deserializeRangeLockSharedSet_def
    serialLenRangeLockSharedSet_def
  by (rule set_codec [OF rl.seq_codec shared_set.strict_comparator_axioms])

lemma equals_iff:
  "entryLockDetailsEquals a b \<longleftrightarrow> a = b" "rangeLockDetailsEquals c d \<longleftrightarrow> c = d"
  "entryLockDetailsListEquals xs ys \<longleftrightarrow> xs = ys" "rangeLockDetailsListEquals zs us \<longleftrightarrow> zs = us"
proof -
  have e: "entryLockDetailsEquals = (=)" by (intro ext) (auto simp: entryLockDetailsEquals_def)
  have r: "rangeLockDetailsEquals = (=)" by (intro ext) (auto simp: rangeLockDetailsEquals_def)
  show "entryLockDetailsEquals a b \<longleftrightarrow> a = b" "rangeLockDetailsEquals c d \<longleftrightarrow> c = d"
    by (simp_all add: e r)
  show "entryLockDetailsListEquals xs ys \<longleftrightarrow> xs = ys"
    by (auto simp: entryLockDetailsListEquals_def listEqualsWith_def e list.rel_eq)
  show "rangeLockDetailsListEquals zs us \<longleftrightarrow> zs = us"
    by (auto simp: rangeLockDetailsListEquals_def listEqualsWith_def r list.rel_eq)
qed

section \<open>Properties\<close>

text \<open>Lock states with realistic IDs whose total size fits the 32-bit lengths.\<close>

definition lock_state_ok :: "InodeLocks \<Rightarrow> bool" where
  "lock_state_ok f \<longleftrightarrow>
     el_ok (exclAppendLock (appendLocks f)) \<and> el_ok (exclLock (entryLocks f)) \<and>
     seq_ok el_ok el_serialLen (sharedLocks (entryLocks f)) \<and>
     seq_ok rl_ok rl_serialLen (exclRangeFLocks (rangeLocks f)) \<and>
     seq_ok rl_ok rl_serialLen (sharedRangeFLocks (rangeLocks f))"

definition granted_only :: "InodeLocks \<Rightarrow> InodeLocks \<Rightarrow> InodeLocks" where
  "granted_only f g =
     g\<lparr>appendLocks := (appendLocks g)\<lparr>exclAppendLock := exclAppendLock (appendLocks f)\<rparr>,
       entryLocks := (entryLocks g)\<lparr>exclLock := exclLock (entryLocks f),
                                    sharedLocks := sharedLocks (entryLocks f)\<rparr>,
       rangeLocks := (rangeLocks g)\<lparr>exclRangeFLocks := exclRangeFLocks (rangeLocks f),
                                    sharedRangeFLocks := sharedRangeFLocks (rangeLocks f)\<rparr>\<rparr>"

text \<open>
  The lock state that a metadata server writes with its sessions is read back exactly:
  in an inode without granted locks, \<open>deserializeLockState\<close> restores every granted append,
  flock and range lock and consumes exactly the bytes that \<open>serializeLockState\<close> has written.
\<close>

theorem lock_state_round_trip:
  assumes ok: "lock_state_ok f" and inv: "entry_inv (entryLocks f)" "range_inv (rangeLocks f)"
    and empty: "sharedLocks (entryLocks g) = []" "exclRangeFLocks (rangeLocks g) = []"
      "sharedRangeFLocks (rangeLocks g) = []"
    and n: "length (serializeLockState f) \<le> n"
  shows "deserializeLockState g (serializeLockState f @ rest) n =
    Inr (granted_only f g, length (serializeLockState f))"
proof -
  have order: "sorted_wrt el_less (sharedLocks (entryLocks f))"
    "sorted_wrt rl_lessExcl (exclRangeFLocks (rangeLocks f))"
    "sorted_wrt rl_lessShared (sharedRangeFLocks (rangeLocks f))"
    using inv by (simp_all add: entry_inv_def entry_wf_def range_inv_def range_wf_def lock_set_def)
  note parts = ok [unfolded lock_state_ok_def]
  have len: "length (serializeLockState f) =
      unat (el_serialLen (exclAppendLock (appendLocks f))) +
      (unat (el_serialLen (exclLock (entryLocks f))) +
       (unat (serialLenEntryLockDetailsSet (sharedLocks (entryLocks f))) +
        (unat (serialLenRangeLockExclSet (exclRangeFLocks (rangeLocks f))) +
         unat (serialLenRangeLockSharedSet (sharedRangeFLocks (rangeLocks f))))))"
    using parts order
    by (simp add: serializeLockState_def el.ser_len entryLockSet.ser_len rangeExclSet.ser_len
        rangeSharedSet.ser_len)
  show ?thesis
    using n parts order unfolding len
    by (simp add: deserializeLockState_def serializeLockState_def empty el.then_read
        entryLockSet.then_read rangeExclSet.then_read rangeSharedSet.then_read dreturn_def
        granted_only_def)
qed

definition demo_inode :: InodeLocks where
  "demo_inode =
     \<lparr>appendLocks = appendLocks_of (no_locks (demo_lock ''z'' 0 ''k0'' 0)),
      entryLocks = no_locks (demo_lock ''z'' 0 ''k0'' 0),
      rangeLocks = snd (flockRangeExclusive (demo_range ''a'' ''k1'' ENTRYLOCKTYPE_EXCLUSIVE 0 9)
        no_range_locks)\<rparr>"

lemmas serialize_defs =
  serializeLockState_def serializeEntryLockDetailsSet_def serializeRangeLockExclSet_def
  serializeRangeLockSharedSet_def serializeSeq_def el_serialize_def rl_serialize_def
  serializeStrAlign4_def serializeUInt_def serializeUInt64_def serializeInt_def
  serializeInt64_def serialLenSeq_def

lemmas lock_serial_eval =
  el_ok_def rl_ok_def id_ok_def seq_ok_def el_serialLen_def rl_serialLen_def int_lens
  serialLenStrAlign4_def Let_def el_unset_def appendLocks_of_def
  serialize_defs

theorem lock_state_round_trip_witness:
  "deserializeLockState (demo_inode\<lparr>rangeLocks := no_range_locks\<rparr>)
      (serializeLockState demo_inode @ [7, 7]) 1000 =
    Inr (demo_inode, length (serializeLockState demo_inode))"
proof -
  note ev = demo_inode_def no_locks_def no_range_locks_def demo_lock_def range_eval lock_serial_eval
  have ok: "lock_state_ok demo_inode"
    by (simp add: lock_state_ok_def ev)
  have inv: "entry_inv (entryLocks demo_inode)" "range_inv (rangeLocks demo_inode)"
    using no_locks_inv demo_range_inv by (simp_all add: demo_inode_def)
  have len: "length (serializeLockState demo_inode) \<le> 1000"
    by (simp add: ev le_encode_length)
  have "granted_only demo_inode (demo_inode\<lparr>rangeLocks := no_range_locks\<rparr>) = demo_inode"
    by (simp add: granted_only_def ev)
  then show ?thesis
    using lock_state_round_trip [OF ok inv _ _ _ len, of "demo_inode\<lparr>rangeLocks := no_range_locks\<rparr>" "[7, 7]"]
    by (simp add: demo_inode_def no_locks_def no_range_locks_def)
qed

end
