(* ===== verification/OrdMap.thy ===== *)
theory OrdMap
  imports Prelude
begin

text \<open>
  \<open>std::map\<close> as the list of its pairs in the order of the keys, and what the stores of the
  servers may assume of a table (\<open>lookup_table\<close>): the laws of insertion and removal. The lemmas
  on whole lists of insertions are proved once from these laws.
\<close>

section \<open>Ordered maps\<close>

text \<open>\<open>map[k] = v\<close> and \<open>map.erase(k)\<close>; \<open>map.find(k)\<close> is \<open>map_of\<close>.\<close>

fun map_set :: "'k::linorder \<Rightarrow> 'v \<Rightarrow> ('k \<times> 'v) list \<Rightarrow> ('k \<times> 'v) list" where
  "map_set k v [] = [(k, v)]"
| "map_set k v ((a, b) # m) =
     (if k < a then (k, v) # (a, b) # m
      else if k = a then (k, v) # m
      else (a, b) # map_set k v m)"

fun map_erase :: "'k \<Rightarrow> ('k \<times> 'v) list \<Rightarrow> ('k \<times> 'v) list" where
  "map_erase k [] = []"
| "map_erase k ((a, b) # m) = (if k = a then m else (a, b) # map_erase k m)"

text \<open>The loop that fills a map from a list of keys and a list of values.\<close>

definition map_fill :: "('k::linorder \<times> 'v) list \<Rightarrow> ('k \<times> 'v) list \<Rightarrow> ('k \<times> 'v) list" where
  "map_fill kvs m = fold (\<lambda>(k, v). map_set k v) kvs m"

definition map_ok :: "('k::linorder \<times> 'v) list \<Rightarrow> bool" where
  "map_ok m \<longleftrightarrow> sorted_wrt (<) (map fst m)"

lemma map_ok_simps [simp]:
  "map_ok []"
  "map_ok ((a, b) # m) \<longleftrightarrow> (\<forall>k \<in> fst ` set m. a < k) \<and> map_ok m"
  by (auto simp: map_ok_def)

lemma map_ok_distinct: "map_ok m \<Longrightarrow> distinct (map fst m)"
  by (simp add: map_ok_def strict_sorted_iff)

lemma map_set_keys [simp]: "fst ` set (map_set k v m) = insert k (fst ` set m)"
  by (induction k v m rule: map_set.induct) auto

lemma map_set_ok [simp]: "map_ok m \<Longrightarrow> map_ok (map_set k v m)"
  by (induction k v m rule: map_set.induct) auto

lemma map_of_set [simp]: "map_ok m \<Longrightarrow> map_of (map_set k v m) = (map_of m)(k \<mapsto> v)"
  by (induction k v m rule: map_set.induct) (auto simp: fun_eq_iff)

lemma map_erase_subset: "set (map_erase k m) \<subseteq> set m"
  by (induction k m rule: map_erase.induct) auto

lemma map_erase_ok [simp]: "map_ok m \<Longrightarrow> map_ok (map_erase k m)"
proof (induction m)
  case (Cons p m)
  then show ?case using map_erase_subset [of k m] by (cases p) auto
qed simp

lemma map_of_erase [simp]: "map_ok m \<Longrightarrow> map_of (map_erase k m) = (map_of m)(k := None)"
proof (induction m)
  case (Cons p m)
  then show ?case
    by (cases p) (auto simp: fun_eq_iff map_of_eq_None_iff)
qed simp

lemma map_of_Some_iff: "map_ok m \<Longrightarrow> map_of m k = Some v \<longleftrightarrow> (k, v) \<in> set m"
  by (rule map_of_eq_Some_iff) (rule map_ok_distinct)

lemma map_ok_eqI:
  assumes "map_ok m" "map_ok m'" "map_of m = map_of m'"
  shows "m = m'"
proof -
  have "set m = set m'"
    using assms map_of_Some_iff [OF assms(1)] map_of_Some_iff [OF assms(2)] by fastforce
  moreover have "inj_on fst (set m)"
    using map_ok_distinct [OF assms(1)] by (simp add: distinct_map)
  ultimately show ?thesis
    using assms(1,2) by (intro map_sorted_distinct_set_unique [where f = fst])
      (simp_all add: map_ok_def strict_sorted_iff)
qed

section \<open>The interface of a table\<close>

locale lookup_table =
  fixes lookup :: "'t \<Rightarrow> 'k \<Rightarrow> 'v option"
    and insrt :: "'k \<Rightarrow> 'v \<Rightarrow> 't \<Rightarrow> 't"
    and remove :: "'k \<Rightarrow> 't \<Rightarrow> 't"
    and valid :: "'t \<Rightarrow> bool"
  assumes insrt_valid: "valid t \<Longrightarrow> valid (insrt k v t)"
    and lookup_insrt: "valid t \<Longrightarrow> lookup (insrt k v t) = (lookup t)(k \<mapsto> v)"
    and remove_valid: "valid t \<Longrightarrow> valid (remove k t)"
    and lookup_remove: "valid t \<Longrightarrow> lookup (remove k t) = (lookup t)(k := None)"
begin

lemma fill_result:
  "valid t \<Longrightarrow> valid (fold (\<lambda>(k, v). insrt k v) kvs t) \<and>
     lookup (fold (\<lambda>(k, v). insrt k v) kvs t) = lookup t ++ map_of (rev kvs)"
proof (induction kvs arbitrary: t)
  case (Cons p kvs)
  then show ?case
    using insrt_valid lookup_insrt
    by (cases p) (auto simp: map_add_def fun_eq_iff split: option.splits)
qed simp

lemma drop_result:
  "valid t \<Longrightarrow> valid (fold remove ks t) \<and>
     lookup (fold remove ks t) = (lookup t) |` (- set ks)"
  by (induction ks arbitrary: t)
    (auto simp: remove_valid lookup_remove restrict_map_def fun_eq_iff)

lemma lookup_insrt_apply:
  "valid t \<Longrightarrow> lookup (insrt k v t) j = (if j = k then Some v else lookup t j)"
  by (simp add: lookup_insrt)

end

interpretation omap: lookup_table map_of map_set map_erase map_ok
  by unfold_locales simp_all

lemma map_fill_result:
  assumes "map_ok m"
  shows "map_ok (map_fill kvs m)" "map_of (map_fill kvs m) = map_of m ++ map_of (rev kvs)"
  using omap.fill_result [OF assms, of kvs] by (simp_all add: map_fill_def)

text \<open>A map is restored by filling an empty one with its pairs in their order.\<close>

lemma map_fill_self:
  assumes "map_ok m"
  shows "map_fill m [] = m"
proof (rule map_ok_eqI [OF _ assms])
  show "map_of (map_fill m []) = map_of m"
    using map_ok_distinct [OF assms] map_of_inject_set [of "rev m" m]
    by (simp add: map_fill_result rev_map [symmetric])
qed (simp add: map_fill_result)


lemma map_ok_unique:
  assumes "map_ok m" "map_ok m'" "set m = set m'"
  shows "m = m'"
proof (rule map_ok_eqI [OF assms(1,2)])
  have "map_of m k = Some v \<longleftrightarrow> map_of m' k = Some v" for k v
    using map_of_Some_iff [OF assms(1), of k v] map_of_Some_iff [OF assms(2), of k v] assms(3) by simp
  then show "map_of m = map_of m'" by (metis ext not_Some_eq)
qed

lemma map_fill_set:
  assumes "distinct (map fst kvs)"
  shows "set (map_fill kvs []) = set kvs"
proof -
  have "distinct (map fst (rev kvs))" using assms by (simp add: rev_map [symmetric])
  then have "map_of (map_fill kvs []) k = Some v \<longleftrightarrow> (k, v) \<in> set kvs" for k v
    by (simp add: map_fill_result)
  moreover have "map_ok (map_fill kvs [])" by (simp add: map_fill_result)
  ultimately have "(k, v) \<in> set (map_fill kvs []) \<longleftrightarrow> (k, v) \<in> set kvs" for k v
    using map_of_Some_iff by metis
  then show ?thesis by auto
qed

text \<open>A table is restored from its image under a coding of the keys and values.\<close>

lemma recode_table:
  assumes ok: "map_ok m" and key: "\<And>k. dk (ek k) = k" and val: "\<And>v. dv (ev v) = v"
  shows "map_fill (map (\<lambda>(k, v). (dk k, dv v)) (map_fill (map (\<lambda>(k, v). (ek k, ev v)) m) [])) [] = m"
    and "set (map_fill (map (\<lambda>(k, v). (ek k, ev v)) m) []) = (\<lambda>(k, v). (ek k, ev v)) ` set m"
proof -
  define e where "e = map_fill (map (\<lambda>(k, v). (ek k, ev v)) m) []"
  have "inj_on ek A" for A using key by (metis inj_onI)
  then have "distinct (map ek (map fst m))"
    using map_ok_distinct [OF ok] unfolding distinct_map [of ek] by blast
  then have inj: "distinct (map fst (map (\<lambda>(k, v). (ek k, ev v)) m))" by (simp add: o_def case_prod_unfold)
  have e: "map_ok e" "set e = (\<lambda>(k, v). (ek k, ev v)) ` set m"
    using map_fill_set [OF inj] by (simp_all add: e_def map_fill_result)
  then show "set (map_fill (map (\<lambda>(k, v). (ek k, ev v)) m) []) = (\<lambda>(k, v). (ek k, ev v)) ` set m"
    by (simp add: e_def)
  have "inj_on dk (fst ` set e)" unfolding e(2) by (auto simp: inj_on_def key)
  then have "distinct (map dk (map fst e))"
    using map_ok_distinct [OF e(1)] unfolding distinct_map [of dk] by simp
  then have "distinct (map fst (map (\<lambda>(k, v). (dk k, dv v)) e))" by (simp add: o_def case_prod_unfold)
  note dec = map_fill_set [OF this]
  have "(\<lambda>(k, v). (dk k, dv v)) ` set e = set m" unfolding e(2) by (force simp: key val)
  then have "map_fill (map (\<lambda>(k, v). (dk k, dv v)) e) [] = m"
    using dec ok by (intro map_ok_unique) (simp_all add: map_fill_result)
  then show "map_fill (map (\<lambda>(k, v). (dk k, dv v)) (map_fill (map (\<lambda>(k, v). (ek k, ev v)) m) [])) [] = m"
    by (simp add: e_def)
qed

lemma fold_as_fill:
  "fold (\<lambda>(k, v). map_set (f k) (g v)) m n = map_fill (map (\<lambda>(k, v). (f k, g v)) m) n"
  by (simp add: map_fill_def fold_map o_def case_prod_unfold)


lemma map_set_new_length: "map_ok m \<Longrightarrow> map_of m k = None \<Longrightarrow> length (map_set k v m) = Suc (length m)"
  by (induction k v m rule: map_set.induct) (auto split: if_splits)

lemma map_set_subset: "set (map_set k v m) \<subseteq> insert (k, v) (set m)"
  by (induction k v m rule: map_set.induct) auto

lemma map_fill_subset: "set (map_fill kvs m) \<subseteq> set kvs \<union> set m"
proof (induction kvs arbitrary: m)
  case (Cons p kvs)
  obtain k v where p: "p = (k, v)" by fastforce
  have "set (map_fill kvs (map_set k v m)) \<subseteq> set kvs \<union> set (map_set k v m)" by (rule Cons.IH)
  then have "set (map_fill kvs (map_set k v m)) \<subseteq> set kvs \<union> insert (k, v) (set m)"
    using map_set_subset [of k v m] by blast
  moreover have "map_fill (p # kvs) m = map_fill kvs (map_set k v m)" by (simp add: map_fill_def p)
  ultimately show ?case by (simp add: p)
qed (simp add: map_fill_def)


lemma map_ok_length: "map_ok m \<Longrightarrow> length m = card (fst ` set m)"
  using distinct_card [OF map_ok_distinct, of m] by simp

lemma map_set_old_length:
  assumes "map_ok m" "map_of m k = Some w"
  shows "length (map_set k v m) = length m"
proof -
  have "k \<in> fst ` set m" using map_of_SomeD [OF assms(2)] by force
  then show ?thesis
    using map_ok_length [OF assms(1)] map_ok_length [OF map_set_ok [OF assms(1), of k v]]
    by (simp add: insert_absorb)
qed

lemma map_set_length: "length (map_set k v m) \<le> Suc (length m)"
  by (induction k v m rule: map_set.induct) auto

lemma map_erase_length: "length (map_erase k m) \<le> length m"
  by (induction k m rule: map_erase.induct) auto

end
