(* ===== verification/CapacityPools.thy ===== *)
theory CapacityPools
  imports OrdMap
begin

text \<open>
  The capacity pools of the management and metadata servers and the choice of storage targets
  for a new file (\<open>NodeCapacityPools.h/.cpp\<close>, \<open>TargetCapacityPools.h/.cpp\<close> under
  fhgfs_common/source/common/nodes, \<open>RandomReentrant.h\<close>).

  A pool is a set of targets, kept as an ordered list; an iterator of a pool is an index.
  \<open>rand_r\<close> of the C library is an argument: it takes the seed and gives a number and the next
  seed. A choice can fail: the code divides by the number of targets asked for, the loop over
  the non-preferred targets can run forever, and the group of a node can be empty.
\<close>

section \<open>Random numbers\<close>

definition getNextInt :: "(u32 \<Rightarrow> i32 \<times> u32) \<Rightarrow> u32 \<Rightarrow> i32 \<times> u32" where
  "getNextInt rand_r seed =
     (let (randVal, seed') = rand_r seed
      in (if sint randVal < 0 then NOT randVal else randVal, seed'))"

text \<open>Only called with \<open>mn \<le> mx\<close>.\<close>

definition getNextInRange :: "(u32 \<Rightarrow> i32 \<times> u32) \<Rightarrow> nat \<Rightarrow> nat \<Rightarrow> u32 \<Rightarrow> nat \<times> u32" where
  "getNextInRange rand_r mn mx seed =
     (let (randVal, seed') = getNextInt rand_r seed
      in (mn + unat randVal mod (mx + 1 - mn), seed'))"

section \<open>Iterators on a ring\<close>

definition moveIterToNextRingElem :: "nat \<Rightarrow> nat \<Rightarrow> nat" where
  "moveIterToNextRingElem n iter =
     (if iter \<noteq> n then (if Suc iter = n then 0 else Suc iter) else 0)"

definition moveIterToRandomElem :: "(u32 \<Rightarrow> i32 \<times> u32) \<Rightarrow> nat \<Rightarrow> u32 \<Rightarrow> nat \<times> u32" where
  "moveIterToRandomElem rand_r n seed =
     (if n < 2 then (0, seed) else getNextInRange rand_r 0 (n - 1) seed)"

section \<open>Choosing targets from one pool\<close>

datatype chooseFailure = DivisionByZero | EndlessLoop | DerefEnd

definition cbind :: "chooseFailure + 'a \<Rightarrow> ('a \<Rightarrow> chooseFailure + 'b) \<Rightarrow> chooseFailure + 'b" where
  "cbind r f = (case r of Inl e \<Rightarrow> Inl e | Inr x \<Rightarrow> f x)"

text \<open>The pool is cut into parts of equal size and one target is taken from each.\<close>

fun noPrefLoop ::
    "(u32 \<Rightarrow> i32 \<times> u32) \<Rightarrow> u16 list \<Rightarrow> nat \<Rightarrow> nat \<Rightarrow> nat \<Rightarrow> nat \<Rightarrow> nat \<Rightarrow> u32 \<Rightarrow> u16 list \<Rightarrow>
       u16 list \<times> u32" where
  "noPrefLoop rand_r active numTargets partSize i 0 iter seed out = (out, seed)"
| "noPrefLoop rand_r active numTargets partSize i (Suc k) iter seed out =
     (let rangeMin = i * partSize;
          rangeMax = (if i = numTargets - 1 then length active - 1 else rangeMin + partSize - 1);
          (next, seed') = getNextInRange rand_r rangeMin rangeMax seed;
          iter' = (moveIterToNextRingElem (length active) ^^ (next - rangeMin)) iter
      in noPrefLoop rand_r active numTargets partSize (Suc i) k
           ((moveIterToNextRingElem (length active) ^^ (rangeMax + 1 - next)) iter') seed'
           (out @ [active ! iter']))"

definition chooseStorageNodesNoPref ::
    "(u32 \<Rightarrow> i32 \<times> u32) \<Rightarrow> u16 list \<Rightarrow> u32 \<Rightarrow> u32 \<Rightarrow> u16 list \<Rightarrow> chooseFailure + u16 list \<times> u32" where
  "chooseStorageNodesNoPref rand_r active numTargets seed out =
     (if active = [] then Inr (out, seed)
      else
        (let n = (if unat numTargets > length active then length active else unat numTargets)
         in if n = 0 then Inl DivisionByZero
            else
              (let partSize = length active div n;
                   (iter, seed1) = moveIterToRandomElem rand_r (length active) seed
               in Inr (noPrefLoop rand_r active n partSize 0 n iter seed1 out))))"

fun roundRobinLoop :: "u16 list \<Rightarrow> nat \<Rightarrow> nat \<Rightarrow> u16 list \<Rightarrow> nat \<times> u16 list" where
  "roundRobinLoop active 0 iter out = (iter, out)"
| "roundRobinLoop active (Suc k) iter out =
     (let iter' = moveIterToNextRingElem (length active) iter
      in roundRobinLoop active k iter' (out @ [active ! iter']))"

definition lower_bound :: "u16 list \<Rightarrow> u16 \<Rightarrow> nat" where
  "lower_bound active t = length (takeWhile (\<lambda>x. x < t) active)"

text \<open>Gives the targets and the new value of \<open>lastRoundRobinTarget\<close>.\<close>

definition chooseStorageNodesNoPrefRoundRobin ::
    "u16 list \<Rightarrow> u32 \<Rightarrow> u16 \<Rightarrow> u16 list \<Rightarrow> u16 list \<times> u16" where
  "chooseStorageNodesNoPrefRoundRobin active numTargets lastRR out =
     (if active = [] then (out, lastRR)
      else
        (let n = (if unat numTargets > length active then length active else unat numTargets);
             lb = lower_bound active lastRR;
             iter = (if lb = length active then 0 else lb);
             (iter', out') = roundRobinLoop active n iter out
         in (out', active ! iter')))"

text \<open>Stage 1: the preferred targets that are in the pool.\<close>

fun prefLoop ::
    "u16 list \<Rightarrow> u16 list \<Rightarrow> nat \<Rightarrow> nat \<Rightarrow> nat \<Rightarrow> u16 list \<Rightarrow> u16 list \<Rightarrow> nat \<times> u16 list \<times> u16 list" where
  "prefLoop active preferred 0 iter num out outSet = (num, out, outSet)"
| "prefLoop active preferred (Suc k) iter num out outSet =
     (if num = 0 then (num, out, outSet)
      else
        (let t = preferred ! iter;
             iter' = moveIterToNextRingElem (length preferred) iter
         in if t \<in> set active
            then prefLoop active preferred k iter' (num - 1) (out @ [t]) (set_insert (<) t outSet)
            else prefLoop active preferred k iter' num out outSet))"

text \<open>Stage 2: other targets of the pool, until there are enough.\<close>

partial_function (option) fillLoop ::
    "u16 list \<Rightarrow> nat \<Rightarrow> nat \<Rightarrow> u16 list \<Rightarrow> u16 list \<Rightarrow> u16 list option" where
  "fillLoop active num iter out outSet =
     (if num = 0 then Some out
      else
        (let t = active ! iter; iter' = moveIterToNextRingElem (length active) iter
         in if t \<in> set outSet then fillLoop active num iter' out outSet
            else fillLoop active (num - 1) iter' (out @ [t]) (set_insert (<) t outSet)))"

definition chooseStorageNodesWithPref ::
    "(u32 \<Rightarrow> i32 \<times> u32) \<Rightarrow> u16 list \<Rightarrow> u32 \<Rightarrow> u16 list \<Rightarrow> bool \<Rightarrow> u32 \<Rightarrow> u16 list \<Rightarrow>
       chooseFailure + u16 list \<times> u32" where
  "chooseStorageNodesWithPref rand_r active numTargets preferred allowNonPreferredTargets seed out =
     (if active = [] then Inr (out, seed)
      else
        (let n = (if unat numTargets > length active then length active else unat numTargets);
             (prefIter, seed1) = moveIterToRandomElem rand_r (length preferred) seed;
             (num, out1, outSet) = prefLoop active preferred (length preferred) prefIter n out []
         in if allowNonPreferredTargets \<and> num \<noteq> 0
            then
              (let (iter, seed2) = moveIterToRandomElem rand_r (length active) seed1
               in case fillLoop active num iter out1 outSet of
                    None \<Rightarrow> Inl EndlessLoop
                  | Some out2 \<Rightarrow> Inr (out2, seed2))
            else Inr (out1, seed1)))"

section \<open>Facts about one pool\<close>

text \<open>\<open>std::set\<close> of target IDs.\<close>

interpretation u16_set: strict_comparator "(<) :: u16 \<Rightarrow> u16 \<Rightarrow> bool"
  by unfold_locales auto

definition pool_ok :: "u16 list \<Rightarrow> bool" where
  "pool_ok xs \<longleftrightarrow> sorted_wrt (<) xs"

lemma pool_ok_distinct: "pool_ok xs \<Longrightarrow> distinct xs"
  unfolding pool_ok_def by (rule u16_set.order_distinct)

lemma set_insert_u16 [simp]: "set (set_insert (<) x xs) = insert (x :: u16) (set xs)"
  by (induction xs) auto

lemma pool_ok_insert [simp]: "pool_ok xs \<Longrightarrow> pool_ok (set_insert (<) x xs)"
  unfolding pool_ok_def by (rule u16_set.insert_keeps_order)

lemma pool_ok_remove [simp]: "pool_ok xs \<Longrightarrow> pool_ok (remove1 x xs)"
proof -
  assume ok: "pool_ok xs"
  then have "remove1 x xs = filter (\<lambda>y. y \<noteq> x) xs"
    using pool_ok_distinct [OF ok] by (simp add: distinct_remove1_removeAll removeAll_filter_not_eq eq_commute)
  then show ?thesis using ok by (simp add: pool_ok_def sorted_wrt_filter)
qed

lemma getNextInRange_bounds:
  assumes "mn \<le> mx" "getNextInRange rand_r mn mx seed = (r, seed')"
  shows "mn \<le> r" "r \<le> mx"
proof -
  obtain v s where v: "getNextInt rand_r seed = (v, s)" by fastforce
  have "unat v mod (mx + 1 - mn) < mx + 1 - mn"
    using assms(1) by (intro mod_less_divisor) simp
  moreover have "r = mn + unat v mod (mx + 1 - mn)"
    using assms(2) by (simp add: getNextInRange_def v)
  ultimately show "mn \<le> r" "r \<le> mx" using assms(1) by linarith+
qed

lemma moveIter_mod: "i < n \<Longrightarrow> moveIterToNextRingElem n i = Suc i mod n"
  by (auto simp: moveIterToNextRingElem_def)

lemma moveIter_less [simp]: "0 < n \<Longrightarrow> moveIterToNextRingElem n i < n \<or> n < i"
  by (auto simp: moveIterToNextRingElem_def)

lemma moveIter_pow: "i < n \<Longrightarrow> (moveIterToNextRingElem n ^^ m) i = (i + m) mod n"
proof (induction m)
  case (Suc m)
  then have "(i + m) mod n < n" by (intro mod_less_divisor) simp
  with Suc show ?case by (simp add: moveIter_mod mod_Suc_eq)
qed simp

lemma randomElem_less: "0 < n \<Longrightarrow> fst (moveIterToRandomElem rand_r n seed) < n"
proof -
  assume n: "0 < n"
  show ?thesis
  proof (cases "n < 2")
    case False
    obtain r s where r: "getNextInRange rand_r 0 (n - 1) seed = (r, s)" by fastforce
    from getNextInRange_bounds(2) [OF _ this] n have "r < n" by simp
    with False r show ?thesis by (simp add: moveIterToRandomElem_def)
  qed (use n in \<open>simp add: moveIterToRandomElem_def\<close>)
qed

lemma ring_inj:
  assumes "0 < (n :: nat)"
  shows "inj_on (\<lambda>o'. (s + o') mod n) {0..<n}"
proof -
  have less: "x = y" if "x \<le> y" "y < n" "(s + x) mod n = (s + y) mod n" for x y
  proof -
    have "n dvd (s + y) - (s + x)" using that by (intro mod_eq_dvd_iff_nat [THEN iffD1]) simp_all
    then have "n dvd y - x" by simp
    moreover have "y - x < n" using that by simp
    ultimately have "y - x = 0" by (metis dvd_imp_le linorder_not_less not_gr_zero)
    with that show ?thesis by simp
  qed
  show ?thesis
  proof (rule inj_onI)
    fix x y assume "x \<in> {0..<n}" "y \<in> {0..<n}" "(s + x) mod n = (s + y) mod n"
    then show "x = y" using less [of x y] less [of y x] by (cases "x \<le> y") auto
  qed
qed

text \<open>The targets taken are at increasing distances from the first position.\<close>

lemma noPrefLoop_offsets:
  assumes "i + k = n" "0 < n" "n \<le> L" "L = length active" "part = L div n" "s < L"
    and "iter = (s + i * part) mod L"
  shows "\<exists>offs. fst (noPrefLoop rand_r active n part i k iter seed out) =
      out @ map (\<lambda>o'. active ! ((s + o') mod L)) offs \<and> length offs = k \<and>
      sorted_wrt (<) offs \<and> set offs \<subseteq> {i * part..<L}"
  using assms
proof (induction k arbitrary: i iter seed out)
  case (Suc k)
  let ?min = "i * part" and ?max = "if i = n - 1 then L - 1 else i * part + part - 1"
  have part: "0 < part" "part * n \<le> L"
    using Suc.prems by (simp_all add: div_greater_zero_iff)
  have i: "i < n" using Suc.prems by simp
  have "Suc i * part \<le> n * part" using i by (intro mult_le_mono1) simp
  then have up: "i * part + part \<le> L" using part(2) by (simp add: mult.commute)
  then have max: "?min \<le> ?max" "?max < L" using part(1) Suc.prems(2,3) by auto
  obtain r seed' where r: "getNextInRange rand_r ?min ?max seed = (r, seed')" by fastforce
  note b = getNextInRange_bounds [OF max(1) r]
  have iter: "iter < L"
    unfolding Suc.prems(7) using Suc.prems(6) by (intro mod_less_divisor) linarith
  have it': "(moveIterToNextRingElem L ^^ (r - ?min)) iter = (s + r) mod L"
    using moveIter_pow [OF iter] b(1) Suc.prems(7) by (simp add: mod_add_left_eq)
  have "(s + r) mod L < L" using Suc.prems(6) by (intro mod_less_divisor) simp
  from moveIter_pow [OF this, of "?max + 1 - r"]
  have nxt: "(moveIterToNextRingElem L ^^ (?max + 1 - r)) ((s + r) mod L) = (s + (?max + 1)) mod L"
    using b(2) by (simp add: mod_add_left_eq)
  define call where "call = noPrefLoop rand_r active n part (Suc i) k ((s + (?max + 1)) mod L) seed'
    (out @ [active ! ((s + r) mod L)])"
  have step: "noPrefLoop rand_r active n part i (Suc k) iter seed out = call"
    unfolding noPrefLoop.simps(2) Let_def Suc.prems(4) [symmetric] r prod.case it' nxt call_def
    by (rule refl)
  have "\<exists>offs. fst call = (out @ [active ! ((s + r) mod L)]) @ map (\<lambda>o'. active ! ((s + o') mod L)) offs \<and>
      length offs = k \<and> sorted_wrt (<) offs \<and> set offs \<subseteq> {Suc r..<L}"
  proof (cases k)
    case 0
    then show ?thesis by (simp add: call_def)
  next
    case (Suc k')
    then have "i \<noteq> n - 1" using \<open>i + Suc k = n\<close> by simp
    then have mx: "?max + 1 = Suc i * part" using part(1) by simp
    then have "r < Suc i * part" using b(2) by linarith
    moreover from Suc.IH [of "Suc i" "(s + (?max + 1)) mod L" seed' "out @ [active ! ((s + r) mod L)]"]
      mx Suc.prems obtain offs where
      "fst call = (out @ [active ! ((s + r) mod L)]) @ map (\<lambda>o'. active ! ((s + o') mod L)) offs"
      "length offs = k" "sorted_wrt (<) offs" "set offs \<subseteq> {Suc i * part..<L}"
      unfolding call_def by (metis add_Suc_right add_Suc)
    ultimately show ?thesis by (intro exI [of _ offs]) auto
  qed
  then obtain offs where offs: "fst call = (out @ [active ! ((s + r) mod L)]) @
      map (\<lambda>o'. active ! ((s + o') mod L)) offs"
    "length offs = k" "sorted_wrt (<) offs" "set offs \<subseteq> {Suc r..<L}" by blast
  have "r < L" using b(2) max(2) by linarith
  with offs b(1) show ?case
    unfolding step by (intro exI [of _ "r # offs"]) (auto simp: Suc_le_eq)
qed simp

text \<open>\<open>n\<close> different targets of the pool are appended.\<close>

definition adds :: "u16 list \<Rightarrow> nat \<Rightarrow> u16 list \<Rightarrow> u16 list \<Rightarrow> bool" where
  "adds pool n out out' \<longleftrightarrow>
     (\<exists>ys. out' = out @ ys \<and> distinct ys \<and> set ys \<subseteq> set pool \<and> length ys = n)"

lemma adds_refl [simp]: "adds pool 0 out out"
  by (simp add: adds_def)

lemma adds_disjoint:
  assumes "adds pool k out out'" "distinct out" "set out \<inter> set pool = {}"
  shows "distinct out'" "set out' \<subseteq> set out \<union> set pool" "length out' = length out + k"
proof -
  obtain ys where "out' = out @ ys" "distinct ys" "set ys \<subseteq> set pool" "length ys = k"
    using assms(1) by (auto simp: adds_def)
  with assms(2,3) show "distinct out'" "set out' \<subseteq> set out \<union> set pool" "length out' = length out + k"
    by (simp, blast, auto)
qed

lemma noPref_result:
  assumes pool: "pool_ok active" and n: "active \<noteq> [] \<Longrightarrow> numTargets \<noteq> 0"
  shows "\<exists>out' seed'. chooseStorageNodesNoPref rand_r active numTargets seed out = Inr (out', seed') \<and>
    adds active (min (unat numTargets) (length active)) out out'"
proof (cases "active = []")
  case False
  define L m where "L = length active"
    and "m = (if unat numTargets > length active then length active else unat numTargets)"
  have "0 < unat numTargets" using n [OF False] by (simp add: unat_gt_0)
  then have m: "0 < m" "m \<le> L" "m = min (unat numTargets) (length active)"
    using False by (auto simp: m_def L_def)
  obtain iter seed1 where it: "moveIterToRandomElem rand_r L seed = (iter, seed1)" by fastforce
  have L: "0 < L" using False by (simp add: L_def)
  have iter: "iter < L" using randomElem_less [OF L, of rand_r seed] it by simp
  from noPrefLoop_offsets [OF _ m(1,2) L_def refl iter, of 0 m iter rand_r seed1 out] iter
  obtain offs where offs:
    "fst (noPrefLoop rand_r active m (L div m) 0 m iter seed1 out) =
       out @ map (\<lambda>o'. active ! ((iter + o') mod L)) offs"
    "length offs = m" "sorted_wrt (<) offs" "set offs \<subseteq> {0..<L}"
    by auto
  let ?ys = "map (\<lambda>o'. active ! ((iter + o') mod L)) offs"
  have "inj_on (\<lambda>o'. active ! ((iter + o') mod L)) {0..<L}"
  proof -
    have "inj_on (nth active) {0..<L}"
      using pool_ok_distinct [OF pool] by (simp add: inj_on_nth L_def)
    moreover have "(\<lambda>o'. (iter + o') mod L) ` {0..<L} \<subseteq> {0..<L}" using L by auto
    ultimately show ?thesis
      using comp_inj_on [OF ring_inj [OF L, of iter], of "nth active"]
      by (auto simp: o_def intro: inj_on_subset)
  qed
  then have "inj_on (\<lambda>o'. active ! ((iter + o') mod L)) (set offs)"
    using offs(4) by (rule inj_on_subset)
  moreover have "distinct offs" using offs(3) by (simp add: strict_sorted_iff)
  ultimately have "distinct ?ys" by (simp add: distinct_map)
  moreover have "set ?ys \<subseteq> set active" using L by (auto simp: L_def intro!: nth_mem)
  ultimately have "adds active m out (out @ ?ys)" using offs(2) by (auto simp: adds_def)
  moreover obtain seed' where
    "noPrefLoop rand_r active m (L div m) 0 m iter seed1 out = (out @ ?ys, seed')"
    using offs(1) by (metis prod.collapse)
  then have "chooseStorageNodesNoPref rand_r active numTargets seed out = Inr (out @ ?ys, seed')"
    unfolding chooseStorageNodesNoPref_def Let_def L_def [symmetric] m_def [folded L_def, symmetric]
    using False m(1) it by simp
  ultimately show ?thesis unfolding m(3) by blast
qed (simp add: chooseStorageNodesNoPref_def)

section \<open>Round robin\<close>

lemma roundRobinLoop_result:
  assumes "i < length active"
  shows "roundRobinLoop active k i out =
    ((i + k) mod length active, out @ map (\<lambda>j. active ! ((i + Suc j) mod length active)) [0..<k])"
  using assms
proof (induction k arbitrary: i out)
  case (Suc k)
  let ?L = "length active"
  have "Suc i mod ?L < ?L" using Suc.prems by (intro mod_less_divisor) linarith
  from Suc.IH [OF this, of "out @ [active ! (Suc i mod ?L)]"]
  have "roundRobinLoop active (Suc k) i out = ((Suc i mod ?L + k) mod ?L,
      out @ active ! (Suc i mod ?L) # map (\<lambda>j. active ! ((Suc i mod ?L + Suc j) mod ?L)) [0..<k])"
    using Suc.prems by (simp add: Let_def moveIter_mod)
  note this [unfolded mod_add_left_eq]
  moreover have "[0..<Suc k] = 0 # map Suc [0..<k]" by (simp add: map_Suc_upt upt_conv_Cons)
  ultimately show ?case by (simp add: o_def del: roundRobinLoop.simps upt_Suc)
qed simp

lemma lower_bound_nth:
  assumes "pool_ok active" "i < length active"
  shows "lower_bound active (active ! i) = i"
proof -
  have "takeWhile (\<lambda>x. x < active ! i) active = take i active"
  proof (rule takeWhile_eq_take_P_nth)
    show "active ! j < active ! i" if "j < i" for j
      using assms that by (simp add: pool_ok_def sorted_wrt_nth_less)
  qed simp
  with assms(2) show ?thesis by (simp add: lower_bound_def)
qed

lemma round_robin_start:
  assumes "pool_ok active" "i < length active" "unat num \<le> length active"
  shows "chooseStorageNodesNoPrefRoundRobin active num (active ! i) out =
    (out @ map (\<lambda>j. active ! ((i + Suc j) mod length active)) [0..<unat num],
     active ! ((i + unat num) mod length active))"
proof -
  have "active \<noteq> []" using assms(2) by auto
  with assms show ?thesis
    by (simp add: chooseStorageNodesNoPrefRoundRobin_def lower_bound_nth roundRobinLoop_result Let_def)
qed

section \<open>Preferred targets\<close>

definition ring_from :: "u16 list \<Rightarrow> nat \<Rightarrow> nat \<Rightarrow> u16 set" where
  "ring_from xs i k = {xs ! ((i + j) mod length xs) |j. j < k}"

lemma prefLoop_result:
  assumes "prefLoop active preferred k iter num out outSet = (num', out', outSet')"
    and "i < length preferred" "iter = i" "set outSet \<subseteq> set active"
  shows "\<exists>ys. out' = out @ ys \<and> set ys \<subseteq> set active \<inter> set preferred \<and> num' + length ys = num \<and>
    set outSet' = set outSet \<union> set ys \<and>
    (distinct preferred \<and> i + k \<le> i + length preferred \<longrightarrow> distinct ys \<and>
       set ys \<subseteq> ring_from preferred i k)"
  using assms
proof (induction k arbitrary: i iter num out outSet)
  case (Suc k)
  let ?L = "length preferred" and ?t = "preferred ! i"
  let ?iter = "Suc i mod ?L"
  have next_i: "?iter < ?L" using Suc.prems(2) by (intro mod_less_divisor) linarith
  have ring: "moveIterToNextRingElem ?L iter = ?iter"
    using Suc.prems(2,3) by (simp add: moveIter_mod)
  have t: "?t \<in> set preferred" using Suc.prems(2) by simp
  define A where "A = {preferred ! ((i + Suc j) mod ?L) |j. j < k}"
  have shift: "ring_from preferred ?iter k =
A"
    by (simp add: mod_add_left_eq A_def ring_from_def)
  have sub: "A \<subseteq> ring_from preferred i (Suc k)" unfolding A_def ring_from_def
  proof
    fix x assume "x \<in> {preferred ! ((i + Suc j) mod ?L) |j. j < k}"
    then obtain j where "j < k" "x = preferred ! ((i + Suc j) mod ?L)" by auto
    then show "x \<in> {preferred ! ((i + j) mod ?L) |j. j < Suc k}"
      by (intro CollectI exI [of _ "Suc j"]) simp
  qed
  have first: "?t \<in> ring_from preferred i (Suc k)" unfolding ring_from_def
    using Suc.prems(2) by (intro CollectI exI [of _ 0]) simp
  have fresh: "?t \<notin> A"
    if d: "distinct preferred" "Suc k \<le> ?L"
  proof
    assume "?t \<in> A"
    then obtain j where j: "j < k" "?t = preferred ! ((i + Suc j) mod ?L)" by (auto simp: A_def)
    have "(i + Suc j) mod ?L < ?L" using Suc.prems(2) by (intro mod_less_divisor) linarith
    with j(2) d(1) Suc.prems(2) have "(i + Suc j) mod ?L = (i + 0) mod ?L"
      by (simp add: nth_eq_iff_index_eq)
    moreover have "Suc j \<in> {0..<?L}" "0 \<in> {0..<?L}" using j(1) d(2) Suc.prems(2) by auto
    ultimately show False
      using inj_onD [OF ring_inj [of ?L i], of "Suc j" 0] Suc.prems(2) by fastforce
  qed
  show ?case
  proof (cases "num = 0")
    case False
    show ?thesis
    proof (cases "?t \<in> set active")
      case True
      then have "prefLoop active preferred k ?iter (num - 1) (out @ [?t]) (set_insert (<) ?t outSet) =
          (num', out', outSet')"
        using Suc.prems(1,3) False ring by (simp add: Let_def)
      from Suc.IH [OF this next_i refl] True Suc.prems(4) obtain ys where ys:
        "out' = (out @ [?t]) @ ys" "set ys \<subseteq> set active \<inter> set preferred" "num' + length ys = num - 1"
        "set outSet' = insert ?t (set outSet) \<union> set ys"
        "distinct preferred \<and> ?iter + k \<le> ?iter + ?L \<Longrightarrow> distinct ys \<and>
          set ys \<subseteq> ring_from preferred ?iter k"
        by auto
      have "distinct (?t # ys) \<and> set (?t # ys) \<subseteq> ring_from preferred i (Suc k)"
        if "distinct preferred" "Suc k \<le> ?L"
        using ys(5) fresh [OF that] first sub that unfolding shift by auto
      with ys True t False show ?thesis by (intro exI [of _ "?t # ys"]) auto
    next
      case False
      with \<open>num \<noteq> 0\<close> have "prefLoop active preferred k ?iter num out outSet = (num', out', outSet')"
        using Suc.prems(1,3) ring by (simp add: Let_def)
      from Suc.IH [OF this next_i refl Suc.prems(4)] show ?thesis
        using sub unfolding shift by fastforce
    qed
  qed (use Suc.prems in auto)
qed auto

text \<open>The loop of stage 2 ends: it walks around the ring to the next target not chosen yet.\<close>

lemma fillLoop_skip:
  assumes "iter < length active" "active ! ((iter + d) mod length active) \<notin> set outSet"
  obtains it where "it < length active" "active ! it \<notin> set outSet"
    "fillLoop active (Suc n) iter out outSet =
       fillLoop active n (Suc it mod length active) (out @ [active ! it])
         (set_insert (<) (active ! it) outSet)"
  using assms
proof (induction d arbitrary: iter thesis)
  case 0
  then show ?case
    by (intro "0.prems"(1) [of iter]) (simp_all add: fillLoop.simps [of active "Suc n"] moveIter_mod Let_def)
next
  case (Suc d)
  let ?L = "length active"
  show ?case
  proof (cases "active ! iter \<in> set outSet")
    case False
    with Suc.prems(2) show ?thesis
      by (intro Suc.prems(1) [of iter]) (simp_all add: fillLoop.simps [of active "Suc n"] moveIter_mod Let_def)
  next
    case True
    have less: "Suc iter mod ?L < ?L" using Suc.prems(2) by (intro mod_less_divisor) linarith
    have "(Suc iter mod ?L + d) mod ?L = (iter + Suc d) mod ?L"
      unfolding mod_add_left_eq by simp
    then have "active ! ((Suc iter mod ?L + d) mod ?L) \<notin> set outSet"
      using Suc.prems(3) by simp
    from Suc.IH [OF _ less this] obtain it where "it < ?L" "active ! it \<notin> set outSet"
      "fillLoop active (Suc n) (Suc iter mod ?L) out outSet =
         fillLoop active n (Suc it mod ?L) (out @ [active ! it]) (set_insert (<) (active ! it) outSet)"
      by blast
    moreover have "fillLoop active (Suc n) iter out outSet =
        fillLoop active (Suc n) (Suc iter mod ?L) out outSet"
      using True Suc.prems(2) by (simp add: fillLoop.simps [of active "Suc n" iter] moveIter_mod Let_def)
    ultimately show ?thesis by (intro Suc.prems(1) [of it]) simp_all
  qed
qed

lemma fillLoop_result:
  assumes "iter < length active" "num \<le> card (set active - set outSet)"
  shows "\<exists>ys. fillLoop active num iter out outSet = Some (out @ ys) \<and> distinct ys \<and>
    set ys \<subseteq> set active - set outSet \<and> length ys = num"
  using assms
proof (induction num arbitrary: iter out outSet)
  case 0
  then show ?case by (simp add: fillLoop.simps)
next
  case (Suc n)
  let ?L = "length active"
  have L: "0 < ?L" using Suc.prems(1) by linarith
  from Suc.prems(2) have "set active - set outSet \<noteq> {}"
    by (metis card.empty not_less_eq_eq le0)
  then obtain q where q: "q < ?L" "active ! q \<notin> set outSet"
    by (metis DiffE all_not_in_conv in_set_conv_nth)
  have "(iter + (q + ?L - iter)) mod ?L = q" using q(1) Suc.prems(1) by simp
  with q(2) have "active ! ((iter + (q + ?L - iter)) mod ?L) \<notin> set outSet" by simp
  from fillLoop_skip [OF Suc.prems(1) this, of n out] obtain it where it: "it < ?L"
    "active ! it \<notin> set outSet"
    "fillLoop active (Suc n) iter out outSet =
       fillLoop active n (Suc it mod ?L) (out @ [active ! it]) (set_insert (<) (active ! it) outSet)"
    by blast
  have "set active - set (set_insert (<) (active ! it) outSet) =
      (set active - set outSet) - {active ! it}" by auto
  then have "n \<le> card (set active - set (set_insert (<) (active ! it) outSet))"
    using Suc.prems(2) it by simp
  from Suc.IH [OF _ this, of "Suc it mod ?L" "out @ [active ! it]"] L obtain ys where
    "fillLoop active n (Suc it mod ?L) (out @ [active ! it]) (set_insert (<) (active ! it) outSet) =
       Some ((out @ [active ! it]) @ ys)"
    "distinct ys" "set ys \<subseteq> set active - set (set_insert (<) (active ! it) outSet)" "length ys = n"
    by auto
  with it show ?case by (intro exI [of _ "active ! it # ys"]) auto
qed

lemma withPref_result:
  assumes pool: "pool_ok active" and preferred: "preferred \<noteq> []"
  shows "\<exists>ys seed'. chooseStorageNodesWithPref rand_r active numTargets preferred allow seed out =
      Inr (out @ ys, seed') \<and> set ys \<subseteq> set active \<and>
    length ys \<le> min (unat numTargets) (length active) \<and>
    (allow \<longrightarrow> length ys = min (unat numTargets) (length active)) \<and>
    (\<not> allow \<longrightarrow> set ys \<subseteq> set preferred) \<and> (distinct preferred \<longrightarrow> distinct ys)"
proof (cases "active = []")
  case False
  define n where "n = (if unat numTargets > length active then length active else unat numTargets)"
  have n: "n = min (unat numTargets) (length active)" by (simp add: n_def)
  obtain pit seed1 where pit: "moveIterToRandomElem rand_r (length preferred) seed = (pit, seed1)"
    by fastforce
  obtain it seed2 where it: "moveIterToRandomElem rand_r (length active) seed1 = (it, seed2)"
    by fastforce
  have less: "pit < length preferred" "it < length active"
    using randomElem_less [of "length preferred" rand_r seed] pit preferred
      randomElem_less [of "length active" rand_r seed1] it False by simp_all
  obtain num out1 outSet where stage1: "prefLoop active preferred (length preferred) pit n out [] =
      (num, out1, outSet)" using prod_cases3 by blast
  from prefLoop_result [OF stage1 less(1) refl] obtain ys where ys: "out1 = out @ ys"
    "set ys \<subseteq> set active \<inter> set preferred" "num + length ys = n" "set outSet = set ys"
    "distinct preferred \<Longrightarrow> distinct ys" by auto
  note unf = chooseStorageNodesWithPref_def Let_def pit it stage1 prod.case
  show ?thesis
  proof (cases "allow \<and> num \<noteq> 0")
    case True
    have "card (set active - set outSet) \<ge> length active - length ys"
      using diff_card_le_card_Diff [of "set outSet" "set active"] ys(4) card_length [of ys]
        distinct_card [OF pool_ok_distinct [OF pool]] by simp
    then have "num \<le> card (set active - set outSet)" using ys(3) n by linarith
    from fillLoop_result [OF less(2) this, of out1] obtain zs where zs:
      "fillLoop active num it out1 outSet = Some (out1 @ zs)" "distinct zs"
      "set zs \<subseteq> set active - set outSet" "length zs = num" by blast
    then have "chooseStorageNodesWithPref rand_r active numTargets preferred allow seed out =
        Inr (out @ ys @ zs, seed2)"
      using False True unfolding unf n_def [symmetric] stage1 prod.case by (simp add: ys(1))
    with ys zs n True show ?thesis by (intro exI [of _ "ys @ zs"] exI [of _ seed2]) auto
  next
    case False': False
    then have "chooseStorageNodesWithPref rand_r active numTargets preferred allow seed out =
        Inr (out @ ys, seed1)"
      using False unfolding unf n_def [symmetric] stage1 prod.case by (auto simp: ys(1))
    with ys n False' show ?thesis by (intro exI [of _ ys] exI [of _ seed1]) auto
  qed
qed (simp add: chooseStorageNodesWithPref_def)

section \<open>The pools\<close>

datatype CapacityPoolType = CapacityPool_NORMAL | CapacityPool_LOW | CapacityPool_EMERGENCY

text \<open>The loops over the pool types.\<close>

definition poolTypes :: "CapacityPoolType list" where
  "poolTypes = [CapacityPool_NORMAL, CapacityPool_LOW, CapacityPool_EMERGENCY]"

type_synonym poolVec = "CapacityPoolType \<Rightarrow> u16 list"

record NodeCapacityPools =
  pools :: poolVec
  lastRoundRobinTarget :: u16

definition newNodeCapacityPools :: NodeCapacityPools where
  "newNodeCapacityPools = \<lparr>pools = (\<lambda>_. []), lastRoundRobinTarget = 0\<rparr>"

text \<open>The target is erased from the first of the pools that has it; gives this pool.\<close>

fun eraseFirst :: "u16 \<Rightarrow> CapacityPoolType list \<Rightarrow> poolVec \<Rightarrow> poolVec \<times> CapacityPoolType option" where
  "eraseFirst t [] p = (p, None)"
| "eraseFirst t (ty # tys) p =
     (if t \<in> set (p ty) then (p(ty := remove1 t (p ty)), Some ty) else eraseFirst t tys p)"

definition removeFromOthersUnlocked :: "u16 \<Rightarrow> CapacityPoolType \<Rightarrow> poolVec \<Rightarrow> poolVec" where
  "removeFromOthersUnlocked t keepPool p = fst (eraseFirst t (filter (\<lambda>ty. ty \<noteq> keepPool) poolTypes) p)"

text \<open>The type of the first pool that has the target.\<close>

definition findPool :: "u16 \<Rightarrow> poolVec \<Rightarrow> CapacityPoolType option" where
  "findPool t p = find (\<lambda>ty. t \<in> set (p ty)) poolTypes"

definition ncp_addOrUpdate ::
    "u16 \<Rightarrow> CapacityPoolType \<Rightarrow> NodeCapacityPools \<Rightarrow> NodeCapacityPools \<times> bool" where
  "ncp_addOrUpdate t ty s =
     (if t \<notin> set (pools s ty)
      then (s\<lparr>pools := removeFromOthersUnlocked t ty
               ((pools s)(ty := set_insert (<) t (pools s ty)))\<rparr>, True)
      else (s, False))"

definition ncp_addIfNotExists ::
    "u16 \<Rightarrow> CapacityPoolType \<Rightarrow> NodeCapacityPools \<Rightarrow> NodeCapacityPools \<times> bool" where
  "ncp_addIfNotExists t ty s =
     (if findPool t (pools s) \<noteq> None then (s, False)
      else (s\<lparr>pools := (pools s)(ty := set_insert (<) t (pools s ty))\<rparr>, True))"

definition ncp_remove :: "u16 \<Rightarrow> NodeCapacityPools \<Rightarrow> NodeCapacityPools" where
  "ncp_remove t s = s\<lparr>pools := fst (eraseFirst t poolTypes (pools s))\<rparr>"

definition poolsFromLists :: "u16 list \<Rightarrow> u16 list \<Rightarrow> u16 list \<Rightarrow> poolVec" where
  "poolsFromLists listNormal listLow listEmergency ty =
     fold (set_insert (<))
       (case ty of
          CapacityPool_NORMAL \<Rightarrow> listNormal
        | CapacityPool_LOW \<Rightarrow> listLow
        | CapacityPool_EMERGENCY \<Rightarrow> listEmergency) []"

definition ncp_syncPoolsFromLists ::
    "u16 list \<Rightarrow> u16 list \<Rightarrow> u16 list \<Rightarrow> NodeCapacityPools \<Rightarrow> NodeCapacityPools" where
  "ncp_syncPoolsFromLists listNormal listLow listEmergency s =
     s\<lparr>pools := poolsFromLists listNormal listLow listEmergency\<rparr>"

definition ncp_syncPoolsFromSets ::
    "u16 list \<Rightarrow> u16 list \<Rightarrow> u16 list \<Rightarrow> NodeCapacityPools \<Rightarrow> NodeCapacityPools" where
  "ncp_syncPoolsFromSets setNormal setLow setEmergency s =
     s\<lparr>pools := (\<lambda>_. [])(CapacityPool_NORMAL := setNormal, CapacityPool_LOW := setLow,
        CapacityPool_EMERGENCY := setEmergency)\<rparr>"

definition ncp_getPoolsAsLists :: "NodeCapacityPools \<Rightarrow> u16 list \<times> u16 list \<times> u16 list" where
  "ncp_getPoolsAsLists s =
     (pools s CapacityPool_NORMAL, pools s CapacityPool_LOW, pools s CapacityPool_EMERGENCY)"

definition poolTypeToStr :: "CapacityPoolType \<Rightarrow> string" where
  "poolTypeToStr ty =
     (case ty of
        CapacityPool_NORMAL \<Rightarrow> ''Normal''
      | CapacityPool_LOW \<Rightarrow> ''Low''
      | CapacityPool_EMERGENCY \<Rightarrow> ''Emergency'')"

section \<open>Choosing targets from the pools\<close>

text \<open>Without preference, from the first pool on that has targets.\<close>

definition chooseWithoutPreference ::
    "(u32 \<Rightarrow> i32 \<times> u32) \<Rightarrow> u32 \<Rightarrow> u32 \<Rightarrow> poolVec \<Rightarrow> u32 \<Rightarrow> chooseFailure + u16 list \<times> u32" where
  "chooseWithoutPreference rand_r numTargets minNumRequiredTargets p seed =
     cbind (if p CapacityPool_NORMAL \<noteq> []
            then chooseStorageNodesNoPref rand_r (p CapacityPool_NORMAL) numTargets seed []
            else Inr ([], seed)) (\<lambda>(out1, seed1).
     if p CapacityPool_NORMAL \<noteq> [] \<and> length out1 \<ge> unat minNumRequiredTargets
     then Inr (out1, seed1)
     else
       cbind (if p CapacityPool_LOW \<noteq> []
              then chooseStorageNodesNoPref rand_r (p CapacityPool_LOW)
                (numTargets - word_of_nat (length out1)) seed1 out1
              else Inr (out1, seed1)) (\<lambda>(out2, seed2).
       if p CapacityPool_LOW \<noteq> [] \<and> length out2 \<ge> unat minNumRequiredTargets
       then Inr (out2, seed2)
       else chooseStorageNodesNoPref rand_r (p CapacityPool_EMERGENCY) numTargets seed2 out2))"

definition chooseWithPreference ::
    "(u32 \<Rightarrow> i32 \<times> u32) \<Rightarrow> u32 \<Rightarrow> u32 \<Rightarrow> u16 list \<Rightarrow> poolVec \<Rightarrow> u32 \<Rightarrow>
       chooseFailure + u16 list \<times> u32" where
  "chooseWithPreference rand_r numTargets minNumRequiredTargets preferred p seed =
     (let pick = chooseStorageNodesWithPref rand_r;
          left = (\<lambda>out. numTargets - word_of_nat (length out))
      in cbind (pick (p CapacityPool_NORMAL) numTargets preferred False seed []) (\<lambda>(out1, seed1).
         if length out1 \<ge> unat minNumRequiredTargets then Inr (out1, seed1) else
         cbind (pick (p CapacityPool_LOW) (left out1) preferred False seed1 out1) (\<lambda>(out2, seed2).
         if out2 \<noteq> [] then Inr (out2, seed2) else
         cbind (pick (p CapacityPool_NORMAL) numTargets preferred True seed2 out2) (\<lambda>(out3, seed3).
         if length out3 \<ge> unat minNumRequiredTargets then Inr (out3, seed3) else
         cbind (pick (p CapacityPool_LOW) (left out3) preferred True seed3 out3) (\<lambda>(out4, seed4).
         if out4 \<noteq> [] then Inr (out4, seed4) else
         cbind (pick (p CapacityPool_EMERGENCY) numTargets preferred False seed4 out4) (\<lambda>(out5, seed5).
         if out5 \<noteq> [] then Inr (out5, seed5) else
         pick (p CapacityPool_EMERGENCY) numTargets preferred True seed5 out5))))))"

definition chooseStorageTargets ::
    "(u32 \<Rightarrow> i32 \<times> u32) \<Rightarrow> u32 \<Rightarrow> u32 \<Rightarrow> u16 list \<Rightarrow> poolVec \<Rightarrow> u32 \<Rightarrow>
       chooseFailure + u16 list \<times> u32" where
  "chooseStorageTargets rand_r numTargets minNumRequiredTargets preferred p seed =
     (if preferred = []
      then chooseWithoutPreference rand_r numTargets minNumRequiredTargets p seed
      else chooseWithPreference rand_r numTargets minNumRequiredTargets preferred p seed)"

definition chooseStorageTargetsRoundRobin :: "u32 \<Rightarrow> poolVec \<Rightarrow> u16 \<Rightarrow> u16 list \<times> u16" where
  "chooseStorageTargetsRoundRobin numTargets p lastRR =
     chooseStorageNodesNoPrefRoundRobin
       (if p CapacityPool_NORMAL \<noteq> [] then p CapacityPool_NORMAL
        else if p CapacityPool_LOW \<noteq> [] then p CapacityPool_LOW
        else p CapacityPool_EMERGENCY) numTargets lastRR []"

section \<open>Each target is in one pool\<close>

definition pools_ok :: "poolVec \<Rightarrow> bool" where
  "pools_ok p \<longleftrightarrow> (\<forall>ty. pool_ok (p ty)) \<and>
     (\<forall>ty ty' t. t \<in> set (p ty) \<longrightarrow> t \<in> set (p ty') \<longrightarrow> ty = ty')"

lemma pools_okD:
  assumes "pools_ok p"
  shows "pool_ok (p ty)" "t \<in> set (p ty) \<Longrightarrow> t \<in> set (p ty') \<Longrightarrow> ty = ty'"
    "ty \<noteq> ty' \<Longrightarrow> set (p ty) \<inter> set (p ty') = {}"
  using assms unfolding pools_ok_def by blast+

lemma poolTypes_all: "ty \<in> set poolTypes"
  by (cases ty) (simp_all add: poolTypes_def)

lemma pool_remove: "pool_ok xs \<Longrightarrow> set (remove1 t xs) = set xs - {t}"
  using pool_ok_distinct by (simp add: set_remove1_eq)

lemma eraseFirst_result:
  assumes "\<And>ty. pool_ok (p ty)"
    and "\<And>ty ty'. ty \<in> set tys \<Longrightarrow> ty' \<in> set tys \<Longrightarrow> t \<in> set (p ty) \<Longrightarrow> t \<in> set (p ty') \<Longrightarrow> ty = ty'"
  shows "pool_ok (fst (eraseFirst t tys p) ty)"
    and "set (fst (eraseFirst t tys p) ty) = (if ty \<in> set tys then set (p ty) - {t} else set (p ty))"
  using assms by (induction t tys p rule: eraseFirst.induct) (auto simp: pool_remove split: if_splits)

lemma eraseFirst_ok:
  assumes "pools_ok p"
  shows "pools_ok (fst (eraseFirst t poolTypes p))"
  using eraseFirst_result [of p poolTypes t] pools_okD [OF assms] poolTypes_all
  unfolding pools_ok_def by (metis Diff_iff)

lemma findPool_None: "findPool t p = None \<longleftrightarrow> (\<forall>ty. t \<notin> set (p ty))"
  using poolTypes_all by (auto simp: findPool_def find_None_iff)

lemma insert_new_ok:
  assumes "pools_ok p" "\<And>ty. t \<notin> set (p ty)"
  shows "pools_ok (p(ty := set_insert (<) t (p ty)))"
  using assms unfolding pools_ok_def by (auto simp: fun_upd_apply split: if_splits)

lemma move_pool_ok:
  assumes "pools_ok p"
  shows "pools_ok (removeFromOthersUnlocked t ty (p(ty := set_insert (<) t (p ty))))"
proof -
  let ?p = "p(ty := set_insert (<) t (p ty))" and ?tys = "filter (\<lambda>ty'. ty' \<noteq> ty) poolTypes"
  have ok: "pool_ok (?p ty')" for ty' using pools_okD(1) [OF assms] by simp
  have other: "ty1 = ty2" if "ty1 \<in> set ?tys" "ty2 \<in> set ?tys" "t \<in> set (?p ty1)" "t \<in> set (?p ty2)"
    for ty1 ty2
    using that pools_okD(2) [OF assms] by (auto split: if_splits)
  have "set (fst (eraseFirst t ?tys ?p) ty') =
      (if ty' = ty then insert t (set (p ty)) else set (p ty') - {t})" for ty'
    using eraseFirst_result(2) [of ?p ?tys t ty', OF ok other] poolTypes_all by auto
  moreover have "pool_ok (fst (eraseFirst t ?tys ?p) ty')" for ty'
    using eraseFirst_result(1) [of ?p ?tys t, OF ok other] .
  ultimately show ?thesis
    using pools_okD [OF assms] unfolding removeFromOthersUnlocked_def pools_ok_def
    by (auto split: if_splits)
qed

text \<open>The number of targets chosen without preference.\<close>

definition chosen_count :: "nat \<Rightarrow> nat \<Rightarrow> poolVec \<Rightarrow> nat" where
  "chosen_count num minRequired p =
     (let nNormal = length (p CapacityPool_NORMAL); nLow = length (p CapacityPool_LOW)
      in if minRequired \<le> nNormal then min num nNormal
         else if minRequired \<le> nNormal + nLow then min num (nNormal + nLow)
         else nNormal + nLow + min num (length (p CapacityPool_EMERGENCY)))"

lemma withoutPreference_result:
  assumes ok: "pools_ok p" and small: "\<And>ty. length (p ty) \<le> 65536"
    and minReq: "minReq \<noteq> 0" "minReq \<le> num"
  shows "\<exists>out seed'. chooseWithoutPreference rand_r num minReq p seed = Inr (out, seed') \<and> distinct out \<and>
    length out = chosen_count (unat num) (unat minReq) p \<and>
    set out \<subseteq> set (p CapacityPool_NORMAL) \<union> set (p CapacityPool_LOW) \<union> set (p CapacityPool_EMERGENCY) \<and>
    (unat minReq \<le> length (p CapacityPool_NORMAL) \<longrightarrow> set out \<subseteq> set (p CapacityPool_NORMAL)) \<and>
    (unat minReq \<le> length (p CapacityPool_NORMAL) + length (p CapacityPool_LOW) \<longrightarrow>
       set out \<inter> set (p CapacityPool_EMERGENCY) = {})"
proof -
  let ?N = "p CapacityPool_NORMAL" and ?L = "p CapacityPool_LOW" and ?E = "p CapacityPool_EMERGENCY"
  let ?n = "unat num" and ?m = "unat minReq"
  have m: "0 < ?m" "?m \<le> ?n" using minReq by (simp_all add: unat_gt_0 word_le_nat_alt)
  then have num: "num \<noteq> 0" by auto
  note dis = pools_okD(3) [OF ok]
  obtain out1 s1 where 1: "chooseStorageNodesNoPref rand_r ?N num seed [] = Inr (out1, s1)"
    "adds ?N (min ?n (length ?N)) [] out1"
    using noPref_result [OF pools_okD(1) [OF ok], of CapacityPool_NORMAL num rand_r seed "[]"] num
    by blast
  then have out1: "distinct out1" "set out1 \<subseteq> set ?N" "length out1 = min ?n (length ?N)"
    by (auto simp: adds_def)
  have skip1: "(if ?N \<noteq> [] then chooseStorageNodesNoPref rand_r ?N num seed [] else Inr ([], seed)) =
      Inr (out1, s1)"
    using 1(1) by (auto simp: chooseStorageNodesNoPref_def)
  note unf = chooseWithoutPreference_def cbind_def skip1 sum.case prod.case
  show ?thesis
  proof (cases "?m \<le> length ?N")
    case True
    then have "?N \<noteq> []" "length out1 \<ge> ?m" using m out1(3) by auto
    then have "chooseWithoutPreference rand_r num minReq p seed = Inr (out1, s1)"
      unfolding unf by simp
    with True out1 dis [of CapacityPool_NORMAL CapacityPool_EMERGENCY] show ?thesis
      by (intro exI [of _ out1] exI [of _ s1]) (auto simp: chosen_count_def)
  next
    case False
    then have few: "length out1 = length ?N" "length out1 < ?m" using m out1(3) by simp_all
    have left: "unat (num - word_of_nat (length out1)) = ?n - length ?N"
    proof -
      have "length ?N < 4294967296" using small [of CapacityPool_NORMAL] by linarith
      then have "unat (word_of_nat (length ?N) :: u32) = length ?N" by (simp add: unat_of_nat)
      moreover have "length ?N \<le> ?n" using False m by linarith
      ultimately show ?thesis unfolding few by (simp add: unat_sub word_le_nat_alt)
    qed
    have "0 < unat (num - word_of_nat (length out1))"
      unfolding left using False m by linarith
    then have "num - word_of_nat (length out1) \<noteq> 0" by (simp add: unat_gt_0)
    then obtain out2 s2 where 2:
      "chooseStorageNodesNoPref rand_r ?L (num - word_of_nat (length out1)) s1 out1 = Inr (out2, s2)"
      "adds ?L (min (?n - length ?N) (length ?L)) out1 out2"
      using noPref_result [OF pools_okD(1) [OF ok], of CapacityPool_LOW
          "num - word_of_nat (length out1)" rand_r s1 out1] left by auto
    have "set out1 \<inter> set ?L = {}" using out1(2) dis [of CapacityPool_NORMAL CapacityPool_LOW] by blast
    note added = adds_disjoint [OF 2(2) out1(1) this]
    have out2: "distinct out2" "set out2 \<subseteq> set ?N \<union> set ?L"
      using added(1,2) out1(2) by blast+
    have out2_len: "length out2 = length ?N + min (?n - length ?N) (length ?L)"
      unfolding added(3) few(1) by (rule refl)
    have skip2: "(if ?L \<noteq> []
        then chooseStorageNodesNoPref rand_r ?L (num - word_of_nat (length out1)) s1 out1
        else Inr (out1, s1)) = Inr (out2, s2)"
      using 2(1) by (auto simp: chooseStorageNodesNoPref_def)
    have go: "\<not> (?N \<noteq> [] \<and> length out1 \<ge> ?m)" using few by simp
    show ?thesis
    proof (cases "?m \<le> length ?N + length ?L")
      case True
      then have "?L \<noteq> []" "length out2 \<ge> ?m" using False out2_len m by auto
      then have "chooseWithoutPreference rand_r num minReq p seed = Inr (out2, s2)"
        unfolding unf if_not_P [OF go] skip2 by simp
      moreover have "length out2 = min ?n (length ?N + length ?L)" using out2_len False m by linarith
      ultimately show ?thesis
        using True False out2 dis [of CapacityPool_NORMAL CapacityPool_EMERGENCY]
          dis [of CapacityPool_LOW CapacityPool_EMERGENCY]
        by (intro exI [of _ out2] exI [of _ s2]) (auto simp: chosen_count_def)
    next
      case few2: False
      then have len2: "length out2 = length ?N + length ?L" using out2_len m by linarith
      obtain out3 s3 where 3: "chooseStorageNodesNoPref rand_r ?E num s2 out2 = Inr (out3, s3)"
        "adds ?E (min ?n (length ?E)) out2 out3"
        using noPref_result [OF pools_okD(1) [OF ok], of CapacityPool_EMERGENCY num rand_r s2 out2] num
        by blast
      have "\<not> (?L \<noteq> [] \<and> length out2 \<ge> ?m)" using few2 len2 by simp
      then have "chooseWithoutPreference rand_r num minReq p seed = Inr (out3, s3)"
        unfolding unf if_not_P [OF go] skip2 by (auto simp: 3(1))
      moreover have "set out2 \<inter> set ?E = {}"
        using out2(2) dis [of CapacityPool_NORMAL CapacityPool_EMERGENCY]
          dis [of CapacityPool_LOW CapacityPool_EMERGENCY] by blast
      note added' = adds_disjoint [OF 3(2) out2(1) this]
      moreover have "set out3 \<subseteq> set ?N \<union> set ?L \<union> set ?E" using added'(2) out2(2) by blast
      ultimately show ?thesis using False few2 len2
        by (intro exI [of _ out3] exI [of _ s3]) (simp add: chosen_count_def)
    qed
  qed
qed

lemma withPreference_result:
  assumes ok: "pools_ok p" and preferred: "preferred \<noteq> []" and num: "num \<noteq> 0"
    and minReq: "minReq \<noteq> 0"
  shows "\<exists>out seed'. chooseWithPreference rand_r num minReq preferred p seed = Inr (out, seed') \<and>
    length out \<le> unat num \<and> (distinct preferred \<longrightarrow> distinct out) \<and>
    set out \<subseteq> set (p CapacityPool_NORMAL) \<union> set (p CapacityPool_LOW) \<union> set (p CapacityPool_EMERGENCY) \<and>
    (out = [] \<longrightarrow> (\<forall>ty. p ty = [])) \<and>
    (p CapacityPool_NORMAL \<noteq> [] \<or> p CapacityPool_LOW \<noteq> [] \<longrightarrow>
       set out \<subseteq> set (p CapacityPool_NORMAL) \<union> set (p CapacityPool_LOW))"
proof -
  let ?N = "p CapacityPool_NORMAL" and ?L = "p CapacityPool_LOW" and ?E = "p CapacityPool_EMERGENCY"
  let ?choose = "chooseStorageNodesWithPref rand_r"
  have n: "0 < unat num" "0 < unat minReq" using num minReq by (simp_all add: unat_gt_0)
  have dis: "set ?N \<inter> set ?L = {}" using pools_okD(3) [OF ok] by simp
  have left: "unat (num - word_of_nat (length xs)) = unat num - length xs"
    if "length xs \<le> unat num" for xs :: "u16 list"
  proof -
    have "unat num < 4294967296" using unsigned_less [of num, where ?'a = nat] by simp
    then have "unat (word_of_nat (length xs) :: u32) = length xs" using that by (simp add: unat_of_nat)
    then show ?thesis using that by (simp add: unat_sub word_le_nat_alt)
  qed
  have two: "\<exists>xs ys s1 s2. ?choose ?N num preferred allow s [] = Inr (xs, s1) \<and>
      ?choose ?L (num - word_of_nat (length xs)) preferred allow s1 xs = Inr (xs @ ys, s2) \<and>
      set xs \<subseteq> set ?N \<and> set ys \<subseteq> set ?L \<and> length (xs @ ys) \<le> unat num \<and>
      (distinct preferred \<longrightarrow> distinct (xs @ ys)) \<and>
      (allow \<longrightarrow> xs @ ys = [] \<longrightarrow> ?N = [] \<and> ?L = [])" for allow s
  proof -
    obtain xs s1 where xs: "?choose ?N num preferred allow s [] = Inr (xs, s1)" "set xs \<subseteq> set ?N"
      "length xs \<le> unat num" "allow \<Longrightarrow> length xs = min (unat num) (length ?N)"
      "distinct preferred \<Longrightarrow> distinct xs"
      using withPref_result [OF pools_okD(1) [OF ok, of CapacityPool_NORMAL] preferred,
          where rand_r = rand_r and numTargets = num and allow = allow and seed = s and out = "[]"] by auto
    obtain ys s2 where ys: "?choose ?L (num - word_of_nat (length xs)) preferred allow s1 xs = Inr (xs @ ys, s2)"
      "set ys \<subseteq> set ?L" "length ys \<le> unat num - length xs"
      "allow \<Longrightarrow> length ys = min (unat num - length xs) (length ?L)"
      "distinct preferred \<Longrightarrow> distinct ys"
      using withPref_result [OF pools_okD(1) [OF ok, of CapacityPool_LOW] preferred,
          where rand_r = rand_r and numTargets = "num - word_of_nat (length xs)" and allow = allow and seed = s1 and out = xs]
      unfolding left [OF xs(3)] by auto
    have "allow \<longrightarrow> xs @ ys = [] \<longrightarrow> ?N = [] \<and> ?L = []"
      using xs(4) ys(4) n by (auto simp: min_def split: if_splits)
    moreover have "length (xs @ ys) \<le> unat num" using xs(3) ys(3) by simp
    moreover have "distinct preferred \<longrightarrow> distinct (xs @ ys)" using xs ys dis by auto
    ultimately show ?thesis using xs(1,2) ys(1,2) by blast
  qed
  obtain xs ys s1 s2 where A: "?choose ?N num preferred False seed [] = Inr (xs, s1)"
    "?choose ?L (num - word_of_nat (length xs)) preferred False s1 xs = Inr (xs @ ys, s2)"
    "set xs \<subseteq> set ?N" "set ys \<subseteq> set ?L" "length (xs @ ys) \<le> unat num"
    "distinct preferred \<longrightarrow> distinct (xs @ ys)"
    using two [of False seed] by blast
  note unf = chooseWithPreference_def cbind_def Let_def sum.case prod.case
  show ?thesis
  proof (cases "length xs \<ge> unat minReq \<or> xs @ ys \<noteq> []")
    case True
    define out where "out = (if length xs \<ge> unat minReq then xs else xs @ ys)"
    have "\<exists>s'. chooseWithPreference rand_r num minReq preferred p seed = Inr (out, s')"
      unfolding unf A(1) A(2) out_def using True by auto
    moreover have "out \<noteq> []" using True n by (auto simp: out_def)
    moreover have "set out \<subseteq> set ?N \<union> set ?L" using A(3,4) by (auto simp: out_def)
    moreover have "length out \<le> unat num" "distinct preferred \<longrightarrow> distinct out"
      using A(5,6) by (auto simp: out_def)
    ultimately show ?thesis by blast
  next
    case False
    then have e: "xs = []" "ys = []" and small: "\<not> unat minReq \<le> length xs" by auto
    obtain xs' ys' s3 s4 where B: "?choose ?N num preferred True s2 [] = Inr (xs', s3)"
      "?choose ?L (num - word_of_nat (length xs')) preferred True s3 xs' = Inr (xs' @ ys', s4)"
      "set xs' \<subseteq> set ?N" "set ys' \<subseteq> set ?L" "length (xs' @ ys') \<le> unat num"
      "distinct preferred \<longrightarrow> distinct (xs' @ ys')" "xs' @ ys' = [] \<Longrightarrow> ?N = [] \<and> ?L = []"
      using two [of True s2] by blast
    note A' = A(1,2) [unfolded e append_Nil]
    show ?thesis
    proof (cases "xs' @ ys' \<noteq> []")
      case True
      define out where "out = (if length xs' \<ge> unat minReq then xs' else xs' @ ys')"
      have "\<exists>s'. chooseWithPreference rand_r num minReq preferred p seed = Inr (out, s')"
        unfolding unf A' B(1,2) out_def using True small by (auto simp: B(1,2) e)
      moreover have "out \<noteq> []" using True n by (auto simp: out_def)
      moreover have "set out \<subseteq> set ?N \<union> set ?L" using B(3,4) by (auto simp: out_def)
      moreover have "length out \<le> unat num" "distinct preferred \<longrightarrow> distinct out"
        using B(5,6) by (auto simp: out_def)
      ultimately show ?thesis by blast
    next
      case False
      then have e': "xs' = []" "ys' = []" and empty: "?N = []" "?L = []" using B(7) by auto
      note B' = B(1,2) [unfolded e' append_Nil]
      obtain zs s5 where zs: "?choose ?E num preferred False s4 [] = Inr (zs, s5)" "set zs \<subseteq> set ?E"
        "length zs \<le> unat num" "distinct preferred \<Longrightarrow> distinct zs"
        using withPref_result [OF pools_okD(1) [OF ok, of CapacityPool_EMERGENCY] preferred,
          where rand_r = rand_r and numTargets = num and allow = False and seed = s4 and out = "[]"] by auto
      obtain zs' s6 where zs': "?choose ?E num preferred True s5 [] = Inr (zs', s6)" "set zs' \<subseteq> set ?E"
        "length zs' = min (unat num) (length ?E)" "distinct preferred \<Longrightarrow> distinct zs'"
        using withPref_result [OF pools_okD(1) [OF ok, of CapacityPool_EMERGENCY] preferred,
          where rand_r = rand_r and numTargets = num and allow = True and seed = s5 and out = "[]"] by auto
      define out where "out = (if zs \<noteq> [] then zs else zs')"
      have "\<exists>s'. chooseWithPreference rand_r num minReq preferred p seed = Inr (out, s')"
        unfolding unf A' B' out_def using n by (auto simp: A' B' zs(1) zs'(1))
      moreover have "out = [] \<longrightarrow> (\<forall>ty. p ty = [])"
      proof (intro impI allI)
        fix ty assume "out = []"
        then have "min (unat num) (length ?E) = 0" using zs'(3) by (simp add: out_def split: if_splits)
        then have "?E = []" using n by (simp add: min_def split: if_splits)
        with empty show "p ty = []" by (cases ty) simp_all
      qed
      moreover have "set out \<subseteq> set ?E" "length out \<le> unat num" "distinct preferred \<longrightarrow> distinct out"
        using zs zs' by (auto simp: out_def)
      ultimately show ?thesis using empty by blast
    qed
  qed
qed


section \<open>Round robin over several calls\<close>

text \<open>The calls \<open>chooseStorageTargetsRoundRobin\<close> for the numbers \<open>ns\<close>, one after the other.\<close>

fun rr_calls :: "u32 list \<Rightarrow> poolVec \<Rightarrow> u16 \<Rightarrow> u16 list \<times> u16" where
  "rr_calls [] p lastRR = ([], lastRR)"
| "rr_calls (n # ns) p lastRR =
     (let (out, rr) = chooseStorageTargetsRoundRobin n p lastRR;
          (outs, rr') = rr_calls ns p rr
      in (out @ outs, rr'))"

text \<open>The ring that the calls should walk along.\<close>

definition ring_walk :: "'a list \<Rightarrow> nat \<Rightarrow> nat \<Rightarrow> 'a list" where
  "ring_walk xs i k = map (\<lambda>j. xs ! ((i + Suc j) mod length xs)) [0..<k]"

lemma ring_walk_add: "ring_walk xs i a @ ring_walk xs ((i + a) mod length xs) b = ring_walk xs i (a + b)"
proof -
  have "[0..<a + b] = [0..<a] @ map (\<lambda>j. a + j) [0..<b]"
    by (simp add: map_add_upt upt_add_eq_append [of 0 a b, simplified] add.commute)
  moreover have "((i + a) mod length xs + Suc j) mod length xs = (i + Suc (a + j)) mod length xs" for j
    unfolding mod_add_left_eq by (simp add: add.assoc)
  ultimately show ?thesis by (simp add: ring_walk_def o_def)
qed

lemma rr_calls_result:
  assumes "pool_ok active" "active \<noteq> []"
    and "active = (if p CapacityPool_NORMAL \<noteq> [] then p CapacityPool_NORMAL
      else if p CapacityPool_LOW \<noteq> [] then p CapacityPool_LOW else p CapacityPool_EMERGENCY)"
    and "i < length active" "list_all (\<lambda>n. unat n \<le> length active) ns"
  shows "rr_calls ns p (active ! i) =
    (ring_walk active i (sum_list (map unat ns)),
     active ! ((i + sum_list (map unat ns)) mod length active))"
  using assms(4,5)
proof (induction ns arbitrary: i)
  case (Cons n ns)
  let ?i = "(i + unat n) mod length active"
  have step: "chooseStorageTargetsRoundRobin n p (active ! i) =
      (ring_walk active i (unat n), active ! ?i)"
    using round_robin_start [OF assms(1) Cons.prems(1), of n "[]"] Cons.prems(2)
    by (simp add: chooseStorageTargetsRoundRobin_def assms(3) [symmetric] ring_walk_def)
  have less: "?i < length active" using Cons.prems(1) by (intro mod_less_divisor) linarith
  have "(?i + sum_list (map unat ns)) mod length active =
      (i + sum_list (map unat (n # ns))) mod length active"
    unfolding mod_add_left_eq by (simp add: add.assoc)
  with Cons.IH [OF less] Cons.prems(2) show ?case by (simp add: step ring_walk_add)
qed (simp add: ring_walk_def)

lemma ring_walk_count:
  assumes "distinct xs" "i < length xs" "t \<in> set xs"
  shows "count_list (ring_walk xs i k) t \<in> {k div length xs, Suc (k div length xs)}"
proof (induction k rule: less_induct)
  case (less k)
  let ?L = "length xs"
  have L: "0 < ?L" using assms(2) by linarith
  have lap: "inj_on (\<lambda>j. xs ! ((i + Suc j) mod ?L)) {0..<?L}"
  proof (rule inj_onI)
    fix x y assume xy: "x \<in> {0..<?L}" "y \<in> {0..<?L}" "xs ! ((i + Suc x) mod ?L) = xs ! ((i + Suc y) mod ?L)"
    have "(i + Suc x) mod ?L < ?L" "(i + Suc y) mod ?L < ?L" using L by simp_all
    with xy(3) assms(1) have "(Suc i + x) mod ?L = (Suc i + y) mod ?L" by (simp add: nth_eq_iff_index_eq)
    from inj_onD [OF ring_inj [OF L] this xy(1,2)] show "x = y" .
  qed
  have dis: "distinct (ring_walk xs i m)" if "m \<le> ?L" for m
    using inj_on_subset [OF lap, of "{0..<m}"] that by (simp add: ring_walk_def distinct_map)
  have count1: "count_list ys t = (if t \<in> set ys then 1 else 0)" if "distinct ys" for ys
    using that by (induction ys) auto
  show ?case
  proof (cases "k < ?L")
    case True
    then show ?thesis using count1 [OF dis [of k]] by simp
  next
    case False
    have sub: "set (ring_walk xs i ?L) \<subseteq> set xs" using L by (auto simp: ring_walk_def)
    have "card (set (ring_walk xs i ?L)) = card (set xs)"
      using distinct_card [OF dis [of ?L]] distinct_card [OF assms(1)] by (simp add: ring_walk_def)
    then have "set (ring_walk xs i ?L) = set xs" using sub by (intro card_subset_eq) simp_all
    then have one: "count_list (ring_walk xs i ?L) t = 1" using count1 [OF dis [of ?L]] assms(3) by simp
    have "ring_walk xs i k = ring_walk xs i ?L @ ring_walk xs i (k - ?L)"
      using ring_walk_add [of xs i ?L "k - ?L"] False assms(2) by simp
    then have "count_list (ring_walk xs i k) t = Suc (count_list (ring_walk xs i (k - ?L)) t)"
      by (simp add: one)
    moreover have "k div ?L = Suc ((k - ?L) div ?L)" using False L by (intro le_div_geq) simp_all
    moreover have "k - ?L < k" using False L by linarith
    note less.IH [OF this]
    ultimately show ?thesis by auto
  qed
qed

lemma pool_size: "pool_ok xs \<Longrightarrow> length xs \<le> 65536"
  using distinct_card [OF pool_ok_distinct, of xs] card_mono [of "UNIV :: u16 set" "set xs"]
  by (simp add: card_word)

section \<open>Properties\<close>

text \<open>
  C30: without preferred targets, for pools that are ordered sets without common targets, and if at least one target is required and not more are required
  than asked for, the choice of storage targets succeeds; it gives different targets of the pools,
  all of the normal pool if this has as many as required, and none of the emergency pool if the
  normal and the low pool have enough together. Their number is exactly \<open>chosen_count\<close>: if the
  normal pool has as many as required, what was asked for as far as the normal pool has it; else,
  if the normal and the low pool together have as many as required, what was asked for as far as these
  have it; else all of these two pools, and of the emergency pool once more what was asked for as
  far as it has it. So it may be less than the pools have together, and it may be more than was
  asked for.
\<close>

theorem choice_without_preference:
  assumes "pools_ok p" "minReq \<noteq> 0" "minReq \<le> num"
  shows "\<exists>out seed'. chooseStorageTargets rand_r num minReq [] p seed = Inr (out, seed') \<and>
    distinct out \<and> length out = chosen_count (unat num) (unat minReq) p \<and>
    set out \<subseteq> set (p CapacityPool_NORMAL) \<union> set (p CapacityPool_LOW) \<union> set (p CapacityPool_EMERGENCY) \<and>
    (unat minReq \<le> length (p CapacityPool_NORMAL) \<longrightarrow> set out \<subseteq> set (p CapacityPool_NORMAL)) \<and>
    (unat minReq \<le> length (p CapacityPool_NORMAL) + length (p CapacityPool_LOW) \<longrightarrow>
       set out \<inter> set (p CapacityPool_EMERGENCY) = {})"
  using withoutPreference_result [OF assms(1) pool_size [OF pools_okD(1) [OF assms(1)]] assms(2,3),
      where rand_r = rand_r and seed = seed]
  by (simp add: chooseStorageTargets_def)

text \<open>Five targets asked for, three in the normal pool: the low pool gives one of the others.\<close>

definition example_pools :: poolVec where
  "example_pools = poolsFromLists [7, 3, 5] [9] [2, 4]"

lemma example_pools_values [simp]:
  "example_pools CapacityPool_NORMAL = [3, 5, 7]"
  "example_pools CapacityPool_LOW = [9]"
  "example_pools CapacityPool_EMERGENCY = [2, 4]"
  by (simp_all add: example_pools_def poolsFromLists_def)

lemma example_pools_ok: "pools_ok example_pools"
proof -
  have "pool_ok (example_pools ty)" for ty by (cases ty) (simp_all add: pool_ok_def)
  moreover have "ty = ty'" if "t \<in> set (example_pools ty)" "t \<in> set (example_pools ty')" for t ty ty'
    using that by (cases ty; cases ty') auto
  ultimately show ?thesis unfolding pools_ok_def by blast
qed

theorem choice_without_preference_witness:
  "\<exists>out seed'. chooseStorageTargets (\<lambda>s. (s, s + 1)) 5 4 [] example_pools 11 = Inr (out, seed') \<and>
     distinct out \<and> length out = 4 \<and> set out \<inter> {2, 4} = {}"
  using choice_without_preference [OF example_pools_ok, of 4 5 "\<lambda>s. (s, s + 1)" 11]
  by (auto simp: chosen_count_def)

text \<open>
  C31: with preferred targets the choice always ends, whatever the random numbers are; it gives
  at most as many targets as asked for, all of the pools, different ones if the preferred ones
  are, at least one if some pool has one, and none of the emergency pool unless the two others
  are empty.
\<close>

theorem choice_with_preference_ends:
  assumes "pools_ok p" "preferred \<noteq> []" "num \<noteq> 0" "minReq \<noteq> 0"
  shows "\<exists>out seed'. chooseStorageTargets rand_r num minReq preferred p seed = Inr (out, seed') \<and>
    length out \<le> unat num \<and> (distinct preferred \<longrightarrow> distinct out) \<and>
    set out \<subseteq> set (p CapacityPool_NORMAL) \<union> set (p CapacityPool_LOW) \<union> set (p CapacityPool_EMERGENCY) \<and>
    (out = [] \<longrightarrow> (\<forall>ty. p ty = [])) \<and>
    (p CapacityPool_NORMAL \<noteq> [] \<or> p CapacityPool_LOW \<noteq> [] \<longrightarrow>
       set out \<subseteq> set (p CapacityPool_NORMAL) \<union> set (p CapacityPool_LOW))"
  using withPreference_result [OF assms, where rand_r = rand_r and seed = seed] assms(2)
  by (simp add: chooseStorageTargets_def)

theorem choice_with_preference_ends_witness:
  "\<exists>out seed'. chooseStorageTargets (\<lambda>s. (s, s + 1)) 2 2 [5, 8] example_pools 11 = Inr (out, seed') \<and>
     length out \<le> 2 \<and> distinct out \<and> out \<noteq> [] \<and> set out \<subseteq> {3, 5, 7, 9}"
proof -
  have "example_pools CapacityPool_NORMAL \<noteq> []" by simp
  then show ?thesis
    using choice_with_preference_ends [OF example_pools_ok, of "[5, 8]" 2 2 "\<lambda>s. (s, s + 1)" 11]
    by fastforce
qed

text \<open>
  C32: the calls of the round-robin choice on unchanged pools give together the walk around the
  ring of the targets, however the numbers are distributed over the calls; so every target of
  the pool is given as often as every other one, or once more.
\<close>

theorem round_robin_is_fair:
  assumes "pools_ok p" "active \<noteq> []"
    and "active = (if p CapacityPool_NORMAL \<noteq> [] then p CapacityPool_NORMAL
      else if p CapacityPool_LOW \<noteq> [] then p CapacityPool_LOW else p CapacityPool_EMERGENCY)"
    and "i < length active" "list_all (\<lambda>n. unat n \<le> length active) ns"
  shows "fst (rr_calls ns p (active ! i)) = ring_walk active i (sum_list (map unat ns)) \<and>
    (t \<in> set active \<longrightarrow> count_list (fst (rr_calls ns p (active ! i))) t \<in>
       {sum_list (map unat ns) div length active, Suc (sum_list (map unat ns) div length active)})"
proof -
  have ok: "pool_ok active" using pools_okD(1) [OF assms(1)] unfolding assms(3) by (simp split: if_splits)
  show ?thesis
    using rr_calls_result [OF ok assms(2-5)] ring_walk_count [OF pool_ok_distinct [OF ok] assms(4)]
    by simp
qed

theorem round_robin_is_fair_witness:
  "fst (rr_calls [2, 1, 3, 2] example_pools 5) = [7, 3, 5, 7, 3, 5, 7, 3]"
proof -
  have "fst (rr_calls [2, 1, 3, 2] example_pools ([3, 5, 7] ! 1)) =
      ring_walk [3, 5, 7] 1 (sum_list (map unat [2, 1, 3, 2 :: u32]))"
    by (rule round_robin_is_fair [OF example_pools_ok, THEN conjunct1]) simp_all
  also have "\<dots> = [7, 3, 5, 7, 3, 5, 7, 3]"
    by code_simp
  finally show ?thesis unfolding nth_Cons_Suc One_nat_def nth_Cons_0 .
qed

end
