(* ===== verification/TargetPools.thy ===== *)
theory TargetPools
  imports CapacityPools
begin

text \<open>
  The capacity pools of storage targets, which are also grouped by the node of the target
  (\<open>TargetCapacityPools.h/.cpp\<close>), so that targets of different nodes or of one node can be
  chosen. The choosers on the plain pools are the same code as in \<open>CapacityPools\<close>.
\<close>

section \<open>State and operations\<close>

type_synonym GroupedTargets = "(u16 \<times> u16 list) list"

record TargetCapacityPools = NodeCapacityPools +
  groupedTargetPools :: "CapacityPoolType \<Rightarrow> GroupedTargets"
  targetMap :: "(u16 \<times> u16) list"

definition newTargetCapacityPools :: TargetCapacityPools where
  "newTargetCapacityPools = \<lparr>pools = (\<lambda>_. []), lastRoundRobinTarget = 0,
     groupedTargetPools = (\<lambda>_. []), targetMap = []\<rparr>"

definition getNodeIDFromTargetID :: "u16 \<Rightarrow> (u16 \<times> u16) list \<Rightarrow> u16" where
  "getNodeIDFromTargetID t m = (case map_of m t of None \<Rightarrow> 0 | Some n \<Rightarrow> n)"

text \<open>\<open>groups[n]\<close>, which an insertion or erasure through \<open>operator[]\<close> creates when it is missing.\<close>

definition groupOf :: "GroupedTargets \<Rightarrow> u16 \<Rightarrow> u16 list" where
  "groupOf g n = (case map_of g n of None \<Rightarrow> [] | Some ts \<Rightarrow> ts)"

definition groupInsert :: "u16 \<Rightarrow> u16 \<Rightarrow> GroupedTargets \<Rightarrow> GroupedTargets" where
  "groupInsert n t g = map_set n (set_insert (<) t (groupOf g n)) g"

definition groupErase :: "u16 \<Rightarrow> u16 \<Rightarrow> GroupedTargets \<Rightarrow> GroupedTargets" where
  "groupErase n t g = map_set n (remove1 t (groupOf g n)) g"

definition tcp_removeFromOthersUnlocked ::
    "u16 \<Rightarrow> u16 \<Rightarrow> CapacityPoolType \<Rightarrow> TargetCapacityPools \<Rightarrow> TargetCapacityPools" where
  "tcp_removeFromOthersUnlocked t previousNodeID keepPool s =
     (case eraseFirst t (filter (\<lambda>ty. ty \<noteq> keepPool) poolTypes) (pools s) of
        (p, None) \<Rightarrow> s
      | (p, Some ty) \<Rightarrow>
          (if previousNodeID \<noteq> 0
           then s\<lparr>pools := p, groupedTargetPools := (groupedTargetPools s)
             (ty := groupErase previousNodeID t (groupedTargetPools s ty))\<rparr>
           else s\<lparr>pools := p\<rparr>))"

definition addOrUpdateUnlocked ::
    "u16 \<Rightarrow> u16 \<Rightarrow> CapacityPoolType \<Rightarrow> TargetCapacityPools \<Rightarrow> TargetCapacityPools \<times> bool" where
  "addOrUpdateUnlocked t n ty s =
     (let isNew = (t \<notin> set (pools s ty) \<or> t \<notin> set (groupOf (groupedTargetPools s ty) n));
          s1 = s\<lparr>pools := (pools s)(ty := set_insert (<) t (pools s ty)),
                 groupedTargetPools := (groupedTargetPools s)
                   (ty := groupInsert n t (groupedTargetPools s ty))\<rparr>;
          s2 = (if isNew
                then tcp_removeFromOthersUnlocked t (getNodeIDFromTargetID t (targetMap s1)) ty s1
                else s1)
      in (s2\<lparr>targetMap := map_set t n (targetMap s2)\<rparr>, isNew))"

definition tcp_addOrUpdate ::
    "u16 \<Rightarrow> u16 \<Rightarrow> CapacityPoolType \<Rightarrow> TargetCapacityPools \<Rightarrow> TargetCapacityPools \<times> bool" where
  "tcp_addOrUpdate t n ty s = addOrUpdateUnlocked t n ty s"

text \<open>The check is made under the read lock and again under the write lock.\<close>

definition needUpdate :: "u16 \<Rightarrow> u16 \<Rightarrow> TargetCapacityPools \<Rightarrow> bool" where
  "needUpdate t n s =
     (case findPool t (pools s) of
        None \<Rightarrow> True
      | Some _ \<Rightarrow> n \<noteq> getNodeIDFromTargetID t (targetMap s))"

definition tcp_addIfNotExists ::
    "u16 \<Rightarrow> u16 \<Rightarrow> CapacityPoolType \<Rightarrow> TargetCapacityPools \<Rightarrow> TargetCapacityPools \<times> bool" where
  "tcp_addIfNotExists t n ty s =
     (if \<not> needUpdate t n s then (s, False)
      else
        (let ty' = (case findPool t (pools s) of None \<Rightarrow> ty | Some ty1 \<Rightarrow> ty1)
         in (if needUpdate t n s then fst (addOrUpdateUnlocked t n ty' s) else s, needUpdate t n s)))"

text \<open>Here the group is looked up with \<open>find\<close>, and an empty one is erased.\<close>

definition tcp_remove :: "u16 \<Rightarrow> TargetCapacityPools \<Rightarrow> TargetCapacityPools" where
  "tcp_remove t s =
     (case eraseFirst t poolTypes (pools s) of
        (p, None) \<Rightarrow> s
      | (p, Some ty) \<Rightarrow>
          (let n = getNodeIDFromTargetID t (targetMap s); g = groupedTargetPools s ty
           in if n = 0 then s\<lparr>pools := p\<rparr>
              else
                (case map_of g n of
                   None \<Rightarrow> s\<lparr>pools := p\<rparr>
                 | Some ts \<Rightarrow>
                     if t \<notin> set ts then s\<lparr>pools := p\<rparr>
                     else s\<lparr>pools := p, groupedTargetPools := (groupedTargetPools s)
                       (ty := (if remove1 t ts = [] then map_erase n g
                               else map_set n (remove1 t ts) g))\<rparr>)))"

definition groupTargetsByNode :: "u16 list \<Rightarrow> (u16 \<times> u16) list \<Rightarrow> GroupedTargets" where
  "groupTargetsByNode pool m =
     fold (\<lambda>t g. let n = getNodeIDFromTargetID t m in if n = 0 then g else groupInsert n t g) pool []"

definition tcp_syncPoolsFromLists ::
    "u16 list \<Rightarrow> u16 list \<Rightarrow> u16 list \<Rightarrow> (u16 \<times> u16) list \<Rightarrow> TargetCapacityPools \<Rightarrow> TargetCapacityPools" where
  "tcp_syncPoolsFromLists listNormal listLow listEmergency newTargetMap s =
     (let newPools = poolsFromLists listNormal listLow listEmergency
      in s\<lparr>pools := newPools,
           groupedTargetPools := (\<lambda>ty. groupTargetsByNode (newPools ty) newTargetMap),
           targetMap := newTargetMap\<rparr>)"

definition getPoolAssignment :: "u16 \<Rightarrow> TargetCapacityPools \<Rightarrow> bool \<times> CapacityPoolType" where
  "getPoolAssignment t s =
     (case findPool t (pools s) of
        None \<Rightarrow> (False, CapacityPool_EMERGENCY)
      | Some ty \<Rightarrow> (True, ty))"

definition copyAndStripGroupedTargets :: "GroupedTargets \<Rightarrow> u16 list \<Rightarrow> GroupedTargets" where
  "copyAndStripGroupedTargets g stripNodes = fold map_erase stripNodes g"

section \<open>Choosing targets by node\<close>

text \<open>Targets of different nodes; \<open>*end()\<close> when the group of a node is empty.\<close>

fun interdomainLoop ::
    "(u32 \<Rightarrow> i32 \<times> u32) \<Rightarrow> GroupedTargets \<Rightarrow> nat \<Rightarrow> nat \<Rightarrow> u32 \<Rightarrow> u16 list \<Rightarrow> u16 list \<Rightarrow>
       chooseFailure + u16 list \<times> u16 list \<times> u32" where
  "interdomainLoop rand_r g 0 iter seed outTargets outNodes = Inr (outTargets, outNodes, seed)"
| "interdomainLoop rand_r g (Suc k) iter seed outTargets outNodes =
     (let (node, targets) = g ! iter;
          (j, seed') = moveIterToRandomElem rand_r (length targets) seed
      in if targets = [] then Inl DerefEnd
         else interdomainLoop rand_r g k (moveIterToNextRingElem (length g) iter) seed'
                (outTargets @ [targets ! j]) (outNodes @ [node]))"

definition chooseTargetsInterdomainNoPref ::
    "(u32 \<Rightarrow> i32 \<times> u32) \<Rightarrow> GroupedTargets \<Rightarrow> u32 \<Rightarrow> u32 \<Rightarrow> u16 list \<Rightarrow> u16 list \<Rightarrow>
       chooseFailure + u16 list \<times> u16 list \<times> u32" where
  "chooseTargetsInterdomainNoPref rand_r g numTargets seed outTargets outNodes =
     (if g = [] then Inr (outTargets, outNodes, seed)
      else
        (let n = (if unat numTargets > length g then length g else unat numTargets);
             (iter, seed1) = moveIterToRandomElem rand_r (length g) seed
         in interdomainLoop rand_r g n iter seed1 outTargets outNodes))"

fun interdomainPools ::
    "(u32 \<Rightarrow> i32 \<times> u32) \<Rightarrow> (CapacityPoolType \<Rightarrow> GroupedTargets) \<Rightarrow> u32 \<Rightarrow> u32 \<Rightarrow>
       CapacityPoolType list \<Rightarrow> u32 \<Rightarrow> u16 list \<Rightarrow> u16 list \<Rightarrow>
       chooseFailure + u16 list \<times> u16 list \<times> u32" where
  "interdomainPools rand_r g numTargets minReq [] seed outTargets usedNodes =
     Inr (outTargets, usedNodes, seed)"
| "interdomainPools rand_r g numTargets minReq (ty # tys) seed outTargets usedNodes =
     (if g ty = [] then interdomainPools rand_r g numTargets minReq tys seed outTargets usedNodes
      else
        cbind (chooseTargetsInterdomainNoPref rand_r
            (if usedNodes \<noteq> [] then copyAndStripGroupedTargets (g ty) usedNodes else g ty)
            numTargets seed outTargets usedNodes) (\<lambda>(outTargets', usedNodes', seed').
        if length outTargets' \<ge> unat minReq then Inr (outTargets', usedNodes', seed')
        else interdomainPools rand_r g numTargets minReq tys seed' outTargets' usedNodes'))"

definition chooseTargetsInterdomain ::
    "(u32 \<Rightarrow> i32 \<times> u32) \<Rightarrow> u32 \<Rightarrow> u32 \<Rightarrow> TargetCapacityPools \<Rightarrow> u32 \<Rightarrow>
       chooseFailure + u16 list \<times> u16 list \<times> u32" where
  "chooseTargetsInterdomain rand_r numTargets minReq s seed =
     interdomainPools rand_r (groupedTargetPools s) numTargets minReq poolTypes seed [] []"

text \<open>Targets of one node; the first is taken even if none is asked for.\<close>

definition chooseTargetsIntradomainNoPref ::
    "(u32 \<Rightarrow> i32 \<times> u32) \<Rightarrow> GroupedTargets \<Rightarrow> u32 \<Rightarrow> u32 \<Rightarrow> u16 list \<Rightarrow> u16 list \<Rightarrow>
       chooseFailure + u16 list \<times> u16 list \<times> u32" where
  "chooseTargetsIntradomainNoPref rand_r g numTargets seed outTargets outGroups =
     (if g = [] then Inr (outTargets, outGroups, seed)
      else
        (let (groupsIter, seed1) = moveIterToRandomElem rand_r (length g) seed;
             (node, targets) = g ! groupsIter;
             n = (if unat numTargets > length targets then length targets else unat numTargets);
             (iter, seed2) = moveIterToRandomElem rand_r (length targets) seed1
         in if targets = [] then Inl DerefEnd
            else
              (let (iter', out) = roundRobinLoop targets (n - 1) iter (outTargets @ [targets ! iter])
               in Inr (out, outGroups @ [node], seed2))))"

fun intradomainPools ::
    "(u32 \<Rightarrow> i32 \<times> u32) \<Rightarrow> (CapacityPoolType \<Rightarrow> GroupedTargets) \<Rightarrow> u32 \<Rightarrow>
       CapacityPoolType list \<Rightarrow> u32 \<Rightarrow> u16 list \<Rightarrow> u16 list \<Rightarrow>
       chooseFailure + u16 list \<times> u16 list \<times> u32" where
  "intradomainPools rand_r g numTargets [] seed outTargets usedGroups =
     Inr (outTargets, usedGroups, seed)"
| "intradomainPools rand_r g numTargets (ty # tys) seed outTargets usedGroups =
     (if g ty = [] then intradomainPools rand_r g numTargets tys seed outTargets usedGroups
      else
        cbind (chooseTargetsIntradomainNoPref rand_r (g ty) numTargets seed outTargets usedGroups)
          (\<lambda>(outTargets', usedGroups', seed').
        if usedGroups' \<noteq> [] then Inr (outTargets', usedGroups', seed')
        else intradomainPools rand_r g numTargets tys seed' outTargets' usedGroups'))"

definition chooseTargetsIntradomain ::
    "(u32 \<Rightarrow> i32 \<times> u32) \<Rightarrow> u32 \<Rightarrow> TargetCapacityPools \<Rightarrow> u32 \<Rightarrow>
       chooseFailure + u16 list \<times> u16 list \<times> u32" where
  "chooseTargetsIntradomain rand_r numTargets s seed =
     intradomainPools rand_r (groupedTargetPools s) numTargets poolTypes seed [] []"


section \<open>The groups agree with the pools\<close>

lemma eraseFirst_cases:
  obtains (none) "eraseFirst t tys p = (p, None)" "\<And>ty. ty \<in> set tys \<Longrightarrow> t \<notin> set (p ty)"
  | (found) ty where "eraseFirst t tys p = (p(ty := remove1 t (p ty)), Some ty)" "ty \<in> set tys"
      "t \<in> set (p ty)"
proof -
  have "(eraseFirst t tys p = (p, None) \<and> (\<forall>ty \<in> set tys. t \<notin> set (p ty))) \<or>
      (\<exists>ty \<in> set tys. eraseFirst t tys p = (p(ty := remove1 t (p ty)), Some ty) \<and> t \<in> set (p ty))"
    by (induction t tys p rule: eraseFirst.induct) auto
  then show ?thesis using none found by blast
qed

lemma groupOf_Nil [simp]: "groupOf [] n = []"
  by (simp add: groupOf_def)

lemma groupInsert_ok [simp]: "map_ok g \<Longrightarrow> map_ok (groupInsert n t g)"
  and groupErase_ok [simp]: "map_ok g \<Longrightarrow> map_ok (groupErase n t g)"
  by (simp_all add: groupInsert_def groupErase_def)

lemma groupOf_set:
  "map_ok g \<Longrightarrow> groupOf (map_set n ts g) m = (if m = n then ts else groupOf g m)"
  by (simp add: groupOf_def)

lemma groupOf_insert [simp]:
  "map_ok g \<Longrightarrow> groupOf (groupInsert n t g) m =
     (if m = n then set_insert (<) t (groupOf g n) else groupOf g m)"
  by (simp add: groupInsert_def groupOf_set)

lemma groupOf_erase [simp]:
  "map_ok g \<Longrightarrow> groupOf (groupErase n t g) m =
     (if m = n then remove1 t (groupOf g n) else groupOf g m)"
  by (simp add: groupErase_def groupOf_set)

lemma groupOf_map_erase:
  "map_ok g \<Longrightarrow> groupOf (map_erase n g) m = (if m = n then [] else groupOf g m)"
  by (simp add: groupOf_def)

text \<open>
  \<open>nodeOf\<close> is the node that each target is attached to. The pool of a target is known, and the
  group of a node in a pool holds the targets of the pool that are mapped to the node.
\<close>

definition mapping_ok :: "(u16 \<Rightarrow> u16) \<Rightarrow> (u16 \<times> u16) list \<Rightarrow> bool" where
  "mapping_ok nodeOf m \<longleftrightarrow> map_ok m \<and> (\<forall>(t, n) \<in> set m. n = nodeOf t \<and> n \<noteq> 0)"

definition group_ok :: "u16 list \<Rightarrow> (u16 \<times> u16) list \<Rightarrow> GroupedTargets \<Rightarrow> bool" where
  "group_ok pool m g \<longleftrightarrow> map_ok g \<and> (\<forall>n. pool_ok (groupOf g n) \<and>
     set (groupOf g n) = {t \<in> set pool. map_of m t = Some n})"

definition groups_ok :: "(u16 \<Rightarrow> u16) \<Rightarrow> TargetCapacityPools \<Rightarrow> bool" where
  "groups_ok nodeOf s \<longleftrightarrow> pools_ok (pools s) \<and> mapping_ok nodeOf (targetMap s) \<and>
     (\<forall>ty. group_ok (pools s ty) (targetMap s) (groupedTargetPools s ty))"

lemma mapping_okD:
  assumes "mapping_ok nodeOf m" "map_of m t = Some n"
  shows "n = nodeOf t" "n \<noteq> 0" "getNodeIDFromTargetID t m = n"
  using assms map_of_SomeD [OF assms(2)] by (auto simp: mapping_ok_def getNodeIDFromTargetID_def)

lemma mapping_ok_set:
  assumes "mapping_ok nodeOf m" "nodeOf t \<noteq> 0"
  shows "mapping_ok nodeOf (map_set t (nodeOf t) m)"
proof -
  have ok: "map_ok m" using assms(1) by (simp add: mapping_ok_def)
  have "n = nodeOf t' \<and> n \<noteq> 0" if "(t', n) \<in> set (map_set t (nodeOf t) m)" for t' n
  proof -
    have "map_of (map_set t (nodeOf t) m) t' = Some n"
      using that map_of_Some_iff [OF map_set_ok [OF ok, of t "nodeOf t"]] by blast
    then show ?thesis
      using ok mapping_okD [OF assms(1)] assms(2) by (auto split: if_splits)
  qed
  with ok show ?thesis by (auto simp: mapping_ok_def)
qed

lemma groups_okD:
  assumes "groups_ok nodeOf s"
  shows "pools_ok (pools s)" "mapping_ok nodeOf (targetMap s)" "map_ok (targetMap s)"
    "group_ok (pools s ty) (targetMap s) (groupedTargetPools s ty)"
    "map_ok (groupedTargetPools s ty)"
    "pool_ok (groupOf (groupedTargetPools s ty) n)"
    "t \<in> set (groupOf (groupedTargetPools s ty) n) \<longleftrightarrow>
       t \<in> set (pools s ty) \<and> map_of (targetMap s) t = Some n"
proof -
  show a: "pools_ok (pools s)" "mapping_ok nodeOf (targetMap s)"
    "group_ok (pools s ty) (targetMap s) (groupedTargetPools s ty)"
    using assms by (simp_all add: groups_ok_def)
  show "map_ok (targetMap s)" using a(2) by (simp add: mapping_ok_def)
  show "map_ok (groupedTargetPools s ty)" "pool_ok (groupOf (groupedTargetPools s ty) n)"
    "t \<in> set (groupOf (groupedTargetPools s ty) n) \<longleftrightarrow>
       t \<in> set (pools s ty) \<and> map_of (targetMap s) t = Some n"
    using a(3) by (simp_all add: group_ok_def)
qed

lemma addOrUpdateUnlocked_ok:
  assumes ok: "groups_ok nodeOf s" and n: "nodeOf t \<noteq> 0"
  shows "groups_ok nodeOf (fst (addOrUpdateUnlocked t (nodeOf t) ty s))"
proof -
  let ?n = "nodeOf t" and ?tys = "filter (\<lambda>ty'. ty' \<noteq> ty) poolTypes"
  define p1 where "p1 = (pools s)(ty := set_insert (<) t (pools s ty))"
  define g1 where "g1 = (groupedTargetPools s)(ty := groupInsert ?n t (groupedTargetPools s ty))"
  define s' where "s' = fst (addOrUpdateUnlocked t ?n ty s)"
  note D = groups_okD [OF ok]
  have maps: "map_ok (g1 ty')" for ty' using D(5) by (simp add: g1_def)
  have pool1: "pool_ok (p1 ty')" for ty' using pools_okD(1) [OF D(1)] by (simp add: p1_def)
  have grp1: "pool_ok (groupOf (g1 ty') m)" for ty' m using D(5,6) by (simp add: g1_def)
  have g1: "set (groupOf (g1 ty') m) =
      {u \<in> set (p1 ty'). (if u = t \<and> ty' = ty then Some ?n else map_of (targetMap s) u) = Some m}" for ty' m
    using D(7) [of _ ty' m] D(5) [of ty'] mapping_okD(1) [OF D(2), of t]
    by (auto simp: g1_def p1_def split: if_splits)
  have goal: "groups_ok nodeOf s'"
    if s': "targetMap s' = map_set t ?n (targetMap s)" "pools_ok (pools s')"
      "\<And>ty'. set (pools s' ty') = (if ty' = ty then set (p1 ty) else set (p1 ty') - {t})"
      "\<And>ty' m. map_ok (groupedTargetPools s' ty') \<and> pool_ok (groupOf (groupedTargetPools s' ty') m) \<and>
         set (groupOf (groupedTargetPools s' ty') m) =
           (if ty' = ty then set (groupOf (g1 ty) m) else set (groupOf (g1 ty') m) - {t})"
  proof -
    have "mapping_ok nodeOf (targetMap s')" unfolding s'(1) by (rule mapping_ok_set [OF D(2) n])
    moreover have "set (groupOf (groupedTargetPools s' ty') m) =
        {u \<in> set (pools s' ty'). map_of (targetMap s') u = Some m}" for ty' m
    proof -
      have m: "map_of (targetMap s') = (map_of (targetMap s))(t \<mapsto> ?n)" unfolding s'(1) by (simp add: D(3))
      have grp: "set (groupOf (groupedTargetPools s' ty') m) =
           (if ty' = ty then set (groupOf (g1 ty) m) else set (groupOf (g1 ty') m) - {t})"
        using s'(4) by blast
      show ?thesis unfolding m s'(3) grp g1 by (cases "ty' = ty") auto
    qed
    ultimately show ?thesis using s'(2,4) unfolding groups_ok_def group_ok_def by blast
  qed
  define isNew where "isNew = (t \<notin> set (pools s ty) \<or> t \<notin> set (groupOf (groupedTargetPools s ty) ?n))"
  note unf = s'_def addOrUpdateUnlocked_def Let_def isNew_def [symmetric] p1_def [symmetric]
    g1_def [symmetric] fst_conv
  show ?thesis
  proof (cases isNew)
    case False
    then have t: "t \<in> set (pools s ty)" by (simp add: isNew_def)
    have other: "t \<notin> set (p1 ty')" if "ty' \<noteq> ty" for ty'
      using pools_okD(3) [OF D(1), of ty ty'] that t by (auto simp: p1_def)
    have same: "set (p1 ty') = set (pools s ty')" for ty' using t by (auto simp: p1_def)
    have fields: "pools s' = p1" "groupedTargetPools s' = g1" "targetMap s' = map_set t ?n (targetMap s)"
      unfolding unf using False by simp_all
    have "pools_ok p1" using D(1) pool1 unfolding pools_ok_def same by blast
    moreover have "t \<notin> set (groupOf (g1 ty') m)" if "ty' \<noteq> ty" for ty' m
      using other [OF that] unfolding g1 by simp
    ultimately have "groups_ok nodeOf s'" using maps grp1 other
      by (intro goal fields(3)) (auto simp: fields(1,2))
    then show ?thesis by (simp add: s'_def)
  next
    case True
    let ?prev = "getNodeIDFromTargetID t (targetMap s)"
    have others: "ty' = ty''" if "ty' \<in> set ?tys" "ty'' \<in> set ?tys" "t \<in> set (p1 ty')" "t \<in> set (p1 ty'')" for ty' ty''
      using that pools_okD(2) [OF D(1)] by (auto simp: p1_def)
    have ok': "pools_ok (fst (eraseFirst t ?tys p1))"
      using move_pool_ok [OF D(1)] unfolding removeFromOthersUnlocked_def p1_def .
    have sets: "set (fst (eraseFirst t ?tys p1) ty') = (if ty' = ty then set (p1 ty) else set (p1 ty') - {t})" for ty'
      using eraseFirst_result(2) [of p1 ?tys t ty', OF pool1 others] poolTypes_all by auto
    have "groups_ok nodeOf s'"
    proof (cases rule: eraseFirst_cases [of t ?tys p1])
      case none
      have fields: "pools s' = fst (eraseFirst t ?tys p1)" "groupedTargetPools s' = g1"
        "targetMap s' = map_set t ?n (targetMap s)"
        unfolding unf tcp_removeFromOthersUnlocked_def using True none(1) by simp_all
      have "t \<notin> set (groupOf (g1 ty') m)" if "ty' \<noteq> ty" for ty' m
        using none(2) [of ty'] that poolTypes_all unfolding g1 by simp
      then show ?thesis using maps grp1 sets ok'
        by (intro goal fields(3)) (auto simp: fields(1,2))
    next
      case (found ty0)
      define g2 where "g2 = (if ?prev \<noteq> 0 then g1(ty0 := groupErase ?prev t (g1 ty0)) else g1)"
      have fields: "pools s' = fst (eraseFirst t ?tys p1)" "groupedTargetPools s' = g2"
        "targetMap s' = map_set t ?n (targetMap s)"
        unfolding unf tcp_removeFromOthersUnlocked_def g2_def using True found(1) by simp_all
      have ok2: "map_ok (g2 ty')" "pool_ok (groupOf (g2 ty') m)" for ty' m
        using maps grp1 by (simp_all add: g2_def)
      have sets2: "set (groupOf (g2 ty') m) =
          (if ty' = ty then set (groupOf (g1 ty) m) else set (groupOf (g1 ty') m) - {t})" for ty' m
      proof -
        have hit: "m = ?prev \<and> ?prev \<noteq> 0 \<and> ty' = ty0"
          if t: "t \<in> set (groupOf (g1 ty') m)" and ty': "ty' \<noteq> ty"
        proof -
          have "t \<in> set (p1 ty')" "map_of (targetMap s) t = Some m" using t ty' unfolding g1 by simp_all
          moreover have "ty' \<in> set ?tys" using ty' poolTypes_all by simp
          ultimately show ?thesis
            using others [OF _ found(2) _ found(3)] mapping_okD(2,3) [OF D(2), of t m] by blast
        qed
        have g2: "set (groupOf (g2 ty') m) =
            (if ty' = ty0 \<and> m = ?prev \<and> ?prev \<noteq> 0 then set (groupOf (g1 ty') m) - {t}
             else set (groupOf (g1 ty') m))"
          using maps pool_remove [OF grp1] by (simp add: g2_def)
        show ?thesis
        proof (cases "ty' = ty")
          case False
          then show ?thesis
            unfolding g2 using hit [OF _ False] by (cases "t \<in> set (groupOf (g1 ty') m)") (simp, auto)
        qed (use g2 found(2) in auto)
      qed
      show ?thesis
        using ok' sets ok2 sets2 unfolding fields(1,2) [symmetric]
        by (intro goal [OF fields(3)] conjI) blast+
    qed
    then show ?thesis by (simp add: s'_def)
  qed
qed


lemma tcp_remove_ok:
  assumes ok: "groups_ok nodeOf s"
  shows "groups_ok nodeOf (tcp_remove t s)"
proof -
  note D = groups_okD [OF ok]
  define s' where "s' = tcp_remove t s"
  have goal: "groups_ok nodeOf s'"
    if s': "targetMap s' = targetMap s" "pools_ok (pools s')"
      "\<And>ty. set (pools s' ty) = set (pools s ty) - {t}"
      "\<And>ty m. map_ok (groupedTargetPools s' ty) \<and> pool_ok (groupOf (groupedTargetPools s' ty) m) \<and>
         set (groupOf (groupedTargetPools s' ty) m) = set (groupOf (groupedTargetPools s ty) m) - {t}"
  proof -
    have "set (groupOf (groupedTargetPools s' ty) m) =
        {u \<in> set (pools s' ty). map_of (targetMap s') u = Some m}" for ty m
    proof -
      have grp: "set (groupOf (groupedTargetPools s' ty) m) = set (groupOf (groupedTargetPools s ty) m) - {t}"
        using s'(4) by blast
      show ?thesis unfolding grp s'(1,3) using D(7) by blast
    qed
    then show ?thesis using D(2) s'(2,4) unfolding groups_ok_def group_ok_def s'(1) by blast
  qed
  have others: "ty' = ty''" if "t \<in> set (pools s ty')" "t \<in> set (pools s ty'')" for ty' ty''
    using that pools_okD(2) [OF D(1)] by blast
  have sets: "set (fst (eraseFirst t poolTypes (pools s)) ty) = set (pools s ty) - {t}" for ty
    using eraseFirst_result(2) [of "pools s" poolTypes t ty, OF pools_okD(1) [OF D(1)] others]
      poolTypes_all by simp
  have grp_out: "set (groupOf (groupedTargetPools s ty) m) - {t} = set (groupOf (groupedTargetPools s ty) m)"
    if "t \<notin> set (pools s ty) \<or> map_of (targetMap s) t \<noteq> Some m" for ty m
    using that D(7) by blast
  have "groups_ok nodeOf s'"
  proof (cases rule: eraseFirst_cases [of t poolTypes "pools s"])
    case none
    then have "s' = s" by (simp add: s'_def tcp_remove_def)
    then show ?thesis using ok by simp
  next
    case (found ty0)
    define n where "n = getNodeIDFromTargetID t (targetMap s)"
    define g where "g = groupedTargetPools s ty0"
    define g' where "g' = (if n = 0 \<or> t \<notin> set (groupOf g n) then g
      else if remove1 t (groupOf g n) = [] then map_erase n g else map_set n (remove1 t (groupOf g n)) g)"
    have fields: "pools s' = fst (eraseFirst t poolTypes (pools s))" "targetMap s' = targetMap s"
      "groupedTargetPools s' = (groupedTargetPools s)(ty0 := g')"
      unfolding s'_def tcp_remove_def found(1) n_def [symmetric] g_def [symmetric] g'_def
      by (auto simp: Let_def g_def [symmetric] groupOf_def split: option.splits)
    have g: "map_ok g" "pool_ok (groupOf g m)" for m using D(5,6) by (simp_all add: g_def)
    have g': "map_ok g'" "groupOf g' m = (if m = n \<and> n \<noteq> 0 then remove1 t (groupOf g n) else groupOf g m)" for m
      using g(1) by (auto simp: g'_def groupOf_map_erase groupOf_set remove1_idem)
    have "map_of (targetMap s) t \<noteq> Some m" if "\<not> (m = n \<and> n \<noteq> 0)" for m
      using that mapping_okD(2,3) [OF D(2), of t m] by (auto simp: n_def)
    then have g'_set: "set (groupOf g' m) = set (groupOf g m) - {t}" for m
      using grp_out [of ty0 m] pool_remove [OF g(2)] unfolding g'(2) g_def by simp
    have other: "t \<notin> set (pools s ty)" if "ty \<noteq> ty0" for ty
      using that others found(3) by blast
    have grp: "map_ok (groupedTargetPools s' ty) \<and> pool_ok (groupOf (groupedTargetPools s' ty) m) \<and>
         set (groupOf (groupedTargetPools s' ty) m) = set (groupOf (groupedTargetPools s ty) m) - {t}" for ty m
    proof (cases "ty = ty0")
      case True
      then show ?thesis using g g' g'_set by (simp add: fields(3) g_def)
    next
      case False
      then show ?thesis using D(5,6) grp_out other by (simp add: fields(3))
    qed
    show ?thesis
      by (rule goal [OF fields(2) _ _ grp]) (use eraseFirst_ok [OF D(1)] sets in \<open>simp_all add: fields(1)\<close>)
  qed
  then show ?thesis by (simp add: s'_def)
qed

lemma groupTargets_fold:
  assumes "mapping_ok nodeOf m" "map_ok g" "\<And>n. pool_ok (groupOf g n)"
  shows "map_ok (fold (\<lambda>t g. let n = getNodeIDFromTargetID t m in if n = 0 then g else groupInsert n t g) pool g) \<and>
    pool_ok (groupOf (fold (\<lambda>t g. let n = getNodeIDFromTargetID t m in if n = 0 then g else groupInsert n t g) pool g) k) \<and>
    set (groupOf (fold (\<lambda>t g. let n = getNodeIDFromTargetID t m in if n = 0 then g else groupInsert n t g) pool g) k) =
      set (groupOf g k) \<union> {t \<in> set pool. map_of m t = Some k}"
  using assms(2,3)
proof (induction pool arbitrary: g)
  case (Cons t pool)
  let ?n = "getNodeIDFromTargetID t m"
  define g' where "g' = (if ?n = 0 then g else groupInsert ?n t g)"
  have g': "map_ok g'" "pool_ok (groupOf g' n)" for n using Cons.prems by (simp_all add: g'_def)
  have "map_of m t = Some k \<longleftrightarrow> k = ?n \<and> ?n \<noteq> 0"
    using mapping_okD(2,3) [OF assms(1), of t] by (cases "map_of m t") (auto simp: getNodeIDFromTargetID_def)
  then have "set (groupOf g' k) = set (groupOf g k) \<union> {u \<in> {t}. map_of m u = Some k}"
    using Cons.prems(1) by (auto simp: g'_def)
  then show ?case
    using Cons.IH [OF g'] by (auto simp: Let_def g'_def [symmetric])
qed simp

lemma groupTargetsByNode_ok:
  assumes "mapping_ok nodeOf m"
  shows "group_ok pool m (groupTargetsByNode pool m)"
  using groupTargets_fold [OF assms, of "[]" pool]
  unfolding group_ok_def groupTargetsByNode_def by (auto simp: pool_ok_def)


lemma poolsFromLists_ok:
  assumes "set ls1 \<inter> set ls2 = {}" "set ls1 \<inter> set ls3 = {}" "set ls2 \<inter> set ls3 = {}"
  shows "pools_ok (poolsFromLists ls1 ls2 ls3)"
proof -
  have ins: "pool_ok (fold (set_insert (<)) xs ys)" if "pool_ok ys" for xs ys :: "u16 list"
    using that by (induction xs arbitrary: ys) simp_all
  have elems: "set (fold (set_insert (<)) xs ys) = set xs \<union> set ys" for xs ys :: "u16 list"
    by (induction xs arbitrary: ys) auto
  have "pool_ok (poolsFromLists ls1 ls2 ls3 ty)" for ty
    by (simp add: poolsFromLists_def ins pool_ok_def [of "[]"])
  moreover have "ty = ty'" if "t \<in> set (poolsFromLists ls1 ls2 ls3 ty)" "t \<in> set (poolsFromLists ls1 ls2 ls3 ty')"
    for t ty ty'
    using that assms by (cases ty; cases ty') (auto simp: poolsFromLists_def elems)
  ultimately show ?thesis unfolding pools_ok_def by blast
qed

text \<open>No group is empty: \<open>addOrUpdate\<close>, which moves targets between the pools, can break this.\<close>

definition no_empty_group :: "TargetCapacityPools \<Rightarrow> bool" where
  "no_empty_group s \<longleftrightarrow> (\<forall>ty. \<forall>(n, ts) \<in> set (groupedTargetPools s ty). ts \<noteq> [])"

lemma groupInsert_no_empty:
  assumes "\<forall>(n, ts) \<in> set g. ts \<noteq> []"
  shows "\<forall>(n, ts) \<in> set (groupInsert m t g). ts \<noteq> []"
proof -
  have "ts \<noteq> []" if "(n, ts) \<in> set (groupInsert m t g)" for n ts
  proof (cases "(n, ts) \<in> set g")
    case False
    then have "ts = set_insert (<) t (groupOf g m)"
      using that map_set_subset [of m "set_insert (<) t (groupOf g m)" g] by (auto simp: groupInsert_def)
    then show ?thesis by simp
  qed (use assms in auto)
  then show ?thesis by blast
qed

text \<open>Without a change of the pool type nothing is removed from other groups.\<close>

lemma addOrUpdateUnlocked_same_pool:
  assumes "pools_ok (pools s)" "findPool t (pools s) = None \<or> findPool t (pools s) = Some ty"
  shows "groupedTargetPools (fst (addOrUpdateUnlocked t n ty s)) =
    (groupedTargetPools s)(ty := groupInsert n t (groupedTargetPools s ty))"
proof -
  let ?tys = "filter (\<lambda>ty'. ty' \<noteq> ty) poolTypes" and ?p = "(pools s)(ty := set_insert (<) t (pools s ty))"
  have "t \<notin> set (?p ty')" if "ty' \<in> set ?tys" for ty'
  proof (cases "findPool t (pools s)")
    case None
    then show ?thesis using that by (auto simp: findPool_None)
  next
    case (Some ty1)
    with assms(2) have "findPool t (pools s) = Some ty" by simp
    then have "t \<in> set (pools s ty)" by (auto simp: findPool_def find_Some_iff)
    with that show ?thesis using pools_okD(3) [OF assms(1), of ty ty'] by auto
  qed
  then have "eraseFirst t ?tys ?p = (?p, None)"
    by (cases rule: eraseFirst_cases [of t ?tys ?p]) auto
  then show ?thesis
    by (simp add: addOrUpdateUnlocked_def Let_def tcp_removeFromOthersUnlocked_def)
qed

datatype tcp_call =
    AddOrUpdate u16 u16 CapacityPoolType
  | AddIfNotExists u16 u16 CapacityPoolType
  | Remove u16
  | SyncPools "u16 list" "u16 list" "u16 list" "(u16 \<times> u16) list"

fun tcp_step :: "tcp_call \<Rightarrow> TargetCapacityPools \<Rightarrow> TargetCapacityPools" where
  "tcp_step (AddOrUpdate t n ty) s = fst (tcp_addOrUpdate t n ty s)"
| "tcp_step (AddIfNotExists t n ty) s = fst (tcp_addIfNotExists t n ty s)"
| "tcp_step (Remove t) s = tcp_remove t s"
| "tcp_step (SyncPools ls1 ls2 ls3 m) s = tcp_syncPoolsFromLists ls1 ls2 ls3 m s"

text \<open>Targets keep their node, and a target is in one list only.\<close>

fun tcp_call_ok :: "(u16 \<Rightarrow> u16) \<Rightarrow> tcp_call \<Rightarrow> bool" where
  "tcp_call_ok nodeOf (AddOrUpdate t n ty) \<longleftrightarrow> n = nodeOf t \<and> n \<noteq> 0"
| "tcp_call_ok nodeOf (AddIfNotExists t n ty) \<longleftrightarrow> n = nodeOf t \<and> n \<noteq> 0"
| "tcp_call_ok nodeOf (Remove t) \<longleftrightarrow> True"
| "tcp_call_ok nodeOf (SyncPools ls1 ls2 ls3 m) \<longleftrightarrow> mapping_ok nodeOf m \<and>
     set ls1 \<inter> set ls2 = {} \<and> set ls1 \<inter> set ls3 = {} \<and> set ls2 \<inter> set ls3 = {}"

fun moves_targets :: "tcp_call \<Rightarrow> bool" where
  "moves_targets (AddOrUpdate t n ty) \<longleftrightarrow> True"
| "moves_targets _ \<longleftrightarrow> False"

interpretation tcp: invariant_system tcp_step "tcp_call_ok nodeOf" "groups_ok nodeOf" for nodeOf
proof
  fix s op assume ok: "groups_ok nodeOf s" "tcp_call_ok nodeOf op"
  show "groups_ok nodeOf (tcp_step op s)"
  proof (cases op)
    case (AddOrUpdate t n ty)
    with ok show ?thesis by (auto simp: tcp_addOrUpdate_def intro: addOrUpdateUnlocked_ok)
  next
    case (AddIfNotExists t n ty)
    with ok show ?thesis by (auto simp: tcp_addIfNotExists_def Let_def intro: addOrUpdateUnlocked_ok)
  next
    case (Remove t)
    with ok show ?thesis by (simp add: tcp_remove_ok)
  next
    case (SyncPools ls1 ls2 ls3 m)
    with ok show ?thesis
      using groupTargetsByNode_ok [of nodeOf m]
      by (simp add: tcp_syncPoolsFromLists_def Let_def groups_ok_def poolsFromLists_ok)
  qed
qed

interpretation tcp_groups: invariant_system tcp_step
    "\<lambda>op. tcp_call_ok nodeOf op \<and> \<not> moves_targets op" "\<lambda>s. groups_ok nodeOf s \<and> no_empty_group s"
  for nodeOf
proof
  fix s op assume ok: "groups_ok nodeOf s \<and> no_empty_group s" "tcp_call_ok nodeOf op \<and> \<not> moves_targets op"
  then have groups: "groups_ok nodeOf (tcp_step op s)" using tcp.step_inv by blast
  have full: "\<forall>(n, ts) \<in> set (groupedTargetPools s ty). ts \<noteq> []" for ty
    using ok(1) by (simp add: no_empty_group_def)
  have "no_empty_group (tcp_step op s)"
  proof (cases op)
    case (AddIfNotExists t n ty)
    define ty' where "ty' = (case findPool t (pools s) of None \<Rightarrow> ty | Some ty1 \<Rightarrow> ty1)"
    have "findPool t (pools s) = None \<or> findPool t (pools s) = Some ty'"
      by (cases "findPool t (pools s)") (simp_all add: ty'_def)
    then have "groupedTargetPools (fst (addOrUpdateUnlocked t n ty' s)) =
        (groupedTargetPools s)(ty' := groupInsert n t (groupedTargetPools s ty'))"
      using ok(1) groups_okD(1) addOrUpdateUnlocked_same_pool by blast
    then have "no_empty_group (fst (addOrUpdateUnlocked t n ty' s))"
      using full groupInsert_no_empty [OF full] by (auto simp: no_empty_group_def)
    then show ?thesis
      using ok(1) unfolding AddIfNotExists tcp_step.simps tcp_addIfNotExists_def ty'_def [symmetric]
      by (simp add: Let_def)
  next
    case (Remove t)
    show ?thesis
    proof (cases rule: eraseFirst_cases [of t poolTypes "pools s"])
      case none
      then show ?thesis using ok(1) by (simp add: Remove tcp_remove_def)
    next
      case (found ty0)
      let ?n = "getNodeIDFromTargetID t (targetMap s)"
      let ?g = "groupedTargetPools s ty0"
      have "\<forall>(n, ts) \<in> set (map_set ?n xs ?g). ts \<noteq> []" if "xs \<noteq> []" for xs
        using map_set_subset [of ?n xs ?g] full [of ty0] that by fastforce
      moreover have "\<forall>(n, ts) \<in> set (map_erase ?n ?g). ts \<noteq> []"
        using map_erase_subset [of ?n ?g] full [of ty0] by blast
      ultimately show ?thesis
        using full unfolding Remove tcp_step.simps tcp_remove_def found(1) no_empty_group_def
        by (auto simp: Let_def split: option.split if_splits)
    qed
  next
    case (SyncPools ls1 ls2 ls3 m)
    have "\<forall>(n, ts) \<in> set (groupTargetsByNode pool m). ts \<noteq> []" for pool
    proof -
      have "\<forall>(n, ts) \<in> set g. ts \<noteq> [] \<Longrightarrow>
          \<forall>(n, ts) \<in> set (fold (\<lambda>t g. let n = getNodeIDFromTargetID t m in if n = 0 then g else groupInsert n t g) pool g). ts \<noteq> []" for g
      proof (induction pool arbitrary: g)
        case (Cons t pool)
        define g' where "g' = (if getNodeIDFromTargetID t m = 0 then g
          else groupInsert (getNodeIDFromTargetID t m) t g)"
        have "\<forall>(n, ts) \<in> set g'. ts \<noteq> []"
          using Cons.prems groupInsert_no_empty [OF Cons.prems] by (simp add: g'_def)
        from Cons.IH [OF this] show ?case by (simp add: Let_def g'_def)
      qed simp
      from this [of "[]"] show ?thesis by (simp add: groupTargetsByNode_def)
    qed
    then show ?thesis
      by (simp add: SyncPools tcp_syncPoolsFromLists_def Let_def no_empty_group_def)
  qed (use ok in auto)
  with groups show "groups_ok nodeOf (tcp_step op s) \<and> no_empty_group (tcp_step op s)" by blast
qed

lemma new_pools_ok: "groups_ok nodeOf newTargetCapacityPools" "no_empty_group newTargetCapacityPools"
  by (simp_all add: newTargetCapacityPools_def groups_ok_def pools_ok_def pool_ok_def mapping_ok_def
      group_ok_def no_empty_group_def)


section \<open>Facts about the choosers\<close>

text \<open>Every node gives one of its targets.\<close>

lemma interdomainLoop_result:
  assumes "\<forall>(n, ts) \<in> set g. ts \<noteq> []" "i < length g"
  shows "\<exists>ts ns seed'. interdomainLoop rand_r g k i seed outT outN = Inr (outT @ ts, outN @ ns, seed') \<and>
    ns = map (\<lambda>j. fst (g ! ((i + j) mod length g))) [0..<k] \<and>
    list_all2 (\<lambda>t n. \<exists>us. (n, us) \<in> set g \<and> t \<in> set us) ts ns"
  using assms(2)
proof (induction k arbitrary: i seed outT outN)
  case (Suc k)
  obtain n us where e: "g ! i = (n, us)" by fastforce
  then have mem: "(n, us) \<in> set g" using Suc.prems nth_mem by fastforce
  then have us: "us \<noteq> []" using assms(1) by fastforce
  obtain j seed1 where r: "moveIterToRandomElem rand_r (length us) seed = (j, seed1)" by fastforce
  then have j: "j < length us" using randomElem_less [of "length us" rand_r seed] us by simp
  let ?i = "Suc i mod length g"
  have i: "?i < length g" using Suc.prems by (intro mod_less_divisor) linarith
  from Suc.IH [OF this, of seed1 "outT @ [us ! j]" "outN @ [n]"] obtain ts ns seed' where
    ih: "interdomainLoop rand_r g k ?i seed1 (outT @ [us ! j]) (outN @ [n]) =
        Inr ((outT @ [us ! j]) @ ts, (outN @ [n]) @ ns, seed')"
      "ns = map (\<lambda>j. fst (g ! ((?i + j) mod length g))) [0..<k]"
      "list_all2 (\<lambda>t n. \<exists>us. (n, us) \<in> set g \<and> t \<in> set us) ts ns" by blast
  have 1: "interdomainLoop rand_r g (Suc k) i seed outT outN =
      Inr (outT @ us ! j # ts, outN @ n # ns, seed')"
    using ih(1) us Suc.prems by (simp add: e r Let_def moveIter_mod)
  have 2: "n # ns = map (\<lambda>j. fst (g ! ((i + j) mod length g))) [0..<Suc k]"
  proof -
    have "[0..<Suc k] = 0 # map Suc [0..<k]" by (simp add: map_Suc_upt upt_conv_Cons)
    then show ?thesis using Suc.prems e ih(2) by (simp add: mod_add_left_eq o_def del: upt_Suc)
  qed
  have 3: "list_all2 (\<lambda>t n. \<exists>us. (n, us) \<in> set g \<and> t \<in> set us) (us ! j # ts) (n # ns)"
    using ih(3) mem j by auto
  show ?case
    by (rule exI [of _ "us ! j # ts"], rule exI [of _ "n # ns"], rule exI [of _ seed'])
      (intro conjI 1 2 3)
qed simp

lemma interdomainNoPref_result:
  assumes "\<forall>(n, ts) \<in> set g. ts \<noteq> []" "map_ok g"
  shows "\<exists>ts ns seed'. chooseTargetsInterdomainNoPref rand_r g num seed outT outN =
      Inr (outT @ ts, outN @ ns, seed') \<and> distinct ns \<and> set ns \<subseteq> fst ` set g \<and>
    length ns = min (unat num) (length g) \<and>
    list_all2 (\<lambda>t n. \<exists>us. (n, us) \<in> set g \<and> t \<in> set us) ts ns"
proof (cases "g = []")
  case False
  define n where "n = (if unat num > length g then length g else unat num)"
  have n: "n = min (unat num) (length g)" by (simp add: n_def)
  obtain i seed1 where r: "moveIterToRandomElem rand_r (length g) seed = (i, seed1)" by fastforce
  then have i: "i < length g" using randomElem_less [of "length g" rand_r seed] False by simp
  from interdomainLoop_result [OF assms(1) this, of rand_r n seed1 outT outN] obtain ts ns seed' where
    res: "interdomainLoop rand_r g n i seed1 outT outN = Inr (outT @ ts, outN @ ns, seed')"
      "ns = map (\<lambda>j. fst (g ! ((i + j) mod length g))) [0..<n]"
      "list_all2 (\<lambda>t n. \<exists>us. (n, us) \<in> set g \<and> t \<in> set us) ts ns" by blast
  have L: "0 < length g" using False by simp
  have "inj_on (\<lambda>j. (map fst g) ! ((i + j) mod length g)) {0..<n}"
  proof (rule inj_onI)
    fix x y assume xy: "x \<in> {0..<n}" "y \<in> {0..<n}"
      "map fst g ! ((i + x) mod length g) = map fst g ! ((i + y) mod length g)"
    have "(i + x) mod length g = (i + y) mod length g"
      using xy(3) nth_eq_iff_index_eq [OF map_ok_distinct [OF assms(2)],
          of "(i + x) mod length g" "(i + y) mod length g"] L by simp
    moreover have "x \<in> {0..<length g}" "y \<in> {0..<length g}" using xy(1,2) by (simp_all add: n)
    ultimately show "x = y" by (rule inj_onD [OF ring_inj [OF L]])
  qed
  then have "distinct ns" using L by (simp add: res(2) distinct_map)
  moreover have "set ns \<subseteq> fst ` set g" using L by (auto simp: res(2))
  moreover have "chooseTargetsInterdomainNoPref rand_r g num seed outT outN = Inr (outT @ ts, outN @ ns, seed')"
    using False by (simp add: chooseTargetsInterdomainNoPref_def r n_def [symmetric] res(1))
  ultimately show ?thesis using res(2,3) by (auto simp: n)
qed (simp add: chooseTargetsInterdomainNoPref_def)

lemma strip_result:
  assumes "map_ok g"
  shows "map_ok (copyAndStripGroupedTargets g ns)" "set (copyAndStripGroupedTargets g ns) \<subseteq> set g"
    "fst ` set (copyAndStripGroupedTargets g ns) = fst ` set g - set ns"
proof -
  have res: "map_ok (fold map_erase ns g) \<and> map_of (fold map_erase ns g) = map_of g |` (- set ns)"
    using omap.drop_result [OF assms, of ns] .
  then show "map_ok (copyAndStripGroupedTargets g ns)" by (simp add: copyAndStripGroupedTargets_def)
  show "set (copyAndStripGroupedTargets g ns) \<subseteq> set g"
    unfolding copyAndStripGroupedTargets_def
  proof (induction ns arbitrary: g)
    case (Cons n ns)
    then show ?case using map_erase_subset [of n g] by fastforce
  qed simp
  have "dom (map_of (fold map_erase ns g)) = dom (map_of g) - set ns" using res by auto
  then show "fst ` set (copyAndStripGroupedTargets g ns) = fst ` set g - set ns"
    by (simp add: copyAndStripGroupedTargets_def dom_map_of_conv_image_fst)
qed


definition member_of :: "GroupedTargets \<Rightarrow> u16 \<Rightarrow> u16 \<Rightarrow> bool" where
  "member_of g t n \<longleftrightarrow> (\<exists>us. (n, us) \<in> set g \<and> t \<in> set us)"

lemma interdomainPools_result:
  assumes g: "\<And>ty. \<forall>(n, ts) \<in> set (g ty). ts \<noteq> []" "\<And>ty. map_ok (g ty)"
    and req: "unat minReq \<le> unat num"
    and out: "distinct outN" "list_all2 (\<lambda>t n. \<exists>ty. member_of (g ty) t n) outT outN"
  shows "\<exists>ts ns seed'. interdomainPools rand_r g num minReq tys seed outT outN = Inr (ts, ns, seed') \<and>
    distinct ns \<and> list_all2 (\<lambda>t n. \<exists>ty. member_of (g ty) t n) ts ns \<and> set outN \<subseteq> set ns \<and>
    (unat minReq \<le> length ts \<or> (\<forall>ty \<in> set tys. fst ` set (g ty) \<subseteq> set ns))"
  using out
proof (induction tys arbitrary: seed outT outN)
  case (Cons ty tys)
  show ?case
  proof (cases "g ty = []")
    case True
    with Cons show ?thesis by simp
  next
    case False
    define h where "h = (if outN \<noteq> [] then copyAndStripGroupedTargets (g ty) outN else g ty)"
    have h: "map_ok h" "set h \<subseteq> set (g ty)" "fst ` set h = fst ` set (g ty) - set outN"
      using strip_result [OF g(2), of ty outN] g(2) by (auto simp: h_def)
    have "\<forall>(n, ts) \<in> set h. ts \<noteq> []" using g(1) h(2) by blast
    from interdomainNoPref_result [OF this h(1), of rand_r num seed outT outN] obtain ts ns seed' where
      res: "chooseTargetsInterdomainNoPref rand_r h num seed outT outN = Inr (outT @ ts, outN @ ns, seed')"
        "distinct ns" "set ns \<subseteq> fst ` set h" "length ns = min (unat num) (length h)"
        "list_all2 (\<lambda>t n. \<exists>us. (n, us) \<in> set h \<and> t \<in> set us) ts ns" by blast
    have dis: "distinct (outN @ ns)" using res(2,3) h(3) Cons.prems(1) by auto
    have "list_all2 (\<lambda>t n. \<exists>ty. member_of (g ty) t n) ts ns"
      using res(5) h(2) by (auto simp: member_of_def elim!: list_all2_mono)
    then have mem: "list_all2 (\<lambda>t n. \<exists>ty. member_of (g ty) t n) (outT @ ts) (outN @ ns)"
      using Cons.prems(2) by (rule list_all2_appendI [rotated])
    have covered: "fst ` set (g ty) \<subseteq> set (outN @ ns)" if few: "length (outT @ ts) < unat minReq"
    proof -
      have "length ts = length ns" using res(5) by (rule list_all2_lengthD)
      then have "length ns = length h" using few req res(4) by simp
      then have "card (set ns) = card (fst ` set h)"
        using distinct_card [OF res(2)] distinct_card [OF map_ok_distinct [OF h(1)]] by simp
      then have "set ns = fst ` set h" using res(3) by (intro card_subset_eq) simp_all
      then show ?thesis using h(3) by auto
    qed
    have step: "interdomainPools rand_r g num minReq (ty # tys) seed outT outN =
        (if length (outT @ ts) \<ge> unat minReq then Inr (outT @ ts, outN @ ns, seed')
         else interdomainPools rand_r g num minReq tys seed' (outT @ ts) (outN @ ns))"
      using False res(1) by (simp add: cbind_def h_def [symmetric])
    show ?thesis
    proof (cases "length (outT @ ts) \<ge> unat minReq")
      case True
      then show ?thesis unfolding step if_P [OF True] using dis mem by auto
    next
      case few: False
      from Cons.IH [OF dis mem, of seed'] obtain ts' ns' s' where
        "interdomainPools rand_r g num minReq tys seed' (outT @ ts) (outN @ ns) = Inr (ts', ns', s')"
        "distinct ns'" "list_all2 (\<lambda>t n. \<exists>ty. member_of (g ty) t n) ts' ns'" "set (outN @ ns) \<subseteq> set ns'"
        "unat minReq \<le> length ts' \<or> (\<forall>ty \<in> set tys. fst ` set (g ty) \<subseteq> set ns')" by blast
      moreover from this(4) have "fst ` set (g ty) \<subseteq> set ns'" using covered few by auto
      ultimately show ?thesis unfolding step if_not_P [OF few] by auto
    qed
  qed
qed auto

lemma intradomainPools_result:
  assumes g: "\<And>ty. \<forall>(n, ts) \<in> set (g ty). ts \<noteq> [] \<and> distinct ts"
  shows "\<exists>ts ns seed'. intradomainPools rand_r g num tys seed [] [] = Inr (ts, ns, seed') \<and> distinct ts \<and>
    (if \<forall>ty \<in> set tys. g ty = [] then ts = [] \<and> ns = []
     else \<exists>n us ty. ns = [n] \<and> (n, us) \<in> set (g ty) \<and> set ts \<subseteq> set us \<and>
       length ts = max 1 (min (unat num) (length us)))"
proof (induction tys)
  case (Cons ty tys)
  show ?case
  proof (cases "g ty = []")
    case True
    with Cons show ?thesis by auto
  next
    case False
    obtain gi seed1 where r1: "moveIterToRandomElem rand_r (length (g ty)) seed = (gi, seed1)" by fastforce
    have gi: "gi < length (g ty)" using randomElem_less [of "length (g ty)" rand_r seed] r1 False by simp
    obtain n us where e: "g ty ! gi = (n, us)" by fastforce
    then have mem: "(n, us) \<in> set (g ty)" using gi nth_mem by fastforce
    then have us: "us \<noteq> []" "distinct us" using g by fastforce+
    obtain i seed2 where r2: "moveIterToRandomElem rand_r (length us) seed1 = (i, seed2)" by fastforce
    have i: "i < length us" using randomElem_less [of "length us" rand_r seed1] r2 us by simp
    define k where "k = (if unat num > length us then length us else unat num)"
    define ts where "ts = us ! i # map (\<lambda>j. us ! ((i + Suc j) mod length us)) [0..<k - 1]"
    have "intradomainPools rand_r g num (ty # tys) seed [] [] = Inr (ts, [n], seed2)"
      using False us(1) by (simp add: chooseTargetsIntradomainNoPref_def r1 e r2 k_def [symmetric]
          roundRobinLoop_result [OF i] cbind_def ts_def)
    moreover have ts: "ts = map (\<lambda>j. us ! ((i + j) mod length us)) [0..<Suc (k - 1)]"
    proof -
      have "[0..<Suc (k - 1)] = 0 # map Suc [0..<k - 1]" by (simp only: map_Suc_upt upt_conv_Cons zero_less_Suc)
      then show ?thesis using i by (simp add: ts_def o_def del: upt_Suc)
    qed
    have L: "0 < length us" using us(1) by simp
    have "inj_on (\<lambda>j. us ! ((i + j) mod length us)) {0..<Suc (k - 1)}"
    proof (rule inj_onI)
      fix x y assume xy: "x \<in> {0..<Suc (k - 1)}" "y \<in> {0..<Suc (k - 1)}"
        "us ! ((i + x) mod length us) = us ! ((i + y) mod length us)"
      have "(i + x) mod length us = (i + y) mod length us"
        using xy(3) nth_eq_iff_index_eq [OF us(2), of "(i + x) mod length us" "(i + y) mod length us"] L by simp
      moreover have "k \<le> length us" by (simp add: k_def)
      then have "Suc (k - 1) \<le> length us" using L by arith
      then have "x \<in> {0..<length us}" "y \<in> {0..<length us}" using xy(1,2) by simp_all
      ultimately show "x = y" by (rule inj_onD [OF ring_inj [OF L]])
    qed
    then have "distinct ts" unfolding ts by (simp add: distinct_map del: upt_Suc)
    moreover have "set ts \<subseteq> set us" using L by (auto simp: ts)
    moreover have "length ts = max 1 (min (unat num) (length us))"
      using L by (auto simp: ts_def k_def max_def min_def)
    ultimately show ?thesis using False mem by auto
  qed
qed simp


section \<open>Properties\<close>

lemma member_of_node:
  assumes "groups_ok nodeOf s" "member_of (groupedTargetPools s ty) t n"
  shows "nodeOf t = n" "t \<in> set (pools s ty)"
proof -
  obtain us where us: "(n, us) \<in> set (groupedTargetPools s ty)" "t \<in> set us"
    using assms(2) by (auto simp: member_of_def)
  then have "groupOf (groupedTargetPools s ty) n = us"
    using map_of_Some_iff [OF groups_okD(5) [OF assms(1)], of ty n us] by (simp add: groupOf_def)
  then have "t \<in> set (pools s ty) \<and> map_of (targetMap s) t = Some n"
    using groups_okD(7) [OF assms(1)] us(2) by blast
  then show "nodeOf t = n" "t \<in> set (pools s ty)"
    using mapping_okD(1) [OF groups_okD(2) [OF assms(1)]] by auto
qed

lemma group_entry:
  assumes "groups_ok nodeOf s" "t \<in> set (pools s ty)" "map_of (targetMap s) t = Some n"
  shows "n \<in> fst ` set (groupedTargetPools s ty)"
proof (rule ccontr)
  assume "n \<notin> fst ` set (groupedTargetPools s ty)"
  then have "groupOf (groupedTargetPools s ty) n = []"
    by (simp add: groupOf_def map_of_eq_None_iff [THEN iffD2])
  then show False using groups_okD(7) [OF assms(1), of t ty n] assms(2,3) by simp
qed

text \<open>
  C33: after any calls of \<open>syncPoolsFromLists\<close> (with disjoint lists), \<open>addIfNotExists\<close> and \<open>remove\<close>
  in which every target keeps its node, the groups agree with the pools: the group of a node in a
  pool has exactly the targets of the pool that are mapped to the node. Then the choosers by node
  succeed. The targets of the interdomain chooser are on different nodes, and they are as many as
  required unless every node that has a target is used. The targets of the intradomain chooser are
  different ones of one node and one pool. (The required number is not above the number asked for.) Calls of \<open>addOrUpdate\<close> are excluded: they may leave an
  empty group behind, with which the choice fails, and so are changes of a target's node
  (\<open>stale_groups\<close>).
\<close>

theorem choice_by_node:
  assumes "list_all (\<lambda>op. tcp_call_ok nodeOf op \<and> \<not> moves_targets op) ops"
    and "unat minReq \<le> unat num"
    and "s = run tcp_step ops newTargetCapacityPools"
  shows "(\<forall>ty t n. t \<in> set (groupOf (groupedTargetPools s ty) n) \<longleftrightarrow>
      t \<in> set (pools s ty) \<and> map_of (targetMap s) t = Some n) \<and>
    (\<exists>ts ns seed'. chooseTargetsInterdomain rand_r num minReq s seed = Inr (ts, ns, seed') \<and>
      ns = map nodeOf ts \<and> distinct ns \<and> (\<forall>t \<in> set ts. \<exists>ty. t \<in> set (pools s ty)) \<and>
      (unat minReq \<le> length ts \<or>
        (\<forall>ty. \<forall>t \<in> set (pools s ty). map_of (targetMap s) t \<noteq> None \<longrightarrow> nodeOf t \<in> set ns))) \<and>
    (\<exists>ts ns seed'. chooseTargetsIntradomain rand_r num s seed = Inr (ts, ns, seed') \<and> distinct ts \<and>
      (\<exists>ty. set ts \<subseteq> set (pools s ty)) \<and> (\<forall>t \<in> set ts. ns = [nodeOf t]) \<and>
      (ts = [] \<longrightarrow> (\<forall>ty. \<forall>t \<in> set (pools s ty). map_of (targetMap s) t = None)))"
proof -
  have inv: "groups_ok nodeOf s" "no_empty_group s"
    using tcp_groups.run_inv [where s = newTargetCapacityPools and ops = ops and nodeOf = nodeOf] new_pools_ok assms(1)
    unfolding assms(3) by blast+
  let ?g = "groupedTargetPools s"
  have full: "\<forall>(n, ts) \<in> set (?g ty). ts \<noteq> []" for ty using inv(2) by (simp add: no_empty_group_def)
  have dis: "\<forall>(n, ts) \<in> set (?g ty). ts \<noteq> [] \<and> distinct ts" for ty
  proof -
    have "us \<noteq> [] \<and> distinct us" if us: "(n, us) \<in> set (?g ty)" for n us
    proof -
      have "groupOf (?g ty) n = us"
        using us map_of_Some_iff [OF groups_okD(5) [OF inv(1)], of ty n us] by (simp add: groupOf_def)
      then have "distinct us" using pool_ok_distinct [OF groups_okD(6) [OF inv(1), of ty n]] by simp
      then show ?thesis using full [of ty] us by blast
    qed
    then show ?thesis by blast
  qed
  obtain ts ns seed' where inter: "chooseTargetsInterdomain rand_r num minReq s seed = Inr (ts, ns, seed')"
    "distinct ns" "list_all2 (\<lambda>t n. \<exists>ty. member_of (?g ty) t n) ts ns"
    "unat minReq \<le> length ts \<or> (\<forall>ty \<in> set poolTypes. fst ` set (?g ty) \<subseteq> set ns)"
    using interdomainPools_result [where g = ?g and outT = "[]" and outN = "[]" and tys = poolTypes
        and rand_r = rand_r and seed = seed, OF full groups_okD(5) [OF inv(1)] assms(2)]
    unfolding chooseTargetsInterdomain_def by auto
  have nodes: "ns = map nodeOf ts"
    using inter(3) member_of_node(1) [OF inv(1)]
    by (induction ts ns rule: list_all2_induct) auto
  have known: "\<forall>t \<in> set ts. \<exists>ty. t \<in> set (pools s ty)"
    using inter(3) member_of_node(2) [OF inv(1)]
    by (induction ts ns rule: list_all2_induct) (simp, fastforce)
  have used: "nodeOf t \<in> set ns" if few: "\<not> unat minReq \<le> length ts"
    and mem: "t \<in> set (pools s ty)" and mapped: "map_of (targetMap s) t \<noteq> None" for t ty
  proof -
    obtain n where n: "map_of (targetMap s) t = Some n" using mapped by auto
    then have "n \<in> set ns" using group_entry [OF inv(1) mem n] inter(4) few poolTypes_all by blast
    then show ?thesis using mapping_okD(1) [OF groups_okD(2) [OF inv(1)] n] by simp
  qed
  obtain ts' ns' seed'' where intra: "chooseTargetsIntradomain rand_r num s seed = Inr (ts', ns', seed'')"
    "distinct ts'" "if \<forall>ty \<in> set poolTypes. ?g ty = [] then ts' = [] \<and> ns' = []
     else \<exists>n us ty. ns' = [n] \<and> (n, us) \<in> set (?g ty) \<and> set ts' \<subseteq> set us \<and>
       length ts' = max 1 (min (unat num) (length us))"
    using intradomainPools_result [where g = ?g and num = num and tys = poolTypes
        and rand_r = rand_r and seed = seed, OF dis]
    unfolding chooseTargetsIntradomain_def by blast
  have "(\<exists>ty. set ts' \<subseteq> set (pools s ty)) \<and> (\<forall>t \<in> set ts'. ns' = [nodeOf t]) \<and>
      (ts' = [] \<longrightarrow> (\<forall>ty. \<forall>t \<in> set (pools s ty). map_of (targetMap s) t = None))"
  proof (cases "\<forall>ty. ?g ty = []")
    case True
    then show ?thesis using intra(3) group_entry [OF inv(1)] poolTypes_all by fastforce
  next
    case False
    then obtain n us ty where g: "ns' = [n]" "(n, us) \<in> set (?g ty)" "set ts' \<subseteq> set us"
      "length ts' = max 1 (min (unat num) (length us))"
      using intra(3) poolTypes_all by (auto split: if_splits)
    have "nodeOf t = n \<and> t \<in> set (pools s ty)" if "t \<in> set ts'" for t
      using member_of_node [OF inv(1), of ty t n] that g(2,3) by (auto simp: member_of_def)
    then have "set ts' \<subseteq> set (pools s ty)" "\<forall>t \<in> set ts'. ns' = [nodeOf t]" using g(1) by auto
    moreover have "ts' \<noteq> []" using g(4) by auto
    ultimately show ?thesis by blast
  qed
  then show ?thesis using groups_okD(7) [OF inv(1)] inter(1,2) nodes known used intra(1,2) by blast
qed


text \<open>Three targets of two nodes; the third target is only in the low pool.\<close>

theorem choice_by_node_witness:
  "\<exists>ts ns seed'. chooseTargetsInterdomain (\<lambda>s. (s, s + 1)) 2 2
       (run tcp_step [SyncPools [1, 2] [] [] [(1, 10), (2, 10)], AddIfNotExists 3 20 CapacityPool_LOW]
         newTargetCapacityPools) 5 = Inr (ts, ns, seed') \<and>
     ns = map (\<lambda>t. if t = 3 then 20 else 10) ts \<and> distinct ns"
  using choice_by_node [of "\<lambda>t. if t = 3 then 20 else 10"
      "[SyncPools [1, 2] [] [] [(1, 10), (2, 10)], AddIfNotExists 3 20 CapacityPool_LOW]"
      2 2 _ "\<lambda>s. (s, s + 1)" 5, OF _ _ refl]
  by (simp add: mapping_ok_def del: run_Cons run_Nil) blast

text \<open>
  the groups do not follow a change of the node. When \<open>addIfNotExists\<close> is called for a known
  target that has moved to another node, the target stays in the group of the old node, and the
  interdomain chooser gives it twice; when \<open>addOrUpdate\<close> takes the last target of a node to another
  pool, the empty group stays and the chooser dereferences \<open>end()\<close> of it.
\<close>

theorem stale_groups:
  "chooseTargetsInterdomain (\<lambda>s. (s, s + 1)) 2 1
     (run tcp_step [SyncPools [1] [] [] [(1, 10)], AddIfNotExists 1 20 CapacityPool_NORMAL]
       newTargetCapacityPools) 0 = Inr ([1, 1], [10, 20], 1) \<and>
   chooseTargetsInterdomain (\<lambda>s. (s, s + 1)) 1 1
     (run tcp_step [AddOrUpdate 1 10 CapacityPool_NORMAL, AddOrUpdate 1 10 CapacityPool_LOW]
       newTargetCapacityPools) 0 = Inl DerefEnd"
  by code_simp

end
