(* ===== verification/TargetStates.thy ===== *)
theory TargetStates
  imports OrdMap "HOL-Library.Signed_Division"
begin

text \<open>
  The states of storage targets and metadata nodes (\<open>TargetStateInfo.h\<close>, \<open>TargetStateStore\<close>) and
  the clock (\<open>Time\<close>). The states are enumerations, but they are also made from the bytes of
  messages with \<open>static_cast\<close>, so they are the numbers themselves. The clock is read by the caller:
  a call that takes the time gets it as an argument, once per call.
\<close>

section \<open>Time\<close>

record timespec =
  tv_sec :: i64
  tv_nsec :: i64

text \<open>The seconds are cut to 32 bits, the result too.\<close>

definition elapsedSinceMS :: "timespec \<Rightarrow> timespec \<Rightarrow> u32" where
  "elapsedSinceMS now earlierT =
     (let secs = ucast ((tv_sec now - tv_sec earlierT) * 1000);
          micros = word_of_int (sint (tv_nsec now - tv_nsec earlierT) sdiv 1000000)
      in secs + micros)"

section \<open>States\<close>

type_synonym TargetReachabilityState = u8
type_synonym TargetConsistencyState = u8

definition TargetReachabilityState_ONLINE :: u8 where "TargetReachabilityState_ONLINE = 0"
definition TargetReachabilityState_POFFLINE :: u8 where "TargetReachabilityState_POFFLINE = 1"
definition TargetReachabilityState_OFFLINE :: u8 where "TargetReachabilityState_OFFLINE = 2"

definition TargetConsistencyState_GOOD :: u8 where "TargetConsistencyState_GOOD = 0"
definition TargetConsistencyState_NEEDS_RESYNC :: u8 where "TargetConsistencyState_NEEDS_RESYNC = 1"
definition TargetConsistencyState_BAD :: u8 where "TargetConsistencyState_BAD = 2"

named_theorems state_simps \<open>the values of the states\<close>
declare TargetReachabilityState_ONLINE_def [state_simps] TargetReachabilityState_POFFLINE_def [state_simps]
  TargetReachabilityState_OFFLINE_def [state_simps] TargetConsistencyState_GOOD_def [state_simps]
  TargetConsistencyState_NEEDS_RESYNC_def [state_simps] TargetConsistencyState_BAD_def [state_simps]

record CombinedTargetState =
  reachabilityState :: TargetReachabilityState
  consistencyState :: TargetConsistencyState

record TargetStateInfo = CombinedTargetState +
  lastChangedTime :: timespec

definition defaultCombinedTargetState :: CombinedTargetState where
  "defaultCombinedTargetState = \<lparr>reachabilityState = TargetReachabilityState_OFFLINE,
     consistencyState = TargetConsistencyState_GOOD\<rparr>"

text \<open>The default constructor, and the assignment of a state without a time.\<close>

definition newTargetStateInfo :: "timespec \<Rightarrow> TargetStateInfo" where
  "newTargetStateInfo now = CombinedTargetState.extend defaultCombinedTargetState \<lparr>lastChangedTime = now\<rparr>"

definition stateInfo :: "timespec \<Rightarrow> CombinedTargetState \<Rightarrow> TargetStateInfo" where
  "stateInfo now st = \<lparr>reachabilityState = reachabilityState st, consistencyState = consistencyState st,
     lastChangedTime = now\<rparr>"

section \<open>The store\<close>

type_synonym TargetStateInfoMap = "(u16 \<times> TargetStateInfo) list"

definition tss_addOrUpdate ::
    "timespec \<Rightarrow> u16 \<Rightarrow> CombinedTargetState \<Rightarrow> TargetStateInfoMap \<Rightarrow> TargetStateInfoMap \<times> bool" where
  "tss_addOrUpdate now t st m =
     (case map_of m t of
        None \<Rightarrow> (map_set t (stateInfo now st) m, True)
      | Some old \<Rightarrow>
          (if reachabilityState old \<noteq> reachabilityState st \<or> consistencyState old \<noteq> consistencyState st
           then (map_set t (stateInfo now st) m, True) else (m, False)))"

definition tss_addIfNotExists ::
    "timespec \<Rightarrow> u16 \<Rightarrow> CombinedTargetState \<Rightarrow> TargetStateInfoMap \<Rightarrow> TargetStateInfoMap" where
  "tss_addIfNotExists now t st m =
     (case map_of m t of None \<Rightarrow> map_set t (stateInfo now st) m | Some _ \<Rightarrow> m)"

definition removeTarget :: "u16 \<Rightarrow> TargetStateInfoMap \<Rightarrow> TargetStateInfoMap" where
  "removeTarget t m = map_erase t m"

text \<open>The lists of the message have the same length; the new map replaces the old one.\<close>

fun statesFromLists ::
    "timespec \<Rightarrow> u16 list \<Rightarrow> u8 list \<Rightarrow> u8 list \<Rightarrow> TargetStateInfoMap \<Rightarrow> TargetStateInfoMap" where
  "statesFromLists now (t # ts) (r # rs) (c # cs) m =
     statesFromLists now ts rs cs
       (map_set t \<lparr>reachabilityState = r, consistencyState = c, lastChangedTime = now\<rparr> m)"
| "statesFromLists now _ _ _ m = m"

definition syncStatesFromLists ::
    "timespec \<Rightarrow> u16 list \<Rightarrow> u8 list \<Rightarrow> u8 list \<Rightarrow> TargetStateInfoMap \<Rightarrow> TargetStateInfoMap" where
  "syncStatesFromLists now targetIDs reachabilityStates consistencyStates m =
     statesFromLists now targetIDs reachabilityStates consistencyStates []"

definition getStatesAsLists :: "TargetStateInfoMap \<Rightarrow> u16 list \<times> u8 list \<times> u8 list" where
  "getStatesAsLists m =
     (map fst m, map (\<lambda>(t, i). reachabilityState i) m, map (\<lambda>(t, i). consistencyState i) m)"

definition tss_getState :: "u16 \<Rightarrow> TargetStateInfoMap \<Rightarrow> CombinedTargetState option" where
  "tss_getState t m =
     (case map_of m t of
        None \<Rightarrow> None
      | Some i \<Rightarrow> Some \<lparr>reachabilityState = reachabilityState i, consistencyState = consistencyState i\<rparr>)"

definition getStateInfo :: "u16 \<Rightarrow> TargetStateInfoMap \<Rightarrow> TargetStateInfo option" where
  "getStateInfo t m = map_of m t"

definition setAllStates :: "timespec \<Rightarrow> TargetReachabilityState \<Rightarrow> TargetStateInfoMap \<Rightarrow> TargetStateInfoMap" where
  "setAllStates now st m =
     map (\<lambda>(t, i). (t, if reachabilityState i \<noteq> st
                        then i\<lparr>reachabilityState := st, lastChangedTime := now\<rparr> else i)) m"

definition reachabilityToStr :: "TargetReachabilityState \<Rightarrow> string" where
  "reachabilityToStr st =
     (if st = TargetReachabilityState_ONLINE then ''Online''
      else if st = TargetReachabilityState_OFFLINE then ''Offline''
      else if st = TargetReachabilityState_POFFLINE then ''Probably-offline''
      else ''<invalid_value>'')"

definition consistencyToStr :: "TargetConsistencyState \<Rightarrow> string" where
  "consistencyToStr st =
     (if st = TargetConsistencyState_GOOD then ''Good''
      else if st = TargetConsistencyState_NEEDS_RESYNC then ''Needs-resync''
      else if st = TargetConsistencyState_BAD then ''Bad''
      else ''<invalid_value>'')"

definition stateToStr :: "CombinedTargetState \<Rightarrow> string" where
  "stateToStr st =
     reachabilityToStr (reachabilityState st) @ '' / '' @ consistencyToStr (consistencyState st)"

section \<open>Facts\<close>

text \<open>The elapsed time of \<open>d\<close> seconds is only known modulo 2^32 ms.\<close>

lemma elapsedSinceMS_wraps:
  "elapsedSinceMS \<lparr>tv_sec = word_of_nat (a + d), tv_nsec = n\<rparr> \<lparr>tv_sec = word_of_nat a, tv_nsec = n\<rparr> =
     word_of_nat (d * 1000)"
proof -
  have "(word_of_nat (a + d) - word_of_nat a :: i64) * 1000 = word_of_nat (d * 1000)" by simp
  moreover have "(ucast (word_of_nat (d * 1000) :: i64) :: u32) = word_of_nat (d * 1000)"
    by (simp only: unsigned_of_nat word_of_nat_eq_iff) simp
  ultimately show ?thesis
    unfolding elapsedSinceMS_def Let_def timespec.select_convs by simp
qed

lemma statesFromLists_ok: "map_ok m \<Longrightarrow> map_ok (statesFromLists now ts rs cs m)"
  by (induction now ts rs cs m rule: statesFromLists.induct) simp_all

lemma setAllStates_keys [simp]: "map fst (setAllStates now st m) = map fst m"
  by (simp add: setAllStates_def o_def case_prod_unfold)

lemma tss_ok [simp]:
  assumes "map_ok m"
  shows "map_ok (fst (tss_addOrUpdate now t st m))" "map_ok (tss_addIfNotExists now t st m)"
    "map_ok (removeTarget t m)" "map_ok (setAllStates now st' m)"
  using assms
  by (simp_all add: tss_addOrUpdate_def tss_addIfNotExists_def removeTarget_def map_ok_def [of "setAllStates _ _ _"]
      split: option.split) (simp add: map_ok_def)

lemma tss_addIfNotExists_keys:
  "map_ok m \<Longrightarrow> dom (map_of (tss_addIfNotExists now t st m)) = insert t (dom (map_of m))"
  by (auto simp: tss_addIfNotExists_def split: option.split)

end
