(* ===== verification/MapFile.thy ===== *)
theory MapFile
  imports OrdMap
begin

text \<open>
  Maps of strings in text files (\<open>MapTk\<close>) and the string helpers of \<open>StringTk\<close> that the mappers
  of the management server save their tables with: a line \<open>key=value\<close> per entry, numbers in
  hexadecimal digits. Reading and writing of the file itself is left out: a file is its text, and a
  file that cannot be opened is \<open>None\<close>.
\<close>

section \<open>Strings\<close>

definition isBlank :: "char \<Rightarrow> bool" where
  "isBlank c \<longleftrightarrow> c = CHR '' '' \<or> c = CHR 0x0A \<or> c = CHR 0x0D \<or> c = CHR 0x09"

definition trim :: "string \<Rightarrow> string" where
  "trim s = rev (dropWhile isBlank (rev (dropWhile isBlank s)))"

text \<open>The rest of the string from \<open>lastPos + 1\<close> on; \<open>cur\<close> is what was read of the current element.\<close>

fun explodeLoop :: "char \<Rightarrow> bool \<Rightarrow> string \<Rightarrow> string \<Rightarrow> string list" where
  "explodeLoop d useTrim cur [] =
     (let e = (if useTrim then trim cur else cur) in if e = [] then [] else [e])"
| "explodeLoop d useTrim cur (c # cs) =
     (if c = d
      then (let e = (if useTrim then trim cur else cur)
            in (if e = [] then [] else [e]) @ explodeLoop d useTrim [] cs)
      else explodeLoop d useTrim (cur @ [c]) cs)"

definition explodeEx :: "string \<Rightarrow> char \<Rightarrow> bool \<Rightarrow> string list" where
  "explodeEx s d useTrim = explodeLoop d useTrim [] (if s \<noteq> [] \<and> hd s = d then tl s else s)"

definition explode :: "string \<Rightarrow> char \<Rightarrow> string list" where
  "explode s d = explodeEx s d False"

text \<open>\<open>%X\<close> of \<open>snprintf\<close>.\<close>

definition hexDigit :: "nat \<Rightarrow> char" where
  "hexDigit d = char_of (if d < 10 then 48 + d else 55 + d)"

fun hexStr :: "nat \<Rightarrow> string" where
  "hexStr n = (if n < 16 then [hexDigit n] else hexStr (n div 16) @ [hexDigit (n mod 16)])"

definition uintToHexStr :: "u32 \<Rightarrow> string" where
  "uintToHexStr a = hexStr (unat a)"

definition uint16ToHexStr :: "u16 \<Rightarrow> string" where
  "uint16ToHexStr a = hexStr (unat a)"

text \<open>
  \<open>%X\<close> of \<open>sscanf\<close>: blanks, a sign and \<open>0x\<close> are skipped; the value is that of \<open>strtoul\<close> (64 bit),
  cut to 32 bit; 0 when there is no digit.
\<close>

definition hexVal :: "char \<Rightarrow> nat option" where
  "hexVal c =
     (let k = of_char c :: nat
      in if 48 \<le> k \<and> k \<le> 57 then Some (k - 48)
         else if 65 \<le> k \<and> k \<le> 70 then Some (k - 55)
         else if 97 \<le> k \<and> k \<le> 102 then Some (k - 87)
         else None)"

definition isSpace :: "char \<Rightarrow> bool" where
  "isSpace c \<longleftrightarrow> isBlank c \<or> c = CHR 0x0B \<or> c = CHR 0x0C"

definition hexNumber :: "string \<Rightarrow> nat" where
  "hexNumber ds = foldl (\<lambda>v c. 16 * v + the (hexVal c)) 0 ds"

definition strHexToUInt :: "string \<Rightarrow> u32" where
  "strHexToUInt s =
     (let s1 = dropWhile isSpace s;
          neg = (s1 \<noteq> [] \<and> hd s1 = CHR ''-'');
          s2 = (if s1 \<noteq> [] \<and> (hd s1 = CHR ''-'' \<or> hd s1 = CHR ''+'') then tl s1 else s1);
          s3 = (if take 2 s2 = ''0x'' \<or> take 2 s2 = ''0X'' then drop 2 s2 else s2);
          v = hexNumber (takeWhile (\<lambda>c. hexVal c \<noteq> None) s3)
      in if v \<ge> 2 ^ 64 then - 1
         else if neg then - word_of_nat v
         else word_of_nat v)"

section \<open>Files of string maps\<close>

type_synonym StringMap = "(string \<times> string) list"

definition stringMapRedefine :: "string \<Rightarrow> string \<Rightarrow> StringMap \<Rightarrow> StringMap" where
  "stringMapRedefine k v m = map_set k v (map_erase k m)"

definition addLineToStringMap :: "string \<Rightarrow> StringMap \<Rightarrow> StringMap" where
  "addLineToStringMap line m =
     (if CHR ''='' \<notin> set line then stringMapRedefine (trim line) [] m
      else stringMapRedefine (trim (takeWhile (\<lambda>c. c \<noteq> CHR ''='') line))
             (trim (tl (dropWhile (\<lambda>c. c \<noteq> CHR ''='') line))) m)"

text \<open>\<open>std::getline\<close> until the end of the file.\<close>

fun getLines :: "string \<Rightarrow> string list" where
  "getLines [] = [[]]"
| "getLines (c # cs) =
     (if c = CHR 0x0A then [] # getLines cs
      else (case getLines cs of [] \<Rightarrow> [[c]] | l # ls \<Rightarrow> (c # l) # ls))"

definition STORAGETK_FILE_COMMENT_CHAR :: char where
  "STORAGETK_FILE_COMMENT_CHAR = CHR ''#''"

definition loadLine :: "string \<Rightarrow> StringMap \<Rightarrow> StringMap" where
  "loadLine line m =
     (let t = trim line
      in if t \<noteq> [] \<and> hd t \<noteq> STORAGETK_FILE_COMMENT_CHAR then addLineToStringMap t m else m)"

definition loadStringMapFromFile :: "string option \<Rightarrow> StringMap \<Rightarrow> StringMap option" where
  "loadStringMapFromFile file m =
     (case file of None \<Rightarrow> None | Some txt \<Rightarrow> Some (fold loadLine (getLines txt) m))"

definition saveStringMapToFile :: "StringMap \<Rightarrow> string" where
  "saveStringMapToFile m =
     concat (map (\<lambda>(k, v). (if k \<noteq> [] \<and> hd k \<noteq> STORAGETK_FILE_COMMENT_CHAR then k @ ''='' @ v else k)
       @ [CHR 0x0A]) m)"

section \<open>Saving and loading\<close>

definition plain :: "string \<Rightarrow> bool" where
  "plain s \<longleftrightarrow> CHR 0x0A \<notin> set s \<and> trim s = s"

definition plain_key :: "string \<Rightarrow> bool" where
  "plain_key k \<longleftrightarrow> k \<noteq> [] \<and> hd k \<noteq> STORAGETK_FILE_COMMENT_CHAR \<and> CHR ''='' \<notin> set k \<and> plain k"

lemma getLines_not_Nil [simp]: "getLines s \<noteq> []"
  by (induction s) (auto split: list.split)

lemma getLines_line: "CHR 0x0A \<notin> set l \<Longrightarrow> getLines (l @ CHR 0x0A # s) = l # getLines s"
  by (induction l) auto

lemma getLines_concat:
  "\<forall>l \<in> set ls. CHR 0x0A \<notin> set l \<Longrightarrow> getLines (concat (map (\<lambda>l. l @ [CHR 0x0A]) ls)) = ls @ [[]]"
  by (induction ls) (auto simp: getLines_line)

lemma trim_plain_iff:
  "trim s = s \<longleftrightarrow> s = [] \<or> (\<not> isBlank (hd s) \<and> \<not> isBlank (last s))"
proof (cases s rule: rev_cases)
  case (snoc ys y)
  show ?thesis
  proof (cases "isBlank (hd s)")
    case True
    have "s \<noteq> []" using snoc by simp
    then obtain a l where s: "s = a # l" by (cases s) simp_all
    have "length (trim s) \<le> length (dropWhile isBlank s)"
      using length_dropWhile_le [of isBlank "rev (dropWhile isBlank s)"] by (simp add: trim_def)
    also have "dropWhile isBlank s = dropWhile isBlank l" using True by (simp add: s)
    also have "length \<dots> < length s" using length_dropWhile_le [of isBlank l] by (simp add: s)
    finally show ?thesis using True by (auto simp: s)
  next
    case False
    have "dropWhile isBlank s = s" using False by (cases s) simp_all
    then have t: "trim s = rev (dropWhile isBlank (y # rev ys))" by (simp add: trim_def snoc)
    show ?thesis
    proof (cases "isBlank y")
      case True
      have "length (trim s) \<le> length ys"
        using length_dropWhile_le [of isBlank "rev ys"] True by (simp add: t)
      then show ?thesis using True snoc by auto
    next
      case no: False
      then have "trim s = ys @ [y]" by (simp add: t)
      with no False show ?thesis by (simp add: snoc)
    qed
  qed
qed (simp add: trim_def)

lemma redefine_is_set: "map_ok m \<Longrightarrow> stringMapRedefine k v m = map_set k v m"
  by (rule map_ok_eqI) (auto simp: stringMapRedefine_def fun_eq_iff)

lemma loadLine_entry:
  assumes "plain_key k" "plain v" "map_ok m"
  shows "loadLine (k @ CHR ''='' # v) m = map_set k v m"
proof -
  have k: "k \<noteq> []" "hd k \<noteq> STORAGETK_FILE_COMMENT_CHAR" "\<not> isBlank (hd k)" "CHR ''='' \<notin> set k" "trim k = k"
    using assms(1) by (auto simp: plain_key_def plain_def trim_plain_iff)
  have "v = [] \<or> \<not> isBlank (last v)" "trim v = v"
    using assms(2) by (auto simp: plain_def trim_plain_iff)
  then have t: "trim (k @ CHR ''='' # v) = k @ CHR ''='' # v"
    unfolding trim_plain_iff using k(1,3) by (auto simp: isBlank_def)
  have cut: "takeWhile (\<lambda>c. c \<noteq> CHR ''='') (k @ CHR ''='' # v) = k \<and>
    dropWhile (\<lambda>c. c \<noteq> CHR ''='') (k @ CHR ''='' # v) = CHR ''='' # v"
    using k(4) by (induction k) auto
  then have "addLineToStringMap (k @ CHR ''='' # v) m = stringMapRedefine k v m"
    using k(5) \<open>trim v = v\<close> by (simp add: addLineToStringMap_def)
  then show ?thesis
    using k(1,2) assms(3) unfolding loadLine_def t by (simp add: Let_def redefine_is_set)
qed

lemma load_save:
  assumes "map_ok m" "\<forall>(k, v) \<in> set m. plain_key k \<and> plain v"
  shows "loadStringMapFromFile (Some (saveStringMapToFile m)) [] = Some m"
proof -
  let ?line = "\<lambda>(k, v). k @ ''='' @ v"
  have "saveStringMapToFile m = concat (map (\<lambda>l. l @ [CHR 0x0A]) (map ?line m))"
    unfolding saveStringMapToFile_def using assms(2)
    by (intro arg_cong [where f = concat]) (auto simp: plain_key_def)
  moreover have "\<forall>l \<in> set (map ?line m). CHR 0x0A \<notin> set l"
    using assms(2) by (auto simp: plain_key_def plain_def)
  ultimately have lines: "getLines (saveStringMapToFile m) = map ?line m @ [[]]"
    using getLines_concat by metis
  have "fold loadLine (map ?line kvs) m0 = map_fill kvs m0 \<and> map_ok (map_fill kvs m0)"
    if "map_ok m0" "\<forall>(k, v) \<in> set kvs. plain_key k \<and> plain v" for kvs m0
    using that
  proof (induction kvs arbitrary: m0)
    case (Cons p kvs)
    obtain k v where "p = (k, v)" by fastforce
    with Cons show ?case by (auto simp: map_fill_def loadLine_entry)
  qed (simp add: map_fill_def)
  from this [of "[]" m] assms(2) have "fold loadLine (map ?line m) [] = map_fill m []" by simp
  then show ?thesis
    by (simp add: loadStringMapFromFile_def lines loadLine_def trim_def map_fill_self [OF assms(1)])
qed

section \<open>Hexadecimal numbers\<close>

lemma hexDigit_code: "d < 16 \<Longrightarrow> of_char (hexDigit d) = (if d < 10 then 48 + d else 55 + d)"
  by (simp add: hexDigit_def)

lemma hexVal_digit [simp]: "d < 16 \<Longrightarrow> hexVal (hexDigit d) = Some d"
  by (simp add: hexVal_def Let_def hexDigit_code)

declare hexStr.simps [simp del]

lemma hexStr_chars: "c \<in> set (hexStr n) \<Longrightarrow> hexVal c \<noteq> None"
proof (induction n rule: hexStr.induct)
  case (1 n)
  then show ?case by (subst (asm) (2) hexStr.simps) (auto split: if_splits)
qed

lemma hexStr_not_Nil [simp]: "hexStr n \<noteq> []"
  by (subst hexStr.simps) simp

lemma hexNumber_hexStr: "hexNumber (hexStr n) = n"
proof (induction n rule: hexStr.induct)
  case (1 n)
  show ?case
    using 1 by (subst hexStr.simps) (simp add: hexNumber_def)
qed

lemma hexVal_special:
  "hexVal CHR ''='' = None" "hexVal CHR ''#'' = None" "hexVal CHR '','' = None" "hexVal CHR 0x0A = None"
  "hexVal CHR ''x'' = None" "hexVal CHR ''X'' = None" "hexVal CHR ''-'' = None" "hexVal CHR ''+'' = None"
  "isSpace c \<Longrightarrow> hexVal c = None"
  by (auto simp: hexVal_def isSpace_def isBlank_def)

lemma hexStr_no: "hexVal c = None \<Longrightarrow> c \<notin> set (hexStr n)"
  using hexStr_chars by blast

lemma hexStr_plain: "plain_key (hexStr n)" "plain (hexStr n)"
proof -
  have "\<not> isBlank c" if "c \<in> set (hexStr n)" for c
    using hexStr_chars [OF that] hexVal_special(9) [of c] by (auto simp: isSpace_def)
  then have "trim (hexStr n) = hexStr n" by (simp add: trim_plain_iff)
  then show "plain (hexStr n)" using hexStr_no [OF hexVal_special(4)] by (simp add: plain_def)
  moreover have "hd (hexStr n) \<noteq> STORAGETK_FILE_COMMENT_CHAR"
    using hexStr_no [OF hexVal_special(2), of n] hd_in_set [OF hexStr_not_Nil, of n]
    unfolding STORAGETK_FILE_COMMENT_CHAR_def by metis
  ultimately show "plain_key (hexStr n)"
    using hexStr_no [OF hexVal_special(1)] by (simp add: plain_key_def)
qed

lemma hexStr_round_trip:
  assumes "n < 2 ^ 64"
  shows "strHexToUInt (hexStr n) = word_of_nat n"
proof -
  obtain c cs where h: "hexStr n = c # cs" by (cases "hexStr n") simp_all
  have c: "hexVal c \<noteq> None" using hexStr_chars [of c n] h by simp
  have "\<not> isSpace c" "c \<noteq> CHR ''-''" "c \<noteq> CHR ''+''" using c hexVal_special by metis+
  then have start: "dropWhile isSpace (hexStr n) = hexStr n" "hd (hexStr n) \<noteq> CHR ''-''"
    "hd (hexStr n) \<noteq> CHR ''+''" by (simp_all add: h)
  have prefix: "take 2 (hexStr n) \<noteq> ''0x''" "take 2 (hexStr n) \<noteq> ''0X''"
    using hexStr_no [OF hexVal_special(5)] hexStr_no [OF hexVal_special(6)]
    by (metis in_set_takeD list.set_intros(1,2))+
  have digits: "takeWhile (\<lambda>c. hexVal c \<noteq> None) (hexStr n) = hexStr n"
    using hexStr_chars by (simp add: takeWhile_eq_all_conv)
  show ?thesis
    using start(2,3) prefix assms unfolding strHexToUInt_def Let_def start(1)
    by (simp add: digits hexNumber_hexStr del: not_None_eq)
qed

lemma uintToHexStr_round_trip: "strHexToUInt (uintToHexStr a) = a"
proof -
  have "unat a < 2 ^ 64" using unsigned_less [of a, where ?'a = nat] by simp
  then show ?thesis by (simp add: uintToHexStr_def hexStr_round_trip)
qed

lemma uint16ToHexStr_round_trip: "ucast (strHexToUInt (uint16ToHexStr a)) = a"
proof -
  have "unat a < 2 ^ 16" using unsigned_less [of a, where ?'a = nat] by simp
  then have "strHexToUInt (uint16ToHexStr a) = ucast a"
    by (simp add: uint16ToHexStr_def hexStr_round_trip)
  moreover have "ucast (ucast a :: u32) = a" by (rule bit_word_eqI) (simp add: bit_simps)
  ultimately show ?thesis by simp
qed

lemma hex16_round_trip: "ucast (strHexToUInt (uintToHexStr (ucast n))) = (n :: u16)"
proof -
  have "ucast (ucast n :: u32) = n" by (rule bit_word_eqI) (simp add: bit_simps)
  then show ?thesis by (simp add: uintToHexStr_round_trip)
qed

end
