(* ===== verification/TargetMapper.thy ===== *)
theory TargetMapper
  imports TargetPools TargetStates MapFile
begin

text \<open>
  The table of the storage targets and their nodes (\<open>TargetMapper.h/.cpp\<close>). Capacity pools and a
  store of target states may be attached; they follow the table. They belong to the model's state
  of the mapper (\<open>None\<close> when not attached). The lock keeps the calls apart.
\<close>

section \<open>State and operations\<close>

record TargetMapper =
  tm_targets :: "(u16 \<times> u16) list"
  tm_capacityPools :: "TargetCapacityPools option"
  tm_states :: "TargetStateInfoMap option"
  tm_mappingsDirty :: bool

definition newTargetMapper :: TargetMapper where
  "newTargetMapper = \<lparr>tm_targets = [], tm_capacityPools = None, tm_states = None, tm_mappingsDirty = False\<rparr>"

definition attachCapacityPools :: "TargetCapacityPools \<Rightarrow> TargetMapper \<Rightarrow> TargetMapper" where
  "attachCapacityPools p s = s\<lparr>tm_capacityPools := Some p\<rparr>"

definition attachStateStore :: "TargetStateInfoMap \<Rightarrow> TargetMapper \<Rightarrow> TargetMapper" where
  "attachStateStore m s = s\<lparr>tm_states := Some m\<rparr>"

definition poffline_good :: CombinedTargetState where
  "poffline_good = \<lparr>reachabilityState = TargetReachabilityState_POFFLINE,
     consistencyState = TargetConsistencyState_GOOD\<rparr>"

text \<open>A new target in the attached stores, and its removal.\<close>

definition addToAttached :: "timespec \<Rightarrow> CombinedTargetState \<Rightarrow> u16 \<times> u16 \<Rightarrow> TargetMapper \<Rightarrow> TargetMapper" where
  "addToAttached now st tn s =
     s\<lparr>tm_capacityPools := map_option (\<lambda>p. fst (tcp_addIfNotExists (fst tn) (snd tn) CapacityPool_LOW p))
         (tm_capacityPools s),
       tm_states := map_option (tss_addIfNotExists now (fst tn) st) (tm_states s)\<rparr>"

definition removeFromAttached :: "u16 \<Rightarrow> TargetMapper \<Rightarrow> TargetMapper" where
  "removeFromAttached t s =
     s\<lparr>tm_capacityPools := map_option (tcp_remove t) (tm_capacityPools s),
       tm_states := map_option (removeTarget t) (tm_states s)\<rparr>"

definition mapTarget :: "timespec \<Rightarrow> u16 \<Rightarrow> u16 \<Rightarrow> TargetMapper \<Rightarrow> TargetMapper \<times> bool" where
  "mapTarget now t n s =
     (let s1 = s\<lparr>tm_targets := map_set t n (tm_targets s), tm_mappingsDirty := True\<rparr>;
          isNew = (length (tm_targets s) \<noteq> length (tm_targets s1))
      in (if isNew then addToAttached now poffline_good (t, n) s1 else s1, isNew))"

definition unmapTarget :: "u16 \<Rightarrow> TargetMapper \<Rightarrow> TargetMapper \<times> bool" where
  "unmapTarget t s =
     (case map_of (tm_targets s) t of
        None \<Rightarrow> (s, False)
      | Some _ \<Rightarrow>
          (removeFromAttached t (s\<lparr>tm_targets := map_erase t (tm_targets s), tm_mappingsDirty := True\<rparr>), True))"

text \<open>The loop of \<open>unmapByNodeID\<close> over the entries of the table.\<close>

fun unmapNodeLoop :: "u16 \<Rightarrow> (u16 \<times> u16) list \<Rightarrow> TargetMapper \<times> bool \<Rightarrow> TargetMapper \<times> bool" where
  "unmapNodeLoop n [] sb = sb"
| "unmapNodeLoop n ((t, n') # es) (s, erased) =
     (if n' = n
      then unmapNodeLoop n es
        (removeFromAttached t (s\<lparr>tm_targets := map_erase t (tm_targets s)\<rparr>)\<lparr>tm_mappingsDirty := True\<rparr>, True)
      else unmapNodeLoop n es (s, erased))"

definition unmapByNodeID :: "u16 \<Rightarrow> TargetMapper \<Rightarrow> TargetMapper \<times> bool" where
  "unmapByNodeID n s = unmapNodeLoop n (tm_targets s) (s, False)"

definition syncTargetsFromLists :: "timespec \<Rightarrow> u16 list \<Rightarrow> u16 list \<Rightarrow> TargetMapper \<Rightarrow> TargetMapper" where
  "syncTargetsFromLists now targetIDs nodeIDs s =
     (let newTargets = map_fill (zip targetIDs nodeIDs) []
      in if tm_targets s = newTargets then s
         else fold (addToAttached now defaultCombinedTargetState) newTargets
                (s\<lparr>tm_targets := newTargets, tm_mappingsDirty := True\<rparr>))"

definition tm_getMappingAsLists :: "TargetMapper \<Rightarrow> u16 list \<times> u16 list" where
  "tm_getMappingAsLists s = (map fst (tm_targets s), map snd (tm_targets s))"

definition getTargetsByNode :: "u16 \<Rightarrow> TargetMapper \<Rightarrow> u16 list" where
  "getTargetsByNode n s = map fst (filter (\<lambda>(t, n'). n' = n) (tm_targets s))"

definition getNodeID :: "u16 \<Rightarrow> TargetMapper \<Rightarrow> u16" where
  "getNodeID t s = (case map_of (tm_targets s) t of None \<Rightarrow> 0 | Some n \<Rightarrow> n)"

definition tm_getSize :: "TargetMapper \<Rightarrow> nat" where
  "tm_getSize s = length (tm_targets s)"

definition targetExists :: "u16 \<Rightarrow> TargetMapper \<Rightarrow> bool" where
  "targetExists t s = list_ex (\<lambda>(t', n). t' = t) (tm_targets s)"

definition tm_exportToStringMap :: "(u16 \<times> u16) list \<Rightarrow> StringMap" where
  "tm_exportToStringMap m =
     fold (\<lambda>(t, n). map_set (uintToHexStr (ucast t)) (uintToHexStr (ucast n))) m []"

definition tm_importFromStringMap :: "StringMap \<Rightarrow> (u16 \<times> u16) list \<Rightarrow> (u16 \<times> u16) list" where
  "tm_importFromStringMap im m =
     fold (\<lambda>(k, v). map_set (ucast (strHexToUInt k)) (ucast (strHexToUInt v))) im m"

definition tm_saveToFile :: "TargetMapper \<Rightarrow> string \<times> TargetMapper" where
  "tm_saveToFile s =
     (saveStringMapToFile (tm_exportToStringMap (tm_targets s)), s\<lparr>tm_mappingsDirty := False\<rparr>)"

definition tm_loadFromFile :: "timespec \<Rightarrow> string option \<Rightarrow> TargetMapper \<Rightarrow> TargetMapper \<times> bool" where
  "tm_loadFromFile now file s =
     (case loadStringMapFromFile file [] of
        None \<Rightarrow> (s, False)
      | Some im \<Rightarrow>
          (let s1 = s\<lparr>tm_targets := tm_importFromStringMap im []\<rparr>
           in ((fold (addToAttached now poffline_good) (tm_targets s1) s1)\<lparr>tm_mappingsDirty := True\<rparr>, True)))"

section \<open>Facts\<close>

lemma getNodeID_Some: "map_of (tm_targets s) t = Some n \<Longrightarrow> getNodeID t s = n"
  by (simp add: getNodeID_def)

lemma targetExists_iff: "targetExists t s \<longleftrightarrow> t \<in> fst ` set (tm_targets s)"
  by (force simp: targetExists_def list_ex_iff)

lemma getTargetsByNode_set:
  "map_ok (tm_targets s) \<Longrightarrow> t \<in> set (getTargetsByNode n s) \<longleftrightarrow> map_of (tm_targets s) t = Some n"
  by (force simp: getTargetsByNode_def map_of_Some_iff)

lemma getTargetsByNode_distinct: "map_ok (tm_targets s) \<Longrightarrow> distinct (getTargetsByNode n s)"
  unfolding getTargetsByNode_def by (intro distinct_map_filter map_ok_distinct)

lemma addToAttached_targets [simp]:
  "tm_targets (addToAttached now st tn s) = tm_targets s"
  "tm_targets (fold (addToAttached now st) es s) = tm_targets s"
  "tm_mappingsDirty (addToAttached now st tn s) = tm_mappingsDirty s"
proof -
  show one: "tm_targets (addToAttached now st tn s) = tm_targets s" for tn s
    by (simp add: addToAttached_def)
  show "tm_targets (fold (addToAttached now st) es s) = tm_targets s"
    by (induction es arbitrary: s) (simp_all add: one)
qed (simp add: addToAttached_def)

lemma removeFromAttached_targets [simp]:
  "tm_targets (removeFromAttached t s) = tm_targets s"
  by (simp add: removeFromAttached_def)

lemma unmapTarget_targets: "map_ok (tm_targets s) \<Longrightarrow> tm_targets (fst (unmapTarget t s)) = map_erase t (tm_targets s)"
  by (auto simp: unmapTarget_def split: option.split intro!: map_ok_eqI)

lemma tm_import_export: "map_ok m \<Longrightarrow> tm_importFromStringMap (tm_exportToStringMap m) [] = m"
  using recode_table(1) [of m "\<lambda>v. ucast (strHexToUInt v)" "\<lambda>n. uintToHexStr (ucast n)"
      "\<lambda>v. ucast (strHexToUInt v)" "\<lambda>n. uintToHexStr (ucast n)"]
  by (simp add: tm_importFromStringMap_def tm_exportToStringMap_def fold_as_fill hex16_round_trip)

lemma tm_export_plain:
  assumes "map_ok m"
  shows "map_ok (tm_exportToStringMap m)" "\<forall>(k, v) \<in> set (tm_exportToStringMap m). plain_key k \<and> plain v"
proof -
  have "set (tm_exportToStringMap m) = (\<lambda>(t, n). (uintToHexStr (ucast t), uintToHexStr (ucast n))) ` set m"
    unfolding tm_exportToStringMap_def fold_as_fill
    by (rule recode_table(2) [OF assms, where dk = "\<lambda>v. ucast (strHexToUInt v)" and dv = "\<lambda>v. ucast (strHexToUInt v)"])
      (rule hex16_round_trip)+
  then show "\<forall>(k, v) \<in> set (tm_exportToStringMap m). plain_key k \<and> plain v"
    by (auto simp: uintToHexStr_def hexStr_plain)
qed (simp add: tm_exportToStringMap_def fold_as_fill map_fill_result)

lemma tm_file_round_trip:
  assumes "map_ok (tm_targets s)"
  shows "tm_targets (fst (tm_loadFromFile now (Some (fst (tm_saveToFile s))) t)) = tm_targets s"
  using tm_export_plain [OF assms] tm_import_export [OF assms]
  by (simp add: tm_saveToFile_def tm_loadFromFile_def load_save Let_def)

section \<open>The attached stores know every target\<close>

definition known :: "(u16 \<Rightarrow> u16) \<Rightarrow> TargetCapacityPools \<Rightarrow> u16 \<Rightarrow> bool" where
  "known nodeOf p t \<longleftrightarrow> (\<exists>ty. t \<in> set (pools p ty)) \<and> map_of (targetMap p) t = Some (nodeOf t)"

definition attached_for :: "(u16 \<Rightarrow> u16) \<Rightarrow> u16 set \<Rightarrow> TargetMapper \<Rightarrow> bool" where
  "attached_for nodeOf D s \<longleftrightarrow>
     (\<forall>m. tm_states s = Some m \<longrightarrow> map_ok m \<and> D \<subseteq> dom (map_of m)) \<and>
     (\<forall>p. tm_capacityPools s = Some p \<longrightarrow> groups_ok nodeOf p \<and> no_empty_group p \<and>
        D \<subseteq> Collect (known nodeOf p))"

definition attached_ok :: "(u16 \<Rightarrow> u16) \<Rightarrow> TargetMapper \<Rightarrow> bool" where
  "attached_ok nodeOf s \<longleftrightarrow> mapping_ok nodeOf (tm_targets s) \<and>
     attached_for nodeOf (dom (map_of (tm_targets s))) s"

lemma addOrUpdateUnlocked_pools:
  "t \<in> set (pools (fst (addOrUpdateUnlocked t n ty p)) ty)"
  "u \<in> set (pools p ty') \<Longrightarrow> u \<noteq> t \<Longrightarrow> u \<in> set (pools (fst (addOrUpdateUnlocked t n ty p)) ty')"
proof -
  let ?tys = "filter (\<lambda>ty'. ty' \<noteq> ty) poolTypes" and ?p = "(pools p)(ty := set_insert (<) t (pools p ty))"
  have p': "pools (fst (addOrUpdateUnlocked t n ty p)) = ?p \<or>
      pools (fst (addOrUpdateUnlocked t n ty p)) = fst (eraseFirst t ?tys ?p)"
    unfolding addOrUpdateUnlocked_def Let_def tcp_removeFromOthersUnlocked_def
    by (simp split: prod.split option.split)
  have "t \<in> set (fst (eraseFirst t ?tys ?p) ty)"
    by (cases rule: eraseFirst_cases [of t ?tys ?p]; force)
  with p' show "t \<in> set (pools (fst (addOrUpdateUnlocked t n ty p)) ty)" by auto
  assume u: "u \<in> set (pools p ty')" "u \<noteq> t"
  then have "u \<in> set (fst (eraseFirst t ?tys ?p) ty')"
    by (cases rule: eraseFirst_cases [of t ?tys ?p]; force)
  with p' u show "u \<in> set (pools (fst (addOrUpdateUnlocked t n ty p)) ty')" by auto
qed

lemma addOrUpdateUnlocked_known:
  assumes "groups_ok nodeOf p" "n = nodeOf t"
  shows "known nodeOf (fst (addOrUpdateUnlocked t n ty p)) t"
    and "known nodeOf p u \<Longrightarrow> known nodeOf (fst (addOrUpdateUnlocked t n ty p)) u"
proof -
  define p' where "p' = fst (addOrUpdateUnlocked t n ty p)"
  have m: "targetMap p' = map_set t n (targetMap p)"
    unfolding p'_def addOrUpdateUnlocked_def Let_def tcp_removeFromOthersUnlocked_def
    by (simp split: prod.split option.split)
  have pools: "t \<in> set (pools p' ty)"
    "u \<in> set (pools p ty') \<Longrightarrow> u \<noteq> t \<Longrightarrow> u \<in> set (pools p' ty')" for u ty'
    using addOrUpdateUnlocked_pools unfolding p'_def by blast+
  note map_ok = groups_okD(3) [OF assms(1)]
  show t: "known nodeOf (fst (addOrUpdateUnlocked t n ty p)) t"
    unfolding p'_def [symmetric] known_def m using pools(1) map_ok assms(2) by auto
  show "known nodeOf (fst (addOrUpdateUnlocked t n ty p)) u" if "known nodeOf p u"
  proof (cases "u = t")
    case False
    then show ?thesis
      using that pools(2) map_ok unfolding p'_def [symmetric] known_def m by fastforce
  qed (use t in simp)
qed

lemma tcp_addIfNotExists_known:
  assumes "groups_ok nodeOf p" "n = nodeOf t" "n \<noteq> 0"
  shows "known nodeOf (fst (tcp_addIfNotExists t n ty p)) t"
    and "known nodeOf p u \<Longrightarrow> known nodeOf (fst (tcp_addIfNotExists t n ty p)) u"
proof -
  show "known nodeOf (fst (tcp_addIfNotExists t n ty p)) u" if "known nodeOf p u"
    using that addOrUpdateUnlocked_known(2) [OF assms(1,2)] by (simp add: tcp_addIfNotExists_def Let_def)
  show "known nodeOf (fst (tcp_addIfNotExists t n ty p)) t"
  proof (cases "needUpdate t n p")
    case True
    then show ?thesis
      using addOrUpdateUnlocked_known(1) [OF assms(1,2)] by (simp add: tcp_addIfNotExists_def Let_def)
  next
    case False
    then obtain ty1 where "findPool t (pools p) = Some ty1" "n = getNodeIDFromTargetID t (targetMap p)"
      by (auto simp: needUpdate_def split: option.splits)
    then have "known nodeOf p t" using assms(2,3)
      by (auto simp: known_def findPool_def find_Some_iff getNodeIDFromTargetID_def split: option.splits)
    then show ?thesis using False by (simp add: tcp_addIfNotExists_def)
  qed
qed

lemma tcp_remove_known:
  assumes "groups_ok nodeOf p" "u \<noteq> t" "known nodeOf p u"
  shows "known nodeOf (tcp_remove t p) u"
proof -
  have "targetMap (tcp_remove t p) = targetMap p"
    by (simp add: tcp_remove_def Let_def split: prod.split option.split)
  moreover have "pools (tcp_remove t p) = fst (eraseFirst t poolTypes (pools p))"
    by (cases rule: eraseFirst_cases [of t poolTypes "pools p"])
      (simp_all add: tcp_remove_def Let_def split: option.split)
  moreover have "u \<in> set (pools p ty) \<Longrightarrow> u \<in> set (fst (eraseFirst t poolTypes (pools p)) ty)" for ty
    using assms(2) by (cases rule: eraseFirst_cases [of t poolTypes "pools p"]) auto
  ultimately show ?thesis using assms(3) by (auto simp: known_def)
qed


lemma addToAttached_for:
  assumes "attached_for nodeOf D s" "nodeOf t \<noteq> 0"
  shows "attached_for nodeOf (insert t D) (addToAttached now st (t, nodeOf t) s)"
proof -
  have states: "map_ok m' \<and> insert t D \<subseteq> dom (map_of m')"
    if new: "tm_states (addToAttached now st (t, nodeOf t) s) = Some m'" for m'
  proof -
    obtain m where m: "tm_states s = Some m" "m' = tss_addIfNotExists now t st m"
      using new by (auto simp: addToAttached_def)
    with assms(1) have "map_ok m" "D \<subseteq> dom (map_of m)" by (auto simp: attached_for_def)
    then show ?thesis using tss_addIfNotExists_keys [of m now t st] m(2) by auto
  qed
  have "groups_ok nodeOf p' \<and> no_empty_group p' \<and> insert t D \<subseteq> Collect (known nodeOf p')"
    if new: "tm_capacityPools (addToAttached now st (t, nodeOf t) s) = Some p'" for p'
  proof -
    obtain p where p: "tm_capacityPools s = Some p"
      "p' = fst (tcp_addIfNotExists t (nodeOf t) CapacityPool_LOW p)"
      using new by (auto simp: addToAttached_def)
    with assms(1) have ok: "groups_ok nodeOf p \<and> no_empty_group p" "D \<subseteq> Collect (known nodeOf p)"
      by (auto simp: attached_for_def)
    have "groups_ok nodeOf p' \<and> no_empty_group p'"
      using tcp_groups.step_inv [OF ok(1), of "AddIfNotExists t (nodeOf t) CapacityPool_LOW"] p(2) assms(2) by simp
    then show ?thesis
      using tcp_addIfNotExists_known [of nodeOf p "nodeOf t" t] ok p(2) assms(2) by blast
  qed
  with states show ?thesis by (simp add: attached_for_def)
qed

lemma removeFromAttached_for:
  assumes "attached_for nodeOf D s"
  shows "attached_for nodeOf (D - {t}) (removeFromAttached t s)"
proof -
  have states: "map_ok m' \<and> D - {t} \<subseteq> dom (map_of m')"
    if new: "tm_states (removeFromAttached t s) = Some m'" for m'
  proof -
    obtain m where m: "tm_states s = Some m" "m' = removeTarget t m"
      using new by (auto simp: removeFromAttached_def)
    with assms have "map_ok m" "D \<subseteq> dom (map_of m)" by (auto simp: attached_for_def)
    then show ?thesis using m(2) by (auto simp: removeTarget_def)
  qed
  have "groups_ok nodeOf p' \<and> no_empty_group p' \<and> D - {t} \<subseteq> Collect (known nodeOf p')"
    if new: "tm_capacityPools (removeFromAttached t s) = Some p'" for p'
  proof -
    obtain p where p: "tm_capacityPools s = Some p" "p' = tcp_remove t p"
      using new by (auto simp: removeFromAttached_def)
    with assms have ok: "groups_ok nodeOf p \<and> no_empty_group p" "D \<subseteq> Collect (known nodeOf p)"
      by (auto simp: attached_for_def)
    have "groups_ok nodeOf p' \<and> no_empty_group p'"
      using tcp_groups.step_inv [OF ok(1), of "Remove t"] p(2) by simp
    then show ?thesis using tcp_remove_known [of nodeOf p _ t] ok p(2) by blast
  qed
  with states show ?thesis by (simp add: attached_for_def)
qed

lemma attached_for_change:
  "tm_states s' = tm_states s \<Longrightarrow> tm_capacityPools s' = tm_capacityPools s \<Longrightarrow>
     attached_for nodeOf D s' \<longleftrightarrow> attached_for nodeOf D s"
  by (simp add: attached_for_def)

lemma attached_for_fold:
  assumes "attached_for nodeOf D s" "\<forall>(t, n) \<in> set es. n = nodeOf t \<and> n \<noteq> 0"
  shows "attached_for nodeOf (D \<union> fst ` set es) (fold (addToAttached now st) es s)"
  using assms
proof (induction es arbitrary: D s)
  case (Cons e es)
  obtain t where e: "e = (t, nodeOf t)" "nodeOf t \<noteq> 0" using Cons.prems(2) by (cases e) auto
  from Cons.IH [OF addToAttached_for [OF Cons.prems(1) e(2)]] Cons.prems(2) show ?case
    by (simp add: e(1))
qed simp

lemma attached_for_mono: "attached_for nodeOf D s \<Longrightarrow> D' \<subseteq> D \<Longrightarrow> attached_for nodeOf D' s"
  unfolding attached_for_def by blast

datatype tm_call =
    MapTarget timespec u16 u16
  | UnmapTarget u16
  | UnmapByNodeID u16
  | SyncTargets timespec "u16 list" "u16 list"

fun tm_step :: "tm_call \<Rightarrow> TargetMapper \<Rightarrow> TargetMapper" where
  "tm_step (MapTarget now t n) s = fst (mapTarget now t n s)"
| "tm_step (UnmapTarget t) s = fst (unmapTarget t s)"
| "tm_step (UnmapByNodeID n) s = fst (unmapByNodeID n s)"
| "tm_step (SyncTargets now ts ns) s = syncTargetsFromLists now ts ns s"

fun tm_call_ok :: "(u16 \<Rightarrow> u16) \<Rightarrow> tm_call \<Rightarrow> bool" where
  "tm_call_ok nodeOf (MapTarget now t n) \<longleftrightarrow> n = nodeOf t \<and> n \<noteq> 0"
| "tm_call_ok nodeOf (SyncTargets now ts ns) \<longleftrightarrow> list_all (\<lambda>(t, n). n = nodeOf t \<and> n \<noteq> 0) (zip ts ns)"
| "tm_call_ok nodeOf _ \<longleftrightarrow> True"

lemma unmapNodeLoop_ok:
  assumes "attached_ok nodeOf s"
  shows "attached_ok nodeOf (fst (unmapNodeLoop n es (s, b)))"
  using assms
proof (induction n es "(s, b)" arbitrary: s b rule: unmapNodeLoop.induct)
  case (2 n t n' es s erased)
  let ?s = "removeFromAttached t (s\<lparr>tm_targets := map_erase t (tm_targets s)\<rparr>)\<lparr>tm_mappingsDirty := True\<rparr>"
  have ok: "map_ok (tm_targets s)" using 2(3) by (simp add: attached_ok_def mapping_ok_def)
  have "attached_for nodeOf (dom (map_of (tm_targets s)) - {t}) (removeFromAttached t (s\<lparr>tm_targets := map_erase t (tm_targets s)\<rparr>))"
    using 2(3) by (intro removeFromAttached_for) (simp add: attached_ok_def attached_for_def)
  then have "attached_for nodeOf (dom (map_of (tm_targets ?s))) ?s"
    using ok by (simp add: attached_for_def)
  moreover have "mapping_ok nodeOf (tm_targets ?s)"
    using 2(3) map_erase_subset [of t "tm_targets s"] by (auto simp: attached_ok_def mapping_ok_def)
  ultimately have "attached_ok nodeOf ?s" by (simp add: attached_ok_def)
  with 2 show ?case by simp
qed simp

interpretation tm: invariant_system tm_step "tm_call_ok nodeOf" "attached_ok nodeOf" for nodeOf
proof
  fix s op assume inv: "attached_ok nodeOf s" and ok: "tm_call_ok nodeOf op"
  have m: "mapping_ok nodeOf (tm_targets s)" "map_ok (tm_targets s)"
    and a: "attached_for nodeOf (dom (map_of (tm_targets s))) s"
    using inv by (simp_all add: attached_ok_def mapping_ok_def)
  show "attached_ok nodeOf (tm_step op s)"
  proof (cases op)
    case (MapTarget now t n)
    then have n: "n = nodeOf t" "nodeOf t \<noteq> 0" using ok by auto
    define s1 where "s1 = s\<lparr>tm_targets := map_set t n (tm_targets s), tm_mappingsDirty := True\<rparr>"
    have a1: "attached_for nodeOf (dom (map_of (tm_targets s))) s1" using a by (simp add: s1_def attached_for_def)
    have m1: "mapping_ok nodeOf (tm_targets s1)" using mapping_ok_set [OF m(1) n(2)] by (simp add: s1_def n(1))
    show ?thesis
    proof (cases "map_of (tm_targets s) t")
      case None
      have "length (tm_targets s1) = Suc (length (tm_targets s))"
        using map_set_new_length [OF m(2) None] by (simp add: s1_def)
      then have "fst (mapTarget now t n s) = addToAttached now poffline_good (t, n) s1"
        by (simp add: mapTarget_def s1_def [symmetric] Let_def)
      with addToAttached_for [OF a1 n(2)] m1 show ?thesis
        using m(2) by (simp add: MapTarget attached_ok_def n(1)) (simp add: s1_def n(1))
    next
      case (Some n')
      then have "n' = n" using mapping_okD(1) [OF m(1)] n(1) by simp
      then have "map_set t n (tm_targets s) = tm_targets s"
        using Some m(2) by (intro map_ok_eqI) auto
      then have "fst (mapTarget now t n s) = s1" "tm_targets s1 = tm_targets s"
        by (simp_all add: mapTarget_def s1_def Let_def)
      with a1 m1 show ?thesis by (simp add: MapTarget attached_ok_def)
    qed
  next
    case (UnmapTarget t)
    show ?thesis
    proof (cases "map_of (tm_targets s) t")
      case None
      with inv show ?thesis by (simp add: UnmapTarget unmapTarget_def)
    next
      case (Some n)
      let ?s = "s\<lparr>tm_targets := map_erase t (tm_targets s), tm_mappingsDirty := True\<rparr>"
      have "attached_for nodeOf (dom (map_of (tm_targets s)) - {t}) (removeFromAttached t ?s)"
        using a by (intro removeFromAttached_for) (simp add: attached_for_def)
      moreover have "mapping_ok nodeOf (map_erase t (tm_targets s))"
        using m map_erase_subset [of t "tm_targets s"] by (auto simp: mapping_ok_def)
      ultimately show ?thesis
        using Some m(2) by (simp add: UnmapTarget unmapTarget_def attached_ok_def)
    qed
  next
    case (UnmapByNodeID n)
    then show ?thesis using unmapNodeLoop_ok [OF inv] by (simp add: unmapByNodeID_def)
  next
    case (SyncTargets now ts ns)
    let ?new = "map_fill (zip ts ns) []"
    show ?thesis
    proof (cases "tm_targets s = ?new")
      case True
      with inv show ?thesis by (simp add: SyncTargets syncTargetsFromLists_def)
    next
      case False
      let ?s = "s\<lparr>tm_targets := ?new, tm_mappingsDirty := True\<rparr>"
      have new: "map_ok ?new" by (simp add: map_fill_result)
      have entries: "\<forall>(t, n) \<in> set ?new. n = nodeOf t \<and> n \<noteq> 0"
      proof -
        have sub: "set ?new \<subseteq> set (zip ts ns)" using map_fill_subset [of "zip ts ns" "[]"] by simp
        have all: "\<forall>(t, n) \<in> set (zip ts ns). n = nodeOf t \<and> n \<noteq> 0"
          using ok by (simp only: SyncTargets tm_call_ok.simps list_all_iff)
        show ?thesis by (rule ballI) (rule bspec [OF all subsetD [OF sub]])
      qed
      have "attached_for nodeOf {} ?s"
        using attached_for_mono [OF a, of "{}"] by (simp add: attached_for_def)
      from attached_for_fold [OF this entries, of now defaultCombinedTargetState]
      have "attached_for nodeOf (fst ` set ?new) (tm_step op s)"
        using False by (simp add: SyncTargets syncTargetsFromLists_def Let_def)
      moreover have "tm_targets (tm_step op s) = ?new"
        using False by (simp add: SyncTargets syncTargetsFromLists_def Let_def)
      ultimately show ?thesis
        using new entries unfolding attached_ok_def mapping_ok_def by (simp only: dom_map_of_conv_image_fst)
    qed
  qed
qed


lemma new_attached_ok:
  "attached_ok nodeOf (attachStateStore [] (attachCapacityPools newTargetCapacityPools newTargetMapper))"
  using new_pools_ok
  by (simp add: attached_ok_def attached_for_def mapping_ok_def attachStateStore_def attachCapacityPools_def
      newTargetMapper_def)


text \<open>Stores stay attached.\<close>

definition both_attached :: "TargetMapper \<Rightarrow> bool" where
  "both_attached s \<longleftrightarrow> tm_capacityPools s \<noteq> None \<and> tm_states s \<noteq> None"

lemma both_attached_simps [simp]:
  "both_attached (addToAttached now st tn s) = both_attached s"
  "both_attached (removeFromAttached t s) = both_attached s"
  "both_attached (s\<lparr>tm_targets := m\<rparr>) = both_attached s"
  "both_attached (s\<lparr>tm_mappingsDirty := d\<rparr>) = both_attached s"
  by (auto simp: both_attached_def addToAttached_def removeFromAttached_def)

lemma both_attached_fold [simp]: "both_attached (fold (addToAttached now st) es s) = both_attached s"
  by (induction es arbitrary: s) simp_all

lemma both_attached_loop [simp]: "both_attached (fst (unmapNodeLoop n es sb)) = both_attached (fst sb)"
  by (induction n es sb rule: unmapNodeLoop.induct) simp_all

interpretation tm_attached: invariant_system tm_step "\<lambda>_. True" both_attached
proof
  fix s op assume "both_attached s"
  then show "both_attached (tm_step op s)"
    by (cases op) (simp_all add: mapTarget_def unmapTarget_def unmapByNodeID_def syncTargetsFromLists_def
        Let_def split: option.split)
qed

section \<open>Targets that move\<close>

text \<open>
  When the node of a target changes, the groups of the pools do not follow, but the target stays
  known to the attached stores.
\<close>

definition stores_know :: "u16 set \<Rightarrow> TargetMapper \<Rightarrow> bool" where
  "stores_know D s \<longleftrightarrow>
     (\<forall>m. tm_states s = Some m \<longrightarrow> map_ok m \<and> D \<subseteq> dom (map_of m)) \<and>
     (\<forall>p. tm_capacityPools s = Some p \<longrightarrow> (\<forall>t \<in> D. \<exists>ty. t \<in> set (pools p ty)))"

definition mapped_known :: "TargetMapper \<Rightarrow> bool" where
  "mapped_known s \<longleftrightarrow> map_ok (tm_targets s) \<and> stores_know (dom (map_of (tm_targets s))) s"

lemma stores_know_change:
  "tm_states s' = tm_states s \<Longrightarrow> tm_capacityPools s' = tm_capacityPools s \<Longrightarrow>
     stores_know D s' \<longleftrightarrow> stores_know D s"
  by (simp add: stores_know_def)

lemma stores_know_simps [simp]:
  "stores_know D (s\<lparr>tm_targets := es\<rparr>) = stores_know D s"
  "stores_know D (s\<lparr>tm_mappingsDirty := b\<rparr>) = stores_know D s"
  by (simp_all add: stores_know_def)

lemma tcp_addIfNotExists_pools:
  "\<exists>ty'. t \<in> set (pools (fst (tcp_addIfNotExists t n ty p)) ty')"
  "\<exists>ty'. u \<in> set (pools p ty') \<Longrightarrow> \<exists>ty'. u \<in> set (pools (fst (tcp_addIfNotExists t n ty p)) ty')"
proof -
  have t: "\<exists>ty'. t \<in> set (pools (fst (tcp_addIfNotExists t n ty p)) ty')"
  proof (cases "needUpdate t n p")
    case True
    then show ?thesis
      using addOrUpdateUnlocked_pools(1) by (simp add: tcp_addIfNotExists_def Let_def) blast
  next
    case False
    then have "findPool t (pools p) \<noteq> None" by (auto simp: needUpdate_def split: option.splits)
    then show ?thesis using False by (auto simp: tcp_addIfNotExists_def findPool_None)
  qed
  then show "\<exists>ty'. t \<in> set (pools (fst (tcp_addIfNotExists t n ty p)) ty')" .
  assume "\<exists>ty'. u \<in> set (pools p ty')"
  then obtain ty' where u: "u \<in> set (pools p ty')" by blast
  show "\<exists>ty'. u \<in> set (pools (fst (tcp_addIfNotExists t n ty p)) ty')"
  proof (cases "u = t")
    case True
    then show ?thesis using t by simp
  next
    case False
    from addOrUpdateUnlocked_pools(2) [OF u False] u
    have "u \<in> set (pools (fst (tcp_addIfNotExists t n ty p)) ty')"
      by (simp add: tcp_addIfNotExists_def Let_def)
    then show ?thesis by blast
  qed
qed

lemma tcp_remove_pools:
  assumes "u \<in> set (pools p ty)" "u \<noteq> t"
  shows "u \<in> set (pools (tcp_remove t p) ty)"
proof -
  have "pools (tcp_remove t p) = fst (eraseFirst t poolTypes (pools p))"
    by (cases rule: eraseFirst_cases [of t poolTypes "pools p"])
      (simp_all add: tcp_remove_def Let_def split: option.split)
  then show ?thesis
    using assms by (cases rule: eraseFirst_cases [of t poolTypes "pools p"]) auto
qed

lemma stores_knowD:
  assumes "stores_know D s"
  shows "tm_states s = Some m \<Longrightarrow> map_ok m" "tm_states s = Some m \<Longrightarrow> D \<subseteq> dom (map_of m)"
    "tm_capacityPools s = Some p \<Longrightarrow> u \<in> D \<Longrightarrow> \<exists>ty. u \<in> set (pools p ty)"
  using assms by (simp_all add: stores_know_def)

lemma addToAttached_know:
  assumes "stores_know D s"
  shows "stores_know (insert t D) (addToAttached now st (t, n) s)"
  unfolding stores_know_def
proof (intro conjI allI impI ballI)
  fix m assume "tm_states (addToAttached now st (t, n) s) = Some m"
  then obtain m0 where m0: "tm_states s = Some m0" "m = tss_addIfNotExists now t st m0"
    by (auto simp: addToAttached_def)
  note k = stores_knowD(1,2) [OF assms m0(1)]
  show "map_ok m" using k(1) m0(2) by simp
  show "insert t D \<subseteq> dom (map_of m)" using k tss_addIfNotExists_keys [OF k(1)] m0(2) by auto
next
  fix p u assume "tm_capacityPools (addToAttached now st (t, n) s) = Some p" and u: "u \<in> insert t D"
  then obtain p0 where p0: "tm_capacityPools s = Some p0" "p = fst (tcp_addIfNotExists t n CapacityPool_LOW p0)"
    by (auto simp: addToAttached_def)
  show "\<exists>ty. u \<in> set (pools p ty)"
    using u tcp_addIfNotExists_pools(1) tcp_addIfNotExists_pools(2) [OF stores_knowD(3) [OF assms p0(1)]]
    unfolding p0(2) by (cases "u = t") simp_all
qed

lemma removeFromAttached_know:
  assumes "stores_know D s"
  shows "stores_know (D - {t}) (removeFromAttached t s)"
  unfolding stores_know_def
proof (intro conjI allI impI ballI)
  fix m assume "tm_states (removeFromAttached t s) = Some m"
  then obtain m0 where m0: "tm_states s = Some m0" "m = map_erase t m0"
    by (auto simp: removeFromAttached_def removeTarget_def)
  note k = stores_knowD(1,2) [OF assms m0(1)]
  show "map_ok m" using k(1) m0(2) by simp
  show "D - {t} \<subseteq> dom (map_of m)" using k m0(2) by auto
next
  fix p u assume "tm_capacityPools (removeFromAttached t s) = Some p" and u: "u \<in> D - {t}"
  then obtain p0 where p0: "tm_capacityPools s = Some p0" "p = tcp_remove t p0"
    by (auto simp: removeFromAttached_def)
  show "\<exists>ty. u \<in> set (pools p ty)"
    using u tcp_remove_pools stores_knowD(3) [OF assms p0(1)] unfolding p0(2) by blast
qed

lemma fold_know:
  "stores_know D s \<Longrightarrow> stores_know (D \<union> fst ` set es) (fold (addToAttached now st) es s)"
proof (induction es arbitrary: D s)
  case (Cons e es)
  from Cons.IH [OF addToAttached_know [OF Cons.prems, of "fst e" now st "snd e"]] show ?case by simp
qed simp

lemma attached_targets [simp]:
  "tm_targets (addToAttached now st tn s) = tm_targets s"
  "tm_targets (removeFromAttached t s) = tm_targets s"
  by (simp_all add: addToAttached_def removeFromAttached_def)

lemma fold_targets [simp]: "tm_targets (fold (addToAttached now st) es s) = tm_targets s"
  by (induction es arbitrary: s) simp_all

lemma loop_know: "mapped_known s \<Longrightarrow> mapped_known (fst (unmapNodeLoop n es (s, b)))"
proof (induction n es "(s, b)" arbitrary: s b rule: unmapNodeLoop.induct)
  case (2 n t n' es s erased)
  then show ?case by (simp add: mapped_known_def removeFromAttached_know)
qed simp

interpretation tm_known: invariant_system tm_step "\<lambda>_. True" mapped_known
proof
  fix s op assume s: "mapped_known s"
  then have ok: "map_ok (tm_targets s)" and k: "stores_know (dom (map_of (tm_targets s))) s"
    by (simp_all add: mapped_known_def)
  show "mapped_known (tm_step op s)"
  proof (cases op)
    case (MapTarget now t n)
    show ?thesis
    proof (cases "map_of (tm_targets s) t")
      case None
      then show ?thesis
        using ok addToAttached_know [of _ "s\<lparr>tm_targets := map_set t n (tm_targets s), tm_mappingsDirty := True\<rparr>"] k
          map_set_new_length [OF ok None, of n]
        by (simp add: MapTarget mapTarget_def Let_def mapped_known_def)
    next
      case (Some n')
      then have "length (map_set t n (tm_targets s)) = length (tm_targets s)"
        "dom (map_of (map_set t n (tm_targets s))) = dom (map_of (tm_targets s))"
        using map_set_old_length [OF ok] ok by auto
      then show ?thesis using ok k by (simp add: MapTarget mapTarget_def Let_def mapped_known_def)
    qed
  next
    case (UnmapTarget t)
    then show ?thesis
      using s ok removeFromAttached_know [of _ "s\<lparr>tm_targets := map_erase t (tm_targets s), tm_mappingsDirty := True\<rparr>"] k
      by (auto simp: unmapTarget_def mapped_known_def split: option.split)
  next
    case (UnmapByNodeID n)
    then show ?thesis using loop_know [OF s] by (simp add: unmapByNodeID_def)
  next
    case (SyncTargets now ts ns)
    let ?new = "map_fill (zip ts ns) []"
    have "stores_know {} (s\<lparr>tm_targets := ?new, tm_mappingsDirty := True\<rparr>)"
      using k by (simp add: stores_know_def)
    from fold_know [OF this, of ?new now defaultCombinedTargetState]
    have "stores_know (dom (map_of ?new)) (fold (addToAttached now defaultCombinedTargetState) ?new
        (s\<lparr>tm_targets := ?new, tm_mappingsDirty := True\<rparr>))"
      by (simp only: dom_map_of_conv_image_fst Un_empty_left)
    then show ?thesis
      using s by (cases "tm_targets s = ?new")
        (simp_all add: SyncTargets syncTargetsFromLists_def Let_def mapped_known_def map_fill_result)
  qed
qed

section \<open>Properties\<close>

text \<open>
  C36: the attached stores follow the mapper: after any calls that map, re-map, unmap and synchronise
  targets, every mapped target has a state and is assigned to a pool. If moreover every call maps
  each target to the same node (\<open>nodeOf\<close>, not 0), then the target is also in the group of its node in
  this pool. Of a target that is mapped to another node this is not claimed: the pools are not told.
\<close>

theorem attached_stores_follow:
  assumes "s = run tm_step calls (attachStateStore [] (attachCapacityPools newTargetCapacityPools newTargetMapper))"
    and "targetExists t s"
  shows "\<exists>p m ty. tm_capacityPools s = Some p \<and> tm_states s = Some m \<and> getStateInfo t m \<noteq> None \<and>
     getPoolAssignment t p = (True, ty) \<and>
     (list_all (tm_call_ok nodeOf) calls \<longrightarrow>
        getNodeID t s = nodeOf t \<and> t \<in> set (groupOf (groupedTargetPools p ty) (nodeOf t)))"
proof -
  let ?s0 = "attachStateStore [] (attachCapacityPools newTargetCapacityPools newTargetMapper)"
  have all: "list_all (\<lambda>_. True) calls" by (simp add: list_all_iff)
  have "mapped_known ?s0" "both_attached ?s0"
    by (simp_all add: mapped_known_def stores_know_def attachStateStore_def attachCapacityPools_def
        newTargetMapper_def both_attached_def)
  then have known: "mapped_known s" and "both_attached s"
    using tm_known.run_inv [OF _ all] tm_attached.run_inv [OF _ all] by (simp_all add: assms(1))
  then obtain p m where pm: "tm_capacityPools s = Some p" "tm_states s = Some m" by (auto simp: both_attached_def)
  have t: "t \<in> dom (map_of (tm_targets s))"
    using assms(2) by (simp add: targetExists_iff dom_map_of_conv_image_fst)
  then have "getStateInfo t m \<noteq> None" and "\<exists>ty. t \<in> set (pools p ty)"
    using known pm by (auto simp: mapped_known_def stores_know_def getStateInfo_def)
  moreover from this obtain ty where ty: "findPool t (pools p) = Some ty"
    by (metis findPool_None option.exhaust)
  moreover have "getNodeID t s = nodeOf t \<and> t \<in> set (groupOf (groupedTargetPools p ty) (nodeOf t))"
    if calls: "list_all (tm_call_ok nodeOf) calls"
  proof -
    have "attached_ok nodeOf s"
      using tm.run_inv [OF new_attached_ok calls] by (simp add: assms(1))
    then have m: "mapping_ok nodeOf (tm_targets s)" and a: "attached_for nodeOf (dom (map_of (tm_targets s))) s"
      by (simp_all add: attached_ok_def)
    obtain n where n: "map_of (tm_targets s) t = Some n" using t by auto
    have p: "groups_ok nodeOf p" "known nodeOf p t" using a t pm(1) by (auto simp: attached_for_def)
    have "t \<in> set (pools p ty)" using ty by (auto simp: findPool_def find_Some_iff)
    then show ?thesis
      using groups_okD(7) [OF p(1)] p(2) mapping_okD(1) [OF m n] getNodeID_Some [OF n] by (simp add: known_def)
  qed
  ultimately show ?thesis using pm by (auto simp: getPoolAssignment_def)
qed

definition example_mapper :: TargetMapper where
  "example_mapper = run tm_step
     [MapTarget \<lparr>tv_sec = 5, tv_nsec = 0\<rparr> 1 10, SyncTargets \<lparr>tv_sec = 6, tv_nsec = 0\<rparr> [1, 2, 3] [10, 20, 20],
      UnmapTarget 1]
     (attachStateStore [] (attachCapacityPools newTargetCapacityPools newTargetMapper))"

theorem attached_stores_follow_witness:
  "\<exists>p m ty. tm_capacityPools example_mapper = Some p \<and> tm_states example_mapper = Some m \<and>
     getStateInfo 3 m \<noteq> None \<and> getPoolAssignment 3 p = (True, ty) \<and>
     3 \<in> set (groupOf (groupedTargetPools p ty) 20)"
proof -
  have "targetExists 3 example_mapper" by code_simp
  from attached_stores_follow [OF example_mapper_def this, of "\<lambda>t. if t = 1 then 10 else 20"]
  show ?thesis by auto
qed

end
