(* ===== verification/NumericIDs.thy ===== *)
theory NumericIDs
  imports MapFile
begin

text \<open>
  The short numeric IDs of nodes and targets (\<open>NumericIDMapper\<close> of the management server): the
  table from string IDs to numbers, the generation of new numbers, and its file.
\<close>

section \<open>State and operations\<close>

record NumericIDMapper =
  idMap :: "(string \<times> u16) list"
  mappingsDirty :: bool

definition newNumericIDMapper :: NumericIDMapper where
  "newNumericIDMapper = \<lparr>idMap = [], mappingsDirty = False\<rparr>"

definition USHRT_MAX :: nat where
  "USHRT_MAX = 65535"

definition NUMIDMAPPER_MAX_NUMIDS :: nat where
  "NUMIDMAPPER_MAX_NUMIDS = USHRT_MAX - 1"

definition checkIDPairConflict :: "(string \<times> u16) list \<Rightarrow> string \<Rightarrow> u16 \<Rightarrow> bool" where
  "checkIDPairConflict m stringID numID =
     (case map_of m stringID of
        Some n \<Rightarrow> n \<noteq> numID
      | None \<Rightarrow> list_ex (\<lambda>(k, n). n = numID) m)"

definition retrieveNumIDFromStringID :: "(string \<times> u16) list \<Rightarrow> string \<Rightarrow> u16" where
  "retrieveNumIDFromStringID m stringID = (case map_of m stringID of Some n \<Rightarrow> n | None \<Rightarrow> 0)"

text \<open>The loop ends when the 16-bit counter overflows to 0.\<close>

function freeIDLoop :: "(string \<times> u16) list \<Rightarrow> string \<Rightarrow> u16 \<Rightarrow> u16" where
  "freeIDLoop m stringID newNumID =
     (if newNumID = 0 then 0
      else if \<not> checkIDPairConflict m stringID newNumID then newNumID
      else freeIDLoop m stringID (newNumID + 1))"
  by pat_completeness auto

termination
proof (relation "measure (\<lambda>(m, stringID, n). if n = 0 then 0 else 65536 - unat n)")
  fix m :: "(string \<times> u16) list" and stringID and n :: u16
  assume n: "n \<noteq> 0"
  have lt: "unat n < 65536" using unsigned_less [of n, where ?'a = nat] by simp
  show "((m, stringID, n + 1), (m, stringID, n)) \<in>
      measure (\<lambda>(m, stringID, n). if n = 0 then 0 else 65536 - unat n)"
  proof (cases "n + 1 = 0")
    case False
    then have "unat (n + 1) = Suc (unat n)" by (metis add.commute unatSuc)
    then show ?thesis using n lt False by simp
  qed (use n lt in simp)
qed simp

definition generateNumID :: "(string \<times> u16) list \<Rightarrow> string \<Rightarrow> u16" where
  "generateNumID m stringID =
     (let previousNumID = retrieveNumIDFromStringID m stringID
      in if previousNumID \<noteq> 0 then previousNumID
         else if length m \<ge> NUMIDMAPPER_MAX_NUMIDS then 0
         else freeIDLoop m stringID 1)"

text \<open>Gives the result and \<open>outNewNumID\<close>, if it is set.\<close>

definition mapStringID :: "string \<Rightarrow> u16 \<Rightarrow> NumericIDMapper \<Rightarrow> NumericIDMapper \<times> bool \<times> u16 option" where
  "mapStringID stringID currentNumID s =
     (let finish = (\<lambda>m res. (\<lparr>idMap = m,
            mappingsDirty = (mappingsDirty s \<or> length (idMap s) \<noteq> length m)\<rparr>, res))
      in if currentNumID \<noteq> 0
         then
           (if checkIDPairConflict (idMap s) stringID currentNumID then finish (idMap s) (False, None)
            else finish (map_set stringID currentNumID (idMap s)) (True, Some currentNumID))
         else
           (case map_of (idMap s) stringID of
              None \<Rightarrow>
                (let n = generateNumID (idMap s) stringID
                 in if n = 0 then finish (idMap s) (False, Some 0)
                    else finish (map_set stringID n (idMap s)) (True, Some n))
            | Some n \<Rightarrow> finish (idMap s) (True, Some n)))"

definition unmapStringID :: "string \<Rightarrow> NumericIDMapper \<Rightarrow> NumericIDMapper \<times> bool" where
  "unmapStringID stringID s =
     (let erased = (map_of (idMap s) stringID \<noteq> None)
      in (s\<lparr>idMap := map_erase stringID (idMap s), mappingsDirty := mappingsDirty s \<or> erased\<rparr>, erased))"

definition getNumericID :: "string \<Rightarrow> NumericIDMapper \<Rightarrow> u16" where
  "getNumericID stringID s = (case map_of (idMap s) stringID of None \<Rightarrow> 0 | Some n \<Rightarrow> n)"

definition nid_exportToStringMap :: "(string \<times> u16) list \<Rightarrow> StringMap" where
  "nid_exportToStringMap m = fold (\<lambda>(k, n). map_set k (uintToHexStr (ucast n))) m []"

definition nid_importFromStringMap :: "StringMap \<Rightarrow> (string \<times> u16) list \<Rightarrow> (string \<times> u16) list" where
  "nid_importFromStringMap im m = fold (\<lambda>(k, v). map_set k (ucast (strHexToUInt v))) im m"

definition nid_saveToFile :: "NumericIDMapper \<Rightarrow> string \<times> NumericIDMapper" where
  "nid_saveToFile s =
     (saveStringMapToFile (nid_exportToStringMap (idMap s)), s\<lparr>mappingsDirty := False\<rparr>)"

definition nid_loadFromFile :: "string option \<Rightarrow> NumericIDMapper \<Rightarrow> NumericIDMapper \<times> bool" where
  "nid_loadFromFile file s =
     (case loadStringMapFromFile file [] of
        None \<Rightarrow> (s, False)
      | Some im \<Rightarrow> (\<lparr>idMap = nid_importFromStringMap im [], mappingsDirty = True\<rparr>, True))"

section \<open>Free IDs\<close>

declare freeIDLoop.simps [simp del]

lemma word16_Suc: "n + 1 \<noteq> 0 \<Longrightarrow> unat (n + 1 :: u16) = Suc (unat n)"
  by (metis add.commute unatSuc)

lemma conflict_new: "map_of m stringID = None \<Longrightarrow> checkIDPairConflict m stringID n \<longleftrightarrow> n \<in> snd ` set m"
  by (force simp: checkIDPairConflict_def list_ex_iff)

text \<open>The loop gives the least free ID from the start on.\<close>

lemma freeIDLoop_result:
  assumes "map_of m stringID = None" "start \<noteq> 0" "start \<le> free" "free \<notin> snd ` set m"
  shows "\<exists>n. freeIDLoop m stringID start = n \<and> n \<notin> snd ` set m \<and> start \<le> n \<and>
    (\<forall>k. start \<le> k \<longrightarrow> k < n \<longrightarrow> k \<in> snd ` set m)"
  using assms(2,3)
proof (induction "unat free - unat start" arbitrary: start)
  case 0
  then have "start = free" by (simp add: word_le_nat_alt word_unat_eq_iff)
  then show ?case
    using 0(2) assms(4) by (subst freeIDLoop.simps) (auto simp: conflict_new [OF assms(1)])
next
  case (Suc d)
  show ?case
  proof (cases "start \<in> snd ` set m")
    case False
    then show ?thesis
      using Suc.prems(1) by (subst freeIDLoop.simps) (auto simp: conflict_new [OF assms(1)])
  next
    case True
    then have less: "start < free" using Suc.prems(2) assms(4) by (metis order_le_less)
    then have "start \<noteq> - 1" using word_order.extremum_strict by blast
    then have nz: "start + 1 \<noteq> 0" by (metis eq_neg_iff_add_eq_0)
    note u = word16_Suc [OF nz]
    have "start + 1 \<le> free" using less u by (simp add: word_le_nat_alt word_less_nat_alt)
    moreover have "d = unat free - unat (start + 1)" using Suc.hyps(2) u by simp
    ultimately obtain n where n: "freeIDLoop m stringID (start + 1) = n" "n \<notin> snd ` set m" "start + 1 \<le> n"
      "\<forall>k. start + 1 \<le> k \<longrightarrow> k < n \<longrightarrow> k \<in> snd ` set m"
      using Suc.hyps(1) nz by blast
    have "freeIDLoop m stringID start = n"
      using True Suc.prems(1) n(1) by (subst freeIDLoop.simps) (simp add: conflict_new [OF assms(1)])
    moreover have "start \<le> n" using n(3) u by (simp add: word_le_nat_alt)
    moreover have "k \<in> snd ` set m" if "start \<le> k" "k < n" for k
    proof (cases "k = start")
      case False
      then have "start + 1 \<le> k" using that(1) u by (simp add: word_le_nat_alt word_unat_eq_iff)
      then show ?thesis using n(4) that(2) by blast
    qed (use True in simp)
    ultimately show ?thesis using n(2) by blast
  qed
qed

definition ids_ok :: "NumericIDMapper \<Rightarrow> bool" where
  "ids_ok s \<longleftrightarrow> map_ok (idMap s) \<and> distinct (map snd (idMap s)) \<and> 0 \<notin> snd ` set (idMap s)"

text \<open>An ID is free while fewer than 65535 are used.\<close>

lemma free_ID_exists:
  assumes "length m < 65535" "0 \<notin> snd ` set m"
  shows "\<exists>free :: u16. free \<noteq> 0 \<and> free \<notin> snd ` set m"
proof (rule ccontr)
  assume "\<not> ?thesis"
  then have "UNIV - {0} \<subseteq> snd ` set m" by blast
  then have "card (UNIV - {0 :: u16}) \<le> card (snd ` set m)" by (intro card_mono) simp_all
  also have "\<dots> \<le> length m" using card_image_le [of "set m" snd] card_length [of m] by simp
  finally show False using assms(1) by (simp add: card_Diff_singleton card_word)
qed

lemma generateNumID_new:
  assumes "map_of m stringID = None" "0 \<notin> snd ` set m"
  shows "if length m < NUMIDMAPPER_MAX_NUMIDS
    then generateNumID m stringID \<noteq> 0 \<and> generateNumID m stringID \<notin> snd ` set m \<and>
      (\<forall>k. k \<noteq> 0 \<longrightarrow> k < generateNumID m stringID \<longrightarrow> k \<in> snd ` set m)
    else generateNumID m stringID = 0"
proof (cases "length m < NUMIDMAPPER_MAX_NUMIDS")
  case True
  then have "length m < 65535" by (simp add: NUMIDMAPPER_MAX_NUMIDS_def USHRT_MAX_def)
  then obtain free :: u16 where free: "free \<noteq> 0" "free \<notin> snd ` set m"
    using free_ID_exists assms(2) by blast
  have one: "1 \<le> k \<longleftrightarrow> k \<noteq> 0" for k :: u16 by (simp add: word_le_nat_alt unat_gt_0 Suc_le_eq)
  obtain n where "freeIDLoop m stringID 1 = n" "n \<notin> snd ` set m" "1 \<le> n"
    "\<forall>k. 1 \<le> k \<longrightarrow> k < n \<longrightarrow> k \<in> snd ` set m"
    using freeIDLoop_result [OF assms(1), of 1 free] free one by auto
  moreover have "generateNumID m stringID = freeIDLoop m stringID 1"
    using True assms(1) by (simp add: generateNumID_def retrieveNumIDFromStringID_def)
  ultimately show ?thesis using True unfolding one by simp
qed (use assms(1) in \<open>simp add: generateNumID_def retrieveNumIDFromStringID_def\<close>)

lemma map_set_values:
  assumes "map_ok m" "map_of m k = None"
  shows "distinct (map snd (map_set k v m)) \<longleftrightarrow> distinct (map snd m) \<and> v \<notin> snd ` set m"
    and "snd ` set (map_set k v m) = insert v (snd ` set m)"
    and "length (map_set k v m) = Suc (length m)"
  using assms by (induction k v m rule: map_set.induct) (auto simp: map_of_eq_None_iff split: if_splits)

lemma map_set_same: "map_ok m \<Longrightarrow> map_of m k = Some v \<Longrightarrow> map_set k v m = m"
  by (rule map_ok_eqI) auto


section \<open>Every number belongs to one string\<close>

lemma conflict_known: "map_of m stringID = Some n \<Longrightarrow> checkIDPairConflict m stringID k \<longleftrightarrow> n \<noteq> k"
  by (simp add: checkIDPairConflict_def)

lemma mapStringID_ok:
  assumes "ids_ok s"
  shows "ids_ok (fst (mapStringID stringID cur s))"
proof -
  have ok: "map_ok (idMap s)" "distinct (map snd (idMap s))" "0 \<notin> snd ` set (idMap s)"
    using assms by (simp_all add: ids_ok_def)
  have new: "ids_ok \<lparr>idMap = map_set stringID n (idMap s), mappingsDirty = d\<rparr>"
    if "map_of (idMap s) stringID = None" "n \<noteq> 0" "n \<notin> snd ` set (idMap s)" for n d
    using ok that map_set_values [OF ok(1) that(1), of n] by (simp add: ids_ok_def)
  show ?thesis
  proof (cases "map_of (idMap s) stringID")
    case None
    then show ?thesis
      using assms new [OF None] generateNumID_new [OF None ok(3)]
      by (auto simp: mapStringID_def Let_def conflict_new ids_ok_def split: if_splits)
  next
    case (Some n)
    then show ?thesis
      using ok by (simp add: mapStringID_def conflict_known map_set_same Let_def ids_ok_def)
  qed
qed

lemma unmapStringID_ok: "ids_ok s \<Longrightarrow> ids_ok (fst (unmapStringID stringID s))"
proof -
  assume ok: "ids_ok s"
  have "distinct (map snd m) \<Longrightarrow> distinct (map snd (map_erase k m))" for k and m :: "(string \<times> u16) list"
    using map_erase_subset by (induction k m rule: map_erase.induct) (auto, force)
  with ok show ?thesis
    using map_erase_subset [of stringID "idMap s"] by (auto simp: ids_ok_def unmapStringID_def Let_def)
qed

datatype nid_call = MapID string u16 | UnmapID string

fun nid_step :: "nid_call \<Rightarrow> NumericIDMapper \<Rightarrow> NumericIDMapper" where
  "nid_step (MapID stringID cur) s = fst (mapStringID stringID cur s)"
| "nid_step (UnmapID stringID) s = fst (unmapStringID stringID s)"

interpretation nid: invariant_system nid_step "\<lambda>_. True" ids_ok
proof
  fix s op assume "ids_ok s"
  then show "ids_ok (nid_step op s)" by (cases op) (simp_all add: mapStringID_ok unmapStringID_ok)
qed

text \<open>A mapped string keeps its number until it is unmapped.\<close>

interpretation nid_stable: invariant_system nid_step "\<lambda>op. op \<noteq> UnmapID stringID"
    "\<lambda>s. ids_ok s \<and> map_of (idMap s) stringID = Some n" for stringID n
proof
  fix s op assume ok: "ids_ok s \<and> map_of (idMap s) stringID = Some n" "op \<noteq> UnmapID stringID"
  then have m: "map_ok (idMap s)" by (simp add: ids_ok_def)
  have "map_of (idMap (nid_step op s)) stringID = Some n"
  proof (cases op)
    case (MapID sid cur)
    show ?thesis
    proof (cases "sid = stringID")
      case True
      with ok m show ?thesis
        by (simp add: MapID mapStringID_def Let_def conflict_known)
    next
      case False
      with ok m show ?thesis
        by (simp add: MapID mapStringID_def Let_def split: option.split)
    qed
  next
    case (UnmapID sid)
    with ok m show ?thesis by (simp add: unmapStringID_def Let_def)
  qed
  then show "ids_ok (nid_step op s) \<and> map_of (idMap (nid_step op s)) stringID = Some n"
    using nid.step_inv ok(1) by blast
qed


section \<open>The file\<close>

lemma nid_import_export: "map_ok m \<Longrightarrow> nid_importFromStringMap (nid_exportToStringMap m) [] = m"
  using recode_table(1) [of m id id "\<lambda>v. ucast (strHexToUInt v)" "\<lambda>n. uintToHexStr (ucast n)"]
  by (simp add: nid_importFromStringMap_def nid_exportToStringMap_def fold_as_fill
      fold_as_fill [where f = id, simplified] hex16_round_trip)

lemma nid_file_round_trip:
  assumes "map_ok (idMap s)" "\<forall>(k, n) \<in> set (idMap s). plain_key k"
  shows "nid_loadFromFile (Some (fst (nid_saveToFile s))) t = (\<lparr>idMap = idMap s, mappingsDirty = True\<rparr>, True)"
proof -
  let ?e = "nid_exportToStringMap (idMap s)"
  have "set ?e = (\<lambda>(k, n). (k, uintToHexStr (ucast n))) ` set (idMap s)"
    using recode_table(2) [OF assms(1), of id id "\<lambda>v. ucast (strHexToUInt v)" "\<lambda>n. uintToHexStr (ucast n)"]
    by (simp add: nid_exportToStringMap_def fold_as_fill [where f = id, simplified] hex16_round_trip)
  then have "\<forall>(k, v) \<in> set ?e. plain_key k \<and> plain v"
    using assms(2) by (auto simp: uintToHexStr_def hexStr_plain)
  moreover have "map_ok ?e"
    by (simp add: nid_exportToStringMap_def fold_as_fill [where f = id, simplified] map_fill_result)
  ultimately show ?thesis
    by (simp add: nid_saveToFile_def nid_loadFromFile_def load_save nid_import_export assms(1))
qed


section \<open>Properties\<close>

text \<open>
  C35: after any calls of \<open>mapStringID\<close> and \<open>unmapStringID\<close> no two strings have the same number
  and none has 0; a mapped string gets its number again, and keeps it as long as it is not
  unmapped; another string gets the least free number, or an error when 65534 numbers are in use.
\<close>

theorem numeric_ids_unique:
  assumes "s = run nid_step calls newNumericIDMapper"
  shows "distinct (map fst (idMap s)) \<and> distinct (map snd (idMap s)) \<and> 0 \<notin> snd ` set (idMap s) \<and>
    (case map_of (idMap s) stringID of
       Some n \<Rightarrow> mapStringID stringID 0 s = (s, True, Some n) \<and>
         (UnmapID stringID \<notin> set later \<longrightarrow> getNumericID stringID (run nid_step later s) = n)
     | None \<Rightarrow>
         (if length (idMap s) < 65534
          then \<exists>n. snd (mapStringID stringID 0 s) = (True, Some n) \<and> n \<noteq> 0 \<and>
            getNumericID stringID (fst (mapStringID stringID 0 s)) = n \<and> n \<notin> snd ` set (idMap s) \<and>
            (\<forall>k. k \<noteq> 0 \<longrightarrow> k < n \<longrightarrow> k \<in> snd ` set (idMap s))
          else mapStringID stringID 0 s = (s, False, Some 0)))"
proof -
  have "ids_ok newNumericIDMapper" by (simp add: ids_ok_def newNumericIDMapper_def)
  then have inv: "ids_ok s" using nid.run_inv by (simp add: assms list_all_iff)
  then have ok: "map_ok (idMap s)" "distinct (map snd (idMap s))" "0 \<notin> snd ` set (idMap s)"
    by (simp_all add: ids_ok_def)
  show ?thesis
  proof (cases "map_of (idMap s) stringID")
    case None
    note gen = generateNumID_new [OF None ok(3)]
    show ?thesis
    proof (cases "length (idMap s) < 65534")
      case True
      then have "generateNumID (idMap s) stringID \<noteq> 0 \<and>
          generateNumID (idMap s) stringID \<notin> snd ` set (idMap s) \<and>
          (\<forall>k. k \<noteq> 0 \<longrightarrow> k < generateNumID (idMap s) stringID \<longrightarrow> k \<in> snd ` set (idMap s))"
        using gen by (simp add: NUMIDMAPPER_MAX_NUMIDS_def USHRT_MAX_def)
      then show ?thesis
        using ok map_ok_distinct [OF ok(1)] None True
        by (simp add: mapStringID_def getNumericID_def Let_def)
    next
      case False
      then have "generateNumID (idMap s) stringID = 0"
        using gen by (simp add: NUMIDMAPPER_MAX_NUMIDS_def USHRT_MAX_def split: if_splits)
      then show ?thesis
        using ok map_ok_distinct [OF ok(1)] None False by (simp add: mapStringID_def Let_def)
    qed
  next
    case (Some n)
    have "getNumericID stringID (run nid_step later s) = n" if "UnmapID stringID \<notin> set later"
    proof -
      have "list_all (\<lambda>op. op \<noteq> UnmapID stringID) later" using that by (auto simp: list_all_iff)
      from nid_stable.run_inv [of s stringID n, OF _ this] Some inv show ?thesis
        by (simp add: getNumericID_def)
    qed
    with Some show ?thesis
      using ok map_ok_distinct [OF ok(1)] by (simp add: mapStringID_def Let_def)
  qed
qed

theorem numeric_ids_unique_witness:
  "getNumericID ''b'' (run nid_step [UnmapID ''a'', MapID ''c'' 0]
     (run nid_step [MapID ''a'' 0, MapID ''b'' 0] newNumericIDMapper)) = 2"
proof -
  have v: "idMap (run nid_step [MapID ''a'' 0, MapID ''b'' 0] newNumericIDMapper) = [(''a'', 1), (''b'', 2)]"
    by (simp add: newNumericIDMapper_def mapStringID_def generateNumID_def retrieveNumIDFromStringID_def
        NUMIDMAPPER_MAX_NUMIDS_def USHRT_MAX_def freeIDLoop.simps checkIDPairConflict_def Let_def)
  show ?thesis
    using numeric_ids_unique [OF refl, of "[MapID ''a'' 0, MapID ''b'' 0]" "''b''" "[UnmapID ''a'', MapID ''c'' 0]"]
    unfolding v by (simp del: run_Cons)
qed

end
