(* ===== verification/BuddyGroups.thy ===== *)
theory BuddyGroups
  imports TargetMapper NumericIDs
begin

text \<open>
  Mirror buddy groups, pairs of storage targets that hold the same data
  (\<open>MirrorBuddyGroupMapper.h/.cpp\<close>, \<open>MirrorBuddyGroupCreator::generateID\<close>): the table from group
  IDs to targets and the lookups in it. The mapper of the targets is an argument.
\<close>

section \<open>State and lookups\<close>

record MirrorBuddyGroup =
  firstTargetID :: u16
  secondTargetID :: u16

type_synonym MirrorBuddyGroupMap = "(u16 \<times> MirrorBuddyGroup) list"

datatype MirrorBuddyState = BuddyState_UNMAPPED | BuddyState_PRIMARY | BuddyState_SECONDARY

record MirrorBuddyGroupMapper =
  mirrorBuddyGroups :: MirrorBuddyGroupMap
  bg_capacityPools :: "NodeCapacityPools option"
  bg_mappingsDirty :: bool

definition newMirrorBuddyGroupMapper :: MirrorBuddyGroupMapper where
  "newMirrorBuddyGroupMapper = \<lparr>mirrorBuddyGroups = [], bg_capacityPools = None, bg_mappingsDirty = False\<rparr>"

definition bg_attachCapacityPools :: "NodeCapacityPools \<Rightarrow> MirrorBuddyGroupMapper \<Rightarrow> MirrorBuddyGroupMapper" where
  "bg_attachCapacityPools p s = s\<lparr>bg_capacityPools := Some p\<rparr>"

definition isMember :: "u16 \<Rightarrow> MirrorBuddyGroup \<Rightarrow> bool" where
  "isMember t g \<longleftrightarrow> firstTargetID g = t \<or> secondTargetID g = t"

text \<open>The loops over the groups stop at the first one that has the target.\<close>

definition findGroup :: "u16 \<Rightarrow> MirrorBuddyGroupMap \<Rightarrow> (u16 \<times> MirrorBuddyGroup) option" where
  "findGroup t m = find (\<lambda>(k, g). isMember t g) m"

definition getBuddyGroupID :: "u16 \<Rightarrow> MirrorBuddyGroupMap \<Rightarrow> u16" where
  "getBuddyGroupID t m = (case findGroup t m of None \<Rightarrow> 0 | Some (k, g) \<Rightarrow> k)"

text \<open>With the flag whether the target is the primary.\<close>

definition getBuddyGroupIDUnlocked :: "u16 \<Rightarrow> MirrorBuddyGroupMap \<Rightarrow> u16 \<times> bool" where
  "getBuddyGroupIDUnlocked t m =
     (case findGroup t m of None \<Rightarrow> (0, False) | Some (k, g) \<Rightarrow> (k, firstTargetID g = t))"

definition getBuddyTargetID :: "u16 \<Rightarrow> MirrorBuddyGroupMap \<Rightarrow> u16 \<times> bool" where
  "getBuddyTargetID t m =
     (case findGroup t m of
        None \<Rightarrow> (0, False)
      | Some (k, g) \<Rightarrow> if firstTargetID g = t then (secondTargetID g, True) else (firstTargetID g, False))"

definition getBuddyState :: "u16 \<Rightarrow> MirrorBuddyGroupMap \<Rightarrow> MirrorBuddyState" where
  "getBuddyState t m =
     (case findGroup t m of
        None \<Rightarrow> BuddyState_UNMAPPED
      | Some (k, g) \<Rightarrow> if firstTargetID g = t then BuddyState_PRIMARY else BuddyState_SECONDARY)"

definition getBuddyStateInGroup :: "u16 \<Rightarrow> u16 \<Rightarrow> MirrorBuddyGroupMap \<Rightarrow> MirrorBuddyState" where
  "getBuddyStateInGroup t k m =
     (case map_of m k of
        None \<Rightarrow> BuddyState_UNMAPPED
      | Some g \<Rightarrow>
          if t = firstTargetID g then BuddyState_PRIMARY
          else if t = secondTargetID g then BuddyState_SECONDARY else BuddyState_UNMAPPED)"

definition getMirrorBuddyGroup :: "u16 \<Rightarrow> MirrorBuddyGroupMap \<Rightarrow> MirrorBuddyGroup" where
  "getMirrorBuddyGroup k m =
     (case map_of m k of None \<Rightarrow> \<lparr>firstTargetID = 0, secondTargetID = 0\<rparr> | Some g \<Rightarrow> g)"

definition getPrimaryTargetID :: "u16 \<Rightarrow> MirrorBuddyGroupMap \<Rightarrow> u16" where
  "getPrimaryTargetID k m = firstTargetID (getMirrorBuddyGroup k m)"

definition getSecondaryTargetID :: "u16 \<Rightarrow> MirrorBuddyGroupMap \<Rightarrow> u16" where
  "getSecondaryTargetID k m = secondTargetID (getMirrorBuddyGroup k m)"

definition bg_getMappingAsLists :: "MirrorBuddyGroupMap \<Rightarrow> u16 list \<times> u16 list \<times> u16 list" where
  "bg_getMappingAsLists m =
     (map fst m, map (firstTargetID \<circ> snd) m, map (secondTargetID \<circ> snd) m)"

section \<open>New group IDs\<close>

definition MIRRORBUDDYGROUPMAPPER_MAX_GROUPIDS :: nat where
  "MIRRORBUDDYGROUPMAPPER_MAX_GROUPIDS = USHRT_MAX - 1"

definition idTaken :: "TargetMapper \<Rightarrow> u16 list \<Rightarrow> u16 \<Rightarrow> bool" where
  "idTaken tm usedGroups k \<longleftrightarrow> k \<in> set usedGroups \<or> getNodeID k tm \<noteq> 0"

function generateIDLoop :: "TargetMapper \<Rightarrow> u16 list \<Rightarrow> u16 \<Rightarrow> u16" where
  "generateIDLoop tm usedGroups newGroupID =
     (let k = newGroupID + 1
      in if k = 0 \<or> unat k > MIRRORBUDDYGROUPMAPPER_MAX_GROUPIDS then 0
         else if \<not> idTaken tm usedGroups k then k
         else generateIDLoop tm usedGroups k)"
  by pat_completeness auto

termination
  by (relation "measure (\<lambda>(tm, usedGroups, k). 65536 - unat k)")
    (auto simp: word16_Suc MIRRORBUDDYGROUPMAPPER_MAX_GROUPIDS_def USHRT_MAX_def)

definition generateID :: "TargetMapper \<Rightarrow> u16 list \<Rightarrow> u16" where
  "generateID tm usedGroups =
     (if idTaken tm usedGroups 1 then generateIDLoop tm usedGroups 1 else 1)"

section \<open>Operations\<close>

text \<open>
  \<open>mapMirrorBuddyGroup\<close> makes its checks before it takes the write lock (each lookup has the read
  lock for itself), so they are a step of their own.
\<close>

definition mapChecks :: "TargetMapper \<Rightarrow> u16 \<Rightarrow> u16 \<Rightarrow> u16 \<Rightarrow> bool \<Rightarrow> MirrorBuddyGroupMap \<Rightarrow> FhgfsOpsErr" where
  "mapChecks tm k primaryTargetID secondaryTargetID allowUpdate m =
     (if k \<noteq> 0 \<and> \<not> allowUpdate \<and> map_of m k \<noteq> None then FhgfsOpsErr_EXISTS
      else if \<not> targetExists primaryTargetID tm then FhgfsOpsErr_UNKNOWNTARGET
      else if \<not> targetExists secondaryTargetID tm then FhgfsOpsErr_UNKNOWNTARGET
      else if getBuddyGroupID primaryTargetID m > 0 \<and> getBuddyGroupID primaryTargetID m \<noteq> k
        then FhgfsOpsErr_INUSE
      else if getBuddyGroupID secondaryTargetID m > 0 \<and> getBuddyGroupID secondaryTargetID m \<noteq> k
        then FhgfsOpsErr_INUSE
      else FhgfsOpsErr_SUCCESS)"

definition mapCommit ::
    "TargetMapper \<Rightarrow> u16 \<Rightarrow> u16 \<Rightarrow> u16 \<Rightarrow> MirrorBuddyGroupMapper \<Rightarrow> MirrorBuddyGroupMapper \<times> u16" where
  "mapCommit tm k primaryTargetID secondaryTargetID s =
     (let k' = (if k = 0 then generateID tm (map fst (mirrorBuddyGroups s)) else k)
      in (s\<lparr>mirrorBuddyGroups :=
              map_set k' \<lparr>firstTargetID = primaryTargetID, secondTargetID = secondaryTargetID\<rparr> (mirrorBuddyGroups s),
            bg_capacityPools := map_option (\<lambda>p. fst (ncp_addIfNotExists k' CapacityPool_LOW p)) (bg_capacityPools s),
            bg_mappingsDirty := True\<rparr>, k'))"

definition mapMirrorBuddyGroup ::
    "TargetMapper \<Rightarrow> u16 \<Rightarrow> u16 \<Rightarrow> u16 \<Rightarrow> bool \<Rightarrow> MirrorBuddyGroupMapper \<Rightarrow>
       MirrorBuddyGroupMapper \<times> FhgfsOpsErr \<times> u16 option" where
  "mapMirrorBuddyGroup tm k primaryTargetID secondaryTargetID allowUpdate s =
     (let res = mapChecks tm k primaryTargetID secondaryTargetID allowUpdate (mirrorBuddyGroups s)
      in if res \<noteq> FhgfsOpsErr_SUCCESS then (s, res, None)
         else (let (s', k') = mapCommit tm k primaryTargetID secondaryTargetID s
               in (s', FhgfsOpsErr_SUCCESS, Some k')))"

definition unmapMirrorBuddyGroup :: "u16 \<Rightarrow> MirrorBuddyGroupMapper \<Rightarrow> MirrorBuddyGroupMapper \<times> bool" where
  "unmapMirrorBuddyGroup k s =
     (if map_of (mirrorBuddyGroups s) k \<noteq> None
      then (s\<lparr>mirrorBuddyGroups := map_erase k (mirrorBuddyGroups s), bg_mappingsDirty := True,
              bg_capacityPools := map_option (ncp_remove k) (bg_capacityPools s)\<rparr>, True)
      else (s, False))"

text \<open>The three lists have the same length.\<close>

fun groupsFromLists :: "u16 list \<Rightarrow> u16 list \<Rightarrow> u16 list \<Rightarrow> MirrorBuddyGroupMap \<Rightarrow> MirrorBuddyGroupMap" where
  "groupsFromLists (k # ks) (p # ps) (q # qs) m =
     groupsFromLists ks ps qs (map_set k \<lparr>firstTargetID = p, secondTargetID = q\<rparr> m)"
| "groupsFromLists _ _ _ m = m"

definition syncGroupsFromLists ::
    "u16 list \<Rightarrow> u16 list \<Rightarrow> u16 list \<Rightarrow> MirrorBuddyGroupMapper \<Rightarrow> MirrorBuddyGroupMapper" where
  "syncGroupsFromLists buddyGroupIDs primaryTargets secondaryTargets s =
     s\<lparr>mirrorBuddyGroups := groupsFromLists buddyGroupIDs primaryTargets secondaryTargets [],
       bg_mappingsDirty := True\<rparr>"

definition switchover :: "u16 \<Rightarrow> MirrorBuddyGroupMapper \<Rightarrow> MirrorBuddyGroupMapper" where
  "switchover k s =
     (case map_of (mirrorBuddyGroups s) k of
        None \<Rightarrow> s
      | Some g \<Rightarrow>
          s\<lparr>mirrorBuddyGroups := map_set k
              \<lparr>firstTargetID = secondTargetID g, secondTargetID = firstTargetID g\<rparr> (mirrorBuddyGroups s),
            bg_mappingsDirty := True\<rparr>)"

section \<open>The file\<close>

definition groupToStr :: "MirrorBuddyGroup \<Rightarrow> string" where
  "groupToStr g = uint16ToHexStr (firstTargetID g) @ '','' @ uint16ToHexStr (secondTargetID g)"

definition groupFromStr :: "string \<Rightarrow> MirrorBuddyGroup" where
  "groupFromStr v =
     (let es = explode v CHR '',''
      in if length es > 1
         then \<lparr>firstTargetID = ucast (strHexToUInt (es ! 0)), secondTargetID = ucast (strHexToUInt (es ! 1))\<rparr>
         else \<lparr>firstTargetID = 0, secondTargetID = 0\<rparr>)"

definition bg_exportToStringMap :: "MirrorBuddyGroupMap \<Rightarrow> StringMap" where
  "bg_exportToStringMap m = fold (\<lambda>(k, g). map_set (uintToHexStr (ucast k)) (groupToStr g)) m []"

definition bg_importFromStringMap :: "StringMap \<Rightarrow> MirrorBuddyGroupMap \<Rightarrow> MirrorBuddyGroupMap" where
  "bg_importFromStringMap im m = fold (\<lambda>(k, v). map_set (ucast (strHexToUInt k)) (groupFromStr v)) im m"

definition bg_saveToFile :: "MirrorBuddyGroupMapper \<Rightarrow> string \<times> MirrorBuddyGroupMapper" where
  "bg_saveToFile s =
     (saveStringMapToFile (bg_exportToStringMap (mirrorBuddyGroups s)), s\<lparr>bg_mappingsDirty := False\<rparr>)"

definition bg_loadFromFile :: "string option \<Rightarrow> MirrorBuddyGroupMapper \<Rightarrow> MirrorBuddyGroupMapper \<times> bool" where
  "bg_loadFromFile file s =
     (case loadStringMapFromFile file [] of
        None \<Rightarrow> (s, False)
      | Some im \<Rightarrow>
          (s\<lparr>mirrorBuddyGroups := bg_importFromStringMap im [], bg_mappingsDirty := True\<rparr>, True))"


section \<open>Facts about lookups\<close>

text \<open>Every target is in one group at most, and no group has the ID 0.\<close>

definition groups_valid :: "MirrorBuddyGroupMap \<Rightarrow> bool" where
  "groups_valid m \<longleftrightarrow> map_ok m \<and> 0 \<notin> fst ` set m \<and>
     (\<forall>t k g k' g'. (k, g) \<in> set m \<longrightarrow> (k', g') \<in> set m \<longrightarrow> isMember t g \<longrightarrow> isMember t g' \<longrightarrow> k = k')"

lemma findGroup_Some: "findGroup t m = Some (k, g) \<Longrightarrow> (k, g) \<in> set m \<and> isMember t g"
  unfolding findGroup_def find_Some_iff by (auto dest: nth_mem)

lemma groups_validD:
  assumes "groups_valid m" "(k, g) \<in> set m" "isMember t g"
  shows "findGroup t m = Some (k, g)" "k \<noteq> 0"
proof -
  have ok: "map_ok m" using assms(1) by (simp add: groups_valid_def)
  have "k' = k \<and> g' = g" if "(k', g') \<in> set m" "isMember t g'" for k' g'
  proof -
    have "k' = k" using assms that unfolding groups_valid_def by blast
    moreover from this have "map_of m k = Some g'" "map_of m k = Some g"
      using that(1) assms(2) by (simp_all add: map_of_Some_iff [OF ok])
    ultimately show ?thesis by simp
  qed
  moreover obtain e where e: "findGroup t m = Some e"
    using assms(2,3) by (cases "findGroup t m") (auto simp: findGroup_def find_None_iff)
  moreover have "(fst e, snd e) \<in> set m \<and> isMember t (snd e)"
    using findGroup_Some [of t m "fst e" "snd e"] e by simp
  ultimately show "findGroup t m = Some (k, g)" by (cases e) auto
  show "k \<noteq> 0" using assms(1,2) by (force simp: groups_valid_def)
qed

lemma findGroup_None: "findGroup t m = None \<longleftrightarrow> (\<forall>(k, g) \<in> set m. \<not> isMember t g)"
  by (auto simp: findGroup_def find_None_iff)

text \<open>A target that the checks let pass is in no other group.\<close>

lemma not_in_other_group:
  assumes "groups_valid m" "\<not> (getBuddyGroupID t m > 0 \<and> getBuddyGroupID t m \<noteq> k)"
    and "(k', g) \<in> set m" "isMember t g"
  shows "k' = k"
proof -
  have "findGroup t m = Some (k', g)" "k' \<noteq> 0" using groups_validD [OF assms(1,3,4)] by simp_all
  then show ?thesis using assms(2) by (auto simp: getBuddyGroupID_def word_gt_0)
qed

lemma groups_valid_set:
  assumes "groups_valid m" "k \<noteq> 0"
    and "\<And>t k' g'. isMember t g \<Longrightarrow> (k', g') \<in> set m \<Longrightarrow> isMember t g' \<Longrightarrow> k' = k"
  shows "groups_valid (map_set k g m)"
proof -
  have ok: "map_ok m" using assms(1) by (simp add: groups_valid_def)
  have entry: "(k', g') \<in> set (map_set k g m) \<longleftrightarrow> (if k' = k then g' = g else (k', g') \<in> set m)" for k' g'
    using map_of_Some_iff [OF map_set_ok [OF ok, of k g], of k' g'] map_of_Some_iff [OF ok, of k' g'] ok
    by auto
  have "k1 = k2" if "(k1, g1) \<in> set (map_set k g m)" "(k2, g2) \<in> set (map_set k g m)"
    "isMember t g1" "isMember t g2" for k1 g1 k2 g2 t
  proof -
    have old: "k1 = k2" if "(k1, g1) \<in> set m" "(k2, g2) \<in> set m"
      using assms(1) that \<open>isMember t g1\<close> \<open>isMember t g2\<close> unfolding groups_valid_def by blast
    show ?thesis
      using that(1,2) old assms(3) \<open>isMember t g1\<close> \<open>isMember t g2\<close>
      unfolding entry by (auto split: if_splits)
  qed
  moreover have "0 \<notin> fst ` set (map_set k g m)" using assms(1,2) by (simp add: groups_valid_def)
  ultimately show ?thesis using ok unfolding groups_valid_def by auto
qed

lemma groups_valid_erase: "groups_valid m \<Longrightarrow> groups_valid (map_erase k m)"
  using map_erase_subset [of k m] unfolding groups_valid_def by (auto simp: subset_iff) blast+

section \<open>Facts about new IDs\<close>

declare generateIDLoop.simps [simp del]

lemma generateIDLoop_result:
  assumes "start < free" "unat free \<le> MIRRORBUDDYGROUPMAPPER_MAX_GROUPIDS" "\<not> idTaken tm used free"
  shows "\<exists>k. generateIDLoop tm used start = k \<and> k \<noteq> 0 \<and> \<not> idTaken tm used k"
  using assms(1)
proof (induction "unat free - unat start" arbitrary: start)
  case 0
  then show ?case by (simp add: word_less_nat_alt)
next
  case (Suc d)
  have "start \<noteq> - 1" using Suc.prems word_order.extremum_strict by blast
  then have nz: "start + 1 \<noteq> 0" by (metis eq_neg_iff_add_eq_0)
  note u = word16_Suc [OF nz]
  have "start + 1 \<le> free" using Suc.prems u by (simp add: word_le_nat_alt word_less_nat_alt)
  then have max: "unat (start + 1) \<le> MIRRORBUDDYGROUPMAPPER_MAX_GROUPIDS"
    using assms(2) by (simp add: word_le_nat_alt)
  show ?case
  proof (cases "idTaken tm used (start + 1)")
    case False
    then show ?thesis using nz max by (subst generateIDLoop.simps) (simp add: Let_def)
  next
    case True
    then have "start + 1 < free" using \<open>start + 1 \<le> free\<close> assms(3) by (metis order_le_less)
    moreover have "d = unat free - unat (start + 1)" using Suc.hyps(2) u by simp
    ultimately have "\<exists>k. generateIDLoop tm used (start + 1) = k \<and> k \<noteq> 0 \<and> \<not> idTaken tm used k"
      using Suc.hyps(1) by blast
    then show ?thesis using True nz max by (subst generateIDLoop.simps) (simp add: Let_def)
  qed
qed

text \<open>A free ID is found while the groups and targets are fewer than the IDs.\<close>

lemma generateID_result:
  assumes "length used + length (tm_targets tm) < MIRRORBUDDYGROUPMAPPER_MAX_GROUPIDS"
  shows "generateID tm used \<noteq> 0 \<and> \<not> idTaken tm used (generateID tm used)"
proof (cases "idTaken tm used 1")
  case True
  let ?taken = "set used \<union> fst ` set (tm_targets tm)"
  have "card ?taken \<le> length used + length (tm_targets tm)"
    using card_Un_le [of "set used" "fst ` set (tm_targets tm)"] card_length [of used]
      card_image_le [of "set (tm_targets tm)" fst] card_length [of "tm_targets tm"] by simp
  moreover have "card {1 .. 65534 :: u16} = 65534"
  proof -
    have "{1 .. 65534 :: u16} = word_of_nat ` {1 .. 65534}"
    proof (intro equalityI subsetI)
      fix x :: u16 assume "x \<in> {1 .. 65534}"
      then have "unat x \<in> {1 .. 65534}" by (simp add: word_le_nat_alt)
      then show "x \<in> word_of_nat ` {1 .. 65534}" by (intro image_eqI [of _ _ "unat x"]) simp_all
    qed (auto simp: word_le_nat_alt unsigned_of_nat take_bit_nat_eq_self)
    moreover have "inj_on (word_of_nat :: nat \<Rightarrow> u16) {1 .. 65534}"
      by (rule inj_onI) (simp add: word_of_nat_eq_iff take_bit_nat_eq_self)
    ultimately show ?thesis by (simp add: card_image)
  qed
  ultimately have "\<not> {1 .. 65534 :: u16} \<subseteq> ?taken"
    using assms card_mono [of ?taken "{1 .. 65534 :: u16}"]
    by (auto simp: MIRRORBUDDYGROUPMAPPER_MAX_GROUPIDS_def USHRT_MAX_def)
  then obtain free :: u16 where "free \<in> {1 .. 65534}" and free': "free \<notin> ?taken" by blast
  then have free: "1 \<le> free" "free \<le> 65534" by simp_all
  have "map_of (tm_targets tm) free = None" using free' by (simp add: map_of_eq_None_iff)
  then have not: "\<not> idTaken tm used free" using free' by (simp add: idTaken_def getNodeID_def)
  then have "1 < free" using True free(1) by (metis order_le_less)
  moreover have "unat free \<le> MIRRORBUDDYGROUPMAPPER_MAX_GROUPIDS"
    using free(2) by (simp add: word_le_nat_alt MIRRORBUDDYGROUPMAPPER_MAX_GROUPIDS_def USHRT_MAX_def)
  ultimately show ?thesis using generateIDLoop_result [OF _ _ not, of 1] True by (auto simp: generateID_def)
qed (simp add: generateID_def)


section \<open>Sequences of calls\<close>

datatype bg_call =
    MapGroup u16 u16 u16 bool
  | UnmapGroup u16
  | Switchover u16
  | SyncGroups "u16 list" "u16 list" "u16 list"

fun bg_step :: "TargetMapper \<Rightarrow> bg_call \<Rightarrow> MirrorBuddyGroupMapper \<Rightarrow> MirrorBuddyGroupMapper" where
  "bg_step tm (MapGroup k p q upd) s = fst (mapMirrorBuddyGroup tm k p q upd s)"
| "bg_step tm (UnmapGroup k) s = fst (unmapMirrorBuddyGroup k s)"
| "bg_step tm (Switchover k) s = switchover k s"
| "bg_step tm (SyncGroups ks ps qs) s = syncGroupsFromLists ks ps qs s"

text \<open>Lists that make a valid table.\<close>

fun bg_call_ok :: "bg_call \<Rightarrow> bool" where
  "bg_call_ok (SyncGroups ks ps qs) \<longleftrightarrow> groups_valid (groupsFromLists ks ps qs [])"
| "bg_call_ok _ \<longleftrightarrow> True"

fun bg_call_size :: "bg_call \<Rightarrow> nat" where
  "bg_call_size (MapGroup k p q upd) = 1"
| "bg_call_size (SyncGroups ks ps qs) = length ks"
| "bg_call_size _ = 0"

lemma groupsFromLists_length: "length (groupsFromLists ks ps qs m) \<le> length ks + length m"
proof (induction ks ps qs m rule: groupsFromLists.induct)
  case (1 k ks p ps q qs m)
  then show ?case using map_set_length [of k "\<lparr>firstTargetID = p, secondTargetID = q\<rparr>" m] by simp
qed simp_all

lemma switchover_valid:
  assumes "groups_valid (mirrorBuddyGroups s)"
  shows "groups_valid (mirrorBuddyGroups (switchover k s))"
proof (cases "map_of (mirrorBuddyGroups s) k")
  case (Some g)
  let ?g = "\<lparr>firstTargetID = secondTargetID g, secondTargetID = firstTargetID g\<rparr>"
  have g: "(k, g) \<in> set (mirrorBuddyGroups s)" using Some by (rule map_of_SomeD)
  have same: "isMember t ?g \<longleftrightarrow> isMember t g" for t by (auto simp: isMember_def)
  have "groups_valid (map_set k ?g (mirrorBuddyGroups s))"
  proof (rule groups_valid_set [OF assms])
    show "k \<noteq> 0" using assms g by (force simp: groups_valid_def)
    show "k' = k" if "isMember t ?g" "(k', g') \<in> set (mirrorBuddyGroups s)" "isMember t g'" for t k' g'
      using that assms g unfolding groups_valid_def same by blast
  qed
  then show ?thesis using Some by (simp add: switchover_def)
qed (use assms in \<open>simp add: switchover_def\<close>)

lemma mapMirrorBuddyGroup_valid:
  assumes "groups_valid (mirrorBuddyGroups s)"
    and "length (mirrorBuddyGroups s) + length (tm_targets tm) < MIRRORBUDDYGROUPMAPPER_MAX_GROUPIDS"
  shows "groups_valid (mirrorBuddyGroups (fst (mapMirrorBuddyGroup tm k p q upd s)))"
proof (cases "mapChecks tm k p q upd (mirrorBuddyGroups s) = FhgfsOpsErr_SUCCESS")
  case True
  let ?m = "mirrorBuddyGroups s"
  define k' where "k' = (if k = 0 then generateID tm (map fst ?m) else k)"
  have k': "k' \<noteq> 0" using generateID_result [of "map fst ?m" tm] assms(2) by (simp add: k'_def)
  have "\<not> (getBuddyGroupID t ?m > 0 \<and> getBuddyGroupID t ?m \<noteq> k)" if "t = p \<or> t = q" for t
    using True that by (auto simp: mapChecks_def split: if_splits)
  then have same: "i = k" if "t = p \<or> t = q" "(i, g) \<in> set ?m" "isMember t g" for t i g
    using not_in_other_group [OF assms(1)] that by blast
  have nz: "i \<noteq> 0" if "(i, g) \<in> set ?m" for i g using assms(1) that by (force simp: groups_valid_def)
  have "groups_valid (map_set k' \<lparr>firstTargetID = p, secondTargetID = q\<rparr> ?m)"
  proof (rule groups_valid_set [OF assms(1) k'])
    fix t i g
    assume "isMember t \<lparr>firstTargetID = p, secondTargetID = q\<rparr>" "(i, g) \<in> set ?m" "isMember t g"
    then have "i = k" "i \<noteq> 0" using same nz by (auto simp: isMember_def)
    then show "i = k'" by (simp add: k'_def)
  qed
  with True show ?thesis by (simp add: mapMirrorBuddyGroup_def mapCommit_def k'_def Let_def)
qed (use assms in \<open>simp add: mapMirrorBuddyGroup_def\<close>)

lemma bg_step_valid:
  assumes "groups_valid (mirrorBuddyGroups s)" "bg_call_ok c"
    and "length (mirrorBuddyGroups s) + length (tm_targets tm) < MIRRORBUDDYGROUPMAPPER_MAX_GROUPIDS"
  shows "groups_valid (mirrorBuddyGroups (bg_step tm c s))"
    and "length (mirrorBuddyGroups (bg_step tm c s)) \<le> length (mirrorBuddyGroups s) + bg_call_size c"
proof -
  show "groups_valid (mirrorBuddyGroups (bg_step tm c s))"
    using assms mapMirrorBuddyGroup_valid switchover_valid groups_valid_erase
    by (cases c) (simp_all add: unmapMirrorBuddyGroup_def syncGroupsFromLists_def)
  have "length (mirrorBuddyGroups (switchover k s)) = length (mirrorBuddyGroups s)" for k
    using assms(1) by (simp add: switchover_def groups_valid_def map_set_old_length split: option.split)
  then show "length (mirrorBuddyGroups (bg_step tm c s)) \<le> length (mirrorBuddyGroups s) + bg_call_size c"
    using map_set_length map_erase_length groupsFromLists_length [of _ _ _ "[]"]
    by (cases c) (auto simp: mapMirrorBuddyGroup_def mapCommit_def unmapMirrorBuddyGroup_def
        syncGroupsFromLists_def Let_def intro: trans_le_add2)
qed

lemma bg_run_valid:
  assumes "groups_valid (mirrorBuddyGroups s)" "list_all bg_call_ok calls"
    and "length (mirrorBuddyGroups s) + sum_list (map bg_call_size calls) + length (tm_targets tm)
      < MIRRORBUDDYGROUPMAPPER_MAX_GROUPIDS"
  shows "groups_valid (mirrorBuddyGroups (run (bg_step tm) calls s))"
  using assms
proof (induction calls arbitrary: s)
  case (Cons c calls)
  from Cons.prems have c: "bg_call_ok c"
    "length (mirrorBuddyGroups s) + length (tm_targets tm) < MIRRORBUDDYGROUPMAPPER_MAX_GROUPIDS" by simp_all
  from Cons.IH [OF bg_step_valid(1) [OF Cons.prems(1) c]] bg_step_valid(2) [OF Cons.prems(1) c] Cons.prems(2,3)
  show ?case by simp
qed simp


section \<open>Saving and loading the groups\<close>

lemma explodeLoop_word:
  "d \<notin> set w \<Longrightarrow> explodeLoop d False cur (w @ d # rest) =
     (if cur @ w = [] then [] else [cur @ w]) @ explodeLoop d False [] rest"
  "d \<notin> set w \<Longrightarrow> explodeLoop d False cur w = (if cur @ w = [] then [] else [cur @ w])"
  by (induction w arbitrary: cur) (auto simp: Let_def)

lemma explode_pair:
  assumes "d \<notin> set a" "d \<notin> set b" "a \<noteq> []" "b \<noteq> []"
  shows "explode (a @ d # b) d = [a, b]"
proof -
  have "hd (a @ d # b) \<noteq> d" using assms(1,3) by (cases a) auto
  then show ?thesis
    using explodeLoop_word(1) [OF assms(1), of "[]" b] explodeLoop_word(2) [OF assms(2), of "[]"] assms(3,4)
    by (simp add: explode_def explodeEx_def)
qed

lemma group_round_trip: "groupFromStr (groupToStr g) = g"
proof -
  have "CHR '','' \<notin> set (uint16ToHexStr t)" "uint16ToHexStr t \<noteq> []" for t
    using hexStr_no [OF hexVal_special(3)] by (simp_all add: uint16ToHexStr_def)
  then have "explode (groupToStr g) CHR '','' =
      [uint16ToHexStr (firstTargetID g), uint16ToHexStr (secondTargetID g)]"
    by (simp add: groupToStr_def explode_pair)
  then show ?thesis by (simp add: groupFromStr_def Let_def uint16ToHexStr_round_trip)
qed

lemma group_plain: "plain (groupToStr g)"
proof -
  have no: "c \<notin> set (groupToStr g)" if "hexVal c = None" "c \<noteq> CHR '',''" for c
    using hexStr_no [OF that(1)] that(2) by (simp add: groupToStr_def uint16ToHexStr_def)
  have blank: "\<not> isBlank c" if "c \<in> set (hexStr n)" for c n
    using hexStr_chars [OF that] hexVal_special(9) [of c] by (auto simp: isSpace_def)
  have "hd (groupToStr g) \<in> set (hexStr (unat (firstTargetID g)))"
    "last (groupToStr g) \<in> set (hexStr (unat (secondTargetID g)))"
    by (simp_all add: groupToStr_def uint16ToHexStr_def)
  then have "trim (groupToStr g) = groupToStr g" using blank by (auto simp: trim_plain_iff)
  then show ?thesis using no [OF hexVal_special(4)] by (simp add: plain_def)
qed

lemma bg_file_round_trip:
  assumes "map_ok (mirrorBuddyGroups s)"
  shows "mirrorBuddyGroups (fst (bg_loadFromFile (Some (fst (bg_saveToFile s))) t)) = mirrorBuddyGroups s"
proof -
  let ?e = "bg_exportToStringMap (mirrorBuddyGroups s)"
  note recode = recode_table [OF assms, where ek = "\<lambda>k. uintToHexStr (ucast k)" and ev = groupToStr
      and dk = "\<lambda>v. ucast (strHexToUInt v)" and dv = groupFromStr, OF hex16_round_trip group_round_trip]
  have "set ?e = (\<lambda>(k, g). (uintToHexStr (ucast k), groupToStr g)) ` set (mirrorBuddyGroups s)"
    unfolding bg_exportToStringMap_def fold_as_fill by (rule recode(2))
  then have "\<forall>(k, v) \<in> set ?e. plain_key k \<and> plain v"
    by (auto simp: uintToHexStr_def hexStr_plain group_plain)
  moreover have "map_ok ?e" by (simp add: bg_exportToStringMap_def fold_as_fill map_fill_result)
  moreover have "bg_importFromStringMap ?e [] = mirrorBuddyGroups s"
    unfolding bg_importFromStringMap_def bg_exportToStringMap_def fold_as_fill by (rule recode(1))
  ultimately show ?thesis
    by (simp add: bg_saveToFile_def bg_loadFromFile_def load_save)
qed

section \<open>Lists of the managing server\<close>

text \<open>The managing server only changes its groups itself; the others get its table.\<close>

fun own_call :: "bg_call \<Rightarrow> bool" where
  "own_call (SyncGroups ks ps qs) \<longleftrightarrow> False"
| "own_call _ \<longleftrightarrow> True"

definition few_groups :: "TargetMapper \<Rightarrow> bg_call list \<Rightarrow> bool" where
  "few_groups tm calls \<longleftrightarrow>
     sum_list (map bg_call_size calls) + length (tm_targets tm) < MIRRORBUDDYGROUPMAPPER_MAX_GROUPIDS"

fun synced_call :: "bg_call \<Rightarrow> bool" where
  "synced_call (SyncGroups ks ps qs) \<longleftrightarrow>
     (\<exists>tm calls. list_all own_call calls \<and> few_groups tm calls \<and>
        (ks, ps, qs) = bg_getMappingAsLists
          (mirrorBuddyGroups (run (bg_step tm) calls newMirrorBuddyGroupMapper)))"
| "synced_call _ \<longleftrightarrow> True"

lemma groups_from_table:
  "groupsFromLists (map fst m) (map (firstTargetID \<circ> snd) m) (map (secondTargetID \<circ> snd) m) m0 = map_fill m m0"
proof (induction m arbitrary: m0)
  case (Cons e m)
  obtain k p q where "e = (k, \<lparr>firstTargetID = p, secondTargetID = q\<rparr>)"
    by (metis MirrorBuddyGroup.cases surj_pair)
  with Cons show ?case by (simp add: map_fill_def)
qed (simp add: map_fill_def)

lemma few_groups_valid:
  assumes "list_all bg_call_ok calls" "few_groups tm calls"
  shows "groups_valid (mirrorBuddyGroups (run (bg_step tm) calls newMirrorBuddyGroupMapper))"
proof -
  have "groups_valid (mirrorBuddyGroups newMirrorBuddyGroupMapper)"
    by (simp add: newMirrorBuddyGroupMapper_def groups_valid_def)
  then show ?thesis
    using bg_run_valid [of newMirrorBuddyGroupMapper calls tm] assms
    by (simp add: few_groups_def newMirrorBuddyGroupMapper_def)
qed

lemma synced_call_ok: "synced_call c \<Longrightarrow> bg_call_ok c"
proof (cases c)
  case (SyncGroups ks ps qs)
  assume "synced_call c"
  then obtain tm calls where own: "list_all own_call calls" "few_groups tm calls"
    and lists: "(ks, ps, qs) = bg_getMappingAsLists
      (mirrorBuddyGroups (run (bg_step tm) calls newMirrorBuddyGroupMapper))"
    using SyncGroups by auto
  have "own_call d \<Longrightarrow> bg_call_ok d" for d by (cases d) simp_all
  then have "list_all bg_call_ok calls" using own(1) by (auto simp: list_all_iff)
  from few_groups_valid [OF this own(2)]
  have valid: "groups_valid (mirrorBuddyGroups (run (bg_step tm) calls newMirrorBuddyGroupMapper))" .
  then have "map_ok (mirrorBuddyGroups (run (bg_step tm) calls newMirrorBuddyGroupMapper))"
    by (simp add: groups_valid_def)
  with lists have "groupsFromLists ks ps qs [] =
      mirrorBuddyGroups (run (bg_step tm) calls newMirrorBuddyGroupMapper)"
    by (simp add: bg_getMappingAsLists_def groups_from_table map_fill_self)
  with valid show ?thesis using SyncGroups by simp
qed simp_all

section \<open>Properties\<close>

text \<open>
  C37: one server maps, unmaps and switches groups, another one does so or takes over the lists of
  the first (\<open>synced_call\<close>), one call after the other. Then, as long as the groups mapped or taken over
  and the known targets are together fewer than the IDs there are (\<open>few_groups\<close>), every group of the table is found under both of its targets, with the right roles,
  and the buddy of each target is the other one; so no target is in two groups. Lists that are not
  the table of such a server are taken over without a check, so nothing is claimed of them; and
  concurrent calls of \<open>mapMirrorBuddyGroup\<close> can put a target into two groups
  (\<open>map_group_race\<close>).
\<close>

theorem buddy_lookups_agree:
  assumes "list_all synced_call calls"
    and "few_groups tm calls"
    and "m = mirrorBuddyGroups (run (bg_step tm) calls newMirrorBuddyGroupMapper)"
    and "map_of m k = Some \<lparr>firstTargetID = p, secondTargetID = q\<rparr>"
  shows "k \<noteq> 0 \<and> getBuddyGroupIDUnlocked p m = (k, True) \<and> getBuddyGroupIDUnlocked q m = (k, p = q) \<and>
    getBuddyTargetID p m = (q, True) \<and> getBuddyTargetID q m = (p, p = q) \<and>
    getBuddyState p m = BuddyState_PRIMARY \<and> (p \<noteq> q \<longrightarrow> getBuddyState q m = BuddyState_SECONDARY)"
proof -
  let ?g = "\<lparr>firstTargetID = p, secondTargetID = q\<rparr>"
  have "list_all bg_call_ok calls" using assms(1) synced_call_ok by (auto simp: list_all_iff)
  from few_groups_valid [OF this assms(2)] have valid: "groups_valid m" by (simp add: assms(3))
  have mem: "(k, ?g) \<in> set m" using assms(4) by (rule map_of_SomeD)
  have "isMember p ?g" "isMember q ?g" by (simp_all add: isMember_def)
  with groups_validD [OF valid mem] show ?thesis
    by (auto simp: getBuddyGroupIDUnlocked_def getBuddyTargetID_def getBuddyState_def)
qed

definition four_targets :: TargetMapper where
  "four_targets = newTargetMapper\<lparr>tm_targets := [(1, 10), (2, 10), (3, 20), (4, 20)]\<rparr>"

lemmas group_evaluation =
  four_targets_def newTargetMapper_def newMirrorBuddyGroupMapper_def mapMirrorBuddyGroup_def
  mapChecks_def mapCommit_def targetExists_def getBuddyGroupID_def findGroup_def generateID_def
  generateIDLoop.simps idTaken_def getNodeID_def isMember_def switchover_def syncGroupsFromLists_def
  MIRRORBUDDYGROUPMAPPER_MAX_GROUPIDS_def USHRT_MAX_def Let_def

theorem buddy_lookups_agree_witness:
  "getBuddyTargetID 3 (mirrorBuddyGroups (run (bg_step four_targets)
     [SyncGroups [5] [1] [3], MapGroup 9 2 4 False, Switchover 5] newMirrorBuddyGroupMapper)) = (1, True)"
proof -
  let ?calls = "[SyncGroups [5] [1] [3], MapGroup 9 2 4 False, Switchover 5]"
  define m where "m = mirrorBuddyGroups (run (bg_step four_targets) ?calls newMirrorBuddyGroupMapper)"
  have m: "map_of m 5 = Some \<lparr>firstTargetID = 3, secondTargetID = 1\<rparr>"
    by (simp add: m_def group_evaluation)
  have "([5], [1], [3]) = bg_getMappingAsLists (mirrorBuddyGroups
      (run (bg_step four_targets) [MapGroup 0 1 3 False] newMirrorBuddyGroupMapper))"
    by (simp add: group_evaluation bg_getMappingAsLists_def)
  moreover have "few_groups four_targets [MapGroup 0 1 3 False]" and few: "few_groups four_targets ?calls"
    by (simp_all add: few_groups_def four_targets_def MIRRORBUDDYGROUPMAPPER_MAX_GROUPIDS_def USHRT_MAX_def)
  ultimately have "list_all synced_call ?calls"
    by (auto intro!: exI [of _ four_targets] exI [of _ "[MapGroup 0 1 3 False]"])
  from buddy_lookups_agree [OF this few m_def m] show ?thesis unfolding m_def by blast
qed

text \<open>
  The checks of two concurrent calls can both succeed before one of them takes the write lock: the
  target 1 gets into the groups 5 and 6.
\<close>

lemma map_group_race:
  defines "s \<equiv> newMirrorBuddyGroupMapper"
  defines "s1 \<equiv> fst (mapCommit four_targets 0 1 3 s)"
  shows "mapChecks four_targets 0 1 3 False (mirrorBuddyGroups s) = FhgfsOpsErr_SUCCESS"
    and "mapChecks four_targets 0 1 4 False (mirrorBuddyGroups s) = FhgfsOpsErr_SUCCESS"
    and "mirrorBuddyGroups (fst (mapCommit four_targets 0 1 4 s1)) =
      [(5, \<lparr>firstTargetID = 1, secondTargetID = 3\<rparr>), (6, \<lparr>firstTargetID = 1, secondTargetID = 4\<rparr>)]"
  by (simp_all add: s1_def s_def four_targets_def newTargetMapper_def newMirrorBuddyGroupMapper_def
      mapChecks_def mapCommit_def targetExists_def getBuddyGroupID_def findGroup_def generateID_def
      generateIDLoop.simps idTaken_def getNodeID_def MIRRORBUDDYGROUPMAPPER_MAX_GROUPIDS_def
      USHRT_MAX_def Let_def)

end
