(* ===== verification/BuddyCreator.thy ===== *)
theory BuddyCreator
  imports BuddyGroups
begin

text \<open>
  The automatic creation of mirror buddy groups (\<open>MirrorBuddyGroupCreator.cpp\<close>): targets without a
  group are taken in turn from the servers with the most targets left, paired with a target of
  another server, and the pairs are registered at the management server. The store of the storage
  nodes is the list of their numeric IDs in its order. The free space of a target and the
  connection to the management server are arguments.
\<close>

section \<open>Picking targets\<close>

fun nextTargetLoop :: "TargetMapper \<Rightarrow> u16 \<Rightarrow> u16 list \<Rightarrow> nat \<Rightarrow> u16 \<Rightarrow> u16" where
  "nextTargetLoop tm ignore [] maxNumTargets retVal = retVal"
| "nextTargetLoop tm ignore (n # ns) maxNumTargets retVal =
     (if n = ignore then nextTargetLoop tm ignore ns maxNumTargets retVal
      else
        (let targetList = getTargetsByNode n tm
         in if length targetList > maxNumTargets
            then nextTargetLoop tm ignore ns (length targetList) (hd targetList)
            else nextTargetLoop tm ignore ns maxNumTargets retVal))"

definition findNextTarget :: "u16 list \<Rightarrow> TargetMapper \<Rightarrow> u16 \<Rightarrow> TargetMapper \<times> u16" where
  "findNextTarget nodes tm nodeNumIdToIgnore =
     (let t = nextTargetLoop tm nodeNumIdToIgnore nodes 0 0 in (fst (unmapTarget t tm), t))"

definition selectPrimaryTarget ::
    "TargetMapper \<Rightarrow> (u16 \<Rightarrow> nat) \<Rightarrow> u16 \<Rightarrow> u16 \<Rightarrow> (u16 \<Rightarrow> nat) \<times> u16 \<times> u16" where
  "selectPrimaryTarget sys primaryUsed p q =
     (let np = getNodeID p sys; nq = getNodeID q sys
      in if primaryUsed np > primaryUsed nq
         then (primaryUsed(nq := primaryUsed nq + 1), q, p)
         else (primaryUsed(np := primaryUsed np + 1), p, q))"

text \<open>One round of the loop of \<open>generateMirrorBuddyGroups\<close>; the flag is set if both targets are on one server.\<close>

definition pickPair ::
    "u16 list \<Rightarrow> TargetMapper \<Rightarrow> TargetMapper \<Rightarrow> (u16 \<Rightarrow> nat) \<Rightarrow>
       TargetMapper \<times> ((u16 \<Rightarrow> nat) \<times> u16 \<times> u16 \<times> bool) option" where
  "pickPair nodes sys tm primaryUsed =
     (let (tm1, p) = findNextTarget nodes tm 0;
          (tm2, q) = findNextTarget nodes tm1 (getNodeID p sys)
      in if q \<noteq> 0
         then (let (primaryUsed', p', q') = selectPrimaryTarget sys primaryUsed p q
               in (tm2, Some (primaryUsed', p', q', False)))
         else
           (let (tm3, q2) = findNextTarget nodes tm2 0
            in if q2 = 0 then (tm3, None) else (tm3, Some (primaryUsed, p, q2, True))))"

lemma nextTargetLoop_cases:
  "nextTargetLoop tm ign ns mx r = r \<or>
     (\<exists>n \<in> set ns. n \<noteq> ign \<and> getTargetsByNode n tm \<noteq> [] \<and> nextTargetLoop tm ign ns mx r = hd (getTargetsByNode n tm))"
proof (induction tm ign ns mx r rule: nextTargetLoop.induct)
  case (2 tm ign n ns mx r)
  show ?case
  proof (cases "n = ign \<or> \<not> length (getTargetsByNode n tm) > mx")
    case True
    with 2 show ?thesis by (auto simp: Let_def)
  next
    case False
    then have "getTargetsByNode n tm \<noteq> []" by auto
    with 2(2) False show ?thesis by (auto simp: Let_def)
  qed
qed simp

lemma getTargetsByNode_mem: "t \<in> set (getTargetsByNode n tm) \<Longrightarrow> (t, n) \<in> set (tm_targets tm)"
  by (auto simp: getTargetsByNode_def)

lemma findNextTarget_found:
  assumes "findNextTarget nodes tm ign = (tm', t)" "t \<noteq> 0"
  shows "\<exists>n \<in> set nodes. n \<noteq> ign \<and> (t, n) \<in> set (tm_targets tm)" "tm_targets tm' = map_erase t (tm_targets tm)"
proof -
  have t: "t = nextTargetLoop tm ign nodes 0 0" "tm' = fst (unmapTarget t tm)"
    using assms(1) by (auto simp: findNextTarget_def Let_def)
  then obtain n where n: "n \<in> set nodes" "n \<noteq> ign" "getTargetsByNode n tm \<noteq> []" "t = hd (getTargetsByNode n tm)"
    using nextTargetLoop_cases [of tm ign nodes 0 0] assms(2) by auto
  then have mem: "(t, n) \<in> set (tm_targets tm)" using getTargetsByNode_mem hd_in_set by metis
  then show "\<exists>n \<in> set nodes. n \<noteq> ign \<and> (t, n) \<in> set (tm_targets tm)" using n by blast
  from mem have "map_of (tm_targets tm) t \<noteq> None" using weak_map_of_SomeI by fastforce
  then show "tm_targets tm' = map_erase t (tm_targets tm)" using t(2) by (auto simp: unmapTarget_def)
qed

lemma map_erase_shorter: "k \<in> fst ` set m \<Longrightarrow> length (map_erase k m) < length m"
  by (induction k m rule: map_erase.induct) auto

lemma findNextTarget_shorter:
  assumes "findNextTarget nodes tm ign = (tm', t)"
  shows "tm_getSize tm' \<le> tm_getSize tm" "t \<noteq> 0 \<Longrightarrow> tm_getSize tm' < tm_getSize tm"
proof -
  show "tm_getSize tm' \<le> tm_getSize tm"
    using assms map_erase_length by (auto simp: findNextTarget_def Let_def unmapTarget_def tm_getSize_def split: option.split)
  show "tm_getSize tm' < tm_getSize tm" if "t \<noteq> 0"
    using findNextTarget_found [OF assms that] map_erase_shorter by (force simp: tm_getSize_def)
qed

lemma pickPair_shorter:
  assumes "pickPair nodes sys tm c = (tm', Some r)"
  shows "tm_getSize tm' < tm_getSize tm"
proof -
  obtain tm1 p where 1: "findNextTarget nodes tm 0 = (tm1, p)" by fastforce
  obtain tm2 q where 2: "findNextTarget nodes tm1 (getNodeID p sys) = (tm2, q)" by fastforce
  obtain tm3 q2 where 3: "findNextTarget nodes tm2 0 = (tm3, q2)" by fastforce
  have "(q \<noteq> 0 \<and> tm' = tm2) \<or> (q2 \<noteq> 0 \<and> tm' = tm3)"
    using assms by (auto simp: pickPair_def 1 2 3 split: if_splits prod.splits)
  then show ?thesis
    using findNextTarget_shorter [OF 1] findNextTarget_shorter [OF 2] findNextTarget_shorter [OF 3]
    by (elim disjE conjE) simp_all
qed

section \<open>Generating the groups\<close>

definition newGroupID :: "bool \<Rightarrow> TargetMapper \<Rightarrow> u16 list \<Rightarrow> u16 \<Rightarrow> u16 \<Rightarrow> u16" where
  "newGroupID useUniqueGroupIDs sys blackListGroupIDs p q =
     (if useUniqueGroupIDs then generateID sys blackListGroupIDs else if p < q then p else q)"

text \<open>The IDs and groups found, the targets left and the result.\<close>

function generateLoop ::
    "u16 list \<Rightarrow> TargetMapper \<Rightarrow> bool \<Rightarrow> TargetMapper \<Rightarrow> (u16 \<Rightarrow> nat) \<Rightarrow> u16 list \<Rightarrow>
       u16 list \<times> MirrorBuddyGroup list \<Rightarrow> FhgfsOpsErr \<Rightarrow>
       (u16 list \<times> MirrorBuddyGroup list) \<times> TargetMapper \<times> FhgfsOpsErr" where
  "generateLoop nodes sys useUnique tm primaryUsed black out retVal =
     (if tm_getSize tm > 1
      then
        (case pickPair nodes sys tm primaryUsed of
           (tm', None) \<Rightarrow> (out, tm', FhgfsOpsErr_INTERNAL)
         | (tm', Some (primaryUsed', p, q, sameServer)) \<Rightarrow>
             (let k = newGroupID useUnique sys black p q
              in generateLoop nodes sys useUnique tm' primaryUsed' (black @ [k])
                   (fst out @ [k], snd out @ [\<lparr>firstTargetID = p, secondTargetID = q\<rparr>])
                   (if sameServer then FhgfsOpsErr_INVAL else retVal)))
      else if tm_getSize tm = 1 then (out, fst (findNextTarget nodes tm 0), FhgfsOpsErr_INVAL)
      else (out, tm, retVal))"
  by pat_completeness auto

termination
  by (relation "measure (\<lambda>(nodes, sys, useUnique, tm, c, black, out, retVal). tm_getSize tm)")
    (auto dest: pickPair_shorter [OF sym])

declare generateLoop.simps [simp del]

text \<open>The sizes of the targets, as far as they are asked for; 0 stands for \<open>not known yet\<close>.\<close>

fun checkNodeTargets ::
    "(u16 \<Rightarrow> u16 \<Rightarrow> i64 option) \<Rightarrow> u16 \<Rightarrow> u16 list \<Rightarrow> i64 \<Rightarrow> (i64 \<times> bool) option" where
  "checkNodeTargets statTotal n [] spaceValue = Some (spaceValue, True)"
| "checkNodeTargets statTotal n (t # ts) spaceValue =
     (case statTotal n t of
        None \<Rightarrow> None
      | Some totalSpace \<Rightarrow>
          if spaceValue = 0 then checkNodeTargets statTotal n ts totalSpace
          else if spaceValue \<noteq> totalSpace then Some (spaceValue, False)
          else checkNodeTargets statTotal n ts spaceValue)"

fun checkSizes :: "(u16 \<Rightarrow> u16 \<Rightarrow> i64 option) \<Rightarrow> TargetMapper \<Rightarrow> u16 list \<Rightarrow> i64 \<Rightarrow> bool" where
  "checkSizes statTotal sys [] spaceValue = True"
| "checkSizes statTotal sys (n # ns) spaceValue =
     (case checkNodeTargets statTotal n (getTargetsByNode n sys) spaceValue of
        None \<Rightarrow> False
      | Some (spaceValue', equal) \<Rightarrow> if equal then checkSizes statTotal sys ns spaceValue' else False)"

definition checkSizeOfTargets :: "(u16 \<Rightarrow> u16 \<Rightarrow> i64 option) \<Rightarrow> u16 list \<Rightarrow> TargetMapper \<Rightarrow> bool" where
  "checkSizeOfTargets statTotal nodes sys = checkSizes statTotal sys nodes 0"

definition generateMirrorBuddyGroups ::
    "(u16 \<Rightarrow> u16 \<Rightarrow> i64 option) \<Rightarrow> u16 list \<Rightarrow> TargetMapper \<Rightarrow> TargetMapper \<Rightarrow> u16 list \<Rightarrow> bool \<Rightarrow>
       (u16 list \<times> MirrorBuddyGroup list) \<times> TargetMapper \<times> FhgfsOpsErr" where
  "generateMirrorBuddyGroups statTotal nodes sys localMapper usedGroupIDs useUnique =
     (if tm_getSize localMapper = 0 then (([], []), localMapper, FhgfsOpsErr_INTERNAL)
      else
        (let ret1 = (if tm_getSize localMapper mod 2 \<noteq> 0 then FhgfsOpsErr_INVAL else FhgfsOpsErr_SUCCESS);
             ret2 = (if \<not> checkSizeOfTargets statTotal nodes sys then FhgfsOpsErr_INVAL else ret1)
         in generateLoop nodes sys useUnique localMapper (\<lambda>_. 0) usedGroupIDs ([], []) ret2))"

text \<open>\<open>retVal && unmapTarget(..)\<close>: nothing more is removed after the first failure.\<close>

fun removeTargetsFromExistingMirrorBuddyGroups ::
    "u16 list \<Rightarrow> u16 list \<Rightarrow> TargetMapper \<Rightarrow> bool \<Rightarrow> TargetMapper \<times> bool" where
  "removeTargetsFromExistingMirrorBuddyGroups (p # ps) (q # qs) tm retVal =
     (let (tm1, r1) = (if retVal then unmapTarget p tm else (tm, False));
          (tm2, r2) = (if r1 then unmapTarget q tm1 else (tm1, False))
      in removeTargetsFromExistingMirrorBuddyGroups ps qs tm2 r2)"
| "removeTargetsFromExistingMirrorBuddyGroups _ _ tm retVal = (tm, retVal)"

section \<open>Creating the groups\<close>

text \<open>
  A request to the management server, which maps the group if it arrives (\<open>deliver\<close>); groups are
  not updated.
\<close>

definition addGroup ::
    "(u16 \<Rightarrow> bool) \<Rightarrow> TargetMapper \<Rightarrow> u16 \<Rightarrow> u16 \<Rightarrow> u16 \<Rightarrow> MirrorBuddyGroupMapper \<Rightarrow>
       MirrorBuddyGroupMapper \<times> FhgfsOpsErr" where
  "addGroup deliver sys p q forcedGroupID s =
     (if \<not> deliver forcedGroupID then (s, FhgfsOpsErr_INTERNAL)
      else
        (let (s', res, k) = mapMirrorBuddyGroup sys forcedGroupID p q False s
         in (s', if res = FhgfsOpsErr_SUCCESS then FhgfsOpsErr_SUCCESS else FhgfsOpsErr_INTERNAL)))"

fun createLoop ::
    "(u16 \<Rightarrow> bool) \<Rightarrow> TargetMapper \<Rightarrow> u16 list \<Rightarrow> MirrorBuddyGroup list \<Rightarrow> MirrorBuddyGroupMapper \<Rightarrow>
       MirrorBuddyGroupMapper \<times> bool" where
  "createLoop deliver sys (k # ks) (g # gs) s =
     (let (s', res) = addGroup deliver sys (firstTargetID g) (secondTargetID g) k s
      in if res \<noteq> FhgfsOpsErr_SUCCESS then (s', False) else createLoop deliver sys ks gs s')"
| "createLoop deliver sys _ _ s = (s, True)"

definition createMirrorBuddyGroups ::
    "(u16 \<Rightarrow> bool) \<Rightarrow> TargetMapper \<Rightarrow> FhgfsOpsErr \<Rightarrow> bool \<Rightarrow> bool \<Rightarrow> u16 list \<Rightarrow> MirrorBuddyGroup list \<Rightarrow>
       MirrorBuddyGroupMapper \<Rightarrow> MirrorBuddyGroupMapper \<times> bool" where
  "createMirrorBuddyGroups deliver sys retValGeneration doForce doDryrun ids groups s =
     (if (retValGeneration = FhgfsOpsErr_SUCCESS \<or> (retValGeneration = FhgfsOpsErr_INVAL \<and> doForce)) \<and> \<not> doDryrun
      then createLoop deliver sys ids groups s
      else (s, True))"


section \<open>Facts about the generated groups\<close>

definition members :: "MirrorBuddyGroup list \<Rightarrow> u16 list" where
  "members gs = concat (map (\<lambda>g. [firstTargetID g, secondTargetID g]) gs)"

lemma members_append [simp]: "members (gs @ hs) = members gs @ members hs"
  and members_Nil [simp]: "members [] = []"
  and members_one [simp]: "members [g] = [firstTargetID g, secondTargetID g]"
  by (simp_all add: members_def)

lemma nextTargetLoop_cong:
  "tm_targets tm = tm_targets tm' \<Longrightarrow> nextTargetLoop tm ign ns mx r = nextTargetLoop tm' ign ns mx r"
  by (induction tm ign ns mx r rule: nextTargetLoop.induct) (simp_all add: getTargetsByNode_def Let_def)

lemma findNextTarget_0:
  assumes "findNextTarget nodes tm ign = (tm', 0)" "0 \<notin> fst ` set (tm_targets tm)"
  shows "tm_targets tm' = tm_targets tm"
proof -
  have "map_of (tm_targets tm) 0 = None" using assms(2) by (simp add: map_of_eq_None_iff)
  then show ?thesis using assms(1) by (auto simp: findNextTarget_def Let_def unmapTarget_def)
qed

lemma snd_findNextTarget: "snd (findNextTarget nodes tm ign) = nextTargetLoop tm ign nodes 0 0"
  by (simp add: findNextTarget_def Let_def)

text \<open>What a round takes from the targets that are left.\<close>

lemma pickPair_result:
  assumes ok: "map_ok (tm_targets tm)" "0 \<notin> fst ` set (tm_targets sys)"
    and sub: "map_of (tm_targets tm) \<subseteq>\<^sub>m map_of (tm_targets sys)"
    and pick: "pickPair nodes sys tm c = (tm', Some (c', p, q, same))"
  shows "\<exists>a b. a \<noteq> b \<and> a \<in> fst ` set (tm_targets tm) \<and> b \<in> fst ` set (tm_targets tm) \<and>
    tm_targets tm' = map_erase b (map_erase a (tm_targets tm)) \<and> (p = a \<and> q = b \<or> p = b \<and> q = a) \<and>
    (same \<or> getNodeID a sys \<noteq> getNodeID b sys)"
proof -
  obtain tm1 a where 1: "findNextTarget nodes tm 0 = (tm1, a)" by fastforce
  obtain tm2 b where 2: "findNextTarget nodes tm1 (getNodeID a sys) = (tm2, b)" by fastforce
  obtain tm3 b2 where 3: "findNextTarget nodes tm2 0 = (tm3, b2)" by fastforce
  have node: "getNodeID t sys = n" if "(t, n) \<in> set (tm_targets tm)" for t n
  proof -
    have "map_of (tm_targets tm) t = Some n" using that map_of_Some_iff [OF ok(1)] by blast
    then have "map_of (tm_targets sys) t = Some n" using sub by (auto simp: map_le_def dom_def)
    then show ?thesis by (rule getNodeID_Some)
  qed
  have zero: "0 \<notin> fst ` set (tm_targets tm)"
    using map_le_implies_dom_le [OF sub] ok(2) unfolding dom_map_of_conv_image_fst by blast
  have left: "(t, n) \<in> set (tm_targets tm) \<and> t \<noteq> a" if "(t, n) \<in> set (map_erase a (tm_targets tm))" for t n
  proof -
    have "map_of (map_erase a (tm_targets tm)) t = Some n"
      using that map_of_Some_iff [OF map_erase_ok [OF ok(1)]] by blast
    then show ?thesis using ok(1) that map_erase_subset [of a "tm_targets tm"] by (auto split: if_splits)
  qed
  have some: "b \<noteq> 0 \<or> b2 \<noteq> 0" using pick by (auto simp: pickPair_def 1 2 3 split: if_splits)
  have a: "a \<noteq> 0"
  proof
    assume a: "a = 0"
    have t1: "tm_targets tm1 = tm_targets tm" using findNextTarget_0 [OF 1 [unfolded a] zero] .
    have "getNodeID a sys = 0" using ok(2) by (auto simp: a getNodeID_def split: option.split dest!: map_of_SomeD) force
    then have b: "b = 0"
      using 1 2 a t1 snd_findNextTarget [of nodes tm 0] snd_findNextTarget [of nodes tm1 0] nextTargetLoop_cong [OF t1] by simp
    then have t2: "tm_targets tm2 = tm_targets tm" using findNextTarget_0 [of nodes tm1 _ tm2] 2 t1 zero by simp
    have "b2 = 0"
      using 1 3 a snd_findNextTarget [of nodes tm 0] snd_findNextTarget [of nodes tm2 0] nextTargetLoop_cong [OF t2] by simp
    with some b show False by simp
  qed
  note f1 = findNextTarget_found [OF 1 a]
  obtain n where n: "(a, n) \<in> set (tm_targets tm)" using f1(1) by blast
  show ?thesis
  proof (cases "b = 0")
    case False
    note f2 = findNextTarget_found [OF 2 False, unfolded f1(2)]
    obtain n' where n': "n' \<noteq> getNodeID a sys" "(b, n') \<in> set (map_erase a (tm_targets tm))" using f2(1) by blast
    have "tm' = tm2 \<and> \<not> same \<and> (p = a \<and> q = b \<or> p = b \<and> q = a)"
      using pick False by (auto simp: pickPair_def 1 2 selectPrimaryTarget_def Let_def split: if_splits)
    then show ?thesis
      using n left [OF n'(2)] n'(1) node [of b n'] f2(2)
      by (intro exI [of _ a] exI [of _ b]) (auto simp: image_iff Bex_def)
  next
    case True
    then have b2: "b2 \<noteq> 0" using some by simp
    have "0 \<notin> fst ` set (tm_targets tm1)" using zero map_erase_subset [of a "tm_targets tm"] f1(2) by force
    then have t2: "tm_targets tm2 = map_erase a (tm_targets tm)"
      using findNextTarget_0 [OF 2 [unfolded True]] f1(2) by simp
    note f3 = findNextTarget_found [OF 3 b2, unfolded t2]
    obtain n' where n': "(b2, n') \<in> set (map_erase a (tm_targets tm))" using f3(1) by blast
    have "tm' = tm3 \<and> same \<and> p = a \<and> q = b2"
      using pick True b2 by (auto simp: pickPair_def 1 2 3 split: if_splits)
    then show ?thesis
      using n left [OF n'] f3(2) by (intro exI [of _ a] exI [of _ b2]) (auto simp: image_iff Bex_def)
  qed
qed


definition pairs_ok ::
    "TargetMapper \<Rightarrow> bool \<Rightarrow> u16 list \<Rightarrow> u16 set \<Rightarrow> u16 list \<times> MirrorBuddyGroup list \<Rightarrow> bool" where
  "pairs_ok sys useUnique used T out \<longleftrightarrow>
     distinct (members (snd out)) \<and> set (members (snd out)) \<subseteq> T \<and> length (fst out) = length (snd out) \<and>
     distinct (fst out) \<and> 0 \<notin> set (fst out) \<and>
     (useUnique \<longrightarrow> set (fst out) \<inter> set used = {} \<and> (\<forall>k \<in> set (fst out). getNodeID k sys = 0))"

definition different_servers :: "TargetMapper \<Rightarrow> MirrorBuddyGroup list \<Rightarrow> bool" where
  "different_servers sys gs \<longleftrightarrow>
     (\<forall>g \<in> set gs. getNodeID (firstTargetID g) sys \<noteq> getNodeID (secondTargetID g) sys)"

text \<open>The IDs that are not generated are the smaller target IDs.\<close>

definition ids_agree :: "bool \<Rightarrow> u16 list \<times> MirrorBuddyGroup list \<Rightarrow> bool" where
  "ids_agree useUnique out \<longleftrightarrow>
     (\<not> useUnique \<longrightarrow> fst out = map (\<lambda>g. min (firstTargetID g) (secondTargetID g)) (snd out))"

lemma min_in_members: "k \<in> set (map (\<lambda>g. min (firstTargetID g) (secondTargetID g)) gs) \<Longrightarrow> k \<in> set (members gs)"
  by (auto simp: members_def min_def)

lemma erase_keys:
  assumes "map_ok m"
  shows "fst ` set (map_erase k m) = fst ` set m - {k}"
proof -
  have "dom (map_of (map_erase k m)) = dom (map_of m) - {k}" using assms by auto
  then show ?thesis by (simp add: dom_map_of_conv_image_fst)
qed

lemma generateLoop_result:
  assumes "0 \<notin> fst ` set (tm_targets sys)"
    and "map_ok (tm_targets tm)" "map_of (tm_targets tm) \<subseteq>\<^sub>m map_of (tm_targets sys)"
    and "pairs_ok sys useUnique used (fst ` set (tm_targets sys)) out" "ids_agree useUnique out"
    and "set (members (snd out)) \<inter> fst ` set (tm_targets tm) = {}"
    and "set (members (snd out)) \<union> fst ` set (tm_targets tm) = T"
    and "retVal = FhgfsOpsErr_SUCCESS \<longrightarrow> different_servers sys (snd out)"
    and "set black = set used \<union> set (fst out)"
    and "length black + tm_getSize tm + length (tm_targets sys) < MIRRORBUDDYGROUPMAPPER_MAX_GROUPIDS"
  shows "\<exists>out' tm' ret. generateLoop nodes sys useUnique tm c black out retVal = (out', tm', ret) \<and>
    pairs_ok sys useUnique used (fst ` set (tm_targets sys)) out' \<and> set (members (snd out')) \<subseteq> T \<and>
    (ret = FhgfsOpsErr_SUCCESS \<longrightarrow> retVal = FhgfsOpsErr_SUCCESS \<and> set (members (snd out')) = T \<and>
       different_servers sys (snd out'))"
  using assms(2-)
proof (induction "tm_getSize tm" arbitrary: tm c black out retVal rule: less_induct)
  case less
  note ok = less.prems(1,2)
  obtain ids gs where out: "out = (ids, gs)" by fastforce
  have zero: "0 \<notin> fst ` set (tm_targets tm)" and keys: "fst ` set (tm_targets tm) \<subseteq> fst ` set (tm_targets sys)"
    using map_le_implies_dom_le [OF ok(2)] assms(1) unfolding dom_map_of_conv_image_fst by blast+
  show ?case
  proof (cases "tm_getSize tm > 1")
    case False
    show ?thesis
    proof (cases "tm_getSize tm = 1")
      case True
      then show ?thesis
        using less.prems(3,6) by (subst generateLoop.simps) auto
    next
      case no: False
      with False have "tm_targets tm = []" by (cases "tm_targets tm") (auto simp: tm_getSize_def)
      then show ?thesis
        using False no less.prems by (subst generateLoop.simps) auto
    qed
  next
    case True
    obtain tm' r where pick: "pickPair nodes sys tm c = (tm', r)" by fastforce
    show ?thesis
    proof (cases r)
      case None
      then show ?thesis
        using True pick less.prems(3,6) by (subst generateLoop.simps) auto
    next
      case (Some r')
      obtain c' p q same where r': "r' = (c', p, q, same)" using prod_cases4 by blast
      note pick' = pick [unfolded Some r']
      obtain a b where ab: "a \<noteq> b" "a \<in> fst ` set (tm_targets tm)" "b \<in> fst ` set (tm_targets tm)"
        "tm_targets tm' = map_erase b (map_erase a (tm_targets tm))" "p = a \<and> q = b \<or> p = b \<and> q = a"
        "same \<or> getNodeID a sys \<noteq> getNodeID b sys"
        using pickPair_result [OF ok(1) assms(1) ok(2) pick'] by blast
      define k where "k = newGroupID useUnique sys black p q"
      define g where "g = \<lparr>firstTargetID = p, secondTargetID = q\<rparr>"
      have k: "k \<noteq> 0" "k \<notin> set ids" "useUnique \<Longrightarrow> k \<notin> set used \<and> getNodeID k sys = 0"
        "\<not> useUnique \<Longrightarrow> k = min p q"
      proof -
        have gen: "k \<noteq> 0 \<and> k \<notin> set black \<and> getNodeID k sys = 0" if "useUnique"
          using generateID_result [of black sys] less.prems(9) True that by (simp add: k_def newGroupID_def idTaken_def)
        have small: "k = min p q \<and> k \<in> fst ` set (tm_targets tm)" if "\<not> useUnique"
          using that ab(2,3,5) by (auto simp: k_def newGroupID_def min_def)
        show "k \<noteq> 0" using gen small zero by metis
        show "useUnique \<Longrightarrow> k \<notin> set used \<and> getNodeID k sys = 0" using gen less.prems(8) by simp
        show "\<not> useUnique \<Longrightarrow> k = min p q" using small by simp
        show "k \<notin> set ids"
        proof (cases useUnique)
          case True
          then show ?thesis using gen less.prems(8) by (simp add: out)
        next
          case False
          then have "set ids \<subseteq> set (members gs)"
            using less.prems(4) min_in_members [of _ gs] by (auto simp: ids_agree_def out)
          then show ?thesis using small [OF False] less.prems(5) by (auto simp: out)
        qed
      qed
      have keys': "fst ` set (tm_targets tm') = fst ` set (tm_targets tm) - {a, b}"
        using ab(4) ok(1) by (auto simp: erase_keys)
      have ok': "map_ok (tm_targets tm')" using ab(4) ok(1) by simp
      have sub': "map_of (tm_targets tm') \<subseteq>\<^sub>m map_of (tm_targets sys)"
        using ok ab(4) by (auto simp: map_le_def dom_def)
      have new: "set (members (gs @ [g])) = set (members gs) \<union> {a, b}" using ab(5) by (auto simp: g_def)
      have pairs: "pairs_ok sys useUnique used (fst ` set (tm_targets sys)) (ids @ [k], gs @ [g])"
      proof -
        have "a \<notin> set (members gs)" "b \<notin> set (members gs)" using less.prems(5) ab(2,3) by (auto simp: out)
        then have "distinct (members (gs @ [g]))"
          using less.prems(3) ab(1,5) by (auto simp: pairs_ok_def out g_def)
        moreover have "set (members (gs @ [g])) \<subseteq> fst ` set (tm_targets sys)"
          using less.prems(3) new keys ab(2,3) by (auto simp: pairs_ok_def out)
        ultimately show ?thesis using less.prems(3) k(1-3) by (auto simp: pairs_ok_def out)
      qed
      have agree: "ids_agree useUnique (ids @ [k], gs @ [g])"
        using less.prems(4) k(4) by (simp add: ids_agree_def out g_def)
      have dis: "set (members (snd (ids @ [k], gs @ [g]))) \<inter> fst ` set (tm_targets tm') = {}"
        unfolding snd_conv new keys' using less.prems(5) by (auto simp: out)
      have all: "set (members (snd (ids @ [k], gs @ [g]))) \<union> fst ` set (tm_targets tm') = T"
        unfolding snd_conv new keys' using less.prems(6) ab(2,3) by (auto simp: out)
      have servers: "(if same then FhgfsOpsErr_INVAL else retVal) = FhgfsOpsErr_SUCCESS \<longrightarrow>
          different_servers sys (snd (ids @ [k], gs @ [g]))"
        using less.prems(7) ab(5,6) by (auto simp: different_servers_def out g_def split: if_splits)
      have black: "set (black @ [k]) = set used \<union> set (fst (ids @ [k], gs @ [g]))"
        using less.prems(8) by (simp add: out)
      have size: "length (black @ [k]) + tm_getSize tm' + length (tm_targets sys) < MIRRORBUDDYGROUPMAPPER_MAX_GROUPIDS"
        using less.prems(9) pickPair_shorter [OF pick'] by simp
      obtain out' tm'' ret where res:
        "generateLoop nodes sys useUnique tm' c' (black @ [k]) (ids @ [k], gs @ [g])
           (if same then FhgfsOpsErr_INVAL else retVal) = (out', tm'', ret)"
        "pairs_ok sys useUnique used (fst ` set (tm_targets sys)) out'" "set (members (snd out')) \<subseteq> T"
        "ret = FhgfsOpsErr_SUCCESS \<longrightarrow> (if same then FhgfsOpsErr_INVAL else retVal) = FhgfsOpsErr_SUCCESS \<and>
           set (members (snd out')) = T \<and> different_servers sys (snd out')"
        using less.hyps [OF pickPair_shorter [OF pick'] ok' sub' pairs agree dis all servers black size, of c']
        by blast
      have "generateLoop nodes sys useUnique tm c black out retVal = (out', tm'', ret)"
        using True res(1) by (subst generateLoop.simps)
          (simp add: pick' Let_def out k_def [symmetric] g_def [symmetric])
      moreover have "ret = FhgfsOpsErr_SUCCESS \<longrightarrow> retVal = FhgfsOpsErr_SUCCESS \<and>
          set (members (snd out')) = T \<and> different_servers sys (snd out')"
        using res(4) by (auto split: if_splits)
      ultimately show ?thesis using res(2,3) by blast
    qed
  qed
qed


lemma generate_result:
  assumes "0 \<notin> fst ` set (tm_targets sys)" "map_ok (tm_targets tm)"
    and "map_of (tm_targets tm) \<subseteq>\<^sub>m map_of (tm_targets sys)"
    and "length used + tm_getSize tm + length (tm_targets sys) < MIRRORBUDDYGROUPMAPPER_MAX_GROUPIDS"
  shows "\<exists>out' tm' ret. generateMirrorBuddyGroups statTotal nodes sys tm used useUnique = (out', tm', ret) \<and>
    pairs_ok sys useUnique used (fst ` set (tm_targets sys)) out' \<and>
    set (members (snd out')) \<subseteq> fst ` set (tm_targets tm) \<and>
    (ret = FhgfsOpsErr_SUCCESS \<longrightarrow> set (members (snd out')) = fst ` set (tm_targets tm) \<and>
       different_servers sys (snd out'))"
proof -
  define ret where "ret = (if \<not> checkSizeOfTargets statTotal nodes sys then FhgfsOpsErr_INVAL
    else if tm_getSize tm mod 2 \<noteq> 0 then FhgfsOpsErr_INVAL else FhgfsOpsErr_SUCCESS)"
  have start: "pairs_ok sys useUnique used (fst ` set (tm_targets sys)) ([], [])" "ids_agree useUnique ([], [])"
    "different_servers sys (snd ([] :: u16 list, []))"
    by (simp_all add: pairs_ok_def ids_agree_def different_servers_def)
  obtain ids gs tm' ret' where
    "generateLoop nodes sys useUnique tm (\<lambda>_. 0) used ([], []) ret = ((ids, gs), tm', ret')"
    "pairs_ok sys useUnique used (fst ` set (tm_targets sys)) (ids, gs)"
    "set (members gs) \<subseteq> fst ` set (tm_targets tm)"
    "ret' = FhgfsOpsErr_SUCCESS \<Longrightarrow> set (members gs) = fst ` set (tm_targets tm) \<and>
       different_servers sys gs"
    using generateLoop_result [OF assms(1-3) start(1,2), where T = "fst ` set (tm_targets tm)"
        and retVal = ret and black = used and nodes = nodes and c = "\<lambda>_. 0"] start(3) assms(4) by auto
  then show ?thesis
    using start(1) by (auto simp: generateMirrorBuddyGroups_def ret_def Let_def split: if_splits)
qed

section \<open>Facts about the creation\<close>

lemma removeTargets_result:
  assumes "removeTargetsFromExistingMirrorBuddyGroups ps qs tm b = (tm', True)" "length ps = length qs"
    and "map_ok (tm_targets tm)"
  shows "map_ok (tm_targets tm') \<and> map_of (tm_targets tm') = map_of (tm_targets tm) |` (- (set ps \<union> set qs)) \<and> b"
  using assms
proof (induction ps qs tm b rule: removeTargetsFromExistingMirrorBuddyGroups.induct)
  case (1 p ps q qs tm b)
  obtain tm1 r1 where e1: "(if b then unmapTarget p tm else (tm, False)) = (tm1, r1)" by fastforce
  obtain tm2 r2 where e2: "(if r1 then unmapTarget q tm1 else (tm1, False)) = (tm2, r2)" by fastforce
  note ok = "1.prems"(3)
  have t1: "tm_targets tm1 = (if b then map_erase p (tm_targets tm) else tm_targets tm)"
    using e1 unmapTarget_targets [OF ok, of p] by (auto split: if_splits)
  then have ok1: "map_ok (tm_targets tm1)" using ok by simp
  have t2: "tm_targets tm2 = (if r1 then map_erase q (tm_targets tm1) else tm_targets tm1)"
    using e2 unmapTarget_targets [OF ok1, of q] by (auto split: if_splits)
  then have ok2: "map_ok (tm_targets tm2)" using ok1 by simp
  have "removeTargetsFromExistingMirrorBuddyGroups ps qs tm2 r2 = (tm', True)"
    using "1.prems"(1) e1 e2 by (simp add: Let_def)
  from "1.IH" [OF e1 [symmetric] refl e2 [symmetric] refl this] "1.prems"(2) ok2
  have ih: "map_ok (tm_targets tm')" "map_of (tm_targets tm') = map_of (tm_targets tm2) |` (- (set ps \<union> set qs))" r2
    by auto
  from ih(3) e2 have r1: r1 by (auto split: if_splits)
  with e1 have b by (auto split: if_splits)
  with r1 ih t1 t2 ok1 ok show ?case
    by (auto simp: restrict_map_def fun_eq_iff)
qed (auto simp: restrict_map_def)

lemma createLoop_result:
  assumes "length ids = length gs" "groups_valid (mirrorBuddyGroups s)"
    and "distinct ids" "0 \<notin> set ids" "set ids \<inter> fst ` set (mirrorBuddyGroups s) = {}"
    and "distinct (members gs)" "set (members gs) \<subseteq> fst ` set (tm_targets sys)"
    and "\<forall>(k, g) \<in> set (mirrorBuddyGroups s). \<forall>t \<in> set (members gs). \<not> isMember t g"
  shows "\<exists>s'. createLoop (\<lambda>_. True) sys ids gs s = (s', True) \<and> groups_valid (mirrorBuddyGroups s') \<and>
    set (mirrorBuddyGroups s') = set (mirrorBuddyGroups s) \<union> set (zip ids gs)"
  using assms
proof (induction ids gs arbitrary: s rule: list_induct2)
  case Nil
  then show ?case by simp
next
  case (Cons k ids g gs)
  let ?m = "mirrorBuddyGroups s"
  let ?p = "firstTargetID g" and ?q = "secondTargetID g"
  have mem: "?p \<in> set (members (g # gs))" "?q \<in> set (members (g # gs))" by (simp_all add: members_def)
  have free: "getBuddyGroupID t ?m = 0" if "t \<in> set (members (g # gs))" for t
  proof -
    have "findGroup t ?m = None" using Cons.prems(7) that by (auto simp: findGroup_None)
    then show ?thesis by (simp add: getBuddyGroupID_def)
  qed
  have k: "k \<noteq> 0" "k \<notin> fst ` set ?m" using Cons.prems(3,4) by auto
  then have none: "map_of ?m k = None" by (simp add: map_of_eq_None_iff)
  have ok: "map_ok ?m" using Cons.prems(1) by (simp add: groups_valid_def)
  have checks: "mapChecks sys k ?p ?q False ?m = FhgfsOpsErr_SUCCESS"
    using none free [OF mem(1)] free [OF mem(2)] Cons.prems(6) mem by (auto simp: mapChecks_def targetExists_iff)
  define s1 where "s1 = fst (mapCommit sys k ?p ?q s)"
  have add: "addGroup (\<lambda>_. True) sys ?p ?q k s = (s1, FhgfsOpsErr_SUCCESS)"
    using checks by (simp add: addGroup_def mapMirrorBuddyGroup_def s1_def Let_def split: prod.split)
  have g: "\<lparr>firstTargetID = ?p, secondTargetID = ?q\<rparr> = g" by simp
  have m1: "mirrorBuddyGroups s1 = map_set k g ?m" using k(1) by (simp add: s1_def mapCommit_def Let_def g del: MirrorBuddyGroup.surjective)
  have entries: "set (mirrorBuddyGroups s1) = insert (k, g) (set ?m)"
  proof -
    have "(i, h) \<in> set (map_set k g ?m) \<longleftrightarrow> (i, h) \<in> insert (k, g) (set ?m)" for i h
      using map_of_Some_iff [OF map_set_ok [OF ok, of k g], of i h] map_of_Some_iff [OF ok, of i h] ok k(2)
      by (auto split: if_splits simp: image_iff)
    then show ?thesis unfolding m1 by auto
  qed
  have dist: "?p \<noteq> ?q" "?p \<notin> set (members gs)" "?q \<notin> set (members gs)"
    using Cons.prems(5) by (auto simp: members_def)
  have "groups_valid (mirrorBuddyGroups s1)"
    unfolding m1 using Cons.prems(7) by (intro groups_valid_set [OF Cons.prems(1) k(1)]) (auto simp: isMember_def members_def)
  moreover have "\<forall>(i, h) \<in> set (mirrorBuddyGroups s1). \<forall>t \<in> set (members gs). \<not> isMember t h"
    using Cons.prems(7) dist unfolding entries by (auto simp: isMember_def members_def)
  moreover have "set ids \<inter> fst ` set (mirrorBuddyGroups s1) = {}"
    using Cons.prems(2,4) unfolding entries by auto
  moreover have "distinct (members gs)" "set (members gs) \<subseteq> fst ` set (tm_targets sys)"
    using Cons.prems(5,6) by (simp_all add: members_def)
  ultimately obtain s' where "createLoop (\<lambda>_. True) sys ids gs s1 = (s', True)"
    "groups_valid (mirrorBuddyGroups s')"
    "set (mirrorBuddyGroups s') = set (mirrorBuddyGroups s1) \<union> set (zip ids gs)"
    using Cons.IH [of s1] Cons.prems(2,3) by auto
  then show ?case using entries by (simp add: add)
qed

lemma old_targets:
  assumes "(ids, ps, qs) = bg_getMappingAsLists m"
  shows "set ps \<union> set qs = {t. \<exists>(k, g) \<in> set m. isMember t g}"
  using assms by (force simp: bg_getMappingAsLists_def isMember_def)

lemma members_in_group: "t \<in> set (members gs) \<longleftrightarrow> (\<exists>g \<in> set gs. isMember t g)"
  by (auto simp: members_def isMember_def)

section \<open>Properties\<close>

text \<open>
  C39: if the automatic creation removes the targets of the existing groups from its copy of the
  target mapper and, told to use unique group IDs, generates groups without an error or warning, then
  all of them are registered, the existing groups stay as they are, no target is in two groups, every
  target of the system is in a group, and the new groups pair targets of different servers. It is
  for the mode with unique group IDs only: in the default mode the ID of a new group is that of one
  of its targets, which an existing group may have, and then the creation stops. The groups
  that exist are assumed to be valid, no target has the ID 0, the IDs in use and twice the targets are
  fewer than the IDs there are, and every message reaches the management server.
\<close>

theorem automatic_groups:
  assumes "map_ok (tm_targets sys)" "0 \<notin> fst ` set (tm_targets sys)"
    and "groups_valid (mirrorBuddyGroups s)"
    and "(used, ps, qs) = bg_getMappingAsLists (mirrorBuddyGroups s)"
    and "removeTargetsFromExistingMirrorBuddyGroups ps qs sys True = (local, True)"
    and "length used + 2 * tm_getSize sys < MIRRORBUDDYGROUPMAPPER_MAX_GROUPIDS"
    and "generateMirrorBuddyGroups statTotal nodes sys local used True = ((ids, gs), tm', FhgfsOpsErr_SUCCESS)"
    and "createMirrorBuddyGroups (\<lambda>_. True) sys FhgfsOpsErr_SUCCESS doForce False ids gs s = (s', ok)"
  shows "ok \<and> groups_valid (mirrorBuddyGroups s') \<and>
    set (mirrorBuddyGroups s') = set (mirrorBuddyGroups s) \<union> set (zip ids gs) \<and>
    (\<forall>(t, n) \<in> set (tm_targets sys). getBuddyGroupID t (mirrorBuddyGroups s') \<noteq> 0) \<and>
    (\<forall>g \<in> set gs. getNodeID (firstTargetID g) sys \<noteq> getNodeID (secondTargetID g) sys)"
proof -
  let ?m = "mirrorBuddyGroups s"
  have "length ps = length qs" using assms(4) by (simp add: bg_getMappingAsLists_def)
  note rm = removeTargets_result [OF assms(5) this assms(1)]
  then have sub: "map_of (tm_targets local) \<subseteq>\<^sub>m map_of (tm_targets sys)"
    by (auto simp: map_le_def restrict_map_def)
  have left: "fst ` set (tm_targets local) = fst ` set (tm_targets sys) - (set ps \<union> set qs)"
    using rm by (auto simp flip: dom_map_of_conv_image_fst)
  have "card (fst ` set (tm_targets local)) \<le> card (fst ` set (tm_targets sys))"
    by (intro card_mono) (auto simp: left)
  then have "tm_getSize local \<le> tm_getSize sys"
    using rm assms(1) by (simp add: map_ok_length tm_getSize_def)
  then have size: "length used + tm_getSize local + length (tm_targets sys) < MIRRORBUDDYGROUPMAPPER_MAX_GROUPIDS"
    using assms(6) by (simp add: tm_getSize_def)
  from generate_result [OF assms(2) conjunct1 [OF rm] sub size, of statTotal nodes True] assms(7)
  have pairs: "pairs_ok sys True used (fst ` set (tm_targets sys)) (ids, gs)"
    and mem: "set (members gs) = fst ` set (tm_targets local)" and servers: "different_servers sys gs"
    by simp_all
  have used: "set used = fst ` set ?m" using assms(4) by (simp add: bg_getMappingAsLists_def)
  have free: "\<forall>(k, g) \<in> set ?m. \<forall>t \<in> set (members gs). \<not> isMember t g"
    unfolding mem left old_targets [OF assms(4)] by blast
  have "\<exists>s'. createLoop (\<lambda>_. True) sys ids gs s = (s', True) \<and> groups_valid (mirrorBuddyGroups s') \<and>
      set (mirrorBuddyGroups s') = set ?m \<union> set (zip ids gs)"
    using pairs used by (intro createLoop_result assms(3) free) (auto simp: pairs_ok_def)
  then have res: "ok" "groups_valid (mirrorBuddyGroups s')"
    "set (mirrorBuddyGroups s') = set ?m \<union> set (zip ids gs)"
    using assms(8) by (auto simp: createMirrorBuddyGroups_def)
  have "getBuddyGroupID t (mirrorBuddyGroups s') \<noteq> 0" if "(t, n) \<in> set (tm_targets sys)" for t n
  proof -
    have "\<exists>(k, g) \<in> set (mirrorBuddyGroups s'). isMember t g"
    proof (cases "t \<in> set ps \<union> set qs")
      case True
      then show ?thesis unfolding old_targets [OF assms(4)] res(3) by blast
    next
      case False
      then have "t \<in> set (members gs)" using that unfolding mem left by force
      then obtain g where g: "g \<in> set gs" "isMember t g" by (auto simp: members_in_group)
      have "length ids = length gs" using pairs by (simp add: pairs_ok_def)
      with g(1) obtain k where "(k, g) \<in> set (zip ids gs)" by (metis in_set_impl_in_set_zip2)
      with g(2) show ?thesis unfolding res(3) by blast
    qed
    then show ?thesis using groups_validD [OF res(2)] by (auto simp: getBuddyGroupID_def)
  qed
  then show ?thesis using res servers by (auto simp: different_servers_def)
qed

theorem automatic_groups_witness:
  "getBuddyGroupID 4 (mirrorBuddyGroups (fst (createMirrorBuddyGroups (\<lambda>_. True) four_targets FhgfsOpsErr_SUCCESS
     False False [5] [\<lparr>firstTargetID = 2, secondTargetID = 4\<rparr>]
     (newMirrorBuddyGroupMapper\<lparr>mirrorBuddyGroups := [(9, \<lparr>firstTargetID = 3, secondTargetID = 1\<rparr>)]\<rparr>)))) \<noteq> 0"
proof -
  let ?s = "newMirrorBuddyGroupMapper\<lparr>mirrorBuddyGroups := [(9, \<lparr>firstTargetID = 3, secondTargetID = 1\<rparr>)]\<rparr>"
  let ?gs = "[\<lparr>firstTargetID = 2, secondTargetID = 4\<rparr>]"
  let ?local = "fst (removeTargetsFromExistingMirrorBuddyGroups [3] [1] four_targets True)"
  have m: "(9 :: u16) \<noteq> 0" "map_ok (tm_targets four_targets)" "0 \<notin> fst ` set (tm_targets four_targets)"
    "groups_valid (mirrorBuddyGroups ?s)" "([9], [3], [1]) = bg_getMappingAsLists (mirrorBuddyGroups ?s)"
    by (simp_all add: four_targets_def newTargetMapper_def newMirrorBuddyGroupMapper_def groups_valid_def
        bg_getMappingAsLists_def)
  have rm: "removeTargetsFromExistingMirrorBuddyGroups [3] [1] four_targets True = (?local, True)"
    "tm_targets ?local = [(2, 10), (4, 20)]"
    by (simp_all add: four_targets_def newTargetMapper_def unmapTarget_def)
  have gen: "\<exists>tm'. generateMirrorBuddyGroups (\<lambda>_ _. Some 100) [10, 20] four_targets ?local [9] True =
      (([5], ?gs), tm', FhgfsOpsErr_SUCCESS)"
    by (simp add: rm(2) generateMirrorBuddyGroups_def generateLoop.simps pickPair_def findNextTarget_def
        getTargetsByNode_def selectPrimaryTarget_def checkSizeOfTargets_def unmapTarget_def tm_getSize_def
        four_targets_def newTargetMapper_def newGroupID_def generateID_def generateIDLoop.simps idTaken_def
        getNodeID_def MIRRORBUDDYGROUPMAPPER_MAX_GROUPIDS_def USHRT_MAX_def Let_def)
  then obtain tm' where gen: "generateMirrorBuddyGroups (\<lambda>_ _. Some 100) [10, 20] four_targets ?local [9] True =
      (([5], ?gs), tm', FhgfsOpsErr_SUCCESS)" by blast
  have small: "length [9 :: u16] + 2 * tm_getSize four_targets < MIRRORBUDDYGROUPMAPPER_MAX_GROUPIDS"
    by (simp add: four_targets_def tm_getSize_def MIRRORBUDDYGROUPMAPPER_MAX_GROUPIDS_def USHRT_MAX_def)
  obtain s' ok where create: "createMirrorBuddyGroups (\<lambda>_. True) four_targets FhgfsOpsErr_SUCCESS False False
      [5] ?gs ?s = (s', ok)" by fastforce
  have "(4, 20) \<in> set (tm_targets four_targets)" by (simp add: four_targets_def)
  then show ?thesis
    using automatic_groups [OF m(2-5) rm(1) small gen create] unfolding create fst_conv by blast
qed

end
