(* ===== verification/MgmtdStates.thy ===== *)
theory MgmtdStates
  imports BuddyGroups
begin

text \<open>
  The state store of the management server (\<open>MgmtdTargetStateStore.h/.cpp\<close>): state reports of the
  servers, targets that time out, the automatic switch of the members of a buddy group and the
  targets that need a resync. The store and the buddy groups are locked together wherever both
  change, so one call is one step; the readings of the clock within a call are taken as one.
\<close>

section \<open>State\<close>

record MgmtdTargetStateStore =
  statesMap :: TargetStateInfoMap
  targetsToResync :: "u16 set"
  targetsToResyncSetDirty :: bool

definition newMgmtdTargetStateStore :: MgmtdTargetStateStore where
  "newMgmtdTargetStateStore = \<lparr>statesMap = [], targetsToResync = {}, targetsToResyncSetDirty = False\<rparr>"

definition targetsToResyncUpdate ::
    "TargetConsistencyState \<Rightarrow> u16 \<Rightarrow> MgmtdTargetStateStore \<Rightarrow> MgmtdTargetStateStore" where
  "targetsToResyncUpdate c t s =
     (if c = TargetConsistencyState_NEEDS_RESYNC
      then s\<lparr>targetsToResync := insert t (targetsToResync s),
             targetsToResyncSetDirty := targetsToResyncSetDirty s \<or> t \<notin> targetsToResync s\<rparr>
      else s\<lparr>targetsToResync := targetsToResync s - {t},
             targetsToResyncSetDirty := targetsToResyncSetDirty s \<or> t \<in> targetsToResync s\<rparr>)"

text \<open>The result says whether the target is known.\<close>

definition setConsistencyState ::
    "u16 \<Rightarrow> TargetConsistencyState \<Rightarrow> MgmtdTargetStateStore \<Rightarrow> MgmtdTargetStateStore \<times> bool" where
  "setConsistencyState t c s =
     (case map_of (statesMap s) t of
        None \<Rightarrow> (s, False)
      | Some i \<Rightarrow> (s\<lparr>statesMap := map_set t (i\<lparr>consistencyState := c\<rparr>) (statesMap s)\<rparr>, True))"

text \<open>\<open>statesMap[t]\<close>: a target that is not in the map is inserted with the default state.\<close>

definition stateRef :: "timespec \<Rightarrow> u16 \<Rightarrow> TargetStateInfoMap \<Rightarrow> TargetStateInfoMap \<times> TargetStateInfo" where
  "stateRef now t m =
     (case map_of m t of
        None \<Rightarrow> (map_set t (newTargetStateInfo now) m, newTargetStateInfo now)
      | Some i \<Rightarrow> (m, i))"

section \<open>Reports of the servers\<close>

text \<open>
  One target of the loop of \<open>setConsistencyStatesFromLists\<close>; the flag is \<open>statesChanged\<close>, upon
  which the other nodes are told.
\<close>

definition setReported ::
    "timespec \<Rightarrow> bool \<Rightarrow> u16 \<times> u8 \<Rightarrow> MgmtdTargetStateStore \<times> bool \<Rightarrow> MgmtdTargetStateStore \<times> bool" where
  "setReported now setOnline = (\<lambda>(t, c) (s, statesChanged).
     let (m, i) = stateRef now t (statesMap s);
         r = (if setOnline then TargetReachabilityState_ONLINE else reachabilityState i);
         changed = (reachabilityState i \<noteq> r \<or> consistencyState i \<noteq> c);
         i1 = (if changed then i\<lparr>reachabilityState := r, consistencyState := c\<rparr> else i);
         i2 = (if setOnline then i1\<lparr>lastChangedTime := now\<rparr> else i1);
         s1 = s\<lparr>statesMap := map_set t i2 m\<rparr>
     in (if changed then targetsToResyncUpdate c t s1 else s1, statesChanged \<or> changed))"

definition setConsistencyStatesFromLists ::
    "timespec \<Rightarrow> u16 list \<Rightarrow> u8 list \<Rightarrow> bool \<Rightarrow> MgmtdTargetStateStore \<Rightarrow> MgmtdTargetStateStore \<times> bool" where
  "setConsistencyStatesFromLists now targetIDs consistencyStates setOnline s =
     fold (setReported now setOnline) (zip targetIDs consistencyStates) (s, False)"

text \<open>The first loop of \<open>changeConsistencyStatesFromLists\<close> compares the old states.\<close>

fun checkOldStates ::
    "timespec \<Rightarrow> u16 list \<Rightarrow> u8 list \<Rightarrow> u8 list \<Rightarrow> TargetStateInfoMap \<Rightarrow>
       TargetStateInfoMap \<times> (u16 \<times> u8) list option" where
  "checkOldStates now (t # ts) (old # olds) (new # news) m =
     (let (m', i) = stateRef now t m
      in if consistencyState i = old
         then map_prod id (map_option ((#) (t, new))) (checkOldStates now ts olds news m')
         else (m', None))"
| "checkOldStates now _ _ _ m = (m, Some [])"

text \<open>The group of a secondary that comes back is switched if its primary is offline.\<close>

definition switchToReturned ::
    "u16 \<Rightarrow> TargetStateInfoMap \<Rightarrow> MirrorBuddyGroupMapper \<Rightarrow> MirrorBuddyGroupMapper" where
  "switchToReturned t m g =
     (let (k, isPrimary) = getBuddyGroupIDUnlocked t (mirrorBuddyGroups g)
      in if isPrimary \<or> k = 0 then g
         else
           (case tss_getState (getPrimaryTargetID k (mirrorBuddyGroups g)) m of
              None \<Rightarrow> g
            | Some st \<Rightarrow> if reachabilityState st = TargetReachabilityState_OFFLINE then switchover k g else g))"

definition applyReport ::
    "timespec \<Rightarrow> u16 \<times> u8 \<Rightarrow> MgmtdTargetStateStore \<times> MirrorBuddyGroupMapper option \<times> bool \<Rightarrow>
       MgmtdTargetStateStore \<times> MirrorBuddyGroupMapper option \<times> bool" where
  "applyReport now = (\<lambda>(t, c) (s, buddyGroups, statesChanged).
     let (m, i) = stateRef now t (statesMap s);
         targetComingOnline = (reachabilityState i \<noteq> TargetReachabilityState_ONLINE);
         changed = (consistencyState i \<noteq> c \<or> targetComingOnline);
         i1 = (if changed
               then i\<lparr>consistencyState := c, reachabilityState := TargetReachabilityState_ONLINE\<rparr> else i);
         s1 = s\<lparr>statesMap := map_set t (i1\<lparr>lastChangedTime := now\<rparr>) m\<rparr>;
         s2 = (if changed then targetsToResyncUpdate c t s1 else s1)
     in (s2,
         if targetComingOnline \<and> c = TargetConsistencyState_GOOD
         then map_option (switchToReturned t (statesMap s2)) buddyGroups else buddyGroups,
         statesChanged \<or> changed))"

definition changeConsistencyStatesFromLists ::
    "timespec \<Rightarrow> u16 list \<Rightarrow> u8 list \<Rightarrow> u8 list \<Rightarrow> MirrorBuddyGroupMapper option \<Rightarrow> MgmtdTargetStateStore \<Rightarrow>
       MgmtdTargetStateStore \<times> MirrorBuddyGroupMapper option \<times> bool \<times> FhgfsOpsErr" where
  "changeConsistencyStatesFromLists now targetIDs oldStates newStates buddyGroups s =
     (case checkOldStates now targetIDs oldStates newStates (statesMap s) of
        (m, None) \<Rightarrow> (s\<lparr>statesMap := m\<rparr>, buddyGroups, False, FhgfsOpsErr_AGAIN)
      | (m, Some updatedStates) \<Rightarrow>
          (let (s', g', changed) = fold (applyReport now) updatedStates (s\<lparr>statesMap := m\<rparr>, buddyGroups, False)
           in (s', g', changed, FhgfsOpsErr_SUCCESS)))"

section \<open>Targets that time out\<close>

definition timedOut ::
    "timespec \<Rightarrow> u32 \<Rightarrow> u32 \<Rightarrow> TargetStateInfo \<Rightarrow> TargetReachabilityState option" where
  "timedOut now pofflineTimeoutMS offlineTimeoutMS i =
     (let e = elapsedSinceMS now (lastChangedTime i)
      in if e > offlineTimeoutMS
         then (if reachabilityState i \<noteq> TargetReachabilityState_OFFLINE
               then Some TargetReachabilityState_OFFLINE else None)
         else if e > pofflineTimeoutMS
         then (if reachabilityState i \<noteq> TargetReachabilityState_POFFLINE
               then Some TargetReachabilityState_POFFLINE else None)
         else None)"

definition setOfflineStates :: "timespec \<Rightarrow> u32 \<Rightarrow> u32 \<Rightarrow> TargetStateInfoMap \<Rightarrow> TargetStateInfoMap" where
  "setOfflineStates now poff off m =
     map (\<lambda>(t, i). (t, case timedOut now poff off i of None \<Rightarrow> i | Some r \<Rightarrow> i\<lparr>reachabilityState := r\<rparr>)) m"

definition offlinedTargets :: "timespec \<Rightarrow> u32 \<Rightarrow> u32 \<Rightarrow> TargetStateInfoMap \<Rightarrow> u16 list" where
  "offlinedTargets now poff off m =
     map fst (filter (\<lambda>(t, i). timedOut now poff off i = Some TargetReachabilityState_OFFLINE) m)"

definition switchFromOfflined ::
    "TargetStateInfoMap \<Rightarrow> u16 \<Rightarrow> MirrorBuddyGroupMapper \<Rightarrow> MirrorBuddyGroupMapper" where
  "switchFromOfflined m t g =
     (let (k, isPrimary) = getBuddyGroupIDUnlocked t (mirrorBuddyGroups g)
      in if \<not> isPrimary then g
         else
           (case tss_getState (getSecondaryTargetID k (mirrorBuddyGroups g)) m of
              None \<Rightarrow> g
            | Some st \<Rightarrow>
                if reachabilityState st \<noteq> TargetReachabilityState_ONLINE \<or>
                   consistencyState st \<noteq> TargetConsistencyState_GOOD
                then g else switchover k g))"

definition autoOfflineTargets ::
    "timespec \<Rightarrow> u32 \<Rightarrow> u32 \<Rightarrow> MirrorBuddyGroupMapper option \<Rightarrow> MgmtdTargetStateStore \<Rightarrow>
       MgmtdTargetStateStore \<times> MirrorBuddyGroupMapper option \<times> bool" where
  "autoOfflineTargets now pofflineTimeoutMS offlineTimeoutMS buddyGroups s =
     (let m = statesMap s;
          m' = setOfflineStates now pofflineTimeoutMS offlineTimeoutMS m
      in (s\<lparr>statesMap := m'\<rparr>,
          map_option (fold (switchFromOfflined m') (offlinedTargets now pofflineTimeoutMS offlineTimeoutMS m)) buddyGroups,
          list_ex (\<lambda>(t, i). timedOut now pofflineTimeoutMS offlineTimeoutMS i \<noteq> None) m))"

section \<open>Both targets of a group need a resync\<close>

definition onlineNeedsResyncState :: CombinedTargetState where
  "onlineNeedsResyncState = \<lparr>reachabilityState = TargetReachabilityState_ONLINE,
     consistencyState = TargetConsistencyState_NEEDS_RESYNC\<rparr>"

definition goodTargetsList :: "MirrorBuddyGroupMap \<Rightarrow> TargetStateInfoMap \<Rightarrow> u16 list" where
  "goodTargetsList groups m =
     map (firstTargetID \<circ> snd) (filter (\<lambda>(k, g).
       tss_getState (firstTargetID g) m = Some onlineNeedsResyncState \<and>
       tss_getState (secondTargetID g) m = Some onlineNeedsResyncState) groups)"

text \<open>\<open>tell\<close>: whether the server of the target is known, is reached and answers with success.\<close>

definition resolveDoubleResync ::
    "(u16 \<Rightarrow> bool) \<Rightarrow> MirrorBuddyGroupMap \<Rightarrow> MgmtdTargetStateStore \<Rightarrow> MgmtdTargetStateStore \<times> bool" where
  "resolveDoubleResync tell groups s =
     fold (\<lambda>t (s, res). if tell t then (fst (setConsistencyState t TargetConsistencyState_GOOD s), True) else (s, res))
       (goodTargetsList groups (statesMap s)) (s, False)"

section \<open>Targets to resync at startup\<close>

definition decVal :: "char \<Rightarrow> nat option" where
  "decVal c = (if c \<in> set ''0123456789'' then Some (of_char c - 48) else None)"

text \<open>\<open>sscanf\<close> with \<open>%u\<close>: blanks, a sign and digits; the value is cut from 64 to 32 bits.\<close>

definition strToUInt :: "string \<Rightarrow> u32" where
  "strToUInt s =
     (let s1 = dropWhile isSpace s;
          neg = (s1 \<noteq> [] \<and> hd s1 = CHR ''-'');
          s2 = (if s1 \<noteq> [] \<and> (hd s1 = CHR ''-'' \<or> hd s1 = CHR ''+'') then tl s1 else s1);
          v = foldl (\<lambda>v c. 10 * v + the (decVal c)) 0 (takeWhile (\<lambda>c. decVal c \<noteq> None) s2)
      in if v \<ge> 2 ^ 64 then - 1 else if neg then - word_of_nat v else word_of_nat v)"

definition loadStringListFile :: "string \<Rightarrow> string list" where
  "loadStringListFile txt =
     filter (\<lambda>l. l \<noteq> [] \<and> hd l \<noteq> STORAGETK_FILE_COMMENT_CHAR) (map trim (getLines txt))"

definition loadTargetsToResyncFromFile ::
    "timespec \<Rightarrow> string option \<Rightarrow> MgmtdTargetStateStore \<Rightarrow> MgmtdTargetStateStore \<times> bool" where
  "loadTargetsToResyncFromFile now file s =
     (case file of
        None \<Rightarrow> (s, False)
      | Some txt \<Rightarrow>
          (let ids = filter (\<lambda>t. t \<noteq> 0) (map (\<lambda>l. ucast (strToUInt l)) (loadStringListFile txt));
               todo = targetsToResync s \<union> set ids;
               st = \<lparr>reachabilityState = TargetReachabilityState_POFFLINE,
                     consistencyState = TargetConsistencyState_NEEDS_RESYNC\<rparr>
           in (s\<lparr>targetsToResync := todo, targetsToResyncSetDirty := True,
                 statesMap := fold (\<lambda>t m. fst (tss_addOrUpdate now t st m)) (sorted_list_of_set todo) (statesMap s)\<rparr>,
               True)))"

section \<open>States and groups together\<close>

definition syncStatesAndGroupsFromLists ::
    "timespec \<Rightarrow> u16 list \<Rightarrow> u8 list \<Rightarrow> u8 list \<Rightarrow> u16 list \<Rightarrow> u16 list \<Rightarrow> u16 list \<Rightarrow>
       TargetStateInfoMap \<times> MirrorBuddyGroupMapper \<Rightarrow> TargetStateInfoMap \<times> MirrorBuddyGroupMapper" where
  "syncStatesAndGroupsFromLists now targetIDs reachabilityStates consistencyStates
       buddyGroupIDs primaryTargets secondaryTargets = (\<lambda>(m, g).
     (statesFromLists now targetIDs reachabilityStates consistencyStates [],
      g\<lparr>mirrorBuddyGroups := groupsFromLists buddyGroupIDs primaryTargets secondaryTargets [],
        bg_mappingsDirty := True\<rparr>))"

definition getStatesAndGroupsAsLists ::
    "TargetStateInfoMap \<times> MirrorBuddyGroupMapper \<Rightarrow>
       (u16 list \<times> u8 list \<times> u8 list) \<times> (u16 list \<times> u16 list \<times> u16 list)" where
  "getStatesAndGroupsAsLists = (\<lambda>(m, g). (getStatesAsLists m, bg_getMappingAsLists (mirrorBuddyGroups g)))"


section \<open>Facts about states\<close>

lemma map_of_setOfflineStates:
  "map_of (setOfflineStates now poff off m) t =
     map_option (\<lambda>i. case timedOut now poff off i of None \<Rightarrow> i | Some r \<Rightarrow> i\<lparr>reachabilityState := r\<rparr>) (map_of m t)"
  unfolding setOfflineStates_def by (simp add: map_of_map)

lemma setOfflineStates_ok: "map_ok m \<Longrightarrow> map_ok (setOfflineStates now poff off m)"
  by (simp add: map_ok_def setOfflineStates_def o_def case_prod_unfold)

lemma offlinedTargets_iff:
  assumes "map_ok m"
  shows "t \<in> set (offlinedTargets now poff off m) \<longleftrightarrow>
    (\<exists>i. map_of m t = Some i \<and> timedOut now poff off i = Some TargetReachabilityState_OFFLINE)"
  by (auto simp: offlinedTargets_def map_of_Some_iff [OF assms] image_iff)

definition onlineGood :: "TargetStateInfoMap \<Rightarrow> u16 \<Rightarrow> bool" where
  "onlineGood m t \<longleftrightarrow> tss_getState t m =
     Some \<lparr>reachabilityState = TargetReachabilityState_ONLINE, consistencyState = TargetConsistencyState_GOOD\<rparr>"

lemma offlined_not_good:
  assumes "map_ok m" "t \<in> set (offlinedTargets now poff off m)"
  shows "\<not> onlineGood (setOfflineStates now poff off m) t"
  using assms(2) unfolding offlinedTargets_iff [OF assms(1)]
  by (auto simp: onlineGood_def tss_getState_def map_of_setOfflineStates state_simps)

section \<open>Facts about switched groups\<close>

definition swapGroup :: "MirrorBuddyGroup \<Rightarrow> MirrorBuddyGroup" where
  "swapGroup h = \<lparr>firstTargetID = secondTargetID h, secondTargetID = firstTargetID h\<rparr>"

lemma swapGroup_simps [simp]:
  "firstTargetID (swapGroup h) = secondTargetID h" "secondTargetID (swapGroup h) = firstTargetID h"
  by (simp_all add: swapGroup_def)

lemma switchover_map_of:
  "map_ok (mirrorBuddyGroups g) \<Longrightarrow> map_of (mirrorBuddyGroups (switchover k g)) i =
     map_option (\<lambda>h. if i = k then swapGroup h else h) (map_of (mirrorBuddyGroups g) i)"
  by (cases "map_of (mirrorBuddyGroups g) i") (auto simp: switchover_def swapGroup_def split: option.split)

text \<open>What a lookup under a target says about each group.\<close>

lemma lookup_group:
  assumes "groups_valid m" "map_of m i = Some h" "isMember t h"
  shows "getBuddyGroupIDUnlocked t m = (i, firstTargetID h = t)" "i \<noteq> 0"
  using groups_validD [OF assms(1) map_of_SomeD [OF assms(2)] assms(3)]
  by (simp_all add: getBuddyGroupIDUnlocked_def)

lemma lookup_found:
  assumes "getBuddyGroupIDUnlocked t m = (k, prim)" "prim \<or> k \<noteq> 0" "map_ok m"
  obtains h where "map_of m k = Some h" "isMember t h" "prim \<longleftrightarrow> firstTargetID h = t"
proof -
  obtain h where "findGroup t m = Some (k, h)" "prim \<longleftrightarrow> firstTargetID h = t"
    using assms(1,2) by (auto simp: getBuddyGroupIDUnlocked_def split: option.splits)
  then show thesis using findGroup_Some map_of_Some_iff [OF assms(3)] that by blast
qed

lemma switch_by_lookup:
  assumes valid: "groups_valid (mirrorBuddyGroups g)"
    and lookup: "getBuddyGroupIDUnlocked t (mirrorBuddyGroups g) = (k, prim)"
    and member: "\<And>h. P h \<Longrightarrow> isMember t h"
    and g': "g' = (if \<exists>h. map_of (mirrorBuddyGroups g) k = Some h \<and> P h then switchover k g else g)"
  shows "groups_valid (mirrorBuddyGroups g') \<and> (\<forall>i. map_of (mirrorBuddyGroups g') i =
    map_option (\<lambda>h. if P h then swapGroup h else h) (map_of (mirrorBuddyGroups g) i))"
proof -
  have ok: "map_ok (mirrorBuddyGroups g)" using valid by (simp add: groups_valid_def)
  have only: "i = k" if "map_of (mirrorBuddyGroups g) i = Some h" "P h" for i h
    using lookup_group(1) [OF valid that(1) member [OF that(2)]] lookup by simp
  have "map_of (mirrorBuddyGroups g') i =
      map_option (\<lambda>h. if P h then swapGroup h else h) (map_of (mirrorBuddyGroups g) i)" for i
  proof (cases "\<exists>h. map_of (mirrorBuddyGroups g) k = Some h \<and> P h")
    case True
    then show ?thesis
      using only [of i] unfolding g' if_P [OF True] switchover_map_of [OF ok] by (intro option.map_cong) auto
  next
    case False
    then have "\<not> P h" if "map_of (mirrorBuddyGroups g) i = Some h" for h using only [OF that] that by blast
    then show ?thesis unfolding g' if_not_P [OF False] by (cases "map_of (mirrorBuddyGroups g) i") simp_all
  qed
  then show ?thesis using switchover_valid [OF valid] valid by (simp add: g')
qed

lemma switchFromOfflined_result:
  assumes valid: "groups_valid (mirrorBuddyGroups g)"
  shows "groups_valid (mirrorBuddyGroups (switchFromOfflined m t g)) \<and>
    (\<forall>i. map_of (mirrorBuddyGroups (switchFromOfflined m t g)) i =
      map_option (\<lambda>h. if firstTargetID h = t \<and> onlineGood m (secondTargetID h) then swapGroup h else h)
        (map_of (mirrorBuddyGroups g) i))"
proof -
  obtain k prim where lookup: "getBuddyGroupIDUnlocked t (mirrorBuddyGroups g) = (k, prim)" by fastforce
  have ok: "map_ok (mirrorBuddyGroups g)" using valid by (simp add: groups_valid_def)
  have "switchFromOfflined m t g =
      (if \<exists>h. map_of (mirrorBuddyGroups g) k = Some h \<and> firstTargetID h = t \<and> onlineGood m (secondTargetID h)
       then switchover k g else g)"
  proof (cases prim)
    case True
    obtain h where h: "map_of (mirrorBuddyGroups g) k = Some h" "firstTargetID h = t"
      using lookup_found [OF lookup _ ok] True by metis
    then show ?thesis
      using True lookup
      by (auto simp: switchFromOfflined_def getSecondaryTargetID_def getMirrorBuddyGroup_def onlineGood_def
          split: option.splits)
  next
    case False
    have "\<not> (\<exists>h. map_of (mirrorBuddyGroups g) k = Some h \<and> firstTargetID h = t)"
      using lookup_group(1) [OF valid] lookup False by (force simp: isMember_def)
    then show ?thesis using False lookup by (auto simp: switchFromOfflined_def)
  qed
  from switch_by_lookup [OF valid lookup _ this] show ?thesis by (simp add: isMember_def)
qed

lemma switchFromOfflined_all:
  assumes "groups_valid (mirrorBuddyGroups g)" "\<forall>t \<in> set ts. \<not> onlineGood m t"
  shows "groups_valid (mirrorBuddyGroups (fold (switchFromOfflined m) ts g)) \<and>
    (\<forall>i. map_of (mirrorBuddyGroups (fold (switchFromOfflined m) ts g)) i =
      map_option (\<lambda>h. if firstTargetID h \<in> set ts \<and> onlineGood m (secondTargetID h) then swapGroup h else h)
        (map_of (mirrorBuddyGroups g) i))"
  using assms
proof (induction ts arbitrary: g)
  case (Cons t ts)
  note step = switchFromOfflined_result [OF Cons.prems(1), of m t]
  from Cons.prems(2) show ?case
    using Cons.IH [OF conjunct1 [OF step]] step by (auto simp: option.map_comp intro!: option.map_cong)
qed (simp add: option.map_ident)

lemma autoOfflineTargets_result:
  assumes "map_ok (statesMap s)" "groups_valid (mirrorBuddyGroups g)"
    and "autoOfflineTargets now poff off (Some g) s = (s', Some g', changed)"
  shows "map_ok (statesMap s')" "groups_valid (mirrorBuddyGroups g')"
    and "map_of (statesMap s') t =
      map_option (\<lambda>i. case timedOut now poff off i of None \<Rightarrow> i | Some r \<Rightarrow> i\<lparr>reachabilityState := r\<rparr>)
        (map_of (statesMap s) t)"
    and "map_of (mirrorBuddyGroups g') k =
      map_option (\<lambda>h. if firstTargetID h \<in> set (offlinedTargets now poff off (statesMap s)) \<and>
          onlineGood (statesMap s') (secondTargetID h) then swapGroup h else h) (map_of (mirrorBuddyGroups g) k)"
proof -
  have s': "statesMap s' = setOfflineStates now poff off (statesMap s)"
    and g': "g' = fold (switchFromOfflined (setOfflineStates now poff off (statesMap s)))
        (offlinedTargets now poff off (statesMap s)) g"
    using assms(3) by (auto simp: autoOfflineTargets_def Let_def)
  have "\<forall>t \<in> set (offlinedTargets now poff off (statesMap s)).
      \<not> onlineGood (setOfflineStates now poff off (statesMap s)) t"
    using offlined_not_good [OF assms(1)] by blast
  note all = switchFromOfflined_all [OF assms(2) this, folded g']
  show "map_ok (statesMap s')" unfolding s' using assms(1) by (rule setOfflineStates_ok)
  show "groups_valid (mirrorBuddyGroups g')" using all by blast
  show "map_of (statesMap s') t =
      map_option (\<lambda>i. case timedOut now poff off i of None \<Rightarrow> i | Some r \<Rightarrow> i\<lparr>reachabilityState := r\<rparr>)
        (map_of (statesMap s) t)" unfolding s' by (rule map_of_setOfflineStates)
  show "map_of (mirrorBuddyGroups g') k =
      map_option (\<lambda>h. if firstTargetID h \<in> set (offlinedTargets now poff off (statesMap s)) \<and>
          onlineGood (statesMap s') (secondTargetID h) then swapGroup h else h) (map_of (mirrorBuddyGroups g) k)"
    unfolding s' using all by blast
qed

section \<open>Facts about reports\<close>

text \<open>The state of a target as a report sees it: unknown targets have the default state.\<close>

definition stateAt :: "TargetStateInfoMap \<Rightarrow> u16 \<Rightarrow> CombinedTargetState" where
  "stateAt m t = (case tss_getState t m of None \<Rightarrow> defaultCombinedTargetState | Some st \<Rightarrow> st)"

lemma stateRef_result:
  assumes "stateRef now t m = (m', i)" "map_ok m"
  shows "map_ok m'" "map_of m' t = Some i" "u \<noteq> t \<or> map_of m t \<noteq> None \<Longrightarrow> map_of m' u = map_of m u"
    and "stateAt m' u = stateAt m u"
    and "reachabilityState i = reachabilityState (stateAt m t)" "consistencyState i = consistencyState (stateAt m t)"
    and "map_of m t = Some j \<Longrightarrow> m' = m \<and> i = j"
  using assms
  by (auto simp: stateRef_def stateAt_def tss_getState_def newTargetStateInfo_def defaultCombinedTargetState_def
      CombinedTargetState.defs split: option.splits if_splits)

lemma checkOldStates_result:
  assumes "checkOldStates now ts olds news m = (m', r)" "map_ok m" "length olds = length ts" "length news = length ts"
  shows "map_ok m' \<and> (\<forall>u. map_of m u \<noteq> None \<longrightarrow> map_of m' u = map_of m u) \<and> (\<forall>u. stateAt m' u = stateAt m u) \<and>
    (\<forall>u. u \<notin> set ts \<longrightarrow> map_of m' u = map_of m u) \<and>
    r = (if \<forall>(t, old) \<in> set (zip ts olds). consistencyState (stateAt m t) = old then Some (zip ts news) else None) \<and>
    (r \<noteq> None \<longrightarrow> (\<forall>t \<in> set ts. map_of m' t \<noteq> None))"
  using assms
proof (induction now ts olds news m arbitrary: m' r rule: checkOldStates.induct)
  case (1 now t ts old olds new news m)
  obtain m1 i where ref: "stateRef now t m = (m1, i)" by fastforce
  note ref' = stateRef_result [OF ref "1.prems"(2)]
  show ?case
  proof (cases "consistencyState i = old")
    case False
    have "m' = m1" "r = None" using False "1.prems"(1) ref by auto
    moreover have "map_of m1 u = map_of m u" if "map_of m u \<noteq> None" for u
      using that ref'(3) [of u] by (cases "u = t") simp_all
    moreover have "map_of m1 u = map_of m u" if "u \<notin> set (t # ts)" for u using that ref'(3) [of u] by simp
    ultimately show ?thesis using False ref'(1,4,6) by simp
  next
    case True
    obtain m2 r2 where rest: "checkOldStates now ts olds news m1 = (m2, r2)" by fastforce
    have res: "m' = m2" "r = map_option ((#) (t, new)) r2" using "1.prems"(1) ref True rest by auto
    note ih = "1.IH" [OF ref [symmetric] refl True rest ref'(1)]
    then have ih: "map_ok m2" "\<And>u. map_of m1 u \<noteq> None \<Longrightarrow> map_of m2 u = map_of m1 u"
      "\<And>u. stateAt m2 u = stateAt m1 u" "\<And>u. u \<notin> set ts \<Longrightarrow> map_of m2 u = map_of m1 u"
      "r2 = (if \<forall>(t, old) \<in> set (zip ts olds). consistencyState (stateAt m1 t) = old then Some (zip ts news) else None)"
      "r2 \<noteq> None \<Longrightarrow> \<forall>t \<in> set ts. map_of m2 t \<noteq> None"
      using "1.prems"(3,4) by simp_all
    have "map_of m2 u = map_of m u" if "map_of m u \<noteq> None" for u
      using that ref'(3) [of u] ih(2) [of u] by (cases "u = t") auto
    moreover have "r = (if \<forall>(t, old) \<in> set (zip (t # ts) (old # olds)). consistencyState (stateAt m t) = old
        then Some (zip (t # ts) (new # news)) else None)"
      unfolding res(2) ih(5) using True ref'(4,6) by auto
    moreover have "\<forall>t \<in> set (t # ts). map_of m2 t \<noteq> None" if "r \<noteq> None"
      using that ih(6) ih(2) [of t] ref'(2) res(2) by auto
    ultimately show ?thesis using ih(1,3,4) ref'(3,4) unfolding res(1) by auto
  qed
qed auto

text \<open>One report.\<close>

definition reported :: "timespec \<Rightarrow> u8 \<Rightarrow> TargetStateInfo" where
  "reported now c = \<lparr>reachabilityState = TargetReachabilityState_ONLINE, consistencyState = c, lastChangedTime = now\<rparr>"

definition comesBack :: "TargetStateInfoMap \<Rightarrow> u16 \<Rightarrow> u8 \<Rightarrow> bool" where
  "comesBack m t c \<longleftrightarrow> reachabilityState (stateAt m t) \<noteq> TargetReachabilityState_ONLINE \<and> c = TargetConsistencyState_GOOD"

definition isOffline :: "TargetStateInfoMap \<Rightarrow> u16 \<Rightarrow> bool" where
  "isOffline m t \<longleftrightarrow> (\<exists>i. map_of m t = Some i \<and> reachabilityState i = TargetReachabilityState_OFFLINE)"

lemma switchToReturned_result:
  assumes valid: "groups_valid (mirrorBuddyGroups g)"
  shows "groups_valid (mirrorBuddyGroups (switchToReturned t m g)) \<and>
    (\<forall>i. map_of (mirrorBuddyGroups (switchToReturned t m g)) i =
      map_option (\<lambda>h. if secondTargetID h = t \<and> firstTargetID h \<noteq> t \<and> isOffline m (firstTargetID h)
          then swapGroup h else h) (map_of (mirrorBuddyGroups g) i))"
proof -
  obtain k prim where lookup: "getBuddyGroupIDUnlocked t (mirrorBuddyGroups g) = (k, prim)" by fastforce
  have ok: "map_ok (mirrorBuddyGroups g)" using valid by (simp add: groups_valid_def)
  have "switchToReturned t m g =
      (if \<exists>h. map_of (mirrorBuddyGroups g) k = Some h \<and> secondTargetID h = t \<and> firstTargetID h \<noteq> t \<and>
          isOffline m (firstTargetID h) then switchover k g else g)"
  proof (cases "prim \<or> k = 0")
    case False
    obtain h where h: "map_of (mirrorBuddyGroups g) k = Some h" "isMember t h" "firstTargetID h \<noteq> t"
      using lookup_found [OF lookup _ ok] False by metis
    then show ?thesis
      using False lookup
      by (auto simp: switchToReturned_def getPrimaryTargetID_def getMirrorBuddyGroup_def isMember_def isOffline_def
          tss_getState_def split: option.splits)
  next
    case True
    have "\<not> (\<exists>h. map_of (mirrorBuddyGroups g) k = Some h \<and> secondTargetID h = t \<and> firstTargetID h \<noteq> t)"
      using lookup_group [OF valid] lookup True by (force simp: isMember_def)
    then show ?thesis using True lookup by (auto simp: switchToReturned_def)
  qed
  from switch_by_lookup [OF valid lookup _ this] show ?thesis by (simp add: isMember_def)
qed

lemma applyReport_result:
  assumes "applyReport now (t, c) (s, Some g, ch) = (s', g'', ch')"
    and "map_ok (statesMap s)" "map_of (statesMap s) t \<noteq> None" "groups_valid (mirrorBuddyGroups g)"
  shows "\<exists>g'. g'' = Some g' \<and> map_ok (statesMap s') \<and>
    map_of (statesMap s') = (map_of (statesMap s))(t \<mapsto> reported now c) \<and> groups_valid (mirrorBuddyGroups g') \<and>
    (\<forall>k. map_of (mirrorBuddyGroups g') k =
      map_option (\<lambda>h. if secondTargetID h = t \<and> comesBack (statesMap s) t c \<and> firstTargetID h \<noteq> t \<and>
          isOffline (statesMap s) (firstTargetID h) then swapGroup h else h) (map_of (mirrorBuddyGroups g) k))"
proof -
  obtain i where i: "map_of (statesMap s) t = Some i" using assms(3) by blast
  then have ref: "stateRef now t (statesMap s) = (statesMap s, i)" by (simp add: stateRef_def)
  have ret: "comesBack (statesMap s) t c \<longleftrightarrow>
      reachabilityState i \<noteq> TargetReachabilityState_ONLINE \<and> c = TargetConsistencyState_GOOD"
    using stateRef_result(5) [OF ref assms(2)] by (simp add: comesBack_def)
  have keeps: "statesMap (targetsToResyncUpdate a b x) = statesMap x" for a b x
    by (simp add: targetsToResyncUpdate_def)
  have upd: "(if consistencyState i \<noteq> c \<or> reachabilityState i \<noteq> TargetReachabilityState_ONLINE
      then i\<lparr>consistencyState := c, reachabilityState := TargetReachabilityState_ONLINE\<rparr> else i)
      \<lparr>lastChangedTime := now\<rparr> = reported now c"
    by (cases i) (auto simp: reported_def)
  have s': "statesMap s' = map_set t (reported now c) (statesMap s)"
    using assms(1) unfolding applyReport_def case_prod_conv ref Let_def upd by (auto simp: keeps)
  have g'': "g'' = (if comesBack (statesMap s) t c then Some (switchToReturned t (statesMap s') g) else Some g)"
    using assms(1) unfolding applyReport_def case_prod_conv ref Let_def upd ret s' by (auto simp: keeps)
  have off: "isOffline (statesMap s') u \<longleftrightarrow> u \<noteq> t \<and> isOffline (statesMap s) u" for u
    using assms(2) by (auto simp: isOffline_def s' reported_def state_simps)
  note sw = switchToReturned_result [OF assms(4), of t "statesMap s'", unfolded off]
  show ?thesis
  proof (cases "comesBack (statesMap s) t c")
    case True
    then show ?thesis using g'' s' assms(2) sw by (intro exI [of _ "switchToReturned t (statesMap s') g"]) auto
  next
    case False
    then show ?thesis using g'' s' assms(2,4) by (intro exI [of _ g]) (simp add: option.map_ident)
  qed
qed

text \<open>When the reports of a list switch a group.\<close>

definition reportsSwitch :: "TargetStateInfoMap \<Rightarrow> (u16 \<times> u8) list \<Rightarrow> MirrorBuddyGroup \<Rightarrow> bool" where
  "reportsSwitch m ups h \<longleftrightarrow>
     (\<exists>c. (secondTargetID h, c) \<in> set ups \<and> comesBack m (secondTargetID h) c) \<and>
     firstTargetID h \<noteq> secondTargetID h \<and> isOffline m (firstTargetID h)"

lemma reportsSwitch_step:
  assumes "map_of m' = (map_of m)(t \<mapsto> reported now c)" "t \<notin> fst ` set ups"
  shows "reportsSwitch m' ups h \<longleftrightarrow> reportsSwitch m ups h \<and> firstTargetID h \<noteq> t"
proof -
  have "isOffline m' u \<longleftrightarrow> isOffline m u \<and> u \<noteq> t" for u
    using assms(1) by (auto simp: isOffline_def reported_def state_simps)
  moreover have "comesBack m' u d \<longleftrightarrow> comesBack m u d" if "(u, d) \<in> set ups" for u d
    using assms that by (force simp: comesBack_def stateAt_def tss_getState_def)
  ultimately show ?thesis unfolding reportsSwitch_def by blast
qed

lemma fold_applyReport:
  assumes "distinct (map fst ups)" "map_ok (statesMap s)" "\<forall>t \<in> fst ` set ups. map_of (statesMap s) t \<noteq> None"
    and "groups_valid (mirrorBuddyGroups g)"
  shows "\<exists>s' g' ch'. fold (applyReport now) ups (s, Some g, ch) = (s', Some g', ch') \<and> map_ok (statesMap s') \<and>
    groups_valid (mirrorBuddyGroups g') \<and>
    (\<forall>t. map_of (statesMap s') t =
      (case map_of ups t of None \<Rightarrow> map_of (statesMap s) t | Some c \<Rightarrow> Some (reported now c))) \<and>
    (\<forall>k. map_of (mirrorBuddyGroups g) k = None \<longrightarrow> map_of (mirrorBuddyGroups g') k = None) \<and>
    (\<forall>k h. map_of (mirrorBuddyGroups g) k = Some h \<longrightarrow>
      (if firstTargetID h \<in> fst ` set ups
       then map_of (mirrorBuddyGroups g') k = Some h \<or>
         reportsSwitch (statesMap s) ups h \<and> map_of (mirrorBuddyGroups g') k = Some (swapGroup h)
       else map_of (mirrorBuddyGroups g') k = Some (if reportsSwitch (statesMap s) ups h then swapGroup h else h)))"
  using assms
proof (induction ups arbitrary: s g ch)
  case Nil
  then show ?case by (simp add: reportsSwitch_def)
next
  case (Cons u ups)
  obtain t c where u: "u = (t, c)" by fastforce
  obtain s1 gg ch1 where step: "applyReport now (t, c) (s, Some g, ch) = (s1, gg, ch1)" by (rule prod_cases3)
  have known: "map_of (statesMap s) t \<noteq> None" using Cons.prems(3) u by simp
  obtain g1 where g1: "gg = Some g1" "map_ok (statesMap s1)"
    "map_of (statesMap s1) = (map_of (statesMap s))(t \<mapsto> reported now c)" "groups_valid (mirrorBuddyGroups g1)"
    "\<And>k. map_of (mirrorBuddyGroups g1) k =
      map_option (\<lambda>h. if secondTargetID h = t \<and> comesBack (statesMap s) t c \<and> firstTargetID h \<noteq> t \<and>
          isOffline (statesMap s) (firstTargetID h) then swapGroup h else h) (map_of (mirrorBuddyGroups g) k)"
    using applyReport_result [OF step Cons.prems(2) known Cons.prems(4)] by blast
  have new: "t \<notin> fst ` set ups" "distinct (map fst ups)" using Cons.prems(1) u by simp_all
  have "\<forall>t \<in> fst ` set ups. map_of (statesMap s1) t \<noteq> None" using Cons.prems(3) unfolding g1(3) by auto
  note ih = Cons.IH [OF new(2) g1(2) this g1(4), of ch1]
  then obtain s' g' ch' where rest: "fold (applyReport now) ups (s1, Some g1, ch1) = (s', Some g', ch')"
    "map_ok (statesMap s')" "groups_valid (mirrorBuddyGroups g')"
    "\<And>t. map_of (statesMap s') t =
      (case map_of ups t of None \<Rightarrow> map_of (statesMap s1) t | Some c \<Rightarrow> Some (reported now c))"
    "\<And>k. map_of (mirrorBuddyGroups g1) k = None \<Longrightarrow> map_of (mirrorBuddyGroups g') k = None"
    "\<And>k h. map_of (mirrorBuddyGroups g1) k = Some h \<Longrightarrow>
      (if firstTargetID h \<in> fst ` set ups
       then map_of (mirrorBuddyGroups g') k = Some h \<or>
         reportsSwitch (statesMap s1) ups h \<and> map_of (mirrorBuddyGroups g') k = Some (swapGroup h)
       else map_of (mirrorBuddyGroups g') k = Some (if reportsSwitch (statesMap s1) ups h then swapGroup h else h))"
    by blast
  note later = reportsSwitch_step [OF g1(3) new(1)]
  have states: "map_of (statesMap s') v =
      (case map_of (u # ups) v of None \<Rightarrow> map_of (statesMap s) v | Some c \<Rightarrow> Some (reported now c))" for v
  proof -
    have "map_of ups t = None" using new(1) by (simp add: map_of_eq_None_iff)
    then show ?thesis unfolding rest(4) g1(3) u by (auto split: option.split)
  qed
  have groups: "if firstTargetID h \<in> fst ` set (u # ups)
       then map_of (mirrorBuddyGroups g') k = Some h \<or>
         reportsSwitch (statesMap s) (u # ups) h \<and> map_of (mirrorBuddyGroups g') k = Some (swapGroup h)
       else map_of (mirrorBuddyGroups g') k = Some (if reportsSwitch (statesMap s) (u # ups) h then swapGroup h else h)"
    if h: "map_of (mirrorBuddyGroups g) k = Some h" for k h
  proof -
    let ?now = "secondTargetID h = t \<and> comesBack (statesMap s) t c \<and> firstTargetID h \<noteq> t \<and>
      isOffline (statesMap s) (firstTargetID h)"
    have sw: "reportsSwitch (statesMap s) (u # ups) h \<longleftrightarrow> ?now \<or> reportsSwitch (statesMap s) ups h"
      by (auto simp: reportsSwitch_def u)
    show ?thesis
    proof (cases ?now)
      case True
      then have "map_of (mirrorBuddyGroups g1) k = Some (swapGroup h)" using g1(5) [of k] h by simp
      from rest(6) [OF this] True new(1) have "map_of (mirrorBuddyGroups g') k = Some (swapGroup h)"
        by (simp add: later)
      then show ?thesis using True unfolding sw by simp
    next
      case False
      then have h1: "map_of (mirrorBuddyGroups g1) k = Some h" using g1(5) [of k] h by auto
      show ?thesis
      proof (cases "firstTargetID h = t")
        case True
        then show ?thesis using rest(6) [OF h1] new(1) unfolding sw later u by simp
      next
        case no: False
        have "reportsSwitch (statesMap s) (u # ups) h \<longleftrightarrow> reportsSwitch (statesMap s) ups h" using False sw by blast
        moreover have "firstTargetID h \<in> fst ` set (u # ups) \<longleftrightarrow> firstTargetID h \<in> fst ` set ups" using no u by simp
        ultimately show ?thesis using rest(6) [OF h1] no by (simp only: later simp_thms)
      qed
    qed
  qed
  have none: "map_of (mirrorBuddyGroups g') k = None" if "map_of (mirrorBuddyGroups g) k = None" for k
    using that g1(5) [of k] rest(5) by simp
  have "fold (applyReport now) (u # ups) (s, Some g, ch) = (s', Some g', ch')"
    using rest(1) by (simp add: u step g1(1))
  then show ?case using rest(2,3) states groups none by blast
qed

section \<open>Properties\<close>

definition T0 :: timespec where
  "T0 = \<lparr>tv_sec = 0, tv_nsec = 0\<rparr>"

text \<open>Two targets, seen 10 and 1000 seconds after the start, that make up the group 5.\<close>

definition two_states :: "u8 \<Rightarrow> MgmtdTargetStateStore" where
  "two_states r = newMgmtdTargetStateStore\<lparr>statesMap :=
     [(1, \<lparr>reachabilityState = r, consistencyState = TargetConsistencyState_GOOD,
           lastChangedTime = \<lparr>tv_sec = 10, tv_nsec = 0\<rparr>\<rparr>),
      (3, \<lparr>reachabilityState = r, consistencyState = TargetConsistencyState_GOOD,
           lastChangedTime = \<lparr>tv_sec = 1000, tv_nsec = 0\<rparr>\<rparr>)]\<rparr>"

definition one_group :: MirrorBuddyGroupMapper where
  "one_group = newMirrorBuddyGroupMapper\<lparr>mirrorBuddyGroups := [(5, \<lparr>firstTargetID = 1, secondTargetID = 3\<rparr>)]\<rparr>"

lemma examples_valid: "map_ok (statesMap (two_states r))" "groups_valid (mirrorBuddyGroups one_group)"
  by (simp_all add: two_states_def one_group_def groups_valid_def)

text \<open>
  C24: reports of changed consistency states (of different targets) are stored together or not
  at all, as a compare-and-swap on the old states. When they are stored, a group is only switched
  to a secondary that is online and good then, and only from a primary that was offline; if its
  primary reports nothing, it is switched exactly if its secondary comes back with a good state.
\<close>

theorem state_reports:
  assumes "map_ok (statesMap s)" "groups_valid (mirrorBuddyGroups g)"
    and "distinct ts" "length olds = length ts" "length news = length ts"
    and "changeConsistencyStatesFromLists now ts olds news (Some g) s = (s', Some g', changed, res)"
  shows "res = (if \<forall>(t, old) \<in> set (zip ts olds). consistencyState (stateAt (statesMap s) t) = old
      then FhgfsOpsErr_SUCCESS else FhgfsOpsErr_AGAIN) \<and>
    (res = FhgfsOpsErr_AGAIN \<longrightarrow> g' = g \<and>
      (\<forall>t. map_of (statesMap s) t \<noteq> None \<longrightarrow> map_of (statesMap s') t = map_of (statesMap s) t)) \<and>
    (res = FhgfsOpsErr_SUCCESS \<longrightarrow> groups_valid (mirrorBuddyGroups g') \<and>
      (\<forall>t. map_of (statesMap s') t =
        (case map_of (zip ts news) t of None \<Rightarrow> map_of (statesMap s) t | Some c \<Rightarrow> Some (reported now c))) \<and>
      (\<forall>k h. map_of (mirrorBuddyGroups g) k = Some h \<longrightarrow>
        (map_of (mirrorBuddyGroups g') k = Some h \<or>
          map_of (mirrorBuddyGroups g') k = Some (swapGroup h) \<and> onlineGood (statesMap s') (secondTargetID h) \<and>
          reachabilityState (stateAt (statesMap s) (firstTargetID h)) = TargetReachabilityState_OFFLINE) \<and>
        (firstTargetID h \<notin> set ts \<longrightarrow> map_of (mirrorBuddyGroups g') k =
          Some (if reportsSwitch (statesMap s) (zip ts news) h then swapGroup h else h))))"
proof -
  obtain m r where check: "checkOldStates now ts olds news (statesMap s) = (m, r)" by fastforce
  note c = checkOldStates_result [OF check assms(1,4,5)]
  show ?thesis
  proof (cases r)
    case None
    then have "res = FhgfsOpsErr_AGAIN" "g' = g" "statesMap s' = m"
      using assms(6) check by (auto simp: changeConsistencyStatesFromLists_def)
    moreover from None c have "\<not> (\<forall>(t, old) \<in> set (zip ts olds). consistencyState (stateAt (statesMap s) t) = old)"
      by (metis option.distinct(1))
    ultimately show ?thesis using c by simp
  next
    case (Some ups)
    have match: "\<forall>(t, old) \<in> set (zip ts olds). consistencyState (stateAt (statesMap s) t) = old"
      and ups: "ups = zip ts news" using Some c by (metis option.distinct(1), metis option.distinct(1) option.inject)
    have keys: "map fst ups = ts" using assms(5) ups by simp
    then have keys': "fst ` set ups = set ts" by (metis list.set_map)
    define s1 where "s1 = s\<lparr>statesMap := m\<rparr>"
    have s1: "statesMap s1 = m" by (simp add: s1_def)
    have known: "\<forall>t \<in> fst ` set ups. map_of (statesMap s1) t \<noteq> None"
      using c Some unfolding keys' s1 by simp
    have m: "map_ok (statesMap s1)" "distinct (map fst ups)" using c assms(3) keys s1 by simp_all
    have call: "fold (applyReport now) ups (s1, Some g, False) = (s', Some g', changed)"
      and res: "res = FhgfsOpsErr_SUCCESS"
      using assms(6) check Some by (auto simp: changeConsistencyStatesFromLists_def s1_def split: prod.splits)
    note all = fold_applyReport [OF m(2,1) known assms(2), of now False, unfolded call s1 keys']
    then have valid: "groups_valid (mirrorBuddyGroups g')"
      and states: "\<forall>t. map_of (statesMap s') t =
        (case map_of ups t of None \<Rightarrow> map_of m t | Some c \<Rightarrow> Some (reported now c))"
      and groups: "\<forall>k h. map_of (mirrorBuddyGroups g) k = Some h \<longrightarrow>
        (if firstTargetID h \<in> set ts
         then map_of (mirrorBuddyGroups g') k = Some h \<or>
           reportsSwitch m ups h \<and> map_of (mirrorBuddyGroups g') k = Some (swapGroup h)
         else map_of (mirrorBuddyGroups g') k = Some (if reportsSwitch m ups h then swapGroup h else h))"
      by blast+
    note states = states [rule_format] and groups = groups [rule_format]
    have comes: "comesBack m t d \<longleftrightarrow> comesBack (statesMap s) t d" for t d using c by (simp add: comesBack_def)
    have same: "reportsSwitch m ups h \<longleftrightarrow> reportsSwitch (statesMap s) ups h" if "firstTargetID h \<notin> set ts" for h
      using c that by (simp add: reportsSwitch_def comes isOffline_def)
    have safe: "onlineGood (statesMap s') (secondTargetID h)"
      "reachabilityState (stateAt (statesMap s) (firstTargetID h)) = TargetReachabilityState_OFFLINE"
      if sw: "reportsSwitch m ups h" for h
    proof -
      obtain d where "(secondTargetID h, d) \<in> set ups" "d = TargetConsistencyState_GOOD"
        using sw by (auto simp: reportsSwitch_def comesBack_def)
      then have "map_of ups (secondTargetID h) = Some TargetConsistencyState_GOOD" using m(2) by simp
      then show "onlineGood (statesMap s') (secondTargetID h)"
        by (simp add: onlineGood_def tss_getState_def states reported_def)
      have "reachabilityState (stateAt m (firstTargetID h)) = TargetReachabilityState_OFFLINE"
        using sw by (auto simp: reportsSwitch_def isOffline_def stateAt_def tss_getState_def)
      then show "reachabilityState (stateAt (statesMap s) (firstTargetID h)) = TargetReachabilityState_OFFLINE"
        using c by simp
    qed
    have states': "map_of (statesMap s') t =
        (case map_of (zip ts news) t of None \<Rightarrow> map_of (statesMap s) t | Some c \<Rightarrow> Some (reported now c))" for t
    proof (cases "map_of ups t")
      case None
      then have "t \<notin> set ts" using keys' by (simp add: map_of_eq_None_iff)
      then show ?thesis using None c unfolding states ups by simp
    qed (simp add: states ups)
    have "map_of (mirrorBuddyGroups g') k = Some h \<or>
          map_of (mirrorBuddyGroups g') k = Some (swapGroup h) \<and> onlineGood (statesMap s') (secondTargetID h) \<and>
          reachabilityState (stateAt (statesMap s) (firstTargetID h)) = TargetReachabilityState_OFFLINE"
      if "map_of (mirrorBuddyGroups g) k = Some h" for k h
      using groups [OF that] safe [of h] by (auto split: if_splits)
    moreover have "map_of (mirrorBuddyGroups g') k =
          Some (if reportsSwitch (statesMap s) (zip ts news) h then swapGroup h else h)"
      if "map_of (mirrorBuddyGroups g) k = Some h" "firstTargetID h \<notin> set ts" for k h
      using groups [OF that(1)] that(2) same [OF that(2)] unfolding ups by simp
    ultimately show ?thesis using res match valid states' by simp
  qed
qed

theorem state_reports_witness:
  "\<exists>s' g' changed. changeConsistencyStatesFromLists T0 [3] [TargetConsistencyState_GOOD]
     [TargetConsistencyState_GOOD] (Some one_group) (two_states TargetReachabilityState_OFFLINE) =
       (s', Some g', changed, FhgfsOpsErr_SUCCESS) \<and>
     map_of (mirrorBuddyGroups g') 5 = Some \<lparr>firstTargetID = 3, secondTargetID = 1\<rparr>"
proof -
  let ?s = "two_states TargetReachabilityState_OFFLINE"
  let ?good = "[TargetConsistencyState_GOOD]"
  have "\<exists>s' g' changed. changeConsistencyStatesFromLists T0 [3] ?good ?good (Some one_group) ?s =
      (s', Some g', changed, FhgfsOpsErr_SUCCESS)"
    by (simp add: changeConsistencyStatesFromLists_def stateRef_def two_states_def applyReport_def Let_def
        split: prod.split)
  then obtain s' g' changed where call: "changeConsistencyStatesFromLists T0 [3] ?good ?good (Some one_group) ?s =
      (s', Some g', changed, FhgfsOpsErr_SUCCESS)" by blast
  have "map_of (mirrorBuddyGroups one_group) 5 = Some \<lparr>firstTargetID = 1, secondTargetID = 3\<rparr>"
    by (simp add: one_group_def)
  moreover have "reportsSwitch (statesMap ?s) (zip [3] ?good) \<lparr>firstTargetID = 1, secondTargetID = 3\<rparr>"
    by (simp add: reportsSwitch_def two_states_def comesBack_def isOffline_def stateAt_def tss_getState_def state_simps)
  ultimately have "map_of (mirrorBuddyGroups g') 5 = Some (swapGroup \<lparr>firstTargetID = 1, secondTargetID = 3\<rparr>)"
    using state_reports [OF examples_valid _ _ _ call] by simp
  with call show ?thesis by (simp add: swapGroup_def)
qed

text \<open>Reports that are turned away leave entries for unknown targets behind.\<close>

lemma rejected_report_inserts:
  "changeConsistencyStatesFromLists T0 [7] [TargetConsistencyState_BAD] [TargetConsistencyState_GOOD] None
     newMgmtdTargetStateStore =
   (newMgmtdTargetStateStore\<lparr>statesMap := [(7, newTargetStateInfo T0)]\<rparr>, None, False, FhgfsOpsErr_AGAIN)"
  by (simp add: changeConsistencyStatesFromLists_def stateRef_def newMgmtdTargetStateStore_def newTargetStateInfo_def
      defaultCombinedTargetState_def CombinedTargetState.defs state_simps)

text \<open>
  C40: the check for timeouts sets each target to offline or probably-offline by the time since
  its last report, and switches exactly the groups whose primary went offline in this call and
  whose secondary is online and good; all other groups stay as they are.
\<close>

theorem auto_offline:
  assumes "map_ok (statesMap s)" "groups_valid (mirrorBuddyGroups g)"
    and "autoOfflineTargets now poff off (Some g) s = (s', Some g', changed)"
  shows "groups_valid (mirrorBuddyGroups g') \<and>
    map_of (statesMap s') t =
      (case map_of (statesMap s) t of
         None \<Rightarrow> None
       | Some i \<Rightarrow> Some (i\<lparr>reachabilityState :=
           if elapsedSinceMS now (lastChangedTime i) > off then TargetReachabilityState_OFFLINE
           else if elapsedSinceMS now (lastChangedTime i) > poff then TargetReachabilityState_POFFLINE
           else reachabilityState i\<rparr>)) \<and>
    map_of (mirrorBuddyGroups g') k =
      (case map_of (mirrorBuddyGroups g) k of
         None \<Rightarrow> None
       | Some h \<Rightarrow> Some
           (if isOffline (statesMap s') (firstTargetID h) \<and> \<not> isOffline (statesMap s) (firstTargetID h) \<and>
               onlineGood (statesMap s') (secondTargetID h)
            then \<lparr>firstTargetID = secondTargetID h, secondTargetID = firstTargetID h\<rparr> else h))"
proof -
  note r = autoOfflineTargets_result [OF assms]
  have went: "u \<in> set (offlinedTargets now poff off (statesMap s)) \<longleftrightarrow>
      isOffline (statesMap s') u \<and> \<not> isOffline (statesMap s) u" for u
  proof (cases "map_of (statesMap s) u")
    case (Some i)
    then show ?thesis
      unfolding offlinedTargets_iff [OF assms(1)] isOffline_def r(3)
      by (cases "elapsedSinceMS now (lastChangedTime i) > off"; cases "elapsedSinceMS now (lastChangedTime i) > poff";
          cases "reachabilityState i = TargetReachabilityState_OFFLINE")
        (simp_all add: timedOut_def state_simps)
  qed (simp add: offlinedTargets_iff [OF assms(1)] isOffline_def r(3))
  have "map_of (statesMap s') t =
      (case map_of (statesMap s) t of
         None \<Rightarrow> None
       | Some i \<Rightarrow> Some (i\<lparr>reachabilityState :=
           if elapsedSinceMS now (lastChangedTime i) > off then TargetReachabilityState_OFFLINE
           else if elapsedSinceMS now (lastChangedTime i) > poff then TargetReachabilityState_POFFLINE
           else reachabilityState i\<rparr>))"
    unfolding r(3) by (auto simp: timedOut_def Let_def split: option.splits)
  moreover have "map_of (mirrorBuddyGroups g') k =
      (case map_of (mirrorBuddyGroups g) k of
         None \<Rightarrow> None
       | Some h \<Rightarrow> Some
           (if isOffline (statesMap s') (firstTargetID h) \<and> \<not> isOffline (statesMap s) (firstTargetID h) \<and>
               onlineGood (statesMap s') (secondTargetID h)
            then \<lparr>firstTargetID = secondTargetID h, secondTargetID = firstTargetID h\<rparr> else h))"
    unfolding r(4) went swapGroup_def by (simp split: option.split)
  ultimately show ?thesis using r(2) by blast
qed

theorem auto_offline_witness:
  "\<exists>s' g'. autoOfflineTargets \<lparr>tv_sec = 1010, tv_nsec = 0\<rparr> 30000 600000 (Some one_group)
      (two_states TargetReachabilityState_ONLINE) = (s', Some g', True) \<and>
    map_of (mirrorBuddyGroups g') 5 = Some \<lparr>firstTargetID = 3, secondTargetID = 1\<rparr>"
proof -
  let ?s = "two_states TargetReachabilityState_ONLINE"
  obtain s' g' ch where call: "autoOfflineTargets \<lparr>tv_sec = 1010, tv_nsec = 0\<rparr> 30000 600000 (Some one_group) ?s =
      (s', Some g', ch)" by (auto simp: autoOfflineTargets_def Let_def)
  have ch: ch
    using call by (simp add: autoOfflineTargets_def two_states_def timedOut_def elapsedSinceMS_def state_simps Let_def)
  have "map_of (mirrorBuddyGroups g') 5 = Some \<lparr>firstTargetID = 3, secondTargetID = 1\<rparr>"
    using auto_offline [OF examples_valid call, of 1 5] auto_offline [OF examples_valid call, of 3 5]
    by (simp add: one_group_def two_states_def elapsedSinceMS_def isOffline_def onlineGood_def tss_getState_def
        state_simps)
  then show ?thesis using call ch by simp
qed

end
