(* ===== verification/StateFile.thy ===== *)
theory StateFile
  imports MgmtdStates Serial
begin

text \<open>
  The file of the target states (\<open>SerializeTargetStateInfoMap.cpp\<close>,
  \<open>MgmtdTargetStateStore::saveStates\<close> and \<open>loadStates\<close>) and what the tables of the management
  server look like after they were saved and loaded. The results of the system calls are
  arguments: the contents of the file, \<open>None\<close> if it cannot be opened.
\<close>

section \<open>Definitions\<close>

text \<open>The enumerations have the values 0 to 3 at most, so they are cut to a byte.\<close>

definition serializeTargetStateInfoMapElement :: "u16 \<times> TargetStateInfo \<Rightarrow> u8 list" where
  "serializeTargetStateInfoMapElement = (\<lambda>(t, i).
     serializeUInt16 t @ serializeInt (ucast (reachabilityState i)) @ serializeInt (ucast (consistencyState i)) @
     serializeInt64 (tv_sec (lastChangedTime i)) @ serializeInt64 (tv_nsec (lastChangedTime i)))"

definition deserializeTargetStateInfoMapElement :: "(u16 \<times> TargetStateInfo) decoder" where
  "deserializeTargetStateInfoMapElement =
     dbind deserializeUInt16 (\<lambda>t. dbind deserializeInt (\<lambda>r. dbind deserializeInt (\<lambda>c.
     dbind deserializeInt64 (\<lambda>sec. dbind deserializeInt64 (\<lambda>nsec.
       dreturn (t, \<lparr>reachabilityState = ucast r, consistencyState = ucast c,
                    lastChangedTime = \<lparr>tv_sec = sec, tv_nsec = nsec\<rparr>\<rparr>))))))"

definition serialLenTargetStateInfoMapElem :: u32 where
  "serialLenTargetStateInfoMapElem =
     serialLenUInt16 + serialLenInt + serialLenInt + serialLenInt64 + serialLenInt64"

definition serializeTargetStateInfoMap :: "TargetStateInfoMap \<Rightarrow> u8 list" where
  "serializeTargetStateInfoMap m =
     serializeUInt (word_of_nat (length m)) @ concat (map serializeTargetStateInfoMapElement m)"

definition serialLenTargetStateInfoMap :: "TargetStateInfoMap \<Rightarrow> u32" where
  "serialLenTargetStateInfoMap m =
     word_of_nat (4 + length m * unat serialLenTargetStateInfoMapElem)"

text \<open>The number of elements and the length of the whole.\<close>

definition deserializeTargetStateInfoMapPreprocess :: "u8 list \<Rightarrow> nat \<Rightarrow> decode_error + u32 \<times> nat" where
  "deserializeTargetStateInfoMapPreprocess buf bufLen =
     (case deserializeUInt buf bufLen of
        Inl e \<Rightarrow> Inl e
      | Inr (elemNum, k) \<Rightarrow>
          (case deserElems deserializeTargetStateInfoMapElement (unat elemNum) (drop k buf) (bufLen - k) of
             Inl e \<Rightarrow> Inl e
           | Inr (_, n) \<Rightarrow> Inr (elemNum, k + n)))"

text \<open>\<open>insert\<close> leaves an entry that is there already as it is.\<close>

definition deserializeTargetStateInfoMap :: "u32 \<Rightarrow> u8 list \<Rightarrow> decode_error + TargetStateInfoMap" where
  "deserializeTargetStateInfoMap elemNum infoStart =
     (case deserElems deserializeTargetStateInfoMapElement (unat elemNum) infoStart size_max of
        Inl e \<Rightarrow> Inl e
      | Inr (es, _) \<Rightarrow> Inr (fold (\<lambda>(t, i) m. if map_of m t = None then map_set t i m else m) es []))"

definition MGMTDTARGETSTATESTORE_SERBUF_SIZE :: nat where
  "MGMTDTARGETSTATESTORE_SERBUF_SIZE = 4 * 1024 * 1024"

definition saveStates :: "MgmtdTargetStateStore \<Rightarrow> u8 list" where
  "saveStates s = serializeTargetStateInfoMap (statesMap s)"

definition loadStates ::
    "timespec \<Rightarrow> u8 list option \<Rightarrow> MgmtdTargetStateStore \<Rightarrow> MgmtdTargetStateStore \<times> bool" where
  "loadStates now file s =
     (case file of
        None \<Rightarrow> (s, False)
      | Some bytes \<Rightarrow>
          (let buf = take MGMTDTARGETSTATESTORE_SERBUF_SIZE bytes
           in if buf = [] then (s, False)
              else
                (case deserializeTargetStateInfoMapPreprocess buf (length buf) of
                   Inl e \<Rightarrow> (s, False)
                 | Inr (elemNum, len) \<Rightarrow>
                     (case deserializeTargetStateInfoMap elemNum (drop 4 buf) of
                        Inl e \<Rightarrow> (s, False)
                      | Inr tmpMap \<Rightarrow>
                          (s\<lparr>statesMap := setAllStates now TargetReachabilityState_POFFLINE tmpMap\<rparr>, True)))))"

section \<open>Facts\<close>

lemma ucast_u8_i32: "(ucast (ucast (x :: u8) :: i32) :: u8) = x"
  by (rule bit_word_eqI) (auto simp: bit_simps)

interpretation stateElem: codec serializeTargetStateInfoMapElement deserializeTargetStateInfoMapElement
  "\<lambda>_. serialLenTargetStateInfoMapElem" "\<lambda>_. True"
proof (rule codecI)
  fix e :: "u16 \<times> TargetStateInfo"
  obtain t i where e: "e = (t, i)" by fastforce
  have "reads deserializeTargetStateInfoMapElement e (serializeTargetStateInfoMapElement e) (2 + (4 + (4 + (8 + 8))))"
    unfolding serializeTargetStateInfoMapElement_def deserializeTargetStateInfoMapElement_def e case_prod_conv
    by (rule reads_bind [OF reads_len [OF uint16.reads [OF TrueI]]],
        simp add: serialLenUInt16_def,
        rule reads_bind [OF reads_len [OF int.reads [OF TrueI]]],
        simp add: serialLenInt_def serialLenUInt_def,
        rule reads_bind [OF reads_len [OF int.reads [OF TrueI]]],
        simp add: serialLenInt_def serialLenUInt_def,
        rule reads_bind [OF reads_len [OF int64.reads [OF TrueI]]],
        simp add: serialLenInt64_def serialLenUInt64_def,
        rule reads_last [OF reads_len [OF int64.reads [OF TrueI]]],
        simp_all add: serialLenInt64_def serialLenUInt64_def ucast_u8_i32)
  then show "reads deserializeTargetStateInfoMapElement e (serializeTargetStateInfoMapElement e)
      (unat serialLenTargetStateInfoMapElem)"
    by (simp add: serialLenTargetStateInfoMapElem_def serialLenUInt16_def serialLenInt_def serialLenUInt_def
        serialLenInt64_def serialLenUInt64_def)
qed

lemma elemLen: "unat serialLenTargetStateInfoMapElem = 26"
  by (simp add: serialLenTargetStateInfoMapElem_def serialLenUInt16_def serialLenInt_def serialLenUInt_def
      serialLenInt64_def serialLenUInt64_def)

lemma u16_map_length:
  assumes "map_ok (m :: (u16 \<times> 'v) list)"
  shows "length m \<le> 65536"
proof -
  have "card (fst ` set m) \<le> card (UNIV :: u16 set)" by (rule card_mono) simp_all
  then show ?thesis using map_ok_length [OF assms] by (simp add: card_word)
qed

lemma insert_loop:
  assumes "map_ok (m :: (u16 \<times> 'v) list)"
  shows "fold (\<lambda>(t, i) m. if map_of m t = None then map_set t i m else m) m [] = m"
proof -
  have "fold (\<lambda>(t, i) m. if map_of m t = None then map_set t i m else m) es m0 = map_fill es m0"
    if "distinct (map fst es)" "fst ` set es \<inter> fst ` set m0 = {}" for es and m0 :: "(u16 \<times> 'v) list"
    using that
  proof (induction es arbitrary: m0)
    case (Cons e es)
    obtain t i where e: "e = (t, i)" by fastforce
    then have "map_of m0 t = None" using Cons.prems(2) by (simp add: map_of_eq_None_iff)
    then show ?case using Cons e by (auto simp: map_fill_def)
  qed (simp add: map_fill_def)
  from this [of m "[]"] show ?thesis using map_ok_distinct [OF assms] map_fill_self [OF assms] by simp
qed

lemma states_round_trip:
  assumes "map_ok (statesMap s)"
  shows "loadStates now (Some (saveStates s)) s' =
    (s'\<lparr>statesMap := setAllStates now TargetReachabilityState_POFFLINE (statesMap s)\<rparr>, True)"
proof -
  let ?m = "statesMap s"
  let ?bytes = "saveStates s"
  have len: "length ?m \<le> 65536" using u16_map_length [OF assms] .
  have ok: "list_all (\<lambda>_. True) ?m" by (simp add: list_all_iff)
  have sum: "sum_list (map (\<lambda>e. unat serialLenTargetStateInfoMapElem) ?m) = length ?m * 26"
    by (simp add: elemLen sum_list_triv)
  have four: "length (serializeUInt v) = 4" for v by (simp add: uint.ser_len serialLenUInt_def)
  have size: "length ?bytes = 4 + length ?m * 26"
    using stateElem.elems_length [OF ok] sum by (simp add: saveStates_def serializeTargetStateInfoMap_def four)
  have cnt: "unat (word_of_nat (length ?m) :: u32) = length ?m" using len by (simp add: unat_of_nat)
  have all: "take MGMTDTARGETSTATESTORE_SERBUF_SIZE ?bytes = ?bytes"
    using size len by (simp add: MGMTDTARGETSTATESTORE_SERBUF_SIZE_def)
  have head: "deserializeUInt ?bytes (length ?bytes) = Inr (word_of_nat (length ?m), 4)"
    using uint.round_trip [OF TrueI] size
    by (simp add: saveStates_def serializeTargetStateInfoMap_def serialLenUInt_def)
  have tail: "drop 4 ?bytes = concat (map serializeTargetStateInfoMapElement ?m) @ []"
    by (simp add: saveStates_def serializeTargetStateInfoMap_def four)
  have elems: "deserElems deserializeTargetStateInfoMapElement (length ?m) (drop 4 ?bytes) n = Inr (?m, length ?m * 26)"
    if "length ?m * 26 \<le> n" for n
    unfolding tail using stateElem.elems_round [OF ok, of n "[]"] that sum by simp
  have "deserializeTargetStateInfoMapPreprocess ?bytes (length ?bytes) = Inr (word_of_nat (length ?m), length ?bytes)"
    using head elems [of "length ?bytes - 4"] size by (simp add: deserializeTargetStateInfoMapPreprocess_def cnt)
  moreover have "deserializeTargetStateInfoMap (word_of_nat (length ?m)) (drop 4 ?bytes) = Inr ?m"
    using elems [of size_max] len
    by (simp add: deserializeTargetStateInfoMap_def cnt insert_loop [OF assms] size_max_def)
  moreover have "?bytes \<noteq> []" using size by auto
  ultimately show ?thesis unfolding loadStates_def by (simp add: all)
qed

section \<open>Properties\<close>

text \<open>
  C38: the tables of the targets, the buddy groups, the numeric IDs and the target states are read
  back unchanged from the files they are saved to, except that all loaded targets are
  probably-offline; string IDs need not be quoted as long as they have no \<open>=\<close>, no line break, no
  blank at an end and no \<open>#\<close> at the start.
\<close>

theorem map_files_round_trip:
  assumes "map_ok (tm_targets t)" "map_ok (mirrorBuddyGroups b)" "map_ok (idMap n)" "map_ok (statesMap s)"
    and "\<forall>(k, i) \<in> set (idMap n). plain_key k"
  shows "tm_targets (fst (tm_loadFromFile now (Some (fst (tm_saveToFile t))) t')) = tm_targets t \<and>
    mirrorBuddyGroups (fst (bg_loadFromFile (Some (fst (bg_saveToFile b))) b')) = mirrorBuddyGroups b \<and>
    idMap (fst (nid_loadFromFile (Some (fst (nid_saveToFile n))) n')) = idMap n \<and>
    loadStates now (Some (saveStates s)) s' =
      (s'\<lparr>statesMap := setAllStates now TargetReachabilityState_POFFLINE (statesMap s)\<rparr>, True)"
  using tm_file_round_trip [OF assms(1)] bg_file_round_trip [OF assms(2)] nid_file_round_trip [OF assms(3,5)]
    states_round_trip [OF assms(4)] by simp

theorem map_files_round_trip_witness:
  "mirrorBuddyGroups (fst (bg_loadFromFile (Some (fst (bg_saveToFile one_group))) newMirrorBuddyGroupMapper)) =
     [(5, \<lparr>firstTargetID = 1, secondTargetID = 3\<rparr>)] \<and>
   snd (loadStates T0 (Some (saveStates (two_states TargetReachabilityState_OFFLINE))) newMgmtdTargetStateStore)"
  using map_files_round_trip [of four_targets one_group "\<lparr>idMap = [(''a b'', 3)], mappingsDirty = False\<rparr>"
      "two_states TargetReachabilityState_OFFLINE"] examples_valid
  by (simp add: four_targets_def one_group_def plain_key_def plain_def trim_def isBlank_def
      STORAGETK_FILE_COMMENT_CHAR_def)

end
