(* ===== verification/MathTk.thy ===== *)
theory MathTk
  imports Prelude
begin

text \<open>
  The bit tricks of \<open>MathTk.h\<close> (fhgfs_common) and the facts about words that make them
  equal to division and remainder: for a power of two \<open>c\<close>, \<open>x & (c - 1)\<close> is \<open>x mod c\<close>
  and \<open>x >> log2(c)\<close> is \<open>x div c\<close>.

  Positions and sizes are \<open>int64_t\<close>, kept as 64-bit words; the facts are for non-negative
  values (\<open>unat x < 2 ^ 63\<close>). \<open>>>\<close> on a signed value is \<open>signed_drop_bit\<close>.
\<close>

section \<open>The functions\<close>

text \<open>\<open>__builtin_clz\<close>: the zero bits above the highest set bit, looking at the lowest \<open>n\<close> bits.\<close>

fun clz_below :: "nat \<Rightarrow> 'a::len word \<Rightarrow> nat" where
  "clz_below 0 w = 0"
| "clz_below (Suc n) w = (if bit w n then 0 else Suc (clz_below n w))"

definition log2Int32 :: "u32 \<Rightarrow> u32" where
  "log2Int32 value = 4 * 8 - 1 - word_of_nat (clz_below 32 value)"

definition log2Int64 :: "u64 \<Rightarrow> u32" where
  "log2Int64 value = 8 * 8 - 1 - word_of_nat (clz_below 64 value)"

definition isPowerOfTwo :: "u32 \<Rightarrow> bool" where
  "isPowerOfTwo value \<longleftrightarrow> \<not> (value AND (value - 1) \<noteq> 0)"

section \<open>Powers of two\<close>

definition pow2 :: "nat \<Rightarrow> u32 \<Rightarrow> bool" where
  "pow2 k c \<longleftrightarrow> k < 32 \<and> unat c = 2 ^ k"

lemma pow2_word: "pow2 k c \<Longrightarrow> c = 2 ^ k"
proof -
  assume "pow2 k c"
  then have k: "unat c = 2 ^ k" by (simp add: pow2_def)
  have "c = word_of_nat (unat c)" by simp
  then show ?thesis unfolding k by simp
qed

lemma pow2_pos: "pow2 k c \<Longrightarrow> 0 < unat c"
  by (simp add: pow2_def)

lemma clz_power: "k < n \<Longrightarrow> n \<le> LENGTH('a) \<Longrightarrow> clz_below n (2 ^ k :: 'a::len word) = n - 1 - k"
proof (induction n)
  case (Suc n)
  show ?case
  proof (cases "k = n")
    case True
    with Suc.prems show ?thesis by (simp add: bit_simps)
  next
    case False
    with Suc show ?thesis by (simp add: bit_simps Suc_diff_Suc)
  qed
qed simp

lemma log2_pow2: "pow2 k c \<Longrightarrow> unat (log2Int32 c) = k"
proof -
  assume p: "pow2 k c"
  then have k: "k < 32" by (simp add: pow2_def)
  have "clz_below 32 c = 31 - k"
    using clz_power [of k 32, where ?'a = 32] k pow2_word [OF p] by simp
  moreover have "word_of_nat (31 - k) = (31 - word_of_nat k :: u32)"
    using k by (simp add: of_nat_diff)
  ultimately show ?thesis
    using k by (simp add: log2Int32_def unat_of_nat)
qed

lemma isPowerOfTwo_pow2:
  assumes "isPowerOfTwo v" "v \<noteq> 0"
  shows "\<exists>k. pow2 k v"
proof -
  have pos: "1 \<le> unat v" using assms(2) by (simp add: Suc_le_eq unat_gt_0)
  obtain h where h: "2 ^ h \<le> unat v" "unat v < 2 ^ (h + 1)"
    using ex_power_ivl1 [of 2 "unat v"] pos by auto
  have "(2 :: nat) ^ h < 2 ^ 32" using h(1) unsigned_less [of v, where ?'a = nat] by simp
  then have h32: "h < 32" by (rule power_less_imp_less_exp [rotated]) simp
  have top: "bit w h" if "2 ^ h \<le> unat w" "unat w < 2 ^ (h + 1)" for w :: u32
  proof -
    have "unat w div 2 ^ h = 1" using that by (intro div_nat_eqI) simp_all
    then have "bit (unat w) h" by (simp add: bit_iff_odd)
    then show ?thesis by (simp add: bit_unsigned_iff)
  qed
  have "unat v = 2 ^ h"
  proof (rule ccontr)
    assume "unat v \<noteq> 2 ^ h"
    with h have m: "2 ^ h \<le> unat v - 1" by simp
    have "unat (v - 1) = unat v - 1"
      using pos by (simp add: unat_sub word_le_nat_alt)
    with m h have "bit (v AND (v - 1)) h" by (auto simp: bit_and_iff intro!: top)
    with assms(1) show False by (simp add: isPowerOfTwo_def)
  qed
  with h32 show ?thesis by (auto simp: pow2_def)
qed

lemma pow2_mask: "pow2 k c \<Longrightarrow> c - 1 = mask k"
  using pow2_word by (simp add: mask_eq_exp_minus_1)

lemma pow2_isPowerOfTwo: "pow2 k c \<Longrightarrow> isPowerOfTwo c"
  using pow2_word [of k c] pow2_mask [of k c]
  by (auto simp: isPowerOfTwo_def bit_simps intro!: bit_word_eqI)

section \<open>Remainder and division\<close>

lemma and_pow2:
  fixes x :: u64
  assumes "pow2 k c"
  shows "unat (x AND ucast (c - 1)) = unat x mod unat c"
proof -
  have "k < 32" "unat c = 2 ^ k" using assms by (simp_all add: pow2_def)
  moreover from this have "(ucast (mask k :: u32) :: u64) = mask k"
    by (intro bit_word_eqI) (auto simp: bit_simps)
  ultimately show ?thesis
    by (simp add: pow2_mask [OF assms] unsigned_take_bit_eq take_bit_nat_def flip: take_bit_eq_mask)
qed

lemma shift_nonneg:
  fixes x :: u64
  assumes "unat x < 2 ^ 63"
  shows "unat (signed_drop_bit k x) = unat x div 2 ^ k"
proof -
  have "\<not> bit x 63"
  proof
    assume "bit x 63"
    then have "bit (unat x) 63" by (simp add: bit_unsigned_iff)
    then have "odd (unat x div 2 ^ 63)" by (simp add: bit_iff_odd)
    with assms show False by simp
  qed
  then have "signed_drop_bit k x = drop_bit k x"
    by (intro bit_word_eqI) (auto simp: bit_simps not_le dest: bit_imp_le_length)
  moreover have "take_bit 64 (unat x) = unat x"
    using assms by (intro take_bit_nat_eq_self) simp
  ultimately show ?thesis by (simp add: unsigned_drop_bit_eq drop_bit_nat_def)
qed

lemma sint_nonneg:
  fixes x :: u64
  assumes "unat x < 2 ^ 63"
  shows "sint x = int (unat x)"
proof -
  have "int (unat x) < 2 ^ 63"
    using assms by (simp only: of_nat_less_numeral_power_cancel_iff)
  then have "uint x < 2 ^ 63" by simp
  then have "signed_take_bit 63 (uint x) = uint x"
    by (intro signed_take_bit_int_eq_self) (auto intro: order_trans [of _ 0])
  then show ?thesis by (simp add: sint_uint)
qed

lemma ucast_low:
  fixes x :: u64
  assumes "unat x < 2 ^ 32"
  shows "unat (ucast (ucast x :: u32) :: u64) = unat x"
  using assms by (simp add: unsigned_ucast_eq unsigned_take_bit_eq take_bit_nat_eq_self)

lemma ucast_up: "unat (ucast (c :: u32) :: u64) = unat c"
proof -
  have "unat c < 2 ^ 64" using unsigned_less [of c, where ?'a = nat] by simp
  then show ?thesis by (simp add: unsigned_ucast_eq take_bit_nat_eq_self)
qed

end
