(* ===== verification/ChunkInfo.thy ===== *)
theory ChunkInfo
  imports MathTk Serial "HOL-Library.Multiset"
begin

text \<open>
  What the metadata server knows of the chunk file on each target
  (\<open>DynamicFileAttribs.h/.cpp\<close>, \<open>ChunkFileInfo.h/.cpp\<close> under
  fhgfs_common/source/common/storage/striping): the attributes with their storage version, the
  cached number of complete chunks, and the serialization of both.
\<close>

section \<open>Attributes of a chunk file\<close>

record DynamicFileAttribs =
  storageVersion :: u64
  dynFileSize :: i64
  dynNumBlocks :: u64
  dynModificationTimeSecs :: i64
  dynLastAccessTimeSecs :: i64

definition dyn_serialize :: "DynamicFileAttribs \<Rightarrow> u8 list" where
  "dyn_serialize d =
     serializeUInt64 (storageVersion d) @ serializeInt64 (dynFileSize d) @
     serializeUInt64 (dynNumBlocks d) @ serializeInt64 (dynModificationTimeSecs d) @
     serializeInt64 (dynLastAccessTimeSecs d)"

definition dyn_deserialize :: "DynamicFileAttribs decoder" where
  "dyn_deserialize =
     dbind deserializeUInt64 (\<lambda>version.
     dbind deserializeInt64 (\<lambda>fileSize.
     dbind deserializeInt64 (\<lambda>blocks.
     dbind deserializeInt64 (\<lambda>mtime.
     dbind deserializeInt64 (\<lambda>atime.
     dreturn \<lparr>storageVersion = version, dynFileSize = fileSize, dynNumBlocks = blocks,
              dynModificationTimeSecs = mtime, dynLastAccessTimeSecs = atime\<rparr>)))))"

definition dyn_serialLen :: u32 where
  "dyn_serialLen =
     serialLenUInt64 + serialLenInt64 + serialLenUInt64 + serialLenInt64 + serialLenInt64"

definition dynamicFileAttribsEquals :: "DynamicFileAttribs \<Rightarrow> DynamicFileAttribs \<Rightarrow> bool" where
  "dynamicFileAttribsEquals a b \<longleftrightarrow>
     storageVersion a = storageVersion b \<and> dynFileSize a = dynFileSize b \<and>
     dynNumBlocks a = dynNumBlocks b \<and> dynModificationTimeSecs a = dynModificationTimeSecs b \<and>
     dynLastAccessTimeSecs a = dynLastAccessTimeSecs b"

section \<open>The information about a chunk file\<close>

record ChunkFileInfo =
  dynAttribs :: DynamicFileAttribs
  infoChunkSize :: u32
  chunkSizeLog2 :: u32
  numCompleteChunks :: i64

definition newChunkFileInfo :: "u32 \<Rightarrow> u32 \<Rightarrow> DynamicFileAttribs \<Rightarrow> ChunkFileInfo" where
  "newChunkFileInfo chunk chunkLog2 attribs =
     \<lparr>dynAttribs = attribs, infoChunkSize = chunk, chunkSizeLog2 = chunkLog2,
      numCompleteChunks = signed_drop_bit (unat chunkLog2) (dynFileSize attribs)\<rparr>"

definition updateDynAttribs :: "DynamicFileAttribs \<Rightarrow> ChunkFileInfo \<Rightarrow> ChunkFileInfo \<times> bool" where
  "updateDynAttribs newAttribs c =
     (if storageVersion newAttribs > storageVersion (dynAttribs c)
      then (c\<lparr>dynAttribs := newAttribs,
              numCompleteChunks :=
                signed_drop_bit (unat (chunkSizeLog2 c)) (dynFileSize newAttribs)\<rparr>, True)
      else (c, False))"

definition getNumChunks :: "ChunkFileInfo \<Rightarrow> i64" where
  "getNumChunks c =
     (let incompleteChunk =
        (if dynFileSize (dynAttribs c) AND ucast (infoChunkSize c - 1) \<noteq> 0 then 1 else 0)
      in numCompleteChunks c + incompleteChunk)"

definition cfi_serialize :: "ChunkFileInfo \<Rightarrow> u8 list" where
  "cfi_serialize c =
     dyn_serialize (dynAttribs c) @ serializeUInt (infoChunkSize c) @
     serializeUInt (chunkSizeLog2 c) @ serializeInt64 (numCompleteChunks c)"

definition cfi_deserialize :: "ChunkFileInfo decoder" where
  "cfi_deserialize =
     dbind dyn_deserialize (\<lambda>attribs.
     dbind deserializeUInt (\<lambda>chunk.
     dbind deserializeUInt (\<lambda>chunkLog2.
     dbind deserializeInt64 (\<lambda>complete.
     dreturn \<lparr>dynAttribs = attribs, infoChunkSize = chunk, chunkSizeLog2 = chunkLog2,
              numCompleteChunks = complete\<rparr>))))"

definition cfi_serialLen :: u32 where
  "cfi_serialLen = dyn_serialLen + serialLenUInt + serialLenUInt + serialLenInt64"

definition serializeChunkInfoVec :: "ChunkFileInfo list \<Rightarrow> u8 list" where
  "serializeChunkInfoVec = serializeSeq cfi_serialize (\<lambda>_. cfi_serialLen)"

definition deserializeChunkInfoVec :: "ChunkFileInfo list decoder" where
  "deserializeChunkInfoVec = deserializeFixedWith cfi_deserialize cfi_serialLen (\<lambda>_. size_max)"

definition serialLenChunkInfoVec :: "ChunkFileInfo list \<Rightarrow> u32" where
  "serialLenChunkInfoVec = serialLenSeq (\<lambda>_. cfi_serialLen)"

definition chunkFileInfoEquals :: "ChunkFileInfo \<Rightarrow> ChunkFileInfo \<Rightarrow> bool" where
  "chunkFileInfoEquals a b \<longleftrightarrow>
     dynamicFileAttribsEquals (dynAttribs a) (dynAttribs b) \<and>
     infoChunkSize a = infoChunkSize b \<and> chunkSizeLog2 a = chunkSizeLog2 b \<and>
     numCompleteChunks a = numCompleteChunks b"

definition chunkFileInfoVecEquals :: "ChunkFileInfo list \<Rightarrow> ChunkFileInfo list \<Rightarrow> bool" where
  "chunkFileInfoVecEquals first second \<longleftrightarrow>
     length first = length second \<and> list_all2 chunkFileInfoEquals first second"

section \<open>Codecs\<close>

lemmas chunk_lens = dyn_serialLen_def cfi_serialLen_def int_list_lens

interpretation dyn: codec dyn_serialize dyn_deserialize "\<lambda>_. dyn_serialLen" "\<lambda>_. True"
proof (rule codecI)
  fix d
  have same: "serializeUInt64 = serializeInt64" by (simp add: fun_eq_iff serializeInt64_def)
  show "reads dyn_deserialize d (dyn_serialize d) (unat dyn_serialLen)"
    unfolding dyn_serialize_def dyn_deserialize_def deserializeInt64_def same [symmetric]
    by (rule reads_len, (rule reads_bind reads_last uint64.reads TrueI)+) (simp_all add: chunk_lens)
qed

interpretation cfi: codec cfi_serialize cfi_deserialize "\<lambda>_. cfi_serialLen" "\<lambda>_. True"
  by (rule codecI, unfold cfi_serialize_def cfi_deserialize_def, rule reads_len,
      (rule reads_bind reads_last dyn.reads uint.reads int64.reads TrueI)+)
    (simp_all add: chunk_lens)

interpretation cfis: codec serializeChunkInfoVec deserializeChunkInfoVec serialLenChunkInfoVec
  "seq_ok (\<lambda>_. True) (\<lambda>_. cfi_serialLen)"
  using cfi.fixed_codec [of cfi_serialLen "\<lambda>_. size_max"]
  by (simp add: serializeChunkInfoVec_def deserializeChunkInfoVec_def serialLenChunkInfoVec_def
      serialLenFixed_seq serializeFixed_seq chunk_lens size_max_def)

lemma dynamicFileAttribsEquals_iff: "dynamicFileAttribsEquals a b \<longleftrightarrow> a = b"
  by (auto simp: dynamicFileAttribsEquals_def)

lemma chunkFileInfoEquals_iff: "chunkFileInfoEquals a b \<longleftrightarrow> a = b"
  by (auto simp: chunkFileInfoEquals_def dynamicFileAttribsEquals_iff)

lemma chunkFileInfoVecEquals_iff: "chunkFileInfoVecEquals xs ys \<longleftrightarrow> xs = ys"
proof -
  have "chunkFileInfoEquals = (=)" by (intro ext) (rule chunkFileInfoEquals_iff)
  then show ?thesis by (auto simp: chunkFileInfoVecEquals_def list.rel_eq)
qed

section \<open>Updates from the storage targets\<close>

definition apply_updates :: "DynamicFileAttribs list \<Rightarrow> ChunkFileInfo \<Rightarrow> ChunkFileInfo" where
  "apply_updates ups c = fold (\<lambda>a c. fst (updateDynAttribs a c)) ups c"

definition chunk_info_ok :: "ChunkFileInfo \<Rightarrow> bool" where
  "chunk_info_ok c \<longleftrightarrow>
     numCompleteChunks c = signed_drop_bit (unat (chunkSizeLog2 c)) (dynFileSize (dynAttribs c))"

lemma apply_updates_simps [simp]:
  "apply_updates [] c = c"
  "apply_updates (a # ups) c = apply_updates ups (fst (updateDynAttribs a c))"
  by (simp_all add: apply_updates_def)

definition setAttribs :: "DynamicFileAttribs \<Rightarrow> ChunkFileInfo \<Rightarrow> ChunkFileInfo" where
  "setAttribs a c = c\<lparr>dynAttribs := a,
     numCompleteChunks := signed_drop_bit (unat (chunkSizeLog2 c)) (dynFileSize a)\<rparr>"

lemma setAttribs_simps [simp]:
  "dynAttribs (setAttribs a c) = a" "setAttribs b (setAttribs a c) = setAttribs b c"
  "chunk_info_ok (setAttribs a c)"
  by (simp_all add: setAttribs_def chunk_info_ok_def)

lemma update_cases:
  obtains (stale) "storageVersion a \<le> storageVersion (dynAttribs c)" "updateDynAttribs a c = (c, False)"
  | (newer) "storageVersion (dynAttribs c) < storageVersion a"
      "updateDynAttribs a c = (setAttribs a c, True)"
  by (cases "storageVersion (dynAttribs c) < storageVersion a")
    (auto simp: updateDynAttribs_def setAttribs_def not_less)

lemma updates_result:
  obtains d where "d \<in> insert (dynAttribs c) (set ups)"
    "\<And>a. a \<in> insert (dynAttribs c) (set ups) \<Longrightarrow> storageVersion a \<le> storageVersion d"
    "apply_updates ups c = (if d = dynAttribs c then c else setAttribs d c)"
proof (induction ups arbitrary: c thesis)
  case (Cons a ups)
  let ?c = "fst (updateDynAttribs a c)"
  obtain d where d: "d \<in> insert (dynAttribs ?c) (set ups)"
    "\<And>b. b \<in> insert (dynAttribs ?c) (set ups) \<Longrightarrow> storageVersion b \<le> storageVersion d"
    "apply_updates ups ?c = (if d = dynAttribs ?c then ?c else setAttribs d ?c)"
    using Cons.IH [of "?c"] by blast
  show ?case
  proof (cases rule: update_cases [of a c])
    case stale
    with d Cons.prems [of d] show ?thesis by (auto intro: order_trans)
  next
    case newer
    then have "storageVersion (dynAttribs c) < storageVersion d"
      using d(2) [of a] by simp
    with newer d show ?thesis by (intro Cons.prems [of d]) (auto simp: less_imp_le)
  qed
qed simp

lemma updates_attribs: "dynAttribs (if d = dynAttribs c then c else setAttribs d c) = d"
  by simp

text \<open>
  Attributes arrive from the storage targets in any order, several times and outdated.
  Whatever the order, the newest ones win: the final information is the same, has the highest
  storage version seen, and its cached chunk count fits its file size.
\<close>

theorem newest_attribs_win:
  assumes same: "mset ups' = mset ups"
    and versions: "inj_on storageVersion (insert (dynAttribs c) (set ups))"
  shows "apply_updates ups' c = apply_updates ups c \<and>
    dynAttribs (apply_updates ups c) \<in> insert (dynAttribs c) (set ups) \<and>
    (\<forall>a \<in> insert (dynAttribs c) (set ups).
       storageVersion a \<le> storageVersion (dynAttribs (apply_updates ups c))) \<and>
    (chunk_info_ok c \<longrightarrow> chunk_info_ok (apply_updates ups c))"
proof -
  have sets: "set ups' = set ups" using same by (rule mset_eq_setD)
  obtain d where d: "d \<in> insert (dynAttribs c) (set ups)"
    "\<And>a. a \<in> insert (dynAttribs c) (set ups) \<Longrightarrow> storageVersion a \<le> storageVersion d"
    "apply_updates ups c = (if d = dynAttribs c then c else setAttribs d c)"
    using updates_result [of c ups] by blast
  obtain d' where d': "d' \<in> insert (dynAttribs c) (set ups)"
    "\<And>a. a \<in> insert (dynAttribs c) (set ups) \<Longrightarrow> storageVersion a \<le> storageVersion d'"
    "apply_updates ups' c = (if d' = dynAttribs c then c else setAttribs d' c)"
    using updates_result [of c ups'] unfolding sets by blast
  have "d' = d" using d(1,2) d'(1,2) by (intro inj_onD [OF versions] antisym) auto
  with d d' show ?thesis by (auto simp: updates_attribs)
qed

definition demo_attribs :: "u64 \<Rightarrow> i64 \<Rightarrow> DynamicFileAttribs" where
  "demo_attribs version len =
     \<lparr>storageVersion = version, dynFileSize = len, dynNumBlocks = 0,
      dynModificationTimeSecs = 0, dynLastAccessTimeSecs = 0\<rparr>"

theorem newest_attribs_win_witness:
  "apply_updates [demo_attribs 3 5, demo_attribs 2 9] (newChunkFileInfo 65536 16 (demo_attribs 0 0)) =
   apply_updates [demo_attribs 2 9, demo_attribs 3 5] (newChunkFileInfo 65536 16 (demo_attribs 0 0))"
  by (rule newest_attribs_win [THEN conjunct1])
    (auto simp: newChunkFileInfo_def demo_attribs_def inj_on_def)

end
