(* ===== verification/Striping.thy ===== *)
theory Striping
  imports MathTk Serial "HOL-Library.Signed_Division"
begin

text \<open>
  Stripe patterns (\<open>StripePattern.h/.cpp\<close>, \<open>Raid0Pattern\<close>, \<open>Raid10Pattern\<close>,
  \<open>BuddyMirrorPattern\<close>, \<open>SimplePattern\<close> under fhgfs_common/source/common/storage/striping):
  which target of a file holds which byte, how a new file gets its pattern, and how a pattern
  is written and read.

  The class hierarchy is one record with the dynamic class as a field; \<open>stripeTargetIDs\<close> is
  \<open>mirrorBuddyGroupIDs\<close> in a \<open>BuddyMirrorPattern\<close>, and \<open>mirrorTargetIDs\<close> is used by
  \<open>Raid10Pattern\<close> only. Virtual methods branch on the class. Fields that a constructor leaves
  uninitialised are 0.
\<close>

section \<open>The pattern\<close>

datatype PatternClass =
  Raid0PatternClass | Raid10PatternClass | BuddyMirrorPatternClass | SimplePatternClass

record StripePattern =
  patternClass :: PatternClass
  patternType :: u32
  chunkSize :: u32
  serialPatternLength :: u32
  stripeTargetIDs :: "u16 list"
  mirrorTargetIDs :: "u16 list"
  stripeSetSize :: u32
  defaultNumTargets :: u32

definition STRIPEPATTERN_Invalid :: u32 where "STRIPEPATTERN_Invalid = 0"
definition STRIPEPATTERN_Raid0 :: u32 where "STRIPEPATTERN_Raid0 = 1"
definition STRIPEPATTERN_Raid10 :: u32 where "STRIPEPATTERN_Raid10 = 2"
definition STRIPEPATTERN_BuddyMirror :: u32 where "STRIPEPATTERN_BuddyMirror = 3"
definition STRIPEPATTERN_MIN_CHUNKSIZE :: u32 where "STRIPEPATTERN_MIN_CHUNKSIZE = 1024 * 64"
definition STRIPEPATTERN_DEFAULT_CHUNKSIZE :: u32 where
  "STRIPEPATTERN_DEFAULT_CHUNKSIZE = 1024 * 512"
definition DEFAULT_NUM_TARGETS :: u32 where "DEFAULT_NUM_TARGETS = 4"
definition STRIPEPATTERN_HEADER_LENGTH :: u32 where "STRIPEPATTERN_HEADER_LENGTH = 4 + 4 + 4"

text \<open>The base constructor; a chunk size of 0 selects the default.\<close>

definition newPattern :: "PatternClass \<Rightarrow> u32 \<Rightarrow> u32 \<Rightarrow> StripePattern" where
  "newPattern cls type chunk =
     \<lparr>patternClass = cls, patternType = type,
      chunkSize = (if chunk \<noteq> 0 then chunk else STRIPEPATTERN_DEFAULT_CHUNKSIZE),
      serialPatternLength = 0, stripeTargetIDs = [], mirrorTargetIDs = [],
      stripeSetSize = 0, defaultNumTargets = 0\<rparr>"

text \<open>\<open>stripeSetSize = stripeTargetIDs.size() * getChunkSize()\<close>, stored in 32 bits.\<close>

definition calcStripeSetSize :: "StripePattern \<Rightarrow> StripePattern" where
  "calcStripeSetSize p = p\<lparr>stripeSetSize := word_of_nat (length (stripeTargetIDs p)) * chunkSize p\<rparr>"

definition withTargets :: "u16 list \<Rightarrow> u16 list \<Rightarrow> u32 \<Rightarrow> StripePattern \<Rightarrow> StripePattern" where
  "withTargets targets mirrors defNum p =
     calcStripeSetSize (p\<lparr>stripeTargetIDs := targets, mirrorTargetIDs := mirrors,
       defaultNumTargets := (if defNum \<noteq> 0 then defNum else DEFAULT_NUM_TARGETS)\<rparr>)"

definition Raid0Pattern :: "u32 \<Rightarrow> u16 list \<Rightarrow> u32 \<Rightarrow> StripePattern" where
  "Raid0Pattern chunk targets defNum =
     withTargets targets [] defNum (newPattern Raid0PatternClass STRIPEPATTERN_Raid0 chunk)"

definition Raid10Pattern :: "u32 \<Rightarrow> u16 list \<Rightarrow> u16 list \<Rightarrow> u32 \<Rightarrow> StripePattern" where
  "Raid10Pattern chunk targets mirrors defNum =
     withTargets targets mirrors defNum (newPattern Raid10PatternClass STRIPEPATTERN_Raid10 chunk)"

definition BuddyMirrorPattern :: "u32 \<Rightarrow> u16 list \<Rightarrow> u32 \<Rightarrow> StripePattern" where
  "BuddyMirrorPattern chunk groups defNum =
     withTargets groups [] defNum
       (newPattern BuddyMirrorPatternClass STRIPEPATTERN_BuddyMirror chunk)"

definition SimplePattern :: "u32 \<Rightarrow> u32 \<Rightarrow> StripePattern" where
  "SimplePattern type chunk = newPattern SimplePatternClass type chunk"

definition getPatternTypeStr :: "(u32 \<Rightarrow> string) \<Rightarrow> u32 \<Rightarrow> string" where
  "getPatternTypeStr uintToStr type =
     (if type = STRIPEPATTERN_Invalid then ''<invalid>''
      else if type = STRIPEPATTERN_Raid0 then ''RAID0''
      else if type = STRIPEPATTERN_Raid10 then ''RAID10''
      else if type = STRIPEPATTERN_BuddyMirror then ''Buddy Mirror''
      else ''<unknown('' @ uintToStr type @ '')>'')"

definition setDefaultNumTargets :: "u32 \<Rightarrow> StripePattern \<Rightarrow> StripePattern" where
  "setDefaultNumTargets n p =
     (if patternClass p = SimplePatternClass then p else p\<lparr>defaultNumTargets := n\<rparr>)"

text \<open>The setter leaves \<open>stripeSetSize\<close> as it is.\<close>

definition setChunkSize :: "u32 \<Rightarrow> StripePattern \<Rightarrow> StripePattern" where
  "setChunkSize c p = p\<lparr>chunkSize := c\<rparr>"

definition getMinNumTargets :: "StripePattern \<Rightarrow> u32" where
  "getMinNumTargets p =
     (case patternClass p of
        Raid0PatternClass \<Rightarrow> 1 | Raid10PatternClass \<Rightarrow> 2
      | BuddyMirrorPatternClass \<Rightarrow> 1 | SimplePatternClass \<Rightarrow> 0)"

section \<open>From positions to targets\<close>

definition getChunkStart :: "StripePattern \<Rightarrow> i64 \<Rightarrow> i64" where
  "getChunkStart p pos =
     (let posModChunkSize = (ucast (pos AND ucast (chunkSize p - 1)) :: u32)
      in pos - ucast posModChunkSize)"

definition getNextChunkStart :: "StripePattern \<Rightarrow> i64 \<Rightarrow> i64" where
  "getNextChunkStart p pos = getChunkStart p pos + ucast (chunkSize p)"

definition getChunkEnd :: "StripePattern \<Rightarrow> i64 \<Rightarrow> i64" where
  "getChunkEnd p pos = getNextChunkStart p pos - 1"

text \<open>\<open>%\<close> on \<open>int64_t\<close> truncates towards zero.\<close>

definition rem64 :: "i64 \<Rightarrow> u32 \<Rightarrow> i64" where
  "rem64 a b = word_of_int (sint a smod uint b)"

definition getStripeTargetIndex :: "StripePattern \<Rightarrow> i64 \<Rightarrow> u64" where
  "getStripeTargetIndex p pos =
     (if patternClass p = SimplePatternClass then 0
      else
        (let stripeSetInnerOffset =
               (if isPowerOfTwo (stripeSetSize p) then pos AND ucast (stripeSetSize p - 1)
                else rem64 pos (stripeSetSize p))
         in signed_drop_bit (unat (log2Int32 (chunkSize p))) stripeSetInnerOffset))"

text \<open>Indexing a vector out of its bounds is undefined in the code and None here.\<close>

definition nth_opt :: "'a list \<Rightarrow> nat \<Rightarrow> 'a option" where
  "nth_opt xs i = (if i < length xs then Some (xs ! i) else None)"

definition getStripeTargetID :: "StripePattern \<Rightarrow> i64 \<Rightarrow> u16 option" where
  "getStripeTargetID p pos =
     (if patternClass p = SimplePatternClass then Some 0
      else nth_opt (stripeTargetIDs p) (unat (getStripeTargetIndex p pos)))"

section \<open>Copies with new targets\<close>

definition cloneDisjoint :: "u16 list \<Rightarrow> StripePattern \<Rightarrow> StripePattern" where
  "cloneDisjoint targetIDs p =
     (let stripeTargets = take (length targetIDs div 2) targetIDs;
          mirrorTargets = drop (length targetIDs div 2) targetIDs;
          mirrorTargets' =
            (if length mirrorTargets > length stripeTargets then butlast mirrorTargets
             else mirrorTargets)
      in calcStripeSetSize
          ((newPattern Raid10PatternClass STRIPEPATTERN_Raid10 (chunkSize p))
             \<lparr>stripeTargetIDs := stripeTargets, mirrorTargetIDs := mirrorTargets',
              defaultNumTargets := defaultNumTargets p\<rparr>))"

definition cloneRotated :: "u16 list \<Rightarrow> StripePattern \<Rightarrow> StripePattern" where
  "cloneRotated targetIDs p =
     calcStripeSetSize
       ((newPattern Raid10PatternClass STRIPEPATTERN_Raid10 (chunkSize p))
          \<lparr>stripeTargetIDs := targetIDs,
           mirrorTargetIDs := drop (length targetIDs div 2) targetIDs @
                              take (length targetIDs div 2) targetIDs,
           defaultNumTargets := defaultNumTargets p\<rparr>)"

definition cloneWithTargets :: "u16 list \<Rightarrow> StripePattern \<Rightarrow> StripePattern" where
  "cloneWithTargets targetIDs p =
     (case patternClass p of
        Raid0PatternClass \<Rightarrow> Raid0Pattern (chunkSize p) targetIDs (defaultNumTargets p)
      | Raid10PatternClass \<Rightarrow> cloneDisjoint targetIDs p
      | BuddyMirrorPatternClass \<Rightarrow> BuddyMirrorPattern (chunkSize p) targetIDs (defaultNumTargets p)
      | SimplePatternClass \<Rightarrow> SimplePattern (patternType p) (chunkSize p))"

definition clonePattern :: "StripePattern \<Rightarrow> StripePattern" where
  "clonePattern p =
     (case patternClass p of
        Raid10PatternClass \<Rightarrow>
          Raid10Pattern (chunkSize p) (stripeTargetIDs p) (mirrorTargetIDs p) (defaultNumTargets p)
      | _ \<Rightarrow> cloneWithTargets (stripeTargetIDs p) p)"

text \<open>
  The update copies the IDs of a pattern of the same size (of a \<open>SimplePattern\<close> it does
  nothing). The null pointer is None; the IDs of a \<open>SimplePattern\<close> are a null pointer that is
  dereferenced: the outcome None.
\<close>

definition updateStripeTargetIDs ::
    "StripePattern option \<Rightarrow> StripePattern \<Rightarrow> (StripePattern \<times> bool) option" where
  "updateStripeTargetIDs updated p =
     (if patternClass p = SimplePatternClass then Some (p, True)
      else case updated of
        None \<Rightarrow> Some (p, False)
      | Some q \<Rightarrow>
          if patternClass q = SimplePatternClass then None
          else if length (stripeTargetIDs p) \<noteq> length (stripeTargetIDs q) then Some (p, False)
          else Some (p\<lparr>stripeTargetIDs := stripeTargetIDs q\<rparr>, True))"

definition headerEquals :: "StripePattern \<Rightarrow> StripePattern \<Rightarrow> bool" where
  "headerEquals p q \<longleftrightarrow> patternType p = patternType q \<and> chunkSize p = chunkSize q"

definition patternEquals :: "StripePattern \<Rightarrow> StripePattern \<Rightarrow> bool \<Rightarrow> bool" where
  "patternEquals p q checkHeader \<longleftrightarrow>
     (checkHeader \<longrightarrow> headerEquals p q) \<and>
     (patternClass p = SimplePatternClass \<or>
      defaultNumTargets p = defaultNumTargets q \<and>
      length (stripeTargetIDs p) = length (stripeTargetIDs q) \<and>
      stripeTargetIDs p = stripeTargetIDs q \<and>
      (patternClass p = Raid10PatternClass \<longrightarrow> mirrorTargetIDs p = mirrorTargetIDs q))"

definition stripePatternEquals :: "StripePattern \<Rightarrow> StripePattern \<Rightarrow> bool" where
  "stripePatternEquals p q \<longleftrightarrow> headerEquals p q \<and> patternEquals p q False"

section \<open>A new file's pattern\<close>

text \<open>
  \<open>DirInode::createFileStripePatternUnlocked\<close>: \<open>chooser desired required\<close> are the targets
  that the capacity pools select; \<open>rotateMirrors\<close> is the configuration option
  \<open>tuneRotateMirrorTargets\<close>; \<open>loaded\<close> tells whether the directory inode could be loaded.
\<close>

definition createFileStripePattern ::
    "(u32 \<Rightarrow> u32 \<Rightarrow> u16 list) \<Rightarrow> bool \<Rightarrow> bool \<Rightarrow> StripePattern \<Rightarrow> u32 \<Rightarrow> u32 \<Rightarrow> StripePattern option" where
  "createFileStripePattern chooser rotateMirrors loaded dirPattern numtargets chunksize =
     (if \<not> loaded then None
      else if chunksize \<noteq> 0 \<and>
        (chunksize < STRIPEPATTERN_MIN_CHUNKSIZE \<or> \<not> isPowerOfTwo chunksize) then None
      else
        (let chunk = (if chunksize = 0 then chunkSize dirPattern else chunksize);
             wanted = (if numtargets \<noteq> 0 then numtargets else defaultNumTargets dirPattern);
             required = getMinNumTargets dirPattern;
             desired = (if wanted < required then required else wanted);
             stripeTargets = chooser desired required
         in if length stripeTargets < unat required then None
            else
              (let filePattern =
                     (if rotateMirrors \<and> patternType dirPattern = STRIPEPATTERN_Raid10
                      then cloneRotated stripeTargets dirPattern
                      else cloneWithTargets stripeTargets dirPattern)
               in Some (setChunkSize chunk (setDefaultNumTargets desired filePattern)))))"

section \<open>Writing and reading a pattern\<close>

definition serializePattern :: "StripePattern \<Rightarrow> u8 list" where
  "serializePattern p =
     (case patternClass p of
        SimplePatternClass \<Rightarrow> []
      | Raid10PatternClass \<Rightarrow>
          serializeUInt (defaultNumTargets p) @ serializeUInt16Vector (stripeTargetIDs p) @
          serializeUInt16Vector (mirrorTargetIDs p)
      | _ \<Rightarrow> serializeUInt (defaultNumTargets p) @ serializeUInt16Vector (stripeTargetIDs p))"

definition serialLenPattern :: "StripePattern \<Rightarrow> u32" where
  "serialLenPattern p =
     (case patternClass p of
        SimplePatternClass \<Rightarrow> STRIPEPATTERN_HEADER_LENGTH
      | Raid10PatternClass \<Rightarrow>
          STRIPEPATTERN_HEADER_LENGTH + serialLenUInt + serialLenUInt16Vector (stripeTargetIDs p) +
          serialLenUInt16Vector (mirrorTargetIDs p)
      | _ \<Rightarrow> STRIPEPATTERN_HEADER_LENGTH + serialLenUInt + serialLenUInt16Vector (stripeTargetIDs p))"

text \<open>The length is computed at its first use and kept in the pattern.\<close>

definition getSerialPatternLength :: "StripePattern \<Rightarrow> u32" where
  "getSerialPatternLength p =
     (if serialPatternLength p = 0 then serialLenPattern p else serialPatternLength p)"

definition serializeHeader :: "StripePattern \<Rightarrow> u8 list" where
  "serializeHeader p =
     serializeUInt (getSerialPatternLength p) @ serializeUInt (patternType p) @
     serializeUInt (chunkSize p)"

definition pattern_serialize :: "StripePattern \<Rightarrow> u8 list \<times> StripePattern" where
  "pattern_serialize p =
     (serializeHeader p @ serializePattern p,
      p\<lparr>serialPatternLength := getSerialPatternLength p\<rparr>)"

record StripePatternHeader =
  patternLength :: u32
  headerType :: u32
  headerChunkSize :: u32

definition deserializeHeader :: "StripePatternHeader decoder" where
  "deserializeHeader =
     dbind deserializeUInt (\<lambda>len.
     dbind deserializeUInt (\<lambda>type.
     dbind deserializeUInt (\<lambda>chunk buf bufLen.
       if len < STRIPEPATTERN_HEADER_LENGTH then Inl DecodeFail
       else if chunk = 0 then Inl DecodeFail
       else Inr (\<lparr>patternLength = len, headerType = type, headerChunkSize = chunk\<rparr>, 0))))"

text \<open>The position of the caller moves on by the length field of the header.\<close>

definition deserializePatternPreprocess :: "StripePatternHeader decoder" where
  "deserializePatternPreprocess buf bufLen =
     (case deserializeHeader buf bufLen of
        Inl e \<Rightarrow> Inl e
      | Inr (h, _) \<Rightarrow> Inr (h, unat (patternLength h)))"

definition deserializePattern :: "StripePattern \<Rightarrow> StripePattern decoder" where
  "deserializePattern p =
     (case patternClass p of
        SimplePatternClass \<Rightarrow> dreturn p
      | Raid10PatternClass \<Rightarrow>
          dbind deserializeUInt (\<lambda>defNum.
          dbind deserializeUInt16Vector (\<lambda>targets.
          dbind deserializeUInt16Vector (\<lambda>mirrors.
          dreturn (calcStripeSetSize (p\<lparr>defaultNumTargets := defNum, stripeTargetIDs := targets,
            mirrorTargetIDs := mirrors\<rparr>)))))
      | _ \<Rightarrow>
          dbind deserializeUInt (\<lambda>defNum.
          dbind deserializeUInt16Vector (\<lambda>targets.
          dreturn (calcStripeSetSize (p\<lparr>defaultNumTargets := defNum, stripeTargetIDs := targets\<rparr>)))))"

definition createFromBuf :: "u8 list \<Rightarrow> StripePatternHeader \<Rightarrow> decode_error + StripePattern" where
  "createFromBuf patternStart h =
     (let fill = (\<lambda>cls.
            let p = newPattern cls (headerType h) (headerChunkSize h)
            in case deserializePattern p (drop (unat STRIPEPATTERN_HEADER_LENGTH) patternStart)
                     (unat (patternLength h - STRIPEPATTERN_HEADER_LENGTH)) of
                 Inl DecodeFail \<Rightarrow> Inr (p\<lparr>patternType := STRIPEPATTERN_Invalid\<rparr>)
               | Inl ReadBeyondBuffer \<Rightarrow> Inl ReadBeyondBuffer
               | Inr (q, _) \<Rightarrow> Inr q)
      in if headerType h = STRIPEPATTERN_Raid0 then fill Raid0PatternClass
         else if headerType h = STRIPEPATTERN_Raid10 then fill Raid10PatternClass
         else if headerType h = STRIPEPATTERN_BuddyMirror then fill BuddyMirrorPatternClass
         else Inr (SimplePattern STRIPEPATTERN_Invalid 0))"

text \<open>How the callers read a pattern (here \<open>DiskMetaData\<close>): header, object, validity.\<close>

definition readStripePattern :: "StripePattern decoder" where
  "readStripePattern buf bufLen =
     (case deserializePatternPreprocess buf bufLen of
        Inl e \<Rightarrow> Inl e
      | Inr (h, patternBufLen) \<Rightarrow>
          (case createFromBuf buf h of
             Inl e \<Rightarrow> Inl e
           | Inr p \<Rightarrow>
               if patternType p = STRIPEPATTERN_Invalid then Inl DecodeFail
               else Inr (p, patternBufLen)))"

section \<open>Striping arithmetic\<close>

text \<open>
  The layout that the patterns promise: \<open>n\<close> targets take chunks of \<open>c\<close> bytes in turn.
\<close>

definition stripe_index :: "nat \<Rightarrow> nat \<Rightarrow> nat \<Rightarrow> nat" where
  "stripe_index n c pos = pos mod (n * c) div c"

lemma stripe_index_alt: "0 < c \<Longrightarrow> stripe_index n c pos = pos div c mod n"
proof -
  assume "0 < c"
  have "pos mod (c * n) = c * (pos div c mod n) + pos mod c" by (rule mod_mult2_eq)
  with \<open>0 < c\<close> show ?thesis by (simp add: stripe_index_def mult.commute)
qed

lemma stripe_index_less: "0 < c \<Longrightarrow> 0 < n \<Longrightarrow> stripe_index n c pos < n"
  by (simp add: stripe_index_alt)

text \<open>A pattern that serves a file: targets, a power of two, a stripe set that fits 32 bits.\<close>

definition striped :: "nat \<Rightarrow> StripePattern \<Rightarrow> bool" where
  "striped k p \<longleftrightarrow>
     patternClass p \<noteq> SimplePatternClass \<and> pow2 k (chunkSize p) \<and> stripeTargetIDs p \<noteq> [] \<and>
     stripeSetSize p = word_of_nat (length (stripeTargetIDs p)) * chunkSize p \<and>
     length (stripeTargetIDs p) * unat (chunkSize p) < 2 ^ 32"

abbreviation numTargets :: "StripePattern \<Rightarrow> nat" where
  "numTargets p \<equiv> length (stripeTargetIDs p)"

lemma stripedD:
  assumes "striped k p"
  shows "pow2 k (chunkSize p)" "patternClass p \<noteq> SimplePatternClass" "0 < numTargets p"
    "0 < unat (chunkSize p)" "unat (stripeSetSize p) = numTargets p * unat (chunkSize p)"
    "0 < unat (stripeSetSize p)"
proof -
  show p: "pow2 k (chunkSize p)" "patternClass p \<noteq> SimplePatternClass" "0 < numTargets p"
    using assms by (simp_all add: striped_def)
  show c: "0 < unat (chunkSize p)" using p(1) by (rule pow2_pos)
  have "numTargets p * 1 \<le> numTargets p * unat (chunkSize p)"
    using c by (intro mult_le_mono) simp_all
  also have "\<dots> < 2 ^ 32" using assms by (simp add: striped_def)
  finally have "numTargets p < 2 ^ 32" by simp
  with assms show l: "unat (stripeSetSize p) = numTargets p * unat (chunkSize p)"
    by (simp add: striped_def unat_word_ariths unat_of_nat)
  show "0 < unat (stripeSetSize p)" using p(3) c by (simp add: l)
qed

lemma smod_nat: "0 < b \<Longrightarrow> int a smod int b = int (a mod b)"
  by (simp add: signed_modulo_int_def zmod_int sgn_if)

lemma rem64_nonneg:
  assumes "unat x < 2 ^ 63" "0 < unat m"
  shows "unat (rem64 x m) = unat x mod unat m"
proof -
  have "sint x = int (unat x)" using assms(1) by (rule sint_nonneg)
  then have "sint x smod uint m = int (unat x mod unat m)"
    using smod_nat [of "unat m" "unat x"] assms(2) by simp
  moreover have "unat x mod unat m < 2 ^ 64"
    by (rule le_less_trans [OF mod_less_eq_dividend]) (use assms(1) in simp)
  ultimately show ?thesis by (simp add: rem64_def unat_of_nat)
qed

lemma stripe_index_code:
  assumes p: "striped k p" and pos: "unat pos < 2 ^ 63"
  shows "unat (getStripeTargetIndex p pos) = stripe_index (numTargets p) (unat (chunkSize p)) (unat pos)"
proof -
  note d = stripedD [OF p]
  let ?inner = "if isPowerOfTwo (stripeSetSize p) then pos AND ucast (stripeSetSize p - 1)
    else rem64 pos (stripeSetSize p)"
  have inner: "unat ?inner = unat pos mod (numTargets p * unat (chunkSize p))"
  proof (cases "isPowerOfTwo (stripeSetSize p)")
    case True
    with d(6) obtain j where "pow2 j (stripeSetSize p)"
      using isPowerOfTwo_pow2 by (metis less_numeral_extra(3) unat_0)
    from and_pow2 [OF this] True d(5) show ?thesis by simp
  next
    case False
    with rem64_nonneg [OF pos d(6)] d(5) show ?thesis by simp
  qed
  then have "unat ?inner < 2 ^ 63"
    using pos by (metis le_less_trans mod_less_eq_dividend)
  from shift_nonneg [OF this, of k] inner d(1) log2_pow2 [OF d(1)] show ?thesis
    using d(2) by (simp add: getStripeTargetIndex_def stripe_index_def pow2_def Let_def)
qed

lemma chunk_start_code:
  assumes p: "pow2 k (chunkSize p)"
  shows "unat (getChunkStart p pos) = unat pos - unat pos mod unat (chunkSize p)"
proof -
  let ?m = "unat pos mod unat (chunkSize p)"
  have "?m < unat (chunkSize p)" using pow2_pos [OF p] by simp
  then have "?m < 2 ^ 32" using unsigned_less [of "chunkSize p", where ?'a = nat] by simp
  then have "unat (ucast (ucast (pos AND ucast (chunkSize p - 1)) :: u32) :: u64) = ?m"
    using and_pow2 [OF p, of pos] ucast_low [of "pos AND ucast (chunkSize p - 1)"] by simp
  moreover have "?m \<le> unat pos" by simp
  ultimately show ?thesis by (simp add: getChunkStart_def unat_sub word_le_nat_alt)
qed

section \<open>The reader undoes the writer\<close>

definition classType :: "PatternClass \<Rightarrow> u32" where
  "classType c =
     (case c of
        Raid0PatternClass \<Rightarrow> STRIPEPATTERN_Raid0 | Raid10PatternClass \<Rightarrow> STRIPEPATTERN_Raid10
      | BuddyMirrorPatternClass \<Rightarrow> STRIPEPATTERN_BuddyMirror | SimplePatternClass \<Rightarrow> STRIPEPATTERN_Invalid)"

definition pattern_ok :: "StripePattern \<Rightarrow> bool" where
  "pattern_ok p \<longleftrightarrow>
     patternClass p \<noteq> SimplePatternClass \<and> patternType p = classType (patternClass p) \<and>
     chunkSize p \<noteq> 0 \<and> serialPatternLength p \<in> {0, serialLenPattern p} \<and>
     (patternClass p \<noteq> Raid10PatternClass \<longrightarrow> mirrorTargetIDs p = []) \<and>
     stripeSetSize p = word_of_nat (length (stripeTargetIDs p)) * chunkSize p \<and>
     length (stripeTargetIDs p) + length (mirrorTargetIDs p) < 2000000000"

lemma vec_ok: "length v < 2000000000 \<Longrightarrow> seq_ok (\<lambda>_. True) (\<lambda>_. serialLenUInt16) v"
  by (simp add: seq_ok_def sum_list_triv serialLenUInt16_def list_all_iff)

lemma vec_len: "length v < 2000000000 \<Longrightarrow> unat (serialLenUInt16Vector v) = 8 + 2 * length v"
  by (simp add: serialLenUInt16Vector_def serialLenFixed_def serialLenUInt_def int_list_lens
      unat_word_ariths unat_of_nat)

lemma serialLenPattern_unat:
  assumes "pattern_ok p"
  shows "unat (serialLenPattern p) = 12 + length (serializePattern p)"
proof -
  have v: "length (stripeTargetIDs p) < 2000000000" "length (mirrorTargetIDs p) < 2000000000"
    "length (stripeTargetIDs p) + length (mirrorTargetIDs p) < 2000000000"
    using assms by (auto simp: pattern_ok_def)
  show ?thesis
    using v by (cases "patternClass p")
      (simp_all add: serialLenPattern_def serializePattern_def STRIPEPATTERN_HEADER_LENGTH_def
        uint.ser_len uint16vec.ser_len [unfolded serialLenUShort_def, OF vec_ok]
        serialLenUInt_def unat_word_ariths vec_len)
qed

lemma header_read:
  assumes "pattern_ok p" "12 \<le> n"
  shows "deserializePatternPreprocess (serializeHeader p @ rest) n =
    Inr (\<lparr>patternLength = serialLenPattern p, headerType = patternType p,
          headerChunkSize = chunkSize p\<rparr>, unat (serialLenPattern p))"
proof -
  have len: "getSerialPatternLength p = serialLenPattern p"
    using assms(1) by (auto simp: pattern_ok_def getSerialPatternLength_def)
  have "12 \<le> unat (serialLenPattern p)" using serialLenPattern_unat [OF assms(1)] by simp
  with assms show ?thesis
    by (simp add: deserializePatternPreprocess_def deserializeHeader_def serializeHeader_def len
        uint.then_read serialLenUInt_def word_less_nat_alt STRIPEPATTERN_HEADER_LENGTH_def
        pattern_ok_def)
qed

lemma body_read:
  assumes p: "pattern_ok p"
  defines "q \<equiv> newPattern (patternClass p) (patternType p) (chunkSize p)"
  shows "deserializePattern q (serializePattern p @ rest) (length (serializePattern p)) =
    Inr (p\<lparr>serialPatternLength := 0\<rparr>, length (serializePattern p))"
proof -
  have v: "length (stripeTargetIDs p) < 2000000000" "length (mirrorTargetIDs p) < 2000000000"
    using p by (auto simp: pattern_ok_def)
  note vec = uint16vec.ser_len [unfolded serialLenUShort_def, OF vec_ok]
    uint16vec.then_read [unfolded serialLenUShort_def, OF vec_ok]
  show ?thesis
    using p v by (cases "patternClass p")
      (simp_all add: q_def deserializePattern_def serializePattern_def newPattern_def
        uint.then_read uint.ser_len serialLenUInt_def vec vec_len dreturn_def
        calcStripeSetSize_def pattern_ok_def)
qed

lemma pattern_round_trip:
  assumes p: "pattern_ok p" and n: "12 \<le> n"
  shows "readStripePattern (fst (pattern_serialize p) @ rest) n =
    Inr (p\<lparr>serialPatternLength := 0\<rparr>, unat (serialLenPattern p))"
proof -
  have head: "length (serializeHeader p) = 12"
    by (simp add: serializeHeader_def uint.ser_len serialLenUInt_def)
  have "unat (serialLenPattern p - STRIPEPATTERN_HEADER_LENGTH) = length (serializePattern p)"
    using serialLenPattern_unat [OF p]
    by (simp add: STRIPEPATTERN_HEADER_LENGTH_def unat_sub word_le_nat_alt)
  with p show ?thesis
    using header_read [OF p n] body_read [OF p, of rest] head
    by (cases "patternClass p")
      (simp_all add: readStripePattern_def pattern_serialize_def createFromBuf_def pattern_ok_def
        classType_def STRIPEPATTERN_HEADER_LENGTH_def STRIPEPATTERN_Raid0_def
        STRIPEPATTERN_Raid10_def STRIPEPATTERN_BuddyMirror_def STRIPEPATTERN_Invalid_def)
qed

section \<open>Properties\<close>

text \<open>
  C18: The optimised lookup (bit masks and shifts instead of remainder and division) finds,
  for every non-negative file position, the target of the round-robin layout: chunk number
  modulo number of targets. The index is in bounds, so a target ID is always found.
\<close>

theorem stripe_target_lookup:
  assumes "striped k p" "unat pos < 2 ^ 63"
  shows "unat (getStripeTargetIndex p pos) = unat pos div unat (chunkSize p) mod numTargets p \<and>
    getStripeTargetID p pos =
      Some (stripeTargetIDs p ! (unat pos div unat (chunkSize p) mod numTargets p))"
  using stripe_index_code [OF assms] stripedD(2-4) [OF assms(1)]
    stripe_index_less [of "unat (chunkSize p)" "numTargets p" "unat pos"]
  by (simp add: stripe_index_alt getStripeTargetID_def nth_opt_def)

definition demo_raid :: "u16 list \<Rightarrow> StripePattern" where
  "demo_raid targets = Raid0Pattern 65536 targets 0"

lemma demo_raid_striped: "length ts \<in> {1..1000} \<Longrightarrow> striped 16 (demo_raid ts)"
  by (auto simp: striped_def demo_raid_def Raid0Pattern_def withTargets_def newPattern_def
      calcStripeSetSize_def pow2_def)

theorem stripe_target_lookup_witness:
  "getStripeTargetID (demo_raid [7, 8, 9]) 300000 = Some 8"
proof -
  have "striped 16 (demo_raid [7, 8, 9])" by (rule demo_raid_striped) simp
  from stripe_target_lookup [OF this, of 300000] show ?thesis
    by (simp add: demo_raid_def Raid0Pattern_def withTargets_def newPattern_def calcStripeSetSize_def)
qed

text \<open>
  C19: A position lies in its chunk, whose start is a multiple of the chunk size; all bytes of
  a chunk are on one target and the next chunk is on the next target in turn.
\<close>

theorem chunk_layout:
  assumes p: "striped k p" and pos: "unat pos < 2 ^ 62" and q: "unat pos' < 2 ^ 62"
  shows "unat (getChunkStart p pos) \<le> unat pos \<and> unat pos \<le> unat (getChunkEnd p pos) \<and>
    unat (chunkSize p) dvd unat (getChunkStart p pos) \<and>
    (unat (getChunkStart p pos) \<le> unat pos' \<and> unat pos' \<le> unat (getChunkEnd p pos) \<longrightarrow>
       getStripeTargetIndex p pos' = getStripeTargetIndex p pos) \<and>
    unat (getStripeTargetIndex p (getNextChunkStart p pos)) =
      (unat (getStripeTargetIndex p pos) + 1) mod numTargets p"
proof -
  let ?c = "unat (chunkSize p)"
  note d = stripedD [OF p]
  have c32: "?c < 2 ^ 32" using unsigned_less [of "chunkSize p", where ?'a = nat] by simp
  have start: "unat (getChunkStart p pos) = unat pos div ?c * ?c"
    using chunk_start_code [OF d(1), of pos] by (simp add: minus_mod_eq_div_mult)
  have le: "unat pos div ?c * ?c \<le> unat pos" by (rule div_times_less_eq_dividend)
  have up: "unat (ucast (chunkSize p) :: u64) = ?c" by (rule ucast_up)
  have nxt: "unat (getNextChunkStart p pos) = (unat pos div ?c + 1) * ?c"
  proof -
    have "unat pos div ?c * ?c + ?c < 2 ^ 62 + 2 ^ 32" using le pos c32 by linarith
    then have "unat pos div ?c * ?c + ?c < 2 ^ 64" by (rule less_trans) simp
    then have "unat (getNextChunkStart p pos) = unat pos div ?c * ?c + ?c"
      using start up by (simp add: getNextChunkStart_def unat_word_ariths)
    then show ?thesis by (simp only: add_mult_distrib mult_1)
  qed
  have nz: "0 < (unat pos div ?c + 1) * ?c" using d(4) by simp
  have "end": "unat (getChunkEnd p pos) = (unat pos div ?c + 1) * ?c - 1"
  proof -
    have "unat (getNextChunkStart p pos) \<noteq> 0" unfolding nxt using nz by simp
    then have "1 \<le> getNextChunkStart p pos" by (simp add: word_le_nat_alt)
    then have "unat (getChunkEnd p pos) = unat (getNextChunkStart p pos) - unat (1 :: u64)"
      unfolding getChunkEnd_def by (rule unat_sub)
    then show ?thesis by (simp only: nxt unsigned_1)
  qed
  have lt: "unat pos < (unat pos div ?c + 1) * ?c"
    using dividend_less_div_times [OF d(4), of "unat pos"] by (simp add: algebra_simps)
  have same: "getStripeTargetIndex p pos' = getStripeTargetIndex p pos"
    if "unat pos div ?c * ?c \<le> unat pos'" "unat pos' \<le> (unat pos div ?c + 1) * ?c - 1"
  proof -
    have "unat pos' < (unat pos div ?c + 1) * ?c" using that(2) nz by linarith
    with that(1) have "unat pos' div ?c = unat pos div ?c"
      by (intro div_nat_eqI) (simp_all add: mult.commute)
    then show ?thesis
      using pos q d(4) by (simp add: word_unat_eq_iff stripe_index_code [OF p] stripe_index_alt)
  qed
  have "(unat pos div ?c + 1) * ?c \<le> unat pos + ?c" using le by (simp add: add_mult_distrib)
  also have "\<dots> < 2 ^ 62 + 2 ^ 32" using pos c32 by linarith
  also have "\<dots> < (2 :: nat) ^ 63" by simp
  finally have "unat (getNextChunkStart p pos) < 2 ^ 63" using nxt by simp
  from stripe_index_code [OF p this] nxt d(4)
  have "unat (getStripeTargetIndex p (getNextChunkStart p pos)) =
      (unat pos div ?c + 1) mod numTargets p"
    by (simp only: stripe_index_alt nonzero_mult_div_cancel_right)
  moreover have "unat (getStripeTargetIndex p pos) = unat pos div ?c mod numTargets p"
    using stripe_index_code [OF p, of pos] pos d(4) by (simp add: stripe_index_alt)
  ultimately show ?thesis
    using start "end" le lt same by (simp add: mod_Suc_eq)
qed

theorem chunk_layout_witness:
  "unat (getStripeTargetIndex (demo_raid [7, 8, 9]) (getNextChunkStart (demo_raid [7, 8, 9]) 300000)) =
     (unat (getStripeTargetIndex (demo_raid [7, 8, 9]) 300000) + 1) mod numTargets (demo_raid [7, 8, 9])"
proof -
  have "striped 16 (demo_raid [7, 8, 9])" by (rule demo_raid_striped) simp
  from chunk_layout [OF this, of 300000 0] show ?thesis by simp
qed

text \<open>
  A stripe pattern that is written to disk or to a message is read back with all its
  fields, and the position moves on by exactly the bytes written. This holds for every buffer
  length from 12 on: the reader compares only the header with the buffer length, not the length
  field, so a buffer that ends within the pattern is not noticed.
\<close>

theorem stripe_pattern_round_trip:
  assumes "pattern_ok p" "12 \<le> n"
  shows "readStripePattern (fst (pattern_serialize p) @ rest) n =
      Inr (p\<lparr>serialPatternLength := 0\<rparr>, length (fst (pattern_serialize p)))"
proof -
  have "length (fst (pattern_serialize p)) = unat (serialLenPattern p)"
    using serialLenPattern_unat [OF assms(1)]
    by (simp add: pattern_serialize_def serializeHeader_def uint.ser_len serialLenUInt_def)
  with pattern_round_trip [OF assms] show ?thesis by simp
qed

lemma demo_raid_ok: "length ts < 1000 \<Longrightarrow> pattern_ok (demo_raid ts)"
  by (simp add: pattern_ok_def demo_raid_def Raid0Pattern_def withTargets_def newPattern_def
      calcStripeSetSize_def classType_def)

theorem stripe_pattern_round_trip_witness:
  "readStripePattern (fst (pattern_serialize (demo_raid [7, 8, 9])) @ [1]) 12 =
     Inr (demo_raid [7, 8, 9], length (fst (pattern_serialize (demo_raid [7, 8, 9]))))"
proof -
  have "pattern_ok (demo_raid [7, 8, 9])" by (rule demo_raid_ok) simp
  from stripe_pattern_round_trip [OF this, of 12 "[1]"] show ?thesis
    by (simp add: demo_raid_def Raid0Pattern_def withTargets_def newPattern_def calcStripeSetSize_def)
qed

text \<open>
  The mirror placement of RAID10 patterns. The rotated copy keeps all chosen targets and
  mirrors every chunk to a target other than its own, also for an odd number of targets; the
  disjoint copy splits them into equally many targets and mirrors that have none in common.
\<close>

theorem raid10_mirror_placement:
  assumes "distinct targetIDs" "2 \<le> length targetIDs"
    and r: "r = cloneRotated targetIDs p" and d: "d = cloneDisjoint targetIDs p"
  shows "stripeTargetIDs r = targetIDs \<and> set (mirrorTargetIDs r) = set targetIDs \<and>
      length (mirrorTargetIDs r) = length targetIDs \<and>
      (\<forall>i < length targetIDs. mirrorTargetIDs r ! i \<noteq> stripeTargetIDs r ! i) \<and>
    length (stripeTargetIDs d) = length targetIDs div 2 \<and>
      length (mirrorTargetIDs d) = length targetIDs div 2 \<and>
      set (stripeTargetIDs d) \<inter> set (mirrorTargetIDs d) = {} \<and>
      set (stripeTargetIDs d) \<union> set (mirrorTargetIDs d) \<subseteq> set targetIDs"
proof -
  let ?n = "length targetIDs" and ?h = "length targetIDs div 2"
  have h: "0 < ?h" "?h < ?n" using assms(2) by simp_all
  have rot: "stripeTargetIDs r = targetIDs" "mirrorTargetIDs r = drop ?h targetIDs @ take ?h targetIDs"
    by (simp_all add: r cloneRotated_def calcStripeSetSize_def)
  have "mirrorTargetIDs r ! i \<noteq> stripeTargetIDs r ! i" if i: "i < ?n" for i
  proof (cases "i < ?n - ?h")
    case True
    then have "mirrorTargetIDs r ! i = targetIDs ! (?h + i)" by (simp add: rot nth_append)
    with True h assms(1) show ?thesis by (simp add: rot nth_eq_iff_index_eq)
  next
    case False
    then have "mirrorTargetIDs r ! i = targetIDs ! (i - (?n - ?h))"
      using i h by (simp add: rot nth_append)
    moreover have "i - (?n - ?h) < ?n" "i - (?n - ?h) \<noteq> i" using i h False by linarith+
    ultimately show ?thesis using i assms(1) by (simp add: rot nth_eq_iff_index_eq)
  qed
  moreover have "set (drop ?h targetIDs @ take ?h targetIDs) = set targetIDs"
    by (metis append_take_drop_id set_append sup_commute)
  moreover have "length (mirrorTargetIDs r) = ?n" using h by (simp add: rot)
  moreover
  let ?m = "drop ?h targetIDs"
  have dis: "stripeTargetIDs d = take ?h targetIDs"
    "mirrorTargetIDs d = (if length ?m > ?h then butlast ?m else ?m)"
    using h by (simp_all add: d cloneDisjoint_def calcStripeSetSize_def newPattern_def Let_def)
  have sub: "set (mirrorTargetIDs d) \<subseteq> set ?m" by (auto simp: dis dest: in_set_butlastD)
  moreover have "set (take ?h targetIDs) \<inter> set ?m = {}"
    using assms(1) by (metis append_take_drop_id distinct_append)
  moreover have "length (mirrorTargetIDs d) = ?h" using h by (auto simp: dis)
  ultimately show ?thesis
    using h set_take_subset [of ?h targetIDs] set_drop_subset [of ?h targetIDs]
    by (auto simp: rot dis(1))
qed

theorem raid10_mirror_placement_witness:
  "mirrorTargetIDs (cloneRotated [1, 2, 3, 4, 5] (demo_raid [])) = [3, 4, 5, 1, 2] \<and>
   mirrorTargetIDs (cloneRotated [1, 2, 3, 4, 5] (demo_raid [])) ! 4 \<noteq>
     stripeTargetIDs (cloneRotated [1, 2, 3, 4, 5] (demo_raid [])) ! 4"
  using raid10_mirror_placement [of "[1, 2, 3, 4, 5]" _ "demo_raid []", OF _ _ refl refl]
  by (simp add: cloneRotated_def calcStripeSetSize_def)

lemma max_if: "(if a < b then b else a) = max a (b :: 'a::linorder)"
  by (auto simp: max_def)

text \<open>
  Creating a file's pattern from that of its directory, when the chunk size is the
  directory's: the pattern is refused only if the chooser found too few targets, and otherwise
  serves the file on targets that were chosen, at least as many as the pattern type needs.
\<close>

theorem file_pattern_created:
  assumes dir: "patternClass dir \<noteq> SimplePatternClass" "patternType dir = classType (patternClass dir)"
      "pow2 k (chunkSize dir)"
    and targets: "ts = chooser desired (getMinNumTargets dir)"
      "length ts * unat (chunkSize dir) < 2 ^ 32"
    and desired: "desired = max (if num \<noteq> 0 then num else defaultNumTargets dir) (getMinNumTargets dir)"
  shows "case createFileStripePattern chooser rotateMirrors True dir num 0 of
      None \<Rightarrow> length ts < unat (getMinNumTargets dir)
    | Some p \<Rightarrow> striped k p \<and> patternClass p = patternClass dir \<and> patternType p = patternType dir \<and>
        chunkSize p = chunkSize dir \<and> defaultNumTargets p = desired \<and>
        set (stripeTargetIDs p) \<subseteq> set ts \<and>
        (patternClass dir \<noteq> Raid10PatternClass \<longrightarrow> stripeTargetIDs p = ts)"
proof -
  let ?none = "length ts < unat (getMinNumTargets dir)"
  let ?clone = "if rotateMirrors \<and> patternType dir = STRIPEPATTERN_Raid10
    then cloneRotated ts dir else cloneWithTargets ts dir"
  have d: "(if (if num \<noteq> 0 then num else defaultNumTargets dir) < getMinNumTargets dir
      then getMinNumTargets dir else (if num \<noteq> 0 then num else defaultNumTargets dir)) = desired"
    unfolding desired by (simp only: max_if)
  have created: "createFileStripePattern chooser rotateMirrors True dir num 0 =
      (if ?none then None
       else Some (setChunkSize (chunkSize dir) (setDefaultNumTargets desired ?clone)))"
    unfolding createFileStripePattern_def Let_def d by (simp add: targets(1))
  have c: "chunkSize dir \<noteq> 0" using pow2_pos [OF dir(3)] by auto
  have half: "length ts div 2 * unat (chunkSize dir) < 2 ^ 32"
    using targets(2) by (rule le_less_trans [rotated]) simp
  show ?thesis
  proof (cases ?none)
    case False
    then have enough: "unat (getMinNumTargets dir) \<le> length ts" by simp
    then show ?thesis
      unfolding created using dir c targets(2) half set_take_subset [of "length ts div 2" ts]
      by (cases "patternClass dir")
        (auto simp: False getMinNumTargets_def classType_def setChunkSize_def setDefaultNumTargets_def
          cloneRotated_def cloneWithTargets_def cloneDisjoint_def Raid0Pattern_def Let_def
          BuddyMirrorPattern_def withTargets_def newPattern_def calcStripeSetSize_def striped_def
          STRIPEPATTERN_Raid0_def STRIPEPATTERN_Raid10_def STRIPEPATTERN_BuddyMirror_def)
  qed (simp add: created)
qed

theorem file_pattern_created_witness:
  "case createFileStripePattern (\<lambda>_ _. [7, 8, 9]) False True (demo_raid []) 3 0 of
      None \<Rightarrow> False | Some p \<Rightarrow> stripeTargetIDs p = [7, 8, 9] \<and> striped 16 p"
proof -
  note ev = demo_raid_def Raid0Pattern_def withTargets_def newPattern_def calcStripeSetSize_def
    classType_def pow2_def getMinNumTargets_def max_def word_le_nat_alt
  have "case createFileStripePattern (\<lambda>_ _. [7, 8, 9]) False True (demo_raid []) 3 0 of
      None \<Rightarrow> length [7, 8, 9 :: u16] < unat (getMinNumTargets (demo_raid []))
    | Some p \<Rightarrow> striped 16 p \<and> patternClass p = patternClass (demo_raid []) \<and>
        patternType p = patternType (demo_raid []) \<and>
        chunkSize p = chunkSize (demo_raid []) \<and> defaultNumTargets p = 3 \<and>
        set (stripeTargetIDs p) \<subseteq> set [7, 8, 9] \<and>
        (patternClass (demo_raid []) \<noteq> Raid10PatternClass \<longrightarrow> stripeTargetIDs p = [7, 8, 9])"
    by (rule file_pattern_created) (simp_all add: ev)
  then show ?thesis by (simp add: ev split: option.splits)
qed

text \<open>
  With a chunk size of its own, the new pattern keeps the stripe set size of the
  directory's chunk size: the object in memory maps positions to other targets than the same
  pattern after it has been written and read. Here three targets, 64 KiB in the directory and
  1 MiB for the file: the byte at 1 MiB is on the first target before and on the second after.
\<close>

theorem file_pattern_stale_stripe_set:
  "\<exists>p q n. createFileStripePattern (\<lambda>_ _. [7, 8, 9]) False True (demo_raid []) 3 1048576 = Some p \<and>
     readStripePattern (fst (pattern_serialize p)) 64 = Inr (q, n) \<and>
     stripeTargetIDs p = stripeTargetIDs q \<and> chunkSize p = chunkSize q \<and>
     getStripeTargetID p 1048576 = Some 7 \<and> getStripeTargetID q 1048576 = Some 8"
proof -
  define p where "p = setChunkSize 1048576 (demo_raid [7, 8, 9] \<lparr>defaultNumTargets := 3\<rparr>)"
  define q where "q = Raid0Pattern 1048576 [7, 8, 9] 3"
  have created: "createFileStripePattern (\<lambda>_ _. [7, 8, 9]) False True (demo_raid []) 3 1048576 = Some p"
    by (simp add: p_def createFileStripePattern_def Let_def cloneWithTargets_def demo_raid_def
      Raid0Pattern_def withTargets_def newPattern_def calcStripeSetSize_def getMinNumTargets_def
      setChunkSize_def setDefaultNumTargets_def STRIPEPATTERN_MIN_CHUNKSIZE_def isPowerOfTwo_def)
  have q: "pattern_ok q" "striped 20 q"
    by (simp_all add: q_def pattern_ok_def striped_def Raid0Pattern_def withTargets_def
      newPattern_def calcStripeSetSize_def classType_def pow2_def)
  have same: "fst (pattern_serialize p) = fst (pattern_serialize q)"
    by (simp add: p_def q_def demo_raid_def setChunkSize_def Raid0Pattern_def withTargets_def
      newPattern_def calcStripeSetSize_def pattern_serialize_def serializeHeader_def
      getSerialPatternLength_def serialLenPattern_def serializePattern_def)
  have "readStripePattern (fst (pattern_serialize p)) 64 = Inr (q, unat (serialLenPattern q))"
    using pattern_round_trip [OF q(1), of 64 "[]"]
    by (simp add: same) (simp add: q_def Raid0Pattern_def withTargets_def newPattern_def
      calcStripeSetSize_def)
  moreover have "getStripeTargetID q 1048576 = Some 8"
    using stripe_index_code [OF q(2), of 1048576]
    by (simp add: getStripeTargetID_def nth_opt_def stripe_index_def q_def Raid0Pattern_def
      withTargets_def newPattern_def calcStripeSetSize_def)
  moreover have "getStripeTargetID p 1048576 = Some 7"
  proof -
    have r: "rem64 1048576 196608 = 65536"
      using rem64_nonneg [of 1048576 196608] by (simp add: word_unat_eq_iff)
    have "unat (log2Int32 1048576) = 20" by (rule log2_pow2) (simp add: pow2_def)
    moreover have "signed_drop_bit 20 (65536 :: u64) = 0"
      using shift_nonneg [of 65536 20] by (simp add: word_unat_eq_iff)
    ultimately show ?thesis
      by (simp add: getStripeTargetID_def getStripeTargetIndex_def isPowerOfTwo_def r p_def
        demo_raid_def setChunkSize_def Raid0Pattern_def withTargets_def newPattern_def
        calcStripeSetSize_def nth_opt_def)
  qed
  ultimately show ?thesis
    using created by (intro exI conjI)
      (simp_all add: p_def q_def demo_raid_def setChunkSize_def Raid0Pattern_def withTargets_def
      newPattern_def calcStripeSetSize_def)
qed

text \<open>
  The stripe set size is kept in 32 bits. With five targets and a chunk size of 1 GiB (a
  power of two that every check accepts) the product 5 GiB wraps around to 1 GiB, and every
  file position is mapped to the first target.
\<close>

lemma stripe_set_size_wraps:
  "getStripeTargetID (Raid0Pattern 1073741824 [1, 2, 3, 4, 5] 5) pos = Some 1"
proof -
  have k: "pow2 30 1073741824" by (simp add: pow2_def)
  then have i: "isPowerOfTwo 1073741824" and l: "unat (log2Int32 1073741824) = 30"
    by (rule pow2_isPowerOfTwo, rule log2_pow2)
  have "unat (pos AND ucast (1073741824 - 1 :: u32)) = unat pos mod 1073741824"
    using and_pow2 [OF k, of pos] by simp
  then have "unat (signed_drop_bit 30 (pos AND ucast (1073741824 - 1 :: u32))) = 0"
    using shift_nonneg [of "pos AND ucast (1073741824 - 1 :: u32)" 30] by simp
  moreover have wrapped: "(5368709120 :: u32) = 1073741824" by simp
  ultimately show ?thesis
    using i l by (simp add: wrapped Raid0Pattern_def withTargets_def newPattern_def calcStripeSetSize_def
        getStripeTargetID_def getStripeTargetIndex_def nth_opt_def)
qed

end
