(* ===== verification/StatData.thy ===== *)
theory StatData
  imports ChunkInfo Striping
begin

text \<open>
  The attributes of an inode (\<open>StatData.h/.cpp\<close>, \<open>ChunksBlocksVec.h\<close> under
  fhgfs_common/source/common/storage): their serialization for disk and network, the block
  counts of sparse files, and \<open>updateDynamicFileAttribs\<close>, which derives the size and times of
  a file from what is known of its chunk files.

  An access of \<open>std::vector::at\<close> out of bounds throws: the outcome None.
\<close>

section \<open>Block counts\<close>

record ChunksBlocksVec =
  cbNumStripeTargets :: u32
  cbBlocks :: "u64 list"

definition newChunksBlocksVec :: "nat \<Rightarrow> ChunksBlocksVec" where
  "newChunksBlocksVec n = \<lparr>cbNumStripeTargets = word_of_nat n, cbBlocks = replicate n 0\<rparr>"

text \<open>\<open>std::vector::resize\<close> with the value 0.\<close>

definition resize0 :: "nat \<Rightarrow> u64 list \<Rightarrow> u64 list" where
  "resize0 n xs = take n xs @ replicate (n - length xs) 0"

definition setNumBlocks :: "nat \<Rightarrow> u64 \<Rightarrow> nat \<Rightarrow> ChunksBlocksVec \<Rightarrow> ChunksBlocksVec option" where
  "setNumBlocks target numBlocks numStripeTargets v =
     (let v' = (if cbNumStripeTargets v = 0
                then \<lparr>cbNumStripeTargets = word_of_nat numStripeTargets,
                      cbBlocks = resize0 numStripeTargets (cbBlocks v)\<rparr>
                else v)
      in if target > unat (cbNumStripeTargets v' - 1) then Some v'
         else if target < length (cbBlocks v')
         then Some (v'\<lparr>cbBlocks := (cbBlocks v')[target := numBlocks]\<rparr>)
         else None)"

definition getTargetBlocks :: "nat \<Rightarrow> ChunksBlocksVec \<Rightarrow> u64 option" where
  "getTargetBlocks target v =
     (if cbNumStripeTargets v = 0 then Some 0
      else if target > unat (cbNumStripeTargets v - 1) then Some 0
      else nth_opt (cbBlocks v) target)"

definition getBlockSum :: "ChunksBlocksVec \<Rightarrow> u64" where
  "getBlockSum v = fold (\<lambda>b sum. sum + b) (cbBlocks v) 0"

definition cb_serialize :: "ChunksBlocksVec \<Rightarrow> u8 list" where
  "cb_serialize v = serializeUInt64Vector (cbBlocks v)"

text \<open>The elements are appended to those of the object.\<close>

definition cb_deserialize :: "ChunksBlocksVec \<Rightarrow> ChunksBlocksVec decoder" where
  "cb_deserialize old =
     dbind deserializeUInt64Vector (\<lambda>blocks.
     dreturn \<lparr>cbNumStripeTargets = word_of_nat (length blocks), cbBlocks = cbBlocks old @ blocks\<rparr>)"

definition cb_serialLen :: "ChunksBlocksVec \<Rightarrow> u32" where
  "cb_serialLen v = serialLenUInt64Vector (cbBlocks v)"

definition chunksBlocksVecEquals :: "ChunksBlocksVec \<Rightarrow> ChunksBlocksVec \<Rightarrow> bool" where
  "chunksBlocksVecEquals a b \<longleftrightarrow>
     cbNumStripeTargets a = cbNumStripeTargets b \<and> length (cbBlocks a) = length (cbBlocks b) \<and>
     cbBlocks a = cbBlocks b"

section \<open>Attributes of an inode\<close>

record SettableFileAttribs =
  mode :: i32
  userID :: u32
  groupID :: u32
  modificationTimeSecs :: i64
  lastAccessTimeSecs :: i64

record StatData =
  statFlags :: u32
  statFileSize :: i64
  creationTimeSecs :: i64
  attribChangeTimeSecs :: i64
  nlink :: u32
  settable :: SettableFileAttribs
  contentsVersion :: u32
  chunkBlocksVec :: ChunksBlocksVec

definition STATDATA_FEATURE_SPARSE_FILE :: u32 where "STATDATA_FEATURE_SPARSE_FILE = 1"
definition STATDATA_SIZETOBLOCKSBIT_SHIFT :: nat where "STATDATA_SIZETOBLOCKSBIT_SHIFT = 9"
definition STATDATA_SPARSE_GRACEBLOCKS :: u64 where "STATDATA_SPARSE_GRACEBLOCKS = 8"

definition getIsSparseFile :: "StatData \<Rightarrow> bool" where
  "getIsSparseFile st \<longleftrightarrow> statFlags st AND STATDATA_FEATURE_SPARSE_FILE \<noteq> 0"

definition setSparseFlag :: "StatData \<Rightarrow> StatData" where
  "setSparseFlag st = st\<lparr>statFlags := statFlags st OR STATDATA_FEATURE_SPARSE_FILE\<rparr>"

definition unsetSparseFlag :: "StatData \<Rightarrow> StatData" where
  "unsetSparseFlag st = st\<lparr>statFlags := statFlags st AND NOT STATDATA_FEATURE_SPARSE_FILE\<rparr>"

definition getNumBlocks :: "StatData \<Rightarrow> u64" where
  "getNumBlocks st =
     (if getIsSparseFile st then getBlockSum (chunkBlocksVec st)
      else signed_drop_bit STATDATA_SIZETOBLOCKSBIT_SHIFT (statFileSize st))"

definition incDecNumHardLinks :: "i32 \<Rightarrow> StatData \<Rightarrow> StatData" where
  "incDecNumHardLinks value st = st\<lparr>nlink := nlink st + value\<rparr>"

definition statDataEquals :: "StatData \<Rightarrow> StatData \<Rightarrow> bool" where
  "statDataEquals a b \<longleftrightarrow>
     statFlags a = statFlags b \<and> mode (settable a) = mode (settable b) \<and>
     chunksBlocksVecEquals (chunkBlocksVec a) (chunkBlocksVec b) \<and>
     creationTimeSecs a = creationTimeSecs b \<and>
     lastAccessTimeSecs (settable a) = lastAccessTimeSecs (settable b) \<and>
     modificationTimeSecs (settable a) = modificationTimeSecs (settable b) \<and>
     attribChangeTimeSecs a = attribChangeTimeSecs b \<and> statFileSize a = statFileSize b \<and>
     nlink a = nlink b \<and> contentsVersion a = contentsVersion b \<and>
     userID (settable a) = userID (settable b) \<and> groupID (settable a) = groupID (settable b)"

section \<open>Serialization\<close>

text \<open>
  The format depends on three arguments: directory inodes on disk have no size and link count,
  old inodes have no flags (their mode is last), and over the network the number of blocks
  replaces the block counts of the chunks.
\<close>

definition stat_serialize :: "bool \<Rightarrow> bool \<Rightarrow> bool \<Rightarrow> StatData \<Rightarrow> u8 list" where
  "stat_serialize isDiskDirInode hasFlags isNet st =
     (if hasFlags \<or> isNet
      then serializeUInt (statFlags st) @ serializeInt (mode (settable st)) @
        (if isNet then serializeUInt64 (getNumBlocks st)
         else if getIsSparseFile st then cb_serialize (chunkBlocksVec st)
         else [])
      else []) @
     serializeInt64 (creationTimeSecs st) @
     serializeInt64 (lastAccessTimeSecs (settable st)) @
     serializeInt64 (modificationTimeSecs (settable st)) @
     serializeInt64 (attribChangeTimeSecs st) @
     (if \<not> isDiskDirInode
      then serializeInt64 (statFileSize st) @ serializeUInt (nlink st) @
        serializeUInt (contentsVersion st)
      else []) @
     serializeUInt (userID (settable st)) @
     serializeUInt (groupID (settable st)) @
     (if \<not> hasFlags then serializeInt (mode (settable st)) else [])"

definition stat_serialLen :: "bool \<Rightarrow> bool \<Rightarrow> bool \<Rightarrow> StatData \<Rightarrow> u32" where
  "stat_serialLen isDiskDirInode hasFlags isNet st =
     (if hasFlags \<or> isNet
      then serialLenUInt + serialLenUInt +
        (if isNet then serialLenUInt64
         else if getIsSparseFile st then cb_serialLen (chunkBlocksVec st)
         else 0)
      else 0) +
     (serialLenInt64 + serialLenInt64 + serialLenInt64 + serialLenInt64) +
     (if \<not> isDiskDirInode then serialLenInt64 + serialLenUInt + serialLenUInt else 0) +
     (serialLenUInt + serialLenUInt) + (if \<not> hasFlags then serialLenUInt else 0)"

text \<open>
  The position moves on without a look at the buffer length; the remaining length is a
  \<open>size_t\<close> and wraps around below 0.
\<close>

definition dskip :: "nat \<Rightarrow> 'a decoder \<Rightarrow> 'a decoder" where
  "dskip k d buf bufLen =
     (case d (drop k buf) ((bufLen + 2 ^ 64 - k) mod 2 ^ 64) of
        Inl e \<Rightarrow> Inl e
      | Inr (x, m) \<Rightarrow> Inr (x, k + m))"

definition stat_readTail :: "bool \<Rightarrow> StatData \<Rightarrow> StatData decoder" where
  "stat_readTail hasFlags st =
     dbind deserializeUInt (\<lambda>uid.
     dbind deserializeUInt (\<lambda>gid.
     let st' = st\<lparr>settable := settable st\<lparr>userID := uid, groupID := gid\<rparr>\<rparr>
     in if hasFlags then dreturn st'
        else dbind deserializeInt (\<lambda>m.
          dreturn (st'\<lparr>settable := settable st'\<lparr>mode := m\<rparr>\<rparr>))))"

definition stat_readTimes :: "bool \<Rightarrow> bool \<Rightarrow> StatData \<Rightarrow> StatData decoder" where
  "stat_readTimes isDiskDirInode hasFlags st =
     dbind deserializeInt64 (\<lambda>creation.
     dbind deserializeInt64 (\<lambda>atime.
     dbind deserializeInt64 (\<lambda>mtime.
     dbind deserializeInt64 (\<lambda>ctime.
     let st' = st\<lparr>creationTimeSecs := creation, attribChangeTimeSecs := ctime,
                 settable := settable st\<lparr>lastAccessTimeSecs := atime,
                   modificationTimeSecs := mtime\<rparr>\<rparr>
     in if isDiskDirInode then stat_readTail hasFlags st'
        else
          dbind deserializeInt64 (\<lambda>size.
          dbind deserializeUInt (\<lambda>links.
          dbind deserializeUInt (\<lambda>version.
            stat_readTail hasFlags (st'\<lparr>statFileSize := size, nlink := links,
              contentsVersion := version\<rparr>))))))))"

definition stat_deserialize :: "bool \<Rightarrow> bool \<Rightarrow> bool \<Rightarrow> StatData \<Rightarrow> StatData decoder" where
  "stat_deserialize isDiskDirInode hasFlags isNet st =
     (if hasFlags \<or> isNet
      then
        dbind deserializeUInt (\<lambda>flags.
        dbind deserializeInt (\<lambda>m.
        let st' = st\<lparr>statFlags := flags, settable := settable st\<lparr>mode := m\<rparr>\<rparr>
        in if isNet
           then dskip (unat serialLenUInt64) (stat_readTimes isDiskDirInode hasFlags st')
           else if getIsSparseFile st'
           then dbind (cb_deserialize (chunkBlocksVec st')) (\<lambda>cb.
             stat_readTimes isDiskDirInode hasFlags (st'\<lparr>chunkBlocksVec := cb\<rparr>))
           else stat_readTimes isDiskDirInode hasFlags st'))
      else stat_readTimes isDiskDirInode hasFlags (st\<lparr>statFlags := 0\<rparr>))"

section \<open>Size and times from the chunk files\<close>

record ScanState =
  lastMaxNumChunksIndex :: nat
  maxNumChunks :: i64
  newModificationTimeSecs :: i64
  newLastAccessTimeSecs :: i64
  scanBlocks :: ChunksBlocksVec

definition smax :: "i64 \<Rightarrow> i64 \<Rightarrow> i64" where
  "smax a b = (if sint a < sint b then b else a)"

text \<open>The loop over the targets from 1 on.\<close>

fun scanChunks :: "nat \<Rightarrow> nat \<Rightarrow> ChunkFileInfo list \<Rightarrow> ScanState \<Rightarrow> ScanState option" where
  "scanChunks numStripeTargets target [] s = Some s"
| "scanChunks numStripeTargets target (c # cs) s =
     (let s1 = (if sint (getNumChunks c) \<ge> sint (maxNumChunks s)
                then s\<lparr>lastMaxNumChunksIndex := target, maxNumChunks := getNumChunks c\<rparr> else s);
          s2 = s1\<lparr>newModificationTimeSecs :=
                   smax (newModificationTimeSecs s1) (dynModificationTimeSecs (dynAttribs c)),
                 newLastAccessTimeSecs :=
                   smax (newLastAccessTimeSecs s1) (dynLastAccessTimeSecs (dynAttribs c))\<rparr>
      in case setNumBlocks target (dynNumBlocks (dynAttribs c)) numStripeTargets (scanBlocks s2) of
           None \<Rightarrow> None
         | Some b \<Rightarrow> scanChunks numStripeTargets (Suc target) cs (s2\<lparr>scanBlocks := b\<rparr>))"

text \<open>\<open>now\<close> is the current time in seconds.\<close>

definition calcFileSize :: "ChunkFileInfo list \<Rightarrow> u32 \<Rightarrow> nat \<Rightarrow> i64 \<Rightarrow> i64" where
  "calcFileSize infos chunk lastMax maxChunks =
     (let lengthBeforeLastMaxIndex = word_of_nat lastMax * maxChunks * ucast chunk;
          lengthAfterLastMaxIndex =
            (word_of_nat (length infos) - word_of_nat lastMax - 1) * (maxChunks - 1) * ucast chunk;
          lengthLastMaxNode = dynFileSize (dynAttribs (infos ! lastMax))
      in lengthBeforeLastMaxIndex + lengthAfterLastMaxIndex + lengthLastMaxNode)"

definition updateSparseFlag :: "i64 \<Rightarrow> StatData \<Rightarrow> StatData" where
  "updateSparseFlag newFileSize st =
     (let calcBlocks = signed_drop_bit STATDATA_SIZETOBLOCKSBIT_SHIFT newFileSize;
          usedBlockSum = getNumBlocks st
      in if usedBlockSum + STATDATA_SPARSE_GRACEBLOCKS < calcBlocks then setSparseFlag st
         else unsetSparseFlag st)"

definition updateDynamicFileAttribs ::
    "ChunkFileInfo list \<Rightarrow> StripePattern \<Rightarrow> i64 \<Rightarrow> StatData \<Rightarrow> StatData option" where
  "updateDynamicFileAttribs infos pattern now st =
     (let numStripeTargets = length (stripeTargetIDs pattern);
          numValidDynAttribs =
            length (filter (\<lambda>c. storageVersion (dynAttribs c) \<noteq> 0) infos)
      in case infos of
           [] \<Rightarrow> Some st
         | c0 # cs \<Rightarrow>
             if numValidDynAttribs = 0 then Some st
             else
               (let d0 = dynAttribs c0;
                    (mtime, atime) =
                      (if numValidDynAttribs = numStripeTargets
                       then (dynModificationTimeSecs d0, dynLastAccessTimeSecs d0)
                       else (smax (dynModificationTimeSecs d0) (modificationTimeSecs (settable st)),
                             smax (dynLastAccessTimeSecs d0) (lastAccessTimeSecs (settable st))))
                in case setNumBlocks 0 (dynNumBlocks d0) numStripeTargets (chunkBlocksVec st) of
                     None \<Rightarrow> None
                   | Some b0 \<Rightarrow>
                       (case scanChunks numStripeTargets 1 cs
                          \<lparr>lastMaxNumChunksIndex = 0, maxNumChunks = getNumChunks c0,
                           newModificationTimeSecs = mtime, newLastAccessTimeSecs = atime,
                           scanBlocks = b0\<rparr> of
                          None \<Rightarrow> None
                        | Some s \<Rightarrow>
                            (let st1 = st\<lparr>chunkBlocksVec := scanBlocks s\<rparr>;
                                 newFileSize =
                                   (if maxNumChunks s \<noteq> 0
                                    then calcFileSize infos (chunkSize pattern)
                                      (lastMaxNumChunksIndex s) (maxNumChunks s)
                                    else 0);
                                 st2 = (if maxNumChunks s \<noteq> 0 then updateSparseFlag newFileSize st1
                                        else st1);
                                 changed = (newModificationTimeSecs s \<noteq>
                                              modificationTimeSecs (settable st) \<or>
                                            newFileSize \<noteq> statFileSize st);
                                 st3 = (if changed then st2\<lparr>attribChangeTimeSecs := now\<rparr> else st2)
                             in Some (st3\<lparr>settable := settable st3
                                  \<lparr>lastAccessTimeSecs := newLastAccessTimeSecs s,
                                   modificationTimeSecs := newModificationTimeSecs s\<rparr>,
                                statFileSize := newFileSize\<rparr>)))))"

section \<open>What is read back\<close>

text \<open>
  The fields that the format carries come from the written attributes, the others stay as
  they were in the object that is filled.
\<close>

definition stat_restored :: "bool \<Rightarrow> bool \<Rightarrow> StatData \<Rightarrow> StatData \<Rightarrow> StatData" where
  "stat_restored isDiskDirInode hasFlags st old =
     old\<lparr>statFlags := (if hasFlags then statFlags st else 0),
         creationTimeSecs := creationTimeSecs st, attribChangeTimeSecs := attribChangeTimeSecs st,
         settable := settable st,
         statFileSize := (if isDiskDirInode then statFileSize old else statFileSize st),
         nlink := (if isDiskDirInode then nlink old else nlink st),
         contentsVersion := (if isDiskDirInode then contentsVersion old else contentsVersion st),
         chunkBlocksVec :=
           (if hasFlags \<and> getIsSparseFile st
            then \<lparr>cbNumStripeTargets = word_of_nat (length (cbBlocks (chunkBlocksVec st))),
                  cbBlocks = cbBlocks (chunkBlocksVec old) @ cbBlocks (chunkBlocksVec st)\<rparr>
            else chunkBlocksVec old)\<rparr>"

definition blocks_ok :: "u64 list \<Rightarrow> bool" where
  "blocks_ok bs \<longleftrightarrow> length bs < 500000000"

lemma blocks_seq_ok: "blocks_ok bs \<Longrightarrow> seq_ok (\<lambda>_. True) (\<lambda>_. serialLenUInt64) bs"
  by (simp add: blocks_ok_def seq_ok_def sum_list_triv int_list_lens list_all_iff)

lemma blocks_len: "blocks_ok bs \<Longrightarrow> unat (serialLenUInt64Vector bs) = 8 + 8 * length bs"
  by (simp add: blocks_ok_def serialLenUInt64Vector_def serialLenFixed_def int_list_lens
      unat_word_ariths unat_of_nat)

lemma cb_reads:
  "blocks_ok (cbBlocks v) \<Longrightarrow>
     reads (cb_deserialize old) \<lparr>cbNumStripeTargets = word_of_nat (length (cbBlocks v)),
       cbBlocks = cbBlocks old @ cbBlocks v\<rparr> (cb_serialize v) (unat (cb_serialLen v))"
  unfolding cb_deserialize_def cb_serialize_def cb_serialLen_def
  by (rule reads_last [OF uint64vec.reads [OF blocks_seq_ok]]) simp_all

lemmas stat_fields = uint.reads [OF TrueI] int.reads [OF TrueI] int64.reads [OF TrueI]

lemma stat_tail_reads:
  assumes r: "r = st\<lparr>settable := settable st\<lparr>userID := uid, groupID := gid,
        mode := (if hasFlags then mode (settable st) else m)\<rparr>\<rparr>"
  shows "reads (stat_readTail hasFlags st) r
     (serializeUInt uid @ serializeUInt gid @ (if \<not> hasFlags then serializeInt m else []))
     (8 + (if hasFlags then 0 else 4))"
proof (cases hasFlags)
  case True
  then show ?thesis
    unfolding stat_readTail_def Let_def
    by (simp, intro reads_len [OF reads_bind [OF stat_fields(1) reads_last [OF stat_fields(1)]]])
      (simp_all add: int_list_lens r)
next
  case False
  then show ?thesis
    unfolding stat_readTail_def Let_def
    by (simp, intro reads_len [OF reads_bind [OF stat_fields(1)
            reads_bind [OF stat_fields(1) reads_last [OF stat_fields(2)]]]])
      (simp_all add: int_list_lens r)
qed

lemma stat_times_reads:
  assumes m: "hasFlags \<Longrightarrow> mode (settable st) = mode (settable x)"
    and r: "r = st\<lparr>creationTimeSecs := creationTimeSecs x,
         attribChangeTimeSecs := attribChangeTimeSecs x, settable := settable x,
         statFileSize := (if isDir then statFileSize st else statFileSize x),
         nlink := (if isDir then nlink st else nlink x),
         contentsVersion := (if isDir then contentsVersion st else contentsVersion x)\<rparr>"
    and k: "k = 32 + (if isDir then 0 else 16) + (8 + (if hasFlags then 0 else 4))"
  shows "reads (stat_readTimes isDir hasFlags st) r
     (serializeInt64 (creationTimeSecs x) @ serializeInt64 (lastAccessTimeSecs (settable x)) @
      serializeInt64 (modificationTimeSecs (settable x)) @
      serializeInt64 (attribChangeTimeSecs x) @
      (if \<not> isDir
       then serializeInt64 (statFileSize x) @ serializeUInt (nlink x) @
         serializeUInt (contentsVersion x) else []) @
      serializeUInt (userID (settable x)) @ serializeUInt (groupID (settable x)) @
      (if \<not> hasFlags then serializeInt (mode (settable x)) else [])) k"
proof (cases isDir)
  case True
  then show ?thesis
    unfolding stat_readTimes_def Let_def
    by (simp only: True if_True if_False not_True_eq_False append_Nil)
      (rule reads_len, (rule reads_bind stat_fields(3))+, rule stat_tail_reads,
        simp_all add: int_list_lens m r k True)
next
  case False
  then show ?thesis
    unfolding stat_readTimes_def Let_def
    by (simp only: False if_True if_False not_False_eq_True append_assoc)
      (rule reads_len, (rule reads_bind stat_fields(1,3))+, rule stat_tail_reads,
        simp_all add: int_list_lens m r k False)
qed

lemma stat_disk_reads:
  assumes ok: "blocks_ok (cbBlocks (chunkBlocksVec st))"
  shows "reads (stat_deserialize isDir hasFlags False old) (stat_restored isDir hasFlags st old)
    (stat_serialize isDir hasFlags False st)
    ((if hasFlags
      then 8 + (if getIsSparseFile st then 8 + 8 * length (cbBlocks (chunkBlocksVec st)) else 0)
      else 0) + (32 + (if isDir then 0 else 16) + (8 + (if hasFlags then 0 else 4))))"
    (is "reads _ _ _ ?k")
proof (cases hasFlags)
  case False
  then show ?thesis
    using stat_times_reads [of hasFlags "old\<lparr>statFlags := 0\<rparr>" st
        "stat_restored isDir hasFlags st old" isDir, OF _ _ refl]
    by (simp add: stat_deserialize_def stat_serialize_def stat_restored_def)
next
  case True
  let ?q = "old\<lparr>statFlags := statFlags st, settable := settable old\<lparr>mode := mode (settable st)\<rparr>\<rparr>"
  note cb = cb_reads [OF ok, of "chunkBlocksVec ?q", unfolded cb_serialLen_def blocks_len [OF ok]]
  note times = stat_times_reads [where hasFlags = True,
      unfolded simp_thms if_True if_False append_Nil2]
  show ?thesis
  proof (cases "getIsSparseFile st")
    case sparse: True
    then have q: "getIsSparseFile ?q" by (simp add: getIsSparseFile_def)
    show ?thesis
      unfolding stat_deserialize_def stat_serialize_def Let_def
      by (simp only: True sparse simp_thms if_True if_False append_assoc append_Nil2,
          rule reads_len, (rule reads_bind stat_fields(1,2))+, simp only: q if_True,
          rule reads_bind, rule cb, rule times)
        (simp_all add: stat_restored_def True sparse int_list_lens)
  next
    case dense: False
    then have q: "\<not> getIsSparseFile ?q" by (simp add: getIsSparseFile_def)
    show ?thesis
      unfolding stat_deserialize_def stat_serialize_def Let_def
      by (simp only: True dense simp_thms if_True if_False append_assoc append_Nil append_Nil2,
          rule reads_len, (rule reads_bind stat_fields(1,2))+, simp only: q if_False,
          rule times)
        (simp_all add: stat_restored_def True dense int_list_lens)
  qed
qed

text \<open>
  The network format is not checked after its first 8 bytes: a message that ends before the
  number of blocks makes the remaining length wrap around, and the times are read behind it.
\<close>

lemma stat_net_short_buffer:
  assumes "8 \<le> n" "n < 16" "length buf = n"
  shows "stat_deserialize isDir hasFlags True old buf n = Inl ReadBeyondBuffer"
proof -
  have "(n - 8 + 2 ^ 64 - 8) mod 2 ^ 64 = (n - 8 + (2 ^ 64 - 8 :: nat))"
    using assms(1,2) by (simp add: mod_less)
  then show ?thesis
    using assms by (simp add: stat_deserialize_def dbind_def deserializeUInt_def deserializeInt_def
        read_le_def dskip_def Let_def stat_readTimes_def deserializeInt64_def
        deserializeUInt64_def int_list_lens)
qed

section \<open>Properties\<close>

text \<open>
  The attributes of an inode survive being written to disk and read again, in each of the
  three disk formats (file, directory, old format without flags): every field of the format is
  restored, the block counts of sparse files included, and exactly the bytes written are used.
\<close>

theorem stat_data_round_trip:
  assumes "length (cbBlocks (chunkBlocksVec st)) < 500000000"
    and "length (stat_serialize isDir hasFlags False st) \<le> n"
  shows "stat_deserialize isDir hasFlags False old (stat_serialize isDir hasFlags False st @ rest) n =
    Inr (stat_restored isDir hasFlags st old, length (stat_serialize isDir hasFlags False st))"
proof -
  have "blocks_ok (cbBlocks (chunkBlocksVec st))" using assms(1) by (simp add: blocks_ok_def)
  from stat_disk_reads [OF this, of isDir hasFlags old] assms(2) show ?thesis
    unfolding reads_def by auto
qed

definition demo_stat :: StatData where
  "demo_stat =
     \<lparr>statFlags = 1, statFileSize = 300000, creationTimeSecs = 5, attribChangeTimeSecs = 6,
      nlink = 1, settable = \<lparr>mode = 420, userID = 7, groupID = 8, modificationTimeSecs = 9,
      lastAccessTimeSecs = 10\<rparr>, contentsVersion = 2,
      chunkBlocksVec = \<lparr>cbNumStripeTargets = 2, cbBlocks = [3, 4]\<rparr>\<rparr>"

theorem stat_data_round_trip_witness:
  "stat_deserialize False True False (demo_stat\<lparr>statFlags := 0, chunkBlocksVec := newChunksBlocksVec 0\<rparr>)
     (stat_serialize False True False demo_stat @ [1]) 200 =
   Inr (demo_stat, length (stat_serialize False True False demo_stat))"
proof -
  have len: "length (stat_serialize False True False demo_stat) \<le> 200"
    by (simp add: demo_stat_def stat_serialize_def uint.ser_len int.ser_len int64.ser_len
        int_list_lens getIsSparseFile_def STATDATA_FEATURE_SPARSE_FILE_def cb_serialize_def
        serializeUInt64Vector_def serializeFixed_def uint64.ser_len)
  show ?thesis
    using stat_data_round_trip [OF _ len,
        of "demo_stat\<lparr>statFlags := 0, chunkBlocksVec := newChunksBlocksVec 0\<rparr>" "[1]"]
    by (simp add: demo_stat_def stat_restored_def newChunksBlocksVec_def getIsSparseFile_def
        STATDATA_FEATURE_SPARSE_FILE_def)
qed

end
