(* ===== verification/InodeData.thy ===== *)
theory InodeData
  imports StatData
begin

text \<open>
  What the metadata server keeps of an inode and of a directory entry:
  \<open>FileInodeStoreData.h/.cpp\<close> and \<open>DentryStoreData.h\<close> under fhgfs_meta/source/storage,
  \<open>PathInfo.h/.cpp\<close> and \<open>HsmFileMetaData.h/.cpp\<close> under fhgfs_common/source/common/storage,
  with the formats for messages. The format on disk is in the theory \<open>DiskMeta\<close>.

  The enumerations are integers, since the readers store what they find in the buffer without a
  test. The pointer to the stripe pattern is an option: None is NULL.
\<close>

section \<open>Reading back\<close>

text \<open>
  The contract of readers that do not look at every length they use: with a buffer length that
  covers the bytes written, the value is read back and the position moves on by their number.
\<close>

definition reads_back :: "'a decoder \<Rightarrow> 'a \<Rightarrow> u8 list \<Rightarrow> bool" where
  "reads_back d x bs \<longleftrightarrow>
     (\<forall>rest n. length bs \<le> n \<and> n < 2 ^ 64 \<longrightarrow> d (bs @ rest) n = Inr (x, length bs))"

lemma back_reads: "reads d x bs m \<Longrightarrow> reads_back d x bs"
  by (auto simp: reads_def reads_back_def)

lemma back_exact: "reads_back d x bs \<Longrightarrow> length bs < 2 ^ 64 \<Longrightarrow> d bs (length bs) = Inr (x, length bs)"
  unfolding reads_back_def by (metis append_Nil2 order_refl)

lemma back_codec:
  "reads_back deserializeUInt8 v8 (serializeUInt8 v8)"
  "reads_back deserializeUInt16 v16 (serializeUInt16 v16)"
  "reads_back deserializeUShort v16 (serializeUShort v16)"
  "reads_back deserializeUInt v32 (serializeUInt v32)"
  "reads_back deserializeInt v32 (serializeInt v32)"
  "str_ok s \<Longrightarrow> reads_back deserializeStrAlign4 s (serializeStrAlign4 s)"
  by (auto intro: back_reads [OF uint8.reads [OF TrueI]] back_reads [OF uint16.reads [OF TrueI]]
      back_reads [OF ushort.reads [OF TrueI]] back_reads [OF uint.reads [OF TrueI]]
      back_reads [OF int.reads [OF TrueI]] back_reads [OF str4.reads])

lemma back_return: "x = y \<Longrightarrow> reads_back (dreturn x) y []"
  by (simp add: reads_back_def dreturn_def)

lemma back_bind:
  assumes "reads_back d a bs" "reads_back (f a) x cs"
  shows "reads_back (dbind d f) x (bs @ cs)"
  unfolding reads_back_def
proof (intro allI impI)
  fix rest n
  assume n: "length (bs @ cs) \<le> n \<and> n < 2 ^ 64"
  then have "length cs \<le> n - length bs \<and> n - length bs < 2 ^ 64" by auto
  with assms n show "dbind d f ((bs @ cs) @ rest) n = Inr (x, length (bs @ cs))"
    by (simp add: reads_back_def dbind_def)
qed

lemma back_last: "reads_back d a bs \<Longrightarrow> x = g a \<Longrightarrow> reads_back (dbind d (\<lambda>a. dreturn (g a))) x bs"
  using back_bind [OF _ back_return, of d a bs "\<lambda>a. g a" x] by simp

lemma wrapped_sub: "k \<le> n \<Longrightarrow> n < M \<Longrightarrow> (n + M - k) mod M = n - (k :: nat)"
  by (simp only: diff_add_assoc2 mod_add_self2 mod_less less_imp_diff_less)

lemma back_skip:
  assumes "length pad = k" "reads_back d x bs"
  shows "reads_back (dskip k d) x (pad @ bs)"
  unfolding reads_back_def
proof (intro allI impI)
  fix rest n
  assume n: "length (pad @ bs) \<le> n \<and> n < 2 ^ 64"
  then have k: "k \<le> n" "n < 2 ^ 64" "length bs \<le> n - k" "n - k < 2 ^ 64" using assms(1) by auto
  then have "d (bs @ rest) (n - k) = Inr (x, length bs)"
    using assms(2) unfolding reads_back_def by blast
  then show "dskip k d ((pad @ bs) @ rest) n = Inr (x, length (pad @ bs))"
    unfolding dskip_def wrapped_sub [OF k(1,2)] using assms(1) by simp
qed

lemma back_if:
  "(c \<longrightarrow> reads_back d x bs) \<Longrightarrow> (\<not> c \<longrightarrow> reads_back e x cs) \<Longrightarrow>
     reads_back (if c then d else e) x (if c then bs else cs)"
  by simp

lemma back_pattern:
  assumes p: "pattern_ok p"
  shows "reads_back readStripePattern (p\<lparr>serialPatternLength := 0\<rparr>) (fst (pattern_serialize p))"
  unfolding reads_back_def
proof (intro allI impI)
  fix rest n
  have len: "length (fst (pattern_serialize p)) = unat (serialLenPattern p)"
    using serialLenPattern_unat [OF p]
    by (simp add: pattern_serialize_def serializeHeader_def uint.ser_len serialLenUInt_def)
  assume "length (fst (pattern_serialize p)) \<le> n \<and> n < 2 ^ 64"
  with len have "12 \<le> n" using serialLenPattern_unat [OF p] by simp
  from pattern_round_trip [OF p this] len
  show "readStripePattern (fst (pattern_serialize p) @ rest) n =
      Inr (p\<lparr>serialPatternLength := 0\<rparr>, length (fst (pattern_serialize p)))"
    by simp
qed

lemma back_stat:
  "blocks_ok (cbBlocks (chunkBlocksVec st)) \<Longrightarrow>
     reads_back (stat_deserialize isDir hasFlags False old) (stat_restored isDir hasFlags st old)
       (stat_serialize isDir hasFlags False st)"
  by (rule back_reads [OF stat_disk_reads])

section \<open>Path of the chunk files\<close>

record PathInfo =
  piFlags :: i32
  piOrigUID :: u32
  piOrigParentEntryID :: string

definition PATHINFO_FEATURE_ORIG :: i32 where "PATHINFO_FEATURE_ORIG = 1"
definition PATHINFO_FEATURE_ORIG_UNKNOWN :: i32 where "PATHINFO_FEATURE_ORIG_UNKNOWN = 2"

definition pi_hasOrigFeature :: "PathInfo \<Rightarrow> bool" where
  "pi_hasOrigFeature p \<longleftrightarrow> piFlags p AND PATHINFO_FEATURE_ORIG \<noteq> 0"

definition pi_serialize :: "PathInfo \<Rightarrow> u8 list" where
  "pi_serialize p =
     serializeInt (piFlags p) @
     (if piFlags p AND PATHINFO_FEATURE_ORIG \<noteq> 0
      then serializeUInt (piOrigUID p) @ serializeStrAlign4 (piOrigParentEntryID p)
      else [])"

definition pi_deserialize :: "PathInfo decoder" where
  "pi_deserialize =
     dbind deserializeInt (\<lambda>flags.
     if flags AND PATHINFO_FEATURE_ORIG \<noteq> 0
     then
       dbind deserializeUInt (\<lambda>uid.
       dbind deserializeStrAlign4 (\<lambda>parent.
       dreturn \<lparr>piFlags = flags, piOrigUID = uid, piOrigParentEntryID = parent\<rparr>))
     else dreturn \<lparr>piFlags = flags, piOrigUID = 0, piOrigParentEntryID = []\<rparr>)"

definition pi_serialLen :: "PathInfo \<Rightarrow> u32" where
  "pi_serialLen p =
     serialLenInt +
     (if piFlags p AND PATHINFO_FEATURE_ORIG \<noteq> 0
      then serialLenUInt + serialLenStrAlign4 (word_of_nat (length (piOrigParentEntryID p)))
      else 0)"

definition pathInfoEquals :: "PathInfo \<Rightarrow> PathInfo \<Rightarrow> bool" where
  "pathInfoEquals a b \<longleftrightarrow>
     piOrigUID a = piOrigUID b \<and> piOrigParentEntryID a = piOrigParentEntryID b \<and>
     piFlags a = piFlags b"

section \<open>HSM data of a file\<close>

record HsmFileMetaData =
  collocationID :: u16
  offlineChunkCount :: u16

definition HSM_COLLOCATIONID_DEFAULT :: u16 where "HSM_COLLOCATIONID_DEFAULT = 0"

definition newHsmFileMetaData :: HsmFileMetaData where
  "newHsmFileMetaData = \<lparr>collocationID = HSM_COLLOCATIONID_DEFAULT, offlineChunkCount = 0\<rparr>"

definition hasDefaultValues :: "HsmFileMetaData \<Rightarrow> bool" where
  "hasDefaultValues h \<longleftrightarrow> offlineChunkCount h = 0 \<and> collocationID h = HSM_COLLOCATIONID_DEFAULT"

definition incOfflineChunkCount :: "HsmFileMetaData \<Rightarrow> HsmFileMetaData" where
  "incOfflineChunkCount h = h\<lparr>offlineChunkCount := offlineChunkCount h + 1\<rparr>"

definition decOfflineChunkCount :: "HsmFileMetaData \<Rightarrow> HsmFileMetaData" where
  "decOfflineChunkCount h = h\<lparr>offlineChunkCount := offlineChunkCount h - 1\<rparr>"

definition hsm_serialize :: "HsmFileMetaData \<Rightarrow> u8 list" where
  "hsm_serialize h = serializeUShort (offlineChunkCount h) @ serializeUShort (collocationID h)"

definition hsm_deserialize :: "HsmFileMetaData decoder" where
  "hsm_deserialize =
     dbind deserializeUShort (\<lambda>count.
     dbind deserializeUShort (\<lambda>cid.
     dreturn \<lparr>collocationID = cid, offlineChunkCount = count\<rparr>))"

definition hsm_serialLen :: u32 where
  "hsm_serialLen = serialLenUShort + serialLenUShort"

definition hsmFileMetaDataEquals :: "HsmFileMetaData \<Rightarrow> HsmFileMetaData \<Rightarrow> bool" where
  "hsmFileMetaDataEquals a b \<longleftrightarrow>
     offlineChunkCount a = offlineChunkCount b \<and> collocationID a = collocationID b"

section \<open>Entries and inodes\<close>

type_synonym DirEntryType = u8

definition DirEntryType_INVALID :: DirEntryType where "DirEntryType_INVALID = 0"
definition DirEntryType_DIRECTORY :: DirEntryType where "DirEntryType_DIRECTORY = 1"
definition DirEntryType_REGULARFILE :: DirEntryType where "DirEntryType_REGULARFILE = 2"
definition DirEntryType_SYMLINK :: DirEntryType where "DirEntryType_SYMLINK = 3"
definition DirEntryType_BLOCKDEV :: DirEntryType where "DirEntryType_BLOCKDEV = 4"
definition DirEntryType_CHARDEV :: DirEntryType where "DirEntryType_CHARDEV = 5"
definition DirEntryType_FIFO :: DirEntryType where "DirEntryType_FIFO = 6"
definition DirEntryType_SOCKET :: DirEntryType where "DirEntryType_SOCKET = 7"

definition DirEntryType_ISVALID :: "DirEntryType \<Rightarrow> bool" where
  "DirEntryType_ISVALID t \<longleftrightarrow> t \<noteq> DirEntryType_INVALID"

definition DirEntryType_ISDIR :: "DirEntryType \<Rightarrow> bool" where
  "DirEntryType_ISDIR t \<longleftrightarrow> t = DirEntryType_DIRECTORY"

text \<open>The file type bits of a mode, as \<open>S_ISDIR\<close> and the like of POSIX test them (Linux values).\<close>

definition S_IFMT :: i32 where "S_IFMT = 0xF000"

definition posixFileTypeToDirEntryType :: "i32 \<Rightarrow> DirEntryType" where
  "posixFileTypeToDirEntryType m =
     (if m AND S_IFMT = 0x4000 then DirEntryType_DIRECTORY
      else if m AND S_IFMT = 0x8000 then DirEntryType_REGULARFILE
      else if m AND S_IFMT = 0xA000 then DirEntryType_SYMLINK
      else if m AND S_IFMT = 0x6000 then DirEntryType_BLOCKDEV
      else if m AND S_IFMT = 0x2000 then DirEntryType_CHARDEV
      else if m AND S_IFMT = 0x1000 then DirEntryType_FIFO
      else if m AND S_IFMT = 0xC000 then DirEntryType_SOCKET
      else DirEntryType_INVALID)"

definition DENTRY_FEATURE_INODE_INLINE :: u16 where "DENTRY_FEATURE_INODE_INLINE = 1"
definition DENTRY_FEATURE_IS_FILEINODE :: u16 where "DENTRY_FEATURE_IS_FILEINODE = 2"
definition DENTRY_FEATURE_MIRRORED :: u16 where "DENTRY_FEATURE_MIRRORED = 4"

record DentryStoreData =
  dentryID :: string
  entryType :: DirEntryType
  ownerNodeID :: u16
  dentryFeatureFlags :: u16
  dentryMirrorNodeID :: u16

definition dentry_setMirrorNodeID :: "u16 \<Rightarrow> DentryStoreData \<Rightarrow> DentryStoreData" where
  "dentry_setMirrorNodeID nodeID d =
     d\<lparr>dentryFeatureFlags := dentryFeatureFlags d OR DENTRY_FEATURE_MIRRORED,
       dentryMirrorNodeID := nodeID\<rparr>"

definition FILEINODE_FEATURE_MIRRORED :: u32 where "FILEINODE_FEATURE_MIRRORED = 1"
definition FILEINODE_FEATURE_HSM :: u32 where "FILEINODE_FEATURE_HSM = 4"
definition FILEINODE_FEATURE_HAS_ORIG_PARENTID :: u32 where
  "FILEINODE_FEATURE_HAS_ORIG_PARENTID = 16"
definition FILEINODE_FEATURE_HAS_ORIG_UID :: u32 where "FILEINODE_FEATURE_HAS_ORIG_UID = 32"
definition FILEINODE_FEATURE_HAS_STATFLAGS :: u32 where "FILEINODE_FEATURE_HAS_STATFLAGS = 64"

type_synonym FileInodeOrigFeature = i32

definition FileInodeOrigFeature_UNSET :: FileInodeOrigFeature where
  "FileInodeOrigFeature_UNSET = -1"
definition FileInodeOrigFeature_TRUE :: FileInodeOrigFeature where "FileInodeOrigFeature_TRUE = 0"
definition FileInodeOrigFeature_FALSE :: FileInodeOrigFeature where "FileInodeOrigFeature_FALSE = 1"

record FileInodeStoreData =
  inodeFeatureFlags :: u32
  inodeStatData :: StatData
  inodeID :: string
  inodePattern :: "StripePattern option"
  origFeature :: FileInodeOrigFeature
  origParentUID :: u32
  origParentEntryID :: string
  inodeMirrorNodeID :: u16
  hsmFileMetaData :: HsmFileMetaData

definition hasInodeFlag :: "u32 \<Rightarrow> FileInodeStoreData \<Rightarrow> bool" where
  "hasInodeFlag flag d \<longleftrightarrow> inodeFeatureFlags d AND flag \<noteq> 0"

definition addInodeFeatureFlag :: "u32 \<Rightarrow> FileInodeStoreData \<Rightarrow> FileInodeStoreData" where
  "addInodeFeatureFlag flag d = d\<lparr>inodeFeatureFlags := inodeFeatureFlags d OR flag\<rparr>"

definition removeInodeFeatureFlag :: "u32 \<Rightarrow> FileInodeStoreData \<Rightarrow> FileInodeStoreData" where
  "removeInodeFeatureFlag flag d = d\<lparr>inodeFeatureFlags := inodeFeatureFlags d AND NOT flag\<rparr>"

definition newFileInodeStoreData ::
    "string \<Rightarrow> StatData \<Rightarrow> StripePattern \<Rightarrow> u32 \<Rightarrow> u32 \<Rightarrow> string \<Rightarrow> FileInodeOrigFeature \<Rightarrow>
       FileInodeStoreData" where
  "newFileInodeStoreData eid st p flags uid parent feature =
     \<lparr>inodeFeatureFlags =
        (if userID (settable st) \<noteq> uid \<and> feature = FileInodeOrigFeature_TRUE
         then flags OR FILEINODE_FEATURE_HAS_ORIG_UID else flags),
      inodeStatData = st, inodeID = eid, inodePattern = Some (clonePattern p),
      origFeature = feature, origParentUID = uid, origParentEntryID = parent,
      inodeMirrorNodeID = 0, hsmFileMetaData = newHsmFileMetaData\<rparr>"

text \<open>
  The values of another object, the entry ID apart. Cloning the pattern of an object that has
  none follows a NULL pointer: the outcome None. The HSM data are copied in HSM builds only.
\<close>

definition setFileInodeStoreData ::
    "FileInodeStoreData \<Rightarrow> FileInodeStoreData \<Rightarrow> FileInodeStoreData option" where
  "setFileInodeStoreData disk d =
     (case inodePattern disk of
        None \<Rightarrow> None
      | Some p \<Rightarrow>
          Some (d\<lparr>inodePattern := Some (clonePattern p), inodeStatData := inodeStatData disk,
            inodeFeatureFlags := inodeFeatureFlags disk,
            inodeMirrorNodeID := inodeMirrorNodeID disk, origFeature := origFeature disk,
            origParentUID := origParentUID disk, origParentEntryID := origParentEntryID disk\<rparr>))"

definition setDynamicOrigParentEntryID :: "string \<Rightarrow> FileInodeStoreData \<Rightarrow> FileInodeStoreData" where
  "setDynamicOrigParentEntryID parent d =
     (if \<not> hasInodeFlag FILEINODE_FEATURE_HAS_ORIG_PARENTID d
      then d\<lparr>origParentEntryID := parent\<rparr> else d)"

definition setPersistentOrigParentEntryID ::
    "string \<Rightarrow> FileInodeStoreData \<Rightarrow> FileInodeStoreData" where
  "setPersistentOrigParentEntryID parent d =
     (if \<not> hasInodeFlag FILEINODE_FEATURE_HAS_ORIG_PARENTID d \<and>
         origFeature d = FileInodeOrigFeature_TRUE
      then addInodeFeatureFlag FILEINODE_FEATURE_HAS_ORIG_PARENTID
        (d\<lparr>origParentEntryID := parent\<rparr>)
      else d)"

definition getPathInfo :: "FileInodeStoreData \<Rightarrow> PathInfo" where
  "getPathInfo d =
     \<lparr>piFlags =
        (if origFeature d = FileInodeOrigFeature_TRUE then PATHINFO_FEATURE_ORIG
         else if origFeature d = FileInodeOrigFeature_FALSE then 0
         else PATHINFO_FEATURE_ORIG_UNKNOWN),
      piOrigUID = origParentUID d, piOrigParentEntryID = origParentEntryID d\<rparr>"

text \<open>The HSM feature flag follows the HSM data.\<close>

definition updateHsmFlag :: "FileInodeStoreData \<Rightarrow> FileInodeStoreData" where
  "updateHsmFlag d =
     (if hasDefaultValues (hsmFileMetaData d) then removeInodeFeatureFlag FILEINODE_FEATURE_HSM d
      else addInodeFeatureFlag FILEINODE_FEATURE_HSM d)"

definition setHsmFileMetaData :: "HsmFileMetaData \<Rightarrow> FileInodeStoreData \<Rightarrow> FileInodeStoreData" where
  "setHsmFileMetaData h d = updateHsmFlag (d\<lparr>hsmFileMetaData := h\<rparr>)"

definition setHsmOfflineChunkCount :: "u16 \<Rightarrow> FileInodeStoreData \<Rightarrow> FileInodeStoreData" where
  "setHsmOfflineChunkCount n d =
     updateHsmFlag (d\<lparr>hsmFileMetaData := (hsmFileMetaData d)\<lparr>offlineChunkCount := n\<rparr>\<rparr>)"

definition setHsmCollocationID :: "u16 \<Rightarrow> FileInodeStoreData \<Rightarrow> FileInodeStoreData" where
  "setHsmCollocationID c d =
     updateHsmFlag (d\<lparr>hsmFileMetaData := (hsmFileMetaData d)\<lparr>collocationID := c\<rparr>\<rparr>)"

definition incHsmOfflineFileChunkCount :: "FileInodeStoreData \<Rightarrow> FileInodeStoreData" where
  "incHsmOfflineFileChunkCount d =
     addInodeFeatureFlag FILEINODE_FEATURE_HSM
       (d\<lparr>hsmFileMetaData := incOfflineChunkCount (hsmFileMetaData d)\<rparr>)"

definition decHsmOfflineFileChunkCount :: "FileInodeStoreData \<Rightarrow> FileInodeStoreData" where
  "decHsmOfflineFileChunkCount d =
     updateHsmFlag (d\<lparr>hsmFileMetaData := decOfflineChunkCount (hsmFileMetaData d)\<rparr>)"

section \<open>Message format of the inode data\<close>

text \<open>
  The writer calls the pattern's method: without a pattern it follows a NULL pointer (None).
  The reader takes whatever \<open>createFromBuf\<close> makes of the pattern, also an invalid one.
\<close>

definition fid_serialize :: "FileInodeStoreData \<Rightarrow> u8 list option" where
  "fid_serialize d =
     (case inodePattern d of
        None \<Rightarrow> None
      | Some p \<Rightarrow>
          Some (serializeUInt (inodeFeatureFlags d) @
            stat_serialize False True False (inodeStatData d) @
            serializeStrAlign4 (inodeID d) @ fst (pattern_serialize p) @
            serializeInt (origFeature d) @ serializeInt (origParentUID d) @
            serializeStrAlign4 (origParentEntryID d) @ hsm_serialize (hsmFileMetaData d)))"

definition readAnyPattern :: "StripePattern decoder" where
  "readAnyPattern buf bufLen =
     (case deserializePatternPreprocess buf bufLen of
        Inl e \<Rightarrow> Inl e
      | Inr (h, patternBufLen) \<Rightarrow>
          (case createFromBuf buf h of Inl e \<Rightarrow> Inl e | Inr p \<Rightarrow> Inr (p, patternBufLen)))"

definition fid_deserialize :: "FileInodeStoreData \<Rightarrow> FileInodeStoreData decoder" where
  "fid_deserialize d =
     dbind deserializeUInt (\<lambda>flags.
     dbind (stat_deserialize False True False (inodeStatData d)) (\<lambda>st.
     dbind deserializeStrAlign4 (\<lambda>eid.
     dbind readAnyPattern (\<lambda>p.
     dbind deserializeInt (\<lambda>feature.
     dbind deserializeUInt (\<lambda>uid.
     dbind deserializeStrAlign4 (\<lambda>parent.
     dbind hsm_deserialize (\<lambda>h.
     dreturn (d\<lparr>inodeFeatureFlags := flags, inodeStatData := st, inodeID := eid,
       inodePattern := Some p, origFeature := feature, origParentUID := uid,
       origParentEntryID := parent, hsmFileMetaData := h\<rparr>)))))))))"

definition fid_serialLen :: "FileInodeStoreData \<Rightarrow> u32 option" where
  "fid_serialLen d =
     (case inodePattern d of
        None \<Rightarrow> None
      | Some p \<Rightarrow>
          Some (serialLenUInt + stat_serialLen False True False (inodeStatData d) +
            serialLenStrAlign4 (word_of_nat (length (inodeID d))) + getSerialPatternLength p +
            serialLenInt + serialLenUInt +
            serialLenStrAlign4 (word_of_nat (length (origParentEntryID d))) + hsm_serialLen))"

definition fileInodeStoreDataEquals :: "FileInodeStoreData \<Rightarrow> FileInodeStoreData \<Rightarrow> bool option" where
  "fileInodeStoreDataEquals a b =
     (if inodeFeatureFlags a \<noteq> inodeFeatureFlags b then Some False
      else if \<not> statDataEquals (inodeStatData a) (inodeStatData b) then Some False
      else if inodeID a \<noteq> inodeID b then Some False
      else case (inodePattern a, inodePattern b) of
        (Some p, Some q) \<Rightarrow>
          Some (stripePatternEquals p q \<and> origFeature a = origFeature b \<and>
            origParentUID a = origParentUID b \<and> origParentEntryID a = origParentEntryID b \<and>
            hsmFileMetaDataEquals (hsmFileMetaData a) (hsmFileMetaData b))
      | _ \<Rightarrow> None)"

section \<open>Codecs\<close>

interpretation hsm: codec hsm_serialize hsm_deserialize "\<lambda>_. hsm_serialLen" "\<lambda>_. True"
  by (rule codecI, unfold hsm_serialize_def hsm_deserialize_def, rule reads_len,
      rule reads_bind [OF ushort.reads [OF TrueI] reads_last [OF ushort.reads [OF TrueI]]])
    (simp_all add: hsm_serialLen_def int_list_lens)

text \<open>
  Without the feature flag the user and the directory are not part of the format, and the
  reader sets them to 0 and the empty string.
\<close>

definition pi_ok :: "PathInfo \<Rightarrow> bool" where
  "pi_ok p \<longleftrightarrow> length (piOrigParentEntryID p) < 4000000000 \<and>
     (piFlags p AND PATHINFO_FEATURE_ORIG = 0 \<longrightarrow> piOrigUID p = 0 \<and> piOrigParentEntryID p = [])"

lemma pi_len:
  assumes "length s < 4000000000"
  shows "unat (8 + serialLenStrAlign4 (word_of_nat (length s))) =
     8 + unat (serialLenStrAlign4 (word_of_nat (length s)))"
  using assms align4_less [of "length s + 5"]
  by (simp add: unat_word_ariths serialLenStrAlign4_unat)

interpretation path_info: codec pi_serialize pi_deserialize pi_serialLen pi_ok
proof (rule codecI)
  fix p
  assume p: "pi_ok p"
  then have s: "str_ok (piOrigParentEntryID p)" by (simp add: pi_ok_def str_ok_def)
  show "reads pi_deserialize p (pi_serialize p) (unat (pi_serialLen p))"
  proof (cases "piFlags p AND PATHINFO_FEATURE_ORIG = 0")
    case True
    show ?thesis
      unfolding pi_serialize_def pi_deserialize_def
      by (rule reads_len [OF reads_bind [OF int.reads [OF TrueI]]])
        (use p True in \<open>simp_all add: pi_ok_def pi_serialLen_def
          reads_def dreturn_def prod_eq_iff\<close>)
  next
    case False
    have l: "length (piOrigParentEntryID p) < 4000000000" using p by (simp add: pi_ok_def)
    show ?thesis
      unfolding pi_serialize_def pi_deserialize_def
      by (rule reads_len [OF reads_bind [OF int.reads [OF TrueI]]])
        (use False in \<open>simp_all only: if_True if_False not_False_eq_True pi_serialLen_def\<close>,
         rule reads_bind [OF uint.reads [OF TrueI] reads_last [OF str4.reads [OF s]]],
         simp_all add: int_list_lens pi_len [OF l])
  qed
qed

definition fid_ok :: "FileInodeStoreData \<Rightarrow> bool" where
  "fid_ok d \<longleftrightarrow> str_ok (inodeID d) \<and> str_ok (origParentEntryID d) \<and>
     blocks_ok (cbBlocks (chunkBlocksVec (inodeStatData d))) \<and>
     (case inodePattern d of None \<Rightarrow> False | Some p \<Rightarrow> pattern_ok p)"

lemma readAny_of_valid:
  "readStripePattern buf n = Inr r \<Longrightarrow> readAnyPattern buf n = Inr r"
  by (auto simp: readStripePattern_def readAnyPattern_def split: sum.splits if_splits)

lemma back_any_pattern:
  "pattern_ok p \<Longrightarrow>
     reads_back readAnyPattern (p\<lparr>serialPatternLength := 0\<rparr>) (fst (pattern_serialize p))"
  using back_pattern [of p] readAny_of_valid unfolding reads_back_def by fast

lemma fid_round_trip:
  assumes ok: "fid_ok d" and p: "inodePattern d = Some p" and bs: "fid_serialize d = Some bs"
  shows "reads_back (fid_deserialize old)
    (d\<lparr>inodePattern := Some (p\<lparr>serialPatternLength := 0\<rparr>),
       inodeStatData := stat_restored False True (inodeStatData d) (inodeStatData old),
       inodeMirrorNodeID := inodeMirrorNodeID old\<rparr>) bs"
proof -
  have s: "str_ok (inodeID d)" "str_ok (origParentEntryID d)" and q: "pattern_ok p"
    and b: "blocks_ok (cbBlocks (chunkBlocksVec (inodeStatData d)))"
    using ok p by (simp_all add: fid_ok_def)
  have e: "bs = serializeUInt (inodeFeatureFlags d) @
      stat_serialize False True False (inodeStatData d) @
      serializeStrAlign4 (inodeID d) @ fst (pattern_serialize p) @
      serializeInt (origFeature d) @ serializeUInt (origParentUID d) @
      serializeStrAlign4 (origParentEntryID d) @ hsm_serialize (hsmFileMetaData d)"
    using bs p by (simp add: fid_serialize_def serializeInt_def)
  show ?thesis
    unfolding e fid_deserialize_def
    by (rule back_bind back_codec(4,5) back_codec(6) [OF s(1)] back_codec(6) [OF s(2)]
        back_stat [OF b] back_any_pattern [OF q]
        back_last [OF back_reads [OF hsm.reads [OF TrueI]]])+ simp
qed

end
