(* ===== verification/DiskMeta.thy ===== *)
theory DiskMeta
  imports InodeData
begin

text \<open>
  The records that the metadata server keeps on its disk: directory entries with their inlined
  file inodes, file inodes of their own (in the same format) and directory inodes
  (\<open>DiskMetaData.cpp\<close> under fhgfs_meta/source/storage).

  A writer fills a buffer on the caller's stack; \<open>unused\<close> stands for the four bytes that it skips
  there, which reach the disk as they are. The NULL pointer of an inode without a stripe pattern
  that a writer follows is the outcome None. The readers fill existing objects; they take the
  size of the buffer for the number of valid bytes, whatever was read from the file. A reader
  that fails leaves a partly filled object, which its callers discard.

  The code under \<open>BEEGFS_HSM_DEPRECATED\<close> and the checks of debug builds are not compiled in.
\<close>

section \<open>Formats\<close>

definition DIRENTRY_SERBUF_SIZE :: nat where "DIRENTRY_SERBUF_SIZE = 1024 * 4"
definition META_SERBUF_SIZE :: nat where "META_SERBUF_SIZE = 1024 * 8"

definition DIRENTRY_STORAGE_FORMAT_VER3 :: u8 where "DIRENTRY_STORAGE_FORMAT_VER3 = 3"
definition DIRENTRY_STORAGE_FORMAT_VER4 :: u8 where "DIRENTRY_STORAGE_FORMAT_VER4 = 4"
definition DIRENTRY_STORAGE_FORMAT_VER5 :: u8 where "DIRENTRY_STORAGE_FORMAT_VER5 = 5"
definition DIRECTORY_STORAGE_FORMAT_VER :: u8 where "DIRECTORY_STORAGE_FORMAT_VER = 1"

type_synonym DiskMetaDataType = u8

definition DiskMetaDataType_FILEDENTRY :: DiskMetaDataType where "DiskMetaDataType_FILEDENTRY = 1"
definition DiskMetaDataType_DIRDENTRY :: DiskMetaDataType where "DiskMetaDataType_DIRDENTRY = 2"
definition DiskMetaDataType_FILEINODE :: DiskMetaDataType where "DiskMetaDataType_FILEINODE = 3"
definition DiskMetaDataType_DIRINODE :: DiskMetaDataType where "DiskMetaDataType_DIRINODE = 4"

definition DIRINODE_FEATURE_HSM :: u16 where "DIRINODE_FEATURE_HSM = 1"
definition DIRINODE_FEATURE_EARLY_SUBDIRS :: u16 where "DIRINODE_FEATURE_EARLY_SUBDIRS = 2"
definition DIRINODE_FEATURE_MIRRORED :: u16 where "DIRINODE_FEATURE_MIRRORED = 4"
definition DIRINODE_FEATURE_STATFLAGS :: u16 where "DIRINODE_FEATURE_STATFLAGS = 8"

definition getSupportedDentryFeatureFlags :: u32 where
  "getSupportedDentryFeatureFlags =
     ucast (DENTRY_FEATURE_INODE_INLINE OR DENTRY_FEATURE_IS_FILEINODE OR DENTRY_FEATURE_MIRRORED)"

definition getSupportedDentryV4FileInodeFeatureFlags :: u32 where
  "getSupportedDentryV4FileInodeFeatureFlags = FILEINODE_FEATURE_MIRRORED"

definition getSupportedDentryV5FileInodeFeatureFlags :: u32 where
  "getSupportedDentryV5FileInodeFeatureFlags =
     FILEINODE_FEATURE_MIRRORED OR FILEINODE_FEATURE_HAS_ORIG_PARENTID OR
     FILEINODE_FEATURE_HAS_ORIG_PARENTID OR FILEINODE_FEATURE_HAS_ORIG_UID"

definition getSupportedDirInodeFeatureFlags :: u32 where
  "getSupportedDirInodeFeatureFlags =
     ucast (DIRINODE_FEATURE_EARLY_SUBDIRS OR DIRINODE_FEATURE_MIRRORED OR
       DIRINODE_FEATURE_STATFLAGS)"

definition checkFeatureFlagsCompat :: "u32 \<Rightarrow> u32 \<Rightarrow> bool" where
  "checkFeatureFlagsCompat used supported \<longleftrightarrow> used AND NOT supported = 0"

record DirInode =
  dirID :: string
  dirOwnerNodeID :: u16
  dirStripePattern :: "StripePattern option"
  parentDirID :: string
  parentNodeID :: u16
  dirFeatureFlags :: u16
  dirMirrorNodeID :: u16
  dirStatData :: StatData
  numSubdirs :: u32
  numFiles :: u32

abbreviation dentryMirrored :: "DentryStoreData \<Rightarrow> bool" where
  "dentryMirrored d \<equiv> dentryFeatureFlags d AND DENTRY_FEATURE_MIRRORED \<noteq> 0"

abbreviation dirMirrored :: "DirInode \<Rightarrow> bool" where
  "dirMirrored inode \<equiv> dirFeatureFlags inode AND DIRINODE_FEATURE_MIRRORED \<noteq> 0"

section \<open>Writers\<close>

definition serializeDentryV3 :: "DentryStoreData \<Rightarrow> u8 list" where
  "serializeDentryV3 d = serializeStrAlign4 (dentryID d) @ serializeUShort (ownerNodeID d)"

definition serializeDentryV4 ::
    "u8 list \<Rightarrow> DentryStoreData \<Rightarrow> FileInodeStoreData \<Rightarrow> u8 list option" where
  "serializeDentryV4 unused d i =
     (case inodePattern i of
        None \<Rightarrow> None
      | Some p \<Rightarrow>
          Some (serializeUInt (inodeFeatureFlags i) @ unused @
            stat_serialize False False False (inodeStatData i) @
            serializeStrAlign4 (dentryID d) @
            (if hasInodeFlag FILEINODE_FEATURE_MIRRORED i
             then serializeUInt16 (inodeMirrorNodeID i) else []) @
            fst (pattern_serialize p)))"

definition serializeDentryV5 ::
    "u8 list \<Rightarrow> DentryStoreData \<Rightarrow> FileInodeStoreData \<Rightarrow> u8 list option" where
  "serializeDentryV5 unused d i =
     (case inodePattern i of
        None \<Rightarrow> None
      | Some p \<Rightarrow>
          Some (serializeUInt (inodeFeatureFlags i) @ unused @
            stat_serialize False True False (inodeStatData i) @
            (if hasInodeFlag FILEINODE_FEATURE_HAS_ORIG_UID i
             then serializeUInt (origParentUID i) else []) @
            (if hasInodeFlag FILEINODE_FEATURE_HAS_ORIG_PARENTID i
             then serializeStrAlign4 (origParentEntryID i) else []) @
            serializeStrAlign4 (dentryID d) @
            (if hasInodeFlag FILEINODE_FEATURE_MIRRORED i
             then serializeUInt16 (inodeMirrorNodeID i) else []) @
            fst (pattern_serialize p)))"

definition dentryFormatVersion :: "DentryStoreData \<Rightarrow> FileInodeStoreData \<Rightarrow> u8" where
  "dentryFormatVersion d i =
     (if DirEntryType_ISDIR (entryType d) then DIRENTRY_STORAGE_FORMAT_VER3
      else if origFeature i = FileInodeOrigFeature_TRUE then DIRENTRY_STORAGE_FORMAT_VER5
      else DIRENTRY_STORAGE_FORMAT_VER4)"

definition serializeInDentryFormat ::
    "u8 list \<Rightarrow> DiskMetaDataType \<Rightarrow> DentryStoreData \<Rightarrow> FileInodeStoreData \<Rightarrow> u8 list option" where
  "serializeInDentryFormat unused metaDataType d i =
     (let version = dentryFormatVersion d i;
          header = serializeUInt8 metaDataType @ serializeUInt8 version @
            serializeUInt16 (dentryFeatureFlags d) @ serializeUInt8 (entryType d) @
            (if dentryMirrored d then serializeUInt16 (dentryMirrorNodeID d) @ [0]
             else [0, 0, 0])
      in map_option (\<lambda>body. header @ body)
        (if version = DIRENTRY_STORAGE_FORMAT_VER3 then Some (serializeDentryV3 d)
         else if version = DIRENTRY_STORAGE_FORMAT_VER4 then serializeDentryV4 unused d i
         else serializeDentryV5 unused d i))"

definition serializeDentry ::
    "u8 list \<Rightarrow> DentryStoreData \<Rightarrow> FileInodeStoreData \<Rightarrow> u8 list option" where
  "serializeDentry unused d i =
     serializeInDentryFormat unused
       (if DirEntryType_ISDIR (entryType d) then DiskMetaDataType_DIRDENTRY
        else DiskMetaDataType_FILEDENTRY) d i"

text \<open>An entry type that is not set is derived from the mode and kept in the entry data.\<close>

definition setEntryTypeByMode :: "FileInodeStoreData \<Rightarrow> DentryStoreData \<Rightarrow> DentryStoreData" where
  "setEntryTypeByMode i d =
     (if \<not> DirEntryType_ISVALID (entryType d)
      then d\<lparr>entryType := posixFileTypeToDirEntryType (mode (settable (inodeStatData i)))\<rparr>
      else d)"

definition serializeFileInode ::
    "u8 list \<Rightarrow> DentryStoreData \<Rightarrow> FileInodeStoreData \<Rightarrow> (u8 list \<times> DentryStoreData) option" where
  "serializeFileInode unused d i =
     (let d' = setEntryTypeByMode i d
      in map_option (\<lambda>bytes. (bytes, d'))
        (serializeInDentryFormat unused
          (if dentryFeatureFlags d' AND DENTRY_FEATURE_INODE_INLINE \<noteq> 0
           then DiskMetaDataType_FILEDENTRY else DiskMetaDataType_FILEINODE) d' i))"

definition serializeDirInode :: "DirInode \<Rightarrow> (u8 list \<times> DirInode) option" where
  "serializeDirInode inode =
     (let inode' = inode\<lparr>dirFeatureFlags := dirFeatureFlags inode OR
                  (DIRINODE_FEATURE_EARLY_SUBDIRS OR DIRINODE_FEATURE_STATFLAGS)\<rparr>
      in case dirStripePattern inode' of
           None \<Rightarrow> None
         | Some p \<Rightarrow>
             Some (serializeUInt8 DiskMetaDataType_DIRINODE @
               serializeUInt8 DIRECTORY_STORAGE_FORMAT_VER @
               serializeUInt16 (dirFeatureFlags inode') @ serializeUInt (numSubdirs inode') @
               stat_serialize True True False (dirStatData inode') @
               serializeUInt (numFiles inode') @ serializeStrAlign4 (dirID inode') @
               serializeStrAlign4 (parentDirID inode') @ serializeUShort (dirOwnerNodeID inode') @
               serializeUShort (parentNodeID inode') @
               (if dirMirrored inode' then serializeUInt16 (dirMirrorNodeID inode') else []) @
               fst (pattern_serialize p), inode'))"

section \<open>Readers\<close>

definition dfail :: "'a decoder" where
  "dfail buf bufLen = Inl DecodeFail"

text \<open>A field that is there under a condition only.\<close>

definition dopt :: "bool \<Rightarrow> 'a decoder \<Rightarrow> 'a \<Rightarrow> 'a decoder" where
  "dopt c d x = (if c then d else dreturn x)"

type_synonym EntryData = "DentryStoreData \<times> FileInodeStoreData"

definition deserializeDentryV3 :: "EntryData \<Rightarrow> EntryData decoder" where
  "deserializeDentryV3 e =
     dbind deserializeStrAlign4 (\<lambda>eid.
     dbind deserializeUShort (\<lambda>owner.
     dreturn ((fst e)\<lparr>dentryID := eid, ownerNodeID := owner\<rparr>, (snd e)\<lparr>inodeID := eid\<rparr>)))"

text \<open>The common end of the two formats with inodes: entry ID, mirror node and pattern.\<close>

definition readInodeTail :: "u32 \<Rightarrow> EntryData \<Rightarrow> EntryData decoder" where
  "readInodeTail flags e =
     dbind deserializeStrAlign4 (\<lambda>eid.
     dbind (dopt (flags AND FILEINODE_FEATURE_MIRRORED \<noteq> 0) deserializeUInt16
       (inodeMirrorNodeID (snd e))) (\<lambda>mirror.
     dbind readStripePattern (\<lambda>p.
     dreturn ((fst e)\<lparr>dentryID := eid\<rparr>,
       (snd e)\<lparr>inodeID := eid, inodeMirrorNodeID := mirror, inodePattern := Some p\<rparr>))))"

definition deserializeDentryV4 :: "EntryData \<Rightarrow> EntryData decoder" where
  "deserializeDentryV4 e =
     dbind deserializeUInt (\<lambda>flags.
     if \<not> checkFeatureFlagsCompat flags getSupportedDentryV4FileInodeFeatureFlags then dfail
     else
       dskip 4 (
       dbind (stat_deserialize False False False (inodeStatData (snd e))) (\<lambda>st.
       readInodeTail flags (fst e, (snd e)\<lparr>inodeFeatureFlags := flags, inodeStatData := st\<rparr>))))"

definition deserializeDentryV5 :: "EntryData \<Rightarrow> EntryData decoder" where
  "deserializeDentryV5 e =
     dbind deserializeUInt (\<lambda>flags.
     if \<not> checkFeatureFlagsCompat flags getSupportedDentryV5FileInodeFeatureFlags then dfail
     else
       dskip 4 (
       dbind (stat_deserialize False True False (inodeStatData (snd e))) (\<lambda>st.
       dbind (dopt (flags AND FILEINODE_FEATURE_HAS_ORIG_UID \<noteq> 0) deserializeUInt
         (userID (settable st))) (\<lambda>uid.
       dbind (dopt (flags AND FILEINODE_FEATURE_HAS_ORIG_PARENTID \<noteq> 0) deserializeStrAlign4
         (origParentEntryID (snd e))) (\<lambda>parent.
       readInodeTail flags (fst e, (snd e)\<lparr>inodeFeatureFlags := flags, inodeStatData := st,
         origParentUID := uid, origParentEntryID := parent\<rparr>))))))"

text \<open>The part after the header; inlined data belong to the local node.\<close>

definition setOrigFeatureOf :: "FileInodeOrigFeature \<Rightarrow> EntryData \<Rightarrow> EntryData decoder" where
  "setOrigFeatureOf feature e = dreturn (fst e, (snd e)\<lparr>origFeature := feature\<rparr>)"

definition readDentryBody :: "u16 \<Rightarrow> u8 \<Rightarrow> EntryData \<Rightarrow> EntryData decoder" where
  "readDentryBody localNode version e =
     (let own = ((fst e)\<lparr>ownerNodeID := localNode\<rparr>, snd e)
      in if version = DIRENTRY_STORAGE_FORMAT_VER3 then deserializeDentryV3 e
         else if version = DIRENTRY_STORAGE_FORMAT_VER4
         then dbind (deserializeDentryV4 own) (setOrigFeatureOf FileInodeOrigFeature_FALSE)
         else if version = DIRENTRY_STORAGE_FORMAT_VER5
         then dbind (deserializeDentryV5 own) (setOrigFeatureOf FileInodeOrigFeature_TRUE)
         else dfail)"

definition readDentry :: "u16 \<Rightarrow> EntryData \<Rightarrow> EntryData decoder" where
  "readDentry localNode e =
     dbind deserializeUInt8 (\<lambda>metaDataType.
     dbind deserializeUInt8 (\<lambda>version.
     dbind deserializeUInt16 (\<lambda>flags.
     if \<not> checkFeatureFlagsCompat (ucast flags) getSupportedDentryFeatureFlags then dfail
     else
       dbind deserializeUInt8 (\<lambda>type.
       let d = (fst e)\<lparr>dentryFeatureFlags := flags, entryType := type\<rparr>
       in if dentryMirrored d
          then dbind deserializeUInt16 (\<lambda>mirror.
            dskip 1 (readDentryBody localNode version (dentry_setMirrorNodeID mirror d, snd e)))
          else dskip 3 (readDentryBody localNode version (d, snd e))))))"

definition deserializeDentry :: "u16 \<Rightarrow> EntryData \<Rightarrow> u8 list \<Rightarrow> decode_error + EntryData" where
  "deserializeDentry localNode e buf =
     map_sum id fst (readDentry localNode e buf DIRENTRY_SERBUF_SIZE)"

definition deserializeFileInode :: "u16 \<Rightarrow> EntryData \<Rightarrow> u8 list \<Rightarrow> decode_error + EntryData" where
  "deserializeFileInode localNode e buf = deserializeDentry localNode e buf"

definition readDirInode :: "DirInode \<Rightarrow> DirInode decoder" where
  "readDirInode inode =
     dbind deserializeUInt8 (\<lambda>metaDataType.
     if metaDataType \<noteq> DiskMetaDataType_DIRINODE then dfail
     else
       dbind deserializeUInt8 (\<lambda>version.
       dbind deserializeUInt16 (\<lambda>flags.
       if \<not> checkFeatureFlagsCompat (ucast flags) getSupportedDirInodeFeatureFlags then dfail
       else
         (let early = (flags AND DIRINODE_FEATURE_EARLY_SUBDIRS \<noteq> 0)
          in
         dbind (dopt early deserializeUInt (numSubdirs inode)) (\<lambda>subdirs.
         dbind (stat_deserialize True (flags AND DIRINODE_FEATURE_STATFLAGS \<noteq> 0) False
           (dirStatData inode)) (\<lambda>st.
         dbind (dopt (\<not> early) deserializeUInt subdirs) (\<lambda>subdirs'.
         dbind deserializeUInt (\<lambda>files.
         dbind deserializeStrAlign4 (\<lambda>eid.
         dbind deserializeStrAlign4 (\<lambda>parent.
         dbind deserializeUShort (\<lambda>owner.
         dbind deserializeUShort (\<lambda>parentNode.
         dbind (dopt (flags AND DIRINODE_FEATURE_MIRRORED \<noteq> 0) deserializeUInt16
           (dirMirrorNodeID inode)) (\<lambda>mirror.
         dbind readStripePattern (\<lambda>p.
         dreturn \<lparr>dirID = eid, dirOwnerNodeID = owner, dirStripePattern = Some p,
           parentDirID = parent, parentNodeID = parentNode, dirFeatureFlags = flags,
           dirMirrorNodeID = mirror, dirStatData = st, numSubdirs = subdirs',
           numFiles = files\<rparr>)))))))))))))) "

definition deserializeDirInode :: "DirInode \<Rightarrow> u8 list \<Rightarrow> decode_error + DirInode" where
  "deserializeDirInode inode buf = map_sum id fst (readDirInode inode buf META_SERBUF_SIZE)"

text \<open>
  The reader for records of unknown type. \<open>newFile\<close> and \<open>newDir\<close> are the objects as their
  constructors leave them. A record that is neither gives the invalid entry type and no inode.
\<close>

datatype AnyInode = NoInode | AFileInode EntryData | ADirInode DirInode

definition deserializeInode ::
    "u16 \<Rightarrow> EntryData \<Rightarrow> DirInode \<Rightarrow> u8 list \<Rightarrow> decode_error + DirEntryType \<times> AnyInode" where
  "deserializeInode localNode newFile newDir buf =
     (case deserializeUInt8 buf 1 of
        Inl DecodeFail \<Rightarrow> Inr (DirEntryType_INVALID, NoInode)
      | Inl ReadBeyondBuffer \<Rightarrow> Inl ReadBeyondBuffer
      | Inr (type, _) \<Rightarrow>
          if type = DiskMetaDataType_DIRDENTRY then Inr (DirEntryType_INVALID, NoInode)
          else if type = DiskMetaDataType_DIRINODE
          then (case deserializeDirInode newDir buf of
              Inl DecodeFail \<Rightarrow> Inr (DirEntryType_INVALID, NoInode)
            | Inl ReadBeyondBuffer \<Rightarrow> Inl ReadBeyondBuffer
            | Inr inode \<Rightarrow> Inr (DirEntryType_DIRECTORY, ADirInode inode))
          else if type = DiskMetaDataType_FILEINODE \<or> type = DiskMetaDataType_FILEDENTRY
          then (case deserializeFileInode localNode newFile buf of
              Inl DecodeFail \<Rightarrow> Inr (DirEntryType_INVALID, NoInode)
            | Inl ReadBeyondBuffer \<Rightarrow> Inl ReadBeyondBuffer
            | Inr e \<Rightarrow>
                Inr (posixFileTypeToDirEntryType (mode (settable (inodeStatData (snd e)))),
                  AFileInode e))
          else Inr (DirEntryType_INVALID, NoInode))"

section \<open>What is read back\<close>

lemma back_check: "c \<Longrightarrow> reads_back d x bs \<Longrightarrow> reads_back (if \<not> c then dfail else d) x bs"
  by simp

definition keep :: "bool \<Rightarrow> 'a \<Rightarrow> 'a \<Rightarrow> 'a" where
  "keep c new old = (if c then new else old)"

lemma back_opt:
  "(c \<Longrightarrow> reads_back d x bs) \<Longrightarrow> reads_back (dopt c d y) (keep c x y) (if c then bs else [])"
  by (simp add: dopt_def back_return keep_def)

text \<open>
  The inode that the reader makes of \<open>i\<close> in an object \<open>i0\<close>: the fields that the format does not
  carry are those of \<open>i0\<close>.
\<close>

definition inode_restored ::
    "DentryStoreData \<Rightarrow> FileInodeStoreData \<Rightarrow> FileInodeStoreData \<Rightarrow> FileInodeStoreData" where
  "inode_restored d i i0 =
     (let v5 = (origFeature i = FileInodeOrigFeature_TRUE);
          st = stat_restored False v5 (inodeStatData i) (inodeStatData i0)
      in \<lparr>inodeFeatureFlags = inodeFeatureFlags i, inodeStatData = st, inodeID = dentryID d,
          inodePattern = map_option (\<lambda>p. p\<lparr>serialPatternLength := 0\<rparr>) (inodePattern i),
          origFeature = (if v5 then FileInodeOrigFeature_TRUE else FileInodeOrigFeature_FALSE),
          origParentUID =
            (if v5
             then keep (hasInodeFlag FILEINODE_FEATURE_HAS_ORIG_UID i) (origParentUID i)
               (userID (settable st))
             else origParentUID i0),
          origParentEntryID =
            keep (v5 \<and> hasInodeFlag FILEINODE_FEATURE_HAS_ORIG_PARENTID i) (origParentEntryID i)
              (origParentEntryID i0),
          inodeMirrorNodeID =
            keep (hasInodeFlag FILEINODE_FEATURE_MIRRORED i) (inodeMirrorNodeID i)
              (inodeMirrorNodeID i0),
          hsmFileMetaData = hsmFileMetaData i0\<rparr>)"

definition entry_restored :: "u16 \<Rightarrow> DentryStoreData \<Rightarrow> FileInodeStoreData \<Rightarrow> EntryData \<Rightarrow> EntryData" where
  "entry_restored localNode d i e =
     (let dir = DirEntryType_ISDIR (entryType d)
      in (d\<lparr>ownerNodeID := (if dir then ownerNodeID d else localNode),
            dentryMirrorNodeID :=
              keep (dentryMirrored d) (dentryMirrorNodeID d) (dentryMirrorNodeID (fst e))\<rparr>,
          if dir then (snd e)\<lparr>inodeID := dentryID d\<rparr> else inode_restored d i (snd e)))"

definition inode_flags_ok :: "FileInodeStoreData \<Rightarrow> bool" where
  "inode_flags_ok i \<longleftrightarrow>
     checkFeatureFlagsCompat (inodeFeatureFlags i)
       (if origFeature i = FileInodeOrigFeature_TRUE
        then getSupportedDentryV5FileInodeFeatureFlags
        else getSupportedDentryV4FileInodeFeatureFlags)"

definition inode_disk_ok :: "FileInodeStoreData \<Rightarrow> bool" where
  "inode_disk_ok i \<longleftrightarrow> inode_flags_ok i \<and> str_ok (origParentEntryID i) \<and>
     blocks_ok (cbBlocks (chunkBlocksVec (inodeStatData i))) \<and>
     (case inodePattern i of None \<Rightarrow> False | Some p \<Rightarrow> pattern_ok p)"

definition entry_disk_ok :: "DentryStoreData \<Rightarrow> FileInodeStoreData \<Rightarrow> bool" where
  "entry_disk_ok d i \<longleftrightarrow> str_ok (dentryID d) \<and>
     checkFeatureFlagsCompat (ucast (dentryFeatureFlags d)) getSupportedDentryFeatureFlags \<and>
     (DirEntryType_ISDIR (entryType d) \<or> inode_disk_ok i)"

lemma tail_back:
  assumes s: "str_ok (dentryID d)" and p: "pattern_ok p"
    and x: "x = ((fst e)\<lparr>dentryID := dentryID d\<rparr>,
      (snd e)\<lparr>inodeID := dentryID d,
        inodeMirrorNodeID := keep (flags AND FILEINODE_FEATURE_MIRRORED \<noteq> 0) m
          (inodeMirrorNodeID (snd e)),
        inodePattern := Some (p\<lparr>serialPatternLength := 0\<rparr>)\<rparr>)"
  shows "reads_back (readInodeTail flags e) x
    (serializeStrAlign4 (dentryID d) @
     (if flags AND FILEINODE_FEATURE_MIRRORED \<noteq> 0 then serializeUInt16 m else []) @
     fst (pattern_serialize p))"
  unfolding readInodeTail_def
  by (rule back_bind [OF back_codec(6) [OF s]], rule back_bind [OF back_opt [OF back_codec(2)]],
      rule back_last [OF back_pattern [OF p]]) (simp add: x)

lemma v4_back:
  assumes d: "str_ok (dentryID d)" and i: "inode_disk_ok i"
    and v: "origFeature i \<noteq> FileInodeOrigFeature_TRUE"
    and bs: "serializeDentryV4 unused d i = Some bs" and pad: "length unused = 4"
  shows "reads_back
    (dbind (deserializeDentryV4 (e, i0)) (setOrigFeatureOf FileInodeOrigFeature_FALSE))
    (e\<lparr>dentryID := dentryID d\<rparr>, inode_restored d i i0) bs"
proof -
  obtain p where p: "inodePattern i = Some p" "pattern_ok p"
    using i by (auto simp: inode_disk_ok_def split: option.splits)
  have flags: "checkFeatureFlagsCompat (inodeFeatureFlags i)
      getSupportedDentryV4FileInodeFeatureFlags"
    and st: "blocks_ok (cbBlocks (chunkBlocksVec (inodeStatData i)))"
    using i v by (simp_all add: inode_disk_ok_def inode_flags_ok_def)
  have e: "bs = serializeUInt (inodeFeatureFlags i) @ unused @
      stat_serialize False False False (inodeStatData i) @ serializeStrAlign4 (dentryID d) @
      (if inodeFeatureFlags i AND FILEINODE_FEATURE_MIRRORED \<noteq> 0
       then serializeUInt16 (inodeMirrorNodeID i) else []) @ fst (pattern_serialize p)"
    using bs p(1) by (simp add: serializeDentryV4_def hasInodeFlag_def)
  have "reads_back (deserializeDentryV4 (e, i0))
      (e\<lparr>dentryID := dentryID d\<rparr>,
       (inode_restored d i i0)\<lparr>origFeature := origFeature i0\<rparr>) bs"
    unfolding e deserializeDentryV4_def fst_conv snd_conv
    by (rule back_bind [OF back_codec(4)], rule back_check [OF flags], rule back_skip [OF pad],
        rule back_bind [OF back_stat [OF st]], rule tail_back [OF d p(2)])
      (use v p(1) in \<open>simp add: inode_restored_def keep_def hasInodeFlag_def Let_def\<close>)
  then show ?thesis
    unfolding setOrigFeatureOf_def by (rule back_last) (simp add: inode_restored_def v Let_def)
qed

lemma v5_back:
  assumes d: "str_ok (dentryID d)" and i: "inode_disk_ok i"
    and v: "origFeature i = FileInodeOrigFeature_TRUE"
    and bs: "serializeDentryV5 unused d i = Some bs" and pad: "length unused = 4"
  shows "reads_back
    (dbind (deserializeDentryV5 (e, i0)) (setOrigFeatureOf FileInodeOrigFeature_TRUE))
    (e\<lparr>dentryID := dentryID d\<rparr>, inode_restored d i i0) bs"
proof -
  obtain p where p: "inodePattern i = Some p" "pattern_ok p"
    using i by (auto simp: inode_disk_ok_def split: option.splits)
  have flags: "checkFeatureFlagsCompat (inodeFeatureFlags i)
      getSupportedDentryV5FileInodeFeatureFlags"
    and st: "blocks_ok (cbBlocks (chunkBlocksVec (inodeStatData i)))"
    and parent: "str_ok (origParentEntryID i)"
    using i v by (simp_all add: inode_disk_ok_def inode_flags_ok_def)
  have e: "bs = serializeUInt (inodeFeatureFlags i) @ unused @
      stat_serialize False True False (inodeStatData i) @
      (if inodeFeatureFlags i AND FILEINODE_FEATURE_HAS_ORIG_UID \<noteq> 0
       then serializeUInt (origParentUID i) else []) @
      (if inodeFeatureFlags i AND FILEINODE_FEATURE_HAS_ORIG_PARENTID \<noteq> 0
       then serializeStrAlign4 (origParentEntryID i) else []) @ serializeStrAlign4 (dentryID d) @
      (if inodeFeatureFlags i AND FILEINODE_FEATURE_MIRRORED \<noteq> 0
       then serializeUInt16 (inodeMirrorNodeID i) else []) @ fst (pattern_serialize p)"
    using bs p(1) by (simp add: serializeDentryV5_def hasInodeFlag_def)
  have "reads_back (deserializeDentryV5 (e, i0))
      (e\<lparr>dentryID := dentryID d\<rparr>,
       (inode_restored d i i0)\<lparr>origFeature := origFeature i0\<rparr>) bs"
    unfolding e deserializeDentryV5_def fst_conv snd_conv
    by (rule back_bind [OF back_codec(4)], rule back_check [OF flags], rule back_skip [OF pad],
        rule back_bind [OF back_stat [OF st]], rule back_bind [OF back_opt [OF back_codec(4)]],
        rule back_bind [OF back_opt [OF back_codec(6) [OF parent]]], rule tail_back [OF d p(2)])
      (use v p(1) in \<open>simp add: inode_restored_def keep_def hasInodeFlag_def Let_def\<close>)
  then show ?thesis
    unfolding setOrigFeatureOf_def by (rule back_last) (simp add: inode_restored_def v Let_def)
qed

lemma v3_back:
  assumes "str_ok (dentryID d)"
  shows "reads_back (deserializeDentryV3 (e, i0))
    (e\<lparr>dentryID := dentryID d, ownerNodeID := ownerNodeID d\<rparr>, i0\<lparr>inodeID := dentryID d\<rparr>)
    (serializeDentryV3 d)"
  unfolding deserializeDentryV3_def serializeDentryV3_def
  by (rule back_bind [OF back_codec(6) [OF assms]], rule back_last [OF back_codec(3)]) simp

lemmas entry_formats = DIRENTRY_STORAGE_FORMAT_VER3_def DIRENTRY_STORAGE_FORMAT_VER4_def
  DIRENTRY_STORAGE_FORMAT_VER5_def

definition dentryBody :: "u8 list \<Rightarrow> DentryStoreData \<Rightarrow> FileInodeStoreData \<Rightarrow> u8 list option" where
  "dentryBody unused d i =
     (if DirEntryType_ISDIR (entryType d) then Some (serializeDentryV3 d)
      else if origFeature i = FileInodeOrigFeature_TRUE then serializeDentryV5 unused d i
      else serializeDentryV4 unused d i)"

lemma body_back:
  assumes ok: "entry_disk_ok d i" and bs: "dentryBody unused d i = Some bs"
    and pad: "length unused = 4"
    and e: "entryType e = entryType d" "dentryFeatureFlags e = dentryFeatureFlags d"
      "dentryMirrorNodeID e = keep (dentryMirrored d) (dentryMirrorNodeID d) m"
    and x: "x = (d\<lparr>ownerNodeID := (if DirEntryType_ISDIR (entryType d) then ownerNodeID d else localNode),
        dentryMirrorNodeID := keep (dentryMirrored d) (dentryMirrorNodeID d) m\<rparr>,
        if DirEntryType_ISDIR (entryType d) then i0\<lparr>inodeID := dentryID d\<rparr>
        else inode_restored d i i0)"
  shows "reads_back (readDentryBody localNode (dentryFormatVersion d i) (e, i0)) x bs"
proof -
  have eid: "str_ok (dentryID d)" using ok by (simp add: entry_disk_ok_def)
  consider (dir) "DirEntryType_ISDIR (entryType d)"
    | (v5) "\<not> DirEntryType_ISDIR (entryType d)" "origFeature i = FileInodeOrigFeature_TRUE"
    | (v4) "\<not> DirEntryType_ISDIR (entryType d)" "origFeature i \<noteq> FileInodeOrigFeature_TRUE"
    by blast
  then show ?thesis
  proof cases
    case dir
    then have "x = (e\<lparr>dentryID := dentryID d, ownerNodeID := ownerNodeID d\<rparr>,
        i0\<lparr>inodeID := dentryID d\<rparr>)"
      by (simp add: x e DentryStoreData.equality)
    with v3_back [OF eid, of e i0] dir bs show ?thesis
      by (simp add: readDentryBody_def dentryFormatVersion_def dentryBody_def)
  next
    case v5
    with ok have i: "inode_disk_ok i" by (simp add: entry_disk_ok_def)
    have "x = (e\<lparr>ownerNodeID := localNode, dentryID := dentryID d\<rparr>, inode_restored d i i0)"
      using v5 by (simp add: x e DentryStoreData.equality)
    with v5_back [OF eid i v5(2) _ pad, of bs "e\<lparr>ownerNodeID := localNode\<rparr>" i0] v5 bs
    show ?thesis
      by (simp add: readDentryBody_def dentryFormatVersion_def dentryBody_def entry_formats)
  next
    case v4
    with ok have i: "inode_disk_ok i" by (simp add: entry_disk_ok_def)
    have "x = (e\<lparr>ownerNodeID := localNode, dentryID := dentryID d\<rparr>, inode_restored d i i0)"
      using v4 by (simp add: x e DentryStoreData.equality)
    with v4_back [OF eid i v4(2) _ pad, of bs "e\<lparr>ownerNodeID := localNode\<rparr>" i0] v4 bs
    show ?thesis
      by (simp add: readDentryBody_def dentryFormatVersion_def dentryBody_def entry_formats)
  qed
qed

lemma flag_is_set: "x AND 2 ^ k \<noteq> 0 \<Longrightarrow> x OR 2 ^ k = (x :: 'a::len word)"
  by (rule bit_word_eqI) (auto simp: and_exp_eq_0_iff_not_bit bit_simps)

lemma mirror_set_again:
  "dentryMirrored d \<Longrightarrow> dentry_setMirrorNodeID m d = d\<lparr>dentryMirrorNodeID := m\<rparr>"
  using flag_is_set [of "dentryFeatureFlags d" 2]
  by (simp add: dentry_setMirrorNodeID_def DENTRY_FEATURE_MIRRORED_def)

lemma entry_back:
  assumes ok: "entry_disk_ok d i" and bs: "serializeInDentryFormat unused type d i = Some bs"
    and pad: "length unused = 4"
  shows "reads_back (readDentry localNode e) (entry_restored localNode d i e) bs"
proof -
  have flags: "checkFeatureFlagsCompat (ucast (dentryFeatureFlags d)) getSupportedDentryFeatureFlags"
    using ok by (simp add: entry_disk_ok_def)
  obtain body where body: "dentryBody unused d i = Some body"
    and b: "bs = serializeUInt8 type @ serializeUInt8 (dentryFormatVersion d i) @
      serializeUInt16 (dentryFeatureFlags d) @ serializeUInt8 (entryType d) @
      (if dentryMirrored d then serializeUInt16 (dentryMirrorNodeID d) @ [0] @ body
       else [0, 0, 0] @ body)"
    using bs by (auto simp: serializeInDentryFormat_def dentryBody_def dentryFormatVersion_def
        entry_formats split: if_splits)
  let ?d = "(fst e)\<lparr>dentryFeatureFlags := dentryFeatureFlags d, entryType := entryType d\<rparr>"
  have rest: "reads_back (readDentryBody localNode (dentryFormatVersion d i) (d1, snd e))
      (entry_restored localNode d i e) body"
    if "d1 = ?d\<lparr>dentryMirrorNodeID := keep (dentryMirrored d) (dentryMirrorNodeID d)
          (dentryMirrorNodeID (fst e))\<rparr>" for d1
    by (rule body_back [OF ok body pad, where m = "dentryMirrorNodeID (fst e)"])
      (simp_all add: that entry_restored_def Let_def)
  have tail: "reads_back
      (if dentryMirrored ?d
       then dbind deserializeUInt16 (\<lambda>mirror.
         dskip 1 (readDentryBody localNode (dentryFormatVersion d i)
           (dentry_setMirrorNodeID mirror ?d, snd e)))
       else dskip 3 (readDentryBody localNode (dentryFormatVersion d i) (?d, snd e)))
      (entry_restored localNode d i e)
      (if dentryMirrored d then serializeUInt16 (dentryMirrorNodeID d) @ [0] @ body
       else [0, 0, 0] @ body)"
  proof (cases "dentryMirrored d")
    case True
    then have m: "dentryMirrored ?d" by simp
    show ?thesis
      unfolding if_P [OF True] if_P [OF m]
      by (rule back_bind [OF back_codec(2)], rule back_skip, simp, rule rest)
        (simp only: mirror_set_again [OF m] keep_def if_P [OF True])
  next
    case False
    then have m: "\<not> dentryMirrored ?d" by simp
    show ?thesis
      unfolding if_not_P [OF False] if_not_P [OF m]
      by (rule back_skip, simp, rule rest) (use False in \<open>simp add: keep_def\<close>)
  qed
  show ?thesis
    unfolding b readDentry_def Let_def
    by (rule back_bind [OF back_codec(1)], rule back_bind [OF back_codec(1)],
        rule back_bind [OF back_codec(2)], rule back_check [OF flags],
        rule back_bind [OF back_codec(1)], rule tail)
qed

definition dir_disk_ok :: "DirInode \<Rightarrow> bool" where
  "dir_disk_ok inode \<longleftrightarrow> str_ok (dirID inode) \<and> str_ok (parentDirID inode) \<and>
     checkFeatureFlagsCompat (ucast (dirFeatureFlags inode)) getSupportedDirInodeFeatureFlags \<and>
     blocks_ok (cbBlocks (chunkBlocksVec (dirStatData inode))) \<and>
     (case dirStripePattern inode of None \<Rightarrow> False | Some p \<Rightarrow> pattern_ok p)"

definition dir_restored :: "DirInode \<Rightarrow> DirInode \<Rightarrow> DirInode" where
  "dir_restored inode old =
     inode\<lparr>dirStripePattern :=
         map_option (\<lambda>p. p\<lparr>serialPatternLength := 0\<rparr>) (dirStripePattern inode),
       dirStatData := stat_restored True True (dirStatData inode) (dirStatData old),
       dirMirrorNodeID := keep (dirMirrored inode) (dirMirrorNodeID inode) (dirMirrorNodeID old)\<rparr>"

lemma early_flags:
  fixes w :: u16
  shows "(w OR (DIRINODE_FEATURE_EARLY_SUBDIRS OR DIRINODE_FEATURE_STATFLAGS)) AND
      DIRINODE_FEATURE_EARLY_SUBDIRS \<noteq> 0"
    "(w OR (DIRINODE_FEATURE_EARLY_SUBDIRS OR DIRINODE_FEATURE_STATFLAGS)) AND
      DIRINODE_FEATURE_STATFLAGS \<noteq> 0"
  using and_exp_eq_0_iff_not_bit [of "w OR 10" 1] and_exp_eq_0_iff_not_bit [of "w OR 10" 3]
  by (simp_all add: DIRINODE_FEATURE_EARLY_SUBDIRS_def DIRINODE_FEATURE_STATFLAGS_def bit_simps)

lemma dir_back:
  assumes s: "serializeDirInode inode = Some (bs, inode')" and ok: "dir_disk_ok inode'"
  shows "reads_back (readDirInode old) (dir_restored inode' old) bs"
proof -
  obtain p where p: "dirStripePattern inode' = Some p" "pattern_ok p"
    using ok by (auto simp: dir_disk_ok_def split: option.splits)
  have i': "inode' = inode\<lparr>dirFeatureFlags := dirFeatureFlags inode OR
      (DIRINODE_FEATURE_EARLY_SUBDIRS OR DIRINODE_FEATURE_STATFLAGS)\<rparr>"
    and b: "bs = serializeUInt8 DiskMetaDataType_DIRINODE @
       serializeUInt8 DIRECTORY_STORAGE_FORMAT_VER @
       serializeUInt16 (dirFeatureFlags inode') @
       (if True then serializeUInt (numSubdirs inode') else []) @
       stat_serialize True True False (dirStatData inode') @
       (if False then serializeUInt (numSubdirs inode') else []) @
       serializeUInt (numFiles inode') @ serializeStrAlign4 (dirID inode') @
       serializeStrAlign4 (parentDirID inode') @ serializeUShort (dirOwnerNodeID inode') @
       serializeUShort (parentNodeID inode') @
       (if dirMirrored inode' then serializeUInt16 (dirMirrorNodeID inode') else []) @
       fst (pattern_serialize p)"
    using s p(1) by (auto simp: serializeDirInode_def Let_def split: option.splits)
  have early: "(dirFeatureFlags inode' AND DIRINODE_FEATURE_EARLY_SUBDIRS \<noteq> 0) = True"
    and stats: "(dirFeatureFlags inode' AND DIRINODE_FEATURE_STATFLAGS \<noteq> 0) = True"
    using early_flags by (simp_all add: i')
  have ids: "str_ok (dirID inode')" "str_ok (parentDirID inode')"
    and flags: "checkFeatureFlagsCompat (ucast (dirFeatureFlags inode'))
      getSupportedDirInodeFeatureFlags"
    and blocks: "blocks_ok (cbBlocks (chunkBlocksVec (dirStatData inode')))"
    using ok by (simp_all add: dir_disk_ok_def)
  have eq: "dir_restored inode' old =
      \<lparr>dirID = dirID inode', dirOwnerNodeID = dirOwnerNodeID inode',
       dirStripePattern = Some (p\<lparr>serialPatternLength := 0\<rparr>), parentDirID = parentDirID inode',
       parentNodeID = parentNodeID inode', dirFeatureFlags = dirFeatureFlags inode',
       dirMirrorNodeID = keep (dirMirrored inode') (dirMirrorNodeID inode') (dirMirrorNodeID old),
       dirStatData = stat_restored True True (dirStatData inode') (dirStatData old),
       numSubdirs = keep False (numSubdirs inode') (keep True (numSubdirs inode') (numSubdirs old)),
       numFiles = numFiles inode'\<rparr>"
    using p(1) by (simp add: dir_restored_def keep_def)
  have kind: "\<not> DiskMetaDataType_DIRINODE \<noteq> DiskMetaDataType_DIRINODE" by simp
  show ?thesis
    unfolding b readDirInode_def eq
    by (rule back_bind [OF back_codec(1)], unfold if_not_P [OF kind],
        rule back_bind [OF back_codec(1)], rule back_bind [OF back_codec(2)],
        rule back_check [OF flags], unfold Let_def early stats not_True_eq_False,
        rule back_bind [OF back_opt [OF back_codec(4)]], rule back_bind [OF back_stat [OF blocks]],
        rule back_bind [OF back_opt [OF back_codec(4)]], rule back_bind [OF back_codec(4)],
        rule back_bind [OF back_codec(6) [OF ids(1)]],
        rule back_bind [OF back_codec(6) [OF ids(2)]], rule back_bind [OF back_codec(3)],
        rule back_bind [OF back_codec(3)], rule back_bind [OF back_opt [OF back_codec(2)]],
        rule back_last [OF back_pattern [OF p(2)]]) simp
qed

section \<open>Sizes of the records\<close>

lemma back_length: "reads d x bs m \<Longrightarrow> length bs = m"
  by (simp add: reads_def)

lemmas field_lengths = uint.ser_len [OF TrueI] uint16.ser_len [OF TrueI] ushort.ser_len [OF TrueI]
  uint8.ser_len [OF TrueI]

lemma str4_length: "length s < 4000000000 \<Longrightarrow> length (serializeStrAlign4 s) = align4 (length s + 5)"
  using str4.ser_len [of s] by (simp add: str_ok_def serialLenStrAlign4_unat)

lemma pattern_length:
  assumes "pattern_ok p"
  shows "length (fst (pattern_serialize p)) =
     24 + 2 * length (stripeTargetIDs p) +
     (if patternClass p = Raid10PatternClass then 8 + 2 * length (mirrorTargetIDs p) else 0)"
proof -
  have v: "length (stripeTargetIDs p) < 2000000000" "length (mirrorTargetIDs p) < 2000000000"
    using assms by (auto simp: pattern_ok_def)
  show ?thesis
    using assms v by (cases "patternClass p")
      (simp_all add: pattern_serialize_def serializeHeader_def serializePattern_def pattern_ok_def
        uint.ser_len serialLenUInt_def vec_len
        uint16vec.ser_len [unfolded serialLenUShort_def, OF vec_ok])
qed

text \<open>The number of bytes of the attributes in the format with flags.\<close>

definition sparseLen :: "StatData \<Rightarrow> nat" where
  "sparseLen st = (if getIsSparseFile st then 8 + 8 * length (cbBlocks (chunkBlocksVec st)) else 0)"

lemma v5_stat_length:
  "blocks_ok (cbBlocks (chunkBlocksVec st)) \<Longrightarrow>
     length (stat_serialize False True False st) = 64 + sparseLen st"
  using back_length [OF stat_disk_reads [where isDir = False and hasFlags = True]]
  by (simp add: sparseLen_def)

lemma v5_entry_length:
  assumes ok: "entry_disk_ok d i" and bs: "serializeInDentryFormat unused type d i = Some bs"
    and pad: "length unused = 4" and v5: "\<not> DirEntryType_ISDIR (entryType d)"
      "origFeature i = FileInodeOrigFeature_TRUE"
    and p: "inodePattern i = Some p"
    and short: "length (dentryID d) < 4000000000" "length (origParentEntryID i) < 4000000000"
  shows "length bs = 104 + sparseLen (inodeStatData i) + 2 * length (stripeTargetIDs p) +
     align4 (length (dentryID d) + 5) +
     (if hasInodeFlag FILEINODE_FEATURE_HAS_ORIG_UID i then 4 else 0) +
     (if hasInodeFlag FILEINODE_FEATURE_HAS_ORIG_PARENTID i
      then align4 (length (origParentEntryID i) + 5) else 0) +
     (if hasInodeFlag FILEINODE_FEATURE_MIRRORED i then 2 else 0) +
     (if patternClass p = Raid10PatternClass then 8 + 2 * length (mirrorTargetIDs p) else 0)"
proof -
  have i: "pattern_ok p" "blocks_ok (cbBlocks (chunkBlocksVec (inodeStatData i)))"
    using ok v5(1) p by (simp_all add: entry_disk_ok_def inode_disk_ok_def)
  obtain body where body: "serializeDentryV5 unused d i = Some body"
    and e: "bs = serializeUInt8 type @ serializeUInt8 DIRENTRY_STORAGE_FORMAT_VER5 @
      serializeUInt16 (dentryFeatureFlags d) @ serializeUInt8 (entryType d) @
      (if dentryMirrored d then serializeUInt16 (dentryMirrorNodeID d) @ [0] else [0, 0, 0]) @ body"
    using bs v5 by (auto simp: serializeInDentryFormat_def dentryFormatVersion_def entry_formats
        split: if_splits)
  have "length body = 96 + sparseLen (inodeStatData i) + 2 * length (stripeTargetIDs p) +
     align4 (length (dentryID d) + 5) +
     (if hasInodeFlag FILEINODE_FEATURE_HAS_ORIG_UID i then 4 else 0) +
     (if hasInodeFlag FILEINODE_FEATURE_HAS_ORIG_PARENTID i
      then align4 (length (origParentEntryID i) + 5) else 0) +
     (if hasInodeFlag FILEINODE_FEATURE_MIRRORED i then 2 else 0) +
     (if patternClass p = Raid10PatternClass then 8 + 2 * length (mirrorTargetIDs p) else 0)"
    unfolding arg_cong [OF body [unfolded serializeDentryV5_def p option.case option.inject,
          symmetric], of length]
    using pad by (simp add: v5_stat_length [OF i(2)] str4_length [OF short(1)] pattern_length [OF i(1)]
        str4_length [OF short(2)] field_lengths int_list_lens)
  then show ?thesis
    by (simp add: e field_lengths int_list_lens serialLenUInt8_def serialLenChar_def)
qed

section \<open>Properties\<close>

lemma deserializeDentry_back:
  assumes "reads_back (readDentry localNode e) x bs" "length bs \<le> DIRENTRY_SERBUF_SIZE"
  shows "deserializeDentry localNode e (bs @ rest) = Inr x"
  using assms by (simp add: reads_back_def deserializeDentry_def DIRENTRY_SERBUF_SIZE_def)

lemma deserializeDirInode_back:
  assumes "reads_back (readDirInode old) x bs" "length bs \<le> META_SERBUF_SIZE"
  shows "deserializeDirInode old (bs @ rest) = Inr x"
  using assms by (simp add: reads_back_def deserializeDirInode_def META_SERBUF_SIZE_def)

text \<open>
  C16: A directory entry that is written to disk is read back. The name of an entry is not part
  of its record; a directory keeps the entry ID and the owner node, any other entry carries its
  inode: its feature flags, attributes, stripe pattern and mirror node, and where the chunk files
  are (in the new format the user and the directory of its creation, as far as they differ from
  the current ones). What the formats leave out stays as it was in the object that is filled.
  The record has to fit into the buffer of 4096 bytes.
\<close>

theorem entry_disk_round_trip:
  assumes "length unused = 4" "entry_disk_ok d i"
    and "serializeDentry unused d i = Some bs" "length bs \<le> DIRENTRY_SERBUF_SIZE"
  shows "deserializeDentry localNode e (bs @ rest) = Inr (entry_restored localNode d i e)"
  by (rule deserializeDentry_back [OF entry_back [OF assms(2)
        assms(3) [unfolded serializeDentry_def] assms(1)] assms(4)])

text \<open>A file on three targets, created by user 7 in directory 1-2-3, owned by user 9 now.\<close>

definition disk_stat :: "u32 \<Rightarrow> StatData" where
  "disk_stat uid =
     \<lparr>statFlags = 0, statFileSize = 100, creationTimeSecs = 10, attribChangeTimeSecs = 11,
      nlink = 1, settable = \<lparr>mode = 0x81A4, userID = uid, groupID = 5, modificationTimeSecs = 12,
        lastAccessTimeSecs = 13\<rparr>, contentsVersion = 0, chunkBlocksVec = newChunksBlocksVec 0\<rparr>"

definition disk_inode :: "u32 \<Rightarrow> FileInodeStoreData" where
  "disk_inode uid =
     newFileInodeStoreData ''4-5-6'' (disk_stat uid) (demo_raid [1, 2, 3]) 0 7 ''1-2-3''
       FileInodeOrigFeature_TRUE"

definition disk_entry :: "DirEntryType \<Rightarrow> DentryStoreData" where
  "disk_entry t = \<lparr>dentryID = ''4-5-6'', entryType = t, ownerNodeID = 2,
     dentryFeatureFlags = DENTRY_FEATURE_INODE_INLINE OR DENTRY_FEATURE_IS_FILEINODE,
     dentryMirrorNodeID = 0\<rparr>"

lemma demo_pattern: "inodePattern (disk_inode uid) = Some (demo_raid [1, 2, 3])"
  by (simp add: disk_inode_def newFileInodeStoreData_def demo_raid_def clonePattern_def cloneWithTargets_def
      Raid0Pattern_def withTargets_def newPattern_def calcStripeSetSize_def)

lemma disk_inode_ok: "inode_disk_ok (disk_inode uid)"
  using demo_raid_ok [of "[1, 2, 3]"]
  by (simp add: inode_disk_ok_def demo_pattern)
    (simp add: disk_inode_def newFileInodeStoreData_def inode_flags_ok_def str_ok_def blocks_ok_def
      disk_stat_def newChunksBlocksVec_def checkFeatureFlagsCompat_def
      getSupportedDentryV5FileInodeFeatureFlags_def FILEINODE_FEATURE_MIRRORED_def
      FILEINODE_FEATURE_HAS_ORIG_PARENTID_def FILEINODE_FEATURE_HAS_ORIG_UID_def)

lemma disk_entry_ok: "entry_disk_ok (disk_entry t) (disk_inode uid)"
  using disk_inode_ok
  by (simp add: entry_disk_ok_def disk_entry_def str_ok_def checkFeatureFlagsCompat_def
      getSupportedDentryFeatureFlags_def DENTRY_FEATURE_INODE_INLINE_def
      DENTRY_FEATURE_IS_FILEINODE_def DENTRY_FEATURE_MIRRORED_def)

lemma demo_written:
  "\<exists>bs. serializeInDentryFormat [0, 0, 0, 0] type (disk_entry 2) (disk_inode uid) = Some bs \<and>
     length bs \<le> DIRENTRY_SERBUF_SIZE"
proof -
  have nodir: "\<not> DirEntryType_ISDIR (entryType (disk_entry 2))"
    by (simp add: disk_entry_def DirEntryType_ISDIR_def DirEntryType_DIRECTORY_def)
  have v5: "origFeature (disk_inode uid) = FileInodeOrigFeature_TRUE"
    by (simp add: disk_inode_def newFileInodeStoreData_def)
  obtain bs where bs: "serializeInDentryFormat [0, 0, 0, 0] type (disk_entry 2) (disk_inode uid) = Some bs"
    using nodir v5 by (simp add: serializeInDentryFormat_def dentryFormatVersion_def entry_formats
        serializeDentryV5_def demo_pattern)
  have "length bs \<le> DIRENTRY_SERBUF_SIZE"
    using v5_entry_length [OF disk_entry_ok bs _ nodir v5 demo_pattern] align4_less [of 10]
    by (auto simp: disk_entry_def disk_inode_def newFileInodeStoreData_def DIRENTRY_SERBUF_SIZE_def
        sparseLen_def disk_stat_def newChunksBlocksVec_def demo_raid_def Raid0Pattern_def
        withTargets_def newPattern_def calcStripeSetSize_def getIsSparseFile_def)
  with bs show ?thesis by blast
qed

theorem entry_disk_round_trip_witness:
  "\<exists>bs. serializeDentry [0, 0, 0, 0] (disk_entry 2) (disk_inode 9) = Some bs \<and>
     deserializeDentry 3 (disk_entry 0, disk_inode 1) (bs @ [255]) =
       Inr (entry_restored 3 (disk_entry 2) (disk_inode 9) (disk_entry 0, disk_inode 1))"
proof -
  from demo_written obtain bs where
    bs: "serializeDentry [0, 0, 0, 0] (disk_entry 2) (disk_inode 9) = Some bs"
    and fits: "length bs \<le> DIRENTRY_SERBUF_SIZE"
    unfolding serializeDentry_def by blast
  from entry_disk_round_trip [OF _ disk_entry_ok bs fits, of 3 "(disk_entry 0, disk_inode 1)" "[255]"]
  show ?thesis using bs by simp
qed

lemma restored_mode [simp]:
  "mode (settable (stat_restored isDir hasFlags st old)) = mode (settable st)"
  by (simp add: stat_restored_def)

lemma type_byte: "deserializeUInt8 (serializeUInt8 v @ bs) (Suc 0) = Inr (v, Suc 0)"
  by (simp add: uint8.round_trip serialLenUInt8_def serialLenChar_def)

lemma entry_type_byte:
  "serializeInDentryFormat unused type d i = Some bs \<Longrightarrow> \<exists>t. bs = serializeUInt8 type @ t"
  by (auto simp: serializeInDentryFormat_def Let_def split: if_splits)

lemma dir_type_byte:
  "serializeDirInode inode = Some (bs, inode') \<Longrightarrow>
     \<exists>t. bs = serializeUInt8 DiskMetaDataType_DIRINODE @ t"
  by (auto simp: serializeDirInode_def Let_def split: option.splits)

lemmas record_types = DiskMetaDataType_FILEDENTRY_def DiskMetaDataType_DIRDENTRY_def
  DiskMetaDataType_FILEINODE_def DiskMetaDataType_DIRINODE_def

lemma file_record_read:
  assumes pad: "length unused = 4" and s: "serializeFileInode unused d i = Some (bs, d')"
    and ok: "entry_disk_ok d' i" and nodir: "\<not> DirEntryType_ISDIR (entryType d')"
    and fits: "length bs \<le> DIRENTRY_SERBUF_SIZE"
  shows "deserializeInode localNode e newDir (bs @ rest) =
    Inr (posixFileTypeToDirEntryType (mode (settable (inodeStatData i))),
      AFileInode (entry_restored localNode d' i e))"
proof -
  obtain type where type: "type \<in> {DiskMetaDataType_FILEDENTRY, DiskMetaDataType_FILEINODE}"
    and bs: "serializeInDentryFormat unused type d' i = Some bs"
    using s by (auto simp: serializeFileInode_def Let_def split: if_splits)
  obtain t where t: "bs = serializeUInt8 type @ t" using entry_type_byte [OF bs] by blast
  have "deserializeFileInode localNode e (bs @ rest) = Inr (entry_restored localNode d' i e)"
    unfolding deserializeFileInode_def
    by (rule deserializeDentry_back [OF entry_back [OF ok bs pad] fits])
  moreover have "mode (settable (inodeStatData (snd (entry_restored localNode d' i e)))) =
      mode (settable (inodeStatData i))"
    using nodir by (simp add: entry_restored_def inode_restored_def Let_def)
  moreover have "deserializeUInt8 (bs @ rest) 1 = Inr (type, 1)" by (simp add: t type_byte)
  ultimately show ?thesis using type by (auto simp: deserializeInode_def record_types)
qed

lemma inode_record_by_type_parts:
  assumes "length unused = 4"
  shows "serializeFileInode unused d i = Some (bs, d') \<and> entry_disk_ok d' i \<and>
      \<not> DirEntryType_ISDIR (entryType d') \<and> length bs \<le> DIRENTRY_SERBUF_SIZE \<longrightarrow>
      deserializeInode localNode e newDir (bs @ rest) =
        Inr (posixFileTypeToDirEntryType (mode (settable (inodeStatData i))),
          AFileInode (entry_restored localNode d' i e))"
    and "serializeDirInode inode = Some (bs, inode') \<and> dir_disk_ok inode' \<and>
      length bs \<le> META_SERBUF_SIZE \<longrightarrow>
      deserializeInode localNode e newDir (bs @ rest) =
        Inr (DirEntryType_DIRECTORY, ADirInode (dir_restored inode' newDir))"
    and "serializeDentry unused d i = Some bs \<and> DirEntryType_ISDIR (entryType d) \<longrightarrow>
      deserializeInode localNode e newDir (bs @ rest) = Inr (DirEntryType_INVALID, NoInode)"
proof -
  show "serializeFileInode unused d i = Some (bs, d') \<and> entry_disk_ok d' i \<and>
      \<not> DirEntryType_ISDIR (entryType d') \<and> length bs \<le> DIRENTRY_SERBUF_SIZE \<longrightarrow>
      deserializeInode localNode e newDir (bs @ rest) =
        Inr (posixFileTypeToDirEntryType (mode (settable (inodeStatData i))),
          AFileInode (entry_restored localNode d' i e))"
    using file_record_read [OF assms] by blast
  show "serializeDirInode inode = Some (bs, inode') \<and> dir_disk_ok inode' \<and>
      length bs \<le> META_SERBUF_SIZE \<longrightarrow>
      deserializeInode localNode e newDir (bs @ rest) =
        Inr (DirEntryType_DIRECTORY, ADirInode (dir_restored inode' newDir))"
  proof (intro impI, elim conjE)
    assume s: "serializeDirInode inode = Some (bs, inode')" and ok: "dir_disk_ok inode'"
      and fits: "length bs \<le> META_SERBUF_SIZE"
    from dir_type_byte [OF s] obtain t where
      "bs = serializeUInt8 DiskMetaDataType_DIRINODE @ t" by blast
    then have "deserializeUInt8 (bs @ rest) 1 = Inr (DiskMetaDataType_DIRINODE, 1)"
      by (simp add: type_byte)
    then show "deserializeInode localNode e newDir (bs @ rest) =
        Inr (DirEntryType_DIRECTORY, ADirInode (dir_restored inode' newDir))"
      using deserializeDirInode_back [OF dir_back [OF s ok] fits]
      by (simp add: deserializeInode_def record_types)
  qed
  show "serializeDentry unused d i = Some bs \<and> DirEntryType_ISDIR (entryType d) \<longrightarrow>
      deserializeInode localNode e newDir (bs @ rest) = Inr (DirEntryType_INVALID, NoInode)"
  proof (intro impI, elim conjE)
    assume "serializeDentry unused d i = Some bs" "DirEntryType_ISDIR (entryType d)"
    then have s: "serializeInDentryFormat unused DiskMetaDataType_DIRDENTRY d i = Some bs"
      by (simp add: serializeDentry_def)
    from entry_type_byte [OF s] obtain t where
      "bs = serializeUInt8 DiskMetaDataType_DIRDENTRY @ t" by blast
    then have "deserializeUInt8 (bs @ rest) 1 = Inr (DiskMetaDataType_DIRDENTRY, 1)"
      by (simp add: type_byte)
    then show "deserializeInode localNode e newDir (bs @ rest) =
        Inr (DirEntryType_INVALID, NoInode)"
      by (simp add: deserializeInode_def)
  qed
qed


text \<open>
  C17: Inode records are told apart by their first byte. The reader for records of unknown type
  gives back file inodes, with the entry type of their mode, and directory inodes with all their
  fields; a record of a directory entry is not taken for an inode.
\<close>

theorem inode_record_by_type:
  assumes "length unused = 4"
  shows "(serializeFileInode unused d i = Some (bs, d') \<and> entry_disk_ok d' i \<and>
      \<not> DirEntryType_ISDIR (entryType d') \<and> length bs \<le> DIRENTRY_SERBUF_SIZE \<longrightarrow>
      deserializeInode localNode e newDir (bs @ rest) =
        Inr (posixFileTypeToDirEntryType (mode (settable (inodeStatData i))),
          AFileInode (entry_restored localNode d' i e))) \<and>
    (serializeDirInode inode = Some (bs, inode') \<and> dir_disk_ok inode' \<and>
      length bs \<le> META_SERBUF_SIZE \<longrightarrow>
      deserializeInode localNode e newDir (bs @ rest) =
        Inr (DirEntryType_DIRECTORY, ADirInode (dir_restored inode' newDir))) \<and>
    (serializeDentry unused d i = Some bs \<and> DirEntryType_ISDIR (entryType d) \<longrightarrow>
      deserializeInode localNode e newDir (bs @ rest) = Inr (DirEntryType_INVALID, NoInode))"
  by (intro conjI inode_record_by_type_parts [OF assms])

definition blank_dir :: DirInode where
  "blank_dir = \<lparr>dirID = [], dirOwnerNodeID = 0, dirStripePattern = None, parentDirID = [],
     parentNodeID = 0, dirFeatureFlags = 0, dirMirrorNodeID = 0, dirStatData = disk_stat 0,
     numSubdirs = 0, numFiles = 0\<rparr>"

theorem inode_record_by_type_witness:
  "\<exists>bs d'. serializeFileInode [0, 0, 0, 0] (disk_entry 2) (disk_inode 9) = Some (bs, d') \<and>
     deserializeInode 3 (disk_entry 0, disk_inode 1) blank_dir bs =
       Inr (DirEntryType_REGULARFILE,
         AFileInode (entry_restored 3 d' (disk_inode 9) (disk_entry 0, disk_inode 1)))"
proof -
  have valid: "setEntryTypeByMode (disk_inode 9) (disk_entry 2) = disk_entry 2"
    by (simp add: setEntryTypeByMode_def DirEntryType_ISVALID_def DirEntryType_INVALID_def
        disk_entry_def)
  have nodir: "\<not> DirEntryType_ISDIR (entryType (disk_entry 2))"
    by (simp add: disk_entry_def DirEntryType_ISDIR_def DirEntryType_DIRECTORY_def)
  have reg: "posixFileTypeToDirEntryType (mode (settable (inodeStatData (disk_inode 9)))) =
      DirEntryType_REGULARFILE"
    by (simp add: posixFileTypeToDirEntryType_def S_IFMT_def disk_inode_def
        newFileInodeStoreData_def disk_stat_def)
  from demo_written obtain bs where
    bs: "serializeFileInode [0, 0, 0, 0] (disk_entry 2) (disk_inode 9) = Some (bs, disk_entry 2)"
    and fits: "length bs \<le> DIRENTRY_SERBUF_SIZE"
    unfolding serializeFileInode_def Let_def valid by (metis option.simps(9))
  from inode_record_by_type [where unused = "[0, 0, 0, 0]" and rest = "[]"] bs fits nodir
    disk_entry_ok reg
  show ?thesis by fastforce
qed

text \<open>What the lengths of the target lists and of the block counts add to a record.\<close>

definition variableLen :: "StripePattern \<Rightarrow> StatData \<Rightarrow> nat" where
  "variableLen p st = 2 * length (stripeTargetIDs p) +
     (if patternClass p = Raid10PatternClass then 8 + 2 * length (mirrorTargetIDs p) else 0) +
     (if getIsSparseFile st then 8 * length (cbBlocks (chunkBlocksVec st)) else 0)"

lemma entry_length_bounds:
  assumes "length unused = 4" "entry_disk_ok d i" "\<not> DirEntryType_ISDIR (entryType d)"
    and "origFeature i = FileInodeOrigFeature_TRUE" "inodePattern i = Some p"
    and "serializeDentry unused d i = Some bs"
    and "length (dentryID d) \<le> 50" "length (origParentEntryID i) \<le> 50"
  shows "112 + variableLen p (inodeStatData i) \<le> length bs"
    and "getIsSparseFile (inodeStatData i) \<Longrightarrow> 120 + variableLen p (inodeStatData i) \<le> length bs"
    and "length bs \<le> 230 + variableLen p (inodeStatData i)"
proof -
  have short: "length (dentryID d) < 4000000000" "length (origParentEntryID i) < 4000000000"
    using assms(7,8) by simp_all
  note len = v5_entry_length [OF assms(2) assms(6) [unfolded serializeDentry_def] assms(1,3,4,5) short]
  have a: "align4 (length (dentryID d) + 5) \<le> 56" "align4 (length (origParentEntryID i) + 5) \<le> 56"
    "8 \<le> align4 (length (dentryID d) + 5)"
    using assms(7,8) by (simp_all add: align4_def)
  show "112 + variableLen p (inodeStatData i) \<le> length bs"
    "length bs \<le> 230 + variableLen p (inodeStatData i)"
    using a by (simp_all add: len variableLen_def sparseLen_def)
  show "120 + variableLen p (inodeStatData i) \<le> length bs" if "getIsSparseFile (inodeStatData i)"
    using a that by (simp add: len variableLen_def sparseLen_def)
qed

text \<open>
  C22: The size of the record of a file's entry in the new format, for an entry ID and an original
  parent ID of at most 50 characters. It fits into the buffer of 4096 bytes, whatever the other
  fields are, if the pattern is not RAID10 and there are at most 386 targets and block counts, or
  for any pattern if there are at most 321 targets, mirror targets and block counts. The writer does
  not look at the size: for a sparse file with a block count for each of 398 or more targets, or
  with a RAID10 pattern of 331 or more targets and as many mirror targets and block counts, it writes
  beyond the end of the buffer.
\<close>

theorem entry_record_size:
  assumes "length unused = 4" "entry_disk_ok d i" "\<not> DirEntryType_ISDIR (entryType d)"
    and "origFeature i = FileInodeOrigFeature_TRUE" "inodePattern i = Some p"
    and "serializeDentry unused d i = Some bs"
    and "length (dentryID d) \<le> 50" "length (origParentEntryID i) \<le> 50"
    and "blocks = length (cbBlocks (chunkBlocksVec (inodeStatData i)))"
  shows "(patternClass p \<noteq> Raid10PatternClass \<and> numTargets p \<le> 386 \<and> blocks \<le> 386 \<longrightarrow>
      length bs \<le> DIRENTRY_SERBUF_SIZE) \<and>
    (numTargets p \<le> 321 \<and> length (mirrorTargetIDs p) \<le> 321 \<and> blocks \<le> 321 \<longrightarrow>
      length bs \<le> DIRENTRY_SERBUF_SIZE) \<and>
    (getIsSparseFile (inodeStatData i) \<and> 398 \<le> numTargets p \<and> blocks = numTargets p \<longrightarrow>
      DIRENTRY_SERBUF_SIZE < length bs) \<and>
    (getIsSparseFile (inodeStatData i) \<and> patternClass p = Raid10PatternClass \<and> 331 \<le> numTargets p \<and>
      length (mirrorTargetIDs p) = numTargets p \<and> blocks = numTargets p \<longrightarrow>
      DIRENTRY_SERBUF_SIZE < length bs)"
  using entry_length_bounds [OF assms(1-8)]
  by (cases "getIsSparseFile (inodeStatData i)"; cases "patternClass p = Raid10PatternClass")
    (simp_all add: assms(9) variableLen_def DIRENTRY_SERBUF_SIZE_def)

definition sparse_inode :: FileInodeStoreData where
  "sparse_inode =
     (disk_inode 9)\<lparr>inodeStatData := (disk_stat 9)\<lparr>statFlags := STATDATA_FEATURE_SPARSE_FILE,
         chunkBlocksVec := newChunksBlocksVec 400\<rparr>,
       inodePattern := Some (demo_raid (replicate 400 1))\<rparr>"

lemma sparse_entry_ok: "entry_disk_ok (disk_entry 2) sparse_inode"
  using disk_entry_ok [of 2 9] demo_raid_ok [of "replicate 400 1"]
  by (auto simp: entry_disk_ok_def inode_disk_ok_def sparse_inode_def inode_flags_ok_def
      blocks_ok_def newChunksBlocksVec_def)

theorem entry_record_size_witness:
  "\<exists>bs. serializeDentry [0, 0, 0, 0] (disk_entry 2) sparse_inode = Some bs \<and>
     DIRENTRY_SERBUF_SIZE < length bs"
proof -
  have nodir: "\<not> DirEntryType_ISDIR (entryType (disk_entry 2))"
    by (simp add: disk_entry_def DirEntryType_ISDIR_def DirEntryType_DIRECTORY_def)
  have v5: "origFeature sparse_inode = FileInodeOrigFeature_TRUE"
    by (simp add: sparse_inode_def disk_inode_def newFileInodeStoreData_def)
  have p: "inodePattern sparse_inode = Some (demo_raid (replicate 400 1))"
    by (simp add: sparse_inode_def)
  obtain bs where bs: "serializeDentry [0, 0, 0, 0] (disk_entry 2) sparse_inode = Some bs"
    using nodir v5 by (simp add: serializeDentry_def serializeInDentryFormat_def
        dentryFormatVersion_def entry_formats serializeDentryV5_def p)
  have raid: "patternClass (demo_raid ts) = Raid0PatternClass" "stripeTargetIDs (demo_raid ts) = ts"
    for ts by (simp_all add: demo_raid_def Raid0Pattern_def withTargets_def newPattern_def
        calcStripeSetSize_def)
  from entry_record_size [OF _ sparse_entry_ok nodir v5 p bs _ _ refl] have
    "DIRENTRY_SERBUF_SIZE < length bs"
    by (simp add: raid disk_entry_def sparse_inode_def disk_inode_def newFileInodeStoreData_def
        newChunksBlocksVec_def getIsSparseFile_def STATDATA_FEATURE_SPARSE_FILE_def)
  with bs show ?thesis by blast
qed

end
