(* ===== verification/EntryInfo.thy ===== *)
theory EntryInfo
  imports InodeData
begin

text \<open>
  The information with which an entry is looked up (\<open>EntryInfo.h/.cpp\<close> under
  fhgfs_common/source/common/storage), passed from the clients to the metadata servers: the
  directory, the ID and the name of the entry, its type, its owner and whether its inode is
  inlined into the entry.
\<close>

record EntryInfo =
  infoOwnerNodeID :: u16
  infoParentEntryID :: string
  infoEntryID :: string
  infoFileName :: string
  infoEntryType :: u32
  infoFlags :: i32

definition ENTRYINFO_FEATURE_INLINED :: i32 where "ENTRYINFO_FEATURE_INLINED = 1"

definition MIN_ENTRY_ID_LEN :: nat where "MIN_ENTRY_ID_LEN = 1"

definition newEntryInfo :: EntryInfo where
  "newEntryInfo = \<lparr>infoOwnerNodeID = 0, infoParentEntryID = [], infoEntryID = [],
     infoFileName = [], infoEntryType = ucast DirEntryType_INVALID, infoFlags = 0\<rparr>"

definition getIsInlined :: "EntryInfo \<Rightarrow> bool" where
  "getIsInlined e \<longleftrightarrow> infoFlags e AND ENTRYINFO_FEATURE_INLINED \<noteq> 0"

definition setInodeInlinedFlag :: "bool \<Rightarrow> EntryInfo \<Rightarrow> EntryInfo" where
  "setInodeInlinedFlag isInlined e =
     e\<lparr>infoFlags := (if isInlined then infoFlags e OR ENTRYINFO_FEATURE_INLINED
         else infoFlags e AND NOT ENTRYINFO_FEATURE_INLINED)\<rparr>"

text \<open>\<open>pad\<close> are the two bytes of the buffer that the writer leaves as they are.\<close>

definition ei_serialize :: "u8 list \<Rightarrow> EntryInfo \<Rightarrow> u8 list" where
  "ei_serialize pad e =
     serializeUInt (infoEntryType e) @ serializeInt (infoFlags e) @
     serializeStrAlign4 (infoParentEntryID e) @ serializeStrAlign4 (infoEntryID e) @
     serializeStrAlign4 (infoFileName e) @ serializeUShort (infoOwnerNodeID e) @ pad"

definition ei_deserialize :: "EntryInfo decoder" where
  "ei_deserialize =
     dbind deserializeUInt (\<lambda>type.
     dbind deserializeInt (\<lambda>flags.
     dbind deserializeStrAlign4 (\<lambda>parent.
     if length parent < MIN_ENTRY_ID_LEN \<and> 0 < length parent then (\<lambda>buf bufLen. Inl DecodeFail)
     else dbind deserializeStrAlign4 (\<lambda>eid.
       if length eid < MIN_ENTRY_ID_LEN then (\<lambda>buf bufLen. Inl DecodeFail)
       else dbind deserializeStrAlign4 (\<lambda>name.
         dbind deserializeUShort (\<lambda>owner buf bufLen.
           Inr (\<lparr>infoOwnerNodeID = owner, infoParentEntryID = parent, infoEntryID = eid,
             infoFileName = name, infoEntryType = type, infoFlags = flags\<rparr>,
             unat serialLenUShort)))))))"

definition ei_serialLen :: "EntryInfo \<Rightarrow> u32" where
  "ei_serialLen e =
     serialLenUInt + serialLenInt + serialLenStrAlign4 (word_of_nat (length (infoParentEntryID e))) +
     serialLenStrAlign4 (word_of_nat (length (infoEntryID e))) +
     serialLenStrAlign4 (word_of_nat (length (infoFileName e))) + serialLenUShort +
     serialLenUShort"

text \<open>The comparison writes both into cleared buffers and compares them byte for byte.\<close>

definition ei_compare :: "EntryInfo \<Rightarrow> EntryInfo \<Rightarrow> bool" where
  "ei_compare a b \<longleftrightarrow>
     ei_serialLen a = ei_serialLen b \<and>
     length (ei_serialize [0, 0] a) = unat (ei_serialLen a) \<and>
     length (ei_serialize [0, 0] b) = unat (ei_serialLen a) \<and>
     ei_serialize [0, 0] a = ei_serialize [0, 0] b"

definition entry_info_ok :: "EntryInfo \<Rightarrow> bool" where
  "entry_info_ok e \<longleftrightarrow> infoEntryID e \<noteq> [] \<and> str_ok (infoParentEntryID e) \<and>
     str_ok (infoEntryID e) \<and> str_ok (infoFileName e)"

text \<open>The position moves on over the padding whether or not the buffer has it.\<close>

lemma entry_info_back:
  assumes ok: "entry_info_ok e" and pad: "length pad = 2"
  shows "reads_back ei_deserialize e (ei_serialize pad e)"
proof -
  have s: "str_ok (infoParentEntryID e)" "str_ok (infoEntryID e)" "str_ok (infoFileName e)"
    and ids: "\<not> length (infoEntryID e) < MIN_ENTRY_ID_LEN"
      "\<not> (length (infoParentEntryID e) < MIN_ENTRY_ID_LEN \<and> 0 < length (infoParentEntryID e))"
    using ok by (auto simp: entry_info_ok_def MIN_ENTRY_ID_LEN_def Suc_le_eq)
  have last: "reads_back (\<lambda>buf bufLen.
      Inr (\<lparr>infoOwnerNodeID = infoOwnerNodeID e, infoParentEntryID = infoParentEntryID e,
        infoEntryID = infoEntryID e, infoFileName = infoFileName e,
        infoEntryType = infoEntryType e, infoFlags = infoFlags e\<rparr>, unat serialLenUShort)) e pad"
    using pad by (simp add: reads_back_def int_list_lens)
  show ?thesis
    unfolding ei_deserialize_def ei_serialize_def
    by (rule back_bind [OF back_codec(4)], rule back_bind [OF back_codec(5)],
        rule back_bind [OF back_codec(6) [OF s(1)]], unfold if_not_P [OF ids(2)],
        rule back_bind [OF back_codec(6) [OF s(2)]], unfold if_not_P [OF ids(1)],
        rule back_bind [OF back_codec(6) [OF s(3)]], rule back_bind [OF back_codec(3)],
        rule last)
qed

text \<open>For well-formed infos the comparison is equality.\<close>

lemma ei_compare_equal:
  assumes a: "entry_info_ok a" and b: "entry_info_ok b"
    and short: "length (ei_serialize [0, 0] a) < 2 ^ 64" "ei_compare a b"
  shows "a = b"
proof -
  have e: "ei_serialize [0, 0] a = ei_serialize [0, 0] b" using short(2) by (simp add: ei_compare_def)
  have "ei_deserialize (ei_serialize [0, 0] a) (length (ei_serialize [0, 0] a)) =
      Inr (a, length (ei_serialize [0, 0] a))"
    by (rule back_exact [OF entry_info_back [OF a] short(1)]) simp
  moreover have "ei_deserialize (ei_serialize [0, 0] b) (length (ei_serialize [0, 0] b)) =
      Inr (b, length (ei_serialize [0, 0] b))"
    by (rule back_exact [OF entry_info_back [OF b] short(1) [unfolded e]]) simp
  ultimately have "Inr (a, length (ei_serialize [0, 0] a)) =
      (Inr (b, length (ei_serialize [0, 0] b)) :: decode_error + EntryInfo \<times> nat)"
    unfolding e by (rule trans [OF sym])
  then show ?thesis by blast
qed

end
