(* ===== verification/MetaFs.thy ===== *)
theory MetaFs
  imports DiskMeta EntryInfo
begin

text \<open>
  The local file system in which a metadata server keeps its records, as far as \<open>DirEntry.cpp\<close>,
  \<open>DirEntryStore.cpp\<close> and \<open>FileInode.cpp\<close> use it through the system calls of POSIX: paths that
  are hard links to file objects with contents and an extended attribute.

  Any system call may fail: the state carries a list of faults, one for each call to come, and a
  list that is used up means no further faults. A call that fails changes nothing, except a write
  that stops early. Theorems for all fault lists cover every pattern of failures.
\<close>

section \<open>Paths\<close>

text \<open>
  A directory has an entry under its name and, for files, a second one in its sub directory of
  entry IDs; inodes that are not inlined are in the hash directories, where a new version of an
  inode's record is written to a file of its own first.
\<close>

datatype MetaPath =
    NamePath string string | IDPath string string | InodePath string | InodeUpdatePath string

record FsObject =
  fileContents :: "u8 list"
  metaXAttr :: "u8 list option"

datatype errno = ENOENT | EEXIST | EMFILE | ENOSPC | ENOATTR | ERANGE | E2BIG | EBADF | EIO

datatype sys_fault = NoFault | SysError errno | ShortWrite nat

record MetaFs =
  fsLinks :: "MetaPath \<Rightarrow> nat option"
  fsObjects :: "nat \<Rightarrow> FsObject"
  fsNext :: nat
  fsFaults :: "sys_fault list"

text \<open>
  What is the same for all calls of a server: the two settings of its configuration, its node ID,
  what the buffers on the stack hold before they are filled, and what new objects hold in the
  members that their constructors do not set.
\<close>

record MetaConfig =
  storeUseExtendedAttribs :: bool
  storeSelfHealEmptyFiles :: bool
  localNodeNumID :: u16
  stackByte :: "nat \<Rightarrow> u8"
  freshStatData :: StatData
  freshUID :: u32
  freshNodeID :: u16
  freshInlined :: bool

section \<open>System calls\<close>

text \<open>A call first takes its fault from the list.\<close>

definition sys :: "(MetaFs \<Rightarrow> (errno + 'a) \<times> MetaFs) \<Rightarrow> MetaFs \<Rightarrow> (errno + 'a) \<times> MetaFs" where
  "sys call fs =
     (case fsFaults fs of
        [] \<Rightarrow> call fs
      | SysError e # fl \<Rightarrow> (Inl e, fs\<lparr>fsFaults := fl\<rparr>)
      | _ # fl \<Rightarrow> call (fs\<lparr>fsFaults := fl\<rparr>))"

definition newObject :: FsObject where
  "newObject = \<lparr>fileContents = [], metaXAttr = None\<rparr>"

lemma newObject_simps [simp]: "fileContents newObject = []" "metaXAttr newObject = None"
  by (simp_all add: newObject_def)

definition addObject :: "MetaPath \<Rightarrow> MetaFs \<Rightarrow> MetaFs" where
  "addObject path fs =
     fs\<lparr>fsLinks := (fsLinks fs)(path := Some (fsNext fs)),
        fsObjects := (fsObjects fs)(fsNext fs := newObject), fsNext := fsNext fs + 1\<rparr>"

definition setObject :: "nat \<Rightarrow> FsObject \<Rightarrow> MetaFs \<Rightarrow> MetaFs" where
  "setObject n x fs = fs\<lparr>fsObjects := (fsObjects fs)(n := x)\<rparr>"

text \<open>\<open>open\<close> with \<open>O_CREAT|O_EXCL\<close>, with \<open>O_CREAT\<close> (and \<open>O_TRUNC\<close>), and for reading.\<close>

definition sys_create_excl :: "MetaPath \<Rightarrow> MetaFs \<Rightarrow> (errno + nat) \<times> MetaFs" where
  "sys_create_excl path =
     sys (\<lambda>fs. case fsLinks fs path of
       Some n \<Rightarrow> (Inl EEXIST, fs)
     | None \<Rightarrow> (Inr (fsNext fs), addObject path fs))"

definition sys_open_create :: "MetaPath \<Rightarrow> MetaFs \<Rightarrow> (errno + nat) \<times> MetaFs" where
  "sys_open_create path =
     sys (\<lambda>fs. case fsLinks fs path of
       Some n \<Rightarrow> (Inr n, fs)
     | None \<Rightarrow> (Inr (fsNext fs), addObject path fs))"

definition sys_open_trunc :: "MetaPath \<Rightarrow> MetaFs \<Rightarrow> (errno + nat) \<times> MetaFs" where
  "sys_open_trunc path =
     sys (\<lambda>fs. case fsLinks fs path of
       Some n \<Rightarrow> (Inr n, setObject n ((fsObjects fs n)\<lparr>fileContents := []\<rparr>) fs)
     | None \<Rightarrow> (Inr (fsNext fs), addObject path fs))"

definition sys_open_read :: "MetaPath \<Rightarrow> MetaFs \<Rightarrow> (errno + nat) \<times> MetaFs" where
  "sys_open_read path =
     sys (\<lambda>fs. case fsLinks fs path of Some n \<Rightarrow> (Inr n, fs) | None \<Rightarrow> (Inl ENOENT, fs))"

text \<open>The result of a write at the start of the file is the number of bytes written.\<close>

definition overwrite :: "u8 list \<Rightarrow> u8 list \<Rightarrow> u8 list" where
  "overwrite new old = new @ drop (length new) old"

definition sys_write :: "nat \<Rightarrow> u8 list \<Rightarrow> MetaFs \<Rightarrow> (errno + nat) \<times> MetaFs" where
  "sys_write n buf fs =
     (let k = (case fsFaults fs of ShortWrite k # _ \<Rightarrow> min k (length buf) | _ \<Rightarrow> length buf)
      in sys (\<lambda>fs. (Inr k, setObject n
           ((fsObjects fs n)\<lparr>fileContents := overwrite (take k buf) (fileContents (fsObjects fs n))\<rparr>)
           fs)) fs)"

definition sys_fsetxattr :: "nat \<Rightarrow> u8 list \<Rightarrow> MetaFs \<Rightarrow> (errno + unit) \<times> MetaFs" where
  "sys_fsetxattr n buf =
     sys (\<lambda>fs. (Inr (), setObject n ((fsObjects fs n)\<lparr>metaXAttr := Some buf\<rparr>) fs))"

definition sys_setxattr :: "MetaPath \<Rightarrow> u8 list \<Rightarrow> MetaFs \<Rightarrow> (errno + unit) \<times> MetaFs" where
  "sys_setxattr path buf =
     sys (\<lambda>fs. case fsLinks fs path of
       Some n \<Rightarrow> (Inr (), setObject n ((fsObjects fs n)\<lparr>metaXAttr := Some buf\<rparr>) fs)
     | None \<Rightarrow> (Inl ENOENT, fs))"

definition sys_getxattr :: "MetaPath \<Rightarrow> nat \<Rightarrow> MetaFs \<Rightarrow> (errno + u8 list) \<times> MetaFs" where
  "sys_getxattr path bufSize =
     sys (\<lambda>fs. case fsLinks fs path of
       Some n \<Rightarrow>
         (case metaXAttr (fsObjects fs n) of
            None \<Rightarrow> (Inl ENOATTR, fs)
          | Some buf \<Rightarrow> if bufSize < length buf then (Inl ERANGE, fs) else (Inr buf, fs))
     | None \<Rightarrow> (Inl ENOENT, fs))"

definition sys_pread :: "nat \<Rightarrow> nat \<Rightarrow> nat \<Rightarrow> MetaFs \<Rightarrow> (errno + u8 list) \<times> MetaFs" where
  "sys_pread n bufSize pos =
     sys (\<lambda>fs. (Inr (take bufSize (drop pos (fileContents (fsObjects fs n)))), fs))"

definition sys_read :: "nat \<Rightarrow> nat \<Rightarrow> MetaFs \<Rightarrow> (errno + u8 list) \<times> MetaFs" where
  "sys_read n bufSize = sys_pread n bufSize 0"

definition sys_unlink :: "MetaPath \<Rightarrow> MetaFs \<Rightarrow> (errno + unit) \<times> MetaFs" where
  "sys_unlink path =
     sys (\<lambda>fs. case fsLinks fs path of
       Some n \<Rightarrow> (Inr (), fs\<lparr>fsLinks := (fsLinks fs)(path := None)\<rparr>)
     | None \<Rightarrow> (Inl ENOENT, fs))"

definition sys_link :: "MetaPath \<Rightarrow> MetaPath \<Rightarrow> MetaFs \<Rightarrow> (errno + unit) \<times> MetaFs" where
  "sys_link from to =
     sys (\<lambda>fs. case fsLinks fs from of
       None \<Rightarrow> (Inl ENOENT, fs)
     | Some n \<Rightarrow>
         if fsLinks fs to \<noteq> None then (Inl EEXIST, fs)
         else (Inr (), fs\<lparr>fsLinks := (fsLinks fs)(to := Some n)\<rparr>))"

text \<open>Renaming to another link of the same file does nothing.\<close>

definition sys_rename :: "MetaPath \<Rightarrow> MetaPath \<Rightarrow> MetaFs \<Rightarrow> (errno + unit) \<times> MetaFs" where
  "sys_rename from to =
     sys (\<lambda>fs. case fsLinks fs from of
       None \<Rightarrow> (Inl ENOENT, fs)
     | Some n \<Rightarrow>
         if fsLinks fs to = Some n then (Inr (), fs)
         else (Inr (), fs\<lparr>fsLinks := (fsLinks fs)(to := Some n, from := None)\<rparr>))"

definition sys_fallocate :: "nat \<Rightarrow> nat \<Rightarrow> MetaFs \<Rightarrow> (errno + unit) \<times> MetaFs" where
  "sys_fallocate n len =
     sys (\<lambda>fs. let old = fileContents (fsObjects fs n) in
       (Inr (), setObject n
         ((fsObjects fs n)\<lparr>fileContents := old @ replicate (len - length old) 0\<rparr>) fs))"

definition sys_ftruncate :: "nat \<Rightarrow> nat \<Rightarrow> MetaFs \<Rightarrow> (errno + unit) \<times> MetaFs" where
  "sys_ftruncate n len =
     sys (\<lambda>fs. let old = fileContents (fsObjects fs n) in
       (Inr (), setObject n
         ((fsObjects fs n)\<lparr>fileContents := take len old @ replicate (len - length old) 0\<rparr>) fs))"

definition sys_fstat_size :: "nat \<Rightarrow> MetaFs \<Rightarrow> (errno + nat) \<times> MetaFs" where
  "sys_fstat_size n = sys (\<lambda>fs. (Inr (length (fileContents (fsObjects fs n))), fs))"

text \<open>\<open>access\<close> and \<open>stat\<close> of a path.\<close>

definition sys_exists :: "MetaPath \<Rightarrow> MetaFs \<Rightarrow> (errno + unit) \<times> MetaFs" where
  "sys_exists path =
     sys (\<lambda>fs. case fsLinks fs path of Some n \<Rightarrow> (Inr (), fs) | None \<Rightarrow> (Inl ENOENT, fs))"

text \<open>A buffer of \<open>bufSize\<close> bytes on the stack that was filled with \<open>bs\<close>.\<close>

definition stackBuf :: "MetaConfig \<Rightarrow> nat \<Rightarrow> u8 list \<Rightarrow> u8 list" where
  "stackBuf cfg bufSize bs = bs @ map (stackByte cfg) [length bs..<bufSize]"

text \<open>The skipped bytes of a record that is written into such a buffer.\<close>

definition unusedBytes :: "MetaConfig \<Rightarrow> u8 list" where
  "unusedBytes cfg = map (stackByte cfg) [12, 13, 14, 15]"

lemma unusedBytes_length [simp]: "length (unusedBytes cfg) = 4"
  by (simp add: unusedBytes_def)

section \<open>Laws\<close>

text \<open>The state without the faults to come; every call depends on it and its fault only.\<close>

definition core :: "MetaFs \<Rightarrow> MetaFs" where
  "core fs = fs\<lparr>fsFaults := []\<rparr>"

lemma core_simps [simp]:
  "fsLinks (core fs) = fsLinks fs" "fsObjects (core fs) = fsObjects fs" "fsNext (core fs) = fsNext fs"
  "fsFaults (core fs) = []" "core (core fs) = core fs" "core (fs\<lparr>fsFaults := fl\<rparr>) = core fs"
  "core (addObject p fs) = addObject p (core fs)" "core (setObject n x fs) = setObject n x (core fs)"
  "core (fs\<lparr>fsLinks := L\<rparr>) = (core fs)\<lparr>fsLinks := L\<rparr>"
  by (simp_all add: core_def addObject_def setObject_def)

lemma coreD:
  "core a = x \<Longrightarrow> fsLinks a = fsLinks x" "core a = x \<Longrightarrow> fsObjects a = fsObjects x"
  "core a = x \<Longrightarrow> fsNext a = fsNext x"
  by auto

lemma core_parts:
  "core a = x \<Longrightarrow> fsLinks a = fsLinks x \<and> fsObjects a = fsObjects x \<and> fsNext a = fsNext x"
  by auto

lemma object_simps [simp]:
  "fsLinks (addObject p fs) = (fsLinks fs)(p := Some (fsNext fs))"
  "fsObjects (addObject p fs) = (fsObjects fs)(fsNext fs := newObject)"
  "fsNext (addObject p fs) = Suc (fsNext fs)"
  "fsLinks (setObject n x fs) = fsLinks fs" "fsObjects (setObject n x fs) = (fsObjects fs)(n := x)"
  "fsNext (setObject n x fs) = fsNext fs"
  by (simp_all add: addObject_def setObject_def)

lemma sys_cases:
  assumes "sys call fs = (r, fs')"
  obtains (fault) e where "r = Inl e" "core fs' = core fs"
  | (called) fl where "call (fs\<lparr>fsFaults := fl\<rparr>) = (r, fs')"
proof (cases "fsFaults fs")
  case Nil
  then have "fs\<lparr>fsFaults := []\<rparr> = fs" by simp
  with assms Nil called [of "[]"] show ?thesis by (simp add: sys_def)
next
  case (Cons f fl)
  show ?thesis
  proof (cases f)
    case (SysError e)
    with assms Cons have "r = Inl e" "fs' = fs\<lparr>fsFaults := fl\<rparr>" by (simp_all add: sys_def)
    then show ?thesis using fault by simp
  qed (use assms Cons called [of fl] in \<open>simp_all add: sys_def\<close>)
qed

lemma sys_no_faults: "fsFaults fs = [] \<Longrightarrow> sys call fs = call fs"
  by (simp add: sys_def)

lemma create_excl_spec:
  assumes "sys_create_excl p fs = (r, fs')"
  shows "(\<exists>e. r = Inl e \<and> core fs' = core fs) \<or>
    (r = Inr (fsNext fs) \<and> fsLinks fs p = None \<and> core fs' = addObject p (core fs))"
  using assms [unfolded sys_create_excl_def]
  by (cases rule: sys_cases) (auto split: option.splits)

lemma open_create_spec:
  assumes "sys_open_create p fs = (r, fs')"
  shows "(\<exists>e. r = Inl e \<and> core fs' = core fs) \<or>
    (\<exists>n. r = Inr n \<and> fsLinks fs p = Some n \<and> core fs' = core fs) \<or>
    (r = Inr (fsNext fs) \<and> fsLinks fs p = None \<and> core fs' = addObject p (core fs))"
  using assms [unfolded sys_open_create_def]
  by (cases rule: sys_cases) (auto split: option.splits)

lemma open_trunc_spec:
  assumes "sys_open_trunc p fs = (r, fs')"
  shows "(\<exists>e. r = Inl e \<and> core fs' = core fs) \<or>
    (\<exists>n. r = Inr n \<and> fsLinks fs p = Some n \<and>
      core fs' = setObject n ((fsObjects fs n)\<lparr>fileContents := []\<rparr>) (core fs)) \<or>
    (r = Inr (fsNext fs) \<and> fsLinks fs p = None \<and> core fs' = addObject p (core fs))"
  using assms [unfolded sys_open_trunc_def]
  by (cases rule: sys_cases) (auto split: option.splits)

lemma open_read_spec:
  assumes "sys_open_read p fs = (r, fs')"
  shows "core fs' = core fs \<and> (\<forall>n. r = Inr n \<longrightarrow> fsLinks fs p = Some n)"
  using assms [unfolded sys_open_read_def]
  by (cases rule: sys_cases) (auto split: option.splits)

lemma write_spec:
  assumes "sys_write n buf fs = (r, fs')"
  shows "(\<exists>e. r = Inl e \<and> core fs' = core fs) \<or>
    (\<exists>k \<le> length buf. r = Inr k \<and> core fs' = setObject n ((fsObjects fs n)
       \<lparr>fileContents := overwrite (take k buf) (fileContents (fsObjects fs n))\<rparr>) (core fs))"
  using assms [unfolded sys_write_def Let_def]
  by (cases rule: sys_cases) (auto split: list.splits sys_fault.splits)

lemma fsetxattr_spec:
  assumes "sys_fsetxattr n buf fs = (r, fs')"
  shows "(\<exists>e. r = Inl e \<and> core fs' = core fs) \<or>
    (r = Inr () \<and> core fs' = setObject n ((fsObjects fs n)\<lparr>metaXAttr := Some buf\<rparr>) (core fs))"
  using assms [unfolded sys_fsetxattr_def] by (cases rule: sys_cases) auto

lemma setxattr_spec:
  assumes "sys_setxattr p buf fs = (r, fs')"
  shows "(\<exists>e. r = Inl e \<and> core fs' = core fs) \<or>
    (\<exists>n. r = Inr () \<and> fsLinks fs p = Some n \<and>
      core fs' = setObject n ((fsObjects fs n)\<lparr>metaXAttr := Some buf\<rparr>) (core fs))"
  using assms [unfolded sys_setxattr_def]
  by (cases rule: sys_cases) (auto split: option.splits)

lemma read_only_spec:
  "sys_getxattr p k fs = (r1, fs') \<Longrightarrow> core fs' = core fs"
  "sys_pread n k pos fs = (r2, fs') \<Longrightarrow> core fs' = core fs"
  "sys_fstat_size n fs = (r3, fs') \<Longrightarrow> core fs' = core fs"
  "sys_exists p fs = (r4, fs') \<Longrightarrow> core fs' = core fs"
  unfolding sys_getxattr_def sys_pread_def sys_fstat_size_def sys_exists_def
  by (erule sys_cases, auto split: option.splits if_splits)+

lemma unlink_spec:
  assumes "sys_unlink p fs = (r, fs')"
  shows "(\<exists>e. r = Inl e \<and> core fs' = core fs) \<or>
    (r = Inr () \<and> fsLinks fs p \<noteq> None \<and> core fs' = (core fs)\<lparr>fsLinks := (fsLinks fs)(p := None)\<rparr>)"
  using assms [unfolded sys_unlink_def]
  by (cases rule: sys_cases) (auto split: option.splits)

lemma link_spec:
  assumes "sys_link p q fs = (r, fs')"
  shows "(\<exists>e. r = Inl e \<and> core fs' = core fs) \<or>
    (\<exists>n. r = Inr () \<and> fsLinks fs p = Some n \<and> fsLinks fs q = None \<and>
      core fs' = (core fs)\<lparr>fsLinks := (fsLinks fs)(q := Some n)\<rparr>)"
  using assms [unfolded sys_link_def]
  by (cases rule: sys_cases) (auto split: option.splits if_splits)

lemma rename_spec:
  assumes "sys_rename p q fs = (r, fs')"
  shows "(\<exists>e. r = Inl e \<and> core fs' = core fs) \<or>
    (\<exists>n. r = Inr () \<and> fsLinks fs p = Some n \<and> fsLinks fs q = Some n \<and> core fs' = core fs) \<or>
    (\<exists>n. r = Inr () \<and> fsLinks fs p = Some n \<and> fsLinks fs q \<noteq> Some n \<and>
      core fs' = (core fs)\<lparr>fsLinks := (fsLinks fs)(q := Some n, p := None)\<rparr>)"
  using assms [unfolded sys_rename_def]
  by (cases rule: sys_cases) (auto split: option.splits if_splits)

lemma fallocate_spec:
  assumes "sys_fallocate n len fs = (r, fs')"
  shows "(\<exists>e. r = Inl e \<and> core fs' = core fs) \<or>
    (r = Inr () \<and> core fs' = setObject n ((fsObjects fs n)\<lparr>fileContents :=
       fileContents (fsObjects fs n) @
       replicate (len - length (fileContents (fsObjects fs n))) 0\<rparr>) (core fs))"
  using assms [unfolded sys_fallocate_def Let_def] by (cases rule: sys_cases) auto

lemma ftruncate_spec:
  assumes "sys_ftruncate n len fs = (r, fs')"
  shows "(\<exists>e. r = Inl e \<and> core fs' = core fs) \<or>
    (r = Inr () \<and> core fs' = setObject n ((fsObjects fs n)\<lparr>fileContents :=
       take len (fileContents (fsObjects fs n)) @
       replicate (len - length (fileContents (fsObjects fs n))) 0\<rparr>) (core fs))"
  using assms [unfolded sys_ftruncate_def Let_def] by (cases rule: sys_cases) auto

text \<open>Paths lead to objects that exist; new objects are new.\<close>

definition fs_wf :: "MetaFs \<Rightarrow> bool" where
  "fs_wf fs \<longleftrightarrow> (\<forall>p n. fsLinks fs p = Some n \<longrightarrow> n < fsNext fs)"

text \<open>The record that is stored at a path.\<close>

definition storedIn :: "MetaConfig \<Rightarrow> FsObject \<Rightarrow> u8 list option" where
  "storedIn cfg x = (if storeUseExtendedAttribs cfg then metaXAttr x else Some (fileContents x))"

definition record_at :: "MetaConfig \<Rightarrow> MetaFs \<Rightarrow> MetaPath \<Rightarrow> u8 list option" where
  "record_at cfg fs p =
     (case fsLinks fs p of None \<Rightarrow> None | Some n \<Rightarrow> storedIn cfg (fsObjects fs n))"

text \<open>Other paths and older objects stay as they are.\<close>

definition only_at :: "MetaPath set \<Rightarrow> MetaFs \<Rightarrow> MetaFs \<Rightarrow> bool" where
  "only_at P fs fs' \<longleftrightarrow>
     (\<forall>p. p \<notin> P \<longrightarrow> fsLinks fs' p = fsLinks fs p) \<and>
     (\<forall>n < fsNext fs. fsObjects fs' n = fsObjects fs n) \<and> fsNext fs \<le> fsNext fs'"

lemma only_at_trans: "only_at P a b \<Longrightarrow> only_at Q b c \<Longrightarrow> only_at (P \<union> Q) a c"
  by (auto simp: only_at_def)

lemma only_at_core: "core fs' = core fs \<Longrightarrow> only_at P fs fs'"
  using coreD [of fs' "core fs"] by (simp add: only_at_def)

lemma only_at_record:
  "only_at P fs fs' \<Longrightarrow> fs_wf fs \<Longrightarrow> p \<notin> P \<Longrightarrow> record_at cfg fs' p = record_at cfg fs p"
  by (auto simp: only_at_def fs_wf_def record_at_def split: option.splits)

lemma record_at_core: "core fs' = core fs \<Longrightarrow> record_at cfg fs' p = record_at cfg fs p"
  using coreD [of fs' "core fs"] by (simp add: record_at_def split: option.split)

end
