(* ===== verification/DirEntry.thy ===== *)
theory DirEntry
  imports MetaFs
begin

text \<open>
  Directory entries on the disk of a metadata server (\<open>DirEntry.h/.cpp\<close> and \<open>DirEntryStore.cpp\<close>
  under fhgfs_meta/source/storage). The entry of a file is one record with two hard links: under
  the name and, in a sub directory, under the entry ID; updates go through the ID. The entry of a
  directory has its name only. The removal of the entry of a file in use is in \<open>DirNode\<close>.

  Operations that write a record have the outcome None where the code has none of its own: an
  entry without stripe pattern (a NULL pointer), or a record beyond the end of the 4096 bytes of
  the buffer. A reader that looks beyond the end of its buffer has this outcome, too.
\<close>

section \<open>The entry\<close>

record DirEntry =
  deData :: DentryStoreData
  deInode :: FileInodeStoreData
  deName :: string

definition freshInodeData :: "MetaConfig \<Rightarrow> FileInodeStoreData" where
  "freshInodeData cfg =
     \<lparr>inodeFeatureFlags = 0,
      inodeStatData = (freshStatData cfg)\<lparr>statFlags := 0, chunkBlocksVec := newChunksBlocksVec 0\<rparr>,
      inodeID = [], inodePattern = None, origFeature = FileInodeOrigFeature_UNSET,
      origParentUID = freshUID cfg, origParentEntryID = [], inodeMirrorNodeID = 0,
      hsmFileMetaData = newHsmFileMetaData\<rparr>"

definition newDirEntry ::
    "MetaConfig \<Rightarrow> DirEntryType \<Rightarrow> string \<Rightarrow> string \<Rightarrow> u16 \<Rightarrow> DirEntry" where
  "newDirEntry cfg type name eid owner =
     \<lparr>deData = \<lparr>dentryID = eid, entryType = type, ownerNodeID = owner, dentryFeatureFlags = 0,
        dentryMirrorNodeID = freshNodeID cfg\<rparr>,
      deInode = freshInodeData cfg, deName = name\<rparr>"

definition emptyDirEntry :: "MetaConfig \<Rightarrow> string \<Rightarrow> DirEntry" where
  "emptyDirEntry cfg name = newDirEntry cfg DirEntryType_INVALID name [] 0"

definition setFileInodeData :: "FileInodeStoreData \<Rightarrow> DirEntry \<Rightarrow> DirEntry" where
  "setFileInodeData i e =
     e\<lparr>deInode := i,
       deData := (deData e)\<lparr>dentryFeatureFlags := dentryFeatureFlags (deData e) OR
         (DENTRY_FEATURE_INODE_INLINE OR DENTRY_FEATURE_IS_FILEINODE)\<rparr>\<rparr>"

definition de_setMirrorNodeID :: "u16 \<Rightarrow> DirEntry \<Rightarrow> DirEntry" where
  "de_setMirrorNodeID nodeID e = e\<lparr>deData := dentry_setMirrorNodeID nodeID (deData e)\<rparr>"

definition getIsInodeInlined :: "DirEntry \<Rightarrow> bool" where
  "getIsInodeInlined e \<longleftrightarrow> dentryFeatureFlags (deData e) AND DENTRY_FEATURE_INODE_INLINE \<noteq> 0"

definition unsetInodeInlined :: "DirEntry \<Rightarrow> DirEntry" where
  "unsetInodeInlined e =
     e\<lparr>deData := (deData e)\<lparr>dentryFeatureFlags :=
       dentryFeatureFlags (deData e) AND NOT DENTRY_FEATURE_INODE_INLINE\<rparr>\<rparr>"

definition de_getEntryInfo :: "string \<Rightarrow> i32 \<Rightarrow> DirEntry \<Rightarrow> EntryInfo" where
  "de_getEntryInfo parentEntryID flags e =
     \<lparr>infoOwnerNodeID = ownerNodeID (deData e), infoParentEntryID = parentEntryID,
      infoEntryID = dentryID (deData e), infoFileName = deName e,
      infoEntryType = ucast (entryType (deData e)),
      infoFlags = (if getIsInodeInlined e then flags OR ENTRYINFO_FEATURE_INLINED else flags)\<rparr>"

section \<open>Storing a new entry\<close>

definition de_serializeDentry :: "MetaConfig \<Rightarrow> DirEntry \<Rightarrow> u8 list option" where
  "de_serializeDentry cfg e =
     (case serializeDentry (unusedBytes cfg) (deData e) (deInode e) of
        None \<Rightarrow> None
      | Some buf \<Rightarrow> if DIRENTRY_SERBUF_SIZE < length buf then None else Some buf)"

definition writeNewRecord :: "MetaConfig \<Rightarrow> nat \<Rightarrow> u8 list \<Rightarrow> MetaFs \<Rightarrow> bool \<times> MetaFs" where
  "writeNewRecord cfg fd buf fs =
     (if storeUseExtendedAttribs cfg
      then (case sys_fsetxattr fd buf fs of (r, fs1) \<Rightarrow> (r = Inr (), fs1))
      else (case sys_write fd buf fs of (r, fs1) \<Rightarrow> (r = Inr (length buf), fs1)))"

text \<open>The file of the entry ID. \<open>errno\<close> is that of the last failed call.\<close>

definition storeInitialDirEntryID ::
    "MetaConfig \<Rightarrow> MetaPath \<Rightarrow> DirEntry \<Rightarrow> MetaFs \<Rightarrow> (FhgfsOpsErr \<times> MetaFs) option" where
  "storeInitialDirEntryID cfg idPath e fs =
     (case sys_create_excl idPath fs of
        (Inl err, fs1) \<Rightarrow>
          (let (err2, fs2) =
             (if err = EMFILE
              then (case sys_unlink idPath fs1 of
                  (Inl err', fs2) \<Rightarrow> (err', fs2)
                | (Inr _, fs2) \<Rightarrow> (err, fs2))
              else (err, fs1))
           in Some (if err2 = EEXIST then FhgfsOpsErr_EXISTS else FhgfsOpsErr_INTERNAL, fs2))
      | (Inr fd, fs1) \<Rightarrow>
          (case de_serializeDentry cfg e of
             None \<Rightarrow> None
           | Some buf \<Rightarrow>
               (case writeNewRecord cfg fd buf fs1 of
                  (stored, fs2) \<Rightarrow>
                    if stored then Some (FhgfsOpsErr_SUCCESS, fs2)
                    else Some (FhgfsOpsErr_INTERNAL, snd (sys_unlink idPath fs2)))))"

definition storeInitialDirEntryName ::
    "MetaPath \<Rightarrow> MetaPath \<Rightarrow> bool \<Rightarrow> MetaFs \<Rightarrow> FhgfsOpsErr \<times> MetaFs" where
  "storeInitialDirEntryName idPath namePath isDir fs =
     (case sys_link idPath namePath fs of
        (Inl err, fs1) \<Rightarrow>
          (if err = EEXIST then FhgfsOpsErr_EXISTS else FhgfsOpsErr_INTERNAL,
           snd (sys_unlink idPath fs1))
      | (Inr _, fs1) \<Rightarrow>
          (FhgfsOpsErr_SUCCESS, if isDir then snd (sys_unlink idPath fs1) else fs1))"

definition storeInitialDirEntry ::
    "MetaConfig \<Rightarrow> string \<Rightarrow> DirEntry \<Rightarrow> MetaFs \<Rightarrow> (FhgfsOpsErr \<times> MetaFs) option" where
  "storeInitialDirEntry cfg dir e fs =
     (let idPath = IDPath dir (dentryID (deData e))
      in case storeInitialDirEntryID cfg idPath e fs of
           None \<Rightarrow> None
         | Some (res, fs1) \<Rightarrow>
             if res \<noteq> FhgfsOpsErr_SUCCESS then Some (res, fs1)
             else Some (storeInitialDirEntryName idPath (NamePath dir (deName e))
               (DirEntryType_ISDIR (entryType (deData e))) fs1))"

section \<open>Updating an entry\<close>

definition storeUpdatedDirEntryBufAsXAttr :: "MetaPath \<Rightarrow> u8 list \<Rightarrow> MetaFs \<Rightarrow> bool \<times> MetaFs" where
  "storeUpdatedDirEntryBufAsXAttr path buf fs =
     (case sys_setxattr path buf fs of (r, fs1) \<Rightarrow> (r = Inr (), fs1))"

text \<open>
  Space is reserved first; the error EBADF of this call is ignored if the file is large enough.
  This part is the same for the files of inodes (\<open>FileInode.cpp\<close>).
\<close>

definition reserveSpace :: "nat \<Rightarrow> nat \<Rightarrow> MetaFs \<Rightarrow> bool \<times> MetaFs" where
  "reserveSpace fd bufLen fs =
     (case sys_fallocate fd bufLen fs of
        (Inr _, fs1) \<Rightarrow> (True, fs1)
      | (Inl err, fs1) \<Rightarrow>
          if err = EBADF
          then (case sys_fstat_size fd fs1 of
              (Inl _, fs2) \<Rightarrow> (False, fs2)
            | (Inr st_size, fs2) \<Rightarrow> (\<not> st_size < bufLen, fs2))
          else (False, fs1))"

definition storeBufInPlace :: "MetaPath \<Rightarrow> u8 list \<Rightarrow> MetaFs \<Rightarrow> bool \<times> MetaFs" where
  "storeBufInPlace path buf fs =
     (case sys_open_create path fs of
        (Inl _, fs1) \<Rightarrow> (False, fs1)
      | (Inr fd, fs1) \<Rightarrow>
          (case reserveSpace fd (length buf) fs1 of
             (False, fs2) \<Rightarrow> (False, fs2)
           | (True, fs2) \<Rightarrow>
               (case sys_write fd buf fs2 of
                  (r, fs3) \<Rightarrow>
                    if r \<noteq> Inr (length buf) then (False, fs3)
                    else (True, snd (sys_ftruncate fd (length buf) fs3)))))"

definition storeUpdatedDirEntryBuf ::
    "MetaConfig \<Rightarrow> MetaPath \<Rightarrow> u8 list \<Rightarrow> MetaFs \<Rightarrow> bool \<times> MetaFs" where
  "storeUpdatedDirEntryBuf cfg path buf fs =
     (if storeUseExtendedAttribs cfg then storeUpdatedDirEntryBufAsXAttr path buf fs
      else storeBufInPlace path buf fs)"

definition storeUpdatedDirEntry ::
    "MetaConfig \<Rightarrow> string \<Rightarrow> bool \<Rightarrow> DirEntry \<Rightarrow> MetaFs \<Rightarrow> (bool \<times> MetaFs) option" where
  "storeUpdatedDirEntry cfg dir useDirEntryName e fs =
     (case de_serializeDentry cfg e of
        None \<Rightarrow> None
      | Some buf \<Rightarrow>
          Some (storeUpdatedDirEntryBuf cfg
            (if useDirEntryName then NamePath dir (deName e) else IDPath dir (dentryID (deData e)))
            buf fs))"

definition storeUpdatedInode ::
    "MetaConfig \<Rightarrow> string \<Rightarrow> DirEntry \<Rightarrow> MetaFs \<Rightarrow> (FhgfsOpsErr \<times> MetaFs) option" where
  "storeUpdatedInode cfg dir e fs =
     (if \<not> getIsInodeInlined e then Some (FhgfsOpsErr_INODENOTINLINED, fs)
      else case storeUpdatedDirEntry cfg dir False e fs of
        None \<Rightarrow> None
      | Some (stored, fs1) \<Rightarrow>
          Some (if stored then FhgfsOpsErr_SUCCESS else FhgfsOpsErr_SAVEERROR, fs1))"

section \<open>Loading an entry\<close>

text \<open>
  The results: None for no defined outcome, else the filled object, or None where the code
  returns false. An empty record is removed when the configuration asks for it.
\<close>

definition META_DIRENTRYID_SUB_STR :: string where "META_DIRENTRYID_SUB_STR = ''#fSiDs#''"

definition de_deserializeDentry :: "MetaConfig \<Rightarrow> u8 list \<Rightarrow> DirEntry \<Rightarrow> DirEntry option option" where
  "de_deserializeDentry cfg buf e =
     (case deserializeDentry (localNodeNumID cfg) (deData e, deInode e) buf of
        Inl DecodeFail \<Rightarrow> Some None
      | Inl ReadBeyondBuffer \<Rightarrow> None
      | Inr (d, i) \<Rightarrow> Some (Some (e\<lparr>deData := d, deInode := i\<rparr>)))"

definition withFs :: "MetaFs \<Rightarrow> 'a option \<Rightarrow> ('a \<times> MetaFs) option" where
  "withFs fs r = map_option (\<lambda>x. (x, fs)) r"

definition loadFromFileXAttr ::
    "MetaConfig \<Rightarrow> MetaPath \<Rightarrow> DirEntry \<Rightarrow> MetaFs \<Rightarrow> (DirEntry option \<times> MetaFs) option" where
  "loadFromFileXAttr cfg path e fs =
     (case sys_getxattr path DIRENTRY_SERBUF_SIZE fs of
        (r, fs1) \<Rightarrow>
          (case r of
             Inr (b # bs) \<Rightarrow>
               withFs fs1 (de_deserializeDentry cfg (stackBuf cfg DIRENTRY_SERBUF_SIZE (b # bs)) e)
           | _ \<Rightarrow>
               if r \<noteq> Inl ENOENT \<and> (r = Inr [] \<or> r = Inl ENOATTR) \<and>
                 storeSelfHealEmptyFiles cfg \<and> deName e \<noteq> META_DIRENTRYID_SUB_STR
               then Some (None, snd (sys_unlink path fs1))
               else Some (None, fs1)))"

definition loadFromFileContents ::
    "MetaConfig \<Rightarrow> MetaPath \<Rightarrow> DirEntry \<Rightarrow> MetaFs \<Rightarrow> (DirEntry option \<times> MetaFs) option" where
  "loadFromFileContents cfg path e fs =
     (case sys_open_read path fs of
        (Inl _, fs1) \<Rightarrow> Some (None, fs1)
      | (Inr fd, fs1) \<Rightarrow>
          (case sys_read fd DIRENTRY_SERBUF_SIZE fs1 of
             (r, fs2) \<Rightarrow>
               (case r of
                  Inr (b # bs) \<Rightarrow>
                    withFs fs2
                      (de_deserializeDentry cfg (stackBuf cfg DIRENTRY_SERBUF_SIZE (b # bs)) e)
                | _ \<Rightarrow>
                    if r = Inr [] \<and> storeSelfHealEmptyFiles cfg
                    then Some (None, snd (sys_unlink path fs2))
                    else Some (None, fs2))))"

definition loadFromFile ::
    "MetaConfig \<Rightarrow> MetaPath \<Rightarrow> DirEntry \<Rightarrow> MetaFs \<Rightarrow> (DirEntry option \<times> MetaFs) option" where
  "loadFromFile cfg path e fs =
     (if storeUseExtendedAttribs cfg then loadFromFileXAttr cfg path e fs
      else loadFromFileContents cfg path e fs)"

definition loadFromFileName ::
    "MetaConfig \<Rightarrow> string \<Rightarrow> string \<Rightarrow> DirEntry \<Rightarrow> MetaFs \<Rightarrow> (DirEntry option \<times> MetaFs) option" where
  "loadFromFileName cfg dir name e fs = loadFromFile cfg (NamePath dir name) e fs"

definition loadFromID ::
    "MetaConfig \<Rightarrow> string \<Rightarrow> string \<Rightarrow> DirEntry \<Rightarrow> MetaFs \<Rightarrow> (DirEntry option \<times> MetaFs) option" where
  "loadFromID cfg dir eid e fs = loadFromFile cfg (IDPath dir eid) e fs"

definition createFromFile ::
    "MetaConfig \<Rightarrow> string \<Rightarrow> string \<Rightarrow> MetaFs \<Rightarrow> (DirEntry option \<times> MetaFs) option" where
  "createFromFile cfg dir name fs = loadFromFileName cfg dir name (emptyDirEntry cfg name) fs"

text \<open>Only the byte with the entry type is used, whether or not the record is that long.\<close>

definition DIRENTRY_TYPE_BUF_POS :: nat where "DIRENTRY_TYPE_BUF_POS = 4"

definition loadEntryTypeFromFileXAttr :: "MetaConfig \<Rightarrow> MetaPath \<Rightarrow> MetaFs \<Rightarrow> DirEntryType \<times> MetaFs" where
  "loadEntryTypeFromFileXAttr cfg path fs =
     (case sys_getxattr path DIRENTRY_SERBUF_SIZE fs of
        (Inr (b # bs), fs1) \<Rightarrow>
          (stackBuf cfg DIRENTRY_SERBUF_SIZE (b # bs) ! DIRENTRY_TYPE_BUF_POS, fs1)
      | (_, fs1) \<Rightarrow> (DirEntryType_INVALID, fs1))"

definition loadEntryTypeFromFileContents :: "MetaPath \<Rightarrow> MetaFs \<Rightarrow> DirEntryType \<times> MetaFs" where
  "loadEntryTypeFromFileContents path fs =
     (case sys_open_read path fs of
        (Inl _, fs1) \<Rightarrow> (DirEntryType_INVALID, fs1)
      | (Inr fd, fs1) \<Rightarrow>
          (case sys_pread fd 1 DIRENTRY_TYPE_BUF_POS fs1 of
             (Inr (b # bs), fs2) \<Rightarrow> (b, fs2)
           | (_, fs2) \<Rightarrow> (DirEntryType_INVALID, fs2)))"

definition loadEntryTypeFromFile ::
    "MetaConfig \<Rightarrow> string \<Rightarrow> string \<Rightarrow> MetaFs \<Rightarrow> DirEntryType \<times> MetaFs" where
  "loadEntryTypeFromFile cfg dir name fs =
     (if storeUseExtendedAttribs cfg then loadEntryTypeFromFileXAttr cfg (NamePath dir name) fs
      else loadEntryTypeFromFileContents (NamePath dir name) fs)"

section \<open>Removing an entry\<close>

definition DirEntry_UNLINK_ID :: u32 where "DirEntry_UNLINK_ID = 1"
definition DirEntry_UNLINK_FILENAME :: u32 where "DirEntry_UNLINK_FILENAME = 2"

definition META_DISPOSALDIR_ID_STR :: string where "META_DISPOSALDIR_ID_STR = ''disposal''"

definition removeDirEntryName :: "MetaPath \<Rightarrow> MetaFs \<Rightarrow> FhgfsOpsErr \<times> MetaFs" where
  "removeDirEntryName path fs =
     (case sys_unlink path fs of
        (Inl err, fs1) \<Rightarrow>
          (if err = ENOENT then FhgfsOpsErr_PATHNOTEXISTS else FhgfsOpsErr_INTERNAL, fs1)
      | (Inr _, fs1) \<Rightarrow> (FhgfsOpsErr_SUCCESS, fs1))"

definition removeDirEntryID :: "string \<Rightarrow> string \<Rightarrow> MetaFs \<Rightarrow> FhgfsOpsErr \<times> MetaFs" where
  "removeDirEntryID dir eid fs = removeDirEntryName (IDPath dir eid) fs"

definition removeFileDentry ::
    "string \<Rightarrow> string \<Rightarrow> string \<Rightarrow> u32 \<Rightarrow> MetaFs \<Rightarrow> FhgfsOpsErr \<times> MetaFs" where
  "removeFileDentry dir eid name unlinkTypeFlags fs =
     (if unlinkTypeFlags AND DirEntry_UNLINK_FILENAME \<noteq> 0
      then (case removeDirEntryName (NamePath dir name) fs of
          (res, fs1) \<Rightarrow>
            if res = FhgfsOpsErr_SUCCESS \<and> unlinkTypeFlags AND DirEntry_UNLINK_ID \<noteq> 0
            then (res, snd (removeDirEntryID dir eid fs1))
            else (res, fs1))
      else if unlinkTypeFlags AND DirEntry_UNLINK_ID \<noteq> 0 then removeDirEntryID dir eid fs
      else (FhgfsOpsErr_SUCCESS, fs))"

definition removeDirDentry :: "string \<Rightarrow> string \<Rightarrow> MetaFs \<Rightarrow> FhgfsOpsErr \<times> MetaFs" where
  "removeDirDentry dir name fs = removeDirEntryName (NamePath dir name) fs"

text \<open>Linking an inode to another directory, e.g. that of a removed file to the disposal directory.\<close>

definition linkInodeToDir :: "MetaPath \<Rightarrow> string \<Rightarrow> string \<Rightarrow> MetaFs \<Rightarrow> FhgfsOpsErr \<times> MetaFs" where
  "linkInodeToDir inodePath dir fileName fs =
     (case sys_link inodePath (NamePath dir fileName) fs of
        (Inl _, fs1) \<Rightarrow> (FhgfsOpsErr_INTERNAL, fs1)
      | (Inr _, fs1) \<Rightarrow> (FhgfsOpsErr_SUCCESS, fs1))"

text \<open>The owner is changed in memory and, under the name, on disk; a failure takes it back.\<close>

definition de_setOwnerNodeID ::
    "MetaConfig \<Rightarrow> string \<Rightarrow> u16 \<Rightarrow> DirEntry \<Rightarrow> MetaFs \<Rightarrow> (bool \<times> DirEntry \<times> MetaFs) option" where
  "de_setOwnerNodeID cfg dir newOwner e fs =
     (let e' = e\<lparr>deData := (deData e)\<lparr>ownerNodeID := newOwner\<rparr>\<rparr>
      in case storeUpdatedDirEntry cfg dir True e' fs of
           None \<Rightarrow> None
         | Some (stored, fs1) \<Rightarrow> Some (if stored then (True, e', fs1) else (False, e, fs1)))"

section \<open>The entries of a directory\<close>

text \<open>\<open>DirEntryStore\<close>: the operations on the entries of one directory.\<close>

definition makeEntry :: "MetaConfig \<Rightarrow> string \<Rightarrow> DirEntry \<Rightarrow> MetaFs \<Rightarrow> (FhgfsOpsErr \<times> MetaFs) option" where
  "makeEntry cfg dir e fs = storeInitialDirEntry cfg dir e fs"

definition des_removeDir ::
    "MetaConfig \<Rightarrow> string \<Rightarrow> string \<Rightarrow> MetaFs \<Rightarrow> (FhgfsOpsErr \<times> DirEntry option \<times> MetaFs) option" where
  "des_removeDir cfg dir name fs =
     (case createFromFile cfg dir name fs of
        None \<Rightarrow> None
      | Some (None, fs1) \<Rightarrow> Some (FhgfsOpsErr_PATHNOTEXISTS, None, fs1)
      | Some (Some e, fs1) \<Rightarrow>
          if \<not> DirEntryType_ISDIR (entryType (deData e))
          then Some (FhgfsOpsErr_PATHNOTEXISTS, None, fs1)
          else (case removeDirDentry dir name fs1 of (res, fs2) \<Rightarrow> Some (res, Some e, fs2)))"

definition unlinkDirEntry ::
    "string \<Rightarrow> string \<Rightarrow> DirEntry \<Rightarrow> u32 \<Rightarrow> MetaFs \<Rightarrow> FhgfsOpsErr \<times> MetaFs" where
  "unlinkDirEntry dir name e unlinkTypeFlags fs =
     removeFileDentry dir (dentryID (deData e)) name unlinkTypeFlags fs"

definition linkEntryInDir :: "string \<Rightarrow> string \<Rightarrow> string \<Rightarrow> MetaFs \<Rightarrow> FhgfsOpsErr \<times> MetaFs" where
  "linkEntryInDir dir fromName toName fs =
     (case sys_link (NamePath dir fromName) (NamePath dir toName) fs of
        (Inl err, fs1) \<Rightarrow>
          (if err = EEXIST then FhgfsOpsErr_EXISTS else FhgfsOpsErr_INTERNAL, fs1)
      | (Inr _, fs1) \<Rightarrow> (FhgfsOpsErr_SUCCESS, fs1))"

definition renameEntry :: "string \<Rightarrow> string \<Rightarrow> string \<Rightarrow> MetaFs \<Rightarrow> FhgfsOpsErr \<times> MetaFs" where
  "renameEntry dir fromName toName fs =
     (case sys_rename (NamePath dir fromName) (NamePath dir toName) fs of
        (Inl err, fs1) \<Rightarrow> (FhgfsOpsErr_INTERNAL, fs1)
      | (Inr _, fs1) \<Rightarrow> (FhgfsOpsErr_SUCCESS, fs1))"

definition des_exists :: "string \<Rightarrow> string \<Rightarrow> MetaFs \<Rightarrow> bool \<times> MetaFs" where
  "des_exists dir name fs = (case sys_exists (NamePath dir name) fs of (r, fs1) \<Rightarrow> (r = Inr (), fs1))"

definition getEntryData ::
    "MetaConfig \<Rightarrow> string \<Rightarrow> string \<Rightarrow> MetaFs \<Rightarrow>
       (FhgfsOpsErr \<times> (EntryInfo \<times> FileInodeStoreData) option \<times> MetaFs) option" where
  "getEntryData cfg dir name fs =
     (case loadFromFileName cfg dir name (emptyDirEntry cfg name) fs of
        None \<Rightarrow> None
      | Some (None, fs1) \<Rightarrow> Some (FhgfsOpsErr_PATHNOTEXISTS, None, fs1)
      | Some (Some e, fs1) \<Rightarrow>
          Some (FhgfsOpsErr_SUCCESS, Some (de_getEntryInfo dir 0 e, deInode e), fs1))"

definition des_setOwnerNodeID ::
    "MetaConfig \<Rightarrow> string \<Rightarrow> string \<Rightarrow> u16 \<Rightarrow> MetaFs \<Rightarrow> (FhgfsOpsErr \<times> MetaFs) option" where
  "des_setOwnerNodeID cfg dir name ownerNode fs =
     (case loadFromFileName cfg dir name (emptyDirEntry cfg name) fs of
        None \<Rightarrow> None
      | Some (None, fs1) \<Rightarrow> Some (FhgfsOpsErr_PATHNOTEXISTS, fs1)
      | Some (Some e, fs1) \<Rightarrow>
          map_option (\<lambda>(stored, _, fs2).
            (if stored then FhgfsOpsErr_SUCCESS else FhgfsOpsErr_INTERNAL, fs2))
            (de_setOwnerNodeID cfg dir ownerNode e fs1))"

definition unlinkDirEntryName :: "string \<Rightarrow> string \<Rightarrow> MetaFs \<Rightarrow> FhgfsOpsErr \<times> MetaFs" where
  "unlinkDirEntryName dir name fs = removeDirEntryName (NamePath dir name) fs"

text \<open>Looking up an entry, a directory or a file.\<close>

definition getDentry ::
    "MetaConfig \<Rightarrow> string \<Rightarrow> string \<Rightarrow> MetaFs \<Rightarrow> (DirEntry option \<times> MetaFs) option" where
  "getDentry cfg dir name fs = loadFromFileName cfg dir name (emptyDirEntry cfg name) fs"

definition DirEntryType_ISFILE :: "DirEntryType \<Rightarrow> bool" where
  "DirEntryType_ISFILE t \<longleftrightarrow> 2 \<le> t \<and> t \<le> 7"

definition des_getEntryInfo ::
    "MetaConfig \<Rightarrow> string \<Rightarrow> string \<Rightarrow> MetaFs \<Rightarrow> (EntryInfo option \<times> MetaFs) option" where
  "des_getEntryInfo cfg dir name fs =
     map_option (\<lambda>(e, fs1). (map_option (de_getEntryInfo dir 0) e, fs1)) (getDentry cfg dir name fs)"

section \<open>Creation under any failures\<close>

lemma storedIn_new:
  assumes "storedIn cfg x = Some buf" "fs_wf fs" "fsLinks fs p = None"
    and "core fs' = setObject (fsNext fs) x (addObject p (core fs))"
  shows "only_at {p} fs fs'" "record_at cfg fs' p = Some buf" "fsLinks fs' p = Some (fsNext fs)"
    "fs_wf fs'" "fsNext fs' = Suc (fsNext fs)"
proof -
  have f: "fsLinks fs' = (fsLinks fs)(p := Some (fsNext fs))"
    "fsObjects fs' = (fsObjects fs)(fsNext fs := x)" "fsNext fs' = Suc (fsNext fs)"
    using coreD [OF assms(4)] by simp_all
  show "only_at {p} fs fs'" using f by (simp add: only_at_def)
  show "record_at cfg fs' p = Some buf" using f assms(1) by (simp add: record_at_def)
  show "fsLinks fs' p = Some (fsNext fs)" "fsNext fs' = Suc (fsNext fs)" using f by simp_all
  show "fs_wf fs'"
    using f assms(2) unfolding fs_wf_def by (auto simp: less_Suc_eq split: if_splits)
qed

lemma wf_core: "core fs' = core fs \<Longrightarrow> fs_wf fs \<Longrightarrow> fs_wf fs'"
  using coreD [of fs' "core fs"] by (simp add: fs_wf_def)

lemma unlink_frame:
  assumes "sys_unlink p fs = (r, fs')" "fs_wf fs"
  shows "only_at {p} fs fs'" "fs_wf fs'" "fsLinks fs' p \<in> {None, fsLinks fs p}"
proof -
  have l: "fsObjects fs' = fsObjects fs \<and> fsNext fs' = fsNext fs \<and>
      (fsLinks fs' = fsLinks fs \<or> fsLinks fs' = (fsLinks fs)(p := None))"
    using unlink_spec [OF assms(1)] by (auto dest!: core_parts)
  then show "only_at {p} fs fs'" "fsLinks fs' p \<in> {None, fsLinks fs p}"
    by (auto simp: only_at_def)
  show "fs_wf fs'" using l assms(2) by (auto simp: fs_wf_def split: if_splits)
qed

text \<open>The file of the ID: on success it has the whole record, on failure nothing else changes.\<close>

lemma new_record:
  assumes new: "core fs1 = addObject p (core fs)" and w: "writeNewRecord cfg (fsNext fs) buf fs1 = (ok, fs2)"
  shows "\<exists>x. core fs2 = setObject (fsNext fs) x (addObject p (core fs)) \<and>
    (ok \<longrightarrow> storedIn cfg x = Some buf)"
proof -
  have o: "fsObjects fs1 (fsNext fs) = newObject" using coreD(2) [OF new] by simp
  have "addObject p (core fs) = setObject (fsNext fs) newObject (addObject p (core fs))"
    by (simp add: setObject_def addObject_def)
  then have keep: "\<exists>x. addObject p (core fs) = setObject (fsNext fs) x (addObject p (core fs))"
    by blast
  show ?thesis
  proof (cases "storeUseExtendedAttribs cfg")
    case True
    then obtain r where "sys_fsetxattr (fsNext fs) buf fs1 = (r, fs2)" "ok \<longleftrightarrow> r = Inr ()"
      using w by (auto simp: writeNewRecord_def split: prod.splits)
    with fsetxattr_spec [OF this(1)] True show ?thesis
      unfolding new o storedIn_def by (auto intro: keep)
  next
    case False
    then obtain r where "sys_write (fsNext fs) buf fs1 = (r, fs2)" "ok \<longleftrightarrow> r = Inr (length buf)"
      using w by (auto simp: writeNewRecord_def split: prod.splits)
    with write_spec [OF this(1)] False show ?thesis
      unfolding new o storedIn_def by (auto intro: keep simp: overwrite_def)
  qed
qed

lemma initial_id_spec:
  assumes r: "storeInitialDirEntryID cfg p e fs = Some (res, fs')" and wf: "fs_wf fs"
  shows "only_at {p} fs fs' \<and> fs_wf fs' \<and>
    (res = FhgfsOpsErr_SUCCESS \<longrightarrow>
      (\<exists>buf. de_serializeDentry cfg e = Some buf \<and> record_at cfg fs' p = Some buf) \<and>
      fsLinks fs p = None \<and> fsLinks fs' p = Some (fsNext fs) \<and> fsNext fs' = Suc (fsNext fs))"
proof (cases "sys_create_excl p fs")
  case (Pair a fs1)
  from create_excl_spec [OF Pair] consider (fail) err where "a = Inl err" "core fs1 = core fs"
    | (new) "a = Inr (fsNext fs)" "fsLinks fs p = None" "core fs1 = addObject p (core fs)"
    by auto
  then show ?thesis
  proof cases
    case fail
    obtain u fs2 where u: "sys_unlink p fs1 = (u, fs2)" by fastforce
    have wf1: "fs_wf fs1" "only_at {p} fs fs1"
      using wf_core [OF fail(2) wf] only_at_core [OF fail(2)] by simp_all
    have "(fs' = fs1 \<or> fs' = fs2) \<and> res \<noteq> FhgfsOpsErr_SUCCESS"
      using r Pair fail(1) u by (auto simp: storeInitialDirEntryID_def split: if_splits sum.splits)
    moreover have "only_at {p} fs fs2 \<and> fs_wf fs2"
      using unlink_frame [OF u wf1(1)] only_at_trans [OF wf1(2)] by fastforce
    ultimately show ?thesis using wf1 by blast
  next
    case new
    obtain buf where buf: "de_serializeDentry cfg e = Some buf"
      using r Pair new(1) by (auto simp: storeInitialDirEntryID_def split: option.splits)
    obtain ok fs2 where w: "writeNewRecord cfg (fsNext fs) buf fs1 = (ok, fs2)" by fastforce
    from new_record [OF new(3) w] obtain x
      where x: "core fs2 = setObject (fsNext fs) x (addObject p (core fs))"
      and written: "ok \<longrightarrow> storedIn cfg x = Some buf" by blast
    have res: "Some (res, fs') = (if ok then Some (FhgfsOpsErr_SUCCESS, fs2)
        else Some (FhgfsOpsErr_INTERNAL, snd (sys_unlink p fs2)))"
      using r by (simp add: storeInitialDirEntryID_def Pair new(1) buf w)
    have f: "fsLinks fs2 = (fsLinks fs)(p := Some (fsNext fs))"
      "fsObjects fs2 = (fsObjects fs)(fsNext fs := x)" "fsNext fs2 = Suc (fsNext fs)"
      using coreD [OF x] by simp_all
    have frame: "only_at {p} fs fs2" "fs_wf fs2"
      using f wf by (auto simp: only_at_def fs_wf_def less_Suc_eq split: if_splits)
    show ?thesis
    proof (cases ok)
      case True
      then have "res = FhgfsOpsErr_SUCCESS" "fs' = fs2" using res by simp_all
      with storedIn_new [OF written [rule_format, OF True] wf new(2) x] buf new(2) frame
      show ?thesis by auto
    next
      case False
      obtain u fs3 where u: "sys_unlink p fs2 = (u, fs3)" by fastforce
      have "res = FhgfsOpsErr_INTERNAL" "fs' = fs3" using res False u by simp_all
      with unlink_frame [OF u frame(2)] only_at_trans [OF frame(1)] show ?thesis by fastforce
    qed
  qed
qed

text \<open>The link under the name, and its counterpart for updates.\<close>

lemma name_spec:
  assumes r: "storeInitialDirEntryName idP nameP isDir fs = (res, fs')" and wf: "fs_wf fs"
    and ne: "idP \<noteq> nameP"
  shows "only_at {idP, nameP} fs fs' \<and> fs_wf fs' \<and>
    (if res = FhgfsOpsErr_SUCCESS
     then fsLinks fs nameP = None \<and> fsLinks fs' nameP = fsLinks fs idP \<and> fsLinks fs idP \<noteq> None \<and>
       (\<not> isDir \<longrightarrow> fsLinks fs' idP = fsLinks fs idP)
     else fsLinks fs' nameP = fsLinks fs nameP)"
proof (cases "sys_link idP nameP fs")
  case (Pair a fs1)
  obtain u fs2 where u: "sys_unlink idP fs1 = (u, fs2)" by fastforce
  from link_spec [OF Pair] consider (fail) err where "a = Inl err" "core fs1 = core fs"
    | (linked) n where "a = Inr ()" "fsLinks fs idP = Some n" "fsLinks fs nameP = None"
        "core fs1 = (core fs)\<lparr>fsLinks := (fsLinks fs)(nameP := Some n)\<rparr>"
    by auto
  then show ?thesis
  proof cases
    case fail
    have wf1: "fs_wf fs1" "only_at {} fs fs1"
      using wf_core [OF fail(2) wf] only_at_core [OF fail(2)] by simp_all
    have "res \<noteq> FhgfsOpsErr_SUCCESS" "fs' = fs2"
      using r Pair fail(1) u by (auto simp: storeInitialDirEntryName_def split: if_splits)
    moreover have "only_at {idP} fs fs2" "fs_wf fs2"
      using unlink_frame [OF u wf1(1)] only_at_trans [OF wf1(2)] by fastforce+
    ultimately show ?thesis using ne by (auto simp: only_at_def)
  next
    case linked
    have f: "fsLinks fs1 = (fsLinks fs)(nameP := Some n)" "fsObjects fs1 = fsObjects fs"
      "fsNext fs1 = fsNext fs"
      using coreD [OF linked(4)] by simp_all
    have wf1: "fs_wf fs1" "only_at {nameP} fs fs1"
      using f wf linked(2) by (auto simp: fs_wf_def only_at_def split: if_splits)
    have "res = FhgfsOpsErr_SUCCESS" "fs' = (if isDir then fs2 else fs1)"
      using r Pair linked(1) u by (auto simp: storeInitialDirEntryName_def)
    then show ?thesis
      using f wf1 ne linked(2,3) unlink_frame [OF u wf1(1)] only_at_trans [OF wf1(2)]
      by (cases isDir) (auto simp: only_at_def)
  qed
qed

lemma record_via_link:
  "fsLinks fs' p = fsLinks fs q \<Longrightarrow> \<forall>n < fsNext fs. fsObjects fs' n = fsObjects fs n \<Longrightarrow> fs_wf fs \<Longrightarrow>
     record_at cfg fs' p = record_at cfg fs q"
  by (auto simp: record_at_def fs_wf_def split: option.splits)

lemma entry_creation_all_or_nothing_parts:
  assumes "fs_wf fs" "storeInitialDirEntry cfg dir e fs = Some (res, fs')"
  defines "nameP \<equiv> NamePath dir (deName e)" and "idP \<equiv> IDPath dir (dentryID (deData e))"
  shows "p \<notin> {nameP, idP} \<longrightarrow> record_at cfg fs' p = record_at cfg fs p"
    and "res = FhgfsOpsErr_SUCCESS \<longrightarrow>
      record_at cfg fs nameP = None \<and> record_at cfg fs' nameP = de_serializeDentry cfg e \<and>
      record_at cfg fs' nameP \<noteq> None \<and>
      (\<not> DirEntryType_ISDIR (entryType (deData e)) \<longrightarrow> fsLinks fs' idP = fsLinks fs' nameP)"
    and "res \<noteq> FhgfsOpsErr_SUCCESS \<longrightarrow>
      fsLinks fs' nameP = fsLinks fs nameP \<and> record_at cfg fs' nameP = record_at cfg fs nameP"
    and "fs_wf fs'"
proof -
  have ne: "idP \<noteq> nameP" by (simp add: idP_def nameP_def)
  obtain res1 fs1 where one: "storeInitialDirEntryID cfg idP e fs = Some (res1, fs1)"
    and two: "if res1 \<noteq> FhgfsOpsErr_SUCCESS then res = res1 \<and> fs' = fs1
      else storeInitialDirEntryName idP nameP (DirEntryType_ISDIR (entryType (deData e))) fs1 =
        (res, fs')"
    using assms(2) by (auto simp: storeInitialDirEntry_def Let_def idP_def nameP_def
        split: option.splits if_splits)
  note s1 = initial_id_spec [OF one assms(1)]
  have frame: "only_at {idP, nameP} fs fs' \<and> fs_wf fs'"
  proof (cases "res1 = FhgfsOpsErr_SUCCESS")
    case True
    with two name_spec [OF _ _ ne, of _ fs1 res fs'] s1 only_at_trans [of "{idP}" fs fs1]
    show ?thesis by fastforce
  next
    case False
    with two s1 show ?thesis by (auto simp: only_at_def)
  qed
  then show "fs_wf fs'" by simp
  show "p \<notin> {nameP, idP} \<longrightarrow> record_at cfg fs' p = record_at cfg fs p"
    using only_at_record [of "{idP, nameP}" fs fs' p] frame assms(1) by auto
  have keep: "fsLinks fs' nameP = fsLinks fs nameP \<and> record_at cfg fs' nameP = record_at cfg fs nameP"
    if "fsLinks fs' nameP = fsLinks fs nameP"
    using record_via_link [OF that _ assms(1)] frame that by (simp add: only_at_def)
  have fs1_name: "fsLinks fs1 nameP = fsLinks fs nameP" using s1 ne by (auto simp: only_at_def)
  show "res \<noteq> FhgfsOpsErr_SUCCESS \<longrightarrow>
      fsLinks fs' nameP = fsLinks fs nameP \<and> record_at cfg fs' nameP = record_at cfg fs nameP"
  proof
    assume res: "res \<noteq> FhgfsOpsErr_SUCCESS"
    have "fsLinks fs' nameP = fsLinks fs1 nameP"
    proof (cases "res1 = FhgfsOpsErr_SUCCESS")
      case True
      with two have "storeInitialDirEntryName idP nameP (DirEntryType_ISDIR (entryType (deData e))) fs1 =
        (res, fs')" by simp
      from name_spec [OF this _ ne] s1 res show ?thesis by simp
    qed (use two in simp)
    with fs1_name keep show "fsLinks fs' nameP = fsLinks fs nameP \<and>
      record_at cfg fs' nameP = record_at cfg fs nameP" by simp
  qed
  show "res = FhgfsOpsErr_SUCCESS \<longrightarrow>
      record_at cfg fs nameP = None \<and> record_at cfg fs' nameP = de_serializeDentry cfg e \<and>
      record_at cfg fs' nameP \<noteq> None \<and>
      (\<not> DirEntryType_ISDIR (entryType (deData e)) \<longrightarrow> fsLinks fs' idP = fsLinks fs' nameP)"
  proof
    assume res: "res = FhgfsOpsErr_SUCCESS"
    have r1: "res1 = FhgfsOpsErr_SUCCESS" using two res by (auto split: if_splits)
    with two have n: "storeInitialDirEntryName idP nameP (DirEntryType_ISDIR (entryType (deData e))) fs1 =
        (FhgfsOpsErr_SUCCESS, fs')" using res by simp
    have wf1: "fs_wf fs1" using s1 by simp
    note s2 = name_spec [OF n wf1 ne]
    have l: "fsLinks fs1 nameP = None" "fsLinks fs' nameP = fsLinks fs1 idP"
      "\<not> DirEntryType_ISDIR (entryType (deData e)) \<longrightarrow> fsLinks fs' idP = fsLinks fs1 idP"
      "only_at {idP, nameP} fs1 fs'"
      using s2 by simp_all
    obtain buf where buf: "de_serializeDentry cfg e = Some buf" "record_at cfg fs1 idP = Some buf"
      using s1 r1 by auto
    have "record_at cfg fs' nameP = record_at cfg fs1 idP"
      using record_via_link [OF l(2) _ wf1] l(4) by (simp add: only_at_def)
    moreover have "record_at cfg fs nameP = None" using l(1) fs1_name by (simp add: record_at_def)
    ultimately show "record_at cfg fs nameP = None \<and>
      record_at cfg fs' nameP = de_serializeDentry cfg e \<and> record_at cfg fs' nameP \<noteq> None \<and>
      (\<not> DirEntryType_ISDIR (entryType (deData e)) \<longrightarrow> fsLinks fs' idP = fsLinks fs' nameP)"
      using buf l(2,3) by simp
  qed
qed


text \<open>
  C21: Creating a directory entry is all or nothing, whatever system calls fail. If the operation
  succeeds, the name was free and now has the complete record; a file has it under its ID too, as
  a hard link to the same file object. If it fails, for whatever reason, the name is as it was. No
  other path and no existing record is touched in either case.
\<close>

theorem entry_creation_all_or_nothing:
  assumes "fs_wf fs" "storeInitialDirEntry cfg dir e fs = Some (res, fs')"
  shows "(p \<notin> {NamePath dir (deName e), IDPath dir (dentryID (deData e))} \<longrightarrow>
      record_at cfg fs' p = record_at cfg fs p) \<and>
    (res = FhgfsOpsErr_SUCCESS \<longrightarrow>
      record_at cfg fs (NamePath dir (deName e)) = None \<and>
      record_at cfg fs' (NamePath dir (deName e)) = de_serializeDentry cfg e \<and>
      record_at cfg fs' (NamePath dir (deName e)) \<noteq> None \<and>
      (\<not> DirEntryType_ISDIR (entryType (deData e)) \<longrightarrow>
        fsLinks fs' (IDPath dir (dentryID (deData e))) = fsLinks fs' (NamePath dir (deName e)))) \<and>
    (res \<noteq> FhgfsOpsErr_SUCCESS \<longrightarrow>
      fsLinks fs' (NamePath dir (deName e)) = fsLinks fs (NamePath dir (deName e)) \<and>
      record_at cfg fs' (NamePath dir (deName e)) = record_at cfg fs (NamePath dir (deName e))) \<and>
    fs_wf fs'"
  by (intro conjI entry_creation_all_or_nothing_parts [OF assms])

section \<open>Looking up what was stored\<close>

abbreviation calm :: "MetaFs \<Rightarrow> MetaFs" where
  "calm fs \<equiv> fs\<lparr>fsFaults := []\<rparr>"

lemma load_record:
  assumes "record_at cfg fs p = Some buf" "buf \<noteq> []"
    and size: "storeUseExtendedAttribs cfg \<longrightarrow> length buf \<le> DIRENTRY_SERBUF_SIZE"
    and d: "deserializeDentry (localNodeNumID cfg) (deData e, deInode e)
      (stackBuf cfg DIRENTRY_SERBUF_SIZE (take DIRENTRY_SERBUF_SIZE buf)) = Inr (d, i)"
  shows "loadFromFile cfg p e (calm fs) = Some (Some (e\<lparr>deData := d, deInode := i\<rparr>), calm fs)"
proof -
  obtain n where n: "fsLinks fs p = Some n" "storedIn cfg (fsObjects fs n) = Some buf"
    using assms(1) by (auto simp: record_at_def split: option.splits)
  obtain b bs where b: "take DIRENTRY_SERBUF_SIZE buf = b # bs"
    using assms(2) by (cases buf) (auto simp: DIRENTRY_SERBUF_SIZE_def)
  have des: "de_deserializeDentry cfg (stackBuf cfg DIRENTRY_SERBUF_SIZE (b # bs)) e =
      Some (Some (e\<lparr>deData := d, deInode := i\<rparr>))"
    using d b by (simp add: de_deserializeDentry_def)
  show ?thesis
  proof (cases "storeUseExtendedAttribs cfg")
    case True
    then have "metaXAttr (fsObjects fs n) = Some (b # bs)" "length (b # bs) \<le> DIRENTRY_SERBUF_SIZE"
      using n(2) size b by (simp_all add: storedIn_def)
    then have "sys_getxattr p DIRENTRY_SERBUF_SIZE (calm fs) = (Inr (b # bs), calm fs)"
      using n(1) by (simp add: sys_getxattr_def sys_no_faults)
    with True des show ?thesis by (simp add: loadFromFile_def loadFromFileXAttr_def withFs_def)
  next
    case False
    then have "take DIRENTRY_SERBUF_SIZE (fileContents (fsObjects fs n)) = b # bs"
      using n(2) b by (simp add: storedIn_def)
    then have "sys_open_read p (calm fs) = (Inr n, calm fs)"
      "sys_read n DIRENTRY_SERBUF_SIZE (calm fs) = (Inr (b # bs), calm fs)"
      using n(1) by (simp_all add: sys_open_read_def sys_read_def sys_pread_def sys_no_faults)
    with False des show ?thesis by (simp add: loadFromFile_def loadFromFileContents_def withFs_def)
  qed
qed

lemma stackBuf_append: "\<exists>rest. stackBuf cfg n (bs @ x) = bs @ rest"
  by (simp add: stackBuf_def)

lemma dentry_not_empty: "serializeDentry unused d i = Some bs \<Longrightarrow> bs \<noteq> []"
  by (auto simp: serializeDentry_def serializeInDentryFormat_def Let_def serializeUInt8_def
      serializeChar_def split: if_splits)

text \<open>A record with nothing or with old bytes behind it gives the entry that was written.\<close>

lemma load_entry:
  assumes ok: "entry_disk_ok (deData e) (deInode e)" and buf: "de_serializeDentry cfg e = Some buf"
    and at: "record_at cfg fs p = Some (buf @ old)"
    and size: "storeUseExtendedAttribs cfg \<longrightarrow> old = []"
  shows "loadFromFile cfg p e0 (calm fs) =
    Some (Some (e0\<lparr>deData := fst (entry_restored (localNodeNumID cfg) (deData e) (deInode e)
        (deData e0, deInode e0)),
      deInode := snd (entry_restored (localNodeNumID cfg) (deData e) (deInode e)
        (deData e0, deInode e0))\<rparr>), calm fs)"
proof (rule load_record [OF at])
  have s: "serializeDentry (unusedBytes cfg) (deData e) (deInode e) = Some buf"
    "length buf \<le> DIRENTRY_SERBUF_SIZE"
    using buf by (auto simp: de_serializeDentry_def split: option.splits if_splits)
  show "buf @ old \<noteq> []" using dentry_not_empty [OF s(1)] by simp
  show "storeUseExtendedAttribs cfg \<longrightarrow> length (buf @ old) \<le> DIRENTRY_SERBUF_SIZE"
    using size s(2) by auto
  obtain rest where "stackBuf cfg DIRENTRY_SERBUF_SIZE (take DIRENTRY_SERBUF_SIZE (buf @ old)) =
      buf @ rest"
    using stackBuf_append s(2) by fastforce
  with deserializeDentry_back [OF entry_back [OF ok s(1) [unfolded serializeDentry_def]
        unusedBytes_length] s(2)]
  show "deserializeDentry (localNodeNumID cfg) (deData e0, deInode e0)
      (stackBuf cfg DIRENTRY_SERBUF_SIZE (take DIRENTRY_SERBUF_SIZE (buf @ old))) =
    Inr (fst (entry_restored (localNodeNumID cfg) (deData e) (deInode e) (deData e0, deInode e0)),
      snd (entry_restored (localNodeNumID cfg) (deData e) (deInode e) (deData e0, deInode e0)))"
    by simp
qed

section \<open>Updates and removals under any failures\<close>

text \<open>A write in place: the new bytes, then what is left of the old ones.\<close>

lemma xattr_update_spec:
  assumes "storeUpdatedDirEntryBufAsXAttr p buf fs = (ok, fs')"
  shows "if ok then \<exists>n. fsLinks fs p = Some n \<and> fsLinks fs' = fsLinks fs \<and>
      fsObjects fs' = (fsObjects fs)(n := (fsObjects fs n)\<lparr>metaXAttr := Some buf\<rparr>)
    else core fs' = core fs"
proof -
  obtain r where r: "sys_setxattr p buf fs = (r, fs')" "ok \<longleftrightarrow> r = Inr ()"
    using assms by (auto simp: storeUpdatedDirEntryBufAsXAttr_def split: prod.splits)
  from setxattr_spec [OF r(1)] r(2) show ?thesis by (auto dest!: core_parts)
qed

lemma reserve_spec:
  assumes "reserveSpace fd len fs = (ok, fs')"
  shows "fsLinks fs' = fsLinks fs \<and> (\<exists>z. fsObjects fs' = (fsObjects fs)(fd := (fsObjects fs fd)
    \<lparr>fileContents := fileContents (fsObjects fs fd) @ replicate z 0\<rparr>))"
proof -
  obtain r fs1 where r: "sys_fallocate fd len fs = (r, fs1)" by fastforce
  obtain r2 fs2 where r2: "sys_fstat_size fd fs1 = (r2, fs2)" by fastforce
  have "fs' = fs1 \<or> (fs' = fs2 \<and> (\<exists>e. r = Inl e))"
    using assms r r2 by (auto simp: reserveSpace_def split: sum.splits if_splits)
  then have "core fs' = core fs1"
    using read_only_spec(3) [OF r2] by auto
  then have parts: "fsLinks fs' = fsLinks fs1" "fsObjects fs' = fsObjects fs1"
    using core_parts [of fs' "core fs1"] by simp_all
  from fallocate_spec [OF r] consider "core fs1 = core fs"
    | "core fs1 = setObject fd ((fsObjects fs fd)\<lparr>fileContents :=
       fileContents (fsObjects fs fd) @
       replicate (len - length (fileContents (fsObjects fs fd))) 0\<rparr>) (core fs)"
    by blast
  then show ?thesis
  proof cases
    case 1
    from core_parts [OF this] parts show ?thesis by (auto intro!: exI [of _ 0])
  next
    case 2
    from core_parts [OF this] parts show ?thesis by auto
  qed
qed

text \<open>
  The update in place: on success the record starts with the new bytes; on failure the file may
  have a part of them in front of its old bytes.
\<close>

lemma in_place_spec:
  assumes "storeBufInPlace p buf fs = (ok, fs')" and n: "fsLinks fs p = Some n"
  shows "fsLinks fs' = fsLinks fs \<and> (\<exists>c. fsObjects fs' = (fsObjects fs)(n := (fsObjects fs n)
      \<lparr>fileContents := c\<rparr>) \<and> (ok \<longrightarrow> (\<exists>old. c = buf @ old)))"
proof -
  have same: "(fsObjects fs)(n := (fsObjects fs n)\<lparr>fileContents := fileContents (fsObjects fs n)\<rparr>) =
      fsObjects fs" by simp
  obtain r1 fs1 where r1: "sys_open_create p fs = (r1, fs1)" by fastforce
  from open_create_spec [OF r1] n have o: "r1 = Inr n \<or> (\<exists>e. r1 = Inl e)" "core fs1 = core fs"
    by auto
  note f1 = core_parts [OF o(2)]
  obtain r2 fs2 where r2: "reserveSpace n (length buf) fs1 = (r2, fs2)" by fastforce
  from reserve_spec [OF r2] f1 obtain z where f2: "fsLinks fs2 = fsLinks fs"
    "fsObjects fs2 = (fsObjects fs)(n := (fsObjects fs n)
      \<lparr>fileContents := fileContents (fsObjects fs n) @ replicate z 0\<rparr>)" by auto
  obtain r3 fs3 where r3: "sys_write n buf fs2 = (r3, fs3)" by fastforce
  obtain r4 fs4 where r4: "sys_ftruncate n (length buf) fs3 = (r4, fs4)" by fastforce
  have w: "fsLinks fs3 = fsLinks fs \<and> (\<exists>c. fsObjects fs3 = (fsObjects fs)(n := (fsObjects fs n)
      \<lparr>fileContents := c\<rparr>) \<and> (r3 = Inr (length buf) \<longrightarrow> (\<exists>old. c = buf @ old)))"
    using write_spec [OF r3] f2 by (auto dest!: core_parts simp: overwrite_def)
  have t: "fsLinks fs4 = fsLinks fs \<and> (\<exists>c. fsObjects fs4 = (fsObjects fs)(n := (fsObjects fs n)
      \<lparr>fileContents := c\<rparr>) \<and> (\<exists>old. c = buf @ old))" if "r3 = Inr (length buf)"
    using ftruncate_spec [OF r4] w that by (auto dest!: core_parts)
  have "fs' = fs1 \<and> \<not> ok \<or> fs' = fs2 \<and> \<not> ok \<or> fs' = fs3 \<and> \<not> ok \<or>
      fs' = fs4 \<and> ok \<and> r3 = Inr (length buf)"
    using assms(1) o(1) r1 r2 r3 r4
    by (auto simp: storeBufInPlace_def split: sum.splits if_splits bool.splits)
  then show ?thesis
  proof (elim disjE)
    assume "fs' = fs1 \<and> \<not> ok"
    with f1 same show ?thesis by (metis core_simps(1,2))
  next
    assume "fs' = fs2 \<and> \<not> ok"
    with f2 show ?thesis by auto
  next
    assume "fs' = fs3 \<and> \<not> ok"
    with w show ?thesis by blast
  next
    assume "fs' = fs4 \<and> ok \<and> r3 = Inr (length buf)"
    with t show ?thesis by blast
  qed
qed

lemma entry_update_cases:
  assumes "storeUpdatedInode cfg dir e fs = Some (res, fs')" "fsLinks fs (IDPath dir (dentryID (deData e))) = Some n"
  obtains (not_inlined) "res = FhgfsOpsErr_INODENOTINLINED" "fs' = fs"
  | (xattr) buf ok where "storeUseExtendedAttribs cfg" "de_serializeDentry cfg e = Some buf"
      "res = (if ok then FhgfsOpsErr_SUCCESS else FhgfsOpsErr_SAVEERROR)"
      "fsLinks fs' = fsLinks fs"
      "fsObjects fs' = (if ok then (fsObjects fs)(n := (fsObjects fs n)\<lparr>metaXAttr := Some buf\<rparr>)
        else fsObjects fs)"
  | (contents) buf ok c where "\<not> storeUseExtendedAttribs cfg" "de_serializeDentry cfg e = Some buf"
      "res = (if ok then FhgfsOpsErr_SUCCESS else FhgfsOpsErr_SAVEERROR)"
      "fsLinks fs' = fsLinks fs"
      "fsObjects fs' = (fsObjects fs)(n := (fsObjects fs n)\<lparr>fileContents := c\<rparr>)"
      "ok \<longrightarrow> (\<exists>old. c = buf @ old)"
proof (cases "getIsInodeInlined e")
  case False
  with assms(1) not_inlined show ?thesis by (simp add: storeUpdatedInode_def)
next
  case True
  let ?p = "IDPath dir (dentryID (deData e))"
  obtain buf ok where buf: "de_serializeDentry cfg e = Some buf"
    and st: "storeUpdatedDirEntryBuf cfg ?p buf fs = (ok, fs')"
    and res: "res = (if ok then FhgfsOpsErr_SUCCESS else FhgfsOpsErr_SAVEERROR)"
    using assms(1) True by (auto simp: storeUpdatedInode_def storeUpdatedDirEntry_def
        split: option.splits prod.splits)
  show ?thesis
  proof (cases "storeUseExtendedAttribs cfg")
    case True
    then have "storeUpdatedDirEntryBufAsXAttr ?p buf fs = (ok, fs')"
      using st by (simp add: storeUpdatedDirEntryBuf_def)
    from xattr_update_spec [OF this] assms(2) have "fsLinks fs' = fsLinks fs"
      "fsObjects fs' = (if ok then (fsObjects fs)(n := (fsObjects fs n)\<lparr>metaXAttr := Some buf\<rparr>)
        else fsObjects fs)"
      by (auto split: if_splits dest!: core_parts)
    with xattr True buf res show ?thesis by blast
  next
    case False
    then have "storeBufInPlace ?p buf fs = (ok, fs')"
      using st by (simp add: storeUpdatedDirEntryBuf_def)
    from in_place_spec [OF this assms(2)] obtain c where "fsLinks fs' = fsLinks fs"
      "fsObjects fs' = (fsObjects fs)(n := (fsObjects fs n)\<lparr>fileContents := c\<rparr>)"
      "ok \<longrightarrow> (\<exists>old. c = buf @ old)" by blast
    with contents False buf res show ?thesis by blast
  qed
qed

lemma entry_update_parts:
  assumes "storeUpdatedInode cfg dir e fs = Some (res, fs')"
    and "fsLinks fs (IDPath dir (dentryID (deData e))) = Some n" "fsLinks fs q = Some n"
  shows "res = FhgfsOpsErr_SUCCESS \<and> entry_disk_ok (deData e) (deInode e) \<longrightarrow>
      (\<exists>d i. entry_restored (localNodeNumID cfg) (deData e) (deInode e) (deData e0, deInode e0) = (d, i) \<and>
        loadFromFile cfg q e0 (calm fs') = Some (Some (e0\<lparr>deData := d, deInode := i\<rparr>), calm fs'))"
    and "fsLinks fs' = fsLinks fs"
    and "fsLinks fs p \<noteq> Some n \<or> (res \<noteq> FhgfsOpsErr_SUCCESS \<and> storeUseExtendedAttribs cfg) \<longrightarrow>
      record_at cfg fs' p = record_at cfg fs p"
    and "\<not> storeUseExtendedAttribs cfg \<and> fsFaults fs = [NoFault, NoFault, ShortWrite k] \<and>
      de_serializeDentry cfg e = Some buf \<and> getIsInodeInlined e \<and> k < length buf \<and>
      record_at cfg fs q = Some old \<and> length buf \<le> length old \<longrightarrow>
      res = FhgfsOpsErr_SAVEERROR \<and> record_at cfg fs' q = Some (take k buf @ drop k old)"
proof -
  show "fsLinks fs' = fsLinks fs" using assms(1,2) by (cases rule: entry_update_cases) auto
  show "fsLinks fs p \<noteq> Some n \<or> (res \<noteq> FhgfsOpsErr_SUCCESS \<and> storeUseExtendedAttribs cfg) \<longrightarrow>
      record_at cfg fs' p = record_at cfg fs p"
    using assms(1,2) by (cases rule: entry_update_cases)
      (auto simp: record_at_def split: option.splits if_splits)
  show "res = FhgfsOpsErr_SUCCESS \<and> entry_disk_ok (deData e) (deInode e) \<longrightarrow>
      (\<exists>d i. entry_restored (localNodeNumID cfg) (deData e) (deInode e) (deData e0, deInode e0) = (d, i) \<and>
        loadFromFile cfg q e0 (calm fs') = Some (Some (e0\<lparr>deData := d, deInode := i\<rparr>), calm fs'))"
  proof (intro impI, elim conjE)
    assume res: "res = FhgfsOpsErr_SUCCESS" and ok: "entry_disk_ok (deData e) (deInode e)"
    have "\<exists>buf old. de_serializeDentry cfg e = Some buf \<and> record_at cfg fs' q = Some (buf @ old) \<and>
        (storeUseExtendedAttribs cfg \<longrightarrow> old = [])"
      using assms(1,2) res assms(3)
      by (cases rule: entry_update_cases) (auto simp: record_at_def storedIn_def split: if_splits)
    then obtain buf old where b: "de_serializeDentry cfg e = Some buf"
      "record_at cfg fs' q = Some (buf @ old)" "storeUseExtendedAttribs cfg \<longrightarrow> old = []" by blast
    from load_entry [OF ok b] show
      "\<exists>d i. entry_restored (localNodeNumID cfg) (deData e) (deInode e) (deData e0, deInode e0) = (d, i) \<and>
        loadFromFile cfg q e0 (calm fs') = Some (Some (e0\<lparr>deData := d, deInode := i\<rparr>), calm fs')"
      by (metis prod.collapse)
  qed
  show "\<not> storeUseExtendedAttribs cfg \<and> fsFaults fs = [NoFault, NoFault, ShortWrite k] \<and>
      de_serializeDentry cfg e = Some buf \<and> getIsInodeInlined e \<and> k < length buf \<and>
      record_at cfg fs q = Some old \<and> length buf \<le> length old \<longrightarrow>
      res = FhgfsOpsErr_SAVEERROR \<and> record_at cfg fs' q = Some (take k buf @ drop k old)"
  proof (intro impI, elim conjE)
    assume h: "\<not> storeUseExtendedAttribs cfg" "fsFaults fs = [NoFault, NoFault, ShortWrite k]"
      "de_serializeDentry cfg e = Some buf" "getIsInodeInlined e" "k < length buf"
      "record_at cfg fs q = Some old" "length buf \<le> length old"
    have old: "fileContents (fsObjects fs n) = old"
      using h(1,6) assms(3) by (simp add: record_at_def storedIn_def)
    show "res = FhgfsOpsErr_SAVEERROR \<and> record_at cfg fs' q = Some (take k buf @ drop k old)"
      using assms h old
      by (auto simp: storeUpdatedInode_def storeUpdatedDirEntry_def storeUpdatedDirEntryBuf_def
          storeBufInPlace_def reserveSpace_def sys_open_create_def sys_fallocate_def sys_write_def
          sys_def setObject_def overwrite_def record_at_def storedIn_def Let_def min_def)
  qed
qed


text \<open>
  C15: Updating the inode of an entry, whatever system calls fail. The update goes through the
  link of the entry ID; after a success every link of the record, so also the entry's name, gives
  the updated entry. Other records and all links stay as they are. A failed update changes nothing
  when the records are in extended attributes; in file contents it overwrites in place, and a
  write that stops early leaves the new bytes in front of the old ones.
\<close>

theorem entry_update:
  assumes "storeUpdatedInode cfg dir e fs = Some (res, fs')"
    and "fsLinks fs (IDPath dir (dentryID (deData e))) = Some n" "fsLinks fs q = Some n"
  shows "(res = FhgfsOpsErr_SUCCESS \<and> entry_disk_ok (deData e) (deInode e) \<longrightarrow>
      (\<exists>d i. entry_restored (localNodeNumID cfg) (deData e) (deInode e) (deData e0, deInode e0) = (d, i) \<and>
        loadFromFile cfg q e0 (calm fs') = Some (Some (e0\<lparr>deData := d, deInode := i\<rparr>), calm fs'))) \<and>
    (fsLinks fs' = fsLinks fs) \<and>
    (fsLinks fs p \<noteq> Some n \<or> (res \<noteq> FhgfsOpsErr_SUCCESS \<and> storeUseExtendedAttribs cfg) \<longrightarrow>
      record_at cfg fs' p = record_at cfg fs p) \<and>
    (\<not> storeUseExtendedAttribs cfg \<and> fsFaults fs = [NoFault, NoFault, ShortWrite k] \<and>
      de_serializeDentry cfg e = Some buf \<and> getIsInodeInlined e \<and> k < length buf \<and>
      record_at cfg fs q = Some old \<and> length buf \<le> length old \<longrightarrow>
      res = FhgfsOpsErr_SAVEERROR \<and> record_at cfg fs' q = Some (take k buf @ drop k old))"
  by (intro conjI entry_update_parts [OF assms])

section \<open>Examples\<close>

definition demo_cfg :: MetaConfig where
  "demo_cfg = \<lparr>storeUseExtendedAttribs = True, storeSelfHealEmptyFiles = True, localNodeNumID = 3,
     stackByte = (\<lambda>_. 0), freshStatData = disk_stat 0, freshUID = 0, freshNodeID = 0,
     freshInlined = False\<rparr>"

definition demo_de :: DirEntry where
  "demo_de = \<lparr>deData = disk_entry 2, deInode = disk_inode 9, deName = ''f''\<rparr>"

text \<open>An empty disk, and one with a file under a name and its ID.\<close>

definition empty_fs :: MetaFs where
  "empty_fs = \<lparr>fsLinks = (\<lambda>_. None), fsObjects = (\<lambda>_. newObject), fsNext = 0, fsFaults = []\<rparr>"

definition linked_fs :: MetaFs where
  "linked_fs = empty_fs\<lparr>fsLinks := (\<lambda>_. None)(IDPath ''1-2-3'' ''4-5-6'' := Some 0,
     NamePath ''1-2-3'' ''f'' := Some 0), fsNext := 1\<rparr>"

lemma demo_buf: "\<exists>buf. de_serializeDentry demo_cfg demo_de = Some buf"
proof -
  have pad: "unusedBytes demo_cfg = [0, 0, 0, 0]" by (simp add: unusedBytes_def demo_cfg_def)
  obtain buf where "serializeDentry (unusedBytes demo_cfg) (disk_entry 2) (disk_inode 9) = Some buf"
    "length buf \<le> DIRENTRY_SERBUF_SIZE"
    using demo_written [of _ 9] unfolding serializeDentry_def pad by blast
  then show ?thesis by (simp add: de_serializeDentry_def demo_de_def)
qed

lemma demo_cfg_simps [simp]: "storeUseExtendedAttribs demo_cfg" "localNodeNumID demo_cfg = 3"
  by (simp_all add: demo_cfg_def)

lemma demo_entry_file [simp]:
  "entryType (deData demo_de) = 2" "dentryID (deData demo_de) = ''4-5-6''" "deName demo_de = ''f''"
  by (simp_all add: demo_de_def disk_entry_def)

theorem entry_creation_all_or_nothing_witness:
  "\<exists>fs'. storeInitialDirEntry demo_cfg ''1-2-3'' demo_de empty_fs = Some (FhgfsOpsErr_SUCCESS, fs') \<and>
     record_at demo_cfg fs' (NamePath ''1-2-3'' ''f'') = de_serializeDentry demo_cfg demo_de \<and>
     fsLinks fs' (IDPath ''1-2-3'' ''4-5-6'') = fsLinks fs' (NamePath ''1-2-3'' ''f'')"
proof -
  obtain buf where buf: "de_serializeDentry demo_cfg demo_de = Some buf" using demo_buf by blast
  have wf: "fs_wf empty_fs" by (simp add: fs_wf_def empty_fs_def)
  have "\<exists>fs'. storeInitialDirEntry demo_cfg ''1-2-3'' demo_de empty_fs = Some (FhgfsOpsErr_SUCCESS, fs')"
    by (simp add: storeInitialDirEntry_def storeInitialDirEntryID_def storeInitialDirEntryName_def
        sys_create_excl_def sys_link_def sys_no_faults empty_fs_def addObject_def buf
        writeNewRecord_def sys_fsetxattr_def setObject_def DirEntryType_ISDIR_def
        DirEntryType_DIRECTORY_def Let_def)
  then obtain fs' where fs': "storeInitialDirEntry demo_cfg ''1-2-3'' demo_de empty_fs =
      Some (FhgfsOpsErr_SUCCESS, fs')" by blast
  from entry_creation_all_or_nothing [OF wf fs'] fs' show ?thesis
    by (simp add: DirEntryType_ISDIR_def DirEntryType_DIRECTORY_def)
qed

theorem entry_update_witness:
  "\<exists>fs' d i. storeUpdatedInode demo_cfg ''1-2-3'' demo_de linked_fs = Some (FhgfsOpsErr_SUCCESS, fs') \<and>
     entry_restored 3 (disk_entry 2) (disk_inode 9) (disk_entry 0, disk_inode 1) = (d, i) \<and>
     loadFromFile demo_cfg (NamePath ''1-2-3'' ''f'')
       \<lparr>deData = disk_entry 0, deInode = disk_inode 1, deName = ''f''\<rparr> (calm fs') =
     Some (Some \<lparr>deData = d, deInode = i, deName = ''f''\<rparr>, calm fs')"
proof -
  obtain buf where buf: "de_serializeDentry demo_cfg demo_de = Some buf" using demo_buf by blast
  have inl: "getIsInodeInlined demo_de"
    by (simp add: getIsInodeInlined_def demo_de_def disk_entry_def DENTRY_FEATURE_INODE_INLINE_def
        DENTRY_FEATURE_IS_FILEINODE_def)
  have "\<exists>fs'. storeUpdatedInode demo_cfg ''1-2-3'' demo_de linked_fs = Some (FhgfsOpsErr_SUCCESS, fs')"
    using inl by (simp add: storeUpdatedInode_def storeUpdatedDirEntry_def buf
        storeUpdatedDirEntryBuf_def storeUpdatedDirEntryBufAsXAttr_def sys_setxattr_def sys_no_faults
        linked_fs_def empty_fs_def)
  then obtain fs' where fs': "storeUpdatedInode demo_cfg ''1-2-3'' demo_de linked_fs =
      Some (FhgfsOpsErr_SUCCESS, fs')" by blast
  have "entry_disk_ok (deData demo_de) (deInode demo_de)" by (simp add: demo_de_def disk_entry_ok)
  with entry_update [OF fs', of 0 "NamePath ''1-2-3'' ''f''"
      "\<lparr>deData = disk_entry 0, deInode = disk_inode 1, deName = ''f''\<rparr>"] fs'
  show ?thesis by (simp add: linked_fs_def demo_de_def disk_entry_def)
qed

end
