(* ===== verification/FileSize.thy ===== *)
theory FileSize
  imports StatData
begin

text \<open>
  The size of a file and the sizes of its chunk files: \<open>FileInode::initFileInfoVec\<close>
  (fhgfs_meta/source/storage/FileInode.cpp) splits the stored file size over the targets,
  \<open>StatData::updateDynamicFileAttribs\<close> puts the sizes of the chunk files together again.
  \<open>chunk_bytes\<close> is the specification of both: the number of bytes of a file that the round-robin
  layout of \<open>Striping\<close> places on a target.
\<close>

section \<open>Splitting the file size\<close>

text \<open>The loop over the targets; \<open>remaining\<close> is what is left of the last stripe set.\<close>

fun initTargets ::
    "StatData \<Rightarrow> u32 \<Rightarrow> u32 \<Rightarrow> i64 \<Rightarrow> nat \<Rightarrow> nat \<Rightarrow> i64 \<Rightarrow> ChunkFileInfo list option" where
  "initTargets st chunk chunkLog2 fullLength 0 target remaining = Some []"
| "initTargets st chunk chunkLog2 fullLength (Suc k) target remaining =
     (let targetFileLength =
            (if sint remaining > 0
             then fullLength + (if sint remaining < uint chunk then remaining else ucast chunk)
             else fullLength);
          usedBlocks =
            (if getIsSparseFile st then getTargetBlocks target (chunkBlocksVec st)
             else Some (signed_drop_bit STATDATA_SIZETOBLOCKSBIT_SHIFT targetFileLength))
      in case usedBlocks of
           None \<Rightarrow> None
         | Some blocks \<Rightarrow>
             map_option
               (Cons (newChunkFileInfo chunk chunkLog2
                 \<lparr>storageVersion = 0, dynFileSize = targetFileLength, dynNumBlocks = blocks,
                  dynModificationTimeSecs = modificationTimeSecs (settable st),
                  dynLastAccessTimeSecs = lastAccessTimeSecs (settable st)\<rparr>))
               (initTargets st chunk chunkLog2 fullLength k (Suc target) (remaining - ucast chunk)))"

definition initFileInfoVec :: "StripePattern \<Rightarrow> StatData \<Rightarrow> ChunkFileInfo list option" where
  "initFileInfoVec pattern st =
     (let n = length (stripeTargetIDs pattern);
          numTargets = (word_of_nat n :: u32);
          chunk = chunkSize pattern;
          chunkLog2 = log2Int32 chunk;
          setSize = chunk * numTargets;
          fileSize = statFileSize st;
          lastStripeSetSize =
            (if isPowerOfTwo numTargets then fileSize AND ucast (setSize - 1)
             else rem64 fileSize setSize);
          stripeSetStart = fileSize - lastStripeSetSize;
          fullLengthPerTarget =
            (if isPowerOfTwo numTargets
             then signed_drop_bit (unat (log2Int32 numTargets)) stripeSetStart
             else stripeSetStart div word_of_nat n)
      in initTargets st chunk chunkLog2 fullLengthPerTarget n 0 lastStripeSetSize)"

section \<open>The bytes of a file on a target\<close>

definition chunk_bytes :: "nat \<Rightarrow> nat \<Rightarrow> nat \<Rightarrow> nat \<Rightarrow> nat" where
  "chunk_bytes n c s t = s div (n * c) * c + min c (s mod (n * c) - t * c)"

lemma chunk_bytes_0 [simp]: "chunk_bytes n c 0 t = 0"
  by (simp add: chunk_bytes_def)

lemma chunk_bytes_Suc:
  assumes c: "0 < c" and t: "t < n"
  shows "chunk_bytes n c (Suc s) t = chunk_bytes n c s t + (if stripe_index n c s = t then 1 else 0)"
proof -
  let ?S = "n * c" and ?r = "s mod (n * c)"
  have S: "0 < ?S" using c t by simp
  have tc: "t * c + c \<le> ?S" using mult_le_mono1 [of "Suc t" n c] t by simp
  have r: "?r < ?S" using S by simp
  have idx: "stripe_index n c s = t \<longleftrightarrow> t * c \<le> ?r \<and> ?r < t * c + c"
    unfolding stripe_index_def using c
    by (metis add.commute div_nat_eqI div_times_less_eq_dividend dividend_less_div_times
        mult.commute mult_Suc)
  show ?thesis
  proof (cases "Suc ?r = ?S")
    case True
    then have "Suc s mod ?S = 0" "Suc s div ?S = Suc (s div ?S)"
      by (simp_all add: mod_Suc div_Suc)
    moreover have "t * c \<le> ?r \<longrightarrow> True" by simp
    ultimately show ?thesis
      using tc True unfolding chunk_bytes_def idx by (auto simp: min_def)
  next
    case False
    then have "Suc s mod ?S = Suc ?r" "Suc s div ?S = s div ?S"
      using r by (simp_all add: mod_Suc div_Suc)
    then show ?thesis unfolding chunk_bytes_def idx by (auto simp: min_def)
  qed
qed

lemma chunk_bytes_card:
  assumes "0 < c" "t < n"
  shows "chunk_bytes n c s t = card {p. p < s \<and> stripe_index n c p = t}"
proof (induction s)
  case (Suc s)
  have "{p. p < Suc s \<and> stripe_index n c p = t} =
      (if stripe_index n c s = t then insert s {p. p < s \<and> stripe_index n c p = t}
       else {p. p < s \<and> stripe_index n c p = t})"
    by (auto simp: less_Suc_eq)
  then show ?case using Suc chunk_bytes_Suc [OF assms, of s] by simp
qed simp

lemma chunk_bytes_sum:
  assumes "0 < c" "0 < n"
  shows "(\<Sum>t < n. chunk_bytes n c s t) = s"
proof (induction s)
  case (Suc s)
  have "(\<Sum>t < n. chunk_bytes n c (Suc s) t) =
      (\<Sum>t < n. chunk_bytes n c s t) + (\<Sum>t < n. if stripe_index n c s = t then 1 else 0)"
    by (simp add: chunk_bytes_Suc [OF assms(1)] sum.distrib)
  then show ?case using Suc stripe_index_less [OF assms, of s] by simp
qed simp

lemma chunk_bytes_le:
  assumes "0 < c" "t < n"
  shows "chunk_bytes n c s t \<le> s"
proof -
  have "card {p. p < s \<and> stripe_index n c p = t} \<le> card {p. p < s}"
    by (rule card_mono) auto
  then show ?thesis by (simp add: chunk_bytes_card [OF assms])
qed

section \<open>The code computes these sizes\<close>

definition blocks_wf :: "ChunksBlocksVec \<Rightarrow> bool" where
  "blocks_wf v \<longleftrightarrow> unat (cbNumStripeTargets v) \<le> length (cbBlocks v)"

lemma getTargetBlocks_wf: "blocks_wf v \<Longrightarrow> \<exists>b. getTargetBlocks t v = Some b"
proof -
  assume wf: "blocks_wf v"
  show ?thesis
  proof (cases "cbNumStripeTargets v = 0 \<or> t > unat (cbNumStripeTargets v - 1)")
    case False
    then have "1 \<le> cbNumStripeTargets v" by (simp add: word_le_nat_alt Suc_le_eq unat_gt_0)
    then have "unat (cbNumStripeTargets v - 1) = unat (cbNumStripeTargets v) - 1"
      by (simp add: unat_sub)
    moreover have "0 < unat (cbNumStripeTargets v)" using False by (simp add: unat_gt_0)
    ultimately have "t < length (cbBlocks v)"
      using False wf unfolding blocks_wf_def by linarith
    with False show ?thesis by (simp add: getTargetBlocks_def nth_opt_def)
  qed (auto simp: getTargetBlocks_def)
qed

lemma sint_small:
  "- 4294967296 \<le> x \<Longrightarrow> x \<le> 4294967296 \<Longrightarrow> sint (word_of_int x :: u64) = x"
  by (simp add: signed_of_int signed_take_bit_int_eq_self)

lemma word_of_int_minus: "word_of_int x - (ucast c :: u64) = word_of_int (x - uint c)" for c :: u32
  by simp

text \<open>What \<open>initFileInfoVec\<close> establishes for the target \<open>t\<close>.\<close>

definition chunk_info_for :: "u32 \<Rightarrow> u32 \<Rightarrow> nat \<Rightarrow> ChunkFileInfo \<Rightarrow> bool" where
  "chunk_info_for chunk chunkLog2 len info \<longleftrightarrow>
     unat (dynFileSize (dynAttribs info)) = len \<and> infoChunkSize info = chunk \<and>
     chunkSizeLog2 info = chunkLog2 \<and> chunk_info_ok info"

lemma initTargets_result:
  fixes R F :: nat and c :: u32
  assumes wf: "blocks_wf (chunkBlocksVec st)"
    and full: "unat fullLength = F" "F + 4294967296 < 9223372036854775808"
    and R: "R < 4294967296" and bound: "(t + k) * unat c \<le> 4294967296"
  shows "\<exists>infos. initTargets st c chunkLog2 fullLength k t (word_of_int (int R - int (t * unat c))) = Some infos \<and>
    length infos = k \<and>
    (\<forall>i < k. chunk_info_for c chunkLog2 (F + min (unat c) (R - (t + i) * unat c)) (infos ! i) \<and>
       storageVersion (dynAttribs (infos ! i)) = 0)"
  using bound
proof (induction k arbitrary: t)
  case (Suc k)
  let ?x = "int R - int (t * unat c)" and ?rem = "word_of_int (int R - int (t * unat c)) :: u64"
  let ?len = "if sint ?rem > 0
    then fullLength + (if sint ?rem < uint c then ?rem else ucast c) else fullLength"
  have tc: "t * unat c \<le> 4294967296"
    using Suc.prems by (simp add: algebra_simps)
  then have s: "sint ?rem = ?x" using R by (intro sint_small) linarith+
  have len: "unat ?len = F + min (unat c) (R - t * unat c)"
  proof (cases "t * unat c < R")
    case False
    then have "\<not> sint ?rem > 0" unfolding s by linarith
    with False full(1) show ?thesis by simp
  next
    case True
    define y where "y = R - t * unat c"
    have y: "int R - int (t * unat c) = int y" "0 < y" "y \<le> R"
      using True by (simp_all add: y_def of_nat_diff)
    have c32: "unat c < 4294967296" using unsigned_less [of c, where ?'a = nat] by simp
    have rem: "unat ?rem = y" unfolding y(1) using y(3) R by (simp add: unat_of_nat)
    have m: "unat (fullLength + w) = F + unat w" if "unat w < 4294967296" for w
      using that full by (simp add: unat_word_ariths)
    have uc: "uint c = int (unat c)" by simp
    have "?len = fullLength + (if y < unat c then ?rem else ucast c)"
      unfolding s unfolding y(1) uc of_nat_less_iff of_nat_0_less_iff using y(2) by (simp only: if_True)
    moreover have "unat (fullLength + ?rem) = F + y" using m [of ?rem] rem y(3) R by simp
    moreover have "unat (fullLength + ucast c) = F + unat c"
      using m [of "ucast c"] c32 by (simp add: ucast_up)
    ultimately show ?thesis by (simp add: min_def flip: y_def)
  qed
  have "\<exists>b. (if getIsSparseFile st then getTargetBlocks t (chunkBlocksVec st) else Some z) = Some b" for z
    using getTargetBlocks_wf [OF wf, of t] by simp
  then obtain b where b: "(if getIsSparseFile st then getTargetBlocks t (chunkBlocksVec st)
      else Some (signed_drop_bit STATDATA_SIZETOBLOCKSBIT_SHIFT ?len)) = Some b"
    by blast
  have nxt: "?rem - ucast c = word_of_int (int R - int (Suc t * unat c))"
    unfolding word_of_int_minus by (simp add: algebra_simps)
  from Suc.IH [of "Suc t"] Suc.prems obtain infos where infos:
    "initTargets st c chunkLog2 fullLength k (Suc t) (?rem - ucast c) = Some infos"
    "length infos = k"
    "\<forall>i < k. chunk_info_for c chunkLog2 (F + min (unat c) (R - (Suc t + i) * unat c)) (infos ! i) \<and>
       storageVersion (dynAttribs (infos ! i)) = 0"
    unfolding nxt by auto
  let ?i = "newChunkFileInfo c chunkLog2
    \<lparr>storageVersion = 0, dynFileSize = ?len, dynNumBlocks = b,
     dynModificationTimeSecs = modificationTimeSecs (settable st),
     dynLastAccessTimeSecs = lastAccessTimeSecs (settable st)\<rparr>"
  have "initTargets st c chunkLog2 fullLength (Suc k) t ?rem = Some (?i # infos)"
    unfolding initTargets.simps Let_def b infos(1) by simp
  moreover have "chunk_info_for c chunkLog2 (F + min (unat c) (R - (t + 0) * unat c)) ?i"
    using len by (simp add: chunk_info_for_def newChunkFileInfo_def chunk_info_ok_def)
  ultimately show ?case using infos(2,3)
    by (auto simp: nth_Cons newChunkFileInfo_def split: nat.split)
qed simp

definition chunk_infos_for :: "StripePattern \<Rightarrow> nat \<Rightarrow> ChunkFileInfo list \<Rightarrow> bool" where
  "chunk_infos_for p s infos \<longleftrightarrow> length infos = numTargets p \<and>
     (\<forall>t < numTargets p. chunk_info_for (chunkSize p) (log2Int32 (chunkSize p))
        (chunk_bytes (numTargets p) (unat (chunkSize p)) s t) (infos ! t))"

lemma init_result:
  assumes p: "striped k p" and wf: "blocks_wf (chunkBlocksVec st)"
    and size: "unat (statFileSize st) < 4611686018427387904"
  shows "\<exists>infos. initFileInfoVec p st = Some infos \<and>
    chunk_infos_for p (unat (statFileSize st)) infos \<and>
    (\<forall>c \<in> set infos. storageVersion (dynAttribs c) = 0)"
proof -
  note d = stripedD [OF p]
  define n c s S where "n = numTargets p" and "c = unat (chunkSize p)"
    and "s = unat (statFileSize st)" and "S = n * c"
  let ?n = "word_of_nat n :: u32" and ?set = "chunkSize p * word_of_nat n"
  have n: "0 < n" "0 < c" using d by (simp_all add: n_def c_def)
  have S: "S < 4294967296" using p by (simp add: striped_def S_def n_def c_def)
  have n32: "n < 4294967296"
    using S mult_le_mono2 [of 1 c n] n(2) unfolding S_def by linarith
  have un: "unat ?n = n" using n32 by (simp add: unat_of_nat)
  have uS: "unat ?set = S" using S by (simp add: unat_word_ariths un S_def mult.commute flip: c_def)
  let ?last = "if isPowerOfTwo ?n then statFileSize st AND ucast (?set - 1)
    else rem64 (statFileSize st) ?set"
  have last: "unat ?last = s mod S"
  proof (cases "isPowerOfTwo ?n")
    case True
    moreover have "?n \<noteq> 0" using un n by auto
    ultimately obtain j where j: "pow2 j ?n" using isPowerOfTwo_pow2 by blast
    have "unat ?set = 2 ^ (k + j)"
      using uS j d(1) by (simp add: S_def pow2_def un power_add mult.commute flip: c_def)
    moreover from this uS S have "(2 :: nat) ^ (k + j) < 2 ^ 32" by simp
    then have "k + j < 32" by (rule power_less_imp_less_exp [rotated]) simp
    ultimately have "pow2 (k + j) ?set" by (simp add: pow2_def)
    from and_pow2 [OF this, of "statFileSize st"] True uS show ?thesis by (simp add: s_def)
  next
    case False
    have "unat (rem64 (statFileSize st) ?set) = unat (statFileSize st) mod unat ?set"
      using size n by (intro rem64_nonneg) (simp_all add: uS S_def)
    with False show ?thesis by (simp add: uS s_def)
  qed
  have start: "unat (statFileSize st - ?last) = s div S * S"
  proof -
    have "unat (statFileSize st - ?last) = s - s mod S"
      using last by (simp add: unat_sub word_le_nat_alt flip: s_def)
    then show ?thesis by (simp add: minus_mod_eq_div_mult)
  qed
  let ?full = "if isPowerOfTwo ?n
    then signed_drop_bit (unat (log2Int32 ?n)) (statFileSize st - ?last)
    else (statFileSize st - ?last) div word_of_nat n"
  have full: "unat ?full = s div S * c"
  proof -
    have q: "s div S * S div n = s div S * c" using n by (simp add: S_def)
    show ?thesis
    proof (cases "isPowerOfTwo ?n")
      case True
      moreover have "?n \<noteq> 0" using un n by auto
      ultimately obtain j where j: "pow2 j ?n" using isPowerOfTwo_pow2 by blast
      have "unat (statFileSize st - ?last) < 2 ^ 63"
        unfolding start
        by (rule le_less_trans [OF div_times_less_eq_dividend]) (use size in \<open>simp add: s_def\<close>)
      from shift_nonneg [OF this, of j] log2_pow2 [OF j] True show ?thesis
        unfolding start using j q by (simp add: pow2_def un)
    next
      case False
      have "unat (word_of_nat n :: u64) = n" using n32 by (simp add: unat_of_nat)
      then have "unat ((statFileSize st - ?last) div word_of_nat n) = s div S * S div n"
        unfolding unat_div start by (simp only:)
      with False q show ?thesis by (simp only: if_False)
    qed
  qed
  have R: "s mod S < S" using n by (simp add: S_def)
  have F: "s div S * c \<le> s"
  proof -
    have "s div S * c * 1 \<le> s div S * c * n" using n by (intro mult_le_mono) simp_all
    then have "s div S * c \<le> s div S * S" by (simp add: S_def algebra_simps)
    then show ?thesis using div_times_less_eq_dividend [of s S] by linarith
  qed
  have lw: "word_of_int (int (s mod S) - int (0 * unat (chunkSize p))) = ?last"
    unfolding last [symmetric] by simp
  obtain infos where infos:
    "initTargets st (chunkSize p) (log2Int32 (chunkSize p)) ?full n 0 ?last = Some infos"
    "length infos = n"
    "\<forall>i < n. chunk_info_for (chunkSize p) (log2Int32 (chunkSize p))
        (s div S * c + min c (s mod S - (0 + i) * c)) (infos ! i) \<and>
       storageVersion (dynAttribs (infos ! i)) = 0"
    using initTargets_result [OF wf full, of "s mod S" 0 n "chunkSize p"
        "log2Int32 (chunkSize p)", folded c_def, unfolded lw [folded c_def]]
      R F S size by (auto simp: s_def S_def)
  have "initFileInfoVec p st = Some infos"
    unfolding initFileInfoVec_def Let_def using infos(1) by (simp only: n_def)
  moreover have "chunk_infos_for p s infos"
    using infos(2,3) by (simp add: chunk_infos_for_def chunk_bytes_def n_def c_def S_def)
  moreover have "\<forall>c \<in> set infos. storageVersion (dynAttribs c) = 0"
    using infos(2,3) by (auto simp: in_set_conv_nth)
  ultimately show ?thesis by (simp add: s_def)
qed

section \<open>Putting the file size together\<close>

text \<open>The position in the file of the byte \<open>off\<close> of the chunk file on the target \<open>t\<close>.\<close>

definition file_pos :: "nat \<Rightarrow> nat \<Rightarrow> nat \<Rightarrow> nat \<Rightarrow> nat" where
  "file_pos n c t off = off div c * (n * c) + t * c + off mod c"

text \<open>\<open>s\<close> is the end of the last byte that is stored in one of the chunk files of lengths \<open>L\<close>.\<close>

definition file_end :: "nat \<Rightarrow> nat \<Rightarrow> (nat \<Rightarrow> nat) \<Rightarrow> nat \<Rightarrow> bool" where
  "file_end n c L s \<longleftrightarrow>
     (\<forall>t < n. \<forall>off < L t. file_pos n c t off < s) \<and>
     (s = 0 \<or> (\<exists>t < n. \<exists>off < L t. s = Suc (file_pos n c t off)))"

lemma file_end_unique: "file_end n c L s \<Longrightarrow> file_end n c L s' \<Longrightarrow> s = s'"
  unfolding file_end_def by (metis Suc_leI le_antisym le_zero_eq not_less_zero)

lemma file_end_cong:
  assumes "\<And>t. t < n \<Longrightarrow> L t = L' t"
  shows "file_end n c L s \<longleftrightarrow> file_end n c L' s"
  unfolding file_end_def using assms by (metis (no_types))

lemma file_pos_below:
  assumes c: "0 < c" and t: "t < n" and less: "off div c < a \<or> off div c = a \<and> t < m" and m: "m < n"
  shows "file_pos n c t off < a * (n * c) + m * c"
proof -
  have off: "off mod c < c" using c by simp
  have le: "t * c + c \<le> m * c" if "t < m" for m using mult_le_mono1 [of "Suc t" m c] that by simp
  show ?thesis
  proof (cases "off div c < a")
    case True
    then have "off div c * (n * c) + n * c \<le> a * (n * c)"
      using mult_le_mono1 [of "Suc (off div c)" a "n * c"] by simp
    then show ?thesis using off le [OF t] unfolding file_pos_def by linarith
  next
    case False
    with less have "off div c = a" "t < m" by auto
    then show ?thesis using off le [of m] unfolding file_pos_def by simp
  qed
qed

lemma chunk_bytes_file_pos:
  assumes c: "0 < c" and t: "t < n"
  shows "off < chunk_bytes n c s t \<longleftrightarrow> file_pos n c t off < s"
proof -
  define a b q r where "a = off div c" and "b = off mod c" and "q = s div (n * c)"
    and "r = s mod (n * c)"
  have off: "off = a * c + b" by (simp add: a_def b_def)
  have s: "s = q * (n * c) + r" unfolding q_def r_def by (rule div_mult_mod_eq [symmetric])
  have b: "b < c" using c by (simp add: b_def)
  have r: "r < n * c" using c t by (simp add: r_def)
  have tc: "t * c + c \<le> n * c" using mult_le_mono1 [of "Suc t" n c] t by simp
  have fp: "file_pos n c t off = a * (n * c) + t * c + b" by (simp add: file_pos_def a_def b_def)
  have cb: "chunk_bytes n c s t = q * c + min c (r - t * c)"
    by (simp add: chunk_bytes_def q_def r_def)
  consider "a < q" | "a = q" | "q < a" by linarith
  then show ?thesis
  proof cases
    case 1
    then have "a * c + c \<le> q * c" "a * (n * c) + n * c \<le> q * (n * c)"
      using mult_le_mono1 [of "Suc a" q c] mult_le_mono1 [of "Suc a" q "n * c"] by simp_all
    then show ?thesis unfolding fp cb using off s b tc by linarith
  next
    case 2
    then show ?thesis unfolding fp cb using off s b by auto
  next
    case 3
    then have "q * c + c \<le> a * c" "q * (n * c) + n * c \<le> a * (n * c)"
      using mult_le_mono1 [of "Suc q" a c] mult_le_mono1 [of "Suc q" a "n * c"] by simp_all
    moreover have "min c (r - t * c) \<le> c" by simp
    ultimately show ?thesis unfolding fp cb using off s r by linarith
  qed
qed

lemma chunk_bytes_file_end:
  assumes c: "0 < c" and n: "0 < n"
  shows "file_end n c (chunk_bytes n c s) s"
proof -
  have "\<exists>t < n. \<exists>off < chunk_bytes n c s t. s = Suc (file_pos n c t off)" if "s \<noteq> 0"
  proof -
    define t off where "t = stripe_index n c (s - 1)"
      and "off = (s - 1) div (n * c) * c + (s - 1) mod (n * c) mod c"
    have t: "t < n" using stripe_index_less [OF c n] by (simp add: t_def)
    have "off div c = (s - 1) div (n * c)" "off mod c = (s - 1) mod (n * c) mod c"
      using c by (simp_all add: off_def)
    then have "file_pos n c t off = s - 1"
      by (simp add: file_pos_def t_def stripe_index_def add.assoc div_mult_mod_eq)
    then have "s = Suc (file_pos n c t off)" using that by simp
    moreover from this have "off < chunk_bytes n c s t" using chunk_bytes_file_pos [OF c t] by simp
    ultimately show ?thesis using t by blast
  qed
  then show ?thesis unfolding file_end_def using chunk_bytes_file_pos [OF c] by blast
qed

section \<open>The scan over the chunk files\<close>

lemma resize0_length [simp]: "length (resize0 n xs) = n"
  by (simp add: resize0_def)

lemma setNumBlocks_wf:
  assumes wf: "blocks_wf v" and n: "0 < n" "n < 4294967296"
  shows "\<exists>v'. setNumBlocks t b n v = Some v' \<and> blocks_wf v'"
proof -
  define v' where "v' = (if cbNumStripeTargets v = 0
    then \<lparr>cbNumStripeTargets = word_of_nat n, cbBlocks = resize0 n (cbBlocks v)\<rparr> else v)"
  have un: "unat (word_of_nat n :: u32) = n" using n by (simp add: unat_of_nat)
  have wf': "blocks_wf v'" using wf by (simp add: v'_def blocks_wf_def un)
  have "(word_of_nat n :: u32) \<noteq> 0"
  proof
    assume "(word_of_nat n :: u32) = 0"
    with un n(1) show False by simp
  qed
  then have nz: "cbNumStripeTargets v' \<noteq> 0" by (simp add: v'_def)
  then have "1 \<le> cbNumStripeTargets v'" by (simp add: word_le_nat_alt Suc_le_eq unat_gt_0)
  then have "unat (cbNumStripeTargets v' - 1) = unat (cbNumStripeTargets v') - 1"
    by (simp add: unat_sub)
  moreover have "0 < unat (cbNumStripeTargets v')" using nz by (simp add: unat_gt_0)
  ultimately have "t \<le> unat (cbNumStripeTargets v' - 1) \<Longrightarrow> t < length (cbBlocks v')"
    using wf' unfolding blocks_wf_def by linarith
  then show ?thesis
    unfolding setNumBlocks_def Let_def v'_def [symmetric] using wf'
    by (auto simp: not_less blocks_wf_def)
qed

definition is_max :: "i64 \<Rightarrow> i64 set \<Rightarrow> bool" where
  "is_max x A \<longleftrightarrow> x \<in> A \<and> (\<forall>y \<in> A. sint y \<le> sint x)"

lemma is_max_smax: "is_max z (insert (smax x y) A) \<Longrightarrow> is_max z (insert x (insert y A))"
  unfolding is_max_def smax_def by (force split: if_splits)

text \<open>The last of the indexes from \<open>t\<close> on with the maximal value, if it reaches the old maximum.\<close>

definition last_max :: "nat \<Rightarrow> i64 list \<Rightarrow> nat \<Rightarrow> i64 \<Rightarrow> nat \<Rightarrow> i64 \<Rightarrow> bool" where
  "last_max t xs m0 x0 m x \<longleftrightarrow>
     sint x0 \<le> sint x \<and> (\<forall>y \<in> set xs. sint y \<le> sint x) \<and>
     (if \<forall>y \<in> set xs. sint y < sint x0 then m = m0 \<and> x = x0
      else \<exists>i < length xs. m = t + i \<and> x = xs ! i \<and> (\<forall>k < length xs. i < k \<longrightarrow> sint (xs ! k) < sint x))"

lemma last_max_Cons:
  assumes "last_max (Suc t) xs (if sint y \<ge> sint x0 then t else m0) (if sint y \<ge> sint x0 then y else x0) m x"
  shows "last_max t (y # xs) m0 x0 m x"
proof (cases "\<forall>z \<in> set xs. sint z < sint (if sint y \<ge> sint x0 then y else x0)")
  case True
  then show ?thesis using assms unfolding last_max_def
    by (cases "sint y \<ge> sint x0") (force simp: nth_Cons' intro!: exI [of _ 0])+
next
  case False
  then obtain i where i: "i < length xs" "m = Suc t + i" "x = xs ! i"
    "\<forall>k < length xs. i < k \<longrightarrow> sint (xs ! k) < sint x"
    using assms unfolding last_max_def by (auto split: if_splits)
  have le: "sint (if sint y \<ge> sint x0 then y else x0) \<le> sint x" "\<forall>z \<in> set xs. sint z \<le> sint x"
    using assms unfolding last_max_def by auto
  have "\<not> (\<forall>z \<in> set (y # xs). sint z < sint x0)"
    using False by (force split: if_splits)
  moreover have "sint x0 \<le> sint x" "sint y \<le> sint x" using le(1) by (auto split: if_splits)
  moreover have "\<exists>i < length (y # xs). m = t + i \<and> x = (y # xs) ! i \<and>
      (\<forall>k < length (y # xs). i < k \<longrightarrow> sint ((y # xs) ! k) < sint x)"
    using i by (intro exI [of _ "Suc i"]) (auto simp: nth_Cons' less_Suc_eq_0_disj)
  ultimately show ?thesis using le(2) unfolding last_max_def by auto
qed

lemma scanChunks_result:
  assumes "blocks_wf (scanBlocks s)" "0 < n" "n < 4294967296"
  shows "\<exists>s'. scanChunks n t cs s = Some s' \<and>
    last_max t (map getNumChunks cs) (lastMaxNumChunksIndex s) (maxNumChunks s)
      (lastMaxNumChunksIndex s') (maxNumChunks s') \<and>
    is_max (newModificationTimeSecs s') (insert (newModificationTimeSecs s)
      ((\<lambda>c. dynModificationTimeSecs (dynAttribs c)) ` set cs)) \<and>
    is_max (newLastAccessTimeSecs s') (insert (newLastAccessTimeSecs s)
      ((\<lambda>c. dynLastAccessTimeSecs (dynAttribs c)) ` set cs))"
  using assms(1)
proof (induction cs arbitrary: t s)
  case Nil
  then show ?case by (simp add: last_max_def is_max_def)
next
  case (Cons c cs)
  let ?d = "dynAttribs c"
  obtain v where v: "setNumBlocks t (dynNumBlocks ?d) n (scanBlocks s) = Some v" "blocks_wf v"
    using setNumBlocks_wf [OF Cons.prems assms(2,3)] by blast
  let ?up = "sint (getNumChunks c) \<ge> sint (maxNumChunks s)"
  let ?s = "\<lparr>lastMaxNumChunksIndex = (if ?up then t else lastMaxNumChunksIndex s),
    maxNumChunks = (if ?up then getNumChunks c else maxNumChunks s),
    newModificationTimeSecs = smax (newModificationTimeSecs s) (dynModificationTimeSecs ?d),
    newLastAccessTimeSecs = smax (newLastAccessTimeSecs s) (dynLastAccessTimeSecs ?d),
    scanBlocks = v\<rparr>"
  have step: "scanChunks n t (c # cs) s = scanChunks n (Suc t) cs ?s"
    using v(1) by (cases s) (simp add: Let_def)
  from Cons.IH [of ?s "Suc t"] v(2) obtain s' where s':
    "scanChunks n (Suc t) cs ?s = Some s'"
    "last_max (Suc t) (map getNumChunks cs) (if ?up then t else lastMaxNumChunksIndex s)
       (if ?up then getNumChunks c else maxNumChunks s) (lastMaxNumChunksIndex s') (maxNumChunks s')"
    "is_max (newModificationTimeSecs s') (insert (smax (newModificationTimeSecs s) (dynModificationTimeSecs ?d))
      ((\<lambda>c. dynModificationTimeSecs (dynAttribs c)) ` set cs))"
    "is_max (newLastAccessTimeSecs s') (insert (smax (newLastAccessTimeSecs s) (dynLastAccessTimeSecs ?d))
      ((\<lambda>c. dynLastAccessTimeSecs (dynAttribs c)) ` set cs))"
    by auto
  show ?case
    unfolding step s'(1) using last_max_Cons [OF s'(2)] is_max_smax [OF s'(3)] is_max_smax [OF s'(4)]
    by simp
qed

lemma last_max_all:
  assumes "last_max 1 xs 0 x0 m x"
  shows "m < length (x0 # xs) \<and> x = (x0 # xs) ! m \<and>
    (\<forall>k < length (x0 # xs). sint ((x0 # xs) ! k) \<le> sint x) \<and>
    (\<forall>k < length (x0 # xs). m < k \<longrightarrow> sint ((x0 # xs) ! k) < sint x)"
proof (cases "\<forall>y \<in> set xs. sint y < sint x0")
  case True
  then have "m = 0" "x = x0" using assms unfolding last_max_def by simp_all
  with True show ?thesis by (auto simp: nth_Cons' less_imp_le)
next
  case False
  then have "\<exists>i < length xs. m = 1 + i \<and> x = xs ! i \<and>
      (\<forall>k < length xs. i < k \<longrightarrow> sint (xs ! k) < sint x)"
    using assms unfolding last_max_def by (simp only: if_False simp_thms)
  then obtain i where i: "i < length xs" "m = 1 + i" "x = xs ! i"
    "\<forall>k < length xs. i < k \<longrightarrow> sint (xs ! k) < sint x" by blast
  have "sint x0 \<le> sint x" "\<forall>y \<in> set xs. sint y \<le> sint x"
    using assms unfolding last_max_def by blast+
  with i show ?thesis by (auto simp: nth_Cons')
qed

section \<open>The file size\<close>

definition num_chunks :: "nat \<Rightarrow> nat \<Rightarrow> nat" where
  "num_chunks c L = L div c + (if L mod c = 0 then 0 else 1)"

lemma num_chunks_off: "0 < c \<Longrightarrow> off < L \<Longrightarrow> off div c < num_chunks c L"
proof -
  assume c: "0 < c" and off: "off < L"
  show ?thesis
  proof (cases "L mod c = 0")
    case True
    then have "L = L div c * c" by (metis add.right_neutral div_mult_mod_eq)
    then have "off < L div c * c" using off by linarith
    with True show ?thesis by (simp add: num_chunks_def less_mult_imp_div_less)
  next
    case False
    with div_le_mono [of off L c] off show ?thesis by (simp add: num_chunks_def)
  qed
qed

lemma num_chunks_last:
  assumes c: "0 < c" and pos: "0 < num_chunks c L"
  obtains x where "0 < x" "x \<le> c" "L = (num_chunks c L - 1) * c + x"
proof (cases "L mod c = 0")
  case True
  then have L: "L = L div c * c" by (metis add.right_neutral div_mult_mod_eq)
  have "0 < L div c" using pos True by (simp add: num_chunks_def)
  then obtain k where k: "L div c = Suc k" by (metis gr0_implies_Suc)
  have "L = (num_chunks c L - 1) * c + c"
    using L True unfolding num_chunks_def k by simp
  then show ?thesis using c by (intro that [of c] order_refl)
next
  case False
  then show ?thesis using c by (intro that [of "L mod c"]) (simp_all add: num_chunks_def less_imp_le)
qed

definition calc_size :: "nat \<Rightarrow> nat \<Rightarrow> nat \<Rightarrow> nat \<Rightarrow> nat \<Rightarrow> nat" where
  "calc_size n c m N L = m * N * c + (n - m - 1) * (N - 1) * c + L"

lemma calc_size_alt:
  assumes "m < n" "0 < N" "L = (N - 1) * c + x"
  shows "calc_size n c m N L = (N - 1) * (n * c) + m * c + x"
proof -
  obtain N' k where N': "N = Suc N'" and k: "n = Suc (m + k)"
    using assms(1,2) by (metis gr0_implies_Suc less_imp_Suc_add)
  show ?thesis unfolding calc_size_def assms(3) N' k by (simp add: algebra_simps)
qed

lemma calc_size_end:
  assumes c: "0 < c" and m: "m < n"
    and le: "\<And>t. t < n \<Longrightarrow> num_chunks c (L t) \<le> N" and N: "N = num_chunks c (L m)"
    and later: "\<And>t. m < t \<Longrightarrow> t < n \<Longrightarrow> num_chunks c (L t) < N"
  shows "file_end n c L (if N = 0 then 0 else calc_size n c m N (L m))"
proof (cases "N = 0")
  case True
  then have "\<And>t off. t < n \<Longrightarrow> off < L t \<Longrightarrow> False"
    using le num_chunks_off [OF c] by fastforce
  with True show ?thesis unfolding file_end_def by auto
next
  case False
  then obtain x where x: "0 < x" "x \<le> c" "L m = (N - 1) * c + x"
    using num_chunks_last [OF c, of "L m"] N by auto
  let ?s = "(N - 1) * (n * c) + m * c + x"
  have s: "calc_size n c m N (L m) = ?s" using calc_size_alt [OF m _ x(3)] False by simp
  have below: "file_pos n c t off < ?s" if t: "t < n" and off: "off < L t" for t off
  proof (cases "t = m")
    case True
    have q: "off div c < N" using num_chunks_off [OF c off] le [OF t] by simp
    show ?thesis
    proof (cases "off div c < N - 1")
      case True
      then show ?thesis using file_pos_below [OF c t _ m, of off "N - 1"] by simp
    next
      case False
      then have eq: "off div c = N - 1" using q by simp
      have "off = off div c * c + off mod c" by simp
      then have "off mod c < x" using off x(3) eq True by simp
      then show ?thesis using eq True by (simp add: file_pos_def)
    qed
  next
    case False
    have "off div c < N - 1 \<or> off div c = N - 1 \<and> t < m"
      using num_chunks_off [OF c off] le [OF t] later [of t] t False by fastforce
    then show ?thesis using file_pos_below [OF c t _ m] by fastforce
  qed
  obtain y where y: "x = Suc y" using x(1) gr0_implies_Suc by blast
  then have "L m - 1 = y + c * (N - 1)" using x(3) by (simp add: mult.commute)
  then have "(L m - 1) div c = N - 1" "(L m - 1) mod c = x - 1"
    using x(2) y c by simp_all
  then have "?s = Suc (file_pos n c m (L m - 1))" using x(1) by (simp add: file_pos_def)
  moreover have "L m - 1 < L m" using x by simp
  ultimately show ?thesis unfolding file_end_def using below m False s by auto
qed

text \<open>Chunk files as the metadata server knows them, of sizes that fit the file.\<close>

abbreviation chunk_len :: "ChunkFileInfo list \<Rightarrow> nat \<Rightarrow> nat" where
  "chunk_len infos t \<equiv> unat (dynFileSize (dynAttribs (infos ! t)))"

definition chunks_known :: "StripePattern \<Rightarrow> ChunkFileInfo list \<Rightarrow> bool" where
  "chunks_known p infos \<longleftrightarrow> length infos = numTargets p \<and>
     (\<forall>t < numTargets p. infoChunkSize (infos ! t) = chunkSize p \<and>
        chunkSizeLog2 (infos ! t) = log2Int32 (chunkSize p) \<and> chunk_info_ok (infos ! t) \<and>
        chunk_len infos t * numTargets p < 4611686018427387904)"

lemma num_chunks_le: "0 < c \<Longrightarrow> num_chunks c L \<le> L + 1"
  using div_le_dividend [of L c] by (simp add: num_chunks_def le_SucI)

lemma getNumChunks_unat:
  assumes p: "striped k p" and known: "chunks_known p infos" and t: "t < numTargets p"
  shows "unat (getNumChunks (infos ! t)) = num_chunks (unat (chunkSize p)) (chunk_len infos t)"
    and "sint (getNumChunks (infos ! t)) = int (num_chunks (unat (chunkSize p)) (chunk_len infos t))"
proof -
  note d = stripedD [OF p]
  let ?i = "infos ! t" and ?c = "unat (chunkSize p)" and ?L = "chunk_len infos t"
  have i: "infoChunkSize ?i = chunkSize p" "chunkSizeLog2 ?i = log2Int32 (chunkSize p)"
    "chunk_info_ok ?i" and "?L * numTargets p < 4611686018427387904"
    using known t by (simp_all add: chunks_known_def)
  then have L: "?L < 4611686018427387904"
    using mult_le_mono2 [of 1 "numTargets p" ?L] d(3) by linarith
  have complete: "unat (numCompleteChunks ?i) = ?L div ?c"
    using i shift_nonneg [of "dynFileSize (dynAttribs ?i)" k] L d(1)
    by (simp add: chunk_info_ok_def log2_pow2 [OF d(1)] pow2_def)
  have "dynFileSize (dynAttribs ?i) AND ucast (chunkSize p - 1) \<noteq> 0 \<longleftrightarrow> ?L mod ?c \<noteq> 0"
    using and_pow2 [OF d(1), of "dynFileSize (dynAttribs ?i)"] by (metis unat_eq_zero)
  then have u: "unat (getNumChunks ?i) = unat (numCompleteChunks ?i + (if ?L mod ?c = 0 then 0 else 1))"
    by (simp add: getNumChunks_def i)
  have "?L div ?c + 1 < 18446744073709551616" using L div_le_dividend [of ?L ?c] by linarith
  then show n: "unat (getNumChunks ?i) = num_chunks ?c ?L"
    unfolding u num_chunks_def using complete by (simp add: unat_word_ariths)
  have "num_chunks ?c ?L < 9223372036854775808"
    using num_chunks_le [OF d(4), of ?L] L by linarith
  with n show "sint (getNumChunks ?i) = int (num_chunks ?c ?L)"
    using sint_nonneg [of "getNumChunks ?i"] by simp
qed

lemma calcFileSize_unat:
  assumes n: "length infos = n" and m: "m < n" and N: "0 < N" "unat M = N"
    and L: "chunk_len infos m = (N - 1) * c + x" "x \<le> c" and c: "unat chunk = c"
    and bound: "chunk_len infos m * n < 4611686018427387904" "n * c < 4294967296"
  shows "unat (calcFileSize infos chunk m M) = calc_size n c m N (chunk_len infos m)"
proof -
  define l where "l = chunk_len infos m"
  obtain N' k where N': "N = Suc N'" and k: "n = Suc (m + k)"
    using N(1) m by (metis gr0_implies_Suc less_imp_Suc_add)
  have M: "M = word_of_nat N" "dynFileSize (dynAttribs (infos ! m)) = word_of_nat l"
    by (simp_all add: l_def flip: N(2))
  have chunk: "ucast chunk = (word_of_nat c :: u64)" by (simp flip: c)
  have "calcFileSize infos chunk m M = word_of_nat (calc_size n c m N l)"
    unfolding calcFileSize_def calc_size_def Let_def n unfolding M(1) chunk unfolding M(2)
    unfolding N' k by (simp add: algebra_simps)
  moreover have "calc_size n c m N l < 18446744073709551616"
  proof -
    have "calc_size n c m N l = (N - 1) * c * n + m * c + x"
      using calc_size_alt [OF m N(1) L(1) [folded l_def]] by (simp add: algebra_simps)
    moreover have "(N - 1) * c * n \<le> l * n" unfolding l_def L(1) by (intro mult_le_mono) simp_all
    moreover have "m * c + c \<le> n * c" using mult_le_mono1 [of "Suc m" n c] m by simp
    ultimately show ?thesis using bound L(2) unfolding l_def by linarith
  qed
  ultimately show ?thesis by (simp add: unat_of_nat l_def)
qed

definition some_reported :: "ChunkFileInfo list \<Rightarrow> bool" where
  "some_reported infos \<longleftrightarrow> (\<exists>c \<in> set infos. storageVersion (dynAttribs c) \<noteq> 0)"

definition all_reported :: "ChunkFileInfo list \<Rightarrow> bool" where
  "all_reported infos \<longleftrightarrow> (\<forall>c \<in> set infos. storageVersion (dynAttribs c) \<noteq> 0)"

text \<open>The times the new time is the maximum of: the own one only if a target has not reported.\<close>

definition known_times :: "(DynamicFileAttribs \<Rightarrow> i64) \<Rightarrow> i64 \<Rightarrow> ChunkFileInfo list \<Rightarrow> i64 set" where
  "known_times time own infos =
     (if all_reported infos then {} else {own}) \<union> (\<lambda>c. time (dynAttribs c)) ` set infos"

lemma is_max_known:
  assumes "is_max z (insert (if all_reported (c0 # cs) then time (dynAttribs c0)
      else smax (time (dynAttribs c0)) own) ((\<lambda>c. time (dynAttribs c)) ` set cs))"
  shows "is_max z (known_times time own (c0 # cs))"
  using assms is_max_smax [of z "time (dynAttribs c0)" own "(\<lambda>c. time (dynAttribs c)) ` set cs"]
  unfolding known_times_def by (simp add: insert_commute split: if_splits)

lemma filter_all_length: "length (filter P xs) = length xs \<longleftrightarrow> (\<forall>x \<in> set xs. P x)"
  by (metis filter_True length_filter_less less_irrefl)

lemma update_result:
  assumes p: "striped k p" and known: "chunks_known p infos"
    and wf: "blocks_wf (chunkBlocksVec st)" and some: "some_reported infos"
  shows "\<exists>st'. updateDynamicFileAttribs infos p now st = Some st' \<and>
    file_end (numTargets p) (unat (chunkSize p)) (chunk_len infos) (unat (statFileSize st')) \<and>
    is_max (modificationTimeSecs (settable st'))
      (known_times dynModificationTimeSecs (modificationTimeSecs (settable st)) infos) \<and>
    is_max (lastAccessTimeSecs (settable st'))
      (known_times dynLastAccessTimeSecs (lastAccessTimeSecs (settable st)) infos)"
proof -
  note d = stripedD [OF p]
  define n c where "n = numTargets p" and "c = unat (chunkSize p)"
  have n: "0 < n" "0 < c" using d by (simp_all add: n_def c_def)
  have S: "n * c < 4294967296" using p by (simp add: striped_def n_def c_def)
  have n32: "n < 4294967296" using S mult_le_mono2 [of 1 c n] n(2) by linarith
  have len: "length infos = n" using known by (simp add: chunks_known_def n_def)
  then obtain c0 cs where infos: "infos = c0 # cs" using n by (cases infos) auto
  let ?valid = "length (filter (\<lambda>c. storageVersion (dynAttribs c) \<noteq> 0) infos)"
  have valid: "?valid \<noteq> 0" "?valid = n \<longleftrightarrow> all_reported infos"
    using some unfolding len [symmetric] filter_all_length
    by (auto simp: some_reported_def all_reported_def filter_empty_conv)
  obtain b where b: "setNumBlocks 0 (dynNumBlocks (dynAttribs c0)) n (chunkBlocksVec st) = Some b"
    "blocks_wf b"
    using setNumBlocks_wf [OF wf n(1) n32] by blast
  let ?time = "\<lambda>f own. if all_reported infos then f (dynAttribs c0) else smax (f (dynAttribs c0)) own"
  let ?s = "\<lparr>lastMaxNumChunksIndex = 0, maxNumChunks = getNumChunks c0,
    newModificationTimeSecs = ?time dynModificationTimeSecs (modificationTimeSecs (settable st)),
    newLastAccessTimeSecs = ?time dynLastAccessTimeSecs (lastAccessTimeSecs (settable st)),
    scanBlocks = b\<rparr>"
  obtain s where s: "scanChunks n 1 cs ?s = Some s"
    "last_max 1 (map getNumChunks cs) 0 (getNumChunks c0) (lastMaxNumChunksIndex s) (maxNumChunks s)"
    "is_max (newModificationTimeSecs s)
      (insert (?time dynModificationTimeSecs (modificationTimeSecs (settable st)))
        ((\<lambda>c. dynModificationTimeSecs (dynAttribs c)) ` set cs))"
    "is_max (newLastAccessTimeSecs s)
      (insert (?time dynLastAccessTimeSecs (lastAccessTimeSecs (settable st)))
        ((\<lambda>c. dynLastAccessTimeSecs (dynAttribs c)) ` set cs))"
    using scanChunks_result [of ?s n 1 cs] b(2) n(1) n32 by auto
  let ?m = "lastMaxNumChunksIndex s" and ?M = "maxNumChunks s"
  let ?size = "if ?M \<noteq> 0 then calcFileSize infos (chunkSize p) ?m ?M else 0"
  obtain st' where st': "updateDynamicFileAttribs infos p now st = Some st'"
    "statFileSize st' = ?size" "modificationTimeSecs (settable st') = newModificationTimeSecs s"
    "lastAccessTimeSecs (settable st') = newLastAccessTimeSecs s"
    using valid b(1) s(1) unfolding updateDynamicFileAttribs_def Let_def n_def infos
    by (cases "all_reported infos") (simp_all add: infos)
  have all: "?m < n \<and> ?M = map getNumChunks infos ! ?m \<and>
    (\<forall>k < n. sint (map getNumChunks infos ! k) \<le> sint ?M) \<and>
    (\<forall>k < n. ?m < k \<longrightarrow> sint (map getNumChunks infos ! k) < sint ?M)"
    using last_max_all [OF s(2), folded list.map(2), folded infos, unfolded length_map len] .
  let ?N = "num_chunks c (chunk_len infos ?m)"
  note num = getNumChunks_unat [OF p known, folded n_def c_def]
  have M: "unat ?M = ?N" "sint ?M = int ?N" using all num len by simp_all
  have "file_end n c (chunk_len infos)
      (if ?N = 0 then 0 else calc_size n c ?m ?N (chunk_len infos ?m))"
    using all num M len n(2) by (intro calc_size_end) auto
  moreover have "unat ?size = (if ?N = 0 then 0 else calc_size n c ?m ?N (chunk_len infos ?m))"
  proof (cases "?N = 0")
    case True
    with M(1) have "?M = 0" by (simp add: unat_eq_zero)
    with True show ?thesis by simp
  next
    case False
    then obtain x where "x \<le> c" "chunk_len infos ?m = (?N - 1) * c + x"
      using num_chunks_last [OF n(2), of "chunk_len infos ?m"] by auto
    moreover have "?M \<noteq> 0" using False M(1) by auto
    moreover have "chunk_len infos ?m * n < 4611686018427387904"
      using known all by (simp add: chunks_known_def n_def)
    ultimately show ?thesis
      using calcFileSize_unat [OF len _ _ M(1)] all False S by (simp add: c_def)
  qed
  ultimately show ?thesis
    using st' is_max_known [OF s(3) [unfolded infos]] is_max_known [OF s(4) [unfolded infos]]
    by (simp add: n_def c_def infos)
qed

section \<open>Properties\<close>

lemma chunk_bytes_code:
  assumes p: "striped k p" and s: "s < 4611686018427387904" and t: "t < numTargets p"
  shows "chunk_bytes (numTargets p) (unat (chunkSize p)) s t =
    card {pos. pos < s \<and> unat (getStripeTargetIndex p (word_of_nat pos)) = t}"
proof -
  note d = stripedD [OF p]
  have "unat (getStripeTargetIndex p (word_of_nat pos)) =
      stripe_index (numTargets p) (unat (chunkSize p)) pos" if "pos < s" for pos
  proof -
    have "unat (word_of_nat pos :: u64) = pos" using that s by (simp add: unat_of_nat)
    with stripe_index_code [OF p, of "word_of_nat pos"] that s show ?thesis by simp
  qed
  then show ?thesis unfolding chunk_bytes_card [OF d(4) t] by (metis (no_types, lifting))
qed

text \<open>
  C27: When a file is loaded, the size recorded for the chunk file on each target is the number
  of bytes of the file that the stripe pattern maps to this target, and these sizes add up to
  the file size.
\<close>

theorem file_size_split:
  assumes p: "striped k p" and wf: "blocks_wf (chunkBlocksVec st)"
    and size: "unat (statFileSize st) < 4611686018427387904"
  shows "\<exists>infos. initFileInfoVec p st = Some infos \<and> length infos = numTargets p \<and>
    (\<forall>t < numTargets p. unat (dynFileSize (dynAttribs (infos ! t))) =
       card {pos. pos < unat (statFileSize st) \<and> unat (getStripeTargetIndex p (word_of_nat pos)) = t}) \<and>
    (\<Sum>t < numTargets p. unat (dynFileSize (dynAttribs (infos ! t)))) = unat (statFileSize st)"
proof -
  note d = stripedD [OF p]
  from init_result [OF p wf size] obtain infos where infos: "initFileInfoVec p st = Some infos"
    "chunk_infos_for p (unat (statFileSize st)) infos" by blast
  then have len: "chunk_len infos t =
      chunk_bytes (numTargets p) (unat (chunkSize p)) (unat (statFileSize st)) t"
    if "t < numTargets p" for t
    using that by (simp add: chunk_infos_for_def chunk_info_for_def)
  then have "(\<Sum>t < numTargets p. chunk_len infos t) = unat (statFileSize st)"
    using chunk_bytes_sum [OF d(4,3)] by simp
  with infos len show ?thesis
    using chunk_bytes_code [OF p size] by (auto simp: chunk_infos_for_def)
qed

lemma demo_raid_simps:
  "stripeTargetIDs (demo_raid ts) = ts" "chunkSize (demo_raid ts) = 65536"
  by (simp_all add: demo_raid_def Raid0Pattern_def withTargets_def newPattern_def
      calcStripeSetSize_def)

lemma demo_raid_log2: "log2Int32 65536 = 16"
proof -
  have "pow2 16 (65536 :: u32)" by (simp add: pow2_def)
  from log2_pow2 [OF this] have "unat (log2Int32 65536) = unat (16 :: u32)" by simp
  then show ?thesis by (simp only: word_unat_eq_iff)
qed

lemma demo_stat_ok: "blocks_wf (chunkBlocksVec demo_stat)" "unat (statFileSize demo_stat) = 300000"
  by (simp_all add: demo_stat_def blocks_wf_def)

theorem file_size_split_witness:
  "\<exists>infos. initFileInfoVec (demo_raid [7, 8, 9]) demo_stat = Some infos \<and>
    (\<Sum>t < numTargets (demo_raid [7, 8, 9]). unat (dynFileSize (dynAttribs (infos ! t)))) =
      unat (statFileSize demo_stat)"
proof -
  have p: "striped 16 (demo_raid [7, 8, 9])" by (rule demo_raid_striped) simp
  have "unat (statFileSize demo_stat) < 4611686018427387904" by (simp add: demo_stat_ok)
  from file_size_split [OF p demo_stat_ok(1) this] show ?thesis by blast
qed

text \<open>
  C28: The file size computed from the sizes of the chunk files is the end of the last byte that
  any chunk file holds, whatever their sizes (sparse files included); the new modification and
  access times are the latest ones known, the time kept before counting only when a target has
  not reported its attributes.
\<close>

theorem file_size_from_chunks:
  assumes "striped k p" "chunks_known p infos" "blocks_wf (chunkBlocksVec st)" "some_reported infos"
  shows "\<exists>st'. updateDynamicFileAttribs infos p now st = Some st' \<and>
    file_end (numTargets p) (unat (chunkSize p)) (\<lambda>t. unat (dynFileSize (dynAttribs (infos ! t))))
      (unat (statFileSize st')) \<and>
    is_max (modificationTimeSecs (settable st'))
      (known_times dynModificationTimeSecs (modificationTimeSecs (settable st)) infos) \<and>
    is_max (lastAccessTimeSecs (settable st'))
      (known_times dynLastAccessTimeSecs (lastAccessTimeSecs (settable st)) infos)"
  using assms by (rule update_result)

definition demo_infos :: "i64 list \<Rightarrow> ChunkFileInfo list" where
  "demo_infos sizes = map (\<lambda>len. newChunkFileInfo 65536 16 (demo_attribs 1 len)) sizes"

lemma demo_infos_known:
  "chunks_known (demo_raid [7, 8, 9]) (demo_infos [131072, 65536, 10])"
  by (simp add: chunks_known_def demo_infos_def demo_raid_simps newChunkFileInfo_def
      demo_attribs_def chunk_info_ok_def demo_raid_log2 numeral_3_eq_3 All_less_Suc nth_Cons')

theorem file_size_from_chunks_witness:
  "\<exists>st'. updateDynamicFileAttribs (demo_infos [131072, 65536, 10]) (demo_raid [7, 8, 9]) 0 demo_stat = Some st' \<and>
    unat (statFileSize st') = 262144"
proof -
  let ?L = "\<lambda>t. unat (dynFileSize (dynAttribs (demo_infos [131072, 65536, 10] ! t)))"
  have p: "striped 16 (demo_raid [7, 8, 9])" by (rule demo_raid_striped) simp
  have "some_reported (demo_infos [131072, 65536, 10])"
    by (simp add: some_reported_def demo_infos_def newChunkFileInfo_def demo_attribs_def)
  from file_size_from_chunks [OF p demo_infos_known demo_stat_ok(1) this, of 0]
  obtain st' where st': "updateDynamicFileAttribs (demo_infos [131072, 65536, 10])
      (demo_raid [7, 8, 9]) 0 demo_stat = Some st'"
    "file_end 3 65536 ?L (unat (statFileSize st'))"
    unfolding demo_raid_simps by (auto simp: numeral_3_eq_3)
  have off: "file_pos 3 65536 t off < 262144" if "t < 3" "off < ?L t" for t off
  proof -
    have "t = 0 \<and> off < 131072 \<or> t = 1 \<and> off < 65536 \<or> t = 2 \<and> off < 10"
      using that by (auto simp: demo_infos_def newChunkFileInfo_def demo_attribs_def nth_Cons'
          split: if_splits)
    moreover have "off mod 65536 < 65536" by simp
    moreover have "t = 0 \<Longrightarrow> off div 65536 \<le> 1"
      using less_mult_imp_div_less [of off 2 65536] calculation(1) by simp
    moreover have "file_pos 3 65536 t off = off div 65536 * 196608 + t * 65536 + off mod 65536"
      by (simp add: file_pos_def)
    ultimately show ?thesis
      using div_mult_mod_eq [of off 65536]
      by (elim disjE conjE) (simp_all only:, linarith+)
  qed
  moreover have "262144 = Suc (file_pos 3 65536 0 131071)" "(131071 :: nat) < ?L 0"
    by (simp_all add: file_pos_def demo_infos_def newChunkFileInfo_def demo_attribs_def)
  ultimately have "file_end 3 65536 ?L 262144"
    unfolding file_end_def by (metis zero_less_numeral)
  from file_end_unique [OF this st'(2)] st'(1) show ?thesis by auto
qed

text \<open>
  Splitting and computing agree. A file is loaded, the storage targets then report the sizes
  of their chunk files, at least one of them with a valid storage version, and these are the
  sizes of a file without holes: the file size computed is again the stored one.
\<close>

theorem file_size_round_trip:
  assumes p: "striped k p" and wf: "blocks_wf (chunkBlocksVec st)"
    and size: "unat (statFileSize st) < 2305843009213693952"
    and init: "initFileInfoVec p st = Some infos"
    and len: "length reports = length infos"
    and same: "\<forall>t < length infos. dynFileSize (reports ! t) = dynFileSize (dynAttribs (infos ! t))"
    and some: "\<exists>r \<in> set reports. storageVersion r \<noteq> 0"
  shows "\<exists>st'. updateDynamicFileAttribs
      (map2 (\<lambda>r c. fst (updateDynAttribs r c)) reports infos) p now st = Some st' \<and>
    statFileSize st' = statFileSize st"
proof -
  note d = stripedD [OF p]
  define n c s where "n = numTargets p" and "c = unat (chunkSize p)"
    and "s = unat (statFileSize st)"
  let ?infos = "map2 (\<lambda>r c. fst (updateDynAttribs r c)) reports infos"
  have "s < 4611686018427387904" using size by (simp add: s_def)
  with init_result [OF p wf] init have old: "chunk_infos_for p s infos"
    "\<forall>c \<in> set infos. storageVersion (dynAttribs c) = 0"
    by (simp_all add: s_def)
  then have n: "length infos = n" by (simp add: chunk_infos_for_def n_def)
  have info: "infoChunkSize (?infos ! t) = chunkSize p \<and>
      chunkSizeLog2 (?infos ! t) = log2Int32 (chunkSize p) \<and> chunk_info_ok (?infos ! t) \<and>
      chunk_len ?infos t = chunk_bytes n c s t" if t: "t < n" for t
  proof -
    have i: "?infos ! t = fst (updateDynAttribs (reports ! t) (infos ! t))" using t n len by simp
    have "chunk_info_for (chunkSize p) (log2Int32 (chunkSize p)) (chunk_bytes n c s t) (infos ! t)"
      using old(1) t by (simp add: chunk_infos_for_def n_def c_def)
    moreover have "dynFileSize (reports ! t) = dynFileSize (dynAttribs (infos ! t))"
      using same t n by simp
    ultimately show ?thesis
      unfolding i by (cases rule: update_cases [of "reports ! t" "infos ! t"])
        (simp_all add: chunk_info_for_def setAttribs_def chunk_info_ok_def)
  qed
  have S: "n * c < 4294967296" using p by (simp add: striped_def n_def c_def)
  have "chunk_bytes n c s t * n < 4611686018427387904" for t
  proof -
    have "chunk_bytes n c s t * n \<le> (s div (n * c) * c + c) * n"
      unfolding chunk_bytes_def by (intro mult_le_mono1) simp
    also have "\<dots> = s div (n * c) * (n * c) + n * c" by (simp add: algebra_simps)
    also have "\<dots> \<le> s + n * c" by simp
    finally show ?thesis using S size unfolding s_def by linarith
  qed
  then have known: "chunks_known p ?infos"
    using info n len by (simp add: chunks_known_def n_def)
  from some obtain t where t: "t < n" "storageVersion (reports ! t) \<noteq> 0"
    using n len by (auto simp: in_set_conv_nth)
  moreover have "storageVersion (dynAttribs (infos ! t)) = 0" using old(2) t(1) n by simp
  ultimately have "storageVersion (dynAttribs (?infos ! t)) \<noteq> 0"
    using n len by (simp add: updateDynAttribs_def word_neq_0_conv)
  moreover have "?infos ! t \<in> set ?infos" using t(1) n len by (intro nth_mem) simp
  ultimately have "some_reported ?infos" unfolding some_reported_def by (rule bexI)
  from update_result [OF p known wf this, of now] obtain st' where st':
    "updateDynamicFileAttribs ?infos p now st = Some st'"
    "file_end n c (chunk_len ?infos) (unat (statFileSize st'))"
    by (auto simp: n_def c_def)
  have "file_end n c (chunk_len ?infos) s \<longleftrightarrow> file_end n c (chunk_bytes n c s) s"
    using info by (intro file_end_cong) blast
  then have "file_end n c (chunk_len ?infos) s"
    using chunk_bytes_file_end [of c n s] d by (simp add: n_def c_def)
  from file_end_unique [OF this st'(2)] st'(1) show ?thesis
    by (simp add: s_def word_unat_eq_iff)
qed

theorem file_size_round_trip_witness:
  "\<exists>infos. initFileInfoVec (demo_raid [7, 8, 9]) demo_stat = Some infos \<and>
    (\<exists>st'. updateDynamicFileAttribs
       (map2 (\<lambda>r c. fst (updateDynAttribs r c))
          (map (\<lambda>c. (dynAttribs c)\<lparr>storageVersion := 5\<rparr>) infos) infos)
       (demo_raid [7, 8, 9]) 0 demo_stat = Some st' \<and> statFileSize st' = statFileSize demo_stat)"
proof -
  have p: "striped 16 (demo_raid [7, 8, 9])" by (rule demo_raid_striped) simp
  have size: "unat (statFileSize demo_stat) < 4611686018427387904"
    "unat (statFileSize demo_stat) < 2305843009213693952" by (simp_all add: demo_stat_ok)
  from init_result [OF p demo_stat_ok(1) size(1)] obtain infos where infos:
    "initFileInfoVec (demo_raid [7, 8, 9]) demo_stat = Some infos"
    "chunk_infos_for (demo_raid [7, 8, 9]) (unat (statFileSize demo_stat)) infos" by blast
  then have "length infos = 3" by (simp add: chunk_infos_for_def demo_raid_simps)
  then have "infos \<noteq> []" by auto
  with file_size_round_trip [OF p demo_stat_ok(1) size(2) infos(1),
      of "map (\<lambda>c. (dynAttribs c)\<lparr>storageVersion := 5\<rparr>) infos" 0] infos(1)
  show ?thesis by (auto simp: ex_in_conv)
qed

end
