(* ===== verification/FileInode.thy ===== *)
theory FileInode
  imports DirEntry FileSize
begin

text \<open>
  The inode of a file in the memory of a metadata server and its record on disk (\<open>FileInode.h/.cpp\<close>
  under fhgfs_meta/source/storage, without the lock queues, which have theories of their own). An
  inode is inlined in the record of its directory entry or has a file of its own; every change of
  its attributes is stored at once.

  As for entries, None is the outcome where the code follows a NULL pointer or leaves a buffer.
  \<open>now\<close> is the time at which an operation runs.
\<close>

section \<open>The inode\<close>

record FileInode =
  fiData :: FileInodeStoreData
  fiInfoVec :: "ChunkFileInfo list"
  fiExclusiveTID :: u64
  fiNumSessionsRead :: u32
  fiNumSessionsWrite :: u32
  fiIsInlined :: bool
  compatEntryType :: DirEntryType
  compatFeatureFlags :: u32
  fiReferenceParentID :: string
  fiNumParentRefs :: i64

text \<open>The constructor for loading; \<open>isInlined\<close> is not set by it, nor by the other one.\<close>

definition blankFileInode :: "MetaConfig \<Rightarrow> FileInode" where
  "blankFileInode cfg =
     \<lparr>fiData = freshInodeData cfg, fiInfoVec = [], fiExclusiveTID = 0, fiNumSessionsRead = 0,
      fiNumSessionsWrite = 0, fiIsInlined = freshInlined cfg,
      compatEntryType = DirEntryType_INVALID, compatFeatureFlags = 0, fiReferenceParentID = [],
      fiNumParentRefs = 0\<rparr>"

definition fi_initFileInfoVec :: "FileInode \<Rightarrow> FileInode option" where
  "fi_initFileInfoVec f =
     (case inodePattern (fiData f) of
        None \<Rightarrow> None
      | Some p \<Rightarrow>
          (case initFileInfoVec p (inodeStatData (fiData f)) of
             None \<Rightarrow> None
           | Some v \<Rightarrow> Some (f\<lparr>fiInfoVec := fiInfoVec f @ v\<rparr>)))"

definition newFileInode ::
    "MetaConfig \<Rightarrow> string \<Rightarrow> FileInodeStoreData \<Rightarrow> DirEntryType \<Rightarrow> u32 \<Rightarrow> FileInode option" where
  "newFileInode cfg eid disk type flags =
     (case setFileInodeStoreData disk ((freshInodeData cfg)\<lparr>inodeID := eid\<rparr>) of
        None \<Rightarrow> None
      | Some d \<Rightarrow>
          fi_initFileInfoVec ((blankFileInode cfg)
            \<lparr>fiData := d, compatEntryType := type, compatFeatureFlags := flags\<rparr>))"

definition updateDynamicAttribs :: "i64 \<Rightarrow> FileInode \<Rightarrow> FileInode option" where
  "updateDynamicAttribs now f =
     (case inodePattern (fiData f) of
        None \<Rightarrow> None
      | Some p \<Rightarrow>
          map_option (\<lambda>st. f\<lparr>fiData := (fiData f)\<lparr>inodeStatData := st\<rparr>\<rparr>)
            (updateDynamicFileAttribs (fiInfoVec f) p now (inodeStatData (fiData f))))"

text \<open>De-inlining makes the original parent persistent, as no entry gives it any more.\<close>

definition setIsInlined :: "bool \<Rightarrow> FileInode \<Rightarrow> FileInode" where
  "setIsInlined value f =
     (if value
      then f\<lparr>fiIsInlined := True,
             compatFeatureFlags := compatFeatureFlags f OR ucast DENTRY_FEATURE_INODE_INLINE\<rparr>
      else f\<lparr>fiIsInlined := False,
             fiData := (if origFeature (fiData f) = FileInodeOrigFeature_TRUE
                        then addInodeFeatureFlag FILEINODE_FEATURE_HAS_ORIG_PARENTID (fiData f)
                        else fiData f),
             compatFeatureFlags :=
               compatFeatureFlags f AND NOT (ucast DENTRY_FEATURE_INODE_INLINE)\<rparr>)"

section \<open>Its record\<close>

definition compatDentry :: "MetaConfig \<Rightarrow> FileInode \<Rightarrow> DentryStoreData" where
  "compatDentry cfg f =
     \<lparr>dentryID = inodeID (fiData f), entryType = compatEntryType f, ownerNodeID = 0,
      dentryFeatureFlags = ucast (compatFeatureFlags f), dentryMirrorNodeID = freshNodeID cfg\<rparr>"

definition serializeMetaData :: "MetaConfig \<Rightarrow> i64 \<Rightarrow> FileInode \<Rightarrow> (u8 list \<times> FileInode) option" where
  "serializeMetaData cfg now f =
     (case updateDynamicAttribs now f of
        None \<Rightarrow> None
      | Some f1 \<Rightarrow>
          (case serializeFileInode (unusedBytes cfg) (compatDentry cfg f1) (fiData f1) of
             None \<Rightarrow> None
           | Some (buf, d) \<Rightarrow> if META_SERBUF_SIZE < length buf then None else Some (buf, f1)))"

definition newDentryStoreData :: "MetaConfig \<Rightarrow> DentryStoreData" where
  "newDentryStoreData cfg =
     \<lparr>dentryID = [], entryType = DirEntryType_INVALID, ownerNodeID = 0, dentryFeatureFlags = 0,
      dentryMirrorNodeID = freshNodeID cfg\<rparr>"

definition deserializeMetaData :: "MetaConfig \<Rightarrow> u8 list \<Rightarrow> FileInode \<Rightarrow> FileInode option option" where
  "deserializeMetaData cfg buf f =
     (case deserializeFileInode (localNodeNumID cfg) (newDentryStoreData cfg, fiData f)
         (stackBuf cfg META_SERBUF_SIZE buf) of
        Inl ReadBeyondBuffer \<Rightarrow> None
      | Inl DecodeFail \<Rightarrow> Some None
      | Inr (d, i) \<Rightarrow>
          Some (Some (f\<lparr>fiData := i, compatEntryType := entryType d,
            compatFeatureFlags := ucast (dentryFeatureFlags d)\<rparr>)))"

text \<open>
  An update of the record in a file writes a new file and renames it; without space it overwrites
  the old one. The final \<open>ftruncate\<close> of the latter comes after \<open>close\<close> and so does nothing here.
\<close>

definition storeMetaBufInPlace :: "MetaPath \<Rightarrow> u8 list \<Rightarrow> MetaFs \<Rightarrow> bool \<times> MetaFs" where
  "storeMetaBufInPlace path buf fs =
     (case sys_open_create path fs of
        (Inl _, fs1) \<Rightarrow> (False, fs1)
      | (Inr fd, fs1) \<Rightarrow>
          (case reserveSpace fd (length buf) fs1 of
             (False, fs2) \<Rightarrow> (False, fs2)
           | (True, fs2) \<Rightarrow>
               (case sys_write fd buf fs2 of (r, fs3) \<Rightarrow> (r = Inr (length buf), fs3))))"

definition storeMetaBufAsContents :: "string \<Rightarrow> u8 list \<Rightarrow> MetaFs \<Rightarrow> bool \<times> MetaFs" where
  "storeMetaBufAsContents eid buf fs =
     (let update = InodeUpdatePath eid; path = InodePath eid
      in case sys_open_trunc update fs of
           (Inl err, fs1) \<Rightarrow>
             if err = ENOSPC then storeMetaBufInPlace path buf fs1 else (False, fs1)
         | (Inr fd, fs1) \<Rightarrow>
             (case sys_write fd buf fs1 of
                (r, fs2) \<Rightarrow>
                  if r = Inr (length buf)
                  then (case sys_rename update path fs2 of
                      (Inr _, fs3) \<Rightarrow> (True, fs3)
                    | (Inl _, fs3) \<Rightarrow> (False, snd (sys_unlink update fs3)))
                  else if \<not> isl r \<or> r = Inl ENOSPC
                  then storeMetaBufInPlace path buf (snd (sys_unlink update fs2))
                  else (False, snd (sys_unlink update fs2))))"

definition storeMetaBufAsXAttr :: "MetaPath \<Rightarrow> u8 list \<Rightarrow> MetaFs \<Rightarrow> bool \<times> MetaFs" where
  "storeMetaBufAsXAttr path buf fs =
     (case sys_setxattr path buf fs of (r, fs1) \<Rightarrow> (r = Inr (), fs1))"

definition storeUpdatedMetaDataBuf ::
    "MetaConfig \<Rightarrow> string \<Rightarrow> u8 list \<Rightarrow> MetaFs \<Rightarrow> bool \<times> MetaFs" where
  "storeUpdatedMetaDataBuf cfg eid buf fs =
     (if storeUseExtendedAttribs cfg then storeMetaBufAsXAttr (InodePath eid) buf fs
      else storeMetaBufAsContents eid buf fs)"

definition removeStoredMetaData :: "string \<Rightarrow> MetaFs \<Rightarrow> bool \<times> MetaFs" where
  "removeStoredMetaData eid fs =
     (case sys_unlink (InodePath eid) fs of (r, fs1) \<Rightarrow> (r = Inr () \<or> r = Inl ENOENT, fs1))"

section \<open>Storing the inode\<close>

text \<open>A new stripe pattern is taken over only if one is given, and of it only the targets.\<close>

definition setUpdatedTargets :: "StripePattern option \<Rightarrow> FileInode \<Rightarrow> FileInode option" where
  "setUpdatedTargets updated f =
     (case updated of
        None \<Rightarrow> Some f
      | Some q \<Rightarrow>
          (case inodePattern (fiData f) of
             None \<Rightarrow> None
           | Some p \<Rightarrow>
               map_option (\<lambda>(p', done). f\<lparr>fiData := (fiData f)\<lparr>inodePattern := Some p'\<rparr>\<rparr>)
                 (updateStripeTargetIDs updated p)))"

definition storeUpdatedInlinedInode ::
    "MetaConfig \<Rightarrow> i64 \<Rightarrow> EntryInfo \<Rightarrow> StripePattern option \<Rightarrow> FileInode \<Rightarrow> MetaFs \<Rightarrow>
       (FhgfsOpsErr \<times> FileInode \<times> MetaFs) option" where
  "storeUpdatedInlinedInode cfg now info updated f fs =
     (case Option.bind (updateDynamicAttribs now f) (setUpdatedTargets updated) of
        None \<Rightarrow> None
      | Some f1 \<Rightarrow>
          (let dir = infoParentEntryID info;
               e = newDirEntry cfg (ucast (infoEntryType info)) (infoFileName info)
                 (infoEntryID info) (infoOwnerNodeID info)
           in case loadFromID cfg dir (infoEntryID info) e fs of
                None \<Rightarrow> None
              | Some (None, fs1) \<Rightarrow> Some (FhgfsOpsErr_INTERNAL, f1, fs1)
              | Some (Some e1, fs1) \<Rightarrow>
                  (case setFileInodeStoreData (fiData f1) (deInode e1) of
                     None \<Rightarrow> None
                   | Some i \<Rightarrow>
                       map_option (\<lambda>(res, fs2). (res, f1, fs2))
                         (storeUpdatedInode cfg dir (e1\<lparr>deInode := i\<rparr>) fs1))))"

definition storeInodeFile ::
    "MetaConfig \<Rightarrow> i64 \<Rightarrow> StripePattern option \<Rightarrow> FileInode \<Rightarrow> MetaFs \<Rightarrow>
       (bool \<times> FileInode \<times> MetaFs) option" where
  "storeInodeFile cfg now updated f fs =
     (case Option.bind (setUpdatedTargets updated f) (serializeMetaData cfg now) of
        None \<Rightarrow> None
      | Some (buf, f1) \<Rightarrow>
          (case storeUpdatedMetaDataBuf cfg (inodeID (fiData f1)) buf fs of
             (stored, fs1) \<Rightarrow> Some (stored, f1, fs1)))"

text \<open>An inlined inode whose entry cannot be updated is written to a file of its own.\<close>

definition fi_storeUpdatedInode ::
    "MetaConfig \<Rightarrow> i64 \<Rightarrow> EntryInfo \<Rightarrow> StripePattern option \<Rightarrow> FileInode \<Rightarrow> MetaFs \<Rightarrow>
       (bool \<times> FileInode \<times> MetaFs) option" where
  "fi_storeUpdatedInode cfg now info updated f fs =
     (if fiIsInlined f
      then (case storeUpdatedInlinedInode cfg now info updated f fs of
          None \<Rightarrow> None
        | Some (res, f1, fs1) \<Rightarrow>
            if res = FhgfsOpsErr_SUCCESS then Some (True, f1, fs1)
            else storeInodeFile cfg now updated
              (if res = FhgfsOpsErr_INODENOTINLINED then f1\<lparr>fiIsInlined := False\<rparr> else f1) fs1)
      else storeInodeFile cfg now updated f fs)"

section \<open>Loading an inode\<close>

definition fi_loadRecord ::
    "MetaConfig \<Rightarrow> u8 list \<Rightarrow> FileInode \<Rightarrow> MetaFs \<Rightarrow> (FileInode option \<times> MetaFs) option" where
  "fi_loadRecord cfg buf f fs =
     (case deserializeMetaData cfg buf f of
        None \<Rightarrow> None
      | Some None \<Rightarrow> Some (None, fs)
      | Some (Some f1) \<Rightarrow> map_option (\<lambda>f2. (Some f2, fs)) (fi_initFileInfoVec f1))"

definition fi_loadFromFileXAttr ::
    "MetaConfig \<Rightarrow> string \<Rightarrow> FileInode \<Rightarrow> MetaFs \<Rightarrow> (FileInode option \<times> MetaFs) option" where
  "fi_loadFromFileXAttr cfg eid f fs =
     (case sys_getxattr (InodePath eid) META_SERBUF_SIZE fs of
        (Inr (b # bs), fs1) \<Rightarrow> fi_loadRecord cfg (b # bs) f fs1
      | (_, fs1) \<Rightarrow> Some (None, fs1))"

definition fi_loadFromFileContents ::
    "MetaConfig \<Rightarrow> string \<Rightarrow> FileInode \<Rightarrow> MetaFs \<Rightarrow> (FileInode option \<times> MetaFs) option" where
  "fi_loadFromFileContents cfg eid f fs =
     (case sys_open_read (InodePath eid) fs of
        (Inl _, fs1) \<Rightarrow> Some (None, fs1)
      | (Inr fd, fs1) \<Rightarrow>
          (case sys_read fd META_SERBUF_SIZE fs1 of
             (Inr (b # bs), fs2) \<Rightarrow> fi_loadRecord cfg (b # bs) f fs2
           | (_, fs2) \<Rightarrow> Some (None, fs2)))"

definition loadFromInodeFile ::
    "MetaConfig \<Rightarrow> EntryInfo \<Rightarrow> FileInode \<Rightarrow> MetaFs \<Rightarrow> (FileInode option \<times> MetaFs) option" where
  "loadFromInodeFile cfg info f fs =
     (if storeUseExtendedAttribs cfg then fi_loadFromFileXAttr cfg (infoEntryID info) f fs
      else fi_loadFromFileContents cfg (infoEntryID info) f fs)"

definition createFromInodeFile ::
    "MetaConfig \<Rightarrow> EntryInfo \<Rightarrow> MetaFs \<Rightarrow> (FileInode option \<times> MetaFs) option" where
  "createFromInodeFile cfg info fs =
     map_option (\<lambda>(f, fs1). (map_option (setIsInlined False) f, fs1))
       (loadFromInodeFile cfg info (blankFileInode cfg) fs)"

text \<open>The inode in the record of an entry (\<open>DirEntry::createInodeByID\<close>).\<close>

definition createInodeByID ::
    "MetaConfig \<Rightarrow> string \<Rightarrow> EntryInfo \<Rightarrow> DirEntry \<Rightarrow> MetaFs \<Rightarrow> (FileInode option \<times> MetaFs) option"
  where
  "createInodeByID cfg dir info e fs =
     (case loadFromID cfg dir (infoEntryID info) e fs of
        None \<Rightarrow> None
      | Some (None, fs1) \<Rightarrow> Some (None, fs1)
      | Some (Some e1, fs1) \<Rightarrow>
          if \<not> getIsInodeInlined e1 then Some (None, fs1)
          else
            (let i = (if hasInodeFlag FILEINODE_FEATURE_HAS_ORIG_PARENTID (deInode e1) then deInode e1
                 else setDynamicOrigParentEntryID (infoParentEntryID info) (deInode e1))
             in map_option (\<lambda>f. (Some f, fs1))
               (newFileInode cfg (dentryID (deData e1)) i (entryType (deData e1))
                 (ucast (dentryFeatureFlags (deData e1))))))"

definition createFromInlinedInode ::
    "MetaConfig \<Rightarrow> EntryInfo \<Rightarrow> MetaFs \<Rightarrow> (FileInode option \<times> MetaFs) option" where
  "createFromInlinedInode cfg info fs =
     map_option (\<lambda>(f, fs1). (map_option (setIsInlined True) f, fs1))
       (createInodeByID cfg (infoParentEntryID info) info
         (newDirEntry cfg (ucast (infoEntryType info)) (infoFileName info) (infoEntryID info)
           (infoOwnerNodeID info)) fs)"

text \<open>The entry information may be outdated, so the other place is tried, too.\<close>

definition createFromEntryInfo ::
    "MetaConfig \<Rightarrow> EntryInfo \<Rightarrow> MetaFs \<Rightarrow> (FileInode option \<times> MetaFs) option" where
  "createFromEntryInfo cfg info fs =
     (let (first, second) =
        (if getIsInlined info then (createFromInlinedInode, createFromInodeFile)
         else (createFromInodeFile, createFromInlinedInode))
      in case first cfg info fs of
           Some (None, fs1) \<Rightarrow> second cfg info fs1
         | r \<Rightarrow> r)"

section \<open>Operations on an inode\<close>

definition SETATTR_CHANGE_MODE :: i32 where "SETATTR_CHANGE_MODE = 1"
definition SETATTR_CHANGE_USERID :: i32 where "SETATTR_CHANGE_USERID = 2"
definition SETATTR_CHANGE_GROUPID :: i32 where "SETATTR_CHANGE_GROUPID = 4"
definition SETATTR_CHANGE_MODIFICATIONTIME :: i32 where "SETATTR_CHANGE_MODIFICATIONTIME = 8"
definition SETATTR_CHANGE_LASTACCESSTIME :: i32 where "SETATTR_CHANGE_LASTACCESSTIME = 16"

definition OPENFILE_ACCESS_READ :: u32 where "OPENFILE_ACCESS_READ = 1"

abbreviation changes :: "i32 \<Rightarrow> i32 \<Rightarrow> bool" where
  "changes valid flag \<equiv> valid AND flag \<noteq> 0"

definition fi_updateStat :: "(StatData \<Rightarrow> StatData) \<Rightarrow> FileInode \<Rightarrow> FileInode" where
  "fi_updateStat g f = f\<lparr>fiData := (fiData f)\<lparr>inodeStatData := g (inodeStatData (fiData f))\<rparr>\<rparr>"

text \<open>The new values in the memory, before they are stored.\<close>

definition applyAttribs :: "i64 \<Rightarrow> i32 \<Rightarrow> SettableFileAttribs \<Rightarrow> FileInode \<Rightarrow> FileInode" where
  "applyAttribs now valid attribs f =
     (let f1 = fi_updateStat (\<lambda>st. st\<lparr>attribChangeTimeSecs := now, settable := (settable st)
            \<lparr>mode := (if changes valid SETATTR_CHANGE_MODE then mode attribs
                      else mode (settable st)),
             userID := (if changes valid SETATTR_CHANGE_USERID then userID attribs
                        else userID (settable st)),
             groupID := (if changes valid SETATTR_CHANGE_GROUPID then groupID attribs
                         else groupID (settable st)),
             modificationTimeSecs :=
               (if changes valid SETATTR_CHANGE_MODIFICATIONTIME then modificationTimeSecs attribs
                else modificationTimeSecs (settable st)),
             lastAccessTimeSecs :=
               (if changes valid SETATTR_CHANGE_LASTACCESSTIME then lastAccessTimeSecs attribs
                else lastAccessTimeSecs (settable st))\<rparr>\<rparr>) f
      in if changes valid SETATTR_CHANGE_USERID \<and> userID attribs \<noteq> origParentUID (fiData f) \<and>
            origFeature (fiData f) = FileInodeOrigFeature_TRUE
         then f1\<lparr>fiData := addInodeFeatureFlag FILEINODE_FEATURE_HAS_ORIG_UID (fiData f1)\<rparr>
         else f1)"

text \<open>After a successful store the times are set for the chunk files, too.\<close>

definition applyChunkTimes :: "i32 \<Rightarrow> SettableFileAttribs \<Rightarrow> FileInode \<Rightarrow> FileInode" where
  "applyChunkTimes valid attribs f =
     f\<lparr>fiInfoVec := map (\<lambda>c. c\<lparr>dynAttribs := (dynAttribs c)
         \<lparr>dynModificationTimeSecs :=
            (if changes valid SETATTR_CHANGE_MODIFICATIONTIME then modificationTimeSecs attribs
             else dynModificationTimeSecs (dynAttribs c)),
          dynLastAccessTimeSecs :=
            (if changes valid SETATTR_CHANGE_LASTACCESSTIME then lastAccessTimeSecs attribs
             else dynLastAccessTimeSecs (dynAttribs c))\<rparr>\<rparr>) (fiInfoVec f)\<rparr>"

definition setAttrData ::
    "MetaConfig \<Rightarrow> i64 \<Rightarrow> EntryInfo \<Rightarrow> i32 \<Rightarrow> SettableFileAttribs \<Rightarrow> FileInode \<Rightarrow> MetaFs \<Rightarrow>
       (bool \<times> FileInode \<times> MetaFs) option" where
  "setAttrData cfg now info valid attribs f fs =
     (let oldAttribs = settable (inodeStatData (fiData f))
      in map_option (\<lambda>(stored, f1, fs1).
             if stored then (True, applyChunkTimes valid attribs f1, fs1)
             else (False, fi_updateStat (\<lambda>st. st\<lparr>settable := oldAttribs\<rparr>) f1, fs1))
           (fi_storeUpdatedInode cfg now info None (applyAttribs now valid attribs f) fs))"

definition fi_incDecNumHardLinks ::
    "MetaConfig \<Rightarrow> i64 \<Rightarrow> EntryInfo \<Rightarrow> i32 \<Rightarrow> FileInode \<Rightarrow> MetaFs \<Rightarrow>
       (bool \<times> FileInode \<times> MetaFs) option" where
  "fi_incDecNumHardLinks cfg now info v f fs =
     map_option (\<lambda>(stored, f1, fs1).
         (stored, if stored then f1 else fi_updateStat (incDecNumHardLinks (- v)) f1, fs1))
       (fi_storeUpdatedInode cfg now info None
         (fi_updateStat (\<lambda>st. (incDecNumHardLinks v st)\<lparr>attribChangeTimeSecs := now\<rparr>) f) fs)"

definition updateInodeOnDisk ::
    "MetaConfig \<Rightarrow> i64 \<Rightarrow> EntryInfo \<Rightarrow> StripePattern option \<Rightarrow> FileInode \<Rightarrow> MetaFs \<Rightarrow>
       (bool \<times> FileInode \<times> MetaFs) option" where
  "updateInodeOnDisk cfg now info updated f fs = fi_storeUpdatedInode cfg now info updated f fs"

definition updateInodeChangeTime ::
    "MetaConfig \<Rightarrow> i64 \<Rightarrow> EntryInfo \<Rightarrow> FileInode \<Rightarrow> MetaFs \<Rightarrow> (bool \<times> FileInode \<times> MetaFs) option"
  where
  "updateInodeChangeTime cfg now info f fs =
     fi_storeUpdatedInode cfg now info None
       (fi_updateStat (\<lambda>st. st\<lparr>attribChangeTimeSecs := now\<rparr>) f) fs"

definition incNumSessions :: "u32 \<Rightarrow> FileInode \<Rightarrow> FileInode" where
  "incNumSessions accessFlags f =
     (if accessFlags AND OPENFILE_ACCESS_READ \<noteq> 0
      then f\<lparr>fiNumSessionsRead := fiNumSessionsRead f + 1\<rparr>
      else f\<lparr>fiNumSessionsWrite := fiNumSessionsWrite f + 1\<rparr>)"

text \<open>Closing a session; counters that are zero already stay so.\<close>

definition decNumSessions :: "u32 \<Rightarrow> FileInode \<Rightarrow> FileInode" where
  "decNumSessions accessFlags f =
     (if accessFlags AND OPENFILE_ACCESS_READ \<noteq> 0
      then (if fiNumSessionsRead f = 0 then f
            else f\<lparr>fiNumSessionsRead := fiNumSessionsRead f - 1\<rparr>)
      else (if fiNumSessionsWrite f = 0 then f
            else f\<lparr>fiNumSessionsWrite := fiNumSessionsWrite f - 1\<rparr>))"

definition decNumSessionsAndStore ::
    "MetaConfig \<Rightarrow> i64 \<Rightarrow> EntryInfo \<Rightarrow> u32 \<Rightarrow> FileInode \<Rightarrow> MetaFs \<Rightarrow> (FileInode \<times> MetaFs) option" where
  "decNumSessionsAndStore cfg now info accessFlags f fs =
     map_option snd (fi_storeUpdatedInode cfg now info None (decNumSessions accessFlags f) fs)"

definition getNumSessionsAll :: "FileInode \<Rightarrow> u32" where
  "getNumSessionsAll f = fiNumSessionsRead f + fiNumSessionsWrite f"

text \<open>The attributes that the storage servers report, one for each chunk file.\<close>

definition setDynAttribs :: "DynamicFileAttribs list \<Rightarrow> FileInode \<Rightarrow> bool \<times> FileInode" where
  "setDynAttribs newAttribs f =
     (if length newAttribs \<noteq> length (fiInfoVec f) then (False, f)
      else (True, f\<lparr>fiInfoVec := map2 (\<lambda>a c. fst (updateDynAttribs a c)) newAttribs (fiInfoVec f)\<rparr>))"

definition fi_getStatData :: "i64 \<Rightarrow> FileInode \<Rightarrow> (FhgfsOpsErr \<times> StatData \<times> FileInode) option" where
  "fi_getStatData now f =
     map_option (\<lambda>f1.
         (if fiNumSessionsWrite f1 \<noteq> 0 then FhgfsOpsErr_DYNAMICATTRIBSOUTDATED
          else FhgfsOpsErr_SUCCESS, inodeStatData (fiData f1), f1))
       (updateDynamicAttribs now f)"

text \<open>The attributes of an inode that is not loaded.\<close>

definition getStatDataOf ::
    "MetaConfig \<Rightarrow> i64 \<Rightarrow> EntryInfo \<Rightarrow> MetaFs \<Rightarrow> (FhgfsOpsErr \<times> StatData option \<times> MetaFs) option" where
  "getStatDataOf cfg now info fs =
     (case createFromEntryInfo cfg info fs of
        None \<Rightarrow> None
      | Some (None, fs1) \<Rightarrow> Some (FhgfsOpsErr_PATHNOTEXISTS, None, fs1)
      | Some (Some f, fs1) \<Rightarrow>
          map_option (\<lambda>(res, st, f1). (res, Some st, fs1)) (fi_getStatData now f))"

text \<open>A copy through the disk format; the values that it may leave out are copied afterwards.\<close>

definition fi_clone :: "MetaConfig \<Rightarrow> i64 \<Rightarrow> FileInode \<Rightarrow> (FileInode option \<times> FileInode) option" where
  "fi_clone cfg now f =
     (case serializeMetaData cfg now f of
        None \<Rightarrow> None
      | Some (buf, f1) \<Rightarrow>
          map_option (\<lambda>c.
              (map_option (\<lambda>c. c\<lparr>fiData := (fiData c)
                   \<lparr>origParentEntryID := origParentEntryID (fiData f1),
                    origParentUID := origParentUID (fiData f1)\<rparr>\<rparr>) c, f1))
            (deserializeMetaData cfg buf (blankFileInode cfg)))"

text \<open>The number of chunk files that are in HSM only.\<close>

definition fi_incHsmChunks ::
    "MetaConfig \<Rightarrow> i64 \<Rightarrow> EntryInfo \<Rightarrow> FileInode \<Rightarrow> MetaFs \<Rightarrow> (FileInode \<times> MetaFs) option" where
  "fi_incHsmChunks cfg now info f fs =
     (case inodePattern (fiData f) of
        None \<Rightarrow> None
      | Some p \<Rightarrow>
          map_option snd (fi_storeUpdatedInode cfg now info None
            (if (word_of_nat (length (stripeTargetIDs p)) :: u32) =
                ucast (offlineChunkCount (hsmFileMetaData (fiData f)))
             then f else f\<lparr>fiData := incHsmOfflineFileChunkCount (fiData f)\<rparr>) fs))"

definition fi_decHsmChunks ::
    "MetaConfig \<Rightarrow> i64 \<Rightarrow> EntryInfo \<Rightarrow> FileInode \<Rightarrow> MetaFs \<Rightarrow> (FileInode \<times> MetaFs) option" where
  "fi_decHsmChunks cfg now info f fs =
     map_option snd (fi_storeUpdatedInode cfg now info None
       (if offlineChunkCount (hsmFileMetaData (fiData f)) = 0 then f
        else f\<lparr>fiData := decHsmOfflineFileChunkCount (fiData f)\<rparr>) fs)"

definition setAndStoreHsmCollocationID ::
    "MetaConfig \<Rightarrow> i64 \<Rightarrow> EntryInfo \<Rightarrow> u16 \<Rightarrow> FileInode \<Rightarrow> MetaFs \<Rightarrow> (FileInode \<times> MetaFs) option" where
  "setAndStoreHsmCollocationID cfg now info c f fs =
     map_option snd (fi_storeUpdatedInode cfg now info None
       (f\<lparr>fiData := setHsmCollocationID c (fiData f)\<rparr>) fs)"

section \<open>What an update leaves as it is\<close>

text \<open>The part of an inode that the path of its chunk files depends on.\<close>

definition owner_part :: "FileInode \<Rightarrow> FileInodeOrigFeature \<times> u32 \<times> string \<times> u32 \<times> u32 \<times> string" where
  "owner_part f =
     (origFeature (fiData f), origParentUID (fiData f), origParentEntryID (fiData f),
      inodeFeatureFlags (fiData f), userID (settable (inodeStatData (fiData f))),
      inodeID (fiData f))"

lemma dyn_attribs_keep:
  assumes "updateDynamicFileAttribs infos p now st = Some st'"
  shows "userID (settable st') = userID (settable st) \<and> groupID (settable st') = groupID (settable st) \<and>
    mode (settable st') = mode (settable st) \<and> nlink st' = nlink st \<and>
    creationTimeSecs st' = creationTimeSecs st"
  using assms unfolding updateDynamicFileAttribs_def Let_def
  by (auto split: list.splits if_splits option.splits prod.splits
      simp: updateSparseFlag_def setSparseFlag_def unsetSparseFlag_def Let_def)

lemma updateDynamicAttribs_keep:
  assumes "updateDynamicAttribs now f = Some f'"
  shows "owner_part f' = owner_part f \<and> fiIsInlined f' = fiIsInlined f \<and>
    fiInfoVec f' = fiInfoVec f \<and> inodePattern (fiData f') = inodePattern (fiData f) \<and>
    compatEntryType f' = compatEntryType f \<and> compatFeatureFlags f' = compatFeatureFlags f"
  using assms dyn_attribs_keep
  by (auto simp: updateDynamicAttribs_def owner_part_def split: option.splits)

lemma setUpdatedTargets_keep:
  assumes "setUpdatedTargets updated f = Some f'"
  shows "owner_part f' = owner_part f \<and> fiIsInlined f' = fiIsInlined f \<and>
    compatEntryType f' = compatEntryType f \<and> compatFeatureFlags f' = compatFeatureFlags f"
  using assms by (auto simp: setUpdatedTargets_def owner_part_def split: option.splits)

lemma serializeMetaData_Some:
  "serializeMetaData cfg now f = Some (buf, f') \<longleftrightarrow>
     updateDynamicAttribs now f = Some f' \<and> length buf \<le> META_SERBUF_SIZE \<and>
     (\<exists>d. serializeFileInode (unusedBytes cfg) (compatDentry cfg f') (fiData f') = Some (buf, d))"
  by (auto simp: serializeMetaData_def split: option.splits)

lemma storeInodeFile_keep:
  assumes "storeInodeFile cfg now updated f fs = Some (stored, f', fs')"
  shows "owner_part f' = owner_part f \<and> fiIsInlined f' = fiIsInlined f \<and>
    compatEntryType f' = compatEntryType f \<and> compatFeatureFlags f' = compatFeatureFlags f"
  using assms unfolding storeInodeFile_def
  by (auto simp: serializeMetaData_Some bind_eq_Some_conv split: option.splits prod.splits
      dest!: setUpdatedTargets_keep updateDynamicAttribs_keep)

lemma storeInlined_keep:
  assumes "storeUpdatedInlinedInode cfg now info updated f fs = Some (res, f', fs')"
  shows "owner_part f' = owner_part f \<and> fiIsInlined f' = fiIsInlined f \<and>
    compatEntryType f' = compatEntryType f \<and> compatFeatureFlags f' = compatFeatureFlags f"
  using assms unfolding storeUpdatedInlinedInode_def
  by (auto simp: bind_eq_Some_conv Let_def split: option.splits prod.splits
      dest!: setUpdatedTargets_keep updateDynamicAttribs_keep)

lemma store_keep:
  assumes "fi_storeUpdatedInode cfg now info updated f fs = Some (stored, f', fs')"
  shows "owner_part f' = owner_part f"
  using assms unfolding fi_storeUpdatedInode_def
  by (auto split: if_splits option.splits dest!: storeInodeFile_keep storeInlined_keep
      simp: owner_part_def)

section \<open>The record of an inode is read back\<close>

definition inode_record :: "MetaConfig \<Rightarrow> FileInode \<Rightarrow> u8 list option" where
  "inode_record cfg f =
     map_option fst (serializeFileInode (unusedBytes cfg) (compatDentry cfg f) (fiData f))"

text \<open>What the record takes for the entry, and the inodes whose records are read back.\<close>

definition recordDentry :: "MetaConfig \<Rightarrow> FileInode \<Rightarrow> DentryStoreData" where
  "recordDentry cfg f = setEntryTypeByMode (fiData f) (compatDentry cfg f)"

definition inode_writable :: "MetaConfig \<Rightarrow> FileInode \<Rightarrow> bool" where
  "inode_writable cfg f \<longleftrightarrow> entry_disk_ok (recordDentry cfg f) (fiData f) \<and>
     \<not> DirEntryType_ISDIR (entryType (recordDentry cfg f)) \<and>
     (case inode_record cfg f of None \<Rightarrow> False | Some buf \<Rightarrow> length buf \<le> DIRENTRY_SERBUF_SIZE)"

lemma recordDentry_simps [simp]:
  "dentryID (recordDentry cfg f) = inodeID (fiData f)"
  "dentryFeatureFlags (recordDentry cfg f) = ucast (compatFeatureFlags f)"
  by (simp_all add: recordDentry_def setEntryTypeByMode_def compatDentry_def)

lemma inode_record_Some:
  "inode_record cfg f = Some buf \<longleftrightarrow>
     serializeFileInode (unusedBytes cfg) (compatDentry cfg f) (fiData f) = Some (buf, recordDentry cfg f)"
  by (auto simp: inode_record_def serializeFileInode_def recordDentry_def Let_def)

lemma record_not_empty: "inode_record cfg f = Some buf \<Longrightarrow> buf \<noteq> []"
  by (auto simp: inode_record_def serializeFileInode_def serializeInDentryFormat_def Let_def
      serializeUInt8_def serializeChar_def split: if_splits)

lemma serialize_record:
  assumes "serializeMetaData cfg now f = Some (buf, f')"
  shows "inode_record cfg f' = Some buf" "updateDynamicAttribs now f = Some f'"
  using assms by (auto simp: serializeMetaData_Some inode_record_def)

lemma record_read:
  assumes "inode_record cfg f = Some buf" "inode_writable cfg f"
  shows "deserializeMetaData cfg (buf @ rest) g =
    Some (Some (g\<lparr>fiData := inode_restored (recordDentry cfg f) (fiData f) (fiData g),
      compatEntryType := entryType (recordDentry cfg f),
      compatFeatureFlags := ucast (ucast (compatFeatureFlags f) :: u16)\<rparr>))"
proof -
  obtain type where bs: "serializeInDentryFormat (unusedBytes cfg) type (recordDentry cfg f) (fiData f) =
      Some buf"
    using assms(1) by (auto simp: inode_record_def serializeFileInode_def recordDentry_def Let_def
        split: if_splits)
  have ok: "entry_disk_ok (recordDentry cfg f) (fiData f)" "length buf \<le> DIRENTRY_SERBUF_SIZE"
    "\<not> DirEntryType_ISDIR (entryType (recordDentry cfg f))"
    using assms by (auto simp: inode_writable_def)
  obtain rest' where "stackBuf cfg META_SERBUF_SIZE (buf @ rest) = buf @ rest'"
    using stackBuf_append by blast
  with deserializeDentry_back [OF entry_back [OF ok(1) bs unusedBytes_length] ok(2)] ok(3)
  show ?thesis
    by (simp add: deserializeMetaData_def deserializeFileInode_def entry_restored_def Let_def)
qed

section \<open>The path of the chunk files\<close>

text \<open>
  The chunk files of a file are found by the user and the directory of its creation. They are
  right if the inode has these two, and a flag for the user when the owner is another one now.
\<close>

definition chunk_path_ok :: "u32 \<Rightarrow> string \<Rightarrow> FileInode \<Rightarrow> bool" where
  "chunk_path_ok uid parent f \<longleftrightarrow>
     origFeature (fiData f) = FileInodeOrigFeature_TRUE \<and> origParentUID (fiData f) = uid \<and>
     origParentEntryID (fiData f) = parent \<and>
     (userID (settable (inodeStatData (fiData f))) \<noteq> uid \<longrightarrow>
        hasInodeFlag FILEINODE_FEATURE_HAS_ORIG_UID (fiData f))"

abbreviation parent_stored :: "FileInode \<Rightarrow> bool" where
  "parent_stored f \<equiv> hasInodeFlag FILEINODE_FEATURE_HAS_ORIG_PARENTID (fiData f)"

lemma path_of_owner_part: "owner_part f' = owner_part f \<Longrightarrow>
    chunk_path_ok uid parent f' = chunk_path_ok uid parent f \<and> parent_stored f' = parent_stored f"
  by (simp add: owner_part_def chunk_path_ok_def hasInodeFlag_def)

lemma chunk_path_info:
  "chunk_path_ok uid parent f \<Longrightarrow> getPathInfo (fiData f) =
     \<lparr>piFlags = PATHINFO_FEATURE_ORIG, piOrigUID = uid, piOrigParentEntryID = parent\<rparr>"
  by (simp add: chunk_path_ok_def getPathInfo_def)

lemma path_restored:
  assumes "chunk_path_ok uid parent f" "fiData f' = inode_restored d (fiData f) i0"
  shows "chunk_path_ok uid (if parent_stored f then parent else origParentEntryID i0) f' \<and>
    parent_stored f' = parent_stored f"
  using assms
  by (auto simp: chunk_path_ok_def inode_restored_def Let_def keep_def stat_restored_def
      hasInodeFlag_def)

text \<open>The operations on an inode that is in memory, as one function of the call.\<close>

datatype InodeCall =
    SetAttr i32 SettableFileAttribs | LinkCount i32 | StoreInode "StripePattern option"
  | ChangeTime | OpenSession u32 | CloseSession u32 | DynAttribs "DynamicFileAttribs list"
  | StatInode | InlineInode bool | MoveOut | IncHsm | DecHsm | HsmCollocation u16

fun inode_call ::
    "MetaConfig \<Rightarrow> i64 \<Rightarrow> EntryInfo \<Rightarrow> InodeCall \<Rightarrow> FileInode \<Rightarrow> MetaFs \<Rightarrow> (FileInode \<times> MetaFs) option"
  where
  "inode_call cfg now info (SetAttr valid attribs) f fs =
     map_option snd (setAttrData cfg now info valid attribs f fs)"
| "inode_call cfg now info (LinkCount v) f fs =
     map_option snd (fi_incDecNumHardLinks cfg now info v f fs)"
| "inode_call cfg now info (StoreInode updated) f fs =
     map_option snd (updateInodeOnDisk cfg now info updated f fs)"
| "inode_call cfg now info ChangeTime f fs =
     map_option snd (updateInodeChangeTime cfg now info f fs)"
| "inode_call cfg now info (OpenSession flags) f fs = Some (incNumSessions flags f, fs)"
| "inode_call cfg now info (CloseSession flags) f fs =
     decNumSessionsAndStore cfg now info flags f fs"
| "inode_call cfg now info (DynAttribs newAttribs) f fs = Some (snd (setDynAttribs newAttribs f), fs)"
| "inode_call cfg now info StatInode f fs =
     map_option (\<lambda>(res, st, f1). (f1, fs)) (fi_getStatData now f)"
| "inode_call cfg now info (InlineInode value) f fs = Some (setIsInlined value f, fs)"
| "inode_call cfg now info MoveOut f fs =
     map_option (\<lambda>(buf, f1). (f1, fs))
       (serializeMetaData cfg now
         (f\<lparr>fiData := setPersistentOrigParentEntryID (infoParentEntryID info) (fiData f)\<rparr>))"
| "inode_call cfg now info IncHsm f fs = fi_incHsmChunks cfg now info f fs"
| "inode_call cfg now info DecHsm f fs = fi_decHsmChunks cfg now info f fs"
| "inode_call cfg now info (HsmCollocation c) f fs = setAndStoreHsmCollocationID cfg now info c f fs"

text \<open>
  The steps of an inode whose files other threads change meanwhile. An entry that is moved to
  another server is in the directory of its creation, unless that one is stored already.
\<close>

inductive inode_step :: "MetaConfig \<Rightarrow> string \<Rightarrow> FileInode \<times> MetaFs \<Rightarrow> FileInode \<times> MetaFs \<Rightarrow> bool"
  for cfg parent where
  call: "inode_call cfg now info c f fs = Some (f', fs') \<Longrightarrow>
     c = MoveOut \<longrightarrow> parent_stored f \<or> infoParentEntryID info = parent \<Longrightarrow>
     inode_step cfg parent (f, fs) (f', fs')"
| others: "inode_step cfg parent (f, fs) (f, fs')"

inductive_cases inode_stepE: "inode_step cfg parent (f, fs) (f', fs')"

lemma flag_or: "hasInodeFlag g d \<Longrightarrow> hasInodeFlag g (addInodeFeatureFlag h d)"
  by (simp add: hasInodeFlag_def addInodeFeatureFlag_def word_ao_dist or_eq_0_iff)

lemma flag_added: "g \<noteq> 0 \<Longrightarrow> hasInodeFlag g (addInodeFeatureFlag g d)"
  by (simp add: hasInodeFlag_def addInodeFeatureFlag_def word_ao_dist or_eq_0_iff)

lemma and_not_disjoint:
  fixes x g h :: "'a::len word"
  assumes "g AND h = 0"
  shows "(x AND NOT h) AND g = x AND g"
proof (rule bit_word_eqI)
  fix n
  assume "n < LENGTH('a)"
  moreover have "\<not> bit (g AND h) n" using assms by simp
  ultimately show "bit ((x AND NOT h) AND g) n = bit (x AND g) n" by (auto simp: bit_simps)
qed

lemma flag_removed: "g AND h = 0 \<Longrightarrow> hasInodeFlag g (removeInodeFeatureFlag h d) = hasInodeFlag g d"
  by (simp add: hasInodeFlag_def removeInodeFeatureFlag_def and_not_disjoint)

lemmas flag_numbers = FILEINODE_FEATURE_HAS_ORIG_PARENTID_def FILEINODE_FEATURE_HAS_ORIG_UID_def
  FILEINODE_FEATURE_HSM_def

text \<open>What an inode may gain: the flags. The rest of the path of its chunk files stays.\<close>

definition path_kept :: "FileInodeStoreData \<Rightarrow> FileInodeStoreData \<Rightarrow> bool" where
  "path_kept d d' \<longleftrightarrow> origFeature d' = origFeature d \<and> origParentUID d' = origParentUID d \<and>
     origParentEntryID d' = origParentEntryID d \<and>
     userID (settable (inodeStatData d')) = userID (settable (inodeStatData d)) \<and>
     (hasInodeFlag FILEINODE_FEATURE_HAS_ORIG_UID d \<longrightarrow>
        hasInodeFlag FILEINODE_FEATURE_HAS_ORIG_UID d') \<and>
     (hasInodeFlag FILEINODE_FEATURE_HAS_ORIG_PARENTID d \<longrightarrow>
        hasInodeFlag FILEINODE_FEATURE_HAS_ORIG_PARENTID d')"

lemma path_kept_ok: "path_kept (fiData f) (fiData f') \<Longrightarrow> chunk_path_ok uid parent f \<Longrightarrow>
    chunk_path_ok uid parent f' \<and> (parent_stored f \<longrightarrow> parent_stored f')"
  by (auto simp: path_kept_def chunk_path_ok_def)

lemma path_kept_refl [simp]: "path_kept d d"
  by (simp add: path_kept_def)

lemma path_kept_trans: "path_kept d1 d2 \<Longrightarrow> path_kept d2 d3 \<Longrightarrow> path_kept d1 d3"
  by (auto simp: path_kept_def)

lemma path_kept_owner: "owner_part f' = owner_part f \<Longrightarrow> path_kept (fiData f) (fiData f')"
  by (simp add: path_kept_def owner_part_def hasInodeFlag_def)

lemma path_kept_add [simp]: "path_kept d (addInodeFeatureFlag g d)"
  unfolding path_kept_def by (simp add: flag_or) (simp add: addInodeFeatureFlag_def)

lemma path_kept_hsm_data [simp]:
  "path_kept d (addInodeFeatureFlag g (d\<lparr>hsmFileMetaData := h\<rparr>))"
  by (rule path_kept_trans [OF _ path_kept_add]) (simp add: path_kept_def hasInodeFlag_def)

lemma path_kept_hsm [simp]: "path_kept d (updateHsmFlag (d\<lparr>hsmFileMetaData := h\<rparr>))"
  unfolding path_kept_def updateHsmFlag_def
  by (auto simp: flag_or flag_removed flag_numbers)
    (auto simp: addInodeFeatureFlag_def removeInodeFeatureFlag_def hasInodeFlag_def
      or_eq_0_iff word_ao_dist)

lemma path_kept_store:
  assumes "fi_storeUpdatedInode cfg now info updated f fs = Some (stored, f', fs')"
    "path_kept d (fiData f)"
  shows "path_kept d (fiData f')"
  using assms(2) path_kept_owner [OF store_keep [OF assms(1)]] by (rule path_kept_trans)

lemma path_kept_stat [simp]:
  "userID (settable (g (inodeStatData (fiData f)))) = userID (settable (inodeStatData (fiData f))) \<Longrightarrow>
     path_kept (fiData f) (fiData (fi_updateStat g f))"
  by (simp add: path_kept_def fi_updateStat_def hasInodeFlag_def)

lemma nlink_kept [simp]: "settable (incDecNumHardLinks v st) = settable st"
  by (simp add: incDecNumHardLinks_def)

lemma path_kept_inline: "path_kept (fiData f) (fiData (setIsInlined value f))"
  by (simp add: setIsInlined_def)

lemma path_kept_sessions: "path_kept (fiData f) (fiData (incNumSessions flags f))"
  "path_kept (fiData f) (fiData (decNumSessions flags f))"
  by (simp_all add: incNumSessions_def decNumSessions_def)

lemma applyAttribs_fields:
  "origFeature (fiData (applyAttribs now valid attribs f)) = origFeature (fiData f)"
  "origParentUID (fiData (applyAttribs now valid attribs f)) = origParentUID (fiData f)"
  "origParentEntryID (fiData (applyAttribs now valid attribs f)) = origParentEntryID (fiData f)"
  "userID (settable (inodeStatData (fiData (applyAttribs now valid attribs f)))) =
     (if changes valid SETATTR_CHANGE_USERID then userID attribs
      else userID (settable (inodeStatData (fiData f))))"
  "inodeFeatureFlags (fiData (applyAttribs now valid attribs f)) =
     (if changes valid SETATTR_CHANGE_USERID \<and> userID attribs \<noteq> origParentUID (fiData f) \<and>
         origFeature (fiData f) = FileInodeOrigFeature_TRUE
      then inodeFeatureFlags (fiData f) OR FILEINODE_FEATURE_HAS_ORIG_UID
      else inodeFeatureFlags (fiData f))"
  by (simp_all add: applyAttribs_def fi_updateStat_def addInodeFeatureFlag_def Let_def)

lemma applyAttribs_path:
  assumes "chunk_path_ok uid parent f"
  shows "chunk_path_ok uid parent (applyAttribs now valid attribs f) \<and>
    (hasInodeFlag g (fiData f) \<longrightarrow> hasInodeFlag g (fiData (applyAttribs now valid attribs f)))"
  using assms
  by (simp add: chunk_path_ok_def hasInodeFlag_def applyAttribs_fields flag_numbers word_ao_dist
      or_eq_0_iff)

lemma setAttr_path:
  assumes "setAttrData cfg now info valid attribs f fs = Some (stored, f', fs')"
    and ok: "chunk_path_ok uid parent f"
  shows "chunk_path_ok uid parent f' \<and> (parent_stored f \<longrightarrow> parent_stored f')"
proof -
  let ?f0 = "applyAttribs now valid attribs f"
  obtain f1 where f1: "fi_storeUpdatedInode cfg now info None ?f0 fs = Some (stored, f1, fs')"
    and f': "f' = (if stored then applyChunkTimes valid attribs f1
      else fi_updateStat (\<lambda>st. st\<lparr>settable := settable (inodeStatData (fiData f))\<rparr>) f1)"
    using assms(1) by (auto simp: setAttrData_def Let_def split: if_splits)
  have "owner_part f1 = owner_part ?f0" using store_keep [OF f1] .
  then have f1_ok: "chunk_path_ok uid parent f1" "parent_stored f \<Longrightarrow> parent_stored f1"
    "hasInodeFlag FILEINODE_FEATURE_HAS_ORIG_UID (fiData f) \<Longrightarrow>
       hasInodeFlag FILEINODE_FEATURE_HAS_ORIG_UID (fiData f1)"
    using applyAttribs_path [OF ok] path_of_owner_part [of f1 ?f0]
    by (auto simp: owner_part_def hasInodeFlag_def)
  show ?thesis
    using f1_ok ok
    by (auto simp: f' applyChunkTimes_def chunk_path_ok_def fi_updateStat_def hasInodeFlag_def)
qed

lemma path_kept_dyn: "updateDynamicAttribs now f = Some f' \<Longrightarrow> path_kept (fiData f) (fiData f')"
  by (auto dest: updateDynamicAttribs_keep intro: path_kept_owner)

lemma path_kept_stored:
  assumes "map_option snd (fi_storeUpdatedInode cfg now info updated f0 fs) = Some (f', fs')"
    "path_kept d (fiData f0)"
  shows "path_kept d (fiData f')"
  using assms by (auto intro: path_kept_store)

text \<open>The calls other than a change of the attributes and a move.\<close>

lemma plain_call_path:
  assumes "inode_call cfg now info c f fs = Some (f', fs')"
    and "\<forall>valid attribs. c \<noteq> SetAttr valid attribs" "c \<noteq> MoveOut"
  shows "path_kept (fiData f) (fiData f')"
proof (cases c)
  case (LinkCount v)
  then obtain stored f1 where "fi_storeUpdatedInode cfg now info None
      (fi_updateStat (\<lambda>st. (incDecNumHardLinks v st)\<lparr>attribChangeTimeSecs := now\<rparr>) f) fs =
      Some (stored, f1, fs')"
    and f': "f' = (if stored then f1 else fi_updateStat (incDecNumHardLinks (- v)) f1)"
    using assms(1) by (auto simp: fi_incDecNumHardLinks_def)
  then have "path_kept (fiData f) (fiData f1)" by (auto elim: path_kept_store)
  then show ?thesis by (auto simp: f' intro: path_kept_trans)
next
  case (DynAttribs as)
  then show ?thesis using assms(1) by (auto simp: setDynAttribs_def split: if_splits)
next
  case StatInode
  then show ?thesis using assms(1) by (auto simp: fi_getStatData_def dest: path_kept_dyn)
next
  case (StoreInode updated)
  then show ?thesis using assms(1) by (simp add: updateInodeOnDisk_def path_kept_stored)
next
  case ChangeTime
  then show ?thesis using assms(1) by (auto simp: updateInodeChangeTime_def elim!: path_kept_store)
next
  case (CloseSession flags)
  then show ?thesis
    using assms(1) path_kept_sessions(2)
    by (auto simp: decNumSessionsAndStore_def elim: path_kept_store)
next
  case IncHsm
  then show ?thesis
    using assms(1)
    by (auto simp: fi_incHsmChunks_def incHsmOfflineFileChunkCount_def elim!: path_kept_store
        split: option.splits if_splits)
next
  case DecHsm
  then show ?thesis
    using assms(1)
    by (auto simp: fi_decHsmChunks_def decHsmOfflineFileChunkCount_def elim!: path_kept_store
        split: if_splits)
next
  case (HsmCollocation v)
  then show ?thesis
    using assms(1)
    by (auto simp: setAndStoreHsmCollocationID_def setHsmCollocationID_def elim!: path_kept_store)
qed (use assms path_kept_sessions path_kept_inline in auto)

lemma moveOut_path:
  assumes "inode_call cfg now info MoveOut f fs = Some (f', fs')" "chunk_path_ok uid parent f"
    and "parent_stored f \<or> infoParentEntryID info = parent"
  shows "chunk_path_ok uid parent f' \<and> parent_stored f'"
proof -
  let ?d = "setPersistentOrigParentEntryID (infoParentEntryID info) (fiData f)"
  have "chunk_path_ok uid parent (f\<lparr>fiData := ?d\<rparr>) \<and> parent_stored (f\<lparr>fiData := ?d\<rparr>)"
    using assms(2,3)
    by (auto simp: setPersistentOrigParentEntryID_def chunk_path_ok_def flag_added flag_numbers)
      (auto simp: addInodeFeatureFlag_def hasInodeFlag_def word_ao_dist or_eq_0_iff)
  moreover obtain buf where "serializeMetaData cfg now (f\<lparr>fiData := ?d\<rparr>) = Some (buf, f')"
    using assms(1) by auto
  ultimately show ?thesis
    using path_kept_ok [OF path_kept_dyn [OF serialize_record(2)]] by blast
qed

lemma inode_step_path:
  assumes "inode_step cfg parent s s'" "chunk_path_ok uid parent (fst s)"
  shows "chunk_path_ok uid parent (fst s')"
  using assms
proof cases
  case (call now info c f fs f' fs')
  then show ?thesis
    using assms(2) path_kept_ok [OF plain_call_path, of cfg now info c f fs f' fs' uid parent]
      moveOut_path [of cfg now info f fs f' fs' uid parent]
    by (cases c) (auto dest: setAttr_path)
qed auto

lemma inode_run_path:
  assumes "(inode_step cfg parent)\<^sup>*\<^sup>* s s'" "chunk_path_ok uid parent (fst s)"
  shows "chunk_path_ok uid parent (fst s')"
  using assms by (induction rule: rtranclp_induct) (auto intro: inode_step_path)

lemma chunk_path_kept_parts:
  assumes "chunk_path_ok uid parent f" "(inode_step cfg parent)\<^sup>*\<^sup>* (f, fs) (f', fs')"
  shows "getPathInfo (fiData f') =
      \<lparr>piFlags = PATHINFO_FEATURE_ORIG, piOrigUID = uid, piOrigParentEntryID = parent\<rparr>"
    and "inode_record cfg f' = Some buf \<Longrightarrow> inode_writable cfg f' \<Longrightarrow>
      \<exists>g'. deserializeMetaData cfg (buf @ rest) g = Some (Some g') \<and>
        chunk_path_ok uid (if parent_stored f' then parent else origParentEntryID (fiData g)) g'"
proof -
  have ok: "chunk_path_ok uid parent f'" using inode_run_path [OF assms(2)] assms(1) by simp
  show "getPathInfo (fiData f') =
      \<lparr>piFlags = PATHINFO_FEATURE_ORIG, piOrigUID = uid, piOrigParentEntryID = parent\<rparr>"
    by (rule chunk_path_info [OF ok])
  assume "inode_record cfg f' = Some buf" "inode_writable cfg f'"
  from record_read [OF this, of rest g] show "\<exists>g'. deserializeMetaData cfg (buf @ rest) g =
      Some (Some g') \<and>
      chunk_path_ok uid (if parent_stored f' then parent else origParentEntryID (fiData g)) g'"
    using path_restored [OF ok, of _ _ "fiData g"] by fastforce
qed

text \<open>
  C29: The path of the chunk files of a file stays known in memory. Given that it is known - the
  user and the directory of the file's creation - it remains known after any sequence of
  operations on the inode (\<open>InodeCall\<close>), also after operations whose storing failed: messages carry
  the same path. An inode whose original parent is not stored is moved to another server only from
  an entry of that directory. A record that is written at any time (and fits the formats,
  \<open>inode_writable\<close>) gives the user again when it is read. It gives the directory again only if this
  has become part of the record (\<open>parent_stored\<close>, as it does when the inode leaves its entry or its
  server); otherwise the reader has to know it, as the directory of the object that the record is
  read into is kept (C20 is a case where it is lost).
\<close>

theorem chunk_path_kept:
  assumes "chunk_path_ok uid parent f" "(inode_step cfg parent)\<^sup>*\<^sup>* (f, fs) (f', fs')"
  shows "getPathInfo (fiData f') =
      \<lparr>piFlags = PATHINFO_FEATURE_ORIG, piOrigUID = uid, piOrigParentEntryID = parent\<rparr> \<and>
    (inode_record cfg f' = Some buf \<and> inode_writable cfg f' \<longrightarrow>
      (\<exists>g'. deserializeMetaData cfg (buf @ rest) g = Some (Some g') \<and>
        chunk_path_ok uid (if parent_stored f' then parent else origParentEntryID (fiData g)) g'))"
  using chunk_path_kept_parts [OF assms] by blast

section \<open>A stored inode is loaded\<close>

lemma initTargets_Some:
  "blocks_wf (chunkBlocksVec st) \<Longrightarrow> \<exists>v. initTargets st c cl full k t r = Some v"
proof (induction k arbitrary: t r)
  case (Suc k)
  obtain b where "getTargetBlocks t (chunkBlocksVec st) = Some b"
    using getTargetBlocks_wf [OF Suc.prems] by blast
  with Suc show ?case by (fastforce simp: Let_def)
qed simp

lemma fi_init_Some:
  assumes "inodePattern (fiData f) = Some p" "blocks_wf (chunkBlocksVec (inodeStatData (fiData f)))"
  shows "\<exists>v. fi_initFileInfoVec f = Some (f\<lparr>fiInfoVec := v\<rparr>)"
proof -
  obtain v where "initFileInfoVec p (inodeStatData (fiData f)) = Some v"
    unfolding initFileInfoVec_def Let_def using initTargets_Some [OF assms(2)] by blast
  with assms(1) show ?thesis by (auto simp: fi_initFileInfoVec_def)
qed

lemma restored_blocks:
  "blocks_wf (chunkBlocksVec (inodeStatData (inode_restored d i (freshInodeData cfg))))"
  by (simp add: inode_restored_def freshInodeData_def stat_restored_def blocks_wf_def
      newChunksBlocksVec_def Let_def unat_of_nat)

text \<open>The record in a file: where it is after a success, and what else may have changed.\<close>

lemma inode_in_place_spec:
  assumes "storeMetaBufInPlace p buf fs = (True, fs')"
  shows "\<exists>old. record_at cfg fs' p = Some (buf @ old) \<or> storeUseExtendedAttribs cfg"
proof -
  obtain n fs1 where r1: "sys_open_create p fs = (Inr n, fs1)"
    and step: "(case reserveSpace n (length buf) fs1 of
             (False, fs2) \<Rightarrow> (False, fs2)
           | (True, fs2) \<Rightarrow>
               (case sys_write n buf fs2 of (r, fs3) \<Rightarrow> (r = Inr (length buf), fs3))) = (True, fs')"
    using assms by (auto simp: storeMetaBufInPlace_def split: sum.splits prod.splits)
  obtain fs2 where r2: "reserveSpace n (length buf) fs1 = (True, fs2)"
    and r3: "sys_write n buf fs2 = (Inr (length buf), fs')"
    using step by (auto split: prod.splits bool.splits)
  have "fsLinks fs1 p = Some n" using open_create_spec [OF r1] by (auto dest!: core_parts)
  moreover have "fsLinks fs2 = fsLinks fs1" using reserve_spec [OF r2] by simp
  moreover have "fsLinks fs' = fsLinks fs2" "\<exists>old. fileContents (fsObjects fs' n) = buf @ old"
    using write_spec [OF r3] by (auto dest!: core_parts simp: overwrite_def)
  ultimately show ?thesis by (auto simp: record_at_def storedIn_def)
qed

lemma stored_record:
  assumes "storeUpdatedMetaDataBuf cfg eid buf fs = (True, fs')"
  shows "\<exists>old. record_at cfg fs' (InodePath eid) = Some (buf @ old) \<and>
    (storeUseExtendedAttribs cfg \<longrightarrow> old = [])"
proof (cases "storeUseExtendedAttribs cfg")
  case True
  then have "sys_setxattr (InodePath eid) buf fs = (Inr (), fs')"
    using assms by (auto simp: storeUpdatedMetaDataBuf_def storeMetaBufAsXAttr_def split: prod.splits)
  from setxattr_spec [OF this] True show ?thesis
    by (auto dest!: core_parts simp: record_at_def storedIn_def)
next
  case False
  then have st: "storeMetaBufAsContents eid buf fs = (True, fs')"
    using assms by (simp add: storeUpdatedMetaDataBuf_def)
  obtain r1 fs1 where r1: "sys_open_trunc (InodeUpdatePath eid) fs = (r1, fs1)" by fastforce
  have "(\<exists>gs. storeMetaBufInPlace (InodePath eid) buf gs = (True, fs')) \<or>
    (\<exists>n fs2. r1 = Inr n \<and> sys_write n buf fs1 = (Inr (length buf), fs2) \<and>
      sys_rename (InodeUpdatePath eid) (InodePath eid) fs2 = (Inr (), fs'))"
    using st r1 by (auto simp: storeMetaBufAsContents_def Let_def split: sum.splits prod.splits if_splits)
  then consider (place) gs where "storeMetaBufInPlace (InodePath eid) buf gs = (True, fs')"
    | (renamed) n fs2 where "r1 = Inr n" "sys_write n buf fs1 = (Inr (length buf), fs2)"
        "sys_rename (InodeUpdatePath eid) (InodePath eid) fs2 = (Inr (), fs')" by blast
  then show ?thesis
  proof cases
    case place
    from inode_in_place_spec [OF this, of cfg] False show ?thesis by auto
  next
    case renamed
    have "fsLinks fs1 (InodeUpdatePath eid) = Some n"
      using open_trunc_spec [OF r1] renamed(1) by (auto dest!: core_parts)
    moreover have "fsLinks fs2 = fsLinks fs1" "\<exists>old. fileContents (fsObjects fs2 n) = buf @ old"
      using write_spec [OF renamed(2)] by (auto dest!: core_parts simp: overwrite_def)
    moreover have "fsLinks fs' (InodePath eid) = fsLinks fs2 (InodeUpdatePath eid)"
      "fsObjects fs' = fsObjects fs2"
      using rename_spec [OF renamed(3)] by (auto dest!: core_parts)
    ultimately show ?thesis using False by (auto simp: record_at_def storedIn_def)
  qed
qed

text \<open>
  The attributes that a user of the file sees; the default number of targets, which only new
  files take from a pattern, is not one of them.
\<close>

definition pattern_layout :: "StripePattern \<Rightarrow> PatternClass \<times> u32 \<times> u16 list \<times> u16 list" where
  "pattern_layout p = (patternClass p, chunkSize p, stripeTargetIDs p, mirrorTargetIDs p)"

definition inode_view where
  "inode_view d =
     (let st = inodeStatData d
      in (settable st, statFileSize st, nlink st, contentsVersion st,
          creationTimeSecs st, attribChangeTimeSecs st, map_option pattern_layout (inodePattern d)))"

lemma restored_view: "inode_view (inode_restored d i i0) = inode_view i"
  by (cases "inodePattern i")
    (simp_all add: inode_view_def inode_restored_def stat_restored_def pattern_layout_def Let_def)

lemma clone_layout: "pattern_ok p \<Longrightarrow> pattern_ok (clonePattern p) \<and> pattern_layout (clonePattern p) = pattern_layout p"
  by (cases "patternClass p")
    (auto simp: pattern_ok_def pattern_layout_def clonePattern_def cloneWithTargets_def
      Raid0Pattern_def Raid10Pattern_def BuddyMirrorPattern_def withTargets_def newPattern_def
      calcStripeSetSize_def classType_def)

lemma inline_view [simp]: "inode_view (fiData (setIsInlined v f)) = inode_view (fiData f)"
  by (simp add: setIsInlined_def inode_view_def addInodeFeatureFlag_def)

lemma load_inode_file:
  assumes at: "record_at cfg fs (InodePath (infoEntryID info)) = Some (buf @ old)"
    and "storeUseExtendedAttribs cfg \<longrightarrow> old = []"
    and rec: "inode_record cfg f = Some buf" and ok: "inode_writable cfg f"
  shows "\<exists>g. createFromInodeFile cfg info (calm fs) = Some (Some (setIsInlined False g), calm fs) \<and>
    fiData g = inode_restored (recordDentry cfg f) (fiData f) (freshInodeData cfg)"
proof -
  let ?i = "inode_restored (recordDentry cfg f) (fiData f) (freshInodeData cfg)"
  obtain n where n: "fsLinks fs (InodePath (infoEntryID info)) = Some n"
    "storedIn cfg (fsObjects fs n) = Some (buf @ old)"
    using at by (auto simp: record_at_def split: option.splits)
  have len: "length buf \<le> DIRENTRY_SERBUF_SIZE"
    using ok rec by (simp add: inode_writable_def)
  then have meta: "length buf \<le> META_SERBUF_SIZE"
    by (simp add: DIRENTRY_SERBUF_SIZE_def META_SERBUF_SIZE_def)
  obtain old' b bs where b: "take META_SERBUF_SIZE (buf @ old) = b # bs" "b # bs = buf @ old'"
    using record_not_empty [OF rec] meta by (cases buf) (auto simp: META_SERBUF_SIZE_def)
  define g0 where "g0 = (blankFileInode cfg)\<lparr>fiData := ?i,
    compatEntryType := entryType (recordDentry cfg f),
    compatFeatureFlags := ucast (ucast (compatFeatureFlags f) :: u16)\<rparr>"
  have des: "deserializeMetaData cfg (b # bs) (blankFileInode cfg) = Some (Some g0)"
    unfolding b(2) record_read [OF rec ok] by (simp add: g0_def blankFileInode_def)
  obtain p where "inodePattern (fiData f) = Some p"
    using ok by (auto simp: inode_writable_def entry_disk_ok_def inode_disk_ok_def split: option.splits)
  then have "inodePattern (fiData g0) = Some (p\<lparr>serialPatternLength := 0\<rparr>)"
    "blocks_wf (chunkBlocksVec (inodeStatData (fiData g0)))"
    using restored_blocks by (simp_all add: g0_def inode_restored_def Let_def)
  from fi_init_Some [OF this] obtain v where "fi_initFileInfoVec g0 = Some (g0\<lparr>fiInfoVec := v\<rparr>)"
    by blast
  then have rd: "fi_loadRecord cfg (b # bs) (blankFileInode cfg) gs = Some (Some (g0\<lparr>fiInfoVec := v\<rparr>), gs)"
    for gs using des by (simp add: fi_loadRecord_def)
  have "loadFromInodeFile cfg info (blankFileInode cfg) (calm fs) =
      Some (Some (g0\<lparr>fiInfoVec := v\<rparr>), calm fs)"
  proof (cases "storeUseExtendedAttribs cfg")
    case True
    then have "metaXAttr (fsObjects fs n) = Some (b # bs)" "length (b # bs) \<le> META_SERBUF_SIZE"
      using n(2) assms(2) b meta by (auto simp: storedIn_def)
    then have "sys_getxattr (InodePath (infoEntryID info)) META_SERBUF_SIZE (calm fs) =
        (Inr (b # bs), calm fs)"
      using n(1) by (simp add: sys_getxattr_def sys_no_faults)
    with True rd show ?thesis by (simp add: loadFromInodeFile_def fi_loadFromFileXAttr_def)
  next
    case False
    then have "take META_SERBUF_SIZE (fileContents (fsObjects fs n)) = b # bs"
      using n(2) b by (simp add: storedIn_def)
    then have "sys_open_read (InodePath (infoEntryID info)) (calm fs) = (Inr n, calm fs)"
      "sys_read n META_SERBUF_SIZE (calm fs) = (Inr (b # bs), calm fs)"
      using n(1) by (simp_all add: sys_open_read_def sys_read_def sys_pread_def sys_no_faults)
    with False rd show ?thesis by (simp add: loadFromInodeFile_def fi_loadFromFileContents_def)
  qed
  then show ?thesis
    by (intro exI [of _ "g0\<lparr>fiInfoVec := v\<rparr>"]) (simp add: createFromInodeFile_def g0_def)
qed

lemma blank_parent [simp]: "origParentEntryID (freshInodeData cfg) = []"
  by (simp add: freshInodeData_def)

lemma deinlined_path: "chunk_path_ok uid parent g \<Longrightarrow>
    chunk_path_ok uid parent (setIsInlined False g) \<and> parent_stored (setIsInlined False g)"
  using path_kept_ok [OF path_kept_inline [of g False], of uid parent]
  by (auto simp: setIsInlined_def chunk_path_ok_def flag_added flag_numbers)

text \<open>A separate file: what was stored is loaded; the original parent only if it is marked.\<close>

lemma store_file_loads:
  assumes st: "storeInodeFile cfg now updated f fs = Some (True, f', fs')"
    and id: "infoEntryID info = inodeID (fiData f)" and ok: "inode_writable cfg f'"
  shows "\<exists>g. createFromInodeFile cfg info (calm fs') = Some (Some g, calm fs') \<and>
    inodeID (fiData g) = inodeID (fiData f') \<and> inode_view (fiData g) = inode_view (fiData f') \<and>
    \<not> fiIsInlined g \<and>
    (\<forall>uid parent. chunk_path_ok uid parent f' \<longrightarrow>
       chunk_path_ok uid (if parent_stored f' then parent else []) g \<and> parent_stored g)"
proof -
  obtain f0 buf where s: "serializeMetaData cfg now f0 = Some (buf, f')"
    and w: "storeUpdatedMetaDataBuf cfg (inodeID (fiData f')) buf fs = (True, fs')"
    using st by (auto simp: storeInodeFile_def bind_eq_Some_conv split: option.splits prod.splits)
  have "inodeID (fiData f') = infoEntryID info"
    using storeInodeFile_keep [OF st] id by (simp add: owner_part_def)
  with stored_record [OF w] obtain old
    where old: "record_at cfg fs' (InodePath (infoEntryID info)) = Some (buf @ old)"
      "storeUseExtendedAttribs cfg \<longrightarrow> old = []" by auto
  from load_inode_file [OF old serialize_record(1) [OF s] ok] obtain g where
    g: "createFromInodeFile cfg info (calm fs') = Some (Some (setIsInlined False g), calm fs')"
    and d: "fiData g = inode_restored (recordDentry cfg f') (fiData f') (freshInodeData cfg)" by blast
  have id': "inodeID (fiData (setIsInlined False g)) = inodeID (fiData g)" for g
    by (simp add: setIsInlined_def addInodeFeatureFlag_def)
  have inl: "\<not> fiIsInlined (setIsInlined False g)" by (simp add: setIsInlined_def)
  have path: "\<forall>uid parent. chunk_path_ok uid parent f' \<longrightarrow>
      chunk_path_ok uid (if parent_stored f' then parent else []) (setIsInlined False g) \<and>
      parent_stored (setIsInlined False g)"
    using path_restored [OF _ d, unfolded blank_parent] deinlined_path by blast
  have "inodeID (fiData g) = inodeID (fiData f')" "inode_view (fiData g) = inode_view (fiData f')"
    unfolding d by (simp_all add: restored_view) (simp add: inode_restored_def Let_def)
  then show ?thesis
    using g inl id' path by (intro exI [of _ "setIsInlined False g"]) auto
qed

text \<open>An inlined inode: its entry is loaded, gets the new data and is stored again.\<close>

lemma loaded_is_stored:
  assumes "loadFromFile cfg p e fs = Some (Some e', fs')"
  shows "loadFromFile cfg p e (calm fs) = Some (Some e', calm fs) \<and> core fs' = core fs"
proof (cases "storeUseExtendedAttribs cfg")
  case True
  then obtain b bs where r: "sys_getxattr p DIRENTRY_SERBUF_SIZE fs = (Inr (b # bs), fs')"
    and d: "de_deserializeDentry cfg (stackBuf cfg DIRENTRY_SERBUF_SIZE (b # bs)) e = Some (Some e')"
    using assms by (auto simp: loadFromFile_def loadFromFileXAttr_def withFs_def
        split: prod.splits sum.splits list.splits if_splits)
  have "sys_getxattr p DIRENTRY_SERBUF_SIZE (calm fs) = (Inr (b # bs), calm fs) \<and> core fs' = core fs"
    using r unfolding sys_getxattr_def
    by (cases rule: sys_cases) (auto simp: sys_no_faults split: option.splits if_splits)
  with True d show ?thesis by (simp add: loadFromFile_def loadFromFileXAttr_def withFs_def)
next
  case False
  then obtain n fs1 b bs where r: "sys_open_read p fs = (Inr n, fs1)"
      "sys_read n DIRENTRY_SERBUF_SIZE fs1 = (Inr (b # bs), fs')"
    and d: "de_deserializeDentry cfg (stackBuf cfg DIRENTRY_SERBUF_SIZE (b # bs)) e = Some (Some e')"
    using assms by (auto simp: loadFromFile_def loadFromFileContents_def withFs_def
        split: prod.splits sum.splits list.splits if_splits)
  have 1: "sys_open_read p (calm fs) = (Inr n, calm fs) \<and> core fs1 = core fs"
    using r(1) unfolding sys_open_read_def
    by (cases rule: sys_cases) (auto simp: sys_no_faults split: option.splits)
  have "take DIRENTRY_SERBUF_SIZE (fileContents (fsObjects fs1 n)) = b # bs \<and> core fs' = core fs1"
    using r(2) unfolding sys_read_def sys_pread_def by (cases rule: sys_cases) auto
  moreover have "fsObjects fs1 = fsObjects fs" using 1 by (auto dest!: core_parts)
  ultimately have "sys_read n DIRENTRY_SERBUF_SIZE (calm fs) = (Inr (b # bs), calm fs) \<and>
      core fs' = core fs"
    using 1 by (simp add: sys_read_def sys_pread_def sys_no_faults)
  with False 1 d show ?thesis by (simp add: loadFromFile_def loadFromFileContents_def withFs_def)
qed

text \<open>An entry whose record is complete, under its ID.\<close>

definition entry_stored :: "MetaConfig \<Rightarrow> MetaFs \<Rightarrow> string \<Rightarrow> string \<Rightarrow> DirEntry \<Rightarrow> bool" where
  "entry_stored cfg fs dir eid e \<longleftrightarrow>
     (\<exists>buf old. de_serializeDentry cfg e = Some buf \<and>
        record_at cfg fs (IDPath dir eid) = Some (buf @ old) \<and>
        (storeUseExtendedAttribs cfg \<longrightarrow> old = [])) \<and>
     entry_disk_ok (deData e) (deInode e) \<and> dentryID (deData e) = eid \<and>
     \<not> DirEntryType_ISDIR (entryType (deData e))"

lemma entry_stored_load:
  assumes "entry_stored cfg fs dir eid e" "loadFromID cfg dir eid e0 fs = Some (Some e1, fs1)"
  shows "core fs1 = core fs" "deInode e1 = inode_restored (deData e) (deInode e) (deInode e0)"
    "dentryID (deData e1) = eid" "entryType (deData e1) = entryType (deData e)"
    "dentryFeatureFlags (deData e1) = dentryFeatureFlags (deData e)"
proof -
  note load = loaded_is_stored [OF assms(2) [unfolded loadFromID_def]]
  then show "core fs1 = core fs" by blast
  obtain buf old where b: "de_serializeDentry cfg e = Some buf"
      "record_at cfg fs (IDPath dir eid) = Some (buf @ old)"
      "storeUseExtendedAttribs cfg \<longrightarrow> old = []"
    and ok: "entry_disk_ok (deData e) (deInode e)" "dentryID (deData e) = eid"
      "\<not> DirEntryType_ISDIR (entryType (deData e))"
    using assms(1) by (auto simp: entry_stored_def)
  from load_entry [OF ok(1) b, of e0] load ok(2,3)
  show "deInode e1 = inode_restored (deData e) (deInode e) (deInode e0)"
    "dentryID (deData e1) = eid" "entryType (deData e1) = entryType (deData e)"
    "dentryFeatureFlags (deData e1) = dentryFeatureFlags (deData e)"
    by (auto simp: entry_restored_def Let_def)
qed

lemma new_inode_from:
  assumes "inodePattern i = Some p" "pattern_ok p"
    and "blocks_wf (chunkBlocksVec (inodeStatData i))"
  shows "\<exists>g. newFileInode cfg eid i type flags = Some g \<and> inodeID (fiData g) = eid \<and>
    inode_view (fiData g) = inode_view i \<and> origFeature (fiData g) = origFeature i \<and>
    origParentUID (fiData g) = origParentUID i \<and> origParentEntryID (fiData g) = origParentEntryID i \<and>
    inodeFeatureFlags (fiData g) = inodeFeatureFlags i"
proof -
  obtain d where d: "setFileInodeStoreData i ((freshInodeData cfg)\<lparr>inodeID := eid\<rparr>) = Some d"
    "inodeID d = eid" "inodePattern d = Some (clonePattern p)" "inodeStatData d = inodeStatData i"
    "origFeature d = origFeature i" "origParentUID d = origParentUID i"
    "origParentEntryID d = origParentEntryID i" "inodeFeatureFlags d = inodeFeatureFlags i"
    using assms(1) by (simp add: setFileInodeStoreData_def)
  let ?g = "(blankFileInode cfg)\<lparr>fiData := d, compatEntryType := type, compatFeatureFlags := flags\<rparr>"
  from fi_init_Some [of ?g] d(3,4) assms(3) obtain v
    where "fi_initFileInfoVec ?g = Some (?g\<lparr>fiInfoVec := v\<rparr>)" by auto
  with d assms(1) clone_layout [OF assms(2)] show ?thesis
    by (auto simp: newFileInode_def inode_view_def Let_def)
qed

lemma update_stored:
  assumes st: "storeUpdatedInode cfg dir e fs = Some (FhgfsOpsErr_SUCCESS, fs')"
    and l: "fsLinks fs (IDPath dir (dentryID (deData e))) = Some n"
    and ok: "entry_disk_ok (deData e) (deInode e)" "\<not> DirEntryType_ISDIR (entryType (deData e))"
  shows "entry_stored cfg fs' dir (dentryID (deData e)) e \<and> getIsInodeInlined e"
proof
  show "getIsInodeInlined e"
    using st by (auto simp: storeUpdatedInode_def split: if_splits)
  have "\<exists>buf old. de_serializeDentry cfg e = Some buf \<and>
      record_at cfg fs' (IDPath dir (dentryID (deData e))) = Some (buf @ old) \<and>
      (storeUseExtendedAttribs cfg \<longrightarrow> old = [])"
    using st l l by (cases rule: entry_update_cases) (auto simp: record_at_def storedIn_def split: if_splits)
  then show "entry_stored cfg fs' dir (dentryID (deData e)) e"
    using ok by (simp add: entry_stored_def)
qed

lemma inlined_stored:
  assumes st: "storeUpdatedInlinedInode cfg now info updated f fs = Some (FhgfsOpsErr_SUCCESS, f', fs')"
    and old: "entry_stored cfg fs (infoParentEntryID info) (infoEntryID info) e"
    and ok: "inode_disk_ok (fiData f')"
  shows "\<exists>e' i0. entry_stored cfg fs' (infoParentEntryID info) (infoEntryID info) e' \<and>
    getIsInodeInlined e' \<and> setFileInodeStoreData (fiData f') i0 = Some (deInode e')"
proof -
  let ?dir = "infoParentEntryID info" and ?eid = "infoEntryID info"
  let ?e0 = "newDirEntry cfg (ucast (infoEntryType info)) (infoFileName info) ?eid (infoOwnerNodeID info)"
  obtain e1 fs1 i where load: "loadFromID cfg ?dir ?eid ?e0 fs = Some (Some e1, fs1)"
    and i: "setFileInodeStoreData (fiData f') (deInode e1) = Some i"
    and upd: "storeUpdatedInode cfg ?dir (e1\<lparr>deInode := i\<rparr>) fs1 = Some (FhgfsOpsErr_SUCCESS, fs')"
    using st by (auto simp: storeUpdatedInlinedInode_def Let_def split: option.splits prod.splits)
  note e1 = entry_stored_load [OF old load]
  obtain n where "fsLinks fs1 (IDPath ?dir ?eid) = Some n"
    using old core_parts [OF e1(1)]
    by (auto simp: entry_stored_def record_at_def split: option.splits)
  then have n: "fsLinks fs1 (IDPath ?dir (dentryID (deData (e1\<lparr>deInode := i\<rparr>)))) = Some n"
    using e1(3) by simp
  obtain p where p: "inodePattern (fiData f') = Some p" "pattern_ok p"
    using ok by (auto simp: inode_disk_ok_def split: option.splits)
  have "inode_disk_ok i"
    using i ok p clone_layout [OF p(2)]
    by (auto simp: setFileInodeStoreData_def inode_disk_ok_def inode_flags_ok_def)
  moreover have d: "\<not> DirEntryType_ISDIR (entryType (deData e))" "str_ok ?eid"
    "checkFeatureFlagsCompat (ucast (dentryFeatureFlags (deData e))) getSupportedDentryFeatureFlags"
    using old by (auto simp: entry_stored_def entry_disk_ok_def)
  ultimately have "entry_disk_ok (deData (e1\<lparr>deInode := i\<rparr>)) (deInode (e1\<lparr>deInode := i\<rparr>))"
    "\<not> DirEntryType_ISDIR (entryType (deData (e1\<lparr>deInode := i\<rparr>)))"
    using e1(3-5) by (simp_all add: entry_disk_ok_def)
  from update_stored [OF upd n this] i e1(3) show ?thesis
    by (metis DirEntry.select_convs(2) DirEntry.simps(1,5) DirEntry.surjective DirEntry.update_convs(2))
qed

lemma load_inlined:
  assumes st: "entry_stored cfg fs (infoParentEntryID info) (infoEntryID info) e" "getIsInodeInlined e"
    and h: "fiData h = deInode e"
  shows "\<exists>g. createFromInlinedInode cfg info (calm fs) = Some (Some g, calm fs) \<and>
    inodeID (fiData g) = infoEntryID info \<and> inode_view (fiData g) = inode_view (deInode e) \<and>
    fiIsInlined g \<and>
    (\<forall>uid parent. chunk_path_ok uid parent h \<and>
       (parent_stored h \<or> infoParentEntryID info = parent) \<longrightarrow> chunk_path_ok uid parent g)"
proof -
  let ?dir = "infoParentEntryID info" and ?eid = "infoEntryID info"
  let ?e0 = "newDirEntry cfg (ucast (infoEntryType info)) (infoFileName info) ?eid (infoOwnerNodeID info)"
  obtain buf old where b: "de_serializeDentry cfg e = Some buf"
      "record_at cfg fs (IDPath ?dir ?eid) = Some (buf @ old)"
      "storeUseExtendedAttribs cfg \<longrightarrow> old = []"
    and ok: "entry_disk_ok (deData e) (deInode e)" "\<not> DirEntryType_ISDIR (entryType (deData e))"
    using st(1) by (auto simp: entry_stored_def)
  obtain e1 where load: "loadFromID cfg ?dir ?eid ?e0 (calm fs) = Some (Some e1, calm fs)"
    unfolding loadFromID_def using load_entry [OF ok(1) b] by blast
  have "entry_stored cfg (calm fs) ?dir ?eid e"
    using st(1) record_at_core [of "calm fs" fs cfg] by (simp add: entry_stored_def)
  note e1 = entry_stored_load [OF this load]
  have inl: "getIsInodeInlined e1" using st(2) e1(5) by (simp add: getIsInodeInlined_def)
  define i where "i = (if hasInodeFlag FILEINODE_FEATURE_HAS_ORIG_PARENTID (deInode e1) then deInode e1
     else setDynamicOrigParentEntryID ?dir (deInode e1))"
  have e0: "deInode ?e0 = freshInodeData cfg" by (simp add: newDirEntry_def)
  have i_eq: "i = (deInode e1)\<lparr>origParentEntryID := origParentEntryID i\<rparr>"
    by (simp add: i_def setDynamicOrigParentEntryID_def)
  obtain p where p: "inodePattern (deInode e) = Some p" "pattern_ok p"
    using ok by (auto simp: entry_disk_ok_def inode_disk_ok_def split: option.splits)
  have pat: "inodePattern i = Some (p\<lparr>serialPatternLength := 0\<rparr>)"
    "pattern_ok (p\<lparr>serialPatternLength := 0\<rparr>)" "blocks_wf (chunkBlocksVec (inodeStatData i))"
    using p restored_blocks [of "deData e" "deInode e" cfg]
    by (simp_all add: i_def setDynamicOrigParentEntryID_def e1(2) e0)
      (simp_all add: inode_restored_def Let_def pattern_ok_def)
  have view: "inode_view i = inode_view (deInode e)"
    using restored_view [of "deData e" "deInode e"]
    by (simp add: i_def setDynamicOrigParentEntryID_def e1(2) inode_view_def Let_def)
  from new_inode_from [OF pat] obtain g where
    g: "newFileInode cfg (dentryID (deData e1)) i (entryType (deData e1))
         (ucast (dentryFeatureFlags (deData e1))) = Some g"
    and gd: "inodeID (fiData g) = dentryID (deData e1)" "inode_view (fiData g) = inode_view i"
      "origFeature (fiData g) = origFeature i" "origParentUID (fiData g) = origParentUID i"
      "origParentEntryID (fiData g) = origParentEntryID i"
      "inodeFeatureFlags (fiData g) = inodeFeatureFlags i" by blast
  have "createFromInlinedInode cfg info (calm fs) = Some (Some (setIsInlined True g), calm fs)"
    unfolding createFromInlinedInode_def createInodeByID_def load using inl g
    by (simp add: i_def Let_def)
  moreover have "chunk_path_ok uid parent (setIsInlined True g)"
    if c: "chunk_path_ok uid parent h" "parent_stored h \<or> infoParentEntryID info = parent" for uid parent
  proof -
    have "chunk_path_ok uid (if parent_stored h then parent else []) (h\<lparr>fiData := deInode e1\<rparr>) \<and>
        parent_stored (h\<lparr>fiData := deInode e1\<rparr>) = parent_stored h"
      using path_restored [OF c(1), of "h\<lparr>fiData := deInode e1\<rparr>" "deData e" "freshInodeData cfg",
          unfolded blank_parent]
      by (simp add: e1(2) e0 h)
    then have "chunk_path_ok uid parent (h\<lparr>fiData := i\<rparr>)"
      using c(2) by (auto simp: i_def setDynamicOrigParentEntryID_def chunk_path_ok_def hasInodeFlag_def
          split: if_splits)
    moreover have "settable (inodeStatData (fiData g)) = settable (inodeStatData i)"
      using gd(2) by (simp add: inode_view_def Let_def)
    ultimately show ?thesis
      using gd(3-6) by (simp add: setIsInlined_def chunk_path_ok_def hasInodeFlag_def)
  qed
  ultimately show ?thesis
    using gd(1,2) view e1(3)
    by (intro exI [of _ "setIsInlined True g"]) (auto simp: setIsInlined_def)
qed

text \<open>Without an inode file a record in extended attributes is never written to one.\<close>

lemma load_xattr_links:
  assumes "loadFromFileXAttr cfg p e fs = Some (r, fs')" "fsLinks fs q = None"
  shows "fsLinks fs' q = None"
proof -
  obtain a fs1 where a: "sys_getxattr p DIRENTRY_SERBUF_SIZE fs = (a, fs1)" by fastforce
  obtain u fs2 where u: "sys_unlink p fs1 = (u, fs2)" by fastforce
  have "fs' = fs1 \<or> fs' = fs2"
    using assms(1) a u
    by (auto simp: loadFromFileXAttr_def withFs_def split: sum.splits list.splits if_splits)
  moreover have "fsLinks fs1 q = None" using core_parts [OF read_only_spec(1) [OF a]] assms(2) by simp
  moreover from this have "fsLinks fs2 q = None"
    using unlink_spec [OF u] by (auto dest!: core_parts)
  ultimately show ?thesis by blast
qed

lemma xattr_no_inode_file:
  assumes "storeUpdatedInlinedInode cfg now info updated f fs = Some (res, f1, fs1)"
    and "storeUseExtendedAttribs cfg" "fsLinks fs (InodePath eid) = None"
  shows "fsLinks fs1 (InodePath eid) = None"
proof -
  let ?e0 = "newDirEntry cfg (ucast (infoEntryType info)) (infoFileName info) (infoEntryID info)
    (infoOwnerNodeID info)"
  let ?p = "IDPath (infoParentEntryID info) (infoEntryID info)"
  obtain r gs where load: "loadFromFile cfg ?p ?e0 fs = Some (r, gs)"
    and step: "case r of None \<Rightarrow> fs1 = gs | Some e1 \<Rightarrow>
      (\<exists>e. storeUpdatedInode cfg (infoParentEntryID info) e gs = Some (res, fs1))"
    using assms(1) by (fastforce simp: storeUpdatedInlinedInode_def loadFromID_def Let_def
        split: option.splits)
  have gs: "fsLinks gs (InodePath eid) = None"
    using load assms(2,3) by (auto simp: loadFromFile_def intro: load_xattr_links)
  show ?thesis
  proof (cases r)
    case (Some e1)
    with step obtain e where e: "storeUpdatedInode cfg (infoParentEntryID info) e gs = Some (res, fs1)"
      by auto
    then have "fs1 = gs \<or> (\<exists>p buf ok. storeUpdatedDirEntryBufAsXAttr p buf gs = (ok, fs1))"
      using assms(2) by (auto simp: storeUpdatedInode_def storeUpdatedDirEntry_def
          storeUpdatedDirEntryBuf_def split: if_splits option.splits prod.splits)
    then show ?thesis
      using gs xattr_update_spec by (metis core_simps(1))
  qed (use step gs in simp)
qed

lemma no_inode_file_xattr:
  assumes "storeInodeFile cfg now updated f fs = Some (stored, f', fs')"
    and "storeUseExtendedAttribs cfg" "fsLinks fs (InodePath (inodeID (fiData f))) = None"
  shows "\<not> stored"
proof -
  have "inodeID (fiData f') = inodeID (fiData f)"
    using storeInodeFile_keep [OF assms(1)] by (simp add: owner_part_def)
  then obtain buf where "storeMetaBufAsXAttr (InodePath (inodeID (fiData f))) buf fs = (stored, fs')"
    using assms(1,2) by (auto simp: storeInodeFile_def storeUpdatedMetaDataBuf_def split: option.splits prod.splits)
  then obtain r where r: "sys_setxattr (InodePath (inodeID (fiData f))) buf fs = (r, fs')"
    "stored \<longleftrightarrow> r = Inr ()"
    by (auto simp: storeMetaBufAsXAttr_def split: prod.splits)
  from setxattr_spec [OF r(1)] assms(3) r(2) show ?thesis by auto
qed

lemma writable_ok: "inode_writable cfg f \<Longrightarrow> inode_disk_ok (fiData f)"
  by (auto simp: inode_writable_def entry_disk_ok_def)

text \<open>The data that reach the record of an entry have the same owner part.\<close>

lemma copied_path:
  assumes "setFileInodeStoreData (fiData f) i0 = Some i"
  shows "chunk_path_ok uid parent (f\<lparr>fiData := i\<rparr>) = chunk_path_ok uid parent f"
    "parent_stored (f\<lparr>fiData := i\<rparr>) = parent_stored f"
  using assms by (auto simp: setFileInodeStoreData_def chunk_path_ok_def hasInodeFlag_def
      split: option.splits)

lemma copied_view:
  assumes "setFileInodeStoreData d i0 = Some i" "inode_disk_ok d"
  shows "inode_view i = inode_view d"
  using assms clone_layout
  by (auto simp: setFileInodeStoreData_def inode_view_def inode_disk_ok_def Let_def split: option.splits)

text \<open>
  C26: What was stored is loaded again. Suppose the inode reports that it has been stored, whatever
  system calls failed on the way, its record can be written and read, and, if it is inlined, the
  records are in extended attributes, it has no inode file of its own and its entry is on the disk.
  Then loading it by its entry information gives an inode with the same ID, attributes and stripe
  pattern, inlined or not as before. The path of its chunk files is the same, too, in two cases: if
  the original parent is part of the record, or if the inode is inlined in an entry of just this
  directory. (In the other cases it need not be, and without the conditions for inlined inodes
  neither, as C20 shows.)
\<close>

theorem stored_inode_is_loaded:
  assumes st: "fi_storeUpdatedInode cfg now info updated f fs = Some (True, f', fs')"
    and id: "infoEntryID info = inodeID (fiData f)" and ok: "inode_writable cfg f'"
    and inl: "getIsInlined info = fiIsInlined f"
    and pre: "fiIsInlined f \<longrightarrow> storeUseExtendedAttribs cfg \<and>
      fsLinks fs (InodePath (infoEntryID info)) = None \<and>
      entry_stored cfg fs (infoParentEntryID info) (infoEntryID info) e"
  shows "\<exists>g. createFromEntryInfo cfg info (calm fs') = Some (Some g, calm fs') \<and>
    inodeID (fiData g) = inodeID (fiData f') \<and> inode_view (fiData g) = inode_view (fiData f') \<and>
    fiIsInlined g = fiIsInlined f \<and>
    (\<forall>uid parent. chunk_path_ok uid parent f' \<and>
       (parent_stored f' \<or> fiIsInlined f \<and> infoParentEntryID info = parent) \<longrightarrow>
       chunk_path_ok uid parent g)"
proof (cases "fiIsInlined f")
  case False
  then have "storeInodeFile cfg now updated f fs = Some (True, f', fs')"
    using st by (simp add: fi_storeUpdatedInode_def)
  from store_file_loads [OF this id ok] obtain g where
    "createFromInodeFile cfg info (calm fs') = Some (Some g, calm fs')"
    "inodeID (fiData g) = inodeID (fiData f')" "inode_view (fiData g) = inode_view (fiData f')"
    "\<not> fiIsInlined g" "\<forall>uid parent. chunk_path_ok uid parent f' \<longrightarrow>
       chunk_path_ok uid (if parent_stored f' then parent else []) g \<and> parent_stored g" by blast
  with False inl show ?thesis by (intro exI [of _ g]) (auto simp: createFromEntryInfo_def)
next
  case True
  note pre = pre [rule_format, OF True]
  obtain res f1 fs1 where up: "storeUpdatedInlinedInode cfg now info updated f fs = Some (res, f1, fs1)"
    using st True by (auto simp: fi_storeUpdatedInode_def split: option.splits)
  have "res = FhgfsOpsErr_SUCCESS"
  proof (rule ccontr)
    assume "res \<noteq> FhgfsOpsErr_SUCCESS"
    then obtain f2 where f2: "storeInodeFile cfg now updated f2 fs1 = Some (True, f', fs')"
      "inodeID (fiData f2) = inodeID (fiData f1)"
      using st True up by (auto simp: fi_storeUpdatedInode_def split: if_splits)
    have "inodeID (fiData f2) = infoEntryID info"
      using f2(2) storeInlined_keep [OF up] id by (simp add: owner_part_def)
    then have "fsLinks fs1 (InodePath (inodeID (fiData f2))) = None"
      using xattr_no_inode_file [OF up] pre by simp
    from no_inode_file_xattr [OF f2(1) _ this] pre show False by simp
  qed
  then have up: "storeUpdatedInlinedInode cfg now info updated f fs = Some (FhgfsOpsErr_SUCCESS, f', fs')"
    using st True up by (simp add: fi_storeUpdatedInode_def)
  obtain e' i0 where e': "entry_stored cfg fs' (infoParentEntryID info) (infoEntryID info) e'"
    "getIsInodeInlined e'" "setFileInodeStoreData (fiData f') i0 = Some (deInode e')"
    using inlined_stored [OF up _ writable_ok [OF ok]] pre by blast
  have "inodeID (fiData f') = infoEntryID info"
    using storeInlined_keep [OF up] id by (simp add: owner_part_def)
  with load_inlined [OF e'(1,2), of "f'\<lparr>fiData := deInode e'\<rparr>"] copied_path [OF e'(3)]
    copied_view [OF e'(3) writable_ok [OF ok]] True inl
  show ?thesis by (auto simp: createFromEntryInfo_def)
qed

text \<open>
  C20: Suppose that the entry of an inlined inode cannot be updated, and that storing the inode
  reports success all the same. (In the mode that stores contents of files it may, as then a file
  for the inode is written; with extended attributes such a file has to be there already.) The inode
  was then written to a file of its own, but its original parent was not marked for being stored on
  this way. So if the original parent was not stored before, the inode in memory still names the
  directory of its chunk files, and whoever loads the file gets an inode that names the empty string
  as this directory - and keeps it as if it had been stored. (The inode's record is assumed to be
  one that can be written and read, \<open>inode_writable\<close>.)
\<close>

theorem failed_inlined_update:
  assumes "fiIsInlined f" "storeUpdatedInlinedInode cfg now info updated f fs = Some (res, f1, fs1)"
    and "res \<noteq> FhgfsOpsErr_SUCCESS"
    and st: "fi_storeUpdatedInode cfg now info updated f fs = Some (True, f', fs')"
    and id: "infoEntryID info = inodeID (fiData f)" and ok: "inode_writable cfg f'"
    and path: "chunk_path_ok uid parent f" "\<not> parent_stored f"
  shows "getPathInfo (fiData f') =
      \<lparr>piFlags = PATHINFO_FEATURE_ORIG, piOrigUID = uid, piOrigParentEntryID = parent\<rparr> \<and>
    (\<exists>g. createFromInodeFile cfg info (calm fs') = Some (Some g, calm fs') \<and> parent_stored g \<and>
      getPathInfo (fiData g) =
        \<lparr>piFlags = PATHINFO_FEATURE_ORIG, piOrigUID = uid, piOrigParentEntryID = []\<rparr>)"
proof -
  obtain f2 where f2: "storeInodeFile cfg now updated f2 fs1 = Some (True, f', fs')"
    "owner_part f2 = owner_part f1"
    using st assms(1-3) by (auto simp: fi_storeUpdatedInode_def owner_part_def split: if_splits)
  have owner: "owner_part f2 = owner_part f" using f2(2) storeInlined_keep [OF assms(2)] by simp
  then have "infoEntryID info = inodeID (fiData f2)" using id by (simp add: owner_part_def)
  from store_file_loads [OF f2(1) this ok] obtain g where
    g: "createFromInodeFile cfg info (calm fs') = Some (Some g, calm fs')"
    "\<forall>uid parent. chunk_path_ok uid parent f' \<longrightarrow>
       chunk_path_ok uid (if parent_stored f' then parent else []) g \<and> parent_stored g" by blast
  have "owner_part f' = owner_part f" using storeInodeFile_keep [OF f2(1)] owner by simp
  then have f': "chunk_path_ok uid parent f'" "\<not> parent_stored f'"
    using path path_of_owner_part by blast+
  with g(2) have "chunk_path_ok uid [] g \<and> parent_stored g" by (metis (full_types))
  with g(1) show ?thesis using chunk_path_info f'(1) by blast
qed

section \<open>Examples\<close>

text \<open>A file of user 7 that belongs to user 9 now, and a server with its record.\<close>

definition demo_file :: "bool \<Rightarrow> FileInode" where
  "demo_file inlined = \<lparr>fiData = disk_inode 9, fiInfoVec = [], fiExclusiveTID = 0,
     fiNumSessionsRead = 0, fiNumSessionsWrite = 0, fiIsInlined = inlined, compatEntryType = 2,
     compatFeatureFlags = 2, fiReferenceParentID = [], fiNumParentRefs = 0\<rparr>"

definition demo_info :: "bool \<Rightarrow> EntryInfo" where
  "demo_info inlined = \<lparr>infoOwnerNodeID = 3, infoParentEntryID = ''1-2-3'', infoEntryID = ''4-5-6'',
     infoFileName = ''f'', infoEntryType = 2, infoFlags = (if inlined then 1 else 0)\<rparr>"

definition contents_cfg :: MetaConfig where
  "contents_cfg = demo_cfg\<lparr>storeUseExtendedAttribs := False\<rparr>"

definition inode_fs :: MetaFs where
  "inode_fs = empty_fs\<lparr>fsLinks := (\<lambda>_. None)(InodePath ''4-5-6'' := Some 0), fsNext := 1\<rparr>"

lemma demo_dyn: "updateDynamicAttribs now (demo_file v) = Some (demo_file v)"
  by (simp add: updateDynamicAttribs_def updateDynamicFileAttribs_def demo_file_def demo_pattern)

lemma demo_path: "chunk_path_ok 7 ''1-2-3'' (demo_file v)" "\<not> parent_stored (demo_file v)"
  by (simp_all add: chunk_path_ok_def demo_file_def disk_inode_def newFileInodeStoreData_def
      hasInodeFlag_def flag_numbers disk_stat_def)

lemma demo_record: "recordDentry cfg (demo_file v) =
    \<lparr>dentryID = ''4-5-6'', entryType = 2, ownerNodeID = 0, dentryFeatureFlags = 2,
     dentryMirrorNodeID = freshNodeID cfg\<rparr>"
  by (simp add: recordDentry_def compatDentry_def setEntryTypeByMode_def demo_file_def disk_inode_def
      newFileInodeStoreData_def DirEntryType_ISVALID_def DirEntryType_INVALID_def)

lemma demo_writable:
  "\<exists>buf. inode_record cfg (demo_file v) = Some buf \<and> length buf \<le> DIRENTRY_SERBUF_SIZE"
  "inode_writable cfg (demo_file v)"
proof -
  let ?d = "recordDentry cfg (demo_file v)"
  have i: "fiData (demo_file v) = disk_inode 9" by (simp add: demo_file_def)
  have nodir: "\<not> DirEntryType_ISDIR (entryType ?d)"
    by (simp add: demo_record DirEntryType_ISDIR_def DirEntryType_DIRECTORY_def)
  have v5: "origFeature (disk_inode 9) = FileInodeOrigFeature_TRUE"
    by (simp add: disk_inode_def newFileInodeStoreData_def)
  have ok: "entry_disk_ok ?d (disk_inode 9)"
    using disk_inode_ok
    by (simp add: entry_disk_ok_def demo_record str_ok_def checkFeatureFlagsCompat_def
        getSupportedDentryFeatureFlags_def DENTRY_FEATURE_INODE_INLINE_def
        DENTRY_FEATURE_IS_FILEINODE_def DENTRY_FEATURE_MIRRORED_def)
  obtain type bs where bs: "serializeInDentryFormat (unusedBytes cfg) type ?d (disk_inode 9) = Some bs"
      "inode_record cfg (demo_file v) = Some bs"
    using nodir v5 by (simp add: inode_record_def serializeFileInode_def Let_def i
        recordDentry_def serializeInDentryFormat_def dentryFormatVersion_def entry_formats
        serializeDentryV5_def demo_pattern)
  have len: "length bs \<le> DIRENTRY_SERBUF_SIZE"
    using v5_entry_length [OF ok bs(1) _ nodir v5 demo_pattern] align4_less [of 10]
    by (auto simp: demo_record disk_inode_def newFileInodeStoreData_def DIRENTRY_SERBUF_SIZE_def
        sparseLen_def disk_stat_def newChunksBlocksVec_def demo_raid_def Raid0Pattern_def
        withTargets_def newPattern_def calcStripeSetSize_def getIsSparseFile_def)
  with bs show "\<exists>buf. inode_record cfg (demo_file v) = Some buf \<and> length buf \<le> DIRENTRY_SERBUF_SIZE"
    by blast
  show "inode_writable cfg (demo_file v)" using ok nodir bs len by (simp add: inode_writable_def i)
qed

lemma demo_serialized:
  "\<exists>buf. serializeMetaData cfg now (demo_file v) = Some (buf, demo_file v)"
proof -
  obtain buf where "inode_record cfg (demo_file v) = Some buf" "length buf \<le> DIRENTRY_SERBUF_SIZE"
    using demo_writable(1) by blast
  then have "serializeMetaData cfg now (demo_file v) = Some (buf, demo_file v)"
    unfolding serializeMetaData_Some inode_record_Some
    by (auto simp: demo_dyn DIRENTRY_SERBUF_SIZE_def META_SERBUF_SIZE_def)
  then show ?thesis by blast
qed

lemma demo_ids [simp]: "infoEntryID (demo_info v) = ''4-5-6''" "inodeID (fiData (demo_file v)) = ''4-5-6''"
  "fiIsInlined (demo_file v) = v" "infoParentEntryID (demo_info v) = ''1-2-3''"
  by (simp_all add: demo_info_def demo_file_def disk_inode_def newFileInodeStoreData_def)

theorem chunk_path_kept_witness:
  "\<exists>f'. (inode_step demo_cfg ''1-2-3'')\<^sup>*\<^sup>* (demo_file True, inode_fs) (f', inode_fs) \<and>
     fiNumSessionsRead f' = 1 \<and> parent_stored f' \<and>
     getPathInfo (fiData f') =
       \<lparr>piFlags = PATHINFO_FEATURE_ORIG, piOrigUID = 7, piOrigParentEntryID = ''1-2-3''\<rparr>"
proof -
  let ?f1 = "incNumSessions 1 (demo_file True)"
  let ?f2 = "setIsInlined False ?f1"
  have "inode_step demo_cfg ''1-2-3'' (demo_file True, inode_fs) (?f1, inode_fs)"
    by (rule inode_step.call [of _ 0 "demo_info True" "OpenSession 1"]) simp_all
  moreover have "inode_step demo_cfg ''1-2-3'' (?f1, inode_fs) (?f2, inode_fs)"
    by (rule inode_step.call [of _ 0 "demo_info True" "InlineInode False"]) simp_all
  ultimately have run: "(inode_step demo_cfg ''1-2-3'')\<^sup>*\<^sup>* (demo_file True, inode_fs) (?f2, inode_fs)"
    by (meson converse_rtranclp_into_rtranclp rtranclp.rtrancl_refl)
  have "chunk_path_ok 7 ''1-2-3'' ?f1"
    using path_kept_ok [OF path_kept_sessions(1)] demo_path(1) by blast
  then have "parent_stored ?f2" using deinlined_path by blast
  moreover have "fiNumSessionsRead ?f2 = 1"
    by (simp add: incNumSessions_def setIsInlined_def OPENFILE_ACCESS_READ_def demo_file_def)
  ultimately show ?thesis using run chunk_path_kept [OF demo_path(1) run] by blast
qed

lemma demo_loadable: "\<exists>g fs. createFromEntryInfo demo_cfg (demo_info False) fs = Some (Some g, fs)"
proof -
  obtain buf where buf: "serializeMetaData demo_cfg 50 (demo_file False) = Some (buf, demo_file False)"
    using demo_serialized by blast
  have "\<exists>fs'. storeInodeFile demo_cfg 50 None (demo_file False) inode_fs = Some (True, demo_file False, fs')"
    by (simp add: storeInodeFile_def setUpdatedTargets_def buf storeUpdatedMetaDataBuf_def
        storeMetaBufAsXAttr_def sys_setxattr_def sys_no_faults inode_fs_def empty_fs_def)
  then obtain fs' where "storeInodeFile demo_cfg 50 None (demo_file False) inode_fs =
      Some (True, demo_file False, fs')" by blast
  from store_file_loads [OF this _ demo_writable(2), of "demo_info False"] obtain g where
    "createFromInodeFile demo_cfg (demo_info False) (calm fs') = Some (Some g, calm fs')" by auto
  moreover have "\<not> getIsInlined (demo_info False)" by (simp add: getIsInlined_def demo_info_def)
  ultimately have "createFromEntryInfo demo_cfg (demo_info False) (calm fs') = Some (Some g, calm fs')"
    by (simp add: createFromEntryInfo_def)
  then show ?thesis by blast
qed

theorem stored_inode_is_loaded_witness:
  "\<exists>fs' g. fi_storeUpdatedInode demo_cfg 50 (demo_info False) None (demo_file False) inode_fs =
       Some (True, demo_file False, fs') \<and>
     createFromEntryInfo demo_cfg (demo_info False) (calm fs') = Some (Some g, calm fs') \<and>
     inode_view (fiData g) = inode_view (disk_inode 9) \<and> \<not> fiIsInlined g"
proof -
  obtain buf where buf: "serializeMetaData demo_cfg 50 (demo_file False) = Some (buf, demo_file False)"
    using demo_serialized by blast
  have "\<exists>fs'. fi_storeUpdatedInode demo_cfg 50 (demo_info False) None (demo_file False) inode_fs =
      Some (True, demo_file False, fs')"
    by (simp add: fi_storeUpdatedInode_def storeInodeFile_def setUpdatedTargets_def buf
        storeUpdatedMetaDataBuf_def storeMetaBufAsXAttr_def sys_setxattr_def sys_no_faults
        inode_fs_def empty_fs_def)
  then obtain fs' where fs': "fi_storeUpdatedInode demo_cfg 50 (demo_info False) None (demo_file False)
      inode_fs = Some (True, demo_file False, fs')" by blast
  have "getIsInlined (demo_info False) = fiIsInlined (demo_file False)"
    by (simp add: getIsInlined_def demo_info_def)
  from stored_inode_is_loaded [OF fs' _ demo_writable(2) this] obtain g where
    "createFromEntryInfo demo_cfg (demo_info False) (calm fs') = Some (Some g, calm fs')"
    "inode_view (fiData g) = inode_view (fiData (demo_file False))"
    "fiIsInlined g = fiIsInlined (demo_file False)" by auto
  moreover have "fiData (demo_file False) = disk_inode 9" by (simp add: demo_file_def)
  ultimately show ?thesis using fs' by auto
qed

theorem failed_inlined_update_witness:
  "\<exists>fs' g. fi_storeUpdatedInode contents_cfg 50 (demo_info True) None (demo_file True) empty_fs =
       Some (True, demo_file True, fs') \<and>
     createFromInodeFile contents_cfg (demo_info True) (calm fs') = Some (Some g, calm fs') \<and>
     piOrigParentEntryID (getPathInfo (fiData (demo_file True))) = ''1-2-3'' \<and>
     piOrigParentEntryID (getPathInfo (fiData g)) = []"
proof -
  obtain buf where buf: "serializeMetaData contents_cfg 50 (demo_file True) = Some (buf, demo_file True)"
    using demo_serialized by blast
  have up: "storeUpdatedInlinedInode contents_cfg 50 (demo_info True) None (demo_file True) empty_fs =
      Some (FhgfsOpsErr_INTERNAL, demo_file True, empty_fs)"
    by (simp add: storeUpdatedInlinedInode_def demo_dyn setUpdatedTargets_def loadFromID_def
        loadFromFile_def loadFromFileContents_def sys_open_read_def sys_no_faults empty_fs_def
        contents_cfg_def Let_def)
  have ne: "FhgfsOpsErr_INTERNAL \<noteq> FhgfsOpsErr_SUCCESS" "FhgfsOpsErr_INTERNAL \<noteq> FhgfsOpsErr_INODENOTINLINED"
    by simp_all
  have "\<exists>fs'. storeMetaBufAsContents ''4-5-6'' buf empty_fs = (True, fs')"
    by (simp add: storeMetaBufAsContents_def sys_open_trunc_def sys_write_def sys_rename_def
        sys_no_faults empty_fs_def addObject_def setObject_def Let_def)
  moreover have "\<not> storeUseExtendedAttribs contents_cfg" by (simp add: contents_cfg_def)
  ultimately have "\<exists>fs'. fi_storeUpdatedInode contents_cfg 50 (demo_info True) None (demo_file True) empty_fs =
      Some (True, demo_file True, fs')"
    using ne by (auto simp: fi_storeUpdatedInode_def up storeInodeFile_def setUpdatedTargets_def buf
        storeUpdatedMetaDataBuf_def)
  then obtain fs' where fs': "fi_storeUpdatedInode contents_cfg 50 (demo_info True) None
      (demo_file True) empty_fs = Some (True, demo_file True, fs')" by blast
  have inl: "fiIsInlined (demo_file True)" by simp
  from failed_inlined_update [OF inl up ne(1) fs' _ demo_writable(2) demo_path] fs' show ?thesis
    by auto
qed

end
