(* ===== verification/InodeFileStore.thy ===== *)
theory InodeFileStore
  imports FileInode "HOL-Library.Finite_Map"
begin

text \<open>
  The store of the file inodes that are in use (\<open>InodeFileStore.h/.cpp\<close> under
  fhgfs_meta/source/storage, with \<open>ObjectReferencer.h\<close>): one of them belongs to the metadata
  store, the others to the directories that are loaded.

  An inode is found by its entry ID, and so is the object behind a pointer that a caller holds:
  the outcome None stands for a pointer whose object is not in the store any more. \<open>tid\<close> is the
  thread that makes the call. Copies for mirror servers are left out.
\<close>

section \<open>References\<close>

record FileReferencer =
  refCount :: i32
  refObject :: FileInode

type_synonym InodeMap = "(string, FileReferencer) fmap"

definition newFileReferencer :: "FileInode \<Rightarrow> FileReferencer" where
  "newFileReferencer f = \<lparr>refCount = 0, refObject = f\<rparr>"

definition ref_reference :: "FileReferencer \<Rightarrow> FileReferencer" where
  "ref_reference r = r\<lparr>refCount := refCount r + 1\<rparr>"

definition ref_release :: "FileReferencer \<Rightarrow> FileReferencer" where
  "ref_release r = r\<lparr>refCount := refCount r - 1\<rparr>"

definition incParentRef :: "string \<Rightarrow> FileInode \<Rightarrow> FileInode" where
  "incParentRef parent f = f\<lparr>fiNumParentRefs := fiNumParentRefs f + 1, fiReferenceParentID := parent\<rparr>"

definition decParentRef :: "FileInode \<Rightarrow> FileInode" where
  "decParentRef f = f\<lparr>fiNumParentRefs := fiNumParentRefs f - 1\<rparr>"

text \<open>A change of the object that is stored under an ID.\<close>

definition updateObject :: "string \<Rightarrow> (FileInode \<Rightarrow> FileInode) \<Rightarrow> InodeMap \<Rightarrow> InodeMap" where
  "updateObject eid g m =
     (case fmlookup m eid of None \<Rightarrow> m | Some r \<Rightarrow> fmupd eid (r\<lparr>refObject := g (refObject r)\<rparr>) m)"

section \<open>The operations of the store\<close>

definition isInStore :: "string \<Rightarrow> InodeMap \<Rightarrow> bool" where
  "isInStore eid m \<longleftrightarrow> fmlookup m eid \<noteq> None"

definition getReferencerAndDeleteFromMap ::
    "string \<Rightarrow> InodeMap \<Rightarrow> FileReferencer option \<times> InodeMap" where
  "getReferencerAndDeleteFromMap eid m = (fmlookup m eid, fmdrop eid m)"

text \<open>A file that another thread moves away is not referenced.\<close>

definition lockedByOther :: "u64 \<Rightarrow> FileInode \<Rightarrow> bool" where
  "lockedByOther tid f \<longleftrightarrow> fiExclusiveTID f \<noteq> 0 \<and> fiExclusiveTID f \<noteq> tid"

definition referenceLoadedFile :: "u64 \<Rightarrow> string \<Rightarrow> InodeMap \<Rightarrow> bool \<times> InodeMap" where
  "referenceLoadedFile tid eid m =
     (case fmlookup m eid of
        None \<Rightarrow> (False, m)
      | Some r \<Rightarrow>
          if lockedByOther tid (refObject r) then (False, m)
          else (True, fmupd eid (ref_reference r) m))"

definition loadAndInsertFileInode ::
    "MetaConfig \<Rightarrow> EntryInfo \<Rightarrow> InodeMap \<Rightarrow> MetaFs \<Rightarrow> (bool \<times> InodeMap \<times> MetaFs) option" where
  "loadAndInsertFileInode cfg info m fs =
     (case createFromEntryInfo cfg info fs of
        None \<Rightarrow> None
      | Some (None, fs1) \<Rightarrow> Some (False, m, fs1)
      | Some (Some f, fs1) \<Rightarrow>
          Some (True,
            if fmlookup m (infoEntryID info) = None then fmupd (infoEntryID info) (newFileReferencer f) m else m,
            fs1))"

definition loadIfMissing ::
    "MetaConfig \<Rightarrow> EntryInfo \<Rightarrow> bool \<Rightarrow> InodeMap \<Rightarrow> MetaFs \<Rightarrow> (InodeMap \<times> MetaFs) option" where
  "loadIfMissing cfg info loadFromDisk m fs =
     (if fmlookup m (infoEntryID info) = None \<and> loadFromDisk
      then map_option snd (loadAndInsertFileInode cfg info m fs)
      else Some (m, fs))"

definition ifs_referenceFileInode ::
    "MetaConfig \<Rightarrow> u64 \<Rightarrow> EntryInfo \<Rightarrow> bool \<Rightarrow> InodeMap \<Rightarrow> MetaFs \<Rightarrow> (bool \<times> InodeMap \<times> MetaFs) option"
  where
  "ifs_referenceFileInode cfg tid info loadFromDisk m fs =
     map_option (\<lambda>(m1, fs1).
         (case referenceLoadedFile tid (infoEntryID info) m1 of (got, m2) \<Rightarrow> (got, m2, fs1)))
       (loadIfMissing cfg info loadFromDisk m fs)"

text \<open>
  For a move to another server: the inode is not referenced and has one link only. An inode with
  more links is thrown out of the map.
\<close>

definition getUnreferencedInode ::
    "MetaConfig \<Rightarrow> u64 \<Rightarrow> EntryInfo \<Rightarrow> InodeMap \<Rightarrow> MetaFs \<Rightarrow>
       (FhgfsOpsErr \<times> InodeMap \<times> MetaFs) option" where
  "getUnreferencedInode cfg tid info m fs =
     map_option (\<lambda>(m1, fs1).
         (case fmlookup m1 (infoEntryID info) of
            None \<Rightarrow> (FhgfsOpsErr_PATHNOTEXISTS, m1, fs1)
          | Some r \<Rightarrow>
              if refCount r \<noteq> 0 \<or> lockedByOther tid (refObject r) then (FhgfsOpsErr_INUSE, m1, fs1)
              else if nlink (inodeStatData (fiData (refObject r))) > 1
              then (FhgfsOpsErr_INUSE, fmdrop (infoEntryID info) m1, fs1)
              else (FhgfsOpsErr_SUCCESS, m1, fs1)))
       (loadIfMissing cfg info True m fs)"

text \<open>The number of references that are left; without any the object is deleted.\<close>

definition decreaseInodeRefCount :: "string \<Rightarrow> FileReferencer \<Rightarrow> InodeMap \<Rightarrow> u32 \<times> InodeMap" where
  "decreaseInodeRefCount eid r m =
     (let r' = ref_release r
      in (refCount r', if refCount r' = 0 then fmdrop eid m else fmupd eid r' m))"

text \<open>
  The results: whether the file is in the store, its link count and its remaining references. The
  last one is not set (None) if the file is not in the store.
\<close>

definition ifs_closeFile ::
    "MetaConfig \<Rightarrow> i64 \<Rightarrow> EntryInfo \<Rightarrow> string \<Rightarrow> u32 \<Rightarrow> InodeMap \<Rightarrow> MetaFs \<Rightarrow>
       (bool \<times> u32 \<times> u32 option \<times> InodeMap \<times> MetaFs) option" where
  "ifs_closeFile cfg now info eid accessFlags m fs =
     (case fmlookup m eid of
        None \<Rightarrow> Some (False, 1, None, m, fs)
      | Some r \<Rightarrow>
          map_option (\<lambda>(f1, fs1).
              (case decreaseInodeRefCount eid (r\<lparr>refObject := f1\<rparr>) m of
                 (refs, m1) \<Rightarrow>
                   (True, nlink (inodeStatData (fiData (refObject r))), Some refs, m1, fs1)))
            (decNumSessionsAndStore cfg now
              (setInodeInlinedFlag (fiIsInlined (refObject r)) info) accessFlags (refObject r) fs))"

definition releaseFileInode :: "string \<Rightarrow> InodeMap \<Rightarrow> bool \<times> InodeMap" where
  "releaseFileInode eid m =
     (case fmlookup m eid of
        None \<Rightarrow> (False, m)
      | Some r \<Rightarrow> (True, snd (decreaseInodeRefCount eid r m)))"

definition isUnlinkable :: "u64 \<Rightarrow> EntryInfo \<Rightarrow> InodeMap \<Rightarrow> FhgfsOpsErr" where
  "isUnlinkable tid info m =
     (case fmlookup m (infoEntryID info) of
        None \<Rightarrow> FhgfsOpsErr_SUCCESS
      | Some r \<Rightarrow>
          if refCount r \<noteq> 0 then FhgfsOpsErr_INUSE
          else if lockedByOther tid (refObject r) then FhgfsOpsErr_PATHNOTEXISTS
          else FhgfsOpsErr_SUCCESS)"

text \<open>\<open>wanted\<close>: the caller asks for the inode (which only an inode that can be loaded gives).\<close>

definition unlinkFileInode ::
    "MetaConfig \<Rightarrow> u64 \<Rightarrow> EntryInfo \<Rightarrow> bool \<Rightarrow> InodeMap \<Rightarrow> MetaFs \<Rightarrow>
       (FhgfsOpsErr \<times> FileInode option \<times> MetaFs) option" where
  "unlinkFileInode cfg tid info wanted m fs =
     (let res = isUnlinkable tid info m
      in if res \<noteq> FhgfsOpsErr_SUCCESS then Some (res, None, fs)
         else case (if wanted then createFromEntryInfo cfg info fs else Some (None, fs)) of
              None \<Rightarrow> None
            | Some (inode, fs1) \<Rightarrow>
                if wanted \<and> inode = None then Some (FhgfsOpsErr_PATHNOTEXISTS, None, fs1)
                else (case removeStoredMetaData (infoEntryID info) fs1 of
                    (removed, fs2) \<Rightarrow>
                      Some (if removed then (FhgfsOpsErr_SUCCESS, inode, fs2)
                        else (FhgfsOpsErr_INTERNAL, None, fs2))))"

text \<open>The record for the other server; the inode cannot be referenced by others from now on.\<close>

definition moveRemoteBegin ::
    "MetaConfig \<Rightarrow> i64 \<Rightarrow> u64 \<Rightarrow> EntryInfo \<Rightarrow> nat \<Rightarrow> InodeMap \<Rightarrow> MetaFs \<Rightarrow>
       (FhgfsOpsErr \<times> u8 list \<times> InodeMap \<times> MetaFs) option" where
  "moveRemoteBegin cfg now tid info bufLen m fs =
     (if bufLen < META_SERBUF_SIZE then Some (FhgfsOpsErr_INTERNAL, [], m, fs)
      else case getUnreferencedInode cfg tid info m fs of
        None \<Rightarrow> None
      | Some (res, m1, fs1) \<Rightarrow>
          (case (res, fmlookup m1 (infoEntryID info)) of
             (FhgfsOpsErr_SUCCESS, Some r) \<Rightarrow>
               map_option (\<lambda>(buf, f). (res, buf, fmupd (infoEntryID info) (r\<lparr>refObject := f\<rparr>) m1, fs1))
                 (serializeMetaData cfg now ((refObject r)\<lparr>fiExclusiveTID := tid,
                    fiData := setPersistentOrigParentEntryID (infoParentEntryID info)
                      (fiData (refObject r))\<rparr>))
           | _ \<Rightarrow> Some (res, [], m1, fs1)))"

definition moveRemoteComplete :: "string \<Rightarrow> InodeMap \<Rightarrow> InodeMap" where
  "moveRemoteComplete eid m = fmdrop eid m"

text \<open>\<open>openFile\<close>; the session counter of an opened file is raised.\<close>

definition ifs_openFile ::
    "MetaConfig \<Rightarrow> u64 \<Rightarrow> EntryInfo \<Rightarrow> u32 \<Rightarrow> bool \<Rightarrow> InodeMap \<Rightarrow> MetaFs \<Rightarrow>
       (FhgfsOpsErr \<times> InodeMap \<times> MetaFs) option" where
  "ifs_openFile cfg tid info accessFlags loadFromDisk m fs =
     map_option (\<lambda>(got, m1, fs1).
         if got
         then (FhgfsOpsErr_SUCCESS, updateObject (infoEntryID info) (incNumSessions accessFlags) m1, fs1)
         else (FhgfsOpsErr_PATHNOTEXISTS, m1, fs1))
       (ifs_referenceFileInode cfg tid info loadFromDisk m fs)"

definition ifs_exists :: "string \<Rightarrow> MetaFs \<Rightarrow> bool \<times> MetaFs" where
  "ifs_exists eid fs = (case sys_exists (InodePath eid) fs of (r, fs1) \<Rightarrow> (r = Inr (), fs1))"

definition ifs_stat ::
    "MetaConfig \<Rightarrow> i64 \<Rightarrow> EntryInfo \<Rightarrow> bool \<Rightarrow> InodeMap \<Rightarrow> MetaFs \<Rightarrow>
       (FhgfsOpsErr \<times> StatData option \<times> InodeMap \<times> MetaFs) option" where
  "ifs_stat cfg now info loadFromDisk m fs =
     (case fmlookup m (infoEntryID info) of
        Some r \<Rightarrow>
          map_option (\<lambda>(res, st, f).
              (res, Some st, fmupd (infoEntryID info) (r\<lparr>refObject := f\<rparr>) m, fs))
            (fi_getStatData now (refObject r))
      | None \<Rightarrow>
          if loadFromDisk
          then map_option (\<lambda>(res, st, fs1). (res, st, m, fs1)) (getStatDataOf cfg now info fs)
          else Some (FhgfsOpsErr_PATHNOTEXISTS, None, m, fs))"

definition ifs_setAttr ::
    "MetaConfig \<Rightarrow> i64 \<Rightarrow> u64 \<Rightarrow> EntryInfo \<Rightarrow> i32 \<Rightarrow> SettableFileAttribs \<Rightarrow> InodeMap \<Rightarrow> MetaFs \<Rightarrow>
       (FhgfsOpsErr \<times> InodeMap \<times> MetaFs) option" where
  "ifs_setAttr cfg now tid info valid attribs m fs =
     (let done = (\<lambda>stored. if stored then FhgfsOpsErr_SUCCESS else FhgfsOpsErr_INTERNAL)
      in case fmlookup m (infoEntryID info) of
           None \<Rightarrow>
             (case createFromEntryInfo cfg info fs of
                None \<Rightarrow> None
              | Some (None, fs1) \<Rightarrow> Some (FhgfsOpsErr_PATHNOTEXISTS, m, fs1)
              | Some (Some f, fs1) \<Rightarrow>
                  map_option (\<lambda>(stored, f1, fs2). (done stored, m, fs2))
                    (setAttrData cfg now info valid attribs f fs1))
         | Some r \<Rightarrow>
             if lockedByOther tid (refObject r) then Some (FhgfsOpsErr_PATHNOTEXISTS, m, fs)
             else map_option (\<lambda>(stored, f1, fs1).
                 (done stored, fmupd (infoEntryID info) (r\<lparr>refObject := f1\<rparr>) m, fs1))
               (setAttrData cfg now info valid attribs (refObject r) fs))"

definition insertReferencer :: "string \<Rightarrow> FileReferencer \<Rightarrow> InodeMap \<Rightarrow> bool \<times> InodeMap" where
  "insertReferencer eid r m = (if fmlookup m eid = None then (True, fmupd eid r m) else (False, m))"

definition incDecLinkCount ::
    "MetaConfig \<Rightarrow> i64 \<Rightarrow> string \<Rightarrow> EntryInfo \<Rightarrow> i32 \<Rightarrow> InodeMap \<Rightarrow> MetaFs \<Rightarrow>
       (FhgfsOpsErr \<times> InodeMap \<times> MetaFs) option" where
  "incDecLinkCount cfg now eid info v m fs =
     (case fmlookup m eid of
        None \<Rightarrow> None
      | Some r \<Rightarrow>
          map_option (\<lambda>(stored, f1, fs1).
              (if stored then FhgfsOpsErr_SUCCESS else FhgfsOpsErr_INTERNAL,
               fmupd eid (r\<lparr>refObject := f1\<rparr>) m, fs1))
            (fi_incDecNumHardLinks cfg now info v (refObject r) fs))"

section \<open>The reference counts of the files\<close>

text \<open>Loading gives an inode that is neither locked nor counted; storing keeps both members.\<close>

definition refs_kept :: "FileInode \<Rightarrow> FileInode \<Rightarrow> bool" where
  "refs_kept f f' \<longleftrightarrow> fiExclusiveTID f' = fiExclusiveTID f \<and> fiNumParentRefs f' = fiNumParentRefs f"

lemma refs_kept_refl [simp]: "refs_kept f f"
  by (simp add: refs_kept_def)

lemma refs_kept_trans: "refs_kept a b \<Longrightarrow> refs_kept b c \<Longrightarrow> refs_kept a c"
  by (simp add: refs_kept_def)

lemma refs_kept_simps [simp]:
  "refs_kept f (setIsInlined v f)" "refs_kept f (incNumSessions flags f)"
  "refs_kept f (decNumSessions flags f)" "refs_kept f (fi_updateStat g f)"
  "refs_kept f (applyChunkTimes valid attribs f)" "refs_kept f (applyAttribs now valid attribs f)"
  "refs_kept f (f\<lparr>fiIsInlined := v\<rparr>)" "refs_kept f (f\<lparr>fiData := d\<rparr>)"
  by (auto simp: refs_kept_def setIsInlined_def incNumSessions_def decNumSessions_def
      fi_updateStat_def applyChunkTimes_def applyAttribs_def Let_def)

lemma refs_kept_init: "fi_initFileInfoVec f = Some f' \<Longrightarrow> refs_kept f f'"
  by (auto simp: fi_initFileInfoVec_def refs_kept_def split: option.splits)

lemma refs_kept_dyn: "updateDynamicAttribs now f = Some f' \<Longrightarrow> refs_kept f f'"
  by (auto simp: updateDynamicAttribs_def refs_kept_def split: option.splits)

lemma refs_kept_targets: "setUpdatedTargets u f = Some f' \<Longrightarrow> refs_kept f f'"
  by (auto simp: setUpdatedTargets_def refs_kept_def split: option.splits)

lemma refs_kept_serialize: "serializeMetaData cfg now f = Some (buf, f') \<Longrightarrow> refs_kept f f'"
  by (auto simp: serializeMetaData_def split: option.splits if_splits dest: refs_kept_dyn)

lemma refs_kept_inlined:
  "storeUpdatedInlinedInode cfg now info u f fs = Some (res, f', fs') \<Longrightarrow> refs_kept f f'"
  by (auto simp: storeUpdatedInlinedInode_def Let_def bind_eq_Some_conv
      split: option.splits bind_splits dest!: refs_kept_dyn refs_kept_targets elim: refs_kept_trans)

lemma refs_kept_file: "storeInodeFile cfg now u f fs = Some (res, f', fs') \<Longrightarrow> refs_kept f f'"
  by (auto simp: storeInodeFile_def Let_def bind_eq_Some_conv
      split: option.splits prod.splits bind_splits dest!: refs_kept_serialize refs_kept_targets
      elim: refs_kept_trans)

lemma refs_kept_store: "fi_storeUpdatedInode cfg now info u f fs = Some (res, f', fs') \<Longrightarrow> refs_kept f f'"
  by (auto simp: fi_storeUpdatedInode_def split: option.splits if_splits
      dest!: refs_kept_inlined refs_kept_file) (auto simp: refs_kept_def)

lemma refs_kept_setAttr: "setAttrData cfg now info valid attribs f fs = Some (res, f', fs') \<Longrightarrow> refs_kept f f'"
  by (auto simp: setAttrData_def Let_def split: if_splits dest!: refs_kept_store)
    (auto simp: refs_kept_def fi_updateStat_def applyChunkTimes_def applyAttribs_def Let_def split: if_splits)

lemma refs_kept_close: "decNumSessionsAndStore cfg now info flags f fs = Some (f', fs') \<Longrightarrow> refs_kept f f'"
  by (auto simp: decNumSessionsAndStore_def dest!: refs_kept_store)
    (auto simp: refs_kept_def decNumSessions_def)

definition fresh_refs :: "FileInode \<Rightarrow> bool" where
  "fresh_refs f \<longleftrightarrow> fiExclusiveTID f = 0 \<and> fiNumParentRefs f = 0"

lemma fresh_kept: "fresh_refs f \<Longrightarrow> refs_kept f f' \<Longrightarrow> fresh_refs f'"
  by (simp add: fresh_refs_def refs_kept_def)

lemma fresh_blank [simp]: "fresh_refs (blankFileInode cfg)"
  by (simp add: fresh_refs_def blankFileInode_def)

lemma fresh_new: "newFileInode cfg eid d t flags = Some f \<Longrightarrow> fresh_refs f"
  by (auto simp: newFileInode_def split: option.splits dest!: refs_kept_init)
    (auto simp: fresh_refs_def refs_kept_def blankFileInode_def)

lemma fresh_record: "fi_loadRecord cfg buf f fs = Some (Some f', fs') \<Longrightarrow> refs_kept f f'"
  by (auto simp: fi_loadRecord_def deserializeMetaData_def dest!: refs_kept_init
      split: option.splits sum.splits decode_error.splits prod.splits) (auto simp: refs_kept_def)

lemma fresh_inode_file: "loadFromInodeFile cfg info f fs = Some (Some f', fs') \<Longrightarrow> refs_kept f f'"
  by (auto simp: loadFromInodeFile_def fi_loadFromFileXAttr_def fi_loadFromFileContents_def
      split: if_splits prod.splits sum.splits list.splits dest: fresh_record)

lemma fresh_created: "createFromEntryInfo cfg info fs = Some (Some f, fs') \<Longrightarrow> fresh_refs f"
proof -
  have own: "createFromInodeFile cfg info fs = Some (Some f, fs') \<Longrightarrow> fresh_refs f" for fs f fs'
    by (auto simp: createFromInodeFile_def dest!: fresh_inode_file fresh_kept [OF fresh_blank]
        intro: fresh_kept [OF _ refs_kept_simps(1)])
  have inlined: "createFromInlinedInode cfg info fs = Some (Some f, fs') \<Longrightarrow> fresh_refs f" for fs f fs'
    by (auto simp: createFromInlinedInode_def createInodeByID_def Let_def dest!: fresh_new intro: fresh_kept
        split: option.splits if_splits)
  show "createFromEntryInfo cfg info fs = Some (Some f, fs') \<Longrightarrow> fresh_refs f"
    by (auto simp: createFromEntryInfo_def split: if_splits option.splits dest: own inlined)
qed

text \<open>
  The references to a file in a store; every file in a store is referenced and none is locked for a
  move to another server.
\<close>

definition refsIn :: "InodeMap \<Rightarrow> string \<Rightarrow> nat" where
  "refsIn m eid = (case fmlookup m eid of None \<Rightarrow> 0 | Some r \<Rightarrow> unat (refCount r))"

definition store_ok :: "InodeMap \<Rightarrow> bool" where
  "store_ok m \<longleftrightarrow> (\<forall>eid r. fmlookup m eid = Some r \<longrightarrow> 0 < unat (refCount r) \<and>
     unat (refCount r) < 2 ^ 31 \<and> fiExclusiveTID (refObject r) = 0)"

text \<open>The references to the directory that a file of the store keeps.\<close>

definition parentRefs :: "InodeMap \<Rightarrow> string \<Rightarrow> i64" where
  "parentRefs m eid = (case fmlookup m eid of None \<Rightarrow> 0 | Some r \<Rightarrow> fiNumParentRefs (refObject r))"

lemma parentRefs_simps [simp]:
  "parentRefs (fmupd e r m) = (parentRefs m)(e := fiNumParentRefs (refObject r))"
  "parentRefs (fmdrop e m) = (parentRefs m)(e := 0)" "parentRefs fmempty e = 0"
  by (auto simp: parentRefs_def fun_eq_iff)

lemma store_okD:
  "store_ok m \<Longrightarrow> fmlookup m eid = Some r \<Longrightarrow>
     unat (refCount r) = refsIn m eid \<and> 0 < refsIn m eid \<and> refsIn m eid < 2 ^ 31 \<and>
     fiExclusiveTID (refObject r) = 0"
  by (simp add: store_ok_def refsIn_def)

lemma refsIn_pos: "store_ok m \<Longrightarrow> 0 < refsIn m eid \<longleftrightarrow> fmlookup m eid \<noteq> None"
  by (auto simp: store_ok_def refsIn_def split: option.split)

lemma store_ok_dom:
  "store_ok m \<Longrightarrow> store_ok m' \<Longrightarrow> refsIn m' x = refsIn m x \<Longrightarrow>
     fmlookup m' x = None \<longleftrightarrow> fmlookup m x = None"
  using refsIn_pos [of m x] refsIn_pos [of m' x] by fastforce

lemma refsIn_simps [simp]:
  "refsIn (fmupd e r m) = (refsIn m)(e := unat (refCount r))"
  "refsIn (fmdrop e m) = (refsIn m)(e := 0)" "refsIn fmempty e = 0"
  by (auto simp: refsIn_def fun_eq_iff)

lemma store_ok_upd:
  "store_ok m \<Longrightarrow> 0 < unat (refCount r) \<Longrightarrow> unat (refCount r) < 2 ^ 31 \<Longrightarrow>
     fiExclusiveTID (refObject r) = 0 \<Longrightarrow> store_ok (fmupd e r m)"
  "store_ok m \<Longrightarrow> store_ok (fmdrop e m)"
  by (auto simp: store_ok_def split: if_splits)

lemma store_ok_empty [simp]: "store_ok fmempty"
  by (simp add: store_ok_def)

lemma refs_reference:
  assumes "unat (refCount r) < 2 ^ 30"
  shows "unat (refCount (ref_reference r)) = Suc (unat (refCount r))"
proof -
  have "unat (refCount r) + 1 < 2 ^ LENGTH(32)" using assms by simp
  then show ?thesis by (simp add: ref_reference_def unat_word_ariths)
qed

lemma refs_release:
  assumes "0 < unat (refCount r)"
  shows "unat (refCount (ref_release r)) = unat (refCount r) - 1"
proof -
  have "1 \<le> refCount r" using assms by (simp add: word_le_nat_alt)
  then show ?thesis by (simp add: ref_release_def unat_sub)
qed

lemma ref_simps [simp]:
  "refObject (ref_reference r) = refObject r" "refObject (ref_release r) = refObject r"
  "refObject (newFileReferencer f) = f" "refCount (newFileReferencer f) = 0"
  by (simp_all add: ref_reference_def ref_release_def newFileReferencer_def)

lemma updateObject_refs:
  "parentRefs (updateObject e g m) =
     (parentRefs m)(e := case fmlookup m e of None \<Rightarrow> 0 | Some r \<Rightarrow> fiNumParentRefs (g (refObject r)))"
  by (auto simp: updateObject_def parentRefs_def fun_eq_iff split: option.splits)

lemma updateObject_simps [simp]:
  "refsIn (updateObject e g m) = refsIn m"
  by (auto simp: updateObject_def refsIn_def fun_eq_iff split: option.splits)

lemma updateObject_ok:
  "store_ok m \<Longrightarrow> (\<And>f. fiExclusiveTID (g f) = fiExclusiveTID f) \<Longrightarrow> store_ok (updateObject e g m)"
  by (auto simp: updateObject_def store_ok_def split: option.splits)

lemma tid_simps [simp]:
  "fiExclusiveTID (incParentRef p f) = fiExclusiveTID f"
  "fiExclusiveTID (decParentRef f) = fiExclusiveTID f"
  "fiExclusiveTID (incNumSessions flags f) = fiExclusiveTID f"
  by (simp_all add: incParentRef_def decParentRef_def incNumSessions_def)

text \<open>Referencing adds one reference or leaves the store as it is.\<close>

lemma load_missing_cases:
  assumes "loadIfMissing cfg info load m fs = Some (m1, fs1)"
  obtains (same) "m1 = m"
  | (loaded) f where "load" "fmlookup m (infoEntryID info) = None"
      "m1 = fmupd (infoEntryID info) (newFileReferencer f) m" "fresh_refs f"
proof (cases "fmlookup m (infoEntryID info) = None \<and> load")
  case True
  then obtain w where l: "loadAndInsertFileInode cfg info m fs = Some (w, m1, fs1)"
    using assms by (auto simp: loadIfMissing_def)
  show thesis
  proof (cases "createFromEntryInfo cfg info fs")
    case None
    then show thesis using l by (simp add: loadAndInsertFileInode_def)
  next
    case (Some a)
    obtain fo fs2 where a: "createFromEntryInfo cfg info fs = Some (fo, fs2)"
      using Some by (cases a) simp
    show thesis
    proof (cases fo)
      case None
      then show thesis using l a same by (simp add: loadAndInsertFileInode_def)
    next
      case (Some f)
      have "m1 = fmupd (infoEntryID info) (newFileReferencer f) m"
        using l a Some True by (simp add: loadAndInsertFileInode_def)
      moreover have "fresh_refs f" using a Some fresh_created by blast
      ultimately show thesis using loaded True by blast
    qed
  qed
qed (use assms same in \<open>auto simp: loadIfMissing_def\<close>)

lemma loaded_reference:
  assumes r: "referenceLoadedFile tid eid m = (got, m')" and ok: "store_ok m"
    and b: "refsIn m eid < 2 ^ 30"
  shows "got = (fmlookup m eid \<noteq> None) \<and> (if got
    then store_ok m' \<and> refsIn m' = (refsIn m)(eid := Suc (refsIn m eid)) \<and> parentRefs m' = parentRefs m
    else m' = m)"
proof (cases "fmlookup m eid")
  case (Some x)
  have n: "unat (refCount (ref_reference x)) = Suc (refsIn m eid)"
    using refs_reference [of x] store_okD [OF ok Some] b by simp
  then have "store_ok (fmupd eid (ref_reference x) m)" "\<not> lockedByOther tid (refObject x)"
    using ok b store_okD [OF ok Some] by (simp_all add: store_ok_upd lockedByOther_def)
  moreover have "parentRefs m eid = fiNumParentRefs (refObject x)" using Some by (simp add: parentRefs_def)
  ultimately show ?thesis using r Some n
    by (auto simp: referenceLoadedFile_def fun_upd_idem_iff split: if_splits)
qed (use r in \<open>simp add: referenceLoadedFile_def\<close>)

lemma file_reference:
  assumes r: "ifs_referenceFileInode cfg tid info load m fs = Some (got, m', fs')" and ok: "store_ok m"
    and b: "refsIn m (infoEntryID info) < 2 ^ 30"
  shows "if got then store_ok m' \<and>
      refsIn m' = (refsIn m)(infoEntryID info := Suc (refsIn m (infoEntryID info))) \<and>
      (load \<or> fmlookup m (infoEntryID info) \<noteq> None) \<and> parentRefs m' = parentRefs m
    else m' = m \<and> fmlookup m (infoEntryID info) = None"
proof -
  let ?eid = "infoEntryID info"
  obtain m1 fs1 where l: "loadIfMissing cfg info load m fs = Some (m1, fs1)"
    using r by (auto simp: ifs_referenceFileInode_def)
  have r1: "referenceLoadedFile tid ?eid m1 = (got, m')"
    using r l by (auto simp: ifs_referenceFileInode_def split: prod.splits)
  from l show ?thesis
  proof (cases rule: load_missing_cases)
    case same
    have r2: "referenceLoadedFile tid ?eid m = (got, m')" using r1 same by simp
    from loaded_reference [OF r2 ok b] show ?thesis by (cases got) (auto split: if_splits)
  next
    case (loaded f)
    have n: "unat (refCount (ref_reference (newFileReferencer f))) = 1"
      by (simp add: ref_reference_def newFileReferencer_def)
    have "fmlookup m1 ?eid = Some (newFileReferencer f)" using loaded by simp
    moreover have "\<not> lockedByOther tid f" using loaded(4) by (simp add: lockedByOther_def fresh_refs_def)
    ultimately have m': "got" "m' = fmupd ?eid (ref_reference (newFileReferencer f)) m1"
      using r1 by (simp_all add: referenceLoadedFile_def)
    have z: "refsIn m ?eid = 0" using loaded(2) by (simp add: refsIn_def)
    have "m' = fmupd ?eid (ref_reference (newFileReferencer f)) m"
      unfolding m'(2) loaded(3) by (rule fmap_ext) simp
    moreover have "store_ok (fmupd ?eid (ref_reference (newFileReferencer f)) m)"
      using ok n loaded(4) by (simp add: store_ok_upd fresh_refs_def)
    moreover have "parentRefs m ?eid = fiNumParentRefs f"
      using loaded(2,4) by (simp add: parentRefs_def fresh_refs_def)
    ultimately show ?thesis using m'(1) n z loaded(1) by (auto simp: fun_upd_idem_iff)
  qed
qed

lemma release_spec:
  assumes ok: "store_ok m" and r: "fmlookup m eid = Some r"
  shows "decreaseInodeRefCount eid r' m = (k, m') \<Longrightarrow> refCount r' = refCount r \<Longrightarrow>
    fiExclusiveTID (refObject r') = 0 \<Longrightarrow>
    unat k = refsIn m eid - 1 \<and> store_ok m' \<and> refsIn m' = (refsIn m)(eid := refsIn m eid - 1) \<and>
    parentRefs m' = (parentRefs m)(eid := if refsIn m eid = 1 then 0 else fiNumParentRefs (refObject r'))"
proof -
  assume d: "decreaseInodeRefCount eid r' m = (k, m')" and same: "refCount r' = refCount r"
    and tid: "fiExclusiveTID (refObject r') = 0"
  note n = store_okD [OF ok r]
  have n1: "unat (refCount (ref_release r')) = refsIn m eid - 1" using refs_release [of r'] n same by simp
  have z: "refCount (ref_release r') = 0 \<longleftrightarrow> refsIn m eid = 1"
    using n1 n by (metis One_nat_def diff_is_0_eq le_antisym Suc_leI unat_eq_zero le_refl)
  show ?thesis
  proof (cases "refsIn m eid = 1")
    case True
    then show ?thesis using d z n1 ok by (auto simp: decreaseInodeRefCount_def Let_def store_ok_upd)
  next
    case False
    then have "k = refCount (ref_release r')" "m' = fmupd eid (ref_release r') m"
      using d z by (auto simp: decreaseInodeRefCount_def Let_def)
    moreover have "refsIn m eid - 1 < 2 ^ 31" using n by arith
    moreover have "store_ok (fmupd eid (ref_release r') m)" if "refsIn m eid - 1 < 2 ^ 31"
      using that store_ok_upd(1) [OF ok, of "ref_release r'" eid] n n1 False tid by simp
    ultimately show ?thesis using n1 False by simp
  qed
qed

lemma close_spec:
  assumes ok: "store_ok m" and c: "ifs_closeFile cfg now info eid flags m fs = Some (closed, links, refs, m', fs')"
  shows "if fmlookup m eid = None then \<not> closed \<and> m' = m
    else closed \<and> store_ok m' \<and> refsIn m' = (refsIn m)(eid := refsIn m eid - 1) \<and>
      parentRefs m' = (parentRefs m)(eid := if refsIn m eid = 1 then 0 else parentRefs m eid) \<and>
      (\<exists>k. refs = Some k \<and> unat k = refsIn m eid - 1)"
proof (cases "fmlookup m eid")
  case (Some r)
  obtain f1 fs1 where d: "decNumSessionsAndStore cfg now
      (setInodeInlinedFlag (fiIsInlined (refObject r)) info) flags (refObject r) fs = Some (f1, fs1)"
    using c Some by (auto simp: ifs_closeFile_def)
  obtain k m1 where k: "decreaseInodeRefCount eid (r\<lparr>refObject := f1\<rparr>) m = (k, m1)" by fastforce
  have out: "closed" "refs = Some k" "m' = m1"
    using c Some d k by (auto simp: ifs_closeFile_def)
  have "parentRefs m eid = fiNumParentRefs f1" "fiExclusiveTID f1 = 0"
    using refs_kept_close [OF d] Some store_okD [OF ok Some] by (simp_all add: parentRefs_def refs_kept_def)
  with release_spec [OF ok Some k] out Some show ?thesis by simp
qed (use c in \<open>auto simp: ifs_closeFile_def\<close>)

lemma release_file_spec:
  assumes ok: "store_ok m" and c: "releaseFileInode eid m = (released, m')"
  shows "if fmlookup m eid = None then \<not> released \<and> m' = m
    else released \<and> store_ok m' \<and> refsIn m' = (refsIn m)(eid := refsIn m eid - 1) \<and>
      parentRefs m' = (parentRefs m)(eid := if refsIn m eid = 1 then 0 else parentRefs m eid)"
proof (cases "fmlookup m eid")
  case (Some r)
  obtain k where k: "decreaseInodeRefCount eid r m = (k, m')" and "released"
    using c Some by (auto simp: releaseFileInode_def) (metis prod.collapse)
  with release_spec [OF ok Some k] Some store_okD [OF ok Some] show ?thesis by (simp add: parentRefs_def)
qed (use c in \<open>auto simp: releaseFileInode_def\<close>)

text \<open>A file that is referenced is not unlinked.\<close>

lemma unlinkable_spec:
  assumes "store_ok m"
  shows "isUnlinkable tid info m = (if 0 < refsIn m (infoEntryID info) then FhgfsOpsErr_INUSE else FhgfsOpsErr_SUCCESS)"
proof (cases "fmlookup m (infoEntryID info)")
  case (Some r)
  then have "0 < unat (refCount r)" using assms by (simp add: store_ok_def)
  then have "refCount r \<noteq> 0" by auto
  then show ?thesis using Some \<open>0 < unat (refCount r)\<close> by (simp add: isUnlinkable_def refsIn_def)
qed (simp add: isUnlinkable_def refsIn_def)

text \<open>All references to the files of a store.\<close>

definition totalRefs :: "InodeMap \<Rightarrow> nat" where
  "totalRefs m = (\<Sum>e \<in> fmdom' m. refsIn m e)"

lemma finite_fmdom' [simp]: "finite (fmdom' m)"
  by (simp add: fmdom'_alt_def)

lemma refsIn_out: "e \<notin> fmdom' m \<Longrightarrow> refsIn m e = 0"
  by (simp add: refsIn_def fmdom'_notD)

lemma total_over: "finite A \<Longrightarrow> fmdom' m \<subseteq> A \<Longrightarrow> totalRefs m = sum (refsIn m) A"
  unfolding totalRefs_def by (rule sum.mono_neutral_left) (simp_all add: refsIn_out)

lemma total_change:
  assumes "refsIn m' = (refsIn m)(e := k)"
  shows "totalRefs m' + refsIn m e = totalRefs m + k"
proof -
  let ?A = "insert e (fmdom' m \<union> fmdom' m')"
  have t: "totalRefs m' = sum (refsIn m') ?A" "totalRefs m = sum (refsIn m) ?A"
    by (rule total_over, simp, blast)+
  have "sum (refsIn m') ?A = k + sum (refsIn m) (?A - {e})"
    by (subst sum.remove [of _ e]) (auto simp: assms intro!: sum.cong)
  moreover have "sum (refsIn m) ?A = refsIn m e + sum (refsIn m) (?A - {e})"
    by (subst sum.remove [of _ e]) auto
  ultimately show ?thesis using t by simp
qed

lemma refs_le_total: "refsIn m e \<le> totalRefs m"
proof (cases "fmlookup m e")
  case (Some r)
  then have "e \<in> fmdom' m" by (simp add: fmdom'I)
  then show ?thesis unfolding totalRefs_def by (intro member_le_sum) auto
qed (simp add: refsIn_def)

lemma total_pos:
  assumes "store_ok m" "m \<noteq> fmempty"
  shows "0 < totalRefs m"
proof -
  obtain e where "fmlookup m e \<noteq> None" using assms(2) by (metis fmap_ext fmempty_lookup)
  then have "0 < refsIn m e" using refsIn_pos [OF assms(1)] by simp
  then show ?thesis using refs_le_total [of m e] by simp
qed

end
