(* ===== verification/DirNode.thy ===== *)
theory DirNode
  imports FileInode
begin

text \<open>
  The inode of a directory in the memory of a metadata server (\<open>DirInode.h/.cpp\<close> under
  fhgfs_meta/source/storage): its record on disk, which is loaded when it is needed first, and
  the operations on the entries of the directory, which keep the numbers of its files and
  subdirectories. The removal of the entry of a file in use (\<open>DirEntry::removeBusyFile\<close>) is here, too,
  as it links the file to the disposal directory. The store of the files in use is in
  \<open>MetaStore\<close>; copies for mirror servers, listings and extended attributes of users are left out.

  None is the outcome where the code follows a NULL pointer or leaves a buffer.
\<close>

section \<open>The inode and its record\<close>

record DirNode =
  dnInode :: DirInode
  dnLoaded :: bool
  dnExclusive :: bool
  dnEntriesID :: string

text \<open>
  \<open>dnEntriesID\<close> is the ID by which the store of the entries finds them on disk; the ID of the inode
  itself is read from its record. The constructor for loading does not set all members.
\<close>

definition blankDirNode :: "MetaConfig \<Rightarrow> string \<Rightarrow> DirNode" where
  "blankDirNode cfg eid =
     \<lparr>dnInode = \<lparr>dirID = eid, dirOwnerNodeID = freshNodeID cfg, dirStripePattern = None,
        parentDirID = [], parentNodeID = freshNodeID cfg, dirFeatureFlags = 0, dirMirrorNodeID = 0,
        dirStatData = inodeStatData (freshInodeData cfg), numSubdirs = freshUID cfg,
        numFiles = freshUID cfg\<rparr>,
      dnLoaded = False, dnExclusive = False, dnEntriesID = eid\<rparr>"

definition newDirNode ::
    "MetaConfig \<Rightarrow> i64 \<Rightarrow> string \<Rightarrow> i32 \<Rightarrow> u32 \<Rightarrow> u32 \<Rightarrow> u16 \<Rightarrow> StripePattern \<Rightarrow> DirNode" where
  "newDirNode cfg now eid dirMode uid gid owner pattern =
     \<lparr>dnInode = \<lparr>dirID = eid, dirOwnerNodeID = owner,
        dirStripePattern = Some (clonePattern pattern), parentDirID = [], parentNodeID = 0,
        dirFeatureFlags = DIRINODE_FEATURE_EARLY_SUBDIRS OR DIRINODE_FEATURE_STATFLAGS,
        dirMirrorNodeID = 0,
        dirStatData = (inodeStatData (freshInodeData cfg))
          \<lparr>statFileSize := 0, creationTimeSecs := now, attribChangeTimeSecs := now, nlink := 2,
           settable := \<lparr>mode = dirMode, userID = uid, groupID = gid, modificationTimeSecs = now,
             lastAccessTimeSecs = now\<rparr>,
           contentsVersion := 0\<rparr>,
        numSubdirs = 0, numFiles = 0\<rparr>,
      dnLoaded = True, dnExclusive = False, dnEntriesID = eid\<rparr>"

definition dn_update :: "(DirInode \<Rightarrow> DirInode) \<Rightarrow> DirNode \<Rightarrow> DirNode" where
  "dn_update g d = d\<lparr>dnInode := g (dnInode d)\<rparr>"

text \<open>Storing for the first time (without the directories of the entries).\<close>

definition storeInitialMetaDataInode ::
    "MetaConfig \<Rightarrow> DirNode \<Rightarrow> MetaFs \<Rightarrow> (FhgfsOpsErr \<times> DirNode \<times> MetaFs) option" where
  "storeInitialMetaDataInode cfg d fs =
     (let path = InodePath (dirID (dnInode d))
      in case sys_create_excl path fs of
           (Inl err, fs1) \<Rightarrow>
             Some (if err = EEXIST then FhgfsOpsErr_EXISTS else FhgfsOpsErr_INTERNAL, d, fs1)
         | (Inr fd, fs1) \<Rightarrow>
             (case serializeDirInode (dnInode d) of
                None \<Rightarrow> None
              | Some (buf, inode) \<Rightarrow>
                  if META_SERBUF_SIZE < length buf then None
                  else (case writeNewRecord cfg fd buf fs1 of
                      (stored, fs2) \<Rightarrow>
                        Some (if stored then (FhgfsOpsErr_SUCCESS, d\<lparr>dnInode := inode\<rparr>, fs2)
                          else (FhgfsOpsErr_INTERNAL, d\<lparr>dnInode := inode\<rparr>,
                            snd (sys_unlink path fs2))))))"

text \<open>
  Updates: as for the inodes of files, but the update in place truncates the file before it is
  closed.
\<close>

definition dn_storeBufAsContents :: "string \<Rightarrow> u8 list \<Rightarrow> MetaFs \<Rightarrow> bool \<times> MetaFs" where
  "dn_storeBufAsContents eid buf fs =
     (let update = InodeUpdatePath eid; path = InodePath eid
      in case sys_open_trunc update fs of
           (Inl err, fs1) \<Rightarrow>
             if err = ENOSPC then storeBufInPlace path buf fs1 else (False, fs1)
         | (Inr fd, fs1) \<Rightarrow>
             (case sys_write fd buf fs1 of
                (r, fs2) \<Rightarrow>
                  if r = Inr (length buf)
                  then (case sys_rename update path fs2 of
                      (Inr _, fs3) \<Rightarrow> (True, fs3)
                    | (Inl _, fs3) \<Rightarrow> (False, snd (sys_unlink update fs3)))
                  else if \<not> isl r \<or> r = Inl ENOSPC
                  then storeBufInPlace path buf (snd (sys_unlink update fs2))
                  else (False, snd (sys_unlink update fs2))))"

definition dn_storeUpdated ::
    "MetaConfig \<Rightarrow> DirNode \<Rightarrow> MetaFs \<Rightarrow> (bool \<times> DirNode \<times> MetaFs) option" where
  "dn_storeUpdated cfg d fs =
     (if \<not> dnLoaded d then Some (False, d, fs)
      else case serializeDirInode (dnInode d) of
        None \<Rightarrow> None
      | Some (buf, inode) \<Rightarrow>
          if META_SERBUF_SIZE < length buf then None
          else (case (if storeUseExtendedAttribs cfg
                  then storeMetaBufAsXAttr (InodePath (dirID inode)) buf fs
                  else dn_storeBufAsContents (dirID inode) buf fs) of
              (stored, fs1) \<Rightarrow> Some (stored, d\<lparr>dnInode := inode\<rparr>, fs1)))"

definition dn_removeStoredFile :: "string \<Rightarrow> MetaFs \<Rightarrow> bool \<times> MetaFs" where
  "dn_removeStoredFile eid fs =
     (case sys_unlink (InodePath eid) fs of (r, fs1) \<Rightarrow> (r = Inr () \<or> r = Inl ENOENT, fs1))"

text \<open>
  Loading. A record that is rejected leaves an object that is not loaded (what the reader has set
  before it stops is left out).
\<close>

definition dn_loadRecord ::
    "MetaConfig \<Rightarrow> u8 list \<Rightarrow> DirNode \<Rightarrow> MetaFs \<Rightarrow> (bool \<times> DirNode \<times> MetaFs) option" where
  "dn_loadRecord cfg buf d fs =
     (case deserializeDirInode (dnInode d) (stackBuf cfg META_SERBUF_SIZE buf) of
        Inl ReadBeyondBuffer \<Rightarrow> None
      | Inl DecodeFail \<Rightarrow> Some (False, d, fs)
      | Inr inode \<Rightarrow> Some (True, d\<lparr>dnInode := inode, dnLoaded := True\<rparr>, fs))"

definition dn_loadFromFile ::
    "MetaConfig \<Rightarrow> DirNode \<Rightarrow> MetaFs \<Rightarrow> (bool \<times> DirNode \<times> MetaFs) option" where
  "dn_loadFromFile cfg d fs =
     (let path = InodePath (dirID (dnInode d))
      in if storeUseExtendedAttribs cfg
         then (case sys_getxattr path META_SERBUF_SIZE fs of
             (Inr (b # bs), fs1) \<Rightarrow> dn_loadRecord cfg (b # bs) d fs1
           | (_, fs1) \<Rightarrow> Some (False, d, fs1))
         else (case sys_open_read path fs of
             (Inl _, fs1) \<Rightarrow> Some (False, d, fs1)
           | (Inr fd, fs1) \<Rightarrow>
               (case sys_read fd META_SERBUF_SIZE fs1 of
                  (Inr (b # bs), fs2) \<Rightarrow> dn_loadRecord cfg (b # bs) d fs2
                | (_, fs2) \<Rightarrow> Some (False, d, fs2))))"

definition dn_loadIfNotLoaded ::
    "MetaConfig \<Rightarrow> DirNode \<Rightarrow> MetaFs \<Rightarrow> (bool \<times> DirNode \<times> MetaFs) option" where
  "dn_loadIfNotLoaded cfg d fs =
     (if dnLoaded d then Some (True, d, fs) else dn_loadFromFile cfg d fs)"

definition dn_createFromFile ::
    "MetaConfig \<Rightarrow> string \<Rightarrow> MetaFs \<Rightarrow> (DirNode option \<times> MetaFs) option" where
  "dn_createFromFile cfg eid fs =
     map_option (\<lambda>(loaded, d, fs1). (if loaded then Some d else None, fs1))
       (dn_loadFromFile cfg (blankDirNode cfg eid) fs)"

section \<open>Counting the entries\<close>

definition dn_updateTimeStamps ::
    "MetaConfig \<Rightarrow> i64 \<Rightarrow> DirNode \<Rightarrow> MetaFs \<Rightarrow> (bool \<times> DirNode \<times> MetaFs) option" where
  "dn_updateTimeStamps cfg now d fs =
     dn_storeUpdated cfg
       (dn_update (\<lambda>i. i\<lparr>dirStatData := (dirStatData i)\<lparr>attribChangeTimeSecs := now,
          settable := (settable (dirStatData i))\<lparr>modificationTimeSecs := now\<rparr>\<rparr>\<rparr>) d) fs"

definition increaseNumSubDirs where
  "increaseNumSubDirs cfg now d fs =
     dn_updateTimeStamps cfg now (dn_update (\<lambda>i. i\<lparr>numSubdirs := numSubdirs i + 1\<rparr>) d) fs"

definition increaseNumFiles where
  "increaseNumFiles cfg now d fs =
     dn_updateTimeStamps cfg now (dn_update (\<lambda>i. i\<lparr>numFiles := numFiles i + 1\<rparr>) d) fs"

definition decreaseNumFiles where
  "decreaseNumFiles cfg now d fs =
     dn_updateTimeStamps cfg now
       (dn_update (\<lambda>i. if numFiles i = 0 then i else i\<lparr>numFiles := numFiles i - 1\<rparr>) d) fs"

definition decreaseNumSubDirs where
  "decreaseNumSubDirs cfg now d fs =
     dn_updateTimeStamps cfg now
       (dn_update (\<lambda>i. if numSubdirs i = 0 then i else i\<lparr>numSubdirs := numSubdirs i - 1\<rparr>) d) fs"

section \<open>The operations on the entries\<close>

text \<open>Most operations need the record and fail if it cannot be loaded.\<close>

definition dn_withLoaded ::
    "MetaConfig \<Rightarrow> (DirNode \<Rightarrow> MetaFs \<Rightarrow> (FhgfsOpsErr \<times> DirNode \<times> MetaFs) option) \<Rightarrow>
       DirNode \<Rightarrow> MetaFs \<Rightarrow> (FhgfsOpsErr \<times> DirNode \<times> MetaFs) option" where
  "dn_withLoaded cfg operation d fs =
     (case dn_loadIfNotLoaded cfg d fs of
        None \<Rightarrow> None
      | Some (loaded, d1, fs1) \<Rightarrow>
          if loaded then operation d1 fs1 else Some (FhgfsOpsErr_PATHNOTEXISTS, d1, fs1))"

definition makeDirEntry ::
    "MetaConfig \<Rightarrow> i64 \<Rightarrow> DirEntry \<Rightarrow> DirNode \<Rightarrow> MetaFs \<Rightarrow> (FhgfsOpsErr \<times> DirNode \<times> MetaFs) option" where
  "makeDirEntry cfg now e d fs =
     (let type = entryType (deData e)
      in if \<not> DirEntryType_ISFILE type \<and> \<not> DirEntryType_ISDIR type
         then Some (FhgfsOpsErr_INTERNAL, d, fs)
         else dn_withLoaded cfg (\<lambda>d1 fs1.
           (case makeEntry cfg (dnEntriesID d1) e fs1 of
              None \<Rightarrow> None
            | Some (res, fs2) \<Rightarrow>
                if res \<noteq> FhgfsOpsErr_SUCCESS then Some (res, d1, fs2)
                else map_option (\<lambda>(_, d2, fs3). (res, d2, fs3))
                  (if DirEntryType_ISDIR type then increaseNumSubDirs cfg now d1 fs2
                   else increaseNumFiles cfg now d1 fs2))) d fs)"

definition linkFilesInDir ::
    "MetaConfig \<Rightarrow> i64 \<Rightarrow> string \<Rightarrow> string \<Rightarrow> DirNode \<Rightarrow> MetaFs \<Rightarrow>
       (FhgfsOpsErr \<times> DirNode \<times> MetaFs) option" where
  "linkFilesInDir cfg now fromName toName d fs =
     (case linkEntryInDir (dnEntriesID d) fromName toName fs of
        (res, fs1) \<Rightarrow>
          if res \<noteq> FhgfsOpsErr_SUCCESS then Some (res, d, fs1)
          else map_option (\<lambda>(_, d1, fs2). (res, d1, fs2)) (increaseNumFiles cfg now d fs1))"

definition linkFileInodeToDir ::
    "MetaConfig \<Rightarrow> i64 \<Rightarrow> MetaPath \<Rightarrow> string \<Rightarrow> DirNode \<Rightarrow> MetaFs \<Rightarrow>
       (FhgfsOpsErr \<times> DirNode \<times> MetaFs) option" where
  "linkFileInodeToDir cfg now inodePath fileName =
     dn_withLoaded cfg (\<lambda>d fs.
       (case linkInodeToDir inodePath (dnEntriesID d) fileName fs of
          (res, fs1) \<Rightarrow>
            if res \<noteq> FhgfsOpsErr_SUCCESS then Some (res, d, fs1)
            else map_option (\<lambda>(_, d1, fs2). (res, d1, fs2)) (increaseNumFiles cfg now d fs1)))"

text \<open>
  The entry of a file that is in use: its record becomes an inode of its own, which is linked to
  the disposal directory (an error there is ignored).
\<close>

definition moveIDToInode ::
    "MetaConfig \<Rightarrow> i64 \<Rightarrow> string \<Rightarrow> string \<Rightarrow> u32 \<Rightarrow> DirNode \<Rightarrow> MetaFs \<Rightarrow>
       (FhgfsOpsErr \<times> DirNode \<times> MetaFs) option" where
  "moveIDToInode cfg now dir eid unlinkTypeFlags disposal fs =
     (case sys_rename (IDPath dir eid) (InodePath eid) fs of
        (Inr _, fs1) \<Rightarrow>
          map_option (\<lambda>(_, disposal1, fs3). (FhgfsOpsErr_SUCCESS, disposal1, fs3))
            (linkFileInodeToDir cfg now (InodePath eid) eid disposal
              (snd (sys_unlink (IDPath dir eid) fs1)))
      | (Inl err, fs1) \<Rightarrow>
          Some (if unlinkTypeFlags AND DirEntry_UNLINK_FILENAME \<noteq> 0 then FhgfsOpsErr_SUCCESS
            else if err = ENOENT then FhgfsOpsErr_PATHNOTEXISTS
            else FhgfsOpsErr_INTERNAL, disposal, fs1))"

definition removeBusyFile ::
    "MetaConfig \<Rightarrow> i64 \<Rightarrow> string \<Rightarrow> string \<Rightarrow> string \<Rightarrow> u32 \<Rightarrow> DirNode \<Rightarrow> MetaFs \<Rightarrow>
       (FhgfsOpsErr \<times> DirNode \<times> MetaFs) option" where
  "removeBusyFile cfg now dir eid name unlinkTypeFlags disposal fs =
     (let (res, fs1) =
        (if unlinkTypeFlags AND DirEntry_UNLINK_FILENAME \<noteq> 0
         then removeDirEntryName (NamePath dir name) fs else (FhgfsOpsErr_SUCCESS, fs))
      in if res \<noteq> FhgfsOpsErr_SUCCESS then Some (res, disposal, fs1)
         else if unlinkTypeFlags AND DirEntry_UNLINK_ID \<noteq> 0
         then moveIDToInode cfg now dir eid unlinkTypeFlags disposal fs1
         else Some (res, disposal, fs1))"

definition dn_removeDir ::
    "MetaConfig \<Rightarrow> i64 \<Rightarrow> string \<Rightarrow> DirNode \<Rightarrow> MetaFs \<Rightarrow> (FhgfsOpsErr \<times> DirNode \<times> MetaFs) option" where
  "dn_removeDir cfg now name =
     dn_withLoaded cfg (\<lambda>d fs.
       (case des_removeDir cfg (dnEntriesID d) name fs of
          None \<Rightarrow> None
        | Some (res, _, fs1) \<Rightarrow>
            if res \<noteq> FhgfsOpsErr_SUCCESS then Some (res, d, fs1)
            else map_option (\<lambda>(stored, d1, fs2).
                (if stored then res else FhgfsOpsErr_INTERNAL, d1, fs2))
              (decreaseNumSubDirs cfg now d fs1)))"

text \<open>Renaming within the directory; \<open>over\<close> is the entry that is overwritten.\<close>

definition renameDirEntry ::
    "MetaConfig \<Rightarrow> i64 \<Rightarrow> string \<Rightarrow> string \<Rightarrow> DirEntry option \<Rightarrow> DirNode \<Rightarrow> MetaFs \<Rightarrow>
       (FhgfsOpsErr \<times> DirNode \<times> MetaFs) option" where
  "renameDirEntry cfg now fromName toName over d fs =
     (case renameEntry (dnEntriesID d) fromName toName fs of
        (res, fs1) \<Rightarrow>
          if res \<noteq> FhgfsOpsErr_SUCCESS then Some (res, d, fs1)
          else map_option (\<lambda>(_, d1, fs2). (res, d1, fs2))
            (dn_updateTimeStamps cfg now
              (case over of
                 None \<Rightarrow> d
               | Some e \<Rightarrow>
                   if DirEntryType_ISDIR (entryType (deData e))
                   then dn_update (\<lambda>i. i\<lparr>numSubdirs := numSubdirs i - 1\<rparr>) d
                   else dn_update (\<lambda>i. i\<lparr>numFiles := numFiles i - 1\<rparr>) d) fs1))"

text \<open>Without an entry of the caller, the one with the name is loaded.\<close>

definition unlinkEntry ::
    "MetaConfig \<Rightarrow> i64 \<Rightarrow> string \<Rightarrow> DirEntry \<Rightarrow> u32 \<Rightarrow> DirNode \<Rightarrow> MetaFs \<Rightarrow>
       (FhgfsOpsErr \<times> DirNode \<times> MetaFs) option" where
  "unlinkEntry cfg now name e unlinkTypeFlags d fs =
     (case unlinkDirEntry (dnEntriesID d) name e unlinkTypeFlags fs of
        (res, fs1) \<Rightarrow>
          if res \<noteq> FhgfsOpsErr_SUCCESS \<or> unlinkTypeFlags AND DirEntry_UNLINK_FILENAME = 0
          then Some (res, d, fs1)
          else map_option (\<lambda>(_, d1, fs2). (res, d1, fs2))
            (if DirEntryType_ISDIR (entryType (deData e)) then decreaseNumSubDirs cfg now d fs1
             else decreaseNumFiles cfg now d fs1))"

definition dn_unlinkDirEntry ::
    "MetaConfig \<Rightarrow> i64 \<Rightarrow> string \<Rightarrow> DirEntry option \<Rightarrow> u32 \<Rightarrow> DirNode \<Rightarrow> MetaFs \<Rightarrow>
       (FhgfsOpsErr \<times> DirNode \<times> MetaFs) option" where
  "dn_unlinkDirEntry cfg now name inEntry unlinkTypeFlags =
     dn_withLoaded cfg (\<lambda>d fs.
       (case inEntry of
          Some e \<Rightarrow> unlinkEntry cfg now name e unlinkTypeFlags d fs
        | None \<Rightarrow>
            if unlinkTypeFlags AND DirEntry_UNLINK_FILENAME = 0
            then Some (FhgfsOpsErr_INTERNAL, d, fs)
            else (case getDentry cfg (dnEntriesID d) name fs of
                None \<Rightarrow> None
              | Some (None, fs1) \<Rightarrow> Some (FhgfsOpsErr_PATHNOTEXISTS, d, fs1)
              | Some (Some e, fs1) \<Rightarrow> unlinkEntry cfg now name e unlinkTypeFlags d fs1)))"

text \<open>The result is true for an error; it comes with the disposal directory.\<close>

definition unlinkBusyFile ::
    "MetaConfig \<Rightarrow> i64 \<Rightarrow> string \<Rightarrow> DirEntry \<Rightarrow> u32 \<Rightarrow> DirNode \<Rightarrow> DirNode \<Rightarrow> MetaFs \<Rightarrow>
       ((bool \<times> DirNode) \<times> DirNode \<times> MetaFs) option" where
  "unlinkBusyFile cfg now name e unlinkTypeFlags disposal d fs =
     (case removeBusyFile cfg now (dnEntriesID d) (dentryID (deData e)) name unlinkTypeFlags disposal fs of
        None \<Rightarrow> None
      | Some (res, disposal1, fs1) \<Rightarrow>
          if res \<noteq> FhgfsOpsErr_SUCCESS then Some ((True, disposal1), d, fs1)
          else if unlinkTypeFlags AND DirEntry_UNLINK_FILENAME = 0 then Some ((False, disposal1), d, fs1)
          else map_option (\<lambda>(stored, d1, fs2). ((\<not> stored, disposal1), d1, fs2))
            (decreaseNumFiles cfg now d fs1))"

text \<open>
  The data of an entry. For a regular file whose inode is in use the caller is told that the
  attributes of the record may be outdated; \<open>inUse\<close> stands for the file store of the directory.
\<close>

definition DirEntryType_ISREGULARFILE :: "i32 \<Rightarrow> bool" where
  "DirEntryType_ISREGULARFILE t \<longleftrightarrow> t = ucast DirEntryType_REGULARFILE"

definition dn_getEntryData ::
    "MetaConfig \<Rightarrow> (string \<Rightarrow> bool) \<Rightarrow> string \<Rightarrow> DirNode \<Rightarrow> MetaFs \<Rightarrow>
       (FhgfsOpsErr \<times> (EntryInfo \<times> FileInodeStoreData) option \<times> MetaFs) option" where
  "dn_getEntryData cfg inUse name d fs =
     map_option (\<lambda>(res, out, fs1).
         (case out of
            Some (info, _) \<Rightarrow>
              if res = FhgfsOpsErr_SUCCESS \<and> DirEntryType_ISREGULARFILE (infoEntryType info) \<and>
                inUse (infoEntryID info)
              then FhgfsOpsErr_DYNAMICATTRIBSOUTDATED else res
          | None \<Rightarrow> res, out, fs1))
       (getEntryData cfg (dnEntriesID d) name fs)"

section \<open>The attributes\<close>

definition getNumSubEntries :: "DirNode \<Rightarrow> u32" where
  "getNumSubEntries d = numSubdirs (dnInode d) + numFiles (dnInode d)"

definition dn_getStatData :: "DirNode \<Rightarrow> StatData \<times> DirNode" where
  "dn_getStatData d =
     (let st = (dirStatData (dnInode d))\<lparr>nlink := 2 + numSubdirs (dnInode d),
            statFileSize := ucast (getNumSubEntries d)\<rparr>
      in (st, dn_update (\<lambda>i. i\<lparr>dirStatData := st\<rparr>) d))"

text \<open>The outcome None is a pattern that a NULL pointer stands for.\<close>

definition dn_setStripePattern ::
    "MetaConfig \<Rightarrow> StripePattern \<Rightarrow> u32 \<Rightarrow> DirNode \<Rightarrow> MetaFs \<Rightarrow>
       (FhgfsOpsErr \<times> DirNode \<times> MetaFs) option" where
  "dn_setStripePattern cfg givenPattern actorUID d fs =
     (case dn_loadIfNotLoaded cfg d fs of
        None \<Rightarrow> None
      | Some (loaded, d1, fs1) \<Rightarrow>
          if \<not> loaded then Some (FhgfsOpsErr_INTERNAL, d1, fs1)
          else if actorUID \<noteq> 0 \<and> userID (settable (dirStatData (dnInode d1))) \<noteq> actorUID
          then Some (FhgfsOpsErr_PERM, d1, fs1)
          else (case (dirStripePattern (dnInode d1), actorUID = 0) of
              (None, False) \<Rightarrow> None
            | (oldPattern, _) \<Rightarrow>
                (let new = (if actorUID = 0 then clonePattern givenPattern
                       else setChunkSize (chunkSize givenPattern)
                         (setDefaultNumTargets (defaultNumTargets givenPattern) (the oldPattern)))
                 in map_option (\<lambda>(stored, d2, fs2).
                        if stored then (FhgfsOpsErr_SUCCESS, d2, fs2)
                        else (FhgfsOpsErr_INTERNAL,
                          dn_update (\<lambda>i. i\<lparr>dirStripePattern :=
                            (if actorUID = 0 then oldPattern else map_option clonePattern oldPattern)\<rparr>) d2,
                          fs2))
                      (dn_storeUpdated cfg (dn_update (\<lambda>i. i\<lparr>dirStripePattern := Some new\<rparr>) d1) fs1))))"

text \<open>
  The result of \<open>setAttrData\<close> is a truth value. If the record cannot be loaded, the code returns
  the error code of a path that does not exist, which is true.
\<close>

definition applyDirAttribs :: "i64 \<Rightarrow> i32 \<Rightarrow> SettableFileAttribs \<Rightarrow> DirInode \<Rightarrow> DirInode" where
  "applyDirAttribs now valid attribs i =
     i\<lparr>dirStatData := (dirStatData i)\<lparr>attribChangeTimeSecs := now,
         settable := (settable (dirStatData i))
           \<lparr>mode := (if changes valid SETATTR_CHANGE_MODE then mode attribs
                      else mode (settable (dirStatData i))),
            userID := (if changes valid SETATTR_CHANGE_USERID then userID attribs
                       else userID (settable (dirStatData i))),
            groupID := (if changes valid SETATTR_CHANGE_GROUPID then groupID attribs
                        else groupID (settable (dirStatData i))),
            modificationTimeSecs :=
              (if changes valid SETATTR_CHANGE_MODIFICATIONTIME then modificationTimeSecs attribs
               else modificationTimeSecs (settable (dirStatData i))),
            lastAccessTimeSecs :=
              (if changes valid SETATTR_CHANGE_LASTACCESSTIME then lastAccessTimeSecs attribs
               else lastAccessTimeSecs (settable (dirStatData i)))\<rparr>\<rparr>\<rparr>"

definition dn_setAttrData ::
    "MetaConfig \<Rightarrow> i64 \<Rightarrow> i32 \<Rightarrow> SettableFileAttribs \<Rightarrow> DirNode \<Rightarrow> MetaFs \<Rightarrow>
       (bool \<times> DirNode \<times> MetaFs) option" where
  "dn_setAttrData cfg now valid attribs d fs =
     (case dn_loadIfNotLoaded cfg d fs of
        None \<Rightarrow> None
      | Some (loaded, d1, fs1) \<Rightarrow>
          if \<not> loaded then Some (True, d1, fs1)
          else map_option (\<lambda>(stored, d2, fs2).
              if stored then (True, d2, fs2)
              else (False, dn_update (\<lambda>i. i\<lparr>dirStatData := (dirStatData i)
                \<lparr>settable := settable (dirStatData (dnInode d1))\<rparr>\<rparr>) d2, fs2))
            (dn_storeUpdated cfg (dn_update (applyDirAttribs now valid attribs) d1) fs1))"

definition setDirParentAndChangeTime ::
    "MetaConfig \<Rightarrow> i64 \<Rightarrow> EntryInfo \<Rightarrow> u16 \<Rightarrow> DirNode \<Rightarrow> MetaFs \<Rightarrow>
       (FhgfsOpsErr \<times> DirNode \<times> MetaFs) option" where
  "setDirParentAndChangeTime cfg now info newParentNode =
     dn_withLoaded cfg (\<lambda>d fs.
       map_option (\<lambda>(ok, d1, fs1).
           (if ok then FhgfsOpsErr_SUCCESS else FhgfsOpsErr_INTERNAL, d1, fs1))
         (dn_setAttrData cfg now 0 (settable (dirStatData (dnInode d)))
           (dn_update (\<lambda>i. i\<lparr>parentDirID := infoParentEntryID info,
             parentNodeID := newParentNode\<rparr>) d) fs))"

definition setAndStoreMirrorNodeIDChecked ::
    "MetaConfig \<Rightarrow> u16 \<Rightarrow> DirNode \<Rightarrow> MetaFs \<Rightarrow> (FhgfsOpsErr \<times> DirNode \<times> MetaFs) option" where
  "setAndStoreMirrorNodeIDChecked cfg mirror =
     dn_withLoaded cfg (\<lambda>d fs.
       if dirMirrorNodeID (dnInode d) \<noteq> 0 then Some (FhgfsOpsErr_INVAL, d, fs)
       else map_option (\<lambda>(stored, d1, fs1).
           if stored then (FhgfsOpsErr_SUCCESS, d1, fs1)
           else (FhgfsOpsErr_SAVEERROR,
             dn_update (\<lambda>i. i\<lparr>dirFeatureFlags := dirFeatureFlags i AND NOT DIRINODE_FEATURE_MIRRORED,
               dirMirrorNodeID := 0\<rparr>) d1, fs1))
         (dn_storeUpdated cfg (dn_update (\<lambda>i. i\<lparr>
             dirFeatureFlags := dirFeatureFlags i OR DIRINODE_FEATURE_MIRRORED,
             dirMirrorNodeID := mirror\<rparr>) d) fs))"

text \<open>The owner of an entry, and of the directory itself.\<close>

definition dn_setOwnerOfEntry ::
    "MetaConfig \<Rightarrow> string \<Rightarrow> u16 \<Rightarrow> DirNode \<Rightarrow> MetaFs \<Rightarrow> (FhgfsOpsErr \<times> DirNode \<times> MetaFs) option" where
  "dn_setOwnerOfEntry cfg name owner =
     dn_withLoaded cfg (\<lambda>d fs. map_option (\<lambda>(res, fs1). (res, d, fs1))
       (des_setOwnerNodeID cfg (dnEntriesID d) name owner fs))"

definition dn_setOwnerNodeID ::
    "MetaConfig \<Rightarrow> u16 \<Rightarrow> DirNode \<Rightarrow> MetaFs \<Rightarrow> (bool \<times> DirNode \<times> MetaFs) option" where
  "dn_setOwnerNodeID cfg newOwner d fs =
     (case dn_loadIfNotLoaded cfg d fs of
        None \<Rightarrow> None
      | Some (loaded, d1, fs1) \<Rightarrow>
          if \<not> loaded then Some (False, d1, fs1)
          else map_option (\<lambda>(stored, d2, fs2).
              if stored then (True, d2, fs2)
              else (False, dn_update (\<lambda>i. i\<lparr>dirOwnerNodeID := dirOwnerNodeID (dnInode d1)\<rparr>) d2, fs2))
            (dn_storeUpdated cfg (dn_update (\<lambda>i. i\<lparr>dirOwnerNodeID := newOwner\<rparr>) d1) fs1))"

text \<open>Attributes of a directory that is not in use.\<close>

definition getStatDataOfDir ::
    "MetaConfig \<Rightarrow> string \<Rightarrow> MetaFs \<Rightarrow> (FhgfsOpsErr \<times> StatData option \<times> MetaFs) option" where
  "getStatDataOfDir cfg eid fs =
     map_option (\<lambda>(loaded, d, fs1).
         if loaded then (FhgfsOpsErr_SUCCESS, Some (fst (dn_getStatData d)), fs1)
         else (FhgfsOpsErr_PATHNOTEXISTS, None, fs1))
       (dn_loadFromFile cfg (blankDirNode cfg eid) fs)"

section \<open>A busy file is kept\<close>

text \<open>
  Storing the record of a directory: an object with other links only is left alone, and so are all
  other paths.
\<close>

definition elsewhere :: "nat \<Rightarrow> MetaPath set \<Rightarrow> MetaFs \<Rightarrow> bool" where
  "elsewhere n P fs \<longleftrightarrow> n < fsNext fs \<and> (\<forall>q \<in> P. fsLinks fs q \<noteq> Some n)"

definition leaves :: "nat \<Rightarrow> MetaPath set \<Rightarrow> MetaFs \<Rightarrow> MetaFs \<Rightarrow> bool" where
  "leaves n P fs fs' \<longleftrightarrow>
     elsewhere n P fs' \<and> fsObjects fs' n = fsObjects fs n \<and> (\<forall>q. q \<notin> P \<longrightarrow> fsLinks fs' q = fsLinks fs q)"

lemma leaves_refl: "elsewhere n P fs \<Longrightarrow> leaves n P fs fs"
  by (simp add: leaves_def)

lemma leaves_trans: "leaves n P a b \<Longrightarrow> leaves n P b c \<Longrightarrow> leaves n P a c"
  by (simp add: leaves_def)

lemma leaves_elsewhere: "leaves n P a b \<Longrightarrow> elsewhere n P b"
  by (simp add: leaves_def)

lemma leaves_open_trunc:
  "sys_open_trunc p fs = (r, fs') \<Longrightarrow> elsewhere n P fs \<Longrightarrow> p \<in> P \<Longrightarrow>
    leaves n P fs fs' \<and> r \<noteq> Inr n"
  using open_trunc_spec [of p fs r fs'] by (auto simp: leaves_def elsewhere_def dest!: core_parts split: if_splits)

lemma leaves_open_create:
  "sys_open_create p fs = (r, fs') \<Longrightarrow> elsewhere n P fs \<Longrightarrow> p \<in> P \<Longrightarrow>
    leaves n P fs fs' \<and> r \<noteq> Inr n"
  using open_create_spec [of p fs r fs'] by (auto simp: leaves_def elsewhere_def dest!: core_parts split: if_splits)

lemma leaves_write:
  "sys_write fd buf fs = (r, fs') \<Longrightarrow> elsewhere n P fs \<Longrightarrow> fd \<noteq> n \<Longrightarrow> leaves n P fs fs'"
  using write_spec [of fd buf fs r fs'] by (auto simp: leaves_def elsewhere_def dest!: core_parts split: if_splits)

lemma leaves_ftruncate:
  "sys_ftruncate fd k fs = (r, fs') \<Longrightarrow> elsewhere n P fs \<Longrightarrow> fd \<noteq> n \<Longrightarrow> leaves n P fs fs'"
  using ftruncate_spec [of fd k fs r fs'] by (auto simp: leaves_def elsewhere_def dest!: core_parts split: if_splits)

lemma leaves_fallocate:
  "sys_fallocate fd k fs = (r, fs') \<Longrightarrow> elsewhere n P fs \<Longrightarrow> fd \<noteq> n \<Longrightarrow> leaves n P fs fs'"
  using fallocate_spec [of fd k fs r fs'] by (auto simp: leaves_def elsewhere_def dest!: core_parts split: if_splits)

lemma leaves_setxattr:
  "sys_setxattr p buf fs = (r, fs') \<Longrightarrow> elsewhere n P fs \<Longrightarrow> p \<in> P \<Longrightarrow> leaves n P fs fs'"
  using setxattr_spec [of p buf fs r fs'] by (auto simp: leaves_def elsewhere_def dest!: core_parts split: if_splits)

lemma leaves_unlink:
  "sys_unlink p fs = (r, fs') \<Longrightarrow> elsewhere n P fs \<Longrightarrow> p \<in> P \<Longrightarrow> leaves n P fs fs'"
  using unlink_spec [of p fs r fs'] by (auto simp: leaves_def elsewhere_def dest!: core_parts split: if_splits)

lemma leaves_rename:
  "sys_rename p q fs = (r, fs') \<Longrightarrow> elsewhere n P fs \<Longrightarrow> p \<in> P \<Longrightarrow> q \<in> P \<Longrightarrow> leaves n P fs fs'"
  using rename_spec [of p q fs r fs'] by (auto simp: leaves_def elsewhere_def dest!: core_parts split: if_splits)

lemma leaves_reserve:
  assumes "reserveSpace fd k fs = (ok, fs')" "elsewhere n P fs" "fd \<noteq> n"
  shows "leaves n P fs fs'"
proof -
  obtain r fs1 where r: "sys_fallocate fd k fs = (r, fs1)" by fastforce
  obtain r2 fs2 where r2: "sys_fstat_size fd fs1 = (r2, fs2)" by fastforce
  have l1: "leaves n P fs fs1" by (rule leaves_fallocate [OF r assms(2,3)])
  have "core fs2 = core fs1" using read_only_spec(3) [OF r2] .
  then have "leaves n P fs1 fs2"
    using leaves_elsewhere [OF l1] by (auto simp: leaves_def elsewhere_def dest!: core_parts)
  moreover have "fs' = fs1 \<or> fs' = fs2"
    using assms(1) r r2 by (auto simp: reserveSpace_def split: sum.splits if_splits)
  ultimately show ?thesis using l1 leaves_trans by blast
qed

lemma leaves_in_place:
  assumes "storeBufInPlace p buf fs = (ok, fs')" "elsewhere n P fs" "p \<in> P"
  shows "leaves n P fs fs'"
proof -
  obtain r1 fs1 where r1: "sys_open_create p fs = (r1, fs1)" by fastforce
  note l1 = leaves_open_create [OF r1 assms(2,3)]
  show ?thesis
  proof (cases r1)
    case (Inl e)
    with assms(1) r1 l1 show ?thesis by (simp add: storeBufInPlace_def)
  next
    case (Inr fd)
    with l1 have fd: "fd \<noteq> n" by simp
    obtain r2 fs2 where r2: "reserveSpace fd (length buf) fs1 = (r2, fs2)" by fastforce
    obtain r3 fs3 where r3: "sys_write fd buf fs2 = (r3, fs3)" by fastforce
    obtain r4 fs4 where r4: "sys_ftruncate fd (length buf) fs3 = (r4, fs4)" by fastforce
    have l2: "leaves n P fs fs2"
      using l1 leaves_trans leaves_reserve [OF r2 leaves_elsewhere fd] by blast
    have l3: "leaves n P fs fs3"
      using leaves_trans [OF l2 leaves_write [OF r3 leaves_elsewhere [OF l2] fd]] .
    have l4: "leaves n P fs fs4"
      using leaves_trans [OF l3 leaves_ftruncate [OF r4 leaves_elsewhere [OF l3] fd]] .
    have "fs' \<in> {fs2, fs3, fs4}"
      using assms(1) Inr r1 r2 r3 r4 by (auto simp: storeBufInPlace_def split: bool.splits if_splits)
    with l2 l3 l4 show ?thesis by blast
  qed
qed

lemma leaves_contents:
  assumes "dn_storeBufAsContents eid buf fs = (ok, fs')" "elsewhere n P fs"
    "InodePath eid \<in> P" "InodeUpdatePath eid \<in> P"
  shows "leaves n P fs fs'"
proof -
  obtain r1 fs1 where r1: "sys_open_trunc (InodeUpdatePath eid) fs = (r1, fs1)" by fastforce
  note l1 = leaves_open_trunc [OF r1 assms(2,4)]
  then have e1: "elsewhere n P fs1" by (simp add: leaves_def)
  note place = leaves_in_place [OF surjective_pairing _ assms(3)]
  note unlink = leaves_unlink [OF surjective_pairing _ assms(4)]
  show ?thesis
  proof (cases r1)
    case (Inl e)
    with assms(1) r1 l1 show ?thesis
      by (auto simp: dn_storeBufAsContents_def Let_def split: if_splits
          intro: leaves_trans leaves_in_place [OF _ e1 assms(3)])
  next
    case (Inr fd)
    obtain r2 fs2 where r2: "sys_write fd buf fs1 = (r2, fs2)" by fastforce
    obtain r3 fs3 where r3: "sys_rename (InodeUpdatePath eid) (InodePath eid) fs2 = (r3, fs3)"
      by fastforce
    have l2: "leaves n P fs fs2"
      using l1 Inr leaves_trans leaves_write [OF r2 e1] by blast
    have l3: "leaves n P fs fs3"
      using leaves_trans [OF l2 leaves_rename [OF r3 leaves_elsewhere [OF l2] assms(4,3)]] .
    define u2 where "u2 = snd (sys_unlink (InodeUpdatePath eid) fs2)"
    have lu2: "leaves n P fs u2"
      unfolding u2_def using leaves_trans [OF l2 unlink [OF leaves_elsewhere [OF l2]]] .
    have lu3: "leaves n P fs (snd (sys_unlink (InodeUpdatePath eid) fs3))"
      using leaves_trans [OF l3 unlink [OF leaves_elsewhere [OF l3]]] .
    have "leaves n P fs (snd (storeBufInPlace (InodePath eid) buf u2))"
      using leaves_trans [OF lu2 place [OF leaves_elsewhere [OF lu2]]] .
    with l3 lu2 lu3 assms(1) Inr r1 r2 r3 show ?thesis
      by (auto simp: dn_storeBufAsContents_def Let_def u2_def [symmetric]
          split: if_splits sum.splits)
  qed
qed

lemma leaves_stored:
  assumes "dn_storeUpdated cfg d fs = Some (ok, d', fs')" "elsewhere n P fs"
    "InodePath (dirID (dnInode d)) \<in> P" "InodeUpdatePath (dirID (dnInode d)) \<in> P"
  shows "leaves n P fs fs' \<and> numFiles (dnInode d') = numFiles (dnInode d)"
proof (cases "dnLoaded d")
  case True
  with assms(1) obtain buf inode stored where s: "serializeDirInode (dnInode d) = Some (buf, inode)"
      "(if storeUseExtendedAttribs cfg then storeMetaBufAsXAttr (InodePath (dirID inode)) buf fs
        else dn_storeBufAsContents (dirID inode) buf fs) = (stored, fs')" "d' = d\<lparr>dnInode := inode\<rparr>"
    by (auto simp: dn_storeUpdated_def split: option.splits prod.splits if_splits)
  have i: "dirID inode = dirID (dnInode d)" "numFiles inode = numFiles (dnInode d)"
    using s(1) by (auto simp: serializeDirInode_def Let_def split: option.splits)
  show ?thesis
    using s(2,3) i leaves_contents [OF _ assms(2-4)] leaves_setxattr [OF _ assms(2,3)]
    by (auto simp: storeMetaBufAsXAttr_def split: if_splits prod.splits)
qed (use assms in \<open>auto simp: dn_storeUpdated_def intro: leaves_refl\<close>)

text \<open>The link to the disposal directory, with its count of files.\<close>

definition listed_in :: "DirNode \<Rightarrow> string \<Rightarrow> MetaPath" where
  "listed_in disposal eid = NamePath (dnEntriesID disposal) eid"

definition record_paths :: "DirNode \<Rightarrow> MetaPath set" where
  "record_paths d = {InodePath (dirID (dnInode d)), InodeUpdatePath (dirID (dnInode d))}"

lemma disposal_linked:
  assumes "linkFileInodeToDir cfg now (InodePath eid) eid disposal fs = Some (res, disposal', fs')"
    and "dnLoaded disposal" "elsewhere n (record_paths disposal) fs" "fsLinks fs (InodePath eid) = Some n"
  shows "fsLinks fs' (InodePath eid) = Some n \<and> fsObjects fs' n = fsObjects fs n \<and>
    (\<forall>q. q \<notin> record_paths disposal \<and> q \<noteq> listed_in disposal eid \<longrightarrow> fsLinks fs' q = fsLinks fs q) \<and>
    (res = FhgfsOpsErr_SUCCESS \<longrightarrow>
      fsLinks fs' (listed_in disposal eid) = Some n \<and>
      numFiles (dnInode disposal') = numFiles (dnInode disposal) + 1) \<and>
    (fsFaults fs = [] \<and> fsLinks fs (listed_in disposal eid) = None \<longrightarrow> res = FhgfsOpsErr_SUCCESS)"
proof -
  obtain r fs1 where r: "sys_link (InodePath eid) (listed_in disposal eid) fs = (r, fs1)" by fastforce
  have new: "listed_in disposal eid \<notin> record_paths disposal"
    by (simp add: listed_in_def record_paths_def)
  have mine: "InodePath eid \<notin> record_paths disposal" using assms(3,4) by (auto simp: elsewhere_def)
  note l = link_spec [OF r]
  show ?thesis
  proof (cases r)
    case (Inl e)
    have "fsFaults fs = [] \<longrightarrow> fsLinks fs (listed_in disposal eid) \<noteq> None"
      using r Inl assms(4) by (auto simp: sys_link_def sys_no_faults split: if_splits)
    moreover have "res = FhgfsOpsErr_INTERNAL" "fs' = fs1"
      using assms(1,2) r Inl
      by (auto simp: linkFileInodeToDir_def dn_withLoaded_def dn_loadIfNotLoaded_def
          linkInodeToDir_def listed_in_def)
    ultimately show ?thesis using l Inl assms(4) by (auto dest!: core_parts)
  next
    case (Inr u)
    let ?d = "dn_update (\<lambda>i. i\<lparr>numFiles := numFiles i + 1\<rparr>) disposal"
    from l Inr assms(4) have l1: "fsLinks fs1 = (fsLinks fs)(listed_in disposal eid := Some n)"
      "fsObjects fs1 = fsObjects fs" "fsNext fs1 = fsNext fs" by (auto dest!: core_parts)
    obtain ok where inc: "increaseNumFiles cfg now disposal fs1 = Some (ok, disposal', fs')"
      and res: "res = FhgfsOpsErr_SUCCESS"
      using assms(1,2) r Inr
      by (auto simp: linkFileInodeToDir_def dn_withLoaded_def dn_loadIfNotLoaded_def
          linkInodeToDir_def listed_in_def)
    have e: "elsewhere n (record_paths disposal) fs1"
      using assms(3) l1 new by (auto simp: elsewhere_def)
    have "leaves n (record_paths disposal) fs1 fs' \<and>
        numFiles (dnInode disposal') = numFiles (dnInode disposal) + 1"
      using leaves_stored [OF inc [unfolded increaseNumFiles_def dn_updateTimeStamps_def] e]
      by (simp add: dn_update_def record_paths_def)
    with l1 res new mine assms(4) show ?thesis by (auto simp: leaves_def)
  qed
qed

text \<open>The move of the record, whatever fails.\<close>

lemma record_moved:
  assumes "moveIDToInode cfg now dir eid flags disposal fs = Some (res, disposal', fs')"
    and "dnLoaded disposal" "elsewhere n (record_paths disposal) fs" "fsLinks fs (IDPath dir eid) = Some n"
    and "InodePath eid \<notin> record_paths disposal"
  shows "(fsLinks fs' (IDPath dir eid) = Some n \<or> fsLinks fs' (InodePath eid) = Some n) \<and>
    fsObjects fs' n = fsObjects fs n \<and>
    (\<forall>q. q \<notin> record_paths disposal \<union> {IDPath dir eid, InodePath eid, listed_in disposal eid} \<longrightarrow>
       fsLinks fs' q = fsLinks fs q) \<and>
    (res \<noteq> FhgfsOpsErr_SUCCESS \<longrightarrow> core fs' = core fs) \<and>
    (fsFaults fs = [] \<and> fsLinks fs (listed_in disposal eid) = None \<longrightarrow>
       res = FhgfsOpsErr_SUCCESS \<and> fsLinks fs' (IDPath dir eid) = None \<and>
       fsLinks fs' (InodePath eid) = Some n \<and> fsLinks fs' (listed_in disposal eid) = Some n \<and>
       numFiles (dnInode disposal') = numFiles (dnInode disposal) + 1)"
proof -
  obtain r1 a where r1: "sys_rename (IDPath dir eid) (InodePath eid) fs = (r1, a)" by fastforce
  note s1 = rename_spec [OF r1]
  show ?thesis
  proof (cases r1)
    case (Inl e)
    with assms(1) r1 have "fs' = a" "res \<noteq> FhgfsOpsErr_SUCCESS \<or> True"
      by (auto simp: moveIDToInode_def)
    moreover have "fsFaults fs \<noteq> []"
      using Inl r1 assms(4) by (auto simp: sys_rename_def sys_no_faults split: if_splits)
    ultimately show ?thesis using s1 Inl assms(4) by (auto dest!: core_parts)
  next
    case (Inr u)
    obtain r2 b where r2: "sys_unlink (IDPath dir eid) a = (r2, b)" by fastforce
    obtain lres where l: "linkFileInodeToDir cfg now (InodePath eid) eid disposal b =
        Some (lres, disposal', fs')" and res: "res = FhgfsOpsErr_SUCCESS"
      using assms(1) Inr r1 r2 by (auto simp: moveIDToInode_def)
    have a: "fsLinks a (InodePath eid) = Some n" "fsObjects a = fsObjects fs" "fsNext a = fsNext fs"
      "\<forall>q. q \<noteq> IDPath dir eid \<and> q \<noteq> InodePath eid \<longrightarrow> fsLinks a q = fsLinks fs q"
      using s1 Inr assms(4) by (auto dest!: core_parts)
    have b: "fsLinks b (InodePath eid) = Some n" "fsObjects b = fsObjects fs" "fsNext b = fsNext fs"
      "\<forall>q. q \<noteq> IDPath dir eid \<and> q \<noteq> InodePath eid \<longrightarrow> fsLinks b q = fsLinks fs q"
      using unlink_spec [OF r2] a by (auto dest!: core_parts)
    have e: "elsewhere n (record_paths disposal) b"
      using assms(3,5) b by (auto simp: elsewhere_def record_paths_def)
    note d = disposal_linked [OF l assms(2) e b(1)]
    have calm: "fsFaults b = [] \<and> fsLinks b (IDPath dir eid) = None" if "fsFaults fs = []"
      using that r1 r2 assms(4)
      by (auto simp: sys_rename_def sys_unlink_def sys_no_faults split: if_splits)
    have paths: "IDPath dir eid \<notin> record_paths disposal" "listed_in disposal eid \<noteq> IDPath dir eid"
        "listed_in disposal eid \<noteq> InodePath eid"
      by (simp_all add: record_paths_def listed_in_def)
    show ?thesis using d b calm paths res by auto
  qed
qed

text \<open>
  C13: Removing the entry of a file that is in use, whatever system calls fail. As long as the
  record has the link of its entry ID, it is never lost: afterwards it has this link or that of
  an inode of its own, and it is not changed. Only the name, the link of the ID, that of the
  inode, the entry in the disposal directory and the record of the disposal directory's inode are
  touched, and after an error nothing at all. Without failures, if both the name and the ID are to
  be removed, the name exists and the disposal directory does not list the ID yet, the name and the ID are
  gone, and the same record is an inode of its own and listed in the disposal directory under its ID,
  which has one file more. The inode of the disposal directory is assumed to be loaded and to be kept
  in a file of its own, under another ID.
\<close>

theorem busy_file_kept:
  assumes "removeBusyFile cfg now dir eid name flags disposal fs = Some (res, disposal', fs')"
    and "dnLoaded disposal" "elsewhere n (record_paths disposal) fs" "InodePath eid \<notin> record_paths disposal"
    and "fsLinks fs (IDPath dir eid) = Some n"
  shows "(fsLinks fs' (IDPath dir eid) = Some n \<or> fsLinks fs' (InodePath eid) = Some n) \<and>
    fsObjects fs' n = fsObjects fs n \<and>
    (\<forall>q. q \<notin> record_paths disposal \<union>
         {NamePath dir name, IDPath dir eid, InodePath eid, listed_in disposal eid} \<longrightarrow>
       fsLinks fs' q = fsLinks fs q) \<and>
    (res \<noteq> FhgfsOpsErr_SUCCESS \<longrightarrow> core fs' = core fs) \<and>
    (fsFaults fs = [] \<and> fsLinks fs (NamePath dir name) \<noteq> None \<and> flags = 3 \<and>
       fsLinks fs (listed_in disposal eid) = None \<and> NamePath dir name \<noteq> listed_in disposal eid \<longrightarrow>
       res = FhgfsOpsErr_SUCCESS \<and> fsLinks fs' (NamePath dir name) = None \<and>
       fsLinks fs' (IDPath dir eid) = None \<and> fsLinks fs' (InodePath eid) = Some n \<and>
       fsLinks fs' (listed_in disposal eid) = Some n \<and>
       numFiles (dnInode disposal') = numFiles (dnInode disposal) + 1)"
proof -
  let ?byName = "flags AND DirEntry_UNLINK_FILENAME \<noteq> 0"
  define u where "u = (if ?byName then removeDirEntryName (NamePath dir name) fs else (FhgfsOpsErr_SUCCESS, fs))"
  define f1 where "f1 = snd u"
  obtain r g where r: "sys_unlink (NamePath dir name) fs = (r, g)" by fastforce
  note ul = unlink_spec [OF r]
  have u: "f1 = fs \<and> fst u = FhgfsOpsErr_SUCCESS \<and> \<not> ?byName \<or>
      f1 = g \<and> ?byName \<and> (fst u = FhgfsOpsErr_SUCCESS \<longleftrightarrow> r = Inr ())"
    using r by (auto simp: u_def f1_def removeDirEntryName_def split: sum.splits)
  have f1: "fsObjects f1 = fsObjects fs" "fsNext f1 = fsNext fs"
      "\<forall>q. q \<noteq> NamePath dir name \<longrightarrow> fsLinks f1 q = fsLinks fs q"
      "fst u \<noteq> FhgfsOpsErr_SUCCESS \<longrightarrow> core f1 = core fs" "\<not> ?byName \<longrightarrow> f1 = fs"
    using u ul by (auto dest!: core_parts)
  have rm: "if fst u \<noteq> FhgfsOpsErr_SUCCESS then res = fst u \<and> fs' = f1
      else if flags AND DirEntry_UNLINK_ID \<noteq> 0
        then moveIDToInode cfg now dir eid flags disposal f1 = Some (res, disposal', fs')
      else res = fst u \<and> fs' = f1"
    using assms(1) by (auto simp: removeBusyFile_def u_def f1_def Let_def split: prod.splits if_splits)
  have at: "fsLinks f1 (IDPath dir eid) = Some n" "elsewhere n (record_paths disposal) f1"
    using f1(1-3) assms(3,5) by (auto simp: elsewhere_def record_paths_def)
  note m = record_moved [OF _ assms(2) at(2,1) assms(4)]
  have clean: "core fs' = core fs"
    if "moveIDToInode cfg now dir eid flags disposal f1 = Some (res, disposal', fs')"
      "res \<noteq> FhgfsOpsErr_SUCCESS"
  proof -
    have "\<not> ?byName"
    proof
      assume ?byName
      with that show False by (auto simp: moveIDToInode_def split: sum.splits prod.splits)
    qed
    with m [OF that(1)] that(2) f1(5) show ?thesis by simp
  qed
  have calm: "fst u = FhgfsOpsErr_SUCCESS \<and> fsFaults f1 = [] \<and> fsLinks f1 (NamePath dir name) = None"
    if "fsFaults fs = []" "fsLinks fs (NamePath dir name) \<noteq> None" "flags = 3"
    using that r u by (auto simp: sys_unlink_def sys_no_faults DirEntry_UNLINK_FILENAME_def)
  have names: "NamePath dir name \<notin> record_paths disposal" by (simp add: record_paths_def)
  show ?thesis
  proof (cases "fst u = FhgfsOpsErr_SUCCESS \<and> flags AND DirEntry_UNLINK_ID \<noteq> 0")
    case True
    with rm have mv: "moveIDToInode cfg now dir eid flags disposal f1 = Some (res, disposal', fs')" by simp
    note M = m [OF mv]
    have "fsFaults fs = [] \<and> fsLinks fs (NamePath dir name) \<noteq> None \<and> flags = 3 \<and>
       fsLinks fs (listed_in disposal eid) = None \<and> NamePath dir name \<noteq> listed_in disposal eid \<longrightarrow>
       res = FhgfsOpsErr_SUCCESS \<and> fsLinks fs' (NamePath dir name) = None \<and>
       fsLinks fs' (IDPath dir eid) = None \<and> fsLinks fs' (InodePath eid) = Some n \<and>
       fsLinks fs' (listed_in disposal eid) = Some n \<and>
       numFiles (dnInode disposal') = numFiles (dnInode disposal) + 1"
      using M calm names f1(3) by auto
    with M clean [OF mv] f1(1,3) show ?thesis by simp
  next
    case False
    with rm have same: "res = fst u" "fs' = f1" by (auto split: if_splits)
    have "\<not> (fsFaults fs = [] \<and> fsLinks fs (NamePath dir name) \<noteq> None \<and> flags = 3)"
      using False calm by (auto simp: DirEntry_UNLINK_ID_def)
    with same f1 at show ?thesis by auto
  qed
qed

definition demo_disposal :: DirNode where
  "demo_disposal = \<lparr>dnInode = blank_dir\<lparr>dirID := META_DISPOSALDIR_ID_STR,
       dirStripePattern := Some (demo_raid [1, 2, 3])\<rparr>,
     dnLoaded = True, dnExclusive = False, dnEntriesID = META_DISPOSALDIR_ID_STR\<rparr>"

lemma demo_disposal_simps [simp]:
  "dirID (dnInode demo_disposal) = META_DISPOSALDIR_ID_STR" "dnLoaded demo_disposal"
  "dnEntriesID demo_disposal = META_DISPOSALDIR_ID_STR"
  "dirStripePattern (dnInode demo_disposal) = Some (demo_raid [1, 2, 3])"
  by (simp_all add: demo_disposal_def)

lemma demo_disposal_stored: "\<exists>ok d fs'. increaseNumFiles demo_cfg now demo_disposal fs = Some (ok, d, fs')"
proof -
  define d where "d = dn_update (\<lambda>i. i\<lparr>dirStatData := (dirStatData i)\<lparr>attribChangeTimeSecs := now,
      settable := (settable (dirStatData i))\<lparr>modificationTimeSecs := now\<rparr>\<rparr>\<rparr>)
    (dn_update (\<lambda>i. i\<lparr>numFiles := numFiles i + 1\<rparr>) demo_disposal)"
  define i where "i = dnInode d"
  have stored: "increaseNumFiles demo_cfg now demo_disposal fs = dn_storeUpdated demo_cfg d fs"
      "dnLoaded d"
    by (simp_all add: increaseNumFiles_def dn_updateTimeStamps_def d_def dn_update_def)
  have i: "dirID i = META_DISPOSALDIR_ID_STR" "dirStripePattern i = Some (demo_raid [1, 2, 3])"
      "parentDirID i = []" "dirMirrorNodeID i = 0" "dirFeatureFlags i = 0"
      "\<not> getIsSparseFile (dirStatData i)"
    by (simp_all add: i_def d_def dn_update_def demo_disposal_def blank_dir_def disk_stat_def getIsSparseFile_def)
  have mir: "\<not> dirMirrored (i\<lparr>dirFeatureFlags := DIRINODE_FEATURE_EARLY_SUBDIRS OR DIRINODE_FEATURE_STATFLAGS\<rparr>)"
    by (simp add: DIRINODE_FEATURE_EARLY_SUBDIRS_def DIRINODE_FEATURE_STATFLAGS_def
        DIRINODE_FEATURE_MIRRORED_def)
  have lens: "length (serializeStrAlign4 ''disposal'') \<le> 20" "length (serializeStrAlign4 []) \<le> 20"
    using align4_less [of 13] align4_less [of 5] by (simp_all add: str4_length)
  have st: "length (stat_serialize True True False (dirStatData i)) \<le> 100"
    using i(6) by (simp add: stat_serialize_def int64.ser_len uint.ser_len int.ser_len int_list_lens)
  have pat: "length (fst (pattern_serialize (demo_raid [1, 2, 3]))) \<le> 60"
    using pattern_length [OF demo_raid_ok [of "[1, 2, 3]"]]
    by (simp add: demo_raid_def Raid0Pattern_def withTargets_def newPattern_def calcStripeSetSize_def)
  obtain buf inode where s: "serializeDirInode i = Some (buf, inode)"
    by (simp add: serializeDirInode_def Let_def i)
  have "length buf \<le> META_SERBUF_SIZE"
    using s i mir lens st pat
    by (auto simp: serializeDirInode_def Let_def field_lengths int_list_lens META_DISPOSALDIR_ID_STR_def
        META_SERBUF_SIZE_def)
  then show ?thesis
    using s by (cases "storeMetaBufAsXAttr (InodePath (dirID inode)) buf fs")
      (simp add: stored dn_storeUpdated_def i_def)
qed

theorem busy_file_kept_witness:
  "\<exists>disposal' fs'. removeBusyFile demo_cfg 5 ''1-2-3'' ''4-5-6'' ''f'' 3 demo_disposal linked_fs =
     Some (FhgfsOpsErr_SUCCESS, disposal', fs') \<and>
     fsLinks fs' (InodePath ''4-5-6'') = Some 0 \<and> fsLinks fs' (NamePath ''1-2-3'' ''f'') = None \<and>
     fsLinks fs' (NamePath ''disposal'' ''4-5-6'') = Some 0 \<and>
     numFiles (dnInode disposal') = numFiles (dnInode demo_disposal) + 1"
proof -
  have link: "\<exists>x. linkFileInodeToDir demo_cfg 5 p eid demo_disposal fs = Some x" for p eid fs
    using demo_disposal_stored [of 5 "snd (linkInodeToDir p META_DISPOSALDIR_ID_STR eid fs)"]
    by (cases "linkInodeToDir p META_DISPOSALDIR_ID_STR eid fs")
      (auto simp: linkFileInodeToDir_def dn_withLoaded_def dn_loadIfNotLoaded_def)
  have move: "\<exists>x. moveIDToInode demo_cfg 5 dir eid flags demo_disposal fs = Some x" for dir eid flags fs
    using link [of "InodePath eid" eid
        "snd (sys_unlink (IDPath dir eid) (snd (sys_rename (IDPath dir eid) (InodePath eid) fs)))"]
    by (auto simp: moveIDToInode_def split: sum.split prod.split)
  have "\<exists>res disposal' fs'. removeBusyFile demo_cfg 5 ''1-2-3'' ''4-5-6'' ''f'' 3 demo_disposal linked_fs =
     Some (res, disposal', fs')"
    using move [of "''1-2-3''" "''4-5-6''" 3] unfolding removeBusyFile_def Let_def
    by (auto split: prod.split)
  then obtain res disposal' fs' where r:
      "removeBusyFile demo_cfg 5 ''1-2-3'' ''4-5-6'' ''f'' 3 demo_disposal linked_fs = Some (res, disposal', fs')"
    by blast
  have "elsewhere 0 (record_paths demo_disposal) linked_fs"
    by (simp add: elsewhere_def record_paths_def linked_fs_def empty_fs_def)
  from busy_file_kept [OF r _ this] r show ?thesis
    by (simp add: record_paths_def listed_in_def linked_fs_def empty_fs_def META_DISPOSALDIR_ID_STR_def)
qed

end
