(* ===== verification/InodeDirStore.thy ===== *)
theory InodeDirStore
  imports InodeFileStore DirNode "HOL-Library.Monad_Syntax"
begin

text \<open>
  The directories that are in use (\<open>InodeDirStore.h/.cpp\<close> under fhgfs_meta/source/storage, with
  \<open>AtomicObjectReferencer.h\<close>): each with the number of its references, the inode and the store of
  the files that are in use under it, and a cache that keeps directories for a while.

  A directory is found by its ID, and so is the object behind a pointer that a caller holds. The
  outcome None stands for a pointer whose object is gone, for an iterator beyond the end of a map,
  and for what has this outcome in the components below. The removal of a directory from the disk
  needs the directories of the local file system, which are not modelled.
\<close>

section \<open>References to directories\<close>

record DirReferencer =
  dirRefCount :: u64
  dirObject :: DirNode
  dirFiles :: InodeMap

record InodeDirStore =
  storeDirs :: "(string, DirReferencer) fmap"
  refCache :: "string list"

text \<open>
  What a call finds around it: the configuration of the server, whether the server is about to
  stop, the clock, the thread and the next random number.
\<close>

record StoreEnv =
  metaCfg :: MetaConfig
  dirMetadataCacheLimit :: u32
  selfTerminate :: bool
  envNow :: i64
  envTID :: u64
  envRandom :: nat

definition dr_reference :: "DirReferencer \<Rightarrow> DirReferencer" where
  "dr_reference r = r\<lparr>dirRefCount := dirRefCount r + 1\<rparr>"

definition dr_release :: "DirReferencer \<Rightarrow> DirReferencer" where
  "dr_release r = r\<lparr>dirRefCount := dirRefCount r - 1\<rparr>"

definition dr_getRefCount :: "DirReferencer \<Rightarrow> i32" where
  "dr_getRefCount r = ucast (dirRefCount r)"

definition newDirReferencer :: "DirNode \<Rightarrow> DirReferencer" where
  "newDirReferencer d = \<lparr>dirRefCount = 0, dirObject = d, dirFiles = fmempty\<rparr>"

definition putDir :: "string \<Rightarrow> DirReferencer \<Rightarrow> InodeDirStore \<Rightarrow> InodeDirStore" where
  "putDir eid r s = s\<lparr>storeDirs := fmupd eid r (storeDirs s)\<rparr>"

definition dropDir :: "string \<Rightarrow> InodeDirStore \<Rightarrow> InodeDirStore" where
  "dropDir eid s = s\<lparr>storeDirs := fmdrop eid (storeDirs s)\<rparr>"

definition dirInodeInStore :: "string \<Rightarrow> InodeDirStore \<Rightarrow> bool" where
  "dirInodeInStore eid s \<longleftrightarrow> fmlookup (storeDirs s) eid \<noteq> None"

text \<open>The last reference unloads the directory, unless files under it are still in use.\<close>

definition releaseDir :: "StoreEnv \<Rightarrow> string \<Rightarrow> InodeDirStore \<Rightarrow> InodeDirStore" where
  "releaseDir env eid s =
     (case fmlookup (storeDirs s) eid of
        None \<Rightarrow> s
      | Some r \<Rightarrow>
          if dr_getRefCount r \<noteq> 0
          then (let r' = dr_release r
                in if dr_getRefCount r' \<noteq> 0 then putDir eid r' s
                   else if dirFiles r' \<noteq> fmempty \<and> \<not> selfTerminate env
                   then putDir eid (dr_reference r') s
                   else dropDir eid s)
          else dropDir eid s)"

section \<open>The cache\<close>

definition DIRSTORE_REFCACHE_REMOVE_SKIP_SYNC :: nat where
  "DIRSTORE_REFCACHE_REMOVE_SKIP_SYNC = 4"

definition DIRSTORE_REFCACHE_REMOVE_SKIP_ASYNC :: nat where
  "DIRSTORE_REFCACHE_REMOVE_SKIP_ASYNC = 3"

text \<open>The limits of the two kinds of sweeps.\<close>

definition refCacheSyncLimit :: "StoreEnv \<Rightarrow> nat" where
  "refCacheSyncLimit env = unat (dirMetadataCacheLimit env)"

definition refCacheAsyncLimit :: "StoreEnv \<Rightarrow> nat" where
  "refCacheAsyncLimit env = refCacheSyncLimit env - refCacheSyncLimit env div 2"

text \<open>The loop over the cached directories: every n-th is removed, the others stay.\<close>

fun sweepLoop :: "nat \<Rightarrow> nat \<Rightarrow> string list \<Rightarrow> string list \<times> string list" where
  "sweepLoop skip i [] = ([], [])"
| "sweepLoop skip i (x # xs) =
     (if Suc i = skip
      then (case sweepLoop skip 0 xs of (removed, kept) \<Rightarrow> (x # removed, kept))
      else (case sweepLoop skip (Suc i) xs of (removed, kept) \<Rightarrow> (removed, x # kept)))"

definition cacheSweep :: "StoreEnv \<Rightarrow> bool \<Rightarrow> InodeDirStore \<Rightarrow> (bool \<times> InodeDirStore) option" where
  "cacheSweep env isSync s =
     (let cacheLimit = (if isSync then refCacheSyncLimit env else refCacheAsyncLimit env);
          removeSkipNum = (if isSync then DIRSTORE_REFCACHE_REMOVE_SKIP_SYNC
            else DIRSTORE_REFCACHE_REMOVE_SKIP_ASYNC);
          randStart = envRandom env mod removeSkipNum
      in if length (refCache s) \<le> cacheLimit then Some (False, s)
         else if length (refCache s) < randStart then None
         else (case sweepLoop removeSkipNum (removeSkipNum - 1) (drop randStart (refCache s)) of
             (removed, kept) \<Rightarrow>
               Some (True, (fold (releaseDir env) removed s)
                 \<lparr>refCache := take randStart (refCache s) @ kept\<rparr>)))"

text \<open>A directory that gets into the cache is referenced by it.\<close>

definition cacheAdd :: "StoreEnv \<Rightarrow> string \<Rightarrow> InodeDirStore \<Rightarrow> InodeDirStore option" where
  "cacheAdd env eid s =
     (if dirMetadataCacheLimit env = 0 then Some s
      else do {
        (_, s1) \<leftarrow> cacheSweep env True s;
        (if eid \<in> set (refCache s1) then Some s1
         else do {
           r \<leftarrow> fmlookup (storeDirs s1) eid;
           Some ((putDir eid (dr_reference r) s1)\<lparr>refCache := insort eid (refCache s1)\<rparr>)
         })
      })"

definition cacheRemove :: "StoreEnv \<Rightarrow> string \<Rightarrow> InodeDirStore \<Rightarrow> InodeDirStore" where
  "cacheRemove env eid s =
     (if eid \<in> set (refCache s)
      then (releaseDir env eid s)\<lparr>refCache := remove1 eid (refCache s)\<rparr> else s)"

definition cacheRemoveAll :: "StoreEnv \<Rightarrow> InodeDirStore \<Rightarrow> InodeDirStore" where
  "cacheRemoveAll env s = (fold (releaseDir env) (refCache s) s)\<lparr>refCache := []\<rparr>"

definition clearStore :: "StoreEnv \<Rightarrow> InodeDirStore \<Rightarrow> InodeDirStore" where
  "clearStore env s = (cacheRemoveAll env s)\<lparr>storeDirs := fmempty\<rparr>"

section \<open>Referencing\<close>

text \<open>An object that is not loaded is enough unless the caller needs the record.\<close>

definition insertDirInode ::
    "StoreEnv \<Rightarrow> string \<Rightarrow> bool \<Rightarrow> InodeDirStore \<Rightarrow> MetaFs \<Rightarrow> (InodeDirStore \<times> MetaFs) option" where
  "insertDirInode env eid forceLoad s fs = do {
     (loaded, d, fs1) \<leftarrow> (if forceLoad
        then dn_loadIfNotLoaded (metaCfg env) (blankDirNode (metaCfg env) eid) fs
        else Some (True, blankDirNode (metaCfg env) eid, fs));
     Some (if loaded \<and> \<not> dirInodeInStore eid s then putDir eid (newDirReferencer d) s else s, fs1)
   }"

text \<open>A directory object is loaded where it is.\<close>

definition loadDirObject ::
    "StoreEnv \<Rightarrow> string \<Rightarrow> InodeDirStore \<Rightarrow> MetaFs \<Rightarrow> (bool \<times> InodeDirStore \<times> MetaFs) option" where
  "loadDirObject env eid s fs = do {
     r \<leftarrow> fmlookup (storeDirs s) eid;
     (loaded, d, fs1) \<leftarrow> dn_loadIfNotLoaded (metaCfg env) (dirObject r) fs;
     Some (loaded, putDir eid (r\<lparr>dirObject := d\<rparr>) s, fs1)
   }"

text \<open>After the store is unlocked: a directory that cannot be loaded is released again.\<close>

definition loadReferenced ::
    "StoreEnv \<Rightarrow> string \<Rightarrow> bool \<Rightarrow> InodeDirStore \<Rightarrow> MetaFs \<Rightarrow>
       (bool \<times> InodeDirStore \<times> MetaFs) option" where
  "loadReferenced env eid forceLoad s fs =
     (if forceLoad
      then do {
        (loaded, s1, fs1) \<leftarrow> loadDirObject env eid s fs;
        Some (if loaded then (True, s1, fs1) else (False, releaseDir env eid s1, fs1))
      }
      else Some (True, s, fs))"

definition referenceDirInode ::
    "StoreEnv \<Rightarrow> string \<Rightarrow> bool \<Rightarrow> InodeDirStore \<Rightarrow> MetaFs \<Rightarrow>
       (bool \<times> InodeDirStore \<times> MetaFs) option" where
  "referenceDirInode env eid forceLoad s fs = do {
     (s1, fs1) \<leftarrow>
       (if dirInodeInStore eid s then Some (s, fs) else insertDirInode env eid forceLoad s fs);
     (case fmlookup (storeDirs s1) eid of
        None \<Rightarrow> Some (False, s1, fs1)
      | Some r \<Rightarrow>
          if dnExclusive (dirObject r) then Some (False, s1, fs1)
          else do {
            s2 \<leftarrow> (if dirInodeInStore eid s then Some (putDir eid (dr_reference r) s1)
              else cacheAdd env eid (putDir eid (dr_reference r) s1));
            loadReferenced env eid forceLoad s2 fs1
          })
   }"

section \<open>Operations on a directory\<close>

text \<open>The directory may be in use, which it also is while it is cached.\<close>

definition isRemovable ::
    "StoreEnv \<Rightarrow> string \<Rightarrow> InodeDirStore \<Rightarrow> MetaFs \<Rightarrow>
       (FhgfsOpsErr \<times> u16 \<times> InodeDirStore \<times> MetaFs) option" where
  "isRemovable env eid s fs =
     (case fmlookup (storeDirs s) eid of
        Some r \<Rightarrow>
          if dr_getRefCount r = 0 then Some (FhgfsOpsErr_INTERNAL, 0, s, fs)
          else do {
            (_, d, fs1) \<leftarrow> dn_loadIfNotLoaded (metaCfg env) (dirObject r) fs;
            Some (if getNumSubEntries d \<noteq> 0 then FhgfsOpsErr_NOTEMPTY else FhgfsOpsErr_INUSE, 0,
              putDir eid (r\<lparr>dirObject := d\<rparr>) s, fs1)
          }
      | None \<Rightarrow> do {
          (loaded, d, fs1) \<leftarrow> dn_loadFromFile (metaCfg env) (blankDirNode (metaCfg env) eid) fs;
          Some (if \<not> loaded then (FhgfsOpsErr_PATHNOTEXISTS, 0, s, fs1)
            else if getNumSubEntries d \<noteq> 0 then (FhgfsOpsErr_NOTEMPTY, 0, s, fs1)
            else (FhgfsOpsErr_SUCCESS,
              if dirMirrored (dnInode d) then dirMirrorNodeID (dnInode d) else 0, s, fs1))
        })"

definition ids_stat ::
    "StoreEnv \<Rightarrow> string \<Rightarrow> InodeDirStore \<Rightarrow> MetaFs \<Rightarrow>
       (FhgfsOpsErr \<times> StatData option \<times> InodeDirStore \<times> MetaFs) option" where
  "ids_stat env eid s fs =
     (case fmlookup (storeDirs s) eid of
        Some r \<Rightarrow> do {
          (loaded, d, fs1) \<leftarrow> dn_loadIfNotLoaded (metaCfg env) (dirObject r) fs;
          (let (st, d1) = dn_getStatData d
           in Some (if \<not> loaded
                    then (FhgfsOpsErr_PATHNOTEXISTS, None, putDir eid (r\<lparr>dirObject := d\<rparr>) s, fs1)
                    else if localNodeNumID (metaCfg env) \<noteq> dirOwnerNodeID (dnInode d)
                    then (FhgfsOpsErr_NOTOWNER, None, putDir eid (r\<lparr>dirObject := d\<rparr>) s, fs1)
                    else (FhgfsOpsErr_SUCCESS, Some st, putDir eid (r\<lparr>dirObject := d1\<rparr>) s, fs1)))
        }
      | None \<Rightarrow> do {
          (res, st, fs1) \<leftarrow> getStatDataOfDir (metaCfg env) eid fs;
          Some (res, st, s, fs1)
        })"

definition ids_setAttr ::
    "StoreEnv \<Rightarrow> string \<Rightarrow> i32 \<Rightarrow> SettableFileAttribs \<Rightarrow> InodeDirStore \<Rightarrow> MetaFs \<Rightarrow>
       (FhgfsOpsErr \<times> InodeDirStore \<times> MetaFs) option" where
  "ids_setAttr env eid valid attribs s fs =
     (case fmlookup (storeDirs s) eid of
        None \<Rightarrow> do {
          (loaded, d, fs1) \<leftarrow> dn_loadFromFile (metaCfg env) (blankDirNode (metaCfg env) eid) fs;
          (if loaded
           then do {
             (ok, d1, fs2) \<leftarrow> dn_setAttrData (metaCfg env) (envNow env) valid attribs d fs1;
             Some (if ok then FhgfsOpsErr_SUCCESS else FhgfsOpsErr_INTERNAL, s, fs2)
           }
           else Some (FhgfsOpsErr_PATHNOTEXISTS, s, fs1))
        }
      | Some r \<Rightarrow>
          if dnExclusive (dirObject r) then Some (FhgfsOpsErr_PATHNOTEXISTS, s, fs)
          else do {
            (ok, d, fs1) \<leftarrow>
              dn_setAttrData (metaCfg env) (envNow env) valid attribs (dirObject r) fs;
            Some (if ok then FhgfsOpsErr_SUCCESS else FhgfsOpsErr_INTERNAL,
              putDir eid (r\<lparr>dirObject := d\<rparr>) s, fs1)
          })"

section \<open>Counting the references\<close>

text \<open>
  \<open>tot\<close>: how many references to each directory are held; \<open>filesAt\<close>: its files in use. No directory
  is locked (nothing in the server locks one).
\<close>

definition filesAt :: "InodeDirStore \<Rightarrow> string \<Rightarrow> InodeMap" where
  "filesAt s p = (case fmlookup (storeDirs s) p of None \<Rightarrow> fmempty | Some r \<Rightarrow> dirFiles r)"

fun count_ok :: "DirReferencer option \<Rightarrow> nat \<Rightarrow> bool" where
  "count_ok None n \<longleftrightarrow> n = 0"
| "count_ok (Some r) n \<longleftrightarrow> unat (dirRefCount r) = n \<and> 0 < n \<and> n < 2 ^ 31 \<and>
     \<not> dnExclusive (dirObject r)"

definition counts :: "InodeDirStore \<Rightarrow> (string \<Rightarrow> nat) \<Rightarrow> bool" where
  "counts s tot \<longleftrightarrow> (\<forall>p. count_ok (fmlookup (storeDirs s) p) (tot p))"

lemma storeDirs_simps [simp]:
  "fmlookup (storeDirs (putDir p r s)) q = (if p = q then Some r else fmlookup (storeDirs s) q)"
  "fmlookup (storeDirs (dropDir p s)) q = (if p = q then None else fmlookup (storeDirs s) q)"
  "refCache (putDir p r s) = refCache s" "refCache (dropDir p s) = refCache s"
  by (simp_all add: putDir_def dropDir_def)

lemma countsD:
  "counts s tot \<Longrightarrow> fmlookup (storeDirs s) p = Some r \<Longrightarrow>
     unat (dirRefCount r) = tot p \<and> 0 < tot p \<and> tot p < 2 ^ 31 \<and> \<not> dnExclusive (dirObject r)"
  "counts s tot \<Longrightarrow> fmlookup (storeDirs s) p = None \<Longrightarrow> tot p = 0"
  by (auto simp: counts_def dest!: spec [of _ p])

lemma counts_put:
  "counts s tot \<Longrightarrow> unat (dirRefCount r) = n \<Longrightarrow> 0 < n \<Longrightarrow> n < 2 ^ 31 \<Longrightarrow>
     \<not> dnExclusive (dirObject r) \<Longrightarrow> counts (putDir p r s) (tot(p := n))"
  by (auto simp: counts_def)

lemma counts_drop: "counts s tot \<Longrightarrow> counts (dropDir p s) (tot(p := 0))"
  by (auto simp: counts_def)

lemma filesAt_simps [simp]:
  "filesAt (putDir p r s) = (filesAt s)(p := dirFiles r)"
  "filesAt (dropDir p s) = (filesAt s)(p := fmempty)"
  by (simp_all add: filesAt_def fun_eq_iff)

lemma getRefCount_zero:
  assumes "unat (dirRefCount r) = n" "n < 2 ^ 31"
  shows "dr_getRefCount r = 0 \<longleftrightarrow> n = 0"
proof -
  have "unat (ucast (dirRefCount r) :: i32) = n"
    using assms by (simp add: unsigned_ucast_eq take_bit_nat_eq_self)
  then show ?thesis unfolding dr_getRefCount_def by (metis unat_0 unat_eq_zero)
qed

lemma ref_counts:
  assumes "unat (dirRefCount r) = n" "n < 2 ^ 31"
  shows "unat (dirRefCount (dr_reference r)) = Suc n"
    and "0 < n \<Longrightarrow> unat (dirRefCount (dr_release r)) = n - 1"
proof -
  have b: "unat (dirRefCount r) + 1 < 2 ^ LENGTH(64)" using assms by simp
  then show "unat (dirRefCount (dr_reference r)) = Suc n"
    using assms by (simp add: dr_reference_def unat_word_ariths)
  assume "0 < n"
  then have "1 \<le> dirRefCount r" using assms by (simp add: word_le_nat_alt)
  then show "unat (dirRefCount (dr_release r)) = n - 1"
    using assms by (simp add: dr_release_def unat_sub)
qed

lemma dr_simps [simp]:
  "dirFiles (dr_reference r) = dirFiles r" "dirFiles (dr_release r) = dirFiles r"
  "dirObject (dr_reference r) = dirObject r" "dirObject (dr_release r) = dirObject r"
  "dirFiles (newDirReferencer d) = fmempty" "dirRefCount (newDirReferencer d) = 0"
  "dirObject (newDirReferencer d) = d"
  by (simp_all add: dr_reference_def dr_release_def newDirReferencer_def)

text \<open>Releasing takes one reference and keeps all files in use.\<close>

lemma release_counts:
  assumes c: "counts s tot" and pos: "0 < tot p" and last: "tot p = 1 \<longrightarrow> filesAt s p = fmempty"
  shows "counts (releaseDir env p s) (tot(p := tot p - 1)) \<and>
    filesAt (releaseDir env p s) = filesAt s \<and> refCache (releaseDir env p s) = refCache s"
proof -
  obtain r where r: "fmlookup (storeDirs s) p = Some r"
    using countsD(2) [OF c, of p] pos by (cases "fmlookup (storeDirs s) p") auto
  note n = countsD(1) [OF c r]
  have g: "dr_getRefCount r \<noteq> 0" using getRefCount_zero [of r "tot p"] n by simp
  have n1: "unat (dirRefCount (dr_release r)) = tot p - 1" using ref_counts(2) [of r "tot p"] n by simp
  have g1: "dr_getRefCount (dr_release r) = 0 \<longleftrightarrow> tot p = 1"
    using getRefCount_zero [OF n1] n by (simp, arith)
  show ?thesis
  proof (cases "tot p = 1")
    case True
    then have "dirFiles r = fmempty" using last r by (simp add: filesAt_def)
    then have "releaseDir env p s = dropDir p s"
      using r g g1 True by (simp add: releaseDir_def Let_def)
    moreover have "filesAt s p = fmempty" using last True by simp
    ultimately show ?thesis using counts_drop [OF c, of p] True by (auto simp: fun_upd_idem_iff)
  next
    case False
    then have "releaseDir env p s = putDir p (dr_release r) s"
      using r g g1 by (simp add: releaseDir_def Let_def)
    moreover have "filesAt s p = dirFiles r" using r by (simp add: filesAt_def)
    ultimately show ?thesis
      using counts_put [OF c n1, of p] False n by (auto simp: fun_upd_idem_iff)
  qed
qed

lemma release_many_counts:
  assumes "counts s tot" "distinct xs"
    "\<forall>p \<in> set xs. 0 < tot p \<and> (tot p = 1 \<longrightarrow> filesAt s p = fmempty)"
  shows "counts (fold (releaseDir env) xs s) (\<lambda>p. if p \<in> set xs then tot p - 1 else tot p) \<and>
    filesAt (fold (releaseDir env) xs s) = filesAt s \<and>
    refCache (fold (releaseDir env) xs s) = refCache s"
  using assms
proof (induction xs arbitrary: s tot)
  case (Cons x xs)
  have one: "counts (releaseDir env x s) (tot(x := tot x - 1))"
    "filesAt (releaseDir env x s) = filesAt s" "refCache (releaseDir env x s) = refCache s"
    using release_counts [of s tot x env] Cons.prems by simp_all
  have x: "x \<notin> set xs" using Cons.prems(2) by simp
  have t: "(\<lambda>p. if p \<in> set xs then (tot(x := tot x - 1)) p - 1 else (tot(x := tot x - 1)) p) =
    (\<lambda>p. if p \<in> set (x # xs) then tot p - 1 else tot p)"
    using x by (auto simp: fun_eq_iff)
  have "\<forall>p \<in> set xs. 0 < (tot(x := tot x - 1)) p \<and>
      ((tot(x := tot x - 1)) p = 1 \<longrightarrow> filesAt (releaseDir env x s) p = fmempty)"
    using Cons.prems(3) x one(2) by auto
  from Cons.IH [OF one(1) _ this] Cons.prems(2) one(2,3) show ?case
    unfolding t by simp
qed simp

text \<open>
  \<open>ext\<close>: the references that are held outside the store; the cache holds the others. A directory
  with files in use is referenced from outside.
\<close>

definition cached :: "InodeDirStore \<Rightarrow> string \<Rightarrow> nat" where
  "cached s p = (if p \<in> set (refCache s) then 1 else 0)"

definition dir_ok :: "InodeDirStore \<Rightarrow> (string \<Rightarrow> nat) \<Rightarrow> bool" where
  "dir_ok s ext \<longleftrightarrow> distinct (refCache s) \<and> counts s (\<lambda>p. ext p + cached s p) \<and>
     (\<forall>p. filesAt s p \<noteq> fmempty \<longrightarrow> 0 < ext p)"

lemma counts_cong: "counts s tot \<Longrightarrow> storeDirs s' = storeDirs s \<Longrightarrow> (\<And>p. tot' p = tot p) \<Longrightarrow> counts s' tot'"
  by (simp add: counts_def)

lemma filesAt_cache [simp]: "filesAt (s\<lparr>refCache := c\<rparr>) = filesAt s"
  by (simp add: filesAt_def fun_eq_iff)

lemma release_dir_ok:
  assumes "dir_ok s ext" "0 < ext p" "filesAt s p \<noteq> fmempty \<longrightarrow> 1 < ext p"
  shows "dir_ok (releaseDir env p s) (ext(p := ext p - 1)) \<and>
    filesAt (releaseDir env p s) = filesAt s"
proof -
  have c: "counts s (\<lambda>p. ext p + cached s p)" using assms(1) by (simp add: dir_ok_def)
  have "counts (releaseDir env p s) ((\<lambda>p. ext p + cached s p)(p := ext p + cached s p - 1)) \<and>
    filesAt (releaseDir env p s) = filesAt s \<and> refCache (releaseDir env p s) = refCache s"
    using release_counts [OF c, of p env] assms(2,3) by fastforce
  moreover have "(\<lambda>p. ext p + cached s p)(p := ext p + cached s p - 1) =
    (\<lambda>q. (ext(p := ext p - 1)) q + cached s q)"
    using assms(2) by (auto simp: fun_eq_iff)
  ultimately show ?thesis using assms by (auto simp: dir_ok_def cached_def)
qed

lemma sweepLoop_parts:
  assumes "sweepLoop skip i xs = (removed, kept)" "distinct xs"
  shows "set removed \<union> set kept = set xs \<and> distinct removed \<and> distinct kept \<and>
    set removed \<inter> set kept = {}"
  using assms
proof (induction skip i xs arbitrary: removed kept rule: sweepLoop.induct)
  case (2 skip i x xs)
  then show ?case by (fastforce split: if_splits prod.splits)
qed simp

lemma sweep_dir_ok:
  assumes ok: "dir_ok s ext" and sw: "cacheSweep env isSync s = Some (w, s')"
  shows "dir_ok s' ext \<and> filesAt s' = filesAt s"
proof -
  define skip where "skip = (if isSync then DIRSTORE_REFCACHE_REMOVE_SKIP_SYNC
            else DIRSTORE_REFCACHE_REMOVE_SKIP_ASYNC)"
  define start where "start = envRandom env mod skip"
  obtain removed kept where loop:
    "sweepLoop skip (skip - 1) (drop start (refCache s)) = (removed, kept)" by fastforce
  have dist: "distinct (refCache s)" and c: "counts s (\<lambda>p. ext p + cached s p)"
    and f: "\<forall>p. filesAt s p \<noteq> fmempty \<longrightarrow> 0 < ext p"
    using ok by (simp_all add: dir_ok_def)
  define new where "new = (fold (releaseDir env) removed s)\<lparr>refCache := take start (refCache s) @ kept\<rparr>"
  have parts: "set removed \<union> set kept = set (drop start (refCache s))" "distinct removed"
    "distinct kept" "set removed \<inter> set kept = {}"
    using sweepLoop_parts [OF loop] dist by simp_all
  have split: "set (refCache s) = set (take start (refCache s)) \<union> set (drop start (refCache s))"
    "set (take start (refCache s)) \<inter> set (drop start (refCache s)) = {}"
    using dist by (metis append_take_drop_id set_append, metis append_take_drop_id distinct_append)
  have rel: "counts (fold (releaseDir env) removed s)
      (\<lambda>p. if p \<in> set removed then ext p + cached s p - 1 else ext p + cached s p)"
    "filesAt (fold (releaseDir env) removed s) = filesAt s"
  proof -
    have "set removed \<subseteq> set (refCache s)" using parts(1) split(1) by auto
    then have "cached s p = 1" if "p \<in> set removed" for p using that by (auto simp: cached_def)
    then have "\<forall>p \<in> set removed. 0 < ext p + cached s p \<and>
        (ext p + cached s p = 1 \<longrightarrow> filesAt s p = fmempty)"
      using f by force
    from release_many_counts [OF c parts(2) this, of env]
    show "counts (fold (releaseDir env) removed s)
      (\<lambda>p. if p \<in> set removed then ext p + cached s p - 1 else ext p + cached s p)"
      "filesAt (fold (releaseDir env) removed s) = filesAt s" by simp_all
  qed
  have "dir_ok new ext"
    unfolding dir_ok_def
  proof (intro conjI)
    show "distinct (refCache new)"
      using dist parts split by (auto simp: new_def)
    show "counts new (\<lambda>p. ext p + cached new p)"
      by (rule counts_cong [OF rel(1)])
        (use parts split in \<open>auto simp: new_def cached_def\<close>)
    show "\<forall>p. filesAt new p \<noteq> fmempty \<longrightarrow> 0 < ext p" using f rel(2) by (simp add: new_def)
  qed
  moreover have "s' = s \<or> s' = new"
    using sw loop
    by (auto simp: cacheSweep_def Let_def new_def skip_def start_def split: if_splits prod.splits)
  moreover have "filesAt new = filesAt s" using rel(2) by (simp add: new_def)
  ultimately show ?thesis using ok by auto
qed

text \<open>With a limit of at least two directories a sweep does not leave the cache.\<close>

lemma sweep_total:
  assumes "2 \<le> dirMetadataCacheLimit env"
  shows "\<exists>w s'. cacheSweep env isSync s = Some (w, s')"
proof -
  have l: "2 \<le> refCacheSyncLimit env"
    using assms by (simp add: refCacheSyncLimit_def word_le_nat_alt)
  then have "1 \<le> refCacheAsyncLimit env" by (simp add: refCacheAsyncLimit_def)
  with l show ?thesis
    by (cases isSync) (auto simp: cacheSweep_def Let_def DIRSTORE_REFCACHE_REMOVE_SKIP_SYNC_def
        DIRSTORE_REFCACHE_REMOVE_SKIP_ASYNC_def split: prod.splits)
qed

lemma reference_dir_ok:
  assumes ok: "dir_ok s ext" and r: "fmlookup (storeDirs s) p = Some r" and b: "ext p < 2 ^ 30"
    and obj: "dirRefCount r' = dirRefCount r + 1" "dirFiles r' = dirFiles r" "dirObject r' = dirObject r"
  shows "dir_ok (putDir p r' s) (ext(p := Suc (ext p))) \<and> filesAt (putDir p r' s) = filesAt s"
proof -
  have c: "counts s (\<lambda>p. ext p + cached s p)" using ok by (simp add: dir_ok_def)
  note n = countsD(1) [OF c r]
  have "dirRefCount (dr_reference r) = dirRefCount r'" using obj(1) by (simp add: dr_reference_def)
  then have n1: "unat (dirRefCount r') = Suc (ext p + cached s p)"
    using ref_counts(1) [of r "ext p + cached s p"] n by simp
  have "Suc (ext p + cached s p) < 2 ^ 31" using b by (simp add: cached_def)
  from counts_put [OF c n1 _ this, of p] n obj(3) have
    "counts (putDir p r' s) ((\<lambda>q. ext q + cached s q)(p := Suc (ext p + cached s p)))" by simp
  then have "counts (putDir p r' s) (\<lambda>q. (ext(p := Suc (ext p))) q + cached (putDir p r' s) q)"
    by (elim counts_cong) (auto simp: cached_def)
  moreover have f: "filesAt (putDir p r' s) = filesAt s"
    using r obj(2) by (auto simp: filesAt_def fun_eq_iff)
  ultimately show ?thesis using ok by (auto simp: dir_ok_def)
qed

lemma new_dir_ok:
  assumes ok: "dir_ok s ext" and new: "fmlookup (storeDirs s) p = None"
    and r: "dirRefCount r = 1" "dirFiles r = fmempty" "\<not> dnExclusive (dirObject r)"
  shows "dir_ok (putDir p r s) (ext(p := Suc (ext p))) \<and> filesAt (putDir p r s) = filesAt s"
proof -
  have c: "counts s (\<lambda>p. ext p + cached s p)" using ok by (simp add: dir_ok_def)
  have z: "ext p = 0" "cached s p = 0" using countsD(2) [OF c new] by simp_all
  have "counts (putDir p r s) ((\<lambda>p. ext p + cached s p)(p := 1))"
    using counts_put [OF c, of r 1 p] r by simp
  then have "counts (putDir p r s) (\<lambda>q. (ext(p := Suc (ext p))) q + cached (putDir p r s) q)"
    by (elim counts_cong) (use z in \<open>auto simp: cached_def\<close>)
  moreover have "filesAt (putDir p r s) = filesAt s"
    using new r(2) by (auto simp: filesAt_def fun_eq_iff)
  ultimately show ?thesis using ok by (auto simp: dir_ok_def)
qed

lemma cacheAdd_dir_ok:
  assumes ok: "dir_ok s ext" and add: "cacheAdd env p s = Some s'" and b: "ext p < 2 ^ 30"
  shows "dir_ok s' ext \<and> filesAt s' = filesAt s"
proof (cases "dirMetadataCacheLimit env = 0")
  case True
  with add ok show ?thesis by (simp add: cacheAdd_def)
next
  case False
  obtain w s1 where sw: "cacheSweep env True s = Some (w, s1)"
    using add False by (auto simp: cacheAdd_def bind_eq_Some_conv)
  note ok1 = sweep_dir_ok [OF ok sw]
  show ?thesis
  proof (cases "p \<in> set (refCache s1)")
    case True
    then show ?thesis using add False sw ok1 by (simp add: cacheAdd_def)
  next
    case new: False
    obtain r where r: "fmlookup (storeDirs s1) p = Some r"
      and s': "s' = (putDir p (dr_reference r) s1)\<lparr>refCache := insort p (refCache s1)\<rparr>"
      using add False sw new by (auto simp: cacheAdd_def bind_eq_Some_conv)
    have "dir_ok (putDir p (dr_reference r) s1) (ext(p := Suc (ext p)))"
      and f: "filesAt (putDir p (dr_reference r) s1) = filesAt s1"
      using reference_dir_ok [of s1 ext p r "dr_reference r"] ok1 r b by (simp_all add: dr_reference_def)
    then have "counts (putDir p (dr_reference r) s1)
        (\<lambda>q. (ext(p := Suc (ext p))) q + cached (putDir p (dr_reference r) s1) q)"
      by (simp add: dir_ok_def)
    then have "counts s' (\<lambda>q. ext q + cached s' q)"
      by (rule counts_cong) (use new in \<open>auto simp: s' cached_def set_insort_key\<close>)
    moreover have "filesAt s' = filesAt s1" using f by (simp add: s')
    moreover have "distinct (refCache s')"
      using ok1 new by (simp add: s' dir_ok_def distinct_insort)
    ultimately show ?thesis using ok1 by (auto simp: dir_ok_def)
  qed
qed

lemma cacheAdd_total:
  assumes ok: "dir_ok s ext" "0 < ext p" and lim: "2 \<le> dirMetadataCacheLimit env"
  shows "\<exists>s'. cacheAdd env p s = Some s'"
proof -
  obtain w s1 where sw: "cacheSweep env True s = Some (w, s1)" using sweep_total [OF lim] by blast
  have "counts s1 (\<lambda>p. ext p + cached s1 p)" using sweep_dir_ok [OF ok(1) sw] by (simp add: dir_ok_def)
  then have "fmlookup (storeDirs s1) p \<noteq> None"
    using countsD(2) [of s1 "\<lambda>p. ext p + cached s1 p" p] ok(2) by auto
  with sw show ?thesis by (auto simp: cacheAdd_def)
qed

text \<open>Loading an inode does not lock the directory.\<close>

lemma load_keeps:
  "dn_loadIfNotLoaded cfg d fs = Some (w, d', fs') \<Longrightarrow> dnExclusive d' = dnExclusive d"
  by (auto simp: dn_loadIfNotLoaded_def dn_loadFromFile_def dn_loadRecord_def Let_def
      split: if_splits option.splits prod.splits sum.splits list.splits decode_error.splits)

lemma blank_not_exclusive [simp]: "\<not> dnExclusive (blankDirNode cfg p)"
  by (simp add: blankDirNode_def)

lemma loadDir_ok:
  assumes "dir_ok s ext" "loadDirObject env p s fs = Some (w, s', fs')"
  shows "dir_ok s' ext \<and> filesAt s' = filesAt s"
proof -
  obtain r d fs1 where r: "fmlookup (storeDirs s) p = Some r"
    and l: "dn_loadIfNotLoaded (metaCfg env) (dirObject r) fs = Some (w, d, fs1)"
    and s': "s' = putDir p (r\<lparr>dirObject := d\<rparr>) s"
    using assms(2) by (auto simp: loadDirObject_def bind_eq_Some_conv)
  have c: "counts s (\<lambda>p. ext p + cached s p)" using assms(1) by (simp add: dir_ok_def)
  have "counts s' ((\<lambda>p. ext p + cached s p)(p := ext p + cached s p))"
    unfolding s' by (rule counts_put [OF c]) (use countsD(1) [OF c r] load_keeps [OF l] in simp_all)
  then have "counts s' (\<lambda>p. ext p + cached s' p)"
    by (elim counts_cong) (auto simp: s' cached_def)
  moreover have "filesAt s' = filesAt s" using r by (auto simp: s' filesAt_def fun_eq_iff)
  ultimately show ?thesis using assms(1) s' by (simp add: dir_ok_def)
qed

text \<open>Referencing: one more reference from outside, or none.\<close>

lemma loadReferenced_spec:
  assumes s: "dir_ok s (ext(p := Suc (ext p)))" "filesAt s p \<noteq> fmempty \<longrightarrow> 0 < ext p"
    and l: "loadReferenced env p forceLoad s fs = Some (got, s', fs')"
  shows "dir_ok s' (if got then ext(p := Suc (ext p)) else ext) \<and> filesAt s' = filesAt s"
proof (cases forceLoad)
  case True
  then obtain w s1 fs1 where l1: "loadDirObject env p s fs = Some (w, s1, fs1)"
    and out: "(got, s', fs') = (if w then (True, s1, fs1) else (False, releaseDir env p s1, fs1))"
    using l by (auto simp: loadReferenced_def bind_eq_Some_conv)
  note ok1 = loadDir_ok [OF s(1) l1]
  from release_dir_ok [of s1 "ext(p := Suc (ext p))" p env] ok1 s(2) out show ?thesis
    by (cases w) auto
qed (use s l in \<open>simp add: loadReferenced_def\<close>)

lemma insert_spec:
  assumes "insertDirInode env p forceLoad s fs = Some (s1, fs1)" "fmlookup (storeDirs s) p = None"
  shows "s1 = s \<or> (\<exists>d. s1 = putDir p (newDirReferencer d) s \<and> \<not> dnExclusive d)"
  using assms
  by (cases forceLoad) (auto simp: insertDirInode_def dirInodeInStore_def bind_eq_Some_conv
      split: if_splits dest: load_keeps)

lemma reference_spec:
  assumes ok: "dir_ok s ext" and b: "ext p + 1 < 2 ^ 30"
    and ref: "referenceDirInode env p forceLoad s fs = Some (got, s', fs')"
  shows "dir_ok s' (if got then ext(p := Suc (ext p)) else ext) \<and> filesAt s' = filesAt s"
proof -
  let ?ext = "ext(p := Suc (ext p))"
  have f: "filesAt s p \<noteq> fmempty \<longrightarrow> 0 < ext p" using ok by (simp add: dir_ok_def)
  show ?thesis
  proof (cases "fmlookup (storeDirs s) p")
    case (Some r)
    show ?thesis
    proof (cases "dnExclusive (dirObject r)")
      case True
      then show ?thesis using ref Some ok by (simp add: referenceDirInode_def dirInodeInStore_def)
    next
      case False
      have new: "dir_ok (putDir p (dr_reference r) s) ?ext"
        "filesAt (putDir p (dr_reference r) s) = filesAt s"
        using reference_dir_ok [OF ok Some, of "dr_reference r"] b by (simp_all add: dr_reference_def)
      have "loadReferenced env p forceLoad (putDir p (dr_reference r) s) fs = Some (got, s', fs')"
        using ref Some False by (simp add: referenceDirInode_def dirInodeInStore_def)
      from loadReferenced_spec [OF new(1) _ this] f show ?thesis unfolding new(2) by blast
    qed
  next
    case None
    obtain s1 fs1 where ins: "insertDirInode env p forceLoad s fs = Some (s1, fs1)"
      using ref None by (auto simp: referenceDirInode_def dirInodeInStore_def bind_eq_Some_conv)
    from insert_spec [OF ins None] show ?thesis
    proof (elim disjE exE conjE)
      assume "s1 = s"
      then show ?thesis using ref ins None ok by (simp add: referenceDirInode_def dirInodeInStore_def)
    next
      fix d assume s1: "s1 = putDir p (newDirReferencer d) s" and d: "\<not> dnExclusive d"
      let ?r = "dr_reference (newDirReferencer d)"
      have put: "putDir p ?r (putDir p (newDirReferencer d) s) = putDir p ?r s"
        by (simp add: putDir_def)
      have new: "dir_ok (putDir p ?r s) ?ext" "filesAt (putDir p ?r s) = filesAt s"
        using new_dir_ok [OF ok None, of ?r] d by (simp_all add: dr_reference_def newDirReferencer_def)
      obtain s2 where add: "cacheAdd env p (putDir p ?r s) = Some s2"
        and l: "loadReferenced env p forceLoad s2 fs1 = Some (got, s', fs')"
        using ref None ins s1 d put
        by (auto simp: referenceDirInode_def dirInodeInStore_def bind_eq_Some_conv)
      have "dir_ok s2 ?ext" "filesAt s2 = filesAt s" using cacheAdd_dir_ok [OF new(1) add] b new(2) by simp_all
      with loadReferenced_spec [OF _ _ l] f show ?thesis by simp
    qed
  qed
qed

text \<open>A directory can always be referenced if no record is asked for.\<close>

lemma reference_total:
  assumes ok: "dir_ok s ext" and b: "ext p + 1 < 2 ^ 30"
    and lim: "2 \<le> dirMetadataCacheLimit env"
  shows "\<exists>s'. referenceDirInode env p False s fs = Some (True, s', fs)"
proof (cases "fmlookup (storeDirs s) p")
  case (Some r)
  have "counts s (\<lambda>p. ext p + cached s p)" using ok by (simp add: dir_ok_def)
  with Some countsD(1) show ?thesis by (fastforce simp: referenceDirInode_def dirInodeInStore_def loadReferenced_def)
next
  case None
  let ?r = "dr_reference (newDirReferencer (blankDirNode (metaCfg env) p))"
  have "dir_ok (putDir p ?r s) (ext(p := Suc (ext p)))"
    using new_dir_ok [OF ok None, of ?r] by (simp add: dr_reference_def newDirReferencer_def)
  from cacheAdd_total [OF this _ lim, of p] obtain s2 where "cacheAdd env p (putDir p ?r s) = Some s2"
    by auto
  moreover have "putDir p ?r (putDir p (newDirReferencer (blankDirNode (metaCfg env) p)) s) = putDir p ?r s"
    by (simp add: putDir_def)
  ultimately show ?thesis
    using None by (simp add: referenceDirInode_def insertDirInode_def dirInodeInStore_def loadReferenced_def)
qed

end
