(* ===== verification/MetaStore.thy ===== *)
theory MetaStore
  imports InodeDirStore
begin

text \<open>
  The metadata store (\<open>MetaStore.cpp\<close> and \<open>MetaStoreRename.cpp\<close> under fhgfs_meta/source/storage):
  references to directories and files, opening and closing, attributes, and the creation, removal,
  linking and renaming of entries.

  A file that is in use is in the file store of its directory; when it is unlinked while it is in
  use, it is moved to the global file store. A file in the store of a directory keeps a reference
  to the directory for each of its own.

  A call is one step: what other threads do between the locks of a call is not modelled. Pointers
  to inodes are entry IDs, with the directory under which the caller has referenced the file; the
  outcome None is that of the components below, and a pointer to an inode that is in neither store.
\<close>

section \<open>References\<close>

record MetaStore =
  dirStore :: InodeDirStore
  fileStore :: InodeMap
  disposalDir :: DirNode

definition ms_referenceDir ::
    "StoreEnv \<Rightarrow> string \<Rightarrow> bool \<Rightarrow> MetaStore \<Rightarrow> MetaFs \<Rightarrow> (bool \<times> MetaStore \<times> MetaFs) option" where
  "ms_referenceDir env eid forceLoad s fs = do {
     (got, ds, fs1) \<leftarrow> referenceDirInode env eid forceLoad (dirStore s) fs;
     Some (got, s\<lparr>dirStore := ds\<rparr>, fs1)
   }"

definition ms_releaseDir :: "StoreEnv \<Rightarrow> string \<Rightarrow> MetaStore \<Rightarrow> MetaStore" where
  "ms_releaseDir env eid s = s\<lparr>dirStore := releaseDir env eid (dirStore s)\<rparr>"

text \<open>The parts of a directory that the caller has a reference to.\<close>

definition filesOf :: "string \<Rightarrow> MetaStore \<Rightarrow> InodeMap option" where
  "filesOf p s = map_option dirFiles (fmlookup (storeDirs (dirStore s)) p)"

definition putFiles :: "string \<Rightarrow> InodeMap \<Rightarrow> MetaStore \<Rightarrow> MetaStore" where
  "putFiles p m s =
     (case fmlookup (storeDirs (dirStore s)) p of
        None \<Rightarrow> s
      | Some r \<Rightarrow> s\<lparr>dirStore := putDir p (r\<lparr>dirFiles := m\<rparr>) (dirStore s)\<rparr>)"

definition nodeOf :: "string \<Rightarrow> MetaStore \<Rightarrow> DirNode option" where
  "nodeOf p s = map_option dirObject (fmlookup (storeDirs (dirStore s)) p)"

definition putNode :: "string \<Rightarrow> DirNode \<Rightarrow> MetaStore \<Rightarrow> MetaStore" where
  "putNode p d s =
     (case fmlookup (storeDirs (dirStore s)) p of
        None \<Rightarrow> s
      | Some r \<Rightarrow> s\<lparr>dirStore := putDir p (r\<lparr>dirObject := d\<rparr>) (dirStore s)\<rparr>)"

text \<open>A reference in the store of a directory keeps the directory referenced.\<close>

definition ms_referenceFile ::
    "StoreEnv \<Rightarrow> EntryInfo \<Rightarrow> MetaStore \<Rightarrow> MetaFs \<Rightarrow> (bool \<times> MetaStore \<times> MetaFs) option" where
  "ms_referenceFile env info s fs = do {
     (got, m, fs1) \<leftarrow>
       ifs_referenceFileInode (metaCfg env) (envTID env) info False (fileStore s) fs;
     (if got then Some (True, s\<lparr>fileStore := m\<rparr>, fs1)
      else do {
        let p = infoParentEntryID info;
        (gotDir, s1, fs2) \<leftarrow> ms_referenceDir env p False s fs1;
        (if \<not> gotDir then Some (False, s1, fs2)
         else do {
           files \<leftarrow> filesOf p s1;
           (got1, m1, fs3) \<leftarrow>
             ifs_referenceFileInode (metaCfg env) (envTID env) info True files fs2;
           Some (if got1
             then (True, putFiles p (updateObject (infoEntryID info) (incParentRef p) m1) s1, fs3)
             else (False, ms_releaseDir env p (putFiles p m1 s1), fs3))
         })
      })
   }"

text \<open>With a directory that the caller has locked: no reference to the directory is taken.\<close>

definition referenceFileIn ::
    "StoreEnv \<Rightarrow> string \<Rightarrow> EntryInfo \<Rightarrow> MetaStore \<Rightarrow> MetaFs \<Rightarrow> (bool \<times> MetaStore \<times> MetaFs) option" where
  "referenceFileIn env p info s fs = do {
     (got, m, fs1) \<leftarrow>
       ifs_referenceFileInode (metaCfg env) (envTID env) info False (fileStore s) fs;
     (if got then Some (True, s\<lparr>fileStore := m\<rparr>, fs1)
      else do {
        files \<leftarrow> filesOf p s;
        (got1, m1, fs2) \<leftarrow> ifs_referenceFileInode (metaCfg env) (envTID env) info True files fs1;
        Some (got1, putFiles p m1 s, fs2)
      })
   }"

definition ms_referenceLoadedFile ::
    "StoreEnv \<Rightarrow> string \<Rightarrow> string \<Rightarrow> MetaStore \<Rightarrow> MetaFs \<Rightarrow> (bool \<times> MetaStore \<times> MetaFs) option" where
  "ms_referenceLoadedFile env p eid s fs =
     (case referenceLoadedFile (envTID env) eid (fileStore s) of
        (True, m) \<Rightarrow> Some (True, s\<lparr>fileStore := m\<rparr>, fs)
      | (False, _) \<Rightarrow> do {
          (gotDir, s1, fs1) \<leftarrow> ms_referenceDir env p False s fs;
          (if \<not> gotDir then Some (False, s1, fs1)
           else do {
             files \<leftarrow> filesOf p s1;
             (case referenceLoadedFile (envTID env) eid files of
                (True, m) \<Rightarrow> Some (True, putFiles p (updateObject eid (incParentRef p) m) s1, fs1)
              | (False, _) \<Rightarrow> Some (False, ms_releaseDir env p s1, fs1))
           })
        })"

definition referenceLoadedFileIn ::
    "StoreEnv \<Rightarrow> string \<Rightarrow> string \<Rightarrow> MetaStore \<Rightarrow> (bool \<times> MetaStore) option" where
  "referenceLoadedFileIn env p eid s =
     (case referenceLoadedFile (envTID env) eid (fileStore s) of
        (True, m) \<Rightarrow> Some (True, s\<lparr>fileStore := m\<rparr>)
      | (False, _) \<Rightarrow> do {
          files \<leftarrow> filesOf p s;
          (let (got, m) = referenceLoadedFile (envTID env) eid files in Some (got, putFiles p m s))
        })"

text \<open>
  Releasing: a file that is not in the global store gives back its reference to the directory, and
  so does the call itself.
\<close>

definition ms_releaseFile ::
    "StoreEnv \<Rightarrow> string \<Rightarrow> string \<Rightarrow> MetaStore \<Rightarrow> MetaFs \<Rightarrow> (bool \<times> MetaStore \<times> MetaFs) option" where
  "ms_releaseFile env p eid s fs =
     (case releaseFileInode eid (fileStore s) of
        (True, m) \<Rightarrow> Some (True, s\<lparr>fileStore := m\<rparr>, fs)
      | (False, _) \<Rightarrow> do {
          (gotDir, s1, fs1) \<leftarrow> ms_referenceDir env p False s fs;
          (if \<not> gotDir then Some (False, s1, fs1)
           else do {
             files \<leftarrow> filesOf p s1;
             _ \<leftarrow> fmlookup files eid;
             (let (res, m) = releaseFileInode eid (updateObject eid decParentRef files)
              in Some (res, ms_releaseDir env p (ms_releaseDir env p (putFiles p m s1)), fs1))
           })
        })"

definition releaseFileIn ::
    "string \<Rightarrow> string \<Rightarrow> MetaStore \<Rightarrow> (bool \<times> MetaStore) option" where
  "releaseFileIn p eid s =
     (case releaseFileInode eid (fileStore s) of
        (True, m) \<Rightarrow> Some (True, s\<lparr>fileStore := m\<rparr>)
      | (False, _) \<Rightarrow> do {
          files \<leftarrow> filesOf p s;
          (let (res, m) = releaseFileInode eid files in Some (res, putFiles p m s))
        })"

text \<open>The first of the results tells whether the inode is that of a directory or of a file.\<close>

definition ms_referenceInode ::
    "StoreEnv \<Rightarrow> string \<Rightarrow> MetaStore \<Rightarrow> MetaFs \<Rightarrow> (bool \<times> bool \<times> MetaStore \<times> MetaFs) option" where
  "ms_referenceInode env eid s fs = do {
     (gotDir, s1, fs1) \<leftarrow> ms_referenceDir env eid True s fs;
     (if gotDir then Some (True, False, s1, fs1)
      else do {
        (gotFile, s2, fs2) \<leftarrow> ms_referenceFile env
          \<lparr>infoOwnerNodeID = 0, infoParentEntryID = [], infoEntryID = eid, infoFileName = [],
           infoEntryType = ucast DirEntryType_REGULARFILE, infoFlags = 0\<rparr> s1 fs1;
        Some (False, gotFile, s2, fs2)
      })
   }"

text \<open>
  From the store of its directory to the global one. All references to the directory that the
  file keeps are released; if the global store has the file already, the object is lost.
\<close>

definition moveReferenceToMetaFileStore ::
    "StoreEnv \<Rightarrow> string \<Rightarrow> string \<Rightarrow> MetaStore \<Rightarrow> MetaFs \<Rightarrow> (bool \<times> MetaStore \<times> MetaFs) option" where
  "moveReferenceToMetaFileStore env p eid s fs = do {
     (gotDir, s1, fs1) \<leftarrow> ms_referenceDir env p False s fs;
     (if \<not> gotDir then Some (False, s1, fs1)
      else do {
        files \<leftarrow> filesOf p s1;
        (case getReferencerAndDeleteFromMap eid files of
           (None, _) \<Rightarrow> Some (True, ms_releaseDir env p s1, fs1)
         | (Some r, m) \<Rightarrow>
             (let s2 = putFiles p m s1;
                  n = nat (sint (fiNumParentRefs (refObject r)))
              in case insertReferencer eid (ref_reference r) (fileStore s2) of
                   (False, _) \<Rightarrow> Some (False, ms_releaseDir env p s2, fs1)
                 | (True, _) \<Rightarrow>
                     (let r1 = (ref_reference r)\<lparr>refObject := (decParentRef ^^ n) (refObject r)\<rparr>;
                          s3 = (ms_releaseDir env p ^^ n) s2
                      in Some (True, ms_releaseDir env p
                           (s3\<lparr>fileStore := fmupd eid (ref_release r1) (fileStore s3)\<rparr>), fs1))))
      })
   }"

section \<open>Opening and closing\<close>

definition ms_openFile ::
    "StoreEnv \<Rightarrow> EntryInfo \<Rightarrow> u32 \<Rightarrow> MetaStore \<Rightarrow> MetaFs \<Rightarrow>
       (FhgfsOpsErr \<times> MetaStore \<times> MetaFs) option" where
  "ms_openFile env info accessFlags s fs =
     (if isInStore (infoEntryID info) (fileStore s)
      then do {
        (res, m, fs1) \<leftarrow>
          ifs_openFile (metaCfg env) (envTID env) info accessFlags False (fileStore s) fs;
        Some (res, s\<lparr>fileStore := m\<rparr>, fs1)
      }
      else do {
        let p = infoParentEntryID info;
        (gotDir, s1, fs1) \<leftarrow> ms_referenceDir env p False s fs;
        (if \<not> gotDir then Some (FhgfsOpsErr_INTERNAL, s1, fs1)
         else do {
           files \<leftarrow> filesOf p s1;
           (res, m, fs2) \<leftarrow>
             ifs_openFile (metaCfg env) (envTID env) info accessFlags True files fs1;
           Some (if res = FhgfsOpsErr_SUCCESS
             then (res, putFiles p (updateObject (infoEntryID info) (incParentRef p) m) s1, fs2)
             else (res, ms_releaseDir env p (putFiles p m s1), fs2))
         })
      })"

text \<open>The results: the link count and the remaining references, None where they are not set.\<close>

definition ms_closeFile ::
    "StoreEnv \<Rightarrow> EntryInfo \<Rightarrow> u32 \<Rightarrow> MetaStore \<Rightarrow> MetaFs \<Rightarrow>
       (u32 \<times> u32 option \<times> MetaStore \<times> MetaFs) option" where
  "ms_closeFile env info accessFlags s fs = do {
     let p = infoParentEntryID info;
     let eid = infoEntryID info;
     (closed, links, refs, m, fs1) \<leftarrow>
       ifs_closeFile (metaCfg env) (envNow env) info eid accessFlags (fileStore s) fs;
     (if closed then Some (links, refs, s\<lparr>fileStore := m\<rparr>, fs1)
      else do {
        (gotDir, s1, fs2) \<leftarrow> ms_referenceDir env p False s fs1;
        (if \<not> gotDir then Some (links, refs, s1, fs2)
         else do {
           files \<leftarrow> filesOf p s1;
           _ \<leftarrow> fmlookup files eid;
           (_, links1, refs1, m1, fs3) \<leftarrow> ifs_closeFile (metaCfg env) (envNow env) info eid accessFlags
             (updateObject eid decParentRef files) fs2;
           Some (links1, refs1, ms_releaseDir env p (ms_releaseDir env p (putFiles p m1 s1)), fs3)
         })
      })
   }"

definition ms_stat ::
    "StoreEnv \<Rightarrow> EntryInfo \<Rightarrow> bool \<Rightarrow> MetaStore \<Rightarrow> MetaFs \<Rightarrow>
       (FhgfsOpsErr \<times> StatData option \<times> MetaStore \<times> MetaFs) option" where
  "ms_stat env info loadFromDisk s fs =
     (if infoEntryType info = ucast DirEntryType_DIRECTORY
      then do {
        (res, st, ds, fs1) \<leftarrow> ids_stat env (infoEntryID info) (dirStore s) fs;
        Some (res, st, s\<lparr>dirStore := ds\<rparr>, fs1)
      }
      else do {
        (res, st, m, fs1) \<leftarrow>
          ifs_stat (metaCfg env) (envNow env) info False (fileStore s) fs;
        (if res \<noteq> FhgfsOpsErr_PATHNOTEXISTS then Some (res, st, s\<lparr>fileStore := m\<rparr>, fs1)
         else do {
           let p = infoParentEntryID info;
           (gotDir, s1, fs2) \<leftarrow> ms_referenceDir env p False s fs1;
           (if \<not> gotDir then Some (res, None, s1, fs2)
            else do {
              files \<leftarrow> filesOf p s1;
              (res1, st1, m1, fs3) \<leftarrow>
                ifs_stat (metaCfg env) (envNow env) info loadFromDisk files fs2;
              Some (res1, st1, ms_releaseDir env p (putFiles p m1 s1), fs3)
            })
         })
      })"

definition ms_setAttr ::
    "StoreEnv \<Rightarrow> EntryInfo \<Rightarrow> i32 \<Rightarrow> SettableFileAttribs \<Rightarrow> MetaStore \<Rightarrow> MetaFs \<Rightarrow>
       (FhgfsOpsErr \<times> MetaStore \<times> MetaFs) option" where
  "ms_setAttr env info valid attribs s fs =
     (if infoEntryType info = ucast DirEntryType_DIRECTORY
      then do {
        (res, ds, fs1) \<leftarrow> ids_setAttr env (infoEntryID info) valid attribs (dirStore s) fs;
        Some (res, s\<lparr>dirStore := ds\<rparr>, fs1)
      }
      else if isInStore (infoEntryID info) (fileStore s)
      then do {
        (res, m, fs1) \<leftarrow> ifs_setAttr (metaCfg env) (envNow env) (envTID env) info valid attribs
          (fileStore s) fs;
        Some (res, s\<lparr>fileStore := m\<rparr>, fs1)
      }
      else do {
        let p = infoParentEntryID info;
        (gotDir, s1, fs1) \<leftarrow> ms_referenceDir env p True s fs;
        (if \<not> gotDir then Some (FhgfsOpsErr_PATHNOTEXISTS, s1, fs1)
         else do {
           files \<leftarrow> filesOf p s1;
           (res, m, fs2) \<leftarrow>
             ifs_setAttr (metaCfg env) (envNow env) (envTID env) info valid attribs files fs1;
           Some (res, ms_releaseDir env p (putFiles p m s1), fs2)
         })
      })"

definition ms_cacheSweepAsync :: "StoreEnv \<Rightarrow> MetaStore \<Rightarrow> (bool \<times> MetaStore) option" where
  "ms_cacheSweepAsync env s = do {
     (swept, ds) \<leftarrow> cacheSweep env False (dirStore s);
     Some (swept, s\<lparr>dirStore := ds\<rparr>)
   }"

end
