(* ===== verification/MetaStoreRefs.thy ===== *)
theory MetaStoreRefs
  imports MetaStore
begin

text \<open>
  The reference counts of the metadata store. The callers' references are ghost state: for each
  file the directories under which it was referenced, and for each directory a number. The counts
  of the store are then known for every call: what a caller holds is in the store, a directory has
  a reference for each of the files that were referenced under it, and nothing else is kept.
\<close>

section \<open>Every reference is counted\<close>

text \<open>
  What the callers hold: \<open>dh p\<close> references to the directory \<open>p\<close>, and for each file the
  directories under which it was referenced, one for each reference.
\<close>

abbreviation filesIn :: "MetaStore \<Rightarrow> string \<Rightarrow> InodeMap" where
  "filesIn s \<equiv> filesAt (dirStore s)"

definition held :: "MetaStore \<Rightarrow> (string \<Rightarrow> string list) \<Rightarrow> string \<Rightarrow> bool" where
  "held s fh e \<longleftrightarrow>
     (if fmlookup (fileStore s) e = None
      then (\<forall>p. refsIn (filesIn s p) e = count_list (fh e) p) \<and>
        (\<forall>a \<in> set (fh e). \<forall>b \<in> set (fh e). a = b)
      else refsIn (fileStore s) e = length (fh e) \<and> (\<forall>p. fmlookup (filesIn s p) e = None))"

definition refs_inv ::
    "nat \<Rightarrow> (string \<Rightarrow> string list) \<Rightarrow> (string \<Rightarrow> nat) \<Rightarrow> MetaStore \<Rightarrow> bool" where
  "refs_inv n fh dh s \<longleftrightarrow>
     store_ok (fileStore s) \<and> (\<forall>p. store_ok (filesIn s p)) \<and>
     dir_ok (dirStore s) (\<lambda>p. dh p + totalRefs (filesIn s p)) \<and>
     (\<forall>p e. unat (parentRefs (filesIn s p) e) = refsIn (filesIn s p) e) \<and>
     (\<forall>e. held s fh e) \<and>
     (\<forall>p. dh p + totalRefs (filesIn s p) \<le> n) \<and> (\<forall>e. length (fh e) \<le> n)"

lemma refs_invD:
  assumes "refs_inv n fh dh s"
  shows "store_ok (fileStore s)" "store_ok (filesIn s p)"
    "dir_ok (dirStore s) (\<lambda>p. dh p + totalRefs (filesIn s p))"
    "unat (parentRefs (filesIn s p) e) = refsIn (filesIn s p) e" "held s fh e"
    "dh p + totalRefs (filesIn s p) \<le> n" "length (fh e) \<le> n"
  using assms by (simp_all add: refs_inv_def)

lemma refs_inv_mono: "refs_inv n fh dh s \<Longrightarrow> n \<le> m \<Longrightarrow> refs_inv m fh dh s"
  unfolding refs_inv_def by (meson le_trans)

lemma frame_inv:
  assumes "refs_inv n fh dh s" "filesIn s' = filesIn s" "fileStore s' = fileStore s"
    "dir_ok (dirStore s') (\<lambda>p. dh' p + totalRefs (filesIn s p))"
    "\<forall>p. dh' p + totalRefs (filesIn s p) \<le> m" "n \<le> m"
  shows "refs_inv m fh dh' s'"
proof -
  have "\<forall>e. length (fh e) \<le> m" using refs_invD(7) [OF assms(1)] assms(6) le_trans by blast
  with assms(1-5) show ?thesis by (simp add: refs_inv_def held_def)
qed

text \<open>References to directories.\<close>

lemma refdir_inv:
  assumes inv: "refs_inv n fh dh s" and n: "n + 1 < 2 ^ 30"
    and r: "ms_referenceDir env p forceLoad s fs = Some (got, s', fs')"
  shows "refs_inv (Suc n) fh (if got then dh(p := Suc (dh p)) else dh) s' \<and>
    filesIn s' = filesIn s \<and> fileStore s' = fileStore s"
proof -
  obtain ds where ref: "referenceDirInode env p forceLoad (dirStore s) fs = Some (got, ds, fs')"
    and s': "s' = s\<lparr>dirStore := ds\<rparr>"
    using r by (auto simp: ms_referenceDir_def bind_eq_Some_conv)
  note d = refs_invD(3) [OF inv]
  have b: "dh p + totalRefs (filesIn s p) + 1 < 2 ^ 30" using refs_invD(6) [OF inv, of p] n by simp
  from reference_spec [OF d b ref] have ok: "filesAt ds = filesIn s"
    "dir_ok ds (if got then (\<lambda>p. dh p + totalRefs (filesIn s p))
        (p := Suc (dh p + totalRefs (filesIn s p))) else (\<lambda>p. dh p + totalRefs (filesIn s p)))"
    by simp_all
  let ?dh = "if got then dh(p := Suc (dh p)) else dh"
  have "(\<lambda>q. ?dh q + totalRefs (filesIn s q)) = (if got then (\<lambda>p. dh p + totalRefs (filesIn s p))
        (p := Suc (dh p + totalRefs (filesIn s p))) else (\<lambda>p. dh p + totalRefs (filesIn s p)))"
    by (auto simp: fun_eq_iff)
  moreover have "\<forall>q. ?dh q + totalRefs (filesIn s q) \<le> Suc n"
    using refs_invD(6) [OF inv] by (auto simp: le_SucI)
  ultimately have "refs_inv (Suc n) fh ?dh s'"
    using frame_inv [OF inv, of s' ?dh "Suc n"] ok s' by simp
  then show ?thesis using ok s' by simp
qed

lemma reference_got:
  assumes ok: "dir_ok s ext" and r: "referenceDirInode env p False s fs = Some (got, s', fs')"
  shows "got \<and> fs' = fs"
proof (cases "fmlookup (storeDirs s) p")
  case (Some x)
  have "counts s (\<lambda>p. ext p + cached s p)" using ok by (simp add: dir_ok_def)
  then have "\<not> dnExclusive (dirObject x)" using countsD(1) Some by blast
  with r Some show ?thesis by (simp add: referenceDirInode_def dirInodeInStore_def loadReferenced_def)
next
  case None
  with r show ?thesis
    by (auto simp: referenceDirInode_def dirInodeInStore_def insertDirInode_def loadReferenced_def
        bind_eq_Some_conv)
qed

lemma refdir_got:
  assumes "refs_inv n fh dh s" "ms_referenceDir env p False s fs = Some (got, s', fs')"
  shows "got" "fs' = fs"
  using reference_got [OF refs_invD(3) [OF assms(1)], of env p fs got _ fs'] assms(2)
  by (auto simp: ms_referenceDir_def bind_eq_Some_conv)

lemma refdir_total:
  assumes inv: "refs_inv n fh dh s" and n: "n + 1 < 2 ^ 30" and lim: "2 \<le> dirMetadataCacheLimit env"
  shows "\<exists>s'. ms_referenceDir env p False s fs = Some (True, s', fs)"
proof -
  have b: "dh p + totalRefs (filesIn s p) + 1 < 2 ^ 30" using refs_invD(6) [OF inv, of p] n by simp
  from reference_total [OF refs_invD(3) [OF inv] b lim, of fs] show ?thesis
    by (auto simp: ms_referenceDir_def)
qed

lemma reldir_inv:
  assumes inv: "refs_inv n fh dh s" and pos: "0 < dh p"
  shows "refs_inv n fh (dh(p := dh p - 1)) (ms_releaseDir env p s) \<and>
    filesIn (ms_releaseDir env p s) = filesIn s \<and> fileStore (ms_releaseDir env p s) = fileStore s"
proof -
  note d = refs_invD(3) [OF inv]
  have "filesIn s p \<noteq> fmempty \<longrightarrow> 0 < totalRefs (filesIn s p)"
    using total_pos refs_invD(2) [OF inv] by blast
  then have rel: "dir_ok (releaseDir env p (dirStore s)) ((\<lambda>p. dh p + totalRefs (filesIn s p))
      (p := dh p + totalRefs (filesIn s p) - 1))" "filesAt (releaseDir env p (dirStore s)) = filesIn s"
    using release_dir_ok [OF d, of p env] pos by (fastforce, fastforce)
  have "(\<lambda>p. dh p + totalRefs (filesIn s p))(p := dh p + totalRefs (filesIn s p) - 1) =
      (\<lambda>q. (dh(p := dh p - 1)) q + totalRefs (filesIn s q))"
    using pos by (auto simp: fun_eq_iff)
  moreover have "(dh(p := dh p - 1)) q + totalRefs (filesIn s q) \<le> n" for q
    using refs_invD(6) [OF inv, of q] by (cases "q = p") auto
  ultimately have "refs_inv n fh (dh(p := dh p - 1)) (ms_releaseDir env p s)"
    using frame_inv [OF inv, of "ms_releaseDir env p s" "dh(p := dh p - 1)" n] rel
    by (simp add: ms_releaseDir_def)
  then show ?thesis using rel by (simp add: ms_releaseDir_def)
qed

text \<open>A directory that is referenced is there.\<close>

lemma dir_there:
  assumes inv: "refs_inv n fh dh s" and pos: "0 < dh p + totalRefs (filesIn s p)"
  shows "\<exists>r. fmlookup (storeDirs (dirStore s)) p = Some r"
proof -
  have "counts (dirStore s) (\<lambda>p. dh p + totalRefs (filesIn s p) + cached (dirStore s) p)"
    using refs_invD(3) [OF inv] by (simp add: dir_ok_def)
  from countsD(2) [OF this, of p] pos show ?thesis
    by (cases "fmlookup (storeDirs (dirStore s)) p") auto
qed

text \<open>The files of a directory change together with the references to it.\<close>

lemma filesOf_there:
  "fmlookup (storeDirs (dirStore s)) p = Some r \<Longrightarrow> filesOf p s = Some (filesIn s p)"
  by (simp add: filesOf_def filesAt_def)

lemma putFiles_same:
  assumes "fmlookup (storeDirs (dirStore s)) p = Some r"
  shows "putFiles p (filesIn s p) s = s"
proof -
  have "fmupd p r (storeDirs (dirStore s)) = storeDirs (dirStore s)"
    by (rule fmap_ext) (use assms in auto)
  then show ?thesis using assms by (simp add: putFiles_def putDir_def filesAt_def)
qed

lemma put_inv:
  assumes inv: "refs_inv n fh dh s" and r: "fmlookup (storeDirs (dirStore s)) p = Some r"
    and m: "store_ok m" "\<forall>e. unat (parentRefs m e) = refsIn m e"
    and bal: "d + totalRefs m = dh p + totalRefs (filesIn s p)"
    and h: "\<forall>e. held (putFiles p m s) fh' e" "\<forall>e. length (fh' e) \<le> n"
  shows "refs_inv n fh' (dh(p := d)) (putFiles p m s) \<and>
    filesIn (putFiles p m s) = (filesIn s)(p := m) \<and> fileStore (putFiles p m s) = fileStore s"
proof -
  let ?s = "putFiles p m s"
  have ds: "dirStore ?s = putDir p (r\<lparr>dirFiles := m\<rparr>) (dirStore s)" and g: "fileStore ?s = fileStore s"
    using r by (simp_all add: putFiles_def)
  have f: "filesIn ?s = (filesIn s)(p := m)" by (simp add: ds)
  note d = refs_invD(3) [OF inv]
  have c: "counts (dirStore s) (\<lambda>p. dh p + totalRefs (filesIn s p) + cached (dirStore s) p)"
    using d by (simp add: dir_ok_def)
  have "counts (dirStore ?s) ((\<lambda>p. dh p + totalRefs (filesIn s p) + cached (dirStore s) p)
      (p := dh p + totalRefs (filesIn s p) + cached (dirStore s) p))"
    unfolding ds by (rule counts_put [OF c]) (use countsD(1) [OF c r] in simp_all)
  then have "counts (dirStore ?s) (\<lambda>q. (dh(p := d)) q + totalRefs (filesIn ?s q) + cached (dirStore ?s) q)"
    by (rule counts_cong) (use bal in \<open>auto simp: f ds cached_def\<close>)
  moreover have "\<forall>q. filesIn ?s q \<noteq> fmempty \<longrightarrow> 0 < (dh(p := d)) q + totalRefs (filesIn ?s q)"
    using d total_pos [OF m(1)] by (auto simp: f dir_ok_def)
  moreover have "distinct (refCache (dirStore ?s))" using d by (simp add: ds dir_ok_def)
  ultimately have "dir_ok (dirStore ?s) (\<lambda>q. (dh(p := d)) q + totalRefs (filesIn ?s q))"
    by (simp add: dir_ok_def)
  then show ?thesis
    using inv m h bal g refs_invD(6) [OF inv, of p] f by (auto simp: refs_inv_def)
qed

lemma held_local:
  assumes inv: "refs_inv n fh dh s" and e: "fmlookup (fileStore s) e = None"
    and r: "fmlookup (storeDirs (dirStore s)) p = Some r" and ok: "store_ok m"
    and k: "refsIn m = (refsIn (filesIn s p))(e := count_list l p)"
    and l: "set l \<subseteq> {p}" "set (fh e) \<subseteq> {p}"
  shows "held (putFiles p m s) (fh(e := l)) x"
proof -
  have f: "filesIn (putFiles p m s) = (filesIn s)(p := m)" "fileStore (putFiles p m s) = fileStore s"
    using r by (simp_all add: putFiles_def)
  have h: "held s fh x" by (rule refs_invD(5) [OF inv])
  have none: "fmlookup m x = None \<longleftrightarrow> fmlookup (filesIn s p) x = None" if "x \<noteq> e"
    using store_ok_dom [OF refs_invD(2) [OF inv] ok] k that by simp
  show ?thesis
  proof (cases "x = e")
    case True
    have "\<forall>q. q \<noteq> p \<longrightarrow> count_list l q = 0 \<and> count_list (fh e) q = 0"
      using l by (auto simp: count_list_0_iff)
    moreover have "\<forall>a \<in> set l. \<forall>b \<in> set l. a = b" using l(1) by blast
    ultimately show ?thesis using h e k f True by (simp add: held_def)
  next
    case False
    then show ?thesis using h k f none by (auto simp: held_def)
  qed
qed

lemma global_inv:
  assumes inv: "refs_inv n fh dh s" and e: "fmlookup (fileStore s) e \<noteq> None"
    and ok: "store_ok m" and k: "refsIn m = (refsIn (fileStore s))(e := length l)" and n: "length l \<le> n"
  shows "refs_inv n (fh(e := l)) dh (s\<lparr>fileStore := m\<rparr>)"
proof -
  let ?s = "s\<lparr>fileStore := m\<rparr>"
  note d = refs_invD [OF inv]
  have none: "fmlookup m x = None \<longleftrightarrow> fmlookup (fileStore s) x = None" if "x \<noteq> e" for x
    using store_ok_dom [OF d(1) ok] k that by simp
  have gone: "fmlookup m e = None \<longleftrightarrow> l = []" using refsIn_pos [OF ok, of e] k by auto
  have "held ?s (fh(e := l)) x" for x
  proof (cases "x = e")
    case True
    have "\<forall>p. fmlookup (filesIn s p) e = None" using d(5) [of e] e by (simp add: held_def)
    then show ?thesis using True gone k by (auto simp: held_def refsIn_def)
  next
    case False
    then show ?thesis using d(5) [of x] none k by (simp add: held_def)
  qed
  then show ?thesis using d ok n by (simp add: refs_inv_def)
qed

text \<open>Referencing a file under one directory.\<close>

definition admissible :: "(string \<Rightarrow> string list) \<Rightarrow> MetaStore \<Rightarrow> string \<Rightarrow> string \<Rightarrow> bool" where
  "admissible fh s p e \<longleftrightarrow> fmlookup (fileStore s) e \<noteq> None \<or> set (fh e) \<subseteq> {p}"

lemma local_reference_inv:
  assumes inv: "refs_inv n fh dh s" and e: "fmlookup (fileStore s) e = None" and n: "n + 1 < 2 ^ 30"
    and pos: "0 < dh p" and adm: "set (fh e) \<subseteq> {p}"
    and m: "store_ok m" "refsIn m = (refsIn (filesIn s p))(e := Suc (refsIn (filesIn s p) e))"
      "parentRefs m = parentRefs (filesIn s p)"
  shows "refs_inv (Suc n) (fh(e := p # fh e)) (dh(p := dh p - 1))
    (putFiles p (updateObject e (incParentRef p) m) s)"
proof -
  note d = refs_invD [OF inv]
  obtain r where r: "fmlookup (storeDirs (dirStore s)) p = Some r"
    using dir_there [OF inv, of p] pos by auto
  let ?m = "updateObject e (incParentRef p) m"
  have c: "refsIn (filesIn s p) e = count_list (fh e) p" using d(5) [of e] e by (simp add: held_def)
  have "0 < refsIn m e" using m(2) by simp
  then obtain x where x: "fmlookup m e = Some x" using refsIn_pos [OF m(1), of e] by auto
  have "fiNumParentRefs (refObject x) = parentRefs (filesIn s p) e"
    using m(3) x by (metis option.simps(5) parentRefs_def)
  then have u: "unat (fiNumParentRefs (refObject x)) = refsIn (filesIn s p) e" using d(4) by simp
  have "refsIn (filesIn s p) e \<le> n"
    using refs_le_total [of "filesIn s p" e] d(6) [of p] by simp
  then have "unat (fiNumParentRefs (refObject x)) + 1 < 2 ^ LENGTH(64)" using u n by simp
  then have "unat (fiNumParentRefs (refObject x) + 1) = Suc (refsIn (filesIn s p) e)"
    using u by (simp add: unat_word_ariths)
  then have parents: "\<forall>a. unat (parentRefs ?m a) = refsIn ?m a"
    using x m d(4) [of p] by (simp add: updateObject_refs incParentRef_def)
  have "totalRefs ?m = Suc (totalRefs (filesIn s p))"
    using total_change [of ?m "filesIn s p" e "Suc (refsIn (filesIn s p) e)"] m(2) by simp
  then have bal: "(dh p - 1) + totalRefs ?m = dh p + totalRefs (filesIn s p)" using pos by simp
  have ok: "store_ok ?m" using updateObject_ok [OF m(1)] by simp
  have "held (putFiles p ?m s) (fh(e := p # fh e)) y" for y
    by (rule held_local [OF inv e r ok]) (use m adm c in simp_all)
  moreover have "length ((fh(e := p # fh e)) y) \<le> Suc n" for y using d(7) [of y] d(7) [of e] by simp
  ultimately show ?thesis
    using put_inv [OF refs_inv_mono [OF inv, of "Suc n"] r ok parents bal, of "fh(e := p # fh e)"]
    by simp
qed

text \<open>What an operation does that takes a reference to a file, or gives one back.\<close>

definition acquired :: "InodeMap \<Rightarrow> string \<Rightarrow> bool \<Rightarrow> InodeMap \<Rightarrow> bool" where
  "acquired m e got m' \<longleftrightarrow>
     (if got then store_ok m' \<and> refsIn m' = (refsIn m)(e := Suc (refsIn m e)) \<and>
        parentRefs m' = parentRefs m
      else m' = m)"

lemma acquire_global:
  assumes inv: "refs_inv n fh dh s" and a: "acquired (fileStore s) e got m"
    and e: "fmlookup (fileStore s) e \<noteq> None"
  shows "refs_inv (n + 2) (if got then fh(e := p # fh e) else fh) dh (s\<lparr>fileStore := m\<rparr>)"
proof (cases got)
  case True
  have "refsIn (fileStore s) e = length (fh e)" using refs_invD(5) [OF inv, of e] e by (simp add: held_def)
  then have "refsIn m = (refsIn (fileStore s))(e := length (p # fh e))"
    using a True by (simp add: acquired_def)
  moreover have "length (p # fh e) \<le> n + 2" using refs_invD(7) [OF inv, of e] by simp
  ultimately show ?thesis
    using global_inv [OF refs_inv_mono [OF inv, of "n + 2"] e] a True by (simp add: acquired_def)
next
  case False
  then have "s\<lparr>fileStore := m\<rparr> = s" using a by (simp add: acquired_def)
  then show ?thesis using refs_inv_mono [OF inv] False by simp
qed

lemma acquire_local:
  assumes inv: "refs_inv n fh dh s" and n: "n + 3 < 2 ^ 30"
    and e: "fmlookup (fileStore s) e = None" and adm: "set (fh e) \<subseteq> {p}"
    and rd: "ms_referenceDir env p b s fs = Some (True, s1, fs1)"
    and a: "acquired (filesIn s1 p) e got m"
  shows "refs_inv (n + 2) (if got then fh(e := p # fh e) else fh) dh
    (if got then putFiles p (updateObject e (incParentRef p) m) s1
     else ms_releaseDir env p (putFiles p m s1))"
proof -
  let ?dh = "dh(p := Suc (dh p))"
  have i1: "refs_inv (Suc n) fh ?dh s1" and f1: "filesIn s1 = filesIn s" "fileStore s1 = fileStore s"
    using refdir_inv [OF inv _ rd] n by simp_all
  obtain r where r: "fmlookup (storeDirs (dirStore s1)) p = Some r" using dir_there [OF i1, of p] by auto
  show ?thesis
  proof (cases got)
    case True
    have "refs_inv (Suc (Suc n)) (fh(e := p # fh e)) (?dh(p := ?dh p - 1))
        (putFiles p (updateObject e (incParentRef p) m) s1)"
      by (rule local_reference_inv [OF i1]) (use e f1 n adm a True in \<open>simp_all add: acquired_def\<close>)
    then show ?thesis using True by simp
  next
    case False
    then have "putFiles p m s1 = s1" using a putFiles_same [OF r] by (simp add: acquired_def)
    moreover have "refs_inv (Suc n) fh (?dh(p := ?dh p - 1)) (ms_releaseDir env p s1)"
      using reldir_inv [OF i1, of p] by simp
    ultimately show ?thesis using refs_inv_mono [of "Suc n" _ _ _ "n + 2"] False by simp
  qed
qed

lemma refs_bound:
  assumes "refs_inv n fh dh s"
  shows "refsIn (filesIn s p) e \<le> n" "refsIn (fileStore s) e \<le> n"
proof -
  note d = refs_invD [OF assms]
  show "refsIn (filesIn s p) e \<le> n" using refs_le_total [of "filesIn s p" e] d(6) [of p] by simp
  show "refsIn (fileStore s) e \<le> n"
    using d(5) [of e] d(7) [of e] by (auto simp: held_def refsIn_def split: if_splits)
qed

lemma referenceFile_inv:
  assumes inv: "refs_inv n fh dh s" and n: "n + 3 < 2 ^ 30"
    and adm: "admissible fh s (infoParentEntryID info) (infoEntryID info)"
    and r: "ms_referenceFile env info s fs = Some (got, s', fs')"
  shows "refs_inv (n + 2)
    (if got then fh(infoEntryID info := infoParentEntryID info # fh (infoEntryID info)) else fh) dh s'"
proof -
  let ?e = "infoEntryID info" and ?p = "infoParentEntryID info"
  note d = refs_invD [OF inv]
  obtain g m fs1 where g: "ifs_referenceFileInode (metaCfg env) (envTID env) info False (fileStore s) fs =
      Some (g, m, fs1)"
    using r by (auto simp: ms_referenceFile_def bind_eq_Some_conv)
  have b: "refsIn (fileStore s) ?e < 2 ^ 30" using refs_bound(2) [OF inv, of ?e] n by simp
  note gs = file_reference [OF g d(1) b]
  show ?thesis
  proof (cases g)
    case True
    then have "got" "s' = s\<lparr>fileStore := m\<rparr>" using r g by (auto simp: ms_referenceFile_def)
    then show ?thesis using acquire_global [OF inv, of ?e True m ?p] gs True by (simp add: acquired_def)
  next
    case False
    have m: "m = fileStore s" and none: "fmlookup (fileStore s) ?e = None" using gs False by simp_all
    then have adm1: "set (fh ?e) \<subseteq> {?p}" using adm by (simp add: admissible_def)
    obtain gd s1 fs2 where rd0: "ms_referenceDir env ?p False s fs1 = Some (gd, s1, fs2)"
      using r g False m by (auto simp: ms_referenceFile_def Let_def bind_eq_Some_conv)
    have rd: "ms_referenceDir env ?p False s fs1 = Some (True, s1, fs2)"
      using rd0 refdir_got [OF inv rd0] by simp
    have i1: "refs_inv (Suc n) fh (dh(?p := Suc (dh ?p))) s1" using refdir_inv [OF inv _ rd] n by simp
    obtain x where x: "fmlookup (storeDirs (dirStore s1)) ?p = Some x" using dir_there [OF i1, of ?p] by auto
    note fo = filesOf_there [OF x]
    obtain g1 m1 fs3 where g1: "ifs_referenceFileInode (metaCfg env) (envTID env) info True
        (filesIn s1 ?p) fs2 = Some (g1, m1, fs3)"
      using r g False m rd fo by (auto simp: ms_referenceFile_def Let_def bind_eq_Some_conv)
    have out: "got = g1" "s' = (if g1 then putFiles ?p (updateObject ?e (incParentRef ?p) m1) s1
        else ms_releaseDir env ?p (putFiles ?p m1 s1))"
      using r g False m rd fo g1 by (auto simp: ms_referenceFile_def Let_def split: if_splits)
    have b1: "refsIn (filesIn s1 ?p) ?e < 2 ^ 30" using refs_bound(1) [OF i1, of ?p ?e] n by simp
    have "acquired (filesIn s1 ?p) ?e g1 m1"
      using file_reference [OF g1 refs_invD(2) [OF i1] b1] by (auto simp: acquired_def split: if_splits)
    from acquire_local [OF inv n none adm1 rd this] show ?thesis using out by simp
  qed
qed

lemma open_file_spec:
  assumes o: "ifs_openFile cfg tid info flags load m fs = Some (res, m', fs')" and ok: "store_ok m"
    and b: "refsIn m (infoEntryID info) < 2 ^ 30"
  shows "res \<in> {FhgfsOpsErr_SUCCESS, FhgfsOpsErr_PATHNOTEXISTS} \<and>
    acquired m (infoEntryID info) (res = FhgfsOpsErr_SUCCESS) m'"
proof -
  let ?e = "infoEntryID info"
  obtain g m1 fs1 where g: "ifs_referenceFileInode cfg tid info load m fs = Some (g, m1, fs1)"
    using o by (auto simp: ifs_openFile_def)
  note gs = file_reference [OF g ok b]
  show ?thesis
  proof (cases g)
    case True
    then have m': "res = FhgfsOpsErr_SUCCESS" "m' = updateObject ?e (incNumSessions flags) m1"
      using o g by (auto simp: ifs_openFile_def)
    have "parentRefs m' = parentRefs m1"
      by (auto simp: m' updateObject_refs parentRefs_def incNumSessions_def fun_eq_iff split: option.splits)
    moreover have "store_ok m'" unfolding m'(2) by (rule updateObject_ok) (use gs True in simp_all)
    ultimately show ?thesis using gs True m' by (simp add: acquired_def)
  next
    case False
    then show ?thesis using o g gs by (auto simp: ifs_openFile_def acquired_def)
  qed
qed

lemma openFile_inv:
  assumes inv: "refs_inv n fh dh s" and n: "n + 3 < 2 ^ 30"
    and adm: "admissible fh s (infoParentEntryID info) (infoEntryID info)"
    and r: "ms_openFile env info flags s fs = Some (res, s', fs')"
  shows "refs_inv (n + 2) (if res = FhgfsOpsErr_SUCCESS
    then fh(infoEntryID info := infoParentEntryID info # fh (infoEntryID info)) else fh) dh s'"
proof -
  let ?e = "infoEntryID info" and ?p = "infoParentEntryID info"
  note d = refs_invD [OF inv]
  show ?thesis
  proof (cases "fmlookup (fileStore s) ?e")
    case (Some x)
    then obtain m where o: "ifs_openFile (metaCfg env) (envTID env) info flags False (fileStore s) fs =
        Some (res, m, fs')" and s': "s' = s\<lparr>fileStore := m\<rparr>"
      using r by (auto simp: ms_openFile_def isInStore_def Let_def bind_eq_Some_conv)
    have b: "refsIn (fileStore s) ?e < 2 ^ 30" using refs_bound(2) [OF inv, of ?e] n by simp
    show ?thesis
      unfolding s' by (rule acquire_global [OF inv]) (use open_file_spec [OF o d(1) b] Some in simp_all)
  next
    case None
    then have adm1: "set (fh ?e) \<subseteq> {?p}" using adm by (simp add: admissible_def)
    obtain gd s1 fs2 where rd0: "ms_referenceDir env ?p False s fs = Some (gd, s1, fs2)"
      using r None by (auto simp: ms_openFile_def isInStore_def Let_def bind_eq_Some_conv)
    have rd: "ms_referenceDir env ?p False s fs = Some (True, s1, fs2)"
      using rd0 refdir_got [OF inv rd0] by simp
    have i1: "refs_inv (Suc n) fh (dh(?p := Suc (dh ?p))) s1" using refdir_inv [OF inv _ rd] n by simp
    obtain x where x: "fmlookup (storeDirs (dirStore s1)) ?p = Some x" using dir_there [OF i1, of ?p] by auto
    note fo = filesOf_there [OF x]
    obtain res1 m1 fs3 where g1: "ifs_openFile (metaCfg env) (envTID env) info flags True
        (filesIn s1 ?p) fs2 = Some (res1, m1, fs3)"
      using r None rd fo by (auto simp: ms_openFile_def isInStore_def Let_def bind_eq_Some_conv)
    have out: "res = res1" "s' = (if res1 = FhgfsOpsErr_SUCCESS
        then putFiles ?p (updateObject ?e (incParentRef ?p) m1) s1
        else ms_releaseDir env ?p (putFiles ?p m1 s1))"
      using r None rd fo g1 by (auto simp: ms_openFile_def isInStore_def Let_def split: if_splits)
    have b1: "refsIn (filesIn s1 ?p) ?e < 2 ^ 30" using refs_bound(1) [OF i1, of ?p ?e] n by simp
    have "acquired (filesIn s1 ?p) ?e (res1 = FhgfsOpsErr_SUCCESS) m1"
      using open_file_spec [OF g1 refs_invD(2) [OF i1] b1] by simp
    from acquire_local [OF inv n None adm1 rd this] show ?thesis using out by simp
  qed
qed

lemma count_all: "set xs \<subseteq> {x} \<Longrightarrow> count_list xs x = length xs"
  by (induction xs) auto

lemma count_pos: "x \<in> set xs \<Longrightarrow> 0 < count_list xs x"
  by (metis count_list_0_iff gr0I)

text \<open>Releasing a file that the caller holds under a directory.\<close>

lemma local_release_inv:
  assumes inv: "refs_inv n fh dh s" and e: "fmlookup (fileStore s) e = None" and n: "n < 2 ^ 30"
    and hold: "p \<in> set (fh e)"
    and m: "store_ok m" "refsIn m = (refsIn (filesIn s p))(e := refsIn (filesIn s p) e - 1)"
      "parentRefs m = (parentRefs (updateObject e decParentRef (filesIn s p)))
        (e := if refsIn (filesIn s p) e = 1 then 0
              else parentRefs (updateObject e decParentRef (filesIn s p)) e)"
  shows "refs_inv n (fh(e := remove1 p (fh e))) (dh(p := Suc (dh p))) (putFiles p m s)"
proof -
  note d = refs_invD [OF inv]
  have h: "refsIn (filesIn s p) e = count_list (fh e) p" "\<forall>a \<in> set (fh e). \<forall>b \<in> set (fh e). a = b"
    using d(5) [of e] e by (simp_all add: held_def)
  then have fh: "set (fh e) \<subseteq> {p}" using hold by blast
  have pos: "0 < refsIn (filesIn s p) e" using h(1) count_pos [OF hold] by simp
  then obtain x where x: "fmlookup (filesIn s p) e = Some x" using refsIn_pos [OF d(2) [of p], of e] by auto
  have "0 < totalRefs (filesIn s p)" using refs_le_total [of "filesIn s p" e] pos by simp
  then obtain r where r: "fmlookup (storeDirs (dirStore s)) p = Some r"
    using dir_there [OF inv, of p] by auto
  have u: "unat (fiNumParentRefs (refObject x)) = refsIn (filesIn s p) e"
    using d(4) [of p e] x by (simp add: parentRefs_def)
  have "1 \<le> fiNumParentRefs (refObject x)" using u pos by (simp add: word_le_nat_alt)
  then have "unat (fiNumParentRefs (refObject x) - 1) = refsIn (filesIn s p) e - 1"
    using u by (simp add: unat_sub)
  then have parents: "\<forall>a. unat (parentRefs m a) = refsIn m a"
    using m(2,3) x d(4) [of p] by (simp add: updateObject_refs decParentRef_def)
  have "totalRefs m + refsIn (filesIn s p) e = totalRefs (filesIn s p) + (refsIn (filesIn s p) e - 1)"
    by (rule total_change [OF m(2)])
  then have bal: "Suc (dh p) + totalRefs m = dh p + totalRefs (filesIn s p)" using pos by simp
  have l: "count_list (remove1 p (fh e)) p = refsIn (filesIn s p) e - 1" using h(1) by simp
  have sub: "set (remove1 p (fh e)) \<subseteq> {p}" using fh set_remove1_subset [of p "fh e"] by blast
  have "held (putFiles p m s) (fh(e := remove1 p (fh e))) y" for y
    by (rule held_local [OF inv e r m(1) _ sub fh]) (use m(2) l in simp)
  moreover have "length ((fh(e := remove1 p (fh e))) y) \<le> n" for y
    using d(7) [of y] d(7) [of e] length_remove1 [of p "fh e"] by auto
  ultimately show ?thesis
    using put_inv [OF inv r m(1) parents bal, of "fh(e := remove1 p (fh e))"] by simp
qed

lemma twice_released:
  assumes "refs_inv n fh (dh(p := Suc (Suc (dh p)))) s"
  shows "refs_inv n fh dh (ms_releaseDir env p (ms_releaseDir env p s))"
  using reldir_inv [OF assms, of p env] reldir_inv [of n fh "dh(p := Suc (dh p))" "ms_releaseDir env p s" p env]
  by simp

lemma global_release_inv:
  assumes inv: "refs_inv n fh dh s" and e: "fmlookup (fileStore s) e \<noteq> None" and hold: "p \<in> set (fh e)"
    and m: "store_ok m" "refsIn m = (refsIn (fileStore s))(e := refsIn (fileStore s) e - 1)"
  shows "refs_inv n (fh(e := remove1 p (fh e))) dh (s\<lparr>fileStore := m\<rparr>)"
proof (rule global_inv [OF inv e m(1)])
  have "refsIn (fileStore s) e = length (fh e)" using refs_invD(5) [OF inv, of e] e by (simp add: held_def)
  then show "refsIn m = (refsIn (fileStore s))(e := length (remove1 p (fh e)))"
    using m(2) hold by (simp add: length_remove1)
  show "length (remove1 p (fh e)) \<le> n"
    using refs_invD(7) [OF inv, of e] length_remove1 [of p "fh e"] by auto
qed

definition given_back :: "InodeMap \<Rightarrow> string \<Rightarrow> InodeMap \<Rightarrow> bool" where
  "given_back m e m' \<longleftrightarrow> store_ok m' \<and> refsIn m' = (refsIn m)(e := refsIn m e - 1) \<and>
     parentRefs m' = (parentRefs m)(e := if refsIn m e = 1 then 0 else parentRefs m e)"

lemma release_global:
  assumes "refs_inv n fh dh s" "p \<in> set (fh e)" "given_back (fileStore s) e m"
    "fmlookup (fileStore s) e \<noteq> None"
  shows "refs_inv (n + 2) (fh(e := remove1 p (fh e))) dh (s\<lparr>fileStore := m\<rparr>)"
  using global_release_inv [OF refs_inv_mono [OF assms(1)] assms(4,2)] assms(3)
  by (simp add: given_back_def)

text \<open>The object is found where it was referenced, whatever happened in between.\<close>

lemma release_local:
  assumes inv: "refs_inv n fh dh s" and n: "n + 3 < 2 ^ 30" and hold: "p \<in> set (fh e)"
    and none: "fmlookup (fileStore s) e = None"
    and rd: "ms_referenceDir env p b s fs = Some (True, s1, fs1)"
  shows "filesOf p s1 = Some (filesIn s1 p)" "fmlookup (filesIn s1 p) e \<noteq> None"
    "store_ok (updateObject e decParentRef (filesIn s1 p))"
    "fmlookup (updateObject e decParentRef (filesIn s1 p)) e \<noteq> None"
    "given_back (updateObject e decParentRef (filesIn s1 p)) e m \<Longrightarrow>
      refs_inv (n + 2) (fh(e := remove1 p (fh e))) dh
        (ms_releaseDir env p (ms_releaseDir env p (putFiles p m s1)))"
proof -
  let ?dh = "dh(p := Suc (dh p))"
  have i1: "refs_inv (Suc n) fh ?dh s1" and f1: "filesIn s1 = filesIn s" "fileStore s1 = fileStore s"
    using refdir_inv [OF inv _ rd] n by simp_all
  obtain x where x: "fmlookup (storeDirs (dirStore s1)) p = Some x" using dir_there [OF i1, of p] by auto
  then show "filesOf p s1 = Some (filesIn s1 p)" by (rule filesOf_there)
  have "refsIn (filesIn s1 p) e = count_list (fh e) p"
    using refs_invD(5) [OF inv, of e] none f1 by (simp add: held_def)
  then have "0 < refsIn (filesIn s1 p) e" using count_pos [OF hold] by simp
  then show there: "fmlookup (filesIn s1 p) e \<noteq> None" using refsIn_pos [OF refs_invD(2) [OF i1]] by blast
  then show "fmlookup (updateObject e decParentRef (filesIn s1 p)) e \<noteq> None"
    by (auto simp: updateObject_def)
  show "store_ok (updateObject e decParentRef (filesIn s1 p))"
    using updateObject_ok [OF refs_invD(2) [OF i1]] by simp
  assume g: "given_back (updateObject e decParentRef (filesIn s1 p)) e m"
  have "refs_inv (Suc n) (fh(e := remove1 p (fh e))) (?dh(p := Suc (?dh p))) (putFiles p m s1)"
    by (rule local_release_inv [OF i1]) (use none f1 n hold g in \<open>simp_all add: given_back_def\<close>)
  then have "refs_inv (Suc n) (fh(e := remove1 p (fh e))) dh
      (ms_releaseDir env p (ms_releaseDir env p (putFiles p m s1)))"
    using twice_released [of "Suc n" _ dh p "putFiles p m s1" env] by simp
  then show "refs_inv (n + 2) (fh(e := remove1 p (fh e))) dh
      (ms_releaseDir env p (ms_releaseDir env p (putFiles p m s1)))"
    by (rule refs_inv_mono) simp
qed

lemma release_file_given:
  "store_ok m \<Longrightarrow> releaseFileInode e m = (w, m') \<Longrightarrow> fmlookup m e \<noteq> None \<Longrightarrow> w \<and> given_back m e m'"
  using release_file_spec [of m e w m'] by (auto simp: given_back_def split: if_splits)

lemma close_given:
  assumes "store_ok m" "ifs_closeFile cfg now info e flags m fs = Some (closed, links, refs, m', fs')"
    "fmlookup m e \<noteq> None"
  shows "closed \<and> given_back m e m' \<and> map_option unat refs = Some (refsIn m e - 1)"
  using close_spec [OF assms(1,2)] assms(3) by (auto simp: given_back_def split: if_splits)

lemma releaseFile_inv:
  assumes inv: "refs_inv n fh dh s" and n: "n + 3 < 2 ^ 30" and hold: "p \<in> set (fh e)"
    and r: "ms_releaseFile env p e s fs = Some (res, s', fs')"
  shows "refs_inv (n + 2) (fh(e := remove1 p (fh e))) dh s' \<and> res"
proof -
  note d = refs_invD [OF inv]
  obtain w m where w: "releaseFileInode e (fileStore s) = (w, m)" by fastforce
  show ?thesis
  proof (cases "fmlookup (fileStore s) e")
    case (Some x)
    then have g: "w" "given_back (fileStore s) e m" using release_file_given [OF d(1) w] by simp_all
    then have "s' = s\<lparr>fileStore := m\<rparr>" "res" using r w by (simp_all add: ms_releaseFile_def)
    then show ?thesis using release_global [OF inv hold g(2)] Some by simp
  next
    case None
    then have w: "releaseFileInode e (fileStore s) = (False, fileStore s)"
      using w by (simp add: releaseFileInode_def)
    obtain gd s1 fs1 where rd0: "ms_referenceDir env p False s fs = Some (gd, s1, fs1)"
      using r w by (auto simp: ms_releaseFile_def bind_eq_Some_conv)
    have rd: "ms_referenceDir env p False s fs = Some (True, s1, fs1)"
      using rd0 refdir_got [OF inv rd0] by simp
    note l = release_local [OF inv n hold None rd]
    obtain w1 m1 where w1: "releaseFileInode e (updateObject e decParentRef (filesIn s1 p)) = (w1, m1)"
      by fastforce
    have "s' = ms_releaseDir env p (ms_releaseDir env p (putFiles p m1 s1))" "res = w1"
      using r w rd l(1,2) w1 by (auto simp: ms_releaseFile_def bind_eq_Some_conv)
    with l(5) [of m1] release_file_given [OF l(3) w1 l(4)] show ?thesis by simp
  qed
qed

lemma closeFile_inv:
  assumes inv: "refs_inv n fh dh s" and n: "n + 3 < 2 ^ 30"
    and hold: "infoParentEntryID info \<in> set (fh (infoEntryID info))"
    and r: "ms_closeFile env info flags s fs = Some (links, refs, s', fs')"
  shows "refs_inv (n + 2) (fh(infoEntryID info := remove1 (infoParentEntryID info) (fh (infoEntryID info)))) dh s' \<and>
    map_option unat refs = Some (length (fh (infoEntryID info)) - 1)"
proof -
  let ?e = "infoEntryID info" and ?p = "infoParentEntryID info"
  note d = refs_invD [OF inv]
  obtain w k rr m fs1 where w: "ifs_closeFile (metaCfg env) (envNow env) info ?e flags (fileStore s) fs =
      Some (w, k, rr, m, fs1)"
    using r by (auto simp: ms_closeFile_def Let_def bind_eq_Some_conv)
  show ?thesis
  proof (cases "fmlookup (fileStore s) ?e")
    case (Some x)
    then have g: "w" "given_back (fileStore s) ?e m" "map_option unat rr = Some (refsIn (fileStore s) ?e - 1)"
      using close_given [OF d(1) w] by simp_all
    then have "s' = s\<lparr>fileStore := m\<rparr>" "refs = rr" using r w by (simp_all add: ms_closeFile_def)
    moreover have "refsIn (fileStore s) ?e = length (fh ?e)" using d(5) [of ?e] Some by (simp add: held_def)
    ultimately show ?thesis using release_global [OF inv hold g(2)] Some g(3) by simp
  next
    case None
    then have w: "ifs_closeFile (metaCfg env) (envNow env) info ?e flags (fileStore s) fs =
        Some (False, 1, None, fileStore s, fs)"
      by (simp add: ifs_closeFile_def)
    obtain gd s1 fs2 where rd0: "ms_referenceDir env ?p False s fs = Some (gd, s1, fs2)"
      using r w by (auto simp: ms_closeFile_def Let_def bind_eq_Some_conv)
    have rd: "ms_referenceDir env ?p False s fs = Some (True, s1, fs2)"
      using rd0 refdir_got [OF inv rd0] by simp
    note l = release_local [OF inv n hold None rd]
    obtain w1 k1 r1 m1 fs3 where w1: "ifs_closeFile (metaCfg env) (envNow env) info ?e flags
        (updateObject ?e decParentRef (filesIn s1 ?p)) fs2 = Some (w1, k1, r1, m1, fs3)"
      using r w rd l(1,2) by (auto simp: ms_closeFile_def Let_def bind_eq_Some_conv)
    have "s' = ms_releaseDir env ?p (ms_releaseDir env ?p (putFiles ?p m1 s1))" "refs = r1"
      using r w rd l(1,2) w1 by (auto simp: ms_closeFile_def Let_def bind_eq_Some_conv)
    moreover have "refsIn (filesIn s1 ?p) ?e = length (fh ?e)"
    proof -
      have "filesIn s1 = filesIn s" using refdir_inv [OF inv _ rd] n by simp
      then have "refsIn (filesIn s1 ?p) ?e = count_list (fh ?e) ?p" "\<forall>a \<in> set (fh ?e). a = ?p"
        using d(5) [of ?e] None hold by (auto simp: held_def)
      moreover from this(2) have "set (fh ?e) \<subseteq> {?p}" by blast
      ultimately show ?thesis using count_all by metis
    qed
    ultimately show ?thesis using l(5) [of m1] close_given [OF l(3) w1 l(4)] by simp
  qed
qed

text \<open>Moving a file to the global store changes nothing for those who hold it.\<close>

lemma many_released:
  assumes "refs_inv n fh (dh(p := dh p + k)) s"
  shows "refs_inv n fh dh ((ms_releaseDir env p ^^ k) s) \<and>
    filesIn ((ms_releaseDir env p ^^ k) s) = filesIn s \<and> fileStore ((ms_releaseDir env p ^^ k) s) = fileStore s"
  using assms
proof (induction k arbitrary: s)
  case (Suc k)
  have eq: "(dh(p := dh p + Suc k))(p := (dh(p := dh p + Suc k)) p - 1) = dh(p := dh p + k)" by simp
  have step: "refs_inv n fh (dh(p := dh p + k)) (ms_releaseDir env p s)"
    "filesIn (ms_releaseDir env p s) = filesIn s" "fileStore (ms_releaseDir env p s) = fileStore s"
    using reldir_inv [OF Suc.prems, of p env, unfolded eq] by simp_all
  from Suc.IH [OF step(1)] step(2,3) show ?case by (simp add: funpow_swap1)
qed simp

lemma decParentRefs [simp]: "fiExclusiveTID ((decParentRef ^^ k) f) = fiExclusiveTID f"
  by (induction k) simp_all

lemma global_insert:
  assumes inv: "refs_inv n (fh(e := [])) dh s" and e: "fmlookup (fileStore s) e = None"
    and r: "unat (refCount r) = length l" "0 < length l" "length l < 2 ^ 31" "fiExclusiveTID (refObject r) = 0"
    and n: "length l \<le> n"
  shows "refs_inv n (fh(e := l)) dh (s\<lparr>fileStore := fmupd e r (fileStore s)\<rparr>)"
proof -
  let ?s = "s\<lparr>fileStore := fmupd e r (fileStore s)\<rparr>"
  note d = refs_invD [OF inv]
  have ok: "store_ok (fmupd e r (fileStore s))" using store_ok_upd(1) [OF d(1)] r by simp
  have "refsIn (filesIn s p) e = 0" for p using d(5) [of e] e by (simp add: held_def)
  then have none: "fmlookup (filesIn s p) e = None" for p using refsIn_pos [OF d(2) [of p], of e] by simp
  have "held ?s (fh(e := l)) x" for x
    using d(5) [of x] none r(1) by (cases "x = e") (simp_all add: held_def)
  moreover have "length ((fh(e := l)) x) \<le> n" for x using d(7) [of x] n by (cases "x = e") auto
  ultimately show ?thesis using d ok by (simp add: refs_inv_def)
qed

lemma move_inv:
  assumes inv: "refs_inv n fh dh s" and n: "n + 3 < 2 ^ 30"
    and e: "fmlookup (fileStore s) e = None"
    and mv: "moveReferenceToMetaFileStore env p e s fs = Some (res, s', fs')"
  shows "refs_inv (n + 2) fh dh s' \<and> res \<and> (p \<in> set (fh e) \<longrightarrow> fmlookup (fileStore s') e \<noteq> None)"
proof -
  let ?dh = "dh(p := Suc (dh p))"
  obtain gd s1 fs1 where rd0: "ms_referenceDir env p False s fs = Some (gd, s1, fs1)"
    using mv by (auto simp: moveReferenceToMetaFileStore_def bind_eq_Some_conv)
  have rd: "ms_referenceDir env p False s fs = Some (True, s1, fs1)"
    using rd0 refdir_got [OF inv rd0] by simp
  have i1: "refs_inv (Suc n) fh ?dh s1" and f1: "filesIn s1 = filesIn s" "fileStore s1 = fileStore s"
    using refdir_inv [OF inv _ rd] n by simp_all
  obtain x where x: "fmlookup (storeDirs (dirStore s1)) p = Some x" using dir_there [OF i1, of p] by auto
  note fo = filesOf_there [OF x] and d = refs_invD [OF i1]
  have h: "refsIn (filesIn s1 p) e = count_list (fh e) p" "\<forall>a \<in> set (fh e). \<forall>b \<in> set (fh e). a = b"
    using d(5) [of e] e f1 by (simp_all add: held_def)
  show ?thesis
  proof (cases "fmlookup (filesIn s1 p) e")
    case None
    have s': "s' = ms_releaseDir env p s1" "res"
      using mv rd fo None by (auto simp: moveReferenceToMetaFileStore_def getReferencerAndDeleteFromMap_def)
    have "refs_inv (Suc n) fh dh s'" using reldir_inv [OF i1, of p env] s' by simp
    moreover have "p \<notin> set (fh e)" using h(1) None count_pos [of p "fh e"] by (auto simp: refsIn_def)
    ultimately show ?thesis using refs_inv_mono [of "Suc n" _ _ _ "n + 2"] s'(2) by simp
  next
    case (Some r)
    let ?m = "fmdrop e (filesIn s1 p)" and ?k = "nat (sint (fiNumParentRefs (refObject r)))"
    let ?s2 = "putFiles p ?m s1"
    have r: "unat (refCount r) = refsIn (filesIn s1 p) e" "0 < refsIn (filesIn s1 p) e"
      "fiExclusiveTID (refObject r) = 0"
      using store_okD [OF d(2) Some] by simp_all
    have small: "refsIn (filesIn s1 p) e < 2 ^ 30" using refs_bound(1) [OF i1, of p e] n by simp
    have fh: "set (fh e) \<subseteq> {p}" "p \<in> set (fh e)" "length (fh e) = refsIn (filesIn s1 p) e"
    proof -
      show p: "p \<in> set (fh e)" using h(1) r(2) count_notin [of p "fh e"] by fastforce
      show "set (fh e) \<subseteq> {p}" using h(2) p by blast
      then show "length (fh e) = refsIn (filesIn s1 p) e" using h(1) count_all by metis
    qed
    have u: "unat (fiNumParentRefs (refObject r)) = refsIn (filesIn s1 p) e"
      using d(4) [of p e] Some by (simp add: parentRefs_def)
    have k: "?k = refsIn (filesIn s1 p) e"
    proof -
      have i: "uint (fiNumParentRefs (refObject r)) = int (refsIn (filesIn s1 p) e)"
        using u by (metis uint_nat)
      have "int (refsIn (filesIn s1 p) e) < 2 ^ 63" using small by simp
      then have "signed_take_bit 63 (int (refsIn (filesIn s1 p) e)) = int (refsIn (filesIn s1 p) e)"
        by (intro signed_take_bit_int_eq_self) simp_all
      then have "sint (fiNumParentRefs (refObject r)) = int (refsIn (filesIn s1 p) e)"
        using i by (simp add: sint_uint)
      then show ?thesis by simp
    qed
    have "totalRefs ?m + refsIn (filesIn s1 p) e = totalRefs (filesIn s1 p) + 0"
      by (rule total_change) simp
    then have bal: "(?dh p + ?k) + totalRefs ?m = ?dh p + totalRefs (filesIn s1 p)" using k by simp
    have ok: "store_ok ?m" using store_ok_upd(2) [OF d(2)] .
    have g1: "fmlookup (fileStore s1) e = None" using e f1(2) by simp
    have "held ?s2 (fh(e := [])) y" for y
      by (rule held_local [OF i1 g1 x ok _ _ fh(1)]) simp_all
    moreover have "\<forall>a. unat (parentRefs ?m a) = refsIn ?m a" using d(4) by simp
    moreover have "\<forall>y. length ((fh(e := [])) y) \<le> Suc n" using d(7) by simp
    ultimately have i2: "refs_inv (Suc n) (fh(e := [])) (?dh(p := ?dh p + ?k)) ?s2"
      and f2: "fileStore ?s2 = fileStore s1"
      using put_inv [OF i1 x ok _ bal, of "fh(e := [])"] by blast+
    define s3 where "s3 = (ms_releaseDir env p ^^ ?k) ?s2"
    have i3: "refs_inv (Suc n) (fh(e := [])) ?dh s3" and f3: "fileStore s3 = fileStore s1"
      using many_released [OF i2, of env] f2 unfolding s3_def by argo+
    define r1 where "r1 = ref_release ((ref_reference r)\<lparr>refObject := (decParentRef ^^ ?k) (refObject r)\<rparr>)"
    have r1: "refCount r1 = refCount r" "fiExclusiveTID (refObject r1) = 0"
      using r(3) by (simp_all add: r1_def ref_release_def ref_reference_def)
    have i4: "refs_inv (Suc n) (fh(e := fh e)) ?dh (s3\<lparr>fileStore := fmupd e r1 (fileStore s3)\<rparr>)"
      by (rule global_insert [OF i3 _ _ _ _ _ d(7)]) (use e f1 f3 r r1 fh small in simp_all)
    have s': "s' = ms_releaseDir env p (s3\<lparr>fileStore := fmupd e r1 (fileStore s3)\<rparr>)" "res"
      using mv rd fo Some e f1 f2
      by (simp_all add: moveReferenceToMetaFileStore_def getReferencerAndDeleteFromMap_def
          insertReferencer_def Let_def s3_def r1_def)
    from reldir_inv [OF i4, of p env] have "refs_inv (Suc n) fh dh s'"
      "fileStore s' = fmupd e r1 (fileStore s3)"
      using s' by simp_all
    then show ?thesis using refs_inv_mono [of "Suc n" _ _ _ "n + 2"] s'(2) by simp
  qed
qed

lemma sweep_inv:
  assumes inv: "refs_inv n fh dh s" and w: "ms_cacheSweepAsync env s = Some (swept, s')"
  shows "refs_inv n fh dh s'"
proof -
  obtain ds where "cacheSweep env False (dirStore s) = Some (swept, ds)" "s' = s\<lparr>dirStore := ds\<rparr>"
    using w by (auto simp: ms_cacheSweepAsync_def bind_eq_Some_conv)
  with sweep_dir_ok [OF refs_invD(3) [OF inv]] show ?thesis
    using frame_inv [OF inv, of s' dh n] refs_invD(6) [OF inv] by simp
qed

lemma referenceLoaded_inv:
  assumes inv: "refs_inv n fh dh s" and n: "n + 3 < 2 ^ 30" and adm: "admissible fh s p e"
    and r: "ms_referenceLoadedFile env p e s fs = Some (got, s', fs')"
  shows "refs_inv (n + 2) (if got then fh(e := p # fh e) else fh) dh s'"
proof -
  note d = refs_invD [OF inv]
  obtain g m where g: "referenceLoadedFile (envTID env) e (fileStore s) = (g, m)" by fastforce
  have b: "refsIn (fileStore s) e < 2 ^ 30" using refs_bound(2) [OF inv, of e] n by simp
  note gs = loaded_reference [OF g d(1) b]
  show ?thesis
  proof (cases g)
    case True
    then have "got" "s' = s\<lparr>fileStore := m\<rparr>" using r g by (simp_all add: ms_referenceLoadedFile_def)
    then show ?thesis using acquire_global [OF inv, of e True m p] gs True by (simp add: acquired_def)
  next
    case False
    have none: "fmlookup (fileStore s) e = None" using gs False by simp
    then have adm1: "set (fh e) \<subseteq> {p}" using adm by (simp add: admissible_def)
    obtain gd s1 fs1 where rd0: "ms_referenceDir env p False s fs = Some (gd, s1, fs1)"
      using r g False by (auto simp: ms_referenceLoadedFile_def bind_eq_Some_conv)
    have rd: "ms_referenceDir env p False s fs = Some (True, s1, fs1)"
      using rd0 refdir_got [OF inv rd0] by simp
    have i1: "refs_inv (Suc n) fh (dh(p := Suc (dh p))) s1" using refdir_inv [OF inv _ rd] n by simp
    obtain x where x: "fmlookup (storeDirs (dirStore s1)) p = Some x" using dir_there [OF i1, of p] by auto
    note fo = filesOf_there [OF x]
    obtain g1 m1 where g1: "referenceLoadedFile (envTID env) e (filesIn s1 p) = (g1, m1)" by fastforce
    have b1: "refsIn (filesIn s1 p) e < 2 ^ 30" using refs_bound(1) [OF i1, of p e] n by simp
    have a: "acquired (filesIn s1 p) e g1 m1"
      using loaded_reference [OF g1 refs_invD(2) [OF i1] b1] by (auto simp: acquired_def split: if_splits)
    then have same: "\<not> g1 \<Longrightarrow> putFiles p m1 s1 = s1" using putFiles_same [OF x] by (simp add: acquired_def)
    have out: "got = g1" "s' = (if g1 then putFiles p (updateObject e (incParentRef p) m1) s1
        else ms_releaseDir env p (putFiles p m1 s1))"
      using r g False rd fo g1 same by (cases g1; simp add: ms_referenceLoadedFile_def)+
    from acquire_local [OF inv n none adm1 rd a] show ?thesis using out by simp
  qed
qed

text \<open>Reading and setting attributes counts nothing.\<close>

definition untouched :: "InodeMap \<Rightarrow> InodeMap \<Rightarrow> bool" where
  "untouched m m' \<longleftrightarrow> store_ok m' \<and> refsIn m' = refsIn m \<and> parentRefs m' = parentRefs m"

lemma untouched_upd:
  assumes "store_ok m" "fmlookup m e = Some r" "refs_kept (refObject r) f"
  shows "untouched m (fmupd e (r\<lparr>refObject := f\<rparr>) m)"
proof -
  have r: "unat (refCount r) = refsIn m e" "fiNumParentRefs f = parentRefs m e"
    using assms(2,3) by (simp_all add: refsIn_def parentRefs_def refs_kept_def)
  moreover have "store_ok (fmupd e (r\<lparr>refObject := f\<rparr>) m)"
    using store_okD [OF assms(1,2)] assms(3) store_ok_upd(1) [OF assms(1), of "r\<lparr>refObject := f\<rparr>" e]
    by (simp add: refs_kept_def)
  ultimately show ?thesis by (simp add: untouched_def)
qed

lemma untouched_refl: "store_ok m \<Longrightarrow> untouched m m"
  by (simp add: untouched_def)

lemma stat_untouched:
  assumes "store_ok m" "ifs_stat cfg now info load m fs = Some (res, st, m', fs')"
  shows "untouched m m'"
proof (cases "fmlookup m (infoEntryID info)")
  case None
  then show ?thesis using assms untouched_refl by (auto simp: ifs_stat_def split: if_splits)
next
  case (Some r)
  then obtain f where "fi_getStatData now (refObject r) = Some (res, the st, f)"
    "m' = fmupd (infoEntryID info) (r\<lparr>refObject := f\<rparr>) m"
    using assms(2) by (auto simp: ifs_stat_def)
  moreover from this(1) have "refs_kept (refObject r) f"
    by (auto simp: fi_getStatData_def dest: refs_kept_dyn)
  ultimately show ?thesis using untouched_upd [OF assms(1) Some] by simp
qed

lemma setAttr_untouched:
  assumes "store_ok m" "ifs_setAttr cfg now tid info valid attribs m fs = Some (res, m', fs')"
  shows "untouched m m'"
proof (cases "fmlookup m (infoEntryID info)")
  case None
  then show ?thesis
    using assms untouched_refl by (auto simp: ifs_setAttr_def Let_def split: option.splits prod.splits)
next
  case (Some r)
  show ?thesis
  proof (cases "lockedByOther tid (refObject r)")
    case True
    then show ?thesis using assms untouched_refl Some by (simp add: ifs_setAttr_def)
  next
    case False
    then obtain w f fs1 where "setAttrData cfg now info valid attribs (refObject r) fs = Some (w, f, fs1)"
      "m' = fmupd (infoEntryID info) (r\<lparr>refObject := f\<rparr>) m"
      using assms(2) Some by (auto simp: ifs_setAttr_def)
    then show ?thesis using untouched_upd [OF assms(1) Some] refs_kept_setAttr by blast
  qed
qed

lemma untouched_global:
  assumes inv: "refs_inv n fh dh s" and u: "untouched (fileStore s) m"
  shows "refs_inv n fh dh (s\<lparr>fileStore := m\<rparr>)"
proof -
  note d = refs_invD [OF inv]
  have "fmlookup m x = None \<longleftrightarrow> fmlookup (fileStore s) x = None" for x
    using store_ok_dom [OF d(1), of m x] u by (simp add: untouched_def)
  then have "held (s\<lparr>fileStore := m\<rparr>) fh x" for x
    using d(5) [of x] u by (simp add: held_def untouched_def)
  then show ?thesis using d u by (simp add: refs_inv_def untouched_def)
qed

lemma untouched_local:
  assumes inv: "refs_inv n fh dh s" and r: "fmlookup (storeDirs (dirStore s)) p = Some r"
    and u: "untouched (filesIn s p) m"
  shows "refs_inv n fh dh (putFiles p m s)"
proof -
  note d = refs_invD [OF inv]
  have ok: "store_ok m" "\<forall>e. unat (parentRefs m e) = refsIn m e" using u d(4) by (simp_all add: untouched_def)
  have "totalRefs m + refsIn (filesIn s p) e = totalRefs (filesIn s p) + refsIn (filesIn s p) e" for e
    by (rule total_change) (use u in \<open>simp add: untouched_def\<close>)
  then have bal: "dh p + totalRefs m = dh p + totalRefs (filesIn s p)" by simp
  have f: "filesIn (putFiles p m s) = (filesIn s)(p := m)" "fileStore (putFiles p m s) = fileStore s"
    using r by (simp_all add: putFiles_def)
  have "fmlookup m x = None \<longleftrightarrow> fmlookup (filesIn s p) x = None" for x
    using store_ok_dom [OF d(2) [of p], of m x] u by (simp add: untouched_def)
  then have "held (putFiles p m s) fh x" for x
    using d(5) [of x] u f by (simp add: held_def untouched_def)
  then show ?thesis using put_inv [OF inv r ok bal, of fh] d(7) by simp
qed

text \<open>The object of a directory.\<close>

lemma object_inv:
  assumes inv: "refs_inv n fh dh s" and r: "fmlookup (storeDirs (dirStore s)) p = Some r"
    and o: "dnExclusive d = dnExclusive (dirObject r)"
  shows "refs_inv n fh dh (s\<lparr>dirStore := putDir p (r\<lparr>dirObject := d\<rparr>) (dirStore s)\<rparr>)"
proof -
  let ?s = "s\<lparr>dirStore := putDir p (r\<lparr>dirObject := d\<rparr>) (dirStore s)\<rparr>"
  let ?t = "\<lambda>p. dh p + totalRefs (filesIn s p) + cached (dirStore s) p"
  have c: "counts (dirStore s) ?t" using refs_invD(3) [OF inv] by (simp add: dir_ok_def)
  have f: "filesIn ?s = filesIn s" using r by (auto simp: filesAt_def fun_eq_iff)
  have "counts (dirStore ?s) (?t(p := ?t p))"
    using counts_put [OF c, of "r\<lparr>dirObject := d\<rparr>"] countsD(1) [OF c r] o by simp
  then have "dir_ok (dirStore ?s) (\<lambda>p. dh p + totalRefs (filesIn s p))"
    using refs_invD(3) [OF inv] f
    by (auto simp: dir_ok_def cached_def elim!: counts_cong)
  then show ?thesis using frame_inv [OF inv, of ?s dh n] f refs_invD(6) [OF inv] by simp
qed

lemma store_exclusive:
  "dn_storeUpdated cfg d fs = Some (w, d', fs') \<Longrightarrow> dnExclusive d' = dnExclusive d"
  by (auto simp: dn_storeUpdated_def split: if_splits option.splits prod.splits)

lemma setAttrDir_exclusive:
  assumes "dn_setAttrData cfg now valid attribs d fs = Some (w, d', fs')"
  shows "dnExclusive d' = dnExclusive d"
proof -
  obtain l d1 fs1 where l: "dn_loadIfNotLoaded cfg d fs = Some (l, d1, fs1)"
    using assms by (auto simp: dn_setAttrData_def split: option.splits)
  show ?thesis
  proof (cases l)
    case False
    then show ?thesis using assms l load_keeps [OF l] by (simp add: dn_setAttrData_def)
  next
    case True
    then obtain k d2 fs2 where "dn_storeUpdated cfg (dn_update (applyDirAttribs now valid attribs) d1) fs1 =
        Some (k, d2, fs2)"
      using assms l by (auto simp: dn_setAttrData_def)
    then show ?thesis
      using assms l True load_keeps [OF l] store_exclusive [of cfg _ fs1 k d2 fs2]
      by (auto simp: dn_setAttrData_def dn_update_def split: if_splits)
  qed
qed

lemma stat_inv:
  assumes inv: "refs_inv n fh dh s" and n: "n + 3 < 2 ^ 30"
    and r: "ms_stat env info load s fs = Some (res, st, s', fs')"
  shows "refs_inv (n + 2) fh dh s'"
proof -
  let ?e = "infoEntryID info" and ?p = "infoParentEntryID info"
  note d = refs_invD [OF inv] and up = refs_inv_mono [of n fh dh _ "n + 2"]
  show ?thesis
  proof (cases "infoEntryType info = ucast DirEntryType_DIRECTORY")
    case True
    obtain ds where i: "ids_stat env ?e (dirStore s) fs = Some (res, st, ds, fs')"
      and s': "s' = s\<lparr>dirStore := ds\<rparr>"
      using r True by (auto simp: ms_stat_def bind_eq_Some_conv)
    show ?thesis
    proof (cases "fmlookup (storeDirs (dirStore s)) ?e")
      case None
      then have "ds = dirStore s" using i by (auto simp: ids_stat_def bind_eq_Some_conv)
      then show ?thesis using up [OF inv] s' by simp
    next
      case (Some x)
      obtain l d1 fs1 where l: "dn_loadIfNotLoaded (metaCfg env) (dirObject x) fs = Some (l, d1, fs1)"
        using i Some by (auto simp: ids_stat_def bind_eq_Some_conv)
      obtain s2 d2 where g: "dn_getStatData d1 = (s2, d2)" by fastforce
      have k: "dnExclusive d1 = dnExclusive (dirObject x)" "dnExclusive d2 = dnExclusive d1"
        using g load_keeps [OF l] by (auto simp: dn_getStatData_def dn_update_def Let_def)
      have "ds = putDir ?e (x\<lparr>dirObject := d1\<rparr>) (dirStore s) \<or>
          ds = putDir ?e (x\<lparr>dirObject := d2\<rparr>) (dirStore s)"
      proof -
        have "ids_stat env ?e (dirStore s) fs =
            Some (if \<not> l then (FhgfsOpsErr_PATHNOTEXISTS, None, putDir ?e (x\<lparr>dirObject := d1\<rparr>) (dirStore s), fs1)
              else if localNodeNumID (metaCfg env) \<noteq> dirOwnerNodeID (dnInode d1)
              then (FhgfsOpsErr_NOTOWNER, None, putDir ?e (x\<lparr>dirObject := d1\<rparr>) (dirStore s), fs1)
              else (FhgfsOpsErr_SUCCESS, Some s2, putDir ?e (x\<lparr>dirObject := d2\<rparr>) (dirStore s), fs1))"
          using Some l g by (simp add: ids_stat_def)
        from trans [OF this [symmetric] i] show ?thesis
          by (simp only: option.inject prod.inject split: if_splits) metis+
      qed
      then obtain d3 where "ds = putDir ?e (x\<lparr>dirObject := d3\<rparr>) (dirStore s)"
        "dnExclusive d3 = dnExclusive (dirObject x)"
        using k by auto
      then show ?thesis using up [OF object_inv [OF inv Some, of d3]] s' by simp
    qed
  next
    case False
    obtain r0 st0 m fs1 where g: "ifs_stat (metaCfg env) (envNow env) info False (fileStore s) fs =
        Some (r0, st0, m, fs1)"
      using r False by (auto simp: ms_stat_def bind_eq_Some_conv)
    show ?thesis
    proof (cases "r0 = FhgfsOpsErr_PATHNOTEXISTS")
      case False
      then have "s' = s\<lparr>fileStore := m\<rparr>"
        using r g \<open>infoEntryType info \<noteq> _\<close> by (auto simp: ms_stat_def)
      then show ?thesis using up [OF untouched_global [OF inv stat_untouched [OF d(1) g]]] by simp
    next
      case True
      obtain gd s1 fs2 where rd0: "ms_referenceDir env ?p False s fs1 = Some (gd, s1, fs2)"
        using r g False True by (auto simp: ms_stat_def Let_def bind_eq_Some_conv)
      have rd: "ms_referenceDir env ?p False s fs1 = Some (True, s1, fs2)"
        using rd0 refdir_got [OF inv rd0] by simp
      have i1: "refs_inv (Suc n) fh (dh(?p := Suc (dh ?p))) s1" using refdir_inv [OF inv _ rd] n by simp
      obtain x where x: "fmlookup (storeDirs (dirStore s1)) ?p = Some x" using dir_there [OF i1, of ?p] by auto
      obtain r1 st1 m1 fs3 where g1: "ifs_stat (metaCfg env) (envNow env) info load (filesIn s1 ?p) fs2 =
          Some (r1, st1, m1, fs3)" and s': "s' = ms_releaseDir env ?p (putFiles ?p m1 s1)"
        using r g False True rd filesOf_there [OF x]
        by (auto simp: ms_stat_def Let_def bind_eq_Some_conv)
      note i2 = untouched_local [OF i1 x stat_untouched [OF refs_invD(2) [OF i1] g1]]
      have "refs_inv (Suc n) fh dh s'" using reldir_inv [OF i2, of ?p env] s' by simp
      then show ?thesis using refs_inv_mono [of "Suc n" _ _ _ "n + 2"] by simp
    qed
  qed
qed

lemma setAttr_inv:
  assumes inv: "refs_inv n fh dh s" and n: "n + 3 < 2 ^ 30"
    and r: "ms_setAttr env info valid attribs s fs = Some (res, s', fs')"
  shows "refs_inv (n + 2) fh dh s'"
proof -
  let ?e = "infoEntryID info" and ?p = "infoParentEntryID info"
  note d = refs_invD [OF inv] and up = refs_inv_mono [of n fh dh _ "n + 2"]
  show ?thesis
  proof (cases "infoEntryType info = ucast DirEntryType_DIRECTORY")
    case True
    obtain ds where i: "ids_setAttr env ?e valid attribs (dirStore s) fs = Some (res, ds, fs')"
      and s': "s' = s\<lparr>dirStore := ds\<rparr>"
      using r True by (auto simp: ms_setAttr_def bind_eq_Some_conv)
    show ?thesis
    proof (cases "fmlookup (storeDirs (dirStore s)) ?e")
      case None
      then have "ds = dirStore s"
        using i by (auto simp: ids_setAttr_def bind_eq_Some_conv split: if_splits)
      then show ?thesis using up [OF inv] s' by simp
    next
      case (Some x)
      then consider "ds = dirStore s"
        | d2 where "ds = putDir ?e (x\<lparr>dirObject := d2\<rparr>) (dirStore s)"
            "dnExclusive d2 = dnExclusive (dirObject x)"
        using i by (auto simp: ids_setAttr_def bind_eq_Some_conv split: if_splits dest: setAttrDir_exclusive)
      then show ?thesis
      proof cases
        case 1
        then show ?thesis using up [OF inv] s' by simp
      next
        case (2 d2)
        then show ?thesis using up [OF object_inv [OF inv Some, of d2]] s' by simp
      qed
    qed
  next
    case False
    show ?thesis
    proof (cases "fmlookup (fileStore s) ?e")
      case (Some x)
      then obtain m where "ifs_setAttr (metaCfg env) (envNow env) (envTID env) info valid attribs
          (fileStore s) fs = Some (res, m, fs')" "s' = s\<lparr>fileStore := m\<rparr>"
        using r False by (auto simp: ms_setAttr_def isInStore_def bind_eq_Some_conv)
      then show ?thesis using up [OF untouched_global [OF inv setAttr_untouched [OF d(1)]]] by simp
    next
      case None
      obtain gd s1 fs1 where rd: "ms_referenceDir env ?p True s fs = Some (gd, s1, fs1)"
        using r False None by (auto simp: ms_setAttr_def isInStore_def Let_def bind_eq_Some_conv)
      have i1: "refs_inv (Suc n) fh (if gd then dh(?p := Suc (dh ?p)) else dh) s1"
        using refdir_inv [OF inv _ rd] n by simp
      show ?thesis
      proof (cases gd)
        case False
        then have "s' = s1" using r rd None \<open>infoEntryType info \<noteq> _\<close>
          by (auto simp: ms_setAttr_def isInStore_def)
        then show ?thesis using refs_inv_mono [OF i1, of "n + 2"] False by simp
      next
        case True
        have i1: "refs_inv (Suc n) fh (dh(?p := Suc (dh ?p))) s1" using i1 True by simp
        obtain x where x: "fmlookup (storeDirs (dirStore s1)) ?p = Some x"
          using dir_there [OF i1, of ?p] by auto
        obtain m1 fs3 where g1: "ifs_setAttr (metaCfg env) (envNow env) (envTID env) info valid attribs
            (filesIn s1 ?p) fs1 = Some (res, m1, fs3)" and s': "s' = ms_releaseDir env ?p (putFiles ?p m1 s1)"
          using r False None rd True filesOf_there [OF x]
          by (auto simp: ms_setAttr_def isInStore_def Let_def bind_eq_Some_conv)
        note i2 = untouched_local [OF i1 x setAttr_untouched [OF refs_invD(2) [OF i1] g1]]
        have "refs_inv (Suc n) fh dh s'" using reldir_inv [OF i2, of ?p env] s' by simp
        then show ?thesis using refs_inv_mono [of "Suc n" _ _ _ "n + 2"] by simp
      qed
    qed
  qed
qed

end
