(* ===== verification/PosixACL.thy ===== *)
theory PosixACL
  imports Serial InodeData
begin

unbundle bit_operations_syntax

text \<open>
  Access control lists (\<open>PosixACL.h/.cpp\<close> under fhgfs_meta/source/storage): their format as an
  extended attribute, and how the default ACL of a directory turns into the mode and the ACL of a
  new file. Pointers to entries are positions in the list; a failed call leaves an object behind
  that its callers drop.
\<close>

section \<open>The list and its format\<close>

record ACLEntry =
  aclTag :: u16
  aclPerm :: u16
  aclID :: u32

type_synonym PosixACL = "ACLEntry list"

definition POSIX_ACL_XATTR_VERSION :: i32 where "POSIX_ACL_XATTR_VERSION = 2"

definition ACL_USER_OBJ :: u16 where "ACL_USER_OBJ = 1"
definition ACL_USER :: u16 where "ACL_USER = 2"
definition ACL_GROUP_OBJ :: u16 where "ACL_GROUP_OBJ = 4"
definition ACL_GROUP :: u16 where "ACL_GROUP = 8"
definition ACL_MASK :: u16 where "ACL_MASK = 16"
definition ACL_OTHER :: u16 where "ACL_OTHER = 32"

definition serialLenACLEntry :: u32 where
  "serialLenACLEntry = serialLenUShort + serialLenUShort + serialLenInt"

definition serializeACLEntry :: "ACLEntry \<Rightarrow> u8 list" where
  "serializeACLEntry e = serializeUShort (aclTag e) @ serializeUShort (aclPerm e) @ serializeUInt (aclID e)"

definition deserializeACLEntry :: "ACLEntry decoder" where
  "deserializeACLEntry =
     dbind deserializeUShort (\<lambda>tag.
     dbind deserializeUShort (\<lambda>perm.
     dbind deserializeUInt (\<lambda>eid.
     dreturn \<lparr>aclTag = tag, aclPerm = perm, aclID = eid\<rparr>)))"

definition serialLenXAttr :: "PosixACL \<Rightarrow> u32" where
  "serialLenXAttr acl = serialLenInt + word_of_nat (length acl) * serialLenACLEntry"

definition serializeXAttr :: "PosixACL \<Rightarrow> u8 list" where
  "serializeXAttr acl = serializeInt POSIX_ACL_XATTR_VERSION @ concat (map serializeACLEntry acl)"

definition AclListLen_EMPTY :: i32 where "AclListLen_EMPTY = -1"
definition AclListLen_TOOSHORT :: i32 where "AclListLen_TOOSHORT = -2"
definition AclListLen_NOTMULTIPLE :: i32 where "AclListLen_NOTMULTIPLE = -3"

definition aclEntryListLen :: "u32 \<Rightarrow> i32" where
  "aclEntryListLen bufLen =
     (if bufLen < serialLenInt then AclListLen_TOOSHORT
      else let n = bufLen - serialLenInt
        in if n mod serialLenACLEntry \<noteq> 0 then AclListLen_NOTMULTIPLE else n div serialLenACLEntry)"

fun deserializeACLEntries :: "nat \<Rightarrow> PosixACL decoder" where
  "deserializeACLEntries 0 = dreturn []"
| "deserializeACLEntries (Suc n) =
     dbind deserializeACLEntry (\<lambda>e. dbind (deserializeACLEntries n) (\<lambda>es. dreturn (e # es)))"

definition deserializeXAttr :: "u8 list \<Rightarrow> decode_error + PosixACL" where
  "deserializeXAttr xattr =
     (let bufLen = word_of_nat (length xattr) :: u32
      in map_sum id fst
           (dbind deserializeInt (\<lambda>version.
              if version \<noteq> POSIX_ACL_XATTR_VERSION then (\<lambda>_ _. Inl DecodeFail)
              else let listLen = aclEntryListLen bufLen
                in if listLen = AclListLen_EMPTY then dreturn []
                   else if listLen = AclListLen_TOOSHORT \<or> listLen = AclListLen_NOTMULTIPLE
                   then (\<lambda>_ _. Inl DecodeFail)
                   else deserializeACLEntries (nat (sint listLen)))
             xattr (unat bufLen)))"

section \<open>The mode of a new file\<close>

text \<open>The local variables of the loop; the permissions are ints in the expressions of the code.\<close>

record ModeState =
  msEntries :: PosixACL
  msMode :: i32
  msNeedsACL :: bool
  msGroup :: "nat option"
  msMask :: "nat option"

definition setPerm :: "nat \<Rightarrow> i32 \<Rightarrow> ModeState \<Rightarrow> ModeState" where
  "setPerm k v s =
     s\<lparr>msEntries := (msEntries s)[k := (msEntries s ! k)\<lparr>aclPerm := ucast v\<rparr>]\<rparr>"

text \<open>An entry and the bits of the mode at a shift limit each other.\<close>

definition limitEach :: "nat \<Rightarrow> i32 \<Rightarrow> nat \<Rightarrow> ModeState \<Rightarrow> ModeState" where
  "limitEach shift classBits k s =
     (let perm = ucast (aclPerm (msEntries s ! k)) AND (signed_drop_bit shift (msMode s) OR NOT 7);
          s1 = setPerm k perm s
      in s1\<lparr>msMode := msMode s1 AND (push_bit shift (ucast (aclPerm (msEntries s1 ! k))) OR NOT classBits)\<rparr>)"

definition modeStep :: "nat \<Rightarrow> ModeState \<Rightarrow> bool \<times> ModeState" where
  "modeStep k s =
     (let tag = aclTag (msEntries s ! k)
      in if tag = ACL_USER_OBJ then (True, limitEach 6 448 k s)
         else if tag = ACL_USER \<or> tag = ACL_GROUP then (True, s\<lparr>msNeedsACL := True\<rparr>)
         else if tag = ACL_GROUP_OBJ then (True, s\<lparr>msGroup := Some k\<rparr>)
         else if tag = ACL_OTHER then (True, limitEach 0 7 k s)
         else if tag = ACL_MASK then (True, s\<lparr>msMask := Some k\<rparr>)
         else (False, s))"

fun modeLoop :: "nat \<Rightarrow> nat \<Rightarrow> ModeState \<Rightarrow> bool \<times> ModeState" where
  "modeLoop k 0 s = (True, s)"
| "modeLoop k (Suc n) s =
     (case modeStep k s of
        (False, s1) \<Rightarrow> (False, s1)
      | (True, s1) \<Rightarrow> modeLoop (Suc k) n s1)"

definition modifyModeBits :: "i32 \<Rightarrow> PosixACL \<Rightarrow> FhgfsOpsErr \<times> bool \<times> i32 \<times> PosixACL" where
  "modifyModeBits fileMode acl =
     (case modeLoop 0 (length acl)
          \<lparr>msEntries = acl, msMode = fileMode, msNeedsACL = False, msGroup = None, msMask = None\<rparr> of
        (False, s) \<Rightarrow> (FhgfsOpsErr_INTERNAL, msNeedsACL s, fileMode, msEntries s)
      | (True, s) \<Rightarrow>
          (case (case msMask s of Some k \<Rightarrow> Some k | None \<Rightarrow> msGroup s) of
             None \<Rightarrow> (FhgfsOpsErr_INTERNAL, msNeedsACL s, fileMode, msEntries s)
           | Some k \<Rightarrow>
               (let s1 = limitEach 3 56 k s
                in (FhgfsOpsErr_SUCCESS, msNeedsACL s1, (fileMode AND NOT 511) OR msMode s1, msEntries s1))))"

section \<open>The format is read back\<close>

interpretation acl_entry: codec serializeACLEntry deserializeACLEntry "\<lambda>_. serialLenACLEntry" "\<lambda>_. True"
proof (rule codecI)
  fix e
  show "reads deserializeACLEntry e (serializeACLEntry e) (unat serialLenACLEntry)"
    unfolding serializeACLEntry_def deserializeACLEntry_def
    by (rule reads_len, (rule reads_bind reads_last ushort.reads uint.reads TrueI)+)
      (simp_all add: serialLenACLEntry_def serialLenUShort_def serialLenUInt16_def serialLenInt_def
        serialLenUInt_def)
qed

lemma entries_read:
  "reads (deserializeACLEntries (length acl)) acl (concat (map serializeACLEntry acl)) (8 * length acl)"
proof (induction acl)
  case Nil
  show ?case using reads_return by simp
next
  case (Cons e acl)
  have e: "reads deserializeACLEntry e (serializeACLEntry e) 8"
    using acl_entry.reads [OF TrueI, of e]
    by (simp add: serialLenACLEntry_def serialLenUShort_def serialLenUInt16_def serialLenInt_def
        serialLenUInt_def)
  show ?case
    by simp (rule reads_len [OF reads_bind [OF e reads_last [OF Cons.IH]]], simp_all)
qed

lemma acl_round_trip:
  assumes "length acl < 2 ^ 28"
  shows "deserializeXAttr (serializeXAttr acl) = Inr acl"
proof -
  let ?n = "length acl"
  define len where "len = (word_of_nat (4 + 8 * length acl) :: u32)"
  have l: "length (serializeXAttr acl) = 4 + 8 * ?n"
    using entries_read [of acl] by (simp add: serializeXAttr_def reads_def int.ser_len serialLenInt_def serialLenUInt_def)
  have u: "unat len = 4 + 8 * ?n" using assms by (simp add: len_def unat_word_ariths unat_of_nat)
  have "\<not> len < 4" using u by (simp add: word_less_nat_alt)
  moreover have k: "unat (len - 4) = 8 * ?n" using u by (simp add: unat_sub word_le_nat_alt)
  moreover have "(len - 4) mod 8 = 0" using k by (simp add: word_arith_nat_mod)
  moreover have d: "unat ((len - 4) div 8) = ?n" using k by (simp add: unat_div)
  ultimately have list: "aclEntryListLen len = (len - 4) div 8"
    by (simp add: aclEntryListLen_def serialLenInt_def serialLenUInt_def serialLenACLEntry_def
        serialLenUShort_def serialLenUInt16_def Let_def)
  have s: "sint ((len - 4) div 8) = int ?n"
    using d assms by (simp add: sint_uint uint_nat signed_take_bit_int_eq_self)
  then have ne: "(len - 4) div 8 \<noteq> -1" "(len - 4) div 8 \<noteq> -2" "(len - 4) div 8 \<noteq> -3" by auto
  have r: "deserializeACLEntries ?n (concat (map serializeACLEntry acl)) (8 * ?n) = Inr (acl, 8 * ?n)"
    using entries_read [of acl] by (auto simp: reads_def dest: spec [of _ "[]"])
  show ?thesis
    using r u s ne unfolding deserializeXAttr_def l len_def [symmetric]
    by (simp add: serializeXAttr_def int.then_read list serialLenInt_def serialLenUInt_def AclListLen_EMPTY_def
        AclListLen_TOOSHORT_def AclListLen_NOTMULTIPLE_def)
qed

section \<open>What the mode becomes\<close>

definition acl_perms :: "u16 \<Rightarrow> PosixACL \<Rightarrow> u16 list" where
  "acl_perms t acl = map aclPerm (filter (\<lambda>e. aclTag e = t) acl)"

definition acl_valid :: "PosixACL \<Rightarrow> bool" where
  "acl_valid acl \<longleftrightarrow>
     (\<forall>e \<in> set acl. aclTag e \<in> {ACL_USER_OBJ, ACL_USER, ACL_GROUP_OBJ, ACL_GROUP, ACL_MASK, ACL_OTHER}) \<and>
     length (acl_perms ACL_USER_OBJ acl) = 1 \<and> length (acl_perms ACL_GROUP_OBJ acl) = 1 \<and>
     length (acl_perms ACL_OTHER acl) = 1 \<and> length (acl_perms ACL_MASK acl) \<le> 1"

lemmas acl_tags = ACL_USER_OBJ_def ACL_USER_def ACL_GROUP_OBJ_def ACL_GROUP_def ACL_MASK_def ACL_OTHER_def

definition limited :: "nat \<Rightarrow> i32 \<Rightarrow> u16 \<Rightarrow> u16" where
  "limited shift m perm = ucast (ucast perm AND (signed_drop_bit shift m OR NOT 7))"

text \<open>The bits of a class in the mode are limited by the entry as it was.\<close>

lemma class_mask: "(448 :: i32) = push_bit 6 (mask 3)" "(56 :: i32) = push_bit 3 (mask 3)" "(7 :: i32) = mask 3"
  by (simp_all add: mask_eq_exp_minus_1)

lemma limited_mode:
  fixes m :: i32
  assumes "shift \<le> 6"
  shows "m AND (push_bit shift (ucast (limited shift m p)) OR NOT (push_bit shift (mask 3))) =
    m AND (push_bit shift (ucast p) OR NOT (push_bit shift (mask 3)))"
  unfolding limited_def class_mask(3)
  by (rule bit_word_eqI) (use assms in \<open>auto simp: bit_simps\<close>)

lemma limited_elsewhere:
  fixes m :: i32
  assumes "shift \<le> 6" "k \<le> 6" "shift + 3 \<le> k \<or> k + 3 \<le> shift"
  shows "limited shift (m AND (push_bit k x OR NOT (push_bit k (mask 3)))) p = limited shift m p"
  unfolding limited_def class_mask(3)
  by (rule bit_word_eqI) (use assms in \<open>auto simp: bit_simps\<close>)

definition entry_bits :: "ACLEntry \<Rightarrow> i32" where
  "entry_bits e =
     (if aclTag e = ACL_USER_OBJ then push_bit 6 (ucast (aclPerm e)) OR NOT 448
      else if aclTag e = ACL_OTHER then ucast (aclPerm e) OR NOT 7 else NOT 0)"

definition limitedBy :: "i32 \<Rightarrow> ACLEntry \<Rightarrow> ACLEntry" where
  "limitedBy m e =
     (if aclTag e = ACL_USER_OBJ then e\<lparr>aclPerm := limited 6 m (aclPerm e)\<rparr>
      else if aclTag e = ACL_OTHER then e\<lparr>aclPerm := limited 0 m (aclPerm e)\<rparr> else e)"

fun allowed :: "PosixACL \<Rightarrow> i32" where
  "allowed [] = NOT 0"
| "allowed (e # es) = entry_bits e AND allowed es"

fun lastPos :: "u16 \<Rightarrow> nat \<Rightarrow> PosixACL \<Rightarrow> nat option \<Rightarrow> nat option" where
  "lastPos t k [] old = old"
| "lastPos t k (e # es) old = lastPos t (Suc k) es (if aclTag e = t then Some k else old)"

lemma limitEach_at:
  assumes "msEntries s = pre @ e # suf" "k \<le> 6"
  shows "limitEach k (push_bit k (mask 3)) (length pre) s =
    s\<lparr>msEntries := pre @ e\<lparr>aclPerm := limited k (msMode s) (aclPerm e)\<rparr> # suf,
      msMode := msMode s AND (push_bit k (ucast (aclPerm e)) OR NOT (push_bit k (mask 3)))\<rparr>"
  using limited_mode [OF assms(2), of "msMode s" "aclPerm e"] assms(1)
  by (simp add: limitEach_def setPerm_def limited_def Let_def)

lemma limitEach_tags [simp]: "aclTag (limitedBy m e) = aclTag e"
  by (simp add: limitedBy_def)

definition loop_result :: "ACLEntry list \<Rightarrow> ACLEntry list \<Rightarrow> ModeState \<Rightarrow> ModeState" where
  "loop_result pre suf s = s\<lparr>msEntries := pre @ map (limitedBy (msMode s)) suf,
     msMode := msMode s AND allowed suf,
     msNeedsACL := msNeedsACL s \<or> (\<exists>e \<in> set suf. aclTag e = ACL_USER \<or> aclTag e = ACL_GROUP),
     msGroup := lastPos ACL_GROUP_OBJ (length pre) suf (msGroup s),
     msMask := lastPos ACL_MASK (length pre) suf (msMask s)\<rparr>"

lemma acl_perms_simps [simp]:
  "acl_perms t [] = []"
  "acl_perms t (e # es) = (if aclTag e = t then aclPerm e # acl_perms t es else acl_perms t es)"
  by (simp_all add: acl_perms_def)

lemma acl_perms_Nil: "acl_perms t es = [] \<longleftrightarrow> (\<forall>e \<in> set es. aclTag e \<noteq> t)"
  by (auto simp: acl_perms_def filter_empty_conv)

lemma step_result:
  assumes "msEntries s = pre @ e # suf"
    and "aclTag e \<in> {ACL_USER_OBJ, ACL_USER, ACL_GROUP_OBJ, ACL_GROUP, ACL_MASK, ACL_OTHER}"
  shows "modeStep (length pre) s = (True, s\<lparr>msEntries := pre @ limitedBy (msMode s) e # suf,
     msMode := msMode s AND entry_bits e,
     msNeedsACL := msNeedsACL s \<or> aclTag e = ACL_USER \<or> aclTag e = ACL_GROUP,
     msGroup := if aclTag e = ACL_GROUP_OBJ then Some (length pre) else msGroup s,
     msMask := if aclTag e = ACL_MASK then Some (length pre) else msMask s\<rparr>)"
proof -
  note at = limitEach_at [OF assms(1), of 6, folded class_mask(1)] limitEach_at [OF assms(1), of 0]
  from assms show ?thesis
    by (auto simp: modeStep_def Let_def at at(2) [simplified, folded class_mask(3)] limitedBy_def
        entry_bits_def acl_tags simp del: insert_iff)
qed

text \<open>The bits of the other classes do not matter for an entry.\<close>

lemma limitedBy_rest:
  assumes "length (acl_perms ACL_USER_OBJ (e # suf)) \<le> 1" "length (acl_perms ACL_OTHER (e # suf)) \<le> 1"
    and "x \<in> set suf"
  shows "limitedBy (m AND entry_bits e) x = limitedBy m x"
proof -
  have u: "aclTag e = ACL_USER_OBJ \<Longrightarrow> aclTag x \<noteq> ACL_USER_OBJ"
    and o: "aclTag e = ACL_OTHER \<Longrightarrow> aclTag x \<noteq> ACL_OTHER"
    using assms by (auto simp: acl_perms_Nil)
  have ne: "ACL_USER_OBJ \<noteq> ACL_OTHER" by (simp add: acl_tags)
  have "limited 0 (m AND (push_bit 6 (ucast (aclPerm e)) OR NOT 448)) (aclPerm x) = limited 0 m (aclPerm x)"
    using limited_elsewhere [of 0 6 m "ucast (aclPerm e)" "aclPerm x"] by (simp add: class_mask(1))
  moreover have "limited 6 (m AND (ucast (aclPerm e) OR NOT 7)) (aclPerm x) = limited 6 m (aclPerm x)"
    using limited_elsewhere [of 6 0 m "ucast (aclPerm e)" "aclPerm x"] by (simp add: class_mask(3))
  ultimately show ?thesis using u o ne by (simp add: limitedBy_def entry_bits_def)
qed

lemma modeLoop_result:
  assumes "msEntries s = pre @ suf"
    and "\<forall>e \<in> set suf. aclTag e \<in> {ACL_USER_OBJ, ACL_USER, ACL_GROUP_OBJ, ACL_GROUP, ACL_MASK, ACL_OTHER}"
    and "length (acl_perms ACL_USER_OBJ suf) \<le> 1" "length (acl_perms ACL_OTHER suf) \<le> 1"
  shows "modeLoop (length pre) (length suf) s = (True, loop_result pre suf s)"
  using assms
proof (induction suf arbitrary: pre s)
  case Nil
  then show ?case by (simp add: loop_result_def)
next
  case (Cons e suf)
  define s1 where "s1 = s\<lparr>msEntries := pre @ limitedBy (msMode s) e # suf,
     msMode := msMode s AND entry_bits e,
     msNeedsACL := msNeedsACL s \<or> aclTag e = ACL_USER \<or> aclTag e = ACL_GROUP,
     msGroup := if aclTag e = ACL_GROUP_OBJ then Some (length pre) else msGroup s,
     msMask := if aclTag e = ACL_MASK then Some (length pre) else msMask s\<rparr>"
  have st: "modeStep (length pre) s = (True, s1)"
    unfolding s1_def by (rule step_result) (use Cons.prems in simp_all)
  have "modeLoop (length (pre @ [limitedBy (msMode s) e])) (length suf) s1 =
      (True, loop_result (pre @ [limitedBy (msMode s) e]) suf s1)"
    by (rule Cons.IH) (use Cons.prems in \<open>auto simp: s1_def split: if_splits\<close>)
  moreover have "loop_result (pre @ [limitedBy (msMode s) e]) suf s1 = loop_result pre (e # suf) s"
    using limitedBy_rest [OF Cons.prems(3,4)] by (auto simp: loop_result_def s1_def ac_simps)
  ultimately show ?case using st by simp
qed

lemma lastPos_none: "acl_perms t es = [] \<Longrightarrow> lastPos t k es old = old"
  by (induction es arbitrary: k old) (auto split: if_splits)

lemma lastPos_one:
  assumes "acl_perms t es = [q]"
  shows "\<exists>j < length es. lastPos t k es old = Some (k + j) \<and> aclTag (es ! j) = t \<and>
    aclPerm (es ! j) = q \<and> (\<forall>i < length es. aclTag (es ! i) = t \<longrightarrow> i = j)"
  using assms
proof (induction es arbitrary: k old)
  case (Cons e es)
  show ?case
  proof (cases "aclTag e = t")
    case True
    then have "acl_perms t es = []" "aclPerm e = q" using Cons.prems by simp_all
    moreover from this have "\<forall>i < length es. aclTag (es ! i) \<noteq> t" by (simp add: acl_perms_Nil)
    ultimately show ?thesis using True by (auto simp: lastPos_none nth_Cons split: nat.splits)
  next
    case False
    then have "acl_perms t es = [q]" using Cons.prems by simp
    from Cons.IH [OF this, of "Suc k" old] obtain j where j: "j < length es"
      "lastPos t (Suc k) es old = Some (Suc k + j)" "aclTag (es ! j) = t" "aclPerm (es ! j) = q"
      and only: "\<forall>i < length es. aclTag (es ! i) = t \<longrightarrow> i = j"
      by blast
    have "\<forall>i < length (e # es). aclTag ((e # es) ! i) = t \<longrightarrow> i = Suc j"
    proof (intro allI impI)
      fix i
      assume "i < length (e # es)" "aclTag ((e # es) ! i) = t"
      with only False show "i = Suc j" by (cases i) simp_all
    qed
    with j False show ?thesis by (intro exI [of _ "Suc j"] conjI) simp_all
  qed
qed simp

lemma allowed_parts:
  assumes "length (acl_perms ACL_USER_OBJ es) \<le> 1" "length (acl_perms ACL_OTHER es) \<le> 1"
  shows "allowed es =
    (case acl_perms ACL_USER_OBJ es of [] \<Rightarrow> NOT 0 | p # _ \<Rightarrow> push_bit 6 (ucast p) OR NOT 448) AND
    (case acl_perms ACL_OTHER es of [] \<Rightarrow> NOT 0 | p # _ \<Rightarrow> ucast p OR NOT 7)"
  using assms
proof (induction es)
  case (Cons e es)
  have ne: "ACL_USER_OBJ \<noteq> ACL_OTHER" by (simp add: acl_tags)
  have ih: "allowed es =
    (case acl_perms ACL_USER_OBJ es of [] \<Rightarrow> NOT 0 | p # _ \<Rightarrow> push_bit 6 (ucast p) OR NOT 448) AND
    (case acl_perms ACL_OTHER es of [] \<Rightarrow> NOT 0 | p # _ \<Rightarrow> ucast p OR NOT 7)"
    by (rule Cons.IH) (use Cons.prems in \<open>auto split: if_splits\<close>)
  show ?case
  proof (cases "aclTag e = ACL_USER_OBJ")
    case True
    then have "acl_perms ACL_USER_OBJ es = []" using Cons.prems by simp
    with True ne show ?thesis by (simp add: ih entry_bits_def)
  next
    case False
    show ?thesis
    proof (cases "aclTag e = ACL_OTHER")
      case True
      then have "acl_perms ACL_OTHER es = []" using Cons.prems by simp
      with True ne show ?thesis by (simp add: ih entry_bits_def and.commute)
    next
      case other: False
      with False show ?thesis by (simp add: ih entry_bits_def)
    qed
  qed
qed simp

lemma limitEach_nth:
  assumes "j < length (msEntries s)"
  shows "limitEach 3 56 j s =
    s\<lparr>msEntries := (msEntries s)[j := (msEntries s ! j)\<lparr>aclPerm := limited 3 (msMode s) (aclPerm (msEntries s ! j))\<rparr>],
      msMode := msMode s AND (push_bit 3 (ucast (aclPerm (msEntries s ! j))) OR NOT 56)\<rparr>"
  using limited_mode [of 3 "msMode s" "aclPerm (msEntries s ! j)"] assms
  by (simp add: limitEach_def setPerm_def limited_def Let_def class_mask(2))

text \<open>The entry that stands for the group class.\<close>

definition group_class :: "PosixACL \<Rightarrow> u16" where
  "group_class acl = (if acl_perms ACL_MASK acl = [] then ACL_GROUP_OBJ else ACL_MASK)"

definition final_entry :: "i32 \<Rightarrow> u16 \<Rightarrow> ACLEntry \<Rightarrow> ACLEntry" where
  "final_entry m t e = (if aclTag e = t then e\<lparr>aclPerm := limited 3 m (aclPerm e)\<rparr> else limitedBy m e)"

lemma group_position:
  assumes "acl_valid acl"
  obtains j q where "j < length acl" "acl_perms (group_class acl) acl = [q]" "aclTag (acl ! j) = group_class acl"
    "aclPerm (acl ! j) = q" "\<forall>i < length acl. aclTag (acl ! i) = group_class acl \<longrightarrow> i = j"
    "(case lastPos ACL_MASK 0 acl None of Some k \<Rightarrow> Some k | None \<Rightarrow> lastPos ACL_GROUP_OBJ 0 acl None) = Some j"
proof -
  have "\<exists>q. acl_perms (group_class acl) acl = [q]"
    using assms by (cases "acl_perms ACL_MASK acl") (auto simp: acl_valid_def group_class_def length_Suc_conv)
  then obtain q where q: "acl_perms (group_class acl) acl = [q]" by blast
  from lastPos_one [OF q, of 0 None] obtain j where j: "j < length acl"
    "lastPos (group_class acl) 0 acl None = Some (0 + j)" "aclTag (acl ! j) = group_class acl"
    "aclPerm (acl ! j) = q" "\<forall>i < length acl. aclTag (acl ! i) = group_class acl \<longrightarrow> i = j" by blast
  have "(case lastPos ACL_MASK 0 acl None of Some k \<Rightarrow> Some k | None \<Rightarrow> lastPos ACL_GROUP_OBJ 0 acl None) = Some j"
    using j(2) lastPos_none [of ACL_MASK acl 0 None]
    by (cases "acl_perms ACL_MASK acl = []") (simp_all add: group_class_def)
  with that j q show thesis by blast
qed

lemma class_bits:
  fixes m u q w :: i32
  shows "(m AND NOT 511) OR ((m AND ((push_bit 6 u OR NOT 448) AND (w OR NOT 7))) AND (push_bit 3 q OR NOT 56)) =
    m AND (NOT 511 OR push_bit 6 (u AND 7) OR push_bit 3 (q AND 7) OR (w AND 7))"
proof -
  have m9: "(511 :: i32) = mask 9" by (simp add: mask_eq_exp_minus_1)
  have "bit ((m AND NOT (mask 9)) OR ((m AND ((push_bit 6 u OR NOT (push_bit 6 (mask 3))) AND (w OR NOT (mask 3)))) AND
      (push_bit 3 q OR NOT (push_bit 3 (mask 3))))) n =
    bit (m AND (NOT (mask 9) OR push_bit 6 (u AND mask 3) OR push_bit 3 (q AND mask 3) OR (w AND mask 3))) n"
    if n: "n < 32" for n
  proof -
    consider "n < 3" | "3 \<le> n" "n < 6" | "6 \<le> n" "n < 9" | "9 \<le> n" by linarith
    then show ?thesis using n by cases (auto simp: bit_simps)
  qed
  then show ?thesis unfolding m9 class_mask by (intro bit_word_eqI) simp
qed

text \<open>
  C25: What a default ACL makes of the mode of a new file, for a list with one entry each for the
  owner, the group and the others and at most one mask: each class keeps the bits that its entry
  has as well, where the entry of the group class is the mask if there is one; the bits above stay;
  in the new list the same entries are limited by the mode. The list is said to be needed exactly
  if it names a user or a group - so with a mask but no names, the entry of the group is dropped
  and the group gets the bits of the mask.
\<close>

theorem default_acl_applied:
  assumes valid: "acl_valid acl"
  shows "modifyModeBits m acl =
    (FhgfsOpsErr_SUCCESS, \<exists>e \<in> set acl. aclTag e = ACL_USER \<or> aclTag e = ACL_GROUP,
     m AND (NOT 511 OR push_bit 6 (ucast (hd (acl_perms ACL_USER_OBJ acl)) AND 7) OR
       push_bit 3 (ucast (hd (acl_perms (group_class acl) acl)) AND 7) OR
       (ucast (hd (acl_perms ACL_OTHER acl)) AND 7)),
     map (final_entry m (group_class acl)) acl)"
proof -
  let ?s = "\<lparr>msEntries = acl, msMode = m, msNeedsACL = False, msGroup = None, msMask = None\<rparr>"
  obtain j q where j: "j < length acl" "acl_perms (group_class acl) acl = [q]"
    "aclTag (acl ! j) = group_class acl" "aclPerm (acl ! j) = q"
    and only: "\<forall>i < length acl. aclTag (acl ! i) = group_class acl \<longrightarrow> i = j"
    and pos: "(case lastPos ACL_MASK 0 acl None of Some k \<Rightarrow> Some k | None \<Rightarrow> lastPos ACL_GROUP_OBJ 0 acl None) = Some j"
    using group_position [OF valid] by metis
  have one: "length (acl_perms ACL_USER_OBJ acl) \<le> 1" "length (acl_perms ACL_OTHER acl) \<le> 1"
    using valid by (simp_all add: acl_valid_def)
  obtain u w where u: "acl_perms ACL_USER_OBJ acl = [u]" "acl_perms ACL_OTHER acl = [w]"
    using valid by (auto simp: acl_valid_def length_Suc_conv)
  have loop: "modeLoop 0 (length acl) ?s = (True, loop_result [] acl ?s)"
    using modeLoop_result [of ?s "[]" acl] valid one by (simp add: acl_valid_def)
  let ?m1 = "m AND ((push_bit 6 (ucast u) OR NOT 448) AND (ucast w OR NOT 7))"
  have allowed: "allowed acl = (push_bit 6 (ucast u) OR NOT 448) AND (ucast w OR NOT 7)"
    using allowed_parts [OF one] u by simp
  have tag: "group_class acl \<noteq> ACL_USER_OBJ" "group_class acl \<noteq> ACL_OTHER"
    by (simp_all add: group_class_def acl_tags)
  have lim: "limited 3 (m AND allowed acl) p = limited 3 m p" for p
    unfolding allowed
  proof -
    have "limited 3 ?m1 p = limited 3 (m AND (push_bit 6 (ucast u) OR NOT 448)) p"
      using limited_elsewhere [of 3 0 "m AND (push_bit 6 (ucast u) OR NOT 448)" "ucast w" p]
      by (simp add: class_mask(3) ac_simps)
    also have "\<dots> = limited 3 m p"
      using limited_elsewhere [of 3 6 m "ucast u" p] by (simp add: class_mask(1))
    finally show "limited 3 ?m1 p = limited 3 m p" .
  qed
  have nth: "map (limitedBy m) acl ! j = acl ! j" using j tag by (simp add: limitedBy_def)
  have entries: "(map (limitedBy m) acl)[j := (acl ! j)\<lparr>aclPerm := limited 3 m q\<rparr>] =
      map (final_entry m (group_class acl)) acl"
  proof (rule nth_equalityI)
    fix i
    assume "i < length ((map (limitedBy m) acl)[j := (acl ! j)\<lparr>aclPerm := limited 3 m q\<rparr>])"
    then have i: "i < length acl" by simp
    show "(map (limitedBy m) acl)[j := (acl ! j)\<lparr>aclPerm := limited 3 m q\<rparr>] ! i =
        map (final_entry m (group_class acl)) acl ! i"
    proof (cases "i = j")
      case True
      then show ?thesis using j by (simp add: final_entry_def)
    next
      case False
      then have "aclTag (acl ! i) \<noteq> group_class acl" using only i by blast
      with False i show ?thesis by (simp add: final_entry_def)
    qed
  qed simp
  have bits: "(m AND NOT 511) OR (?m1 AND (push_bit 3 (ucast q) OR NOT 56)) =
     m AND (NOT 511 OR push_bit 6 (ucast u AND 7) OR push_bit 3 (ucast q AND 7) OR (ucast w AND 7))"
    by (rule class_bits)
  note bits = bits [folded allowed]
  define r where "r = loop_result [] acl ?s"
  have r: "msMask r = lastPos ACL_MASK 0 acl None" "msGroup r = lastPos ACL_GROUP_OBJ 0 acl None"
    "msNeedsACL r = (\<exists>e \<in> set acl. aclTag e = ACL_USER \<or> aclTag e = ACL_GROUP)"
    "msMode r = m AND allowed acl" "msEntries r = map (limitedBy m) acl"
    by (simp_all add: r_def loop_result_def)
  have at: "(case msMask r of Some k \<Rightarrow> Some k | None \<Rightarrow> msGroup r) = Some j"
    unfolding r(1,2) by (rule pos)
  have "limitEach 3 56 j r = r\<lparr>msEntries := map (final_entry m (group_class acl)) acl,
      msMode := (m AND allowed acl) AND (push_bit 3 (ucast q) OR NOT 56)\<rparr>"
    using j(1,4) nth entries by (simp add: limitEach_nth r lim)
  moreover have "modeLoop 0 (length acl) ?s = (True, r)" using loop by (simp add: r_def)
  ultimately show ?thesis
    using bits by (simp add: modifyModeBits_def at r(3) u j(2) Let_def)
qed

definition demo_acl :: PosixACL where
  "demo_acl = map (\<lambda>(t, p). \<lparr>aclTag = t, aclPerm = p, aclID = 0\<rparr>)
     [(ACL_USER_OBJ, 7), (ACL_GROUP_OBJ, 0), (ACL_MASK, 7), (ACL_OTHER, 5)]"

theorem default_acl_applied_witness:
  "\<exists>acl'. modifyModeBits 0x81B6 demo_acl = (FhgfsOpsErr_SUCCESS, False, 0x81B4, acl') \<and>
     acl_perms ACL_GROUP_OBJ demo_acl = [0] \<and> acl_perms ACL_GROUP_OBJ acl' = [0] \<and>
     (0x81B4 :: i32) AND 56 = 48"
proof -
  have "acl_valid demo_acl" by (simp add: acl_valid_def demo_acl_def acl_tags)
  from default_acl_applied [OF this, of "0x81B6"] show ?thesis
    by (simp add: demo_acl_def acl_tags group_class_def final_entry_def limitedBy_def)
qed

end
