(* ===== verification/FileIDs.thy ===== *)
theory FileIDs
  imports MapFile
begin

text \<open>
  The IDs of files and directories (\<open>generateFileID\<close> and \<open>resetIDCounterToNow\<close> in StorageTk.h of
  fhgfs_common): a counter with the time in its upper half, printed in hexadecimal with the numeric
  ID of the server. The clock is an argument of the calls.
\<close>

section \<open>The counter\<close>

definition STORAGETK_FILEID_TIMESTAMP_SHIFTBITS :: nat where
  "STORAGETK_FILEID_TIMESTAMP_SHIFTBITS = 32"

text \<open>The start value of the counter, from the time in seconds.\<close>

definition idCounter :: "u64 \<Rightarrow> u64" where
  "idCounter nowSecs = push_bit STORAGETK_FILEID_TIMESTAMP_SHIFTBITS nowSecs"

definition generateFileID :: "u16 \<Rightarrow> u64 \<Rightarrow> string \<times> u64" where
  "generateFileID localNodeID counter =
     (let nextID = counter;
          counterPart = (ucast nextID :: u32);
          timestampPart = (ucast (drop_bit STORAGETK_FILEID_TIMESTAMP_SHIFTBITS nextID) :: u32)
      in (uintToHexStr counterPart @ ''-'' @ uintToHexStr timestampPart @ ''-'' @
            uint16ToHexStr localNodeID, counter + 1))"

definition resetIDCounterToNow :: "u32 \<Rightarrow> u64 \<Rightarrow> u64" where
  "resetIDCounterToNow currentSysTimeSecs counter =
     (let timestampPart = (ucast (drop_bit STORAGETK_FILEID_TIMESTAMP_SHIFTBITS counter) :: u32)
      in if currentSysTimeSecs \<le> timestampPart then counter
         else push_bit STORAGETK_FILEID_TIMESTAMP_SHIFTBITS (ucast currentSysTimeSecs))"

text \<open>The calls of a server in their order, and the IDs that they give.\<close>

datatype IDCall = GenerateID | ResetCounter u32

fun runIDs :: "u16 \<Rightarrow> IDCall list \<Rightarrow> u64 \<Rightarrow> string list" where
  "runIDs nodeID [] counter = []"
| "runIDs nodeID (GenerateID # calls) counter =
     (case generateFileID nodeID counter of (fileID, c) \<Rightarrow> fileID # runIDs nodeID calls c)"
| "runIDs nodeID (ResetCounter t # calls) counter =
     runIDs nodeID calls (resetIDCounterToNow t counter)"

section \<open>No ID twice\<close>

definition printID :: "u16 \<Rightarrow> u64 \<Rightarrow> string" where
  "printID nodeID c = fst (generateFileID nodeID c)"

lemma split_at:
  assumes "xs @ c # ys = xs' @ c # ys'" "c \<notin> set xs" "c \<notin> set xs'"
  shows "xs = xs' \<and> ys = ys'"
proof -
  have "takeWhile (\<lambda>x. x \<noteq> c) (xs @ c # ys) = xs" "takeWhile (\<lambda>x. x \<noteq> c) (xs' @ c # ys') = xs'"
    using assms(2,3) by (auto simp: takeWhile_append)
  then show ?thesis using assms(1) by auto
qed

lemma hexStr_inject: "hexStr a = hexStr b \<longleftrightarrow> a = b"
  by (metis hexNumber_hexStr)

lemma no_dash: "CHR ''-'' \<notin> set (hexStr n)"
  using hexStr_no [OF hexVal_special(7)] .

lemma printID_inject: "printID m c = printID n d \<longleftrightarrow> m = n \<and> c = d"
proof
  assume eq: "printID m c = printID n d"
  let ?lo = "\<lambda>c :: u64. unat (ucast c :: u32)" and ?hi = "\<lambda>c :: u64. unat (ucast (drop_bit 32 c) :: u32)"
  have print: "printID k x = hexStr (?lo x) @ CHR ''-'' # (hexStr (?hi x) @ CHR ''-'' # hexStr (unat k))" for k x
    by (simp only: printID_def generateFileID_def Let_def uintToHexStr_def uint16ToHexStr_def
        STORAGETK_FILEID_TIMESTAMP_SHIFTBITS_def fst_conv append_Cons append_Nil append_assoc)
  from eq have "hexStr (?lo c) @ CHR ''-'' # (hexStr (?hi c) @ CHR ''-'' # hexStr (unat m)) =
      hexStr (?lo d) @ CHR ''-'' # (hexStr (?hi d) @ CHR ''-'' # hexStr (unat n))"
    unfolding print .
  from split_at [OF this no_dash no_dash] have low: "hexStr (?lo c) = hexStr (?lo d)"
    and rest: "hexStr (?hi c) @ CHR ''-'' # hexStr (unat m) = hexStr (?hi d) @ CHR ''-'' # hexStr (unat n)"
    by blast+
  from split_at [OF rest no_dash no_dash] low
  have parts: "ucast c = (ucast d :: u32)" "ucast (drop_bit 32 c) = (ucast (drop_bit 32 d) :: u32)" "m = n"
    by (simp_all only: hexStr_inject word_unat_eq_iff)
  have "bit c n = bit d n" if "n < 64" for n
  proof (cases "n < 32")
    case True
    from arg_cong [OF parts(1), of "\<lambda>w. bit w n"] True show ?thesis by (simp add: bit_simps)
  next
    case False
    then have "n = 32 + (n - 32)" "n - 32 < 32" using that by simp_all
    with arg_cong [OF parts(2), of "\<lambda>w. bit w (n - 32)"] show ?thesis by (simp add: bit_simps)
  qed
  then have "c = d" by (intro bit_word_eqI) simp
  with parts(3) show "m = n \<and> c = d" by simp
qed simp

text \<open>The counter only grows, as long as it does not wrap around.\<close>

fun countersOf :: "IDCall list \<Rightarrow> u64 \<Rightarrow> u64 list" where
  "countersOf [] c = []"
| "countersOf (GenerateID # calls) c = c # countersOf calls (c + 1)"
| "countersOf (ResetCounter t # calls) c = countersOf calls (resetIDCounterToNow t c)"

lemma runIDs_counters: "runIDs n calls c = map (printID n) (countersOf calls c)"
  by (induction n calls c rule: runIDs.induct) (simp_all add: printID_def generateFileID_def Let_def)

definition last_second :: nat where "last_second = (2 ^ 32 - 1) * 2 ^ 32"

lemma reset_grows: "unat c \<le> unat (resetIDCounterToNow t c)"
  and reset_bound: "unat t < 2 ^ 32 - 1 \<Longrightarrow> unat (resetIDCounterToNow t c) \<le> max (unat c) last_second"
proof -
  have d: "unat (ucast (drop_bit 32 c) :: u32) = unat c div 2 ^ 32"
  proof -
    have "unat c div 2 ^ 32 < 2 ^ 32" using unsigned_less [of c, where ?'a = nat] by simp
    then show ?thesis by (simp add: unsigned_ucast_eq unat_drop_bit_eq drop_bit_eq_div unat_div take_bit_nat_eq_self)
  qed
  have p: "unat (push_bit 32 (ucast t) :: u64) = unat t * 2 ^ 32"
  proof -
    have "unat t < 2 ^ 32" using unsigned_less [of t, where ?'a = nat] by simp
    then show ?thesis
      by (simp add: push_bit_eq_mult unat_word_ariths unsigned_ucast_eq take_bit_nat_eq_self)
  qed
  have "unat c < (unat c div 2 ^ 32 + 1) * 2 ^ 32"
    by (metis div_mult_mod_eq mod_less_divisor add_mult_distrib mult_1 nat_add_left_cancel_less zero_less_numeral zero_less_power)
  moreover have "unat c div 2 ^ 32 + 1 \<le> unat t" if "\<not> t \<le> ucast (drop_bit 32 c)"
    using that d by (simp add: word_le_nat_alt)
  ultimately show "unat c \<le> unat (resetIDCounterToNow t c)"
    using p unfolding resetIDCounterToNow_def STORAGETK_FILEID_TIMESTAMP_SHIFTBITS_def
    by (auto simp: Let_def intro: order_trans [OF less_imp_le mult_le_mono1])
  show "unat (resetIDCounterToNow t c) \<le> max (unat c) last_second" if t: "unat t < 2 ^ 32 - 1"
  proof -
    have "unat t * 2 ^ 32 \<le> last_second" unfolding last_second_def using t by (intro mult_le_mono1) simp
    with p show ?thesis
      by (auto simp: resetIDCounterToNow_def STORAGETK_FILEID_TIMESTAMP_SHIFTBITS_def Let_def)
  qed
qed

lemma counters_distinct:
  assumes "\<forall>t. ResetCounter t \<in> set calls \<longrightarrow> unat t < 2 ^ 32 - 1"
    and "unat c + length calls \<le> b" "last_second + length calls \<le> b" "b < 2 ^ 64"
  shows "distinct (countersOf calls c) \<and> (\<forall>x \<in> set (countersOf calls c). unat c \<le> unat x)"
  using assms
proof (induction calls c arbitrary: rule: countersOf.induct)
  case (2 calls c)
  then have s: "unat (c + 1) = Suc (unat c)" by (simp add: unat_word_ariths)
  have "distinct (countersOf calls (c + 1)) \<and> (\<forall>x \<in> set (countersOf calls (c + 1)). unat (c + 1) \<le> unat x)"
    by (rule "2.IH") (use "2.prems" s in auto)
  with s show ?case by (auto simp: Suc_le_eq)
next
  case (3 t calls c)
  let ?c = "resetIDCounterToNow t c"
  have "unat ?c \<le> max (unat c) last_second" using reset_bound "3.prems"(1) by simp
  then have "unat ?c + length calls \<le> b" using "3.prems"(2,3) by (auto simp: max_def split: if_splits)
  then have "distinct (countersOf calls ?c) \<and> (\<forall>x \<in> set (countersOf calls ?c). unat ?c \<le> unat x)"
    by (intro "3.IH") (use "3.prems" in auto)
  with reset_grows [of c t] show ?case by (auto intro: order_trans)
qed simp

text \<open>
  C23: No two files or directories get the same ID, neither from one server nor from two servers
  with different numeric IDs: whatever sequence of fewer than 2^32 creations and counter resets
  the servers go through, also if their clocks jump back. (The clocks are in the years before
  2106, where the seconds fit into 32 bits.)
\<close>

theorem file_ids_unique:
  assumes "m \<noteq> n" and "length calls1 < 2 ^ 32" "length calls2 < 2 ^ 32"
    and "unat start1 \<le> last_second" "unat start2 \<le> last_second"
    and "\<forall>t. ResetCounter t \<in> set calls1 \<union> set calls2 \<longrightarrow> unat t < 2 ^ 32 - 1"
  shows "distinct (runIDs m calls1 start1 @ runIDs n calls2 start2)"
proof -
  have "distinct (countersOf calls1 start1)" "distinct (countersOf calls2 start2)"
    using counters_distinct [of calls1 start1 "2 ^ 64 - 1"] counters_distinct [of calls2 start2 "2 ^ 64 - 1"]
      assms by (simp_all add: last_second_def)
  with assms(1) show ?thesis
    by (auto simp: runIDs_counters distinct_map inj_on_def printID_inject)
qed

theorem file_ids_unique_witness:
  "runIDs 1 [GenerateID, ResetCounter 5, ResetCounter 3, GenerateID] (idCounter 4) = [''0-4-1'', ''0-5-1''] \<and>
   distinct (runIDs 1 [GenerateID, ResetCounter 5, ResetCounter 3, GenerateID] (idCounter 4) @
     runIDs 2 [GenerateID] (idCounter 4))"
proof -
  have "distinct (runIDs 1 [GenerateID, ResetCounter 5, ResetCounter 3, GenerateID] (idCounter 4) @
     runIDs 2 [GenerateID] (idCounter 4))"
    by (rule file_ids_unique) (auto simp: last_second_def idCounter_def STORAGETK_FILEID_TIMESTAMP_SHIFTBITS_def)
  moreover have "runIDs 1 [GenerateID, ResetCounter 5, ResetCounter 3, GenerateID] (idCounter 4) =
      [''0-4-1'', ''0-5-1'']"
    by code_simp
  ultimately show ?thesis by (rule conjI [rotated])
qed

end
