(* ===== verification/MetaStoreOps.thy ===== *)
theory MetaStoreOps
  imports MetaStore PosixACL FileIDs
begin

text \<open>
  Removing, linking, renaming and creating entries in the metadata store (\<open>MetaStore.cpp\<close> and
  \<open>MetaStoreRename.cpp\<close> under fhgfs_meta/source/storage). The directory that a call works on is
  given by its ID where the code has a pointer to it (the object has the ID under which it is in the
  store); the caller holds a reference to it.

  A call is one step, also where the code gives up its locks in between (\<open>unlinkFile\<close>,
  \<open>renameInSameDir\<close>). Mirror copies are not modelled. The result None is that of \<open>MetaStore\<close>.
\<close>

section \<open>Through pointers\<close>

text \<open>An operation on a directory, and on a file wherever its object is.\<close>

definition onNode ::
    "string \<Rightarrow> (DirNode \<Rightarrow> MetaFs \<Rightarrow> ('a \<times> DirNode \<times> MetaFs) option) \<Rightarrow> MetaStore \<Rightarrow> MetaFs \<Rightarrow>
       ('a \<times> MetaStore \<times> MetaFs) option" where
  "onNode p operation s fs = do {
     d \<leftarrow> nodeOf p s;
     (res, d1, fs1) \<leftarrow> operation d fs;
     Some (res, putNode p d1 s, fs1)
   }"

definition inodeAt :: "string \<Rightarrow> string \<Rightarrow> MetaStore \<Rightarrow> FileInode option" where
  "inodeAt p eid s =
     (case fmlookup (fileStore s) eid of
        Some r \<Rightarrow> Some (refObject r)
      | None \<Rightarrow> do {
          files \<leftarrow> filesOf p s;
          r \<leftarrow> fmlookup files eid;
          Some (refObject r)
        })"

definition changeInode :: "string \<Rightarrow> string \<Rightarrow> (FileInode \<Rightarrow> FileInode) \<Rightarrow> MetaStore \<Rightarrow> MetaStore" where
  "changeInode p eid g s =
     (if isInStore eid (fileStore s) then s\<lparr>fileStore := updateObject eid g (fileStore s)\<rparr>
      else case filesOf p s of None \<Rightarrow> s | Some files \<Rightarrow> putFiles p (updateObject eid g files) s)"

definition ms_incDecLinkCount ::
    "StoreEnv \<Rightarrow> string \<Rightarrow> EntryInfo \<Rightarrow> i32 \<Rightarrow> MetaStore \<Rightarrow> MetaFs \<Rightarrow>
       (FhgfsOpsErr \<times> MetaStore \<times> MetaFs) option" where
  "ms_incDecLinkCount env p info v s fs =
     (if isInStore (infoEntryID info) (fileStore s)
      then do {
        (res, m, fs1) \<leftarrow> incDecLinkCount (metaCfg env) (envNow env) (infoEntryID info) info v (fileStore s) fs;
        Some (res, s\<lparr>fileStore := m\<rparr>, fs1)
      }
      else do {
        files \<leftarrow> filesOf p s;
        (res, m, fs1) \<leftarrow> incDecLinkCount (metaCfg env) (envNow env) (infoEntryID info) info v files fs;
        Some (res, putFiles p m s, fs1)
      })"

definition getNumHardlinks :: "FileInode \<Rightarrow> u32" where
  "getNumHardlinks f = nlink (inodeStatData (fiData f))"

definition setNumHardlinksUnpersistent :: "u32 \<Rightarrow> FileInode \<Rightarrow> FileInode" where
  "setNumHardlinksUnpersistent n f = fi_updateStat (\<lambda>st. st\<lparr>nlink := n\<rparr>) f"

section \<open>Removing files\<close>

definition isFileUnlinkable :: "StoreEnv \<Rightarrow> string \<Rightarrow> EntryInfo \<Rightarrow> MetaStore \<Rightarrow> FhgfsOpsErr option" where
  "isFileUnlinkable env p info s = do {
     files \<leftarrow> filesOf p s;
     (let res = isUnlinkable (envTID env) info (fileStore s)
      in Some (if res = FhgfsOpsErr_SUCCESS then isUnlinkable (envTID env) info files else res))
   }"

text \<open>
  A file that is in use loses its name (and its entry by ID, if there is no other link) but keeps
  its inode, which is not inlined any more: the result is INUSE. The entry object of the caller
  changes, too. The last part of the results is the inode that was removed.
\<close>

definition unlinkBusyInlined ::
    "StoreEnv \<Rightarrow> string \<Rightarrow> string \<Rightarrow> DirEntry \<Rightarrow> EntryInfo \<Rightarrow> u32 \<Rightarrow> MetaStore \<Rightarrow> MetaFs \<Rightarrow>
       (FhgfsOpsErr \<times> DirEntry \<times> MetaStore \<times> MetaFs) option" where
  "unlinkBusyInlined env name p entry info unlinkTypeFlags s fs = do {
     let eid = dentryID (deData entry);
     (got, s1) \<leftarrow> referenceLoadedFileIn env p eid s;
     (if \<not> got then Some (FhgfsOpsErr_INTERNAL, entry, s1, fs)
      else do {
        inode \<leftarrow> inodeAt p eid s1;
        let links = getNumHardlinks inode;
        let flags = (if links > 1 then unlinkTypeFlags AND NOT DirEntry_UNLINK_ID else unlinkTypeFlags);
        ((unlinkError, disposal), s1', fs1) \<leftarrow>
          onNode p (unlinkBusyFile (metaCfg env) (envNow env) name entry flags (disposalDir s1)) s1 fs;
        let s2 = s1'\<lparr>disposalDir := disposal\<rparr>;
        (res, entry1, s3, fs2) \<leftarrow>
          (if unlinkError then Some (FhgfsOpsErr_INTERNAL, entry, s2, fs1)
           else do {
             let last = links < 2;
             (_, s3, fs2) \<leftarrow> ms_incDecLinkCount env p info (-1)
               (if last then changeInode p eid (setIsInlined False) s2 else s2) fs1;
             Some (if last then FhgfsOpsErr_INUSE else FhgfsOpsErr_SUCCESS,
               if last then unsetInodeInlined entry else entry, s3, fs2)
           });
        (_, s4) \<leftarrow> releaseFileIn p eid s3;
        Some (res, entry1, s4, fs2)
      })
   }"

definition unlinkIdleInlined ::
    "StoreEnv \<Rightarrow> string \<Rightarrow> string \<Rightarrow> DirEntry \<Rightarrow> EntryInfo \<Rightarrow> u32 \<Rightarrow> bool \<Rightarrow> MetaStore \<Rightarrow> MetaFs \<Rightarrow>
       (FhgfsOpsErr \<times> FileInode option \<times> MetaStore \<times> MetaFs) option" where
  "unlinkIdleInlined env name p entry info unlinkTypeFlags wanted s fs = do {
     let eid = infoEntryID info;
     (got, s1, fs1) \<leftarrow> referenceFileIn env p info s fs;
     (if \<not> got then Some (FhgfsOpsErr_PATHNOTEXISTS, None, s1, fs1)
      else do {
        inode \<leftarrow> inodeAt p eid s1;
        let links = getNumHardlinks inode;
        let flags = (if links > 1 then unlinkTypeFlags AND NOT DirEntry_UNLINK_ID else unlinkTypeFlags);
        (res, s2, fs2) \<leftarrow>
          onNode p (dn_unlinkDirEntry (metaCfg env) (envNow env) name (Some entry) flags) s1 fs1;
        (s3, fs3) \<leftarrow>
          (if res = FhgfsOpsErr_SUCCESS \<and> links > 1
           then map_option snd (ms_incDecLinkCount env p info (-1) s2 fs2) else Some (s2, fs2));
        (out, s4) \<leftarrow>
          (if wanted \<and> links < 2
           then do {
             f \<leftarrow> inodeAt p eid s3;
             (copy, f1) \<leftarrow> fi_clone (metaCfg env) (envNow env) (setIsInlined False f);
             Some (copy, changeInode p eid (\<lambda>_. f1) s3)
           }
           else Some (None, s3));
        (_, s5) \<leftarrow> releaseFileIn p eid s4;
        Some (res, out, s5, fs3)
      })
   }"

definition unlinkDirEntryWithInlinedInode ::
    "StoreEnv \<Rightarrow> string \<Rightarrow> string \<Rightarrow> DirEntry \<Rightarrow> u32 \<Rightarrow> bool \<Rightarrow> MetaStore \<Rightarrow> MetaFs \<Rightarrow>
       (FhgfsOpsErr \<times> FileInode option \<times> DirEntry \<times> MetaStore \<times> MetaFs) option" where
  "unlinkDirEntryWithInlinedInode env name p entry unlinkTypeFlags wanted s fs = do {
     let info = de_getEntryInfo p ENTRYINFO_FEATURE_INLINED entry;
     unlinkable \<leftarrow> isFileUnlinkable env p info s;
     (if unlinkable = FhgfsOpsErr_INUSE
      then do {
        (res, entry1, s1, fs1) \<leftarrow> unlinkBusyInlined env name p entry info unlinkTypeFlags s fs;
        Some (res, None, entry1, s1, fs1)
      }
      else if unlinkable \<noteq> FhgfsOpsErr_SUCCESS then Some (unlinkable, None, entry, s, fs)
      else if unlinkTypeFlags AND DirEntry_UNLINK_ID \<noteq> 0
      then do {
        (res, out, s1, fs1) \<leftarrow> unlinkIdleInlined env name p entry info unlinkTypeFlags wanted s fs;
        Some (res, out, entry, s1, fs1)
      }
      else do {
        (res, s1, fs1) \<leftarrow> onNode p
          (dn_unlinkDirEntry (metaCfg env) (envNow env) name (Some entry) unlinkTypeFlags) s fs;
        Some (res, None, entry, s1, fs1)
      })
   }"

text \<open>\<open>subDir\<close>: the directory that the caller has locked, if it has.\<close>

definition unlinkInodeUnlocked ::
    "StoreEnv \<Rightarrow> EntryInfo \<Rightarrow> string option \<Rightarrow> bool \<Rightarrow> MetaStore \<Rightarrow> MetaFs \<Rightarrow>
       (FhgfsOpsErr \<times> FileInode option \<times> MetaStore \<times> MetaFs) option" where
  "unlinkInodeUnlocked env info subDir wanted s fs =
     (if isInStore (infoEntryID info) (fileStore s)
      then do {
        (res, out, fs1) \<leftarrow> unlinkFileInode (metaCfg env) (envTID env) info wanted (fileStore s) fs;
        Some (res, out, s, fs1)
      }
      else case subDir of
        Some p \<Rightarrow> do {
          files \<leftarrow> filesOf p s;
          (res, out, fs1) \<leftarrow> unlinkFileInode (metaCfg env) (envTID env) info wanted files fs;
          Some (res, out, s, fs1)
        }
      | None \<Rightarrow> do {
          let p = infoParentEntryID info;
          (gotDir, s1, fs1) \<leftarrow> ms_referenceDir env p False s fs;
          (if \<not> gotDir then Some (FhgfsOpsErr_PATHNOTEXISTS, None, s1, fs1)
           else do {
             files \<leftarrow> filesOf p s1;
             (res, out, fs2) \<leftarrow> unlinkFileInode (metaCfg env) (envTID env) info wanted files fs1;
             Some (res, out, ms_releaseDir env p s1, fs2)
           })
        })"

definition unlinkInode where
  "unlinkInode env info wanted s fs = unlinkInodeUnlocked env info None wanted s fs"

definition fsckUnlinkFileInode ::
    "StoreEnv \<Rightarrow> string \<Rightarrow> MetaStore \<Rightarrow> MetaFs \<Rightarrow> (FhgfsOpsErr \<times> MetaStore \<times> MetaFs) option" where
  "fsckUnlinkFileInode env eid s fs = do {
     (res, _, fs1) \<leftarrow> unlinkFileInode (metaCfg env) (envTID env)
       \<lparr>infoOwnerNodeID = 0, infoParentEntryID = [], infoEntryID = eid, infoFileName = [],
        infoEntryType = ucast DirEntryType_REGULARFILE, infoFlags = 0\<rparr> False (fileStore s) fs;
     Some (res, s, fs1)
   }"

definition unlinkDentryAndInode ::
    "StoreEnv \<Rightarrow> string \<Rightarrow> string \<Rightarrow> DirEntry \<Rightarrow> u32 \<Rightarrow> bool \<Rightarrow> MetaStore \<Rightarrow> MetaFs \<Rightarrow>
       (FhgfsOpsErr \<times> FileInode option \<times> MetaStore \<times> MetaFs) option" where
  "unlinkDentryAndInode env name p entry unlinkTypeFlags wanted s fs = do {
     (res, s1, fs1) \<leftarrow> onNode p
       (dn_unlinkDirEntry (metaCfg env) (envNow env) name (Some entry) unlinkTypeFlags) s fs;
     (if res \<noteq> FhgfsOpsErr_SUCCESS then Some (res, None, s1, fs1)
      else do {
        (res1, out, s2, fs2) \<leftarrow>
          unlinkInodeUnlocked env (de_getEntryInfo p 0 entry) (Some p) wanted s1 fs1;
        Some (if res1 = FhgfsOpsErr_INUSE then FhgfsOpsErr_INUSE else res, out, s2, fs2)
      })
   }"

text \<open>The entry information of the caller and whether the inode was inlined, where they are set.\<close>

definition unlinkFileUnlocked ::
    "StoreEnv \<Rightarrow> string \<Rightarrow> string \<Rightarrow> bool \<Rightarrow> MetaStore \<Rightarrow> MetaFs \<Rightarrow>
       (FhgfsOpsErr \<times> FileInode option \<times> (EntryInfo \<times> bool) option \<times> MetaStore \<times> MetaFs) option" where
  "unlinkFileUnlocked env p name wanted s fs = do {
     (found, fs1) \<leftarrow> createFromFile (metaCfg env) p name fs;
     (case found of
        None \<Rightarrow> Some (FhgfsOpsErr_PATHNOTEXISTS, None, None, s, fs1)
      | Some entry \<Rightarrow> do {
          (loaded, s1, fs2) \<leftarrow> onNode p (dn_loadIfNotLoaded (metaCfg env)) s fs1;
          (if \<not> loaded then Some (FhgfsOpsErr_INTERNAL, None, None, s1, fs2)
           else do {
             let info = de_getEntryInfo p 0 entry;
             let flags = DirEntry_UNLINK_ID OR DirEntry_UNLINK_FILENAME;
             (if getIsInodeInlined entry
              then do {
                (res, out, _, s2, fs3) \<leftarrow>
                  unlinkDirEntryWithInlinedInode env name p entry flags wanted s1 fs2;
                Some (res, out, Some (info, True), s2, fs3)
              }
              else do {
                (res, out, s2, fs3) \<leftarrow> unlinkDentryAndInode env name p entry flags wanted s1 fs2;
                Some (res, out, Some (info, False), s2, fs3)
              })
           })
        })
   }"

section \<open>Removing files that are in use\<close>

text \<open>
  The inode goes to the global store and, unless it was inlined (then this was done already), is
  linked into the disposal directory when its last link is gone.
\<close>

definition unlinkInodeLater ::
    "StoreEnv \<Rightarrow> EntryInfo \<Rightarrow> bool \<Rightarrow> MetaStore \<Rightarrow> MetaFs \<Rightarrow>
       (FhgfsOpsErr \<times> EntryInfo \<times> MetaStore \<times> MetaFs) option" where
  "unlinkInodeLater env info wasInlined s fs = do {
     let eid = infoEntryID info;
     (moved, s1, fs1) \<leftarrow>
       (if isInStore eid (fileStore s) then Some (True, s, fs)
        else moveReferenceToMetaFileStore env (infoParentEntryID info) eid s fs);
     (if \<not> moved then Some (FhgfsOpsErr_INTERNAL, info, s1, fs1)
      else do {
        let info1 = info\<lparr>infoParentEntryID := dirID (dnInode (disposalDir s1))\<rparr>;
        (case referenceLoadedFile (envTID env) eid (fileStore s1) of
           (False, _) \<Rightarrow> Some (FhgfsOpsErr_AGAIN, setInodeInlinedFlag False info1, s1, fs1)
         | (True, m) \<Rightarrow> do {
             r \<leftarrow> fmlookup m eid;
             (f1, linkCount, fs2) \<leftarrow>
               (if wasInlined then Some (refObject r, -1 :: i32, fs1)
                else do {
                  let f = setIsInlined False (refObject r);
                  let links = getNumHardlinks f;
                  let left = (if 0 <s links then links - 1 else links);
                  let f1 = (if 0 <s links then setNumHardlinksUnpersistent left f else f);
                  (_, f2, fs2) \<leftarrow> updateInodeOnDisk (metaCfg env) (envNow env) info1 None f1 fs1;
                  Some (f2, left, fs2)
                });
             (let (_, m1) = releaseFileInode eid (fmupd eid (r\<lparr>refObject := f1\<rparr>) m);
                  s2 = s1\<lparr>fileStore := m1\<rparr>
              in if wasInlined \<or> linkCount \<noteq> 0 then Some (FhgfsOpsErr_SUCCESS, info1, s2, fs2)
                 else do {
                   (_, d, fs3) \<leftarrow> linkFileInodeToDir (metaCfg env) (envNow env) (InodePath eid) eid
                     (disposalDir s2) fs2;
                   Some (FhgfsOpsErr_SUCCESS, info1, s2\<lparr>disposalDir := d\<rparr>, fs3)
                 })
           })
      })
   }"

text \<open>Between the removal and \<open>unlinkInodeLater\<close> the code holds no lock.\<close>

definition ms_unlinkFile ::
    "StoreEnv \<Rightarrow> string \<Rightarrow> string \<Rightarrow> bool \<Rightarrow> MetaStore \<Rightarrow> MetaFs \<Rightarrow>
       (FhgfsOpsErr \<times> FileInode option \<times> EntryInfo option \<times> MetaStore \<times> MetaFs) option" where
  "ms_unlinkFile env p name wanted s fs = do {
     (gotDir, s1, fs1) \<leftarrow> ms_referenceDir env p False s fs;
     (if \<not> gotDir then Some (FhgfsOpsErr_PATHNOTEXISTS, None, None, s1, fs1)
      else do {
        (res, out, entry, s2, fs2) \<leftarrow> unlinkFileUnlocked env p name wanted s1 fs1;
        let s3 = ms_releaseDir env p s2;
        (case entry of
           None \<Rightarrow> Some (res, out, None, s3, fs2)
         | Some (info, wasInlined) \<Rightarrow>
             if res \<noteq> FhgfsOpsErr_INUSE then Some (res, out, Some info, s3, fs2)
             else do {
               let res1 = (if p \<noteq> META_DISPOSALDIR_ID_STR then FhgfsOpsErr_SUCCESS else res);
               (later, info1, s4, fs3) \<leftarrow> unlinkInodeLater env info wasInlined s3 fs2;
               (if later \<noteq> FhgfsOpsErr_AGAIN then Some (res1, out, Some info1, s4, fs3)
                else do {
                  (res2, out1, s5, fs4) \<leftarrow> unlinkInode env info1 wanted s4 fs3;
                  Some (if res2 \<noteq> FhgfsOpsErr_PATHNOTEXISTS \<and> res2 \<noteq> FhgfsOpsErr_SUCCESS
                    then res2 else res1, out1, Some info1, s5, fs4)
                })
             })
      })
   }"

section \<open>Hard links\<close>

text \<open>With the file referenced: its link count, then the new name \<open>toName\<close> for \<open>fromName\<close>.\<close>

definition linkReferencedFile ::
    "StoreEnv \<Rightarrow> string \<Rightarrow> EntryInfo \<Rightarrow> string \<Rightarrow> string \<Rightarrow> MetaStore \<Rightarrow> MetaFs \<Rightarrow>
       (FhgfsOpsErr \<times> MetaStore \<times> MetaFs) option" where
  "linkReferencedFile env p info fromName toName s fs = do {
     inode \<leftarrow> inodeAt p (infoEntryID info) s;
     (if \<not> fiIsInlined inode \<or> isInStore (infoEntryID info) (fileStore s)
      then Some (FhgfsOpsErr_INTERNAL, s, fs)
      else do {
        (incRes, s1, fs1) \<leftarrow> ms_incDecLinkCount env p info 1 s fs;
        (if incRes \<noteq> FhgfsOpsErr_SUCCESS then Some (FhgfsOpsErr_INTERNAL, s1, fs1)
         else do {
           (res, s2, fs2) \<leftarrow>
             onNode p (linkFilesInDir (metaCfg env) (envNow env) fromName toName) s1 fs1;
           (if res = FhgfsOpsErr_SUCCESS then Some (res, s2, fs2)
            else do {
              (_, s3, fs3) \<leftarrow> ms_incDecLinkCount env p info (-1) s2 fs2;
              Some (res, s3, fs3)
            })
         })
      })
   }"

text \<open>A directory that cannot be loaded is not released.\<close>

definition linkInSameDir ::
    "StoreEnv \<Rightarrow> EntryInfo \<Rightarrow> EntryInfo \<Rightarrow> string \<Rightarrow> string \<Rightarrow> MetaStore \<Rightarrow> MetaFs \<Rightarrow>
       (FhgfsOpsErr \<times> MetaStore \<times> MetaFs) option" where
  "linkInSameDir env parentInfo info fromName toName s fs = do {
     let p = infoEntryID parentInfo;
     (gotDir, s1, fs1) \<leftarrow> ms_referenceDir env p False s fs;
     (loaded, s2, fs2) \<leftarrow>
       (if gotDir then onNode p (dn_loadIfNotLoaded (metaCfg env)) s1 fs1 else Some (False, s1, fs1));
     (if \<not> loaded then Some (FhgfsOpsErr_PATHNOTEXISTS, s2, fs2)
      else do {
        (got, s3, fs3) \<leftarrow> referenceFileIn env p info s2 fs2;
        (if \<not> got then Some (FhgfsOpsErr_PATHNOTEXISTS, ms_releaseDir env p s3, fs3)
         else do {
           (res, s4, fs4) \<leftarrow> linkReferencedFile env p info fromName toName s3 fs3;
           (_, s5) \<leftarrow> releaseFileIn p (infoEntryID info) s4;
           Some (res, ms_releaseDir env p s5, fs4)
         })
      })
   }"

section \<open>Renaming\<close>

definition checkRenameOverwrite :: "EntryInfo \<Rightarrow> EntryInfo \<Rightarrow> FhgfsOpsErr \<times> bool" where
  "checkRenameOverwrite fromEntry overWriteEntry =
     (if infoEntryID fromEntry = infoEntryID overWriteEntry then (FhgfsOpsErr_SUCCESS, True)
      else if infoEntryType overWriteEntry = ucast DirEntryType_DIRECTORY then (FhgfsOpsErr_EXISTS, False)
      else if infoEntryType fromEntry = ucast DirEntryType_DIRECTORY then (FhgfsOpsErr_EXISTS, False)
      else (FhgfsOpsErr_SUCCESS, False))"

text \<open>
  The renaming proper. Where the check of the overwritten entry ends it, the reference to the file
  is not given back.
\<close>

definition performRenameEntryInSameDir ::
    "StoreEnv \<Rightarrow> string \<Rightarrow> string \<Rightarrow> string \<Rightarrow> MetaStore \<Rightarrow> MetaFs \<Rightarrow>
       (FhgfsOpsErr \<times> DirEntry option \<times> MetaStore \<times> MetaFs) option" where
  "performRenameEntryInSameDir env p fromName toName s fs = do {
     (loaded, s1, fs1) \<leftarrow> onNode p (dn_loadIfNotLoaded (metaCfg env)) s fs;
     (if \<not> loaded then Some (FhgfsOpsErr_PATHNOTEXISTS, None, s1, fs1)
      else do {
        (fromEntry, fs2) \<leftarrow> createFromFile (metaCfg env) p fromName fs1;
        (case fromEntry of
           None \<Rightarrow> Some (FhgfsOpsErr_PATHNOTEXISTS, None, s1, fs2)
         | Some e \<Rightarrow> do {
             let info = de_getEntryInfo p 0 e;
             let isDir = (infoEntryType info = ucast DirEntryType_DIRECTORY);
             (got, s2, fs3) \<leftarrow> (if isDir then Some (True, s1, fs2) else referenceFileIn env p info s1 fs2);
             (if \<not> got then Some (FhgfsOpsErr_PATHNOTEXISTS, None, s2, fs3)
              else do {
                (over, fs4) \<leftarrow> createFromFile (metaCfg env) p toName fs3;
                let check = (case over of
                    None \<Rightarrow> (FhgfsOpsErr_SUCCESS, False)
                  | Some o1 \<Rightarrow> checkRenameOverwrite info (de_getEntryInfo p 0 o1));
                (if snd check then Some (fst check, None, s2, fs4)
                 else if fst check \<noteq> FhgfsOpsErr_SUCCESS then Some (fst check, None, s2, fs4)
                 else do {
                   (res, s3, fs5) \<leftarrow>
                     onNode p (renameDirEntry (metaCfg env) (envNow env) fromName toName over) s2 fs4;
                   s4 \<leftarrow> (if isDir then Some s3
                     else map_option snd (releaseFileIn p (infoEntryID info) s3));
                   Some (res, if res = FhgfsOpsErr_SUCCESS then over else None, s4, fs5)
                 })
              })
           })
      })
   }"

text \<open>Of the overwritten entry only the one by ID or the inode is left.\<close>

definition unlinkOverwrittenEntry ::
    "StoreEnv \<Rightarrow> string \<Rightarrow> DirEntry \<Rightarrow> bool \<Rightarrow> MetaStore \<Rightarrow> MetaFs \<Rightarrow>
       (FhgfsOpsErr \<times> FileInode option \<times> DirEntry \<times> MetaStore \<times> MetaFs) option" where
  "unlinkOverwrittenEntry env p entry wanted s fs =
     (if getIsInodeInlined entry
      then unlinkDirEntryWithInlinedInode env [] p entry DirEntry_UNLINK_ID wanted s fs
      else do {
        (res, out, s1, fs1) \<leftarrow> unlinkDentryAndInode env [] p entry DirEntry_UNLINK_ID wanted s fs;
        Some (res, out, entry, s1, fs1)
      })"

text \<open>An overwritten file that is in use is left for later; the inode that was removed is returned.\<close>

definition unlinkOverwrittenLater ::
    "StoreEnv \<Rightarrow> string \<Rightarrow> DirEntry \<Rightarrow> EntryInfo \<Rightarrow> bool \<Rightarrow> FhgfsOpsErr \<Rightarrow> FileInode option \<Rightarrow>
       MetaStore \<Rightarrow> MetaFs \<Rightarrow> (FileInode option \<times> MetaStore \<times> MetaFs) option" where
  "unlinkOverwrittenLater env p entry info wasInlined unlinkRes out s fs =
     (if unlinkRes \<noteq> FhgfsOpsErr_INUSE then Some (out, s, fs)
      else do {
        (later, _, s1, fs1) \<leftarrow> unlinkInodeLater env info wasInlined s fs;
        (if later \<noteq> FhgfsOpsErr_AGAIN then Some (out, s1, fs1)
         else do {
           (_, out1, _, s2, fs2) \<leftarrow> unlinkOverwrittenEntry env p entry True s1 fs1;
           Some (out1, s2, fs2)
         })
      })"

text \<open>The attributes are not read, as none of them is set.\<close>

definition noAttribs :: SettableFileAttribs where
  "noAttribs = \<lparr>mode = 0, userID = 0, groupID = 0, modificationTimeSecs = 0, lastAccessTimeSecs = 0\<rparr>"

definition renameInSameDir ::
    "StoreEnv \<Rightarrow> string \<Rightarrow> string \<Rightarrow> string \<Rightarrow> MetaStore \<Rightarrow> MetaFs \<Rightarrow>
       (FhgfsOpsErr \<times> FileInode option \<times> MetaStore \<times> MetaFs) option" where
  "renameInSameDir env p fromName toName s fs = do {
     (res, over, s1, fs1) \<leftarrow> performRenameEntryInSameDir env p fromName toName s fs;
     (if res \<noteq> FhgfsOpsErr_SUCCESS then Some (res, None, s1, fs1)
      else do {
        (unlinkRes, out, over1, s2, fs2) \<leftarrow>
          (case over of
             None \<Rightarrow> Some (FhgfsOpsErr_SUCCESS, None, None, s1, fs1)
           | Some e \<Rightarrow> map_option (\<lambda>(r, out, e1, s2, fs2). (r, out, Some e1, s2, fs2))
               (unlinkOverwrittenEntry env p e True s1 fs1));
        (entry, fs3) \<leftarrow> createFromFile (metaCfg env) p toName fs2;
        (s3, fs4) \<leftarrow>
          (case entry of
             None \<Rightarrow> Some (s2, fs3)
           | Some e \<Rightarrow> map_option snd
               (ms_setAttr env (de_getEntryInfo p 0 e) 0 noAttribs s2 fs3));
        (case (over, over1) of
           (Some e, Some e1) \<Rightarrow> do {
             (out1, s4, fs5) \<leftarrow> unlinkOverwrittenLater env p e1 (de_getEntryInfo p 0 e)
               (getIsInodeInlined e) unlinkRes out s3 fs4;
             Some (res, out1, s4, fs5)
           }
         | _ \<Rightarrow> Some (res, out, s3, fs4))
      })
   }"

section \<open>Creating files\<close>

text \<open>From an inode that exists already, in a directory that the caller has locked.\<close>

definition mkMetaFile ::
    "StoreEnv \<Rightarrow> string \<Rightarrow> DirEntryType \<Rightarrow> FileInode \<Rightarrow> DirNode \<Rightarrow> MetaFs \<Rightarrow>
       (FhgfsOpsErr \<times> DirNode \<times> MetaFs) option" where
  "mkMetaFile env name type inode d fs = do {
     let cfg = metaCfg env;
     let eid = inodeID (fiData inode);
     i \<leftarrow> setFileInodeStoreData (fiData inode) ((freshInodeData cfg)\<lparr>inodeID := eid\<rparr>);
     let i1 = i\<lparr>inodeFeatureFlags := inodeFeatureFlags (fiData inode)\<rparr>;
     makeDirEntry cfg (envNow env)
       (setFileInodeData i1 (newDirEntry cfg type name eid (localNodeNumID cfg))) d fs
   }"

definition insertDisposableFile ::
    "StoreEnv \<Rightarrow> FileInode \<Rightarrow> MetaStore \<Rightarrow> MetaFs \<Rightarrow> (FhgfsOpsErr \<times> MetaStore \<times> MetaFs) option" where
  "insertDisposableFile env inode s fs = do {
     (res, d, fs1) \<leftarrow> mkMetaFile env (inodeID (fiData inode))
       (posixFileTypeToDirEntryType (mode (settable (inodeStatData (fiData inode))))) inode (disposalDir s) fs;
     Some (res, s\<lparr>disposalDir := d\<rparr>, fs1)
   }"

text \<open>
  The access control lists are attributes of the users on the entries, which the model of the disk
  does not have: what the system calls give for them is an argument.
\<close>

record AclCalls =
  storeClientACLs :: bool
  readDefaultACL :: "errno + u8 list"
  writeAccessACL :: "u8 list \<Rightarrow> errno + unit"

definition getXAttr :: "errno + u8 list \<Rightarrow> FhgfsOpsErr \<times> u8 list" where
  "getXAttr r =
     (case r of
        Inr xattr \<Rightarrow> (FhgfsOpsErr_SUCCESS, xattr)
      | Inl e \<Rightarrow>
          (if e = ENOATTR then FhgfsOpsErr_NODATA else if e = ERANGE \<or> e = E2BIG then FhgfsOpsErr_RANGE
           else if e = ENOENT then FhgfsOpsErr_PATHNOTEXISTS else FhgfsOpsErr_INTERNAL, []))"

definition setXAttr :: "errno + unit \<Rightarrow> FhgfsOpsErr" where
  "setXAttr r =
     (case r of
        Inr _ \<Rightarrow> FhgfsOpsErr_SUCCESS
      | Inl e \<Rightarrow>
          if e = EEXIST then FhgfsOpsErr_EXISTS else if e = ENOATTR then FhgfsOpsErr_NODATA
          else if e = ERANGE \<or> e = E2BIG then FhgfsOpsErr_RANGE else if e = ENOENT then FhgfsOpsErr_PATHNOTEXISTS
          else if e = ENOSPC then FhgfsOpsErr_NOSPACE else FhgfsOpsErr_INTERNAL)"

record MkFileDetails =
  newName :: string
  mkUserID :: u32
  mkGroupID :: u32
  mkMode :: i32
  mkUmask :: i32

text \<open>
  The mode of the new file and, if one is needed, the attribute with its access control list. A read
  beyond the attribute (None) cannot happen, as its length is known.
\<close>

definition newFileMode ::
    "AclCalls \<Rightarrow> MkFileDetails \<Rightarrow> (FhgfsOpsErr + i32 \<times> u8 list option) option" where
  "newFileMode acls mk =
     (let plain = Some (Inr (mkMode mk AND NOT (mkUmask mk), None))
      in if \<not> storeClientACLs acls then Some (Inr (mkMode mk, None))
         else case getXAttr (readDefaultACL acls) of
           (FhgfsOpsErr_SUCCESS, xattr) \<Rightarrow>
             (case deserializeXAttr xattr of
                Inl ReadBeyondBuffer \<Rightarrow> None
              | Inl DecodeFail \<Rightarrow> Some (Inl FhgfsOpsErr_INTERNAL)
              | Inr acl \<Rightarrow>
                  if acl = [] then plain
                  else (case modifyModeBits (mkMode mk) acl of
                      (res, needsACL, m, acl1) \<Rightarrow>
                        if res \<noteq> FhgfsOpsErr_SUCCESS then Some (Inl res)
                        else Some (Inr (m, if needsACL then Some (serializeXAttr acl1) else None))))
         | (FhgfsOpsErr_NODATA, _) \<Rightarrow> plain
         | _ \<Rightarrow> Some (Inl FhgfsOpsErr_INTERNAL))"

definition getAssignedNumTargets :: "StripePattern \<Rightarrow> nat" where
  "getAssignedNumTargets p = (if patternClass p = SimplePatternClass then 0 else length (stripeTargetIDs p))"

definition newFileStat :: "i64 \<Rightarrow> i32 \<Rightarrow> u32 \<Rightarrow> u32 \<Rightarrow> nat \<Rightarrow> StatData" where
  "newFileStat now m uid gid targets =
     \<lparr>statFlags = 0, statFileSize = 0, creationTimeSecs = now, attribChangeTimeSecs = now, nlink = 1,
      settable = \<lparr>mode = m, userID = uid, groupID = gid, modificationTimeSecs = now,
        lastAccessTimeSecs = now\<rparr>,
      contentsVersion = 0, chunkBlocksVec = newChunksBlocksVec targets\<rparr>"

text \<open>The results: the entry information where it is set, and the ID counter.\<close>

definition mkNewMetaFile ::
    "StoreEnv \<Rightarrow> AclCalls \<Rightarrow> u64 \<Rightarrow> string \<Rightarrow> MkFileDetails \<Rightarrow> StripePattern \<Rightarrow> MetaStore \<Rightarrow> MetaFs \<Rightarrow>
       (FhgfsOpsErr \<times> EntryInfo option \<times> u64 \<times> MetaStore \<times> MetaFs) option" where
  "mkNewMetaFile env acls counter p mk pattern s fs = do {
     let cfg = metaCfg env;
     let owner = localNodeNumID cfg;
     let (newEntryID, counter1) = generateFileID owner counter;
     (if mkMode mk AND S_IFMT = 0x4000 then Some (FhgfsOpsErr_INVAL, None, counter1, s, fs)
      else do {
        (loaded, s1, fs1) \<leftarrow> onNode p (dn_loadIfNotLoaded cfg) s fs;
        (if \<not> loaded then Some (FhgfsOpsErr_PATHNOTEXISTS, None, counter1, s1, fs1)
         else do {
           decided \<leftarrow> newFileMode acls mk;
           (case decided of
              Inl res \<Rightarrow> Some (res, None, counter1, s1, fs1)
            | Inr (m, acl) \<Rightarrow> do {
                d \<leftarrow> nodeOf p s1;
                let type = posixFileTypeToDirEntryType m;
                let st = newFileStat (envNow env) m (mkUserID mk) (mkGroupID mk) (getAssignedNumTargets pattern);
                let i = newFileInodeStoreData newEntryID st pattern (ucast ENTRYINFO_FEATURE_INLINED)
                  (userID (settable (dirStatData (dnInode d)))) (dirID (dnInode d)) FileInodeOrigFeature_TRUE;
                (res, s2, fs2) \<leftarrow> onNode p (makeDirEntry cfg (envNow env)
                  (setFileInodeData i (newDirEntry cfg type (newName mk) newEntryID owner))) s1 fs1;
                let info = \<lparr>infoOwnerNodeID = owner, infoParentEntryID = dirID (dnInode d),
                  infoEntryID = newEntryID, infoFileName = newName mk, infoEntryType = ucast type,
                  infoFlags = ENTRYINFO_FEATURE_INLINED\<rparr>;
                let aclFailed = (case acl of None \<Rightarrow> False
                  | Some xattr \<Rightarrow> setXAttr (writeAccessACL acls xattr) \<noteq> FhgfsOpsErr_SUCCESS);
                Some (if aclFailed then FhgfsOpsErr_INTERNAL else res, Some info, counter1, s2, fs2)
              })
         })
      })
   }"

section \<open>Renaming to another server\<close>

definition des_getFileEntryInfo ::
    "MetaConfig \<Rightarrow> string \<Rightarrow> string \<Rightarrow> MetaFs \<Rightarrow> (EntryInfo option \<times> MetaFs) option" where
  "des_getFileEntryInfo cfg dir name fs = do {
     (info, fs1) \<leftarrow> des_getEntryInfo cfg dir name fs;
     Some (case info of
         Some i \<Rightarrow> if DirEntryType_ISFILE (ucast (infoEntryType i)) then Some i else None
       | None \<Rightarrow> None, fs1)
   }"

text \<open>
  The new entry is made from the record \<open>buf\<close> of the other server. The results: the inode of an
  overwritten file, and the new entry.
\<close>

definition makeRemoteFile ::
    "StoreEnv \<Rightarrow> EntryInfo \<Rightarrow> string \<Rightarrow> string \<Rightarrow> u8 list \<Rightarrow> MetaStore \<Rightarrow> MetaFs \<Rightarrow>
       (FhgfsOpsErr \<times> EntryInfo option \<times> MetaStore \<times> MetaFs) option" where
  "makeRemoteFile env info p name buf s fs = do {
     let cfg = metaCfg env;
     read \<leftarrow> deserializeMetaData cfg buf (blankFileInode cfg);
     (case read of
        None \<Rightarrow> Some (FhgfsOpsErr_INTERNAL, None, s, fs)
      | Some inode \<Rightarrow> do {
          (made, s1, fs1) \<leftarrow> onNode p (mkMetaFile env name (ucast (infoEntryType info)) inode) s fs;
          (if made \<noteq> FhgfsOpsErr_SUCCESS then Some (made, None, s1, fs1)
           else do {
             (newInfo, fs2) \<leftarrow> des_getFileEntryInfo cfg p name fs1;
             Some (if newInfo = None then FhgfsOpsErr_INTERNAL else made, newInfo, s1, fs2)
           })
        })
   }"

definition moveRemoteFileInto ::
    "StoreEnv \<Rightarrow> EntryInfo \<Rightarrow> string \<Rightarrow> string \<Rightarrow> u8 list \<Rightarrow> MetaStore \<Rightarrow> MetaFs \<Rightarrow>
       (FhgfsOpsErr \<times> FileInode option \<times> EntryInfo option \<times> MetaStore \<times> MetaFs) option" where
  "moveRemoteFileInto env info p name buf s fs = do {
     let cfg = metaCfg env;
     (over, fs1) \<leftarrow> createFromFile cfg p name fs;
     let check = (case over of
         None \<Rightarrow> (FhgfsOpsErr_SUCCESS, False)
       | Some e \<Rightarrow> checkRenameOverwrite info (de_getEntryInfo (dentryID (deData e)) 0 e));
     (if snd check \<or> fst check \<noteq> FhgfsOpsErr_SUCCESS then Some (fst check, None, None, s, fs1)
      else do {
        (unlinked, s1, fs2) \<leftarrow>
          (case over of
             None \<Rightarrow> Some (FhgfsOpsErr_SUCCESS, s, fs1)
           | Some e \<Rightarrow> onNode p
               (dn_unlinkDirEntry cfg (envNow env) name (Some e) DirEntry_UNLINK_FILENAME) s fs1);
        (if unlinked \<notin> {FhgfsOpsErr_SUCCESS, FhgfsOpsErr_PATHNOTEXISTS}
         then Some (unlinked, None, None, s1, fs2)
         else do {
           (res, newInfo, s2, fs3) \<leftarrow> makeRemoteFile env info p name buf s1 fs2;
           (if res \<noteq> FhgfsOpsErr_SUCCESS then Some (res, None, newInfo, s2, fs3)
            else case over of
              None \<Rightarrow> Some (res, None, newInfo, s2, fs3)
            | Some e \<Rightarrow> do {
                (unlinkRes, out, e1, s3, fs4) \<leftarrow> unlinkOverwrittenEntry env p e True s2 fs3;
                (out1, s4, fs5) \<leftarrow> unlinkOverwrittenLater env p e1 (de_getEntryInfo p 0 e1)
                  (getIsInodeInlined e) unlinkRes out s3 fs4;
                Some (res, out1, newInfo, s4, fs5)
              })
         })
      })
   }"

definition moveRemoteFileInsert ::
    "StoreEnv \<Rightarrow> EntryInfo \<Rightarrow> string \<Rightarrow> string \<Rightarrow> u8 list \<Rightarrow> MetaStore \<Rightarrow> MetaFs \<Rightarrow>
       (FhgfsOpsErr \<times> FileInode option \<times> EntryInfo option \<times> MetaStore \<times> MetaFs) option" where
  "moveRemoteFileInsert env info p name buf s fs = do {
     (gotDir, s1, fs1) \<leftarrow> ms_referenceDir env p True s fs;
     (if \<not> gotDir then Some (FhgfsOpsErr_PATHNOTEXISTS, None, None, s1, fs1)
      else do {
        (res, out, newInfo, s2, fs2) \<leftarrow> moveRemoteFileInto env info p name buf s1 fs1;
        Some (res, out, newInfo, ms_releaseDir env p s2, fs2)
      })
   }"

definition moveRemoteFileBegin ::
    "StoreEnv \<Rightarrow> string \<Rightarrow> EntryInfo \<Rightarrow> nat \<Rightarrow> MetaStore \<Rightarrow> MetaFs \<Rightarrow>
       (FhgfsOpsErr \<times> u8 list \<times> MetaStore \<times> MetaFs) option" where
  "moveRemoteFileBegin env p info bufLen s fs =
     (if isInStore (infoEntryID info) (fileStore s)
      then do {
        (res, buf, m, fs1) \<leftarrow>
          moveRemoteBegin (metaCfg env) (envNow env) (envTID env) info bufLen (fileStore s) fs;
        Some (res, buf, s\<lparr>fileStore := m\<rparr>, fs1)
      }
      else do {
        files \<leftarrow> filesOf p s;
        (res, buf, m, fs1) \<leftarrow>
          moveRemoteBegin (metaCfg env) (envNow env) (envTID env) info bufLen files fs;
        Some (res, buf, putFiles p m s, fs1)
      })"

definition moveRemoteFileComplete :: "string \<Rightarrow> string \<Rightarrow> MetaStore \<Rightarrow> MetaStore option" where
  "moveRemoteFileComplete p eid s =
     (if isInStore eid (fileStore s) then Some (s\<lparr>fileStore := moveRemoteComplete eid (fileStore s)\<rparr>)
      else do {
        files \<leftarrow> filesOf p s;
        Some (putFiles p (moveRemoteComplete eid files) s)
      })"

section \<open>Directories\<close>

definition ms_setDirParent ::
    "StoreEnv \<Rightarrow> EntryInfo \<Rightarrow> u16 \<Rightarrow> MetaStore \<Rightarrow> MetaFs \<Rightarrow>
       (FhgfsOpsErr \<times> MetaStore \<times> MetaFs) option" where
  "ms_setDirParent env info newParentNode s fs =
     (if \<not> DirEntryType_ISDIR (ucast (infoEntryType info)) then Some (FhgfsOpsErr_INTERNAL, s, fs)
      else do {
        let p = infoEntryID info;
        (gotDir, s1, fs1) \<leftarrow> ms_referenceDir env p True s fs;
        (if \<not> gotDir then Some (FhgfsOpsErr_PATHNOTEXISTS, s1, fs1)
         else do {
           (res, s2, fs2) \<leftarrow>
             onNode p (setDirParentAndChangeTime (metaCfg env) (envNow env) info newParentNode) s1 fs1;
           Some (res, ms_releaseDir env p s2, fs2)
         })
      })"

text \<open>For every regular file the caller is told to ask for the attributes again.\<close>

definition ms_getEntryData ::
    "StoreEnv \<Rightarrow> string \<Rightarrow> string \<Rightarrow> MetaStore \<Rightarrow> MetaFs \<Rightarrow>
       (FhgfsOpsErr \<times> (EntryInfo \<times> FileInodeStoreData) option \<times> MetaFs) option" where
  "ms_getEntryData env p name s fs = do {
     d \<leftarrow> nodeOf p s;
     files \<leftarrow> filesOf p s;
     (res, out, fs1) \<leftarrow> dn_getEntryData (metaCfg env) (\<lambda>eid. isInStore eid files) name d fs;
     Some (case out of
         Some (info, _) \<Rightarrow>
           if res = FhgfsOpsErr_SUCCESS \<and> DirEntryType_ISREGULARFILE (infoEntryType info)
           then FhgfsOpsErr_DYNAMICATTRIBSOUTDATED else res
       | None \<Rightarrow> res, out, fs1)
   }"

end
