(* ===== verification/MetaStoreSteps.thy ===== *)
theory MetaStoreSteps
  imports MetaStoreRefs MetaStoreOps
begin

text \<open>
  The reference counts while entries are created and removed. These calls reference files for
  themselves, without a reference to the directory, and release them at the end; in between the
  counts are those of the callers and one more.
\<close>

section \<open>States with the same references\<close>

definition sameDirs :: "InodeDirStore \<Rightarrow> InodeDirStore \<Rightarrow> bool" where
  "sameDirs s s' \<longleftrightarrow> refCache s' = refCache s \<and>
     (\<forall>p. map_option (\<lambda>r. (dirRefCount r, dnExclusive (dirObject r))) (fmlookup (storeDirs s') p) =
       map_option (\<lambda>r. (dirRefCount r, dnExclusive (dirObject r))) (fmlookup (storeDirs s) p))"

definition stores_ok :: "MetaStore \<Rightarrow> bool" where
  "stores_ok s \<longleftrightarrow> store_ok (fileStore s) \<and> (\<forall>p. store_ok (filesIn s p))"

definition sameRefs :: "MetaStore \<Rightarrow> MetaStore \<Rightarrow> bool" where
  "sameRefs s s' \<longleftrightarrow> sameDirs (dirStore s) (dirStore s') \<and> untouched (fileStore s) (fileStore s') \<and>
     (\<forall>p. untouched (filesIn s p) (filesIn s' p))"

lemma sameDirs_refl [simp]: "sameDirs s s"
  by (simp add: sameDirs_def)

lemma sameDirs_trans: "sameDirs a b \<Longrightarrow> sameDirs b c \<Longrightarrow> sameDirs a c"
  by (simp add: sameDirs_def)

lemma untouched_trans: "untouched a b \<Longrightarrow> untouched b c \<Longrightarrow> untouched a c"
  by (simp add: untouched_def)

lemma sameRefs_refl: "stores_ok s \<Longrightarrow> sameRefs s s"
  by (simp add: sameRefs_def stores_ok_def untouched_refl)

lemma sameRefs_disposal [simp]: "sameRefs s (s'\<lparr>disposalDir := d\<rparr>) \<longleftrightarrow> sameRefs s s'"
  by (simp add: sameRefs_def)

lemma sameRefs_trans: "sameRefs a b \<Longrightarrow> sameRefs b c \<Longrightarrow> sameRefs a c"
  unfolding sameRefs_def using sameDirs_trans untouched_trans by blast

lemma sameRefs_ok: "sameRefs s s' \<Longrightarrow> stores_ok s'"
  by (simp add: sameRefs_def stores_ok_def untouched_def)

lemma inv_stores_ok: "refs_inv n fh dh s \<Longrightarrow> stores_ok s"
  using refs_invD(1,2) by (simp add: stores_ok_def)

lemma counts_same:
  assumes "counts s tot" "sameDirs s s'"
  shows "counts s' tot"
  unfolding counts_def
proof
  fix p
  have c: "count_ok (fmlookup (storeDirs s) p) (tot p)" using assms(1) by (simp add: counts_def)
  have "map_option (\<lambda>r. (dirRefCount r, dnExclusive (dirObject r))) (fmlookup (storeDirs s') p) =
      map_option (\<lambda>r. (dirRefCount r, dnExclusive (dirObject r))) (fmlookup (storeDirs s) p)"
    using assms(2) by (simp add: sameDirs_def)
  with c show "count_ok (fmlookup (storeDirs s') p) (tot p)"
    by (cases "fmlookup (storeDirs s') p"; cases "fmlookup (storeDirs s) p") auto
qed

lemma total_same:
  assumes "untouched m m'"
  shows "totalRefs m' = totalRefs m"
proof -
  have "totalRefs m' + refsIn m e = totalRefs m + refsIn m e" for e
    by (rule total_change) (use assms in \<open>simp add: untouched_def\<close>)
  then show ?thesis by simp
qed

text \<open>Such states are the same for the callers.\<close>

lemma sameRefs_inv:
  assumes inv: "refs_inv n fh dh s" and same: "sameRefs s s'"
  shows "refs_inv n fh dh s'"
proof -
  note d = refs_invD [OF inv]
  have g: "untouched (fileStore s) (fileStore s')" and l: "untouched (filesIn s p) (filesIn s' p)"
    and ds: "sameDirs (dirStore s) (dirStore s')" for p
    using same by (simp_all add: sameRefs_def)
  have t: "totalRefs (filesIn s' p) = totalRefs (filesIn s p)" for p using total_same [OF l] .
  have cache: "refCache (dirStore s') = refCache (dirStore s)" using ds by (simp add: sameDirs_def)
  have "counts (dirStore s) (\<lambda>p. dh p + totalRefs (filesIn s p) + cached (dirStore s) p)"
    using d(3) by (simp add: dir_ok_def)
  from counts_same [OF this ds]
  have "counts (dirStore s') (\<lambda>p. dh p + totalRefs (filesIn s' p) + cached (dirStore s') p)"
    by (simp add: t cached_def cache)
  moreover have "filesIn s' p \<noteq> fmempty \<longrightarrow> 0 < totalRefs (filesIn s' p)" for p
    using total_pos l [of p] by (simp add: untouched_def)
  ultimately have "dir_ok (dirStore s') (\<lambda>p. dh p + totalRefs (filesIn s' p))"
    using d(3) cache by (auto simp: dir_ok_def)
  moreover have "held s' fh e" for e
  proof -
    have "fmlookup (fileStore s') e = None \<longleftrightarrow> fmlookup (fileStore s) e = None"
      using store_ok_dom [OF d(1), of "fileStore s'" e] g by (simp add: untouched_def)
    moreover have "fmlookup (filesIn s' p) e = None \<longleftrightarrow> fmlookup (filesIn s p) e = None" for p
      using store_ok_dom [OF d(2), of "filesIn s' p" e] l [of p] by (simp add: untouched_def)
    ultimately show ?thesis using d(5) [of e] g l by (simp add: held_def untouched_def)
  qed
  ultimately show ?thesis using d g l t by (simp add: refs_inv_def untouched_def)
qed

section \<open>Changes that count nothing\<close>

lemma sameDirs_put:
  assumes "fmlookup (storeDirs s) p = Some r" "dirRefCount r' = dirRefCount r"
    "dnExclusive (dirObject r') = dnExclusive (dirObject r)"
  shows "sameDirs s (putDir p r' s)"
  using assms by (auto simp: sameDirs_def)

lemma sameRefs_global:
  "stores_ok s \<Longrightarrow> untouched (fileStore s) m \<Longrightarrow> sameRefs s (s\<lparr>fileStore := m\<rparr>)"
  by (simp add: sameRefs_def stores_ok_def untouched_refl)

lemma filesOf_Some: "filesOf p s = Some m \<Longrightarrow> m = filesIn s p \<and> (\<exists>r. fmlookup (storeDirs (dirStore s)) p = Some r)"
  by (auto simp: filesOf_def filesAt_def)

lemma putFiles_parts:
  assumes "filesOf p s = Some m0"
  shows "sameDirs (dirStore s) (dirStore (putFiles p m s))" "fileStore (putFiles p m s) = fileStore s"
    "filesIn (putFiles p m s) = (filesIn s)(p := m)"
proof -
  obtain r where r: "fmlookup (storeDirs (dirStore s)) p = Some r" using filesOf_Some [OF assms] by blast
  then show "sameDirs (dirStore s) (dirStore (putFiles p m s))"
    using sameDirs_put [OF r, of "r\<lparr>dirFiles := m\<rparr>"] by (simp add: putFiles_def)
  show "fileStore (putFiles p m s) = fileStore s" "filesIn (putFiles p m s) = (filesIn s)(p := m)"
    using r by (simp_all add: putFiles_def)
qed

lemma sameRefs_local:
  assumes "stores_ok s" "filesOf p s = Some m0" "untouched m0 m"
  shows "sameRefs s (putFiles p m s)"
proof -
  have "m0 = filesIn s p" using filesOf_Some [OF assms(2)] by blast
  with assms(1,3) putFiles_parts [OF assms(2), of m] show ?thesis
    by (simp add: sameRefs_def stores_ok_def untouched_refl)
qed

text \<open>The object of a directory, unless it is locked for a move.\<close>

definition keepsNode :: "(DirNode \<Rightarrow> MetaFs \<Rightarrow> ('a \<times> DirNode \<times> MetaFs) option) \<Rightarrow> bool" where
  "keepsNode operation \<longleftrightarrow> (\<forall>d fs a d' fs'. operation d fs = Some (a, d', fs') \<longrightarrow> dnExclusive d' = dnExclusive d)"

lemma onNode_same:
  assumes ok: "stores_ok s" and k: "keepsNode operation" and o: "onNode p operation s fs = Some (a, s', fs')"
  shows "sameRefs s s'"
proof -
  obtain d d' where d: "nodeOf p s = Some d" "operation d fs = Some (a, d', fs')" "s' = putNode p d' s"
    using o by (auto simp: onNode_def bind_eq_Some_conv)
  then obtain r where r: "fmlookup (storeDirs (dirStore s)) p = Some r" "d = dirObject r"
    by (auto simp: nodeOf_def)
  have "dnExclusive d' = dnExclusive d" using k d(2) unfolding keepsNode_def by blast
  then have "sameDirs (dirStore s) (dirStore s')"
    using sameDirs_put [OF r(1), of "r\<lparr>dirObject := d'\<rparr>"] r d(3) by (simp add: putNode_def)
  moreover have "fileStore s' = fileStore s" "filesIn s' = filesIn s"
    using r d(3) by (auto simp: putNode_def filesAt_def fun_eq_iff)
  ultimately show ?thesis using ok by (simp add: sameRefs_def stores_ok_def untouched_refl)
qed

lemma keepsNodeD: "keepsNode f \<Longrightarrow> f d fs = Some (a, d', fs') \<Longrightarrow> dnExclusive d' = dnExclusive d"
  unfolding keepsNode_def by blast

lemma keeps_update [simp]: "dnExclusive (dn_update g d) = dnExclusive d"
  by (simp add: dn_update_def)

lemma keeps_load: "keepsNode (dn_loadIfNotLoaded cfg)"
  using load_keeps by (auto simp: keepsNode_def)

lemma keeps_store: "keepsNode (dn_storeUpdated cfg)"
  using store_exclusive by (auto simp: keepsNode_def)

lemma keeps_times: "keepsNode (\<lambda>d. dn_updateTimeStamps cfg now (dn_update g d))"
  using store_exclusive by (fastforce simp: keepsNode_def dn_updateTimeStamps_def)

lemmas keeps_counts =
  keepsNodeD [OF keeps_times [of cfg now "\<lambda>i. i\<lparr>numSubdirs := numSubdirs i + 1\<rparr>" for cfg now],
    folded increaseNumSubDirs_def]
  keepsNodeD [OF keeps_times [of cfg now "\<lambda>i. i\<lparr>numFiles := numFiles i + 1\<rparr>" for cfg now],
    folded increaseNumFiles_def]
  keepsNodeD [OF keeps_times [of cfg now
    "\<lambda>i. if numFiles i = 0 then i else i\<lparr>numFiles := numFiles i - 1\<rparr>" for cfg now], folded decreaseNumFiles_def]
  keepsNodeD [OF keeps_times [of cfg now
    "\<lambda>i. if numSubdirs i = 0 then i else i\<lparr>numSubdirs := numSubdirs i - 1\<rparr>" for cfg now],
    folded decreaseNumSubDirs_def]

lemma keeps_loaded:
  assumes "keepsNode operation"
  shows "keepsNode (dn_withLoaded cfg operation)"
  unfolding keepsNode_def
proof (intro allI impI)
  fix d fs a d' fs' assume w: "dn_withLoaded cfg operation d fs = Some (a, d', fs')"
  then obtain l d1 fs1 where l: "dn_loadIfNotLoaded cfg d fs = Some (l, d1, fs1)"
    by (auto simp: dn_withLoaded_def split: option.splits)
  show "dnExclusive d' = dnExclusive d"
    using w l load_keeps [OF l] keepsNodeD [OF assms, of d1 fs1 a d' fs']
    by (auto simp: dn_withLoaded_def split: if_splits)
qed

lemma keeps_make: "keepsNode (makeDirEntry cfg now e)"
proof -
  have "keepsNode (\<lambda>d1 fs1. case makeEntry cfg (dnEntriesID d1) e fs1 of None \<Rightarrow> None
      | Some (res, fs2) \<Rightarrow> if res \<noteq> FhgfsOpsErr_SUCCESS then Some (res, d1, fs2)
          else map_option (\<lambda>(_, d2, fs3). (res, d2, fs3))
            (if DirEntryType_ISDIR (entryType (deData e)) then increaseNumSubDirs cfg now d1 fs2
             else increaseNumFiles cfg now d1 fs2))"
    by (auto simp: keepsNode_def split: option.splits if_splits dest: keeps_counts)
  from keepsNodeD [OF keeps_loaded [OF this]] show ?thesis
    by (auto simp: keepsNode_def makeDirEntry_def Let_def split: if_splits)
qed

lemma keeps_unlinkEntry: "unlinkEntry cfg now name e flags d fs = Some (a, d', fs') \<Longrightarrow> dnExclusive d' = dnExclusive d"
  by (auto simp: unlinkEntry_def split: prod.splits if_splits dest: keeps_counts)

lemma keeps_unlink: "keepsNode (dn_unlinkDirEntry cfg now name e flags)"
  unfolding dn_unlinkDirEntry_def
  by (rule keeps_loaded) (auto simp: keepsNode_def split: option.splits if_splits dest: keeps_unlinkEntry)

lemma keeps_busy: "keepsNode (unlinkBusyFile cfg now name e flags disposal)"
  by (auto simp: keepsNode_def unlinkBusyFile_def split: option.splits prod.splits if_splits
      dest: keeps_counts)

lemma keeps_link: "keepsNode (linkFilesInDir cfg now fromName toName)"
  by (auto simp: keepsNode_def linkFilesInDir_def split: prod.splits if_splits dest: keeps_counts)

lemma keeps_parent: "keepsNode (setDirParentAndChangeTime cfg now info node)"
  unfolding setDirParentAndChangeTime_def
  by (rule keeps_loaded) (auto simp: keepsNode_def dest!: setAttrDir_exclusive)

section \<open>A reference of the call itself\<close>

definition oneMore :: "string \<Rightarrow> string \<Rightarrow> MetaStore \<Rightarrow> MetaStore \<Rightarrow> bool" where
  "oneMore p e s s' \<longleftrightarrow> sameDirs (dirStore s) (dirStore s') \<and>
     (if fmlookup (fileStore s) e \<noteq> None
      then acquired (fileStore s) e True (fileStore s') \<and> (\<forall>q. untouched (filesIn s q) (filesIn s' q))
      else untouched (fileStore s) (fileStore s') \<and> acquired (filesIn s p) e True (filesIn s' p) \<and>
        (\<forall>q. q \<noteq> p \<longrightarrow> untouched (filesIn s q) (filesIn s' q)))"

lemma acquired_untouched: "acquired a e True b \<Longrightarrow> untouched b c \<Longrightarrow> acquired a e True c"
  by (simp add: acquired_def untouched_def)

lemma oneMore_same: "oneMore p e s s1 \<Longrightarrow> sameRefs s1 s2 \<Longrightarrow> oneMore p e s s2"
  unfolding oneMore_def sameRefs_def
  using sameDirs_trans untouched_trans acquired_untouched by (smt (verit))

lemma oneMore_ok: "oneMore p e s s' \<Longrightarrow> stores_ok s'"
  unfolding oneMore_def stores_ok_def acquired_def untouched_def by (metis (full_types))

lemma given_back_again:
  assumes "acquired a e True b" "given_back b e c" "store_ok a"
  shows "untouched a c"
proof -
  have "refsIn a e = 0 \<Longrightarrow> parentRefs a e = 0"
    using refsIn_pos [OF assms(3), of e] by (simp add: parentRefs_def)
  then show ?thesis using assms(1,2) by (auto simp: acquired_def given_back_def untouched_def)
qed

definition few :: "MetaStore \<Rightarrow> bool" where
  "few s \<longleftrightarrow> (\<forall>e. refsIn (fileStore s) e < 2 ^ 30) \<and> (\<forall>p e. refsIn (filesIn s p) e < 2 ^ 30)"

lemma few_same: "few s \<Longrightarrow> sameRefs s s' \<Longrightarrow> few s'"
  by (simp add: few_def sameRefs_def untouched_def)

lemma inv_few: "refs_inv n fh dh s \<Longrightarrow> n < 2 ^ 30 \<Longrightarrow> few s"
  unfolding few_def using refs_bound le_less_trans by blast

lemma reference_in:
  assumes ok: "stores_ok s" "few s" and r: "referenceFileIn env p info s fs = Some (got, s', fs')"
  shows "if got then oneMore p (infoEntryID info) s s' else sameRefs s s'"
proof -
  let ?e = "infoEntryID info"
  obtain g m fs1 where g: "ifs_referenceFileInode (metaCfg env) (envTID env) info False (fileStore s) fs =
      Some (g, m, fs1)"
    using r by (auto simp: referenceFileIn_def bind_eq_Some_conv)
  have "store_ok (fileStore s)" "refsIn (fileStore s) ?e < 2 ^ 30"
    using ok by (simp_all add: stores_ok_def few_def)
  note gs = file_reference [OF g this]
  show ?thesis
  proof (cases g)
    case True
    then have "got" "s' = s\<lparr>fileStore := m\<rparr>" using r g by (auto simp: referenceFileIn_def)
    then show ?thesis
      using gs True ok(1) by (simp add: oneMore_def acquired_def stores_ok_def untouched_refl)
  next
    case False
    then have none: "fmlookup (fileStore s) ?e = None" using gs by simp
    obtain files m1 fs2 where f: "filesOf p s = Some files"
      and g1: "ifs_referenceFileInode (metaCfg env) (envTID env) info True files fs1 = Some (got, m1, fs2)"
      and s': "s' = putFiles p m1 s"
      using r g False by (auto simp: referenceFileIn_def bind_eq_Some_conv)
    have files: "files = filesIn s p" using filesOf_Some [OF f] by simp
    have "store_ok files" "refsIn files ?e < 2 ^ 30" using ok files by (simp_all add: stores_ok_def few_def)
    note g1s = file_reference [OF g1 this]
    show ?thesis
    proof (cases got)
      case True
      then show ?thesis
        using g1s ok(1) none files putFiles_parts [OF f, of m1] s'
        by (simp add: oneMore_def acquired_def stores_ok_def untouched_refl)
    next
      case False
      then have "untouched files m1" using g1s \<open>store_ok files\<close> by (simp add: untouched_refl)
      from sameRefs_local [OF ok(1) f this] s' False show ?thesis by simp
    qed
  qed
qed

lemma reference_loaded_in:
  assumes ok: "stores_ok s" "few s" and r: "referenceLoadedFileIn env p e s = Some (got, s')"
  shows "if got then oneMore p e s s' else sameRefs s s'"
proof -
  obtain g m where g: "referenceLoadedFile (envTID env) e (fileStore s) = (g, m)" by fastforce
  have "store_ok (fileStore s)" "refsIn (fileStore s) e < 2 ^ 30"
    using ok by (simp_all add: stores_ok_def few_def)
  note gs = loaded_reference [OF g this]
  show ?thesis
  proof (cases g)
    case True
    then have "got" "s' = s\<lparr>fileStore := m\<rparr>" using r g by (auto simp: referenceLoadedFileIn_def)
    then show ?thesis
      using gs True ok(1) by (simp add: oneMore_def acquired_def stores_ok_def untouched_refl)
  next
    case False
    then have none: "fmlookup (fileStore s) e = None" using gs by simp
    obtain files where f: "filesOf p s = Some files"
      using r g False by (auto simp: referenceLoadedFileIn_def bind_eq_Some_conv)
    obtain w m1 where w: "referenceLoadedFile (envTID env) e files = (w, m1)" by fastforce
    then have g1: "referenceLoadedFile (envTID env) e files = (got, m1)" and s': "s' = putFiles p m1 s"
      using r g False f by (simp_all add: referenceLoadedFileIn_def)
    have files: "files = filesIn s p" using filesOf_Some [OF f] by simp
    have "store_ok files" "refsIn files e < 2 ^ 30" using ok files by (simp_all add: stores_ok_def few_def)
    note g1s = loaded_reference [OF g1 this]
    show ?thesis
    proof (cases got)
      case True
      then show ?thesis
        using g1s ok(1) none files putFiles_parts [OF f, of m1] s'
        by (auto simp: oneMore_def acquired_def stores_ok_def untouched_refl)
    next
      case False
      then have "untouched files m1" using g1s \<open>store_ok files\<close> by (auto simp: untouched_refl)
      from sameRefs_local [OF ok(1) f this] s' False show ?thesis by simp
    qed
  qed
qed

lemma release_in:
  assumes ok: "stores_ok s" and more: "oneMore p e s s1" and r: "releaseFileIn p e s1 = Some (res, s')"
  shows "sameRefs s s'"
proof -
  note ok1 = oneMore_ok [OF more]
  have d: "sameDirs (dirStore s) (dirStore s1)" using more by (simp add: oneMore_def)
  obtain g m where g: "releaseFileInode e (fileStore s1) = (g, m)" by fastforce
  have s1: "store_ok (fileStore s1)" "store_ok (filesIn s1 p)" using ok1 by (simp_all add: stores_ok_def)
  show ?thesis
  proof (cases "fmlookup (fileStore s) e")
    case (Some x)
    then have a: "acquired (fileStore s) e True (fileStore s1)"
        "\<forall>q. untouched (filesIn s q) (filesIn s1 q)"
      using more by (simp_all add: oneMore_def)
    then have "fmlookup (fileStore s1) e \<noteq> None" using refsIn_pos [OF s1(1), of e] by (simp add: acquired_def)
    from release_file_given [OF s1(1) g this] have g1: "g" "given_back (fileStore s1) e m" by simp_all
    then have "s' = s1\<lparr>fileStore := m\<rparr>" using r g by (simp add: releaseFileIn_def)
    with given_back_again [OF a(1) g1(2)] a(2) d ok show ?thesis by (simp add: sameRefs_def stores_ok_def)
  next
    case None
    then have a: "untouched (fileStore s) (fileStore s1)" "acquired (filesIn s p) e True (filesIn s1 p)"
        "\<forall>q. q \<noteq> p \<longrightarrow> untouched (filesIn s q) (filesIn s1 q)"
      using more by (simp_all add: oneMore_def)
    have "store_ok (fileStore s)" using ok by (simp add: stores_ok_def)
    then have "fmlookup (fileStore s1) e = None"
      using store_ok_dom [of "fileStore s" "fileStore s1" e] a(1) s1(1) None by (simp add: untouched_def)
    then have "g = False" using g by (simp add: releaseFileInode_def)
    then obtain files where f: "filesOf p s1 = Some files"
      using r g by (auto simp: releaseFileIn_def bind_eq_Some_conv)
    obtain w m1 where w: "releaseFileInode e files = (w, m1)" by fastforce
    then have g1: "releaseFileInode e files = (res, m1)" and s': "s' = putFiles p m1 s1"
      using r g f \<open>g = False\<close> by (simp_all add: releaseFileIn_def)
    have files: "files = filesIn s1 p" using filesOf_Some [OF f] by simp
    then have "fmlookup files e \<noteq> None" using refsIn_pos [OF s1(2), of e] a(2) by (simp add: acquired_def)
    from release_file_given [OF _ g1 this] s1(2) files have "given_back (filesIn s1 p) e m1" by simp
    from given_back_again [OF a(2) this] ok have u: "untouched (filesIn s p) m1" by (simp add: stores_ok_def)
    have "sameDirs (dirStore s) (dirStore s')"
      using sameDirs_trans [OF d] putFiles_parts(1) [OF f] s' by blast
    with u a(1,3) putFiles_parts(2,3) [OF f, of m1] s' show ?thesis by (simp add: sameRefs_def)
  qed
qed

text \<open>The object of a file, wherever it is.\<close>

lemma updateObject_untouched:
  assumes "store_ok m" "\<And>r. fmlookup m e = Some r \<Longrightarrow> refs_kept (refObject r) (g (refObject r))"
  shows "untouched m (updateObject e g m)"
proof (cases "fmlookup m e")
  case (Some r)
  with untouched_upd [OF assms(1) Some assms(2)] show ?thesis by (simp add: updateObject_def)
qed (simp add: updateObject_def untouched_refl assms(1))

lemma change_same:
  assumes ok: "stores_ok s" and k: "\<And>f. inodeAt p e s = Some f \<Longrightarrow> refs_kept f (g f)"
  shows "sameRefs s (changeInode p e g s)"
proof (cases "fmlookup (fileStore s) e")
  case (Some r)
  then have "untouched (fileStore s) (updateObject e g (fileStore s))"
    by (intro updateObject_untouched) (use ok k in \<open>simp_all add: stores_ok_def inodeAt_def\<close>)
  from sameRefs_global [OF ok this] Some show ?thesis by (simp add: changeInode_def isInStore_def)
next
  case None
  show ?thesis
  proof (cases "filesOf p s")
    case (Some files)
    have "untouched files (updateObject e g files)"
      by (rule updateObject_untouched)
        (use ok k None Some filesOf_Some [OF Some] in \<open>simp_all add: stores_ok_def inodeAt_def\<close>)
    from sameRefs_local [OF ok Some this] None Some show ?thesis by (simp add: changeInode_def isInStore_def)
  qed (use None sameRefs_refl [OF ok] in \<open>simp add: changeInode_def isInStore_def\<close>)
qed

lemma refs_kept_links: "fi_incDecNumHardLinks cfg now info v f fs = Some (res, f', fs') \<Longrightarrow> refs_kept f f'"
  by (auto simp: fi_incDecNumHardLinks_def dest!: refs_kept_store)
    (auto simp: refs_kept_def fi_updateStat_def)

lemma links_untouched:
  assumes "store_ok m" "incDecLinkCount cfg now e info v m fs = Some (res, m', fs')"
  shows "untouched m m'"
proof -
  obtain r where r: "fmlookup m e = Some r" using assms(2) by (auto simp: incDecLinkCount_def split: option.splits)
  then obtain f w fs1 where "fi_incDecNumHardLinks cfg now info v (refObject r) fs = Some (w, f, fs1)"
    "m' = fmupd e (r\<lparr>refObject := f\<rparr>) m"
    using assms(2) by (auto simp: incDecLinkCount_def)
  then show ?thesis using untouched_upd [OF assms(1) r] refs_kept_links by blast
qed

lemma links_same:
  assumes ok: "stores_ok s" and l: "ms_incDecLinkCount env p info v s fs = Some (res, s', fs')"
  shows "sameRefs s s'"
proof (cases "isInStore (infoEntryID info) (fileStore s)")
  case True
  then show ?thesis
    using l ok sameRefs_global [OF ok links_untouched]
    by (auto simp: ms_incDecLinkCount_def bind_eq_Some_conv stores_ok_def)
next
  case False
  then obtain files m where f: "filesOf p s = Some files" and s': "s' = putFiles p m s"
    and i: "incDecLinkCount (metaCfg env) (envNow env) (infoEntryID info) info v files fs = Some (res, m, fs')"
    using l by (auto simp: ms_incDecLinkCount_def bind_eq_Some_conv)
  have "store_ok files" using ok filesOf_Some [OF f] by (simp add: stores_ok_def)
  from sameRefs_local [OF ok f links_untouched [OF this i]] s' show ?thesis by simp
qed

section \<open>Removing files\<close>

lemma clone_kept:
  assumes "fi_clone cfg now (setIsInlined False f) = Some (c, f1)"
  shows "refs_kept f f1"
proof -
  obtain buf where "serializeMetaData cfg now (setIsInlined False f) = Some (buf, f1)"
    using assms by (auto simp: fi_clone_def split: option.splits)
  from refs_kept_trans [OF refs_kept_simps(1) refs_kept_serialize [OF this]] show ?thesis .
qed

lemma busy_same:
  assumes ok: "stores_ok s" "few s"
    and u: "unlinkBusyInlined env name p entry info flags s fs = Some (res, entry', s', fs')"
    and e: "infoEntryID info = dentryID (deData entry)"
  shows "sameRefs s s'"
proof -
  let ?e = "dentryID (deData entry)"
  obtain got s1 where g: "referenceLoadedFileIn env p ?e s = Some (got, s1)"
    using u by (auto simp: unlinkBusyInlined_def Let_def bind_eq_Some_conv)
  note r = reference_loaded_in [OF ok g]
  show ?thesis
  proof (cases got)
    case False
    then show ?thesis using u g r by (auto simp: unlinkBusyInlined_def Let_def)
  next
    case True
    then have more: "oneMore p ?e s s1" using r by simp
    obtain inode where i: "inodeAt p ?e s1 = Some inode"
      using u g True by (auto simp: unlinkBusyInlined_def Let_def bind_eq_Some_conv)
    define links where "links = getNumHardlinks inode"
    obtain err disp s1' fs1 where b: "onNode p (unlinkBusyFile (metaCfg env) (envNow env) name entry
        (if links > 1 then flags AND NOT DirEntry_UNLINK_ID else flags) (disposalDir s1)) s1 fs =
        Some ((err, disp), s1', fs1)"
      using u g True i by (auto simp: unlinkBusyInlined_def Let_def bind_eq_Some_conv links_def)
    define s2 where "s2 = s1'\<lparr>disposalDir := disp\<rparr>"
    have s2: "sameRefs s1 s2"
      using onNode_same [OF oneMore_ok [OF more] keeps_busy b] by (simp add: s2_def)
    let ?c = "if links < 2 then changeInode p ?e (setIsInlined False) s2 else s2"
    have c: "sameRefs s2 ?c" using change_same [OF sameRefs_ok [OF s2]] sameRefs_refl [OF sameRefs_ok [OF s2]] by simp
    have "\<exists>s3 w. (if err then s3 = s2 else \<exists>v fs3. ms_incDecLinkCount env p info (-1) ?c fs1 = Some (v, s3, fs3)) \<and>
        releaseFileIn p ?e s3 = Some (w, s')"
      using u g True i b unfolding s2_def
      by (cases err) (auto simp: unlinkBusyInlined_def Let_def bind_eq_Some_conv links_def)
    then obtain s3 w where s3: "(if err then s3 = s2 else \<exists>v fs3. ms_incDecLinkCount env p info (-1) ?c fs1 = Some (v, s3, fs3))"
      and rel: "releaseFileIn p ?e s3 = Some (w, s')" by blast
    have "sameRefs s2 s3"
    proof (cases err)
      case True
      then show ?thesis using s3 sameRefs_refl [OF sameRefs_ok [OF s2]] by simp
    next
      case False
      then show ?thesis using s3 links_same [OF sameRefs_ok [OF c]] sameRefs_trans [OF c] by auto
    qed
    from release_in [OF ok(1) oneMore_same [OF oneMore_same [OF more s2] this] rel] show ?thesis .
  qed
qed

lemma idle_same:
  assumes ok: "stores_ok s" "few s"
    and u: "unlinkIdleInlined env name p entry info flags wanted s fs = Some (res, out, s', fs')"
  shows "sameRefs s s'"
proof -
  let ?e = "infoEntryID info"
  obtain got s1 fs1 where g: "referenceFileIn env p info s fs = Some (got, s1, fs1)"
    using u by (auto simp: unlinkIdleInlined_def Let_def bind_eq_Some_conv)
  note r = reference_in [OF ok g]
  show ?thesis
  proof (cases got)
    case False
    then show ?thesis using u g r by (auto simp: unlinkIdleInlined_def Let_def)
  next
    case True
    then have more: "oneMore p ?e s s1" using r by simp
    obtain inode where i: "inodeAt p ?e s1 = Some inode"
      using u g True by (auto simp: unlinkIdleInlined_def Let_def bind_eq_Some_conv)
    define links where "links = getNumHardlinks inode"
    obtain res0 s2 fs2 where b: "onNode p (dn_unlinkDirEntry (metaCfg env) (envNow env) name (Some entry)
        (if links > 1 then flags AND NOT DirEntry_UNLINK_ID else flags)) s1 fs1 = Some (res0, s2, fs2)"
      using u g True i by (auto simp: unlinkIdleInlined_def Let_def bind_eq_Some_conv links_def)
    have s2: "sameRefs s1 s2" by (rule onNode_same [OF oneMore_ok [OF more] keeps_unlink b])
    obtain s3 fs3 where l: "(if res0 = FhgfsOpsErr_SUCCESS \<and> links > 1
        then map_option snd (ms_incDecLinkCount env p info (-1) s2 fs2) else Some (s2, fs2)) = Some (s3, fs3)"
      using u g True i b by (auto simp: unlinkIdleInlined_def Let_def bind_eq_Some_conv links_def)
    have s3: "sameRefs s2 s3"
      using l links_same [OF sameRefs_ok [OF s2]] sameRefs_refl [OF sameRefs_ok [OF s2]]
      by (auto split: if_splits)
    obtain s4 w where rel: "releaseFileIn p ?e s4 = Some (w, s')"
      and s4: "(if wanted \<and> links < 2 then \<exists>f c f1. inodeAt p ?e s3 = Some f \<and>
          fi_clone (metaCfg env) (envNow env) (setIsInlined False f) = Some (c, f1) \<and>
          s4 = changeInode p ?e (\<lambda>_. f1) s3
        else s4 = s3)"
      using u g True i b l
      by (cases "wanted \<and> links < 2") (auto simp: unlinkIdleInlined_def Let_def bind_eq_Some_conv links_def)
    have "sameRefs s3 s4"
    proof (cases "wanted \<and> links < 2")
      case True
      then obtain f c f1 where f: "inodeAt p ?e s3 = Some f"
        "fi_clone (metaCfg env) (envNow env) (setIsInlined False f) = Some (c, f1)"
        "s4 = changeInode p ?e (\<lambda>_. f1) s3"
        using s4 by auto
      show ?thesis unfolding f(3)
        by (rule change_same [OF sameRefs_ok [OF s3]]) (use f(1) clone_kept [OF f(2)] in simp)
    next
      case False
      then show ?thesis using s4 sameRefs_refl [OF sameRefs_ok [OF s3]] by simp
    qed
    from release_in [OF ok(1) oneMore_same [OF oneMore_same [OF oneMore_same [OF more s2] s3] this] rel]
    show ?thesis .
  qed
qed

lemma inlined_same:
  assumes ok: "stores_ok s" "few s"
    and u: "unlinkDirEntryWithInlinedInode env name p entry flags wanted s fs = Some (res, out, entry', s', fs')"
  shows "sameRefs s s'"
proof -
  let ?i = "de_getEntryInfo p ENTRYINFO_FEATURE_INLINED entry"
  have e: "infoEntryID ?i = dentryID (deData entry)" by (simp add: de_getEntryInfo_def)
  obtain k where k: "isFileUnlinkable env p ?i s = Some k"
    using u by (auto simp: unlinkDirEntryWithInlinedInode_def Let_def bind_eq_Some_conv)
  show ?thesis
    using u k busy_same [OF ok _ e] idle_same [OF ok] onNode_same [OF ok(1) keeps_unlink]
      sameRefs_refl [OF ok(1)]
    by (auto simp: unlinkDirEntryWithInlinedInode_def Let_def bind_eq_Some_conv split: if_splits)
qed

text \<open>With a directory that is locked nothing in the store changes.\<close>

lemma inode_same:
  "unlinkInodeUnlocked env info (Some p) wanted s fs = Some (res, out, s', fs') \<Longrightarrow> s' = s"
  by (auto simp: unlinkInodeUnlocked_def bind_eq_Some_conv split: if_splits)

lemma dentry_same:
  assumes ok: "stores_ok s"
    and u: "unlinkDentryAndInode env name p entry flags wanted s fs = Some (res, out, s', fs')"
  shows "sameRefs s s'"
proof -
  obtain r s1 fs1 where o: "onNode p (dn_unlinkDirEntry (metaCfg env) (envNow env) name (Some entry) flags)
      s fs = Some (r, s1, fs1)"
    using u by (auto simp: unlinkDentryAndInode_def bind_eq_Some_conv)
  have "s' = s1"
    using u o by (auto simp: unlinkDentryAndInode_def bind_eq_Some_conv split: if_splits dest: inode_same)
  with onNode_same [OF ok keeps_unlink o] show ?thesis by simp
qed

lemma overwritten_same:
  assumes "stores_ok s" "few s"
    and "unlinkOverwrittenEntry env p entry wanted s fs = Some (res, out, entry', s', fs')"
  shows "sameRefs s s'"
  using assms inlined_same dentry_same
  by (auto simp: unlinkOverwrittenEntry_def bind_eq_Some_conv split: if_splits)

lemma unlinkFileUnlocked_same:
  assumes ok: "stores_ok s" "few s"
    and u: "unlinkFileUnlocked env p name wanted s fs = Some (res, out, entry, s', fs')"
  shows "sameRefs s s'"
proof -
  obtain found fs1 where f: "createFromFile (metaCfg env) p name fs = Some (found, fs1)"
    using u by (auto simp: unlinkFileUnlocked_def bind_eq_Some_conv)
  show ?thesis
  proof (cases found)
    case None
    then show ?thesis using u f sameRefs_refl [OF ok(1)] by (simp add: unlinkFileUnlocked_def)
  next
    case (Some e)
    obtain l s1 fs2 where l: "onNode p (dn_loadIfNotLoaded (metaCfg env)) s fs1 = Some (l, s1, fs2)"
      using u f Some by (auto simp: unlinkFileUnlocked_def bind_eq_Some_conv)
    have s1: "sameRefs s s1" by (rule onNode_same [OF ok(1) keeps_load l])
    note ok1 = sameRefs_ok [OF s1] few_same [OF ok(2) s1]
    show ?thesis
      using u f Some l s1 sameRefs_trans [OF s1 inlined_same [OF ok1]] sameRefs_trans [OF s1 dentry_same [OF ok1(1)]]
      by (auto simp: unlinkFileUnlocked_def Let_def bind_eq_Some_conv split: if_splits)
  qed
qed

section \<open>Calls that remove and create entries\<close>

lemma disposal_inv [simp]: "refs_inv n fh dh (s\<lparr>disposalDir := d\<rparr>) \<longleftrightarrow> refs_inv n fh dh s"
  by (simp add: refs_inv_def held_def)

lemma visit_dir:
  assumes inv: "refs_inv n fh dh s" and n: "n + 1 < 2 ^ 30"
    and rd: "ms_referenceDir env p b s fs = Some (True, s1, fs1)"
  shows "refs_inv (Suc n) fh (dh(p := Suc (dh p))) s1" "stores_ok s1" "few s1"
    "sameRefs s1 s2 \<Longrightarrow> refs_inv (Suc n) fh dh (ms_releaseDir env p s2)"
proof -
  show i: "refs_inv (Suc n) fh (dh(p := Suc (dh p))) s1" using refdir_inv [OF inv n rd] by simp
  then show "stores_ok s1" "few s1" using inv_stores_ok inv_few n by (blast, fastforce)
  assume "sameRefs s1 s2"
  from reldir_inv [OF sameRefs_inv [OF i this], of p env]
  show "refs_inv (Suc n) fh dh (ms_releaseDir env p s2)" by simp
qed

lemma unlinkInode_inv:
  assumes inv: "refs_inv n fh dh s" and n: "n + 1 < 2 ^ 30"
    and u: "unlinkInode env info wanted s fs = Some (res, out, s', fs')"
  shows "refs_inv (Suc n) fh dh s'"
proof (cases "isInStore (infoEntryID info) (fileStore s)")
  case True
  then have "s' = s" using u by (auto simp: unlinkInode_def unlinkInodeUnlocked_def bind_eq_Some_conv)
  then show ?thesis using refs_inv_mono [OF inv] by simp
next
  case False
  let ?p = "infoParentEntryID info"
  obtain gd s1 fs1 where rd0: "ms_referenceDir env ?p False s fs = Some (gd, s1, fs1)"
    using u False by (auto simp: unlinkInode_def unlinkInodeUnlocked_def Let_def bind_eq_Some_conv)
  have rd: "ms_referenceDir env ?p False s fs = Some (True, s1, fs1)" using rd0 refdir_got [OF inv rd0] by simp
  have "s' = ms_releaseDir env ?p s1"
    using u False rd by (auto simp: unlinkInode_def unlinkInodeUnlocked_def Let_def bind_eq_Some_conv)
  with visit_dir(4) [OF inv n rd sameRefs_refl [OF visit_dir(2) [OF inv n rd]]] show ?thesis by simp
qed

text \<open>A reference to a file in the global store, during which its object changes.\<close>

lemma global_visit:
  assumes ok: "stores_ok s" "few s" and g: "referenceLoadedFile tid e (fileStore s) = (True, m)"
    and r: "fmlookup m e = Some r" and k: "refs_kept (refObject r) f"
    and rel: "releaseFileInode e (fmupd e (r\<lparr>refObject := f\<rparr>) m) = (w, m1)"
  shows "sameRefs s (s\<lparr>fileStore := m1\<rparr>)"
proof -
  have st: "store_ok (fileStore s)" "refsIn (fileStore s) e < 2 ^ 30"
    using ok by (simp_all add: stores_ok_def few_def)
  then have a: "acquired (fileStore s) e True m" using loaded_reference [OF g st] by (auto simp: acquired_def)
  then have "store_ok m" by (simp add: acquired_def)
  from untouched_upd [OF this r k] have u: "untouched m (fmupd e (r\<lparr>refObject := f\<rparr>) m)" .
  then have "store_ok (fmupd e (r\<lparr>refObject := f\<rparr>) m)" by (simp add: untouched_def)
  from release_file_given [OF this rel] have "given_back (fmupd e (r\<lparr>refObject := f\<rparr>) m) e m1" by simp
  from given_back_again [OF acquired_untouched [OF a u] this st(1)] show ?thesis
    by (rule sameRefs_global [OF ok(1)])
qed

lemma refs_kept_later:
  "refs_kept f (setNumHardlinksUnpersistent n f)"
  "updateInodeOnDisk cfg now info u f fs = Some (w, f', fs') \<Longrightarrow> refs_kept f f'"
  by (simp_all add: setNumHardlinksUnpersistent_def updateInodeOnDisk_def refs_kept_store)

lemma later_inv:
  assumes inv: "refs_inv n fh dh s" and n: "n + 3 < 2 ^ 30"
    and u: "unlinkInodeLater env info wasInlined s fs = Some (res, info', s', fs')"
  shows "refs_inv (n + 2) fh dh s'"
proof -
  let ?e = "infoEntryID info"
  obtain moved s1 fs1 where mv: "(if isInStore ?e (fileStore s) then Some (True, s, fs)
      else moveReferenceToMetaFileStore env (infoParentEntryID info) ?e s fs) = Some (moved, s1, fs1)"
    using u by (auto simp: unlinkInodeLater_def Let_def bind_eq_Some_conv)
  have i1: "refs_inv (n + 2) fh dh s1"
    using mv refs_inv_mono [OF inv] move_inv [OF inv n] by (auto simp: isInStore_def split: if_splits)
  have ok: "stores_ok s1" "few s1" using inv_stores_ok [OF i1] inv_few [OF i1] n by simp_all
  let ?i1 = "info\<lparr>infoParentEntryID := dirID (dnInode (disposalDir s1))\<rparr>"
  obtain got m where g: "referenceLoadedFile (envTID env) ?e (fileStore s1) = (got, m)" by fastforce
  show ?thesis
  proof (cases "moved \<and> got")
    case False
    then have "s' = s1" using u mv g by (auto simp: unlinkInodeLater_def Let_def split: if_splits)
    then show ?thesis using i1 by simp
  next
    case True
    then have g: "referenceLoadedFile (envTID env) ?e (fileStore s1) = (True, m)" and moved using g by simp_all
    obtain r where r: "fmlookup m ?e = Some r"
      using u mv g \<open>moved\<close> by (auto simp: unlinkInodeLater_def Let_def bind_eq_Some_conv)
    define f where "f = setIsInlined False (refObject r)"
    define links where "links = getNumHardlinks f"
    define left where "left = (if 0 <s links then links - 1 else links)"
    define upd where "upd = (if wasInlined then Some (refObject r, -1 :: i32, fs1)
      else do {
        (_, f2, fs2) \<leftarrow> updateInodeOnDisk (metaCfg env) (envNow env) ?i1 None
          (if 0 <s links then setNumHardlinksUnpersistent left f else f) fs1;
        Some (f2, left, fs2)
      })"
    have u1: "unlinkInodeLater env info wasInlined s fs = upd \<bind> (\<lambda>(f1, linkCount, fs2).
        let (_, m1) = releaseFileInode ?e (fmupd ?e (r\<lparr>refObject := f1\<rparr>) m); s2 = s1\<lparr>fileStore := m1\<rparr>
        in if wasInlined \<or> linkCount \<noteq> 0 then Some (FhgfsOpsErr_SUCCESS, ?i1, s2, fs2)
           else do {
             (_, d, fs3) \<leftarrow> linkFileInodeToDir (metaCfg env) (envNow env) (InodePath ?e) ?e (disposalDir s2) fs2;
             Some (FhgfsOpsErr_SUCCESS, ?i1, s2\<lparr>disposalDir := d\<rparr>, fs3)
           })"
      using mv g \<open>moved\<close> r
      by (simp add: unlinkInodeLater_def Let_def upd_def f_def links_def left_def)
    obtain f1 count fs2 where f1: "upd = Some (f1, count, fs2)"
      using u u1 by (cases upd) auto
    have k: "refs_kept (refObject r) f1"
    proof (cases wasInlined)
      case True
      then show ?thesis using f1 by (simp add: upd_def)
    next
      case False
      then obtain w where "updateInodeOnDisk (metaCfg env) (envNow env) ?i1 None
          (if 0 <s links then setNumHardlinksUnpersistent left f else f) fs1 = Some (w, f1, fs2)"
        using f1 by (auto simp: upd_def bind_eq_Some_conv)
      from refs_kept_later(2) [OF this]
      have "refs_kept (if 0 <s links then setNumHardlinksUnpersistent left f else f) f1" .
      moreover have "refs_kept (refObject r) (if 0 <s links then setNumHardlinksUnpersistent left f else f)"
        using refs_kept_trans [OF refs_kept_simps(1) refs_kept_later(1)] by (simp add: f_def)
      ultimately show ?thesis by (rule refs_kept_trans [rotated])
    qed
    obtain w m1 where rel: "releaseFileInode ?e (fmupd ?e (r\<lparr>refObject := f1\<rparr>) m) = (w, m1)" by fastforce
    have "s' = s1\<lparr>fileStore := m1\<rparr> \<or> (\<exists>d. s' = s1\<lparr>fileStore := m1, disposalDir := d\<rparr>)"
      using u u1 f1 rel by (auto simp: Let_def bind_eq_Some_conv split: if_splits)
    moreover have "refs_inv (n + 2) fh dh (s1\<lparr>fileStore := m1\<rparr>)"
      by (rule sameRefs_inv [OF i1 global_visit [OF ok g r k rel]])
    ultimately show ?thesis by auto
  qed
qed

lemma unlinkFile_inv:
  assumes inv: "refs_inv n fh dh s" and n: "n + 5 < 2 ^ 30"
    and u: "ms_unlinkFile env p name wanted s fs = Some (res, out, info, s', fs')"
  shows "refs_inv (n + 4) fh dh s'"
proof -
  obtain gd s1 fs1 where rd0: "ms_referenceDir env p False s fs = Some (gd, s1, fs1)"
    using u by (auto simp: ms_unlinkFile_def bind_eq_Some_conv)
  have rd: "ms_referenceDir env p False s fs = Some (True, s1, fs1)" using rd0 refdir_got [OF inv rd0] by simp
  have n1: "n + 1 < 2 ^ 30" using n by simp
  note v = visit_dir [OF inv n1 rd]
  obtain res1 out1 entry s2 fs2 where x: "unlinkFileUnlocked env p name wanted s1 fs1 = Some (res1, out1, entry, s2, fs2)"
    using u rd by (auto simp: ms_unlinkFile_def bind_eq_Some_conv)
  have i3: "refs_inv (Suc n) fh dh (ms_releaseDir env p s2)"
    by (rule v(4) [OF unlinkFileUnlocked_same [OF v(2,3) x]])
  show ?thesis
  proof (cases "entry = None \<or> res1 \<noteq> FhgfsOpsErr_INUSE")
    case True
    then have "s' = ms_releaseDir env p s2"
      using u rd x by (auto simp: ms_unlinkFile_def Let_def split: option.splits)
    then show ?thesis using refs_inv_mono [OF i3] by simp
  next
    case False
    then obtain info0 inl where e: "entry = Some (info0, inl)" "res1 = FhgfsOpsErr_INUSE" by auto
    obtain later info1 s4 fs3 where l: "unlinkInodeLater env info0 inl (ms_releaseDir env p s2) fs2 =
        Some (later, info1, s4, fs3)"
      using u rd x e by (auto simp: ms_unlinkFile_def Let_def bind_eq_Some_conv)
    have i4: "refs_inv (Suc n + 2) fh dh s4" by (rule later_inv [OF i3 _ l]) (use n in simp)
    show ?thesis
    proof (cases "later = FhgfsOpsErr_AGAIN")
      case False
      then have "s' = s4" using u rd x e l by (simp add: ms_unlinkFile_def Let_def)
      then show ?thesis using refs_inv_mono [OF i4] by simp
    next
      case True
      then obtain res2 out2 where w: "unlinkInode env info1 wanted s4 fs3 = Some (res2, out2, s', fs')"
        using u rd x e l by (auto simp: ms_unlinkFile_def Let_def bind_eq_Some_conv)
      have "refs_inv (Suc (Suc n + 2)) fh dh s'" by (rule unlinkInode_inv [OF i4 _ w]) (use n in simp)
      then show ?thesis by (rule refs_inv_mono) simp
    qed
  qed
qed

lemma newFile_inv:
  assumes inv: "refs_inv n fh dh s"
    and m: "mkNewMetaFile env acls counter p mk pattern s fs = Some (res, info, counter', s', fs')"
  shows "refs_inv n fh dh s'"
proof -
  have ok: "stores_ok s" using inv_stores_ok [OF inv] .
  have "sameRefs s s'"
  proof (cases "mkMode mk AND S_IFMT = 0x4000")
    case True
    then show ?thesis using m sameRefs_refl [OF ok]
      by (auto simp: mkNewMetaFile_def Let_def split: prod.splits)
  next
    case False
    obtain l s1 fs1 where l: "onNode p (dn_loadIfNotLoaded (metaCfg env)) s fs = Some (l, s1, fs1)"
      using m False by (auto simp: mkNewMetaFile_def Let_def bind_eq_Some_conv split: prod.splits)
    have s1: "sameRefs s s1" by (rule onNode_same [OF ok keeps_load l])
    obtain eid c1 where gen: "generateFileID (localNodeNumID (metaCfg env)) counter = (eid, c1)" by fastforce
    have "s' = s1 \<or> (\<exists>e r fs2. onNode p (makeDirEntry (metaCfg env) (envNow env) e) s1 fs1 = Some (r, s', fs2))"
    proof (cases l)
      case False
      then show ?thesis using m \<open>mkMode mk AND S_IFMT \<noteq> _\<close> l gen by (simp add: mkNewMetaFile_def)
    next
      case True
      then obtain decided where d: "newFileMode acls mk = Some decided"
        using m \<open>mkMode mk AND S_IFMT \<noteq> _\<close> l gen
        by (cases "newFileMode acls mk") (auto simp: mkNewMetaFile_def Let_def)
      show ?thesis
      proof (cases decided)
        case (Inl err)
        then show ?thesis using m \<open>mkMode mk AND S_IFMT \<noteq> _\<close> l gen True d by (simp add: mkNewMetaFile_def)
      next
        case (Inr y)
        then show ?thesis using m \<open>mkMode mk AND S_IFMT \<noteq> _\<close> l gen True d
          by (cases y) (auto simp: mkNewMetaFile_def Let_def bind_eq_Some_conv)
      qed
    qed
    then show ?thesis
      using s1 sameRefs_trans [OF s1 onNode_same [OF sameRefs_ok [OF s1] keeps_make]] by blast
  qed
  from sameRefs_inv [OF inv this] show ?thesis .
qed

lemma setDirParent_inv:
  assumes inv: "refs_inv n fh dh s" and n: "n + 1 < 2 ^ 30"
    and r: "ms_setDirParent env info node s fs = Some (res, s', fs')"
  shows "refs_inv (Suc n) fh dh s'"
proof (cases "DirEntryType_ISDIR (ucast (infoEntryType info))")
  case False
  then have "s' = s" using r by (simp add: ms_setDirParent_def)
  then show ?thesis using refs_inv_mono [OF inv] by simp
next
  case True
  let ?p = "infoEntryID info"
  obtain gd s1 fs1 where rd: "ms_referenceDir env ?p True s fs = Some (gd, s1, fs1)"
    using r True by (auto simp: ms_setDirParent_def Let_def bind_eq_Some_conv)
  show ?thesis
  proof (cases gd)
    case False
    then have "s' = s1" using r True rd by (simp add: ms_setDirParent_def)
    then show ?thesis using refdir_inv [OF inv n rd] False by simp
  next
    case True
    then have rd: "ms_referenceDir env ?p True s fs = Some (True, s1, fs1)" using rd by simp
    obtain s2 where s2: "onNode ?p (setDirParentAndChangeTime (metaCfg env) (envNow env) info node) s1 fs1 =
        Some (res, s2, fs')" "s' = ms_releaseDir env ?p s2"
      using r rd \<open>DirEntryType_ISDIR _\<close> by (auto simp: ms_setDirParent_def Let_def bind_eq_Some_conv)
    from visit_dir(4) [OF inv n rd onNode_same [OF visit_dir(2) [OF inv n rd] keeps_parent s2(1)]]
    show ?thesis using s2(2) by simp
  qed
qed

lemma disposable_inv:
  assumes "refs_inv n fh dh s" "insertDisposableFile env inode s fs = Some (res, s', fs')"
  shows "refs_inv n fh dh s'"
  using assms by (auto simp: insertDisposableFile_def bind_eq_Some_conv)

lemma link_same:
  assumes ok: "stores_ok s"
    and l: "linkReferencedFile env p info fromName toName s fs = Some (res, s', fs')"
  shows "sameRefs s s'"
proof -
  obtain inode where i: "inodeAt p (infoEntryID info) s = Some inode"
    using l by (auto simp: linkReferencedFile_def bind_eq_Some_conv)
  show ?thesis
  proof (cases "\<not> fiIsInlined inode \<or> isInStore (infoEntryID info) (fileStore s)")
    case True
    then show ?thesis using l i sameRefs_refl [OF ok] by (simp add: linkReferencedFile_def)
  next
    case False
    obtain r1 s1 fs1 where i1: "ms_incDecLinkCount env p info 1 s fs = Some (r1, s1, fs1)"
      using l i False by (auto simp: linkReferencedFile_def bind_eq_Some_conv)
    have s1: "sameRefs s s1" by (rule links_same [OF ok i1])
    show ?thesis
    proof (cases "r1 = FhgfsOpsErr_SUCCESS")
      case False
      then show ?thesis using l i i1 s1 \<open>\<not> (\<not> fiIsInlined inode \<or> _)\<close> by (simp add: linkReferencedFile_def)
    next
      case True
      then obtain r2 s2 fs2 where i2: "onNode p (linkFilesInDir (metaCfg env) (envNow env) fromName toName)
          s1 fs1 = Some (r2, s2, fs2)"
        using l i i1 False by (auto simp: linkReferencedFile_def bind_eq_Some_conv)
      have s2: "sameRefs s s2"
        by (rule sameRefs_trans [OF s1 onNode_same [OF sameRefs_ok [OF s1] keeps_link i2]])
      show ?thesis
        using l i i1 i2 True False s2 sameRefs_trans [OF s2 links_same [OF sameRefs_ok [OF s2]]]
        by (auto simp: linkReferencedFile_def bind_eq_Some_conv split: if_splits)
    qed
  qed
qed

lemma overwrittenLater_inv:
  assumes inv: "refs_inv n fh dh s" and n: "n + 3 < 2 ^ 30"
    and u: "unlinkOverwrittenLater env p entry info wasInlined r out s fs = Some (out', s', fs')"
  shows "refs_inv (n + 2) fh dh s'"
proof (cases "r = FhgfsOpsErr_INUSE")
  case False
  then show ?thesis using u refs_inv_mono [OF inv] by (simp add: unlinkOverwrittenLater_def)
next
  case True
  then obtain later i1 s1 fs1 where l: "unlinkInodeLater env info wasInlined s fs = Some (later, i1, s1, fs1)"
    using u by (auto simp: unlinkOverwrittenLater_def bind_eq_Some_conv)
  note i = later_inv [OF inv n l]
  have "few s1" using inv_few [OF i] n by simp
  then have "s' = s1 \<or> sameRefs s1 s'"
    using u l True overwritten_same [OF inv_stores_ok [OF i]]
    by (auto simp: unlinkOverwrittenLater_def bind_eq_Some_conv split: if_splits)
  then show ?thesis using i sameRefs_inv [OF i] by blast
qed

lemma keeps_mkFile: "keepsNode (mkMetaFile env name type inode)"
  using keepsNodeD [OF keeps_make] by (fastforce simp: keepsNode_def mkMetaFile_def Let_def bind_eq_Some_conv)

lemma makeRemote_same:
  assumes "stores_ok s" "makeRemoteFile env info p name buf s fs = Some (res, info', s', fs')"
  shows "sameRefs s s'"
  using assms sameRefs_refl [OF assms(1)] onNode_same [OF assms(1) keeps_mkFile]
  by (auto simp: makeRemoteFile_def Let_def bind_eq_Some_conv split: option.splits if_splits)

lemma remoteInto_inv:
  assumes inv: "refs_inv n fh dh s" and n: "n + 3 < 2 ^ 30"
    and u: "moveRemoteFileInto env info p name buf s fs = Some (res, out, info', s', fs')"
  shows "refs_inv (n + 2) fh dh s'"
proof -
  note ok = inv_stores_ok [OF inv]
  have few: "few s" using inv_few [OF inv] n by simp
  have same: "refs_inv (n + 2) fh dh s'" if "sameRefs s s'"
    using refs_inv_mono [OF sameRefs_inv [OF inv that]] by simp
  obtain over fs1 where o: "createFromFile (metaCfg env) p name fs = Some (over, fs1)"
    using u by (auto simp: moveRemoteFileInto_def Let_def bind_eq_Some_conv)
  define check where "check = (case over of None \<Rightarrow> (FhgfsOpsErr_SUCCESS, False)
    | Some e \<Rightarrow> checkRenameOverwrite info (de_getEntryInfo (dentryID (deData e)) 0 e))"
  show ?thesis
  proof (cases "snd check \<or> fst check \<noteq> FhgfsOpsErr_SUCCESS")
    case True
    then have "s' = s" using u o by (simp add: moveRemoteFileInto_def Let_def check_def)
    then show ?thesis using same sameRefs_refl [OF ok] by simp
  next
    case go: False
    obtain ul s1 fs2 where x: "(case over of None \<Rightarrow> Some (FhgfsOpsErr_SUCCESS, s, fs1)
        | Some e \<Rightarrow> onNode p (dn_unlinkDirEntry (metaCfg env) (envNow env) name (Some e)
            DirEntry_UNLINK_FILENAME) s fs1) = Some (ul, s1, fs2)"
      using u o go by (auto simp: moveRemoteFileInto_def Let_def bind_eq_Some_conv check_def)
    have s1: "sameRefs s s1"
      using x sameRefs_refl [OF ok] onNode_same [OF ok keeps_unlink] by (auto split: option.splits)
    show ?thesis
    proof (cases "ul \<in> {FhgfsOpsErr_SUCCESS, FhgfsOpsErr_PATHNOTEXISTS}")
      case False
      then have "s' = s1" using u o go x by (simp add: moveRemoteFileInto_def Let_def check_def)
      then show ?thesis using same s1 by simp
    next
      case ul: True
      obtain r ni s2 fs3 where m: "makeRemoteFile env info p name buf s1 fs2 = Some (r, ni, s2, fs3)"
        using u o go x ul by (auto simp: moveRemoteFileInto_def Let_def bind_eq_Some_conv check_def)
      have s2: "sameRefs s s2" by (rule sameRefs_trans [OF s1 makeRemote_same [OF sameRefs_ok [OF s1] m]])
      show ?thesis
      proof (cases "r = FhgfsOpsErr_SUCCESS \<and> over \<noteq> None")
        case False
        then have "s' = s2"
          using u o go x ul m by (auto simp: moveRemoteFileInto_def Let_def check_def split: if_splits)
        then show ?thesis using same s2 by simp
      next
        case True
        then obtain e q out1 e1 s3 fs4 where
          w: "unlinkOverwrittenEntry env p e True s2 fs3 = Some (q, out1, e1, s3, fs4)"
            "unlinkOverwrittenLater env p e1 (de_getEntryInfo p 0 e1) (getIsInodeInlined e) q out1 s3 fs4 =
              Some (out, s', fs')"
          using u o go x ul m by (auto simp: moveRemoteFileInto_def Let_def bind_eq_Some_conv check_def)
        have "sameRefs s s3"
          by (rule sameRefs_trans [OF s2 overwritten_same [OF sameRefs_ok [OF s2] few_same [OF few s2] w(1)]])
        from overwrittenLater_inv [OF sameRefs_inv [OF inv this] n w(2)] show ?thesis .
      qed
    qed
  qed
qed

lemma insertRemote_inv:
  assumes inv: "refs_inv n fh dh s" and n: "n + 4 < 2 ^ 30"
    and u: "moveRemoteFileInsert env info p name buf s fs = Some (res, out, info', s', fs')"
  shows "refs_inv (n + 3) fh dh s'"
proof -
  obtain gd s1 fs1 where rd: "ms_referenceDir env p True s fs = Some (gd, s1, fs1)"
    using u by (auto simp: moveRemoteFileInsert_def Let_def bind_eq_Some_conv)
  have n1: "n + 1 < 2 ^ 30" using n by simp
  note i1 = refdir_inv [OF inv n1 rd]
  show ?thesis
  proof (cases gd)
    case False
    then have "s' = s1" using u rd by (simp add: moveRemoteFileInsert_def)
    then show ?thesis using i1 refs_inv_mono [of "Suc n" fh dh s1 "n + 3"] False by simp
  next
    case True
    then obtain s2 where m: "moveRemoteFileInto env info p name buf s1 fs1 = Some (res, out, info', s2, fs')"
      and s': "s' = ms_releaseDir env p s2"
      using u rd by (auto simp: moveRemoteFileInsert_def bind_eq_Some_conv)
    have "refs_inv (Suc n) fh (dh(p := Suc (dh p))) s1" using i1 True by simp
    from remoteInto_inv [OF this _ m] n have "refs_inv (n + 3) fh (dh(p := Suc (dh p))) s2"
      by (simp add: numeral_3_eq_3)
    from reldir_inv [OF this, of p env] s' show ?thesis by simp
  qed
qed

section \<open>Calls that may leave a reference behind\<close>

text \<open>
  A link whose directory is referenced, but cannot be loaded, ends without giving the directory back
  (\<open>MetaStore::linkInSameDir\<close>, the jump to \<open>outMetaUnlock\<close>).
\<close>

definition linkLosesDir :: "StoreEnv \<Rightarrow> string \<Rightarrow> MetaStore \<Rightarrow> MetaFs \<Rightarrow> bool" where
  "linkLosesDir env p s fs =
     (case ms_referenceDir env p False s fs of
        Some (True, s1, fs1) \<Rightarrow>
          (case onNode p (dn_loadIfNotLoaded (metaCfg env)) s1 fs1 of
             Some (loaded, _) \<Rightarrow> \<not> loaded
           | None \<Rightarrow> False)
      | _ \<Rightarrow> False)"

text \<open>
  A rename of a file that ends at the check of the overwritten entry does not give the file back
  (\<open>MetaStore::performRenameEntryInSameDir\<close>).
\<close>

definition renameLosesFile :: "StoreEnv \<Rightarrow> string \<Rightarrow> string \<Rightarrow> string \<Rightarrow> MetaStore \<Rightarrow> MetaFs \<Rightarrow> bool" where
  "renameLosesFile env p fromName toName s fs =
     (case onNode p (dn_loadIfNotLoaded (metaCfg env)) s fs of
        Some (True, s1, fs1) \<Rightarrow>
          (case createFromFile (metaCfg env) p fromName fs1 of
             Some (Some e, fs2) \<Rightarrow>
               (let info = de_getEntryInfo p 0 e
                in infoEntryType info \<noteq> ucast DirEntryType_DIRECTORY \<and>
                  (case referenceFileIn env p info s1 fs2 of
                     Some (True, _, fs3) \<Rightarrow>
                       (case createFromFile (metaCfg env) p toName fs3 of
                          Some (Some over, _) \<Rightarrow>
                            checkRenameOverwrite info (de_getEntryInfo p 0 over) \<noteq> (FhgfsOpsErr_SUCCESS, False)
                        | _ \<Rightarrow> False)
                   | _ \<Rightarrow> False))
           | _ \<Rightarrow> False)
      | _ \<Rightarrow> False)"

lemma link_inv:
  assumes inv: "refs_inv n fh dh s" and n: "n + 1 < 2 ^ 30"
    and l: "linkInSameDir env parentInfo info fromName toName s fs = Some (res, s', fs')"
  shows "refs_inv (Suc n) fh (if linkLosesDir env (infoEntryID parentInfo) s fs
      then dh(infoEntryID parentInfo := Suc (dh (infoEntryID parentInfo))) else dh) s'"
proof -
  let ?p = "infoEntryID parentInfo" and ?e = "infoEntryID info"
  obtain gd s1 fs1 where rd0: "ms_referenceDir env ?p False s fs = Some (gd, s1, fs1)"
    using l by (auto simp: linkInSameDir_def Let_def bind_eq_Some_conv)
  have rd: "ms_referenceDir env ?p False s fs = Some (True, s1, fs1)" using rd0 refdir_got [OF inv rd0] by simp
  note v = visit_dir [OF inv n rd]
  obtain ld s2 fs2 where ld: "onNode ?p (dn_loadIfNotLoaded (metaCfg env)) s1 fs1 = Some (ld, s2, fs2)"
    using l rd by (auto simp: linkInSameDir_def Let_def bind_eq_Some_conv)
  have s2: "sameRefs s1 s2" by (rule onNode_same [OF v(2) keeps_load ld])
  have loses: "linkLosesDir env ?p s fs \<longleftrightarrow> \<not> ld" using rd ld by (simp add: linkLosesDir_def)
  show ?thesis
  proof (cases ld)
    case False
    then have "s' = s2" using l rd ld by (simp add: linkInSameDir_def Let_def)
    then show ?thesis using sameRefs_inv [OF v(1) s2] loses False by simp
  next
    case True
    obtain got s3 fs3 where g: "referenceFileIn env ?p info s2 fs2 = Some (got, s3, fs3)"
      using l rd ld True by (auto simp: linkInSameDir_def Let_def bind_eq_Some_conv)
    note r = reference_in [OF sameRefs_ok [OF s2] few_same [OF v(3) s2] g]
    show ?thesis
    proof (cases got)
      case False
      then have "s' = ms_releaseDir env ?p s3" using l rd ld True g by (simp add: linkInSameDir_def Let_def)
      then show ?thesis using v(4) [OF sameRefs_trans [OF s2]] r False True loses by simp
    next
      case got: True
      then have more: "oneMore ?p ?e s2 s3" using r by simp
      obtain s4 fs4 w s5 where b: "linkReferencedFile env ?p info fromName toName s3 fs3 = Some (res, s4, fs4)"
        and rel: "releaseFileIn ?p ?e s4 = Some (w, s5)" and s': "s' = ms_releaseDir env ?p s5"
        using l rd ld g got True by (auto simp: linkInSameDir_def Let_def bind_eq_Some_conv)
      from release_in [OF sameRefs_ok [OF s2] oneMore_same [OF more link_same [OF oneMore_ok [OF more] b]] rel]
      have "sameRefs s1 s5" by (rule sameRefs_trans [OF s2])
      from v(4) [OF this] s' loses True show ?thesis by simp
    qed
  qed
qed

lemma keeps_rename: "keepsNode (renameDirEntry cfg now fromName toName over)"
  by (auto simp: keepsNode_def renameDirEntry_def split: prod.splits if_splits option.splits
      dest!: store_exclusive simp: dn_updateTimeStamps_def)

lemma performRename_same:
  assumes ok: "stores_ok s" "few s" and keeps: "\<not> renameLosesFile env p fromName toName s fs"
    and r: "performRenameEntryInSameDir env p fromName toName s fs = Some (res, over, s', fs')"
  shows "sameRefs s s'"
proof -
  obtain l s1 fs1 where l: "onNode p (dn_loadIfNotLoaded (metaCfg env)) s fs = Some (l, s1, fs1)"
    using r by (auto simp: performRenameEntryInSameDir_def bind_eq_Some_conv)
  have s1: "sameRefs s s1" by (rule onNode_same [OF ok(1) keeps_load l])
  note ok1 = sameRefs_ok [OF s1] few_same [OF ok(2) s1]
  show ?thesis
  proof (cases l)
    case False
    then show ?thesis using r l s1 by (simp add: performRenameEntryInSameDir_def)
  next
    case True
    obtain found fs2 where f: "createFromFile (metaCfg env) p fromName fs1 = Some (found, fs2)"
      using r l True by (auto simp: performRenameEntryInSameDir_def bind_eq_Some_conv)
    show ?thesis
    proof (cases found)
      case None
      then show ?thesis using r l s1 True f by (simp add: performRenameEntryInSameDir_def)
    next
      case (Some e)
      let ?i = "de_getEntryInfo p 0 e"
      let ?d = "infoEntryType ?i = ucast DirEntryType_DIRECTORY"
      obtain got s2 fs3 where g: "(if ?d then Some (True, s1, fs2) else referenceFileIn env p ?i s1 fs2) =
          Some (got, s2, fs3)"
        using r l True f Some by (auto simp: performRenameEntryInSameDir_def Let_def bind_eq_Some_conv)
      have g2: "if got \<and> \<not> ?d then oneMore p (infoEntryID ?i) s1 s2 else sameRefs s1 s2"
        using g reference_in [OF ok1] sameRefs_refl [OF ok1(1)] by (auto split: if_splits)
      show ?thesis
      proof (cases got)
        case False
        then have "s' = s2" using r l True f Some g by (simp add: performRenameEntryInSameDir_def Let_def)
        then show ?thesis using g2 False sameRefs_trans [OF s1] by simp
      next
        case got: True
        obtain ov fs4 where ov: "createFromFile (metaCfg env) p toName fs3 = Some (ov, fs4)"
          using r l True f Some g got by (auto simp: performRenameEntryInSameDir_def Let_def bind_eq_Some_conv)
        define check where "check = (case ov of None \<Rightarrow> (FhgfsOpsErr_SUCCESS, False)
          | Some o1 \<Rightarrow> checkRenameOverwrite ?i (de_getEntryInfo p 0 o1))"
        have tail: "(if snd check then Some (fst check, None, s2, fs4)
            else if fst check \<noteq> FhgfsOpsErr_SUCCESS then Some (fst check, None, s2, fs4)
            else do {
              (res, s3, fs5) \<leftarrow> onNode p (renameDirEntry (metaCfg env) (envNow env) fromName toName ov) s2 fs4;
              s4 \<leftarrow> (if ?d then Some s3 else map_option snd (releaseFileIn p (infoEntryID ?i) s3));
              Some (res, if res = FhgfsOpsErr_SUCCESS then ov else None, s4, fs5)
            }) = Some (res, over, s', fs')"
          using r l True f Some g got ov unfolding check_def
          by (simp add: performRenameEntryInSameDir_def Let_def split del: if_split)
        show ?thesis
        proof (cases "check = (FhgfsOpsErr_SUCCESS, False)")
          case bad: False
          have "?d"
          proof (rule ccontr)
            assume "\<not> ?d"
            then have "renameLosesFile env p fromName toName s fs"
              using l True f Some g got ov bad
              by (cases ov) (simp_all add: renameLosesFile_def Let_def check_def)
            with keeps show False by simp
          qed
          have "snd check \<or> fst check \<noteq> FhgfsOpsErr_SUCCESS" using bad by (cases check) auto
          then have "s' = s2" using tail by (auto split: if_splits)
          then show ?thesis using g2 \<open>?d\<close> sameRefs_trans [OF s1] by simp
        next
          case go: True
          then obtain res1 s3 fs5 where m: "onNode p (renameDirEntry (metaCfg env) (envNow env) fromName toName ov)
              s2 fs4 = Some (res1, s3, fs5)"
            and s4: "(if ?d then Some s3 else map_option snd (releaseFileIn p (infoEntryID ?i) s3)) = Some s'"
            using tail by (auto simp: bind_eq_Some_conv)
          show ?thesis
          proof (cases "?d")
            case True
            then have s12: "sameRefs s1 s2" using g2 by simp
            have "s' = s3" using s4 True by simp
            with sameRefs_trans [OF s1 sameRefs_trans [OF s12 onNode_same [OF sameRefs_ok [OF s12] keeps_rename m]]]
              show ?thesis by simp
          next
            case False
            then have more: "oneMore p (infoEntryID ?i) s1 s2" using g2 got by simp
            obtain w where "releaseFileIn p (infoEntryID ?i) s3 = Some (w, s')" using s4 False by auto
            from release_in [OF ok1(1) oneMore_same [OF more onNode_same [OF oneMore_ok [OF more] keeps_rename m]] this]
            show ?thesis by (rule sameRefs_trans [OF s1])
          qed
        qed
      qed
    qed
  qed
qed

lemma rename_inv:
  assumes inv: "refs_inv n fh dh s" and n: "n + 5 < 2 ^ 30"
    and keeps: "\<not> renameLosesFile env p fromName toName s fs"
    and r: "renameInSameDir env p fromName toName s fs = Some (res, out, s', fs')"
  shows "refs_inv (n + 4) fh dh s'"
proof -
  note ok = inv_stores_ok [OF inv]
  have few: "few s" using inv_few [OF inv] n by simp
  obtain res1 over s1 fs1 where pr: "performRenameEntryInSameDir env p fromName toName s fs = Some (res1, over, s1, fs1)"
    using r by (auto simp: renameInSameDir_def bind_eq_Some_conv)
  have s1: "sameRefs s s1" by (rule performRename_same [OF ok few keeps pr])
  show ?thesis
  proof (cases "res1 = FhgfsOpsErr_SUCCESS")
    case False
    then have "s' = s1" using r pr by (simp add: renameInSameDir_def)
    then show ?thesis using refs_inv_mono [OF sameRefs_inv [OF inv s1]] by simp
  next
    case True
    obtain q out1 over1 s2 fs2 where u: "(case over of
        None \<Rightarrow> Some (FhgfsOpsErr_SUCCESS, None, None, s1, fs1)
      | Some e \<Rightarrow> map_option (\<lambda>(r, out, e1, s2, fs2). (r, out, Some e1, s2, fs2))
          (unlinkOverwrittenEntry env p e True s1 fs1)) = Some (q, out1, over1, s2, fs2)"
      using r pr True by (auto simp: renameInSameDir_def bind_eq_Some_conv)
    have s2: "sameRefs s s2"
      using u s1 sameRefs_trans [OF s1 overwritten_same [OF sameRefs_ok [OF s1] few_same [OF few s1]]]
      by (auto split: option.splits)
    have i2: "refs_inv n fh dh s2" by (rule sameRefs_inv [OF inv s2])
    obtain entry fs3 where c: "createFromFile (metaCfg env) p toName fs2 = Some (entry, fs3)"
      using r pr True u by (auto simp: renameInSameDir_def bind_eq_Some_conv)
    obtain s3 fs4 where a: "(case entry of None \<Rightarrow> Some (s2, fs3)
        | Some e \<Rightarrow> map_option snd (ms_setAttr env (de_getEntryInfo p 0 e) 0 noAttribs s2 fs3)) = Some (s3, fs4)"
      using r pr True u c by (auto simp: renameInSameDir_def bind_eq_Some_conv)
    have i3: "refs_inv (n + 2) fh dh s3"
      using a refs_inv_mono [OF i2] setAttr_inv [OF i2] n by (auto split: option.splits)
    have "s' = s3 \<or> (\<exists>e e1 o2. unlinkOverwrittenLater env p e1 (de_getEntryInfo p 0 e) (getIsInodeInlined e) q out1
        s3 fs4 = Some (o2, s', fs'))"
      using r pr True u c a
      by (cases over; cases over1) (auto simp: renameInSameDir_def bind_eq_Some_conv)
    then show ?thesis
    proof (elim disjE exE)
      assume "s' = s3"
      then show ?thesis using refs_inv_mono [OF i3] by simp
    next
      fix e e1 o2 assume "unlinkOverwrittenLater env p e1 (de_getEntryInfo p 0 e) (getIsInodeInlined e) q out1
        s3 fs4 = Some (o2, s', fs')"
      have "refs_inv (n + 2 + 2) fh dh s'" by (rule overwrittenLater_inv [OF i3 _ \<open>unlinkOverwrittenLater _ _ _ _ _ _ _ _ _ = _\<close>]) (use n in simp)
      then show ?thesis by (rule refs_inv_mono) simp
    qed
  qed
qed

end
