(* ===== verification/MetaStoreRuns.thy ===== *)
theory MetaStoreRuns
  imports MetaStoreSteps
begin

text \<open>
  Runs of the metadata store: sequences of calls, by any threads, where a caller releases only what
  it holds, and a file that is not in the global store is referenced under one directory only
  (\<open>mayUse\<close>). The disk, the clock and the limits may change arbitrarily between the calls.

  The runs have every call of the store that takes or gives back references or changes entries, with
  every result it may have, except for these: a rename of a file that ends at the check of the
  overwritten entry (\<open>renameLosesFile\<close>), which keeps a reference to the file that the directory does
  not know of (see \<open>MetaStoreRename\<close>), and those that lock an inode for its move to another server and
  end that move (\<open>moveRemoteFileBegin\<close>, \<open>moveRemoteFileComplete\<close>). A link whose directory cannot be
  loaded is a call of the runs: the reference to the directory that it keeps is counted in
  \<open>lostDirs\<close>, which no caller can give back. (The code keeps the directory locked as well; the locks
  are not modelled, so the runs may go on where the code's threads would wait.)
\<close>

section \<open>Calls and runs\<close>

record StoreWorld =
  theStore :: MetaStore
  fileHandles :: "string \<Rightarrow> string list"
  dirHandles :: "string \<Rightarrow> nat"
  lostDirs :: "string \<Rightarrow> nat"

definition emptyWorld :: "DirNode \<Rightarrow> StoreWorld" where
  "emptyWorld d = \<lparr>theStore = \<lparr>dirStore = \<lparr>storeDirs = fmempty, refCache = []\<rparr>,
     fileStore = fmempty, disposalDir = d\<rparr>, fileHandles = \<lambda>_. [], dirHandles = \<lambda>_. 0, lostDirs = \<lambda>_. 0\<rparr>"

definition takeFile :: "bool \<Rightarrow> string \<Rightarrow> string \<Rightarrow> StoreWorld \<Rightarrow> StoreWorld" where
  "takeFile got p e w =
     (if got then w\<lparr>fileHandles := (fileHandles w)(e := p # fileHandles w e)\<rparr> else w)"

definition dropFile :: "string \<Rightarrow> string \<Rightarrow> StoreWorld \<Rightarrow> StoreWorld" where
  "dropFile p e w = w\<lparr>fileHandles := (fileHandles w)(e := remove1 p (fileHandles w e))\<rparr>"

definition takeDir :: "bool \<Rightarrow> string \<Rightarrow> StoreWorld \<Rightarrow> StoreWorld" where
  "takeDir got p w =
     (if got then w\<lparr>dirHandles := (dirHandles w)(p := Suc (dirHandles w p))\<rparr> else w)"

definition dropDirHandle :: "string \<Rightarrow> StoreWorld \<Rightarrow> StoreWorld" where
  "dropDirHandle p w = w\<lparr>dirHandles := (dirHandles w)(p := dirHandles w p - 1)\<rparr>"

definition loseDir :: "bool \<Rightarrow> string \<Rightarrow> StoreWorld \<Rightarrow> StoreWorld" where
  "loseDir lost p w =
     (if lost then w\<lparr>lostDirs := (lostDirs w)(p := Suc (lostDirs w p))\<rparr> else w)"

abbreviation "mayUse w p e \<equiv> admissible (fileHandles w) (theStore w) p e"

inductive store_step :: "StoreWorld \<Rightarrow> StoreWorld \<Rightarrow> bool" where
  reference_dir: "ms_referenceDir env p forceLoad (theStore w) fs = Some (got, s, fs') \<Longrightarrow>
    store_step w (takeDir got p (w\<lparr>theStore := s\<rparr>))"
| release_dir: "0 < dirHandles w p \<Longrightarrow>
    store_step w (dropDirHandle p (w\<lparr>theStore := ms_releaseDir env p (theStore w)\<rparr>))"
| reference_file: "mayUse w (infoParentEntryID info) (infoEntryID info) \<Longrightarrow>
    ms_referenceFile env info (theStore w) fs = Some (got, s, fs') \<Longrightarrow>
    store_step w (takeFile got (infoParentEntryID info) (infoEntryID info) (w\<lparr>theStore := s\<rparr>))"
| reference_loaded: "mayUse w p e \<Longrightarrow>
    ms_referenceLoadedFile env p e (theStore w) fs = Some (got, s, fs') \<Longrightarrow>
    store_step w (takeFile got p e (w\<lparr>theStore := s\<rparr>))"
| release_file: "p \<in> set (fileHandles w e) \<Longrightarrow>
    ms_releaseFile env p e (theStore w) fs = Some (res, s, fs') \<Longrightarrow>
    store_step w (dropFile p e (w\<lparr>theStore := s\<rparr>))"
| open_file: "mayUse w (infoParentEntryID info) (infoEntryID info) \<Longrightarrow>
    ms_openFile env info flags (theStore w) fs = Some (err, s, fs') \<Longrightarrow>
    store_step w (takeFile (err = FhgfsOpsErr_SUCCESS) (infoParentEntryID info) (infoEntryID info)
      (w\<lparr>theStore := s\<rparr>))"
| close_file: "infoParentEntryID info \<in> set (fileHandles w (infoEntryID info)) \<Longrightarrow>
    ms_closeFile env info flags (theStore w) fs = Some (links, refs, s, fs') \<Longrightarrow>
    store_step w (dropFile (infoParentEntryID info) (infoEntryID info) (w\<lparr>theStore := s\<rparr>))"
| move_to_global: "fmlookup (fileStore (theStore w)) e = None \<Longrightarrow>
    moveReferenceToMetaFileStore env p e (theStore w) fs = Some (res, s, fs') \<Longrightarrow>
    store_step w (w\<lparr>theStore := s\<rparr>)"
| stat_entry: "ms_stat env info load (theStore w) fs = Some (err, st, s, fs') \<Longrightarrow>
    store_step w (w\<lparr>theStore := s\<rparr>)"
| set_attribs: "ms_setAttr env info valid attribs (theStore w) fs = Some (err, s, fs') \<Longrightarrow>
    store_step w (w\<lparr>theStore := s\<rparr>)"
| unlink_file: "ms_unlinkFile env p name wanted (theStore w) fs = Some (err, inode, info, s, fs') \<Longrightarrow>
    store_step w (w\<lparr>theStore := s\<rparr>)"
| unlink_inode: "unlinkInode env info wanted (theStore w) fs = Some (err, inode, s, fs') \<Longrightarrow>
    store_step w (w\<lparr>theStore := s\<rparr>)"
| link_file: "linkInSameDir env parentInfo info fromName toName (theStore w) fs = Some (err, s, fs') \<Longrightarrow>
    store_step w (loseDir (linkLosesDir env (infoEntryID parentInfo) (theStore w) fs) (infoEntryID parentInfo)
      (w\<lparr>theStore := s\<rparr>))"
| rename_entry: "0 < dirHandles w p \<Longrightarrow> \<not> renameLosesFile env p fromName toName (theStore w) fs \<Longrightarrow>
    renameInSameDir env p fromName toName (theStore w) fs = Some (err, inode, s, fs') \<Longrightarrow>
    store_step w (w\<lparr>theStore := s\<rparr>)"
| new_file: "0 < dirHandles w p \<Longrightarrow>
    mkNewMetaFile env acls counter p mk pattern (theStore w) fs = Some (err, info, counter', s, fs') \<Longrightarrow>
    store_step w (w\<lparr>theStore := s\<rparr>)"
| insert_remote: "moveRemoteFileInsert env info p name buf (theStore w) fs = Some (err, inode, info', s, fs') \<Longrightarrow>
    store_step w (w\<lparr>theStore := s\<rparr>)"
| insert_disposable: "insertDisposableFile env inode (theStore w) fs = Some (err, s, fs') \<Longrightarrow>
    store_step w (w\<lparr>theStore := s\<rparr>)"
| set_parent: "ms_setDirParent env info node (theStore w) fs = Some (err, s, fs') \<Longrightarrow>
    store_step w (w\<lparr>theStore := s\<rparr>)"
| sweep: "ms_cacheSweepAsync env (theStore w) = Some (swept, s) \<Longrightarrow>
    store_step w (w\<lparr>theStore := s\<rparr>)"

inductive store_run :: "nat \<Rightarrow> StoreWorld \<Rightarrow> bool" where
  start: "store_run 0 (emptyWorld d)"
| step: "store_run k w \<Longrightarrow> store_step w w' \<Longrightarrow> store_run (Suc k) w'"

section \<open>The counts after every run\<close>

abbreviation world_inv :: "nat \<Rightarrow> StoreWorld \<Rightarrow> bool" where
  "world_inv n w \<equiv> refs_inv n (fileHandles w) (\<lambda>p. dirHandles w p + lostDirs w p) (theStore w)"

lemma world_simps [simp]:
  "theStore (takeFile got p e w) = theStore w" "theStore (dropFile p e w) = theStore w"
  "theStore (takeDir got p w) = theStore w" "theStore (dropDirHandle p w) = theStore w"
  "theStore (loseDir lost p w) = theStore w" "lostDirs (dropDirHandle p w) = lostDirs w"
  "lostDirs (takeFile got p e w) = lostDirs w" "lostDirs (dropFile p e w) = lostDirs w"
  "lostDirs (takeDir got p w) = lostDirs w" "dirHandles (loseDir lost p w) = dirHandles w"
  "fileHandles (loseDir lost p w) = fileHandles w"
  "lostDirs (loseDir lost p w) =
     (if lost then (lostDirs w)(p := Suc (lostDirs w p)) else lostDirs w)"
  "dirHandles (takeFile got p e w) = dirHandles w" "dirHandles (dropFile p e w) = dirHandles w"
  "fileHandles (takeDir got p w) = fileHandles w" "fileHandles (dropDirHandle p w) = fileHandles w"
  "fileHandles (takeFile got p e w) =
     (if got then (fileHandles w)(e := p # fileHandles w e) else fileHandles w)"
  "fileHandles (dropFile p e w) = (fileHandles w)(e := remove1 p (fileHandles w e))"
  "dirHandles (takeDir got p w) =
     (if got then (dirHandles w)(p := Suc (dirHandles w p)) else dirHandles w)"
  "dirHandles (dropDirHandle p w) = (dirHandles w)(p := dirHandles w p - 1)"
  by (simp_all add: takeFile_def dropFile_def takeDir_def dropDirHandle_def loseDir_def)

lemma empty_inv: "world_inv 0 (emptyWorld d)"
  by (simp add: emptyWorld_def refs_inv_def held_def store_ok_def dir_ok_def counts_def cached_def
      filesAt_def totalRefs_def refsIn_def parentRefs_def)

lemma store_simps [simp]:
  "theStore (w\<lparr>theStore := s\<rparr>) = s" "fileHandles (w\<lparr>theStore := s\<rparr>) = fileHandles w"
  "dirHandles (w\<lparr>theStore := s\<rparr>) = dirHandles w" "lostDirs (w\<lparr>theStore := s\<rparr>) = lostDirs w"
  by simp_all

lemma handle_sums:
  fixes a b :: "string \<Rightarrow> nat"
  shows "(\<lambda>q. a q + b q)(p := Suc (a p + b p)) = (\<lambda>q. (a(p := Suc (a p))) q + b q)"
    "(\<lambda>q. a q + b q)(p := Suc (a p + b p)) = (\<lambda>q. a q + (b(p := Suc (b p))) q)"
    "0 < a p \<Longrightarrow> (\<lambda>q. a q + b q)(p := a p + b p - 1) = (\<lambda>q. (a(p := a p - 1)) q + b q)"
  by (auto simp: fun_eq_iff)

lemma step_inv:
  assumes "store_step w w'" "world_inv n w" "n + 5 < 2 ^ 30"
  shows "world_inv (n + 4) w'"
proof -
  have n: "n + 3 < 2 ^ 30" "n + 4 < 2 ^ 30" "n + 1 < 2 ^ 30" using assms(3) by simp_all
  note up = refs_inv_mono [of "n + 2" _ _ _ "n + 4"]
  from assms(1) show ?thesis
  proof cases
    case (reference_dir env p forceLoad fs got s fs')
    have "world_inv (Suc n) w'"
      using refdir_inv [OF assms(2) n(3) reference_dir(2), THEN conjunct1]
      by (cases got) (simp_all only: reference_dir(1) world_simps if_True if_False handle_sums(1) store_simps)
    then show ?thesis by (rule refs_inv_mono) simp
  next
    case (release_dir p env)
    have "0 < dirHandles w p + lostDirs w p" using release_dir(2) by simp
    from reldir_inv [OF assms(2) this, of env, THEN conjunct1]
    have "world_inv n w'"
      by (simp only: release_dir(1) world_simps handle_sums(3) [of "dirHandles w" p, OF release_dir(2)] store_simps)
    then show ?thesis by (rule refs_inv_mono) simp
  next
    case (reference_file info env fs got s fs')
    then show ?thesis using up [OF referenceFile_inv [OF assms(2) n(1) reference_file(2,3)]] by (cases got) simp_all
  next
    case (reference_loaded p e env fs got s fs')
    then show ?thesis using up [OF referenceLoaded_inv [OF assms(2) n(1) reference_loaded(2,3)]] by (cases got) simp_all
  next
    case (release_file p e env fs res s fs')
    then show ?thesis using up [OF releaseFile_inv [OF assms(2) n(1) release_file(2,3), THEN conjunct1]] by simp
  next
    case (open_file info env flags fs err s fs')
    then show ?thesis using up [OF openFile_inv [OF assms(2) n(1) open_file(2,3)]]
      by (cases "err = FhgfsOpsErr_SUCCESS") simp_all
  next
    case (close_file info env flags fs links refs s fs')
    then show ?thesis using up [OF closeFile_inv [OF assms(2) n(1) close_file(2,3), THEN conjunct1]] by simp
  next
    case (move_to_global e env p fs res s fs')
    then show ?thesis using up [OF move_inv [OF assms(2) n(1) move_to_global(2,3), THEN conjunct1]] by simp
  next
    case (stat_entry env info load fs err st s fs')
    then show ?thesis using up [OF stat_inv [OF assms(2) n(1) stat_entry(2)]] by simp
  next
    case (set_attribs env info valid attribs fs err s fs')
    then show ?thesis using up [OF setAttr_inv [OF assms(2) n(1) set_attribs(2)]] by simp
  next
    case (unlink_file env p name wanted fs err inode info s fs')
    then show ?thesis using unlinkFile_inv [OF assms(2,3) unlink_file(2)] by simp
  next
    case (unlink_inode env info wanted fs err inode s fs')
    then show ?thesis using refs_inv_mono [OF unlinkInode_inv [OF assms(2) n(3) unlink_inode(2)]] by simp
  next
    case (link_file env parentInfo info fromName toName fs err s fs')
    have "world_inv (Suc n) w'"
      using link_inv [OF assms(2) n(3) link_file(2)]
      by (cases "linkLosesDir env (infoEntryID parentInfo) (theStore w) fs")
        (simp_all only: link_file(1) world_simps if_True if_False handle_sums(2) store_simps)
    then show ?thesis by (rule refs_inv_mono) simp
  next
    case (rename_entry p env fromName toName fs err inode s fs')
    then show ?thesis using rename_inv [OF assms(2,3) rename_entry(3,4)] by simp
  next
    case (new_file p env acls counter mk pattern fs err info counter' s fs')
    then show ?thesis using refs_inv_mono [OF newFile_inv [OF assms(2) new_file(3)]] by simp
  next
    case (insert_remote env info p name buf fs err inode info' s fs')
    then show ?thesis using refs_inv_mono [OF insertRemote_inv [OF assms(2) n(2) insert_remote(2)]] by simp
  next
    case (insert_disposable env inode fs err s fs')
    then show ?thesis using refs_inv_mono [OF disposable_inv [OF assms(2) insert_disposable(2)]] by simp
  next
    case (set_parent env info node fs err s fs')
    then show ?thesis using refs_inv_mono [OF setDirParent_inv [OF assms(2) n(3) set_parent(2)]] by simp
  next
    case (sweep env swept s)
    then show ?thesis using refs_inv_mono [OF sweep_inv [OF assms(2) sweep(2)]] by simp
  qed
qed

lemma world_run_inv: "store_run k w \<Longrightarrow> k < 2 ^ 27 \<Longrightarrow> world_inv (4 * k) w"
proof (induction rule: store_run.induct)
  case (start d)
  then show ?case using empty_inv by simp
next
  case (step k w w')
  then show ?case using step_inv [OF step.hyps(2), of "4 * k"] by (simp add: add.commute)
qed

section \<open>What the counts give\<close>

text \<open>How the counts of a directory and of a file come about.\<close>

definition dir_accounted :: "StoreWorld \<Rightarrow> string \<Rightarrow> bool" where
  "dir_accounted w p \<longleftrightarrow>
     (case fmlookup (storeDirs (dirStore (theStore w))) p of
        None \<Rightarrow> dirHandles w p = 0 \<and> lostDirs w p = 0
      | Some r \<Rightarrow>
          unat (dirRefCount r) = dirHandles w p + lostDirs w p + totalRefs (dirFiles r) +
            (if p \<in> set (refCache (dirStore (theStore w))) then 1 else 0) \<and> 0 < dirRefCount r)"

definition file_accounted :: "StoreWorld \<Rightarrow> string \<Rightarrow> bool" where
  "file_accounted w e \<longleftrightarrow>
     (case fmlookup (fileStore (theStore w)) e of
        Some r \<Rightarrow> fileHandles w e \<noteq> [] \<and> unat (refCount r) = length (fileHandles w e)
      | None \<Rightarrow>
          (case fileHandles w e of
             [] \<Rightarrow> \<forall>p. fmlookup (filesIn (theStore w) p) e = None
           | p # ps \<Rightarrow> set ps \<subseteq> {p} \<and>
               (case fmlookup (filesIn (theStore w) p) e of
                  None \<Rightarrow> False
                | Some r \<Rightarrow> unat (refCount r) = length (fileHandles w e) \<and>
                    unat (fiNumParentRefs (refObject r)) = length (fileHandles w e))))"

lemma inv_dir:
  assumes "world_inv n w"
  shows "dir_accounted w p"
proof -
  have c: "counts (dirStore (theStore w)) (\<lambda>p. dirHandles w p + lostDirs w p + totalRefs (filesIn (theStore w) p) +
      cached (dirStore (theStore w)) p)"
    using refs_invD(3) [OF assms] by (simp add: dir_ok_def)
  show ?thesis
  proof (cases "fmlookup (storeDirs (dirStore (theStore w))) p")
    case None
    with countsD(2) [OF c None] show ?thesis by (simp add: dir_accounted_def)
  next
    case (Some r)
    have f: "filesIn (theStore w) p = dirFiles r" using Some by (simp add: filesAt_def)
    from countsD(1) [OF c Some] f have u: "unat (dirRefCount r) = dirHandles w p + lostDirs w p + totalRefs (dirFiles r) +
        cached (dirStore (theStore w)) p" "0 < unat (dirRefCount r)" by simp_all
    moreover from u(2) have "0 < dirRefCount r" by (simp add: word_less_nat_alt)
    ultimately show ?thesis using Some by (simp add: dir_accounted_def cached_def)
  qed
qed

lemma inv_file:
  assumes inv: "world_inv n w"
  shows "file_accounted w e"
proof -
  note d = refs_invD [OF inv]
  show ?thesis
  proof (cases "fmlookup (fileStore (theStore w)) e")
    case (Some r)
    with store_okD [OF d(1) Some] d(5) [of e] show ?thesis
      by (auto simp: file_accounted_def held_def refsIn_def)
  next
    case None
    then have h: "\<forall>p. refsIn (filesIn (theStore w) p) e = count_list (fileHandles w e) p"
      "\<forall>a \<in> set (fileHandles w e). \<forall>b \<in> set (fileHandles w e). a = b"
      using d(5) [of e] by (simp_all add: held_def)
    show ?thesis
    proof (cases "fileHandles w e")
      case Nil
      then have "refsIn (filesIn (theStore w) p) e = 0" for p using h(1) by simp
      then have "fmlookup (filesIn (theStore w) p) e = None" for p
        using refsIn_pos [OF d(2) [of p], of e] by simp
      with Nil None show ?thesis by (simp add: file_accounted_def)
    next
      case (Cons p ps)
      then have ps: "set ps \<subseteq> {p}" using h(2) by auto
      then have "count_list (fileHandles w e) p = length (fileHandles w e)"
        using count_all [of "fileHandles w e" p] Cons by simp
      then have k: "refsIn (filesIn (theStore w) p) e = length (fileHandles w e)" using h(1) by simp
      moreover have "0 < length (fileHandles w e)" using Cons by simp
      ultimately obtain r where r: "fmlookup (filesIn (theStore w) p) e = Some r"
        using refsIn_pos [OF d(2) [of p], of e] by fastforce
      then have "unat (refCount r) = length (fileHandles w e)"
        "unat (fiNumParentRefs (refObject r)) = length (fileHandles w e)"
        using k d(4) [of p e] by (simp_all add: refsIn_def parentRefs_def)
      with None Cons r ps show ?thesis by (simp add: file_accounted_def)
    qed
  qed
qed

lemma inv_nothing_held:
  assumes inv: "world_inv n w" and files: "\<forall>e. fileHandles w e = []" and dirs: "\<forall>p. dirHandles w p = 0"
  shows "fileStore (theStore w) = fmempty"
    "case fmlookup (storeDirs (dirStore (theStore w))) p of
       None \<Rightarrow> lostDirs w p = 0
     | Some r \<Rightarrow> dirFiles r = fmempty \<and> 0 < dirRefCount r \<and>
         unat (dirRefCount r) = lostDirs w p +
           (if p \<in> set (refCache (dirStore (theStore w))) then 1 else 0)"
proof -
  have "fmlookup (fileStore (theStore w)) e = None" for e
    using inv_file [OF inv, of e] files by (auto simp: file_accounted_def split: option.splits)
  then show g: "fileStore (theStore w) = fmempty" by (intro fmap_ext) simp
  have "fmlookup (filesIn (theStore w) p) e = None" for e
    using inv_file [OF inv, of e] files g by (simp add: file_accounted_def)
  then have "filesIn (theStore w) p = fmempty" by (intro fmap_ext) simp
  then show "case fmlookup (storeDirs (dirStore (theStore w))) p of
       None \<Rightarrow> lostDirs w p = 0
     | Some r \<Rightarrow> dirFiles r = fmempty \<and> 0 < dirRefCount r \<and>
         unat (dirRefCount r) = lostDirs w p +
           (if p \<in> set (refCache (dirStore (theStore w))) then 1 else 0)"
    using inv_dir [OF inv, of p] dirs
    by (simp add: dir_accounted_def filesAt_def totalRefs_def split: option.splits)
qed

lemma inv_release_total:
  assumes inv: "world_inv n w" and n: "n + 3 < 2 ^ 30" and hold: "p \<in> set (fileHandles w e)"
    and lim: "2 \<le> dirMetadataCacheLimit env"
  shows "\<exists>s' fs'. ms_releaseFile env p e (theStore w) fs = Some (True, s', fs')"
proof -
  note d = refs_invD [OF inv]
  obtain u m where u: "releaseFileInode e (fileStore (theStore w)) = (u, m)" by fastforce
  have "\<exists>r. ms_releaseFile env p e (theStore w) fs = Some r"
  proof (cases "fmlookup (fileStore (theStore w)) e")
    case (Some x)
    then have "u" using release_file_given [OF d(1) u] by simp
    then show ?thesis using u by (auto simp: ms_releaseFile_def)
  next
    case None
    then have u: "releaseFileInode e (fileStore (theStore w)) = (False, fileStore (theStore w))"
      by (simp add: releaseFileInode_def)
    obtain s1 where rd: "ms_referenceDir env p False (theStore w) fs = Some (True, s1, fs)"
      using refdir_total [OF inv _ lim, of p fs] n by auto
    note l = release_local [OF inv n hold None rd]
    obtain x where "fmlookup (filesIn s1 p) e = Some x" using l(2) by blast
    with u rd l(1) show ?thesis
      by (cases "releaseFileInode e (updateObject e decParentRef (filesIn s1 p))")
        (simp add: ms_releaseFile_def)
  qed
  then obtain res s' fs' where r: "ms_releaseFile env p e (theStore w) fs = Some (res, s', fs')"
    by (metis surj_pair)
  with releaseFile_inv [OF inv n hold r] show ?thesis by auto
qed

text \<open>A file of the disk is opened.\<close>

definition demo_env :: StoreEnv where
  "demo_env = \<lparr>metaCfg = demo_cfg, dirMetadataCacheLimit = 64, selfTerminate = False, envNow = 50,
     envTID = 1, envRandom = 0\<rparr>"

lemma demo_limit: "2 \<le> dirMetadataCacheLimit demo_env"
  by (simp add: demo_env_def)

lemma demo_open:
  "\<exists>w. store_run 1 w \<and> fileHandles w = (\<lambda>_. [])(''4-5-6'' := [''1-2-3'']) \<and> dirHandles w = (\<lambda>_. 0)"
proof -
  let ?w = "emptyWorld (blankDirNode demo_cfg [])" and ?i = "demo_info False"
  obtain g fs where g: "createFromEntryInfo demo_cfg ?i fs = Some (Some g, fs)"
    using demo_loadable by blast
  then have free: "fiExclusiveTID g = 0" using fresh_created by (fastforce simp: fresh_refs_def)
  obtain s1 where rd: "ms_referenceDir demo_env ''1-2-3'' False (theStore ?w) fs = Some (True, s1, fs)"
    using refdir_total [OF empty_inv, of demo_env "''1-2-3''"] by (auto simp: demo_env_def)
  have i1: "refs_inv 1 (fileHandles ?w)
      ((\<lambda>p. dirHandles ?w p + lostDirs ?w p)(''1-2-3'' := Suc (dirHandles ?w ''1-2-3'' + lostDirs ?w ''1-2-3''))) s1"
    and f1: "filesIn s1 = filesIn (theStore ?w)"
    using refdir_inv [OF empty_inv _ rd] by simp_all
  obtain x where "fmlookup (storeDirs (dirStore s1)) ''1-2-3'' = Some x"
    using dir_there [OF i1, of "''1-2-3''"] by auto
  moreover have "filesIn s1 ''1-2-3'' = fmempty" unfolding f1 by (simp add: filesAt_def emptyWorld_def)
  ultimately have fo: "filesOf ''1-2-3'' s1 = Some fmempty" using filesOf_there by fastforce
  have "\<exists>m. ifs_openFile demo_cfg 1 ?i 1 True fmempty fs = Some (FhgfsOpsErr_SUCCESS, m, fs)"
    using g free by (simp add: ifs_openFile_def ifs_referenceFileInode_def loadIfMissing_def
        loadAndInsertFileInode_def referenceLoadedFile_def lockedByOther_def newFileReferencer_def)
  then have "\<exists>s. ms_openFile demo_env ?i 1 (theStore ?w) fs = Some (FhgfsOpsErr_SUCCESS, s, fs)"
    using rd fo by (auto simp: ms_openFile_def isInStore_def emptyWorld_def demo_env_def Let_def)
  then obtain s where op: "ms_openFile demo_env ?i 1 (theStore ?w) fs = Some (FhgfsOpsErr_SUCCESS, s, fs)"
    by blast
  have "mayUse ?w (infoParentEntryID ?i) (infoEntryID ?i)"
    by (simp add: admissible_def emptyWorld_def)
  from store_run.step [OF store_run.start store_step.open_file [OF this op]]
  have "store_run 1 (takeFile True ''1-2-3'' ''4-5-6'' (?w\<lparr>theStore := s\<rparr>))" by simp
  then show ?thesis by (intro exI conjI) (assumption, simp_all add: emptyWorld_def)
qed

section \<open>Properties\<close>

text \<open>
  C14: Every reference is accounted for, after any run of the calls of \<open>store_step\<close>. The count of a
  directory is the number of references that callers hold, plus those that links lost (the directory
  could be referenced, but not loaded), plus one for each reference to a file that was referenced
  under it, plus one if it is cached; it is not in the store otherwise. The count of a file is the
  number of references that callers hold, wherever it is: in the global store, or in the store of
  the one directory under which it is used, where it also knows how many references to the
  directory it keeps.

  The runs are those in which callers release only what they hold, reference a file that is not in
  the global store under one directory only (\<open>mayUse\<close>), make fewer than $2^{27}$ calls, and make
  none of the calls that break the counts or lock an inode: a rename of a file that ends at the check
  of the overwritten entry (C12 shows what it keeps), \<open>moveRemoteFileBegin\<close> and \<open>moveRemoteFileComplete\<close>.
\<close>

theorem references_accounted:
  assumes "store_run k w" and "k < 2 ^ 27"
  shows "dir_accounted w p \<and> file_accounted w e"
  using inv_dir inv_file world_run_inv [OF assms] by blast

text \<open>
  C34: Who holds a file can release it. Whatever the other callers did in between (opening,
  closing and unlinking it, moving it to the global store, sweeping the cache), the release finds the
  file where it is now and does not fail. The cache is assumed to have room for two directories.
\<close>

theorem holder_can_release:
  assumes "store_run k w" and "k < 2 ^ 27" and "p \<in> set (fileHandles w e)"
    and "2 \<le> dirMetadataCacheLimit env"
  shows "\<exists>s' fs'. ms_releaseFile env p e (theStore w) fs = Some (True, s', fs')"
  using inv_release_total [OF world_run_inv [OF assms(1,2)] _ assms(3,4)] assms(2) by simp

text \<open>
  C6: What is left when all callers have given back what they held, after a run of the calls of
  \<open>store_step\<close>: no file is in a store, and a directory is there only as it is in the cache, which
  has one reference to it, or as links lost references to it, which are exactly the others. So
  without such a link nothing is leaked. The runs are those of C14: no rename of a file that ends at the
  check of the overwritten entry (it leaks a file, C12), no \<open>moveRemoteFileBegin\<close> or
  \<open>moveRemoteFileComplete\<close>, files outside the global store used under one directory only, and fewer
  than $2^{27}$ calls.
\<close>

theorem nothing_leaked:
  assumes "store_run k w" and "k < 2 ^ 27" and "fileHandles w = (\<lambda>_. [])" and "dirHandles w = (\<lambda>_. 0)"
  shows "fileStore (theStore w) = fmempty \<and>
    (case fmlookup (storeDirs (dirStore (theStore w))) p of
       None \<Rightarrow> lostDirs w p = 0
     | Some r \<Rightarrow> dirFiles r = fmempty \<and> 0 < dirRefCount r \<and>
         unat (dirRefCount r) = lostDirs w p +
           (if p \<in> set (refCache (dirStore (theStore w))) then 1 else 0))"
proof -
  have h: "\<forall>e. fileHandles w e = []" "\<forall>p. dirHandles w p = 0" using assms(3,4) by simp_all
  from inv_nothing_held [OF world_run_inv [OF assms(1,2)] h] show ?thesis by blast
qed

theorem references_accounted_witness:
  "\<exists>w. store_run 1 w \<and> fileHandles w ''4-5-6'' = [''1-2-3''] \<and>
     dir_accounted w ''1-2-3'' \<and> file_accounted w ''4-5-6''"
proof -
  obtain w where w: "store_run 1 w" "fileHandles w = (\<lambda>_. [])(''4-5-6'' := [''1-2-3''])"
    using demo_open by blast
  then show ?thesis using references_accounted [OF w(1)] by (intro exI [of _ w]) simp
qed

theorem holder_can_release_witness:
  "\<exists>w s' fs'. store_run 1 w \<and>
     ms_releaseFile demo_env ''1-2-3'' ''4-5-6'' (theStore w) empty_fs = Some (True, s', fs')"
proof -
  obtain w where w: "store_run 1 w" "fileHandles w = (\<lambda>_. [])(''4-5-6'' := [''1-2-3''])"
    using demo_open by blast
  have "\<exists>s' fs'. ms_releaseFile demo_env ''1-2-3'' ''4-5-6'' (theStore w) empty_fs = Some (True, s', fs')"
    using holder_can_release [OF w(1) _ _ demo_limit] w(2) by simp
  with w(1) show ?thesis by blast
qed

theorem nothing_leaked_witness:
  "\<exists>w w'. store_run 1 w \<and> fileHandles w ''4-5-6'' = [''1-2-3''] \<and> store_step w w' \<and>
     fileHandles w' = (\<lambda>_. []) \<and> fileStore (theStore w') = fmempty \<and>
     filesIn (theStore w') ''1-2-3'' = fmempty"
proof -
  obtain w where w: "store_run 1 w" "fileHandles w = (\<lambda>_. [])(''4-5-6'' := [''1-2-3''])"
    "dirHandles w = (\<lambda>_. 0)"
    using demo_open by blast
  have i: "world_inv 4 w" using world_run_inv [OF w(1)] by simp
  have hold: "''1-2-3'' \<in> set (fileHandles w ''4-5-6'')" using w(2) by simp
  obtain s' fs' where r: "ms_releaseFile demo_env ''1-2-3'' ''4-5-6'' (theStore w) empty_fs = Some (True, s', fs')"
    using inv_release_total [OF i _ hold demo_limit, of empty_fs] by auto
  define w' where "w' = dropFile ''1-2-3'' ''4-5-6'' (w\<lparr>theStore := s'\<rparr>)"
  have st: "store_step w w'" unfolding w'_def by (rule store_step.release_file [OF hold r])
  have run: "store_run (Suc 1) w'" by (rule store_run.step [OF w(1) st])
  have h: "fileHandles w' = (\<lambda>_. [])" "dirHandles w' = (\<lambda>_. 0)" using w(2,3) by (auto simp: w'_def fun_eq_iff)
  from nothing_leaked [OF run _ h, of "''1-2-3''"] have "fileStore (theStore w') = fmempty"
    "filesIn (theStore w') ''1-2-3'' = fmempty"
    by (simp_all add: filesAt_def split: option.splits)
  with w st h show ?thesis by (intro exI [of _ w] exI [of _ w']) simp
qed

end
