(* ===== verification/MetaStoreRename.thy ===== *)
theory MetaStoreRename
  imports MetaStoreRuns
begin

text \<open>
  A rename in one directory that ends because the new name must not be overwritten, and the
  reference that it leaves behind (\<open>MetaStore::performRenameEntryInSameDir\<close>).
\<close>

section \<open>A rename that ends early\<close>

lemma onNode_loaded:
  assumes "fmlookup (storeDirs (dirStore s)) p = Some r" "dnLoaded (dirObject r)"
  shows "onNode p (dn_loadIfNotLoaded cfg) s fs = Some (True, s, fs)"
proof -
  have "fmupd p r (storeDirs (dirStore s)) = storeDirs (dirStore s)"
    using assms(1) by (intro fmap_ext) auto
  with assms show ?thesis
    by (simp add: onNode_def nodeOf_def putNode_def putDir_def dn_loadIfNotLoaded_def)
qed

lemma reference_idle_file:
  assumes dir: "fmlookup (storeDirs (dirStore s)) p = Some r"
    and idle: "fmlookup (fileStore s) (infoEntryID info) = None"
      "fmlookup (dirFiles r) (infoEntryID info) = None"
    and load: "createFromEntryInfo (metaCfg env) info fs = Some (Some f, fs)"
  shows "referenceFileIn env p info s fs = Some (True, putFiles p
      (fmupd (infoEntryID info) (ref_reference (newFileReferencer f))
        (fmupd (infoEntryID info) (newFileReferencer f) (dirFiles r))) s, fs)"
proof -
  have "fiExclusiveTID f = 0" using fresh_created [OF load] by (simp add: fresh_refs_def)
  with assms show ?thesis
    by (simp add: referenceFileIn_def ifs_referenceFileInode_def loadIfMissing_def
        loadAndInsertFileInode_def referenceLoadedFile_def lockedByOther_def newFileReferencer_def
        filesOf_def)
qed

text \<open>The reference that a rename took and did not give back.\<close>

lemma kept_reference_in_use:
  assumes dir: "fmlookup (storeDirs (dirStore s)) p = Some r"
    and idle: "fmlookup (fileStore s) (infoEntryID info) = None"
  shows "isFileUnlinkable env p info (putFiles p
      (fmupd (infoEntryID info) (ref_reference (newFileReferencer f)) m) s) = Some FhgfsOpsErr_INUSE"
  using assms by (simp add: isFileUnlinkable_def putFiles_def filesOf_def putDir_def isUnlinkable_def
      ref_reference_def newFileReferencer_def)

lemma hard_link_disk:
  obtains fs e1 e2 g where
    "createFromFile demo_cfg ''1-2-3'' ''f'' fs = Some (Some e1, fs)"
    "createFromFile demo_cfg ''1-2-3'' ''g'' fs = Some (Some e2, fs)"
    "dentryID (deData e1) = ''4-5-6''" "dentryID (deData e2) = ''4-5-6''" "entryType (deData e1) = 2"
    "createFromEntryInfo demo_cfg (de_getEntryInfo ''1-2-3'' 0 e1) fs = Some (Some g, fs)"
proof -
  obtain buf where buf: "de_serializeDentry demo_cfg demo_de = Some buf" using demo_buf by blast
  define fs where "fs = linked_fs\<lparr>fsLinks := (fsLinks linked_fs)(NamePath ''1-2-3'' ''g'' := Some 0),
    fsObjects := (\<lambda>_. newObject)(0 := newObject\<lparr>metaXAttr := Some buf\<rparr>)\<rparr>"
  have fs: "calm fs = fs" by (simp add: fs_def linked_fs_def empty_fs_def)
  have ok: "entry_disk_ok (deData demo_de) (deInode demo_de)" by (simp add: demo_de_def disk_entry_ok)
  have rec: "record_at demo_cfg fs q = Some (buf @ [])"
    if "q = NamePath ''1-2-3'' ''f'' \<or> q = NamePath ''1-2-3'' ''g'' \<or> q = IDPath ''1-2-3'' ''4-5-6''" for q
    using that by (auto simp: record_at_def storedIn_def fs_def linked_fs_def empty_fs_def)
  have load: "\<exists>e. createFromFile demo_cfg ''1-2-3'' name fs = Some (Some e, fs) \<and>
      dentryID (deData e) = ''4-5-6'' \<and> entryType (deData e) = 2" if "name = ''f'' \<or> name = ''g''" for name
    using load_entry [OF ok buf rec, of "NamePath ''1-2-3'' name" "emptyDirEntry demo_cfg name"] that
    by (auto simp: createFromFile_def loadFromFileName_def fs entry_restored_def Let_def demo_de_def
        disk_entry_def DirEntryType_ISDIR_def DirEntryType_DIRECTORY_def)
  obtain e1 where e1: "createFromFile demo_cfg ''1-2-3'' ''f'' fs = Some (Some e1, fs)"
    "dentryID (deData e1) = ''4-5-6''" "entryType (deData e1) = 2"
    using load [of "''f''"] by auto
  obtain e2 where e2: "createFromFile demo_cfg ''1-2-3'' ''g'' fs = Some (Some e2, fs)"
    "dentryID (deData e2) = ''4-5-6''"
    using load [of "''g''"] by auto
  let ?i = "de_getEntryInfo ''1-2-3'' 0 e1"
  have ids: "infoParentEntryID ?i = ''1-2-3''" "infoEntryID ?i = ''4-5-6''"
    using e1(2) by (simp_all add: de_getEntryInfo_def)
  have "entry_stored demo_cfg fs (infoParentEntryID ?i) (infoEntryID ?i) demo_de"
    using buf rec [of "IDPath ''1-2-3'' ''4-5-6''"] ok unfolding ids
    by (simp add: entry_stored_def DirEntryType_ISDIR_def DirEntryType_DIRECTORY_def)
  moreover have "getIsInodeInlined demo_de"
    by (simp add: getIsInodeInlined_def demo_de_def disk_entry_def DENTRY_FEATURE_INODE_INLINE_def
        DENTRY_FEATURE_IS_FILEINODE_def)
  ultimately obtain g where g: "createFromInlinedInode demo_cfg ?i fs = Some (Some g, fs)"
    using load_inlined [of demo_cfg fs ?i demo_de "(demo_file True)\<lparr>fiData := deInode demo_de\<rparr>"]
    by (auto simp: fs)
  have "fsLinks fs (InodePath ''4-5-6'') = None" by (simp add: fs_def linked_fs_def)
  then have "createFromInodeFile demo_cfg ?i fs = Some (None, fs)"
    using fs [symmetric] ids by (simp add: createFromInodeFile_def loadFromInodeFile_def fi_loadFromFileXAttr_def
        sys_getxattr_def sys_no_faults fs_def linked_fs_def empty_fs_def)
  then have "createFromEntryInfo demo_cfg ?i fs = Some (Some g, fs)"
    using g by (simp add: createFromEntryInfo_def)
  from that [OF e1(1) e2(1) e1(2) e2(2) e1(3) this] show thesis .
qed

section \<open>Property\<close>

text \<open>
  C12: A rename over a name that must not be overwritten (the other name of a hard link, or a
  directory) changes nothing and gives the result of the check, but the reference that it took to
  the file is not given back: a file that nobody uses counts as in use from then on, and its inode
  is not removed with its last name.
\<close>

theorem rename_keeps_reference:
  assumes "fmlookup (storeDirs (dirStore s)) p = Some r" and "dnLoaded (dirObject r)"
    and "createFromFile (metaCfg env) p fromName fs = Some (Some e, fs)"
    and "createFromFile (metaCfg env) p toName fs = Some (Some over, fs)"
    and "infoEntryType (de_getEntryInfo p 0 e) \<noteq> ucast DirEntryType_DIRECTORY"
    and "checkRenameOverwrite (de_getEntryInfo p 0 e) (de_getEntryInfo p 0 over) \<noteq> (FhgfsOpsErr_SUCCESS, False)"
    and "fmlookup (fileStore s) (dentryID (deData e)) = None"
    and "fmlookup (dirFiles r) (dentryID (deData e)) = None"
    and "createFromEntryInfo (metaCfg env) (de_getEntryInfo p 0 e) fs = Some (Some f, fs)"
  shows "isFileUnlinkable env p (de_getEntryInfo p 0 e) s = Some FhgfsOpsErr_SUCCESS \<and>
    (\<exists>s'. performRenameEntryInSameDir env p fromName toName s fs =
        Some (fst (checkRenameOverwrite (de_getEntryInfo p 0 e) (de_getEntryInfo p 0 over)), None, s', fs) \<and>
      isFileUnlinkable env p (de_getEntryInfo p 0 e) s' = Some FhgfsOpsErr_INUSE)"
proof -
  let ?i = "de_getEntryInfo p 0 e"
  let ?c = "checkRenameOverwrite ?i (de_getEntryInfo p 0 over)"
  have i: "infoEntryID ?i = dentryID (deData e)" by (simp add: de_getEntryInfo_def)
  note nodir = assms(5)
  note ref = reference_idle_file [OF assms(1) _ _ assms(9), unfolded i, OF assms(7,8)]
  have "snd ?c \<or> fst ?c \<noteq> FhgfsOpsErr_SUCCESS" using assms(6) by (cases ?c) auto
  then have "performRenameEntryInSameDir env p fromName toName s fs = Some (fst ?c, None, putFiles p
      (fmupd (dentryID (deData e)) (ref_reference (newFileReferencer f))
        (fmupd (dentryID (deData e)) (newFileReferencer f) (dirFiles r))) s, fs)"
    using onNode_loaded [OF assms(1,2)] assms(3,4) nodir ref
    by (auto simp: performRenameEntryInSameDir_def Let_def)
  moreover have "isFileUnlinkable env p ?i s = Some FhgfsOpsErr_SUCCESS"
    using assms(1,7,8) by (simp add: isFileUnlinkable_def filesOf_def isUnlinkable_def i)
  ultimately show ?thesis
    using kept_reference_in_use [OF assms(1), of ?i env f] assms(7) by (simp add: i)
qed

theorem rename_keeps_reference_witness:
  "\<exists>s s' fs info. isFileUnlinkable demo_env ''1-2-3'' info s = Some FhgfsOpsErr_SUCCESS \<and>
     performRenameEntryInSameDir demo_env ''1-2-3'' ''f'' ''g'' s fs = Some (FhgfsOpsErr_SUCCESS, None, s', fs) \<and>
     isFileUnlinkable demo_env ''1-2-3'' info s' = Some FhgfsOpsErr_INUSE"
proof -
  obtain fs e1 e2 g where d: "createFromFile demo_cfg ''1-2-3'' ''f'' fs = Some (Some e1, fs)"
    "createFromFile demo_cfg ''1-2-3'' ''g'' fs = Some (Some e2, fs)"
    "dentryID (deData e1) = ''4-5-6''" "dentryID (deData e2) = ''4-5-6''" "entryType (deData e1) = 2"
    "createFromEntryInfo demo_cfg (de_getEntryInfo ''1-2-3'' 0 e1) fs = Some (Some g, fs)"
    using hard_link_disk by blast
  define d0 where "d0 = (blankDirNode demo_cfg ''1-2-3'')\<lparr>dnLoaded := True\<rparr>"
  define r where "r = \<lparr>dirRefCount = 1, dirObject = d0, dirFiles = fmempty\<rparr>"
  define s where "s = \<lparr>dirStore = \<lparr>storeDirs = fmupd ''1-2-3'' r fmempty, refCache = []\<rparr>,
    fileStore = fmempty, disposalDir = d0\<rparr>"
  have cfg: "metaCfg demo_env = demo_cfg" by (simp add: demo_env_def)
  have c: "checkRenameOverwrite (de_getEntryInfo ''1-2-3'' 0 e1) (de_getEntryInfo ''1-2-3'' 0 e2) =
      (FhgfsOpsErr_SUCCESS, True)"
    using d(3,4) by (simp add: checkRenameOverwrite_def de_getEntryInfo_def)
  from rename_keeps_reference [of s "''1-2-3''" r demo_env "''f''" fs e1 "''g''" e2 g, unfolded cfg]
    d c show ?thesis
    by (auto simp: s_def r_def d0_def de_getEntryInfo_def DirEntryType_DIRECTORY_def)
qed

end
