(* ===== verification/Spec2Isabelle.thy ===== *)
theory Spec2Isabelle
  imports RangeLocking LockSerial TargetPools BuddyCreator StateFile MetaStoreRename
begin

text \<open>
  BeeGFS 2015.03, the core logic of the metadata and the management server, modelled and
  verified.

  A BeeGFS file system consists of metadata servers (fhgfs_meta), storage servers
  (fhgfs_storage), a management server (fhgfs_mgmtd), the client module and tools; the servers
  share the library fhgfs_common. A file is an inode on one metadata server and one chunk file
  on each of its storage targets; the inode's stripe pattern says which bytes are in which
  chunk file. Clients lock whole files and byte ranges at the metadata server, messages and disk
  records are written in one serialization format. The management server gives numeric IDs to
  nodes and targets, knows which server a target belongs to and in which state it is, sorts the
  targets into capacity pools from which the metadata server chooses the targets of a new file,
  and pairs targets into mirror buddy groups whose members it switches when a primary fails.

  The theories and the code they model (below src/):

  \<^item> \<open>Prelude\<close>: word abbreviations (\<open>u8\<close> .. \<open>u64\<close>, \<open>i32\<close>, \<open>i64\<close>: signed values are words read
    with \<open>sint\<close>), facts on maps and lists, locales for sets kept as ordered lists.
  \<^item> \<open>EntryLocks\<close>: fhgfs_meta/source/storage/Locking.h, \<open>EntryLockDetails\<close>, and the
    \<open>flockAppend...\<close> and \<open>flockEntry...\<close> methods of FileInode.cpp. The queues of an inode are a
    record, each method a function on it that also returns the locks to be notified.
  \<^item> \<open>RangeLocks\<close>, \<open>RangeBytes\<close>, \<open>RangeLocking\<close>: \<open>RangeLockDetails\<close> and the \<open>flockRange...\<close>
    methods; the second gives them their meaning as sets of bytes per process, the third
    has the invariant and the properties.
  \<^item> \<open>Serial\<close>: fhgfs_common/source/common/toolkit/serialization. A writer gives the bytes, a
    reader takes the buffer and the length the code passes and gives the value with the bytes
    used, rejects, or reads beyond the buffer, which the model makes an outcome of its own.
  \<^item> \<open>LockSerial\<close>: fhgfs_meta/source/toolkit/LockingTk.cpp and the lock state of an inode.
  \<^item> \<open>MathTk\<close>, \<open>Striping\<close>: MathTk.h and fhgfs_common/source/common/storage/striping: the stripe
    patterns RAID0, RAID10, buddy mirror and the dummy pattern, as one record with a class tag;
    the pattern of a new file (DirInode.cpp).
  \<^item> \<open>ChunkInfo\<close>, \<open>StatData\<close>, \<open>FileSize\<close>: the attributes of chunk files and inodes, their
    serialization, the split of a file size over the targets and the computation of the file
    size from the chunk files (ChunkFileInfo.h, DynamicFileAttribs.h, StatData.cpp,
    ChunksBlocksVec.h, \<open>FileInode::initFileInfoVec\<close>).
  \<^item> \<open>InodeData\<close>, \<open>EntryInfo\<close>, \<open>DiskMeta\<close>: the data of entries and inodes
    (FileInodeStoreData.h/.cpp, DentryStoreData.h, PathInfo, HsmFileMetaData, EntryInfo) and
    their records on disk (DiskMetaData.cpp).
  \<^item> \<open>MetaFs\<close>, \<open>DirEntry\<close>: the local file system of a metadata server, in which every system
    call may fail, and DirEntry.cpp and DirEntryStore.cpp over it (\<open>removeBusyFile\<close>, which
    updates the disposal directory, is in \<open>DirNode\<close>).
  \<^item> \<open>FileInode\<close>: FileInode.h/.cpp without the locks: an inode in memory, its loading from and
    storing to its entry or a file of its own, and the operations on it.
  \<^item> \<open>PosixACL\<close>, \<open>FileIDs\<close>: PosixACL.h/.cpp and the IDs of new files (StorageTk.h/.cpp).
  \<^item> \<open>InodeFileStore\<close>: InodeFileStore.h/.cpp with ObjectReferencer.h: the files in use below one
    directory, or in the global store, as a map of counted references.
  \<^item> \<open>DirNode\<close>, \<open>InodeDirStore\<close>: DirInode.h/.cpp, a directory in memory with its store of files,
    and InodeDirStore.h/.cpp with AtomicObjectReferencer.h, the directories in use and the cache
    that keeps some of them loaded.
  \<^item> \<open>MetaStore\<close>, \<open>MetaStoreOps\<close>: MetaStore.h/.cpp and MetaStoreRename.cpp: references to
    directories and files, opening and closing, the move of a file to the global store,
    attributes; unlinking, linking, creating, renaming and moving files to another server.
  \<^item> \<open>MetaStoreRefs\<close>, \<open>MetaStoreSteps\<close>, \<open>MetaStoreRuns\<close>, \<open>MetaStoreRename\<close>: who holds what: a ledger of
    the references of the callers, the invariant that joins it with the counts of the store, its
    preservation by each method, runs of calls (all but the rename of a file that ends at the
    overwrite check and the two methods that move a file to another server), and that rename,
    which loses a reference.
  \<^item> \<open>OrdMap\<close>: std::map as the list of its pairs in key order, and the interface of a table.
  \<^item> \<open>CapacityPools\<close>, \<open>TargetPools\<close>: NodeCapacityPools and TargetCapacityPools below
    fhgfs_common/source/common/nodes, with RandomReentrant.h: the pools and every chooser; random
    numbers are drawn from the state of the generator as the code does.
  \<^item> \<open>MapFile\<close>, \<open>NumericIDs\<close>, \<open>TargetStates\<close>, \<open>TargetMapper\<close>: MapTk and the conversions of
    StringTk it needs, NumericIDMapper, TargetStateStore, TargetMapper. A file is its text.
  \<^item> \<open>BuddyGroups\<close>, \<open>BuddyCreator\<close>: MirrorBuddyGroupMapper and MirrorBuddyGroupCreator.
  \<^item> \<open>MgmtdStates\<close>, \<open>StateFile\<close>: fhgfs_mgmtd/source/nodes/MgmtdTargetStateStore and the
    serialization of its table.

  What the groups of lemmas show:

  \<^item> Locks (C1 to C5, C7 to C11): the queues stay well formed, exclusive holders are alone, requests are
    granted exactly when nothing conflicts, unlock and cancel release exactly what they should,
    no waiter is left behind. C5 and C9 show where the code departs from this: a waiting writer is
    granted its lock beside the remaining readers when one of them unlocks, and an unlock
    leaves the shared locks of a process that holds the whole range exclusively.
  \<^item> Metadata store (C6, C12, C14, C34): after a run of the calls of \<open>store_step\<close> every count is exactly
    what callers, files and the cache hold, and what links have lost whose directory could not be
    loaded (a ghost counter); who holds a file can release it wherever it has been moved; nothing
    else is left when everything has been released. C12 is the rename that is not in these
    runs: it loses a reference to a file.
  \<^item> Wire format: what is written is read back, for every list type, and the readers stay within
    the buffer, except for the length fields that \<open>Serial\<close> names.
  \<^item> Entries and inodes on disk (C13, C15 to C17, C21, C22): records are read back in every
    format, they fit the buffer of the code up to 386 targets (321 with RAID10) but not beyond,
    an entry is created completely or not at all whatever fails, and the record of a file that is
    still open is kept.
  \<^item> Inodes (C20, C26, C29): an inode that was stored is loaded with the same attributes, inlined
    or not (the inlined one under the conditions of C26), the path of its chunk files survives every
    operation in memory, and in a record as far as it is part of it; how it is lost when the
    entry of an inlined inode cannot be updated (C20).
  \<^item> Striping and file sizes (C18, C19, C27, C28): the mask and shift computations are
    division and remainder, sizes split and computed agree; \<open>stripe_set_size_wraps\<close> shows how the
    stripe set size becomes wrong.
  \<^item> New files (C23, C25): IDs never repeat, what a default ACL makes of the mode.
  \<^item> Choice of targets (C30 to C33): which targets are chosen and how many, that the loop for
    preferred targets ends, fairness of round-robin, the invariant of the groups by node and the
    calls that break it.
  \<^item> Management of targets (C24, C35 to C40): IDs are unique, the attached stores follow the
    mapper, every target is in one group at most on every server that keeps the tables of the
    managing one, groups are created for all targets (with unique group IDs), a group is
    only switched to a secondary that is online and good, the files give the tables back.

  How the code is read:

  \<^item> Objects are records, a method gives the changed object; classes with virtual methods are a
    record with a class tag. The reference counts of the metadata store
    are modelled; mutexes and logging are left out, as every method modelled holds its lock from
    the beginning to its end.
  \<^item> Loops are structural recursion over the container as it was when the loop began, which is
    what the iterators of the code see; the loops that count or draw until they find something
    (free IDs, targets that are not chosen yet, pairs of targets) are functions with a
    termination proof, and no definition needs fuel. The bounds in the
    properties are those of the code's types: a range lock must not end at byte 2^64-1, where
    \<open>end + 1\<close> wraps around (\<open>rl_bounded\<close>), IDs and lists stay below 4 GiB so that the
    32-bit lengths do not wrap, file sizes stay below 2^62 or 2^61, fewer than 65534 groups are
    made (there are no more IDs).
  \<^item> Padding bytes are zero, as in debug builds; release builds leave them uninitialised, and no
    reader looks at them.
  \<^item> The current time, the configuration, the answers of other servers and the contents of files
    are arguments.

  \<^item> The runs of the metadata store have fewer than 2^27 calls, so that no count of 32 bits wraps
    around (the bounds of the counts rise by at most four with each call).

  Not modelled: sockets, connection pools, threads and message handlers (I/O around the
  operations modelled here); sessions, quota and node stores (tables with reference counts or
  limits, without logic beyond that of the stores modelled); mirroring and resynchronisation
  (threads that copy files); the file system check, monitoring and command line tools
  (queries and front ends); listings of directories; the client kernel module; the copies of old
  versions under fhgfs_upgrade and third-party code.
\<close>

end
